(* ===== verification/Prelude.thy ===== *)
theory Prelude
  imports Main "HOL-Library.List_Lexorder" "HOL-Library.Char_ord" "HOL-Library.Product_Lexorder"
begin

text \<open>
  Shared vocabulary of the development: time, identifiers, the SQL statements of the
  repositories as list functions over rows, SQL's three-valued comparisons with NULL, the bounded
  exponential backoff that five repositories share, and the string operations of the
  TypeScript source.
\<close>

named_theorems sql_simps \<open>equations of the table operations\<close>

section \<open>Time and identifiers\<close>

text \<open>
  A time is a number of milliseconds. PostgreSQL's now() is fixed for a transaction, so every
  repository operation takes one time \<open>now\<close>; where the TypeScript also reads its own
  clock with new Date() the operation takes a second time \<open>wall\<close>. Identifiers and
  lease tokens are the text of a uuid, generated outside the model and passed in.
\<close>

type_synonym timestamp = int
type_synonym uuid = string

definition seconds :: "int \<Rightarrow> timestamp" where
  "seconds n = n * 1000"

definition minutes :: "int \<Rightarrow> timestamp" where
  "minutes n = n * 60000"

definition days :: "int \<Rightarrow> timestamp" where
  "days n = n * 86400000"

definition lease_ttl :: timestamp where
  "lease_ttl = minutes 2"

lemma lease_ttl_pos [simp]: "0 < lease_ttl"
  by (simp add: lease_ttl_def minutes_def)

text \<open>
  A comparison with NULL is neither true nor false, and a WHERE clause keeps a row only when
  its condition is true.
\<close>

fun null_before :: "timestamp option \<Rightarrow> timestamp \<Rightarrow> bool" where
  "null_before None _ = False"
| "null_before (Some t) now = (t < now)"

fun null_after :: "timestamp option \<Rightarrow> timestamp \<Rightarrow> bool" where
  "null_after None _ = False"
| "null_after (Some t) now = (now < t)"

lemma null_before_not_after: "null_before t now \<Longrightarrow> \<not> null_after t now"
  by (cases t) auto

lemma null_after_Some: "null_after t now \<longleftrightarrow> (\<exists>x. t = Some x \<and> now < x)"
  by (cases t) auto

fun coalesce :: "'a option \<Rightarrow> 'a \<Rightarrow> 'a" where
  "coalesce None y = y"
| "coalesce (Some x) _ = x"

fun coalesce_opt :: "'a option \<Rightarrow> 'a option \<Rightarrow> 'a option" where
  "coalesce_opt None y = y"
| "coalesce_opt (Some x) _ = Some x"

section \<open>Statements on tables\<close>

text \<open>
  A table is a list of rows. The argument of \<open>sql_update\<close> is the WHERE clause and the
  SET clause together: None leaves the row alone, Some is the updated row. The rows an UPDATE
  ... RETURNING yields are \<open>sql_returning\<close>, its rowCount is \<open>sql_count\<close>.
\<close>

type_synonym 'r table = "'r list"
type_synonym 'r row_update = "'r \<Rightarrow> 'r option"

definition sql_update :: "'r row_update \<Rightarrow> 'r table \<Rightarrow> 'r table" where
  "sql_update f rows = map (\<lambda>r. case f r of None \<Rightarrow> r | Some r' \<Rightarrow> r') rows"

definition sql_returning :: "'r row_update \<Rightarrow> 'r table \<Rightarrow> 'r list" where
  "sql_returning f rows = List.map_filter f rows"

definition sql_count :: "'r row_update \<Rightarrow> 'r table \<Rightarrow> nat" where
  "sql_count f rows = length (sql_returning f rows)"

definition sql_delete :: "('r \<Rightarrow> bool) \<Rightarrow> 'r table \<Rightarrow> 'r table" where
  "sql_delete P rows = filter (\<lambda>r. \<not> P r) rows"

definition sql_where :: "('r \<Rightarrow> bool) \<Rightarrow> ('r \<Rightarrow> 'r) \<Rightarrow> 'r row_update" where
  "sql_where P f r = (if P r then Some (f r) else None)"

definition sql_top :: "nat \<Rightarrow> ('r \<Rightarrow> 'k :: linorder) \<Rightarrow> ('r \<Rightarrow> bool) \<Rightarrow> 'r table \<Rightarrow> 'r list" where
  "sql_top n key P rows = take n (sort_key key (filter P rows))"

text \<open>INSERT ... ON CONFLICT DO NOTHING on a key: the new row only where no row has its key.\<close>

definition sql_insert_new :: "('r \<Rightarrow> 'k) \<Rightarrow> 'r \<Rightarrow> 'r table \<Rightarrow> 'r table" where
  "sql_insert_new key r rows = (if key r \<in> key ` set rows then rows else rows @ [r])"

lemma sql_update_Nil [simp, sql_simps]: "sql_update f [] = []"
  by (simp add: sql_update_def)

lemma sql_update_Cons [simp, sql_simps]:
  "sql_update f (r # rows) = (case f r of None \<Rightarrow> r | Some r' \<Rightarrow> r') # sql_update f rows"
  by (simp add: sql_update_def)

lemma length_sql_update [simp]: "length (sql_update f rows) = length rows"
  by (simp add: sql_update_def)

lemma set_sql_update:
  "set (sql_update f rows) = (\<lambda>r. case f r of None \<Rightarrow> r | Some r' \<Rightarrow> r') ` set rows"
  by (simp add: sql_update_def)

lemma sql_update_cases:
  assumes "r \<in> set (sql_update f rows)"
  obtains (kept) "r \<in> set rows" "f r = None"
  | (changed) r0 where "r0 \<in> set rows" "f r0 = Some r"
  using assms by (auto simp: set_sql_update split: option.splits)

lemma sql_update_mem_kept: "r \<in> set rows \<Longrightarrow> f r = None \<Longrightarrow> r \<in> set (sql_update f rows)"
  by (force simp: set_sql_update)

lemma sql_update_mem_changed:
  "r \<in> set rows \<Longrightarrow> f r = Some r' \<Longrightarrow> r' \<in> set (sql_update f rows)"
  by (force simp: set_sql_update)

lemma sql_update_id: "(\<And>r. r \<in> set rows \<Longrightarrow> f r = None) \<Longrightarrow> sql_update f rows = rows"
  unfolding sql_update_def by (rule map_idI) simp

lemma map_sql_update_key:
  assumes "\<And>r r'. f r = Some r' \<Longrightarrow> key r' = key r"
  shows "map key (sql_update f rows) = map key rows"
  unfolding sql_update_def using assms by (auto split: option.splits)

lemma sql_returning_Nil [simp, sql_simps]: "sql_returning f [] = []"
  by (simp add: sql_returning_def)

lemma sql_returning_Cons [simp, sql_simps]:
  "sql_returning f (r # rows) =
     (case f r of None \<Rightarrow> sql_returning f rows | Some r' \<Rightarrow> r' # sql_returning f rows)"
  by (simp add: sql_returning_def split: option.splits)

lemma set_sql_returning: "set (sql_returning f rows) = {r'. \<exists>r \<in> set rows. f r = Some r'}"
  by (induction rows) (auto split: option.splits)

lemma sql_returning_Nil_iff:
  "sql_returning f rows = [] \<longleftrightarrow> (\<forall>r \<in> set rows. f r = None)"
  by (induction rows) (auto split: option.splits)

lemma sql_count_0_iff [simp]: "sql_count f rows = 0 \<longleftrightarrow> (\<forall>r \<in> set rows. f r = None)"
  by (simp add: sql_count_def sql_returning_Nil_iff)

lemma sql_update_count_0: "sql_count f rows = 0 \<Longrightarrow> sql_update f rows = rows"
  by (rule sql_update_id) simp

lemma sql_where_Some [simp]: "sql_where P f r = Some r' \<longleftrightarrow> P r \<and> r' = f r"
  by (auto simp: sql_where_def)

lemma sql_where_None [simp]: "sql_where P f r = None \<longleftrightarrow> \<not> P r"
  by (simp add: sql_where_def)

lemma set_sql_delete [simp]: "set (sql_delete P rows) = {r \<in> set rows. \<not> P r}"
  by (auto simp: sql_delete_def)

lemma set_sql_top: "set (sql_top n key P rows) \<subseteq> {r \<in> set rows. P r}"
  by (auto simp: sql_top_def dest: in_set_takeD)

lemma length_sql_top: "length (sql_top n key P rows) \<le> n"
  by (simp add: sql_top_def)

lemma sql_top_all:
  "length (filter P rows) \<le> n \<Longrightarrow> set (sql_top n key P rows) = {r \<in> set rows. P r}"
  by (simp add: sql_top_def)

lemma sql_top_short_all:
  assumes "length (sql_top n key P rows) < n"
  shows "set (sql_top n key P rows) = {r \<in> set rows. P r}"
  using assms by (intro sql_top_all) (simp add: sql_top_def)

lemma sql_top_first:
  assumes "x \<in> set (sql_top n key P rows)" "y \<in> set rows" "P y"
    and "y \<notin> set (sql_top n key P rows)"
  shows "key x \<le> key y"
proof -
  let ?xs = "sort_key key (filter P rows)"
  have y: "y \<in> set (drop n ?xs)"
    using assms(2-4) set_append [of "take n ?xs" "drop n ?xs"] by (auto simp: sql_top_def)
  have "sorted (map key (take n ?xs @ drop n ?xs))" by simp
  then show ?thesis
    using y assms(1) unfolding map_append sorted_append by (auto simp: sql_top_def)
qed

text \<open>A row of an updated table comes from a row of the old one.\<close>

definition row_after :: "'r row_update \<Rightarrow> 'r \<Rightarrow> 'r" where
  "row_after f r = (case f r of None \<Rightarrow> r | Some r' \<Rightarrow> r')"

lemma set_sql_update_after: "set (sql_update f rows) = row_after f ` set rows"
  by (simp add: set_sql_update row_after_def cong: image_cong)

lemma map_after: "sql_update f rows = map (row_after f) rows"
  by (simp add: sql_update_def row_after_def)

lemma filter_rest_same:
  assumes "\<And>y. y \<in> set ds \<Longrightarrow> Q (row_after f y) = P y"
  shows "length (filter Q (sql_update f ds)) = length (filter P ds)"
  using assms by (induction ds) (simp_all add: row_after_def)

text \<open>Primary keys: a table whose key column has no duplicates.\<close>

definition keyed :: "('r \<Rightarrow> 'k) \<Rightarrow> 'r table \<Rightarrow> bool" where
  "keyed key rows \<longleftrightarrow> distinct (map key rows)"

lemma keyed_Nil [simp]: "keyed key []"
  by (simp add: keyed_def)

lemma keyed_sql_update:
  "(\<And>r r'. f r = Some r' \<Longrightarrow> key r' = key r) \<Longrightarrow> keyed key (sql_update f rows) = keyed key rows"
  by (simp add: keyed_def map_sql_update_key)

lemma keyed_sql_delete [intro]: "keyed key rows \<Longrightarrow> keyed key (sql_delete P rows)"
  by (simp add: keyed_def sql_delete_def distinct_map_filter)

lemma keyed_snoc [simp]:
  "keyed key (rows @ [r]) \<longleftrightarrow> keyed key rows \<and> key r \<notin> key ` set rows"
  by (auto simp: keyed_def)

lemma keyed_insert_new [intro]: "keyed key rows \<Longrightarrow> keyed key (sql_insert_new key r rows)"
  by (simp add: sql_insert_new_def)

lemma keyed_inj: "keyed key rows \<Longrightarrow> r \<in> set rows \<Longrightarrow> r' \<in> set rows \<Longrightarrow> key r = key r' \<Longrightarrow> r = r'"
  by (auto simp: keyed_def distinct_map dest: inj_onD)

text \<open>An update of the row of one key returns that row.\<close>

lemma sql_returning_one:
  assumes "keyed key rows" "r \<in> set rows" "f r = Some r'" "\<And>v v'. f v = Some v' \<Longrightarrow> key v = key r"
  shows "sql_returning f rows = [r']"
  using assms(1,2)
proof (induction rows)
  case (Cons v rows)
  show ?case
  proof (cases "v = r")
    case True
    then have "f v' = None" if "v' \<in> set rows" for v'
    proof -
      have "key v' \<noteq> key r" using that True Cons.prems(1) by (metis image_eqI keyed_def distinct.simps(2) list.simps(9) set_map)
      then show ?thesis using assms(4) [of v'] by (cases "f v'") auto
    qed
    then show ?thesis using True assms(3) by (simp add: sql_returning_Nil_iff)
  next
    case False
    then have "key v \<noteq> key r" using keyed_inj [OF Cons.prems(1) _ Cons.prems(2), of v] by auto
    then have "f v = None" using assms(4) [of v] by (cases "f v") auto
    then show ?thesis using Cons False by (simp add: keyed_def)
  qed
qed simp

lemma sql_count_one:
  assumes "keyed key rows" "r \<in> set rows" "f r = Some r'" "\<And>v v'. f v = Some v' \<Longrightarrow> key v = key r"
  shows "sql_count f rows = 1"
  using sql_returning_one [where f = f, OF assms] by (simp add: sql_count_def)

text \<open>A multi-row INSERT ... ON CONFLICT DO NOTHING, one row for each parameter.\<close>

lemma mem_fold_insert_new:
  "x \<in> set (fold (\<lambda>p. sql_insert_new key (mk p)) ps rows) \<Longrightarrow> x \<in> set rows \<or> (\<exists>p \<in> set ps. x = mk p)"
  by (induction ps arbitrary: rows) (fastforce simp: sql_insert_new_def split: if_splits)+

lemma fold_insert_new_keeps: "set rows \<subseteq> set (fold (\<lambda>p. sql_insert_new key (mk p)) ps rows)"
proof (induction ps arbitrary: rows)
  case (Cons p ps)
  have "set rows \<subseteq> set (sql_insert_new key (mk p) rows)" by (auto simp: sql_insert_new_def)
  then show ?case using Cons.IH [of "sql_insert_new key (mk p) rows"] by simp
qed simp

lemma fold_insert_new_key:
  "p \<in> set ps \<Longrightarrow> key (mk p) \<in> key ` set (fold (\<lambda>p. sql_insert_new key (mk p)) ps rows)"
proof (induction ps arbitrary: rows)
  case (Cons q ps)
  show ?case
  proof (cases "p \<in> set ps")
    case True
    then show ?thesis using Cons.IH by simp
  next
    case False
    then have "key (mk p) \<in> key ` set (sql_insert_new key (mk q) rows)"
      using Cons.prems by (auto simp: sql_insert_new_def)
    then show ?thesis
      using fold_insert_new_keeps [of "sql_insert_new key (mk q) rows" key mk ps] by auto
  qed
qed simp

lemma keyed_fold_insert_new:
  assumes "keyed ident rows" "\<And>p. p \<in> set ps \<Longrightarrow> ident (mk p) \<notin> ident ` set rows"
    and "\<And>p q. p \<in> set ps \<Longrightarrow> q \<in> set ps \<Longrightarrow> ident (mk p) = ident (mk q) \<Longrightarrow> key (mk p) = key (mk q)"
  shows "keyed ident (fold (\<lambda>p. sql_insert_new key (mk p)) ps rows)"
proof -
  have "keyed ident (fold (\<lambda>p. sql_insert_new key (mk p)) qs rs)"
    if "set qs \<subseteq> set ps" "keyed ident rs" "\<And>y. y \<in> set rs \<Longrightarrow> y \<in> set rows \<or> (\<exists>p \<in> set ps. y = mk p)" for qs rs
    using that
  proof (induction qs arbitrary: rs)
    case (Cons q qs)
    let ?rs = "sql_insert_new key (mk q) rs"
    have q: "q \<in> set ps" using Cons.prems(1) by simp
    have "keyed ident ?rs"
    proof (cases "key (mk q) \<in> key ` set rs")
      case True
      then show ?thesis using Cons.prems(2) by (simp add: sql_insert_new_def)
    next
      case False
      have "ident (mk q) \<noteq> ident y" if y: "y \<in> set rs" for y
      proof
        assume same: "ident (mk q) = ident y"
        from Cons.prems(3) [OF y] show False
        proof
          assume "y \<in> set rows"
          then show False using assms(2) [OF q] same by auto
        next
          assume "\<exists>p \<in> set ps. y = mk p"
          then obtain p where "p \<in> set ps" "y = mk p" by blast
          then show False using assms(3) [OF q] same False y by force
        qed
      qed
      then show ?thesis using Cons.prems(2) False by (auto simp: sql_insert_new_def)
    qed
    moreover have "y \<in> set rows \<or> (\<exists>p \<in> set ps. y = mk p)" if "y \<in> set ?rs" for y
      using that Cons.prems(3) q by (auto simp: sql_insert_new_def split: if_splits)
    ultimately show ?case using Cons.IH [of ?rs] Cons.prems(1) by simp
  qed simp
  from this [of ps rows] assms(1) show ?thesis by simp
qed

section \<open>Bounded exponential backoff\<close>

text \<open>
  LEAST(300, 5 * power(2, attempts - 1)) seconds, the retry delay of webhook processing, sync
  runs, capability refreshes and campaign preparation. power works on reals; attempts is at least
  1 wherever the code evaluates it, because the claim that grants the lease increments it.
\<close>

definition backoff_seconds :: "nat \<Rightarrow> int" where
  "backoff_seconds attempts = min 300 (5 * 2 ^ (attempts - 1))"

lemma backoff_bounds: "5 \<le> backoff_seconds n \<and> backoff_seconds n \<le> 300"
proof -
  have "(1::int) \<le> 2 ^ (n - 1)" by simp
  then show ?thesis by (simp add: backoff_seconds_def)
qed

lemma backoff_mono: "m \<le> n \<Longrightarrow> backoff_seconds m \<le> backoff_seconds n"
proof -
  assume "m \<le> n"
  then have "(2::int) ^ (m - 1) \<le> 2 ^ (n - 1)"
    by (intro power_increasing) auto
  then show ?thesis unfolding backoff_seconds_def by linarith
qed

section \<open>Strings of the source\<close>

text \<open>
  A string is a list of code units below 256; \<open>length\<close> counts code units, as
  JavaScript's length does. \<open>js_trim\<close> drops the white space String.prototype.trim drops.
\<close>

definition js_space :: "char \<Rightarrow> bool" where
  "js_space c \<longleftrightarrow> of_char c \<in> {9, 10, 11, 12, 13, 32, 160 :: nat}"

definition js_trim :: "string \<Rightarrow> string" where
  "js_trim s = rev (dropWhile js_space (rev (dropWhile js_space s)))"

definition ends_with :: "string \<Rightarrow> string \<Rightarrow> bool" where
  "ends_with suffix s \<longleftrightarrow> length suffix \<le> length s \<and> drop (length s - length suffix) s = suffix"

definition group_jid :: "string \<Rightarrow> bool" where
  "group_jid s = ends_with ''@g.us'' s"

lemma ends_with_append: "ends_with suffix (s @ suffix)"
  by (simp add: ends_with_def)

lemma js_trim_idem: "js_trim (js_trim s) = js_trim s"
proof -
  let ?t = "dropWhile js_space s"
  have "\<exists>us. rev (dropWhile js_space (rev ?t)) @ us = ?t"
    by (metis append.assoc rev_append rev_rev_ident takeWhile_dropWhile_id)
  then obtain us where us: "rev (dropWhile js_space (rev ?t)) @ us = ?t" by blast
  have "dropWhile js_space (js_trim s) = js_trim s"
  proof (cases "js_trim s")
    case Nil
    then show ?thesis by simp
  next
    case (Cons c cs)
    then have "?t = c # cs @ us" using us by (simp add: js_trim_def)
    then have "\<not> js_space c" by (metis dropWhile_eq_Cons_conv)
    then show ?thesis using Cons by simp
  qed
  then show ?thesis by (simp add: js_trim_def)
qed

text \<open>The decimal digits of a number, as a template literal and PostgreSQL's || write them.\<close>

fun decimal :: "nat \<Rightarrow> string" where
  "decimal n = (if n < 10 then [char_of (48 + n)] else decimal (n div 10) @ [char_of (48 + n mod 10)])"

declare decimal.simps [simp del]

section \<open>Results that may be errors\<close>

text \<open>Bind of the sum type: the first error wins, as the first throw does.\<close>

fun or_throw :: "'e + 'a \<Rightarrow> ('a \<Rightarrow> 'e + 'b) \<Rightarrow> 'e + 'b" where
  "or_throw (Inl e) _ = Inl e"
| "or_throw (Inr x) f = f x"

lemma or_throw_Inr [simp]: "or_throw m f = Inr y \<longleftrightarrow> (\<exists>x. m = Inr x \<and> f x = Inr y)"
  by (cases m) auto

definition guard :: "bool \<Rightarrow> 'e \<Rightarrow> 'e + unit" where
  "guard ok e = (if ok then Inr () else Inl e)"

lemma guard_Inr [simp]: "guard ok e = Inr u \<longleftrightarrow> ok"
  by (simp add: guard_def)

lemma guard_Inl [simp]: "guard ok e = Inl e' \<longleftrightarrow> \<not> ok \<and> e' = e"
  by (auto simp: guard_def)

end
