(* ===== verification/Config.thy ===== *)
theory Config
  imports Complex_Main Prelude
begin

text \<open>
  The configuration of the Runtime (src/src/core/config/runtime-config.ts): the settings read from
  the environment with their defaults and ranges, and the cross-field checks of superRefine. The
  environment gives a number already coerced by Number(), a boolean and an enumeration as text, and
  the callback URL as parsed by the URL class; which strings are uuids is a parameter.
\<close>

record callback_url =
  cu_protocol :: string
  cu_pathname :: string
  cu_search :: string
  cu_hash :: string
  cu_username :: string
  cu_password :: string

record environment =
  env_number :: "string \<Rightarrow> int option"
  env_text :: "string \<Rightarrow> string option"
  env_ratio :: "rat option"
  env_callback :: "callback_url option"

record runtime_config =
  cfg_node_env :: string
  cfg_docs :: bool
  cfg_reconciliation_enabled :: bool
  cfg_callback :: "callback_url option"
  cfg_reconciliation_interval_ms :: int
  cfg_allowed_sessions :: "string list"
  cfg_allow_live_sends :: bool
  cfg_outbound_min_delay_ms :: int
  cfg_outbound_max_delay_ms :: int
  cfg_retention_days :: int
  cfg_event_retention_days :: int
  cfg_inbox_retention_days :: int
  cfg_raw_webhook_retention_days :: int
  cfg_compact_event_payload :: bool
  cfg_compact_webhook_payload :: bool
  cfg_retention_batch_size :: int
  cfg_retention_max_batches :: int
  cfg_retention_time_budget_ms :: int
  cfg_groups_per_minute :: int
  cfg_item_max_attempts :: int
  cfg_details_stale_hours :: int
  cfg_snapshot_min_baseline :: int
  cfg_snapshot_drop_ratio :: rat
  cfg_snapshot_confirmations :: int
  cfg_targeted_reconciliation :: bool
  cfg_event_debounce_ms :: int
  cfg_event_max_wait_ms :: int
  cfg_adaptive_pacing :: bool
  cfg_min_groups_per_minute :: int
  cfg_rate_recovery_successes :: int
  cfg_snapshot_staging :: bool
  cfg_evidence_dual_write :: bool
  cfg_resolution_shadow :: bool
  cfg_projection_shadow :: bool
  cfg_projection_read :: bool
  cfg_evidence_backfill :: bool
  cfg_legacy_fanout :: bool

section \<open>One setting\<close>

text \<open>A setting with an issue carries the name of its path.\<close>

fun number_issue :: "environment \<Rightarrow> string \<times> int \<times> int option \<Rightarrow> string list" where
  "number_issue e (name, lo, hi) =
     (case env_number e name of None \<Rightarrow> []
      | Some n \<Rightarrow> if lo \<le> n \<and> (case hi of None \<Rightarrow> True | Some h \<Rightarrow> n \<le> h) then [] else [name])"

definition number_or :: "environment \<Rightarrow> string \<Rightarrow> int \<Rightarrow> int" where
  "number_or e name dflt = coalesce (env_number e name) dflt"

definition flag_issue :: "environment \<Rightarrow> string \<Rightarrow> string list" where
  "flag_issue e name = (case env_text e name of None \<Rightarrow> []
     | Some t \<Rightarrow> if t = ''true'' \<or> t = ''false'' then [] else [name])"

definition flag_or :: "environment \<Rightarrow> string \<Rightarrow> bool \<Rightarrow> bool" where
  "flag_or e name dflt = (case env_text e name of None \<Rightarrow> dflt | Some t \<Rightarrow> t = ''true'')"

text \<open>value.split(',').map(trim).filter(Boolean)\<close>

fun split_on :: "char \<Rightarrow> string \<Rightarrow> string list" where
  "split_on c [] = [[]]"
| "split_on c (x # xs) =
     (if x = c then [] # split_on c xs
      else case split_on c xs of [] \<Rightarrow> [[x]] | w # ws \<Rightarrow> (x # w) # ws)"

definition session_ids :: "string \<Rightarrow> string list" where
  "session_ids value = filter (\<lambda>s. s \<noteq> []) (map js_trim (split_on CHR 0x2C value))"

definition session_issue :: "(string \<Rightarrow> bool) \<Rightarrow> environment \<Rightarrow> string list" where
  "session_issue is_uuid e = (case env_text e ''OPENWA_ALLOWED_SESSION_IDS'' of
     None \<Rightarrow> [''OPENWA_ALLOWED_SESSION_IDS'']
   | Some t \<Rightarrow> if t \<noteq> [] \<and> session_ids t \<noteq> [] \<and> list_all is_uuid (session_ids t) then []
       else [''OPENWA_ALLOWED_SESSION_IDS''])"

section \<open>The schema\<close>

text \<open>z.coerce.number().int().min(lo).max(hi)\<close>

definition number_ranges :: "(string \<times> int \<times> int option) list" where
  "number_ranges =
    [(''PORT'', 1, Some 65535),
     (''OPENWA_WEBHOOK_RECONCILIATION_INTERVAL_MS'', 60000, Some 86400000),
     (''OUTBOUND_MIN_DELAY_MS'', 0, Some 60000), (''OUTBOUND_MAX_DELAY_MS'', 0, Some 60000),
     (''RUNTIME_RETENTION_DAYS'', 7, Some 3650), (''RUNTIME_EVENT_RETENTION_DAYS'', 7, Some 3650),
     (''RUNTIME_INBOX_RETENTION_DAYS'', 1, Some 3650),
     (''RUNTIME_RAW_WEBHOOK_RETENTION_DAYS'', 1, Some 3650),
     (''RUNTIME_RETENTION_INTERVAL_MS'', 60000, None),
     (''RUNTIME_RETENTION_BATCH_SIZE'', 100, Some 10000),
     (''RUNTIME_RETENTION_MAX_BATCHES_PER_RUN'', 1, Some 1000),
     (''RUNTIME_RETENTION_TIME_BUDGET_MS'', 1000, Some 240000),
     (''GATEWAY_SYNC_GROUPS_PER_MINUTE'', 1, Some 120),
     (''GATEWAY_SYNC_ITEM_MAX_ATTEMPTS'', 1, Some 10),
     (''GATEWAY_GROUP_DETAILS_STALE_AFTER_HOURS'', 1, Some 8760),
     (''GATEWAY_SYNC_SNAPSHOT_MIN_BASELINE'', 1, Some 100000),
     (''GATEWAY_SYNC_SNAPSHOT_CONFIRMATIONS'', 2, Some 5),
     (''GATEWAY_GROUP_EVENT_DEBOUNCE_MS'', 0, Some 60000),
     (''GATEWAY_GROUP_EVENT_MAX_WAIT_MS'', 1000, Some 300000),
     (''GATEWAY_SYNC_MIN_GROUPS_PER_MINUTE'', 1, Some 120),
     (''GATEWAY_SYNC_RATE_RECOVERY_SUCCESSES'', 1, Some 1000)]"

definition flag_names :: "string list" where
  "flag_names =
    [''ENABLE_RUNTIME_DOCS'', ''OPENWA_WEBHOOK_RECONCILIATION_ENABLED'', ''ALLOW_LIVE_SENDS'',
     ''RUNTIME_COMPACT_EVENT_PAYLOAD_ENABLED'', ''RUNTIME_COMPACT_PROCESSED_WEBHOOK_PAYLOAD_ENABLED'',
     ''GATEWAY_TARGETED_RECONCILIATION_ENABLED'', ''GATEWAY_SYNC_ADAPTIVE_PACING'',
     ''CONTACT_SNAPSHOT_STAGING_ENABLED'', ''CONTACT_EVIDENCE_DUAL_WRITE_ENABLED'',
     ''CONTACT_RESOLUTION_SHADOW_ENABLED'', ''CONTACT_PROJECTION_SHADOW_ENABLED'',
     ''CONTACT_PROJECTION_READ_ENABLED'', ''CONTACT_EVIDENCE_BACKFILL_ENABLED'',
     ''CONTACT_LEGACY_MEMBER_FANOUT_ENABLED'']"

definition schema_issues :: "(string \<Rightarrow> bool) \<Rightarrow> environment \<Rightarrow> string list" where
  "schema_issues is_uuid e =
     concat (map (number_issue e) number_ranges) @ concat (map (flag_issue e) flag_names)
     @ (case env_text e ''NODE_ENV'' of None \<Rightarrow> []
        | Some t \<Rightarrow> if t \<in> {''development'', ''test'', ''production''} then [] else [''NODE_ENV''])
     @ (case env_ratio e of None \<Rightarrow> []
        | Some r \<Rightarrow> if 0 \<le> r \<and> r \<le> 1 then [] else [''GATEWAY_SYNC_SNAPSHOT_DROP_RATIO''])
     @ session_issue is_uuid e"

text \<open>The parsed value with the defaults, and the two derived settings of parseRuntimeConfig.\<close>

definition parsed_config :: "environment \<Rightarrow> runtime_config" where
  "parsed_config e =
     (let node = coalesce (env_text e ''NODE_ENV'') ''development'';
          event_days = number_or e ''RUNTIME_EVENT_RETENTION_DAYS'' 30 in
     \<lparr>cfg_node_env = node,
      cfg_docs = flag_or e ''ENABLE_RUNTIME_DOCS'' (node \<noteq> ''production''),
      cfg_reconciliation_enabled = flag_or e ''OPENWA_WEBHOOK_RECONCILIATION_ENABLED'' False,
      cfg_callback = env_callback e,
      cfg_reconciliation_interval_ms =
        number_or e ''OPENWA_WEBHOOK_RECONCILIATION_INTERVAL_MS'' 300000,
      cfg_allowed_sessions = session_ids (coalesce (env_text e ''OPENWA_ALLOWED_SESSION_IDS'') []),
      cfg_allow_live_sends = flag_or e ''ALLOW_LIVE_SENDS'' False,
      cfg_outbound_min_delay_ms = number_or e ''OUTBOUND_MIN_DELAY_MS'' 3000,
      cfg_outbound_max_delay_ms = number_or e ''OUTBOUND_MAX_DELAY_MS'' 7000,
      cfg_retention_days = number_or e ''RUNTIME_RETENTION_DAYS'' 90,
      cfg_event_retention_days = event_days,
      cfg_inbox_retention_days = number_or e ''RUNTIME_INBOX_RETENTION_DAYS'' event_days,
      cfg_raw_webhook_retention_days = number_or e ''RUNTIME_RAW_WEBHOOK_RETENTION_DAYS'' 7,
      cfg_compact_event_payload = flag_or e ''RUNTIME_COMPACT_EVENT_PAYLOAD_ENABLED'' False,
      cfg_compact_webhook_payload =
        flag_or e ''RUNTIME_COMPACT_PROCESSED_WEBHOOK_PAYLOAD_ENABLED'' False,
      cfg_retention_batch_size = number_or e ''RUNTIME_RETENTION_BATCH_SIZE'' 5000,
      cfg_retention_max_batches = number_or e ''RUNTIME_RETENTION_MAX_BATCHES_PER_RUN'' 100,
      cfg_retention_time_budget_ms = number_or e ''RUNTIME_RETENTION_TIME_BUDGET_MS'' 240000,
      cfg_groups_per_minute = number_or e ''GATEWAY_SYNC_GROUPS_PER_MINUTE'' 40,
      cfg_item_max_attempts = number_or e ''GATEWAY_SYNC_ITEM_MAX_ATTEMPTS'' 5,
      cfg_details_stale_hours = number_or e ''GATEWAY_GROUP_DETAILS_STALE_AFTER_HOURS'' 24,
      cfg_snapshot_min_baseline = number_or e ''GATEWAY_SYNC_SNAPSHOT_MIN_BASELINE'' 20,
      cfg_snapshot_drop_ratio = coalesce (env_ratio e) (1 / 4),
      cfg_snapshot_confirmations = number_or e ''GATEWAY_SYNC_SNAPSHOT_CONFIRMATIONS'' 2,
      cfg_targeted_reconciliation = flag_or e ''GATEWAY_TARGETED_RECONCILIATION_ENABLED'' False,
      cfg_event_debounce_ms = number_or e ''GATEWAY_GROUP_EVENT_DEBOUNCE_MS'' 3000,
      cfg_event_max_wait_ms = number_or e ''GATEWAY_GROUP_EVENT_MAX_WAIT_MS'' 10000,
      cfg_adaptive_pacing = flag_or e ''GATEWAY_SYNC_ADAPTIVE_PACING'' False,
      cfg_min_groups_per_minute = number_or e ''GATEWAY_SYNC_MIN_GROUPS_PER_MINUTE'' 5,
      cfg_rate_recovery_successes = number_or e ''GATEWAY_SYNC_RATE_RECOVERY_SUCCESSES'' 25,
      cfg_snapshot_staging = flag_or e ''CONTACT_SNAPSHOT_STAGING_ENABLED'' False,
      cfg_evidence_dual_write = flag_or e ''CONTACT_EVIDENCE_DUAL_WRITE_ENABLED'' False,
      cfg_resolution_shadow = flag_or e ''CONTACT_RESOLUTION_SHADOW_ENABLED'' False,
      cfg_projection_shadow = flag_or e ''CONTACT_PROJECTION_SHADOW_ENABLED'' False,
      cfg_projection_read = flag_or e ''CONTACT_PROJECTION_READ_ENABLED'' False,
      cfg_evidence_backfill = flag_or e ''CONTACT_EVIDENCE_BACKFILL_ENABLED'' False,
      cfg_legacy_fanout = flag_or e ''CONTACT_LEGACY_MEMBER_FANOUT_ENABLED'' True\<rparr>)"

section \<open>The cross-field checks\<close>

text \<open>pathname.replace of the trailing slashes\<close>

definition strip_slashes :: "string \<Rightarrow> string" where
  "strip_slashes s = rev (dropWhile (\<lambda>c. c = CHR 0x2F) (rev s))"

definition issue_if :: "bool \<Rightarrow> string \<Rightarrow> string list" where
  "issue_if bad path = (if bad then [path] else [])"

definition refine_issues :: "runtime_config \<Rightarrow> string list" where
  "refine_issues c =
     issue_if (cfg_outbound_max_delay_ms c < cfg_outbound_min_delay_ms c) ''OUTBOUND_MAX_DELAY_MS''
     @ issue_if (cfg_event_max_wait_ms c < cfg_event_debounce_ms c) ''GATEWAY_GROUP_EVENT_MAX_WAIT_MS''
     @ issue_if (cfg_groups_per_minute c < cfg_min_groups_per_minute c)
         ''GATEWAY_SYNC_MIN_GROUPS_PER_MINUTE''
     @ issue_if (cfg_reconciliation_enabled c \<and> cfg_callback c = None) ''OPENWA_WEBHOOK_CALLBACK_URL''
     @ (case cfg_callback c of None \<Rightarrow> []
        | Some u \<Rightarrow>
            issue_if (cu_protocol u \<noteq> ''https:'') ''OPENWA_WEBHOOK_CALLBACK_URL''
            @ issue_if (strip_slashes (cu_pathname u) \<noteq> ''/api/v1/webhooks/openwa''
                \<or> cu_search u \<noteq> [] \<or> cu_hash u \<noteq> [] \<or> cu_username u \<noteq> [] \<or> cu_password u \<noteq> [])
                ''OPENWA_WEBHOOK_CALLBACK_URL'')
     @ issue_if (cfg_evidence_dual_write c \<and> \<not> cfg_snapshot_staging c)
         ''CONTACT_EVIDENCE_DUAL_WRITE_ENABLED''
     @ issue_if (cfg_resolution_shadow c \<and> \<not> cfg_evidence_dual_write c)
         ''CONTACT_RESOLUTION_SHADOW_ENABLED''
     @ issue_if (cfg_projection_shadow c \<and> \<not> cfg_resolution_shadow c)
         ''CONTACT_PROJECTION_SHADOW_ENABLED''
     @ issue_if (cfg_projection_read c \<and> \<not> cfg_projection_shadow c) ''CONTACT_PROJECTION_READ_ENABLED''
     @ issue_if (cfg_evidence_backfill c \<and> \<not> cfg_evidence_dual_write c)
         ''CONTACT_EVIDENCE_BACKFILL_ENABLED''
     @ issue_if (\<not> cfg_legacy_fanout c \<and> \<not> cfg_projection_shadow c)
         ''CONTACT_LEGACY_MEMBER_FANOUT_ENABLED''"

definition parse_runtime_config ::
  "(string \<Rightarrow> bool) \<Rightarrow> environment \<Rightarrow> string list + runtime_config" where
  "parse_runtime_config is_uuid e =
     (if schema_issues is_uuid e \<noteq> [] then Inl (schema_issues is_uuid e)
      else if refine_issues (parsed_config e) \<noteq> [] then Inl (refine_issues (parsed_config e))
      else Inr (parsed_config e))"

lemma issue_if_Nil [simp]: "issue_if bad path = [] \<longleftrightarrow> \<not> bad"
  by (simp add: issue_if_def)

lemma parse_ok:
  "parse_runtime_config is_uuid e = Inr c \<longleftrightarrow>
     schema_issues is_uuid e = [] \<and> refine_issues c = [] \<and> c = parsed_config e"
  by (auto simp: parse_runtime_config_def)

lemma number_in_range:
  assumes "schema_issues is_uuid e = []" "(name, lo, Some hi) \<in> set number_ranges"
    and "lo \<le> dflt" "dflt \<le> hi"
  shows "lo \<le> number_or e name dflt \<and> number_or e name dflt \<le> hi"
proof -
  have "number_issue e (name, lo, Some hi) = []"
    using assms(1,2) by (auto simp: schema_issues_def)
  then show ?thesis using assms(3,4)
    by (cases "env_number e name") (auto simp: number_or_def split: if_splits)
qed

text \<open>The facts about a parsed configuration that other components rest on.\<close>

lemma parsed_refined:
  assumes "parse_runtime_config is_uuid e = Inr c"
  shows "cfg_event_debounce_ms c \<le> cfg_event_max_wait_ms c"
    and "cfg_min_groups_per_minute c \<le> cfg_groups_per_minute c"
    and "1 \<le> cfg_item_max_attempts c" "1 \<le> cfg_min_groups_per_minute c" "1 \<le> cfg_rate_recovery_successes c"
proof -
  have sch: "schema_issues is_uuid e = []" and ref: "refine_issues c = []" and c: "c = parsed_config e"
    using assms by (auto simp: parse_ok)
  show "cfg_event_debounce_ms c \<le> cfg_event_max_wait_ms c"
    "cfg_min_groups_per_minute c \<le> cfg_groups_per_minute c"
    using ref by (simp_all add: refine_issues_def)
  show "1 \<le> cfg_item_max_attempts c" "1 \<le> cfg_min_groups_per_minute c" "1 \<le> cfg_rate_recovery_successes c"
    using number_in_range [OF sch, of "''GATEWAY_SYNC_MIN_GROUPS_PER_MINUTE''" 1 120 5]
      number_in_range [OF sch, of "''GATEWAY_SYNC_RATE_RECOVERY_SUCCESSES''" 1 1000 25]
      number_in_range [OF sch, of "''GATEWAY_SYNC_ITEM_MAX_ATTEMPTS''" 1 10 5]
    by (simp_all add: c parsed_config_def Let_def number_ranges_def)
qed

text \<open>What is left of a path after its trailing slashes are removed.\<close>

lemma strip_slashes_pad: "\<exists>n. s = strip_slashes s @ replicate n CHR ''/''"
proof -
  have "takeWhile (\<lambda>c. c = CHR ''/'') (rev s) = replicate (length (takeWhile (\<lambda>c. c = CHR ''/'') (rev s))) CHR ''/''"
    by (rule replicate_eqI) (auto dest: set_takeWhileD)
  then have "rev s = replicate (length (takeWhile (\<lambda>c. c = CHR ''/'') (rev s))) CHR ''/'' @ dropWhile (\<lambda>c. c = CHR ''/'') (rev s)"
    by (metis takeWhile_dropWhile_id)
  then show ?thesis unfolding strip_slashes_def by (metis rev_append rev_replicate rev_rev_ident)
qed

section \<open>Properties\<close>

text \<open>C39: A configuration that parses is safe to run: the pacing limits are ordered and in range, at least one session is
  allowed and all of them are uuids; a callback, which there is whenever the reconciliation of webhooks is on, is an HTTPS
  URL whose path is the webhook route up to trailing slashes, with no query, fragment or credentials; and each stage of
  the contact rollout is on only with the one it builds on: dual writes need the staging of snapshots, the backfill and
  the shadow resolution need dual writes, the shadow projection needs the resolution, reading from the projection, and
  turning the legacy fanout off, need the shadow projection.\<close>

theorem parsed_config_safe:
  assumes "parse_runtime_config is_uuid e = Inr c"
  shows "0 \<le> cfg_outbound_min_delay_ms c \<and> cfg_outbound_min_delay_ms c \<le> cfg_outbound_max_delay_ms c
    \<and> cfg_outbound_max_delay_ms c \<le> 60000
    \<and> 1 \<le> cfg_min_groups_per_minute c \<and> cfg_min_groups_per_minute c \<le> cfg_groups_per_minute c
    \<and> cfg_groups_per_minute c \<le> 120
    \<and> 0 \<le> cfg_event_debounce_ms c \<and> cfg_event_debounce_ms c \<le> cfg_event_max_wait_ms c
    \<and> cfg_event_max_wait_ms c \<le> 300000
    \<and> 1 \<le> cfg_item_max_attempts c \<and> cfg_item_max_attempts c \<le> 10
    \<and> cfg_allowed_sessions c \<noteq> [] \<and> list_all is_uuid (cfg_allowed_sessions c)
    \<and> (cfg_reconciliation_enabled c \<longrightarrow> cfg_callback c \<noteq> None)
    \<and> (\<forall>u. cfg_callback c = Some u \<longrightarrow> cu_protocol u = ''https:''
        \<and> (\<exists>n. cu_pathname u = ''/api/v1/webhooks/openwa'' @ replicate n CHR ''/'')
        \<and> cu_search u = [] \<and> cu_hash u = [] \<and> cu_username u = [] \<and> cu_password u = [])
    \<and> (cfg_evidence_dual_write c \<longrightarrow> cfg_snapshot_staging c)
    \<and> (cfg_evidence_backfill c \<longrightarrow> cfg_evidence_dual_write c)
    \<and> (cfg_resolution_shadow c \<longrightarrow> cfg_evidence_dual_write c)
    \<and> (cfg_projection_shadow c \<longrightarrow> cfg_resolution_shadow c)
    \<and> (cfg_projection_read c \<or> \<not> cfg_legacy_fanout c \<longrightarrow> cfg_projection_shadow c)"
proof -
  have sch: "schema_issues is_uuid e = []" and ref: "refine_issues c = []" and c: "c = parsed_config e"
    using assms by (auto simp: parse_ok)
  have nums: "0 \<le> cfg_outbound_min_delay_ms c" "cfg_outbound_max_delay_ms c \<le> 60000"
    "1 \<le> cfg_min_groups_per_minute c" "cfg_groups_per_minute c \<le> 120"
    "0 \<le> cfg_event_debounce_ms c" "cfg_event_max_wait_ms c \<le> 300000"
    "1 \<le> cfg_item_max_attempts c" "cfg_item_max_attempts c \<le> 10"
    using number_in_range [OF sch, of "''OUTBOUND_MIN_DELAY_MS''" 0 60000 3000]
      number_in_range [OF sch, of "''OUTBOUND_MAX_DELAY_MS''" 0 60000 7000]
      number_in_range [OF sch, of "''GATEWAY_SYNC_MIN_GROUPS_PER_MINUTE''" 1 120 5]
      number_in_range [OF sch, of "''GATEWAY_SYNC_GROUPS_PER_MINUTE''" 1 120 40]
      number_in_range [OF sch, of "''GATEWAY_GROUP_EVENT_DEBOUNCE_MS''" 0 60000 3000]
      number_in_range [OF sch, of "''GATEWAY_GROUP_EVENT_MAX_WAIT_MS''" 1000 300000 10000]
      number_in_range [OF sch, of "''GATEWAY_SYNC_ITEM_MAX_ATTEMPTS''" 1 10 5]
    by (simp_all add: c parsed_config_def Let_def number_ranges_def)
  have "session_issue is_uuid e = []" using sch by (simp add: schema_issues_def)
  then have "cfg_allowed_sessions c \<noteq> [] \<and> list_all is_uuid (cfg_allowed_sessions c)"
    by (auto simp: session_issue_def c parsed_config_def Let_def split: option.splits if_splits)
  moreover have "cu_protocol u = ''https:'' \<and> (\<exists>n. cu_pathname u = ''/api/v1/webhooks/openwa'' @ replicate n CHR ''/'')
      \<and> cu_search u = [] \<and> cu_hash u = [] \<and> cu_username u = [] \<and> cu_password u = []"
    if u: "cfg_callback c = Some u" for u
    using ref u strip_slashes_pad [of "cu_pathname u"] by (simp add: refine_issues_def)
  moreover have "cfg_reconciliation_enabled c \<longrightarrow> cfg_callback c \<noteq> None" using ref by (simp add: refine_issues_def)
  ultimately show ?thesis using nums ref by (auto simp: refine_issues_def)
qed

definition sample_environment :: environment where
  "sample_environment = \<lparr>env_number = (\<lambda>_. None),
     env_text = (\<lambda>n. if n = ''OPENWA_ALLOWED_SESSION_IDS'' then Some ''s1'' else None),
     env_ratio = None, env_callback = None\<rparr>"

lemma sample_environment_parses:
  "parse_runtime_config (\<lambda>s. True) sample_environment = Inr (parsed_config sample_environment)"
proof -
  have "schema_issues (\<lambda>s. True) sample_environment = []"
    by (simp add: schema_issues_def number_ranges_def flag_names_def flag_issue_def session_issue_def
        session_ids_def js_trim_def js_space_def sample_environment_def)
  moreover have "refine_issues (parsed_config sample_environment) = []"
    by (simp add: refine_issues_def parsed_config_def number_or_def flag_or_def
        sample_environment_def Let_def)
  ultimately show ?thesis by (simp add: parse_runtime_config_def)
qed

lemma parsed_config_safe_witness:
  "cfg_allowed_sessions (parsed_config sample_environment) \<noteq> []
   \<and> cfg_groups_per_minute (parsed_config sample_environment) \<le> 120"
  using parsed_config_safe [OF sample_environment_parses] by blast

text \<open>Sending is off unless the environment says otherwise in so many words, and the inbox is kept
  for as long as the events when it has no setting of its own.\<close>

theorem live_sends_opt_in:
  assumes "parse_runtime_config is_uuid e = Inr c"
  shows "(cfg_allow_live_sends c \<longleftrightarrow> env_text e ''ALLOW_LIVE_SENDS'' = Some ''true'')
    \<and> (env_number e ''RUNTIME_INBOX_RETENTION_DAYS'' = None \<longrightarrow>
        cfg_inbox_retention_days c = cfg_event_retention_days c)"
proof -
  have "flag_issue e ''ALLOW_LIVE_SENDS'' = []"
    using assms by (auto simp: parse_ok schema_issues_def flag_names_def)
  then show ?thesis using assms
    by (auto simp: parse_ok parsed_config_def Let_def flag_or_def number_or_def split: option.splits)
qed

lemma live_sends_opt_in_witness: "\<not> cfg_allow_live_sends (parsed_config sample_environment)"
  using live_sends_opt_in [OF sample_environment_parses] by (simp add: sample_environment_def)

end
