(* ===== verification/Json.thy ===== *)
theory Json
  imports Prelude
begin

text \<open>
  JSON values as the Runtime reads them from webhooks and from the gateway, and the JavaScript operators
  the source applies to them. Numbers are integers: a fraction of a JSON number is outside the model.
\<close>

datatype json =
    JNull
  | JBool bool
  | JNumber int
  | JText string
  | JArray "json list"
  | JObject "(string \<times> json) list"

type_synonym json_object = "(string \<times> json) list"

text \<open>A property of a parsed object; None is undefined.\<close>

definition json_field :: "string \<Rightarrow> json_object \<Rightarrow> json option" where
  "json_field k obj = map_of obj k"

fun truthy :: "json option \<Rightarrow> bool" where
  "truthy None = False"
| "truthy (Some JNull) = False"
| "truthy (Some (JBool b)) = b"
| "truthy (Some (JNumber n)) = (n \<noteq> 0)"
| "truthy (Some (JText s)) = (s \<noteq> [])"
| "truthy (Some (JArray xs)) = True"
| "truthy (Some (JObject ps)) = True"

text \<open>The operators || and ??.\<close>

definition js_or :: "json option \<Rightarrow> json option \<Rightarrow> json option" where
  "js_or a b = (if truthy a then a else b)"

fun js_nullish :: "json option \<Rightarrow> json option \<Rightarrow> json option" where
  "js_nullish None b = b"
| "js_nullish (Some JNull) b = b"
| "js_nullish (Some v) b = Some v"

text \<open>String(value); a number of 22 digits or more is outside the model, and so is an object with a toString of its own.\<close>

fun js_join :: "string list \<Rightarrow> string" where
  "js_join [] = []"
| "js_join [s] = s"
| "js_join (s # t # ss) = s @ '','' @ js_join (t # ss)"

definition js_integer :: "int \<Rightarrow> string" where
  "js_integer n = (if n < 0 then ''-'' @ decimal (nat (- n)) else decimal (nat n))"

fun js_string :: "json \<Rightarrow> string" where
  "js_string JNull = ''null''"
| "js_string (JBool b) = (if b then ''true'' else ''false'')"
| "js_string (JNumber n) = js_integer n"
| "js_string (JText s) = s"
| "js_string (JArray xs) = js_join (map (\<lambda>x. if x = JNull then [] else js_string x) xs)"
| "js_string (JObject ps) = ''[object Object]''"

text \<open>String(value ?? empty text).\<close>

definition js_text :: "json option \<Rightarrow> string" where
  "js_text v = (case js_nullish v (Some (JText [])) of None \<Rightarrow> [] | Some x \<Rightarrow> js_string x)"

text \<open>toLowerCase of the characters below 256.\<close>

definition js_lower_char :: "char \<Rightarrow> char" where
  "js_lower_char ch = (let n = of_char ch :: nat in
     if 65 \<le> n \<and> n \<le> 90 \<or> 192 \<le> n \<and> n \<le> 222 \<and> n \<noteq> 215 then char_of (n + 32) else ch)"

definition js_lower :: "string \<Rightarrow> string" where
  "js_lower s = map js_lower_char s"

text \<open>The bytes of the UTF-8 encoding.\<close>

definition utf8_length :: "string \<Rightarrow> nat" where
  "utf8_length s = sum_list (map (\<lambda>ch. if (of_char ch :: nat) < 128 then 1 else 2) s)"

lemma json_field_Nil [simp]: "json_field k [] = None"
  by (simp add: json_field_def)

lemma json_field_Cons [simp]: "json_field k ((k', v) # obj) = (if k' = k then Some v else json_field k obj)"
  by (simp add: json_field_def)

lemma truthy_Some: "truthy v \<Longrightarrow> v \<noteq> None"
  by (cases v) auto

lemma truthy_js_or [simp]: "truthy (js_or a b) \<longleftrightarrow> truthy a \<or> truthy b"
  by (simp add: js_or_def)

end
