(* ===== verification/Schema.thy ===== *)
theory Schema
  imports Prelude Json
begin

text \<open>
  The data of the Runtime: the enumerations of the contracts and of the row types, one record
  per row interface of the repositories, and the database state \<open>db\<close> as one record of tables.
  A column is modelled when some modelled operation reads or writes it.
\<close>

section \<open>Messages\<close>

datatype message_job_status =
    J_SCHEDULED | J_QUEUED | J_PROCESSING | J_ACCEPTED | J_SENT | J_DELIVERED | J_READ
  | J_FAILED | J_UNKNOWN | J_DRY_RUN_COMPLETED | J_CANCELLED

record message_job =
  mj_id :: uuid
  mj_scope :: string
  mj_key :: string
  mj_request_hash :: string
  mj_session_id :: string
  mj_recipient_id :: string
  mj_text :: string
  mj_scheduled_at :: timestamp
  mj_status :: message_job_status
  mj_dry_run :: bool
  mj_attempt_count :: nat
  mj_openwa_message_id :: "string option"
  mj_last_error :: "string option"
  mj_processing_started_at :: "timestamp option"
  mj_lease_expires_at :: "timestamp option"
  mj_created_at :: timestamp
  mj_updated_at :: timestamp

record message_attempt =
  ma_job_id :: uuid
  ma_number :: nat
  ma_outcome :: message_job_status
  ma_response :: "string option"
  ma_error :: "string option"

record outbound_lease =
  ol_session_id :: string
  ol_token :: uuid
  ol_holder :: uuid
  ol_expires_at :: timestamp
  ol_acquired_at :: timestamp
  ol_updated_at :: timestamp

section \<open>Group capability and gateway read model\<close>

datatype capability_status = ALLOWED | DENIED | UNKNOWN

datatype capability_reason =
    SEND_ALLOWED | GROUP_INACTIVE | GROUP_READ_ONLY | ADMIN_ONLY | ADMIN_STATUS_UNKNOWN
  | METADATA_INCOMPLETE | GROUP_CHANGED | GATEWAY_PERMISSION_DENIED | MANUAL_REFRESH
  | REFRESH_FAILED

record gateway_group =
  gg_session_id :: string
  gg_id :: string
  gg_name :: string
  gg_participants_count :: "nat option"
  gg_is_admin :: "bool option"
  gg_is_read_only :: "bool option"
  gg_is_announce :: "bool option"
  gg_linked_parent_id :: "string option"
  gg_is_active :: bool
  gg_details_synced_at :: "timestamp option"
  gg_capability :: capability_status
  gg_reason :: capability_reason
  gg_checked_at :: "timestamp option"
  gg_invalidated_at :: "timestamp option"
  gg_revision :: nat
  gg_attempt_count :: nat
  gg_next_attempt_at :: timestamp
  gg_lease_token :: "uuid option"
  gg_lease_expires_at :: "timestamp option"
  gg_refresh_error :: "string option"
  gg_summary_fingerprint :: "string option"
  gg_reconciled_fingerprint :: "string option"
  gg_synced_at :: timestamp
  gg_updated_at :: timestamp

text \<open>The columns of a session that the Runtime only passes on.\<close>

record session_profile =
  sp_name :: string
  sp_phone :: "string option"
  sp_push_name :: "string option"
  sp_connected_at :: "timestamp option"
  sp_last_active_at :: "timestamp option"
  sp_last_error :: "string option"
  sp_created_at :: timestamp

record gateway_session =
  gs_id :: string
  gs_profile :: session_profile
  gs_status :: string
  gs_engine_loaded :: bool
  gs_restriction :: "json option"
  gs_status_observed_at :: timestamp
  gs_restriction_observed_at :: timestamp
  gs_gateway_updated_at :: timestamp
  gs_synced_at :: timestamp
  gs_updated_at :: timestamp
  gs_snapshot_count :: "nat option"
  gs_suspicious_fingerprint :: "string option"
  gs_suspicious_count :: "nat option"
  gs_suspicious_confirmations :: nat

text \<open>The capability part of a target, GroupSendCapabilityDto, and a campaign target.\<close>

record send_capability =
  sc_status :: capability_status
  sc_reason :: capability_reason
  sc_checked_at :: "timestamp option"
  sc_invalidated_at :: "timestamp option"
  sc_revision :: nat

record campaign_target_dto =
  ct_group_id :: string
  ct_group_name :: string
  ct_enabled :: bool
  ct_capability :: send_capability

section \<open>Campaigns\<close>

datatype campaign_status = C_DRAFT | C_ACTIVE | C_PAUSED | C_ARCHIVED
datatype schedule_type = IMMEDIATE | ONCE
datatype execution_mode = DRY_RUN | LIVE

datatype run_status =
    R_PREPARING | R_BLOCKED | R_SCHEDULED | R_RUNNING | R_PAUSED
  | R_COMPLETED | R_PARTIAL_FAILED | R_CANCELLED | R_FAILED

datatype run_reason =
    PREFLIGHT_BLOCKED | MANUAL_PAUSE | SESSION_NOT_SENDABLE | CANCELLED_BY_OPERATOR
  | PREPARATION_FAILED | ONE_OR_MORE_DELIVERIES_FAILED

datatype delivery_status =
    D_PENDING | D_MATERIALIZED | D_PROCESSING | D_DRY_RUN_COMPLETED | D_ACCEPTED | D_SENT
  | D_DELIVERED | D_READ | D_FAILED | D_UNKNOWN | D_BLOCKED_CAPABILITY_CHANGED | D_CANCELLED

datatype preflight_status = PASS | WARN | BLOCK
datatype check_code =
    CONTENT_VALID | TARGETS_VALID | SESSION_SENDABLE | GROUP_CAPABILITY | LIVE_SEND_ALLOWED
datatype issue_reason =
    TARGET_CAPABILITY_DENIED | TARGET_CAPABILITY_UNKNOWN | TARGET_CAPABILITY_STALE

record preflight_check =
  pc_code :: check_code
  pc_status :: preflight_status

record target_issue =
  ti_group_id :: string
  ti_group_name :: string
  ti_capability :: capability_status
  ti_reason :: issue_reason

record preflight_report =
  pr_status :: preflight_status
  pr_policy_version :: nat
  pr_campaign_revision :: nat
  pr_targets_revision :: nat
  pr_execution_mode :: execution_mode
  pr_checked_at :: timestamp
  pr_total :: nat
  pr_allowed :: nat
  pr_denied :: nat
  pr_unknown :: nat
  pr_checks :: "preflight_check list"
  pr_issues :: "target_issue list"

text \<open>
  The four target_source columns are NULL together or set together (migration 035 checks it),
  so they are one optional record, CampaignTargetSourceDto.
\<close>

record target_source =
  ts_group_list_id :: uuid
  ts_name_snapshot :: string
  ts_membership_revision :: nat
  ts_applied_at :: timestamp

record campaign =
  c_id :: uuid
  c_session_id :: string
  c_name :: string
  c_text :: string
  c_schedule_type :: schedule_type
  c_scheduled_at :: "timestamp option"
  c_status :: campaign_status
  c_revision :: nat
  c_targets_revision :: nat
  c_source :: "target_source option"
  c_create_key :: "uuid option"
  c_create_hash :: "string option"
  c_deleted_at :: "timestamp option"
  c_created_at :: timestamp
  c_updated_at :: timestamp

record campaign_target =
  tg_campaign_id :: uuid
  tg_session_id :: string
  tg_group_id :: string
  tg_enabled :: bool

record campaign_run =
  cr_id :: uuid
  cr_campaign_id :: uuid
  cr_session_id :: string
  cr_key :: string
  cr_mode :: execution_mode
  cr_status :: run_status
  cr_reason :: "run_reason option"
  cr_text :: string
  cr_campaign_revision :: nat
  cr_targets_revision :: nat
  cr_source :: "target_source option"
  cr_report :: "preflight_report option"
  cr_scheduled_at :: timestamp
  cr_started_at :: "timestamp option"
  cr_completed_at :: "timestamp option"
  cr_created_at :: timestamp
  cr_updated_at :: timestamp
  cr_attempt_count :: nat
  cr_next_attempt_at :: timestamp
  cr_lease_token :: "uuid option"
  cr_lease_expires_at :: "timestamp option"
  cr_error :: "string option"

record run_target =
  rt_run_id :: uuid
  rt_session_id :: string
  rt_group_id :: string
  rt_group_name :: string
  rt_capability :: capability_status
  rt_reason :: capability_reason
  rt_revision :: nat
  rt_checked_at :: "timestamp option"

record delivery =
  cd_id :: uuid
  cd_run_id :: uuid
  cd_group_id :: string
  cd_job_id :: "uuid option"
  cd_status :: delivery_status
  cd_failure_reason :: "string option"
  cd_created_at :: timestamp
  cd_updated_at :: timestamp

section \<open>Saved group lists\<close>

record group_list =
  gl_id :: uuid
  gl_session_id :: string
  gl_name :: string
  gl_description :: "string option"
  gl_revision :: nat
  gl_membership_revision :: nat
  gl_create_key :: "uuid option"
  gl_create_hash :: "string option"
  gl_archived_at :: "timestamp option"
  gl_created_at :: timestamp
  gl_updated_at :: timestamp

record group_list_item =
  gi_list_id :: uuid
  gi_session_id :: string
  gi_group_id :: string

section \<open>The database\<close>

record db =
  message_jobs :: "message_job table"
  message_attempts :: "message_attempt table"
  outbound_leases :: "outbound_lease table"
  campaigns :: "campaign table"
  campaign_targets :: "campaign_target table"
  campaign_runs :: "campaign_run table"
  run_targets :: "run_target table"
  deliveries :: "delivery table"
  gateway_sessions :: "gateway_session table"
  gateway_groups :: "gateway_group table"
  group_lists :: "group_list table"
  group_list_items :: "group_list_item table"

definition empty_db :: db where
  "empty_db = \<lparr>message_jobs = [], message_attempts = [], outbound_leases = [], campaigns = [],
     campaign_targets = [], campaign_runs = [], run_targets = [], deliveries = [],
     gateway_sessions = [], gateway_groups = [], group_lists = [], group_list_items = []\<rparr>"

definition plain_profile :: session_profile where
  "plain_profile = \<lparr>sp_name = ''Office'', sp_phone = None, sp_push_name = None, sp_connected_at = None,
     sp_last_active_at = None, sp_last_error = None, sp_created_at = 0\<rparr>"

text \<open>The keys by which SELECT ... WHERE id = $1 finds one row.\<close>

definition find_by :: "('r \<Rightarrow> 'k) \<Rightarrow> 'k \<Rightarrow> 'r table \<Rightarrow> 'r option" where
  "find_by key k rows = List.find (\<lambda>r. key r = k) rows"

lemma find_by_Nil [simp]: "find_by key k [] = None"
  by (simp add: find_by_def)

lemma find_by_Cons [simp]: "find_by key k (r # rows) = (if key r = k then Some r else find_by key k rows)"
  by (simp add: find_by_def)

lemma find_by_Some: "find_by key k rows = Some r \<Longrightarrow> r \<in> set rows \<and> key r = k"
  by (induction rows) (auto split: if_splits)

lemma find_by_None: "find_by key k rows = None \<longleftrightarrow> k \<notin> key ` set rows"
  by (induction rows) auto

lemma find_by_keyed: "keyed key rows \<Longrightarrow> r \<in> set rows \<Longrightarrow> find_by key (key r) rows = Some r"
  by (induction rows) (auto simp: keyed_def)

lemma find_by_append:
  "find_by key k (xs @ ys) = (case find_by key k xs of Some r \<Rightarrow> Some r | None \<Rightarrow> find_by key k ys)"
  by (induction xs) auto

lemma find_by_sql_update:
  assumes "\<And>r r'. f r = Some r' \<Longrightarrow> key r' = key r"
  shows "find_by key k (sql_update f rows) =
    map_option (\<lambda>r. case f r of None \<Rightarrow> r | Some r' \<Rightarrow> r') (find_by key k rows)"
  by (induction rows) (auto dest: assms split: option.splits)

end
