(* ===== verification/Idempotency.thy ===== *)
theory Idempotency
  imports Prelude
begin

text \<open>
  The contract of the creations that take an Idempotency-Key: message jobs, campaigns, campaign runs
  and group lists. A creation looks its key up, inserts when the key is new, and otherwise returns
  the row it found and compares the request hashes. Each component interprets the locale on its own
  create operation and its own writes.
\<close>

locale idempotent_create =
  fixes lookup :: "'k \<Rightarrow> 'd \<Rightarrow> 'r option"
    and ident :: "'r \<Rightarrow> uuid"
    and digest :: "'r \<Rightarrow> 'h"
    and create :: "'i \<Rightarrow> 'd \<Rightarrow> 'd \<times> 'o"
    and key_of :: "'i \<Rightarrow> 'k"
    and digest_of :: "'i \<Rightarrow> 'h"
    and row_of :: "'o \<Rightarrow> 'r option"
    and created :: "'o \<Rightarrow> bool"
    and conflict :: "'o \<Rightarrow> bool"
    and change :: "'w \<Rightarrow> 'd \<Rightarrow> 'd"
  assumes replay: "lookup (key_of i) d = Some r \<Longrightarrow> create i d = (d, out) \<Longrightarrow>
      row_of out = Some r \<and> \<not> created out \<and> (conflict out \<longleftrightarrow> digest r \<noteq> digest_of i)"
    and replay_keeps: "lookup (key_of i) d = Some r \<Longrightarrow> fst (create i d) = d"
    and fresh: "create i d = (d', out) \<Longrightarrow> created out \<Longrightarrow>
      \<exists>r. lookup (key_of i) d' = Some r \<and> row_of out = Some r \<and> digest r = digest_of i"
    and stable: "lookup k d = Some r \<Longrightarrow>
      \<exists>r'. lookup k (change w d) = Some r' \<and> ident r' = ident r \<and> digest r' = digest r"
begin

lemma stable_fold:
  "lookup k d = Some r \<Longrightarrow>
    \<exists>r'. lookup k (fold change ws d) = Some r' \<and> ident r' = ident r \<and> digest r' = digest r"
proof (induction ws arbitrary: d r)
  case (Cons w ws)
  obtain r1 where "lookup k (change w d) = Some r1" "ident r1 = ident r" "digest r1 = digest r"
    using stable [OF Cons.prems] by blast
  then show ?case using Cons.IH [of "change w d" r1] by simp
qed simp

text \<open>
  After a creation and any later writes, the same key finds the created row: nothing is inserted, the
  same row is returned, and a conflict is reported exactly for another digest.
\<close>

lemma create_twice:
  assumes "create i d = (d1, out)" "created out" "row_of out = Some r"
    and "key_of i' = key_of i" "d2 = fold change ws d1"
  shows "fst (create i' d2) = d2 \<and> \<not> created (snd (create i' d2))
    \<and> (\<exists>r'. row_of (snd (create i' d2)) = Some r' \<and> ident r' = ident r)
    \<and> (conflict (snd (create i' d2)) \<longleftrightarrow> digest_of i' \<noteq> digest_of i)"
proof -
  obtain r' where r': "lookup (key_of i') d2 = Some r'" "ident r' = ident r" "digest r' = digest_of i"
    using fresh [OF assms(1,2)] stable_fold [of "key_of i" d1 r ws] assms(3-5) by auto
  have keep: "fst (create i' d2) = d2" by (rule replay_keeps [OF r'(1)])
  then have "create i' d2 = (d2, snd (create i' d2))" by (simp add: prod_eq_iff)
  from replay [OF r'(1) this] show ?thesis using r' keep by auto
qed

end

end
