(* ===== verification/Message_Jobs.thy ===== *)
theory Message_Jobs
  imports Schema Idempotency
begin

text \<open>
  The message jobs: src/src/modules/messages/message-job.repository.ts and message-idempotency.ts,
  with the cancellation statement of a campaign run as the one writer outside that repository. Each
  statement is a row update on the table message_jobs or an insert into it; a job_op is one committed
  statement, and the invariant of the table is proved for every sequence of them.
\<close>

section \<open>The request hash\<close>

record message_request =
  mq_session_id :: string
  mq_recipient_id :: string
  mq_text :: string
  mq_scheduled_at :: "string option"
  mq_dry_run :: bool

definition js_bool :: "bool \<Rightarrow> string" where
  "js_bool b = (if b then ''true'' else ''false'')"

fun join_lines :: "string list \<Rightarrow> string" where
  "join_lines [] = []"
| "join_lines [x] = x"
| "join_lines (x # y # ys) = x @ CHR 0x0A # join_lines (y # ys)"

text \<open>
  \<open>to_iso\<close> is new Date(s).toISOString(), \<open>hash\<close> the hex digest of SHA-256. An empty scheduledAt is
  falsy in JavaScript and is treated as an absent one.
\<close>

definition iso_field :: "(string \<Rightarrow> string) \<Rightarrow> string option \<Rightarrow> string" where
  "iso_field to_iso s = (case s of None \<Rightarrow> [] | Some t \<Rightarrow> if t = [] then [] else to_iso t)"

definition request_preimage :: "(string \<Rightarrow> string) \<Rightarrow> message_request \<Rightarrow> string" where
  "request_preimage to_iso q = join_lines
     [mq_session_id q, mq_recipient_id q, mq_text q, iso_field to_iso (mq_scheduled_at q),
      js_bool (mq_dry_run q)]"

definition message_request_hash ::
  "(string \<Rightarrow> string) \<Rightarrow> (string \<Rightarrow> string) \<Rightarrow> message_request \<Rightarrow> string" where
  "message_request_hash hash to_iso q = hash (request_preimage to_iso q)"

section \<open>The statements of the repository\<close>

record job_input =
  ji_scope :: string
  ji_key :: string
  ji_hash :: string
  ji_session_id :: string
  ji_recipient_id :: string
  ji_text :: string
  ji_scheduled_at :: timestamp
  ji_dry_run :: bool

record job_result =
  jr_job :: message_job
  jr_created :: bool
  jr_conflict :: bool

definition job_key :: "message_job \<Rightarrow> string \<times> string" where
  "job_key j = (mj_scope j, mj_key j)"

definition new_job :: "uuid \<Rightarrow> job_input \<Rightarrow> timestamp \<Rightarrow> message_job" where
  "new_job jid i now =
     \<lparr>mj_id = jid, mj_scope = ji_scope i, mj_key = ji_key i, mj_request_hash = ji_hash i,
      mj_session_id = ji_session_id i, mj_recipient_id = ji_recipient_id i, mj_text = ji_text i,
      mj_scheduled_at = ji_scheduled_at i, mj_status = J_SCHEDULED, mj_dry_run = ji_dry_run i,
      mj_attempt_count = 0, mj_openwa_message_id = None, mj_last_error = None,
      mj_processing_started_at = None, mj_lease_expires_at = None, mj_created_at = now,
      mj_updated_at = now\<rparr>"

text \<open>create and createWithClient: INSERT ... ON CONFLICT DO NOTHING, then the row of the key.\<close>

definition create_job ::
  "uuid \<Rightarrow> job_input \<Rightarrow> timestamp \<Rightarrow> message_job table \<Rightarrow> message_job table \<times> job_result" where
  "create_job jid i now jobs =
     (case find_by job_key (ji_scope i, ji_key i) jobs of
        Some j \<Rightarrow> (jobs, \<lparr>jr_job = j, jr_created = False, jr_conflict = (mj_request_hash j \<noteq> ji_hash i)\<rparr>)
      | None \<Rightarrow> (jobs @ [new_job jid i now],
          \<lparr>jr_job = new_job jid i now, jr_created = True, jr_conflict = False\<rparr>))"

definition find_job :: "uuid \<Rightarrow> message_job table \<Rightarrow> message_job option" where
  "find_job jid jobs = find_by mj_id jid jobs"

definition due :: "timestamp \<Rightarrow> message_job \<Rightarrow> bool" where
  "due now j \<longleftrightarrow> mj_status j = J_SCHEDULED \<and> mj_scheduled_at j \<le> now"

definition queue_row :: "uuid list \<Rightarrow> timestamp \<Rightarrow> message_job row_update" where
  "queue_row ids now = sql_where (\<lambda>j. mj_id j \<in> set ids)
     (\<lambda>j. j\<lparr>mj_status := J_QUEUED, mj_updated_at := now\<rparr>)"

definition claim_due ::
  "nat \<Rightarrow> timestamp \<Rightarrow> message_job table \<Rightarrow> message_job table \<times> message_job list" where
  "claim_due limit now jobs =
     (let picked = sql_top limit mj_scheduled_at (due now) jobs in
      if picked = [] then (jobs, [])
      else (sql_update (queue_row (map mj_id picked) now) jobs,
            map (\<lambda>j. j\<lparr>mj_status := J_QUEUED\<rparr>) picked))"

definition processing_row :: "uuid \<Rightarrow> timestamp \<Rightarrow> message_job row_update" where
  "processing_row jid now = sql_where (\<lambda>j. mj_id j = jid \<and> mj_status j = J_QUEUED)
     (\<lambda>j. j\<lparr>mj_status := J_PROCESSING, mj_attempt_count := mj_attempt_count j + 1,
        mj_processing_started_at := Some now, mj_lease_expires_at := Some (now + lease_ttl),
        mj_updated_at := now\<rparr>)"

definition mark_processing ::
  "uuid \<Rightarrow> timestamp \<Rightarrow> message_job table \<Rightarrow> message_job table \<times> message_job option" where
  "mark_processing jid now jobs =
     (sql_update (processing_row jid now) jobs,
      case sql_returning (processing_row jid now) jobs of [] \<Rightarrow> None | j # _ \<Rightarrow> Some j)"

definition refresh_lease_row :: "uuid \<Rightarrow> timestamp \<Rightarrow> message_job row_update" where
  "refresh_lease_row jid now = sql_where
     (\<lambda>j. mj_id j = jid \<and> mj_status j = J_PROCESSING \<and> null_after (mj_lease_expires_at j) now)
     (\<lambda>j. j\<lparr>mj_lease_expires_at := Some (now + lease_ttl), mj_updated_at := now\<rparr>)"

definition refresh_processing_lease ::
  "uuid \<Rightarrow> timestamp \<Rightarrow> message_job table \<Rightarrow> message_job table \<times> bool" where
  "refresh_processing_lease jid now jobs =
     (sql_update (refresh_lease_row jid now) jobs, sql_count (refresh_lease_row jid now) jobs = 1)"

definition reset_queued_row :: "uuid \<Rightarrow> string \<Rightarrow> timestamp \<Rightarrow> message_job row_update" where
  "reset_queued_row jid err now = sql_where (\<lambda>j. mj_id j = jid \<and> mj_status j = J_QUEUED)
     (\<lambda>j. j\<lparr>mj_status := J_SCHEDULED, mj_last_error := Some err, mj_updated_at := now\<rparr>)"

definition stale_queued_row :: "timestamp \<Rightarrow> message_job row_update" where
  "stale_queued_row now = sql_where (\<lambda>j. mj_status j = J_QUEUED \<and> mj_updated_at j < now - minutes 2)
     (\<lambda>j. j\<lparr>mj_status := J_SCHEDULED, mj_last_error := Some ''Recovered stale queued job'',
        mj_updated_at := now\<rparr>)"

definition recover_stale_queued ::
  "timestamp \<Rightarrow> message_job table \<Rightarrow> message_job table \<times> nat" where
  "recover_stale_queued now jobs =
     (sql_update (stale_queued_row now) jobs, sql_count (stale_queued_row now) jobs)"

definition lease_expired_error :: string where
  "lease_expired_error = ''Processing lease expired; delivery outcome is unknown''"

definition expire_processing_row :: "timestamp \<Rightarrow> message_job row_update" where
  "expire_processing_row now = sql_where
     (\<lambda>j. mj_status j = J_PROCESSING \<and> null_before (mj_lease_expires_at j) now)
     (\<lambda>j. j\<lparr>mj_status := J_UNKNOWN, mj_last_error := Some lease_expired_error,
        mj_lease_expires_at := None, mj_updated_at := now\<rparr>)"

definition attempt_key :: "message_attempt \<Rightarrow> uuid \<times> nat" where
  "attempt_key a = (ma_job_id a, ma_number a)"

definition expired_attempt :: "message_job \<Rightarrow> message_attempt" where
  "expired_attempt j = \<lparr>ma_job_id = mj_id j, ma_number = mj_attempt_count j,
     ma_outcome = J_UNKNOWN, ma_response = None, ma_error = Some lease_expired_error\<rparr>"

definition mark_expired_processing_unknown :: "timestamp \<Rightarrow> db \<Rightarrow> db \<times> nat" where
  "mark_expired_processing_unknown now d =
     (let expired = sql_returning (expire_processing_row now) (message_jobs d) in
      (d\<lparr>message_jobs := sql_update (expire_processing_row now) (message_jobs d),
         message_attempts := fold (\<lambda>j. sql_insert_new attempt_key (expired_attempt j)) expired
           (message_attempts d)\<rparr>,
       length expired))"

record result_options =
  ro_message_id :: "string option"
  ro_error :: "string option"
  ro_response :: "string option"

definition result_row ::
  "uuid \<Rightarrow> message_job_status \<Rightarrow> result_options \<Rightarrow> timestamp \<Rightarrow> message_job row_update" where
  "result_row jid st opts now = sql_where (\<lambda>j. mj_id j = jid \<and> mj_status j = J_PROCESSING)
     (\<lambda>j. j\<lparr>mj_status := st,
        mj_openwa_message_id := coalesce_opt (ro_message_id opts) (mj_openwa_message_id j),
        mj_last_error := ro_error opts, mj_lease_expires_at := None, mj_updated_at := now\<rparr>)"

definition update_result ::
  "uuid \<Rightarrow> message_job_status \<Rightarrow> result_options \<Rightarrow> timestamp \<Rightarrow> db \<Rightarrow> db" where
  "update_result jid st opts now d =
     d\<lparr>message_jobs := sql_update (result_row jid st opts now) (message_jobs d),
       message_attempts :=
         (case sql_returning (result_row jid st opts now) (message_jobs d) of
            [] \<Rightarrow> message_attempts d
          | j # _ \<Rightarrow> sql_insert_new attempt_key
              \<lparr>ma_job_id = jid, ma_number = mj_attempt_count j, ma_outcome = st,
               ma_response = ro_response opts, ma_error = ro_error opts\<rparr> (message_attempts d))\<rparr>"

fun status_rank :: "message_job_status \<Rightarrow> nat" where
  "status_rank J_ACCEPTED = 10"
| "status_rank J_SENT = 20"
| "status_rank J_DELIVERED = 30"
| "status_rank J_READ = 40"
| "status_rank _ = 0"

definition webhook_row :: "string \<Rightarrow> message_job_status \<Rightarrow> timestamp \<Rightarrow> message_job row_update" where
  "webhook_row wid st now = sql_where
     (\<lambda>j. mj_openwa_message_id j = Some wid
        \<and> mj_status j \<notin> {J_FAILED, J_CANCELLED, J_DRY_RUN_COMPLETED}
        \<and> ((st = J_FAILED
             \<and> mj_status j \<in> {J_SCHEDULED, J_QUEUED, J_PROCESSING, J_ACCEPTED, J_UNKNOWN})
          \<or> (st \<noteq> J_FAILED \<and> status_rank (mj_status j) < status_rank st)))
     (\<lambda>j. j\<lparr>mj_status := st, mj_updated_at := now\<rparr>)"

definition update_status_by_openwa_message_id ::
  "string \<Rightarrow> message_job_status \<Rightarrow> timestamp \<Rightarrow> message_job table \<Rightarrow> message_job table" where
  "update_status_by_openwa_message_id wid st now jobs = sql_update (webhook_row wid st now) jobs"

text \<open>UPDATE message_jobs of the cancellation of a campaign run, for the jobs of its deliveries.\<close>

definition cancel_row :: "uuid list \<Rightarrow> timestamp \<Rightarrow> message_job row_update" where
  "cancel_row ids now = sql_where
     (\<lambda>j. mj_id j \<in> set ids \<and> mj_status j \<in> {J_SCHEDULED, J_QUEUED})
     (\<lambda>j. j\<lparr>mj_status := J_CANCELLED, mj_updated_at := now\<rparr>)"

lemmas job_rows =
  queue_row_def processing_row_def refresh_lease_row_def reset_queued_row_def stale_queued_row_def
  expire_processing_row_def result_row_def webhook_row_def cancel_row_def

section \<open>One row update per statement\<close>

datatype job_op =
    JQueue "uuid list" timestamp
  | JProcess uuid timestamp
  | JRefresh uuid timestamp
  | JReset uuid string timestamp
  | JStale timestamp
  | JExpire timestamp
  | JResult uuid message_job_status result_options timestamp
  | JWebhook string message_job_status timestamp
  | JCancel "uuid list" timestamp

fun job_row :: "job_op \<Rightarrow> message_job row_update" where
  "job_row (JQueue ids now) j = (if due now j then queue_row ids now j else None)"
| "job_row (JProcess jid now) j = processing_row jid now j"
| "job_row (JRefresh jid now) j = refresh_lease_row jid now j"
| "job_row (JReset jid err now) j = reset_queued_row jid err now j"
| "job_row (JStale now) j = stale_queued_row now j"
| "job_row (JExpire now) j = expire_processing_row now j"
| "job_row (JResult jid st opts now) j = result_row jid st opts now j"
| "job_row (JWebhook wid st now) j = webhook_row wid st now j"
| "job_row (JCancel ids now) j = cancel_row ids now j"

text \<open>The status each caller of updateResult writes, and the ones a webhook can carry.\<close>

fun job_op_ok :: "job_op \<Rightarrow> bool" where
  "job_op_ok (JResult jid st opts now) = (st \<in> {J_DRY_RUN_COMPLETED, J_ACCEPTED, J_FAILED, J_UNKNOWN})"
| "job_op_ok (JWebhook wid st now) = (st \<in> {J_SENT, J_DELIVERED, J_READ, J_FAILED})"
| "job_op_ok _ = True"

text \<open>Jobs that no worker has taken; a job that leaves these statuses never comes back.\<close>

definition waiting :: "message_job \<Rightarrow> bool" where
  "waiting j \<longleftrightarrow> mj_status j \<in> {J_SCHEDULED, J_QUEUED}"

definition job_wf :: "message_job \<Rightarrow> bool" where
  "job_wf j \<longleftrightarrow>
     mj_attempt_count j = (if waiting j \<or> mj_status j = J_CANCELLED then 0 else 1) \<and>
     (waiting j \<or> mj_status j \<in> {J_CANCELLED, J_PROCESSING} \<longrightarrow> mj_openwa_message_id j = None) \<and>
     (mj_status j = J_PROCESSING \<longrightarrow> mj_lease_expires_at j \<noteq> None)"

lemma new_job_wf: "job_wf (new_job jid i now)"
  by (simp add: job_wf_def new_job_def waiting_def)

lemma job_row_wf: "job_row op j = Some j' \<Longrightarrow> job_op_ok op \<Longrightarrow> job_wf j \<Longrightarrow> job_wf j'"
  by (cases op) (auto simp: job_rows job_wf_def waiting_def due_def split: if_splits)

lemma job_row_id: "job_row op j = Some j' \<Longrightarrow> mj_id j' = mj_id j"
  by (cases op) (auto simp: job_rows split: if_splits)

lemma job_row_fixed:
  "job_row op j = Some j' \<Longrightarrow> mj_scope j' = mj_scope j \<and> mj_key j' = mj_key j
     \<and> mj_request_hash j' = mj_request_hash j \<and> mj_session_id j' = mj_session_id j
     \<and> mj_recipient_id j' = mj_recipient_id j \<and> mj_text j' = mj_text j \<and> mj_dry_run j' = mj_dry_run j
     \<and> mj_scheduled_at j' = mj_scheduled_at j"
  by (cases op) (auto simp: job_rows split: if_splits)

lemma job_row_leaves_waiting:
  "job_row op j = Some j' \<Longrightarrow> \<not> waiting j \<Longrightarrow> job_op_ok op \<Longrightarrow> \<not> waiting j'"
  by (cases op) (auto simp: job_rows waiting_def due_def split: if_splits)

lemma job_row_attempts_mono: "job_row op j = Some j' \<Longrightarrow> mj_attempt_count j \<le> mj_attempt_count j'"
  by (cases op) (auto simp: job_rows split: if_splits)

text \<open>A status only moves up in rank, and a terminal status other than UNKNOWN is never left.\<close>

definition settled :: "message_job_status \<Rightarrow> bool" where
  "settled st \<longleftrightarrow> st \<in> {J_FAILED, J_CANCELLED, J_DRY_RUN_COMPLETED}"

lemma job_row_settled: "job_row op j = Some j' \<Longrightarrow> settled (mj_status j) \<Longrightarrow> False"
  by (cases op) (auto simp: job_rows settled_def due_def split: if_splits)

lemma webhook_row_rank:
  assumes "webhook_row wid st now j = Some j'" "st \<noteq> J_FAILED"
  shows "status_rank (mj_status j) < status_rank (mj_status j')"
  using assms by (auto simp: webhook_row_def)

section \<open>The table\<close>

definition jobs_wf :: "message_job table \<Rightarrow> bool" where
  "jobs_wf jobs \<longleftrightarrow> (\<forall>j \<in> set jobs. job_wf j) \<and> keyed mj_id jobs \<and> keyed job_key jobs"

lemma jobs_wf_Nil [simp]: "jobs_wf []"
  by (simp add: jobs_wf_def)

lemma jobs_wf_row:
  assumes "jobs_wf jobs" "job_op_ok op"
  shows "jobs_wf (sql_update (job_row op) jobs)"
proof -
  have "keyed mj_id (sql_update (job_row op) jobs)"
    using assms(1) keyed_sql_update [of "job_row op" mj_id] job_row_id by (auto simp: jobs_wf_def)
  moreover have "keyed job_key (sql_update (job_row op) jobs)"
    using assms(1) keyed_sql_update [of "job_row op" job_key] job_row_fixed
    by (auto simp: jobs_wf_def job_key_def)
  ultimately show ?thesis
    using assms job_row_wf unfolding jobs_wf_def by (auto elim!: sql_update_cases)
qed

lemma create_job_cases:
  obtains (replayed) j where "find_by job_key (ji_scope i, ji_key i) jobs = Some j"
      "create_job jid i now jobs =
        (jobs, \<lparr>jr_job = j, jr_created = False, jr_conflict = (mj_request_hash j \<noteq> ji_hash i)\<rparr>)"
  | (inserted) "find_by job_key (ji_scope i, ji_key i) jobs = None"
      "create_job jid i now jobs = (jobs @ [new_job jid i now],
        \<lparr>jr_job = new_job jid i now, jr_created = True, jr_conflict = False\<rparr>)"
  by (cases "find_by job_key (ji_scope i, ji_key i) jobs") (auto simp: create_job_def)

lemma jobs_wf_create:
  assumes "jobs_wf jobs" "jid \<notin> mj_id ` set jobs"
  shows "jobs_wf (fst (create_job jid i now jobs))"
proof (cases rule: create_job_cases [of i jobs jid now])
  case inserted
  then have "(ji_scope i, ji_key i) \<notin> job_key ` set jobs" by (simp add: find_by_None)
  then show ?thesis using assms inserted(2) new_job_wf [of jid i now]
    by (auto simp: jobs_wf_def new_job_def job_key_def)
qed (use assms in simp)

text \<open>claimDue picks due jobs, so its update is the statement JQueue.\<close>

lemma claim_due_row:
  assumes "keyed mj_id jobs"
  shows "fst (claim_due n now jobs) =
    sql_update (job_row (JQueue (map mj_id (sql_top n mj_scheduled_at (due now) jobs)) now)) jobs"
proof -
  let ?p = "sql_top n mj_scheduled_at (due now) jobs"
  have picked: "due now j" if "j \<in> set jobs" "mj_id j \<in> mj_id ` set ?p" for j
  proof -
    obtain k where k: "k \<in> set ?p" "mj_id k = mj_id j" using \<open>mj_id j \<in> mj_id ` set ?p\<close> by auto
    then have "k \<in> set jobs" "due now k" using set_sql_top by fast+
    then show ?thesis using k(2) keyed_inj [OF assms] that(1) by metis
  qed
  have "sql_update (queue_row (map mj_id ?p) now) jobs =
      sql_update (job_row (JQueue (map mj_id ?p) now)) jobs"
    unfolding sql_update_def
    by (rule map_cong) (use picked in \<open>auto simp: queue_row_def sql_where_def split: if_splits\<close>)
  moreover have "sql_update (job_row (JQueue [] now)) jobs = jobs"
    by (rule sql_update_id) (simp add: queue_row_def)
  ultimately show ?thesis by (cases "?p = []") (simp_all add: claim_due_def Let_def)
qed

section \<open>Creation by key\<close>

definition create_job_input ::
  "uuid \<times> job_input \<times> timestamp \<Rightarrow> message_job table \<Rightarrow> message_job table \<times> job_result" where
  "create_job_input c = create_job (fst c) (fst (snd c)) (snd (snd c))"

definition job_input_key :: "uuid \<times> job_input \<times> timestamp \<Rightarrow> string \<times> string" where
  "job_input_key c = (ji_scope (fst (snd c)), ji_key (fst (snd c)))"

definition job_input_hash :: "uuid \<times> job_input \<times> timestamp \<Rightarrow> string" where
  "job_input_hash c = ji_hash (fst (snd c))"

interpretation job_create: idempotent_create "find_by job_key" mj_id mj_request_hash
    create_job_input job_input_key job_input_hash "\<lambda>r. Some (jr_job r)" jr_created jr_conflict
    "\<lambda>op. sql_update (job_row op)"
proof unfold_locales
  fix k jobs r op
  assume found: "find_by job_key k jobs = Some r"
  have "find_by job_key k (sql_update (job_row op) jobs) =
      map_option (\<lambda>j. case job_row op j of None \<Rightarrow> j | Some j' \<Rightarrow> j') (find_by job_key k jobs)"
    by (rule find_by_sql_update) (use job_row_fixed in \<open>auto simp: job_key_def\<close>)
  then show "\<exists>r'. find_by job_key k (sql_update (job_row op) jobs) = Some r' \<and> mj_id r' = mj_id r
      \<and> mj_request_hash r' = mj_request_hash r"
    using found job_row_id job_row_fixed by (auto split: option.splits)
next
  fix c jobs jobs' r
  assume "create_job_input c jobs = (jobs', r)" "jr_created r"
  then show "\<exists>j. find_by job_key (job_input_key c) jobs' = Some j \<and> Some (jr_job r) = Some j
      \<and> mj_request_hash j = job_input_hash c"
    by (cases rule: create_job_cases [of "fst (snd c)" jobs "fst c" "snd (snd c)"])
      (auto simp: create_job_input_def job_input_key_def job_input_hash_def find_by_append
        job_key_def new_job_def)
qed (auto simp: create_job_input_def job_input_key_def job_input_hash_def create_job_def)

section \<open>Acknowledgements\<close>

text \<open>The acknowledgements of one message in the order the webhooks arrive.\<close>

definition apply_acks ::
  "string \<Rightarrow> (message_job_status \<times> timestamp) list \<Rightarrow> message_job table \<Rightarrow> message_job table" where
  "apply_acks wid acks jobs =
     fold (\<lambda>(st, now). update_status_by_openwa_message_id wid st now) acks jobs"

definition ack_step :: "string \<Rightarrow> message_job_status \<times> timestamp \<Rightarrow> message_job \<Rightarrow> message_job" where
  "ack_step wid a j = (case webhook_row wid (fst a) (snd a) j of None \<Rightarrow> j | Some j' \<Rightarrow> j')"

lemma apply_acks_row: "apply_acks wid acks [j] = [fold (ack_step wid) acks j]"
  unfolding apply_acks_def
  by (induction acks arbitrary: j)
    (auto simp: update_status_by_openwa_message_id_def ack_step_def split: prod.splits)

lemma apply_acks_map: "apply_acks wid acks jobs = List.map (fold (ack_step wid) acks) jobs"
  unfolding apply_acks_def
  by (induction acks arbitrary: jobs)
    (auto simp: update_status_by_openwa_message_id_def sql_update_def ack_step_def comp_def
      split: prod.splits)

text \<open>The statuses a sent message passes through, in their order.\<close>

definition sent_status :: "message_job_status \<Rightarrow> bool" where
  "sent_status st \<longleftrightarrow> st \<in> {J_ACCEPTED, J_SENT, J_DELIVERED, J_READ}"

lemma sent_status_rank: "sent_status st \<longleftrightarrow> 0 < status_rank st"
  by (cases st) (auto simp: sent_status_def)

lemma sent_status_inj:
  "sent_status a \<Longrightarrow> sent_status b \<Longrightarrow> status_rank a = status_rank b \<Longrightarrow> a = b"
  by (auto simp: sent_status_def)

definition ack_status :: "message_job_status \<Rightarrow> bool" where
  "ack_status st \<longleftrightarrow> st \<in> {J_SENT, J_DELIVERED, J_READ, J_FAILED}"

text \<open>A failed acknowledgement counts only while the message is just ACCEPTED.\<close>

lemma ack_step_rank:
  assumes "mj_openwa_message_id j = Some wid" "sent_status (mj_status j)" "ack_status st"
    and "mj_status j = J_ACCEPTED \<Longrightarrow> st \<noteq> J_FAILED"
  shows "status_rank (mj_status (ack_step wid (st, now) j)) = max (status_rank (mj_status j)) (status_rank st)
    \<and> mj_openwa_message_id (ack_step wid (st, now) j) = Some wid
    \<and> sent_status (mj_status (ack_step wid (st, now) j)) \<and> mj_status (ack_step wid (st, now) j) \<noteq> J_ACCEPTED"
  using assms by (auto simp: ack_step_def webhook_row_def sql_where_def sent_status_def ack_status_def)

lemma acks_rank:
  assumes "mj_openwa_message_id j = Some wid" "sent_status (mj_status j)" "mj_status j \<noteq> J_ACCEPTED"
    and "\<forall>a \<in> set acks. ack_status (fst a)"
  shows "status_rank (mj_status (fold (ack_step wid) acks j)) =
      fold max (map (status_rank \<circ> fst) acks) (status_rank (mj_status j))
    \<and> sent_status (mj_status (fold (ack_step wid) acks j))"
  using assms
proof (induction acks arbitrary: j)
  case (Cons a acks)
  have st: "ack_status (fst a)" using Cons.prems(4) by simp
  note step = ack_step_rank [OF Cons.prems(1,2) st, of "snd a"]
  show ?case using Cons.IH [of "ack_step wid a j"] step Cons.prems(3,4)
    by (simp add: max.commute)
qed simp

lemma failed_stays: "mj_status j = J_FAILED \<Longrightarrow> mj_status (fold (ack_step wid) acks j) = J_FAILED"
proof (induction acks arbitrary: j)
  case (Cons a acks)
  have "ack_step wid a j = j" using Cons.prems by (simp add: ack_step_def webhook_row_def sql_where_def)
  then show ?case using Cons by simp
qed simp

lemma failed_first:
  assumes "mj_openwa_message_id j = Some wid" "mj_status j = J_ACCEPTED"
  shows "mj_status (fold (ack_step wid) ((J_FAILED, now) # acks) j) = J_FAILED"
proof -
  have "mj_status (ack_step wid (J_FAILED, now) j) = J_FAILED"
    using assms by (simp add: ack_step_def webhook_row_def sql_where_def)
  from failed_stays [OF this] show ?thesis by simp
qed

lemma fold_max: "fold max ns (m::nat) = Max (insert m (set ns))"
  by (metis List.finite_set Max.set_eq_fold list.simps(15))

lemma Max_insert_max: "finite A \<Longrightarrow> Max (insert (max m n) A) = Max (insert m (insert n (A :: nat set)))"
  by (cases "A = {}") (simp_all add: max.assoc)

section \<open>Properties\<close>

text \<open>C29: Acknowledgements may arrive in any order and more than once. If a message that is just ACCEPTED is acknowledged as
  failed before any other acknowledgement, it ends FAILED whatever follows. In every other case failed acknowledgements
  are ignored, and the status of a sent message after any sequence of SENT, DELIVERED, READ and FAILED webhooks is the
  highest of its own status and those received, so two deliveries of the same set of acknowledgements end in the same
  status.\<close>

theorem acks_order_independent:
  assumes "sent_status (mj_status j)" "mj_openwa_message_id j = Some wid"
    and "\<forall>a \<in> set acks. fst a \<in> {J_SENT, J_DELIVERED, J_READ, J_FAILED}"
    and "fst ` set acks' = fst ` set acks"
    and fails: "\<And>as. fails as \<longleftrightarrow> mj_status j = J_ACCEPTED \<and> (\<exists>now as'. as = (J_FAILED, now) # as')"
  shows "(fails acks \<longrightarrow> map mj_status (apply_acks wid acks [j]) = [J_FAILED])
    \<and> (\<not> fails acks \<longrightarrow> status_rank (mj_status (hd (apply_acks wid acks [j])))
        = Max (insert (status_rank (mj_status j)) (status_rank ` fst ` set acks)))
    \<and> (\<not> fails acks \<longrightarrow> \<not> fails acks' \<longrightarrow> map mj_status (apply_acks wid acks [j]) = map mj_status (apply_acks wid acks' [j]))"
proof -
  have ok: "\<forall>a \<in> set acks. ack_status (fst a)" using assms(3) by (simp add: ack_status_def)
  have ok': "\<forall>a \<in> set acks'. ack_status (fst a)"
  proof
    fix a assume "a \<in> set acks'"
    then have "fst a \<in> fst ` set acks" using assms(4) by force
    then show "ack_status (fst a)" using ok by auto
  qed
  have rank: "status_rank (mj_status (fold (ack_step wid) as j))
      = Max (insert (status_rank (mj_status j)) (status_rank ` fst ` set as))
      \<and> sent_status (mj_status (fold (ack_step wid) as j))"
    if as: "\<forall>a \<in> set as. ack_status (fst a)" "\<not> fails as" for as
  proof (cases as)
    case Nil
    then show ?thesis using assms(1) by simp
  next
    case (Cons a as')
    have first: "ack_status (fst a)" and rest: "\<forall>a \<in> set as'. ack_status (fst a)" using as(1) Cons by simp_all
    have "mj_status j = J_ACCEPTED \<Longrightarrow> fst a \<noteq> J_FAILED" using as(2) unfolding fails Cons by (cases a) auto
    note step = ack_step_rank [OF assms(2,1) first this, of "snd a"]
    then have "status_rank (mj_status (fold (ack_step wid) as' (ack_step wid a j)))
        = fold max (map (status_rank \<circ> fst) as') (max (status_rank (mj_status j)) (status_rank (fst a)))
        \<and> sent_status (mj_status (fold (ack_step wid) as' (ack_step wid a j)))"
      using acks_rank [of "ack_step wid a j" wid as'] rest by simp
    then show ?thesis unfolding Cons
      by (simp add: fold_max image_comp insert_commute Max_insert_max)
  qed
  show ?thesis
    using rank [OF ok] rank [OF ok'] assms(4) sent_status_inj failed_first [OF assms(2)] fails [of acks]
    by (auto simp: apply_acks_row simp del: fold_simps)
qed

definition sample_input :: job_input where
  "sample_input = \<lparr>ji_scope = ''runtime-api'', ji_key = ''k1'', ji_hash = ''h1'',
     ji_session_id = ''s1'', ji_recipient_id = ''g1@g.us'', ji_text = ''hi'',
     ji_scheduled_at = 0, ji_dry_run = False\<rparr>"

definition accepted_sample :: message_job where
  "accepted_sample = (new_job ''j1'' sample_input 0)
     \<lparr>mj_status := J_ACCEPTED, mj_attempt_count := 1, mj_openwa_message_id := Some ''w1''\<rparr>"

lemma acks_order_independent_witness:
  "map mj_status (apply_acks ''w1'' [(J_READ, 1), (J_SENT, 2)] [accepted_sample])
     = map mj_status (apply_acks ''w1'' [(J_SENT, 1), (J_READ, 3), (J_READ, 4)] [accepted_sample])"
  using acks_order_independent [of accepted_sample "''w1''" "[(J_READ, 1), (J_SENT, 2)]"
      "[(J_SENT, 1), (J_READ, 3), (J_READ, 4)]" "\<lambda>as. \<exists>now as'. as = (J_FAILED, now) # as'"]
  by (simp add: accepted_sample_def sent_status_def insert_commute)

text \<open>claimDue takes at most its limit of the jobs that are scheduled and due, the earliest
  first: a due job it leaves behind means the limit was reached by jobs scheduled no later. It marks
  exactly those it returns as QUEUED and changes no other job.\<close>

theorem claim_due_earliest:
  assumes "jobs_wf jobs" "claim_due n now jobs = (jobs', picked)"
  shows "length picked \<le> n
    \<and> (\<forall>p \<in> set picked. mj_status p = J_QUEUED \<and> mj_scheduled_at p \<le> now)
    \<and> (\<forall>j \<in> set jobs. if mj_id j \<in> mj_id ` set picked
         then mj_status j = J_SCHEDULED \<and> j\<lparr>mj_status := J_QUEUED, mj_updated_at := now\<rparr> \<in> set jobs'
         else j \<in> set jobs')
    \<and> (\<forall>j \<in> set jobs. due now j \<and> mj_id j \<notin> mj_id ` set picked \<longrightarrow>
         length picked = n \<and> (\<forall>p \<in> set picked. mj_scheduled_at p \<le> mj_scheduled_at j))"
proof -
  let ?p = "sql_top n mj_scheduled_at (due now) jobs"
  have keyed: "keyed mj_id jobs" using assms(1) by (simp add: jobs_wf_def)
  have jobs': "jobs' = sql_update (job_row (JQueue (map mj_id ?p) now)) jobs"
    using claim_due_row [OF keyed, of n now] assms(2) by simp
  have picked: "picked = map (\<lambda>j. j\<lparr>mj_status := J_QUEUED\<rparr>) ?p"
    using assms(2) by (simp add: claim_due_def Let_def split: if_splits)
  then have ids: "mj_id ` set picked = mj_id ` set ?p" by (simp add: image_image)
  have due_p: "\<forall>p \<in> set ?p. due now p \<and> p \<in> set jobs" using set_sql_top by fast
  have in_p: "j \<in> set ?p" if "j \<in> set jobs" "mj_id j \<in> mj_id ` set ?p" for j
    using that due_p keyed_inj [OF keyed] by force
  have "\<forall>j \<in> set jobs. if mj_id j \<in> mj_id ` set picked
      then mj_status j = J_SCHEDULED \<and> j\<lparr>mj_status := J_QUEUED, mj_updated_at := now\<rparr> \<in> set jobs'
      else j \<in> set jobs'"
  proof
    fix j assume j: "j \<in> set jobs"
    show "if mj_id j \<in> mj_id ` set picked
      then mj_status j = J_SCHEDULED \<and> j\<lparr>mj_status := J_QUEUED, mj_updated_at := now\<rparr> \<in> set jobs'
      else j \<in> set jobs'"
    proof (cases "mj_id j \<in> mj_id ` set picked")
      case True
      then have d: "due now j" using in_p [OF j] due_p ids by auto
      then have "job_row (JQueue (map mj_id ?p) now) j
          = Some (j\<lparr>mj_status := J_QUEUED, mj_updated_at := now\<rparr>)"
        using True ids by (auto simp: queue_row_def sql_where_def)
      then show ?thesis using True d sql_update_mem_changed [OF j] jobs' by (simp add: due_def)
    next
      case False
      then have "job_row (JQueue (map mj_id ?p) now) j = None"
        using ids by (auto simp: queue_row_def)
      then show ?thesis using False sql_update_mem_kept [OF j] jobs' by simp
    qed
  qed
  moreover have "\<forall>j \<in> set jobs. due now j \<and> mj_id j \<notin> mj_id ` set picked \<longrightarrow>
      length picked = n \<and> (\<forall>p \<in> set picked. mj_scheduled_at p \<le> mj_scheduled_at j)"
  proof (intro ballI impI)
    fix j assume j: "j \<in> set jobs" "due now j \<and> mj_id j \<notin> mj_id ` set picked"
    then have out: "j \<notin> set ?p" using ids by auto
    have "\<not> length ?p < n" using sql_top_short_all out j by fast
    moreover have "\<forall>p \<in> set ?p. mj_scheduled_at p \<le> mj_scheduled_at j"
      using sql_top_first [OF _ j(1) _ out] j(2) by blast
    ultimately show "length picked = n \<and> (\<forall>p \<in> set picked. mj_scheduled_at p \<le> mj_scheduled_at j)"
      using length_sql_top [of n mj_scheduled_at "due now" jobs] by (simp add: picked)
  qed
  ultimately show ?thesis
    using due_p length_sql_top [of n mj_scheduled_at "due now" jobs]
    by (auto simp: picked due_def)
qed

lemma claim_due_earliest_witness:
  "length (snd (claim_due 1 9 [new_job ''j1'' sample_input 0])) \<le> 1"
proof -
  have wf: "jobs_wf [new_job ''j1'' sample_input 0]"
    using new_job_wf by (simp add: jobs_wf_def keyed_def)
  show ?thesis
    using claim_due_earliest [OF wf prod.collapse [symmetric], of 1 9] by blast
qed

text \<open>Creation is idempotent by (scope, key): whatever happens to the jobs after a creation, a
  second creation with the key inserts nothing and returns the first job's row, and it reports a
  conflict exactly when its request hash differs.\<close>

theorem create_job_idempotent:
  assumes "create_job jid i now jobs = (jobs1, r)" "jr_created r"
    and "jobs2 = fold (\<lambda>op. sql_update (job_row op)) ops jobs1"
    and "ji_scope i' = ji_scope i" "ji_key i' = ji_key i"
  shows "fst (create_job jid' i' now' jobs2) = jobs2
    \<and> \<not> jr_created (snd (create_job jid' i' now' jobs2))
    \<and> mj_id (jr_job (snd (create_job jid' i' now' jobs2))) = jid
    \<and> (jr_conflict (snd (create_job jid' i' now' jobs2)) \<longleftrightarrow> ji_hash i' \<noteq> ji_hash i)"
proof -
  have "mj_id (jr_job r) = jid"
    using assms(1,2) by (cases rule: create_job_cases [of i jobs jid now]) (auto simp: new_job_def)
  then show ?thesis
    using job_create.create_twice [of "(jid, i, now)" jobs jobs1 r "jr_job r" "(jid', i', now')" jobs2 ops]
      assms by (simp add: create_job_input_def job_input_key_def job_input_hash_def)
qed

lemma create_job_idempotent_witness:
  "mj_id (jr_job (snd (create_job ''j2'' sample_input 7
      (fold (\<lambda>op. sql_update (job_row op)) [JQueue [''j1''] 5, JProcess ''j1'' 6]
        [new_job ''j1'' sample_input 0])))) = ''j1''"
  using create_job_idempotent [of "''j1''" sample_input 0 "[]" "[new_job ''j1'' sample_input 0]"
      "\<lparr>jr_job = new_job ''j1'' sample_input 0, jr_created = True, jr_conflict = False\<rparr>"
      _ "[JQueue [''j1''] 5, JProcess ''j1'' 6]" sample_input "''j2''" 7]
  by (simp add: create_job_def)

lemma take_until_newline:
  assumes "x @ CHR 0x0A # u = y @ CHR 0x0A # v" "CHR 0x0A \<notin> set x" "CHR 0x0A \<notin> set y"
  shows "x = y \<and> u = v"
  using assms
proof (induction x arbitrary: y)
  case Nil
  then show ?case by (cases y) auto
next
  case (Cons c x)
  then show ?case by (cases y) auto
qed

lemma last_newline:
  assumes "u @ CHR 0x0A # x = v @ CHR 0x0A # y" "CHR 0x0A \<notin> set x" "CHR 0x0A \<notin> set y"
  shows "u = v \<and> x = y"
proof -
  have "rev x @ CHR 0x0A # rev u = rev y @ CHR 0x0A # rev v"
    using arg_cong [OF assms(1), of rev] by simp
  then show ?thesis using take_until_newline [of "rev x" "rev u" "rev y" "rev v"] assms(2,3) by simp
qed

lemma js_bool_no_newline: "CHR 0x0A \<notin> set (js_bool b)"
  by (simp add: js_bool_def)

lemma js_bool_inj: "js_bool a = js_bool b \<Longrightarrow> a = b"
  by (simp add: js_bool_def split: if_splits)

text \<open>The digest input of a message request determines the request (up to the normalized
  time) when the session id, the recipient and the ISO time hold no line feed; the text may hold any.\<close>

theorem request_preimage_injective:
  assumes "request_preimage to_iso q = request_preimage to_iso q'"
    and "\<forall>x \<in> {q, q'}. CHR 0x0A \<notin> set (mq_session_id x) \<and> CHR 0x0A \<notin> set (mq_recipient_id x)
      \<and> CHR 0x0A \<notin> set (iso_field to_iso (mq_scheduled_at x))"
  shows "mq_session_id q = mq_session_id q' \<and> mq_recipient_id q = mq_recipient_id q'
    \<and> mq_text q = mq_text q' \<and> mq_dry_run q = mq_dry_run q'
    \<and> iso_field to_iso (mq_scheduled_at q) = iso_field to_iso (mq_scheduled_at q')"
proof -
  let ?nl = "CHR 0x0A"
  let ?r = "\<lambda>x. mq_text x @ ?nl # iso_field to_iso (mq_scheduled_at x)"
  have split: "request_preimage to_iso x = mq_session_id x @ ?nl # mq_recipient_id x @ ?nl #
      (?r x @ ?nl # js_bool (mq_dry_run x))" for x
    by (simp add: request_preimage_def)
  have 1: "mq_session_id q = mq_session_id q'"
    and r1: "mq_recipient_id q @ ?nl # (?r q @ ?nl # js_bool (mq_dry_run q))
      = mq_recipient_id q' @ ?nl # (?r q' @ ?nl # js_bool (mq_dry_run q'))"
    using take_until_newline [OF assms(1) [unfolded split]] assms(2) by auto
  have 2: "mq_recipient_id q = mq_recipient_id q'"
    and r2: "?r q @ ?nl # js_bool (mq_dry_run q) = ?r q' @ ?nl # js_bool (mq_dry_run q')"
    using take_until_newline [OF r1] assms(2) by auto
  have r3: "?r q = ?r q'" and 3: "js_bool (mq_dry_run q) = js_bool (mq_dry_run q')"
    using last_newline [OF r2] js_bool_no_newline by auto
  have "mq_text q = mq_text q' \<and> iso_field to_iso (mq_scheduled_at q) = iso_field to_iso (mq_scheduled_at q')"
    using last_newline [OF r3] assms(2) by auto
  then show ?thesis using 1 2 js_bool_inj [OF 3] by blast
qed

definition sample_request :: message_request where
  "sample_request = \<lparr>mq_session_id = ''s1'', mq_recipient_id = ''g1@g.us'', mq_text = ''hi'',
     mq_scheduled_at = None, mq_dry_run = True\<rparr>"

lemma request_preimage_injective_witness:
  "request_preimage (\<lambda>s. s) sample_request
     \<noteq> request_preimage (\<lambda>s. s) (sample_request\<lparr>mq_text := ''h'' @ CHR 0x0A # ''i''\<rparr>)"
  using request_preimage_injective [of "\<lambda>s. s" sample_request
      "sample_request\<lparr>mq_text := ''h'' @ CHR 0x0A # ''i''\<rparr>"]
  by (auto simp: sample_request_def iso_field_def)

text \<open>C38: Without that condition the digest input is ambiguous: for every digest function and every
  two texts, a line feed in the recipient moves a part of one request's text into the other's
  recipient, and the two different requests have one request hash.\<close>

theorem request_hash_collision:
  "message_request_hash hash to_iso
     (q\<lparr>mq_recipient_id := r @ CHR 0x0A # t1, mq_text := t2\<rparr>) =
   message_request_hash hash to_iso
     (q\<lparr>mq_recipient_id := r, mq_text := t1 @ CHR 0x0A # t2\<rparr>)
   \<and> r @ CHR 0x0A # t1 \<noteq> r"
  by (simp add: message_request_hash_def request_preimage_def)

end
