(* ===== verification/Gateway_Schema.thy ===== *)
theory Gateway_Schema
  imports Schema
begin

text \<open>
  The tables of the gateway synchronization: sync runs and their per-session epoch fences, the
  reconciliation items of a run, the event-driven group intents and the request pacing of a
  session (migrations 002, 009, 012, 015 and 017).
\<close>

datatype sync_mode = FULL | INCREMENTAL
datatype sync_status = SY_PENDING | SY_RUNNING | SY_COMPLETED | SY_FAILED
datatype sync_phase = DISCOVERING | RECONCILING | PHASE_COMPLETED
datatype sync_item_status = SI_PENDING | SI_RUNNING | SI_RETRY | SI_COMPLETED | SI_FAILED | SI_SKIPPED
datatype intent_status = I_PENDING | I_RUNNING | I_RETRY | I_COMPLETED | I_FAILED
datatype sync_item_reason =
  REASON_FULL | MISSING_DETAILS | CAPABILITY_INVALIDATED | SUMMARY_NOT_RECONCILED | DETAILS_STALE

record sync_run =
  sr_id :: uuid
  sr_session_id :: string
  sr_mode :: sync_mode
  sr_status :: sync_status
  sr_phase :: sync_phase
  sr_synced :: nat
  sr_discovered :: nat
  sr_scheduled :: nat
  sr_failed :: nat
  sr_skipped :: nat
  sr_members :: nat
  sr_attempt_count :: nat
  sr_next_attempt_at :: timestamp
  sr_epoch :: "nat option"
  sr_lease_token :: "uuid option"
  sr_lease_expires_at :: "timestamp option"
  sr_error :: "string option"
  sr_requested_at :: timestamp
  sr_started_at :: "timestamp option"
  sr_completed_at :: "timestamp option"

record sync_fence =
  sf_session_id :: string
  sf_epoch :: nat

record sync_item =
  si_id :: uuid
  si_run_id :: uuid
  si_session_id :: string
  si_group_id :: string
  si_ordinal :: nat
  si_reason :: sync_item_reason
  si_fingerprint :: "string option"
  si_status :: sync_item_status
  si_attempt_count :: nat
  si_next_attempt_at :: timestamp
  si_lease_token :: "uuid option"
  si_lease_expires_at :: "timestamp option"
  si_members :: nat
  si_error :: "string option"
  si_started_at :: "timestamp option"
  si_completed_at :: "timestamp option"

record group_intent =
  in_session_id :: string
  in_group_id :: string
  in_requested :: nat
  in_completed :: nat
  in_claimed :: "nat option"
  in_reasons :: "string list"
  in_status :: intent_status
  in_not_before :: timestamp
  in_next_attempt_at :: timestamp
  in_attempt_count :: nat
  in_coalesced :: nat
  in_lease_token :: "uuid option"
  in_lease_expires_at :: "timestamp option"
  in_error_code :: "string option"
  in_first_requested_at :: timestamp
  in_last_requested_at :: timestamp
  in_started_at :: "timestamp option"
  in_completed_at :: "timestamp option"

record rate_limit =
  rl_session_id :: string
  rl_next_request_at :: timestamp
  rl_consecutive_failures :: nat
  rl_cooldown_until :: "timestamp option"
  rl_lease_token :: "uuid option"
  rl_lease_expires_at :: "timestamp option"
  rl_effective :: "int option"
  rl_success_streak :: int
  rl_pressure_at :: "timestamp option"

record sync_db =
  sync_runs :: "sync_run table"
  sync_fences :: "sync_fence table"
  sync_items :: "sync_item table"
  group_intents :: "group_intent table"
  rate_limits :: "rate_limit table"

end
