(* ===== verification/Leases.thy ===== *)
theory Leases
  imports Prelude
begin

text \<open>
  The contract that every leased row of the Runtime follows: webhook events, sync runs, sync items,
  group intents, capability refreshes and the preparation of campaign runs. A worker claims a row
  with a fresh token for two minutes, settles it by presenting the token before the lease ends,
  and a sweep takes an expired lease away. Each component states its row updates itself and
  interprets the locales below; the lemmas here are what the fencing by token and expiry gives.
\<close>

section \<open>Claim, settle, recover\<close>

text \<open>What may happen to a leased row: a claim, a settlement with an outcome, a sweep.\<close>

datatype 's lease_event =
    Claim uuid timestamp
  | Settle 's uuid timestamp
  | Sweep timestamp

locale leased_row =
  fixes token :: "'r \<Rightarrow> uuid option"
    and expires :: "'r \<Rightarrow> timestamp option"
    and claim :: "uuid \<Rightarrow> timestamp \<Rightarrow> 'r row_update"
    and settle :: "'s \<Rightarrow> uuid \<Rightarrow> timestamp \<Rightarrow> 'r row_update"
    and recover :: "timestamp \<Rightarrow> 'r row_update"
  assumes claim_grants: "claim t now r = Some r' \<Longrightarrow>
      token r' = Some t \<and> expires r' = Some (now + lease_ttl)"
    and claim_free: "claim t now r = Some r' \<Longrightarrow> token r = None \<or> null_before (expires r) now"
    and settle_owner: "settle s t now r = Some r' \<Longrightarrow> token r = Some t \<and> null_after (expires r) now"
    and settle_releases: "settle s t now r = Some r' \<Longrightarrow> token r' = None"
    and recover_free: "recover now r = Some r' \<Longrightarrow> token r = None \<or> null_before (expires r) now"
    and recover_releases: "recover now r = Some r' \<Longrightarrow> token r' = None"
begin

text \<open>While a lease is live nobody else gets the row, and the sweep leaves it alone.\<close>

lemma claim_excludes:
  assumes "claim t now r = Some r'" "now' \<le> now + lease_ttl"
  shows "claim t' now' r' = None"
proof (cases "claim t' now' r'")
  case (Some r'')
  then show ?thesis using claim_grants [OF assms(1)] claim_free [OF Some] assms(2) by simp
qed simp

lemma recover_spares_live:
  assumes "claim t now r = Some r'" "now' \<le> now + lease_ttl"
  shows "recover now' r' = None"
proof (cases "recover now' r'")
  case (Some r'')
  then show ?thesis using claim_grants [OF assms(1)] recover_free [OF Some] assms(2) by simp
qed simp

text \<open>A worker whose lease was taken over, has ended or was settled can settle nothing.\<close>

lemma stale_token: "claim t now r = Some r' \<Longrightarrow> t' \<noteq> t \<Longrightarrow> settle s t' now' r' = None"
  using claim_grants settle_owner by (cases "settle s t' now' r'") fastforce+

lemma expired_token:
  assumes "claim t now r = Some r'" "now + lease_ttl \<le> now'"
  shows "settle s t now' r' = None"
proof (cases "settle s t now' r'")
  case (Some r'')
  then show ?thesis using claim_grants [OF assms(1)] settle_owner [OF Some] assms(2) by simp
qed simp

lemma settle_once: "settle s t now r = Some r' \<Longrightarrow> settle s' t' now' r' = None"
  using settle_releases settle_owner by (cases "settle s' t' now' r'") fastforce+

lemma recovered_token: "recover now r = Some r' \<Longrightarrow> settle s t now' r' = None"
  using recover_releases settle_owner by (cases "settle s t now' r'") fastforce+

definition lease_effect :: "'s lease_event \<Rightarrow> 'r row_update" where
  "lease_effect e r = (case e of Claim t now \<Rightarrow> claim t now r
     | Settle s t now \<Rightarrow> settle s t now r | Sweep now \<Rightarrow> recover now r)"

definition lease_step :: "'s lease_event \<Rightarrow> 'r \<Rightarrow> 'r" where
  "lease_step e r = (case lease_effect e r of None \<Rightarrow> r | Some r' \<Rightarrow> r')"

definition lease_run :: "'s lease_event list \<Rightarrow> 'r \<Rightarrow> 'r" where
  "lease_run es r = fold lease_step es r"

lemma lease_run_Nil: "lease_run [] r = r"
  by (simp add: lease_run_def)

lemma lease_run_snoc: "lease_run (es @ [e]) r = lease_step e (lease_run es r)"
  by (simp add: lease_run_def)

text \<open>
  In any sequence of events from an unleased row, the token on the row is that of a claim of the
  sequence that was granted, and nothing has changed the row since.
\<close>

lemma token_from_claim:
  assumes "token r = None" "token (lease_run es r) = Some t"
  shows "\<exists>es1 now es2. es = es1 @ Claim t now # es2
    \<and> claim t now (lease_run es1 r) = Some (lease_run es r)"
  using assms(2)
proof (induction es rule: rev_induct)
  case Nil
  then show ?case using assms(1) by (simp add: lease_run_Nil)
next
  case (snoc e es)
  show ?case
  proof (cases "lease_effect e (lease_run es r)")
    case None
    then have "lease_run (es @ [e]) r = lease_run es r"
      by (simp add: lease_run_snoc lease_step_def)
    then show ?thesis using snoc by fastforce
  next
    case (Some r')
    then have run: "lease_run (es @ [e]) r = r'"
      by (simp add: lease_run_snoc lease_step_def)
    show ?thesis
    proof (cases e)
      case (Claim t' now)
      then have "claim t' now (lease_run es r) = Some r'"
        using Some by (simp add: lease_effect_def)
      moreover from this have "t' = t" using claim_grants snoc.prems run by force
      ultimately show ?thesis using Claim run by blast
    next
      case (Settle s t' now)
      then have "token r' = None" using Some settle_releases by (simp add: lease_effect_def)
      then show ?thesis using snoc.prems run by simp
    next
      case (Sweep now)
      then have "token r' = None" using Some recover_releases by (simp add: lease_effect_def)
      then show ?thesis using snoc.prems run by simp
    qed
  qed
qed

lemma settle_fenced:
  assumes "token r = None" "settle s t now (lease_run es r) = Some r'"
  shows "\<exists>es1 now0 es2. es = es1 @ Claim t now0 # es2 \<and> now < now0 + lease_ttl
    \<and> claim t now0 (lease_run es1 r) = Some (lease_run es r)"
proof -
  have own: "token (lease_run es r) = Some t" "null_after (expires (lease_run es r)) now"
    using settle_owner [OF assms(2)] by auto
  obtain es1 now0 es2 where es: "es = es1 @ Claim t now0 # es2"
    and c: "claim t now0 (lease_run es1 r) = Some (lease_run es r)"
    using token_from_claim [OF assms(1) own(1)] by blast
  have "now < now0 + lease_ttl" using claim_grants [OF c] own(2) by simp
  then show ?thesis using es c by blast
qed

end

section \<open>Leases that the owner renews\<close>

locale renewable_row = leased_row token expires claim settle recover
  for token :: "'r \<Rightarrow> uuid option" and expires :: "'r \<Rightarrow> timestamp option"
    and claim :: "uuid \<Rightarrow> timestamp \<Rightarrow> 'r row_update"
    and settle :: "'s \<Rightarrow> uuid \<Rightarrow> timestamp \<Rightarrow> 'r row_update"
    and recover :: "timestamp \<Rightarrow> 'r row_update" +
  fixes renew :: "uuid \<Rightarrow> timestamp \<Rightarrow> 'r row_update"
  assumes renew_owner: "renew t now r = Some r' \<Longrightarrow> token r = Some t \<and> null_after (expires r) now"
    and renew_extends: "renew t now r = Some r' \<Longrightarrow>
      token r' = Some t \<and> expires r' = Some (now + lease_ttl)"
begin

lemma renew_excludes:
  assumes "renew t now r = Some r'" "now' \<le> now + lease_ttl"
  shows "claim t' now' r' = None"
proof (cases "claim t' now' r'")
  case (Some r'')
  then show ?thesis using renew_extends [OF assms(1)] claim_free [OF Some] assms(2) by simp
qed simp

lemma renew_after_settle: "settle s t now r = Some r' \<Longrightarrow> renew t' now' r' = None"
  using settle_releases renew_owner by (cases "renew t' now' r'") fastforce+

end

section \<open>Leases with a bounded number of attempts\<close>

locale counted_work = leased_row token expires claim settle recover
  for token :: "'r \<Rightarrow> uuid option" and expires :: "'r \<Rightarrow> timestamp option"
    and claim :: "uuid \<Rightarrow> timestamp \<Rightarrow> 'r row_update"
    and settle :: "'s \<Rightarrow> uuid \<Rightarrow> timestamp \<Rightarrow> 'r row_update"
    and recover :: "timestamp \<Rightarrow> 'r row_update" +
  fixes attempts :: "'r \<Rightarrow> nat" and limit :: nat
  assumes claim_counts: "claim t now r = Some r' \<Longrightarrow>
      attempts r < limit \<and> attempts r' = attempts r + 1"
    and recover_counts: "recover now r = Some r' \<Longrightarrow> attempts r' = attempts r"
begin

definition granted :: "'s lease_event \<Rightarrow> 'r \<Rightarrow> bool" where
  "granted e r = (case e of Claim t now \<Rightarrow> claim t now r \<noteq> None | _ \<Rightarrow> False)"

text \<open>The number of granted claims along a sequence of events.\<close>

primrec grants :: "'s lease_event list \<Rightarrow> 'r \<Rightarrow> nat" where
  "grants [] r = 0"
| "grants (e # es) r = (if granted e r then 1 else 0) + grants es (lease_step e r)"

lemma granted_below: "granted e r \<Longrightarrow> attempts r < limit"
  using claim_counts by (cases e) (auto simp: granted_def)

end

text \<open>A settlement keeps the count.\<close>

locale bounded_work = counted_work token expires claim settle recover attempts limit
  for token :: "'r \<Rightarrow> uuid option" and expires :: "'r \<Rightarrow> timestamp option"
    and claim :: "uuid \<Rightarrow> timestamp \<Rightarrow> 'r row_update"
    and settle :: "'s \<Rightarrow> uuid \<Rightarrow> timestamp \<Rightarrow> 'r row_update"
    and recover :: "timestamp \<Rightarrow> 'r row_update"
    and attempts :: "'r \<Rightarrow> nat" and limit :: nat +
  assumes settle_counts: "settle s t now r = Some r' \<Longrightarrow> attempts r' = attempts r"
begin

lemma attempts_step: "attempts (lease_step e r) = attempts r + (if granted e r then 1 else 0)"
  by (cases e; cases "lease_effect e r")
    (auto simp: lease_step_def lease_effect_def granted_def
      dest: claim_counts settle_counts recover_counts)

lemma attempts_run: "attempts (lease_run es r) = attempts r + grants es r"
  by (induction es arbitrary: r) (simp_all add: lease_run_def attempts_step)

lemma attempts_bounded: "attempts r \<le> limit \<Longrightarrow> attempts (lease_step e r) \<le> limit"
  using granted_below by (auto simp: attempts_step Suc_le_eq)

lemma grants_bounded: "attempts r \<le> limit \<Longrightarrow> attempts r + grants es r \<le> limit"
proof (induction es arbitrary: r)
  case (Cons e es)
  then show ?case using Cons.IH [OF attempts_bounded [OF Cons.prems, of e]]
    by (simp add: attempts_step)
qed simp

end

text \<open>A settlement with certain outcomes gives the attempt of its claim back.\<close>

locale refunding_work = counted_work token expires claim settle recover attempts limit
  for token :: "'r \<Rightarrow> uuid option" and expires :: "'r \<Rightarrow> timestamp option"
    and claim :: "uuid \<Rightarrow> timestamp \<Rightarrow> 'r row_update"
    and settle :: "'s \<Rightarrow> uuid \<Rightarrow> timestamp \<Rightarrow> 'r row_update"
    and recover :: "timestamp \<Rightarrow> 'r row_update"
    and attempts :: "'r \<Rightarrow> nat" and limit :: nat +
  fixes refunds :: "'s \<Rightarrow> bool"
  assumes settle_refunds: "settle s t now r = Some r' \<Longrightarrow>
      attempts r' = attempts r - (if refunds s then 1 else 0)"
begin

definition refunded :: "'s lease_event \<Rightarrow> 'r \<Rightarrow> bool" where
  "refunded e r = (case e of Settle s t now \<Rightarrow> refunds s \<and> settle s t now r \<noteq> None | _ \<Rightarrow> False)"

primrec given_back :: "'s lease_event list \<Rightarrow> 'r \<Rightarrow> nat" where
  "given_back [] r = 0"
| "given_back (e # es) r = (if refunded e r then 1 else 0) + given_back es (lease_step e r)"

text \<open>A row that is leased has an attempt to give back.\<close>

lemma charged_step:
  assumes "token r \<noteq> None \<longrightarrow> 0 < attempts r"
  shows "attempts (lease_step e r) + (if refunded e r then 1 else 0) = attempts r + (if granted e r then 1 else 0)
    \<and> (token (lease_step e r) \<noteq> None \<longrightarrow> 0 < attempts (lease_step e r))"
proof (cases "lease_effect e r")
  case None
  then have "\<not> granted e r" "\<not> refunded e r"
    by (auto simp: lease_effect_def granted_def refunded_def split: lease_event.splits)
  then show ?thesis using None assms by (simp add: lease_step_def)
next
  case (Some r')
  show ?thesis
  proof (cases e)
    case (Claim t now)
    then show ?thesis using Some claim_counts
      by (auto simp: lease_step_def lease_effect_def granted_def refunded_def)
  next
    case (Settle s t now)
    then have settled: "settle s t now r = Some r'" using Some by (simp add: lease_effect_def)
    then have "0 < attempts r" using settle_owner assms by fastforce
    then show ?thesis using Settle settled settle_refunds [OF settled] settle_releases [OF settled]
      by (simp add: lease_step_def lease_effect_def granted_def refunded_def)
  next
    case (Sweep now)
    then show ?thesis using Some recover_counts recover_releases
      by (auto simp: lease_step_def lease_effect_def granted_def refunded_def)
  qed
qed

lemma charged_run:
  assumes "token r \<noteq> None \<longrightarrow> 0 < attempts r"
  shows "attempts (lease_run es r) + given_back es r = attempts r + grants es r"
  using assms
proof (induction es arbitrary: r)
  case (Cons e es)
  have step: "attempts (lease_step e r) + (if refunded e r then 1 else 0) = attempts r + (if granted e r then 1 else 0)"
    and held: "token (lease_step e r) \<noteq> None \<longrightarrow> 0 < attempts (lease_step e r)"
    using charged_step [OF Cons.prems] by blast+
  have run: "lease_run (e # es) r = lease_run es (lease_step e r)" by (simp add: lease_run_def)
  show ?case unfolding given_back.simps grants.simps run using step Cons.IH [OF held] by linarith
qed (simp add: lease_run_def)

lemma charged_bounded:
  assumes "token r \<noteq> None \<longrightarrow> 0 < attempts r" and "attempts r \<le> limit"
  shows "attempts (lease_run es r) \<le> limit"
  using assms
proof (induction es arbitrary: r)
  case (Cons e es)
  have "attempts (lease_step e r) \<le> limit"
    using charged_step [OF Cons.prems(1), of e] granted_below [of e r] Cons.prems(2) by (auto split: if_splits)
  then show ?case using charged_step [OF Cons.prems(1), of e] Cons.IH [of "lease_step e r"]
    by (simp add: lease_run_def)
qed (simp add: lease_run_def)

end

end
