(* ===== verification/Group_Capability.thy ===== *)
theory Group_Capability
  imports Gateway_Schema Leases
begin

text \<open>
  The send capability of a group (src/src/modules/gateway/group-capability.ts,
  gateway-capability.repository.ts) and every statement of the Runtime that writes the capability
  columns of gateway_groups: the replacement of the summaries and the upsert of the details
  (gateway-group-snapshot.repository.ts, gateway-sync-item.repository.ts) and the invalidation by a
  group event (runtime-event.repository.ts). Then the invariant of those columns, the meaning of
  the revision, and the refresh lease as an interpretation of the leased-row contract.
\<close>

section \<open>The decision\<close>

record capability_input =
  ci_is_active :: bool
  ci_is_read_only :: "bool option"
  ci_is_announce :: "bool option"
  ci_is_admin :: "bool option"
  ci_has_details :: bool

definition evaluate_group_capability ::
  "capability_input \<Rightarrow> capability_status \<times> capability_reason" where
  "evaluate_group_capability i =
     (if \<not> ci_is_active i then (DENIED, GROUP_INACTIVE)
      else if \<not> ci_has_details i then (UNKNOWN, METADATA_INCOMPLETE)
      else if ci_is_read_only i = Some True then (DENIED, GROUP_READ_ONLY)
      else if ci_is_announce i = Some True \<and> ci_is_admin i = Some False then (DENIED, ADMIN_ONLY)
      else if ci_is_announce i = Some True \<and> ci_is_admin i = None then (UNKNOWN, ADMIN_STATUS_UNKNOWN)
      else if ci_is_announce i = Some False \<and> ci_is_read_only i = Some False
        then (ALLOWED, SEND_ALLOWED)
      else (UNKNOWN, METADATA_INCOMPLETE))"

lemma evaluate_allowed_iff:
  "fst (evaluate_group_capability i) = ALLOWED \<longleftrightarrow>
     ci_is_active i \<and> ci_has_details i \<and> ci_is_read_only i = Some False \<and> ci_is_announce i = Some False"
  by (auto simp: evaluate_group_capability_def)

lemma evaluate_reason_allowed:
  "snd (evaluate_group_capability i) = SEND_ALLOWED \<longleftrightarrow> fst (evaluate_group_capability i) = ALLOWED"
  by (auto simp: evaluate_group_capability_def)

section \<open>The statements of gateway-capability.repository.ts\<close>

definition is_group :: "string \<Rightarrow> string \<Rightarrow> gateway_group \<Rightarrow> bool" where
  "is_group sid gid g \<longleftrightarrow> gg_session_id g = sid \<and> gg_id g = gid"

definition invalidate_row ::
  "string \<Rightarrow> string \<Rightarrow> capability_reason \<Rightarrow> timestamp \<Rightarrow> gateway_group row_update" where
  "invalidate_row sid gid reason now =
     sql_where (\<lambda>g. is_group sid gid g \<and> gg_is_active g)
       (\<lambda>g. g\<lparr>gg_capability := UNKNOWN, gg_reason := reason, gg_invalidated_at := Some now,
          gg_revision := gg_revision g + 1, gg_attempt_count := 0, gg_next_attempt_at := now,
          gg_lease_token := None, gg_lease_expires_at := None, gg_refresh_error := None,
          gg_updated_at := now\<rparr>)"

definition invalidate_capability ::
  "string \<Rightarrow> string \<Rightarrow> capability_reason \<Rightarrow> timestamp \<Rightarrow> gateway_group table
    \<Rightarrow> gateway_group table \<times> bool" where
  "invalidate_capability sid gid reason now gs =
     (sql_update (invalidate_row sid gid reason now) gs,
      sql_count (invalidate_row sid gid reason now) gs = 1)"

text \<open>The NOT EXISTS conditions: a sync run that is about to rewrite the groups, and an intent.\<close>

definition sync_discovery_pending :: "sync_run table \<Rightarrow> string \<Rightarrow> bool" where
  "sync_discovery_pending runs sid \<longleftrightarrow>
     (\<exists>r \<in> set runs. sr_session_id r = sid \<and>
        (sr_status r = SY_PENDING \<or> (sr_status r = SY_RUNNING \<and> sr_phase r = DISCOVERING)))"

definition intent_active :: "group_intent table \<Rightarrow> gateway_group \<Rightarrow> bool" where
  "intent_active intents g \<longleftrightarrow>
     (\<exists>i \<in> set intents. in_session_id i = gg_session_id g \<and> in_group_id i = gg_id g
        \<and> in_status i \<in> {I_PENDING, I_RUNNING, I_RETRY})"

definition refresh_ready :: "sync_run table \<Rightarrow> timestamp \<Rightarrow> gateway_group \<Rightarrow> bool" where
  "refresh_ready runs now g \<longleftrightarrow>
     gg_is_active g \<and> gg_invalidated_at g \<noteq> None \<and> gg_attempt_count g < 3
     \<and> gg_next_attempt_at g \<le> now
     \<and> (gg_lease_token g = None \<or> null_before (gg_lease_expires_at g) now)
     \<and> \<not> sync_discovery_pending runs (gg_session_id g)"

text \<open>ORDER BY next_attempt_at, invalidated_at; the WHERE clause leaves no NULL among the latter.\<close>

definition list_needing_refresh ::
  "nat \<Rightarrow> sync_run table \<Rightarrow> group_intent table \<Rightarrow> timestamp \<Rightarrow> gateway_group table
    \<Rightarrow> (string \<times> string \<times> nat) list" where
  "list_needing_refresh limit runs intents now gs =
     map (\<lambda>g. (gg_session_id g, gg_id g, gg_revision g))
       (sql_top limit (\<lambda>g. (gg_next_attempt_at g, coalesce (gg_invalidated_at g) 0))
          (\<lambda>g. refresh_ready runs now g \<and> \<not> intent_active intents g) gs)"

definition claim_refresh_row ::
  "string \<Rightarrow> string \<Rightarrow> nat \<Rightarrow> sync_run table \<Rightarrow> uuid \<Rightarrow> timestamp \<Rightarrow> gateway_group row_update" where
  "claim_refresh_row sid gid rv runs tok now =
     sql_where (\<lambda>g. is_group sid gid g \<and> gg_revision g = rv \<and> refresh_ready runs now g)
       (\<lambda>g. g\<lparr>gg_attempt_count := gg_attempt_count g + 1, gg_lease_token := Some tok,
          gg_lease_expires_at := Some (now + lease_ttl), gg_refresh_error := None,
          gg_updated_at := now\<rparr>)"

definition claim_refresh ::
  "string \<Rightarrow> string \<Rightarrow> nat \<Rightarrow> sync_run table \<Rightarrow> uuid \<Rightarrow> timestamp \<Rightarrow> gateway_group table
    \<Rightarrow> gateway_group table \<times> (uuid \<times> nat) option" where
  "claim_refresh sid gid rv runs tok now gs =
     (sql_update (claim_refresh_row sid gid rv runs tok now) gs,
      case sql_returning (claim_refresh_row sid gid rv runs tok now) gs of
        [] \<Rightarrow> None | g # _ \<Rightarrow> Some (tok, gg_attempt_count g))"

definition refresh_exhausted :: "bool \<Rightarrow> gateway_group \<Rightarrow> bool" where
  "refresh_exhausted retryable g \<longleftrightarrow> \<not> retryable \<or> 3 \<le> gg_attempt_count g"

definition fail_refresh_row ::
  "string \<Rightarrow> string \<Rightarrow> nat \<Rightarrow> string \<Rightarrow> bool \<Rightarrow> uuid \<Rightarrow> timestamp \<Rightarrow> gateway_group row_update" where
  "fail_refresh_row sid gid rv err retryable tok now =
     sql_where (\<lambda>g. is_group sid gid g \<and> gg_revision g = rv \<and> gg_lease_token g = Some tok
          \<and> null_after (gg_lease_expires_at g) now)
       (\<lambda>g. let done = refresh_exhausted retryable g in
          g\<lparr>gg_capability := UNKNOWN,
            gg_reason := (if done then REFRESH_FAILED else gg_reason g),
            gg_checked_at := (if done then Some now else gg_checked_at g),
            gg_invalidated_at := (if done then None else gg_invalidated_at g),
            gg_next_attempt_at := (if done then gg_next_attempt_at g
              else now + seconds (backoff_seconds (gg_attempt_count g))),
            gg_lease_token := None, gg_lease_expires_at := None,
            gg_refresh_error := Some err, gg_updated_at := now\<rparr>)"

datatype refresh_attempt_result = REFRESH_RETRY | REFRESH_ATTEMPT_FAILED | REFRESH_LOST_OWNERSHIP

definition fail_refresh ::
  "string \<Rightarrow> string \<Rightarrow> nat \<Rightarrow> string \<Rightarrow> bool \<Rightarrow> uuid \<Rightarrow> timestamp \<Rightarrow> gateway_group table
    \<Rightarrow> gateway_group table \<times> refresh_attempt_result" where
  "fail_refresh sid gid rv err retryable tok now gs =
     (sql_update (fail_refresh_row sid gid rv err retryable tok now) gs,
      case sql_returning (fail_refresh_row sid gid rv err retryable tok now) gs of
        [] \<Rightarrow> REFRESH_LOST_OWNERSHIP
      | g # _ \<Rightarrow> if refresh_exhausted retryable g then REFRESH_ATTEMPT_FAILED else REFRESH_RETRY)"

definition recover_refresh_row :: "timestamp \<Rightarrow> gateway_group row_update" where
  "recover_refresh_row now =
     sql_where (\<lambda>g. (gg_lease_token g \<noteq> None \<and> null_before (gg_lease_expires_at g) now)
          \<or> (gg_invalidated_at g \<noteq> None \<and> gg_lease_token g = None \<and> 3 \<le> gg_attempt_count g))
       (\<lambda>g. let done = 3 \<le> gg_attempt_count g in
          g\<lparr>gg_capability := UNKNOWN,
            gg_reason := (if done then REFRESH_FAILED else gg_reason g),
            gg_checked_at := (if done then Some now else gg_checked_at g),
            gg_invalidated_at := (if done then None else gg_invalidated_at g),
            gg_next_attempt_at := now, gg_lease_token := None, gg_lease_expires_at := None,
            gg_refresh_error := Some ''Recovered expired capability refresh lease'',
            gg_updated_at := now\<rparr>)"

definition recover_refreshes ::
  "timestamp \<Rightarrow> gateway_group table \<Rightarrow> gateway_group table \<times> nat" where
  "recover_refreshes now gs =
     (sql_update (recover_refresh_row now) gs, sql_count (recover_refresh_row now) gs)"

section \<open>The other writers of the capability columns\<close>

text \<open>The invalidation of storeInTransaction on a group event; it resets no attempt and no lease.\<close>

definition group_event_row :: "string \<Rightarrow> string \<Rightarrow> timestamp \<Rightarrow> gateway_group row_update" where
  "group_event_row sid gid now =
     sql_where (\<lambda>g. is_group sid gid g \<and> gg_is_active g)
       (\<lambda>g. g\<lparr>gg_capability := UNKNOWN, gg_reason := GROUP_CHANGED,
          gg_invalidated_at := Some now, gg_revision := gg_revision g + 1, gg_updated_at := now\<rparr>)"

record group_summary =
  gsu_id :: string
  gsu_name :: string
  gsu_participants_count :: "nat option"
  gsu_is_admin :: "bool option"
  gsu_linked_parent :: "string option"

definition pending_group_name :: string where
  "pending_group_name = ''Group subject pending sync''"

text \<open>The row an INSERT of a summary makes, with the defaults of the migrations.\<close>

definition summary_insert :: "string \<Rightarrow> group_summary \<Rightarrow> timestamp \<Rightarrow> gateway_group" where
  "summary_insert sid s now =
     \<lparr>gg_session_id = sid, gg_id = gsu_id s, gg_name = gsu_name s,
      gg_participants_count = gsu_participants_count s, gg_is_admin = gsu_is_admin s,
      gg_is_read_only = None, gg_is_announce = None, gg_linked_parent_id = gsu_linked_parent s,
      gg_is_active = True, gg_details_synced_at = None, gg_capability = UNKNOWN,
      gg_reason = METADATA_INCOMPLETE, gg_checked_at = None, gg_invalidated_at = None,
      gg_revision = 1, gg_attempt_count = 0, gg_next_attempt_at = now, gg_lease_token = None,
      gg_lease_expires_at = None, gg_refresh_error = None, gg_summary_fingerprint = None,
      gg_reconciled_fingerprint = None, gg_synced_at = now, gg_updated_at = now\<rparr>"

definition summary_conflict :: "group_summary \<Rightarrow> timestamp \<Rightarrow> gateway_group \<Rightarrow> gateway_group" where
  "summary_conflict s now g =
     g\<lparr>gg_name := (if gsu_name s = pending_group_name \<and> gg_details_synced_at g \<noteq> None
          then gg_name g else gsu_name s),
       gg_participants_count := coalesce_opt (gsu_participants_count s) (gg_participants_count g),
       gg_is_admin := coalesce_opt (gsu_is_admin s) (gg_is_admin g),
       gg_linked_parent_id := gsu_linked_parent s,
       gg_capability := (if \<not> gg_is_active g then UNKNOWN else gg_capability g),
       gg_reason := (if \<not> gg_is_active g then GROUP_CHANGED else gg_reason g),
       gg_invalidated_at := (if \<not> gg_is_active g then Some now else gg_invalidated_at g),
       gg_revision := (if \<not> gg_is_active g then gg_revision g + 1 else gg_revision g),
       gg_is_active := True, gg_synced_at := now, gg_updated_at := now\<rparr>"

definition upsert_summary ::
  "string \<Rightarrow> timestamp \<Rightarrow> group_summary \<Rightarrow> gateway_group table \<Rightarrow> gateway_group table" where
  "upsert_summary sid now s gs =
     (if \<exists>g \<in> set gs. is_group sid (gsu_id s) g
      then sql_update (sql_where (is_group sid (gsu_id s)) (summary_conflict s now)) gs
      else gs @ [summary_insert sid s now])"

definition deactivate_row :: "string \<Rightarrow> string list \<Rightarrow> timestamp \<Rightarrow> gateway_group row_update" where
  "deactivate_row sid ids now =
     sql_where (\<lambda>g. gg_session_id g = sid \<and> gg_id g \<notin> set ids)
       (\<lambda>g. g\<lparr>gg_is_active := False, gg_updated_at := now\<rparr>)"

definition deny_inactive_row :: "string \<Rightarrow> timestamp \<Rightarrow> gateway_group row_update" where
  "deny_inactive_row sid now =
     sql_where (\<lambda>g. gg_session_id g = sid \<and> \<not> gg_is_active g
          \<and> (gg_capability g \<noteq> DENIED \<or> gg_reason g \<noteq> GROUP_INACTIVE))
       (\<lambda>g. g\<lparr>gg_capability := DENIED, gg_reason := GROUP_INACTIVE, gg_checked_at := Some now,
          gg_invalidated_at := None, gg_revision := gg_revision g + 1, gg_updated_at := now\<rparr>)"

text \<open>
  The three statements of replaceSummaries and replaceGroupSummaries. PostgreSQL refuses an upsert
  that would touch one row twice, so two summaries with one id are the error None.
\<close>

definition replace_summaries ::
  "string \<Rightarrow> group_summary list \<Rightarrow> timestamp \<Rightarrow> gateway_group table \<Rightarrow> gateway_group table option" where
  "replace_summaries sid summaries now gs =
     (if distinct (map gsu_id summaries) then
        Some (sql_update (deny_inactive_row sid now)
          (sql_update (deactivate_row sid (map gsu_id summaries) now)
            (fold (upsert_summary sid now) summaries gs)))
      else None)"

record group_detail =
  gd_id :: string
  gd_name :: string
  gd_participants :: nat
  gd_is_admin :: "bool option"
  gd_is_read_only :: "bool option"
  gd_announce :: "bool option"
  gd_is_announce :: "bool option"
  gd_linked_parent :: "string option"

text \<open>
  The group upsert of upsertGroupDetails with the decision it stores. The columns that no
  modelled operation reads (description, owner, settings, fingerprints) are left out.
\<close>

definition detail_capability ::
  "group_detail \<Rightarrow> gateway_group option \<Rightarrow> capability_status \<times> capability_reason" where
  "detail_capability d existing =
     evaluate_group_capability
       \<lparr>ci_is_active = True, ci_is_read_only = gd_is_read_only d,
        ci_is_announce = coalesce_opt (gd_announce d) (gd_is_announce d),
        ci_is_admin = coalesce_opt (gd_is_admin d)
          (case existing of None \<Rightarrow> None | Some g \<Rightarrow> gg_is_admin g),
        ci_has_details = True\<rparr>"

definition detail_insert :: "string \<Rightarrow> group_detail \<Rightarrow> timestamp \<Rightarrow> gateway_group" where
  "detail_insert sid d now =
     (let cap = detail_capability d None in
      \<lparr>gg_session_id = sid, gg_id = gd_id d, gg_name = gd_name d,
       gg_participants_count = Some (gd_participants d), gg_is_admin = gd_is_admin d,
       gg_is_read_only = gd_is_read_only d,
       gg_is_announce = coalesce_opt (gd_announce d) (gd_is_announce d),
       gg_linked_parent_id = gd_linked_parent d, gg_is_active = True,
       gg_details_synced_at = Some now, gg_capability = fst cap, gg_reason = snd cap,
       gg_checked_at = Some now, gg_invalidated_at = None, gg_revision = 1,
       gg_attempt_count = 0, gg_next_attempt_at = now, gg_lease_token = None,
       gg_lease_expires_at = None, gg_refresh_error = None, gg_summary_fingerprint = None,
       gg_reconciled_fingerprint = None, gg_synced_at = now, gg_updated_at = now\<rparr>)"

definition detail_conflict :: "group_detail \<Rightarrow> timestamp \<Rightarrow> gateway_group \<Rightarrow> gateway_group" where
  "detail_conflict d now g =
     (let cap = detail_capability d (Some g);
          admin = coalesce_opt (gd_is_admin d) (gg_is_admin g) in
      g\<lparr>gg_name := gd_name d, gg_linked_parent_id := gd_linked_parent d,
        gg_participants_count := Some (gd_participants d),
        gg_is_admin := coalesce_opt admin (gg_is_admin g),
        gg_is_read_only := gd_is_read_only d,
        gg_is_announce := coalesce_opt (gd_announce d) (gd_is_announce d),
        gg_capability := fst cap, gg_reason := snd cap, gg_checked_at := Some now,
        gg_invalidated_at := None, gg_attempt_count := 0, gg_next_attempt_at := now,
        gg_lease_token := None, gg_lease_expires_at := None, gg_refresh_error := None,
        gg_revision := (if gg_capability g \<noteq> fst cap \<or> gg_reason g \<noteq> snd cap
          then gg_revision g + 1 else gg_revision g),
        gg_is_active := True, gg_details_synced_at := Some now, gg_synced_at := now,
        gg_updated_at := now\<rparr>)"

text \<open>
  The guards of upsertGroupDetails on the revision and the refresh lease; a missing row fails a
  guard that is present, because undefined differs from every expected value.
\<close>

definition detail_guard ::
  "nat option \<Rightarrow> uuid option \<Rightarrow> timestamp \<Rightarrow> gateway_group option \<Rightarrow> bool" where
  "detail_guard expected lease now existing \<longleftrightarrow>
     (case expected of None \<Rightarrow> True
        | Some rv \<Rightarrow> map_option gg_revision existing = Some rv) \<and>
     (case lease of None \<Rightarrow> True
        | Some tok \<Rightarrow> (case existing of None \<Rightarrow> False
            | Some g \<Rightarrow> gg_lease_token g = Some tok \<and> null_after (gg_lease_expires_at g) now))"

definition find_group :: "string \<Rightarrow> string \<Rightarrow> gateway_group table \<Rightarrow> gateway_group option" where
  "find_group sid gid gs = List.find (is_group sid gid) gs"

definition apply_details ::
  "string \<Rightarrow> group_detail \<Rightarrow> nat option \<Rightarrow> uuid option \<Rightarrow> timestamp \<Rightarrow> gateway_group table
    \<Rightarrow> gateway_group table \<times> nat \<times> bool" where
  "apply_details sid d expected lease now gs =
     (let existing = find_group sid (gd_id d) gs in
      if \<not> detail_guard expected lease now existing then (gs, 0, False)
      else (case existing of
          None \<Rightarrow> gs @ [detail_insert sid d now]
        | Some _ \<Rightarrow> sql_update (sql_where (is_group sid (gd_id d)) (detail_conflict d now)) gs,
        gd_participants d, True))"

section \<open>Row lemmas\<close>

lemmas capability_rows =
  invalidate_row_def claim_refresh_row_def fail_refresh_row_def recover_refresh_row_def
  group_event_row_def deactivate_row_def deny_inactive_row_def

text \<open>
  The invariant of the capability columns. The first part also holds between the statements of a
  transaction; the second part is re-established before it commits.
\<close>

definition cap_cols :: "gateway_group \<Rightarrow> bool" where
  "cap_cols g \<longleftrightarrow>
     (gg_invalidated_at g \<noteq> None \<longrightarrow> gg_capability g = UNKNOWN) \<and>
     (gg_capability g = ALLOWED \<longrightarrow>
        gg_reason g = SEND_ALLOWED \<and> gg_lease_token g = None \<and> gg_checked_at g \<noteq> None
        \<and> gg_details_synced_at g \<noteq> None \<and> gg_is_read_only g = Some False
        \<and> gg_is_announce g = Some False) \<and>
     gg_attempt_count g \<le> 3"

definition cap_ok :: "gateway_group \<Rightarrow> bool" where
  "cap_ok g \<longleftrightarrow> cap_cols g \<and> (gg_capability g = ALLOWED \<longrightarrow> gg_is_active g)"

definition group_key :: "gateway_group \<Rightarrow> string \<times> string" where
  "group_key g = (gg_session_id g, gg_id g)"

text \<open>A later version of a row: same group, revision not lower, and equal revisions agree on ALLOWED.\<close>

definition advances :: "gateway_group \<Rightarrow> gateway_group \<Rightarrow> bool" where
  "advances g g' \<longleftrightarrow> group_key g' = group_key g \<and> gg_revision g \<le> gg_revision g' \<and>
     (gg_revision g' = gg_revision g \<longrightarrow> (gg_capability g' = ALLOWED \<longleftrightarrow> gg_capability g = ALLOWED))"

lemma advances_refl [simp]: "advances g g"
  by (simp add: advances_def)

lemma advances_trans: "advances g g' \<Longrightarrow> advances g' g'' \<Longrightarrow> advances g g''"
  by (auto simp: advances_def)

lemmas capability_step_defs = cap_cols_def cap_ok_def advances_def group_key_def Let_def

lemma invalidate_row_step:
  "invalidate_row sid gid reason now g = Some g' \<Longrightarrow> cap_ok g \<Longrightarrow> cap_ok g' \<and> advances g g'"
  by (auto simp: capability_rows capability_step_defs)

lemma claim_refresh_row_step:
  "claim_refresh_row sid gid rv runs tok now g = Some g' \<Longrightarrow> cap_ok g \<Longrightarrow> cap_ok g' \<and> advances g g'"
  by (auto simp: capability_rows capability_step_defs refresh_ready_def)

lemma fail_refresh_row_step:
  "fail_refresh_row sid gid rv err retryable tok now g = Some g' \<Longrightarrow> cap_ok g
    \<Longrightarrow> cap_ok g' \<and> advances g g'"
  by (auto simp: capability_rows capability_step_defs)

lemma recover_refresh_row_step:
  "recover_refresh_row now g = Some g' \<Longrightarrow> cap_ok g \<Longrightarrow> cap_ok g' \<and> advances g g'"
  by (auto simp: capability_rows capability_step_defs)

lemma group_event_row_step:
  "group_event_row sid gid now g = Some g' \<Longrightarrow> cap_ok g \<Longrightarrow> cap_ok g' \<and> advances g g'"
  by (auto simp: capability_rows capability_step_defs)

lemma summary_conflict_step: "cap_cols g \<Longrightarrow> cap_cols (summary_conflict s now g)"
  by (auto simp: summary_conflict_def cap_cols_def)

lemma summary_conflict_advances: "advances g (summary_conflict s now g)"
  by (auto simp: summary_conflict_def advances_def group_key_def)

lemma summary_insert_ok: "cap_ok (summary_insert sid s now)"
  by (simp add: summary_insert_def cap_ok_def cap_cols_def)

lemma deactivate_row_step:
  "deactivate_row sid ids now g = Some g' \<Longrightarrow> cap_cols g \<Longrightarrow> cap_cols g' \<and> advances g g'"
  by (auto simp: capability_rows capability_step_defs)

lemma deny_inactive_row_step:
  "deny_inactive_row sid now g = Some g' \<Longrightarrow> cap_cols g \<Longrightarrow> cap_ok g' \<and> advances g g'"
  by (auto simp: capability_rows capability_step_defs)

lemma detail_capability_allowed:
  "fst (detail_capability d e) = ALLOWED \<longleftrightarrow>
     gd_is_read_only d = Some False \<and> coalesce_opt (gd_announce d) (gd_is_announce d) = Some False"
  by (auto simp: detail_capability_def evaluate_allowed_iff)

lemma detail_capability_reason:
  "fst (detail_capability d e) = ALLOWED \<Longrightarrow> snd (detail_capability d e) = SEND_ALLOWED"
  by (simp add: detail_capability_def evaluate_reason_allowed)

lemma detail_conflict_ok: "cap_ok (detail_conflict d now g)"
  using detail_capability_reason [of d "Some g"]
  by (auto simp: detail_conflict_def cap_ok_def cap_cols_def Let_def detail_capability_allowed)

lemma detail_conflict_advances: "advances g (detail_conflict d now g)"
  by (auto simp: detail_conflict_def advances_def group_key_def Let_def)

lemma detail_insert_ok: "cap_ok (detail_insert sid d now)"
  using detail_capability_reason [of d None]
  by (auto simp: detail_insert_def cap_ok_def cap_cols_def Let_def detail_capability_allowed)

section \<open>Tables\<close>

text \<open>A later version of a table: every row has a later version in it.\<close>

definition table_advances :: "gateway_group table \<Rightarrow> gateway_group table \<Rightarrow> bool" where
  "table_advances gs gs' \<longleftrightarrow> (\<forall>g \<in> set gs. \<exists>g' \<in> set gs'. advances g g')"

lemma table_advances_refl [simp]: "table_advances gs gs"
  unfolding table_advances_def using advances_refl by blast

lemma table_advances_trans:
  "table_advances gs gs' \<Longrightarrow> table_advances gs' gs'' \<Longrightarrow> table_advances gs gs''"
  unfolding table_advances_def using advances_trans by blast

lemma table_advances_append: "table_advances gs (gs @ hs)"
  unfolding table_advances_def
proof
  fix g assume "g \<in> set gs"
  then have "g \<in> set (gs @ hs)" by simp
  then show "\<exists>g' \<in> set (gs @ hs). advances g g'" using advances_refl by blast
qed

lemma table_update:
  assumes "\<And>g g'. g \<in> set gs \<Longrightarrow> f g = Some g' \<Longrightarrow> advances g g'"
  shows "table_advances gs (sql_update f gs)"
  unfolding table_advances_def
proof
  fix g assume g: "g \<in> set gs"
  show "\<exists>g'\<in>set (sql_update f gs). advances g g'"
  proof (cases "f g")
    case None
    then show ?thesis using g sql_update_mem_kept [of g gs f] advances_refl by blast
  next
    case (Some g')
    then show ?thesis using g sql_update_mem_changed [of g gs f g'] assms by blast
  qed
qed

lemma table_all:
  assumes "\<And>g g'. f g = Some g' \<Longrightarrow> P g \<Longrightarrow> Q g'" "\<And>g. f g = None \<Longrightarrow> P g \<Longrightarrow> Q g"
    and "\<forall>g \<in> set gs. P g"
  shows "\<forall>g \<in> set (sql_update f gs). Q g"
  using assms by (auto elim!: sql_update_cases)

lemma upsert_summary_step:
  assumes "\<forall>g \<in> set gs. cap_cols g"
  shows "(\<forall>g \<in> set (upsert_summary sid now s gs). cap_cols g)
    \<and> table_advances gs (upsert_summary sid now s gs)"
proof (cases "\<exists>g \<in> set gs. is_group sid (gsu_id s) g")
  case True
  have "\<forall>g \<in> set (sql_update (sql_where (is_group sid (gsu_id s)) (summary_conflict s now)) gs). cap_cols g"
    by (rule table_all [OF _ _ assms]) (auto intro: summary_conflict_step)
  moreover have "table_advances gs
      (sql_update (sql_where (is_group sid (gsu_id s)) (summary_conflict s now)) gs)"
    by (rule table_update) (auto intro: summary_conflict_advances)
  ultimately show ?thesis using True by (simp add: upsert_summary_def)
next
  case False
  then show ?thesis using assms summary_insert_ok [of sid s now]
    by (auto simp: upsert_summary_def cap_ok_def table_advances_append)
qed

lemma upsert_summaries_step:
  "\<forall>g \<in> set gs. cap_cols g \<Longrightarrow>
    (\<forall>g \<in> set (fold (upsert_summary sid now) ss gs). cap_cols g)
    \<and> table_advances gs (fold (upsert_summary sid now) ss gs)"
proof (induction ss arbitrary: gs)
  case (Cons s ss)
  then show ?case
    using upsert_summary_step [OF Cons.prems, of sid now s] Cons.IH table_advances_trans
    by fastforce
qed simp

text \<open>
  Rows of other sessions keep their flags, so after the third statement no ALLOWED row is inactive.
\<close>

lemma upsert_summaries_active:
  assumes "\<forall>g \<in> set gs. cap_ok g"
  shows "\<forall>g \<in> set (fold (upsert_summary sid now) ss gs). cap_ok g"
  using assms
proof (induction ss arbitrary: gs)
  case (Cons s ss)
  have "\<forall>g \<in> set (upsert_summary sid now s gs). cap_ok g"
  proof (cases "\<exists>g \<in> set gs. is_group sid (gsu_id s) g")
    case True
    have "\<forall>g \<in> set (sql_update (sql_where (is_group sid (gsu_id s)) (summary_conflict s now)) gs). cap_ok g"
      by (rule table_all [OF _ _ Cons.prems]) (auto simp: cap_ok_def cap_cols_def summary_conflict_def)
    then show ?thesis using True by (simp add: upsert_summary_def)
  next
    case False
    then show ?thesis using Cons.prems summary_insert_ok by (auto simp: upsert_summary_def)
  qed
  then show ?case using Cons.IH by simp
qed simp

lemma replace_summaries_step:
  assumes "replace_summaries sid ss now gs = Some gs'" "\<forall>g \<in> set gs. cap_ok g"
  shows "(\<forall>g \<in> set gs'. cap_ok g) \<and> table_advances gs gs'"
proof -
  let ?u = "fold (upsert_summary sid now) ss gs"
  let ?d = "sql_update (deactivate_row sid (map gsu_id ss) now) ?u"
  have gs': "gs' = sql_update (deny_inactive_row sid now) ?d"
    using assms(1) by (auto simp: replace_summaries_def split: if_splits)
  have cols: "\<forall>g \<in> set gs. cap_cols g" using assms(2) by (simp add: cap_ok_def)
  note up = upsert_summaries_step [OF cols, of sid now ss]
  have ok_u: "\<forall>g \<in> set ?u. cap_ok g" by (rule upsert_summaries_active [OF assms(2)])
  have d: "\<forall>g \<in> set ?d. cap_cols g \<and> (gg_capability g = ALLOWED \<longrightarrow> gg_is_active g \<or> gg_session_id g = sid)"
    by (rule table_all [OF _ _ ok_u]) (auto simp: capability_rows cap_ok_def cap_cols_def)
  have "\<forall>g \<in> set gs'. cap_ok g"
    unfolding gs' by (rule table_all [OF _ _ d]) (auto simp: capability_rows cap_ok_def cap_cols_def)
  moreover have "table_advances ?u ?d"
    by (rule table_update) (use deactivate_row_step up in blast)
  moreover have "table_advances ?d gs'"
    unfolding gs' by (rule table_update) (use deny_inactive_row_step d in blast)
  ultimately show ?thesis using up table_advances_trans by blast
qed

lemma apply_details_step:
  assumes "\<forall>g \<in> set gs. cap_ok g"
  shows "(\<forall>g \<in> set (fst (apply_details sid d expected lease now gs)). cap_ok g)
    \<and> table_advances gs (fst (apply_details sid d expected lease now gs))"
proof -
  let ?f = "sql_where (is_group sid (gd_id d)) (detail_conflict d now)"
  have "\<forall>g \<in> set (sql_update ?f gs). cap_ok g"
    by (rule table_all [OF _ _ assms]) (auto intro: detail_conflict_ok)
  moreover have "table_advances gs (sql_update ?f gs)"
    by (rule table_update) (auto intro: detail_conflict_advances)
  ultimately show ?thesis using assms detail_insert_ok table_advances_append
    by (auto simp: apply_details_def Let_def split: option.splits)
qed

section \<open>Runs of writers\<close>

datatype capability_op =
    OpInvalidate string string capability_reason timestamp
  | OpClaim string string nat "sync_run table" uuid timestamp
  | OpFail string string nat string bool uuid timestamp
  | OpRecover timestamp
  | OpGroupEvent string string timestamp
  | OpReplaceSummaries string "group_summary list" timestamp
  | OpApplyDetails string group_detail "nat option" "uuid option" timestamp

fun capability_apply :: "capability_op \<Rightarrow> gateway_group table \<Rightarrow> gateway_group table" where
  "capability_apply (OpInvalidate sid gid reason now) gs = fst (invalidate_capability sid gid reason now gs)"
| "capability_apply (OpClaim sid gid rv runs tok now) gs = fst (claim_refresh sid gid rv runs tok now gs)"
| "capability_apply (OpFail sid gid rv err retryable tok now) gs =
     fst (fail_refresh sid gid rv err retryable tok now gs)"
| "capability_apply (OpRecover now) gs = fst (recover_refreshes now gs)"
| "capability_apply (OpGroupEvent sid gid now) gs = sql_update (group_event_row sid gid now) gs"
| "capability_apply (OpReplaceSummaries sid ss now) gs =
     (case replace_summaries sid ss now gs of None \<Rightarrow> gs | Some gs' \<Rightarrow> gs')"
| "capability_apply (OpApplyDetails sid d expected lease now) gs =
     fst (apply_details sid d expected lease now gs)"

lemma row_writer_step:
  assumes "\<And>g g'. f g = Some g' \<Longrightarrow> cap_ok g \<Longrightarrow> cap_ok g' \<and> advances g g'"
    and "\<forall>g \<in> set gs. cap_ok g"
  shows "(\<forall>g \<in> set (sql_update f gs). cap_ok g) \<and> table_advances gs (sql_update f gs)"
  using table_all [of f cap_ok cap_ok gs] table_update [of gs f] assms by blast

lemma capability_apply_step:
  assumes "\<forall>g \<in> set gs. cap_ok g"
  shows "(\<forall>g \<in> set (capability_apply op gs). cap_ok g) \<and> table_advances gs (capability_apply op gs)"
proof (cases op)
  case (OpInvalidate sid gid reason now)
  then show ?thesis using row_writer_step [OF invalidate_row_step assms]
    by (simp add: invalidate_capability_def)
next
  case (OpClaim sid gid rv runs tok now)
  then show ?thesis using row_writer_step [OF claim_refresh_row_step assms]
    by (simp add: claim_refresh_def)
next
  case (OpFail sid gid rv err retryable tok now)
  then show ?thesis using row_writer_step [OF fail_refresh_row_step assms]
    by (simp add: fail_refresh_def)
next
  case (OpRecover now)
  then show ?thesis using row_writer_step [OF recover_refresh_row_step assms]
    by (simp add: recover_refreshes_def)
next
  case (OpGroupEvent sid gid now)
  then show ?thesis using row_writer_step [OF group_event_row_step assms] by simp
next
  case (OpReplaceSummaries sid ss now)
  then show ?thesis using replace_summaries_step [OF _ assms] assms
    by (cases "replace_summaries sid ss now gs") auto
next
  case (OpApplyDetails sid d expected lease now)
  then show ?thesis using apply_details_step [OF assms] by simp
qed

lemma capability_run_step:
  "\<forall>g \<in> set gs. cap_ok g \<Longrightarrow>
    (\<forall>g \<in> set (fold capability_apply ops gs). cap_ok g) \<and> table_advances gs (fold capability_apply ops gs)"
proof (induction ops arbitrary: gs)
  case (Cons op ops)
  then show ?case
    using capability_apply_step [OF Cons.prems, of op] Cons.IH table_advances_trans by fastforce
qed simp

section \<open>The refresh lease\<close>

text \<open>The owner of a refresh settles it by failing the attempt or by applying the details.\<close>

datatype refresh_outcome = RefreshFailed string bool | RefreshDetails group_detail

fun settle_refresh_row ::
  "string \<Rightarrow> string \<Rightarrow> nat \<Rightarrow> refresh_outcome \<Rightarrow> uuid \<Rightarrow> timestamp \<Rightarrow> gateway_group row_update" where
  "settle_refresh_row sid gid rv (RefreshFailed err retryable) tok now g =
     fail_refresh_row sid gid rv err retryable tok now g"
| "settle_refresh_row sid gid rv (RefreshDetails d) tok now g =
     (if is_group sid gid g \<and> detail_guard (Some rv) (Some tok) now (Some g)
      then Some (detail_conflict d now g) else None)"

interpretation cap_lease: leased_row gg_lease_token gg_lease_expires_at
    "claim_refresh_row sid gid rv runs" "settle_refresh_row sid gid rv" recover_refresh_row
  for sid gid rv runs
proof unfold_locales
  fix s t now g g'
  assume "settle_refresh_row sid gid rv s t now g = Some g'"
  then show "gg_lease_token g = Some t \<and> null_after (gg_lease_expires_at g) now"
    by (cases s) (auto simp: capability_rows detail_guard_def split: if_splits)
next
  fix s t now g g'
  assume "settle_refresh_row sid gid rv s t now g = Some g'"
  then show "gg_lease_token g' = None"
    by (cases s) (auto simp: capability_rows detail_conflict_def Let_def split: if_splits)
qed (auto simp: capability_rows refresh_ready_def Let_def)

section \<open>Properties\<close>

text \<open>C19: In every table that the writers of the capability columns build from the empty one, a
  group marked ALLOWED is active, carries the reason SEND_ALLOWED, has synchronized details that
  say neither read-only nor announce, and holds no refresh lease; an invalidated group is UNKNOWN;
  no group has more than three refresh attempts.\<close>

theorem capability_columns_consistent:
  "\<forall>g \<in> set (fold capability_apply ops []).
     (gg_capability g = ALLOWED \<longrightarrow>
        gg_is_active g \<and> gg_reason g = SEND_ALLOWED \<and> gg_details_synced_at g \<noteq> None
        \<and> gg_is_read_only g = Some False \<and> gg_is_announce g = Some False
        \<and> gg_lease_token g = None)
     \<and> (gg_invalidated_at g \<noteq> None \<longrightarrow> gg_capability g = UNKNOWN)
     \<and> gg_attempt_count g \<le> 3"
  using capability_run_step [of "[]" ops] by (auto simp: cap_ok_def cap_cols_def)

definition sample_detail :: group_detail where
  "sample_detail = \<lparr>gd_id = ''g1@g.us'', gd_name = ''Team'', gd_participants = 3,
     gd_is_admin = Some False, gd_is_read_only = Some False, gd_announce = None,
     gd_is_announce = Some False, gd_linked_parent = None\<rparr>"

lemma capability_columns_consistent_witness:
  "list_all (\<lambda>g. gg_capability g = ALLOWED \<and> gg_is_active g \<and> gg_lease_token g = None)
     (capability_apply (OpApplyDetails ''s1'' sample_detail None None 5) [])"
proof -
  have "\<forall>g \<in> set (capability_apply (OpApplyDetails ''s1'' sample_detail None None 5) []).
     gg_capability g = ALLOWED"
    by (simp add: apply_details_def find_group_def detail_guard_def detail_insert_def
        detail_capability_allowed sample_detail_def Let_def)
  then show ?thesis
    using capability_columns_consistent [of "[OpApplyDetails ''s1'' sample_detail None None 5]"]
    by (auto simp: list_all_iff)
qed

text \<open>The capability revision pins the permission to send: along any sequence of writes a
  group keeps its row, its revision never falls, and while the revision is the same the group is
  ALLOWED exactly when it was. (A run snapshots the revision of each target and compares it before
  a delivery is materialized.)\<close>

theorem capability_revision_pins_allowed:
  assumes "g \<in> set (fold capability_apply ops [])"
  shows "\<exists>g' \<in> set (fold capability_apply (ops @ later) []).
     gg_session_id g' = gg_session_id g \<and> gg_id g' = gg_id g \<and> gg_revision g \<le> gg_revision g'
     \<and> (gg_revision g' = gg_revision g \<longrightarrow> (gg_capability g' = ALLOWED \<longleftrightarrow> gg_capability g = ALLOWED))"
proof -
  have "\<forall>g \<in> set (fold capability_apply ops []). cap_ok g"
    using capability_run_step [of "[]" ops] by simp
  then have "table_advances (fold capability_apply ops [])
      (fold capability_apply later (fold capability_apply ops []))"
    using capability_run_step by blast
  then show ?thesis using assms by (auto simp: table_advances_def advances_def group_key_def)
qed

lemma capability_revision_pins_allowed_witness:
  "\<exists>g' \<in> set (fold capability_apply
      [OpApplyDetails ''s1'' sample_detail None None 5, OpGroupEvent ''s1'' ''g1@g.us'' 9] []).
     gg_session_id g' = ''s1'' \<and> gg_id g' = ''g1@g.us'' \<and> 1 \<le> gg_revision g'"
  using capability_revision_pins_allowed [of "detail_insert ''s1'' sample_detail 5"
      "[OpApplyDetails ''s1'' sample_detail None None 5]" "[OpGroupEvent ''s1'' ''g1@g.us'' 9]"]
  by (auto simp: apply_details_def find_group_def detail_guard_def detail_insert_def
      sample_detail_def Let_def)

text \<open>A capability refresh has one owner: until its two minutes end nobody else claims the
  group and the sweep leaves it alone, the owner's settlement is refused at the end of the lease,
  and every other token is refused throughout.\<close>

theorem capability_refresh_exclusive:
  assumes "claim_refresh_row sid gid rv runs tok now g = Some g'"
    and "now' \<le> now + lease_ttl"
  shows "claim_refresh_row sid' gid' rv' runs' tok' now' g' = None
    \<and> recover_refresh_row now' g' = None
    \<and> (tok' \<noteq> tok \<longrightarrow> settle_refresh_row sid gid rv s tok' later g' = None)
    \<and> settle_refresh_row sid gid rv s tok (now + lease_ttl) g' = None"
proof -
  have held: "gg_lease_token g' = Some tok \<and> gg_lease_expires_at g' = Some (now + lease_ttl)"
    by (rule cap_lease.claim_grants [OF assms(1)])
  then have "claim_refresh_row sid' gid' rv' runs' tok' now' g' = None"
    using assms(2) by (simp add: claim_refresh_row_def refresh_ready_def)
  then show ?thesis
    using cap_lease.recover_spares_live [OF assms] cap_lease.stale_token [OF assms(1)]
      cap_lease.expired_token [OF assms(1)] by blast
qed

definition invalidated_sample :: gateway_group where
  "invalidated_sample = (detail_insert ''s1'' sample_detail 5)
     \<lparr>gg_capability := UNKNOWN, gg_reason := GROUP_CHANGED, gg_invalidated_at := Some 6,
      gg_revision := 2\<rparr>"

lemma capability_refresh_exclusive_witness:
  "\<exists>g'. claim_refresh_row ''s1'' ''g1@g.us'' 2 [] ''t1'' 10 invalidated_sample = Some g'
     \<and> claim_refresh_row ''s1'' ''g1@g.us'' 2 [] ''t2'' 100000 g' = None"
proof -
  have "claim_refresh_row ''s1'' ''g1@g.us'' 2 [] ''t1'' 10 invalidated_sample \<noteq> None"
    by (simp add: claim_refresh_row_def refresh_ready_def is_group_def sync_discovery_pending_def
        invalidated_sample_def detail_insert_def sample_detail_def Let_def)
  then obtain g' where g': "claim_refresh_row ''s1'' ''g1@g.us'' 2 [] ''t1'' 10 invalidated_sample = Some g'"
    by blast
  have "claim_refresh_row ''s1'' ''g1@g.us'' 2 [] ''t2'' 100000 g' = None"
    using capability_refresh_exclusive [OF g', of 100000] by (simp add: lease_ttl_def minutes_def)
  then show ?thesis using g' by blast
qed

definition swept_inactive_ops :: "capability_op list" where
  "swept_inactive_ops =
    [OpApplyDetails ''s1'' sample_detail None None 0, OpInvalidate ''s1'' ''g1@g.us'' MANUAL_REFRESH 1,
     OpClaim ''s1'' ''g1@g.us'' 2 [] ''t1'' 2, OpReplaceSummaries ''s1'' [] 3]"

text \<open>The sweep of expired refresh leases does not ask whether the group is still active: a
  group whose refresh was under way when a sync found it gone is DENIED as GROUP_INACTIVE, and two
  minutes later the sweep makes the inactive group UNKNOWN without a new revision.\<close>

theorem sweep_undenies_inactive_group:
  "map (\<lambda>g. (gg_is_active g, gg_capability g, gg_reason g, gg_revision g))
     (fold capability_apply swept_inactive_ops []) = [(False, DENIED, GROUP_INACTIVE, 3)]
   \<and> map (\<lambda>g. (gg_is_active g, gg_capability g, gg_reason g, gg_revision g))
     (fold capability_apply (swept_inactive_ops @ [OpRecover 130000]) [])
       = [(False, UNKNOWN, GROUP_INACTIVE, 3)]"
  by code_simp

end
