(* ===== verification/Send_Policy.thy ===== *)
theory Send_Policy
  imports Config Message_Jobs Group_Capability
begin

text \<open>
  Who may send what: the session allowlist (session-scope.service.ts), the reads of the gateway model
  the policy uses (gateway.repository.ts, gateway-group-query.repository.ts), the policy itself
  (message-send-policy.service.ts) and the creation of a message job through the API
  (message-job.service.ts).
\<close>

section \<open>Sessions and groups\<close>

text \<open>The HTTP exceptions of NestJS the services throw, and the RangeError of toISOString.\<close>

datatype api_error =
    BadRequest string | Forbidden string | NotFound string | Conflict string | RangeError

definition is_allowed :: "runtime_config \<Rightarrow> string \<Rightarrow> bool" where
  "is_allowed c sid \<longleftrightarrow> sid \<in> set (cfg_allowed_sessions c)"

definition assert_allowed :: "runtime_config \<Rightarrow> string \<Rightarrow> api_error + unit" where
  "assert_allowed c sid =
     guard (is_allowed c sid) (Forbidden ''Session is not in OPENWA_ALLOWED_SESSION_IDS'')"

definition assert_visible :: "runtime_config \<Rightarrow> string \<Rightarrow> api_error + unit" where
  "assert_visible c sid = guard (is_allowed c sid) (NotFound ''Resource not found'')"

definition session_sendable :: "gateway_session \<Rightarrow> bool" where
  "session_sendable s \<longleftrightarrow> gs_status s = ''ready'' \<and> gs_engine_loaded s \<and> gs_restriction s = None"

definition is_session_sendable :: "gateway_session table \<Rightarrow> string \<Rightarrow> bool" where
  "is_session_sendable ss sid = (case find_by gs_id sid ss of None \<Rightarrow> False | Some s \<Rightarrow> session_sendable s)"

definition read_group :: "bool \<Rightarrow> string \<Rightarrow> string \<Rightarrow> gateway_group table \<Rightarrow> gateway_group option" where
  "read_group active_only sid gid gs =
     List.find (\<lambda>g. is_group sid gid g \<and> (active_only \<longrightarrow> gg_is_active g)) gs"

fun reason_text :: "capability_reason \<Rightarrow> string" where
  "reason_text SEND_ALLOWED = ''SEND_ALLOWED''"
| "reason_text GROUP_INACTIVE = ''GROUP_INACTIVE''"
| "reason_text GROUP_READ_ONLY = ''GROUP_READ_ONLY''"
| "reason_text ADMIN_ONLY = ''ADMIN_ONLY''"
| "reason_text ADMIN_STATUS_UNKNOWN = ''ADMIN_STATUS_UNKNOWN''"
| "reason_text METADATA_INCOMPLETE = ''METADATA_INCOMPLETE''"
| "reason_text GROUP_CHANGED = ''GROUP_CHANGED''"
| "reason_text GATEWAY_PERMISSION_DENIED = ''GATEWAY_PERMISSION_DENIED''"
| "reason_text MANUAL_REFRESH = ''MANUAL_REFRESH''"
| "reason_text REFRESH_FAILED = ''REFRESH_FAILED''"

section \<open>The policy\<close>

definition inactive_recipient :: string where
  "inactive_recipient = ''Recipient group is not active in the synchronized read model''"

definition assert_creatable ::
  "runtime_config \<Rightarrow> db \<Rightarrow> string \<Rightarrow> string \<Rightarrow> bool \<Rightarrow> api_error + unit" where
  "assert_creatable c d sid recipient dry_run =
     or_throw (assert_allowed c sid) (\<lambda>_.
       if dry_run then Inr ()
       else if \<not> group_jid recipient then
         Inl (BadRequest ''Live low-level message jobs require a synchronized group recipient'')
       else case read_group True sid recipient (gateway_groups d) of
         None \<Rightarrow> Inl (BadRequest inactive_recipient)
       | Some g \<Rightarrow> if gg_capability g \<noteq> ALLOWED
           then Inl (Conflict (''Group is not sendable: '' @ reason_text (gg_reason g))) else Inr ())"

definition live_block_reason :: "runtime_config \<Rightarrow> db \<Rightarrow> string \<Rightarrow> string \<Rightarrow> string option" where
  "live_block_reason c d sid recipient =
     (if \<not> is_allowed c sid then Some ''Session is outside the Runtime allowlist''
      else if \<not> is_session_sendable (gateway_sessions d) sid then Some ''Gateway session is not sendable''
      else if \<not> group_jid recipient then Some ''Recipient is not a synchronized group''
      else case read_group True sid recipient (gateway_groups d) of
         None \<Rightarrow> Some inactive_recipient
       | Some g \<Rightarrow> if gg_capability g \<noteq> ALLOWED
           then Some (''Group is not sendable: '' @ reason_text (gg_reason g)) else None)"

text \<open>What it takes to send live.\<close>

definition group_sendable :: "db \<Rightarrow> string \<Rightarrow> string \<Rightarrow> bool" where
  "group_sendable d sid gid \<longleftrightarrow> group_jid gid \<and>
     (\<exists>g. read_group True sid gid (gateway_groups d) = Some g \<and> gg_capability g = ALLOWED)"

lemma live_block_reason_None:
  "live_block_reason c d sid r = None \<longleftrightarrow>
     is_allowed c sid \<and> is_session_sendable (gateway_sessions d) sid \<and> group_sendable d sid r"
  by (auto simp: live_block_reason_def group_sendable_def split: option.splits)

lemma assert_creatable_live:
  "assert_creatable c d sid r False = Inr () \<longleftrightarrow> is_allowed c sid \<and> group_sendable d sid r"
  by (auto simp: assert_creatable_def assert_allowed_def guard_def group_sendable_def
      split: option.splits)

lemma assert_creatable_dry: "assert_creatable c d sid r True = Inr () \<longleftrightarrow> is_allowed c sid"
  by (simp add: assert_creatable_def assert_allowed_def)

section \<open>message-job.service.ts\<close>

text \<open>
  \<open>parse_date\<close> is new Date(s) on an ISO 8601 text, None for an invalid Date: comparing its NaN
  time is false, and toISOString throws for it.
\<close>

definition scheduled_time ::
  "(string \<Rightarrow> timestamp option) \<Rightarrow> timestamp \<Rightarrow> string option \<Rightarrow> timestamp option" where
  "scheduled_time parse_date wall s =
     (case s of None \<Rightarrow> Some wall | Some t \<Rightarrow> if t = [] then Some wall else parse_date t)"

definition create_message_job ::
  "runtime_config \<Rightarrow> (string \<Rightarrow> string) \<Rightarrow> (string \<Rightarrow> string) \<Rightarrow> (string \<Rightarrow> timestamp option)
    \<Rightarrow> uuid \<Rightarrow> string \<Rightarrow> message_request \<Rightarrow> timestamp \<Rightarrow> timestamp \<Rightarrow> db \<Rightarrow> db \<times> (api_error + job_result)" where
  "create_message_job c hash to_iso parse_date jid key q wall now d =
     (if 200 < length key then
        (d, Inl (BadRequest ''Idempotency-Key must not exceed 200 characters''))
      else case assert_creatable c d (mq_session_id q) (mq_recipient_id q) (mq_dry_run q) of
        Inl e \<Rightarrow> (d, Inl e)
      | Inr _ \<Rightarrow> (case scheduled_time parse_date wall (mq_scheduled_at q) of
          None \<Rightarrow> (d, Inl RangeError)
        | Some due_at \<Rightarrow>
            if due_at < wall - minutes 1 then
              (d, Inl (Conflict ''scheduledAt is more than 60 seconds in the past''))
            else let (jobs, r) = create_job jid
                   \<lparr>ji_scope = ''runtime-api'', ji_key = key,
                    ji_hash = message_request_hash hash to_iso q, ji_session_id = mq_session_id q,
                    ji_recipient_id = mq_recipient_id q, ji_text = mq_text q,
                    ji_scheduled_at = due_at, ji_dry_run = mq_dry_run q\<rparr> now (message_jobs d) in
              (d\<lparr>message_jobs := jobs\<rparr>,
               if jr_conflict r then
                 Inl (Conflict ''Idempotency-Key was already used with a different message request'')
               else Inr r)))"

definition get_message_job :: "runtime_config \<Rightarrow> uuid \<Rightarrow> db \<Rightarrow> api_error + message_job" where
  "get_message_job c jid d =
     (case find_job jid (message_jobs d) of
        None \<Rightarrow> Inl (NotFound ''Message job not found'')
      | Some j \<Rightarrow> or_throw (assert_visible c (mj_session_id j)) (\<lambda>_. Inr j))"

definition api_job_input ::
  "(string \<Rightarrow> string) \<Rightarrow> (string \<Rightarrow> string) \<Rightarrow> string \<Rightarrow> message_request \<Rightarrow> timestamp \<Rightarrow> job_input" where
  "api_job_input hash to_iso key q due_at =
     \<lparr>ji_scope = ''runtime-api'', ji_key = key, ji_hash = message_request_hash hash to_iso q,
      ji_session_id = mq_session_id q, ji_recipient_id = mq_recipient_id q, ji_text = mq_text q,
      ji_scheduled_at = due_at, ji_dry_run = mq_dry_run q\<rparr>"

lemma create_message_job_changed:
  assumes "create_message_job c hash to_iso parse_date jid key q wall now d = (d', res)" "d' \<noteq> d"
  shows "length key \<le> 200
    \<and> assert_creatable c d (mq_session_id q) (mq_recipient_id q) (mq_dry_run q) = Inr ()
    \<and> (\<exists>t. \<not> t < wall - minutes 1 \<and> d' = d\<lparr>message_jobs :=
          fst (create_job jid (api_job_input hash to_iso key q t) now (message_jobs d))\<rparr>)"
proof -
  have key: "length key \<le> 200" using assms by (simp add: create_message_job_def split: if_splits)
  obtain u where ok: "assert_creatable c d (mq_session_id q) (mq_recipient_id q) (mq_dry_run q) = Inr u"
    using assms key by (cases "assert_creatable c d (mq_session_id q) (mq_recipient_id q) (mq_dry_run q)")
      (auto simp: create_message_job_def)
  obtain t where t: "scheduled_time parse_date wall (mq_scheduled_at q) = Some t"
    using assms key ok by (cases "scheduled_time parse_date wall (mq_scheduled_at q)")
      (auto simp: create_message_job_def)
  have late: "\<not> t < wall - minutes 1" using assms key ok t by (auto simp: create_message_job_def)
  have "d' = d\<lparr>message_jobs :=
      fst (create_job jid (api_job_input hash to_iso key q t) now (message_jobs d))\<rparr>"
    using assms(1) key ok t late
    by (simp add: create_message_job_def api_job_input_def Let_def split: prod.splits)
  then show ?thesis using key ok late by auto
qed

section \<open>Properties\<close>

text \<open>C30: Creating a job through the API inserts one row or nothing. A live job is inserted only for an
  allowed session and an active group of that session which the read model marks ALLOWED, not more
  than a minute in the past, with a key of at most 200 characters; it starts SCHEDULED and
  unattempted; every error leaves the database unchanged.\<close>

theorem create_message_job_guarded:
  assumes "create_message_job c hash to_iso parse_date jid key q wall now d = (d', res)" "d' \<noteq> d"
  shows "\<exists>j. message_jobs d' = message_jobs d @ [j] \<and> mj_id j = jid \<and> mj_status j = J_SCHEDULED
    \<and> mj_attempt_count j = 0 \<and> mj_dry_run j = mq_dry_run q \<and> mj_text j = mq_text q
    \<and> mj_session_id j = mq_session_id q \<and> mj_recipient_id j = mq_recipient_id q
    \<and> wall - 60000 \<le> mj_scheduled_at j \<and> length key \<le> 200 \<and> is_allowed c (mq_session_id q)
    \<and> (mq_dry_run q \<or> group_sendable d (mq_session_id q) (mq_recipient_id q))"
proof -
  obtain t where t: "\<not> t < wall - minutes 1" and d': "d' = d\<lparr>message_jobs :=
      fst (create_job jid (api_job_input hash to_iso key q t) now (message_jobs d))\<rparr>"
    and ok: "assert_creatable c d (mq_session_id q) (mq_recipient_id q) (mq_dry_run q) = Inr ()"
    and key: "length key \<le> 200"
    using create_message_job_changed [OF assms] by blast
  have "is_allowed c (mq_session_id q)
      \<and> (mq_dry_run q \<or> group_sendable d (mq_session_id q) (mq_recipient_id q))"
    using ok assert_creatable_live assert_creatable_dry by (cases "mq_dry_run q") auto
  moreover have "fst (create_job jid (api_job_input hash to_iso key q t) now (message_jobs d))
      = message_jobs d @ [new_job jid (api_job_input hash to_iso key q t) now]"
    using d' assms(2)
    by (cases rule: create_job_cases [of "api_job_input hash to_iso key q t" "message_jobs d" jid now]) auto
  ultimately show ?thesis using d' t key
    by (simp add: new_job_def api_job_input_def minutes_def)
qed

definition live_db :: db where
  "live_db = empty_db\<lparr>gateway_groups := [detail_insert ''s1'' sample_detail 5]\<rparr>"

definition live_request :: message_request where
  "live_request = sample_request\<lparr>mq_dry_run := False\<rparr>"

definition open_config :: runtime_config where
  "open_config = (parsed_config sample_environment)\<lparr>cfg_allow_live_sends := True\<rparr>"

lemma open_config_allows: "is_allowed open_config sid \<longleftrightarrow> sid = ''s1''"
  by (simp add: is_allowed_def open_config_def parsed_config_def Let_def sample_environment_def
      session_ids_def js_trim_def js_space_def)

lemma live_group:
  "read_group True ''s1'' ''g1@g.us'' (gateway_groups live_db) = Some (detail_insert ''s1'' sample_detail 5)
   \<and> gg_capability (detail_insert ''s1'' sample_detail 5) = ALLOWED"
  by (simp add: read_group_def live_db_def is_group_def detail_insert_def sample_detail_def Let_def
      detail_capability_allowed)

lemma create_message_job_guarded_witness:
  "\<exists>j. message_jobs (fst (create_message_job open_config (\<lambda>s. s) (\<lambda>s. s) (\<lambda>s. None) ''j1'' ''k1''
      live_request 7 7 live_db)) = [j] \<and> mj_status j = J_SCHEDULED"
proof -
  have ok: "assert_creatable open_config live_db ''s1'' ''g1@g.us'' False = Inr ()"
    unfolding assert_creatable_live using live_group
    by (simp add: open_config_allows group_sendable_def group_jid_def ends_with_def)
  then have "message_jobs (fst (create_message_job open_config (\<lambda>s. s) (\<lambda>s. s) (\<lambda>s. None) ''j1'' ''k1''
      live_request 7 7 live_db)) \<noteq> []"
    by (simp add: create_message_job_def live_request_def sample_request_def scheduled_time_def
        minutes_def create_job_def live_db_def empty_db_def Let_def)
  then have "fst (create_message_job open_config (\<lambda>s. s) (\<lambda>s. s) (\<lambda>s. None) ''j1'' ''k1''
      live_request 7 7 live_db) \<noteq> live_db"
    by (auto simp: live_db_def empty_db_def)
  then show ?thesis
    using create_message_job_guarded [OF prod.collapse [symmetric], of open_config "\<lambda>s. s" "\<lambda>s. s"
        "\<lambda>s. None" "''j1''" "''k1''" live_request 7 7 live_db]
    by (auto simp: live_db_def empty_db_def)
qed

end
