(* ===== verification/Session_Lease.thy ===== *)
theory Session_Lease
  imports Schema
begin

text \<open>
  The exclusive right to send through a gateway session
  (src/src/modules/messages/outbound-session-lease.repository.ts): one row per session, held by a
  message job and a token until it expires. The locale states what the sender relies on; the
  interpretation discharges it for the table outbound_session_leases.
\<close>

section \<open>The repository\<close>

definition lease_row :: "string \<Rightarrow> uuid \<Rightarrow> uuid \<Rightarrow> int \<Rightarrow> timestamp \<Rightarrow> outbound_lease" where
  "lease_row sid job tok ttl now =
     \<lparr>ol_session_id = sid, ol_token = tok, ol_holder = job, ol_expires_at = now + ttl,
      ol_acquired_at = now, ol_updated_at = now\<rparr>"

definition takeover_row ::
  "string \<Rightarrow> uuid \<Rightarrow> uuid \<Rightarrow> int \<Rightarrow> timestamp \<Rightarrow> outbound_lease row_update" where
  "takeover_row sid job tok ttl now = sql_where
     (\<lambda>l. ol_session_id l = sid
        \<and> (ol_expires_at l < now \<or> (ol_holder l = job \<and> ol_token l = tok)))
     (\<lambda>l. l\<lparr>ol_token := tok, ol_holder := job, ol_expires_at := now + ttl,
        ol_acquired_at := now, ol_updated_at := now\<rparr>)"

definition try_acquire ::
  "string \<Rightarrow> uuid \<Rightarrow> uuid \<Rightarrow> int \<Rightarrow> timestamp \<Rightarrow> outbound_lease table
    \<Rightarrow> outbound_lease table \<times> bool" where
  "try_acquire sid job tok ttl now ls =
     (if sid \<in> ol_session_id ` set ls
      then (sql_update (takeover_row sid job tok ttl now) ls,
            sql_count (takeover_row sid job tok ttl now) ls = 1)
      else (ls @ [lease_row sid job tok ttl now], True))"

definition renew_row ::
  "string \<Rightarrow> uuid \<Rightarrow> uuid \<Rightarrow> int \<Rightarrow> timestamp \<Rightarrow> outbound_lease row_update" where
  "renew_row sid job tok ttl now = sql_where
     (\<lambda>l. ol_session_id l = sid \<and> ol_holder l = job \<and> ol_token l = tok \<and> now < ol_expires_at l)
     (\<lambda>l. l\<lparr>ol_expires_at := now + ttl, ol_updated_at := now\<rparr>)"

definition renew_lease ::
  "string \<Rightarrow> uuid \<Rightarrow> uuid \<Rightarrow> int \<Rightarrow> timestamp \<Rightarrow> outbound_lease table
    \<Rightarrow> outbound_lease table \<times> bool" where
  "renew_lease sid job tok ttl now ls =
     (sql_update (renew_row sid job tok ttl now) ls, sql_count (renew_row sid job tok ttl now) ls = 1)"

definition owned_by :: "string \<Rightarrow> uuid \<Rightarrow> uuid \<Rightarrow> outbound_lease \<Rightarrow> bool" where
  "owned_by sid job tok l \<longleftrightarrow> ol_session_id l = sid \<and> ol_holder l = job \<and> ol_token l = tok"

definition release_lease ::
  "string \<Rightarrow> uuid \<Rightarrow> uuid \<Rightarrow> outbound_lease table \<Rightarrow> outbound_lease table \<times> bool" where
  "release_lease sid job tok ls =
     (sql_delete (owned_by sid job tok) ls, length (filter (owned_by sid job tok) ls) = 1)"

section \<open>The contract\<close>

text \<open>An owner is a job with its token; an event is a call of one of the three operations.\<close>

datatype lease_call =
    Acquire string "uuid \<times> uuid" int timestamp
  | Renew string "uuid \<times> uuid" int timestamp
  | Release string "uuid \<times> uuid" timestamp

fun call_owner :: "lease_call \<Rightarrow> uuid \<times> uuid" where
  "call_owner (Acquire sid own ttl now) = own"
| "call_owner (Renew sid own ttl now) = own"
| "call_owner (Release sid own now) = own"

fun call_time :: "lease_call \<Rightarrow> timestamp" where
  "call_time (Acquire sid own ttl now) = now"
| "call_time (Renew sid own ttl now) = now"
| "call_time (Release sid own now) = now"

locale exclusive_lease =
  fixes valid :: "'d \<Rightarrow> bool"
    and holder :: "'d \<Rightarrow> string \<Rightarrow> ((uuid \<times> uuid) \<times> timestamp) option"
    and acquire :: "string \<Rightarrow> uuid \<times> uuid \<Rightarrow> int \<Rightarrow> timestamp \<Rightarrow> 'd \<Rightarrow> 'd \<times> bool"
    and renew :: "string \<Rightarrow> uuid \<times> uuid \<Rightarrow> int \<Rightarrow> timestamp \<Rightarrow> 'd \<Rightarrow> 'd \<times> bool"
    and release :: "string \<Rightarrow> uuid \<times> uuid \<Rightarrow> 'd \<Rightarrow> 'd \<times> bool"
  assumes acquire_holds: "valid d \<Longrightarrow> acquire sid own ttl now d = (d', True) \<Longrightarrow>
      holder d' sid = Some (own, now + ttl)"
    and acquire_free: "valid d \<Longrightarrow> holder d sid = None \<Longrightarrow> snd (acquire sid own ttl now d)"
    and acquire_blocked: "valid d \<Longrightarrow> holder d sid = Some (other, e) \<Longrightarrow> now \<le> e \<Longrightarrow> own \<noteq> other \<Longrightarrow>
      acquire sid own ttl now d = (d, False)"
    and renew_holds: "valid d \<Longrightarrow> renew sid own ttl now d = (d', True) \<Longrightarrow>
      (\<exists>e. holder d sid = Some (own, e) \<and> now < e) \<and> holder d' sid = Some (own, now + ttl)"
    and renew_blocked: "valid d \<Longrightarrow> holder d sid = Some (other, e) \<Longrightarrow> own \<noteq> other \<Longrightarrow>
      renew sid own ttl now d = (d, False)"
    and release_frees: "valid d \<Longrightarrow> holder d sid = Some (own, e) \<Longrightarrow>
      holder (fst (release sid own d)) sid = None"
    and release_foreign: "valid d \<Longrightarrow> holder d sid = Some (other, e) \<Longrightarrow> own \<noteq> other \<Longrightarrow>
      release sid own d = (d, False)"
    and other_sessions: "valid d \<Longrightarrow> sid' \<noteq> sid \<Longrightarrow>
      holder (fst (acquire sid' own ttl now d)) sid = holder d sid
      \<and> holder (fst (renew sid' own ttl now d)) sid = holder d sid
      \<and> holder (fst (release sid' own d)) sid = holder d sid"
    and keeps_valid: "valid d \<Longrightarrow>
      valid (fst (acquire sid own ttl now d)) \<and> valid (fst (renew sid own ttl now d))
      \<and> valid (fst (release sid own d))"
begin

definition call_effect :: "lease_call \<Rightarrow> 'd \<Rightarrow> 'd \<times> bool" where
  "call_effect c d = (case c of Acquire sid own ttl now \<Rightarrow> acquire sid own ttl now d
     | Renew sid own ttl now \<Rightarrow> renew sid own ttl now d | Release sid own now \<Rightarrow> release sid own d)"

definition run_calls :: "lease_call list \<Rightarrow> 'd \<Rightarrow> 'd" where
  "run_calls cs d = fold (\<lambda>c d. fst (call_effect c d)) cs d"

lemma run_calls_Cons: "run_calls (c # cs) d = run_calls cs (fst (call_effect c d))"
  by (simp add: run_calls_def)

lemma call_valid: "valid d \<Longrightarrow> valid (fst (call_effect c d))"
  using keeps_valid by (cases c) (auto simp: call_effect_def)

lemma foreign_call:
  assumes "valid d" "holder d sid = Some (own, e)" "call_owner c \<noteq> own" "call_time c \<le> e"
  shows "holder (fst (call_effect c d)) sid = Some (own, e)"
proof (cases c)
  case (Acquire sid' own' ttl now)
  then show ?thesis
    using assms acquire_blocked [OF assms(1), of sid own e now own' ttl] other_sessions [OF assms(1)]
    by (cases "sid' = sid") (auto simp: call_effect_def)
next
  case (Renew sid' own' ttl now)
  then show ?thesis
    using assms renew_blocked [OF assms(1), of sid own e own' ttl now] other_sessions [OF assms(1)]
    by (cases "sid' = sid") (auto simp: call_effect_def)
next
  case (Release sid' own' now)
  then show ?thesis
    using assms release_foreign [OF assms(1), of sid own e own'] other_sessions [OF assms(1)]
    by (cases "sid' = sid") (auto simp: call_effect_def)
qed

text \<open>Until its lease ends, no calls of other owners take a session from its holder.\<close>

lemma held_through:
  assumes "valid d" "holder d sid = Some (own, e)"
    and "\<forall>c \<in> set cs. call_owner c \<noteq> own \<and> call_time c \<le> e"
  shows "valid (run_calls cs d) \<and> holder (run_calls cs d) sid = Some (own, e)"
  using assms
proof (induction cs arbitrary: d)
  case Nil
  then show ?case by (simp add: run_calls_def)
next
  case (Cons c cs)
  then show ?case
    using foreign_call [OF Cons.prems(1,2), of c] call_valid [OF Cons.prems(1), of c]
    by (simp add: run_calls_Cons)
qed

lemma others_excluded:
  assumes "valid d" "holder d sid = Some (own, e)"
    and "\<forall>c \<in> set cs. call_owner c \<noteq> own \<and> call_time c \<le> e"
    and "own' \<noteq> own" "now \<le> e"
  shows "\<not> snd (acquire sid own' ttl now (run_calls cs d))
    \<and> \<not> snd (renew sid own' ttl now (run_calls cs d))"
  using held_through [OF assms(1-3)] acquire_blocked renew_blocked assms(4,5)
  by (metis snd_conv)

end

section \<open>The table keeps the contract\<close>

definition lease_table :: "outbound_lease table \<Rightarrow> bool" where
  "lease_table ls \<longleftrightarrow> keyed ol_session_id ls"

definition lease_holder ::
  "outbound_lease table \<Rightarrow> string \<Rightarrow> ((uuid \<times> uuid) \<times> timestamp) option" where
  "lease_holder ls sid =
     map_option (\<lambda>l. ((ol_holder l, ol_token l), ol_expires_at l)) (find_by ol_session_id sid ls)"

lemma takeover_key: "takeover_row sid job tok ttl now l = Some l' \<Longrightarrow> ol_session_id l' = ol_session_id l"
  by (auto simp: takeover_row_def)

lemma renew_key: "renew_row sid job tok ttl now l = Some l' \<Longrightarrow> ol_session_id l' = ol_session_id l"
  by (auto simp: renew_row_def)

lemma find_takeover:
  "find_by ol_session_id k (sql_update (takeover_row sid job tok ttl now) ls) =
     map_option (\<lambda>l. case takeover_row sid job tok ttl now l of None \<Rightarrow> l | Some l' \<Rightarrow> l')
       (find_by ol_session_id k ls)"
  by (rule find_by_sql_update) (rule takeover_key)

lemma find_renew:
  "find_by ol_session_id k (sql_update (renew_row sid job tok ttl now) ls) =
     map_option (\<lambda>l. case renew_row sid job tok ttl now l of None \<Rightarrow> l | Some l' \<Rightarrow> l')
       (find_by ol_session_id k ls)"
  by (rule find_by_sql_update) (rule renew_key)

text \<open>A row update on the one row of a session: what its count says of that row.\<close>

lemma count_one:
  assumes "keyed ol_session_id ls" "\<And>l l'. f l = Some l' \<Longrightarrow> ol_session_id l = sid"
  shows "sql_count f ls = 1 \<longleftrightarrow> (\<exists>l. find_by ol_session_id sid ls = Some l \<and> f l \<noteq> None)"
  using assms(1)
proof (induction ls)
  case (Cons l ls)
  then have IH: "sql_count f ls = 1 \<longleftrightarrow> (\<exists>l. find_by ol_session_id sid ls = Some l \<and> f l \<noteq> None)"
    by (simp add: keyed_def)
  show ?case
  proof (cases "ol_session_id l = sid")
    case True
    then have "\<forall>x \<in> set ls. ol_session_id x \<noteq> sid"
      using Cons.prems unfolding keyed_def by (metis distinct.simps(2) image_eqI list.simps(9) set_map)
    then have "\<forall>x \<in> set ls. f x = None" using assms(2) by (metis not_None_eq)
    then have "sql_returning f ls = []" by (simp add: sql_returning_Nil_iff)
    then show ?thesis using True by (auto simp: sql_count_def split: option.splits)
  next
    case False
    then have "f l = None" using assms(2) by (cases "f l") auto
    then show ?thesis using IH False by (simp add: sql_count_def)
  qed
qed (simp add: sql_count_def)

lemma find_by_delete:
  assumes "keyed key rows"
  shows "find_by key k (sql_delete P rows) =
    (case find_by key k rows of None \<Rightarrow> None | Some r \<Rightarrow> if P r then None else Some r)"
  using assms
proof (induction rows)
  case (Cons r rows)
  then have tl: "keyed key rows" "key r \<notin> key ` set rows" by (auto simp: keyed_def)
  have "key r = k \<Longrightarrow> find_by key k (sql_delete P rows) = None"
    using tl(2) by (auto simp: find_by_None)
  then show ?case using Cons.IH [OF tl(1)] by (auto simp: sql_delete_def)
qed (simp add: sql_delete_def)

lemma lease_holder_None: "lease_holder ls sid = None \<longleftrightarrow> sid \<notin> ol_session_id ` set ls"
  by (simp add: lease_holder_def find_by_None)

lemma lease_holder_Some:
  "lease_holder ls sid = Some (own, e) \<longleftrightarrow>
     (\<exists>l. find_by ol_session_id sid ls = Some l \<and> own = (ol_holder l, ol_token l) \<and> e = ol_expires_at l)"
  by (auto simp: lease_holder_def)

lemma lease_present: "find_by ol_session_id sid ls = Some l \<Longrightarrow> sid \<in> ol_session_id ` set ls"
  using find_by_Some by force

lemma no_update:
  assumes "keyed ol_session_id ls" "find_by ol_session_id sid ls = Some l" "f l = None"
    and "\<And>l l'. f l = Some l' \<Longrightarrow> ol_session_id l = sid"
  shows "sql_update f ls = ls"
proof (rule sql_update_id)
  fix x assume x: "x \<in> set ls"
  show "f x = None"
  proof (cases "ol_session_id x = sid")
    case True
    then have "x = l" using find_by_keyed [OF assms(1) x] assms(2) by simp
    then show ?thesis using assms(3) by simp
  next
    case False
    then show ?thesis using assms(4) by (cases "f x") auto
  qed
qed

interpretation session_lease: exclusive_lease lease_table lease_holder
    "\<lambda>sid own. try_acquire sid (fst own) (snd own)" "\<lambda>sid own. renew_lease sid (fst own) (snd own)"
    "\<lambda>sid own. release_lease sid (fst own) (snd own)"
proof unfold_locales
  fix d sid own ttl now d'
  assume v: "lease_table d" and a: "try_acquire sid (fst own) (snd own) ttl now d = (d', True)"
  show "lease_holder d' sid = Some (own, now + ttl)"
  proof (cases "sid \<in> ol_session_id ` set d")
    case True
    then have c: "sql_count (takeover_row sid (fst own) (snd own) ttl now) d = 1"
      and d': "d' = sql_update (takeover_row sid (fst own) (snd own) ttl now) d"
      using a by (auto simp: try_acquire_def)
    obtain l where "find_by ol_session_id sid d = Some l"
        "takeover_row sid (fst own) (snd own) ttl now l \<noteq> None"
      using c v count_one [of d "takeover_row sid (fst own) (snd own) ttl now" sid]
      by (auto simp: lease_table_def takeover_row_def)
    then show ?thesis unfolding d' lease_holder_def find_takeover
      by (auto simp: takeover_row_def sql_where_def split: if_splits)
  next
    case False
    then have "find_by ol_session_id sid d = None" by (simp add: find_by_None)
    then show ?thesis using a False
      by (auto simp: try_acquire_def lease_holder_def find_by_append lease_row_def)
  qed
next
  fix d sid own ttl now d'
  assume v: "lease_table d" and r: "renew_lease sid (fst own) (snd own) ttl now d = (d', True)"
  then have d': "d' = sql_update (renew_row sid (fst own) (snd own) ttl now) d"
    and c: "sql_count (renew_row sid (fst own) (snd own) ttl now) d = 1"
    by (auto simp: renew_lease_def)
  obtain l where "find_by ol_session_id sid d = Some l"
      "renew_row sid (fst own) (snd own) ttl now l \<noteq> None"
    using c v count_one [of d "renew_row sid (fst own) (snd own) ttl now" sid]
    by (auto simp: lease_table_def renew_row_def)
  then show "(\<exists>e. lease_holder d sid = Some (own, e) \<and> now < e)
      \<and> lease_holder d' sid = Some (own, now + ttl)"
    unfolding d' lease_holder_def find_renew
    by (auto simp: renew_row_def sql_where_def split: if_splits)
next
  fix d sid own ttl now
  assume "lease_table d" "lease_holder d sid = None"
  then show "snd (try_acquire sid (fst own) (snd own) ttl now d)"
    by (simp add: lease_holder_None try_acquire_def)
next
  fix d sid other e now own ttl
  assume v: "lease_table d" and h: "lease_holder d sid = Some (other, e)"
    and t: "now \<le> e" "own \<noteq> (other :: uuid \<times> uuid)"
  obtain l where l: "find_by ol_session_id sid d = Some l" "other = (ol_holder l, ol_token l)"
      "e = ol_expires_at l" using h by (auto simp: lease_holder_Some)
  have none: "takeover_row sid (fst own) (snd own) ttl now l = None"
    using l t by (auto simp: takeover_row_def prod_eq_iff)
  have upd: "sql_update (takeover_row sid (fst own) (snd own) ttl now) d = d"
    by (rule no_update [where sid = sid and l = l])
      (use v l(1) none in \<open>auto simp: lease_table_def takeover_row_def\<close>)
  have cnt: "sql_count (takeover_row sid (fst own) (snd own) ttl now) d \<noteq> 1"
    using v l(1) none count_one [of d "takeover_row sid (fst own) (snd own) ttl now" sid]
    by (auto simp: lease_table_def takeover_row_def)
  show "try_acquire sid (fst own) (snd own) ttl now d = (d, False)"
    using upd cnt lease_present [OF l(1)] by (simp add: try_acquire_def)
next
  fix d sid other e own ttl now
  assume v: "lease_table d" and h: "lease_holder d sid = Some (other, e)"
    and t: "own \<noteq> (other :: uuid \<times> uuid)"
  obtain l where l: "find_by ol_session_id sid d = Some l" "other = (ol_holder l, ol_token l)"
    using h by (auto simp: lease_holder_Some)
  have none: "renew_row sid (fst own) (snd own) ttl now l = None"
    using l t by (auto simp: renew_row_def prod_eq_iff)
  have upd: "sql_update (renew_row sid (fst own) (snd own) ttl now) d = d"
    by (rule no_update [where sid = sid and l = l])
      (use v l(1) none in \<open>auto simp: lease_table_def renew_row_def\<close>)
  have cnt: "sql_count (renew_row sid (fst own) (snd own) ttl now) d \<noteq> 1"
    using v l(1) none count_one [of d "renew_row sid (fst own) (snd own) ttl now" sid]
    by (auto simp: lease_table_def renew_row_def)
  show "renew_lease sid (fst own) (snd own) ttl now d = (d, False)"
    using upd cnt by (simp add: renew_lease_def)
next
  fix d sid own e
  assume "lease_table d" "lease_holder d sid = Some (own, e)"
  then show "lease_holder (fst (release_lease sid (fst own) (snd own) d)) sid = None"
    using find_by_Some
    by (fastforce simp: lease_holder_def release_lease_def find_by_delete lease_table_def owned_by_def)
next
  fix d sid other e own
  assume v: "lease_table d" and h: "lease_holder d sid = Some (other, e)"
    and t: "own \<noteq> (other :: uuid \<times> uuid)"
  obtain l where l: "find_by ol_session_id sid d = Some l" "other = (ol_holder l, ol_token l)"
    using h by (auto simp: lease_holder_Some)
  have "\<not> owned_by sid (fst own) (snd own) x" if "x \<in> set d" for x
  proof (cases "ol_session_id x = sid")
    case True
    then have "x = l" using find_by_keyed [of ol_session_id d x] v that l(1)
      by (simp add: lease_table_def)
    then show ?thesis using l(2) t by (auto simp: owned_by_def prod_eq_iff)
  qed (simp add: owned_by_def)
  then show "release_lease sid (fst own) (snd own) d = (d, False)"
    by (simp add: release_lease_def sql_delete_def filter_id_conv)
next
  fix d sid' sid own ttl now
  assume v: "lease_table d" and ne: "sid' \<noteq> (sid :: string)"
  have "find_by ol_session_id sid (fst (try_acquire sid' (fst own) (snd own) ttl now d))
      = find_by ol_session_id sid d"
    using ne find_by_Some [of ol_session_id sid d] find_takeover [of sid sid' "fst own" "snd own" ttl now d]
    by (cases "find_by ol_session_id sid d")
      (auto simp: try_acquire_def find_by_append lease_row_def takeover_row_def sql_where_def)
  moreover have "find_by ol_session_id sid (fst (renew_lease sid' (fst own) (snd own) ttl now d))
      = find_by ol_session_id sid d"
    using ne find_by_Some [of ol_session_id sid d] find_renew [of sid sid' "fst own" "snd own" ttl now d]
    by (cases "find_by ol_session_id sid d")
      (auto simp: renew_lease_def renew_row_def sql_where_def)
  moreover have "find_by ol_session_id sid (fst (release_lease sid' (fst own) (snd own) d))
      = find_by ol_session_id sid d"
    using ne v find_by_Some [of ol_session_id sid d]
    by (cases "find_by ol_session_id sid d")
      (auto simp: release_lease_def find_by_delete lease_table_def owned_by_def)
  ultimately show "lease_holder (fst (try_acquire sid' (fst own) (snd own) ttl now d)) sid = lease_holder d sid
      \<and> lease_holder (fst (renew_lease sid' (fst own) (snd own) ttl now d)) sid = lease_holder d sid
      \<and> lease_holder (fst (release_lease sid' (fst own) (snd own) d)) sid = lease_holder d sid"
    by (simp add: lease_holder_def)
next
  fix d sid own ttl now
  assume v: "lease_table d"
  have "keyed ol_session_id (sql_update (takeover_row sid (fst own) (snd own) ttl now) d)"
    using v keyed_sql_update [of "takeover_row sid (fst own) (snd own) ttl now" ol_session_id d] takeover_key
    by (auto simp: lease_table_def)
  moreover have "keyed ol_session_id (sql_update (renew_row sid (fst own) (snd own) ttl now) d)"
    using v keyed_sql_update [of "renew_row sid (fst own) (snd own) ttl now" ol_session_id d] renew_key
    by (auto simp: lease_table_def)
  ultimately show "lease_table (fst (try_acquire sid (fst own) (snd own) ttl now d))
      \<and> lease_table (fst (renew_lease sid (fst own) (snd own) ttl now d))
      \<and> lease_table (fst (release_lease sid (fst own) (snd own) d))"
    using v by (auto simp: lease_table_def try_acquire_def renew_lease_def release_lease_def
        lease_row_def keyed_sql_delete)
qed

section \<open>Properties\<close>

text \<open>C9: Once a job has renewed the lease of its session, as it does right before it sends, no other
  job or token acquires or renews that session until the renewed time has passed, whatever other
  owners call meanwhile on any session.\<close>

theorem session_send_exclusive:
  assumes "lease_table ls" "renew_lease sid job tok ttl now ls = (ls', True)"
    and "\<forall>c \<in> set calls. call_owner c \<noteq> (job, tok) \<and> call_time c \<le> now + ttl"
    and "(job', tok') \<noteq> (job, tok)" "later \<le> now + ttl"
  shows "\<not> snd (try_acquire sid job' tok' ttl' later (session_lease.run_calls calls ls'))
    \<and> \<not> snd (renew_lease sid job' tok' ttl' later (session_lease.run_calls calls ls'))"
proof -
  have "lease_table ls'" "lease_holder ls' sid = Some ((job, tok), now + ttl)"
    using session_lease.renew_holds [of ls sid "(job, tok)" ttl now ls'] assms(1,2)
      session_lease.keeps_valid [OF assms(1), of sid "(job, tok)" ttl now] by auto
  then show ?thesis
    using session_lease.others_excluded [of ls' sid "(job, tok)" "now + ttl" calls "(job', tok')" later ttl']
      assms(3-5) by simp
qed

lemma session_send_exclusive_witness:
  "\<not> snd (try_acquire ''s1'' ''j2'' ''t2'' 52000 40000
      (session_lease.run_calls [Acquire ''s1'' (''j2'', ''t2'') 52000 30000]
        [lease_row ''s1'' ''j1'' ''t1'' 45000 10]))"
  using session_send_exclusive [of "[lease_row ''s1'' ''j1'' ''t1'' 52000 0]" "''s1''" "''j1''" "''t1''"
      45000 10 "[(lease_row ''s1'' ''j1'' ''t1'' 45000 10)\<lparr>ol_acquired_at := 0\<rparr>]"
      "[Acquire ''s1'' (''j2'', ''t2'') 52000 30000]" "''j2''" "''t2''" 40000 52000]
  by (simp add: lease_table_def keyed_def renew_lease_def renew_row_def sql_where_def sql_count_def
      lease_row_def session_lease.run_calls_def session_lease.call_effect_def try_acquire_def
      takeover_row_def)

end
