(* ===== verification/Message_Worker.thy ===== *)
theory Message_Worker
  imports Send_Policy Session_Lease
begin

text \<open>
  The worker that sends a job: message-job-processor.service.ts with the session lease of
  outbound-session-lease.service.ts, as a program counter that advances by one database transaction
  or one upstream call, so that workers interleave at every await. Then the system of any number of
  workers, the scheduler's statements on the jobs, webhooks and crashes, as a step relation.
\<close>

section \<open>The program counter\<close>

datatype send_error = PlainError string | HttpError nat string | NoLongerProcessing | LeaseLost

datatype send_outcome = Skipped | DryRunDone | Sent string | Thrown send_error

text \<open>What the finally block of withLease returns to: a value, or an error with upstreamStarted.\<close>

datatype after_release = Returns send_outcome | Throws send_error bool

datatype worker_pc =
    P_Start uuid
  | P_Finish message_job message_job_status result_options send_outcome
  | P_Policy message_job
  | P_Acquire message_job uuid timestamp
  | P_Recheck message_job uuid
  | P_Acquired message_job uuid
  | P_Delay message_job uuid
  | P_Verify message_job uuid
  | P_Post message_job uuid
  | P_Accept message_job uuid string string
  | P_Release message_job uuid after_release
  | P_Catch message_job send_error bool
  | P_Invalidate message_job send_error
  | P_Done send_outcome

text \<open>The answer of OpenWA to the POST: a message id with the response text, an HTTP status, or none.\<close>

datatype post_response = PR_Accepted string string | PR_Http nat string | PR_Failed string

text \<open>What one step meets: both clocks, whether the database answers, a fresh token, the response.\<close>

record tick =
  tk_now :: timestamp
  tk_wall :: timestamp
  tk_db_ok :: bool
  tk_token :: uuid
  tk_response :: post_response

definition is_definitive_rejection :: "send_error \<Rightarrow> bool" where
  "is_definitive_rejection e = (case e of HttpError n _ \<Rightarrow> 400 \<le> n \<and> n < 500 \<and> n \<noteq> 408 | _ \<Rightarrow> False)"

text \<open>error.message; OpenWAHttpError ends its message with the decimal status.\<close>

fun error_message :: "send_error \<Rightarrow> string" where
  "error_message (PlainError m) = m"
| "error_message (HttpError n body) = ''OpenWA returned HTTP '' @ decimal n"
| "error_message NoLongerProcessing = ''Message job is no longer processing''"
| "error_message LeaseLost = ''Outbound session lease lost before send''"

definition database_error :: send_error where
  "database_error = PlainError ''database error''"

definition no_options :: result_options where
  "no_options = \<lparr>ro_message_id = None, ro_error = None, ro_response = None\<rparr>"

definition failure_options :: "string \<Rightarrow> result_options" where
  "failure_options e = no_options\<lparr>ro_error := Some e\<rparr>"

definition acquisition_ttl :: "runtime_config \<Rightarrow> int" where
  "acquisition_ttl c = cfg_outbound_max_delay_ms c + 45000"

section \<open>One step\<close>

text \<open>assertMessageProcessing: continue, or leave the lease with the error of a job that is gone.\<close>

definition assert_processing ::
  "tick \<Rightarrow> message_job \<Rightarrow> uuid \<Rightarrow> worker_pc \<Rightarrow> db \<Rightarrow> worker_pc \<times> db" where
  "assert_processing t j tok next d =
     (let (jobs, alive) = refresh_processing_lease (mj_id j) (tk_now t) (message_jobs d) in
      (if alive then next else P_Release j tok (Throws NoLongerProcessing False),
       d\<lparr>message_jobs := jobs\<rparr>))"

fun worker_step :: "runtime_config \<Rightarrow> tick \<Rightarrow> worker_pc \<Rightarrow> db \<Rightarrow> worker_pc \<times> db" where
  "worker_step c t (P_Start jid) d =
     (if \<not> tk_db_ok t then (P_Done (Thrown database_error), d)
      else let (jobs, claimed) = mark_processing jid (tk_now t) (message_jobs d) in
       (case claimed of
          None \<Rightarrow> P_Done Skipped
        | Some j \<Rightarrow>
            if mj_dry_run j then
              P_Finish j J_DRY_RUN_COMPLETED (no_options\<lparr>ro_response := Some ''dryRun''\<rparr>) DryRunDone
            else if \<not> cfg_allow_live_sends c then
              P_Finish j J_FAILED (failure_options ''Live send blocked: ALLOW_LIVE_SENDS=false'')
                (Thrown (PlainError ''Live send blocked: ALLOW_LIVE_SENDS=false''))
            else P_Policy j,
        d\<lparr>message_jobs := jobs\<rparr>))"
| "worker_step c t (P_Finish j st opts out) d =
     (if \<not> tk_db_ok t then (P_Done (Thrown database_error), d)
      else (P_Done out, update_result (mj_id j) st opts (tk_now t) d))"
| "worker_step c t (P_Policy j) d =
     (if \<not> tk_db_ok t then (P_Done (Thrown database_error), d)
      else (case live_block_reason c d (mj_session_id j) (mj_recipient_id j) of
          Some reason \<Rightarrow> P_Finish j J_FAILED (failure_options (''Live send blocked: '' @ reason))
              (Thrown (PlainError (''Live send blocked: '' @ reason)))
        | None \<Rightarrow> P_Acquire j (tk_token t) (tk_wall t), d))"
| "worker_step c t (P_Acquire j tok refreshed_at) d =
     (if \<not> tk_db_ok t then (P_Release j tok (Throws database_error False), d)
      else let (ls, got) = try_acquire (mj_session_id j) (mj_id j) tok (acquisition_ttl c) (tk_now t)
                (outbound_leases d) in
       (if got then P_Acquired j tok
        else if 30000 \<le> tk_wall t - refreshed_at then P_Recheck j tok
        else P_Acquire j tok refreshed_at,
        d\<lparr>outbound_leases := ls\<rparr>))"
| "worker_step c t (P_Recheck j tok) d =
     (if \<not> tk_db_ok t then (P_Release j tok (Throws database_error False), d)
      else assert_processing t j tok (P_Acquire j tok (tk_wall t)) d)"
| "worker_step c t (P_Acquired j tok) d =
     (if \<not> tk_db_ok t then (P_Release j tok (Throws database_error False), d)
      else assert_processing t j tok (P_Delay j tok) d)"
| "worker_step c t (P_Delay j tok) d =
     (if \<not> tk_db_ok t then (P_Release j tok (Throws database_error False), d)
      else let (ls, kept) = renew_lease (mj_session_id j) (mj_id j) tok 45000 (tk_now t)
                (outbound_leases d) in
       (if kept then P_Verify j tok else P_Release j tok (Throws LeaseLost False),
        d\<lparr>outbound_leases := ls\<rparr>))"
| "worker_step c t (P_Verify j tok) d =
     (if \<not> tk_db_ok t then (P_Release j tok (Throws database_error False), d)
      else assert_processing t j tok (P_Post j tok) d)"
| "worker_step c t (P_Post j tok) d =
     ((case tk_response t of
         PR_Accepted mid resp \<Rightarrow> P_Accept j tok mid resp
       | PR_Http n body \<Rightarrow> P_Release j tok (Throws (HttpError n body) True)
       | PR_Failed m \<Rightarrow> P_Release j tok (Throws (PlainError m) True)), d)"
| "worker_step c t (P_Accept j tok mid resp) d =
     (if \<not> tk_db_ok t then (P_Release j tok (Throws database_error True), d)
      else (P_Release j tok (Returns (Sent mid)),
        update_result (mj_id j) J_ACCEPTED
          \<lparr>ro_message_id = Some mid, ro_error = None, ro_response = Some resp\<rparr> (tk_now t) d))"
| "worker_step c t (P_Release j tok after) d =
     ((case after of Returns out \<Rightarrow> P_Done out
       | Throws NoLongerProcessing started \<Rightarrow> P_Done Skipped
       | Throws e started \<Rightarrow> P_Catch j e started),
      if tk_db_ok t then d\<lparr>outbound_leases :=
          fst (release_lease (mj_session_id j) (mj_id j) tok (outbound_leases d))\<rparr> else d)"
| "worker_step c t (P_Catch j e started) d =
     (if \<not> tk_db_ok t then (P_Done (Thrown database_error), d)
      else (P_Invalidate j e,
        update_result (mj_id j) (if \<not> started \<or> is_definitive_rejection e then J_FAILED else J_UNKNOWN)
          (failure_options (error_message e)) (tk_now t) d))"
| "worker_step c t (P_Invalidate j e) d =
     (case e of
        HttpError n body \<Rightarrow>
          if group_jid (mj_recipient_id j) \<and> (n = 403 \<or> n = 404) then
            (if \<not> tk_db_ok t then (P_Done (Thrown database_error), d)
             else (P_Done (Thrown e), d\<lparr>gateway_groups := fst (invalidate_capability (mj_session_id j)
               (mj_recipient_id j) (if n = 403 then GATEWAY_PERMISSION_DENIED else GROUP_CHANGED)
               (tk_now t) (gateway_groups d))\<rparr>))
          else (P_Done (Thrown e), d)
      | _ \<Rightarrow> (P_Done (Thrown e), d))"
| "worker_step c t (P_Done out) d = (P_Done out, d)"

section \<open>What a worker holds\<close>

text \<open>The job a program counter has taken, and whether it may still send it.\<close>

fun held_job :: "worker_pc \<Rightarrow> message_job option" where
  "held_job (P_Start jid) = None"
| "held_job (P_Finish j st opts out) = Some j"
| "held_job (P_Policy j) = Some j"
| "held_job (P_Acquire j tok at_time) = Some j"
| "held_job (P_Recheck j tok) = Some j"
| "held_job (P_Acquired j tok) = Some j"
| "held_job (P_Delay j tok) = Some j"
| "held_job (P_Verify j tok) = Some j"
| "held_job (P_Post j tok) = Some j"
| "held_job (P_Accept j tok mid resp) = Some j"
| "held_job (P_Release j tok after) = Some j"
| "held_job (P_Catch j e started) = Some j"
| "held_job (P_Invalidate j e) = Some j"
| "held_job (P_Done out) = None"

fun before_post :: "worker_pc \<Rightarrow> bool" where
  "before_post (P_Policy j) = True"
| "before_post (P_Acquire j tok at_time) = True"
| "before_post (P_Recheck j tok) = True"
| "before_post (P_Acquired j tok) = True"
| "before_post (P_Delay j tok) = True"
| "before_post (P_Verify j tok) = True"
| "before_post (P_Post j tok) = True"
| "before_post _ = False"

text \<open>
  Past the policy check, what it established of the job itself; before it, the two results a job
  may get without being sent.
\<close>

fun may_send :: "runtime_config \<Rightarrow> worker_pc \<Rightarrow> bool" where
  "may_send c (P_Policy j) = (\<not> mj_dry_run j \<and> cfg_allow_live_sends c)"
| "may_send c (P_Finish j st opts out) = (st \<in> {J_DRY_RUN_COMPLETED, J_FAILED})"
| "may_send c pc = (case held_job pc of
     Some j \<Rightarrow> before_post pc \<longrightarrow> \<not> mj_dry_run j \<and> cfg_allow_live_sends c
        \<and> is_allowed c (mj_session_id j) \<and> group_jid (mj_recipient_id j)
   | None \<Rightarrow> True)"

lemma held_step:
  assumes "worker_step c t pc d = (pc', d')" "held_job pc = Some j"
  shows "held_job pc' = None \<or> held_job pc' = Some j"
  using assms
  by (cases pc) (auto simp: assert_processing_def Let_def split: if_splits prod.splits option.splits
      post_response.splits after_release.splits send_error.splits)

lemma before_post_step:
  assumes "worker_step c t pc d = (pc', d')" "held_job pc = Some j" "before_post pc'"
  shows "before_post pc \<and> (\<forall>j tok. pc \<noteq> P_Post j tok)"
  using assms
  by (cases pc) (auto simp: assert_processing_def Let_def split: if_splits prod.splits option.splits
      post_response.splits after_release.splits send_error.splits)

lemma may_send_step:
  assumes "worker_step c t pc d = (pc', d')" "may_send c pc"
  shows "may_send c pc'"
  using assms
  by (cases pc) (auto simp: assert_processing_def Let_def mark_processing_def live_block_reason_None
      group_sendable_def split: if_splits prod.splits option.splits list.splits
      post_response.splits after_release.splits send_error.splits)

text \<open>
  The jobs a worker step leaves: the table after one job_op that the worker may perform, or the
  table as it was.
\<close>

lemma worker_jobs:
  assumes "worker_step c t pc d = (pc', d')" "may_send c pc"
  shows "message_jobs d' = message_jobs d
    \<or> (\<exists>op. job_op_ok op \<and> message_jobs d' = sql_update (job_row op) (message_jobs d))"
proof -
  have res: "\<exists>op. job_op_ok op \<and> sql_update (result_row i st opts n) js = sql_update (job_row op) js"
    if "st \<in> {J_DRY_RUN_COMPLETED, J_ACCEPTED, J_FAILED, J_UNKNOWN}" for i st opts n js
    using that by (intro exI [of _ "JResult i st opts n"]) (simp add: sql_update_def)
  have ref: "\<exists>op. job_op_ok op \<and> sql_update (refresh_lease_row i n) js = sql_update (job_row op) js" for i n js
    by (intro exI [of _ "JRefresh i n"]) (simp add: sql_update_def)
  have pro: "\<exists>op. job_op_ok op \<and> sql_update (processing_row i n) js = sql_update (job_row op) js" for i n js
    by (intro exI [of _ "JProcess i n"]) (simp add: sql_update_def)
  show ?thesis
  proof (cases pc)
    case (P_Finish j st opts out)
    then show ?thesis using assms res by (fastforce simp: update_result_def split: if_splits)
  qed (use assms res ref pro in \<open>auto simp: assert_processing_def refresh_processing_lease_def
      mark_processing_def update_result_def Let_def split: if_splits prod.splits option.splits
      post_response.splits after_release.splits send_error.splits\<close>)
qed

section \<open>The system\<close>

text \<open>
  Workers by number, the database, and the log of the POSTs that were started. The other steps are
  the statements of the scheduler, the webhooks, a cancelled campaign run, creations with a fresh
  uuid, anything that leaves the jobs alone, and the crash of a worker. The queue may deliver any job
  id to any idle worker, any number of times.
\<close>

record world =
  w_db :: db
  w_workers :: "nat \<Rightarrow> worker_pc"
  w_posts :: "message_job list"

fun posting :: "worker_pc \<Rightarrow> message_job list" where
  "posting (P_Post j tok) = [j]"
| "posting _ = []"

fun other_op :: "job_op \<Rightarrow> bool" where
  "other_op (JProcess jid now) = False"
| "other_op (JResult jid st opts now) = False"
| "other_op (JRefresh jid now) = False"
| "other_op op = job_op_ok op"

inductive world_step :: "runtime_config \<Rightarrow> world \<Rightarrow> world \<Rightarrow> bool" for c where
  deliver: "w_workers w k = P_Done out \<Longrightarrow>
    world_step c w (w\<lparr>w_workers := (w_workers w)(k := P_Start jid)\<rparr>)"
| work: "worker_step c t (w_workers w k) (w_db w) = (pc', d') \<Longrightarrow>
    world_step c w (w\<lparr>w_db := d', w_workers := (w_workers w)(k := pc'),
      w_posts := posting (w_workers w k) @ w_posts w\<rparr>)"
| crash: "world_step c w (w\<lparr>w_workers := (w_workers w)(k := P_Done Skipped)\<rparr>)"
| statement: "other_op op \<Longrightarrow> world_step c w (w\<lparr>w_db := (w_db w)
      \<lparr>message_jobs := sql_update (job_row op) (message_jobs (w_db w))\<rparr>\<rparr>)"
| create: "jid \<notin> mj_id ` set (message_jobs (w_db w)) \<Longrightarrow> world_step c w (w\<lparr>w_db := (w_db w)
      \<lparr>message_jobs := fst (create_job jid i now (message_jobs (w_db w)))\<rparr>\<rparr>)"
| elsewhere: "message_jobs d' = message_jobs (w_db w) \<Longrightarrow> world_step c w (w\<lparr>w_db := d'\<rparr>)"

definition initial_world :: world where
  "initial_world = \<lparr>w_db = empty_db, w_workers = (\<lambda>_. P_Done Skipped), w_posts = []\<rparr>"

inductive reachable_world :: "runtime_config \<Rightarrow> world \<Rightarrow> bool" for c where
  start: "reachable_world c initial_world"
| step: "reachable_world c w \<Longrightarrow> world_step c w w' \<Longrightarrow> reachable_world c w'"

text \<open>A job that some worker has taken at some time: a row that is waiting no more.\<close>

definition taken :: "message_job table \<Rightarrow> uuid \<Rightarrow> bool" where
  "taken jobs jid \<longleftrightarrow> (\<exists>j \<in> set jobs. mj_id j = jid \<and> \<not> waiting j)"

definition world_inv :: "runtime_config \<Rightarrow> world \<Rightarrow> bool" where
  "world_inv c w \<longleftrightarrow>
     jobs_wf (message_jobs (w_db w)) \<and>
     (\<forall>k. may_send c (w_workers w k)) \<and>
     (\<forall>k j. held_job (w_workers w k) = Some j \<longrightarrow> taken (message_jobs (w_db w)) (mj_id j)) \<and>
     (\<forall>k k' j j'. held_job (w_workers w k) = Some j \<longrightarrow> held_job (w_workers w k') = Some j' \<longrightarrow>
        mj_id j = mj_id j' \<longrightarrow> k = k') \<and>
     distinct (map mj_id (w_posts w)) \<and>
     (\<forall>p \<in> set (w_posts w). taken (message_jobs (w_db w)) (mj_id p)) \<and>
     (\<forall>k j. held_job (w_workers w k) = Some j \<longrightarrow> before_post (w_workers w k) \<longrightarrow>
        mj_id j \<notin> mj_id ` set (w_posts w)) \<and>
     (\<forall>p \<in> set (w_posts w). \<not> mj_dry_run p \<and> cfg_allow_live_sends c
        \<and> is_allowed c (mj_session_id p) \<and> group_jid (mj_recipient_id p))"

lemma world_invI:
  assumes "jobs_wf (message_jobs (w_db w))" "\<And>k. may_send c (w_workers w k)"
    and "\<And>k j. held_job (w_workers w k) = Some j \<Longrightarrow> taken (message_jobs (w_db w)) (mj_id j)"
    and "\<And>k k' j j'. held_job (w_workers w k) = Some j \<Longrightarrow> held_job (w_workers w k') = Some j' \<Longrightarrow>
      mj_id j = mj_id j' \<Longrightarrow> k = k'"
    and "distinct (map mj_id (w_posts w))"
    and "\<And>p. p \<in> set (w_posts w) \<Longrightarrow> taken (message_jobs (w_db w)) (mj_id p)"
    and "\<And>k j. held_job (w_workers w k) = Some j \<Longrightarrow> before_post (w_workers w k) \<Longrightarrow>
      mj_id j \<notin> mj_id ` set (w_posts w)"
    and "\<And>p. p \<in> set (w_posts w) \<Longrightarrow> \<not> mj_dry_run p \<and> cfg_allow_live_sends c
      \<and> is_allowed c (mj_session_id p) \<and> group_jid (mj_recipient_id p)"
  shows "world_inv c w"
  unfolding world_inv_def
  by (intro conjI allI ballI impI) (fact assms(1) | erule (2) assms(4) | use assms in blast)+

lemma taken_row:
  assumes "taken jobs jid" "job_op_ok op"
  shows "taken (sql_update (job_row op) jobs) jid"
proof -
  obtain j where j: "j \<in> set jobs" "mj_id j = jid" "\<not> waiting j"
    using assms(1) by (auto simp: taken_def)
  show ?thesis
  proof (cases "job_row op j")
    case None
    then show ?thesis using j sql_update_mem_kept [of j jobs "job_row op"] by (auto simp: taken_def)
  next
    case (Some j')
    then have "\<not> waiting j'" "mj_id j' = jid"
      using job_row_leaves_waiting [OF Some j(3) assms(2)] job_row_id [OF Some] j(2) by auto
    then show ?thesis using sql_update_mem_changed [of j jobs "job_row op" j'] j(1) Some
      by (auto simp: taken_def)
  qed
qed

lemma taken_create: "taken jobs jid \<Longrightarrow> taken (fst (create_job jid' i now jobs)) jid"
  by (cases rule: create_job_cases [of i jobs jid' now]) (auto simp: taken_def)

text \<open>A successful claim takes a job that nobody had taken.\<close>

lemma claim_takes:
  assumes "jobs_wf jobs" "mark_processing jid now jobs = (jobs', Some j)"
  shows "mj_id j = jid \<and> \<not> taken jobs jid \<and> taken jobs' jid"
proof -
  have "j \<in> set (sql_returning (processing_row jid now) jobs)"
    using assms(2) by (auto simp: mark_processing_def split: list.splits)
  then obtain r where r: "r \<in> set jobs" "processing_row jid now r = Some j"
    by (auto simp: set_sql_returning)
  then have q: "mj_id r = jid" "mj_status r = J_QUEUED" "mj_id j = jid" "mj_status j = J_PROCESSING"
    by (auto simp: processing_row_def)
  have "\<not> taken jobs jid"
  proof
    assume "taken jobs jid"
    then obtain x where "x \<in> set jobs" "mj_id x = jid" "\<not> waiting x" by (auto simp: taken_def)
    then have "x = r" using keyed_inj [of mj_id jobs x r] assms(1) r(1) q(1) by (simp add: jobs_wf_def)
    then show False using \<open>\<not> waiting x\<close> q(2) by (simp add: waiting_def)
  qed
  moreover have "taken jobs' jid"
    using sql_update_mem_changed [of r jobs "processing_row jid now" j] r assms(2) q(3,4)
    by (auto simp: taken_def waiting_def mark_processing_def)
  ultimately show ?thesis using q(3) by blast
qed

lemma world_inv_workers_same_jobs:
  assumes "world_inv c w" "jobs_wf jobs" "\<And>jid. taken (message_jobs (w_db w)) jid \<Longrightarrow> taken jobs jid"
    and "message_jobs d' = jobs"
  shows "world_inv c (w\<lparr>w_db := d'\<rparr>)"
  using assms by (auto simp: world_inv_def)

lemma world_inv_drop:
  assumes "world_inv c w" "held_job pc = None" "may_send c pc"
  shows "world_inv c (w\<lparr>w_workers := (w_workers w)(k := pc)\<rparr>)"
  using assms by (auto simp: world_inv_def)

lemma start_claims:
  assumes "worker_step c t (P_Start jid) d = (pc', d')" "held_job pc' = Some j"
  shows "mark_processing jid (tk_now t) (message_jobs d) = (message_jobs d', Some j)"
  using assms by (auto simp: Let_def split: if_splits prod.splits option.splits)

lemma posting_held: "p \<in> set (posting pc) \<Longrightarrow> held_job pc = Some p \<and> before_post pc"
  by (cases pc) auto

lemma posting_cases: "posting pc = [] \<or> (\<exists>j tok. pc = P_Post j tok \<and> posting pc = [j])"
  by (cases pc) auto

text \<open>The step of one worker keeps the invariant.\<close>

lemma world_inv_work:
  assumes inv: "world_inv c w" and st: "worker_step c t (w_workers w k) (w_db w) = (pc', d')"
  shows "world_inv c (w\<lparr>w_db := d', w_workers := (w_workers w)(k := pc'),
      w_posts := posting (w_workers w k) @ w_posts w\<rparr>)"
proof -
  let ?pc = "w_workers w k" and ?jobs = "message_jobs (w_db w)"
  have may: "may_send c ?pc" and wf: "jobs_wf ?jobs"
    using inv by (auto simp: world_inv_def)
  note jobs = worker_jobs [OF st may]
  have wf': "jobs_wf (message_jobs d')" using jobs wf jobs_wf_row by metis
  have keep: "taken (message_jobs d') jid" if "taken ?jobs jid" for jid
    using jobs that taken_row by metis
  have may': "may_send c pc'" by (rule may_send_step [OF st may])
  have held: "taken ?jobs (mj_id j)" if "held_job (w_workers w i) = Some j" for i j
    using inv that by (auto simp: world_inv_def)
  have new: "taken (message_jobs d') (mj_id j) \<and> (\<forall>i j'. i \<noteq> k \<longrightarrow> held_job (w_workers w i) = Some j' \<longrightarrow>
        mj_id j' \<noteq> mj_id j)
      \<and> (before_post pc' \<longrightarrow> mj_id j \<notin> mj_id ` set (posting ?pc @ w_posts w))"
    if hj: "held_job pc' = Some j" for j
  proof (cases "held_job ?pc")
    case (Some j0)
    then have j0: "j0 = j" using held_step [OF st Some] that by auto
    have others: "\<forall>i j'. i \<noteq> k \<longrightarrow> held_job (w_workers w i) = Some j' \<longrightarrow> mj_id j' \<noteq> mj_id j"
      using inv Some j0 unfolding world_inv_def by blast
    have "mj_id j \<notin> mj_id ` set (posting ?pc @ w_posts w)" if "before_post pc'"
    proof -
      have bp: "before_post ?pc" "posting ?pc = []"
        using before_post_step [OF st Some that] posting_cases [of ?pc] by auto
      then show ?thesis using inv Some j0 unfolding world_inv_def by auto
    qed
    then show ?thesis using keep held [OF Some] others j0 by blast
  next
    case None
    then obtain jid where pc: "?pc = P_Start jid"
      using st hj by (cases ?pc) (auto, metis held_job.simps(14) option.distinct(1))
    have "mark_processing jid (tk_now t) ?jobs = (message_jobs d', Some j)"
      using start_claims st that unfolding pc by blast
    from claim_takes [OF wf this] have "mj_id j = jid" "\<not> taken ?jobs jid" "taken (message_jobs d') jid"
      by auto
    moreover from this have "\<forall>p \<in> set (w_posts w). mj_id p \<noteq> jid"
      using inv by (auto simp: world_inv_def)
    ultimately show ?thesis using held pc by (auto simp: image_iff) metis
  qed
  have old: "distinct (map mj_id (w_posts w))" "\<forall>p \<in> set (w_posts w). taken (message_jobs d') (mj_id p)"
    "\<forall>p \<in> set (w_posts w). \<not> mj_dry_run p \<and> cfg_allow_live_sends c
        \<and> is_allowed c (mj_session_id p) \<and> group_jid (mj_recipient_id p)"
    using inv keep by (auto simp: world_inv_def)
  have posted: "taken (message_jobs d') (mj_id p) \<and> mj_id p \<notin> mj_id ` set (w_posts w)
      \<and> \<not> mj_dry_run p \<and> cfg_allow_live_sends c
      \<and> is_allowed c (mj_session_id p) \<and> group_jid (mj_recipient_id p)"
    if p: "?pc = P_Post p tok" for p tok
  proof -
    have "held_job ?pc = Some p" "before_post ?pc" using p by auto
    then have "mj_id p \<notin> mj_id ` set (w_posts w)" using inv unfolding world_inv_def by blast
    then show ?thesis using keep held [of k p] may p by simp
  qed
  have posts: "distinct (map mj_id (posting ?pc @ w_posts w))
    \<and> (\<forall>p \<in> set (posting ?pc @ w_posts w). taken (message_jobs d') (mj_id p))
    \<and> (\<forall>p \<in> set (posting ?pc @ w_posts w). \<not> mj_dry_run p \<and> cfg_allow_live_sends c
        \<and> is_allowed c (mj_session_id p) \<and> group_jid (mj_recipient_id p))"
  proof (cases "posting ?pc = []")
    case True
    then show ?thesis using old by simp
  next
    case False
    then obtain j tok where "?pc = P_Post j tok" using posting_cases [of ?pc] by blast
    then show ?thesis using old posted by auto
  qed
  let ?ws = "(w_workers w)(k := pc')"
  have uniq: "i = i'" if h: "held_job (?ws i) = Some j" "held_job (?ws i') = Some j'" "mj_id j = mj_id j'"
    for i i' j j'
  proof (rule ccontr)
    assume ne: "i \<noteq> i'"
    have apart: "mj_id y \<noteq> mj_id x"
      if "held_job pc' = Some x" "held_job (w_workers w m) = Some y" "m \<noteq> k" for x y m
      using new [OF that(1)] that(2,3) by blast
    consider "i = k" "i' \<noteq> k" | "i' = k" "i \<noteq> k" | "i \<noteq> k" "i' \<noteq> k" using ne by blast
    then show False
    proof cases
      case 1
      then show False using apart [where x = j and y = j' and m = i'] h by simp
    next
      case 2
      then show False using apart [where x = j' and y = j and m = i] h by simp
    next
      case 3
      then have "held_job (w_workers w i) = Some j" "held_job (w_workers w i') = Some j'"
        using h by auto
      then show False using inv h(3) ne unfolding world_inv_def by blast
    qed
  qed
  have unposted: "mj_id j \<notin> mj_id ` set (posting ?pc @ w_posts w)"
    if h: "held_job (?ws i) = Some j" "before_post (?ws i)" for i j
  proof (cases "i = k")
    case True
    then show ?thesis using new h by auto
  next
    case False
    then have h': "held_job (w_workers w i) = Some j" "before_post (w_workers w i)" using h by auto
    have "mj_id j \<notin> mj_id ` set (w_posts w)" using inv h' unfolding world_inv_def by blast
    moreover have "\<forall>p \<in> set (posting ?pc). mj_id p \<noteq> mj_id j"
      using posting_held inv h'(1) False unfolding world_inv_def by blast
    ultimately show ?thesis by force
  qed
  have tk: "taken (message_jobs d') (mj_id j)" if "held_job (?ws i) = Some j" for i j
    using that new keep held by (cases "i = k") auto
  have ms: "may_send c (?ws i)" for i
    using inv may' by (cases "i = k") (auto simp: world_inv_def)
  show ?thesis
  proof (rule world_invI)
    fix i i' j j'
    assume "held_job (w_workers (w\<lparr>w_db := d', w_workers := ?ws, w_posts := posting ?pc @ w_posts w\<rparr>) i) = Some j"
      "held_job (w_workers (w\<lparr>w_db := d', w_workers := ?ws, w_posts := posting ?pc @ w_posts w\<rparr>) i') = Some j'"
      "mj_id j = mj_id j'"
    then have "held_job (?ws i) = Some j" "held_job (?ws i') = Some j'" "mj_id j = mj_id j'"
      by simp_all
    then show "i = i'" by (rule uniq)
  next
    fix i j
    assume "held_job (w_workers (w\<lparr>w_db := d', w_workers := ?ws, w_posts := posting ?pc @ w_posts w\<rparr>) i) = Some j"
      "before_post (w_workers (w\<lparr>w_db := d', w_workers := ?ws, w_posts := posting ?pc @ w_posts w\<rparr>) i)"
    then show "mj_id j \<notin> mj_id ` set (w_posts (w\<lparr>w_db := d', w_workers := ?ws,
        w_posts := posting ?pc @ w_posts w\<rparr>))"
      using unposted by simp
  next
    fix i j
    assume "held_job (w_workers (w\<lparr>w_db := d', w_workers := ?ws, w_posts := posting ?pc @ w_posts w\<rparr>) i) = Some j"
    then show "taken (message_jobs (w_db (w\<lparr>w_db := d', w_workers := ?ws,
        w_posts := posting ?pc @ w_posts w\<rparr>))) (mj_id j)"
      using tk by simp
  next
    fix i
    show "may_send c (w_workers (w\<lparr>w_db := d', w_workers := ?ws, w_posts := posting ?pc @ w_posts w\<rparr>) i)"
      using ms by simp
  qed (use wf' posts in simp_all)
qed

lemma world_inv_step: "world_step c w w' \<Longrightarrow> world_inv c w \<Longrightarrow> world_inv c w'"
proof (induction rule: world_step.induct)
  case (deliver w k out jid)
  then show ?case by (intro world_inv_drop) auto
next
  case (work t w k pc' d')
  then show ?case by (intro world_inv_work)
next
  case (crash w k)
  then show ?case by (intro world_inv_drop) auto
next
  case (statement op w)
  then have op: "job_op_ok op" by (cases op) auto
  show ?case
    by (rule world_inv_workers_same_jobs [OF statement.prems])
      (use statement.prems jobs_wf_row [OF _ op] taken_row [OF _ op] in \<open>auto simp: world_inv_def\<close>)
next
  case (create jid w i now)
  show ?case
    by (rule world_inv_workers_same_jobs [OF create.prems])
      (use create jobs_wf_create [of "message_jobs (w_db w)" jid i now] taken_create in
        \<open>auto simp: world_inv_def\<close>)
next
  case (elsewhere d' w)
  show ?case
    by (rule world_inv_workers_same_jobs [OF elsewhere.prems])
      (use elsewhere in \<open>auto simp: world_inv_def\<close>)
qed

lemma world_inv_reachable: "reachable_world c w \<Longrightarrow> world_inv c w"
proof (induction rule: reachable_world.induct)
  case start
  then show ?case by (rule world_invI) (auto simp: initial_world_def empty_db_def)
next
  case (step w w')
  then show ?case using world_inv_step by blast
qed

section \<open>Runs\<close>

text \<open>The steps as a function of events, for running the system on concrete schedules.\<close>

datatype world_event =
    EvDeliver nat uuid
  | EvWork nat tick
  | EvCrash nat
  | EvStatement job_op
  | EvCreate uuid job_input timestamp
  | EvSessions "gateway_session list" "gateway_group list"

fun perform :: "runtime_config \<Rightarrow> world_event \<Rightarrow> world \<Rightarrow> world" where
  "perform c (EvDeliver k jid) w =
     (case w_workers w k of P_Done out \<Rightarrow> w\<lparr>w_workers := (w_workers w)(k := P_Start jid)\<rparr> | _ \<Rightarrow> w)"
| "perform c (EvWork k t) w =
     (let (pc', d') = worker_step c t (w_workers w k) (w_db w) in
      w\<lparr>w_db := d', w_workers := (w_workers w)(k := pc'), w_posts := posting (w_workers w k) @ w_posts w\<rparr>)"
| "perform c (EvCrash k) w = w\<lparr>w_workers := (w_workers w)(k := P_Done Skipped)\<rparr>"
| "perform c (EvStatement op) w =
     (if other_op op then w\<lparr>w_db := (w_db w)
        \<lparr>message_jobs := sql_update (job_row op) (message_jobs (w_db w))\<rparr>\<rparr> else w)"
| "perform c (EvCreate jid i now) w =
     (if jid \<notin> mj_id ` set (message_jobs (w_db w)) then w\<lparr>w_db := (w_db w)
        \<lparr>message_jobs := fst (create_job jid i now (message_jobs (w_db w)))\<rparr>\<rparr> else w)"
| "perform c (EvSessions ss gs) w =
     w\<lparr>w_db := (w_db w)\<lparr>gateway_sessions := ss, gateway_groups := gs\<rparr>\<rparr>"

lemma perform_step: "perform c e w = w \<or> world_step c w (perform c e w)"
proof (cases e)
  case (EvDeliver k jid)
  then show ?thesis by (cases "w_workers w k") (auto intro: world_step.deliver)
next
  case (EvWork k t)
  then show ?thesis
    by (cases "worker_step c t (w_workers w k) (w_db w)") (auto intro: world_step.work)
qed (auto intro: world_step.crash world_step.statement world_step.create world_step.elsewhere)

lemma reachable_run: "reachable_world c w \<Longrightarrow> reachable_world c (fold (perform c) es w)"
proof (induction es arbitrary: w)
  case (Cons e es)
  then show ?case
    using perform_step [of c e w] reachable_world.step by (metis fold_simps(2))
qed simp

section \<open>After the POST\<close>

text \<open>The steps of one worker, one tick each; other transactions commit after each of them.\<close>

fun run_worker :: "runtime_config \<Rightarrow> (tick \<times> (db \<Rightarrow> db)) list \<Rightarrow> worker_pc \<times> db \<Rightarrow> worker_pc \<times> db" where
  "run_worker c [] s = s"
| "run_worker c ((t, others) # ts) (pc, d) = run_worker c ts (apsnd others (worker_step c t pc d))"

definition posted_status :: "post_response \<Rightarrow> message_job_status" where
  "posted_status r = (case r of
     PR_Accepted mid resp \<Rightarrow> J_ACCEPTED
   | PR_Http n body \<Rightarrow> if 400 \<le> n \<and> n < 500 \<and> n \<noteq> 408 then J_FAILED else J_UNKNOWN
   | PR_Failed m \<Rightarrow> J_UNKNOWN)"

lemma update_result_find:
  assumes "find_job jid (message_jobs d) = Some r" "mj_status r = J_PROCESSING"
  shows "\<exists>r'. find_job jid (message_jobs (update_result jid st opts now d)) = Some r'
    \<and> mj_status r' = st \<and> mj_openwa_message_id r' = coalesce_opt (ro_message_id opts) (mj_openwa_message_id r)"
proof -
  have jid: "mj_id r = jid" using find_by_Some assms(1) by (force simp: find_job_def)
  have "find_by mj_id jid (sql_update (result_row jid st opts now) (message_jobs d)) =
      map_option (\<lambda>j. case result_row jid st opts now j of None \<Rightarrow> j | Some j' \<Rightarrow> j')
        (find_by mj_id jid (message_jobs d))"
    by (rule find_by_sql_update) (auto simp: result_row_def)
  then show ?thesis using assms jid
    by (auto simp: find_job_def update_result_def result_row_def sql_where_def)
qed

section \<open>Properties\<close>

text \<open>C1: In every reachable state of any number of workers, with deliveries repeated, workers crashing
  at any step, leases expiring and webhooks arriving in between, each message job has been POSTed to
  OpenWA at most once, and only a job that is not a dry run, with live sends enabled, for an allowed
  session and a group recipient.\<close>

theorem posted_at_most_once:
  assumes "reachable_world c w"
  shows "distinct (map mj_id (w_posts w))
    \<and> (\<forall>p \<in> set (w_posts w). \<not> mj_dry_run p \<and> cfg_allow_live_sends c
        \<and> is_allowed c (mj_session_id p) \<and> group_jid (mj_recipient_id p))"
  using world_inv_reachable [OF assms] by (simp add: world_inv_def)

definition ready_session :: gateway_session where
  "ready_session = \<lparr>gs_id = ''s1'', gs_profile = plain_profile, gs_status = ''ready'', gs_engine_loaded = True,
     gs_restriction = None, gs_status_observed_at = 0, gs_restriction_observed_at = 0,
     gs_gateway_updated_at = 0, gs_synced_at = 0, gs_updated_at = 0, gs_snapshot_count = None,
     gs_suspicious_fingerprint = None, gs_suspicious_count = None, gs_suspicious_confirmations = 0\<rparr>"

definition ok_tick :: "post_response \<Rightarrow> tick" where
  "ok_tick r = \<lparr>tk_now = 5, tk_wall = 5, tk_db_ok = True, tk_token = ''t1'', tk_response = r\<rparr>"

text \<open>One job, delivered to two workers: the first sends it, the second finds it taken.\<close>

definition sample_run :: "world_event list" where
  "sample_run =
    [EvSessions [ready_session] [detail_insert ''s1'' sample_detail 0],
     EvCreate ''j1'' sample_input 0, EvStatement (JQueue [''j1''] 5), EvDeliver 0 ''j1'', EvDeliver 1 ''j1''] @
    replicate 7 (EvWork 0 (ok_tick (PR_Accepted ''w1'' ''r''))) @
    [EvWork 1 (ok_tick (PR_Failed [])), EvWork 0 (ok_tick (PR_Accepted ''w1'' ''r''))]"

lemma posted_at_most_once_witness:
  "map mj_id (w_posts (fold (perform open_config) sample_run initial_world)) = [''j1'']
   \<and> distinct (map mj_id (w_posts (fold (perform open_config) sample_run initial_world)))"
proof
  show "map mj_id (w_posts (fold (perform open_config) sample_run initial_world)) = [''j1'']"
    by code_simp
  show "distinct (map mj_id (w_posts (fold (perform open_config) sample_run initial_world)))"
    using posted_at_most_once [OF reachable_run [OF reachable_world.start]] by blast
qed

text \<open>A reachable job is claimed at most once: its attempt count is 0 while it waits or after it was
  cancelled and 1 in every other status, and the ids and the idempotency keys of the jobs are unique.\<close>

theorem jobs_attempted_at_most_once:
  assumes "reachable_world c w"
  shows "(\<forall>j \<in> set (message_jobs (w_db w)).
      mj_attempt_count j = (if mj_status j \<in> {J_SCHEDULED, J_QUEUED, J_CANCELLED} then 0 else 1))
    \<and> distinct (map mj_id (message_jobs (w_db w))) \<and> distinct (map job_key (message_jobs (w_db w)))"
  using world_inv_reachable [OF assms]
  by (auto simp: world_inv_def jobs_wf_def job_wf_def waiting_def keyed_def)

lemma jobs_attempted_at_most_once_witness:
  "distinct (map mj_id (message_jobs (w_db (initial_world\<lparr>w_db := (w_db initial_world)
      \<lparr>message_jobs := fst (create_job ''j1'' sample_input 5 (message_jobs (w_db initial_world)))\<rparr>\<rparr>))))"
proof -
  have "reachable_world open_config (initial_world\<lparr>w_db := (w_db initial_world)
      \<lparr>message_jobs := fst (create_job ''j1'' sample_input 5 (message_jobs (w_db initial_world)))\<rparr>\<rparr>)"
    by (rule reachable_world.step [OF reachable_world.start world_step.create])
      (simp add: initial_world_def empty_db_def)
  from jobs_attempted_at_most_once [OF this] show ?thesis by blast
qed

text \<open>What the row of the job says after the POST at t1 and the three steps that follow it.\<close>

definition recorded_status :: "tick \<Rightarrow> tick \<Rightarrow> tick \<Rightarrow> tick \<Rightarrow> message_job_status" where
  "recorded_status t1 t2 t3 t4 = (case tk_response t1 of
     PR_Accepted mid resp \<Rightarrow> if tk_db_ok t2 then J_ACCEPTED else if tk_db_ok t4 then J_UNKNOWN else J_PROCESSING
   | _ \<Rightarrow> if tk_db_ok t3 then posted_status (tk_response t1) else J_PROCESSING)"

text \<open>C4: Suppose a worker POSTs a job whose row is PROCESSING and no other transaction changes that row until the worker
  is done; others may change everything else in between. If the statement that records the answer succeeds, the job is
  ACCEPTED with the message id when OpenWA accepted it, FAILED exactly when OpenWA answered with a 4xx other than 408,
  and UNKNOWN for every other answer or none. If the database fails, an accepted job is UNKNOWN or still PROCESSING and
  any other is still PROCESSING: a message that may have been sent is never recorded as FAILED.\<close>

theorem post_outcome_recorded:
  assumes "find_job (mj_id j) (message_jobs d) = Some r" "mj_status r = J_PROCESSING"
    and others: "\<And>f e. f \<in> {f1, f2, f3, f4} \<Longrightarrow>
      find_job (mj_id j) (message_jobs (f e)) = find_job (mj_id j) (message_jobs e)"
  shows "\<exists>r'. find_job (mj_id j) (message_jobs (snd (run_worker c [(t1, f1), (t2, f2), (t3, f3), (t4, f4)] (P_Post j tok, d))))
      = Some r'
    \<and> mj_status r' = recorded_status t1 t2 t3 t4
    \<and> (\<forall>mid resp. tk_response t1 = PR_Accepted mid resp \<and> tk_db_ok t2 \<longrightarrow> mj_openwa_message_id r' = Some mid)"
proof -
  have f: "find_job (mj_id j) (message_jobs (f1 e)) = find_job (mj_id j) (message_jobs e)"
    "find_job (mj_id j) (message_jobs (f2 e)) = find_job (mj_id j) (message_jobs e)"
    "find_job (mj_id j) (message_jobs (f3 e)) = find_job (mj_id j) (message_jobs e)"
    "find_job (mj_id j) (message_jobs (f4 e)) = find_job (mj_id j) (message_jobs e)" for e
    using others by simp_all
  note row = update_result_find [OF _ assms(2), of "mj_id j"]
  show ?thesis
  proof (cases "tk_response t1")
    case (PR_Accepted mid resp)
    let ?e = "f3 (if tk_db_ok t3 then (f2 (f1 d))\<lparr>outbound_leases :=
        fst (release_lease (mj_session_id j) (mj_id j) tok (outbound_leases (f2 (f1 d))))\<rparr> else f2 (f1 d))"
    have "find_job (mj_id j) (message_jobs ?e) = Some r" using assms(1) f by simp
    from row [OF this, of J_UNKNOWN "failure_options (error_message database_error)" "tk_now t4"]
      row [of "f1 d" J_ACCEPTED "\<lparr>ro_message_id = Some mid, ro_error = None, ro_response = Some resp\<rparr>" "tk_now t2"]
    show ?thesis
      using assms(1,2) f
      by (auto simp: PR_Accepted recorded_status_def database_error_def is_definitive_rejection_def
          simp del: error_message.simps)
  next
    case (PR_Http n body)
    let ?e = "f2 (if tk_db_ok t2 then (f1 d)\<lparr>outbound_leases :=
        fst (release_lease (mj_session_id j) (mj_id j) tok (outbound_leases (f1 d)))\<rparr> else f1 d)"
    have "find_job (mj_id j) (message_jobs ?e) = Some r" using assms(1) f by simp
    from row [OF this, of "posted_status (PR_Http n body)" "failure_options (error_message (HttpError n body))" "tk_now t3"]
    show ?thesis
      using assms(1,2) f
      by (auto simp: PR_Http recorded_status_def posted_status_def is_definitive_rejection_def
          simp del: error_message.simps split: if_splits)
  next
    case (PR_Failed m)
    let ?e = "f2 (if tk_db_ok t2 then (f1 d)\<lparr>outbound_leases :=
        fst (release_lease (mj_session_id j) (mj_id j) tok (outbound_leases (f1 d)))\<rparr> else f1 d)"
    have "find_job (mj_id j) (message_jobs ?e) = Some r" using assms(1) f by simp
    from row [OF this, of J_UNKNOWN "failure_options (error_message (PlainError m))" "tk_now t3"]
    show ?thesis
      using assms(1,2) f
      by (auto simp: PR_Failed recorded_status_def posted_status_def is_definitive_rejection_def
          simp del: error_message.simps split: if_splits)
  qed
qed

definition processing_sample :: message_job where
  "processing_sample = (new_job ''j1'' sample_input 0)
     \<lparr>mj_status := J_PROCESSING, mj_attempt_count := 1, mj_lease_expires_at := Some 120000\<rparr>"

lemma post_outcome_recorded_witness:
  "\<exists>r'. find_job ''j1'' (message_jobs (snd (run_worker open_config
      [(ok_tick (PR_Http 504 []), id), (ok_tick (PR_Failed []), id), (ok_tick (PR_Failed []), id), (ok_tick (PR_Failed []), id)]
      (P_Post processing_sample ''t1'', empty_db\<lparr>message_jobs := [processing_sample]\<rparr>)))) = Some r'
    \<and> mj_status r' = J_UNKNOWN"
  using post_outcome_recorded [of processing_sample "empty_db\<lparr>message_jobs := [processing_sample]\<rparr>"
      processing_sample id id id id open_config "ok_tick (PR_Http 504 [])" "ok_tick (PR_Failed [])"
      "ok_tick (PR_Failed [])" "ok_tick (PR_Failed [])" "''t1''"]
  by (simp add: find_job_def processing_sample_def new_job_def ok_tick_def posted_status_def recorded_status_def)

end
