(* ===== verification/Preflight.thy ===== *)
theory Preflight
  imports Send_Policy
begin

text \<open>
  The preflight of a campaign: evaluateCampaignPreflight (campaign-preflight.ts) and the service that
  feeds it the persisted session and the configuration (campaign-preflight.service.ts). The texts of
  the check messages are not modelled.
\<close>

section \<open>The evaluation\<close>

record preflight_session =
  ps_status :: string
  ps_engine_loaded :: bool
  ps_restricted :: bool

record preflight_input =
  pi_mode :: execution_mode
  pi_text :: string
  pi_targets :: "campaign_target_dto list"
  pi_session :: preflight_session
  pi_live_enabled :: bool
  pi_campaign_revision :: nat
  pi_targets_revision :: nat
  pi_checked_at :: timestamp

definition effective_capability :: "campaign_target_dto \<Rightarrow> capability_status" where
  "effective_capability t =
     (if sc_invalidated_at (ct_capability t) = None then sc_status (ct_capability t) else UNKNOWN)"

definition target_issue_of :: "campaign_target_dto \<Rightarrow> target_issue" where
  "target_issue_of t =
     \<lparr>ti_group_id = ct_group_id t, ti_group_name = ct_group_name t,
      ti_capability = effective_capability t,
      ti_reason = (if sc_invalidated_at (ct_capability t) \<noteq> None then TARGET_CAPABILITY_STALE
        else if effective_capability t = DENIED then TARGET_CAPABILITY_DENIED
        else TARGET_CAPABILITY_UNKNOWN)\<rparr>"

definition target_issues :: "campaign_target_dto list \<Rightarrow> target_issue list" where
  "target_issues ts = map target_issue_of (filter (\<lambda>t. effective_capability t \<noteq> ALLOWED) ts)"

definition text_valid :: "string \<Rightarrow> bool" where
  "text_valid s \<longleftrightarrow> js_trim s \<noteq> [] \<and> length s \<le> 4096"

definition session_ready :: "preflight_session \<Rightarrow> bool" where
  "session_ready s \<longleftrightarrow> ps_status s = ''ready'' \<and> ps_engine_loaded s \<and> \<not> ps_restricted s"

definition pass_or_block :: "bool \<Rightarrow> preflight_status" where
  "pass_or_block ok = (if ok then PASS else BLOCK)"

definition preflight_checks :: "preflight_input \<Rightarrow> preflight_check list" where
  "preflight_checks i =
     [\<lparr>pc_code = CONTENT_VALID, pc_status = pass_or_block (text_valid (pi_text i))\<rparr>,
      \<lparr>pc_code = TARGETS_VALID, pc_status = pass_or_block (pi_targets i \<noteq> [])\<rparr>,
      \<lparr>pc_code = SESSION_SENDABLE, pc_status = pass_or_block (session_ready (pi_session i))\<rparr>,
      \<lparr>pc_code = GROUP_CAPABILITY,
       pc_status = (if target_issues (pi_targets i) \<noteq> []
         then (if pi_mode i = DRY_RUN then WARN else BLOCK) else PASS)\<rparr>,
      \<lparr>pc_code = LIVE_SEND_ALLOWED,
       pc_status = (if pi_mode i = LIVE \<and> \<not> pi_live_enabled i then BLOCK else PASS)\<rparr>]"

definition preflight_verdict :: "preflight_check list \<Rightarrow> preflight_status" where
  "preflight_verdict cs =
     (if \<exists>c \<in> set cs. pc_status c = BLOCK then BLOCK
      else if \<exists>c \<in> set cs. pc_status c = WARN then WARN else PASS)"

definition evaluate_preflight :: "preflight_input \<Rightarrow> preflight_report" where
  "evaluate_preflight i =
     (let issues = target_issues (pi_targets i); checks = preflight_checks i in
      \<lparr>pr_status = preflight_verdict checks, pr_policy_version = 2,
       pr_campaign_revision = pi_campaign_revision i, pr_targets_revision = pi_targets_revision i,
       pr_execution_mode = pi_mode i, pr_checked_at = pi_checked_at i,
       pr_total = length (pi_targets i),
       pr_allowed = length (pi_targets i) - length issues,
       pr_denied = length (filter (\<lambda>t. ti_capability t = DENIED) issues),
       pr_unknown = length (filter (\<lambda>t. ti_capability t = UNKNOWN) issues),
       pr_checks = checks, pr_issues = issues\<rparr>)"

section \<open>The service\<close>

definition persisted_session :: "gateway_session option \<Rightarrow> preflight_session" where
  "persisted_session s = (case s of
     None \<Rightarrow> \<lparr>ps_status = ''missing'', ps_engine_loaded = False, ps_restricted = True\<rparr>
   | Some g \<Rightarrow> \<lparr>ps_status = gs_status g, ps_engine_loaded = gs_engine_loaded g,
       ps_restricted = (gs_restriction g \<noteq> None)\<rparr>)"

definition run_preflight ::
  "runtime_config \<Rightarrow> execution_mode \<Rightarrow> string \<Rightarrow> string \<Rightarrow> campaign_target_dto list \<Rightarrow> nat \<Rightarrow> nat
    \<Rightarrow> timestamp \<Rightarrow> db \<Rightarrow> preflight_report" where
  "run_preflight c mode sid text targets crev trev wall d = evaluate_preflight
     \<lparr>pi_mode = mode, pi_text = text, pi_targets = targets,
      pi_session = persisted_session (find_by gs_id sid (gateway_sessions d)),
      pi_live_enabled = cfg_allow_live_sends c, pi_campaign_revision = crev,
      pi_targets_revision = trev, pi_checked_at = wall\<rparr>"

section \<open>Lemmas\<close>

lemma target_issues_Nil:
  "target_issues ts = [] \<longleftrightarrow> (\<forall>t \<in> set ts. effective_capability t = ALLOWED)"
  by (auto simp: target_issues_def filter_empty_conv)

lemma verdict_block: "preflight_verdict cs = BLOCK \<longleftrightarrow> (\<exists>c \<in> set cs. pc_status c = BLOCK)"
  by (simp add: preflight_verdict_def)

lemma pass_or_block_simps [simp]:
  "pass_or_block ok = BLOCK \<longleftrightarrow> \<not> ok" "pass_or_block ok = PASS \<longleftrightarrow> ok" "pass_or_block ok \<noteq> WARN"
  by (simp_all add: pass_or_block_def)

lemma preflight_not_blocked:
  "pr_status (evaluate_preflight i) \<noteq> BLOCK \<longleftrightarrow>
     text_valid (pi_text i) \<and> pi_targets i \<noteq> [] \<and> session_ready (pi_session i)
     \<and> (pi_mode i = LIVE \<longrightarrow> pi_live_enabled i \<and> (\<forall>t \<in> set (pi_targets i). effective_capability t = ALLOWED))"
  using target_issues_Nil [of "pi_targets i"]
  by (cases "pi_mode i") (auto simp: evaluate_preflight_def Let_def verdict_block preflight_checks_def)

text \<open>A target that may be sent to: ALLOWED, and not invalidated since.\<close>

definition usable :: "campaign_target_dto \<Rightarrow> bool" where
  "usable t \<longleftrightarrow> sc_status (ct_capability t) = ALLOWED \<and> sc_invalidated_at (ct_capability t) = None"

lemma effective_usable: "effective_capability t = ALLOWED \<longleftrightarrow> usable t"
  by (auto simp: effective_capability_def usable_def)

lemma issues_usable: "target_issues ts = map target_issue_of (filter (\<lambda>t. \<not> usable t) ts)"
  by (simp add: target_issues_def effective_usable)

lemma usable_count: "length ts - length (target_issues ts) = length (filter usable ts)"
  using sum_length_filter_compl [of usable ts] by (simp add: issues_usable)

lemma denied_count: "length (filter (\<lambda>x. ti_capability x = DENIED) (target_issues ts))
    = length (filter (\<lambda>t. sc_status (ct_capability t) = DENIED \<and> sc_invalidated_at (ct_capability t) = None) ts)"
  by (induction ts) (auto simp: target_issues_def target_issue_of_def effective_capability_def)

lemma unknown_count: "length (filter (\<lambda>x. ti_capability x = UNKNOWN) (target_issues ts))
    = length (filter (\<lambda>t. sc_status (ct_capability t) = UNKNOWN \<or> sc_invalidated_at (ct_capability t) \<noteq> None) ts)"
  by (induction ts) (auto simp: target_issues_def target_issue_of_def effective_capability_def)

lemma issue_reasons: "list_all2 (\<lambda>t x. ti_group_id x = ct_group_id t
      \<and> ti_reason x = (if sc_invalidated_at (ct_capability t) \<noteq> None then TARGET_CAPABILITY_STALE
          else if sc_status (ct_capability t) = DENIED then TARGET_CAPABILITY_DENIED else TARGET_CAPABILITY_UNKNOWN))
    (filter (\<lambda>t. \<not> usable t) ts) (target_issues ts)"
  unfolding issues_usable list_all2_map2
  by (rule list.rel_refl_strong) (simp add: target_issue_of_def effective_capability_def)

lemma preflight_warns: "pr_status (evaluate_preflight i) = WARN \<longleftrightarrow>
    pr_status (evaluate_preflight i) \<noteq> BLOCK \<and> pi_mode i = DRY_RUN \<and> (\<exists>t \<in> set (pi_targets i). \<not> usable t)"
proof -
  have "target_issues (pi_targets i) \<noteq> [] \<longleftrightarrow> (\<exists>t \<in> set (pi_targets i). \<not> usable t)"
    using target_issues_Nil [of "pi_targets i"] by (simp add: effective_usable)
  then show ?thesis
    by (simp add: evaluate_preflight_def Let_def preflight_verdict_def preflight_checks_def)
qed

section \<open>Properties\<close>

text \<open>C32: A preflight BLOCKs exactly when the text is blank or longer than 4096, there is no target, the persisted session is
  missing, not ready, not loaded or restricted, or the run is LIVE and live sends are disabled or some target is not
  ALLOWED or was invalidated since. If it does not BLOCK, it WARNs exactly when the run is a DRY_RUN with such a target,
  and else it is PASS. The counts are those of the targets that are ALLOWED, DENIED, and UNKNOWN or invalidated, and the
  issues list the targets that cannot be sent to, in their order, each with its reason.\<close>

theorem preflight_verdict_correct:
  assumes rep: "rep = run_preflight c mode sid text targets crev trev wall d"
    and ready: "ready \<longleftrightarrow> js_trim text \<noteq> [] \<and> length text \<le> 4096 \<and> targets \<noteq> [] \<and> is_session_sendable (gateway_sessions d) sid"
  shows "(pr_status rep = BLOCK \<longleftrightarrow> \<not> ready
        \<or> mode = LIVE \<and> (\<not> cfg_allow_live_sends c \<or> (\<exists>t \<in> set targets. \<not> usable t)))
    \<and> (pr_status rep = WARN \<longleftrightarrow> ready \<and> mode = DRY_RUN \<and> (\<exists>t \<in> set targets. \<not> usable t))
    \<and> (pr_status rep = PASS \<longleftrightarrow> ready \<and> (mode = LIVE \<longrightarrow> cfg_allow_live_sends c) \<and> (\<forall>t \<in> set targets. usable t))
    \<and> pr_total rep = length targets \<and> pr_allowed rep = length (filter usable targets)
    \<and> pr_denied rep = length (filter (\<lambda>t. sc_status (ct_capability t) = DENIED \<and> sc_invalidated_at (ct_capability t) = None) targets)
    \<and> pr_unknown rep = length (filter (\<lambda>t. sc_status (ct_capability t) = UNKNOWN \<or> sc_invalidated_at (ct_capability t) \<noteq> None) targets)
    \<and> list_all2 (\<lambda>t x. ti_group_id x = ct_group_id t
          \<and> ti_reason x = (if sc_invalidated_at (ct_capability t) \<noteq> None then TARGET_CAPABILITY_STALE
              else if sc_status (ct_capability t) = DENIED then TARGET_CAPABILITY_DENIED else TARGET_CAPABILITY_UNKNOWN))
        (filter (\<lambda>t. \<not> usable t) targets) (pr_issues rep)"
proof -
  let ?i = "\<lparr>pi_mode = mode, pi_text = text, pi_targets = targets,
      pi_session = persisted_session (find_by gs_id sid (gateway_sessions d)),
      pi_live_enabled = cfg_allow_live_sends c, pi_campaign_revision = crev,
      pi_targets_revision = trev, pi_checked_at = wall\<rparr>"
  have rep': "rep = evaluate_preflight ?i" by (simp add: rep run_preflight_def)
  have "session_ready (pi_session ?i) \<longleftrightarrow> is_session_sendable (gateway_sessions d) sid"
    by (cases "find_by gs_id sid (gateway_sessions d)")
      (auto simp: session_ready_def persisted_session_def is_session_sendable_def session_sendable_def)
  then have go: "pr_status rep \<noteq> BLOCK \<longleftrightarrow> ready
      \<and> (mode = LIVE \<longrightarrow> cfg_allow_live_sends c \<and> (\<forall>t \<in> set targets. usable t))"
    unfolding rep' preflight_not_blocked ready by (simp add: text_valid_def effective_usable)
  have warn: "pr_status rep = WARN \<longleftrightarrow> ready \<and> mode = DRY_RUN \<and> (\<exists>t \<in> set targets. \<not> usable t)"
    using preflight_warns [of ?i] go unfolding rep' [symmetric] by auto
  have pass: "pr_status rep = PASS \<longleftrightarrow> pr_status rep \<noteq> BLOCK \<and> pr_status rep \<noteq> WARN" by (cases "pr_status rep") auto
  have counts: "pr_total rep = length targets" "pr_allowed rep = length targets - length (target_issues targets)"
      "pr_denied rep = length (filter (\<lambda>t. ti_capability t = DENIED) (target_issues targets))"
      "pr_unknown rep = length (filter (\<lambda>t. ti_capability t = UNKNOWN) (target_issues targets))"
      "pr_issues rep = target_issues targets"
    by (simp_all add: rep' evaluate_preflight_def Let_def)
  have mode: "mode = DRY_RUN \<longleftrightarrow> mode \<noteq> LIVE" by (cases mode) auto
  show ?thesis
    unfolding counts usable_count denied_count unknown_count
    using go warn pass mode issue_reasons [of targets] by blast
qed

definition sample_target :: campaign_target_dto where
  "sample_target = \<lparr>ct_group_id = ''g1@g.us'', ct_group_name = ''Team'', ct_enabled = True,
     ct_capability = \<lparr>sc_status = ALLOWED, sc_reason = SEND_ALLOWED, sc_checked_at = Some 5,
       sc_invalidated_at = None, sc_revision = 1\<rparr>\<rparr>"

definition ready_db :: db where
  "ready_db = empty_db\<lparr>gateway_sessions := [\<lparr>gs_id = ''s1'', gs_profile = plain_profile, gs_status = ''ready'', gs_engine_loaded = True,
     gs_restriction = None, gs_status_observed_at = 0, gs_restriction_observed_at = 0,
     gs_gateway_updated_at = 0, gs_synced_at = 0, gs_updated_at = 0, gs_snapshot_count = None,
     gs_suspicious_fingerprint = None, gs_suspicious_count = None, gs_suspicious_confirmations = 0\<rparr>]\<rparr>"

lemma preflight_verdict_correct_witness:
  "pr_status (run_preflight open_config LIVE ''s1'' ''hi'' [sample_target] 1 1 9 ready_db) = PASS"
proof -
  have ready: "js_trim ''hi'' \<noteq> []" "is_session_sendable (gateway_sessions ready_db) ''s1''" by code_simp+
  show ?thesis
    using preflight_verdict_correct [OF refl refl, of open_config LIVE "''s1''" "''hi''" "[sample_target]" 1 1 9 ready_db] ready
    by (simp add: sample_target_def usable_def open_config_def)
qed

end
