(* ===== verification/Group_Lists.thy ===== *)
theory Group_Lists
  imports Send_Policy
begin

text \<open>
  Saved group lists: group-list.repository.ts and group-list.service.ts under
  src/src/modules/group-lists. A list has a revision that every change of the row increments and a
  membership revision that only a change of its groups increments; an archived list is a tombstone.
  The unique index on the active names takes the database's lower() as the parameter \<open>low\<close>.
\<close>

section \<open>The repository\<close>

text \<open>23505 on uq_group_lists_active_session_name, or on the primary key of the items.\<close>

datatype list_db_error = NameTaken | DuplicateItem

record list_validation =
  lv_missing :: "string list"
  lv_mismatched :: "string list"

definition validate_groups ::
  "string \<Rightarrow> string list \<Rightarrow> gateway_group table \<Rightarrow> list_validation" where
  "validate_groups sid ids gs =
     \<lparr>lv_missing = filter (\<lambda>i. \<not> (\<exists>g \<in> set gs. gg_id g = i)) ids,
      lv_mismatched = filter (\<lambda>i. (\<exists>g \<in> set gs. gg_id g = i)
        \<and> \<not> (\<exists>g \<in> set gs. gg_id g = i \<and> gg_session_id g = sid)) ids\<rparr>"

definition groups_valid :: "list_validation \<Rightarrow> bool" where
  "groups_valid v \<longleftrightarrow> lv_missing v = [] \<and> lv_mismatched v = []"

definition no_validation :: list_validation where
  "no_validation = \<lparr>lv_missing = [], lv_mismatched = []\<rparr>"

record list_input =
  li_session_id :: string
  li_name :: string
  li_description :: "string option"
  li_group_ids :: "string list"
  li_key :: uuid
  li_hash :: string

record list_result =
  lr_list :: "group_list option"
  lr_created :: bool
  lr_hash :: "string option"
  lr_session_found :: bool
  lr_validation :: list_validation

definition name_taken ::
  "(string \<Rightarrow> string) \<Rightarrow> uuid \<Rightarrow> string \<Rightarrow> string \<Rightarrow> group_list table \<Rightarrow> bool" where
  "name_taken low lid sid name ls \<longleftrightarrow>
     (\<exists>l \<in> set ls. gl_id l \<noteq> lid \<and> gl_session_id l = sid \<and> gl_archived_at l = None
        \<and> low (gl_name l) = low name)"

definition new_list :: "uuid \<Rightarrow> list_input \<Rightarrow> timestamp \<Rightarrow> group_list" where
  "new_list lid i now =
     \<lparr>gl_id = lid, gl_session_id = li_session_id i, gl_name = li_name i,
      gl_description = li_description i, gl_revision = 1, gl_membership_revision = 1,
      gl_create_key = Some (li_key i), gl_create_hash = Some (li_hash i), gl_archived_at = None,
      gl_created_at = now, gl_updated_at = now\<rparr>"

definition list_items :: "uuid \<Rightarrow> string \<Rightarrow> string list \<Rightarrow> group_list_item list" where
  "list_items lid sid ids = map (\<lambda>i. \<lparr>gi_list_id = lid, gi_session_id = sid, gi_group_id = i\<rparr>) ids"

definition find_list_key :: "uuid \<Rightarrow> group_list table \<Rightarrow> group_list option" where
  "find_list_key k ls = List.find (\<lambda>l. gl_create_key l = Some k) ls"

definition create_list ::
  "(string \<Rightarrow> string) \<Rightarrow> uuid \<Rightarrow> list_input \<Rightarrow> timestamp \<Rightarrow> db \<Rightarrow> db \<times> (list_db_error + list_result)" where
  "create_list low lid i now d =
     (case find_list_key (li_key i) (group_lists d) of
        Some l \<Rightarrow> (d, Inr \<lparr>lr_list = Some l, lr_created = False, lr_hash = gl_create_hash l,
          lr_session_found = True, lr_validation = no_validation\<rparr>)
      | None \<Rightarrow>
          if find_by gs_id (li_session_id i) (gateway_sessions d) = None then
            (d, Inr \<lparr>lr_list = None, lr_created = False, lr_hash = None,
              lr_session_found = False, lr_validation = no_validation\<rparr>)
          else let v = validate_groups (li_session_id i) (li_group_ids i) (gateway_groups d) in
            if \<not> groups_valid v then
              (d, Inr \<lparr>lr_list = None, lr_created = False, lr_hash = None,
                lr_session_found = True, lr_validation = v\<rparr>)
            else if name_taken low lid (li_session_id i) (li_name i) (group_lists d) then
              (d, Inl NameTaken)
            else if \<not> distinct (li_group_ids i) then (d, Inl DuplicateItem)
            else (d\<lparr>group_lists := group_lists d @ [new_list lid i now],
                group_list_items := group_list_items d
                  @ list_items lid (li_session_id i) (li_group_ids i)\<rparr>,
              Inr \<lparr>lr_list = Some (new_list lid i now), lr_created = True,
                lr_hash = Some (li_hash i), lr_session_found = True,
                lr_validation = no_validation\<rparr>))"

definition list_update_row ::
  "uuid \<Rightarrow> string \<Rightarrow> string option \<Rightarrow> nat \<Rightarrow> timestamp \<Rightarrow> group_list row_update" where
  "list_update_row lid name desc expected now = sql_where
     (\<lambda>l. gl_id l = lid \<and> gl_archived_at l = None \<and> gl_revision l = expected)
     (\<lambda>l. let changed = (gl_name l, gl_description l) \<noteq> (name, desc) in
        l\<lparr>gl_name := name, gl_description := desc,
          gl_revision := gl_revision l + (if changed then 1 else 0),
          gl_updated_at := (if changed then now else gl_updated_at l)\<rparr>)"

definition update_list ::
  "(string \<Rightarrow> string) \<Rightarrow> uuid \<Rightarrow> string \<Rightarrow> string option \<Rightarrow> nat \<Rightarrow> timestamp \<Rightarrow> db
    \<Rightarrow> db \<times> (list_db_error + group_list option)" where
  "update_list low lid name desc expected now d =
     (case sql_returning (list_update_row lid name desc expected now) (group_lists d) of
        [] \<Rightarrow> (d, Inr None)
      | l # _ \<Rightarrow>
          if name_taken low lid (gl_session_id l) name (group_lists d) then (d, Inl NameTaken)
          else (d\<lparr>group_lists := sql_update (list_update_row lid name desc expected now)
              (group_lists d)\<rparr>, Inr (Some l)))"

definition archive_row :: "uuid \<Rightarrow> nat \<Rightarrow> timestamp \<Rightarrow> group_list row_update" where
  "archive_row lid expected now = sql_where
     (\<lambda>l. gl_id l = lid \<and> gl_archived_at l = None \<and> gl_revision l = expected)
     (\<lambda>l. l\<lparr>gl_archived_at := Some now, gl_revision := gl_revision l + 1, gl_updated_at := now\<rparr>)"

definition archive_list :: "uuid \<Rightarrow> nat \<Rightarrow> timestamp \<Rightarrow> db \<Rightarrow> db \<times> group_list option" where
  "archive_list lid expected now d =
     (d\<lparr>group_lists := sql_update (archive_row lid expected now) (group_lists d)\<rparr>,
      case sql_returning (archive_row lid expected now) (group_lists d) of
        [] \<Rightarrow> None | l # _ \<Rightarrow> Some l)"

text \<open>SELECT group_id ... ORDER BY group_id, and JavaScript's sort of the requested ids.\<close>

definition member_ids :: "uuid \<Rightarrow> group_list_item table \<Rightarrow> string list" where
  "member_ids lid items = sort (map gi_group_id (filter (\<lambda>i. gi_list_id i = lid) items))"

definition find_active_list :: "uuid \<Rightarrow> group_list table \<Rightarrow> group_list option" where
  "find_active_list lid ls = List.find (\<lambda>l. gl_id l = lid \<and> gl_archived_at l = None) ls"

record list_mutation =
  lm_list :: "group_list option"
  lm_groups :: "string list option"
  lm_conflict :: bool
  lm_validation :: list_validation

definition no_mutation :: list_mutation where
  "no_mutation = \<lparr>lm_list = None, lm_groups = None, lm_conflict = False,
     lm_validation = no_validation\<rparr>"

definition touch_row :: "uuid \<Rightarrow> timestamp \<Rightarrow> group_list row_update" where
  "touch_row lid now = sql_where (\<lambda>l. gl_id l = lid)
     (\<lambda>l. l\<lparr>gl_revision := gl_revision l + 1,
        gl_membership_revision := gl_membership_revision l + 1, gl_updated_at := now\<rparr>)"

definition replace_groups ::
  "uuid \<Rightarrow> string list \<Rightarrow> nat \<Rightarrow> nat option \<Rightarrow> timestamp \<Rightarrow> db
    \<Rightarrow> db \<times> (list_db_error + list_mutation)" where
  "replace_groups lid ids expected expected_membership now d =
     (case find_active_list lid (group_lists d) of
        None \<Rightarrow> (d, Inr no_mutation)
      | Some l \<Rightarrow>
          if gl_revision l \<noteq> expected
            \<or> (expected_membership \<noteq> None \<and> Some (gl_membership_revision l) \<noteq> expected_membership)
          then (d, Inr (no_mutation\<lparr>lm_conflict := True\<rparr>))
          else let v = validate_groups (gl_session_id l) ids (gateway_groups d) in
            if \<not> groups_valid v then (d, Inr (no_mutation\<lparr>lm_validation := v\<rparr>))
            else let next = sort ids in
              if member_ids lid (group_list_items d) = next then
                (d, Inr (no_mutation\<lparr>lm_list := Some l, lm_groups := Some next\<rparr>))
              else if \<not> distinct ids then (d, Inl DuplicateItem)
              else let d' = d\<lparr>group_lists := sql_update (touch_row lid now) (group_lists d),
                     group_list_items := sql_delete (\<lambda>i. gi_list_id i = lid) (group_list_items d)
                       @ list_items lid (gl_session_id l) next\<rparr> in
                (d', Inr (no_mutation\<lparr>lm_list := find_by gl_id lid (group_lists d'),
                  lm_groups := Some next\<rparr>)))"

record membership_snapshot =
  msn_id :: uuid
  msn_name :: string
  msn_session_id :: string
  msn_revision :: nat
  msn_membership_revision :: nat
  msn_group_ids :: "string list"

definition lock_membership_snapshot :: "uuid \<Rightarrow> db \<Rightarrow> membership_snapshot option" where
  "lock_membership_snapshot lid d = map_option
     (\<lambda>l. \<lparr>msn_id = gl_id l, msn_name = gl_name l, msn_session_id = gl_session_id l,
        msn_revision = gl_revision l, msn_membership_revision = gl_membership_revision l,
        msn_group_ids = member_ids lid (group_list_items d)\<rparr>)
     (find_active_list lid (group_lists d))"

section \<open>The service\<close>

datatype group_list_error =
    GL_FORBIDDEN | GL_IDEMPOTENCY_KEY_REQUIRED | GL_IDEMPOTENCY_KEY_INVALID
  | GL_GROUP_LIMIT_EXCEEDED | GL_GROUP_DUPLICATE | GL_NAME_INVALID | GL_NAME_CONFLICT
  | GL_SESSION_NOT_FOUND | GL_GROUP_SESSION_MISMATCH nat | GL_GROUP_NOT_FOUND nat
  | GL_IDEMPOTENCY_CONFLICT | GL_IDEMPOTENCY_KEY_RETIRED | GL_NOT_FOUND | GL_ARCHIVED
  | GL_REVISION_CONFLICT nat "nat option" | GL_DATABASE

fun persistence_error :: "list_db_error \<Rightarrow> group_list_error" where
  "persistence_error NameTaken = GL_NAME_CONFLICT"
| "persistence_error DuplicateItem = GL_DATABASE"

definition validate_group_ids :: "string list \<Rightarrow> group_list_error + unit" where
  "validate_group_ids ids =
     or_throw (guard (length ids \<le> 1000) GL_GROUP_LIMIT_EXCEEDED)
       (\<lambda>_. guard (distinct ids) GL_GROUP_DUPLICATE)"

definition throw_group_validation :: "list_validation \<Rightarrow> group_list_error + unit" where
  "throw_group_validation v =
     or_throw (guard (lv_mismatched v = []) (GL_GROUP_SESSION_MISMATCH (length (lv_mismatched v))))
       (\<lambda>_. guard (lv_missing v = []) (GL_GROUP_NOT_FOUND (length (lv_missing v))))"

definition normalize_name :: "string \<Rightarrow> group_list_error + string" where
  "normalize_name s = (if js_trim s = [] then Inl GL_NAME_INVALID else Inr (js_trim s))"

definition normalize_description :: "string option \<Rightarrow> string option" where
  "normalize_description s = (case s of None \<Rightarrow> None
     | Some t \<Rightarrow> if js_trim t = [] then None else Some (js_trim t))"

record list_dto =
  ld_session_id :: string
  ld_name :: string
  ld_description :: "string option"
  ld_group_ids :: "string list option"

text \<open>
  \<open>json_hash\<close> is SHA-256 of JSON.stringify of the four normalized fields, \<open>is_uuid\<close> class-validator's
  isUUID, \<open>lid\<close> the uuid the database generates.
\<close>

definition service_create_list ::
  "runtime_config \<Rightarrow> (string \<times> string \<times> string option \<times> string list \<Rightarrow> string) \<Rightarrow> (string \<Rightarrow> bool)
    \<Rightarrow> (string \<Rightarrow> string) \<Rightarrow> uuid \<Rightarrow> list_dto \<Rightarrow> string option \<Rightarrow> timestamp \<Rightarrow> db
    \<Rightarrow> db \<times> (group_list_error + group_list \<times> bool)" where
  "service_create_list c json_hash is_uuid low lid dto raw_key now d =
     (let key = (case raw_key of None \<Rightarrow> [] | Some k \<Rightarrow> js_trim k);
          ids = (case ld_group_ids dto of None \<Rightarrow> [] | Some l \<Rightarrow> l);
          checks = or_throw (guard (is_allowed c (ld_session_id dto)) GL_FORBIDDEN) (\<lambda>_.
            or_throw (guard (key \<noteq> []) GL_IDEMPOTENCY_KEY_REQUIRED) (\<lambda>_.
            or_throw (guard (is_uuid key) GL_IDEMPOTENCY_KEY_INVALID) (\<lambda>_.
            or_throw (validate_group_ids ids) (\<lambda>_. normalize_name (ld_name dto))))) in
      case checks of Inl e \<Rightarrow> (d, Inl e)
      | Inr name \<Rightarrow>
          let desc = normalize_description (ld_description dto);
              hash = json_hash (ld_session_id dto, name, desc, sort ids);
              (d', res) = create_list low lid
                \<lparr>li_session_id = ld_session_id dto, li_name = name, li_description = desc,
                 li_group_ids = sort ids, li_key = key, li_hash = hash\<rparr> now d in
          (d', case res of Inl e \<Rightarrow> Inl (persistence_error e)
           | Inr r \<Rightarrow> or_throw (guard (lr_session_found r) GL_SESSION_NOT_FOUND) (\<lambda>_.
               or_throw (throw_group_validation (lr_validation r)) (\<lambda>_.
               or_throw (guard (lr_hash r = Some hash) GL_IDEMPOTENCY_CONFLICT) (\<lambda>_.
               (case lr_list r of None \<Rightarrow> Inl GL_DATABASE
                | Some l \<Rightarrow> if gl_archived_at l \<noteq> None then Inl GL_IDEMPOTENCY_KEY_RETIRED
                    else Inr (l, lr_created r)))))))"

definition get_list :: "runtime_config \<Rightarrow> uuid \<Rightarrow> db \<Rightarrow> group_list_error + group_list" where
  "get_list c lid d = (case find_active_list lid (group_lists d) of
     None \<Rightarrow> Inl GL_NOT_FOUND
   | Some l \<Rightarrow> if is_allowed c (gl_session_id l) then Inr l else Inl GL_NOT_FOUND)"

definition get_for_mutation :: "runtime_config \<Rightarrow> uuid \<Rightarrow> db \<Rightarrow> group_list_error + group_list" where
  "get_for_mutation c lid d = (case find_by gl_id lid (group_lists d) of
     None \<Rightarrow> Inl GL_NOT_FOUND
   | Some l \<Rightarrow> if \<not> is_allowed c (gl_session_id l) then Inl GL_NOT_FOUND
       else if gl_archived_at l \<noteq> None then Inl GL_ARCHIVED else Inr l)"

definition assert_expected_revision :: "nat option \<Rightarrow> nat \<Rightarrow> group_list_error + unit" where
  "assert_expected_revision expected current = (case expected of None \<Rightarrow> Inr ()
     | Some e \<Rightarrow> if e = current then Inr () else Inl (GL_REVISION_CONFLICT e (Some current)))"

definition mutation_race :: "runtime_config \<Rightarrow> uuid \<Rightarrow> nat \<Rightarrow> db \<Rightarrow> group_list_error" where
  "mutation_race c lid expected d = (case find_by gl_id lid (group_lists d) of
     None \<Rightarrow> GL_NOT_FOUND
   | Some l \<Rightarrow> if \<not> is_allowed c (gl_session_id l) then GL_NOT_FOUND
       else if gl_archived_at l \<noteq> None then GL_ARCHIVED
       else GL_REVISION_CONFLICT expected (Some (gl_revision l)))"

text \<open>
  The service reads in one statement and changes in another, so another request may commit in
  between: \<open>d\<close> is the state of the first read, \<open>d1\<close> that of the change, \<open>d2\<close> that of a later read.
\<close>

definition service_update_list ::
  "runtime_config \<Rightarrow> (string \<Rightarrow> string) \<Rightarrow> uuid \<Rightarrow> nat option \<Rightarrow> string option \<Rightarrow> string option option
    \<Rightarrow> timestamp \<Rightarrow> db \<Rightarrow> db \<Rightarrow> db \<Rightarrow> db \<times> (group_list_error + group_list)" where
  "service_update_list c low lid expected name desc now d d1 d2 =
     (case or_throw (get_for_mutation c lid d) (\<lambda>current.
        or_throw (assert_expected_revision expected (gl_revision current)) (\<lambda>_.
        or_throw (case name of None \<Rightarrow> Inr (gl_name current) | Some n \<Rightarrow> normalize_name n) (\<lambda>n.
        Inr (current, n, case desc of None \<Rightarrow> gl_description current
          | Some v \<Rightarrow> normalize_description v)))) of
        Inl e \<Rightarrow> (d1, Inl e)
      | Inr (current, n, v) \<Rightarrow>
          let (d', res) = update_list low lid n v (gl_revision current) now d1 in
          (d', case res of Inl e \<Rightarrow> Inl (persistence_error e)
           | Inr None \<Rightarrow> Inl (mutation_race c lid (gl_revision current) d2)
           | Inr (Some l) \<Rightarrow> Inr l))"

definition service_archive_list ::
  "runtime_config \<Rightarrow> uuid \<Rightarrow> nat option \<Rightarrow> timestamp \<Rightarrow> db \<Rightarrow> db \<Rightarrow> db \<Rightarrow> db \<times> (group_list_error + unit)" where
  "service_archive_list c lid expected now d d1 d2 =
     (case find_by gl_id lid (group_lists d) of
        None \<Rightarrow> (d1, Inl GL_NOT_FOUND)
      | Some l \<Rightarrow>
          if \<not> is_allowed c (gl_session_id l) then (d1, Inl GL_NOT_FOUND)
          else if gl_archived_at l \<noteq> None then (d1, Inr ())
          else (case assert_expected_revision expected (gl_revision l) of
            Inl e \<Rightarrow> (d1, Inl e)
          | Inr _ \<Rightarrow>
              let (d', archived) = archive_list lid (gl_revision l) now d1 in
              (d', if archived \<noteq> None then Inr ()
               else case mutation_race c lid (gl_revision l) d2 of
                 GL_ARCHIVED \<Rightarrow> Inr () | e \<Rightarrow> Inl e)))"

definition replace_checks ::
  "runtime_config \<Rightarrow> uuid \<Rightarrow> string list \<Rightarrow> nat option \<Rightarrow> nat option \<Rightarrow> db
    \<Rightarrow> group_list_error + group_list" where
  "replace_checks c lid ids expected membership d =
     or_throw (get_for_mutation c lid d) (\<lambda>current.
     or_throw (assert_expected_revision expected (gl_revision current)) (\<lambda>_.
     or_throw (assert_expected_revision membership (gl_membership_revision current)) (\<lambda>_.
     or_throw (validate_group_ids ids) (\<lambda>_. Inr current))))"

definition replace_outcome ::
  "nat \<Rightarrow> list_db_error + list_mutation \<Rightarrow> group_list_error + group_list \<times> string list" where
  "replace_outcome expected res = (case res of Inl e \<Rightarrow> Inl (persistence_error e)
     | Inr m \<Rightarrow>
         if lm_conflict m then Inl (GL_REVISION_CONFLICT expected None)
         else or_throw (throw_group_validation (lm_validation m)) (\<lambda>_.
           case (lm_list m, lm_groups m) of
             (Some l, Some gs) \<Rightarrow> Inr (l, gs) | _ \<Rightarrow> Inl GL_NOT_FOUND))"

definition service_replace_groups ::
  "runtime_config \<Rightarrow> uuid \<Rightarrow> string list \<Rightarrow> nat option \<Rightarrow> nat option \<Rightarrow> timestamp \<Rightarrow> db \<Rightarrow> db
    \<Rightarrow> db \<times> (group_list_error + group_list \<times> string list)" where
  "service_replace_groups c lid ids expected membership now d d1 =
     (case replace_checks c lid ids expected membership d of
        Inl e \<Rightarrow> (d1, Inl e)
      | Inr current \<Rightarrow>
          let (d', res) = replace_groups lid (sort ids) (gl_revision current) membership now d1 in
          (d', replace_outcome (gl_revision current) res))"

section \<open>Operations as events\<close>

text \<open>
  The writes a list can meet: the four repository operations, and any change of the gateway's group
  table, which the synchronization makes.
\<close>

datatype list_op =
    LCreate uuid list_input timestamp
  | LUpdate uuid string "string option" nat timestamp
  | LArchive uuid nat timestamp
  | LReplace uuid "string list" nat "nat option" timestamp
  | LGateway "gateway_group table"

fun list_apply :: "(string \<Rightarrow> string) \<Rightarrow> list_op \<Rightarrow> db \<Rightarrow> db" where
  "list_apply low (LCreate lid i now) d = fst (create_list low lid i now d)"
| "list_apply low (LUpdate lid name desc expected now) d =
     fst (update_list low lid name desc expected now d)"
| "list_apply low (LArchive lid expected now) d = fst (archive_list lid expected now d)"
| "list_apply low (LReplace lid ids expected membership now) d =
     fst (replace_groups lid ids expected membership now d)"
| "list_apply low (LGateway gs) d = d\<lparr>gateway_groups := gs\<rparr>"

text \<open>A created list gets an identifier no list has, as gen_random_uuid does.\<close>

fun list_op_ok :: "list_op \<Rightarrow> db \<Rightarrow> bool" where
  "list_op_ok (LCreate lid i now) d = (lid \<notin> gl_id ` set (group_lists d))"
| "list_op_ok _ d = True"

primrec list_ops_ok :: "(string \<Rightarrow> string) \<Rightarrow> list_op list \<Rightarrow> db \<Rightarrow> bool" where
  "list_ops_ok low [] d = True"
| "list_ops_ok low (op # ops) d = (list_op_ok op d \<and> list_ops_ok low ops (list_apply low op d))"

lemma create_list_cases:
  assumes "create_list low lid i now d = (d', res)"
  obtains (kept) "d' = d" "\<And>r. res = Inr r \<Longrightarrow> \<not> lr_created r"
  | (inserted) "find_list_key (li_key i) (group_lists d) = None"
      "\<not> name_taken low lid (li_session_id i) (li_name i) (group_lists d)"
      "distinct (li_group_ids i)"
      "d' = d\<lparr>group_lists := group_lists d @ [new_list lid i now],
         group_list_items := group_list_items d
           @ list_items lid (li_session_id i) (li_group_ids i)\<rparr>"
      "res = Inr \<lparr>lr_list = Some (new_list lid i now), lr_created = True,
         lr_hash = Some (li_hash i), lr_session_found = True, lr_validation = no_validation\<rparr>"
proof (cases "find_list_key (li_key i) (group_lists d) = None
    \<and> find_by gs_id (li_session_id i) (gateway_sessions d) \<noteq> None
    \<and> groups_valid (validate_groups (li_session_id i) (li_group_ids i) (gateway_groups d))
    \<and> \<not> name_taken low lid (li_session_id i) (li_name i) (group_lists d) \<and> distinct (li_group_ids i)")
  case True
  then have "create_list low lid i now d = (d\<lparr>group_lists := group_lists d @ [new_list lid i now],
      group_list_items := group_list_items d @ list_items lid (li_session_id i) (li_group_ids i)\<rparr>,
      Inr \<lparr>lr_list = Some (new_list lid i now), lr_created = True, lr_hash = Some (li_hash i),
        lr_session_found = True, lr_validation = no_validation\<rparr>)"
    by (simp add: create_list_def)
  then show ?thesis using True assms by (intro inserted) simp_all
next
  case False
  then have "fst (create_list low lid i now d) = d"
    "\<And>r. snd (create_list low lid i now d) = Inr r \<Longrightarrow> \<not> lr_created r"
    by (auto simp: create_list_def Let_def split: option.splits if_splits)
  then show ?thesis using assms by (intro kept) simp_all
qed

lemma update_list_cases:
  assumes "update_list low lid name desc expected now d = (d', res)"
  obtains (kept) "d' = d" "\<And>l. res \<noteq> Inr (Some l)"
  | (changed) l where "l \<in> set (sql_returning (list_update_row lid name desc expected now) (group_lists d))"
      "\<not> name_taken low lid (gl_session_id l) name (group_lists d)" "res = Inr (Some l)"
      "d' = d\<lparr>group_lists := sql_update (list_update_row lid name desc expected now) (group_lists d)\<rparr>"
proof (cases "sql_returning (list_update_row lid name desc expected now) (group_lists d)")
  case Nil
  then show ?thesis using assms by (intro kept) (auto simp: update_list_def)
next
  case (Cons l ls)
  show ?thesis
  proof (cases "name_taken low lid (gl_session_id l) name (group_lists d)")
    case True
    then show ?thesis using assms Cons by (intro kept) (auto simp: update_list_def)
  next
    case False
    then show ?thesis using assms Cons by (intro changed [of l]) (simp_all add: update_list_def)
  qed
qed

lemma replace_groups_cases:
  assumes "replace_groups lid ids expected membership now d = (d', res)"
  obtains (kept) "d' = d"
      "\<And>m. res = Inr m \<Longrightarrow> lm_list m \<noteq> None \<Longrightarrow>
         find_active_list lid (group_lists d) = lm_list m \<and> lm_groups m = Some (sort ids)
         \<and> member_ids lid (group_list_items d) = sort ids
         \<and> groups_valid (validate_groups (gl_session_id (the (lm_list m))) ids (gateway_groups d))
         \<and> map_option gl_revision (lm_list m) = Some expected
         \<and> (membership \<noteq> None \<longrightarrow> map_option gl_membership_revision (lm_list m) = membership)"
  | (changed) l where "find_active_list lid (group_lists d) = Some l" "gl_revision l = expected"
      "membership \<noteq> None \<Longrightarrow> membership = Some (gl_membership_revision l)"
      "groups_valid (validate_groups (gl_session_id l) ids (gateway_groups d))"
      "member_ids lid (group_list_items d) \<noteq> sort ids" "distinct ids"
      "d' = d\<lparr>group_lists := sql_update (touch_row lid now) (group_lists d),
         group_list_items := sql_delete (\<lambda>i. gi_list_id i = lid) (group_list_items d)
           @ list_items lid (gl_session_id l) (sort ids)\<rparr>"
      "res = Inr (no_mutation\<lparr>lm_list := find_by gl_id lid (group_lists d'), lm_groups := Some (sort ids)\<rparr>)"
proof (cases "find_active_list lid (group_lists d)")
  case None
  then show ?thesis using assms by (intro kept) (auto simp: replace_groups_def no_mutation_def)
next
  case (Some l)
  let ?fenced = "gl_revision l = expected
    \<and> (membership = None \<or> Some (gl_membership_revision l) = membership)
    \<and> groups_valid (validate_groups (gl_session_id l) ids (gateway_groups d))"
  show ?thesis
  proof (cases "?fenced \<and> member_ids lid (group_list_items d) \<noteq> sort ids \<and> distinct ids")
    case True
    then have "replace_groups lid ids expected membership now d =
      (let d' = d\<lparr>group_lists := sql_update (touch_row lid now) (group_lists d),
         group_list_items := sql_delete (\<lambda>i. gi_list_id i = lid) (group_list_items d)
           @ list_items lid (gl_session_id l) (sort ids)\<rparr> in
       (d', Inr (no_mutation\<lparr>lm_list := find_by gl_id lid (group_lists d'), lm_groups := Some (sort ids)\<rparr>)))"
      using Some by (auto simp: replace_groups_def Let_def)
    then show ?thesis using True Some assms by (intro changed [of l]) (auto simp: Let_def)
  next
    case False
    then have "fst (replace_groups lid ids expected membership now d) = d"
      using Some by (auto simp: replace_groups_def Let_def)
    moreover have "\<And>m. snd (replace_groups lid ids expected membership now d) = Inr m \<Longrightarrow> lm_list m \<noteq> None
      \<Longrightarrow> ?fenced \<and> lm_list m = Some l \<and> lm_groups m = Some (sort ids)
        \<and> member_ids lid (group_list_items d) = sort ids"
      using Some False
      by (auto simp: replace_groups_def Let_def no_mutation_def split: if_splits)
    ultimately show ?thesis using Some assms by (intro kept) auto
  qed
qed

lemma sort_sort [simp]: "sort (sort xs) = sort xs"
  by (rule sort_key_id_if_sorted) simp

lemma find_active_list_Some:
  "find_active_list lid ls = Some l \<Longrightarrow> l \<in> set ls \<and> gl_id l = lid \<and> gl_archived_at l = None"
  by (auto simp: find_active_list_def find_Some_iff)

lemma find_list_key_None:
  "find_list_key k ls = None \<longleftrightarrow> (\<forall>l \<in> set ls. gl_create_key l \<noteq> Some k)"
  by (auto simp: find_list_key_def find_None_iff)

lemma member_ids_append:
  "(\<And>i. i \<in> set new \<Longrightarrow> gi_list_id i \<noteq> lid) \<Longrightarrow> member_ids lid (old @ new) = member_ids lid old"
  by (simp add: member_ids_def)

lemma member_ids_list_items [simp]: "member_ids lid (list_items lid sid ids) = sort ids"
  by (simp add: member_ids_def list_items_def comp_def)

lemma list_items_id: "i \<in> set (list_items lid sid ids) \<Longrightarrow> gi_list_id i = lid \<and> gi_session_id i = sid"
  by (auto simp: list_items_def)

lemma member_ids_replace:
  "member_ids lid (sql_delete (\<lambda>i. gi_list_id i = k) items @ list_items k sid ids) =
     (if lid = k then sort ids else member_ids lid items)"
  by (auto simp: member_ids_def list_items_def sql_delete_def comp_def
    intro!: arg_cong [of _ _ "\<lambda>xs. sort (map gi_group_id xs)"] filter_cong)

section \<open>Well-formed lists\<close>

definition lists_ok :: "(string \<Rightarrow> string) \<Rightarrow> db \<Rightarrow> bool" where
  "lists_ok low d \<longleftrightarrow> keyed gl_id (group_lists d) \<and> distinct (group_list_items d)
     \<and> (\<forall>l \<in> set (group_lists d). 1 \<le> gl_membership_revision l
          \<and> gl_membership_revision l \<le> gl_revision l)
     \<and> (\<forall>l \<in> set (group_lists d). \<forall>l' \<in> set (group_lists d).
          gl_create_key l \<noteq> None \<and> gl_create_key l = gl_create_key l' \<longrightarrow> l = l')
     \<and> (\<forall>l \<in> set (group_lists d). \<forall>l' \<in> set (group_lists d).
          gl_archived_at l = None \<and> gl_archived_at l' = None \<and> gl_session_id l = gl_session_id l'
          \<and> low (gl_name l) = low (gl_name l') \<longrightarrow> l = l')
     \<and> (\<forall>i \<in> set (group_list_items d). \<exists>l \<in> set (group_lists d).
          gl_id l = gi_list_id i \<and> gl_session_id l = gi_session_id i)"

lemma lists_okI:
  assumes "keyed gl_id (group_lists d)" "distinct (group_list_items d)"
    and "\<And>l. l \<in> set (group_lists d) \<Longrightarrow>
      1 \<le> gl_membership_revision l \<and> gl_membership_revision l \<le> gl_revision l"
    and "\<And>l l'. l \<in> set (group_lists d) \<Longrightarrow> l' \<in> set (group_lists d) \<Longrightarrow>
      gl_create_key l \<noteq> None \<Longrightarrow> gl_create_key l = gl_create_key l' \<Longrightarrow> gl_id l = gl_id l'"
    and "\<And>l l'. l \<in> set (group_lists d) \<Longrightarrow> l' \<in> set (group_lists d) \<Longrightarrow>
      gl_archived_at l = None \<Longrightarrow> gl_archived_at l' = None \<Longrightarrow> gl_session_id l = gl_session_id l'
      \<Longrightarrow> low (gl_name l) = low (gl_name l') \<Longrightarrow> gl_id l = gl_id l'"
    and "\<And>i. i \<in> set (group_list_items d) \<Longrightarrow> \<exists>l \<in> set (group_lists d).
      gl_id l = gi_list_id i \<and> gl_session_id l = gi_session_id i"
  shows "lists_ok low d"
  unfolding lists_ok_def
  by (intro conjI ballI impI assms(1,2) assms(3) [THEN conjunct1] assms(3) [THEN conjunct2] assms(6);
      (elim conjE)?; (rule keyed_inj [OF assms(1)])?; (erule assms(4,5))?; assumption?)

lemma lists_okD:
  assumes "lists_ok low d" "l \<in> set (group_lists d)" "l' \<in> set (group_lists d)"
  shows "gl_id l = gl_id l' \<Longrightarrow> l = l'"
    and "gl_create_key l \<noteq> None \<Longrightarrow> gl_create_key l = gl_create_key l' \<Longrightarrow> l = l'"
    and "gl_archived_at l = None \<Longrightarrow> gl_archived_at l' = None \<Longrightarrow> gl_session_id l = gl_session_id l'
      \<Longrightarrow> low (gl_name l) = low (gl_name l') \<Longrightarrow> l = l'"
proof -
  have ok: "keyed gl_id (group_lists d)"
      "\<forall>l \<in> set (group_lists d). \<forall>l' \<in> set (group_lists d).
          gl_create_key l \<noteq> None \<and> gl_create_key l = gl_create_key l' \<longrightarrow> l = l'"
      "\<forall>l \<in> set (group_lists d). \<forall>l' \<in> set (group_lists d).
          gl_archived_at l = None \<and> gl_archived_at l' = None \<and> gl_session_id l = gl_session_id l'
          \<and> low (gl_name l) = low (gl_name l') \<longrightarrow> l = l'"
    using assms(1) by (auto simp only: lists_ok_def)
  show "gl_id l = gl_id l' \<Longrightarrow> l = l'" by (rule keyed_inj [OF ok(1) assms(2,3)])
  show "gl_create_key l \<noteq> None \<Longrightarrow> gl_create_key l = gl_create_key l' \<Longrightarrow> l = l'"
    by (rule ok(2) [rule_format, OF assms(2,3)]) simp
  show "gl_archived_at l = None \<Longrightarrow> gl_archived_at l' = None \<Longrightarrow> gl_session_id l = gl_session_id l'
      \<Longrightarrow> low (gl_name l) = low (gl_name l') \<Longrightarrow> l = l'"
    by (rule ok(3) [rule_format, OF assms(2,3)]) simp
qed

text \<open>Every row update of a list keeps its identity, session and key, and never lowers a revision.\<close>

definition list_row_step :: "group_list row_update \<Rightarrow> bool" where
  "list_row_step f \<longleftrightarrow> (\<forall>l l'. f l = Some l' \<longrightarrow>
     gl_id l' = gl_id l \<and> gl_session_id l' = gl_session_id l \<and> gl_create_key l' = gl_create_key l
     \<and> gl_create_hash l' = gl_create_hash l
     \<and> gl_revision l \<le> gl_revision l' \<and> gl_membership_revision l \<le> gl_membership_revision l'
     \<and> gl_membership_revision l' - gl_membership_revision l \<le> gl_revision l' - gl_revision l
     \<and> (gl_revision l' = gl_revision l \<longrightarrow> l' = l)
     \<and> (gl_archived_at l \<noteq> None \<longrightarrow> gl_archived_at l' \<noteq> None))"

lemma list_update_row_step: "list_row_step (list_update_row lid name desc expected now)"
  by (auto simp: list_row_step_def list_update_row_def Let_def)

lemma archive_row_step: "list_row_step (archive_row lid expected now)"
  by (auto simp: list_row_step_def archive_row_def)

lemma touch_row_step: "list_row_step (touch_row lid now)"
  by (auto simp: list_row_step_def touch_row_def)

lemmas list_row_steps = list_update_row_step archive_row_step touch_row_step

lemma list_row_stepD:
  assumes "list_row_step f" "f l = Some l'"
  shows "gl_id l' = gl_id l" "gl_session_id l' = gl_session_id l" "gl_create_key l' = gl_create_key l"
    "gl_create_hash l' = gl_create_hash l"
    "gl_revision l \<le> gl_revision l'" "gl_membership_revision l \<le> gl_membership_revision l'"
    "gl_membership_revision l' - gl_membership_revision l \<le> gl_revision l' - gl_revision l"
    "gl_revision l' = gl_revision l \<Longrightarrow> l' = l"
    "gl_archived_at l \<noteq> None \<Longrightarrow> gl_archived_at l' \<noteq> None"
  using assms unfolding list_row_step_def by blast+

lemma lists_ok_update:
  assumes ok: "lists_ok low d" and step: "list_row_step f"
    and ls: "group_lists d' = sql_update f (group_lists d)"
    and items: "distinct (group_list_items d')"
    and owner: "\<And>i. i \<in> set (group_list_items d') \<Longrightarrow> \<exists>l \<in> set (group_lists d).
      gl_id l = gi_list_id i \<and> gl_session_id l = gi_session_id i"
    and name: "\<And>l l' k. l \<in> set (group_lists d) \<Longrightarrow> f l = Some l' \<Longrightarrow> gl_archived_at l' = None
      \<Longrightarrow> k \<in> set (group_lists d) \<Longrightarrow> gl_archived_at k = None \<Longrightarrow> gl_id k \<noteq> gl_id l
      \<Longrightarrow> gl_session_id k = gl_session_id l \<Longrightarrow> low (gl_name k) \<noteq> low (gl_name l')"
    and single: "\<And>l k. l \<in> set (group_lists d) \<Longrightarrow> k \<in> set (group_lists d) \<Longrightarrow>
      f l \<noteq> None \<Longrightarrow> f k \<noteq> None \<Longrightarrow> gl_id l = gl_id k"
  shows "lists_ok low d'"
proof (rule lists_okI)
  note stepD = list_row_stepD [OF step]
  show "keyed gl_id (group_lists d')"
    using ok stepD(1) unfolding ls lists_ok_def by (simp add: keyed_sql_update)
  show "distinct (group_list_items d')" by (rule items)
  have revs: "1 \<le> gl_membership_revision l \<and> gl_membership_revision l \<le> gl_revision l"
    if "l \<in> set (group_lists d)" for l
    using ok that unfolding lists_ok_def by blast
  show "1 \<le> gl_membership_revision l \<and> gl_membership_revision l \<le> gl_revision l"
    if l: "l \<in> set (group_lists d')" for l
    using l unfolding ls
  proof (cases rule: sql_update_cases)
    case kept
    then show ?thesis using revs by blast
  next
    case (changed l0)
    then show ?thesis using revs [of l0] stepD(5-7) [of l0 l] by linarith
  qed
  have origin: "\<exists>l0 \<in> set (group_lists d). gl_id l = gl_id l0 \<and> gl_session_id l = gl_session_id l0
      \<and> gl_create_key l = gl_create_key l0 \<and> (gl_archived_at l = None \<longrightarrow> gl_archived_at l0 = None)
      \<and> (l = l0 \<or> f l0 = Some l)"
    if l: "l \<in> set (group_lists d')" for l
    using l unfolding ls by (cases rule: sql_update_cases) (use stepD in blast)+
  show "gl_id l = gl_id l'" if "l \<in> set (group_lists d')" "l' \<in> set (group_lists d')"
    "gl_create_key l \<noteq> None" "gl_create_key l = gl_create_key l'" for l l'
    using origin [OF that(1)] origin [OF that(2)] that(3,4) lists_okD(2) [OF ok] by metis
  show "gl_id l = gl_id l'" if l: "l \<in> set (group_lists d')" and l': "l' \<in> set (group_lists d')"
    and active: "gl_archived_at l = None" "gl_archived_at l' = None"
    and same: "gl_session_id l = gl_session_id l'" "low (gl_name l) = low (gl_name l')" for l l'
  proof (rule ccontr)
    assume neq: "gl_id l \<noteq> gl_id l'"
    obtain a where a: "a \<in> set (group_lists d)" "gl_id l = gl_id a" "gl_session_id l = gl_session_id a"
      "gl_archived_at a = None" "l = a \<or> f a = Some l" using origin [OF l] active by blast
    obtain b where b: "b \<in> set (group_lists d)" "gl_id l' = gl_id b" "gl_session_id l' = gl_session_id b"
      "gl_archived_at b = None" "l' = b \<or> f b = Some l'" using origin [OF l'] active by blast
    consider "l = a" "l' = b" | "f a = Some l" "l' = b" | "l = a" "f b = Some l'"
      | "f a = Some l" "f b = Some l'" using a(5) b(5) by blast
    then show False
    proof cases
      case 1
      then show ?thesis using lists_okD(3) [OF ok a(1) b(1)] a b same neq by metis
    next
      case 2
      then show ?thesis using name [OF a(1) _ active(1) b(1,4)] a b same neq by metis
    next
      case 3
      then show ?thesis using name [OF b(1) _ active(2) a(1,4)] a b same neq by metis
    next
      case 4
      then show ?thesis using single [OF a(1) b(1)] a b neq by simp
    qed
  qed
  show "\<exists>l \<in> set (group_lists d'). gl_id l = gi_list_id i \<and> gl_session_id l = gi_session_id i"
    if "i \<in> set (group_list_items d')" for i
  proof -
    obtain l where l: "l \<in> set (group_lists d)" "gl_id l = gi_list_id i" "gl_session_id l = gi_session_id i"
      using owner [OF \<open>i \<in> set (group_list_items d')\<close>] by blast
    show ?thesis
    proof (cases "f l")
      case None
      then show ?thesis using l sql_update_mem_kept [of l "group_lists d" f] unfolding ls by blast
    next
      case (Some l')
      then show ?thesis using l stepD(1,2) sql_update_mem_changed [of l "group_lists d" f l']
        unfolding ls by metis
    qed
  qed
qed

lemma lists_ok_items:
  "lists_ok low d \<Longrightarrow> distinct (group_list_items d)"
  "lists_ok low d \<Longrightarrow> i \<in> set (group_list_items d) \<Longrightarrow> \<exists>l \<in> set (group_lists d).
      gl_id l = gi_list_id i \<and> gl_session_id l = gi_session_id i"
  by (auto simp: lists_ok_def)

lemma distinct_list_items: "distinct ids \<Longrightarrow> distinct (list_items lid sid ids)"
  by (simp add: list_items_def distinct_map inj_on_def)

lemma lists_ok_create:
  assumes ok: "lists_ok low d" and new: "lid \<notin> gl_id ` set (group_lists d)"
    and res: "create_list low lid i now d = (d', res)"
  shows "lists_ok low d'"
  using res
proof (cases rule: create_list_cases)
  case kept
  then show ?thesis using ok by simp
next
  case inserted
  let ?l = "new_list lid i now"
  have fresh_item: "gi_list_id x \<noteq> lid" if "x \<in> set (group_list_items d)" for x
    using lists_ok_items(2) [OF ok that] new by force
  show ?thesis
  proof (rule lists_okI)
    show "keyed gl_id (group_lists d')"
      using ok new unfolding inserted(4) by (simp add: lists_ok_def new_list_def)
    show "distinct (group_list_items d')"
      using lists_ok_items(1) [OF ok] distinct_list_items [OF inserted(3)] fresh_item list_items_id
      unfolding inserted(4) by fastforce
    fix l l'
    assume l: "l \<in> set (group_lists d')"
    show "1 \<le> gl_membership_revision l \<and> gl_membership_revision l \<le> gl_revision l"
      using ok l unfolding inserted(4) by (auto simp: lists_ok_def new_list_def)
    assume l': "l' \<in> set (group_lists d')"
    show "gl_create_key l \<noteq> None \<Longrightarrow> gl_create_key l = gl_create_key l' \<Longrightarrow> gl_id l = gl_id l'"
      using l l' lists_okD(2) [OF ok] inserted(1) unfolding inserted(4)
      by (auto simp: find_list_key_None new_list_def)
    show "gl_archived_at l = None \<Longrightarrow> gl_archived_at l' = None \<Longrightarrow>
        gl_session_id l = gl_session_id l' \<Longrightarrow> low (gl_name l) = low (gl_name l') \<Longrightarrow> gl_id l = gl_id l'"
      using l l' lists_okD(3) [OF ok] inserted(2) unfolding inserted(4)
      by (auto simp: new_list_def name_taken_def)
  next
    fix x
    assume "x \<in> set (group_list_items d')"
    then have "x \<in> set (group_list_items d)
        \<or> gl_id ?l = gi_list_id x \<and> gl_session_id ?l = gi_session_id x"
      unfolding inserted(4) using list_items_id by (fastforce simp: new_list_def)
    then show "\<exists>l \<in> set (group_lists d').
        gl_id l = gi_list_id x \<and> gl_session_id l = gi_session_id x"
      using lists_ok_items(2) [OF ok, of x] unfolding inserted(4) by auto
  qed
qed

lemma lists_ok_list_update:
  assumes ok: "lists_ok low d" and res: "update_list low lid name desc expected now d = (d', res)"
  shows "lists_ok low d'"
  using res
proof (cases rule: update_list_cases)
  case kept
  then show ?thesis using ok by simp
next
  case (changed l)
  let ?f = "list_update_row lid name desc expected now"
  obtain l0 where l0: "l0 \<in> set (group_lists d)" "?f l0 = Some l"
    using changed(1) by (auto simp: set_sql_returning)
  have free: "low (gl_name k) \<noteq> low name" if "k \<in> set (group_lists d)" "gl_archived_at k = None"
    "gl_id k \<noteq> lid" "gl_session_id k = gl_session_id l" for k
    using changed(2) that by (auto simp: name_taken_def)
  show ?thesis
  proof (rule lists_ok_update [OF ok list_update_row_step])
    show "group_lists d' = sql_update ?f (group_lists d)" using changed(4) by simp
    show "distinct (group_list_items d')" using lists_ok_items(1) [OF ok] changed(4) by simp
    show "\<exists>l \<in> set (group_lists d). gl_id l = gi_list_id i \<and> gl_session_id l = gi_session_id i"
      if "i \<in> set (group_list_items d')" for i
      using lists_ok_items(2) [OF ok, of i] that changed(4) by simp
    show "gl_id a = gl_id b" if "?f a \<noteq> None" "?f b \<noteq> None" for a b
      using that by (simp add: list_update_row_def)
    fix a a' k
    assume a: "a \<in> set (group_lists d)" "?f a = Some a'" and k: "k \<in> set (group_lists d)"
      "gl_archived_at k = None" "gl_id k \<noteq> gl_id a" "gl_session_id k = gl_session_id a"
    have id: "gl_id a = lid" "gl_id l0 = lid" "gl_name a' = name" "gl_session_id l = gl_session_id l0"
      using a(2) l0(2) by (auto simp: list_update_row_def Let_def)
    then have "a = l0" using lists_okD(1) [OF ok a(1) l0(1)] by simp
    then show "low (gl_name k) \<noteq> low (gl_name a')" using free [OF k(1,2)] k(3,4) id by simp
  qed
qed

lemma lists_ok_archive: "lists_ok low d \<Longrightarrow> lists_ok low (fst (archive_list lid expected now d))"
  by (rule lists_ok_update [OF _ archive_row_step [of lid expected now]])
    (auto simp: archive_list_def archive_row_def dest: lists_ok_items)

lemma lists_ok_replace:
  assumes ok: "lists_ok low d" and res: "replace_groups lid ids expected membership now d = (d', res)"
  shows "lists_ok low d'"
  using res
proof (cases rule: replace_groups_cases)
  case kept
  then show ?thesis using ok by simp
next
  case (changed l)
  note l = find_active_list_Some [OF changed(1)]
  let ?f = "touch_row lid now"
  show ?thesis
  proof (rule lists_ok_update [OF ok touch_row_step])
    show "group_lists d' = sql_update ?f (group_lists d)" using changed(7) by simp
    show "distinct (group_list_items d')"
      using lists_ok_items(1) [OF ok] distinct_list_items [of "sort ids" lid "gl_session_id l"]
        changed(6,7) list_items_id by (fastforce simp: sql_delete_def)
    show "\<exists>l \<in> set (group_lists d). gl_id l = gi_list_id i \<and> gl_session_id l = gi_session_id i"
      if "i \<in> set (group_list_items d')" for i
    proof (cases "i \<in> set (group_list_items d)")
      case True
      then show ?thesis by (rule lists_ok_items(2) [OF ok])
    next
      case False
      then have "gi_list_id i = lid" "gi_session_id i = gl_session_id l"
        using that changed(7) list_items_id [of i lid "gl_session_id l" "sort ids"] by auto
      then show ?thesis using l by auto
    qed
    show "gl_id a = gl_id b" if "?f a \<noteq> None" "?f b \<noteq> None" for a b
      using that by (simp add: touch_row_def)
    fix a a' k
    assume a: "a \<in> set (group_lists d)" "?f a = Some a'" "gl_archived_at a' = None"
      and k: "k \<in> set (group_lists d)" "gl_archived_at k = None" "gl_id k \<noteq> gl_id a"
      "gl_session_id k = gl_session_id a"
    have "gl_archived_at a = None" "gl_name a' = gl_name a" using a(2,3) by (auto simp: touch_row_def)
    then show "low (gl_name k) \<noteq> low (gl_name a')"
      using lists_okD(3) [OF ok k(1) a(1)] k by auto
  qed
qed

lemma lists_ok_cong:
  "group_lists d' = group_lists d \<Longrightarrow> group_list_items d' = group_list_items d
    \<Longrightarrow> lists_ok low d' = lists_ok low d"
  by (simp only: lists_ok_def)

lemma lists_ok_apply: "lists_ok low d \<Longrightarrow> list_op_ok op d \<Longrightarrow> lists_ok low (list_apply low op d)"
proof (cases op)
  case (LCreate lid i now)
  then show "lists_ok low d \<Longrightarrow> list_op_ok op d \<Longrightarrow> ?thesis"
    using lists_ok_create [OF _ _ prod.collapse [symmetric]] by simp
next
  case (LUpdate lid name desc expected now)
  then show "lists_ok low d \<Longrightarrow> ?thesis"
    using lists_ok_list_update [OF _ prod.collapse [symmetric]] by simp
next
  case (LReplace lid ids expected membership now)
  then show "lists_ok low d \<Longrightarrow> ?thesis"
    using lists_ok_replace [OF _ prod.collapse [symmetric]] by simp
next
  case (LArchive lid expected now)
  then show "lists_ok low d \<Longrightarrow> ?thesis" by (simp add: lists_ok_archive)
next
  case (LGateway gs)
  then show "lists_ok low d \<Longrightarrow> ?thesis"
    using lists_ok_cong [of "d\<lparr>gateway_groups := gs\<rparr>" d low] by simp
qed

section \<open>Properties\<close>

text \<open>
  What a list of \<open>d\<close> can become: its revisions never fall, the revision pins the whole row, the
  membership revision pins the groups, and an archived list is frozen.
\<close>

definition list_pinned :: "db \<Rightarrow> db \<Rightarrow> group_list \<Rightarrow> group_list \<Rightarrow> bool" where
  "list_pinned d d' l l' \<longleftrightarrow> gl_id l' = gl_id l \<and> gl_session_id l' = gl_session_id l
     \<and> gl_create_key l' = gl_create_key l \<and> gl_create_hash l' = gl_create_hash l
     \<and> gl_revision l \<le> gl_revision l' \<and> gl_membership_revision l \<le> gl_membership_revision l'
     \<and> (gl_revision l' = gl_revision l \<longrightarrow> l' = l)
     \<and> (gl_membership_revision l' = gl_membership_revision l \<longrightarrow>
          member_ids (gl_id l) (group_list_items d') = member_ids (gl_id l) (group_list_items d))
     \<and> (gl_archived_at l \<noteq> None \<longrightarrow> l' = l
          \<and> member_ids (gl_id l) (group_list_items d') = member_ids (gl_id l) (group_list_items d))"

lemma list_pinned_refl: "list_pinned d d' l l" if "group_list_items d' = group_list_items d"
  using that by (simp add: list_pinned_def)

lemma list_pinned_trans:
  assumes a: "list_pinned d0 d1 l0 l1" and b: "list_pinned d1 d2 l1 l2"
  shows "list_pinned d0 d2 l0 l2"
proof -
  have ids: "gl_id l1 = gl_id l0" "gl_revision l0 \<le> gl_revision l1" "gl_revision l1 \<le> gl_revision l2"
    "gl_membership_revision l0 \<le> gl_membership_revision l1"
    "gl_membership_revision l1 \<le> gl_membership_revision l2"
    using a b by (auto simp: list_pinned_def)
  have frozen: "gl_archived_at l0 \<noteq> None \<Longrightarrow> l1 = l0 \<and> l2 = l0"
    using a b by (auto simp: list_pinned_def)
  have mid: "gl_revision l2 = gl_revision l0 \<Longrightarrow> gl_revision l1 = gl_revision l0"
    "gl_membership_revision l2 = gl_membership_revision l0
      \<Longrightarrow> gl_membership_revision l1 = gl_membership_revision l0"
    using ids by auto
  have same: "gl_membership_revision l2 = gl_membership_revision l0 \<Longrightarrow>
      member_ids (gl_id l0) (group_list_items d2) = member_ids (gl_id l0) (group_list_items d0)"
    "gl_archived_at l0 \<noteq> None \<Longrightarrow>
      member_ids (gl_id l0) (group_list_items d2) = member_ids (gl_id l0) (group_list_items d0)"
    "gl_revision l2 = gl_revision l0 \<Longrightarrow> l2 = l0"
    using a b mid frozen by (auto simp: list_pinned_def)
  show ?thesis
    unfolding list_pinned_def
    by (intro conjI impI) (use a b ids frozen same in \<open>auto simp: list_pinned_def\<close>)
qed

lemma list_pinned_row:
  assumes "list_row_step f" "l \<in> set (group_lists d)" "group_lists d' = sql_update f (group_lists d)"
    and "group_list_items d' = group_list_items d"
    and "\<And>l'. gl_archived_at l \<noteq> None \<Longrightarrow> f l = Some l' \<Longrightarrow> l' = l"
  shows "\<exists>l' \<in> set (group_lists d'). list_pinned d d' l l'"
proof (cases "f l")
  case None
  then show ?thesis
    using assms(2-4) list_pinned_refl sql_update_mem_kept [of l "group_lists d" f] by metis
next
  case (Some l')
  have "list_pinned d d' l l'"
    using list_row_stepD [OF assms(1) Some] assms(4,5) Some unfolding list_pinned_def by simp
  then show ?thesis using assms(2,3) Some sql_update_mem_changed [of l "group_lists d" f l'] by auto
qed

lemma replace_pinned:
  assumes ok: "lists_ok low d" and res: "replace_groups lid ids expected membership now d = (d', res)"
    and l: "l \<in> set (group_lists d)"
  shows "\<exists>l' \<in> set (group_lists d'). list_pinned d d' l l'"
  using res
proof (cases rule: replace_groups_cases)
  case kept
  then show ?thesis using l list_pinned_refl by blast
next
  case (changed k)
  note k = find_active_list_Some [OF changed(1)]
  show ?thesis
  proof (cases "gl_id l = lid")
    case True
    then have "l = k" using lists_okD(1) [OF ok l, of k] k by simp
    let ?l = "l\<lparr>gl_revision := gl_revision l + 1,
        gl_membership_revision := gl_membership_revision l + 1, gl_updated_at := now\<rparr>"
    have "?l \<in> set (group_lists d')"
      using sql_update_mem_changed [OF l, of "touch_row lid now" ?l] True changed(7)
      by (simp add: touch_row_def)
    moreover have "list_pinned d d' l ?l" using k \<open>l = k\<close> by (simp add: list_pinned_def)
    ultimately show ?thesis by blast
  next
    case False
    then have "l \<in> set (group_lists d')"
      using sql_update_mem_kept [OF l, of "touch_row lid now"] changed(7) by (simp add: touch_row_def)
    moreover have "list_pinned d d' l l"
      using False changed(7) by (simp add: list_pinned_def member_ids_replace)
    ultimately show ?thesis by blast
  qed
qed

lemma create_pinned:
  assumes ok: "lid \<notin> gl_id ` set (group_lists d)" and res: "create_list low lid i now d = (d', res)"
    and l: "l \<in> set (group_lists d)"
  shows "\<exists>l' \<in> set (group_lists d'). list_pinned d d' l l'"
  using res
proof (cases rule: create_list_cases)
  case kept
  then show ?thesis using l list_pinned_refl by blast
next
  case inserted
  have "gl_id l \<noteq> lid" using ok l by blast
  then have "member_ids (gl_id l) (group_list_items d') = member_ids (gl_id l) (group_list_items d)"
    using inserted(4) list_items_id by (simp, subst member_ids_append) fastforce+
  then have "list_pinned d d' l l" by (simp add: list_pinned_def)
  moreover have "l \<in> set (group_lists d')" using l inserted(4) by simp
  ultimately show ?thesis by blast
qed

lemma update_pinned:
  assumes res: "update_list low lid name desc expected now d = (d', res)"
    and l: "l \<in> set (group_lists d)"
  shows "\<exists>l' \<in> set (group_lists d'). list_pinned d d' l l'"
  using res
proof (cases rule: update_list_cases)
  case kept
  then show ?thesis using l list_pinned_refl by blast
next
  case (changed k)
  show ?thesis
    by (rule list_pinned_row [OF list_update_row_step [of lid name desc expected now] l])
      (use changed(4) in \<open>auto simp: list_update_row_def\<close>)
qed

lemma archive_pinned:
  assumes "l \<in> set (group_lists d)" "d' = fst (archive_list lid expected now d)"
  shows "\<exists>l' \<in> set (group_lists d'). list_pinned d d' l l'"
  by (rule list_pinned_row [OF archive_row_step [of lid expected now] assms(1)])
    (use assms(2) in \<open>auto simp: archive_list_def archive_row_def\<close>)

lemma apply_pinned:
  assumes "lists_ok low d" "list_op_ok op d" "l \<in> set (group_lists d)"
  shows "\<exists>l' \<in> set (group_lists (list_apply low op d)). list_pinned d (list_apply low op d) l l'"
proof (cases op)
  case (LCreate lid i now)
  then show ?thesis using create_pinned [OF _ prod.collapse [symmetric] assms(3)] assms(2) by simp
next
  case (LUpdate lid name desc expected now)
  then show ?thesis using update_pinned [OF prod.collapse [symmetric] assms(3)] by simp
next
  case (LArchive lid expected now)
  then show ?thesis using archive_pinned [OF assms(3) refl] by simp
next
  case (LReplace lid ids expected membership now)
  then show ?thesis using replace_pinned [OF assms(1) prod.collapse [symmetric] assms(3)] by simp
next
  case (LGateway gs)
  then show ?thesis using assms(3) list_pinned_refl [of "d\<lparr>gateway_groups := gs\<rparr>" d l] by auto
qed

lemma lists_ok_fold:
  "lists_ok low d \<Longrightarrow> list_ops_ok low ops d \<Longrightarrow> lists_ok low (fold (list_apply low) ops d)"
  by (induction ops arbitrary: d) (simp_all add: lists_ok_apply)

lemma fold_pinned:
  "lists_ok low d \<Longrightarrow> list_ops_ok low ops d \<Longrightarrow> l \<in> set (group_lists d) \<Longrightarrow>
     \<exists>l' \<in> set (group_lists (fold (list_apply low) ops d)).
       list_pinned d (fold (list_apply low) ops d) l l'"
proof (induction ops arbitrary: d l)
  case Nil
  then show ?case using list_pinned_refl by auto
next
  case (Cons op ops)
  let ?d = "list_apply low op d"
  obtain l1 where l1: "l1 \<in> set (group_lists ?d)" "list_pinned d ?d l l1"
    using apply_pinned [OF Cons.prems(1) _ Cons.prems(3), of op] Cons.prems(2) by auto
  have "lists_ok low ?d" using lists_ok_apply Cons.prems by simp
  then show ?case using Cons.IH [of ?d l1] l1 Cons.prems(2) list_pinned_trans by fastforce
qed

text \<open>The key of a list finds the same list after any operation.\<close>

lemma find_list_key_Cons:
  "find_list_key k (a # ls) = (if gl_create_key a = Some k then Some a else find_list_key k ls)"
  by (simp add: find_list_key_def)

lemma find_list_key_update:
  assumes "list_row_step f" "find_list_key k ls = Some l"
  shows "\<exists>l'. find_list_key k (sql_update f ls) = Some l' \<and> gl_id l' = gl_id l
    \<and> gl_create_hash l' = gl_create_hash l"
  using assms(2)
proof (induction ls)
  case (Cons a ls)
  show ?case
  proof (cases "f a")
    case None
    then show ?thesis using Cons by (auto simp: find_list_key_Cons split: if_splits)
  next
    case (Some a')
    note row = list_row_stepD(1,3,4) [OF assms(1) Some]
    show ?thesis using Cons Some row by (simp add: find_list_key_Cons split: if_splits)
  qed
qed (simp add: find_list_key_def)

lemma find_list_key_append:
  "find_list_key k ls = Some l \<Longrightarrow> find_list_key k (ls @ ms) = Some l"
  by (induction ls) (auto simp: find_list_key_def split: if_splits)

lemma find_list_key_snoc:
  "find_list_key k (ls @ [l]) = (case find_list_key k ls of Some l' \<Rightarrow> Some l'
     | None \<Rightarrow> if gl_create_key l = Some k then Some l else None)"
  by (induction ls) (auto simp: find_list_key_def)

lemma find_list_key_apply:
  assumes "find_list_key k (group_lists d) = Some l"
  shows "\<exists>l'. find_list_key k (group_lists (list_apply low op d)) = Some l' \<and> gl_id l' = gl_id l
    \<and> gl_create_hash l' = gl_create_hash l"
proof (cases op)
  case (LCreate lid i now)
  obtain d' res where r: "create_list low lid i now d = (d', res)" by fastforce
  from r show ?thesis
    by (cases rule: create_list_cases) (use LCreate r assms find_list_key_append in auto)
next
  case (LUpdate lid name desc expected now)
  obtain d' res where r: "update_list low lid name desc expected now d = (d', res)" by fastforce
  from r show ?thesis
    by (cases rule: update_list_cases)
      (use LUpdate r assms find_list_key_update [OF list_update_row_step assms] in auto)
next
  case (LArchive lid expected now)
  then show ?thesis using find_list_key_update [OF archive_row_step assms]
    by (simp add: archive_list_def)
next
  case (LReplace lid ids expected membership now)
  obtain d' res where r: "replace_groups lid ids expected membership now d = (d', res)" by fastforce
  from r show ?thesis
    by (cases rule: replace_groups_cases)
      (use LReplace r assms find_list_key_update [OF touch_row_step assms] in auto)
next
  case (LGateway gs)
  then show ?thesis using assms by simp
qed

text \<open>The creation as an instance of the idempotency contract; the result carries the digest it compares.\<close>

definition create_list_digest ::
  "(string \<Rightarrow> string) \<times> uuid \<times> list_input \<times> timestamp \<Rightarrow> db
    \<Rightarrow> db \<times> (list_db_error + list_result) \<times> string" where
  "create_list_digest q d = (case q of (low, lid, i, now) \<Rightarrow>
     (fst (create_list low lid i now d), snd (create_list low lid i now d), li_hash i))"

definition list_input_key :: "(string \<Rightarrow> string) \<times> uuid \<times> list_input \<times> timestamp \<Rightarrow> uuid" where
  "list_input_key q = li_key (fst (snd (snd q)))"

definition list_input_hash ::
  "(string \<Rightarrow> string) \<times> uuid \<times> list_input \<times> timestamp \<Rightarrow> string option" where
  "list_input_hash q = Some (li_hash (fst (snd (snd q))))"

definition result_list :: "(list_db_error + list_result) \<times> string \<Rightarrow> group_list option" where
  "result_list out = (case fst out of Inl _ \<Rightarrow> None | Inr r \<Rightarrow> lr_list r)"

definition result_created :: "(list_db_error + list_result) \<times> string \<Rightarrow> bool" where
  "result_created out = (case fst out of Inl _ \<Rightarrow> False | Inr r \<Rightarrow> lr_created r)"

definition result_conflict :: "(list_db_error + list_result) \<times> string \<Rightarrow> bool" where
  "result_conflict out = (case fst out of Inl _ \<Rightarrow> False | Inr r \<Rightarrow> lr_hash r \<noteq> Some (snd out))"

lemmas create_list_instance = create_list_digest_def list_input_key_def list_input_hash_def
  result_list_def result_created_def result_conflict_def

interpretation list_create: idempotent_create "\<lambda>k (d :: db). find_list_key k (group_lists d)" gl_id
    gl_create_hash create_list_digest list_input_key list_input_hash result_list result_created
    result_conflict "\<lambda>(low, op). list_apply low op"
proof unfold_locales
  fix q l out and d :: db
  assume "find_list_key (list_input_key q) (group_lists d) = Some l" "create_list_digest q d = (d, out)"
  then show "result_list out = Some l \<and> \<not> result_created out
      \<and> (result_conflict out \<longleftrightarrow> gl_create_hash l \<noteq> list_input_hash q)"
    by (auto simp: create_list_instance create_list_def split: prod.splits)
next
  fix q l and d :: db
  assume "find_list_key (list_input_key q) (group_lists d) = Some l"
  then show "fst (create_list_digest q d) = d"
    by (auto simp: create_list_instance create_list_def split: prod.splits)
next
  fix q d d' out
  assume a: "create_list_digest q d = (d', out)" "result_created out"
  obtain low lid i now where q: "q = (low, lid, i, now)" by (cases q)
  obtain res where r: "create_list low lid i now d = (d', res)" and out: "out = (res, li_hash i)"
    using a(1) q by (auto simp: create_list_digest_def prod_eq_iff)
  from r show "\<exists>l. find_list_key (list_input_key q) (group_lists d') = Some l \<and> result_list out = Some l
      \<and> gl_create_hash l = list_input_hash q"
  proof (cases rule: create_list_cases)
    case kept
    then show ?thesis using a(2) out by (auto simp: create_list_instance split: sum.splits)
  next
    case inserted
    then show ?thesis using q out
      by (simp add: create_list_instance find_list_key_snoc new_list_def)
  qed
next
  fix k l w and d :: db
  assume "find_list_key k (group_lists d) = Some l"
  then show "\<exists>l'. find_list_key k (group_lists ((case w of (low, op) \<Rightarrow> list_apply low op) d)) = Some l'
      \<and> gl_id l' = gl_id l \<and> gl_create_hash l' = gl_create_hash l"
    using find_list_key_apply by (cases w) auto
qed

definition sample_list_input :: list_input where
  "sample_list_input = \<lparr>li_session_id = ''s1'', li_name = ''News'', li_description = None,
     li_group_ids = [], li_key = ''k1'', li_hash = ''h1''\<rparr>"

definition sample_group :: "string \<Rightarrow> gateway_group" where
  "sample_group gid = \<lparr>gg_session_id = ''s1'', gg_id = gid, gg_name = gid, gg_participants_count = None,
     gg_is_admin = None, gg_is_read_only = None, gg_is_announce = None, gg_linked_parent_id = None,
     gg_is_active = True, gg_details_synced_at = None, gg_capability = ALLOWED,
     gg_reason = SEND_ALLOWED, gg_checked_at = None, gg_invalidated_at = None, gg_revision = 1,
     gg_attempt_count = 0, gg_next_attempt_at = 0, gg_lease_token = None, gg_lease_expires_at = None,
     gg_refresh_error = None, gg_summary_fingerprint = None, gg_reconciled_fingerprint = None,
     gg_synced_at = 0, gg_updated_at = 0\<rparr>"

definition sample_session :: gateway_session where
  "sample_session = \<lparr>gs_id = ''s1'', gs_profile = plain_profile, gs_status = ''ready'', gs_engine_loaded = True,
     gs_restriction = None, gs_status_observed_at = 0, gs_restriction_observed_at = 0,
     gs_gateway_updated_at = 0, gs_synced_at = 0, gs_updated_at = 0, gs_snapshot_count = None,
     gs_suspicious_fingerprint = None, gs_suspicious_count = None, gs_suspicious_confirmations = 0\<rparr>"

definition sample_lists :: db where
  "sample_lists = empty_db\<lparr>group_lists := [new_list ''l1'' sample_list_input 0],
     gateway_sessions := [sample_session],
     gateway_groups := [sample_group ''g1@g.us'', sample_group ''g2@g.us'']\<rparr>"

lemma sample_lists_ok: "lists_ok low sample_lists"
  by (simp add: lists_ok_def sample_lists_def empty_db_def new_list_def keyed_def)

text \<open>Along any sequence of creations, updates, archivings, membership changes and gateway writes
  the lists stay well formed: idempotency keys identify one list, no two active lists of a session
  have names equal up to case, no list holds a group twice, every membership belongs to a list of its
  session, and the membership revision never exceeds the revision.\<close>

theorem group_lists_well_formed:
  assumes "lists_ok low d" "list_ops_ok low ops d"
  shows "lists_ok low (fold (list_apply low) ops d)"
  by (rule lists_ok_fold [OF assms])

lemma group_lists_well_formed_witness:
  "lists_ok id (fold (list_apply id)
     [LReplace ''l1'' [''g2@g.us'', ''g1@g.us''] 1 (Some 1) 5, LUpdate ''l1'' ''Other'' None 2 6,
      LArchive ''l1'' 3 7] sample_lists)"
  using group_lists_well_formed [OF sample_lists_ok [of id], of
      "[LReplace ''l1'' [''g2@g.us'', ''g1@g.us''] 1 (Some 1) 5, LUpdate ''l1'' ''Other'' None 2 6,
        LArchive ''l1'' 3 7]"]
  by simp

text \<open>C31: A list is never lost, its revisions never fall, an unchanged revision means an unchanged
  row, an unchanged membership revision means unchanged groups, and an archived list with its groups
  is frozen, whatever operations follow. This is what makes the membership revision stored with a
  campaign's targets meaningful.\<close>

theorem group_list_history_pinned:
  assumes "lists_ok low d" "list_ops_ok low ops d" "l \<in> set (group_lists d)"
  shows "\<exists>l' \<in> set (group_lists (fold (list_apply low) ops d)).
    list_pinned d (fold (list_apply low) ops d) l l'"
  by (rule fold_pinned [OF assms])

lemma group_list_history_pinned_witness:
  "\<exists>l' \<in> set (group_lists (list_apply id (LReplace ''l1'' [''g1@g.us''] 1 None 5) sample_lists)).
    list_pinned sample_lists (list_apply id (LReplace ''l1'' [''g1@g.us''] 1 None 5) sample_lists)
      (new_list ''l1'' sample_list_input 0) l'"
  using group_list_history_pinned [OF sample_lists_ok [of id],
      of "[LReplace ''l1'' [''g1@g.us''] 1 None 5]" "new_list ''l1'' sample_list_input 0"]
  by (simp add: sample_lists_def)

text \<open>After a list was created with an idempotency key, and whatever changed since, a creation
  with the same key inserts nothing and returns the same list, with the stored digest equal to the
  request's exactly when the first request had that digest.\<close>

theorem group_list_create_idempotent:
  assumes "create_list low lid i now d = (d1, Inr r)" "lr_created r"
    and "li_key i' = li_key i" "d2 = fold (list_apply low) ops d1"
  shows "fst (create_list low lid' i' now' d2) = d2
    \<and> (\<exists>r'. snd (create_list low lid' i' now' d2) = Inr r' \<and> \<not> lr_created r'
        \<and> map_option gl_id (lr_list r') = Some lid
        \<and> (lr_hash r' = Some (li_hash i') \<longleftrightarrow> li_hash i' = li_hash i))"
proof -
  have "lr_list r = Some (new_list lid i now)"
    using assms(1,2) by (cases rule: create_list_cases) auto
  then show ?thesis
    using list_create.create_twice [of "(low, lid, i, now)" d d1 "(Inr r, li_hash i)" "new_list lid i now"
        "(low, lid', i', now')" d2 "map (Pair low) ops"] assms
    by (cases "snd (create_list low lid' i' now' d2)")
      (auto simp: create_list_instance fold_map comp_def new_list_def)
qed

lemma group_list_create_idempotent_witness:
  "fst (create_list id ''l9'' sample_list_input 9 (list_apply id (LArchive ''l1'' 1 5) sample_lists))
    = list_apply id (LArchive ''l1'' 1 5) sample_lists"
proof -
  have "create_list id ''l1'' sample_list_input 0 (sample_lists\<lparr>group_lists := []\<rparr>) =
      (sample_lists, Inr \<lparr>lr_list = Some (new_list ''l1'' sample_list_input 0),
        lr_created = True, lr_hash = Some ''h1'', lr_session_found = True,
        lr_validation = no_validation\<rparr>)"
    by (simp add: create_list_def find_list_key_def sample_lists_def empty_db_def sample_list_input_def
        sample_session_def validate_groups_def groups_valid_def name_taken_def list_items_def)
  from group_list_create_idempotent [OF this, of sample_list_input _ "[LArchive ''l1'' 1 5]" "''l9''" 9]
  show ?thesis by simp
qed

lemma groups_validD:
  "groups_valid (validate_groups sid ids gs) \<Longrightarrow> i \<in> set ids \<Longrightarrow>
     \<exists>g \<in> set gs. gg_id g = i \<and> gg_session_id g = sid"
  by (auto simp: groups_valid_def validate_groups_def filter_empty_conv)

text \<open>What a replacement that returns a list has done, whether it changed the membership or not.\<close>

lemma replace_groups_result:
  assumes ok: "lists_ok low d"
    and res: "replace_groups lid ids expected membership now d = (d', Inr m)"
    and list: "lm_list m = Some l"
  shows "lm_groups m = Some (sort ids) \<and> member_ids lid (group_list_items d') = sort ids
    \<and> l \<in> set (group_lists d') \<and> gl_id l = lid
    \<and> groups_valid (validate_groups (gl_session_id l) ids (gateway_groups d))
    \<and> (\<exists>l1 \<in> set (group_lists d). gl_id l1 = lid \<and> gl_archived_at l1 = None \<and> gl_revision l1 = expected
        \<and> membership \<in> {None, Some (gl_membership_revision l1)}
        \<and> (let n = if member_ids lid (group_list_items d) = sort ids then 0 else 1 in
             gl_revision l = gl_revision l1 + n
             \<and> gl_membership_revision l = gl_membership_revision l1 + n))
    \<and> (\<forall>k. k \<noteq> lid \<longrightarrow> member_ids k (group_list_items d') = member_ids k (group_list_items d))"
  using res
proof (cases rule: replace_groups_cases)
  case kept
  have found: "find_active_list lid (group_lists d) = Some l" and rest: "lm_groups m = Some (sort ids)"
    "member_ids lid (group_list_items d) = sort ids" "gl_revision l = expected"
    "groups_valid (validate_groups (gl_session_id l) ids (gateway_groups d))"
    "membership \<noteq> None \<longrightarrow> Some (gl_membership_revision l) = membership"
    using kept(2) [of m] list by auto
  show ?thesis using find_active_list_Some [OF found] rest kept(1) by auto
next
  case (changed l0)
  note l0 = find_active_list_Some [OF changed(1)]
  let ?l = "l0\<lparr>gl_revision := gl_revision l0 + 1,
      gl_membership_revision := gl_membership_revision l0 + 1, gl_updated_at := now\<rparr>"
  have "find_by gl_id lid (group_lists d) = Some l0"
    using find_by_keyed [of gl_id "group_lists d" l0] l0 ok by (simp add: lists_ok_def)
  moreover have "find_by gl_id lid (sql_update (touch_row lid now) (group_lists d)) =
      map_option (\<lambda>r. case touch_row lid now r of None \<Rightarrow> r | Some r' \<Rightarrow> r') (find_by gl_id lid (group_lists d))"
    by (rule find_by_sql_update) (auto simp: touch_row_def)
  ultimately have "find_by gl_id lid (group_lists d') = Some ?l"
    using l0 changed(7) by (simp add: touch_row_def sql_where_def)
  then have l: "l = ?l" "l \<in> set (group_lists d')" "lm_groups m = Some (sort ids)"
    using changed(8) list find_by_Some [of gl_id lid "group_lists d'"] by auto
  have members: "member_ids k (group_list_items d') =
      (if k = lid then sort ids else member_ids k (group_list_items d))" for k
    unfolding changed(7) by (simp add: member_ids_replace)
  show ?thesis using l l0 changed(2-5) members
    by (cases membership) (auto simp: Let_def intro!: bexI [of _ l0])
qed

lemma replace_outcome_Inr:
  "replace_outcome expected res = Inr (l, gs) \<longleftrightarrow>
     (\<exists>m. res = Inr m \<and> \<not> lm_conflict m \<and> groups_valid (lm_validation m)
        \<and> lm_list m = Some l \<and> lm_groups m = Some gs)"
  by (auto simp: replace_outcome_def throw_group_validation_def groups_valid_def
      split: sum.splits option.splits)

lemma replace_checks_Inr:
  "replace_checks c lid ids expected membership d = Inr current \<Longrightarrow>
     get_for_mutation c lid d = Inr current \<and> expected \<in> {None, Some (gl_revision current)}
     \<and> length ids \<le> 1000 \<and> distinct ids"
  by (auto simp: replace_checks_def assert_expected_revision_def validate_group_ids_def
      split: option.splits if_splits)

text \<open>A repository call that changed the lists is answered with the list.\<close>

lemma replace_outcome_changed:
  assumes res: "replace_groups lid ids expected membership now d = (d', out)"
    and e: "replace_outcome n out = Inl e"
  shows "d' = d"
  using res
proof (cases rule: replace_groups_cases)
  case (changed l)
  have "map gl_id (group_lists d') = map gl_id (group_lists d)"
    using changed(7) map_sql_update_key [of "touch_row lid now" gl_id] by (simp add: touch_row_def)
  then have "gl_id ` set (group_lists d') = gl_id ` set (group_lists d)" by (metis set_map)
  then have "lid \<in> gl_id ` set (group_lists d')" using find_active_list_Some [OF changed(1)] by auto
  then have "find_by gl_id lid (group_lists d') \<noteq> None" by (simp add: find_by_None)
  then show ?thesis using e changed(8)
    by (auto simp: replace_outcome_def no_mutation_def throw_group_validation_def no_validation_def
        guard_def)
qed

lemma service_replace_cases:
  assumes "service_replace_groups c lid ids expected membership now d d1 = (d', res)"
  obtains (refused) e where "res = Inl e" "d' = d1"
  | (replaced) current :: group_list and m l gs where "expected \<in> {None, Some (gl_revision current)}"
      "length ids \<le> 1000" "distinct ids"
      "replace_groups lid (sort ids) (gl_revision current) membership now d1 = (d', Inr m)"
      "lm_list m = Some l" "lm_groups m = Some gs" "res = Inr (l, gs)"
proof (cases "replace_checks c lid ids expected membership d")
  case (Inl e)
  then show ?thesis using assms by (intro refused) (auto simp: service_replace_groups_def)
next
  case (Inr current)
  then obtain out where out: "replace_groups lid (sort ids) (gl_revision current) membership now d1 = (d', out)"
      "res = replace_outcome (gl_revision current) out"
    using assms by (auto simp: service_replace_groups_def split: prod.splits)
  show ?thesis
  proof (cases res)
    case (Inl e)
    then show ?thesis using replace_outcome_changed [OF out(1)] out(2) by (intro refused) auto
  next
    case res: (Inr r)
    obtain l gs where r: "r = (l, gs)" by (cases r)
    have "replace_outcome (gl_revision current) out = Inr (l, gs)" using out(2) res r by simp
    then obtain m where "out = Inr m" "lm_list m = Some l" "lm_groups m = Some gs"
      unfolding replace_outcome_Inr by blast
    then show ?thesis using res out(1) r replace_checks_Inr [OF Inr] by (intro replaced) auto
  qed
qed

text \<open>Replacing the groups of a list either changes nothing and reports an error, or leaves
  exactly the requested groups in the list, which are at most 1000, distinct and known in the list's
  session; then the revisions the caller gave were current when the change committed, both revisions
  rise by one exactly when the membership changed, and no other list's groups change.\<close>

theorem replace_groups_optimistic:
  assumes "lists_ok low d1"
    and "service_replace_groups c lid ids expected membership now d d1 = (d', res)"
  shows "case res of Inl e \<Rightarrow> d' = d1
    | Inr (l, gs) \<Rightarrow> gs = sort ids \<and> member_ids lid (group_list_items d') = sort ids
        \<and> l \<in> set (group_lists d') \<and> gl_id l = lid \<and> length ids \<le> 1000 \<and> distinct ids
        \<and> (\<forall>i \<in> set ids. \<exists>g \<in> set (gateway_groups d1). gg_id g = i \<and> gg_session_id g = gl_session_id l)
        \<and> (\<exists>l1 \<in> set (group_lists d1). gl_id l1 = lid \<and> gl_archived_at l1 = None
            \<and> expected \<in> {None, Some (gl_revision l1)}
            \<and> membership \<in> {None, Some (gl_membership_revision l1)}
            \<and> (let n = if member_ids lid (group_list_items d1) = sort ids then 0 else 1 in
                 gl_revision l = gl_revision l1 + n
                 \<and> gl_membership_revision l = gl_membership_revision l1 + n))
        \<and> (\<forall>k. k \<noteq> lid \<longrightarrow> member_ids k (group_list_items d') = member_ids k (group_list_items d1))"
  using assms(2)
proof (cases rule: service_replace_cases)
  case (refused e)
  then show ?thesis by simp
next
  case (replaced current m l gs)
  note r = replace_groups_result [OF assms(1) replaced(4,5)]
  have "\<forall>i \<in> set ids. \<exists>g \<in> set (gateway_groups d1). gg_id g = i \<and> gg_session_id g = gl_session_id l"
    using r groups_validD by fastforce
  then show ?thesis using r replaced by (auto simp: Let_def)
qed

lemma replace_groups_optimistic_witness:
  "\<exists>l. snd (service_replace_groups open_config ''l1'' [''g2@g.us'', ''g1@g.us''] (Some 1) None 5
      sample_lists sample_lists) = Inr (l, [''g1@g.us'', ''g2@g.us'']) \<and> gl_membership_revision l = 2"
proof -
  let ?r = "service_replace_groups open_config ''l1'' [''g2@g.us'', ''g1@g.us''] (Some 1) None 5
      sample_lists sample_lists"
  have "\<exists>l gs. snd ?r = Inr (l, gs)"
    by (simp add: service_replace_groups_def replace_checks_def replace_outcome_def get_for_mutation_def sample_lists_def empty_db_def
        new_list_def sample_list_input_def open_config_allows assert_expected_revision_def
        validate_group_ids_def replace_groups_def find_active_list_def validate_groups_def
        groups_valid_def sample_group_def member_ids_def no_mutation_def no_validation_def
        throw_group_validation_def touch_row_def sql_where_def guard_def Let_def list_items_def
        sql_delete_def)
  then obtain l gs where res: "snd ?r = Inr (l, gs)" by blast
  have "[''g1@g.us'', ''g2@g.us''] = sort [''g2@g.us'', ''g1@g.us'']" by simp
  then show ?thesis
    using replace_groups_optimistic [OF sample_lists_ok [of id] prod.collapse [symmetric], of
        open_config "''l1''" "[''g2@g.us'', ''g1@g.us'']" "Some 1" None 5 sample_lists] res
    by (auto simp: sample_lists_def empty_db_def member_ids_def new_list_def Let_def)
qed

end
