(* ===== verification/Campaigns.thy ===== *)
theory Campaigns
  imports Group_Lists Preflight
begin

text \<open>
  Campaigns and their targets: campaign.repository.ts and campaign.service.ts under
  src/src/modules/campaigns. A campaign is editable while it is a DRAFT. Its revision counts the
  changes of content and schedule and its deletion, its targets revision the changes of the target
  set and of the list it was taken from.
\<close>

section \<open>Reading\<close>

definition find_campaign :: "uuid \<Rightarrow> campaign table \<Rightarrow> campaign option" where
  "find_campaign cid cs = List.find (\<lambda>c. c_id c = cid \<and> c_deleted_at c = None) cs"

definition find_campaign_key :: "uuid \<Rightarrow> campaign table \<Rightarrow> campaign option" where
  "find_campaign_key k cs = List.find (\<lambda>c. c_create_key c = Some k) cs"

definition target_dto :: "campaign_target \<Rightarrow> gateway_group \<Rightarrow> campaign_target_dto" where
  "target_dto t g = \<lparr>ct_group_id = tg_group_id t, ct_group_name = gg_name g, ct_enabled = tg_enabled t,
     ct_capability = \<lparr>sc_status = gg_capability g, sc_reason = gg_reason g,
       sc_checked_at = gg_checked_at g, sc_invalidated_at = gg_invalidated_at g,
       sc_revision = gg_revision g\<rparr>\<rparr>"

definition joined_targets ::
  "uuid \<Rightarrow> campaign_target table \<Rightarrow> gateway_group table \<Rightarrow> campaign_target_dto list" where
  "joined_targets cid ts gs = concat (map (\<lambda>t. map (target_dto t)
     (filter (\<lambda>g. gg_session_id g = tg_session_id t \<and> gg_id g = tg_group_id t) gs))
     (filter (\<lambda>t. tg_campaign_id t = cid) ts))"

definition list_targets :: "uuid \<Rightarrow> db \<Rightarrow> campaign_target_dto list" where
  "list_targets cid d = sort_key (\<lambda>t. (ct_group_name t, ct_group_id t))
     (joined_targets cid (campaign_targets d) (gateway_groups d))"

definition get_targets_snapshot ::
  "uuid \<Rightarrow> db \<Rightarrow> (campaign \<times> campaign_target_dto list \<times> target_source option) option" where
  "get_targets_snapshot cid d =
     map_option (\<lambda>c. (c, list_targets cid d, c_source c)) (find_campaign cid (campaigns d))"

definition get_preflight_snapshot :: "uuid \<Rightarrow> db \<Rightarrow> (campaign \<times> campaign_target_dto list) option" where
  "get_preflight_snapshot cid d =
     map_option (\<lambda>c. (c, list_targets cid d)) (find_campaign cid (campaigns d))"

section \<open>Creating and updating\<close>

record campaign_input =
  ci_session_id :: string
  ci_name :: string
  ci_text :: string
  ci_schedule_type :: schedule_type
  ci_scheduled_at :: "timestamp option"
  ci_key :: uuid
  ci_hash :: string

record campaign_result =
  cx_campaign :: campaign
  cx_created :: bool
  cx_hash :: "string option"
  cx_deleted :: bool

definition new_campaign :: "uuid \<Rightarrow> campaign_input \<Rightarrow> timestamp \<Rightarrow> campaign" where
  "new_campaign cid i now =
     \<lparr>c_id = cid, c_session_id = ci_session_id i, c_name = ci_name i, c_text = ci_text i,
      c_schedule_type = ci_schedule_type i, c_scheduled_at = ci_scheduled_at i, c_status = C_DRAFT,
      c_revision = 1, c_targets_revision = 0, c_source = None, c_create_key = Some (ci_key i),
      c_create_hash = Some (ci_hash i), c_deleted_at = None, c_created_at = now, c_updated_at = now\<rparr>"

definition create_campaign ::
  "uuid \<Rightarrow> campaign_input \<Rightarrow> timestamp \<Rightarrow> campaign table \<Rightarrow> campaign table \<times> campaign_result" where
  "create_campaign cid i now cs = (case find_campaign_key (ci_key i) cs of
     Some c \<Rightarrow> (cs, \<lparr>cx_campaign = c, cx_created = False, cx_hash = c_create_hash c,
       cx_deleted = (c_deleted_at c \<noteq> None)\<rparr>)
   | None \<Rightarrow> (cs @ [new_campaign cid i now], \<lparr>cx_campaign = new_campaign cid i now,
       cx_created = True, cx_hash = Some (ci_hash i), cx_deleted = False\<rparr>))"

definition update_campaign_row ::
  "uuid \<Rightarrow> string \<Rightarrow> string \<Rightarrow> schedule_type \<Rightarrow> timestamp option \<Rightarrow> nat \<Rightarrow> timestamp
    \<Rightarrow> campaign row_update" where
  "update_campaign_row cid name txt st at_time expected now = sql_where
     (\<lambda>c. c_id c = cid \<and> c_deleted_at c = None \<and> c_status c = C_DRAFT \<and> c_revision c = expected)
     (\<lambda>c. let changed = (c_name c, c_text c, c_schedule_type c, c_scheduled_at c)
            \<noteq> (name, txt, st, at_time) in
        c\<lparr>c_name := name, c_text := txt, c_schedule_type := st, c_scheduled_at := at_time,
          c_revision := c_revision c + (if changed then 1 else 0),
          c_updated_at := (if changed then now else c_updated_at c)\<rparr>)"

definition update_campaign ::
  "uuid \<Rightarrow> string \<Rightarrow> string \<Rightarrow> schedule_type \<Rightarrow> timestamp option \<Rightarrow> nat \<Rightarrow> timestamp \<Rightarrow> db
    \<Rightarrow> db \<times> campaign option" where
  "update_campaign cid name txt st at_time expected now d =
     (let f = update_campaign_row cid name txt st at_time expected now in
      (d\<lparr>campaigns := sql_update f (campaigns d)\<rparr>,
       case sql_returning f (campaigns d) of [] \<Rightarrow> None | c # _ \<Rightarrow> Some c))"

section \<open>Targets\<close>

definition target_ids :: "uuid \<Rightarrow> campaign_target table \<Rightarrow> string list" where
  "target_ids cid ts = sort (map tg_group_id (filter (\<lambda>t. tg_campaign_id t = cid) ts))"

definition new_targets :: "uuid \<Rightarrow> string \<Rightarrow> string list \<Rightarrow> campaign_target list" where
  "new_targets cid sid ids =
     map (\<lambda>i. \<lparr>tg_campaign_id = cid, tg_session_id = sid, tg_group_id = i, tg_enabled = True\<rparr>) ids"

text \<open>DELETE and INSERT of a changed target set; an unchanged set is left alone.\<close>

definition set_targets ::
  "uuid \<Rightarrow> string \<Rightarrow> string list \<Rightarrow> campaign_target table \<Rightarrow> campaign_target table" where
  "set_targets cid sid ids ts =
     (if target_ids cid ts = ids then ts
      else sql_delete (\<lambda>t. tg_campaign_id t = cid) ts @ new_targets cid sid ids)"

definition source_row :: "uuid \<Rightarrow> target_source option \<Rightarrow> timestamp \<Rightarrow> campaign row_update" where
  "source_row cid src now = sql_where (\<lambda>c. c_id c = cid)
     (\<lambda>c. c\<lparr>c_targets_revision := c_targets_revision c + 1, c_source := src, c_updated_at := now\<rparr>)"

record target_result =
  tr_targets :: "campaign_target_dto list"
  tr_validation :: list_validation
  tr_found :: bool
  tr_editable :: bool
  tr_conflict :: bool
  tr_revision :: nat
  tr_source :: "target_source option"

definition no_targets :: target_result where
  "no_targets = \<lparr>tr_targets = [], tr_validation = no_validation, tr_found = True, tr_editable = True,
     tr_conflict = False, tr_revision = 0, tr_source = None\<rparr>"

text \<open>A repeated identifier violates the primary key of the targets.\<close>

datatype campaign_db_error = DuplicateTarget

definition replace_targets ::
  "uuid \<Rightarrow> string list \<Rightarrow> nat \<Rightarrow> timestamp \<Rightarrow> db \<Rightarrow> db \<times> (campaign_db_error + target_result)" where
  "replace_targets cid ids expected now d = (case find_campaign cid (campaigns d) of
     None \<Rightarrow> (d, Inr (no_targets\<lparr>tr_found := False, tr_editable := False\<rparr>))
   | Some c \<Rightarrow>
       if c_status c \<noteq> C_DRAFT then
         (d, Inr (no_targets\<lparr>tr_editable := False, tr_revision := c_targets_revision c\<rparr>))
       else if c_targets_revision c \<noteq> expected then
         (d, Inr (no_targets\<lparr>tr_conflict := True, tr_revision := c_targets_revision c\<rparr>))
       else let v = validate_groups (c_session_id c) ids (gateway_groups d) in
         if \<not> groups_valid v then
           (d, Inr (no_targets\<lparr>tr_validation := v, tr_revision := c_targets_revision c\<rparr>))
         else if target_ids cid (campaign_targets d) \<noteq> sort ids \<and> \<not> distinct ids then
           (d, Inl DuplicateTarget)
         else let changed = target_ids cid (campaign_targets d) \<noteq> sort ids \<or> c_source c \<noteq> None;
             d' = (if changed then d\<lparr>campaign_targets := set_targets cid (c_session_id c) (sort ids)
                 (campaign_targets d), campaigns := sql_update (source_row cid None now) (campaigns d)\<rparr>
               else d) in
           (d', Inr (no_targets\<lparr>tr_targets := list_targets cid d',
             tr_revision := c_targets_revision c + (if changed then 1 else 0)\<rparr>)))"

record source_result =
  sx_targets :: "campaign_target_dto list"
  sx_revision :: nat
  sx_source :: "target_source option"
  sx_found :: bool
  sx_editable :: bool
  sx_target_conflict :: bool
  sx_source_found :: bool
  sx_session_mismatch :: bool
  sx_source_session :: "string option"
  sx_source_conflict :: bool
  sx_source_revision :: "nat option"

definition empty_source_result :: "campaign option \<Rightarrow> source_result" where
  "empty_source_result c =
     \<lparr>sx_targets = [], sx_revision = (case c of None \<Rightarrow> 0 | Some c \<Rightarrow> c_targets_revision c),
      sx_source = None, sx_found = (c \<noteq> None),
      sx_editable = (case c of None \<Rightarrow> False | Some c \<Rightarrow> c_status c = C_DRAFT),
      sx_target_conflict = False, sx_source_found = False, sx_session_mismatch = False,
      sx_source_session = None, sx_source_conflict = False, sx_source_revision = None\<rparr>"

definition provenance_changed :: "target_source option \<Rightarrow> membership_snapshot \<Rightarrow> bool" where
  "provenance_changed src s = (case src of None \<Rightarrow> True
     | Some t \<Rightarrow> ts_group_list_id t \<noteq> msn_id s
         \<or> ts_membership_revision t \<noteq> msn_membership_revision s)"

definition snapshot_source :: "membership_snapshot \<Rightarrow> timestamp \<Rightarrow> target_source" where
  "snapshot_source s applied = \<lparr>ts_group_list_id = msn_id s, ts_name_snapshot = msn_name s,
     ts_membership_revision = msn_membership_revision s, ts_applied_at = applied\<rparr>"

definition apply_snapshot ::
  "campaign \<Rightarrow> membership_snapshot \<Rightarrow> timestamp \<Rightarrow> db \<Rightarrow> db \<times> source_result" where
  "apply_snapshot c s now d =
     (let changed = target_ids (c_id c) (campaign_targets d) \<noteq> msn_group_ids s
            \<or> provenance_changed (c_source c) s;
          d' = (if changed then d\<lparr>campaign_targets := set_targets (c_id c) (c_session_id c)
              (msn_group_ids s) (campaign_targets d),
              campaigns := sql_update (source_row (c_id c) (Some (snapshot_source s now)) now) (campaigns d)\<rparr>
            else d);
          applied = (if changed then now else case c_source c of None \<Rightarrow> now | Some t \<Rightarrow> ts_applied_at t) in
      (d', (empty_source_result (Some c))\<lparr>sx_targets := list_targets (c_id c) d',
        sx_revision := c_targets_revision c + (if changed then 1 else 0),
        sx_source := Some (snapshot_source s applied), sx_source_found := True\<rparr>))"

definition apply_group_list_targets ::
  "uuid \<Rightarrow> uuid \<Rightarrow> nat \<Rightarrow> nat option \<Rightarrow> timestamp \<Rightarrow> db \<Rightarrow> db \<times> source_result" where
  "apply_group_list_targets cid lid expected membership now d =
     (let found = find_campaign cid (campaigns d); none = empty_source_result found in
      case found of None \<Rightarrow> (d, none)
      | Some c \<Rightarrow>
          if c_status c \<noteq> C_DRAFT then (d, none)
          else if c_targets_revision c \<noteq> expected then (d, none\<lparr>sx_target_conflict := True\<rparr>)
          else (case lock_membership_snapshot lid d of None \<Rightarrow> (d, none)
            | Some s \<Rightarrow>
                if msn_session_id s \<noteq> c_session_id c then
                  (d, none\<lparr>sx_source_found := True, sx_session_mismatch := True,
                    sx_source_session := Some (msn_session_id s)\<rparr>)
                else if membership \<noteq> None \<and> membership \<noteq> Some (msn_membership_revision s) then
                  (d, none\<lparr>sx_source_found := True, sx_source_conflict := True,
                    sx_source_revision := Some (msn_membership_revision s)\<rparr>)
                else apply_snapshot c s now d))"

section \<open>Deleting\<close>

definition non_terminal :: "run_status \<Rightarrow> bool" where
  "non_terminal s \<longleftrightarrow> s \<in> {R_PREPARING, R_BLOCKED, R_SCHEDULED, R_RUNNING, R_PAUSED}"

record deletion_result =
  dx_found :: bool
  dx_already :: bool
  dx_deleted :: bool
  dx_revision_conflict :: bool
  dx_state_conflict :: bool
  dx_run_conflict :: bool
  dx_current :: "(nat \<times> nat \<times> campaign_status) option"

definition empty_deletion :: "bool \<Rightarrow> deletion_result" where
  "empty_deletion found = \<lparr>dx_found = found, dx_already = False, dx_deleted = False,
     dx_revision_conflict = False, dx_state_conflict = False, dx_run_conflict = False,
     dx_current = None\<rparr>"

definition delete_row :: "uuid \<Rightarrow> timestamp \<Rightarrow> campaign row_update" where
  "delete_row cid now = sql_where (\<lambda>c. c_id c = cid \<and> c_deleted_at c = None)
     (\<lambda>c. c\<lparr>c_deleted_at := Some now, c_revision := c_revision c + 1, c_updated_at := now\<rparr>)"

definition delete_campaign ::
  "uuid \<Rightarrow> (string \<Rightarrow> bool) \<Rightarrow> nat \<Rightarrow> nat \<Rightarrow> timestamp \<Rightarrow> db \<Rightarrow> db \<times> deletion_result" where
  "delete_campaign cid allowed expected expected_targets now d =
     (case List.find (\<lambda>c. c_id c = cid \<and> allowed (c_session_id c)) (campaigns d) of
        None \<Rightarrow> (d, empty_deletion False)
      | Some c \<Rightarrow>
          let current = (empty_deletion True)\<lparr>dx_current :=
                Some (c_revision c, c_targets_revision c, c_status c)\<rparr> in
          if c_deleted_at c \<noteq> None then (d, (empty_deletion True)\<lparr>dx_already := True\<rparr>)
          else if c_revision c \<noteq> expected \<or> c_targets_revision c \<noteq> expected_targets then
            (d, current\<lparr>dx_revision_conflict := True\<rparr>)
          else if c_status c \<notin> {C_DRAFT, C_ARCHIVED} then (d, current\<lparr>dx_state_conflict := True\<rparr>)
          else if \<exists>r \<in> set (campaign_runs d). cr_campaign_id r = cid \<and> non_terminal (cr_status r) then
            (d, current\<lparr>dx_run_conflict := True\<rparr>)
          else (d\<lparr>campaigns := sql_update (delete_row cid now) (campaigns d)\<rparr>,
            current\<lparr>dx_deleted := True\<rparr>))"

section \<open>The service\<close>

datatype campaign_error =
    CE_FORBIDDEN | CE_BLANK string | CE_KEY_REQUIRED | CE_KEY_INVALID | CE_SESSION_NOT_FOUND
  | CE_SCHEDULE_REQUIRED | CE_SCHEDULE_INVALID | CE_SCHEDULE_IN_PAST
  | CE_IDEMPOTENCY_CONFLICT | CE_KEY_RETIRED | CE_NOT_FOUND | CE_NOT_EDITABLE
  | CE_REVISION_CONFLICT nat nat | CE_TARGETS_REVISION_CONFLICT nat "nat option"
  | CE_TARGET_LIMIT | CE_TARGET_DUPLICATE | CE_TARGET_SESSION_MISMATCH nat
  | CE_TARGET_NOT_FOUND nat | CE_SOURCE_NOT_FOUND | CE_SOURCE_SESSION_MISMATCH
  | CE_SOURCE_REVISION_CONFLICT "nat option" "nat option"
  | CE_DELETE_REVISION_CONFLICT | CE_DELETE_STATE_CONFLICT | CE_DELETE_RUN_CONFLICT | CE_DATABASE
  | CE_RUN_KEY_REQUIRED | CE_RUN_KEY_INVALID | CE_RUN_IDEMPOTENCY_CONFLICT | CE_RUN_LAUNCH_CONFLICT
  | CE_RUN_REVISION_CONFLICT | CE_RUN_SCHEDULE_EXPIRED | CE_RUN_NOT_FOUND | CE_RUN_STATE_CONFLICT

definition non_blank :: "string \<Rightarrow> string \<Rightarrow> campaign_error + string" where
  "non_blank field s = (if js_trim s = [] then Inl (CE_BLANK field) else Inr (js_trim s))"

text \<open>
  \<open>parse\<close> is the date-time check (the regular expression and class-validator's isISO8601) followed by
  new Date: None for a refused text. \<open>wall\<close> is the clock of the process.
\<close>

definition resolve_schedule ::
  "(string \<Rightarrow> timestamp option) \<Rightarrow> timestamp \<Rightarrow> schedule_type \<Rightarrow> string option
    \<Rightarrow> campaign_error + timestamp option" where
  "resolve_schedule parse wall st v = (case st of IMMEDIATE \<Rightarrow> Inr None
   | ONCE \<Rightarrow>
       if v = None \<or> v = Some [] then Inl CE_SCHEDULE_REQUIRED
       else (case parse (the v) of None \<Rightarrow> Inl CE_SCHEDULE_INVALID
         | Some t \<Rightarrow> if t \<le> wall then Inl CE_SCHEDULE_IN_PAST else Inr (Some t)))"

record campaign_create_dto =
  cdt_session_id :: string
  cdt_name :: string
  cdt_text :: string
  cdt_schedule_type :: schedule_type
  cdt_scheduled_at :: "string option"

type_synonym campaign_payload = "string \<times> string \<times> string \<times> schedule_type \<times> string option"

definition campaign_checks ::
  "runtime_config \<Rightarrow> (string \<Rightarrow> bool) \<Rightarrow> (string \<Rightarrow> timestamp option) \<Rightarrow> campaign_create_dto
    \<Rightarrow> string option \<Rightarrow> timestamp \<Rightarrow> db \<Rightarrow> campaign_error + string \<times> timestamp option \<times> string \<times> string" where
  "campaign_checks c is_uuid parse dto raw_key wall d =
     (let key = (case raw_key of None \<Rightarrow> [] | Some k \<Rightarrow> js_trim k) in
      or_throw (guard (is_allowed c (cdt_session_id dto)) CE_FORBIDDEN) (\<lambda>_.
      or_throw (guard (key \<noteq> []) CE_KEY_REQUIRED) (\<lambda>_.
      or_throw (guard (is_uuid key) CE_KEY_INVALID) (\<lambda>_.
      or_throw (guard (find_by gs_id (cdt_session_id dto) (gateway_sessions d) \<noteq> None)
        CE_SESSION_NOT_FOUND) (\<lambda>_.
      or_throw (resolve_schedule parse wall (cdt_schedule_type dto) (cdt_scheduled_at dto)) (\<lambda>t.
      or_throw (non_blank ''name'' (cdt_name dto)) (\<lambda>n.
      or_throw (non_blank ''text'' (cdt_text dto)) (\<lambda>x. Inr (key, t, n, x)))))))))"

definition service_create_campaign ::
  "runtime_config \<Rightarrow> (string \<Rightarrow> bool) \<Rightarrow> (string \<Rightarrow> timestamp option) \<Rightarrow> (timestamp \<Rightarrow> string)
    \<Rightarrow> (campaign_payload \<Rightarrow> string) \<Rightarrow> uuid \<Rightarrow> campaign_create_dto \<Rightarrow> string option \<Rightarrow> timestamp \<Rightarrow> timestamp
    \<Rightarrow> db \<Rightarrow> db \<times> (campaign_error + campaign \<times> bool)" where
  "service_create_campaign c is_uuid parse to_iso json_hash cid dto raw_key wall now d =
     (case campaign_checks c is_uuid parse dto raw_key wall d of Inl e \<Rightarrow> (d, Inl e)
      | Inr (key, t, n, x) \<Rightarrow>
          let h = json_hash (cdt_session_id dto, n, x, cdt_schedule_type dto, map_option to_iso t);
              (cs, r) = create_campaign cid \<lparr>ci_session_id = cdt_session_id dto, ci_name = n, ci_text = x,
                ci_schedule_type = cdt_schedule_type dto, ci_scheduled_at = t, ci_key = key,
                ci_hash = h\<rparr> now (campaigns d) in
          (d\<lparr>campaigns := cs\<rparr>,
           if cx_hash r \<noteq> Some h then Inl CE_IDEMPOTENCY_CONFLICT
           else if cx_deleted r then Inl CE_KEY_RETIRED
           else Inr (cx_campaign r, cx_created r)))"

definition get_campaign :: "runtime_config \<Rightarrow> uuid \<Rightarrow> db \<Rightarrow> campaign_error + campaign" where
  "get_campaign c cid d = (case find_campaign cid (campaigns d) of None \<Rightarrow> Inl CE_NOT_FOUND
   | Some k \<Rightarrow> if is_allowed c (c_session_id k) then Inr k else Inl CE_NOT_FOUND)"

record campaign_update_dto =
  ud_expected_revision :: "nat option"
  ud_name :: "string option"
  ud_text :: "string option"
  ud_schedule_type :: "schedule_type option"
  ud_scheduled_at :: "string option option"

definition updated_schedule ::
  "(string \<Rightarrow> timestamp option) \<Rightarrow> (timestamp \<Rightarrow> string) \<Rightarrow> timestamp \<Rightarrow> campaign_update_dto \<Rightarrow> campaign
    \<Rightarrow> campaign_error + schedule_type \<times> timestamp option" where
  "updated_schedule parse to_iso wall dto k =
     (if ud_schedule_type dto \<noteq> None \<or> ud_scheduled_at dto \<noteq> None then
        let st = coalesce (ud_schedule_type dto) (c_schedule_type k) in
        or_throw (resolve_schedule parse wall st
          (case ud_scheduled_at dto of None \<Rightarrow> map_option to_iso (c_scheduled_at k) | Some v \<Rightarrow> v))
          (\<lambda>t. Inr (st, t))
      else Inr (c_schedule_type k, c_scheduled_at k))"

definition update_checks ::
  "runtime_config \<Rightarrow> (string \<Rightarrow> timestamp option) \<Rightarrow> (timestamp \<Rightarrow> string) \<Rightarrow> uuid \<Rightarrow> campaign_update_dto
    \<Rightarrow> timestamp \<Rightarrow> db \<Rightarrow> campaign_error + campaign \<times> (schedule_type \<times> timestamp option) \<times> string \<times> string" where
  "update_checks c parse to_iso cid dto wall d =
     or_throw (get_campaign c cid d) (\<lambda>k.
     or_throw (guard (c_status k = C_DRAFT) CE_NOT_EDITABLE) (\<lambda>_.
     or_throw (case ud_expected_revision dto of None \<Rightarrow> Inr ()
       | Some e \<Rightarrow> guard (e = c_revision k) (CE_REVISION_CONFLICT e (c_revision k))) (\<lambda>_.
     or_throw (updated_schedule parse to_iso wall dto k) (\<lambda>s.
     or_throw (case ud_name dto of None \<Rightarrow> Inr (c_name k) | Some n \<Rightarrow> non_blank ''name'' n) (\<lambda>n.
     or_throw (case ud_text dto of None \<Rightarrow> Inr (c_text k) | Some x \<Rightarrow> non_blank ''text'' x) (\<lambda>x.
     Inr (k, s, n, x)))))))"

text \<open>As for group lists: \<open>d\<close> is the state of the first read, \<open>d1\<close> of the write, \<open>d2\<close> of a later read.\<close>

definition service_update_campaign ::
  "runtime_config \<Rightarrow> (string \<Rightarrow> timestamp option) \<Rightarrow> (timestamp \<Rightarrow> string) \<Rightarrow> uuid \<Rightarrow> campaign_update_dto
    \<Rightarrow> timestamp \<Rightarrow> timestamp \<Rightarrow> db \<Rightarrow> db \<Rightarrow> db \<Rightarrow> db \<times> (campaign_error + campaign)" where
  "service_update_campaign c parse to_iso cid dto wall now d d1 d2 =
     (case update_checks c parse to_iso cid dto wall d of Inl e \<Rightarrow> (d1, Inl e)
      | Inr (k, s, n, x) \<Rightarrow>
          let (d', res) = update_campaign cid n x (fst s) (snd s) (c_revision k) now d1 in
          (d', case res of Some u \<Rightarrow> Inr u
           | None \<Rightarrow> Inl (case find_campaign cid (campaigns d2) of
               Some l \<Rightarrow> if c_status l = C_DRAFT then CE_REVISION_CONFLICT (c_revision k) (c_revision l)
                 else CE_NOT_EDITABLE
             | None \<Rightarrow> CE_NOT_EDITABLE)))"

definition editable_targets ::
  "runtime_config \<Rightarrow> uuid \<Rightarrow> nat option \<Rightarrow> db \<Rightarrow> campaign_error + campaign" where
  "editable_targets c cid expected d =
     or_throw (get_campaign c cid d) (\<lambda>k.
     or_throw (guard (c_status k = C_DRAFT) CE_NOT_EDITABLE) (\<lambda>_.
     or_throw (case expected of None \<Rightarrow> Inr () | Some e \<Rightarrow> guard (e = c_targets_revision k)
       (CE_TARGETS_REVISION_CONFLICT e (Some (c_targets_revision k)))) (\<lambda>_. Inr k)))"

type_synonym targets_response = "campaign_target_dto list \<times> nat \<times> target_source option"

definition target_outcome :: "nat \<Rightarrow> campaign_db_error + target_result \<Rightarrow> campaign_error + targets_response" where
  "target_outcome expected res = (case res of Inl _ \<Rightarrow> Inl CE_DATABASE
   | Inr r \<Rightarrow>
       or_throw (guard (tr_found r) CE_NOT_FOUND) (\<lambda>_.
       or_throw (guard (tr_editable r) CE_NOT_EDITABLE) (\<lambda>_.
       or_throw (guard (\<not> tr_conflict r) (CE_TARGETS_REVISION_CONFLICT expected None)) (\<lambda>_.
       or_throw (guard (lv_mismatched (tr_validation r) = [])
         (CE_TARGET_SESSION_MISMATCH (length (lv_mismatched (tr_validation r))))) (\<lambda>_.
       or_throw (guard (lv_missing (tr_validation r) = [])
         (CE_TARGET_NOT_FOUND (length (lv_missing (tr_validation r))))) (\<lambda>_.
       Inr (tr_targets r, tr_revision r, tr_source r)))))))"

definition service_replace_targets ::
  "runtime_config \<Rightarrow> uuid \<Rightarrow> string list \<Rightarrow> nat option \<Rightarrow> timestamp \<Rightarrow> db \<Rightarrow> db
    \<Rightarrow> db \<times> (campaign_error + targets_response)" where
  "service_replace_targets c cid ids expected now d d1 =
     (case or_throw (editable_targets c cid expected d) (\<lambda>k.
        or_throw (guard (length ids \<le> 1000) CE_TARGET_LIMIT) (\<lambda>_.
        or_throw (guard (distinct ids) CE_TARGET_DUPLICATE) (\<lambda>_. Inr k))) of
        Inl e \<Rightarrow> (d1, Inl e)
      | Inr k \<Rightarrow>
          let (d', res) = replace_targets cid ids (c_targets_revision k) now d1 in
          (d', target_outcome (c_targets_revision k) res))"

definition source_outcome ::
  "runtime_config \<Rightarrow> nat \<Rightarrow> nat option \<Rightarrow> source_result \<Rightarrow> campaign_error + targets_response" where
  "source_outcome c expected membership r =
     or_throw (guard (sx_found r) CE_NOT_FOUND) (\<lambda>_.
     or_throw (guard (sx_editable r) CE_NOT_EDITABLE) (\<lambda>_.
     or_throw (guard (\<not> sx_target_conflict r) (CE_TARGETS_REVISION_CONFLICT expected None)) (\<lambda>_.
     or_throw (guard (sx_source_found r) CE_SOURCE_NOT_FOUND) (\<lambda>_.
     or_throw (guard (\<not> sx_session_mismatch r)
       (case sx_source_session r of None \<Rightarrow> CE_SOURCE_NOT_FOUND
        | Some sid \<Rightarrow> if is_allowed c sid then CE_SOURCE_SESSION_MISMATCH else CE_SOURCE_NOT_FOUND)) (\<lambda>_.
     or_throw (guard (\<not> sx_source_conflict r) (CE_SOURCE_REVISION_CONFLICT membership (sx_source_revision r)))
       (\<lambda>_. Inr (sx_targets r, sx_revision r, sx_source r)))))))"

definition service_apply_group_list ::
  "runtime_config \<Rightarrow> uuid \<Rightarrow> uuid \<Rightarrow> nat option \<Rightarrow> nat option \<Rightarrow> timestamp \<Rightarrow> db \<Rightarrow> db
    \<Rightarrow> db \<times> (campaign_error + targets_response)" where
  "service_apply_group_list c cid lid expected membership now d d1 =
     (case editable_targets c cid expected d of Inl e \<Rightarrow> (d1, Inl e)
      | Inr k \<Rightarrow>
          let (d', r) = apply_group_list_targets cid lid (c_targets_revision k) membership now d1 in
          (d', source_outcome c (c_targets_revision k) membership r))"

definition campaign_preflight ::
  "runtime_config \<Rightarrow> uuid \<Rightarrow> execution_mode \<Rightarrow> timestamp \<Rightarrow> db \<Rightarrow> db \<Rightarrow> campaign_error + preflight_report" where
  "campaign_preflight c cid mode wall d d1 = (case get_preflight_snapshot cid d of
     None \<Rightarrow> Inl CE_NOT_FOUND
   | Some (k, ts) \<Rightarrow>
       if \<not> is_allowed c (c_session_id k) then Inl CE_NOT_FOUND
       else Inr (run_preflight c mode (c_session_id k) (c_text k) ts (c_revision k)
         (c_targets_revision k) wall d1))"

definition service_delete_campaign ::
  "runtime_config \<Rightarrow> uuid \<Rightarrow> nat \<Rightarrow> nat \<Rightarrow> timestamp \<Rightarrow> db \<Rightarrow> db \<times> (campaign_error + unit)" where
  "service_delete_campaign c cid expected expected_targets now d =
     (let (d', r) = delete_campaign cid (is_allowed c) expected expected_targets now d in
      (d', if \<not> dx_found r then Inl CE_NOT_FOUND
       else if dx_already r \<or> dx_deleted r then Inr ()
       else if dx_revision_conflict r then Inl CE_DELETE_REVISION_CONFLICT
       else if dx_state_conflict r then Inl CE_DELETE_STATE_CONFLICT
       else if dx_run_conflict r then Inl CE_DELETE_RUN_CONFLICT
       else Inl CE_DELETE_STATE_CONFLICT))"

end
