(* ===== verification/Campaign_Runs.thy ===== *)
theory Campaign_Runs
  imports Campaigns Leases
begin

text \<open>
  Campaign runs: campaign-run.persistence.ts, campaign-run.repository.ts,
  campaign-run-lifecycle.repository.ts, campaign-delivery.repository.ts and campaign-run.service.ts
  under src/src/modules/campaigns. A run is a snapshot of a campaign; it is prepared under a lease,
  started when its schedule is due, materialized into message jobs a few at a time, and finalized
  when its deliveries have settled. A LIVE run moves its campaign's status with it.
\<close>

section \<open>Progress\<close>

record run_progress =
  rp_total :: nat
  rp_pending :: nat
  rp_materialized :: nat
  rp_processing :: nat
  rp_dry_run_completed :: nat
  rp_accepted :: nat
  rp_sent :: nat
  rp_delivered :: nat
  rp_read :: nat
  rp_failed :: nat
  rp_unknown :: nat
  rp_blocked :: nat
  rp_cancelled :: nat

definition status_count :: "uuid \<Rightarrow> delivery table \<Rightarrow> delivery_status \<Rightarrow> nat" where
  "status_count rid ds s = length (filter (\<lambda>x. cd_run_id x = rid \<and> cd_status x = s) ds)"

definition delivery_statuses :: "delivery_status list" where
  "delivery_statuses = [D_PENDING, D_MATERIALIZED, D_PROCESSING, D_DRY_RUN_COMPLETED, D_ACCEPTED, D_SENT,
     D_DELIVERED, D_READ, D_FAILED, D_UNKNOWN, D_BLOCKED_CAPABILITY_CHANGED, D_CANCELLED]"

text \<open>
  \<open>counts\<close> is the jsonb object of the delivery counts by status; a missing status counts 0.
\<close>

definition map_progress :: "(delivery_status \<Rightarrow> nat) \<Rightarrow> run_progress" where
  "map_progress counts =
     \<lparr>rp_total = sum_list (map counts delivery_statuses), rp_pending = counts D_PENDING,
      rp_materialized = counts D_MATERIALIZED, rp_processing = counts D_PROCESSING,
      rp_dry_run_completed = counts D_DRY_RUN_COMPLETED, rp_accepted = counts D_ACCEPTED,
      rp_sent = counts D_SENT, rp_delivered = counts D_DELIVERED, rp_read = counts D_READ,
      rp_failed = counts D_FAILED, rp_unknown = counts D_UNKNOWN,
      rp_blocked = counts D_BLOCKED_CAPABILITY_CHANGED, rp_cancelled = counts D_CANCELLED\<rparr>"

record run_view =
  rw_run :: campaign_run
  rw_targets :: nat
  rw_progress :: run_progress

definition map_run :: "db \<Rightarrow> campaign_run \<Rightarrow> run_view" where
  "map_run d r = \<lparr>rw_run = r, rw_targets = length (filter (\<lambda>t. rt_run_id t = cr_id r) (run_targets d)),
     rw_progress = map_progress (status_count (cr_id r) (deliveries d))\<rparr>"

definition find_run :: "uuid \<Rightarrow> db \<Rightarrow> run_view option" where
  "find_run rid d = map_option (map_run d) (find_by cr_id rid (campaign_runs d))"

section \<open>Snapshots of capabilities\<close>

definition find_target :: "uuid \<Rightarrow> string \<Rightarrow> run_target table \<Rightarrow> run_target option" where
  "find_target rid gid ts = List.find (\<lambda>t. rt_run_id t = rid \<and> rt_group_id t = gid) ts"

definition target_group :: "run_target \<Rightarrow> gateway_group table \<Rightarrow> gateway_group option" where
  "target_group t gs = find_group (rt_session_id t) (rt_group_id t) gs"

definition target_stale :: "uuid \<Rightarrow> db \<Rightarrow> campaign_target_dto \<Rightarrow> bool" where
  "target_stale rid d e = (case find_target rid (ct_group_id e) (run_targets d) of None \<Rightarrow> True
     | Some t \<Rightarrow> (case target_group t (gateway_groups d) of None \<Rightarrow> True
         | Some g \<Rightarrow> gg_revision g \<noteq> sc_revision (ct_capability e)))"

definition capability_snapshot_changed :: "uuid \<Rightarrow> campaign_target_dto list \<Rightarrow> db \<Rightarrow> bool" where
  "capability_snapshot_changed rid observed d \<longleftrightarrow> (\<exists>e \<in> set observed. target_stale rid d e)"

definition preflight_target :: "run_target \<Rightarrow> gateway_group \<Rightarrow> campaign_target_dto" where
  "preflight_target t g = \<lparr>ct_group_id = rt_group_id t, ct_group_name = rt_group_name t,
     ct_enabled = True, ct_capability = \<lparr>sc_status = gg_capability g, sc_reason = gg_reason g,
       sc_checked_at = gg_checked_at g, sc_invalidated_at = gg_invalidated_at g,
       sc_revision = gg_revision g\<rparr>\<rparr>"

definition run_preflight_targets :: "uuid \<Rightarrow> db \<Rightarrow> campaign_target_dto list" where
  "run_preflight_targets rid d = sort_key (\<lambda>t. (ct_group_name t, ct_group_id t))
     (List.map_filter (\<lambda>t. map_option (preflight_target t) (target_group t (gateway_groups d)))
       (filter (\<lambda>t. rt_run_id t = rid) (run_targets d)))"

definition get_preflight_context ::
  "uuid \<Rightarrow> db \<Rightarrow> (campaign_run \<times> campaign_target_dto list) option" where
  "get_preflight_context rid d =
     map_option (\<lambda>r. (r, run_preflight_targets rid d)) (find_by cr_id rid (campaign_runs d))"

text \<open>The UPDATE ... FROM gateway_groups of applyPreflight and resume.\<close>

definition refresh_target_row ::
  "uuid \<Rightarrow> gateway_group table \<Rightarrow> (run_target \<Rightarrow> bool) \<Rightarrow> run_target row_update" where
  "refresh_target_row rid gs keep t = (if rt_run_id t \<noteq> rid \<or> keep t then None
     else map_option (\<lambda>g. t\<lparr>rt_capability := gg_capability g, rt_reason := gg_reason g,
       rt_revision := gg_revision g, rt_checked_at := gg_checked_at g\<rparr>) (target_group t gs))"

text \<open>INSERT ... SELECT ... ON CONFLICT DO NOTHING; \<open>ids\<close> gives the identifier of each new delivery.\<close>

definition new_delivery :: "(string \<Rightarrow> uuid) \<Rightarrow> uuid \<Rightarrow> timestamp \<Rightarrow> string \<Rightarrow> delivery" where
  "new_delivery ids rid now gid =
     \<lparr>cd_id = ids gid, cd_run_id = rid, cd_group_id = gid, cd_job_id = None, cd_status = D_PENDING,
      cd_failure_reason = None, cd_created_at = now, cd_updated_at = now\<rparr>"

definition delivery_key :: "delivery \<Rightarrow> uuid \<times> string" where
  "delivery_key x = (cd_run_id x, cd_group_id x)"

definition insert_deliveries :: "(string \<Rightarrow> uuid) \<Rightarrow> uuid \<Rightarrow> timestamp \<Rightarrow> db \<Rightarrow> delivery table" where
  "insert_deliveries ids rid now d =
     fold (\<lambda>t. sql_insert_new delivery_key (new_delivery ids rid now (rt_group_id t)))
       (filter (\<lambda>t. rt_run_id t = rid) (run_targets d)) (deliveries d)"

section \<open>Creating a run\<close>

definition set_campaign_status ::
  "uuid list \<Rightarrow> campaign_status set \<Rightarrow> campaign_status \<Rightarrow> timestamp \<Rightarrow> campaign row_update" where
  "set_campaign_status ids old new now = sql_where (\<lambda>c. c_id c \<in> set ids \<and> c_status c \<in> old)
     (\<lambda>c. c\<lparr>c_status := new, c_updated_at := now\<rparr>)"

record run_input =
  ri_campaign_id :: uuid
  ri_key :: string
  ri_mode :: execution_mode
  ri_expected_revision :: "nat option"
  ri_expected_targets :: "nat option"

record run_result =
  rx_run :: "campaign_run option"
  rx_created :: bool
  rx_found :: bool
  rx_conflict :: bool
  rx_not_launchable :: bool
  rx_revision_conflict :: bool
  rx_expired :: bool
  rx_current :: "(nat \<times> nat) option"

definition empty_run_result :: "bool \<Rightarrow> run_result" where
  "empty_run_result found = \<lparr>rx_run = None, rx_created = False, rx_found = found, rx_conflict = False,
     rx_not_launchable = False, rx_revision_conflict = False, rx_expired = False, rx_current = None\<rparr>"

definition run_time :: "campaign \<Rightarrow> timestamp \<Rightarrow> timestamp" where
  "run_time c wall = (if c_schedule_type c = ONCE then coalesce (c_scheduled_at c) wall else wall)"

definition new_run :: "uuid \<Rightarrow> run_input \<Rightarrow> campaign \<Rightarrow> timestamp \<Rightarrow> timestamp \<Rightarrow> campaign_run" where
  "new_run rid i c wall now =
     \<lparr>cr_id = rid, cr_campaign_id = c_id c, cr_session_id = c_session_id c, cr_key = ri_key i,
      cr_mode = ri_mode i, cr_status = R_PREPARING, cr_reason = None, cr_text = c_text c,
      cr_campaign_revision = c_revision c, cr_targets_revision = c_targets_revision c,
      cr_source = c_source c, cr_report = None, cr_scheduled_at = run_time c wall,
      cr_started_at = None, cr_completed_at = None, cr_created_at = now, cr_updated_at = now,
      cr_attempt_count = 0, cr_next_attempt_at = now, cr_lease_token = None,
      cr_lease_expires_at = None, cr_error = None\<rparr>"

definition snapshot_target :: "uuid \<Rightarrow> campaign_target \<Rightarrow> gateway_group \<Rightarrow> run_target" where
  "snapshot_target rid t g = \<lparr>rt_run_id = rid, rt_session_id = tg_session_id t,
     rt_group_id = tg_group_id t, rt_group_name = gg_name g, rt_capability = gg_capability g,
     rt_reason = gg_reason g, rt_revision = gg_revision g, rt_checked_at = gg_checked_at g\<rparr>"

definition snapshot_targets :: "uuid \<Rightarrow> uuid \<Rightarrow> db \<Rightarrow> run_target list" where
  "snapshot_targets rid cid d = List.map_filter
     (\<lambda>t. map_option (snapshot_target rid t)
       (find_group (tg_session_id t) (tg_group_id t) (gateway_groups d)))
     (filter (\<lambda>t. tg_campaign_id t = cid \<and> tg_enabled t) (campaign_targets d))"

definition find_run_key :: "uuid \<Rightarrow> string \<Rightarrow> campaign_run table \<Rightarrow> campaign_run option" where
  "find_run_key cid k rs = List.find (\<lambda>r. cr_campaign_id r = cid \<and> cr_key r = k) rs"

text \<open>
  The row of the campaign stays locked for the transaction, so the ON CONFLICT of the INSERT finds
  nothing the two reads before it did not find.
\<close>

definition create_run ::
  "uuid \<Rightarrow> run_input \<Rightarrow> timestamp \<Rightarrow> timestamp \<Rightarrow> db \<Rightarrow> db \<times> run_result" where
  "create_run rid i wall now d = (case find_campaign (ri_campaign_id i) (campaigns d) of
     None \<Rightarrow> (d, empty_run_result False)
   | Some c \<Rightarrow>
       let none = empty_run_result True in
       case find_run_key (c_id c) (ri_key i) (campaign_runs d) of
         Some r \<Rightarrow> (d, none\<lparr>rx_run := Some r, rx_conflict := (cr_mode r \<noteq> ri_mode i)\<rparr>)
       | None \<Rightarrow>
           if \<exists>r \<in> set (campaign_runs d). cr_campaign_id r = c_id c \<and> cr_mode r = LIVE then
             (d, none\<lparr>rx_not_launchable := True\<rparr>)
           else if ri_expected_revision i \<notin> {None, Some (c_revision c)}
             \<or> ri_expected_targets i \<notin> {None, Some (c_targets_revision c)} then
             (d, none\<lparr>rx_revision_conflict := True,
               rx_current := Some (c_revision c, c_targets_revision c)\<rparr>)
           else if c_status c \<noteq> C_DRAFT then (d, none\<lparr>rx_not_launchable := True\<rparr>)
           else if ri_mode i = LIVE \<and> c_schedule_type c = ONCE
             \<and> (\<exists>t. c_scheduled_at c = Some t \<and> t \<le> wall) then (d, none\<lparr>rx_expired := True\<rparr>)
           else (d\<lparr>campaign_runs := campaign_runs d @ [new_run rid i c wall now],
               run_targets := run_targets d @ snapshot_targets rid (c_id c) d,
               campaigns := (if ri_mode i = LIVE
                 then sql_update (set_campaign_status [c_id c] {C_DRAFT} C_ACTIVE now) (campaigns d)
                 else campaigns d)\<rparr>,
             none\<lparr>rx_run := Some (new_run rid i c wall now), rx_created := True\<rparr>))"

section \<open>Preparing a run\<close>

definition preparation_ready :: "timestamp \<Rightarrow> campaign_run \<Rightarrow> bool" where
  "preparation_ready now r \<longleftrightarrow> cr_status r = R_PREPARING \<and> cr_next_attempt_at r \<le> now
     \<and> cr_attempt_count r < 3 \<and> (cr_lease_token r = None \<or> null_before (cr_lease_expires_at r) now)"

definition list_preparing :: "nat \<Rightarrow> timestamp \<Rightarrow> db \<Rightarrow> uuid list" where
  "list_preparing limit now d = map cr_id
     (sql_top limit (\<lambda>r. (cr_next_attempt_at r, cr_created_at r)) (preparation_ready now) (campaign_runs d))"

definition claim_preparation_row :: "uuid \<Rightarrow> uuid \<Rightarrow> timestamp \<Rightarrow> campaign_run row_update" where
  "claim_preparation_row rid tok now = sql_where (\<lambda>r. cr_id r = rid \<and> preparation_ready now r)
     (\<lambda>r. r\<lparr>cr_attempt_count := cr_attempt_count r + 1, cr_lease_token := Some tok,
        cr_lease_expires_at := Some (now + lease_ttl), cr_error := None, cr_updated_at := now\<rparr>)"

definition claim_preparation :: "uuid \<Rightarrow> uuid \<Rightarrow> timestamp \<Rightarrow> db \<Rightarrow> db \<times> (uuid \<times> nat) option" where
  "claim_preparation rid tok now d =
     (d\<lparr>campaign_runs := sql_update (claim_preparation_row rid tok now) (campaign_runs d)\<rparr>,
      case sql_returning (claim_preparation_row rid tok now) (campaign_runs d) of
        [] \<Rightarrow> None | r # _ \<Rightarrow> Some (tok, cr_attempt_count r))"

definition recovered_error :: string where
  "recovered_error = ''Recovered expired campaign preparation lease''"

definition recover_preparation_row :: "timestamp \<Rightarrow> campaign_run row_update" where
  "recover_preparation_row now = sql_where
     (\<lambda>r. cr_status r = R_PREPARING
        \<and> (cr_lease_token r \<noteq> None \<and> null_before (cr_lease_expires_at r) now
          \<or> cr_lease_token r = None \<and> 3 \<le> cr_attempt_count r))
     (\<lambda>r. let exhausted = 3 \<le> cr_attempt_count r in
        r\<lparr>cr_status := (if exhausted then R_FAILED else R_PREPARING),
          cr_reason := (if exhausted then Some PREPARATION_FAILED else cr_reason r),
          cr_next_attempt_at := now, cr_lease_token := None, cr_lease_expires_at := None,
          cr_error := Some recovered_error,
          cr_completed_at := (if exhausted then Some now else cr_completed_at r), cr_updated_at := now\<rparr>)"

definition failed_live :: "campaign_run list \<Rightarrow> uuid list" where
  "failed_live rs = map cr_campaign_id (filter (\<lambda>r. cr_mode r = LIVE \<and> cr_status r = R_FAILED) rs)"

definition archive_campaigns :: "uuid list \<Rightarrow> timestamp \<Rightarrow> campaign table \<Rightarrow> campaign table" where
  "archive_campaigns ids now = sql_update (set_campaign_status ids {C_ACTIVE, C_PAUSED} C_ARCHIVED now)"

definition recover_expired_preparations :: "timestamp \<Rightarrow> db \<Rightarrow> db \<times> nat" where
  "recover_expired_preparations now d =
     (let rows = sql_returning (recover_preparation_row now) (campaign_runs d) in
      (d\<lparr>campaign_runs := sql_update (recover_preparation_row now) (campaign_runs d),
         campaigns := archive_campaigns (failed_live rows) now (campaigns d)\<rparr>, length rows))"

definition preparation_owned :: "uuid \<Rightarrow> uuid \<Rightarrow> timestamp \<Rightarrow> campaign_run \<Rightarrow> bool" where
  "preparation_owned rid tok now r \<longleftrightarrow> cr_id r = rid \<and> cr_status r = R_PREPARING
     \<and> cr_lease_token r = Some tok \<and> null_after (cr_lease_expires_at r) now"

text \<open>
  The ways applyPreflight and failPreparationAttempt write the run they own. applyPreflight checks the
  ownership when it locks the row; its later statements name the row by its primary key.
\<close>

datatype preparation_outcome =
    Stale | Blocked preflight_report | Prepared preflight_report bool | Failed string

definition prepare_row ::
  "uuid \<Rightarrow> preparation_outcome \<Rightarrow> uuid \<Rightarrow> timestamp \<Rightarrow> campaign_run row_update" where
  "prepare_row rid out tok now = sql_where (preparation_owned rid tok now)
     (\<lambda>r. (case out of
        Stale \<Rightarrow> r\<lparr>cr_next_attempt_at := now, cr_attempt_count := cr_attempt_count r - 1\<rparr>
      | Blocked report \<Rightarrow> r\<lparr>cr_status := R_BLOCKED, cr_reason := Some PREFLIGHT_BLOCKED,
          cr_report := Some report\<rparr>
      | Prepared report starts \<Rightarrow> r\<lparr>cr_status := (if starts then R_RUNNING else R_SCHEDULED),
          cr_reason := None, cr_report := Some report,
          cr_started_at := (if starts then Some now else None)\<rparr>
      | Failed e \<Rightarrow> (let exhausted = 3 \<le> cr_attempt_count r in
          r\<lparr>cr_status := (if exhausted then R_FAILED else R_PREPARING),
            cr_reason := (if exhausted then Some PREPARATION_FAILED else cr_reason r),
            cr_error := Some e,
            cr_next_attempt_at := (if exhausted then cr_next_attempt_at r
              else now + seconds (backoff_seconds (cr_attempt_count r))),
            cr_completed_at := (if exhausted then Some now else cr_completed_at r)\<rparr>))
        \<lparr>cr_lease_token := None, cr_lease_expires_at := None, cr_updated_at := now\<rparr>)"

datatype apply_result = APPLIED | STALE_INPUT | LOST_OWNERSHIP

definition apply_preflight ::
  "(string \<Rightarrow> uuid) \<Rightarrow> uuid \<Rightarrow> uuid \<Rightarrow> preflight_report \<Rightarrow> campaign_target_dto list \<Rightarrow> timestamp
    \<Rightarrow> timestamp \<Rightarrow> db \<Rightarrow> db \<times> apply_result" where
  "apply_preflight ids rid tok report observed wall now d =
     (case List.find (preparation_owned rid tok now) (campaign_runs d) of
        None \<Rightarrow> (d, LOST_OWNERSHIP)
      | Some r \<Rightarrow>
          if capability_snapshot_changed rid observed d then
            (d\<lparr>campaign_runs := sql_update (prepare_row rid Stale tok now) (campaign_runs d)\<rparr>, STALE_INPUT)
          else if pr_status report = BLOCK then
            (d\<lparr>campaign_runs := sql_update (prepare_row rid (Blocked report) tok now) (campaign_runs d)\<rparr>,
             APPLIED)
          else
            (d\<lparr>run_targets := sql_update (refresh_target_row rid (gateway_groups d) (\<lambda>_. False)) (run_targets d),
               deliveries := insert_deliveries ids rid now d,
               campaign_runs := sql_update (prepare_row rid (Prepared report (cr_scheduled_at r \<le> wall)) tok now)
                 (campaign_runs d)\<rparr>, APPLIED))"

datatype preparation_result = StillPreparing | PreparationFailed | LostOwnership

definition fail_preparation_attempt ::
  "uuid \<Rightarrow> uuid \<Rightarrow> string \<Rightarrow> timestamp \<Rightarrow> db \<Rightarrow> db \<times> preparation_result" where
  "fail_preparation_attempt rid tok e now d =
     (let f = prepare_row rid (Failed e) tok now; rows = sql_returning f (campaign_runs d) in
      (d\<lparr>campaign_runs := sql_update f (campaign_runs d),
         campaigns := archive_campaigns (failed_live rows) now (campaigns d)\<rparr>,
       case rows of [] \<Rightarrow> LostOwnership
       | r # _ \<Rightarrow> if cr_status r = R_FAILED then PreparationFailed else StillPreparing))"

section \<open>Lifecycle\<close>

definition activate_due_row :: "timestamp \<Rightarrow> campaign_run row_update" where
  "activate_due_row now = sql_where (\<lambda>r. cr_status r = R_SCHEDULED \<and> cr_scheduled_at r \<le> now)
     (\<lambda>r. r\<lparr>cr_status := R_RUNNING, cr_reason := None,
        cr_started_at := Some (coalesce (cr_started_at r) now), cr_updated_at := now\<rparr>)"

definition activate_due :: "timestamp \<Rightarrow> db \<Rightarrow> db \<times> nat" where
  "activate_due now d = (d\<lparr>campaign_runs := sql_update (activate_due_row now) (campaign_runs d)\<rparr>,
     sql_count (activate_due_row now) (campaign_runs d))"

definition delivery_failed :: "delivery_status \<Rightarrow> bool" where
  "delivery_failed s \<longleftrightarrow> s \<in> {D_FAILED, D_UNKNOWN, D_BLOCKED_CAPABILITY_CHANGED, D_CANCELLED}"

definition delivery_open :: "delivery_status \<Rightarrow> bool" where
  "delivery_open s \<longleftrightarrow> s \<in> {D_PENDING, D_MATERIALIZED, D_PROCESSING}"

definition run_deliveries :: "uuid \<Rightarrow> delivery table \<Rightarrow> delivery list" where
  "run_deliveries rid ds = filter (\<lambda>x. cd_run_id x = rid) ds"

definition finalizable :: "delivery table \<Rightarrow> campaign_run \<Rightarrow> bool" where
  "finalizable ds r \<longleftrightarrow> cr_status r = R_RUNNING \<and> run_deliveries (cr_id r) ds \<noteq> []
     \<and> (\<forall>x \<in> set (run_deliveries (cr_id r) ds). \<not> delivery_open (cd_status x))"

text \<open>ORDER BY started_at, id, with NULL last.\<close>

definition start_order :: "campaign_run \<Rightarrow> bool \<times> timestamp \<times> uuid" where
  "start_order r = (cr_started_at r = None, coalesce (cr_started_at r) 0, cr_id r)"

definition finalize_row :: "delivery table \<Rightarrow> uuid list \<Rightarrow> timestamp \<Rightarrow> campaign_run row_update" where
  "finalize_row ds ids now = sql_where (\<lambda>r. cr_id r \<in> set ids)
     (\<lambda>r. let failed = (\<exists>x \<in> set (run_deliveries (cr_id r) ds). delivery_failed (cd_status x)) in
        r\<lparr>cr_status := (if failed then R_PARTIAL_FAILED else R_COMPLETED),
          cr_reason := (if failed then Some ONE_OR_MORE_DELIVERIES_FAILED else None),
          cr_completed_at := Some now, cr_updated_at := now\<rparr>)"

definition live_campaigns :: "campaign_run list \<Rightarrow> uuid list" where
  "live_campaigns rs = map cr_campaign_id (filter (\<lambda>r. cr_mode r = LIVE) rs)"

definition finalize_ids :: "nat \<Rightarrow> db \<Rightarrow> uuid list" where
  "finalize_ids limit d =
     map cr_id (sql_top limit start_order (finalizable (deliveries d)) (campaign_runs d))"

definition finalize_runs :: "nat \<Rightarrow> timestamp \<Rightarrow> db \<Rightarrow> db \<times> nat" where
  "finalize_runs limit now d =
     (let f = finalize_row (deliveries d) (finalize_ids limit d) now;
          rows = sql_returning f (campaign_runs d) in
      (d\<lparr>campaign_runs := sql_update f (campaign_runs d),
         campaigns := archive_campaigns (live_campaigns rows) now (campaigns d)\<rparr>, length rows))"

definition pause_row :: "uuid \<Rightarrow> timestamp \<Rightarrow> campaign_run row_update" where
  "pause_row rid now = sql_where (\<lambda>r. cr_id r = rid \<and> cr_status r \<in> {R_SCHEDULED, R_RUNNING})
     (\<lambda>r. r\<lparr>cr_status := R_PAUSED, cr_reason := Some MANUAL_PAUSE, cr_updated_at := now\<rparr>)"

definition pause_campaigns :: "uuid list \<Rightarrow> timestamp \<Rightarrow> campaign table \<Rightarrow> campaign table" where
  "pause_campaigns ids now = sql_update (set_campaign_status ids {C_ACTIVE} C_PAUSED now)"

definition pause_run :: "uuid \<Rightarrow> timestamp \<Rightarrow> db \<Rightarrow> db \<times> run_view option" where
  "pause_run rid now d =
     (let rows = sql_returning (pause_row rid now) (campaign_runs d);
          d' = d\<lparr>campaign_runs := sql_update (pause_row rid now) (campaign_runs d),
            campaigns := pause_campaigns (live_campaigns rows) now (campaigns d)\<rparr> in
      (d', if rows = [] then None else find_run rid d'))"

definition blocked_resume_row :: "uuid \<Rightarrow> preflight_report \<Rightarrow> timestamp \<Rightarrow> campaign_run row_update" where
  "blocked_resume_row rid report now = sql_where
     (\<lambda>r. cr_id r = rid \<and> cr_status r \<in> {R_PAUSED, R_BLOCKED})
     (\<lambda>r. r\<lparr>cr_status := R_BLOCKED, cr_reason := Some PREFLIGHT_BLOCKED, cr_report := Some report,
        cr_updated_at := now\<rparr>)"

definition record_blocked_resume :: "uuid \<Rightarrow> preflight_report \<Rightarrow> timestamp \<Rightarrow> db \<Rightarrow> db" where
  "record_blocked_resume rid report now d =
     d\<lparr>campaign_runs := sql_update (blocked_resume_row rid report now) (campaign_runs d)\<rparr>"

definition resume_row ::
  "uuid \<Rightarrow> preflight_report \<Rightarrow> timestamp \<Rightarrow> timestamp \<Rightarrow> campaign_run row_update" where
  "resume_row rid report wall now = sql_where
     (\<lambda>r. cr_id r = rid \<and> cr_status r \<in> {R_PAUSED, R_BLOCKED})
     (\<lambda>r. let waits = wall < cr_scheduled_at r in
        r\<lparr>cr_status := (if waits then R_SCHEDULED else R_RUNNING), cr_reason := None,
          cr_report := Some report,
          cr_started_at := (if waits then cr_started_at r else Some (coalesce (cr_started_at r) now)),
          cr_completed_at := None, cr_updated_at := now\<rparr>)"

definition resume_campaigns :: "uuid list \<Rightarrow> timestamp \<Rightarrow> campaign table \<Rightarrow> campaign table" where
  "resume_campaigns ids now = sql_update (set_campaign_status ids {C_PAUSED} C_ACTIVE now)"

datatype resume_result = Resumed run_view | ResumeStale | NotResumable

definition delivery_started :: "delivery table \<Rightarrow> run_target \<Rightarrow> bool" where
  "delivery_started ds t \<longleftrightarrow> (\<exists>x \<in> set ds. cd_run_id x = rt_run_id t
     \<and> cd_group_id x = rt_group_id t \<and> cd_status x \<noteq> D_PENDING)"

definition resume_run ::
  "(string \<Rightarrow> uuid) \<Rightarrow> uuid \<Rightarrow> preflight_report \<Rightarrow> campaign_target_dto list \<Rightarrow> timestamp \<Rightarrow> timestamp
    \<Rightarrow> db \<Rightarrow> db \<times> resume_result" where
  "resume_run ids rid report observed wall now d = (case find_by cr_id rid (campaign_runs d) of
     None \<Rightarrow> (d, NotResumable)
   | Some r \<Rightarrow>
       if cr_status r \<notin> {R_PAUSED, R_BLOCKED} then (d, NotResumable)
       else if capability_snapshot_changed rid observed d then (d, ResumeStale)
       else let rows = sql_returning (resume_row rid report wall now) (campaign_runs d);
           d' = d\<lparr>run_targets := sql_update (refresh_target_row rid (gateway_groups d)
                (delivery_started (deliveries d))) (run_targets d),
             deliveries := insert_deliveries ids rid now d,
             campaign_runs := sql_update (resume_row rid report wall now) (campaign_runs d),
             campaigns := resume_campaigns (live_campaigns rows) now (campaigns d)\<rparr> in
         (d', case find_run rid d' of None \<Rightarrow> NotResumable | Some v \<Rightarrow> Resumed v))"

definition cancel_run_row :: "uuid \<Rightarrow> timestamp \<Rightarrow> campaign_run row_update" where
  "cancel_run_row rid now = sql_where (\<lambda>r. cr_id r = rid \<and> non_terminal (cr_status r))
     (\<lambda>r. r\<lparr>cr_status := R_CANCELLED, cr_reason := Some CANCELLED_BY_OPERATOR,
        cr_completed_at := Some now, cr_updated_at := now\<rparr>)"

definition cancelled_error :: string where
  "cancelled_error = ''Campaign run cancelled''"

definition cancel_delivery_row :: "uuid \<Rightarrow> message_job table \<Rightarrow> timestamp \<Rightarrow> delivery row_update" where
  "cancel_delivery_row rid jobs now = sql_where
     (\<lambda>x. cd_run_id x = rid \<and> (cd_status x = D_PENDING
        \<or> (\<exists>j \<in> set jobs. Some (mj_id j) = cd_job_id x \<and> mj_status j = J_CANCELLED)))
     (\<lambda>x. x\<lparr>cd_status := D_CANCELLED, cd_failure_reason := Some cancelled_error, cd_updated_at := now\<rparr>)"

definition delivery_jobs :: "uuid \<Rightarrow> delivery table \<Rightarrow> uuid list" where
  "delivery_jobs rid ds = List.map_filter cd_job_id (run_deliveries rid ds)"

definition cancel_run :: "(string \<Rightarrow> uuid) \<Rightarrow> uuid \<Rightarrow> timestamp \<Rightarrow> db \<Rightarrow> db \<times> run_view option" where
  "cancel_run ids rid now d = (case find_by cr_id rid (campaign_runs d) of
     None \<Rightarrow> (d, None)
   | Some r \<Rightarrow>
       if \<not> non_terminal (cr_status r) then (d, None)
       else let ds = insert_deliveries ids rid now d;
           jobs = sql_update (cancel_row (delivery_jobs rid ds) now) (message_jobs d);
           rows = sql_returning (cancel_run_row rid now) (campaign_runs d);
           d' = d\<lparr>message_jobs := jobs,
             deliveries := sql_update (cancel_delivery_row rid jobs now) ds,
             campaign_runs := sql_update (cancel_run_row rid now) (campaign_runs d),
             campaigns := archive_campaigns (live_campaigns rows) now (campaigns d)\<rparr> in
         (d', find_run rid d'))"

definition list_running :: "nat \<Rightarrow> db \<Rightarrow> uuid list" where
  "list_running limit d =
     map cr_id (sql_top limit start_order (\<lambda>r. cr_status r = R_RUNNING) (campaign_runs d))"

section \<open>The lifecycle audit\<close>

record lifecycle_drift =
  ld_draft_with_live :: nat
  ld_active_without_live :: nat
  ld_paused_without_live :: nat
  ld_archived_with_live :: nat
  ld_multiple_live :: nat

definition live_runs :: "uuid \<Rightarrow> campaign_run table \<Rightarrow> campaign_run list" where
  "live_runs cid rs = filter (\<lambda>r. cr_campaign_id r = cid \<and> cr_mode r = LIVE) rs"

definition audit_lifecycle :: "db \<Rightarrow> lifecycle_drift" where
  "audit_lifecycle d =
     (let live = (\<lambda>c. live_runs (c_id c) (campaign_runs d));
          unsettled = (\<lambda>c. \<exists>r \<in> set (live c). non_terminal (cr_status r));
          held = (\<lambda>c. \<exists>r \<in> set (live c). cr_status r \<in> {R_PAUSED, R_BLOCKED});
          number = (\<lambda>P. length (filter P (campaigns d))) in
      \<lparr>ld_draft_with_live = number (\<lambda>c. c_status c = C_DRAFT \<and> live c \<noteq> []),
       ld_active_without_live = number (\<lambda>c. c_status c = C_ACTIVE \<and> \<not> unsettled c),
       ld_paused_without_live = number (\<lambda>c. c_status c = C_PAUSED \<and> \<not> held c),
       ld_archived_with_live = number (\<lambda>c. c_status c = C_ARCHIVED \<and> unsettled c),
       ld_multiple_live = number (\<lambda>c. 1 < length (live c))\<rparr>)"

section \<open>Deliveries\<close>

fun delivery_of_job :: "message_job_status \<Rightarrow> delivery_status option" where
  "delivery_of_job J_PROCESSING = Some D_PROCESSING"
| "delivery_of_job J_DRY_RUN_COMPLETED = Some D_DRY_RUN_COMPLETED"
| "delivery_of_job J_ACCEPTED = Some D_ACCEPTED"
| "delivery_of_job J_SENT = Some D_SENT"
| "delivery_of_job J_DELIVERED = Some D_DELIVERED"
| "delivery_of_job J_READ = Some D_READ"
| "delivery_of_job J_FAILED = Some D_FAILED"
| "delivery_of_job J_UNKNOWN = Some D_UNKNOWN"
| "delivery_of_job J_CANCELLED = Some D_CANCELLED"
| "delivery_of_job _ = None"

definition delivery_job :: "message_job table \<Rightarrow> delivery \<Rightarrow> message_job option" where
  "delivery_job jobs x = (case cd_job_id x of None \<Rightarrow> None | Some j \<Rightarrow> find_by mj_id j jobs)"

definition reconcile_row :: "message_job table \<Rightarrow> timestamp \<Rightarrow> delivery row_update" where
  "reconcile_row jobs now x = (case delivery_job jobs x of None \<Rightarrow> None
   | Some j \<Rightarrow> (case delivery_of_job (mj_status j) of None \<Rightarrow> None
     | Some s \<Rightarrow>
         let failed = mj_status j \<in> {J_FAILED, J_UNKNOWN} in
         if cd_status x \<noteq> s \<or> failed \<and> cd_failure_reason x \<noteq> mj_last_error j then
           Some (x\<lparr>cd_status := s,
             cd_failure_reason := (if failed then mj_last_error j else cd_failure_reason x),
             cd_updated_at := now\<rparr>)
         else None))"

definition reconcile_deliveries :: "timestamp \<Rightarrow> db \<Rightarrow> db \<times> nat" where
  "reconcile_deliveries now d =
     (d\<lparr>deliveries := sql_update (reconcile_row (message_jobs d) now) (deliveries d)\<rparr>,
      sql_count (reconcile_row (message_jobs d) now) (deliveries d))"

definition session_pause_row :: "uuid \<Rightarrow> timestamp \<Rightarrow> campaign_run row_update" where
  "session_pause_row rid now = sql_where (\<lambda>r. cr_id r = rid \<and> cr_status r = R_RUNNING)
     (\<lambda>r. r\<lparr>cr_status := R_PAUSED, cr_reason := Some SESSION_NOT_SENDABLE, cr_updated_at := now\<rparr>)"

definition active_jobs :: "uuid \<Rightarrow> db \<Rightarrow> nat" where
  "active_jobs rid d = length (filter (\<lambda>x. cd_run_id x = rid
     \<and> (\<exists>j. delivery_job (message_jobs d) x = Some j
        \<and> mj_status j \<in> {J_SCHEDULED, J_QUEUED, J_PROCESSING})) (deliveries d))"

definition pending_row :: "uuid \<Rightarrow> db \<Rightarrow> delivery \<Rightarrow> (delivery \<times> run_target \<times> gateway_group) option" where
  "pending_row rid d x = (if cd_run_id x \<noteq> rid \<or> cd_status x \<noteq> D_PENDING then None
     else case find_target rid (cd_group_id x) (run_targets d) of None \<Rightarrow> None
     | Some t \<Rightarrow> map_option (\<lambda>g. (x, t, g)) (target_group t (gateway_groups d)))"

definition pending_rows :: "uuid \<Rightarrow> nat \<Rightarrow> db \<Rightarrow> (delivery \<times> run_target \<times> gateway_group) list" where
  "pending_rows rid slots d = sql_top slots (\<lambda>p. (cd_created_at (fst p), cd_id (fst p))) (\<lambda>_. True)
     (List.map_filter (pending_row rid d) (deliveries d))"

definition capability_changed_error :: string where
  "capability_changed_error = ''Group capability changed after preflight''"

definition block_delivery_row :: "uuid \<Rightarrow> timestamp \<Rightarrow> delivery row_update" where
  "block_delivery_row xid now = sql_where (\<lambda>x. cd_id x = xid)
     (\<lambda>x. x\<lparr>cd_status := D_BLOCKED_CAPABILITY_CHANGED,
        cd_failure_reason := Some capability_changed_error, cd_updated_at := now\<rparr>)"

definition materialize_row :: "uuid \<Rightarrow> uuid \<Rightarrow> timestamp \<Rightarrow> delivery row_update" where
  "materialize_row xid jid now = sql_where (\<lambda>x. cd_id x = xid \<and> cd_status x = D_PENDING)
     (\<lambda>x. x\<lparr>cd_job_id := Some jid, cd_status := D_MATERIALIZED, cd_updated_at := now\<rparr>)"

definition run_scope :: "uuid \<Rightarrow> string" where
  "run_scope rid = ''campaign-run:'' @ rid"

definition run_job_input ::
  "(message_request \<Rightarrow> string) \<Rightarrow> campaign_run \<Rightarrow> string \<Rightarrow> timestamp \<Rightarrow> job_input" where
  "run_job_input request_hash r gid wall =
     \<lparr>ji_scope = run_scope (cr_id r), ji_key = gid,
      ji_hash = request_hash \<lparr>mq_session_id = cr_session_id r, mq_recipient_id = gid,
        mq_text = cr_text r, mq_scheduled_at = None, mq_dry_run = (cr_mode r = DRY_RUN)\<rparr>,
      ji_session_id = cr_session_id r, ji_recipient_id = gid, ji_text = cr_text r,
      ji_scheduled_at = wall, ji_dry_run = (cr_mode r = DRY_RUN)\<rparr>"

definition capability_changed :: "run_target \<Rightarrow> gateway_group \<Rightarrow> bool" where
  "capability_changed t g \<longleftrightarrow> rt_revision t \<noteq> gg_revision g \<or> gg_capability g \<noteq> ALLOWED"

text \<open>One turn of the loop; \<open>jids\<close> gives the identifier of each new message job.\<close>

definition materialize_one ::
  "(message_request \<Rightarrow> string) \<Rightarrow> (string \<Rightarrow> uuid) \<Rightarrow> campaign_run \<Rightarrow> timestamp \<Rightarrow> timestamp
    \<Rightarrow> delivery \<times> run_target \<times> gateway_group \<Rightarrow> db \<times> nat \<Rightarrow> db \<times> nat" where
  "materialize_one request_hash jids r wall now p acc = (case (p, acc) of ((x, t, g), (d, n)) \<Rightarrow>
     if cr_mode r = LIVE \<and> capability_changed t g then
       (d\<lparr>deliveries := sql_update (block_delivery_row (cd_id x) now) (deliveries d)\<rparr>, n)
     else let (jobs, res) = create_job (jids (cd_group_id x))
            (run_job_input request_hash r (cd_group_id x) wall) now (message_jobs d) in
       (d\<lparr>message_jobs := jobs, deliveries :=
          sql_update (materialize_row (cd_id x) (mj_id (jr_job res)) now) (deliveries d)\<rparr>, n + 1))"

definition materialize_pending ::
  "(message_request \<Rightarrow> string) \<Rightarrow> (string \<Rightarrow> uuid) \<Rightarrow> uuid \<Rightarrow> nat \<Rightarrow> timestamp \<Rightarrow> timestamp
    \<Rightarrow> db \<Rightarrow> db \<times> nat" where
  "materialize_pending request_hash jids rid max_buffered wall now d =
     (case find_by cr_id rid (campaign_runs d) of None \<Rightarrow> (d, 0)
      | Some r \<Rightarrow>
          if cr_status r \<noteq> R_RUNNING then (d, 0)
          else if cr_mode r = LIVE \<and> \<not> is_session_sendable (gateway_sessions d) (cr_session_id r) then
            (d\<lparr>campaign_runs := sql_update (session_pause_row rid now) (campaign_runs d),
               campaigns := pause_campaigns [cr_campaign_id r] now (campaigns d)\<rparr>, 0)
          else let slots = max_buffered - active_jobs rid d in
            if slots = 0 then (d, 0)
            else fold (materialize_one request_hash jids r wall now) (pending_rows rid slots d) (d, 0))"

section \<open>The service\<close>

definition service_create_run ::
  "runtime_config \<Rightarrow> uuid \<Rightarrow> run_input \<Rightarrow> string option \<Rightarrow> timestamp \<Rightarrow> timestamp \<Rightarrow> db \<Rightarrow> db
    \<Rightarrow> db \<times> (campaign_error + run_result)" where
  "service_create_run c rid i raw_key wall now d d1 =
     (let key = (case raw_key of None \<Rightarrow> [] | Some k \<Rightarrow> js_trim k) in
      case or_throw (guard (key \<noteq> []) CE_RUN_KEY_REQUIRED) (\<lambda>_.
        or_throw (guard (length key \<le> 200) CE_RUN_KEY_INVALID) (\<lambda>_.
        get_campaign c (ri_campaign_id i) d)) of
        Inl e \<Rightarrow> (d1, Inl e)
      | Inr _ \<Rightarrow>
          let (d', r) = create_run rid (i\<lparr>ri_key := key\<rparr>) wall now d1 in
          (d', or_throw (guard (rx_found r) CE_NOT_FOUND) (\<lambda>_.
             or_throw (guard (\<not> rx_conflict r) CE_RUN_IDEMPOTENCY_CONFLICT) (\<lambda>_.
             or_throw (guard (\<not> rx_not_launchable r) CE_RUN_LAUNCH_CONFLICT) (\<lambda>_.
             or_throw (guard (\<not> rx_revision_conflict r) CE_RUN_REVISION_CONFLICT) (\<lambda>_.
             or_throw (guard (\<not> rx_expired r) CE_RUN_SCHEDULE_EXPIRED) (\<lambda>_.
             or_throw (guard (rx_run r \<noteq> None) CE_RUN_LAUNCH_CONFLICT) (\<lambda>_. Inr r))))))))"

definition get_run :: "runtime_config \<Rightarrow> uuid \<Rightarrow> db \<Rightarrow> campaign_error + campaign_run" where
  "get_run c rid d = (case find_by cr_id rid (campaign_runs d) of None \<Rightarrow> Inl CE_RUN_NOT_FOUND
   | Some r \<Rightarrow> if is_allowed c (cr_session_id r) then Inr r else Inl CE_RUN_NOT_FOUND)"

definition run_report ::
  "runtime_config \<Rightarrow> campaign_run \<Rightarrow> campaign_target_dto list \<Rightarrow> timestamp \<Rightarrow> db \<Rightarrow> preflight_report" where
  "run_report c r targets wall d = run_preflight c (cr_mode r) (cr_session_id r) (cr_text r) targets
     (cr_campaign_revision r) (cr_targets_revision r) wall d"

text \<open>
  prepare as the caller sees it: a claim in \<open>d\<close>, the context read in \<open>e1\<close> of the claimed state, the
  session read in \<open>e2\<close>, the result written in \<open>e3\<close>, where \<open>e1\<close>, \<open>e2\<close>, \<open>e3\<close> are what other processes
  do in between; \<open>failure\<close> is the message of an exception thrown before the result is written.
\<close>

definition prepare ::
  "runtime_config \<Rightarrow> (string \<Rightarrow> uuid) \<Rightarrow> uuid \<Rightarrow> uuid \<Rightarrow> string option \<Rightarrow> timestamp \<Rightarrow> timestamp \<Rightarrow> timestamp
    \<Rightarrow> (db \<Rightarrow> db) \<Rightarrow> (db \<Rightarrow> db) \<Rightarrow> (db \<Rightarrow> db) \<Rightarrow> db \<Rightarrow> db" where
  "prepare c ids rid tok failure now wall now' e1 e2 e3 d =
     (case claim_preparation rid tok now d of
        (d1, None) \<Rightarrow> d1
      | (d1, Some _) \<Rightarrow>
          let d2 = e1 d1 in
          case failure of Some e \<Rightarrow> fst (fail_preparation_attempt rid tok e now' (e3 (e2 d2)))
          | None \<Rightarrow> (case get_preflight_context rid d2 of None \<Rightarrow> d2
            | Some (r, targets) \<Rightarrow>
                if cr_status r \<noteq> R_PREPARING then d2
                else let d3 = e2 d2; report = run_report c r targets wall d3 in
                  fst (apply_preflight ids rid tok report targets wall now' (e3 d3))))"

text \<open>The three commands of an operator; \<open>d\<close> is the first read, \<open>d1\<close> the write.\<close>

definition service_pause ::
  "runtime_config \<Rightarrow> uuid \<Rightarrow> timestamp \<Rightarrow> db \<Rightarrow> db \<Rightarrow> db \<times> (campaign_error + run_view)" where
  "service_pause c rid now d d1 =
     (case or_throw (get_run c rid d) (\<lambda>r.
        guard (cr_status r \<in> {R_SCHEDULED, R_RUNNING}) CE_RUN_STATE_CONFLICT) of
        Inl e \<Rightarrow> (d1, Inl e)
      | Inr _ \<Rightarrow> let (d', v) = pause_run rid now d1 in
          (d', case v of None \<Rightarrow> Inl CE_RUN_STATE_CONFLICT | Some x \<Rightarrow> Inr x))"

definition service_resume ::
  "runtime_config \<Rightarrow> (string \<Rightarrow> uuid) \<Rightarrow> uuid \<Rightarrow> timestamp \<Rightarrow> timestamp \<Rightarrow> db \<Rightarrow> db \<Rightarrow> db \<Rightarrow> db
    \<Rightarrow> db \<times> (campaign_error + run_view)" where
  "service_resume c ids rid wall now d d1 d2 d3 =
     (case or_throw (get_run c rid d) (\<lambda>r.
        guard (cr_status r \<in> {R_PAUSED, R_BLOCKED}) CE_RUN_STATE_CONFLICT) of
        Inl e \<Rightarrow> (d3, Inl e)
      | Inr _ \<Rightarrow> (case get_preflight_context rid d1 of None \<Rightarrow> (d3, Inl CE_RUN_NOT_FOUND)
        | Some (r, targets) \<Rightarrow>
            let report = run_report c r targets wall d2 in
            if pr_status report = BLOCK then
              (record_blocked_resume rid report now d3, Inl CE_RUN_STATE_CONFLICT)
            else let (d', res) = resume_run ids rid report targets wall now d3 in
              (d', case res of Resumed v \<Rightarrow> Inr v | ResumeStale \<Rightarrow> Inl CE_RUN_STATE_CONFLICT
               | NotResumable \<Rightarrow> Inl CE_RUN_STATE_CONFLICT)))"

definition service_cancel ::
  "runtime_config \<Rightarrow> (string \<Rightarrow> uuid) \<Rightarrow> uuid \<Rightarrow> timestamp \<Rightarrow> db \<Rightarrow> db \<Rightarrow> db \<times> (campaign_error + run_view)" where
  "service_cancel c ids rid now d d1 =
     (case or_throw (get_run c rid d) (\<lambda>r. guard (non_terminal (cr_status r)) CE_RUN_STATE_CONFLICT) of
        Inl e \<Rightarrow> (d1, Inl e)
      | Inr _ \<Rightarrow> let (d', v) = cancel_run ids rid now d1 in
          (d', case v of None \<Rightarrow> Inl CE_RUN_STATE_CONFLICT | Some x \<Rightarrow> Inr x))"

end
