(* ===== verification/Campaign_Lifecycle.thy ===== *)
theory Campaign_Lifecycle
  imports Campaign_Runs
begin

text \<open>
  The transactions of the campaign subsystem as one type of operations, interleaved in any order with
  each other, with the changes of the gateway's read model, of the saved lists and of the message
  jobs; the invariant that ties the status of a campaign to its LIVE run, and the audit of
  campaign-lifecycle-audit.tick.ts that checks it.
\<close>

section \<open>Operations\<close>

datatype life_op =
    OCreate uuid campaign_input timestamp
  | OUpdate uuid string string schedule_type "timestamp option" nat timestamp
  | OTargets uuid "string list" nat timestamp
  | OApplyList uuid uuid nat "nat option" timestamp
  | ODelete uuid "string list" nat nat timestamp
  | ORun uuid run_input timestamp timestamp
  | OClaim uuid uuid timestamp
  | ORecover timestamp
  | OPreflight "string \<Rightarrow> uuid" uuid uuid preflight_report "campaign_target_dto list" timestamp timestamp
  | OFailPreparation uuid uuid string timestamp
  | OActivate timestamp
  | OFinalize nat timestamp
  | OPause uuid timestamp
  | OBlockedResume uuid preflight_report timestamp
  | OResume "string \<Rightarrow> uuid" uuid preflight_report "campaign_target_dto list" timestamp timestamp
  | OCancel "string \<Rightarrow> uuid" uuid timestamp
  | OReconcile timestamp
  | OMaterialize "message_request \<Rightarrow> string" "string \<Rightarrow> uuid" uuid nat timestamp timestamp
  | OJob job_op
  | OSubmit uuid job_input timestamp
  | OGateway "gateway_session table" "gateway_group table"
  | OList "string \<Rightarrow> string" list_op

fun life_apply :: "life_op \<Rightarrow> db \<Rightarrow> db" where
  "life_apply (OCreate cid i now) d = d\<lparr>campaigns := fst (create_campaign cid i now (campaigns d))\<rparr>"
| "life_apply (OUpdate cid n x st t expected now) d = fst (update_campaign cid n x st t expected now d)"
| "life_apply (OTargets cid ids expected now) d = fst (replace_targets cid ids expected now d)"
| "life_apply (OApplyList cid lid expected membership now) d =
     fst (apply_group_list_targets cid lid expected membership now d)"
| "life_apply (ODelete cid allowed expected targets now) d =
     fst (delete_campaign cid (\<lambda>s. s \<in> set allowed) expected targets now d)"
| "life_apply (ORun rid i wall now) d = fst (create_run rid i wall now d)"
| "life_apply (OClaim rid tok now) d = fst (claim_preparation rid tok now d)"
| "life_apply (ORecover now) d = fst (recover_expired_preparations now d)"
| "life_apply (OPreflight ids rid tok report observed wall now) d =
     fst (apply_preflight ids rid tok report observed wall now d)"
| "life_apply (OFailPreparation rid tok e now) d = fst (fail_preparation_attempt rid tok e now d)"
| "life_apply (OActivate now) d = fst (activate_due now d)"
| "life_apply (OFinalize limit now) d = fst (finalize_runs limit now d)"
| "life_apply (OPause rid now) d = fst (pause_run rid now d)"
| "life_apply (OBlockedResume rid report now) d = record_blocked_resume rid report now d"
| "life_apply (OResume ids rid report observed wall now) d =
     fst (resume_run ids rid report observed wall now d)"
| "life_apply (OCancel ids rid now) d = fst (cancel_run ids rid now d)"
| "life_apply (OReconcile now) d = fst (reconcile_deliveries now d)"
| "life_apply (OMaterialize rq jids rid buffer wall now) d =
     fst (materialize_pending rq jids rid buffer wall now d)"
| "life_apply (OJob op) d = d\<lparr>message_jobs := sql_update (job_row op) (message_jobs d)\<rparr>"
| "life_apply (OSubmit jid i now) d = d\<lparr>message_jobs := fst (create_job jid i now (message_jobs d))\<rparr>"
| "life_apply (OGateway ss gs) d = d\<lparr>gateway_sessions := ss, gateway_groups := gs\<rparr>"
| "life_apply (OList low op) d = list_apply low op d"

text \<open>
  A created campaign, run or job gets a new identifier; a job submitted through the API has the API's
  idempotency scope.
\<close>

fun life_op_ok :: "life_op \<Rightarrow> db \<Rightarrow> bool" where
  "life_op_ok (OCreate cid i now) d = (cid \<notin> c_id ` set (campaigns d))"
| "life_op_ok (ORun rid i wall now) d = (rid \<notin> cr_id ` set (campaign_runs d))"
| "life_op_ok (OSubmit jid i now) d =
     (jid \<notin> mj_id ` set (message_jobs d) \<and> ji_scope i = ''runtime-api'')"
| "life_op_ok _ d = True"

primrec life_ops_ok :: "life_op list \<Rightarrow> db \<Rightarrow> bool" where
  "life_ops_ok [] d = True"
| "life_ops_ok (op # ops) d = (life_op_ok op d \<and> life_ops_ok ops (life_apply op d))"

section \<open>The invariant\<close>

fun compatible :: "run_status \<Rightarrow> campaign_status \<Rightarrow> bool" where
  "compatible R_PREPARING s = (s = C_ACTIVE)"
| "compatible R_SCHEDULED s = (s = C_ACTIVE)"
| "compatible R_RUNNING s = (s = C_ACTIVE)"
| "compatible R_PAUSED s = (s = C_PAUSED)"
| "compatible R_BLOCKED s = (s = C_ACTIVE \<or> s = C_PAUSED)"
| "compatible _ s = (s = C_ARCHIVED)"

definition life_ok :: "db \<Rightarrow> bool" where
  "life_ok d \<longleftrightarrow> keyed c_id (campaigns d) \<and> keyed cr_id (campaign_runs d)
     \<and> (\<forall>r \<in> set (campaign_runs d). cr_campaign_id r \<in> c_id ` set (campaigns d))
     \<and> (\<forall>r \<in> set (campaign_runs d). \<forall>c \<in> set (campaigns d). cr_mode r = LIVE \<and> c_id c = cr_campaign_id r
          \<longrightarrow> compatible (cr_status r) (c_status c))
     \<and> (\<forall>r \<in> set (campaign_runs d). \<forall>r' \<in> set (campaign_runs d). cr_mode r = LIVE \<and> cr_mode r' = LIVE
          \<and> cr_campaign_id r = cr_campaign_id r' \<longrightarrow> r = r')
     \<and> (\<forall>c \<in> set (campaigns d). c_status c \<in> {C_ACTIVE, C_PAUSED}
          \<longrightarrow> (\<exists>r \<in> set (campaign_runs d). cr_mode r = LIVE \<and> cr_campaign_id r = c_id c))"

lemma life_okD:
  assumes "life_ok d"
  shows "keyed c_id (campaigns d)" "keyed cr_id (campaign_runs d)"
    and "r \<in> set (campaign_runs d) \<Longrightarrow> cr_campaign_id r \<in> c_id ` set (campaigns d)"
    and "r \<in> set (campaign_runs d) \<Longrightarrow> c \<in> set (campaigns d) \<Longrightarrow> cr_mode r = LIVE
      \<Longrightarrow> c_id c = cr_campaign_id r \<Longrightarrow> compatible (cr_status r) (c_status c)"
    and "r \<in> set (campaign_runs d) \<Longrightarrow> r' \<in> set (campaign_runs d) \<Longrightarrow> cr_mode r = LIVE
      \<Longrightarrow> cr_mode r' = LIVE \<Longrightarrow> cr_campaign_id r = cr_campaign_id r' \<Longrightarrow> r = r'"
    and "c \<in> set (campaigns d) \<Longrightarrow> c_status c \<in> {C_ACTIVE, C_PAUSED}
      \<Longrightarrow> \<exists>r \<in> set (campaign_runs d). cr_mode r = LIVE \<and> cr_campaign_id r = c_id c"
  using assms unfolding life_ok_def by blast+

lemma life_okI:
  assumes "keyed c_id (campaigns d)" "keyed cr_id (campaign_runs d)"
    and "\<And>r. r \<in> set (campaign_runs d) \<Longrightarrow> cr_campaign_id r \<in> c_id ` set (campaigns d)"
    and "\<And>r c. r \<in> set (campaign_runs d) \<Longrightarrow> c \<in> set (campaigns d) \<Longrightarrow> cr_mode r = LIVE
      \<Longrightarrow> c_id c = cr_campaign_id r \<Longrightarrow> compatible (cr_status r) (c_status c)"
    and "\<And>r r'. r \<in> set (campaign_runs d) \<Longrightarrow> r' \<in> set (campaign_runs d) \<Longrightarrow> cr_mode r = LIVE
      \<Longrightarrow> cr_mode r' = LIVE \<Longrightarrow> cr_campaign_id r = cr_campaign_id r' \<Longrightarrow> r = r'"
    and "\<And>c. c \<in> set (campaigns d) \<Longrightarrow> c_status c \<in> {C_ACTIVE, C_PAUSED}
      \<Longrightarrow> \<exists>r \<in> set (campaign_runs d). cr_mode r = LIVE \<and> cr_campaign_id r = c_id c"
  shows "life_ok d"
  unfolding life_ok_def using assms by blast

lemma life_ok_cong:
  "campaigns d' = campaigns d \<Longrightarrow> campaign_runs d' = campaign_runs d \<Longrightarrow> life_ok d' = life_ok d"
  by (simp only: life_ok_def)

definition run_update :: "campaign_run row_update \<Rightarrow> bool" where
  "run_update f \<longleftrightarrow> (\<forall>r r'. f r = Some r' \<longrightarrow>
     cr_id r' = cr_id r \<and> cr_campaign_id r' = cr_campaign_id r \<and> cr_mode r' = cr_mode r)"

lemma run_update_after:
  assumes "run_update f"
  shows "cr_id (row_after f r) = cr_id r" "cr_campaign_id (row_after f r) = cr_campaign_id r"
    "cr_mode (row_after f r) = cr_mode r"
  using assms by (auto simp: run_update_def row_after_def split: option.splits)

lemma status_after:
  "c_id (row_after (set_campaign_status ids old new now) c) = c_id c"
  "c_status (row_after (set_campaign_status ids old new now) c) =
     (if c_id c \<in> set ids \<and> c_status c \<in> old then new else c_status c)"
  by (auto simp: row_after_def set_campaign_status_def sql_where_def)

text \<open>
  One lemma for all transitions: the runs change by \<open>f\<close>, and the campaigns in \<open>ids\<close> move from a
  status in \<open>old\<close> to \<open>new\<close>.
\<close>

lemma life_move:
  assumes ok: "life_ok d" and f: "run_update f"
    and runs: "campaign_runs d' = sql_update f (campaign_runs d)"
    and camps: "campaigns d' = sql_update (set_campaign_status ids old new now) (campaigns d)"
    and old: "old \<subseteq> {C_ACTIVE, C_PAUSED}"
    and moved: "\<And>r s. r \<in> set (campaign_runs d) \<Longrightarrow> cr_mode r = LIVE \<Longrightarrow> compatible (cr_status r) s
      \<Longrightarrow> compatible (cr_status (row_after f r))
            (if cr_campaign_id r \<in> set ids \<and> s \<in> old then new else s)"
  shows "life_ok d'"
proof (rule life_okI)
  note run = run_update_after [OF f]
  have runs': "set (campaign_runs d') = row_after f ` set (campaign_runs d)"
    by (simp add: runs set_sql_update_after)
  have camps': "set (campaigns d') = row_after (set_campaign_status ids old new now) ` set (campaigns d)"
    by (simp add: camps set_sql_update_after)
  show "keyed c_id (campaigns d')"
    using life_okD(1) [OF ok] unfolding camps
    by (subst keyed_sql_update) (auto simp: set_campaign_status_def)
  show "keyed cr_id (campaign_runs d')"
    using life_okD(2) [OF ok] f unfolding runs by (subst keyed_sql_update) (auto simp: run_update_def)
  show "cr_campaign_id r \<in> c_id ` set (campaigns d')" if "r \<in> set (campaign_runs d')" for r
    using that life_okD(3) [OF ok] by (auto simp: runs' camps' run status_after image_image)
  show "compatible (cr_status r) (c_status c)"
    if h: "r \<in> set (campaign_runs d')" "c \<in> set (campaigns d')" "cr_mode r = LIVE"
      "c_id c = cr_campaign_id r" for r c
  proof -
    obtain r0 c0 where r0: "r0 \<in> set (campaign_runs d)" "r = row_after f r0"
      and c0: "c0 \<in> set (campaigns d)" "c = row_after (set_campaign_status ids old new now) c0"
      using h(1,2) by (auto simp: runs' camps')
    have "cr_mode r0 = LIVE" "c_id c0 = cr_campaign_id r0"
      using h(3,4) r0(2) c0(2) by (simp_all add: run status_after)
    then show ?thesis using moved [OF r0(1)] life_okD(4) [OF ok r0(1) c0(1)] r0 c0
      by (simp add: status_after)
  qed
  show "r = r'" if "r \<in> set (campaign_runs d')" "r' \<in> set (campaign_runs d')"
    "cr_mode r = LIVE" "cr_mode r' = LIVE" "cr_campaign_id r = cr_campaign_id r'" for r r'
    using that by (auto simp: runs' run intro!: arg_cong [of _ _ "row_after f"] life_okD(5) [OF ok])
  show "\<exists>r \<in> set (campaign_runs d'). cr_mode r = LIVE \<and> cr_campaign_id r = c_id c"
    if h: "c \<in> set (campaigns d')" "c_status c \<in> {C_ACTIVE, C_PAUSED}" for c
  proof -
    obtain c0 where c0: "c0 \<in> set (campaigns d)" "c = row_after (set_campaign_status ids old new now) c0"
      using h(1) by (auto simp: camps')
    have "c_status c0 \<in> {C_ACTIVE, C_PAUSED}"
      using h(2) c0 old by (auto simp: status_after split: if_splits)
    then obtain r0 where "r0 \<in> set (campaign_runs d)" "cr_mode r0 = LIVE" "cr_campaign_id r0 = c_id c0"
      using life_okD(6) [OF ok c0(1)] by blast
    then show ?thesis using c0 by (auto simp: runs' run status_after)
  qed
qed

text \<open>The campaigns that a transition of LIVE runs moves with them.\<close>

lemma live_ids:
  assumes ok: "life_ok d" and f: "run_update f" and r: "r \<in> set (campaign_runs d)" "cr_mode r = LIVE"
  shows "cr_campaign_id r \<in> set (map cr_campaign_id
      (filter (\<lambda>r. cr_mode r = LIVE \<and> Q r) (sql_returning f (campaign_runs d))))
    \<longleftrightarrow> (\<exists>r'. f r = Some r' \<and> Q r')"
proof
  assume "cr_campaign_id r \<in> set (map cr_campaign_id
      (filter (\<lambda>r. cr_mode r = LIVE \<and> Q r) (sql_returning f (campaign_runs d))))"
  then obtain r0 r' where r0: "r0 \<in> set (campaign_runs d)" "f r0 = Some r'" "cr_mode r' = LIVE" "Q r'"
    "cr_campaign_id r' = cr_campaign_id r"
    by (auto simp: set_sql_returning)
  then have "cr_mode r0 = LIVE" "cr_campaign_id r0 = cr_campaign_id r"
    using f by (auto simp: run_update_def)
  then have "r0 = r" using life_okD(5) [OF ok r0(1) r(1)] r(2) by simp
  then show "\<exists>r'. f r = Some r' \<and> Q r'" using r0 by blast
next
  assume "\<exists>r'. f r = Some r' \<and> Q r'"
  then obtain r' where r': "f r = Some r'" "Q r'" by blast
  then have "r' \<in> set (sql_returning f (campaign_runs d))" "cr_mode r' = LIVE"
    "cr_campaign_id r' = cr_campaign_id r"
    using r f by (auto simp: set_sql_returning run_update_def)
  then show "cr_campaign_id r \<in> set (map cr_campaign_id
      (filter (\<lambda>r. cr_mode r = LIVE \<and> Q r) (sql_returning f (campaign_runs d))))"
    using r'(2) by (auto intro!: image_eqI [of _ _ r'])
qed

lemma life_move_live:
  assumes ok: "life_ok d" and f: "run_update f"
    and runs: "campaign_runs d' = sql_update f (campaign_runs d)"
    and camps: "campaigns d' = sql_update (set_campaign_status (map cr_campaign_id (filter
      (\<lambda>r. cr_mode r = LIVE \<and> Q r) (sql_returning f (campaign_runs d)))) old new now) (campaigns d)"
    and old: "old \<subseteq> {C_ACTIVE, C_PAUSED}"
    and moved: "\<And>r r' s. r \<in> set (campaign_runs d) \<Longrightarrow> compatible (cr_status r) s \<Longrightarrow> f r = Some r'
      \<Longrightarrow> compatible (cr_status r') (if Q r' \<and> s \<in> old then new else s)"
  shows "life_ok d'"
proof (rule life_move [OF ok f runs camps old])
  fix r s
  assume r: "r \<in> set (campaign_runs d)" "cr_mode r = LIVE" "compatible (cr_status r) s"
  show "compatible (cr_status (row_after f r)) (if cr_campaign_id r \<in> set (map cr_campaign_id (filter
      (\<lambda>r. cr_mode r = LIVE \<and> Q r) (sql_returning f (campaign_runs d)))) \<and> s \<in> old then new else s)"
    unfolding live_ids [OF ok f r(1,2)]
    using r moved [OF r(1,3)] by (cases "f r") (auto simp: row_after_def)
qed

section \<open>Every operation keeps the invariant\<close>

text \<open>Changes of a campaign that leave its identifier and status alone.\<close>

lemma life_ok_status:
  assumes ok: "life_ok d" and runs: "campaign_runs d' = campaign_runs d"
    and eq: "map (\<lambda>c. (c_id c, c_status c)) (campaigns d') = map (\<lambda>c. (c_id c, c_status c)) (campaigns d)"
  shows "life_ok d'"
proof (rule life_okI)
  have ids: "map c_id (campaigns d') = map c_id (campaigns d)"
    using arg_cong [OF eq, of "map fst"] by (simp add: comp_def)
  have twin: "\<exists>c0 \<in> set (campaigns d). c_id c0 = c_id c \<and> c_status c0 = c_status c"
    if "c \<in> set (campaigns d')" for c
  proof -
    have "(c_id c, c_status c) \<in> set (map (\<lambda>c. (c_id c, c_status c)) (campaigns d'))" using that by simp
    then show ?thesis unfolding eq by auto
  qed
  show "keyed c_id (campaigns d')" using life_okD(1) [OF ok] by (simp add: keyed_def ids)
  show "keyed cr_id (campaign_runs d')" using life_okD(2) [OF ok] runs by simp
  show "cr_campaign_id r \<in> c_id ` set (campaigns d')" if "r \<in> set (campaign_runs d')" for r
    using life_okD(3) [OF ok, of r] that runs arg_cong [OF ids, of set] by simp
  show "compatible (cr_status r) (c_status c)" if "r \<in> set (campaign_runs d')" "c \<in> set (campaigns d')"
    "cr_mode r = LIVE" "c_id c = cr_campaign_id r" for r c
    using twin [OF that(2)] life_okD(4) [OF ok, of r] that runs by force
  show "r = r'" if "r \<in> set (campaign_runs d')" "r' \<in> set (campaign_runs d')"
    "cr_mode r = LIVE" "cr_mode r' = LIVE" "cr_campaign_id r = cr_campaign_id r'" for r r'
    using life_okD(5) [OF ok] that runs by simp
  show "\<exists>r \<in> set (campaign_runs d'). cr_mode r = LIVE \<and> cr_campaign_id r = c_id c"
    if "c \<in> set (campaigns d')" "c_status c \<in> {C_ACTIVE, C_PAUSED}" for c
    using twin [OF that(1)] life_okD(6) [OF ok] that(2) runs by force
qed

definition keeps_status :: "campaign row_update \<Rightarrow> bool" where
  "keeps_status f \<longleftrightarrow> (\<forall>c c'. f c = Some c' \<longrightarrow> c_id c' = c_id c \<and> c_status c' = c_status c)"

lemma map_keeps_status:
  "keeps_status f \<Longrightarrow>
     map (\<lambda>c. (c_id c, c_status c)) (sql_update f cs) = map (\<lambda>c. (c_id c, c_status c)) cs"
  by (rule map_sql_update_key) (auto simp: keeps_status_def)

lemma keeps_status_rows:
  "keeps_status (update_campaign_row cid n x st t expected now)"
  "keeps_status (source_row cid src now)"
  "keeps_status (delete_row cid now)"
  by (auto simp: keeps_status_def update_campaign_row_def source_row_def delete_row_def Let_def)

lemma replace_targets_cases:
  assumes "replace_targets cid ids expected now d = (d', res)"
  obtains (kept) "d' = d"
  | (changed) c where "find_campaign cid (campaigns d) = Some c" "c_status c = C_DRAFT"
      "c_targets_revision c = expected"
      "groups_valid (validate_groups (c_session_id c) ids (gateway_groups d))"
      "d' = d\<lparr>campaign_targets := set_targets cid (c_session_id c) (sort ids) (campaign_targets d),
         campaigns := sql_update (source_row cid None now) (campaigns d)\<rparr>"
proof (cases "find_campaign cid (campaigns d)")
  case None
  then show ?thesis using assms by (intro kept) (simp add: replace_targets_def)
next
  case (Some c)
  show ?thesis
  proof (cases "c_status c = C_DRAFT \<and> c_targets_revision c = expected
      \<and> groups_valid (validate_groups (c_session_id c) ids (gateway_groups d)) \<and> d' \<noteq> d")
    case True
    then show ?thesis using assms Some
      by (intro changed [of c]) (simp_all add: replace_targets_def Let_def split: if_splits)
  next
    case False
    then show ?thesis using assms Some
      by (intro kept) (auto simp: replace_targets_def Let_def split: if_splits)
  qed
qed

lemma apply_snapshot_cases:
  assumes "apply_snapshot c s now d = (d', r)"
  obtains (kept) "d' = d"
  | (changed) "d' = d\<lparr>campaign_targets := set_targets (c_id c) (c_session_id c) (msn_group_ids s)
         (campaign_targets d),
       campaigns := sql_update (source_row (c_id c) (Some (snapshot_source s now)) now) (campaigns d)\<rparr>"
  using assms by (auto simp: apply_snapshot_def Let_def split: if_splits)

lemma apply_group_list_cases:
  assumes "apply_group_list_targets cid lid expected membership now d = (d', r)"
  obtains (kept) "d' = d" "sx_source r = None"
  | (applied) c s where "find_campaign cid (campaigns d) = Some c" "c_status c = C_DRAFT"
      "c_targets_revision c = expected" "lock_membership_snapshot lid d = Some s"
      "msn_session_id s = c_session_id c" "membership \<in> {None, Some (msn_membership_revision s)}"
      "apply_snapshot c s now d = (d', r)"
proof (cases "\<exists>c s. find_campaign cid (campaigns d) = Some c \<and> c_status c = C_DRAFT
    \<and> c_targets_revision c = expected \<and> lock_membership_snapshot lid d = Some s
    \<and> msn_session_id s = c_session_id c \<and> membership \<in> {None, Some (msn_membership_revision s)}")
  case True
  then show ?thesis using assms applied by (auto simp: apply_group_list_targets_def Let_def)
next
  case False
  then have "d' = d \<and> sx_source r = None"
    using assms by (auto simp: apply_group_list_targets_def empty_source_result_def Let_def
        split: option.splits if_splits)
  then show ?thesis using kept by blast
qed

lemma delete_campaign_cases:
  assumes "delete_campaign cid allowed expected targets now d = (d', r)"
  obtains (kept) "d' = d" "\<not> dx_deleted r"
  | (deleted) c where "List.find (\<lambda>c. c_id c = cid \<and> allowed (c_session_id c)) (campaigns d) = Some c"
      "c_deleted_at c = None" "c_revision c = expected" "c_targets_revision c = targets"
      "c_status c \<in> {C_DRAFT, C_ARCHIVED}"
      "\<forall>r \<in> set (campaign_runs d). cr_campaign_id r = cid \<longrightarrow> \<not> non_terminal (cr_status r)"
      "d' = d\<lparr>campaigns := sql_update (delete_row cid now) (campaigns d)\<rparr>" "dx_deleted r"
proof (cases "List.find (\<lambda>c. c_id c = cid \<and> allowed (c_session_id c)) (campaigns d)")
  case None
  then show ?thesis using assms by (intro kept) (auto simp: delete_campaign_def empty_deletion_def)
next
  case c: (Some c)
  let ?go = "c_deleted_at c = None \<and> c_revision c = expected \<and> c_targets_revision c = targets
      \<and> c_status c \<in> {C_DRAFT, C_ARCHIVED}
      \<and> (\<forall>r \<in> set (campaign_runs d). cr_campaign_id r = cid \<longrightarrow> \<not> non_terminal (cr_status r))"
  show ?thesis
  proof (cases ?go)
    case True
    then have "delete_campaign cid allowed expected targets now d =
        (d\<lparr>campaigns := sql_update (delete_row cid now) (campaigns d)\<rparr>,
         (empty_deletion True)\<lparr>dx_current := Some (c_revision c, c_targets_revision c, c_status c),
           dx_deleted := True\<rparr>)"
      using c by (auto simp: delete_campaign_def Let_def empty_deletion_def)
    then show ?thesis using True c assms by (intro deleted [of c]) auto
  next
    case False
    then have "\<exists>r'. delete_campaign cid allowed expected targets now d = (d, r') \<and> \<not> dx_deleted r'"
      unfolding delete_campaign_def c option.case Let_def by (auto simp: empty_deletion_def)
    then show ?thesis using assms by (intro kept) auto
  qed
qed

lemma create_run_cases:
  assumes "create_run rid i wall now d = (d', r)"
  obtains (kept) "d' = d" "\<not> rx_created r"
  | (created) c where "find_campaign (ri_campaign_id i) (campaigns d) = Some c"
      "find_run_key (c_id c) (ri_key i) (campaign_runs d) = None"
      "\<forall>r \<in> set (campaign_runs d). cr_campaign_id r = c_id c \<longrightarrow> cr_mode r \<noteq> LIVE"
      "ri_expected_revision i \<in> {None, Some (c_revision c)}"
      "ri_expected_targets i \<in> {None, Some (c_targets_revision c)}" "c_status c = C_DRAFT"
      "ri_mode i = LIVE \<Longrightarrow> wall \<le> run_time c wall"
      "d' = d\<lparr>campaign_runs := campaign_runs d @ [new_run rid i c wall now],
         run_targets := run_targets d @ snapshot_targets rid (c_id c) d,
         campaigns := (if ri_mode i = LIVE
           then sql_update (set_campaign_status [c_id c] {C_DRAFT} C_ACTIVE now) (campaigns d)
           else campaigns d)\<rparr>"
      "r = (empty_run_result True)\<lparr>rx_run := Some (new_run rid i c wall now), rx_created := True\<rparr>"
proof (cases "find_campaign (ri_campaign_id i) (campaigns d)")
  case None
  then show ?thesis using assms by (intro kept) (auto simp: create_run_def empty_run_result_def)
next
  case c: (Some c)
  show ?thesis
  proof (cases "find_run_key (c_id c) (ri_key i) (campaign_runs d)")
    case (Some r0)
    then show ?thesis using assms c
      by (intro kept) (auto simp: create_run_def empty_run_result_def Let_def)
  next
    case None
    let ?go = "(\<forall>r \<in> set (campaign_runs d). cr_campaign_id r = c_id c \<longrightarrow> cr_mode r \<noteq> LIVE)
      \<and> ri_expected_revision i \<in> {None, Some (c_revision c)}
      \<and> ri_expected_targets i \<in> {None, Some (c_targets_revision c)} \<and> c_status c = C_DRAFT
      \<and> \<not> (ri_mode i = LIVE \<and> c_schedule_type c = ONCE
             \<and> (\<exists>t. c_scheduled_at c = Some t \<and> t \<le> wall))"
    show ?thesis
    proof (cases ?go)
      case True
      then have "create_run rid i wall now d = (d\<lparr>campaign_runs := campaign_runs d @ [new_run rid i c wall now],
         run_targets := run_targets d @ snapshot_targets rid (c_id c) d,
         campaigns := (if ri_mode i = LIVE
           then sql_update (set_campaign_status [c_id c] {C_DRAFT} C_ACTIVE now) (campaigns d)
           else campaigns d)\<rparr>,
         (empty_run_result True)\<lparr>rx_run := Some (new_run rid i c wall now), rx_created := True\<rparr>)"
        using c None by (auto simp: create_run_def Let_def)
      moreover have "ri_mode i = LIVE \<Longrightarrow> wall \<le> run_time c wall"
        using True by (cases "c_scheduled_at c") (auto simp: run_time_def)
      ultimately show ?thesis using True c None assms by (intro created [of c]) auto
    next
      case False
      then have "\<exists>r'. create_run rid i wall now d = (d, r') \<and> \<not> rx_created r'"
        unfolding create_run_def c None option.case Let_def
        by (auto simp: empty_run_result_def)
      then show ?thesis using assms by (intro kept) auto
    qed
  qed
qed

lemma run_updates:
  "run_update (claim_preparation_row rid tok now)"
  "run_update (recover_preparation_row now)"
  "run_update (prepare_row rid out tok now)"
  "run_update (activate_due_row now)"
  "run_update (finalize_row ds ids now)"
  "run_update (pause_row rid now)"
  "run_update (blocked_resume_row rid report now)"
  "run_update (resume_row rid report wall now)"
  "run_update (cancel_run_row rid now)"
  "run_update (session_pause_row rid now)"
  by (auto simp: run_update_def claim_preparation_row_def recover_preparation_row_def prepare_row_def
      activate_due_row_def finalize_row_def pause_row_def blocked_resume_row_def resume_row_def
      cancel_run_row_def session_pause_row_def Let_def split: preparation_outcome.splits)

lemma keyed_set_campaign_status [simp]:
  "keyed c_id (sql_update (set_campaign_status ids old new now) cs) = keyed c_id cs"
  by (rule keyed_sql_update) (auto simp: set_campaign_status_def)

lemma set_campaign_status_Nil [simp]: "sql_update (set_campaign_status [] old new now) cs = cs"
  by (rule sql_update_id) (simp add: set_campaign_status_def)

lemma life_runs:
  assumes "life_ok d" "run_update f" "campaign_runs d' = sql_update f (campaign_runs d)"
    and "campaigns d' = campaigns d"
    and "\<And>r r' s. r \<in> set (campaign_runs d) \<Longrightarrow> compatible (cr_status r) s \<Longrightarrow> f r = Some r'
      \<Longrightarrow> compatible (cr_status r') s"
  shows "life_ok d'"
  by (rule life_move [OF assms(1-3), of "[]" "{}"]) (use assms(4,5) in \<open>auto simp: row_after_def split: option.splits\<close>)

lemma compatible_archive: "non_terminal st \<Longrightarrow> compatible st s \<Longrightarrow> s \<in> {C_ACTIVE, C_PAUSED}"
  by (cases st) (auto simp: non_terminal_def)

lemma life_ok_create:
  assumes ok: "life_ok d" and new: "cid \<notin> c_id ` set (campaigns d)"
  shows "life_ok (d\<lparr>campaigns := fst (create_campaign cid i now (campaigns d))\<rparr>)"
proof (cases "find_campaign_key (ci_key i) (campaigns d)")
  case None
  have fresh: "cr_campaign_id r \<noteq> cid" if "r \<in> set (campaign_runs d)" for r
    using life_okD(3) [OF ok that] new by auto
  show ?thesis
    by (rule life_okI)
      (use None life_okD [OF ok] new fresh in \<open>auto simp: create_campaign_def new_campaign_def\<close>)
next
  case (Some c)
  then show ?thesis using ok life_ok_cong [of "d\<lparr>campaigns := campaigns d\<rparr>" d]
    by (simp add: create_campaign_def)
qed

lemma life_ok_update: "life_ok d \<Longrightarrow> life_ok (fst (update_campaign cid n x st t expected now d))"
  by (erule life_ok_status) (simp_all add: update_campaign_def Let_def map_keeps_status keeps_status_rows)

lemma life_ok_targets:
  assumes "life_ok d" "replace_targets cid ids expected now d = (d', res)"
  shows "life_ok d'"
  using assms(2)
  by (cases rule: replace_targets_cases)
    (use assms(1) in \<open>auto intro!: life_ok_status [OF assms(1)] simp: map_keeps_status keeps_status_rows\<close>)

lemma life_ok_apply_list:
  assumes "life_ok d" "apply_group_list_targets cid lid expected membership now d = (d', res)"
  shows "life_ok d'"
  using assms(2)
proof (cases rule: apply_group_list_cases)
  case kept
  then show ?thesis using assms(1) by simp
next
  case (applied c s)
  from applied(7) show ?thesis
    by (cases rule: apply_snapshot_cases)
      (use assms(1) in \<open>auto intro!: life_ok_status [OF assms(1)] simp: map_keeps_status keeps_status_rows\<close>)
qed

lemma life_ok_delete:
  assumes "life_ok d" "delete_campaign cid allowed expected targets now d = (d', res)"
  shows "life_ok d'"
  using assms(2)
  by (cases rule: delete_campaign_cases)
    (use assms(1) in \<open>auto intro!: life_ok_status [OF assms(1)] simp: map_keeps_status keeps_status_rows\<close>)

lemma find_campaign_Some:
  "find_campaign cid cs = Some c \<Longrightarrow> c \<in> set cs \<and> c_id c = cid \<and> c_deleted_at c = None"
  by (auto simp: find_campaign_def find_Some_iff)

lemma no_live_status:
  assumes ok: "life_ok d" and c: "c \<in> set (campaigns d)"
    and none: "\<forall>r \<in> set (campaign_runs d). cr_campaign_id r = c_id c \<longrightarrow> cr_mode r \<noteq> LIVE"
  shows "c_status c \<notin> {C_ACTIVE, C_PAUSED}"
  using life_okD(6) [OF ok c] none by fastforce

lemma life_ok_run:
  assumes ok: "life_ok d" and new: "rid \<notin> cr_id ` set (campaign_runs d)"
    and res: "create_run rid i wall now d = (d', r)"
  shows "life_ok d'"
  using res
proof (cases rule: create_run_cases)
  case kept
  then show ?thesis using ok by simp
next
  case (created c)
  note c = find_campaign_Some [OF created(1)]
  let ?r = "new_run rid i c wall now"
  let ?f = "set_campaign_status [c_id c] {C_DRAFT} C_ACTIVE now"
  have runs: "set (campaign_runs d') = insert ?r (set (campaign_runs d))" using created(8) by simp
  have new_run: "cr_id ?r = rid" "cr_campaign_id ?r = c_id c" "cr_mode ?r = ri_mode i"
    "cr_status ?r = R_PREPARING" by (simp_all add: new_run_def)
  have camps: "set (campaigns d') =
      (if ri_mode i = LIVE then row_after ?f ` set (campaigns d) else set (campaigns d))"
    using created(8) by (simp add: set_sql_update_after)
  have ids: "c_id ` set (campaigns d') = c_id ` set (campaigns d)"
    by (simp add: camps image_image status_after)
  have only: "k = c" if "k \<in> set (campaigns d)" "c_id k = c_id c" for k
    using keyed_inj [OF life_okD(1) [OF ok]] that c by simp
  show ?thesis
  proof (rule life_okI)
    show "keyed c_id (campaigns d')"
      using life_okD(1) [OF ok] created(8) by simp
    show "keyed cr_id (campaign_runs d')"
      using life_okD(2) [OF ok] created(8) new by (simp add: new_run)
    show "cr_campaign_id r \<in> c_id ` set (campaigns d')" if "r \<in> set (campaign_runs d')" for r
      using that life_okD(3) [OF ok, of r] c unfolding runs ids by (force simp: new_run)
    show "r = r'" if "r \<in> set (campaign_runs d')" "r' \<in> set (campaign_runs d')"
      "cr_mode r = LIVE" "cr_mode r' = LIVE" "cr_campaign_id r = cr_campaign_id r'" for r r'
      using that life_okD(5) [OF ok, of r r'] created(3) unfolding runs by (auto simp: new_run)
    show "compatible (cr_status r) (c_status k)" if h: "r \<in> set (campaign_runs d')"
      "k \<in> set (campaigns d')" "cr_mode r = LIVE" "c_id k = cr_campaign_id r" for r k
    proof -
      obtain k0 where k0: "k0 \<in> set (campaigns d)" "c_id k = c_id k0"
        "c_status k = (if ri_mode i = LIVE \<and> c_id k0 = c_id c \<and> c_status k0 = C_DRAFT then C_ACTIVE
          else c_status k0)"
        using h(2) unfolding camps by (auto simp: status_after split: if_splits)
      show ?thesis
      proof (cases "r = ?r")
        case True
        then have "k0 = c" using only [OF k0(1)] h(4) k0(2) by (simp add: new_run)
        then show ?thesis using True h(3) k0(3) created(6) by (simp add: new_run)
      next
        case False
        then have r: "r \<in> set (campaign_runs d)" using h(1) by (simp add: runs)
        have "c_id k0 \<noteq> c_id c" using created(3) r h(3,4) k0(2) by auto
        then show ?thesis using life_okD(4) [OF ok r k0(1) h(3)] h(4) k0(2,3) by simp
      qed
    qed
    show "\<exists>r \<in> set (campaign_runs d'). cr_mode r = LIVE \<and> cr_campaign_id r = c_id k"
      if h: "k \<in> set (campaigns d')" "c_status k \<in> {C_ACTIVE, C_PAUSED}" for k
    proof -
      obtain k0 where k0: "k0 \<in> set (campaigns d)" "c_id k = c_id k0"
        "c_status k = (if ri_mode i = LIVE \<and> c_id k0 = c_id c \<and> c_status k0 = C_DRAFT then C_ACTIVE
          else c_status k0)"
        using h(1) unfolding camps by (auto simp: status_after split: if_splits)
      show ?thesis
      proof (cases "ri_mode i = LIVE \<and> c_id k0 = c_id c")
        case True
        then show ?thesis using k0(2) unfolding runs by (auto simp: new_run)
      next
        case False
        then have "c_status k0 \<in> {C_ACTIVE, C_PAUSED}" using h(2) k0(3) by auto
        then show ?thesis using life_okD(6) [OF ok k0(1)] k0(2) unfolding runs by auto
      qed
    qed
  qed
qed

lemma life_ok_recover: "life_ok d \<Longrightarrow> life_ok (fst (recover_expired_preparations now d))"
  by (rule life_move_live [OF _ run_updates(2) [of now], where Q = "\<lambda>r. cr_status r = R_FAILED"
        and old = "{C_ACTIVE, C_PAUSED}" and new = C_ARCHIVED and now = now])
    (auto simp: recover_expired_preparations_def Let_def archive_campaigns_def failed_live_def
      recover_preparation_row_def)

lemma life_ok_fail: "life_ok d \<Longrightarrow> life_ok (fst (fail_preparation_attempt rid tok e now d))"
  by (rule life_move_live [OF _ run_updates(3) [of rid "Failed e" tok now], where Q = "\<lambda>r. cr_status r = R_FAILED" and old = "{C_ACTIVE, C_PAUSED}" and new = C_ARCHIVED and now = now])
    (auto simp: fail_preparation_attempt_def Let_def archive_campaigns_def failed_live_def
      prepare_row_def preparation_owned_def)

lemma life_ok_claim: "life_ok d \<Longrightarrow> life_ok (fst (claim_preparation rid tok now d))"
  by (erule life_runs [OF _ run_updates(1) [of rid tok now]])
    (auto simp: claim_preparation_def claim_preparation_row_def)

lemma life_ok_prepare_row:
  "life_ok d \<Longrightarrow> campaigns d' = campaigns d \<Longrightarrow>
    campaign_runs d' = sql_update (prepare_row rid out tok now) (campaign_runs d) \<Longrightarrow>
    (\<And>e. out \<noteq> Failed e) \<Longrightarrow> life_ok d'"
  by (erule life_runs [OF _ run_updates(3) [of rid out tok now]])
    (auto simp: prepare_row_def preparation_owned_def split: preparation_outcome.splits)

lemma life_ok_preflight:
  "life_ok d \<Longrightarrow> life_ok (fst (apply_preflight ids rid tok report observed wall now d))"
  by (auto simp: apply_preflight_def Let_def intro: life_ok_prepare_row split: option.split)

lemma life_ok_activate: "life_ok d \<Longrightarrow> life_ok (fst (activate_due now d))"
  by (erule life_runs [OF _ run_updates(4) [of now]])
    (auto simp: activate_due_def activate_due_row_def)

lemma live_campaigns_True: "live_campaigns rs = map cr_campaign_id (filter (\<lambda>r. cr_mode r = LIVE \<and> True) rs)"
  by (simp add: live_campaigns_def)

lemma finalize_ids_running:
  assumes "life_ok d" "r \<in> set (campaign_runs d)" "cr_id r \<in> set (finalize_ids limit d)"
  shows "finalizable (deliveries d) r"
proof -
  obtain r' where "r' \<in> set (sql_top limit start_order (finalizable (deliveries d)) (campaign_runs d))"
    "cr_id r' = cr_id r"
    using assms(3) by (auto simp: finalize_ids_def)
  then have "r' \<in> set (campaign_runs d)" "finalizable (deliveries d) r'"
    using set_sql_top by fastforce+
  then show ?thesis
    using keyed_inj [OF life_okD(2) [OF assms(1)] _ assms(2)] \<open>cr_id r' = cr_id r\<close> by metis
qed

lemma life_ok_finalize: "life_ok d \<Longrightarrow> life_ok (fst (finalize_runs limit now d))"
proof (rule life_move_live [OF _ run_updates(5) [of "deliveries d" "finalize_ids limit d" now], where Q = "\<lambda>_. True" and old = "{C_ACTIVE, C_PAUSED}" and new = C_ARCHIVED and now = now])
  fix r r' s
  assume h: "life_ok d" "r \<in> set (campaign_runs d)" "compatible (cr_status r) s"
    "finalize_row (deliveries d) (finalize_ids limit d) now r = Some r'"
  then have "cr_status r = R_RUNNING" "cr_status r' \<in> {R_PARTIAL_FAILED, R_COMPLETED}"
    using finalize_ids_running [OF h(1,2)] by (auto simp: finalize_row_def finalizable_def Let_def)
  then show "compatible (cr_status r') (if True \<and> s \<in> {C_ACTIVE, C_PAUSED} then C_ARCHIVED else s)"
    using h(3) by auto
qed (auto simp: finalize_runs_def Let_def archive_campaigns_def live_campaigns_def)

lemma life_ok_pause: "life_ok d \<Longrightarrow> life_ok (fst (pause_run rid now d))"
  by (rule life_move_live [OF _ run_updates(6) [of rid now], where Q = "\<lambda>_. True"
        and old = "{C_ACTIVE}" and new = C_PAUSED and now = now])
    (auto simp: pause_run_def Let_def pause_campaigns_def live_campaigns_def pause_row_def)

lemma life_ok_blocked: "life_ok d \<Longrightarrow> life_ok (record_blocked_resume rid report now d)"
  by (erule life_runs [OF _ run_updates(7) [of rid report now]])
    (auto simp: record_blocked_resume_def blocked_resume_row_def)

lemma resume_run_cases:
  assumes "resume_run ids rid report observed wall now d = (d', res)"
  obtains (kept) "d' = d" "\<And>v. res \<noteq> Resumed v"
  | (resumed) r where "find_by cr_id rid (campaign_runs d) = Some r" "cr_status r \<in> {R_PAUSED, R_BLOCKED}"
      "\<not> capability_snapshot_changed rid observed d"
      "d' = d\<lparr>run_targets := sql_update (refresh_target_row rid (gateway_groups d)
           (delivery_started (deliveries d))) (run_targets d),
         deliveries := insert_deliveries ids rid now d,
         campaign_runs := sql_update (resume_row rid report wall now) (campaign_runs d),
         campaigns := resume_campaigns (live_campaigns
           (sql_returning (resume_row rid report wall now) (campaign_runs d))) now (campaigns d)\<rparr>"
proof (cases "find_by cr_id rid (campaign_runs d)")
  case None
  then show ?thesis using assms by (intro kept) (auto simp: resume_run_def)
next
  case (Some r)
  show ?thesis
  proof (cases "cr_status r \<in> {R_PAUSED, R_BLOCKED} \<and> \<not> capability_snapshot_changed rid observed d")
    case True
    then show ?thesis using assms Some by (intro resumed [of r]) (auto simp: resume_run_def Let_def)
  next
    case False
    then have "\<exists>res'. resume_run ids rid report observed wall now d = (d, res')
        \<and> (res' = NotResumable \<or> res' = ResumeStale)"
      unfolding resume_run_def Some option.case by auto
    then show ?thesis using assms by (intro kept) auto
  qed
qed

lemma life_ok_resume:
  assumes ok: "life_ok d" and res: "resume_run ids rid report observed wall now d = (d', res)"
  shows "life_ok d'"
  using res
proof (cases rule: resume_run_cases)
  case kept
  then show ?thesis using ok by simp
next
  case (resumed r)
  show ?thesis
    by (rule life_move_live [OF ok run_updates(8) [of rid report wall now], where Q = "\<lambda>_. True"
          and old = "{C_PAUSED}" and new = C_ACTIVE and now = now])
      (use resumed(4) in \<open>auto simp: resume_campaigns_def live_campaigns_def resume_row_def Let_def\<close>)
qed

lemma cancel_run_cases:
  assumes "cancel_run ids rid now d = (d', res)"
  obtains (kept) "d' = d" "res = None"
  | (cancelled) r jobs where "find_by cr_id rid (campaign_runs d) = Some r" "non_terminal (cr_status r)"
      "jobs = sql_update (cancel_row (delivery_jobs rid (insert_deliveries ids rid now d)) now)
         (message_jobs d)"
      "d' = d\<lparr>message_jobs := jobs,
         deliveries := sql_update (cancel_delivery_row rid jobs now) (insert_deliveries ids rid now d),
         campaign_runs := sql_update (cancel_run_row rid now) (campaign_runs d),
         campaigns := archive_campaigns (live_campaigns
           (sql_returning (cancel_run_row rid now) (campaign_runs d))) now (campaigns d)\<rparr>"
      "res = find_run rid d'"
proof (cases "find_by cr_id rid (campaign_runs d)")
  case None
  then show ?thesis using assms by (intro kept) (auto simp: cancel_run_def)
next
  case (Some r)
  show ?thesis
  proof (cases "non_terminal (cr_status r)")
    case True
    then show ?thesis using assms Some
      by (intro cancelled [OF Some True refl]) (auto simp: cancel_run_def Let_def)
  next
    case False
    then show ?thesis using assms Some by (intro kept) (auto simp: cancel_run_def)
  qed
qed

lemma life_ok_cancel:
  assumes ok: "life_ok d" and res: "cancel_run ids rid now d = (d', res)"
  shows "life_ok d'"
  using res
proof (cases rule: cancel_run_cases)
  case kept
  then show ?thesis using ok by simp
next
  case (cancelled r jobs)
  show ?thesis
    by (rule life_move_live [OF ok run_updates(9) [of rid now], where Q = "\<lambda>_. True"
          and old = "{C_ACTIVE, C_PAUSED}" and new = C_ARCHIVED and now = now])
      (use cancelled(4) compatible_archive in
        \<open>auto simp: archive_campaigns_def live_campaigns_def cancel_run_row_def\<close>)
qed

lemma materialize_fold_frame:
  "campaigns (fst (fold (materialize_one rq jids r wall now) ps acc)) = campaigns (fst acc)"
  "campaign_runs (fst (fold (materialize_one rq jids r wall now) ps acc)) = campaign_runs (fst acc)"
  "run_targets (fst (fold (materialize_one rq jids r wall now) ps acc)) = run_targets (fst acc)"
  "campaign_targets (fst (fold (materialize_one rq jids r wall now) ps acc)) = campaign_targets (fst acc)"
  "group_lists (fst (fold (materialize_one rq jids r wall now) ps acc)) = group_lists (fst acc)"
  by (induction ps arbitrary: acc)
    (simp_all add: materialize_one_def Let_def split: prod.splits)

lemma materialize_pending_cases:
  obtains (idle) "materialize_pending rq jids rid buffer wall now d = (d, 0)"
  | (unsendable) r where "find_by cr_id rid (campaign_runs d) = Some r" "cr_status r = R_RUNNING"
      "cr_mode r = LIVE" "\<not> is_session_sendable (gateway_sessions d) (cr_session_id r)"
      "materialize_pending rq jids rid buffer wall now d =
         (d\<lparr>campaign_runs := sql_update (session_pause_row rid now) (campaign_runs d),
            campaigns := pause_campaigns [cr_campaign_id r] now (campaigns d)\<rparr>, 0)"
  | (work) r where "find_by cr_id rid (campaign_runs d) = Some r" "cr_status r = R_RUNNING"
      "active_jobs rid d < buffer"
      "cr_mode r = LIVE \<Longrightarrow> is_session_sendable (gateway_sessions d) (cr_session_id r)"
      "materialize_pending rq jids rid buffer wall now d =
         fold (materialize_one rq jids r wall now) (pending_rows rid (buffer - active_jobs rid d) d) (d, 0)"
proof (cases "find_by cr_id rid (campaign_runs d)")
  case None
  then show ?thesis by (intro idle) (auto simp: materialize_pending_def)
next
  case (Some r)
  consider "cr_status r \<noteq> R_RUNNING"
    | "cr_status r = R_RUNNING" "cr_mode r = LIVE" "\<not> is_session_sendable (gateway_sessions d) (cr_session_id r)"
    | "cr_status r = R_RUNNING" "cr_mode r = LIVE \<Longrightarrow> is_session_sendable (gateway_sessions d) (cr_session_id r)"
    by blast
  then show ?thesis
  proof cases
    case 1
    then show ?thesis using Some by (intro idle) (auto simp: materialize_pending_def)
  next
    case 2
    then show ?thesis using Some by (intro unsendable [of r]) (simp_all add: materialize_pending_def)
  next
    case 3
    then have no: "\<not> (cr_mode r = LIVE \<and> \<not> is_session_sendable (gateway_sessions d) (cr_session_id r))"
      by blast
    show ?thesis
    proof (cases "active_jobs rid d < buffer")
      case True
      then show ?thesis using Some 3 no by (intro work [of r]) (auto simp: materialize_pending_def)
    next
      case False
      then show ?thesis using Some 3 no by (intro idle) (auto simp: materialize_pending_def)
    qed
  qed
qed

lemma life_ok_materialize:
  assumes ok: "life_ok d"
  shows "life_ok (fst (materialize_pending rq jids rid buffer wall now d))"
proof (cases rule: materialize_pending_cases [of rq jids rid buffer wall now d])
  case idle
  then show ?thesis using ok by simp
next
  case (unsendable r)
  note r = find_by_Some [OF unsendable(1)]
  show ?thesis
  proof (rule life_move [OF ok run_updates(10) [of rid now], where ids = "[cr_campaign_id r]"
        and old = "{C_ACTIVE}" and new = C_PAUSED and now = now])
    fix r' s
    assume r': "r' \<in> set (campaign_runs d)" "cr_mode r' = LIVE" "compatible (cr_status r') s"
    show "compatible (cr_status (row_after (session_pause_row rid now) r'))
        (if cr_campaign_id r' \<in> set [cr_campaign_id r] \<and> s \<in> {C_ACTIVE} then C_PAUSED else s)"
    proof (cases "r' = r")
      case True
      then show ?thesis using r' unsendable(2) r by (simp add: row_after_def session_pause_row_def sql_where_def)
    next
      case False
      then have "cr_campaign_id r' \<noteq> cr_campaign_id r" "cr_id r' \<noteq> rid"
        using life_okD(5) [OF ok r'(1), of r] r'(2) r unsendable(3)
          keyed_inj [OF life_okD(2) [OF ok] r'(1), of r] by auto
      then show ?thesis using r'(3) by (simp add: row_after_def session_pause_row_def sql_where_def)
    qed
  qed (use unsendable(5) in \<open>simp_all add: pause_campaigns_def\<close>)
next
  case (work r)
  have "life_ok (fst (materialize_pending rq jids rid buffer wall now d)) = life_ok d"
    by (rule life_ok_cong) (simp_all add: work(5) materialize_fold_frame)
  then show ?thesis using ok by simp
qed

definition list_frame :: "db \<Rightarrow> db \<Rightarrow> bool" where
  "list_frame d d' \<longleftrightarrow> campaigns d' = campaigns d \<and> campaign_runs d' = campaign_runs d
     \<and> campaign_targets d' = campaign_targets d \<and> run_targets d' = run_targets d
     \<and> deliveries d' = deliveries d \<and> message_jobs d' = message_jobs d"

lemma list_apply_frame:
  "campaigns (list_apply low op d) = campaigns d"
  "campaign_runs (list_apply low op d) = campaign_runs d"
  "campaign_targets (list_apply low op d) = campaign_targets d"
  "run_targets (list_apply low op d) = run_targets d"
  "deliveries (list_apply low op d) = deliveries d"
  "message_jobs (list_apply low op d) = message_jobs d"
proof -
  have "list_frame d (list_apply low op d)"
  proof (cases op)
    case (LCreate lid i now)
    obtain d' res where r: "create_list low lid i now d = (d', res)" by fastforce
    from r have "list_frame d d'" by (cases rule: create_list_cases) (simp_all add: list_frame_def)
    then show ?thesis using LCreate r by simp
  next
    case (LUpdate lid name desc expected now)
    obtain d' res where r: "update_list low lid name desc expected now d = (d', res)" by fastforce
    from r have "list_frame d d'" by (cases rule: update_list_cases) (simp_all add: list_frame_def)
    then show ?thesis using LUpdate r by simp
  next
    case (LReplace lid ids expected membership now)
    obtain d' res where r: "replace_groups lid ids expected membership now d = (d', res)" by fastforce
    from r have "list_frame d d'" by (cases rule: replace_groups_cases) (simp_all add: list_frame_def)
    then show ?thesis using LReplace r by simp
  qed (auto simp: archive_list_def list_frame_def)
  then show "campaigns (list_apply low op d) = campaigns d"
    "campaign_runs (list_apply low op d) = campaign_runs d"
    "campaign_targets (list_apply low op d) = campaign_targets d"
    "run_targets (list_apply low op d) = run_targets d"
    "deliveries (list_apply low op d) = deliveries d"
    "message_jobs (list_apply low op d) = message_jobs d" by (simp_all add: list_frame_def)
qed

lemma life_ok_apply:
  assumes ok: "life_ok d" and op: "life_op_ok op d"
  shows "life_ok (life_apply op d)"
proof (cases op)
  case (OGateway ss gs)
  then show ?thesis using ok life_ok_cong [of "d\<lparr>gateway_sessions := ss, gateway_groups := gs\<rparr>" d] by simp
next
  case (OJob jop)
  then show ?thesis using ok life_ok_cong [of "life_apply op d" d] by simp
next
  case (OSubmit jid i now)
  then show ?thesis using ok life_ok_cong [of "life_apply op d" d] by simp
next
  case (OReconcile now)
  then show ?thesis using ok life_ok_cong [of "life_apply op d" d] by (simp add: reconcile_deliveries_def)
next
  case (OList low lop)
  then show ?thesis using ok life_ok_cong [of "life_apply op d" d] by (simp add: list_apply_frame)
qed (use ok op in \<open>simp_all add: life_ok_create life_ok_update life_ok_claim life_ok_recover life_ok_preflight
      life_ok_fail life_ok_activate life_ok_finalize life_ok_pause life_ok_blocked life_ok_materialize
      life_ok_targets [OF _ prod.collapse [symmetric]] life_ok_apply_list [OF _ prod.collapse [symmetric]]
      life_ok_delete [OF _ prod.collapse [symmetric]] life_ok_run [OF _ _ prod.collapse [symmetric]]
      life_ok_resume [OF _ prod.collapse [symmetric]] life_ok_cancel [OF _ prod.collapse [symmetric]]\<close>)

lemma life_ok_fold: "life_ok d \<Longrightarrow> life_ops_ok ops d \<Longrightarrow> life_ok (fold life_apply ops d)"
  by (induction ops arbitrary: d) (simp_all add: life_ok_apply)

section \<open>The audit finds nothing\<close>

definition no_drift :: lifecycle_drift where
  "no_drift = \<lparr>ld_draft_with_live = 0, ld_active_without_live = 0, ld_paused_without_live = 0,
     ld_archived_with_live = 0, ld_multiple_live = 0\<rparr>"

lemma live_runs_one:
  assumes "life_ok d"
  shows "length (live_runs cid (campaign_runs d)) \<le> 1"
proof -
  have dist: "distinct (live_runs cid (campaign_runs d))"
    using life_okD(2) [OF assms] by (simp add: live_runs_def keyed_def distinct_map distinct_filter)
  have "a = b" if "a \<in> set (live_runs cid (campaign_runs d))" "b \<in> set (live_runs cid (campaign_runs d))" for a b
    using that life_okD(5) [OF assms, of a b] by (simp add: live_runs_def)
  then have "card (set (live_runs cid (campaign_runs d))) \<le> 1"
    by (cases "live_runs cid (campaign_runs d)") (auto intro!: card_le_Suc0_iff_eq [THEN iffD2])
  then show ?thesis using distinct_card [OF dist] by simp
qed

lemma life_ok_audit:
  assumes ok: "life_ok d"
  shows "audit_lifecycle d = no_drift"
proof -
  have match: "compatible (cr_status r) (c_status c)"
    if "c \<in> set (campaigns d)" "r \<in> set (live_runs (c_id c) (campaign_runs d))" for c r
    using that life_okD(4) [OF ok] by (simp add: live_runs_def)
  have live: "\<exists>r. r \<in> set (live_runs (c_id c) (campaign_runs d))"
    if "c \<in> set (campaigns d)" "c_status c \<in> {C_ACTIVE, C_PAUSED}" for c
    using life_okD(6) [OF ok that] by (auto simp: live_runs_def)
  have never: "\<not> compatible st C_DRAFT" "compatible st C_ACTIVE \<Longrightarrow> non_terminal st"
    "compatible st C_PAUSED \<Longrightarrow> st \<in> {R_PAUSED, R_BLOCKED}" "compatible st C_ARCHIVED \<Longrightarrow> \<not> non_terminal st" for st
    by (cases st; simp add: non_terminal_def)+
  have "live_runs (c_id c) (campaign_runs d) = []" if "c \<in> set (campaigns d)" "c_status c = C_DRAFT" for c
    using match [OF that(1)] never(1) that(2) by (cases "live_runs (c_id c) (campaign_runs d)") auto
  moreover have "\<exists>r \<in> set (live_runs (c_id c) (campaign_runs d)). non_terminal (cr_status r)"
    if "c \<in> set (campaigns d)" "c_status c = C_ACTIVE" for c
    using match [OF that(1)] live [OF that(1)] never(2) that(2) by force
  moreover have "\<exists>r \<in> set (live_runs (c_id c) (campaign_runs d)). cr_status r \<in> {R_PAUSED, R_BLOCKED}"
    if "c \<in> set (campaigns d)" "c_status c = C_PAUSED" for c
    using match [OF that(1)] live [OF that(1)] never(3) that(2) by force
  moreover have "\<not> (\<exists>r \<in> set (live_runs (c_id c) (campaign_runs d)). non_terminal (cr_status r))"
    if "c \<in> set (campaigns d)" "c_status c = C_ARCHIVED" for c
    using match [OF that(1)] never(4) that(2) by force
  moreover have "\<not> 1 < length (live_runs cid (campaign_runs d))" for cid
    using live_runs_one [OF ok, of cid] by simp
  ultimately show ?thesis
    by (auto simp: audit_lifecycle_def no_drift_def Let_def filter_empty_conv)
qed

definition campaign_sample :: campaign_input where
  "campaign_sample = \<lparr>ci_session_id = ''s1'', ci_name = ''Launch'', ci_text = ''Hello'',
     ci_schedule_type = IMMEDIATE, ci_scheduled_at = None, ci_key = ''k1'', ci_hash = ''h1''\<rparr>"

definition run_sample :: run_input where
  "run_sample = \<lparr>ri_campaign_id = ''c1'', ri_key = ''rk1'', ri_mode = LIVE,
     ri_expected_revision = Some 1, ri_expected_targets = None\<rparr>"

lemma life_ok_sample_lists: "life_ok sample_lists"
  by (simp add: life_ok_def sample_lists_def empty_db_def)

text \<open>C11: Whatever transactions of the campaign subsystem run and in whatever order, with the gateway's
  data, the saved lists and the message jobs changing in between, the lifecycle audit counts no drift
  in any of its five classes: the status of a campaign always agrees with that of its only LIVE run.\<close>

theorem lifecycle_never_drifts:
  assumes "life_ok d" "life_ops_ok ops d"
  shows "audit_lifecycle (fold life_apply ops d) = no_drift"
  by (rule life_ok_audit [OF life_ok_fold [OF assms]])

lemma lifecycle_never_drifts_witness:
  "audit_lifecycle (fold life_apply [OCreate ''c1'' campaign_sample 1, ORun ''r1'' run_sample 2 2,
     OClaim ''r1'' ''t1'' 3, OCancel id ''r1'' 4] sample_lists) = no_drift"
  using lifecycle_never_drifts [OF life_ok_sample_lists, of "[OCreate ''c1'' campaign_sample 1,
     ORun ''r1'' run_sample 2 2, OClaim ''r1'' ''t1'' 3, OCancel id ''r1'' 4]"]
  by (simp add: sample_lists_def empty_db_def claim_preparation_def)

end
