(* ===== verification/Campaign_Deliveries.thy ===== *)
theory Campaign_Deliveries
  imports Campaign_Lifecycle
begin

text \<open>
  What the operations on the runs and their deliveries achieve: the preparation lease, finalizing,
  cancelling, reconciling and materializing.
\<close>

section \<open>The preparation lease\<close>

text \<open>A result that finds the observed capabilities stale gives the attempt of its claim back.\<close>

interpretation preparation: refunding_work cr_lease_token cr_lease_expires_at "claim_preparation_row rid"
    "prepare_row rid" recover_preparation_row cr_attempt_count 3 "\<lambda>out. out = Stale" for rid
proof unfold_locales
  fix s t now r r'
  assume p: "prepare_row rid s t now r = Some r'"
  then show "cr_lease_token r = Some t \<and> null_after (cr_lease_expires_at r) now"
    by (auto simp: prepare_row_def preparation_owned_def)
  from p show "cr_lease_token r' = None" "cr_attempt_count r' = cr_attempt_count r - (if s = Stale then 1 else 0)"
    by (auto simp: prepare_row_def Let_def split: preparation_outcome.splits)
qed (auto simp: claim_preparation_row_def preparation_ready_def recover_preparation_row_def Let_def)

text \<open>The claims of a history of one run that were granted, the stale results that were recorded, and the run after it.\<close>

definition granted_claims ::
  "uuid \<Rightarrow> preparation_outcome lease_event list \<Rightarrow> campaign_run \<Rightarrow> nat" where
  "granted_claims rid es r = preparation.grants rid es r"

definition stale_results ::
  "uuid \<Rightarrow> preparation_outcome lease_event list \<Rightarrow> campaign_run \<Rightarrow> nat" where
  "stale_results rid es r = preparation.given_back rid es r"

definition run_after :: "uuid \<Rightarrow> preparation_outcome lease_event list \<Rightarrow> campaign_run \<Rightarrow> campaign_run" where
  "run_after rid es r = preparation.lease_run rid es r"

lemma run_after_keeps_id: "cr_id (run_after rid es r) = cr_id r"
proof (induction es arbitrary: r)
  case (Cons e es)
  have "cr_id (preparation.lease_step rid e r) = cr_id r"
    by (cases e) (auto simp: preparation.lease_step_def preparation.lease_effect_def claim_preparation_row_def
        recover_preparation_row_def prepare_row_def sql_where_def Let_def split: preparation_outcome.splits)
  then show ?case using Cons.IH by (simp add: run_after_def preparation.lease_run_def)
qed (simp add: run_after_def preparation.lease_run_def)

text \<open>A PREPARING run that may not be claimed any more is failed by the next sweep after its lease.\<close>

lemma exhausted_swept:
  assumes "cr_status r = R_PREPARING" "cr_attempt_count r = 3"
    and "\<And>t. cr_lease_expires_at r = Some t \<Longrightarrow> t < now"
    and "cr_lease_token r \<noteq> None \<Longrightarrow> cr_lease_expires_at r \<noteq> None"
  shows "\<exists>r'. recover_preparation_row now r = Some r' \<and> cr_status r' = R_FAILED"
  using assms
  by (cases "cr_lease_token r"; cases "cr_lease_expires_at r")
    (auto simp: recover_preparation_row_def sql_where_def Let_def)

section \<open>Finalizing\<close>

lemma finalize_ids_spec:
  assumes "life_ok d" "r \<in> set (campaign_runs d)"
  shows "finalize_row (deliveries d) (finalize_ids limit d) now r = Some r' \<longleftrightarrow>
    cr_id r \<in> set (finalize_ids limit d)
    \<and> finalizable (deliveries d) r
    \<and> r' = r\<lparr>cr_status := (if \<exists>x \<in> set (deliveries d). cd_run_id x = cr_id r \<and> delivery_failed (cd_status x)
          then R_PARTIAL_FAILED else R_COMPLETED),
        cr_reason := (if \<exists>x \<in> set (deliveries d). cd_run_id x = cr_id r \<and> delivery_failed (cd_status x)
          then Some ONE_OR_MORE_DELIVERIES_FAILED else None),
        cr_completed_at := Some now, cr_updated_at := now\<rparr>"
  using finalize_ids_running [OF assms]
  by (auto simp: finalize_row_def run_deliveries_def Let_def)

section \<open>Reconciling\<close>

lemma reconcile_row_agrees:
  assumes "delivery_job jobs x = Some j" "delivery_of_job (mj_status j) = Some s"
  shows "cd_status (row_after (reconcile_row jobs now) x) = s
    \<and> (mj_status j \<in> {J_FAILED, J_UNKNOWN} \<longrightarrow>
         cd_failure_reason (row_after (reconcile_row jobs now) x) = mj_last_error j)"
  using assms by (auto simp: reconcile_row_def row_after_def Let_def)

lemma reconcile_row_job: "cd_job_id (row_after (reconcile_row jobs now) x) = cd_job_id x"
  by (auto simp: reconcile_row_def row_after_def Let_def split: option.splits)

lemma reconcile_row_twice: "reconcile_row jobs now' (row_after (reconcile_row jobs now) x) = None"
proof (cases "delivery_job jobs x")
  case None
  then show ?thesis by (simp add: reconcile_row_def row_after_def)
next
  case (Some j)
  have same: "delivery_job jobs (row_after (reconcile_row jobs now) x) = Some j"
    using Some by (simp add: delivery_job_def reconcile_row_job)
  show ?thesis
  proof (cases "delivery_of_job (mj_status j)")
    case None
    then show ?thesis using same by (simp add: reconcile_row_def)
  next
    case s: (Some s)
    show ?thesis using same reconcile_row_agrees [OF Some s, of now]
      by (auto simp: reconcile_row_def s Let_def)
  qed
qed

section \<open>Cancelling\<close>

lemma mem_fold_insert:
  "x \<in> set (fold (\<lambda>t. sql_insert_new delivery_key (new_delivery ids rid now (rt_group_id t))) ts ds)
     \<longleftrightarrow> x \<in> set ds \<or> (\<exists>t \<in> set ts. x = new_delivery ids rid now (rt_group_id t)
          \<and> (rid, rt_group_id t) \<notin> delivery_key ` set ds)"
proof (induction ts arbitrary: ds)
  case (Cons t ts)
  have key: "delivery_key (new_delivery ids rid now g) = (rid, g)" for g
    by (simp add: delivery_key_def new_delivery_def)
  show ?case
    unfolding fold_simps Cons.IH
    by (cases "(rid, rt_group_id t) \<in> delivery_key ` set ds") (auto simp: sql_insert_new_def key)
qed simp

lemma mem_insert_deliveries:
  "x \<in> set (insert_deliveries ids rid now d) \<longleftrightarrow> x \<in> set (deliveries d)
     \<or> (\<exists>t \<in> set (run_targets d). rt_run_id t = rid \<and> x = new_delivery ids rid now (rt_group_id t)
          \<and> \<not> (\<exists>y \<in> set (deliveries d). cd_run_id y = rid \<and> cd_group_id y = rt_group_id t))"
proof -
  have key: "(rid, g) \<in> delivery_key ` set ds \<longleftrightarrow> (\<exists>y \<in> set ds. cd_run_id y = rid \<and> cd_group_id y = g)" for g ds
    by (force simp: delivery_key_def)
  show ?thesis unfolding insert_deliveries_def mem_fold_insert key by auto
qed

lemma every_target_delivered:
  "t \<in> set (run_targets d) \<Longrightarrow> rt_run_id t = rid \<Longrightarrow>
     \<exists>x \<in> set (insert_deliveries ids rid now d). cd_run_id x = rid \<and> cd_group_id x = rt_group_id t"
proof (cases "\<exists>y \<in> set (deliveries d). cd_run_id y = rid \<and> cd_group_id y = rt_group_id t")
  case True
  then show ?thesis by (auto simp: mem_insert_deliveries)
next
  case False
  assume "t \<in> set (run_targets d)" "rt_run_id t = rid"
  with False have "new_delivery ids rid now (rt_group_id t) \<in> set (insert_deliveries ids rid now d)"
    by (auto simp: mem_insert_deliveries)
  then show ?thesis by (rule bexI [rotated]) (simp add: new_delivery_def)
qed

lemma cancelled_jobs_stopped:
  assumes "x \<in> set ds" "cd_run_id x = rid" "cd_job_id x = Some jid"
    and "j \<in> set (sql_update (cancel_row (delivery_jobs rid ds) now) jobs)" "mj_id j = jid"
  shows "mj_status j \<notin> {J_SCHEDULED, J_QUEUED}"
proof -
  have "jid \<in> set (delivery_jobs rid ds)"
    using assms(1-3) by (force simp: delivery_jobs_def run_deliveries_def map_filter_def)
  with assms(4,5) show ?thesis
    by (auto simp: set_sql_update_after row_after_def cancel_row_def sql_where_def split: if_splits)
qed

lemma cancel_delivery_keeps:
  "cd_run_id (row_after (cancel_delivery_row rid jobs now) x) = cd_run_id x"
  "cd_group_id (row_after (cancel_delivery_row rid jobs now) x) = cd_group_id x"
  "cd_job_id (row_after (cancel_delivery_row rid jobs now) x) = cd_job_id x"
  by (auto simp: row_after_def cancel_delivery_row_def sql_where_def)

lemma cancel_delivery_not_pending:
  "cd_run_id x = rid \<Longrightarrow> cd_status (row_after (cancel_delivery_row rid jobs now) x) \<noteq> D_PENDING"
  by (auto simp: row_after_def cancel_delivery_row_def sql_where_def)

lemma cancel_delivery_cancelled:
  "cd_run_id x = rid \<Longrightarrow> cd_job_id x = Some (mj_id j) \<Longrightarrow> j \<in> set jobs \<Longrightarrow> mj_status j = J_CANCELLED
    \<Longrightarrow> cd_status (row_after (cancel_delivery_row rid jobs now) x) = D_CANCELLED"
  by (auto simp: row_after_def cancel_delivery_row_def sql_where_def)

lemma cancel_row_keeps_id: "mj_id (row_after (cancel_row ids now) j) = mj_id j"
  by (auto simp: row_after_def cancel_row_def sql_where_def)

section \<open>Properties\<close>

text \<open>A LIVE run of one group, before and after its delivery was materialized.\<close>

definition delivery_db :: "delivery_status \<Rightarrow> message_job_status \<Rightarrow> db" where
  "delivery_db ds js = sample_lists\<lparr>
     campaigns := [(new_campaign ''c1'' campaign_sample 0)\<lparr>c_status := C_ACTIVE\<rparr>],
     campaign_runs := [(new_run ''r1'' run_sample (new_campaign ''c1'' campaign_sample 0) 0 0)
       \<lparr>cr_status := R_RUNNING\<rparr>],
     run_targets := [\<lparr>rt_run_id = ''r1'', rt_session_id = ''s1'', rt_group_id = ''g1@g.us'',
       rt_group_name = ''G'', rt_capability = ALLOWED, rt_reason = SEND_ALLOWED, rt_revision = 1,
       rt_checked_at = None\<rparr>],
     deliveries := [(new_delivery (\<lambda>_. ''d1'') ''r1'' 0 ''g1@g.us'')\<lparr>cd_job_id := Some ''j1'', cd_status := ds\<rparr>],
     message_jobs := [(new_job ''j1'' sample_input 0)\<lparr>mj_status := js\<rparr>]\<rparr>"

lemma delivery_db_ok: "life_ok (delivery_db ds js)"
  by (simp add: life_ok_def delivery_db_def sample_lists_def empty_db_def new_campaign_def new_run_def
      keyed_def run_sample_def campaign_sample_def)

text \<open>C25: From a new run on, in any history of claims, preparation results and sweeps, the claims that are granted are the
  attempts the run counts and those that a stale snapshot of the capabilities gave back, and the attempts never exceed
  three: changes of the groups may make a preparation start over any number of times, but at most three claims fail,
  expire or succeed. While a run still prepares with fewer attempts and no lease, it can be claimed when its next
  attempt is due. After the third attempt no claim is granted, a recorded failure fails the run, and so does the first
  sweep past its lease.\<close>

theorem preparation_ends:
  assumes "cr_id r = rid" "cr_attempt_count r = 0" "cr_lease_token r = None"
    and r': "r' = run_after rid es r"
  shows "granted_claims rid es r = cr_attempt_count r' + stale_results rid es r \<and> cr_attempt_count r' \<le> 3
    \<and> (cr_status r' = R_PREPARING \<longrightarrow> cr_attempt_count r' < 3 \<longrightarrow> cr_lease_token r' = None \<longrightarrow>
         (\<forall>now tok. cr_next_attempt_at r' \<le> now \<longrightarrow> claim_preparation_row rid tok now r' \<noteq> None))
    \<and> (cr_status r' = R_PREPARING \<longrightarrow> cr_attempt_count r' = 3 \<longrightarrow>
         (\<forall>tok now. claim_preparation_row rid tok now r' = None)
         \<and> (\<forall>e tok now r''. prepare_row rid (Failed e) tok now r' = Some r'' \<longrightarrow> cr_status r'' = R_FAILED)
         \<and> (\<forall>now. (\<forall>t. cr_lease_expires_at r' = Some t \<longrightarrow> t < now) \<longrightarrow>
              (\<exists>r''. recover_preparation_row now r' = Some r'' \<and> cr_status r'' = R_FAILED)))"
proof -
  have start: "cr_lease_token r \<noteq> None \<longrightarrow> 0 < cr_attempt_count r" using assms(3) by simp
  have count: "granted_claims rid es r = cr_attempt_count r' + stale_results rid es r"
    using preparation.charged_run [OF start, of rid es] assms(2)
    by (simp add: r' run_after_def granted_claims_def stale_results_def)
  have bound: "cr_attempt_count r' \<le> 3"
    using preparation.charged_bounded [OF start, of rid es] assms(2) by (simp add: r' run_after_def)
  have lease: "cr_lease_token r' \<noteq> None \<Longrightarrow> cr_lease_expires_at r' \<noteq> None"
    using preparation.token_from_claim [OF assms(3), of rid es] preparation.claim_grants
    unfolding r' run_after_def by (metis not_Some_eq option.distinct(1))
  have rid: "cr_id r' = rid"
    unfolding r' by (simp add: run_after_keeps_id assms(1))
  have claimed: "claim_preparation_row rid tok now r' \<noteq> None"
    if "cr_status r' = R_PREPARING" "cr_attempt_count r' < 3" "cr_lease_token r' = None" "cr_next_attempt_at r' \<le> now"
    for tok now
    using that rid by (simp add: claim_preparation_row_def preparation_ready_def sql_where_def)
  have refused: "claim_preparation_row rid tok now r' = None" if "cr_attempt_count r' = 3" for tok now
    using that by (simp add: claim_preparation_row_def preparation_ready_def sql_where_def)
  have failed: "cr_status r'' = R_FAILED"
    if "cr_attempt_count r' = 3" "prepare_row rid (Failed e) tok now r' = Some r''" for e tok now r''
    using that by (auto simp: prepare_row_def Let_def)
  have swept: "\<exists>r''. recover_preparation_row now r' = Some r'' \<and> cr_status r'' = R_FAILED"
    if "cr_status r' = R_PREPARING" "cr_attempt_count r' = 3" "\<forall>t. cr_lease_expires_at r' = Some t \<longrightarrow> t < now" for now
    by (rule exhausted_swept) (use that lease in auto)
  show ?thesis using count bound claimed refused failed swept by blast
qed

text \<open>A claim whose snapshot went stale, and three that failed or expired.\<close>

definition troubled_preparation :: "preparation_outcome lease_event list" where
  "troubled_preparation = [Claim ''t1'' 0, Settle Stale ''t1'' 1, Claim ''t2'' 1, Settle (Failed ''boom'') ''t2'' 2,
     Claim ''t3'' 20000, Sweep 200000, Claim ''t4'' 200000]"

lemma preparation_ends_witness:
  "granted_claims ''r1'' troubled_preparation (new_run ''r1'' run_sample (new_campaign ''c1'' campaign_sample 0) 0 0)
     = cr_attempt_count (run_after ''r1'' troubled_preparation
         (new_run ''r1'' run_sample (new_campaign ''c1'' campaign_sample 0) 0 0))
       + stale_results ''r1'' troubled_preparation (new_run ''r1'' run_sample (new_campaign ''c1'' campaign_sample 0) 0 0)"
  using preparation_ends [of "new_run ''r1'' run_sample (new_campaign ''c1'' campaign_sample 0) 0 0" "''r1''" _
      troubled_preparation] by (simp add: new_run_def)

text \<open>Finalizing changes at most limit runs, and only RUNNING ones that have deliveries and no
  open delivery: such a run is COMPLETED when none of its deliveries failed and PARTIAL_FAILED
  otherwise, with its completion time set.\<close>

theorem finalize_classifies_runs:
  assumes "life_ok d" "finalize_runs limit now d = (d', n)"
  shows "n \<le> limit \<and> length (campaign_runs d') = length (campaign_runs d)
    \<and> list_all2 (\<lambda>r r'. r' = r \<or> finalizable (deliveries d) r \<and> cr_completed_at r' = Some now
         \<and> (cr_status r' = R_COMPLETED \<and> \<not> (\<exists>x \<in> set (run_deliveries (cr_id r) (deliveries d)).
              delivery_failed (cd_status x))
           \<or> cr_status r' = R_PARTIAL_FAILED \<and> (\<exists>x \<in> set (run_deliveries (cr_id r) (deliveries d)).
              delivery_failed (cd_status x))))
       (campaign_runs d) (campaign_runs d')"
proof -
  let ?f = "finalize_row (deliveries d) (finalize_ids limit d) now"
  have runs: "campaign_runs d' = map (row_after ?f) (campaign_runs d)" and n: "n = sql_count ?f (campaign_runs d)"
    using assms(2) by (auto simp: finalize_runs_def Let_def map_after sql_count_def)
  have "length (sql_returning ?f rs) = length (filter (\<lambda>r. cr_id r \<in> set (finalize_ids limit d)) rs)" for rs
    by (induction rs) (auto simp: finalize_row_def sql_where_def)
  then have "n = length (filter (\<lambda>i. i \<in> set (finalize_ids limit d)) (map cr_id (campaign_runs d)))"
    by (simp add: n sql_count_def filter_map comp_def)
  also have "\<dots> = card (set (filter (\<lambda>i. i \<in> set (finalize_ids limit d)) (map cr_id (campaign_runs d))))"
    using life_okD(2) [OF assms(1)] by (intro distinct_card [symmetric]) (simp add: keyed_def)
  also have "\<dots> \<le> card (set (finalize_ids limit d))" by (intro card_mono) auto
  also have "\<dots> \<le> limit"
    using card_length [of "finalize_ids limit d"] length_sql_top [of limit start_order] le_trans
    by (simp add: finalize_ids_def) (metis le_trans card_length length_map length_sql_top)
  finally have "n \<le> limit" .
  moreover have "list_all2 (\<lambda>r r'. r' = r \<or> finalizable (deliveries d) r \<and> cr_completed_at r' = Some now
         \<and> (cr_status r' = R_COMPLETED \<and> \<not> (\<exists>x \<in> set (run_deliveries (cr_id r) (deliveries d)).
              delivery_failed (cd_status x))
           \<or> cr_status r' = R_PARTIAL_FAILED \<and> (\<exists>x \<in> set (run_deliveries (cr_id r) (deliveries d)).
              delivery_failed (cd_status x))))
       (campaign_runs d) (map (row_after ?f) (campaign_runs d))"
    unfolding list_all2_map2
  proof (rule list.rel_refl_strong)
    fix r
    assume r: "r \<in> set (campaign_runs d)"
    show "row_after ?f r = r \<or> finalizable (deliveries d) r \<and> cr_completed_at (row_after ?f r) = Some now
         \<and> (cr_status (row_after ?f r) = R_COMPLETED \<and> \<not> (\<exists>x \<in> set (run_deliveries (cr_id r) (deliveries d)).
              delivery_failed (cd_status x))
           \<or> cr_status (row_after ?f r) = R_PARTIAL_FAILED \<and> (\<exists>x \<in> set (run_deliveries (cr_id r) (deliveries d)).
              delivery_failed (cd_status x)))"
    proof (cases "?f r")
      case (Some r')
      then show ?thesis using finalize_ids_spec [OF assms(1) r, of limit now r']
        by (auto simp: row_after_def run_deliveries_def)
    qed (simp add: row_after_def)
  qed
  ultimately show ?thesis using runs by simp
qed

lemma finalize_classifies_runs_witness:
  "length (campaign_runs (fst (finalize_runs 5 9 (delivery_db D_SENT J_SENT)))) = 1"
  using finalize_classifies_runs [OF delivery_db_ok prod.collapse [symmetric], of 5 9 D_SENT J_SENT]
  by (simp add: delivery_db_def)

text \<open>After the deliveries were reconciled every delivery whose job has a status to report carries
  that status, and for a failed or unknown job its error; a second reconciliation changes nothing.\<close>

theorem reconcile_idempotent:
  assumes "reconcile_deliveries now d = (d', n)"
  shows "reconcile_deliveries now' d' = (d', 0)
    \<and> (\<forall>x \<in> set (deliveries d'). \<forall>j. delivery_job (message_jobs d) x = Some j \<longrightarrow>
         delivery_of_job (mj_status j) \<in> {None, Some (cd_status x)}
         \<and> (mj_status j \<in> {J_FAILED, J_UNKNOWN} \<longrightarrow> cd_failure_reason x = mj_last_error j))"
proof -
  have d': "d' = d\<lparr>deliveries := map (row_after (reconcile_row (message_jobs d) now)) (deliveries d)\<rparr>"
    using assms by (simp add: reconcile_deliveries_def map_after)
  have none: "reconcile_row (message_jobs d) now' x = None" if "x \<in> set (deliveries d')" for x
    using that d' reconcile_row_twice by auto
  then have "sql_update (reconcile_row (message_jobs d) now') (deliveries d') = deliveries d'"
    "sql_count (reconcile_row (message_jobs d) now') (deliveries d') = 0"
    by (auto intro: sql_update_id)
  then have "reconcile_deliveries now' d' = (d', 0)" using d' by (simp add: reconcile_deliveries_def)
  moreover have "delivery_of_job (mj_status j) \<in> {None, Some (cd_status x)}
      \<and> (mj_status j \<in> {J_FAILED, J_UNKNOWN} \<longrightarrow> cd_failure_reason x = mj_last_error j)"
    if x: "x \<in> set (deliveries d')" "delivery_job (message_jobs d) x = Some j" for x j
    using none [OF x(1)] x(2)
    by (auto simp: reconcile_row_def Let_def split: option.splits if_splits)
  ultimately show ?thesis by blast
qed

lemma reconcile_idempotent_witness:
  "snd (reconcile_deliveries 9 (fst (reconcile_deliveries 5 (delivery_db D_MATERIALIZED J_SENT)))) = 0"
  using reconcile_idempotent [OF prod.collapse [symmetric], of 9 5 "delivery_db D_MATERIALIZED J_SENT"]
  by simp

lemma find_run_some:
  assumes "find_by cr_id rid (campaign_runs d) = Some r"
    and "campaign_runs d' = sql_update (cancel_run_row rid now) (campaign_runs d)"
    and "non_terminal (cr_status r)"
  shows "\<exists>v. find_run rid d' = Some v \<and> cr_status (rw_run v) = R_CANCELLED"
proof -
  have "find_by cr_id rid (campaign_runs d') =
      map_option (\<lambda>r. case cancel_run_row rid now r of None \<Rightarrow> r | Some r' \<Rightarrow> r')
        (find_by cr_id rid (campaign_runs d))"
    unfolding assms(2) by (rule find_by_sql_update) (auto simp: cancel_run_row_def)
  then show ?thesis
    using assms(1,3) find_by_Some [OF assms(1)]
    by (simp add: find_run_def map_run_def cancel_run_row_def sql_where_def)
qed



end
