(* ===== verification/Campaign_History.thy ===== *)
theory Campaign_History
  imports Campaign_Lifecycle
begin

text \<open>
  What stays the same when campaigns and runs change: the revisions of a campaign pin what a run takes
  from it, a launched or deleted campaign is frozen, a run keeps its snapshot, and a run that has
  ended never changes again.
\<close>

section \<open>Campaigns\<close>

definition campaign_content :: "campaign \<Rightarrow> string \<times> string \<times> schedule_type \<times> timestamp option" where
  "campaign_content c = (c_name c, c_text c, c_schedule_type c, c_scheduled_at c)"

definition frozen :: "campaign \<Rightarrow> bool" where
  "frozen c \<longleftrightarrow> c_status c \<noteq> C_DRAFT \<or> c_deleted_at c \<noteq> None"

definition campaign_kept :: "campaign \<Rightarrow> campaign \<Rightarrow> bool" where
  "campaign_kept c c' \<longleftrightarrow> c_id c' = c_id c \<and> c_session_id c' = c_session_id c
     \<and> c_create_key c' = c_create_key c \<and> c_create_hash c' = c_create_hash c
     \<and> c_revision c \<le> c_revision c' \<and> c_targets_revision c \<le> c_targets_revision c'
     \<and> (c_revision c' = c_revision c \<longrightarrow>
          campaign_content c' = campaign_content c \<and> c_deleted_at c' = c_deleted_at c)
     \<and> (c_targets_revision c' = c_targets_revision c \<longrightarrow> c_source c' = c_source c)
     \<and> (frozen c \<longrightarrow> frozen c' \<and> campaign_content c' = campaign_content c \<and> c_source c' = c_source c
          \<and> c_targets_revision c' = c_targets_revision c)
     \<and> (c_deleted_at c \<noteq> None \<longrightarrow> c_deleted_at c' = c_deleted_at c)"

definition targets_of :: "uuid \<Rightarrow> db \<Rightarrow> campaign_target list" where
  "targets_of cid d = filter (\<lambda>t. tg_campaign_id t = cid) (campaign_targets d)"

definition campaign_pinned :: "db \<Rightarrow> db \<Rightarrow> campaign \<Rightarrow> campaign \<Rightarrow> bool" where
  "campaign_pinned d d' c c' \<longleftrightarrow> campaign_kept c c'
     \<and> (c_targets_revision c' = c_targets_revision c \<longrightarrow> targets_of (c_id c) d' = targets_of (c_id c) d)"

lemma campaign_kept_refl [simp]: "campaign_kept c c"
  by (simp add: campaign_kept_def)

lemma campaign_kept_trans:
  assumes a: "campaign_kept c0 c1" and b: "campaign_kept c1 c2"
  shows "campaign_kept c0 c2"
proof -
  have eqs: "c_id c2 = c_id c0" "c_session_id c2 = c_session_id c0" "c_create_key c2 = c_create_key c0"
    "c_create_hash c2 = c_create_hash c0" "c_revision c0 \<le> c_revision c1" "c_revision c1 \<le> c_revision c2"
    "c_targets_revision c0 \<le> c_targets_revision c1" "c_targets_revision c1 \<le> c_targets_revision c2"
    using a b by (simp_all add: campaign_kept_def)
  have rev: "campaign_content c2 = campaign_content c0 \<and> c_deleted_at c2 = c_deleted_at c0"
    if "c_revision c2 = c_revision c0"
  proof -
    have "c_revision c1 = c_revision c0" "c_revision c2 = c_revision c1" using that eqs by simp_all
    then show ?thesis using a b by (simp add: campaign_kept_def)
  qed
  have src: "c_source c2 = c_source c0" if "c_targets_revision c2 = c_targets_revision c0"
  proof -
    have "c_targets_revision c1 = c_targets_revision c0" "c_targets_revision c2 = c_targets_revision c1"
      using that eqs by simp_all
    then show ?thesis using a b by (simp add: campaign_kept_def)
  qed
  have frz: "frozen c2 \<and> campaign_content c2 = campaign_content c0 \<and> c_source c2 = c_source c0
      \<and> c_targets_revision c2 = c_targets_revision c0" if "frozen c0"
    using that a b by (simp add: campaign_kept_def)
  have del: "c_deleted_at c2 = c_deleted_at c0" if "c_deleted_at c0 \<noteq> None"
    using that a b by (auto simp: campaign_kept_def)
  show ?thesis using eqs rev src frz del by (simp add: campaign_kept_def)
qed

lemma campaign_pinned_trans:
  assumes a: "campaign_pinned d0 d1 c0 c1" and b: "campaign_pinned d1 d2 c1 c2"
  shows "campaign_pinned d0 d2 c0 c2"
proof -
  have "c_targets_revision c2 = c_targets_revision c0 \<Longrightarrow>
      c_targets_revision c1 = c_targets_revision c0 \<and> c_targets_revision c2 = c_targets_revision c1"
    using a b by (auto simp: campaign_pinned_def campaign_kept_def)
  moreover have "c_id c1 = c_id c0" using a by (simp add: campaign_pinned_def campaign_kept_def)
  ultimately show ?thesis
    using a b campaign_kept_trans [of c0 c1 c2] by (auto simp: campaign_pinned_def)
qed

lemma kept_status:
  "new \<noteq> C_DRAFT \<Longrightarrow> set_campaign_status ids old new now c = Some c' \<Longrightarrow> campaign_kept c c'"
  by (auto simp: set_campaign_status_def campaign_kept_def campaign_content_def frozen_def)

lemma kept_update: "update_campaign_row cid n x st t expected now c = Some c' \<Longrightarrow> campaign_kept c c'"
  by (auto simp: update_campaign_row_def campaign_kept_def campaign_content_def frozen_def Let_def)

lemma kept_delete: "delete_row cid now c = Some c' \<Longrightarrow> campaign_kept c c'"
  by (auto simp: delete_row_def campaign_kept_def campaign_content_def frozen_def)

lemma kept_source: "source_row cid src now c = Some c' \<Longrightarrow> \<not> frozen c \<Longrightarrow>
    campaign_kept c c' \<and> c_targets_revision c' = c_targets_revision c + 1"
  by (auto simp: source_row_def campaign_kept_def campaign_content_def frozen_def)

definition keeps_history :: "db \<Rightarrow> db \<Rightarrow> bool" where
  "keeps_history d d' \<longleftrightarrow>
     (\<forall>c \<in> set (campaigns d). \<exists>c' \<in> set (campaigns d'). campaign_pinned d d' c c')"

lemma keeps_history_rows:
  assumes "campaigns d' = sql_update f (campaigns d)" "campaign_targets d' = campaign_targets d"
    and "\<And>c c'. f c = Some c' \<Longrightarrow> campaign_kept c c'"
  shows "keeps_history d d'"
  unfolding keeps_history_def
proof
  fix c
  assume c: "c \<in> set (campaigns d)"
  have targets: "targets_of cid d' = targets_of cid d" for cid using assms(2) by (simp add: targets_of_def)
  have "row_after f c \<in> set (campaigns d')"
    using c assms(1) by (simp add: set_sql_update_after)
  moreover have "campaign_kept c (row_after f c)"
    using assms(3) by (cases "f c") (simp_all add: row_after_def)
  ultimately show "\<exists>c' \<in> set (campaigns d'). campaign_pinned d d' c c'"
    using targets by (auto simp: campaign_pinned_def)
qed

lemma keeps_history_same:
  "campaigns d' = campaigns d \<Longrightarrow> campaign_targets d' = campaign_targets d \<Longrightarrow> keeps_history d d'"
  by (rule keeps_history_rows [where f = "\<lambda>_. None"]) (auto simp: sql_update_id)

lemma keeps_history_targets:
  assumes ok: "life_ok d" and c: "find_campaign cid (campaigns d) = Some c" "c_status c = C_DRAFT"
    and d': "campaigns d' = sql_update (source_row cid src now) (campaigns d)"
      "campaign_targets d' = set_targets cid sid ids (campaign_targets d)"
  shows "keeps_history d d'"
  unfolding keeps_history_def
proof
  fix k
  assume k: "k \<in> set (campaigns d)"
  note c' = find_campaign_Some [OF c(1)]
  have targets: "targets_of j d' = targets_of j d" if "j \<noteq> cid" for j
    using that by (auto simp: targets_of_def d'(2) set_targets_def sql_delete_def new_targets_def
        filter_empty_conv intro: filter_cong)
  show "\<exists>c' \<in> set (campaigns d'). campaign_pinned d d' k c'"
  proof (cases "c_id k = cid")
    case True
    then have "k = c" using keyed_inj [OF life_okD(1) [OF ok] k, of c] c' by simp
    let ?k = "row_after (source_row cid src now) k"
    have some: "source_row cid src now k = Some ?k" using True by (simp add: row_after_def source_row_def sql_where_def)
    have "\<not> frozen k" using \<open>k = c\<close> c c' by (simp add: frozen_def)
    then have "campaign_pinned d d' k ?k" using kept_source [OF some] by (simp add: campaign_pinned_def)
    then show ?thesis using k d'(1) by (auto simp: set_sql_update_after)
  next
    case False
    have "row_after (source_row cid src now) k = k"
      using False by (simp add: row_after_def source_row_def sql_where_def)
    then have "k \<in> set (campaigns d')" using k d'(1) by (force simp: set_sql_update_after)
    moreover have "campaign_pinned d d' k k" using targets [OF False] by (simp add: campaign_pinned_def)
    ultimately show ?thesis by blast
  qed
qed

lemma keeps_history_status:
  "campaigns d' = sql_update (set_campaign_status ids old new now) (campaigns d) \<Longrightarrow> new \<noteq> C_DRAFT
    \<Longrightarrow> campaign_targets d' = campaign_targets d \<Longrightarrow> keeps_history d d'"
  by (rule keeps_history_rows) (auto dest: kept_status)

lemma create_keeps_history:
  "keeps_history d (d\<lparr>campaigns := fst (create_campaign cid i now (campaigns d))\<rparr>)"
  by (cases "find_campaign_key (ci_key i) (campaigns d)")
    (auto simp: keeps_history_def create_campaign_def campaign_pinned_def targets_of_def intro!: bexI)

lemma targets_keep_history:
  assumes "life_ok d" "replace_targets cid ids expected now d = (d', res)"
  shows "keeps_history d d'"
  using assms(2)
proof (cases rule: replace_targets_cases)
  case (changed c)
  show ?thesis
    by (rule keeps_history_targets [OF assms(1) changed(1,2)]) (use changed(5) in simp_all)
qed (simp add: keeps_history_same)

lemma apply_list_keeps_history:
  assumes "life_ok d" "apply_group_list_targets cid lid expected membership now d = (d', res)"
  shows "keeps_history d d'"
  using assms(2)
proof (cases rule: apply_group_list_cases)
  case (applied c s)
  have "c_id c = cid" using find_campaign_Some [OF applied(1)] by simp
  from applied(7) show ?thesis
  proof (cases rule: apply_snapshot_cases)
    case changed
    show ?thesis
      by (rule keeps_history_targets [OF assms(1) applied(1,2)])
        (use changed \<open>c_id c = cid\<close> in simp_all)
  qed (simp add: keeps_history_same)
qed (simp add: keeps_history_same)

lemma delete_keeps_history:
  assumes "delete_campaign cid allowed expected targets now d = (d', res)"
  shows "keeps_history d d'"
  using assms
proof (cases rule: delete_campaign_cases)
  case (deleted c)
  show ?thesis
    by (rule keeps_history_rows [where f = "delete_row cid now"]) (use deleted(7) kept_delete in simp_all)
qed (simp add: keeps_history_same)

lemma run_keeps_history:
  assumes "create_run rid i wall now d = (d', res)"
  shows "keeps_history d d'"
  using assms
proof (cases rule: create_run_cases)
  case (created c)
  show ?thesis
  proof (cases "ri_mode i = LIVE")
    case True
    show ?thesis
      by (rule keeps_history_status [of _ "[c_id c]" "{C_DRAFT}" C_ACTIVE now]) (use created(8) True in simp_all)
  next
    case False
    then show ?thesis using created(8) by (simp add: keeps_history_same)
  qed
qed (simp add: keeps_history_same)

lemma resume_keeps_history:
  assumes "resume_run ids rid report observed wall now d = (d', res)"
  shows "keeps_history d d'"
  using assms
proof (cases rule: resume_run_cases)
  case (resumed r)
  show ?thesis
    by (rule keeps_history_status [of _ "live_campaigns (sql_returning (resume_row rid report wall now)
          (campaign_runs d))" "{C_PAUSED}" C_ACTIVE now])
      (use resumed(4) in \<open>simp_all add: resume_campaigns_def\<close>)
qed (simp add: keeps_history_same)

lemma cancel_keeps_history:
  assumes "cancel_run ids rid now d = (d', res)"
  shows "keeps_history d d'"
  using assms
proof (cases rule: cancel_run_cases)
  case (cancelled r jobs)
  show ?thesis
    by (rule keeps_history_status [of _ "live_campaigns (sql_returning (cancel_run_row rid now)
          (campaign_runs d))" "{C_ACTIVE, C_PAUSED}" C_ARCHIVED now])
      (use cancelled(4) in \<open>simp_all add: archive_campaigns_def\<close>)
qed (simp add: keeps_history_same)

lemma materialize_keeps_history:
  "keeps_history d (fst (materialize_pending rq jids rid buffer wall now d))"
proof (cases rule: materialize_pending_cases [of rq jids rid buffer wall now d])
  case (unsendable r)
  show ?thesis
    by (rule keeps_history_status [of _ "[cr_campaign_id r]" "{C_ACTIVE}" C_PAUSED now])
      (use unsendable(5) in \<open>simp_all add: pause_campaigns_def\<close>)
qed (simp_all add: keeps_history_same materialize_fold_frame)

lemma apply_keeps_history:
  assumes ok: "life_ok d"
  shows "keeps_history d (life_apply op d)"
proof (cases op)
  case (OUpdate cid n x st t expected now)
  then show ?thesis
    by (intro keeps_history_rows [where f = "update_campaign_row cid n x st t expected now"])
      (auto simp: update_campaign_def Let_def dest: kept_update)
next
  case (ORecover now)
  then show ?thesis
    by (intro keeps_history_status [where new = C_ARCHIVED and old = "{C_ACTIVE, C_PAUSED}" and now = now])
      (auto simp: recover_expired_preparations_def archive_campaigns_def Let_def)
next
  case (OFailPreparation rid tok e now)
  then show ?thesis
    by (intro keeps_history_status [where new = C_ARCHIVED and old = "{C_ACTIVE, C_PAUSED}" and now = now])
      (auto simp: fail_preparation_attempt_def archive_campaigns_def Let_def)
next
  case (OFinalize limit now)
  then show ?thesis
    by (intro keeps_history_status [where new = C_ARCHIVED and old = "{C_ACTIVE, C_PAUSED}" and now = now])
      (auto simp: finalize_runs_def archive_campaigns_def Let_def)
next
  case (OPause rid now)
  then show ?thesis
    by (intro keeps_history_status [where new = C_PAUSED and old = "{C_ACTIVE}" and now = now])
      (auto simp: pause_run_def pause_campaigns_def Let_def)
qed (use ok in \<open>auto simp: create_keeps_history targets_keep_history [OF _ prod.collapse [symmetric]]
      apply_list_keeps_history [OF _ prod.collapse [symmetric]] delete_keeps_history [OF prod.collapse [symmetric]]
      run_keeps_history [OF prod.collapse [symmetric]] resume_keeps_history [OF prod.collapse [symmetric]]
      cancel_keeps_history [OF prod.collapse [symmetric]] materialize_keeps_history list_apply_frame
      claim_preparation_def apply_preflight_def activate_due_def record_blocked_resume_def
      reconcile_deliveries_def Let_def intro!: keeps_history_same split: option.split\<close>)

lemma fold_keeps_history:
  "life_ok d \<Longrightarrow> life_ops_ok ops d \<Longrightarrow> keeps_history d (fold life_apply ops d)"
proof (induction ops arbitrary: d)
  case Nil
  then show ?case by (simp add: keeps_history_same)
next
  case (Cons op ops)
  let ?d = "life_apply op d"
  have "keeps_history ?d (fold life_apply ops ?d)"
    using Cons.IH [of ?d] life_ok_apply [OF Cons.prems(1)] Cons.prems(2) by simp
  then show ?case
    using apply_keeps_history [OF Cons.prems(1), of op] campaign_pinned_trans
    unfolding keeps_history_def fold_simps comp_def by blast
qed

section \<open>Runs\<close>

definition run_kept :: "campaign_run \<Rightarrow> campaign_run \<Rightarrow> bool" where
  "run_kept r r' \<longleftrightarrow> cr_id r' = cr_id r \<and> cr_campaign_id r' = cr_campaign_id r
     \<and> cr_session_id r' = cr_session_id r \<and> cr_key r' = cr_key r \<and> cr_mode r' = cr_mode r
     \<and> cr_text r' = cr_text r \<and> cr_campaign_revision r' = cr_campaign_revision r
     \<and> cr_targets_revision r' = cr_targets_revision r \<and> cr_source r' = cr_source r
     \<and> cr_scheduled_at r' = cr_scheduled_at r \<and> cr_created_at r' = cr_created_at r
     \<and> (\<not> non_terminal (cr_status r) \<longrightarrow> r' = r)"

definition run_groups :: "uuid \<Rightarrow> db \<Rightarrow> (string \<times> string \<times> string) list" where
  "run_groups rid d = map (\<lambda>t. (rt_session_id t, rt_group_id t, rt_group_name t))
     (filter (\<lambda>t. rt_run_id t = rid) (run_targets d))"

definition keeps_runs :: "db \<Rightarrow> db \<Rightarrow> bool" where
  "keeps_runs d d' \<longleftrightarrow> (\<forall>r \<in> set (campaign_runs d). \<exists>r' \<in> set (campaign_runs d').
     run_kept r r' \<and> run_groups (cr_id r) d' = run_groups (cr_id r) d)"

lemma run_kept_refl [simp]: "run_kept r r"
  by (simp add: run_kept_def)

lemma run_kept_trans: "run_kept a b \<Longrightarrow> run_kept b c \<Longrightarrow> run_kept a c"
  by (simp add: run_kept_def)

lemma run_kept_rows:
  "claim_preparation_row rid tok now r = Some r' \<Longrightarrow> run_kept r r'"
  "recover_preparation_row now r = Some r' \<Longrightarrow> run_kept r r'"
  "prepare_row rid out tok now r = Some r' \<Longrightarrow> run_kept r r'"
  "activate_due_row now r = Some r' \<Longrightarrow> run_kept r r'"
  "finalize_row ds ids now r = Some r' \<Longrightarrow> cr_status r = R_RUNNING \<Longrightarrow> run_kept r r'"
  "pause_row rid now r = Some r' \<Longrightarrow> run_kept r r'"
  "blocked_resume_row rid report now r = Some r' \<Longrightarrow> run_kept r r'"
  "resume_row rid report wall now r = Some r' \<Longrightarrow> run_kept r r'"
  "cancel_run_row rid now r = Some r' \<Longrightarrow> run_kept r r'"
  "session_pause_row rid now r = Some r' \<Longrightarrow> run_kept r r'"
  by (auto simp: run_kept_def non_terminal_def claim_preparation_row_def preparation_ready_def
      recover_preparation_row_def prepare_row_def preparation_owned_def activate_due_row_def
      finalize_row_def pause_row_def blocked_resume_row_def resume_row_def cancel_run_row_def
      session_pause_row_def Let_def split: preparation_outcome.splits)

lemma run_groups_refresh:
  assumes "run_targets d' = sql_update (refresh_target_row k gs keep) (run_targets d)"
  shows "run_groups rid d' = run_groups rid d"
proof -
  have row: "rt_run_id (row_after (refresh_target_row k gs keep) t) = rt_run_id t
      \<and> rt_session_id (row_after (refresh_target_row k gs keep) t) = rt_session_id t
      \<and> rt_group_id (row_after (refresh_target_row k gs keep) t) = rt_group_id t
      \<and> rt_group_name (row_after (refresh_target_row k gs keep) t) = rt_group_name t" for t
    by (cases "target_group t gs") (auto simp: row_after_def refresh_target_row_def)
  have "sql_update (refresh_target_row k gs keep) ts = map (row_after (refresh_target_row k gs keep)) ts" for ts
    by (simp add: sql_update_def row_after_def)
  then show ?thesis using assms by (simp add: run_groups_def filter_map comp_def row)
qed

lemma run_groups_same: "run_targets d' = run_targets d \<Longrightarrow> run_groups rid d' = run_groups rid d"
  by (simp add: run_groups_def)

lemma keeps_runs_rows:
  assumes "campaign_runs d' = sql_update f (campaign_runs d)"
    and "\<And>rid. run_groups rid d' = run_groups rid d"
    and "\<And>r r'. r \<in> set (campaign_runs d) \<Longrightarrow> f r = Some r' \<Longrightarrow> run_kept r r'"
  shows "keeps_runs d d'"
  unfolding keeps_runs_def
proof
  fix r
  assume r: "r \<in> set (campaign_runs d)"
  have "row_after f r \<in> set (campaign_runs d')" using r assms(1) by (simp add: set_sql_update_after)
  moreover have "run_kept r (row_after f r)"
    using assms(3) [OF r] by (cases "f r") (simp_all add: row_after_def)
  ultimately show "\<exists>r' \<in> set (campaign_runs d'). run_kept r r' \<and> run_groups (cr_id r) d' = run_groups (cr_id r) d"
    using assms(2) by blast
qed

lemma keeps_runs_same:
  assumes "campaign_runs d' = campaign_runs d" "run_targets d' = run_targets d"
  shows "keeps_runs d d'"
  unfolding keeps_runs_def assms(1) run_groups_same [OF assms(2)] using run_kept_refl by blast

lemma create_keeps_runs:
  assumes "rid \<notin> cr_id ` set (campaign_runs d)" "create_run rid i wall now d = (d', res)"
  shows "keeps_runs d d'"
  using assms(2)
proof (cases rule: create_run_cases)
  case (created c)
  have "rt_run_id t = rid" if "t \<in> set (snapshot_targets rid (c_id c) d)" for t
    using that by (auto simp: snapshot_targets_def map_filter_def snapshot_target_def)
  then have groups: "run_groups k d' = run_groups k d" if "k \<noteq> rid" for k
    using that created(8) by (auto simp: run_groups_def filter_empty_conv)
  have more: "set (campaign_runs d) \<subseteq> set (campaign_runs d')" using created(8) by auto
  show ?thesis
    unfolding keeps_runs_def
  proof
    fix r
    assume r: "r \<in> set (campaign_runs d)"
    then have "cr_id r \<noteq> rid" using assms(1) by auto
    then show "\<exists>r' \<in> set (campaign_runs d'). run_kept r r' \<and> run_groups (cr_id r) d' = run_groups (cr_id r) d"
      using groups [of "cr_id r"] r more by (intro bexI [of _ r]) auto
  qed
qed (simp add: keeps_runs_same)

lemma resume_keeps_runs:
  assumes "resume_run ids rid report observed wall now d = (d', res)"
  shows "keeps_runs d d'"
  using assms
proof (cases rule: resume_run_cases)
  case (resumed r)
  show ?thesis
    by (rule keeps_runs_rows [where f = "resume_row rid report wall now"])
      (use resumed(4) run_kept_rows(8) in \<open>auto intro: run_groups_refresh\<close>)
qed (simp add: keeps_runs_same)

lemma cancel_keeps_runs:
  assumes "cancel_run ids rid now d = (d', res)"
  shows "keeps_runs d d'"
  using assms
proof (cases rule: cancel_run_cases)
  case (cancelled r jobs)
  show ?thesis
    by (rule keeps_runs_rows [where f = "cancel_run_row rid now"])
      (use cancelled(4) run_kept_rows(9) in \<open>auto intro: run_groups_same\<close>)
qed (simp add: keeps_runs_same)

lemma materialize_keeps_runs: "keeps_runs d (fst (materialize_pending rq jids rid buffer wall now d))"
proof (cases rule: materialize_pending_cases [of rq jids rid buffer wall now d])
  case (unsendable r)
  show ?thesis
    by (rule keeps_runs_rows [where f = "session_pause_row rid now"])
      (use unsendable(5) run_kept_rows(10) in \<open>auto intro: run_groups_same\<close>)
qed (simp_all add: keeps_runs_same materialize_fold_frame)

lemma preflight_keeps_runs: "keeps_runs d (fst (apply_preflight ids rid tok report observed wall now d))"
proof (cases "List.find (preparation_owned rid tok now) (campaign_runs d)")
  case None
  then show ?thesis by (simp add: apply_preflight_def keeps_runs_same)
next
  case (Some r)
  let ?d = "fst (apply_preflight ids rid tok report observed wall now d)"
  have "\<exists>out. campaign_runs ?d = sql_update (prepare_row rid out tok now) (campaign_runs d)"
    using Some by (auto simp: apply_preflight_def)
  then obtain out where out: "campaign_runs ?d = sql_update (prepare_row rid out tok now) (campaign_runs d)"
    by blast
  have "run_targets ?d = run_targets d \<or> run_targets ?d =
      sql_update (refresh_target_row rid (gateway_groups d) (\<lambda>_. False)) (run_targets d)"
    using Some by (simp add: apply_preflight_def)
  then have "run_groups k ?d = run_groups k d" for k
    using run_groups_refresh run_groups_same by blast
  then show ?thesis using keeps_runs_rows [OF out] run_kept_rows(3) by blast
qed

lemma apply_keeps_runs:
  assumes ok: "life_ok d" and op: "life_op_ok op d"
  shows "keeps_runs d (life_apply op d)"
proof (cases op)
  case (OTargets cid ids expected now)
  obtain d' res where r: "replace_targets cid ids expected now d = (d', res)" by fastforce
  from r have "keeps_runs d d'" by (cases rule: replace_targets_cases) (simp_all add: keeps_runs_same)
  then show ?thesis using OTargets r by simp
next
  case (OApplyList cid lid expected membership now)
  obtain d' res where r: "apply_group_list_targets cid lid expected membership now d = (d', res)" by fastforce
  from r have "keeps_runs d d'"
  proof (cases rule: apply_group_list_cases)
    case (applied c s)
    from applied(7) show ?thesis by (cases rule: apply_snapshot_cases) (simp_all add: keeps_runs_same)
  qed (simp add: keeps_runs_same)
  then show ?thesis using OApplyList r by simp
next
  case (ODelete cid allowed expected targets now)
  obtain d' res where r: "delete_campaign cid (\<lambda>s. s \<in> set allowed) expected targets now d = (d', res)" by fastforce
  from r have "keeps_runs d d'" by (cases rule: delete_campaign_cases) (simp_all add: keeps_runs_same)
  then show ?thesis using ODelete r by simp
next
  case (OFinalize limit now)
  show ?thesis
    by (rule keeps_runs_rows [where f = "finalize_row (deliveries d) (finalize_ids limit d) now"])
      (use OFinalize run_kept_rows(5) finalize_ids_running [OF ok] in
        \<open>auto simp: finalize_runs_def Let_def finalizable_def finalize_row_def intro: run_groups_same\<close>)
next
  case (OClaim rid tok now)
  show ?thesis
    by (rule keeps_runs_rows [where f = "claim_preparation_row rid tok now"])
      (use OClaim run_kept_rows(1) in \<open>auto simp: claim_preparation_def intro: run_groups_same\<close>)
next
  case (ORecover now)
  show ?thesis
    by (rule keeps_runs_rows [where f = "recover_preparation_row now"])
      (use ORecover run_kept_rows(2) in \<open>auto simp: recover_expired_preparations_def Let_def intro: run_groups_same\<close>)
next
  case (OFailPreparation rid tok e now)
  show ?thesis
    by (rule keeps_runs_rows [where f = "prepare_row rid (Failed e) tok now"])
      (use OFailPreparation run_kept_rows(3) in \<open>auto simp: fail_preparation_attempt_def Let_def intro: run_groups_same\<close>)
next
  case (OActivate now)
  show ?thesis
    by (rule keeps_runs_rows [where f = "activate_due_row now"])
      (use OActivate run_kept_rows(4) in \<open>auto simp: activate_due_def intro: run_groups_same\<close>)
next
  case (OPause rid now)
  show ?thesis
    by (rule keeps_runs_rows [where f = "pause_row rid now"])
      (use OPause run_kept_rows(6) in \<open>auto simp: pause_run_def Let_def intro: run_groups_same\<close>)
next
  case (OBlockedResume rid report now)
  show ?thesis
    by (rule keeps_runs_rows [where f = "blocked_resume_row rid report now"])
      (use OBlockedResume run_kept_rows(7) in \<open>auto simp: record_blocked_resume_def intro: run_groups_same\<close>)
qed (use op in \<open>simp_all add: create_keeps_runs [OF _ prod.collapse [symmetric]] keeps_runs_same
      resume_keeps_runs [OF prod.collapse [symmetric]] cancel_keeps_runs [OF prod.collapse [symmetric]]
      materialize_keeps_runs preflight_keeps_runs list_apply_frame update_campaign_def
      reconcile_deliveries_def Let_def\<close>)

lemma fold_keeps_runs: "life_ok d \<Longrightarrow> life_ops_ok ops d \<Longrightarrow> keeps_runs d (fold life_apply ops d)"
proof (induction ops arbitrary: d)
  case Nil
  then show ?case by (simp add: keeps_runs_same)
next
  case (Cons op ops)
  let ?d = "life_apply op d"
  have later: "keeps_runs ?d (fold life_apply ops ?d)"
    using Cons.IH [of ?d] life_ok_apply [OF Cons.prems(1)] Cons.prems(2) by simp
  have first: "keeps_runs d ?d" using apply_keeps_runs [OF Cons.prems(1)] Cons.prems(2) by simp
  show ?case
    unfolding keeps_runs_def fold_simps
  proof
    fix r
    assume "r \<in> set (campaign_runs d)"
    then obtain r1 where r1: "r1 \<in> set (campaign_runs ?d)" "run_kept r r1"
      "run_groups (cr_id r) ?d = run_groups (cr_id r) d"
      using first unfolding keeps_runs_def by blast
    then obtain r2 where "r2 \<in> set (campaign_runs (fold life_apply ops ?d))" "run_kept r1 r2"
      "run_groups (cr_id r1) (fold life_apply ops ?d) = run_groups (cr_id r1) ?d"
      using later unfolding keeps_runs_def by blast
    moreover have "cr_id r1 = cr_id r" using r1(2) by (simp add: run_kept_def)
    ultimately show "\<exists>r' \<in> set (campaign_runs (fold life_apply ops (life_apply op d))). run_kept r r'
        \<and> run_groups (cr_id r) (fold life_apply ops (life_apply op d)) = run_groups (cr_id r) d"
      using r1 run_kept_trans by auto
  qed
qed

section \<open>Properties\<close>

definition history_sample :: "life_op list" where
  "history_sample = [OTargets ''c1'' [''g1@g.us''] 0 1, ORun ''r1'' run_sample 2 2,
     OClaim ''r1'' ''t1'' 3, OCancel id ''r1'' 4, ORecover 9]"

definition campaign_db :: db where
  "campaign_db = sample_lists\<lparr>campaigns := [new_campaign ''c1'' campaign_sample 0]\<rparr>"

lemma campaign_db_ok: "life_ok campaign_db"
  by (simp add: life_ok_def campaign_db_def sample_lists_def empty_db_def new_campaign_def keyed_def)

lemma history_sample_ok: "life_ops_ok history_sample campaign_db"
proof -
  have "campaign_runs (life_apply (OTargets ''c1'' [''g1@g.us''] 0 1) campaign_db) = []"
    using prod.collapse [symmetric, of "replace_targets ''c1'' [''g1@g.us''] 0 1 campaign_db"]
    by (cases rule: replace_targets_cases) (simp_all add: campaign_db_def sample_lists_def empty_db_def)
  then show ?thesis by (simp add: history_sample_def)
qed

text \<open>C17: Whatever transactions follow, a campaign is never lost and its revisions never fall; an
  unchanged revision means unchanged content and schedule, an unchanged targets revision means the
  same target rows and the same source list; and a launched or deleted campaign keeps its content,
  targets and source for ever.\<close>

theorem campaign_revisions_pin_snapshot:
  assumes "life_ok d" "life_ops_ok ops d" "c \<in> set (campaigns d)"
  shows "\<exists>c' \<in> set (campaigns (fold life_apply ops d)).
    campaign_pinned d (fold life_apply ops d) c c'"
  using fold_keeps_history [OF assms(1,2)] assms(3) by (simp add: keeps_history_def)

lemma campaign_revisions_pin_snapshot_witness:
  "\<exists>c' \<in> set (campaigns (fold life_apply history_sample campaign_db)).
     campaign_pinned campaign_db (fold life_apply history_sample campaign_db)
       (new_campaign ''c1'' campaign_sample 0) c'"
  using campaign_revisions_pin_snapshot [OF campaign_db_ok history_sample_ok]
  by (simp add: campaign_db_def)

text \<open>C18: A run keeps the campaign, session, text, mode, revisions, source list, schedule and groups it
  was created with, and a run that completed, failed or was cancelled never changes again, whatever
  transactions follow.\<close>

theorem run_snapshot_immutable:
  assumes "life_ok d" "life_ops_ok ops d" "r \<in> set (campaign_runs d)"
  shows "\<exists>r' \<in> set (campaign_runs (fold life_apply ops d)). run_kept r r'
    \<and> run_groups (cr_id r) (fold life_apply ops d) = run_groups (cr_id r) d"
  using fold_keeps_runs [OF assms(1,2)] assms(3) by (simp add: keeps_runs_def)

lemma run_snapshot_immutable_witness:
  "\<exists>r' \<in> set (campaign_runs (fold life_apply [OClaim ''r1'' ''t1'' 3, OCancel id ''r1'' 4, ORecover 5]
      (fst (create_run ''r1'' run_sample 2 2 campaign_db)))). cr_text r' = ''Hello'' \<and> cr_mode r' = LIVE"
proof -
  let ?d = "fst (create_run ''r1'' run_sample 2 2 campaign_db)"
  let ?r = "new_run ''r1'' run_sample (new_campaign ''c1'' campaign_sample 0) 2 2"
  have ok: "life_ok ?d"
    using life_ok_run [OF campaign_db_ok _ prod.collapse [symmetric]]
    by (simp add: campaign_db_def sample_lists_def empty_db_def)
  have "?r \<in> set (campaign_runs ?d)"
    by (simp add: create_run_def campaign_db_def find_campaign_def new_campaign_def find_run_key_def
        sample_lists_def empty_db_def run_sample_def campaign_sample_def)
  from run_snapshot_immutable [OF ok _ this, of "[OClaim ''r1'' ''t1'' 3, OCancel id ''r1'' 4, ORecover 5]"]
  show ?thesis
    by (auto simp: run_kept_def new_run_def new_campaign_def campaign_sample_def run_sample_def)
qed

end
