(* ===== verification/Campaign_Sends.thy ===== *)
theory Campaign_Sends
  imports Campaign_Deliveries Campaign_History
begin

text \<open>
  From deliveries to message jobs: the loop of materializePending in campaign-delivery.repository.ts,
  and the keys and references that tie the deliveries of a run to the jobs that send them along every
  sequence of transactions.
\<close>

section \<open>Deliveries and their jobs\<close>

definition delivery_link :: "delivery \<Rightarrow> uuid \<times> uuid \<times> string \<times> uuid option" where
  "delivery_link x = (cd_id x, cd_run_id x, cd_group_id x, cd_job_id x)"

definition job_part :: "message_job \<Rightarrow> uuid \<times> string \<times> string \<times> string \<times> string \<times> string \<times> bool" where
  "job_part j = (mj_id j, mj_scope j, mj_key j, mj_session_id j, mj_recipient_id j, mj_text j, mj_dry_run j)"

definition linked :: "delivery \<Rightarrow> message_job \<Rightarrow> bool" where
  "linked x j \<longleftrightarrow> cd_job_id x = Some (mj_id j) \<and> mj_scope j = run_scope (cd_run_id x)
     \<and> mj_key j = cd_group_id x"

text \<open>
  The primary and unique keys of the two tables, and what the foreign key campaign_deliveries.message_job_id
  refers to.
\<close>

definition links_ok :: "delivery table \<Rightarrow> message_job table \<Rightarrow> bool" where
  "links_ok ds jobs \<longleftrightarrow> keyed cd_id ds \<and> keyed delivery_key ds \<and> keyed mj_id jobs \<and> keyed job_key jobs
     \<and> (\<forall>x \<in> set ds. cd_job_id x \<noteq> None \<longrightarrow> (\<exists>j \<in> set jobs. linked x j))"

definition job_of_run :: "campaign_run \<Rightarrow> message_job \<Rightarrow> bool" where
  "job_of_run r j \<longleftrightarrow> mj_scope j = run_scope (cr_id r) \<and> mj_session_id j = cr_session_id r
     \<and> mj_recipient_id j = mj_key j \<and> mj_text j = cr_text r \<and> mj_dry_run j = (cr_mode r = DRY_RUN)"

definition run_jobs_ok :: "message_job table \<Rightarrow> campaign_run table \<Rightarrow> bool" where
  "run_jobs_ok jobs rs \<longleftrightarrow> (\<forall>j \<in> set jobs. \<forall>rid. mj_scope j = run_scope rid \<longrightarrow> (\<exists>r \<in> set rs. job_of_run r j))"

definition sends_ok :: "db \<Rightarrow> bool" where
  "sends_ok d \<longleftrightarrow> links_ok (deliveries d) (message_jobs d) \<and> run_jobs_ok (message_jobs d) (campaign_runs d)"

lemma links_okD:
  assumes "links_ok ds jobs"
  shows "keyed cd_id ds" "keyed delivery_key ds" "keyed mj_id jobs" "keyed job_key jobs"
    and "x \<in> set ds \<Longrightarrow> cd_job_id x \<noteq> None \<Longrightarrow> \<exists>j \<in> set jobs. linked x j"
  using assms unfolding links_ok_def by blast+

lemma keyed_parts:
  assumes "map f xs = map f ys" "\<And>x. key x = g (f x)"
  shows "keyed key xs = keyed key ys"
proof -
  have "key = g \<circ> f" using assms(2) by (simp add: fun_eq_iff)
  then have "map key xs = map key ys" using arg_cong [OF assms(1), of "map g"] by simp
  then show ?thesis by (simp add: keyed_def)
qed

lemma part_of:
  assumes "map f xs = map f ys" "x \<in> set xs"
  shows "\<exists>y \<in> set ys. f y = f x"
proof -
  have "f x \<in> set (map f ys)" using assms by (metis image_eqI list.set_map)
  then show ?thesis by auto
qed

lemma links_ok_parts:
  assumes ok: "links_ok ds jobs"
    and ds: "map delivery_link ds' = map delivery_link ds" and jobs: "map job_part jobs' = map job_part jobs"
  shows "links_ok ds' jobs'"
proof -
  have "keyed cd_id ds'" using links_okD(1) [OF ok] keyed_parts [OF ds, of cd_id fst]
    by (simp add: delivery_link_def)
  moreover have "keyed delivery_key ds'"
    using links_okD(2) [OF ok] keyed_parts [OF ds, of delivery_key "\<lambda>(_, r, g, _). (r, g)"]
    by (simp add: delivery_link_def delivery_key_def)
  moreover have "keyed mj_id jobs'" using links_okD(3) [OF ok] keyed_parts [OF jobs, of mj_id fst]
    by (simp add: job_part_def)
  moreover have "keyed job_key jobs'"
    using links_okD(4) [OF ok] keyed_parts [OF jobs, of job_key "\<lambda>(_, s, k, _). (s, k)"]
    by (simp add: job_part_def job_key_def)
  moreover have "\<exists>j \<in> set jobs'. linked x j" if x: "x \<in> set ds'" "cd_job_id x \<noteq> None" for x
  proof -
    obtain x0 where x0: "x0 \<in> set ds" "delivery_link x0 = delivery_link x" using part_of [OF ds x(1)] by blast
    then obtain j0 where j0: "j0 \<in> set jobs" "linked x0 j0"
      using links_okD(5) [OF ok x0(1)] x(2) by (auto simp: delivery_link_def)
    then obtain j where j: "j \<in> set jobs'" "job_part j = job_part j0"
      using part_of [OF jobs [symmetric]] by blast
    have "linked x j" using x0(2) j0(2) j(2) by (simp add: linked_def delivery_link_def job_part_def)
    then show ?thesis using j(1) by blast
  qed
  ultimately show ?thesis by (simp add: links_ok_def)
qed

lemma run_jobs_ok_parts:
  assumes ok: "run_jobs_ok jobs rs" and jobs: "map job_part jobs' = map job_part jobs"
    and runs: "\<And>r. r \<in> set rs \<Longrightarrow> \<exists>r' \<in> set rs'. run_kept r r'"
  shows "run_jobs_ok jobs' rs'"
  unfolding run_jobs_ok_def
proof (intro ballI allI impI)
  fix j rid
  assume j: "j \<in> set jobs'" "mj_scope j = run_scope rid"
  obtain j0 where j0: "j0 \<in> set jobs" "job_part j0 = job_part j" using part_of [OF jobs j(1)] by blast
  then obtain r where r: "r \<in> set rs" "job_of_run r j0"
    using ok j(2) unfolding run_jobs_ok_def by (force simp: job_part_def)
  obtain r' where r': "r' \<in> set rs'" "run_kept r r'" using runs [OF r(1)] by blast
  have "job_of_run r' j" using r(2) j0(2) r'(2) by (auto simp: job_of_run_def run_kept_def job_part_def)
  then show "\<exists>r \<in> set rs'. job_of_run r j" using r'(1) by blast
qed

lemma sends_ok_parts:
  assumes "sends_ok d" "keeps_runs d d'" "map delivery_link (deliveries d') = map delivery_link (deliveries d)"
    and "map job_part (message_jobs d') = map job_part (message_jobs d)"
  shows "sends_ok d'"
proof -
  have "links_ok (deliveries d') (message_jobs d')"
    using links_ok_parts [OF _ assms(3,4)] assms(1) by (simp add: sends_ok_def)
  moreover have "run_jobs_ok (message_jobs d') (campaign_runs d')"
    by (rule run_jobs_ok_parts [OF _ assms(4)]) (use assms(1,2) in \<open>auto simp: sends_ok_def keeps_runs_def\<close>)
  ultimately show ?thesis by (simp add: sends_ok_def)
qed

lemma job_row_part: "map job_part (sql_update (job_row op) jobs) = map job_part jobs"
  by (rule map_sql_update_key) (auto simp: job_part_def dest: job_row_id job_row_fixed)

lemma cancel_row_part: "map job_part (sql_update (cancel_row ids now) jobs) = map job_part jobs"
  by (rule map_sql_update_key) (auto simp: job_part_def cancel_row_def)

lemma delivery_row_link:
  "map delivery_link (sql_update (reconcile_row jobs now) ds) = map delivery_link ds"
  "map delivery_link (sql_update (cancel_delivery_row rid jobs now) ds) = map delivery_link ds"
  "map delivery_link (sql_update (block_delivery_row xid now) ds) = map delivery_link ds"
  by (rule map_sql_update_key; auto simp: delivery_link_def reconcile_row_def cancel_delivery_row_def
      block_delivery_row_def Let_def split: option.splits if_splits)+


section \<open>New deliveries\<close>

definition target_groups :: "uuid \<Rightarrow> db \<Rightarrow> string set" where
  "target_groups rid d = rt_group_id ` {t \<in> set (run_targets d). rt_run_id t = rid}"

text \<open>Identifiers generated for the groups of a run: different for each, and not in use.\<close>

definition fresh_ids :: "(string \<Rightarrow> uuid) \<Rightarrow> uuid \<Rightarrow> db \<Rightarrow> uuid set \<Rightarrow> bool" where
  "fresh_ids ids rid d used \<longleftrightarrow> inj_on ids (target_groups rid d) \<and> ids ` target_groups rid d \<inter> used = {}"

lemma links_ok_insert:
  assumes ok: "links_ok (deliveries d) jobs" and ids: "fresh_ids ids rid d (cd_id ` set (deliveries d))"
  shows "links_ok (insert_deliveries ids rid now d) jobs"
proof -
  have "keyed cd_id (insert_deliveries ids rid now d)"
    unfolding insert_deliveries_def
  proof (rule keyed_fold_insert_new)
    show "keyed cd_id (deliveries d)" by (rule links_okD(1) [OF ok])
  next
    fix t
    assume "t \<in> set (filter (\<lambda>t. rt_run_id t = rid) (run_targets d))"
    then have "rt_group_id t \<in> target_groups rid d" by (auto simp: target_groups_def)
    then show "cd_id (new_delivery ids rid now (rt_group_id t)) \<notin> cd_id ` set (deliveries d)"
      using ids by (force simp: fresh_ids_def new_delivery_def)
  next
    fix t u
    assume "t \<in> set (filter (\<lambda>t. rt_run_id t = rid) (run_targets d))"
      "u \<in> set (filter (\<lambda>t. rt_run_id t = rid) (run_targets d))"
      "cd_id (new_delivery ids rid now (rt_group_id t)) = cd_id (new_delivery ids rid now (rt_group_id u))"
    then have "rt_group_id t = rt_group_id u"
      using ids by (auto simp: fresh_ids_def new_delivery_def target_groups_def dest!: inj_onD)
    then show "delivery_key (new_delivery ids rid now (rt_group_id t))
        = delivery_key (new_delivery ids rid now (rt_group_id u))" by simp
  qed
  moreover have "keyed delivery_key (fold (\<lambda>t. sql_insert_new delivery_key
      (new_delivery ids rid now (rt_group_id t))) ts ds)" if "keyed delivery_key ds" for ts ds
    using that by (induction ts arbitrary: ds) auto
  then have "keyed delivery_key (insert_deliveries ids rid now d)"
    using links_okD(2) [OF ok] by (simp add: insert_deliveries_def)
  moreover have "\<exists>j \<in> set jobs. linked x j"
    if "x \<in> set (insert_deliveries ids rid now d)" "cd_job_id x \<noteq> None" for x
    using that links_okD(5) [OF ok, of x] unfolding mem_insert_deliveries by (auto simp: new_delivery_def)
  ultimately show ?thesis using links_okD(3,4) [OF ok] by (simp add: links_ok_def)
qed

section \<open>One turn of the loop\<close>

lemma materialize_one_cases:
  fixes x :: delivery
  obtains (blocked) "cr_mode r = LIVE" "capability_changed t g"
      "materialize_one rq jids r wall now (x, t, g) (d, n) =
         (d\<lparr>deliveries := sql_update (block_delivery_row (cd_id x) now) (deliveries d)\<rparr>, n)"
  | (replayed) j where "cr_mode r = LIVE \<Longrightarrow> \<not> capability_changed t g"
      "find_by job_key (run_scope (cr_id r), cd_group_id x) (message_jobs d) = Some j"
      "materialize_one rq jids r wall now (x, t, g) (d, n) =
         (d\<lparr>deliveries := sql_update (materialize_row (cd_id x) (mj_id j) now) (deliveries d)\<rparr>, n + 1)"
  | (created) "cr_mode r = LIVE \<Longrightarrow> \<not> capability_changed t g"
      "find_by job_key (run_scope (cr_id r), cd_group_id x) (message_jobs d) = None"
      "materialize_one rq jids r wall now (x, t, g) (d, n) =
         (d\<lparr>message_jobs := message_jobs d
              @ [new_job (jids (cd_group_id x)) (run_job_input rq r (cd_group_id x) wall) now],
            deliveries := sql_update (materialize_row (cd_id x) (jids (cd_group_id x)) now) (deliveries d)\<rparr>,
          n + 1)"
proof (cases "cr_mode r = LIVE \<and> capability_changed t g")
  case True
  then show ?thesis by (intro blocked) (simp_all add: materialize_one_def)
next
  case False
  have input: "ji_scope (run_job_input rq r (cd_group_id x) wall) = run_scope (cr_id r)"
    "ji_key (run_job_input rq r (cd_group_id x) wall) = cd_group_id x"
    by (simp_all add: run_job_input_def)
  have id: "mj_id (new_job jid i now) = jid" for jid i by (simp add: new_job_def)
  show ?thesis
  proof (cases "find_by job_key (run_scope (cr_id r), cd_group_id x) (message_jobs d)")
    case None
    show ?thesis
      by (rule created) (use None False input id in \<open>auto simp: materialize_one_def create_job_def\<close>)
  next
    case (Some j)
    show ?thesis
      by (rule replayed [of j]) (use Some False input in \<open>auto simp: materialize_one_def create_job_def\<close>)
  qed
qed

lemma new_run_job:
  "job_of_run r (new_job jid (run_job_input rq r gid wall) now)"
  by (simp add: job_of_run_def new_job_def run_job_input_def)

lemma run_scope_inj [simp]: "run_scope a = run_scope b \<longleftrightarrow> a = b"
  by (simp add: run_scope_def)

lemma job_of_run_scope: "job_of_run r j \<Longrightarrow> mj_scope j = run_scope rid \<longleftrightarrow> cr_id r = rid"
  by (auto simp: job_of_run_def)


text \<open>What the loop knows of the rows it has left to do.\<close>

definition row_group :: "delivery \<times> run_target \<times> gateway_group \<Rightarrow> string" where
  "row_group p = cd_group_id (fst p)"

definition rows_ready ::
  "(string \<Rightarrow> uuid) \<Rightarrow> campaign_run \<Rightarrow> (delivery \<times> run_target \<times> gateway_group) list \<Rightarrow> db \<Rightarrow> bool" where
  "rows_ready jids r ps d \<longleftrightarrow> distinct (map (jids \<circ> row_group) ps)
     \<and> (\<forall>p \<in> set ps. jids (row_group p) \<notin> mj_id ` set (message_jobs d)
          \<and> (\<forall>y \<in> set (deliveries d). cd_id y = cd_id (fst p) \<longrightarrow> cd_run_id y = cr_id r \<and> cd_group_id y = row_group p))"

lemma row_kept:
  "block_delivery_row xid now y = Some y' \<Longrightarrow> cd_id y' = cd_id y \<and> cd_run_id y' = cd_run_id y \<and> cd_group_id y' = cd_group_id y"
  "materialize_row xid jid now y = Some y' \<Longrightarrow> cd_id y' = cd_id y \<and> cd_run_id y' = cd_run_id y \<and> cd_group_id y' = cd_group_id y"
  by (auto simp: block_delivery_row_def materialize_row_def)

lemma links_ok_materialize:
  assumes ok: "links_ok ds jobs" and j: "j \<in> set jobs" "mj_scope j = run_scope rid" "mj_key j = gid"
    and x: "\<And>y. y \<in> set ds \<Longrightarrow> cd_id y = xid \<Longrightarrow> cd_run_id y = rid \<and> cd_group_id y = gid"
  shows "links_ok (sql_update (materialize_row xid (mj_id j) now) ds) jobs"
proof -
  let ?f = "materialize_row xid (mj_id j) now"
  have "keyed cd_id (sql_update ?f ds)" "keyed delivery_key (sql_update ?f ds)"
    using links_okD(1,2) [OF ok] row_kept(2) by (simp_all add: keyed_sql_update delivery_key_def)
  moreover have "\<exists>j \<in> set jobs. linked y j" if y: "y \<in> set (sql_update ?f ds)" "cd_job_id y \<noteq> None" for y
    using y(1)
  proof (cases rule: sql_update_cases)
    case kept
    then show ?thesis using links_okD(5) [OF ok _ y(2)] by blast
  next
    case (changed y0)
    then have "cd_id y0 = xid" "cd_job_id y = Some (mj_id j)" by (auto simp: materialize_row_def)
    then have "linked y j"
      using x [OF changed(1)] j(2,3) row_kept(2) [OF changed(2)] by (simp add: linked_def)
    then show ?thesis using j(1) by blast
  qed
  ultimately show ?thesis using links_okD(3,4) [OF ok] by (simp add: links_ok_def)
qed

lemma links_ok_new_job:
  assumes "links_ok ds jobs" "mj_id j \<notin> mj_id ` set jobs" "job_key j \<notin> job_key ` set jobs"
  shows "links_ok ds (jobs @ [j])"
  using assms unfolding links_ok_def by auto

lemma run_jobs_ok_new_job: "run_jobs_ok jobs rs \<Longrightarrow> r \<in> set rs \<Longrightarrow> job_of_run r j \<Longrightarrow> run_jobs_ok (jobs @ [j]) rs"
  by (auto simp: run_jobs_ok_def)

lemma new_job_key: "mj_id (new_job jid i now) = jid" "job_key (new_job jid i now) = (ji_scope i, ji_key i)"
  by (simp_all add: new_job_def job_key_def)

lemma run_job_input_key:
  "ji_scope (run_job_input rq r gid wall) = run_scope (cr_id r)" "ji_key (run_job_input rq r gid wall) = gid"
  by (simp_all add: run_job_input_def)

lemma rows_ready_rest:
  assumes "rows_ready jids r (p # ps) d" "message_jobs d' = message_jobs d @ js"
    and "mj_id ` set js \<subseteq> {jids (row_group p)}" "deliveries d' = sql_update f (deliveries d)"
    and "\<And>y y'. f y = Some y' \<Longrightarrow> cd_id y' = cd_id y \<and> cd_run_id y' = cd_run_id y \<and> cd_group_id y' = cd_group_id y"
  shows "rows_ready jids r ps d'"
proof -
  have "jids (row_group q) \<notin> mj_id ` set (message_jobs d')" if "q \<in> set ps" for q
  proof -
    have "jids (row_group q) \<noteq> jids (row_group p)" "jids (row_group q) \<notin> mj_id ` set (message_jobs d)"
      using that assms(1) by (auto simp: rows_ready_def) (metis image_eqI)
    then show ?thesis using assms(3) unfolding assms(2) set_append image_Un by blast
  qed
  moreover have "cd_run_id y = cr_id r \<and> cd_group_id y = row_group q"
    if "q \<in> set ps" and y: "y \<in> set (deliveries d')" "cd_id y = cd_id (fst q)" for q y
  proof -
    obtain y0 where "y0 \<in> set (deliveries d)" "cd_id y = cd_id y0" "cd_run_id y = cd_run_id y0"
      "cd_group_id y = cd_group_id y0"
      using y(1) assms(5) unfolding assms(4) by (elim sql_update_cases) auto
    then show ?thesis using assms(1) that(1) y(2) by (simp add: rows_ready_def)
  qed
  ultimately show ?thesis using assms(1) by (simp add: rows_ready_def)
qed

lemma materialize_one_ok:
  assumes ok: "sends_ok d" and r: "r \<in> set (campaign_runs d)" and rdy: "rows_ready jids r (p # ps) d"
  shows "sends_ok (fst (materialize_one rq jids r wall now p (d, n)))
    \<and> rows_ready jids r ps (fst (materialize_one rq jids r wall now p (d, n)))
    \<and> campaign_runs (fst (materialize_one rq jids r wall now p (d, n))) = campaign_runs d"
proof -
  obtain x t g where p: "p = (x, t, g)" by (cases p)
  have x: "\<And>y. y \<in> set (deliveries d) \<Longrightarrow> cd_id y = cd_id x \<Longrightarrow> cd_run_id y = cr_id r \<and> cd_group_id y = cd_group_id x"
    and free: "jids (cd_group_id x) \<notin> mj_id ` set (message_jobs d)"
    using rdy by (auto simp: rows_ready_def p row_group_def)
  have links: "links_ok (deliveries d) (message_jobs d)" and runs: "run_jobs_ok (message_jobs d) (campaign_runs d)"
    using ok by (simp_all add: sends_ok_def)
  show ?thesis
  proof (cases rule: materialize_one_cases [of r t g rq jids wall now x d n])
    case blocked
    have "sends_ok (fst (materialize_one rq jids r wall now p (d, n)))"
      by (rule sends_ok_parts [OF ok]) (simp_all add: p blocked(3) keeps_runs_same delivery_row_link)
    moreover have "rows_ready jids r ps (fst (materialize_one rq jids r wall now p (d, n)))"
      by (rule rows_ready_rest [OF rdy, where js = "[]" and f = "block_delivery_row (cd_id x) now"])
        (simp_all add: p blocked(3) row_kept(1))
    ultimately show ?thesis by (simp add: p blocked(3))
  next
    case (replayed j)
    have j: "j \<in> set (message_jobs d)" "mj_scope j = run_scope (cr_id r)" "mj_key j = cd_group_id x"
      using find_by_Some [OF replayed(2)] by (simp_all add: job_key_def)
    then have "sends_ok (fst (materialize_one rq jids r wall now p (d, n)))"
      using links_ok_materialize [OF links j x] runs by (simp add: sends_ok_def p replayed(3))
    moreover have "rows_ready jids r ps (fst (materialize_one rq jids r wall now p (d, n)))"
      by (rule rows_ready_rest [OF rdy, where js = "[]" and f = "materialize_row (cd_id x) (mj_id j) now"])
        (simp_all add: p replayed(3) row_kept(2))
    ultimately show ?thesis by (simp add: p replayed(3))
  next
    case created
    let ?j = "new_job (jids (cd_group_id x)) (run_job_input rq r (cd_group_id x) wall) now"
    have new: "links_ok (deliveries d) (message_jobs d @ [?j])"
      by (rule links_ok_new_job [OF links]) (use free created(2) in
        \<open>simp_all only: new_job_key run_job_input_key find_by_None not_False_eq_True\<close>)
    have "links_ok (sql_update (materialize_row (cd_id x) (mj_id ?j) now) (deliveries d)) (message_jobs d @ [?j])"
      by (rule links_ok_materialize [OF new _ _ _ x]) (simp_all add: new_job_def run_job_input_def)
    moreover have "run_jobs_ok (message_jobs d @ [?j]) (campaign_runs d)"
      by (rule run_jobs_ok_new_job [OF runs r new_run_job])
    ultimately have "sends_ok (fst (materialize_one rq jids r wall now p (d, n)))"
      by (simp add: sends_ok_def p created(3) new_job_key)
    moreover have "rows_ready jids r ps (fst (materialize_one rq jids r wall now p (d, n)))"
      by (rule rows_ready_rest [OF rdy, where js = "[?j]"
            and f = "materialize_row (cd_id x) (jids (cd_group_id x)) now"])
        (simp_all add: p created(3) row_kept(2) new_job_key row_group_def)
    ultimately show ?thesis by (simp add: p created(3))
  qed
qed

lemma materialize_fold_ok:
  assumes "sends_ok d" "r \<in> set (campaign_runs d)" "rows_ready jids r ps d"
  shows "sends_ok (fst (fold (materialize_one rq jids r wall now) ps (d, n)))"
  using assms
proof (induction ps arbitrary: d n)
  case (Cons p ps)
  obtain d1 n1 where one: "materialize_one rq jids r wall now p (d, n) = (d1, n1)" by fastforce
  then have "sends_ok d1" "r \<in> set (campaign_runs d1)" "rows_ready jids r ps d1"
    using materialize_one_ok [OF Cons.prems, of rq wall now n] Cons.prems(2) by simp_all
  then show ?case using Cons.IH [of d1 n1] by (simp add: one)
qed simp


section \<open>The rows to materialize\<close>

lemma pending_row_Some:
  "pending_row rid d x = Some (x', t, g) \<longleftrightarrow> x' = x \<and> cd_run_id x = rid \<and> cd_status x = D_PENDING
     \<and> find_target rid (cd_group_id x) (run_targets d) = Some t \<and> target_group t (gateway_groups d) = Some g"
  by (auto simp: pending_row_def split: option.splits)

lemma pending_row_fst: "pending_row rid d x = Some p \<Longrightarrow> fst p = x"
  by (cases p) (simp add: pending_row_Some)

lemma find_target_Some: "find_target rid gid ts = Some t \<Longrightarrow> t \<in> set ts \<and> rt_run_id t = rid \<and> rt_group_id t = gid"
  unfolding find_target_def by (auto simp: find_Some_iff in_set_conv_nth)

lemma mem_pending_rows:
  assumes "p \<in> set (pending_rows rid slots d)"
  shows "fst p \<in> set (deliveries d) \<and> pending_row rid d (fst p) = Some p"
proof -
  have "p \<in> set (List.map_filter (pending_row rid d) (deliveries d))"
    using assms unfolding pending_rows_def by (auto dest!: subsetD [OF set_sql_top])
  then obtain x where "x \<in> set (deliveries d)" "pending_row rid d x = Some p"
    by (auto simp: map_filter_def)
  then show ?thesis by (cases p) (auto simp: pending_row_Some)
qed

lemma distinct_map_top: "distinct (map f xs) \<Longrightarrow> distinct (map f (sql_top n key (\<lambda>_. True) xs))"
  unfolding sql_top_def take_map [symmetric]
  by (intro distinct_take) (simp add: distinct_map)

lemma pending_rows_distinct:
  assumes "keyed cd_id (deliveries d)"
  shows "distinct (map (cd_id \<circ> fst) (pending_rows rid slots d))"
proof -
  have part: "map (cd_id \<circ> fst) (List.map_filter (pending_row rid d) xs)
      = map cd_id (filter (\<lambda>x. pending_row rid d x \<noteq> None) xs)" for xs
  proof (induction xs)
    case (Cons x xs)
    then show ?case by (cases "pending_row rid d x") (auto simp: map_filter_simps pending_row_fst)
  qed (simp add: map_filter_simps)
  have "distinct (map (cd_id \<circ> fst) (List.map_filter (pending_row rid d) (deliveries d)))"
    unfolding part using assms by (simp add: keyed_def distinct_map_filter)
  then show ?thesis by (simp only: pending_rows_def distinct_map_top)
qed

lemma pending_groups_distinct:
  assumes "keyed cd_id (deliveries d)" "keyed delivery_key (deliveries d)"
  shows "distinct (map row_group (pending_rows rid slots d))"
proof -
  let ?ps = "pending_rows rid slots d"
  have "p = q" if h: "p \<in> set ?ps" "q \<in> set ?ps" "row_group p = row_group q" for p q
  proof -
    note p = mem_pending_rows [OF h(1)] and q = mem_pending_rows [OF h(2)]
    have "delivery_key (fst p) = delivery_key (fst q)"
      using p q h(3) by (cases p; cases q) (auto simp: pending_row_Some delivery_key_def row_group_def)
    then have "fst p = fst q" using keyed_inj [OF assms(2)] p q by blast
    then have "Some p = Some q" using p q by metis
    then show ?thesis by blast
  qed
  moreover have "distinct ?ps" using pending_rows_distinct [OF assms(1)] by (metis distinct_map)
  ultimately show ?thesis unfolding distinct_map by (intro conjI inj_onI)
qed

lemma pending_rows_ready:
  assumes ok: "sends_ok d" and ids: "fresh_ids jids (cr_id r) d (mj_id ` set (message_jobs d))"
  shows "rows_ready jids r (pending_rows (cr_id r) slots d) d"
proof -
  let ?ps = "pending_rows (cr_id r) slots d"
  have keyed: "keyed cd_id (deliveries d)" "keyed delivery_key (deliveries d)"
    using ok links_okD unfolding sends_ok_def by blast+
  have group: "row_group p \<in> target_groups (cr_id r) d" if "p \<in> set ?ps" for p
    using mem_pending_rows [OF that] find_target_Some
    by (cases p) (force simp: pending_row_Some row_group_def target_groups_def)
  then have "inj_on jids (row_group ` set ?ps)"
    using ids by (auto simp: fresh_ids_def intro: inj_on_subset)
  then have "distinct (map jids (map row_group ?ps))"
    using pending_groups_distinct [OF keyed] by (simp only: distinct_map set_map)
  then have "distinct (map (jids \<circ> row_group) ?ps)" by simp
  moreover have "jids (row_group p) \<notin> mj_id ` set (message_jobs d)" if "p \<in> set ?ps" for p
    using ids group [OF that] by (auto simp: fresh_ids_def)
  moreover have "cd_run_id y = cr_id r \<and> cd_group_id y = row_group p"
    if "p \<in> set ?ps" "y \<in> set (deliveries d)" "cd_id y = cd_id (fst p)" for p y
    using mem_pending_rows [OF that(1)] keyed_inj [OF keyed(1) that(2) _ that(3)]
    by (cases p) (auto simp: pending_row_Some row_group_def)
  ultimately show ?thesis unfolding rows_ready_def by blast
qed

section \<open>Every transaction\<close>

fun ids_ok :: "life_op \<Rightarrow> db \<Rightarrow> bool" where
  "ids_ok (OPreflight ids rid tok report observed wall now) d = fresh_ids ids rid d (cd_id ` set (deliveries d))"
| "ids_ok (OResume ids rid report observed wall now) d = fresh_ids ids rid d (cd_id ` set (deliveries d))"
| "ids_ok (OCancel ids rid now) d = fresh_ids ids rid d (cd_id ` set (deliveries d))"
| "ids_ok (OMaterialize rq jids rid buffer wall now) d = fresh_ids jids rid d (mj_id ` set (message_jobs d))"
| "ids_ok _ d = True"

primrec all_ids_ok :: "life_op list \<Rightarrow> db \<Rightarrow> bool" where
  "all_ids_ok [] d = True"
| "all_ids_ok (op # ops) d = (ids_ok op d \<and> all_ids_ok ops (life_apply op d))"

lemma sends_ok_insert:
  assumes ok: "sends_ok d" and keeps: "keeps_runs d d'"
    and ids: "fresh_ids ids rid d (cd_id ` set (deliveries d))"
    and ds: "map delivery_link (deliveries d') = map delivery_link (insert_deliveries ids rid now d)"
    and jobs: "map job_part (message_jobs d') = map job_part (message_jobs d)"
  shows "sends_ok d'"
proof -
  have "links_ok (insert_deliveries ids rid now d) (message_jobs d)"
    using links_ok_insert [OF _ ids] ok by (simp add: sends_ok_def)
  then have "links_ok (deliveries d') (message_jobs d')" by (rule links_ok_parts [OF _ ds jobs])
  moreover have "run_jobs_ok (message_jobs d') (campaign_runs d')"
    by (rule run_jobs_ok_parts [OF _ jobs]) (use ok keeps in \<open>auto simp: sends_ok_def keeps_runs_def\<close>)
  ultimately show ?thesis by (simp add: sends_ok_def)
qed

lemma preflight_deliveries:
  "message_jobs (fst (apply_preflight ids rid tok report observed wall now d)) = message_jobs d
   \<and> (deliveries (fst (apply_preflight ids rid tok report observed wall now d)) = deliveries d
     \<or> deliveries (fst (apply_preflight ids rid tok report observed wall now d)) = insert_deliveries ids rid now d)"
  by (simp add: apply_preflight_def split: option.split)

lemma api_scope [simp]: "''runtime-api'' \<noteq> run_scope rid"
  by (simp add: run_scope_def)

lemma sends_ok_submit:
  assumes "sends_ok d" "jid \<notin> mj_id ` set (message_jobs d)" "ji_scope i = ''runtime-api''"
  shows "sends_ok (d\<lparr>message_jobs := fst (create_job jid i now (message_jobs d))\<rparr>)"
proof (cases rule: create_job_cases [of i "message_jobs d" jid now])
  case inserted
  have "links_ok (deliveries d) (message_jobs d @ [new_job jid i now])"
    by (rule links_ok_new_job)
      (use assms inserted(1) in \<open>simp_all add: sends_ok_def new_job_key find_by_None\<close>)
  moreover have "mj_scope (new_job jid i now) = ''runtime-api''" using assms(3) by (simp add: new_job_def)
  ultimately show ?thesis using assms(1) inserted(2) by (auto simp: sends_ok_def run_jobs_ok_def)
qed (use assms(1) in simp)

lemma sends_ok_apply:
  assumes ok: "sends_ok d" and life: "life_ok d" "life_op_ok op d" and ids: "ids_ok op d"
  shows "sends_ok (life_apply op d)"
proof -
  note keeps = apply_keeps_runs [OF life]
  note same = sends_ok_parts [OF ok keeps]
  show ?thesis
  proof (cases op)
    case (OPreflight is0 rid tok report observed wall now)
    consider "deliveries (life_apply op d) = deliveries d" | "deliveries (life_apply op d) = insert_deliveries is0 rid now d"
      using preflight_deliveries [of is0 rid tok report observed wall now d] OPreflight by auto
    then show ?thesis
      using same sends_ok_insert [OF ok keeps] ids preflight_deliveries OPreflight by cases auto
  next
    case (OResume is0 rid report observed wall now)
    obtain d' res where r: "resume_run is0 rid report observed wall now d = (d', res)" by fastforce
    from r show ?thesis
    proof (cases rule: resume_run_cases)
      case kept
      then show ?thesis using ok OResume r by simp
    next
      case (resumed r0)
      then show ?thesis using sends_ok_insert [OF ok keeps, where now = now] ids OResume r by simp
    qed
  next
    case (OCancel is0 rid now)
    obtain d' res where r: "cancel_run is0 rid now d = (d', res)" by fastforce
    from r show ?thesis
    proof (cases rule: cancel_run_cases)
      case kept
      then show ?thesis using ok OCancel r by simp
    next
      case (cancelled r0 jobs)
      then show ?thesis using sends_ok_insert [OF ok keeps, where now = now] ids OCancel r
        by (simp add: delivery_row_link cancel_row_part)
    qed
  next
    case (OMaterialize rq jids rid buffer wall now)
    show ?thesis
    proof (cases rule: materialize_pending_cases [of rq jids rid buffer wall now d])
      case idle
      then show ?thesis using ok OMaterialize by simp
    next
      case (unsendable r)
      then show ?thesis using same OMaterialize by simp
    next
      case (work r)
      note r = find_by_Some [OF work(1)]
      have "rows_ready jids r (pending_rows rid (buffer - active_jobs rid d) d) d"
        using pending_rows_ready [OF ok, of jids r] ids r OMaterialize by simp
      then show ?thesis using materialize_fold_ok [OF ok] r work(5) OMaterialize by simp
    qed
  next
    case (OSubmit jid i now)
    then show ?thesis using sends_ok_submit [OF ok] life(2) by simp
  next
    case (OJob jop)
    then show ?thesis using same by (simp add: job_row_part)
  next
    case (OReconcile now)
    then show ?thesis using same by (simp add: reconcile_deliveries_def delivery_row_link)
  next
    case (OTargets cid is0 expected now)
    obtain d' res where r: "replace_targets cid is0 expected now d = (d', res)" by fastforce
    from r show ?thesis using same OTargets r by (cases rule: replace_targets_cases) simp_all
  next
    case (OApplyList cid lid expected membership now)
    obtain d' res where r: "apply_group_list_targets cid lid expected membership now d = (d', res)" by fastforce
    from r show ?thesis
    proof (cases rule: apply_group_list_cases)
      case kept
      then show ?thesis using ok OApplyList r by simp
    next
      case (applied c s)
      from applied(7) show ?thesis using same OApplyList r by (cases rule: apply_snapshot_cases) simp_all
    qed
  next
    case (ODelete cid allowed expected targets now)
    obtain d' res where r: "delete_campaign cid (\<lambda>s. s \<in> set allowed) expected targets now d = (d', res)" by fastforce
    from r show ?thesis using same ODelete r by (cases rule: delete_campaign_cases) simp_all
  next
    case (ORun rid i wall now)
    obtain d' res where r: "create_run rid i wall now d = (d', res)" by fastforce
    from r show ?thesis using same ORun r by (cases rule: create_run_cases) simp_all
  qed (use same in \<open>simp_all add: list_apply_frame update_campaign_def claim_preparation_def
      recover_expired_preparations_def fail_preparation_attempt_def activate_due_def finalize_runs_def
      pause_run_def record_blocked_resume_def Let_def\<close>)
qed

lemma sends_ok_fold:
  "sends_ok d \<Longrightarrow> life_ok d \<Longrightarrow> life_ops_ok ops d \<Longrightarrow> all_ids_ok ops d \<Longrightarrow> sends_ok (fold life_apply ops d)"
  by (induction ops arbitrary: d) (simp_all add: sends_ok_apply life_ok_apply)


section \<open>How much the loop does\<close>

lemma filter_one_more:
  assumes "keyed key ds" "\<And>y. y \<in> set ds \<Longrightarrow> key y \<noteq> k \<Longrightarrow> Q (row_after f y) = P y"
  shows "length (filter Q (sql_update f ds)) \<le> length (filter P ds) + 1"
  using assms
proof (induction ds)
  case (Cons y ds)
  have keyed: "keyed key ds" using Cons.prems(1) by (simp add: keyed_def)
  show ?case
  proof (cases "key y = k")
    case True
    have "key z \<noteq> k" if "z \<in> set ds" for z
      using Cons.prems(1) that True by (auto simp: keyed_def image_iff)
    then have "length (filter Q (sql_update f ds)) = length (filter P ds)"
      using Cons.prems(2) by (intro filter_rest_same) simp
    then show ?thesis by simp
  next
    case False
    then show ?thesis using Cons.IH [OF keyed] Cons.prems(2) by (simp add: row_after_def [symmetric])
  qed
qed simp

definition job_active :: "message_job table \<Rightarrow> delivery \<Rightarrow> bool" where
  "job_active jobs x \<longleftrightarrow> (\<exists>j. delivery_job jobs x = Some j \<and> mj_status j \<in> {J_SCHEDULED, J_QUEUED, J_PROCESSING})"

lemma active_jobs_filter:
  "active_jobs rid d = length (filter (\<lambda>x. cd_run_id x = rid \<and> job_active (message_jobs d) x) (deliveries d))"
  by (simp add: active_jobs_def job_active_def)

lemma job_active_append:
  assumes "links_ok ds jobs" "x \<in> set ds"
  shows "job_active (jobs @ js) x = job_active jobs x"
proof (cases "cd_job_id x")
  case (Some k)
  then obtain j where "j \<in> set jobs" "mj_id j = k" using links_okD(5) [OF assms] by (auto simp: linked_def)
  then have "find_by mj_id k jobs \<noteq> None" by (auto simp: find_by_None)
  then show ?thesis using Some by (auto simp: job_active_def delivery_job_def find_by_append split: option.split)
qed (simp add: job_active_def delivery_job_def)

lemma row_after_simps:
  "cd_id (row_after (materialize_row xid jid now) y) = cd_id y"
  "cd_run_id (row_after (materialize_row xid jid now) y) = cd_run_id y"
  "cd_id y \<noteq> xid \<Longrightarrow> row_after (materialize_row xid jid now) y = y"
  "cd_id (row_after (block_delivery_row xid now) y) = cd_id y"
  "cd_run_id (row_after (block_delivery_row xid now) y) = cd_run_id y"
  "cd_job_id (row_after (block_delivery_row xid now) y) = cd_job_id y"
  "cd_id y \<noteq> xid \<Longrightarrow> row_after (block_delivery_row xid now) y = y"
  by (auto simp: row_after_def materialize_row_def block_delivery_row_def sql_where_def)

lemma materialize_one_active:
  assumes ok: "links_ok (deliveries d) (message_jobs d)"
  shows "active_jobs rid (fst (materialize_one rq jids r wall now (x, t, g) (d, n))) \<le> active_jobs rid d + 1"
proof (cases rule: materialize_one_cases [of r t g rq jids wall now x d n])
  case blocked
  have "length (filter (\<lambda>y. cd_run_id y = rid \<and> job_active (message_jobs d) y)
      (sql_update (block_delivery_row (cd_id x) now) (deliveries d)))
    = length (filter (\<lambda>y. cd_run_id y = rid \<and> job_active (message_jobs d) y) (deliveries d))"
    by (rule filter_rest_same) (simp add: row_after_simps job_active_def delivery_job_def)
  then show ?thesis by (simp add: blocked(3) active_jobs_filter)
next
  case (replayed j)
  have "length (filter (\<lambda>y. cd_run_id y = rid \<and> job_active (message_jobs d) y)
      (sql_update (materialize_row (cd_id x) (mj_id j) now) (deliveries d)))
    \<le> length (filter (\<lambda>y. cd_run_id y = rid \<and> job_active (message_jobs d) y) (deliveries d)) + 1"
    by (rule filter_one_more [OF links_okD(1) [OF ok], where k = "cd_id x"]) (simp add: row_after_simps)
  then show ?thesis by (simp add: replayed(3) active_jobs_filter)
next
  case created
  let ?jobs = "message_jobs d @ [new_job (jids (cd_group_id x)) (run_job_input rq r (cd_group_id x) wall) now]"
  have "length (filter (\<lambda>y. cd_run_id y = rid \<and> job_active ?jobs y)
      (sql_update (materialize_row (cd_id x) (jids (cd_group_id x)) now) (deliveries d)))
    \<le> length (filter (\<lambda>y. cd_run_id y = rid \<and> job_active (message_jobs d) y) (deliveries d)) + 1"
    by (rule filter_one_more [OF links_okD(1) [OF ok], where k = "cd_id x"])
      (simp add: row_after_simps job_active_append [OF ok])
  then show ?thesis by (simp add: created(3) active_jobs_filter)
qed

lemma materialize_fold_active:
  assumes "sends_ok d" "r \<in> set (campaign_runs d)" "rows_ready jids r ps d"
  shows "active_jobs rid (fst (fold (materialize_one rq jids r wall now) ps (d, n))) \<le> active_jobs rid d + length ps"
  using assms
proof (induction ps arbitrary: d n)
  case (Cons p ps)
  obtain x t g where p: "p = (x, t, g)" by (cases p)
  obtain d1 n1 where one: "materialize_one rq jids r wall now p (d, n) = (d1, n1)" by fastforce
  then have "sends_ok d1" "r \<in> set (campaign_runs d1)" "rows_ready jids r ps d1"
    using materialize_one_ok [OF Cons.prems, of rq wall now n] Cons.prems(2) by simp_all
  then have "active_jobs rid (fst (fold (materialize_one rq jids r wall now) ps (d1, n1)))
      \<le> active_jobs rid d1 + length ps" by (rule Cons.IH)
  moreover have "active_jobs rid d1 \<le> active_jobs rid d + 1"
    using materialize_one_active [of d rid rq jids r wall now x t g n] Cons.prems(1) one p
    by (simp add: sends_ok_def)
  ultimately show ?case by (simp add: one)
qed simp

text \<open>The jobs the loop adds.\<close>

definition job_for ::
  "(message_request \<Rightarrow> string) \<Rightarrow> (string \<Rightarrow> uuid) \<Rightarrow> campaign_run \<Rightarrow> timestamp \<Rightarrow> timestamp
    \<Rightarrow> delivery \<times> run_target \<times> gateway_group \<Rightarrow> message_job \<Rightarrow> bool" where
  "job_for rq jids r wall now p j \<longleftrightarrow> (case p of (x, t, g) \<Rightarrow> (cr_mode r = LIVE \<longrightarrow> \<not> capability_changed t g)
     \<and> j = new_job (jids (cd_group_id x)) (run_job_input rq r (cd_group_id x) wall) now)"

lemma materialize_one_new:
  assumes "materialize_one rq jids r wall now p (d, n) = (d1, n1)" "j \<in> set (message_jobs d1)"
  shows "j \<in> set (message_jobs d) \<or> job_for rq jids r wall now p j"
proof -
  obtain x t g where p: "p = (x, t, g)" by (cases p)
  show ?thesis
    using assms unfolding p
    by (cases rule: materialize_one_cases [of r t g rq jids wall now x d n]) (auto simp: job_for_def)
qed

lemma materialize_fold_new:
  assumes "j \<in> set (message_jobs (fst (fold (materialize_one rq jids r wall now) ps (d, n))))"
  shows "j \<in> set (message_jobs d) \<or> (\<exists>p \<in> set ps. job_for rq jids r wall now p j)"
  using assms
proof (induction ps arbitrary: d n)
  case (Cons p ps)
  obtain d1 n1 where one: "materialize_one rq jids r wall now p (d, n) = (d1, n1)" by fastforce
  have "j \<in> set (message_jobs (fst (fold (materialize_one rq jids r wall now) ps (d1, n1))))"
    using Cons.prems by (simp add: one)
  then have "j \<in> set (message_jobs d1) \<or> (\<exists>p \<in> set ps. job_for rq jids r wall now p j)" by (rule Cons.IH)
  then show ?case using materialize_one_new [OF one] by auto
qed simp

text \<open>Rows left after the loop: each row it took is no longer PENDING, the others are as they were.\<close>

definition rows_done :: "uuid set \<Rightarrow> delivery table \<Rightarrow> delivery table \<Rightarrow> bool" where
  "rows_done I ds ds' \<longleftrightarrow> list_all2 (\<lambda>y y'. cd_id y' = cd_id y \<and> (cd_id y \<notin> I \<longrightarrow> y' = y)
     \<and> (cd_id y \<in> I \<longrightarrow> cd_status y' \<noteq> D_PENDING)) ds ds'"


lemma rows_done_refl: "rows_done {} ds ds"
  by (simp add: rows_done_def list.rel_refl)

lemma rows_done_update:
  assumes "\<And>y. cd_id (row_after f y) = cd_id y" "\<And>y. cd_id y \<noteq> xid \<Longrightarrow> row_after f y = y"
    and "\<And>y. cd_id y = xid \<Longrightarrow> cd_status (row_after f y) \<noteq> D_PENDING"
  shows "rows_done {xid} ds (sql_update f ds)"
  using assms by (auto simp: rows_done_def map_after list_all2_map2 intro!: list.rel_refl_strong)

lemma rows_done_trans:
  assumes "rows_done I ds ds1" "rows_done J ds1 ds2"
  shows "rows_done (I \<union> J) ds ds2"
  using assms unfolding rows_done_def
  by (rule list_all2_trans [rotated]) auto

lemma materialize_one_done:
  "rows_done {cd_id (fst p)} (deliveries d) (deliveries (fst (materialize_one rq jids r wall now p (d, n))))"
proof -
  obtain x t g where p: "p = (x, t, g)" by (cases p)
  have blk: "rows_done {cd_id x} ds (sql_update (block_delivery_row (cd_id x) now) ds)" for ds
    by (rule rows_done_update) (auto simp: row_after_simps row_after_def block_delivery_row_def sql_where_def)
  have mat: "rows_done {cd_id x} ds (sql_update (materialize_row (cd_id x) jid now) ds)" for ds jid
    by (rule rows_done_update) (auto simp: row_after_simps row_after_def materialize_row_def sql_where_def)
  show ?thesis
    unfolding p
    by (cases rule: materialize_one_cases [of r t g rq jids wall now x d n]) (simp_all add: blk mat)
qed

lemma materialize_fold_done:
  "rows_done (cd_id ` fst ` set ps) (deliveries d)
     (deliveries (fst (fold (materialize_one rq jids r wall now) ps (d, n))))"
proof (induction ps arbitrary: d n)
  case (Cons p ps)
  obtain d1 n1 where one: "materialize_one rq jids r wall now p (d, n) = (d1, n1)" by fastforce
  have "rows_done {cd_id (fst p)} (deliveries d) (deliveries d1)"
    using materialize_one_done [of p d rq jids r wall now n] by (simp add: one)
  from rows_done_trans [OF this Cons.IH [of d1 n1]] show ?case by (simp add: one)
qed (simp add: rows_done_refl)

definition pending_count :: "uuid \<Rightarrow> db \<Rightarrow> nat" where
  "pending_count rid d = length (filter (\<lambda>x. pending_row rid d x \<noteq> None) (deliveries d))"

lemma pending_count_card:
  assumes "keyed cd_id (deliveries d)"
  shows "pending_count rid d = card (cd_id ` {x \<in> set (deliveries d). pending_row rid d x \<noteq> None})"
proof -
  have "distinct (map cd_id (filter (\<lambda>x. pending_row rid d x \<noteq> None) (deliveries d)))"
    using assms by (simp add: keyed_def distinct_map_filter)
  from distinct_card [OF this] show ?thesis by (simp add: pending_count_def)
qed

lemma length_pending_rows: "length (pending_rows rid slots d) = min slots (pending_count rid d)"
proof -
  have "length (List.map_filter (pending_row rid d) xs) = length (filter (\<lambda>x. pending_row rid d x \<noteq> None) xs)" for xs
    by (induction xs) (auto simp: map_filter_simps split: option.split)
  then show ?thesis by (simp add: pending_rows_def sql_top_def pending_count_def)
qed


lemma materialize_fold_read:
  "run_targets (fst (fold (materialize_one rq jids r wall now) ps acc)) = run_targets (fst acc)"
  "gateway_groups (fst (fold (materialize_one rq jids r wall now) ps acc)) = gateway_groups (fst acc)"
  by (induction ps arbitrary: acc) (simp_all add: materialize_one_def Let_def split: prod.splits)

lemma pending_after:
  assumes "rows_done I (deliveries d) (deliveries d')"
    and "run_targets d' = run_targets d" "gateway_groups d' = gateway_groups d"
  shows "cd_id ` {x \<in> set (deliveries d'). pending_row rid d' x \<noteq> None}
    = cd_id ` {x \<in> set (deliveries d). pending_row rid d x \<noteq> None} - I"
proof -
  have same: "pending_row rid d' x = pending_row rid d x" for x
    unfolding pending_row_def assms(2,3) by (rule refl)
  have settled: "pending_row rid d x = None" if "cd_status x \<noteq> D_PENDING" for x
    using that by (simp add: pending_row_def)
  have all: "list_all2 (\<lambda>y y'. cd_id y' = cd_id y \<and> (cd_id y \<notin> I \<longrightarrow> y' = y)
      \<and> (cd_id y \<in> I \<longrightarrow> pending_row rid d y' = None)) (deliveries d) (deliveries d')"
    using assms(1) settled unfolding rows_done_def by (auto elim: list_all2_mono)
  have left: "\<exists>y \<in> set ds. y' = y \<and> cd_id y \<notin> I"
    if "list_all2 (\<lambda>y y'. cd_id y' = cd_id y \<and> (cd_id y \<notin> I \<longrightarrow> y' = y)
      \<and> (cd_id y \<in> I \<longrightarrow> pending_row rid d y' = None)) ds ds'" "y' \<in> set ds'" "pending_row rid d y' \<noteq> None" for ds ds' y'
    using that by (induction rule: list_all2_induct) auto
  have right: "y \<in> set ds'"
    if "list_all2 (\<lambda>y y'. cd_id y' = cd_id y \<and> (cd_id y \<notin> I \<longrightarrow> y' = y)
      \<and> (cd_id y \<in> I \<longrightarrow> pending_row rid d y' = None)) ds ds'" "y \<in> set ds" "cd_id y \<notin> I" for ds ds' y
    using that by (induction rule: list_all2_induct) auto
  show ?thesis
    unfolding same using left [OF all] right [OF all] by (fastforce simp: image_iff)
qed

lemma materialize_pending_fewer:
  assumes keyed: "keyed cd_id (deliveries d)"
    and "d' = fst (fold (materialize_one rq jids r wall now) (pending_rows rid slots d) (d, n))"
  shows "pending_count rid d' + min slots (pending_count rid d) = pending_count rid d"
proof -
  let ?I = "cd_id ` fst ` set (pending_rows rid slots d)"
  let ?P = "\<lambda>d. cd_id ` {x \<in> set (deliveries d). pending_row rid d x \<noteq> None}"
  have rows: "rows_done ?I (deliveries d) (deliveries d')"
    using materialize_fold_done [of "pending_rows rid slots d" d rq jids r wall now n] assms(2) by simp
  then have P: "?P d' = ?P d - ?I" using assms(2) materialize_fold_read by (intro pending_after) simp_all
  have "map cd_id (deliveries d') = map cd_id (deliveries d)"
    using rows unfolding rows_done_def by (induction rule: list_all2_induct) simp_all
  then have keyed': "keyed cd_id (deliveries d')" using keyed by (simp add: keyed_def)
  have sub: "?I \<subseteq> ?P d" using mem_pending_rows [of _ rid slots d] by fastforce
  have "card ?I = min slots (pending_count rid d)"
    using distinct_card [OF pending_rows_distinct [OF keyed, of rid slots]] length_pending_rows [of rid slots d]
    by (simp add: image_comp)
  then show ?thesis
    using card_Diff_subset [of ?I "?P d"] sub card_mono [OF _ sub] P
    by (simp add: pending_count_card [OF keyed] pending_count_card [OF keyed'])
qed

section \<open>Properties\<close>

definition run_jobs :: "uuid \<Rightarrow> db \<Rightarrow> message_job list" where
  "run_jobs rid d = filter (\<lambda>j. mj_scope j = run_scope rid) (message_jobs d)"

lemma sends_ok_once:
  assumes "sends_ok d"
  shows "distinct (map mj_recipient_id (run_jobs rid d))"
    and "distinct (map cd_group_id (run_deliveries rid (deliveries d)))"
proof -
  have links: "links_ok (deliveries d) (message_jobs d)" and runs: "run_jobs_ok (message_jobs d) (campaign_runs d)"
    using assms by (simp_all add: sends_ok_def)
  have "distinct (run_jobs rid d)"
    using links_okD(3) [OF links] by (simp add: run_jobs_def keyed_def distinct_map distinct_filter)
  moreover have "j = j'" if h: "j \<in> set (run_jobs rid d)" "j' \<in> set (run_jobs rid d)"
    "mj_recipient_id j = mj_recipient_id j'" for j j'
  proof -
    have j: "j \<in> set (message_jobs d)" "mj_scope j = run_scope rid" and
      j': "j' \<in> set (message_jobs d)" "mj_scope j' = run_scope rid"
      using h by (simp_all add: run_jobs_def)
    have "job_key j = job_key j'"
      using runs j j' h(3) unfolding run_jobs_ok_def job_of_run_def job_key_def by metis
    then show ?thesis using keyed_inj [OF links_okD(4) [OF links]] j(1) j'(1) by blast
  qed
  ultimately show "distinct (map mj_recipient_id (run_jobs rid d))" unfolding distinct_map by (intro conjI inj_onI)
  have "distinct (map delivery_key (run_deliveries rid (deliveries d)))"
    using links_okD(2) [OF links] by (simp add: run_deliveries_def keyed_def distinct_map_filter)
  then show "distinct (map cd_group_id (run_deliveries rid (deliveries d)))"
    by (auto simp: distinct_map inj_on_def run_deliveries_def delivery_key_def)
qed

text \<open>A running campaign with one group whose delivery is still to be queued.\<close>

definition pending_db :: db where
  "pending_db = (delivery_db D_PENDING J_SCHEDULED)\<lparr>message_jobs := [],
     deliveries := [new_delivery (\<lambda>_. ''d1'') ''r1'' 0 ''g1@g.us'']\<rparr>"

lemma pending_db_ok: "life_ok pending_db" "sends_ok pending_db"
proof -
  have "life_ok pending_db = life_ok (delivery_db D_PENDING J_SCHEDULED)"
    by (rule life_ok_cong) (simp_all add: pending_db_def)
  then show "life_ok pending_db" using delivery_db_ok by simp
  show "sends_ok pending_db"
    by (simp add: sends_ok_def links_ok_def run_jobs_ok_def pending_db_def new_delivery_def keyed_def)
qed

lemma pending_db_fresh: "fresh_ids (append ''j'') ''r1'' pending_db (mj_id ` set (message_jobs pending_db))"
  by (simp add: fresh_ids_def inj_on_def pending_db_def)

definition send_sample :: "life_op list" where
  "send_sample = [OMaterialize (\<lambda>_. ''h'') (append ''j'') ''r1'' 5 3 3, OReconcile 4, OFinalize 5 9]"

text \<open>C3: Whatever transactions run, a run has at most one delivery and at most one message job per
  group, and the job of a delivery carries the session, text, group and mode of its run: a campaign
  never queues a group twice and never queues anything but its snapshot.\<close>

theorem campaign_queues_once:
  assumes "sends_ok d" "life_ok d" "life_ops_ok ops d" "all_ids_ok ops d" "d' = fold life_apply ops d"
  shows "distinct (map cd_group_id (run_deliveries rid (deliveries d')))
    \<and> distinct (map mj_recipient_id (run_jobs rid d'))
    \<and> (\<forall>x \<in> set (run_deliveries rid (deliveries d')). cd_job_id x \<noteq> None \<longrightarrow>
         (\<exists>j \<in> set (run_jobs rid d'). \<exists>r \<in> set (campaign_runs d'). cd_job_id x = Some (mj_id j)
            \<and> cr_id r = rid \<and> mj_recipient_id j = cd_group_id x \<and> mj_session_id j = cr_session_id r
            \<and> mj_text j = cr_text r \<and> mj_dry_run j = (cr_mode r = DRY_RUN)))"
proof -
  have ok: "sends_ok d'" using sends_ok_fold [OF assms(1-4)] assms(5) by simp
  have "\<exists>j \<in> set (run_jobs rid d'). \<exists>r \<in> set (campaign_runs d'). cd_job_id x = Some (mj_id j)
      \<and> cr_id r = rid \<and> mj_recipient_id j = cd_group_id x \<and> mj_session_id j = cr_session_id r
      \<and> mj_text j = cr_text r \<and> mj_dry_run j = (cr_mode r = DRY_RUN)"
    if x: "x \<in> set (run_deliveries rid (deliveries d'))" "cd_job_id x \<noteq> None" for x
  proof -
    have x': "x \<in> set (deliveries d')" "cd_run_id x = rid" using x(1) by (simp_all add: run_deliveries_def)
    obtain j where j: "j \<in> set (message_jobs d')" "linked x j"
      using ok links_okD(5) [OF _ x'(1) x(2)] by (auto simp: sends_ok_def)
    obtain r where r: "r \<in> set (campaign_runs d')" "job_of_run r j"
      using ok j x'(2) unfolding sends_ok_def run_jobs_ok_def linked_def by metis
    have "cr_id r = rid" using job_of_run_scope [OF r(2), of rid] j(2) x'(2) by (simp add: linked_def)
    then show ?thesis using j r x'(2)
      by (intro bexI [of _ j] bexI [of _ r]) (auto simp: linked_def job_of_run_def run_jobs_def)
  qed
  then show ?thesis using sends_ok_once [OF ok] by blast
qed

lemma campaign_queues_once_witness:
  "distinct (map mj_recipient_id (run_jobs ''r1'' (fold life_apply send_sample pending_db)))"
  using campaign_queues_once [OF pending_db_ok(2,1), of send_sample _ "''r1''"] pending_db_fresh
  by (simp add: send_sample_def)

text \<open>Materializing a run never lets more than buffer of its jobs wait or be processed at a
  time, unless there were more before.\<close>

theorem materialize_bounded:
  assumes "sends_ok d" "fresh_ids jids rid d (mj_id ` set (message_jobs d))"
  shows "active_jobs rid (fst (materialize_pending rq jids rid buffer wall now d)) \<le> max buffer (active_jobs rid d)"
proof (cases rule: materialize_pending_cases [of rq jids rid buffer wall now d])
  case idle
  then show ?thesis by simp
next
  case (unsendable r)
  then show ?thesis by (simp add: active_jobs_filter)
next
  case (work r)
  note r = find_by_Some [OF work(1)]
  have ready: "rows_ready jids r (pending_rows rid (buffer - active_jobs rid d) d) d"
    using pending_rows_ready [OF assms(1), of jids r] assms(2) r by simp
  have "active_jobs rid (fst (materialize_pending rq jids rid buffer wall now d))
      \<le> active_jobs rid d + length (pending_rows rid (buffer - active_jobs rid d) d)"
    unfolding work(5) by (rule materialize_fold_active [OF assms(1) _ ready]) (use r in simp)
  also have "\<dots> \<le> active_jobs rid d + (buffer - active_jobs rid d)" by (simp add: length_pending_rows)
  finally show ?thesis using work(3) by simp
qed

lemma materialize_bounded_witness:
  "active_jobs ''r1'' (fst (materialize_pending (\<lambda>_. ''h'') (append ''j'') ''r1'' 1 3 3 pending_db)) \<le> 1"
  using materialize_bounded [OF pending_db_ok(2) pending_db_fresh, of "\<lambda>_. ''h''" 1 3 3]
  by (simp add: active_jobs_filter pending_db_def new_delivery_def job_active_def delivery_job_def)

text \<open>C5: A job is queued by materializing a run only for a group whose delivery was PENDING while the
  run was RUNNING, with the run's session, text and mode; in a LIVE run the session could send then
  and the group was still ALLOWED at the very revision that the preflight had approved.\<close>

theorem materialize_safe:
  assumes "j \<in> set (message_jobs (fst (materialize_pending rq jids rid buffer wall now d)))"
    and "j \<notin> set (message_jobs d)"
  shows "\<exists>r \<in> set (campaign_runs d). \<exists>x \<in> set (deliveries d). \<exists>t \<in> set (run_targets d). \<exists>g.
    cr_id r = rid \<and> cr_status r = R_RUNNING \<and> cd_run_id x = rid \<and> cd_status x = D_PENDING
    \<and> rt_run_id t = rid \<and> rt_group_id t = cd_group_id x \<and> target_group t (gateway_groups d) = Some g
    \<and> mj_recipient_id j = cd_group_id x \<and> mj_session_id j = cr_session_id r \<and> mj_text j = cr_text r
    \<and> mj_dry_run j = (cr_mode r = DRY_RUN) \<and> mj_status j = J_SCHEDULED \<and> mj_scheduled_at j = wall
    \<and> (cr_mode r = DRY_RUN \<or> is_session_sendable (gateway_sessions d) (cr_session_id r)
         \<and> gg_capability g = ALLOWED \<and> gg_revision g = rt_revision t)"
proof (cases rule: materialize_pending_cases [of rq jids rid buffer wall now d])
  case idle
  then show ?thesis using assms by simp
next
  case (unsendable r)
  then show ?thesis using assms by simp
next
  case (work r)
  note r = find_by_Some [OF work(1)]
  obtain p where p: "p \<in> set (pending_rows rid (buffer - active_jobs rid d) d)" "job_for rq jids r wall now p j"
    using materialize_fold_new [of j rq jids r wall now _ d 0] assms unfolding work(5) by blast
  obtain x t g where xtg: "p = (x, t, g)" by (cases p)
  have x: "x \<in> set (deliveries d)" "cd_run_id x = rid" "cd_status x = D_PENDING"
    "find_target rid (cd_group_id x) (run_targets d) = Some t" "target_group t (gateway_groups d) = Some g"
    using mem_pending_rows [OF p(1)] by (simp_all add: xtg pending_row_Some)
  note t = find_target_Some [OF x(4)]
  have j: "mj_recipient_id j = cd_group_id x \<and> mj_session_id j = cr_session_id r \<and> mj_text j = cr_text r
      \<and> mj_dry_run j = (cr_mode r = DRY_RUN) \<and> mj_status j = J_SCHEDULED \<and> mj_scheduled_at j = wall"
    using p(2) by (simp add: xtg job_for_def new_job_def run_job_input_def)
  have live: "cr_mode r = DRY_RUN \<or> is_session_sendable (gateway_sessions d) (cr_session_id r)
      \<and> gg_capability g = ALLOWED \<and> gg_revision g = rt_revision t"
    using p(2) work(4) by (cases "cr_mode r") (auto simp: xtg job_for_def capability_changed_def)
  show ?thesis using r work(2) x t j live by blast
qed

text \<open>While a run is RUNNING, its session can send and fewer than buffer of its jobs are open,
  every call takes a slot's worth of its PENDING deliveries away, so that finitely many calls leave none.\<close>

theorem materialize_progress:
  assumes "sends_ok d" "find_by cr_id rid (campaign_runs d) = Some r" "cr_status r = R_RUNNING"
    and "cr_mode r = DRY_RUN \<or> is_session_sendable (gateway_sessions d) (cr_session_id r)"
    and "active_jobs rid d < buffer" "materialize_pending rq jids rid buffer wall now d = (d', n)"
  shows "pending_count rid d' = pending_count rid d - (buffer - active_jobs rid d)"
proof -
  have keyed: "keyed cd_id (deliveries d)" using assms(1) links_okD(1) by (auto simp: sends_ok_def)
  have "d' = fst (fold (materialize_one rq jids r wall now)
      (pending_rows rid (buffer - active_jobs rid d) d) (d, 0))"
    using assms(2-6) by (auto simp: materialize_pending_def split: if_splits)
  from materialize_pending_fewer [OF keyed this] show ?thesis by linarith
qed

text \<open>The same run while its session can send.\<close>

definition ready_db :: db where
  "ready_db = pending_db\<lparr>gateway_sessions := [sample_session]\<rparr>"

lemma ready_db_facts:
  "sends_ok ready_db" "is_session_sendable (gateway_sessions ready_db) ''s1''"
  "active_jobs ''r1'' ready_db = 0" "pending_count ''r1'' ready_db \<le> 1" "message_jobs ready_db = []"
  "find_by cr_id ''r1'' (campaign_runs ready_db) = Some ((new_run ''r1'' run_sample
     (new_campaign ''c1'' campaign_sample 0) 0 0)\<lparr>cr_status := R_RUNNING\<rparr>)"
  using pending_db_ok(2)
  by (simp_all add: ready_db_def sends_ok_def is_session_sendable_def session_sendable_def sample_session_def
      active_jobs_filter pending_db_def new_delivery_def job_active_def delivery_job_def pending_count_def
      delivery_db_def new_run_def)

lemma materialize_safe_witness:
  "\<exists>j r. j \<in> set (message_jobs (fst (materialize_pending (\<lambda>_. ''h'') (append ''j'') ''r1'' 1 3 3 ready_db)))
     \<and> r \<in> set (campaign_runs ready_db) \<and> mj_text j = cr_text r"
proof -
  have "\<exists>t g. pending_rows ''r1'' 1 ready_db = [(new_delivery (\<lambda>_. ''d1'') ''r1'' 0 ''g1@g.us'', t, g)]
      \<and> \<not> capability_changed t g"
    by (simp add: pending_rows_def sql_top_def map_filter_simps ready_db_def pending_db_def new_delivery_def
        pending_row_def delivery_db_def find_target_def target_group_def sample_lists_def find_group_def
        sample_group_def capability_changed_def is_group_def)
  then obtain t g where rows: "pending_rows ''r1'' 1 ready_db = [(new_delivery (\<lambda>_. ''d1'') ''r1'' 0 ''g1@g.us'', t, g)]"
    and same: "\<not> capability_changed t g" by blast
  have "\<exists>j. j \<in> set (message_jobs (fst (materialize_pending (\<lambda>_. ''h'') (append ''j'') ''r1'' 1 3 3 ready_db)))"
    using rows same ready_db_facts
    by (simp add: materialize_pending_def new_run_def new_campaign_def campaign_sample_def
        materialize_one_def create_job_def)
  then obtain j where j: "j \<in> set (message_jobs (fst (materialize_pending (\<lambda>_. ''h'') (append ''j'') ''r1'' 1 3 3 ready_db)))"
    by blast
  show ?thesis using materialize_safe [OF j] j ready_db_facts(5) by auto
qed

lemma materialize_progress_witness:
  "pending_count ''r1'' (fst (materialize_pending (\<lambda>_. ''h'') (append ''j'') ''r1'' 1 3 3 ready_db)) = 0"
  using materialize_progress [OF ready_db_facts(1) ready_db_facts(6) _ _ _ prod.collapse [symmetric], of 1 "\<lambda>_. ''h''"
      "append ''j''" 3 3] ready_db_facts
  by (simp add: new_run_def new_campaign_def campaign_sample_def)

end
