(* ===== verification/Sync_Runs.thy ===== *)
theory Sync_Runs
  imports Gateway_Schema Leases
begin

text \<open>
  The synchronization runs of a session, src/src/modules/gateway/gateway-sync-run.repository.ts, and
  the fences that their writes pass, gateway-write-fence.repository.ts. Every granted claim raises the
  epoch of the session, and a write is accepted only from the run that holds the current epoch.
\<close>

section \<open>Creating and finding runs\<close>

definition sync_active :: "sync_run \<Rightarrow> bool" where
  "sync_active r \<longleftrightarrow> sr_status r \<in> {SY_PENDING, SY_RUNNING}"

definition new_sync_run :: "uuid \<Rightarrow> string \<Rightarrow> sync_mode \<Rightarrow> timestamp \<Rightarrow> sync_run" where
  "new_sync_run rid sid mode now =
     \<lparr>sr_id = rid, sr_session_id = sid, sr_mode = mode, sr_status = SY_PENDING, sr_phase = DISCOVERING,
      sr_synced = 0, sr_discovered = 0, sr_scheduled = 0, sr_failed = 0, sr_skipped = 0, sr_members = 0,
      sr_attempt_count = 0, sr_next_attempt_at = now, sr_epoch = None, sr_lease_token = None,
      sr_lease_expires_at = None, sr_error = None, sr_requested_at = now, sr_started_at = None,
      sr_completed_at = None\<rparr>"

datatype sync_conflict = SyncModeConflict uuid sync_mode

definition create_sync_run ::
  "uuid \<Rightarrow> string \<Rightarrow> sync_mode \<Rightarrow> timestamp \<Rightarrow> sync_run table \<Rightarrow> sync_run table \<times> (sync_conflict + uuid)" where
  "create_sync_run rid sid mode now runs =
     (case sql_top 1 sr_requested_at (\<lambda>r. sr_session_id r = sid \<and> sync_active r) runs of
        r # _ \<Rightarrow> (runs, if sr_mode r \<noteq> mode then Inl (SyncModeConflict (sr_id r) (sr_mode r)) else Inr (sr_id r))
      | [] \<Rightarrow> (runs @ [new_sync_run rid sid mode now], Inr rid))"

text \<open>SyncRunDto: the row with the items still to do, the time of the next attempt and the cooldown.\<close>

record sync_view =
  sv_run :: sync_run
  sv_pending :: nat
  sv_running :: nat
  sv_retrying :: nat
  sv_next_attempt_at :: "timestamp option"
  sv_cooldown_until :: "timestamp option"

definition run_items :: "uuid \<Rightarrow> sync_item table \<Rightarrow> sync_item list" where
  "run_items rid items = filter (\<lambda>x. si_run_id x = rid) items"

definition items_in :: "sync_item_status set \<Rightarrow> uuid \<Rightarrow> sync_item table \<Rightarrow> nat" where
  "items_in ss rid items = length (filter (\<lambda>x. si_status x \<in> ss) (run_items rid items))"

definition min_option :: "timestamp list \<Rightarrow> timestamp option" where
  "min_option ts = (if ts = [] then None else Some (Min (set ts)))"

definition map_sync_run :: "sync_run \<Rightarrow> nat \<Rightarrow> nat \<Rightarrow> nat \<Rightarrow> timestamp option \<Rightarrow> timestamp option \<Rightarrow> sync_view" where
  "map_sync_run r pending running retrying item_next cooldown =
     \<lparr>sv_run = r, sv_pending = pending, sv_running = running, sv_retrying = retrying,
      sv_next_attempt_at = coalesce_opt item_next
        (if sr_status r = SY_PENDING then Some (sr_next_attempt_at r) else None),
      sv_cooldown_until = cooldown\<rparr>"

definition find_sync_run :: "uuid \<Rightarrow> sync_db \<Rightarrow> sync_view option" where
  "find_sync_run rid sd = map_option
     (\<lambda>r. map_sync_run r (items_in {SI_PENDING} rid (sync_items sd)) (items_in {SI_RUNNING} rid (sync_items sd))
        (items_in {SI_RETRY} rid (sync_items sd))
        (min_option (map si_next_attempt_at
           (filter (\<lambda>x. si_status x \<in> {SI_PENDING, SI_RETRY}) (run_items rid (sync_items sd)))))
        (if sync_active r then (case find_by rl_session_id (sr_session_id r) (rate_limits sd) of
           None \<Rightarrow> None | Some l \<Rightarrow> rl_cooldown_until l) else None))
     (find_by sr_id rid (sync_runs sd))"

text \<open>The groups a run has refreshed, with the number of their members.\<close>

definition find_progress ::
  "uuid \<Rightarrow> string \<Rightarrow> gateway_group table \<Rightarrow> (string \<times> string) list \<Rightarrow> sync_run table
    \<Rightarrow> string list \<times> nat \<times> nat" where
  "find_progress rid sid groups members runs =
     (let fresh = (\<lambda>g. gg_session_id g = sid \<and> gg_is_active g
            \<and> (\<exists>r \<in> set runs. sr_id r = rid \<and> sr_session_id r = sid
                 \<and> (case (sr_started_at r, gg_details_synced_at g) of
                      (Some t, Some u) \<Rightarrow> t \<le> u | _ \<Rightarrow> False)));
          ids = map gg_id (filter fresh groups) in
      (ids, length ids, length (filter (\<lambda>m. fst m = sid \<and> snd m \<in> set ids) members)))"

definition list_pending_sync :: "nat \<Rightarrow> timestamp \<Rightarrow> sync_run table \<Rightarrow> sync_run list" where
  "list_pending_sync limit now runs =
     sql_top limit (\<lambda>r. (sr_next_attempt_at r, sr_requested_at r))
       (\<lambda>r. sr_status r = SY_PENDING \<and> sr_attempt_count r < 3 \<and> sr_next_attempt_at r \<le> now) runs"

section \<open>Claiming and settling\<close>

definition sync_recovered_error :: string where
  "sync_recovered_error = ''Recovered expired sync lease''"

definition recover_sync_row :: "timestamp \<Rightarrow> sync_run row_update" where
  "recover_sync_row now = sql_where (\<lambda>r. sr_status r = SY_RUNNING \<and> null_before (sr_lease_expires_at r) now)
     (\<lambda>r. let exhausted = 3 \<le> sr_attempt_count r in
        r\<lparr>sr_status := (if exhausted then SY_FAILED else SY_PENDING),
          sr_epoch := (if exhausted then sr_epoch r else None),
          sr_next_attempt_at := (if exhausted then sr_next_attempt_at r else now),
          sr_lease_token := None, sr_lease_expires_at := None, sr_error := Some sync_recovered_error,
          sr_completed_at := (if exhausted then Some now else None)\<rparr>)"

definition recover_sync_runs :: "timestamp \<Rightarrow> sync_run table \<Rightarrow> sync_run table \<times> nat" where
  "recover_sync_runs now runs = (sql_update (recover_sync_row now) runs, sql_count (recover_sync_row now) runs)"

definition session_running :: "sync_run table \<Rightarrow> string \<Rightarrow> bool" where
  "session_running runs sid \<longleftrightarrow> (\<exists>r \<in> set runs. sr_session_id r = sid \<and> sr_status r = SY_RUNNING)"

definition claim_sync_row :: "uuid \<Rightarrow> nat \<Rightarrow> (string \<Rightarrow> bool) \<Rightarrow> uuid \<Rightarrow> timestamp \<Rightarrow> sync_run row_update" where
  "claim_sync_row rid epoch busy tok now = sql_where
     (\<lambda>r. sr_id r = rid \<and> sr_status r = SY_PENDING \<and> sr_attempt_count r < 3 \<and> sr_next_attempt_at r \<le> now
        \<and> \<not> busy (sr_session_id r))
     (\<lambda>r. r\<lparr>sr_status := SY_RUNNING, sr_attempt_count := sr_attempt_count r + 1, sr_epoch := Some epoch,
        sr_lease_token := Some tok, sr_lease_expires_at := Some (now + lease_ttl), sr_phase := DISCOVERING,
        sr_synced := 0, sr_discovered := 0, sr_scheduled := 0, sr_failed := 0, sr_skipped := 0,
        sr_members := 0, sr_error := None, sr_started_at := Some (coalesce (sr_started_at r) now),
        sr_completed_at := None\<rparr>)"

record claimed_sync =
  cs_session_id :: string
  cs_token :: uuid
  cs_attempt :: nat
  cs_epoch :: nat

definition epoch_of :: "string \<Rightarrow> sync_fence table \<Rightarrow> nat" where
  "epoch_of sid fences = (case find_by sf_session_id sid fences of None \<Rightarrow> 0 | Some f \<Rightarrow> sf_epoch f)"

definition claim_sync_run :: "uuid \<Rightarrow> uuid \<Rightarrow> timestamp \<Rightarrow> sync_db \<Rightarrow> sync_db \<times> claimed_sync option" where
  "claim_sync_run rid tok now sd = (case find_by sr_id rid (sync_runs sd) of None \<Rightarrow> (sd, None)
   | Some r0 \<Rightarrow>
       let sid = sr_session_id r0;
           fences = sql_insert_new sf_session_id \<lparr>sf_session_id = sid, sf_epoch = 0\<rparr> (sync_fences sd);
           epoch = epoch_of sid fences + 1;
           f = claim_sync_row rid epoch (session_running (sync_runs sd)) tok now in
       (case sql_returning f (sync_runs sd) of [] \<Rightarrow> (sd\<lparr>sync_fences := fences\<rparr>, None)
        | r # _ \<Rightarrow> (sd\<lparr>sync_runs := sql_update f (sync_runs sd),
             sync_fences := sql_update (sql_where (\<lambda>x. sf_session_id x = sid) (\<lambda>x. x\<lparr>sf_epoch := epoch\<rparr>)) fences\<rparr>,
           Some \<lparr>cs_session_id = sid, cs_token = tok, cs_attempt = sr_attempt_count r, cs_epoch = epoch\<rparr>)))"

definition sync_owned :: "uuid \<Rightarrow> uuid \<Rightarrow> timestamp \<Rightarrow> sync_run \<Rightarrow> bool" where
  "sync_owned rid tok now r \<longleftrightarrow> sr_id r = rid \<and> sr_status r = SY_RUNNING \<and> sr_lease_token r = Some tok
     \<and> null_after (sr_lease_expires_at r) now"

definition renew_sync_row :: "uuid \<Rightarrow> uuid \<Rightarrow> timestamp \<Rightarrow> sync_run row_update" where
  "renew_sync_row rid tok now = sql_where (sync_owned rid tok now)
     (\<lambda>r. r\<lparr>sr_lease_expires_at := Some (now + lease_ttl)\<rparr>)"

definition renew_sync_lease :: "uuid \<Rightarrow> uuid \<Rightarrow> timestamp \<Rightarrow> sync_run table \<Rightarrow> sync_run table \<times> bool" where
  "renew_sync_lease rid tok now runs =
     (sql_update (renew_sync_row rid tok now) runs, sql_count (renew_sync_row rid tok now) runs = 1)"

definition complete_sync_row :: "uuid \<Rightarrow> uuid \<Rightarrow> nat \<Rightarrow> nat \<Rightarrow> timestamp \<Rightarrow> sync_run row_update" where
  "complete_sync_row rid tok groups members now = sql_where (sync_owned rid tok now)
     (\<lambda>r. r\<lparr>sr_status := SY_COMPLETED, sr_synced := groups, sr_members := members, sr_error := None,
        sr_lease_token := None, sr_lease_expires_at := None, sr_completed_at := Some now\<rparr>)"

definition complete_sync ::
  "uuid \<Rightarrow> uuid \<Rightarrow> nat \<Rightarrow> nat \<Rightarrow> timestamp \<Rightarrow> sync_run table \<Rightarrow> sync_run table \<times> bool" where
  "complete_sync rid tok groups members now runs =
     (sql_update (complete_sync_row rid tok groups members now) runs,
      sql_count (complete_sync_row rid tok groups members now) runs = 1)"

definition fail_sync_row :: "uuid \<Rightarrow> uuid \<Rightarrow> nat \<Rightarrow> nat \<Rightarrow> string \<Rightarrow> timestamp \<Rightarrow> sync_run row_update" where
  "fail_sync_row rid tok groups members e now = sql_where (sync_owned rid tok now)
     (\<lambda>r. let exhausted = 3 \<le> sr_attempt_count r in
        r\<lparr>sr_status := (if exhausted then SY_FAILED else SY_PENDING),
          sr_epoch := (if exhausted then sr_epoch r else None),
          sr_synced := groups, sr_members := members, sr_error := Some e,
          sr_next_attempt_at := (if exhausted then sr_next_attempt_at r
            else now + seconds (backoff_seconds (sr_attempt_count r))),
          sr_lease_token := None, sr_lease_expires_at := None,
          sr_completed_at := (if exhausted then Some now else None)\<rparr>)"

datatype sync_attempt_result = AttemptPending | AttemptFailed | AttemptLost

definition fail_sync_attempt ::
  "uuid \<Rightarrow> uuid \<Rightarrow> nat \<Rightarrow> nat \<Rightarrow> string \<Rightarrow> timestamp \<Rightarrow> sync_run table \<Rightarrow> sync_run table \<times> sync_attempt_result" where
  "fail_sync_attempt rid tok groups members e now runs =
     (sql_update (fail_sync_row rid tok groups members e now) runs,
      case sql_returning (fail_sync_row rid tok groups members e now) runs of [] \<Rightarrow> AttemptLost
      | r # _ \<Rightarrow> if sr_status r = SY_FAILED then AttemptFailed else AttemptPending)"

section \<open>Fenced writes\<close>

record sync_write_fence =
  wf_run_id :: uuid
  wf_token :: uuid
  wf_epoch :: nat

record item_write_fence =
  if_item_id :: uuid
  if_run_id :: uuid
  if_session_id :: string
  if_token :: uuid
  if_epoch :: nat

record intent_write_fence =
  nf_session_id :: string
  nf_group_id :: string
  nf_token :: uuid
  nf_claimed :: nat

definition epoch_current :: "string \<Rightarrow> nat \<Rightarrow> sync_fence table \<Rightarrow> bool" where
  "epoch_current sid epoch fences \<longleftrightarrow> (\<exists>f \<in> set fences. sf_session_id f = sid \<and> sf_epoch f = epoch)"

definition assert_sync_write :: "string \<Rightarrow> sync_write_fence \<Rightarrow> timestamp \<Rightarrow> sync_db \<Rightarrow> string + unit" where
  "assert_sync_write sid w now sd = guard
     (epoch_current sid (wf_epoch w) (sync_fences sd)
      \<and> (\<exists>r \<in> set (sync_runs sd). sync_owned (wf_run_id w) (wf_token w) now r \<and> sr_session_id r = sid
           \<and> sr_epoch r = Some (wf_epoch w)))
     ''Gateway sync attempt lost write ownership''"

definition item_owned :: "uuid \<Rightarrow> uuid \<Rightarrow> timestamp \<Rightarrow> sync_item \<Rightarrow> bool" where
  "item_owned xid tok now x \<longleftrightarrow> si_id x = xid \<and> si_status x = SI_RUNNING \<and> si_lease_token x = Some tok
     \<and> null_after (si_lease_expires_at x) now"

definition assert_item_write :: "item_write_fence \<Rightarrow> timestamp \<Rightarrow> sync_db \<Rightarrow> string + unit" where
  "assert_item_write w now sd = guard
     (\<exists>x \<in> set (sync_items sd). \<exists>r \<in> set (sync_runs sd). item_owned (if_item_id w) (if_token w) now x
        \<and> si_run_id x = if_run_id w \<and> si_session_id x = if_session_id w
        \<and> sr_id r = si_run_id x \<and> sr_status r = SY_RUNNING \<and> sr_epoch r = Some (if_epoch w)
        \<and> epoch_current (si_session_id x) (if_epoch w) (sync_fences sd))
     ''Gateway sync item lost write ownership''"

definition assert_intent_write :: "intent_write_fence \<Rightarrow> timestamp \<Rightarrow> group_intent table \<Rightarrow> string + unit" where
  "assert_intent_write w now ints = guard
     (\<exists>i \<in> set ints. in_session_id i = nf_session_id w \<and> in_group_id i = nf_group_id w
        \<and> in_status i = I_RUNNING \<and> in_lease_token i = Some (nf_token w)
        \<and> null_after (in_lease_expires_at i) now \<and> in_claimed i = Some (nf_claimed w))
     ''Gateway group intent lost write ownership''"

section \<open>The lease of a run\<close>

definition sync_token :: "sync_run \<Rightarrow> uuid option" where
  "sync_token r = (if sr_status r = SY_RUNNING then sr_lease_token r else None)"

datatype sync_outcome = SyncDone nat nat | SyncFailed nat nat string

definition settle_sync_row :: "uuid \<Rightarrow> sync_outcome \<Rightarrow> uuid \<Rightarrow> timestamp \<Rightarrow> sync_run row_update" where
  "settle_sync_row rid out tok now r = (case out of
     SyncDone groups members \<Rightarrow> complete_sync_row rid tok groups members now r
   | SyncFailed groups members e \<Rightarrow> fail_sync_row rid tok groups members e now r)"

lemmas sync_rows = recover_sync_row_def claim_sync_row_def renew_sync_row_def complete_sync_row_def
  fail_sync_row_def sync_owned_def

interpretation sync_lease: renewable_row sync_token sr_lease_expires_at "claim_sync_row rid epoch busy"
    "settle_sync_row rid" recover_sync_row "renew_sync_row rid" for rid epoch busy
proof unfold_locales
  fix s t now r r'
  assume "settle_sync_row rid s t now r = Some r'"
  then show "sync_token r = Some t \<and> null_after (sr_lease_expires_at r) now" "sync_token r' = None"
    by (auto simp: settle_sync_row_def sync_token_def sync_rows Let_def split: sync_outcome.splits)
qed (auto simp: sync_token_def sync_rows Let_def)

interpretation sync_work: bounded_work sync_token sr_lease_expires_at "claim_sync_row rid epoch busy"
    "settle_sync_row rid" recover_sync_row sr_attempt_count 3 for rid epoch busy
  by unfold_locales (auto simp: settle_sync_row_def sync_rows Let_def split: sync_outcome.splits)

end
