(* ===== verification/Sync_Pacing.thy ===== *)
theory Sync_Pacing
  imports Gateway_Schema Config
begin

text \<open>
  The pacing of group reads, src/src/modules/gateway/gateway-sync-rate-limit.repository.ts with the
  sweeps of the two repositories that use it and the renewal of gateway-write-fence.repository.ts.
  Every session has one row: the earliest time of its next request, a cooldown, one active lease and,
  when adaptive pacing is on, its own rate in requests per minute.
\<close>

section \<open>The statements\<close>

text \<open>GatewaySyncFailurePolicy; an absent reduceRate is not true.\<close>

record failure_policy =
  fp_retryable :: bool
  fp_rate_pressure :: bool
  fp_reduce_rate :: bool
  fp_retry_after_ms :: "int option"
  fp_code :: string

definition new_limit :: "runtime_config \<Rightarrow> string \<Rightarrow> timestamp \<Rightarrow> rate_limit" where
  "new_limit c sid now = \<lparr>rl_session_id = sid, rl_next_request_at = now, rl_consecutive_failures = 0,
     rl_cooldown_until = None, rl_lease_token = None, rl_lease_expires_at = None,
     rl_effective = Some (cfg_groups_per_minute c), rl_success_streak = 0, rl_pressure_at = None\<rparr>"

definition ensure_row :: "runtime_config \<Rightarrow> string \<Rightarrow> rate_limit row_update" where
  "ensure_row c sid = sql_where (\<lambda>r. rl_session_id r = sid)
     (\<lambda>r. r\<lparr>rl_effective := Some (min (coalesce (rl_effective r) (cfg_groups_per_minute c))
        (cfg_groups_per_minute c))\<rparr>)"

definition ensure_limit ::
  "runtime_config \<Rightarrow> string \<Rightarrow> timestamp \<Rightarrow> rate_limit table \<Rightarrow> rate_limit table" where
  "ensure_limit c sid now limits =
     (if sid \<in> rl_session_id ` set limits then sql_update (ensure_row c sid) limits
      else limits @ [new_limit c sid now])"

text \<open>GREATEST(next_request_at, COALESCE(cooldown_until, '-infinity')) <= now() and no live lease.\<close>

definition limit_ready :: "timestamp \<Rightarrow> rate_limit \<Rightarrow> bool" where
  "limit_ready now r \<longleftrightarrow> rl_next_request_at r \<le> now
     \<and> (case rl_cooldown_until r of None \<Rightarrow> True | Some t \<Rightarrow> t \<le> now)
     \<and> (rl_lease_token r = None \<or> null_before (rl_lease_expires_at r) now)"

definition ready_and_rate ::
  "runtime_config \<Rightarrow> string \<Rightarrow> timestamp \<Rightarrow> rate_limit table \<Rightarrow> int option" where
  "ready_and_rate c sid now limits = (case find_by rl_session_id sid limits of None \<Rightarrow> None
     | Some r \<Rightarrow> if \<not> limit_ready now r then None
         else Some (if cfg_adaptive_pacing c then coalesce (rl_effective r) (cfg_groups_per_minute c)
           else cfg_groups_per_minute c))"

text \<open>
  60_000 / rate milliseconds between two requests; a timestamp of the model counts whole milliseconds,
  so the fraction of the last millisecond is dropped.
\<close>

definition request_spacing :: "int \<Rightarrow> timestamp" where
  "request_spacing rate = 60000 div rate"

definition acquire_row :: "string \<Rightarrow> uuid \<Rightarrow> int \<Rightarrow> timestamp \<Rightarrow> rate_limit row_update" where
  "acquire_row sid tok rate now = sql_where (\<lambda>r. rl_session_id r = sid)
     (\<lambda>r. r\<lparr>rl_next_request_at := now + request_spacing rate, rl_lease_token := Some tok,
        rl_lease_expires_at := Some (now + lease_ttl)\<rparr>)"

definition renew_limit_row :: "string \<Rightarrow> uuid \<Rightarrow> timestamp \<Rightarrow> rate_limit row_update" where
  "renew_limit_row sid tok now = sql_where
     (\<lambda>r. rl_session_id r = sid \<and> rl_lease_token r = Some tok \<and> null_after (rl_lease_expires_at r) now)
     (\<lambda>r. r\<lparr>rl_lease_expires_at := Some (now + lease_ttl)\<rparr>)"

definition renew_limit :: "string \<Rightarrow> uuid \<Rightarrow> timestamp \<Rightarrow> rate_limit table \<Rightarrow> rate_limit table \<times> bool" where
  "renew_limit sid tok now limits = (sql_update (renew_limit_row sid tok now) limits,
     sql_count (renew_limit_row sid tok now) limits = 1)"

definition success_row :: "runtime_config \<Rightarrow> string \<Rightarrow> uuid \<Rightarrow> rate_limit row_update" where
  "success_row c sid tok = sql_where (\<lambda>r. rl_session_id r = sid \<and> rl_lease_token r = Some tok)
     (\<lambda>r. let top = cfg_groups_per_minute c; rate = coalesce (rl_effective r) top in
        r\<lparr>rl_consecutive_failures := 0, rl_cooldown_until := None,
          rl_success_streak := (if cfg_adaptive_pacing c then rl_success_streak r + 1 else 0),
          rl_effective := Some (if cfg_adaptive_pacing c
            \<and> cfg_rate_recovery_successes c \<le> rl_success_streak r + 1 then min top (rate + 1) else rate),
          rl_lease_token := None, rl_lease_expires_at := None\<rparr>)"

definition reset_streak_row :: "runtime_config \<Rightarrow> string \<Rightarrow> rate_limit row_update" where
  "reset_streak_row c sid = sql_where (\<lambda>r. rl_session_id r = sid \<and> rl_lease_token r = None
       \<and> cfg_rate_recovery_successes c \<le> rl_success_streak r)
     (\<lambda>r. r\<lparr>rl_success_streak := 0\<rparr>)"

definition record_success :: "runtime_config \<Rightarrow> string \<Rightarrow> uuid \<Rightarrow> rate_limit table \<Rightarrow> rate_limit table" where
  "record_success c sid tok limits =
     (let done = sql_update (success_row c sid tok) limits in
      if cfg_adaptive_pacing c then sql_update (reset_streak_row c sid) done else done)"

text \<open>\<open>noise\<close> is 0.8 + random() * 0.4 in thousandths.\<close>

definition cooldown_seconds :: "nat \<Rightarrow> int" where
  "cooldown_seconds failures = (if failures = 1 then 5 else if failures = 2 then 15
     else if failures = 3 then 30 else 60)"

definition failure_row ::
  "runtime_config \<Rightarrow> string \<Rightarrow> uuid \<Rightarrow> failure_policy \<Rightarrow> int \<Rightarrow> timestamp \<Rightarrow> rate_limit row_update" where
  "failure_row c sid tok p noise now = sql_where (\<lambda>r. rl_session_id r = sid \<and> rl_lease_token r = Some tok)
     (\<lambda>r. let rate = coalesce (rl_effective r) (cfg_groups_per_minute c);
              failures = rl_consecutive_failures r + 1 in
        r\<lparr>rl_consecutive_failures := (if fp_rate_pressure p then failures else rl_consecutive_failures r),
          rl_cooldown_until := (if fp_rate_pressure p
            then Some (now + coalesce (fp_retry_after_ms p) (cooldown_seconds (min failures 4) * noise))
            else rl_cooldown_until r),
          rl_effective := Some (if fp_reduce_rate p \<and> cfg_adaptive_pacing c
            then max (cfg_min_groups_per_minute c) (rate div 2) else rate),
          rl_success_streak := (if fp_rate_pressure p then 0 else rl_success_streak r),
          rl_pressure_at := (if fp_rate_pressure p then Some now else rl_pressure_at r),
          rl_lease_token := None, rl_lease_expires_at := None\<rparr>)"

definition release_row :: "string \<Rightarrow> uuid \<Rightarrow> rate_limit row_update" where
  "release_row sid tok = sql_where (\<lambda>r. rl_session_id r = sid \<and> rl_lease_token r = Some tok)
     (\<lambda>r. r\<lparr>rl_lease_token := None, rl_lease_expires_at := None\<rparr>)"

definition reserve ::
  "runtime_config \<Rightarrow> string \<Rightarrow> uuid \<Rightarrow> timestamp \<Rightarrow> rate_limit table \<Rightarrow> rate_limit table \<times> uuid option" where
  "reserve c sid tok now limits =
     (let limits' = ensure_limit c sid now limits in
      case ready_and_rate c sid now limits' of None \<Rightarrow> (limits', None)
      | Some rate \<Rightarrow> (sql_update (acquire_row sid tok rate now) limits', Some tok))"

text \<open>recordSessionRequestOutcome hands record a policy built from its arguments.\<close>

definition record_outcome ::
  "runtime_config \<Rightarrow> string \<Rightarrow> uuid \<Rightarrow> failure_policy option \<Rightarrow> int \<Rightarrow> timestamp
    \<Rightarrow> rate_limit table \<Rightarrow> rate_limit table" where
  "record_outcome c sid tok p noise now limits = (case p of None \<Rightarrow> record_success c sid tok limits
     | Some p \<Rightarrow> sql_update (failure_row c sid tok p noise now) limits)"

definition request_outcome :: "bool \<Rightarrow> bool \<Rightarrow> bool \<Rightarrow> failure_policy option" where
  "request_outcome success rate_pressure reduce_rate = (if success then None
     else Some \<lparr>fp_retryable = True, fp_rate_pressure = rate_pressure, fp_reduce_rate = reduce_rate,
       fp_retry_after_ms = None, fp_code = ''REQUEST_FAILED''\<rparr>)"

text \<open>The sweep at the end of recoverExpired of the items, and that of the intents for some sessions.\<close>

definition sweep_row :: "(string \<Rightarrow> bool) \<Rightarrow> timestamp \<Rightarrow> rate_limit row_update" where
  "sweep_row sessions now = sql_where (\<lambda>r. sessions (rl_session_id r) \<and> null_before (rl_lease_expires_at r) now)
     (\<lambda>r. r\<lparr>rl_lease_token := None, rl_lease_expires_at := None\<rparr>)"

text \<open>renewGroupReadPacingLease checks the token alone, and reads the clock itself.\<close>

definition renew_read_row :: "string \<Rightarrow> uuid \<Rightarrow> timestamp \<Rightarrow> rate_limit row_update" where
  "renew_read_row sid tok clock = sql_where (\<lambda>r. rl_session_id r = sid \<and> rl_lease_token r = Some tok)
     (\<lambda>r. r\<lparr>rl_lease_expires_at := Some (clock + lease_ttl)\<rparr>)"

definition renew_group_read_lease ::
  "string \<Rightarrow> uuid \<Rightarrow> timestamp \<Rightarrow> rate_limit table \<Rightarrow> string + rate_limit table" where
  "renew_group_read_lease sid tok clock limits =
     (if sql_count (renew_read_row sid tok clock) limits = 1
      then Inr (sql_update (renew_read_row sid tok clock) limits)
      else Inl ''Gateway group read pacing lease lost ownership'')"

lemmas limit_rows = ensure_row_def acquire_row_def renew_limit_row_def success_row_def reset_streak_row_def
  failure_row_def release_row_def sweep_row_def renew_read_row_def

lemma limit_rows_session:
  "ensure_row c sid r = Some r' \<Longrightarrow> rl_session_id r' = rl_session_id r"
  "acquire_row sid tok rate now r = Some r' \<Longrightarrow> rl_session_id r' = rl_session_id r"
  "renew_limit_row sid tok now r = Some r' \<Longrightarrow> rl_session_id r' = rl_session_id r"
  "success_row c sid tok r = Some r' \<Longrightarrow> rl_session_id r' = rl_session_id r"
  "reset_streak_row c sid r = Some r' \<Longrightarrow> rl_session_id r' = rl_session_id r"
  "failure_row c sid tok p noise now r = Some r' \<Longrightarrow> rl_session_id r' = rl_session_id r"
  "release_row sid tok r = Some r' \<Longrightarrow> rl_session_id r' = rl_session_id r"
  "sweep_row sessions now r = Some r' \<Longrightarrow> rl_session_id r' = rl_session_id r"
  "renew_read_row sid tok now r = Some r' \<Longrightarrow> rl_session_id r' = rl_session_id r"
  by (auto simp: limit_rows Let_def)

section \<open>Sequences of statements\<close>

datatype pacing_op =
    PReserve string uuid timestamp
  | PRenew string uuid timestamp
  | PSuccess string uuid timestamp
  | PFailure string uuid failure_policy int timestamp
  | PRelease string uuid timestamp
  | PSweep "string list option" timestamp
  | PRead string uuid timestamp

fun pacing_apply :: "runtime_config \<Rightarrow> pacing_op \<Rightarrow> rate_limit table \<Rightarrow> rate_limit table" where
  "pacing_apply c (PReserve sid tok now) ls = fst (reserve c sid tok now ls)"
| "pacing_apply c (PRenew sid tok now) ls = fst (renew_limit sid tok now ls)"
| "pacing_apply c (PSuccess sid tok now) ls = record_outcome c sid tok None 0 now ls"
| "pacing_apply c (PFailure sid tok p noise now) ls = record_outcome c sid tok (Some p) noise now ls"
| "pacing_apply c (PRelease sid tok now) ls = sql_update (release_row sid tok) ls"
| "pacing_apply c (PSweep ss now) ls =
     sql_update (sweep_row (\<lambda>s. case ss of None \<Rightarrow> True | Some ids \<Rightarrow> s \<in> set ids) now) ls"
| "pacing_apply c (PRead sid tok now) ls =
     (case renew_group_read_lease sid tok now ls of Inl _ \<Rightarrow> ls | Inr ls' \<Rightarrow> ls')"

fun pacing_time :: "pacing_op \<Rightarrow> timestamp" where
  "pacing_time (PReserve sid tok now) = now"
| "pacing_time (PRenew sid tok now) = now"
| "pacing_time (PSuccess sid tok now) = now"
| "pacing_time (PFailure sid tok p noise now) = now"
| "pacing_time (PRelease sid tok now) = now"
| "pacing_time (PSweep ss now) = now"
| "pacing_time (PRead sid tok now) = now"

fun returns_lease :: "string \<Rightarrow> uuid \<Rightarrow> pacing_op \<Rightarrow> bool" where
  "returns_lease sid tok (PSuccess s t now) = (s = sid \<and> t = tok)"
| "returns_lease sid tok (PFailure s t p noise now) = (s = sid \<and> t = tok)"
| "returns_lease sid tok (PRelease s t now) = (s = sid \<and> t = tok)"
| "returns_lease sid tok _ = False"


section \<open>Bounds of the rate\<close>

definition pacing_config :: "runtime_config \<Rightarrow> bool" where
  "pacing_config c \<longleftrightarrow> 1 \<le> cfg_min_groups_per_minute c
     \<and> cfg_min_groups_per_minute c \<le> cfg_groups_per_minute c \<and> 1 \<le> cfg_rate_recovery_successes c"

definition limit_ok :: "runtime_config \<Rightarrow> rate_limit \<Rightarrow> bool" where
  "limit_ok c r \<longleftrightarrow> (case rl_effective r of None \<Rightarrow> True
       | Some x \<Rightarrow> cfg_min_groups_per_minute c \<le> x \<and> x \<le> cfg_groups_per_minute c)
     \<and> 0 \<le> rl_success_streak r \<and> rl_success_streak r < cfg_rate_recovery_successes c"

definition limits_ok :: "runtime_config \<Rightarrow> rate_limit table \<Rightarrow> bool" where
  "limits_ok c ls \<longleftrightarrow> (\<forall>r \<in> set ls. limit_ok c r)"

lemma limits_ok_update:
  assumes "limits_ok c ls" "\<And>r r'. limit_ok c r \<Longrightarrow> f r = Some r' \<Longrightarrow> limit_ok c r'"
  shows "limits_ok c (sql_update f ls)"
  using assms by (auto simp: limits_ok_def set_sql_update split: option.split)

lemma limit_ok_rows:
  assumes "pacing_config c" "limit_ok c r"
  shows "ensure_row c sid r = Some r' \<Longrightarrow> limit_ok c r'"
    and "acquire_row sid tok rate now r = Some r' \<Longrightarrow> limit_ok c r'"
    and "renew_limit_row sid tok now r = Some r' \<Longrightarrow> limit_ok c r'"
    and "failure_row c sid tok p noise now r = Some r' \<Longrightarrow> limit_ok c r'"
    and "release_row sid tok r = Some r' \<Longrightarrow> limit_ok c r'"
    and "sweep_row sessions now r = Some r' \<Longrightarrow> limit_ok c r'"
    and "renew_read_row sid tok now r = Some r' \<Longrightarrow> limit_ok c r'"
  using assms
  by (cases "rl_effective r"; auto simp: limit_rows limit_ok_def pacing_config_def Let_def)+

lemma limit_ok_success:
  assumes "pacing_config c" "limit_ok c r"
  shows "case success_row c sid tok r of None \<Rightarrow> True
    | Some r' \<Rightarrow> if cfg_adaptive_pacing c then limit_ok c (case reset_streak_row c sid r' of None \<Rightarrow> r' | Some x \<Rightarrow> x)
        else limit_ok c r'"
  using assms
  by (cases "rl_effective r")
    (auto simp: success_row_def reset_streak_row_def sql_where_def limit_ok_def pacing_config_def Let_def)

lemma limits_ok_success:
  assumes c: "pacing_config c" and ok: "limits_ok c ls"
  shows "limits_ok c (record_success c sid tok ls)"
proof -
  have same: "limit_ok c (case reset_streak_row c sid r of None \<Rightarrow> r | Some x \<Rightarrow> x)" if "limit_ok c r" for r
    using that c by (auto simp: reset_streak_row_def sql_where_def limit_ok_def pacing_config_def)
  show ?thesis
    unfolding limits_ok_def
  proof
    fix x
    assume x: "x \<in> set (record_success c sid tok ls)"
    obtain r where r: "r \<in> set ls" "x = (let r1 = (case success_row c sid tok r of None \<Rightarrow> r | Some r' \<Rightarrow> r') in
        if cfg_adaptive_pacing c then (case reset_streak_row c sid r1 of None \<Rightarrow> r1 | Some x \<Rightarrow> x) else r1)"
      using x by (auto simp: record_success_def Let_def set_sql_update split: if_splits)
    have "limit_ok c r" using ok r(1) by (simp add: limits_ok_def)
    then show "limit_ok c x"
      using limit_ok_success [OF c, of r sid tok] same r(2)
      by (cases "success_row c sid tok r") (auto simp: Let_def split: if_splits)
  qed
qed

lemma limits_ok_ensure:
  assumes "pacing_config c" "limits_ok c ls"
  shows "limits_ok c (ensure_limit c sid now ls)"
proof -
  have "limit_ok c (new_limit c sid now)" using assms(1) by (simp add: limit_ok_def new_limit_def pacing_config_def)
  moreover have "limits_ok c (sql_update (ensure_row c sid) ls)"
    by (rule limits_ok_update [OF assms(2)]) (rule limit_ok_rows(1) [OF assms(1)])
  ultimately show ?thesis using assms(2) by (auto simp: ensure_limit_def limits_ok_def)
qed

lemma reserve_cases:
  obtains (refused) "ready_and_rate c sid now (ensure_limit c sid now ls) = None"
      "reserve c sid tok now ls = (ensure_limit c sid now ls, None)"
  | (granted) rate where "ready_and_rate c sid now (ensure_limit c sid now ls) = Some rate"
      "reserve c sid tok now ls = (sql_update (acquire_row sid tok rate now) (ensure_limit c sid now ls), Some tok)"
  by (cases "ready_and_rate c sid now (ensure_limit c sid now ls)") (auto simp: reserve_def Let_def)

lemma limits_ok_apply:
  assumes c: "pacing_config c" and ok: "limits_ok c ls"
  shows "limits_ok c (pacing_apply c op ls)"
proof (cases op)
  case (PReserve sid tok now)
  then show ?thesis
    using limits_ok_ensure [OF c ok, of sid now] limits_ok_update limit_ok_rows(2) [OF c]
    by (cases rule: reserve_cases [of c sid now ls tok]) (auto intro: limits_ok_update)
next
  case (PRead sid tok now)
  then show ?thesis
    using ok limits_ok_update [OF ok limit_ok_rows(7) [OF c]] by (simp add: renew_group_read_lease_def)
qed (use ok limits_ok_update [OF ok limit_ok_rows(3) [OF c]] limits_ok_update [OF ok limit_ok_rows(4) [OF c]]
      limits_ok_update [OF ok limit_ok_rows(5) [OF c]] limits_ok_update [OF ok limit_ok_rows(6) [OF c]]
      limits_ok_success [OF c ok] in \<open>simp_all add: renew_limit_def record_outcome_def\<close>)

lemma limits_ok_fold: "pacing_config c \<Longrightarrow> limits_ok c ls \<Longrightarrow> limits_ok c (fold (pacing_apply c) ops ls)"
  by (induction ops arbitrary: ls) (simp_all add: limits_ok_apply)

lemma rate_in_range:
  assumes "pacing_config c" "limits_ok c ls" "ready_and_rate c sid now ls = Some rate"
  shows "cfg_min_groups_per_minute c \<le> rate \<and> rate \<le> cfg_groups_per_minute c"
proof -
  obtain r where r: "find_by rl_session_id sid ls = Some r"
    "rate = (if cfg_adaptive_pacing c then coalesce (rl_effective r) (cfg_groups_per_minute c) else cfg_groups_per_minute c)"
    using assms(3) by (auto simp: ready_and_rate_def split: option.splits if_splits)
  have "limit_ok c r" using assms(2) find_by_Some [OF r(1)] by (simp add: limits_ok_def)
  then show ?thesis using assms(1) r(2)
    by (cases "rl_effective r") (auto simp: limit_ok_def pacing_config_def)
qed

section \<open>One request at a time\<close>

definition limit_row :: "string \<Rightarrow> rate_limit table \<Rightarrow> rate_limit option" where
  "limit_row sid ls = find_by rl_session_id sid ls"

definition held :: "string \<Rightarrow> uuid \<Rightarrow> timestamp \<Rightarrow> rate_limit table \<Rightarrow> bool" where
  "held sid tok until ls \<longleftrightarrow> (\<exists>r x. limit_row sid ls = Some r \<and> rl_lease_token r = Some tok
     \<and> rl_lease_expires_at r = Some x \<and> until \<le> x)"

lemma limit_row_update:
  "(\<And>r r'. f r = Some r' \<Longrightarrow> rl_session_id r' = rl_session_id r) \<Longrightarrow>
    limit_row sid (sql_update f ls) = map_option (\<lambda>r. case f r of None \<Rightarrow> r | Some r' \<Rightarrow> r') (limit_row sid ls)"
  unfolding limit_row_def by (rule find_by_sql_update)

lemma limit_row_session: "limit_row sid ls = Some r \<Longrightarrow> rl_session_id r = sid"
  unfolding limit_row_def by (drule find_by_Some) simp

lemma limit_row_ensure:
  "limit_row sid ls = Some r \<Longrightarrow> \<exists>e. limit_row sid (ensure_limit c sid' now ls) = Some (r\<lparr>rl_effective := e\<rparr>)"
proof -
  assume r: "limit_row sid ls = Some r"
  have same: "r = r\<lparr>rl_effective := rl_effective r\<rparr>" by simp
  show ?thesis
  proof (cases "sid' \<in> rl_session_id ` set ls")
    case True
    have "limit_row sid (sql_update (ensure_row c sid') ls)
        = Some (case ensure_row c sid' r of None \<Rightarrow> r | Some r' \<Rightarrow> r')"
      by (simp add: limit_row_update [OF limit_rows_session(1)] r)
    moreover have "\<exists>e. (case ensure_row c sid' r of None \<Rightarrow> r | Some r' \<Rightarrow> r') = r\<lparr>rl_effective := e\<rparr>"
      by (cases "rl_session_id r = sid'")
        (auto simp: ensure_row_def sql_where_def intro: exI [of _ "rl_effective r"])
    ultimately show ?thesis using True by (auto simp: ensure_limit_def)
  next
    case False
    then show ?thesis using r by (auto simp: ensure_limit_def limit_row_def find_by_append intro: same)
  qed
qed

lemma limit_row_ensured: "\<exists>r. limit_row sid (ensure_limit c sid now ls) = Some r"
proof (cases "sid \<in> rl_session_id ` set ls")
  case True
  then obtain r where "limit_row sid ls = Some r"
    unfolding limit_row_def by (metis find_by_None option.exhaust)
  then show ?thesis using limit_row_ensure by blast
next
  case False
  then show ?thesis by (auto simp: ensure_limit_def limit_row_def find_by_append new_limit_def split: option.split)
qed

text \<open>The clock of a later statement may be behind; a lease is disturbed by its return or by a statement
  whose clock lies outside the two minutes of the lease.\<close>

definition disturbs :: "string \<Rightarrow> uuid \<Rightarrow> timestamp \<Rightarrow> pacing_op \<Rightarrow> bool" where
  "disturbs sid tok t op \<longleftrightarrow> returns_lease sid tok op \<or> pacing_time op < t \<or> t + lease_ttl < pacing_time op"

lemma held_refuses:
  assumes "held sid tok until ls" "now \<le> until"
  shows "ready_and_rate c sid now (ensure_limit c sid now ls) = None"
proof -
  obtain r x where r: "limit_row sid ls = Some r" "rl_lease_token r = Some tok" "rl_lease_expires_at r = Some x"
    "until \<le> x"
    using assms(1) by (auto simp: held_def)
  obtain e where "limit_row sid (ensure_limit c sid now ls) = Some (r\<lparr>rl_effective := e\<rparr>)"
    using limit_row_ensure [OF r(1)] by blast
  then show ?thesis using r assms(2) by (simp add: ready_and_rate_def limit_row_def limit_ready_def)
qed

lemma held_rows:
  assumes "held sid tok until ls" "\<And>r r'. f r = Some r' \<Longrightarrow> rl_session_id r' = rl_session_id r"
    and "\<And>r r' x. f r = Some r' \<Longrightarrow> rl_session_id r = sid \<Longrightarrow> rl_lease_token r = Some tok
      \<Longrightarrow> rl_lease_expires_at r = Some x \<Longrightarrow> until \<le> x \<Longrightarrow>
        rl_lease_token r' = Some tok \<and> (\<exists>y. rl_lease_expires_at r' = Some y \<and> until \<le> y)"
  shows "held sid tok until (sql_update f ls)"
proof -
  obtain r x where r: "limit_row sid ls = Some r" "rl_lease_token r = Some tok" "rl_lease_expires_at r = Some x"
    "until \<le> x"
    using assms(1) by (auto simp: held_def)
  show ?thesis
    using r assms(3) [OF _ limit_row_session [OF r(1)]]
    by (cases "f r") (auto simp: held_def limit_row_update [OF assms(2)])
qed

lemma held_ensure: "held sid tok until ls \<Longrightarrow> held sid tok until (ensure_limit c sid' now ls)"
  unfolding held_def using limit_row_ensure by fastforce

lemma held_apply:
  assumes h: "held sid tok (t + lease_ttl) ls" and op: "\<not> disturbs sid tok t op"
  shows "held sid tok (t + lease_ttl) (pacing_apply c op ls)"
proof (cases op)
  case (PReserve s tk now)
  have e: "held sid tok (t + lease_ttl) (ensure_limit c s now ls)" by (rule held_ensure [OF h])
  show ?thesis
  proof (cases rule: reserve_cases [of c s now ls tk])
    case refused
    then show ?thesis using e PReserve by simp
  next
    case (granted rate)
    have "s \<noteq> sid" using held_refuses [OF h, of now c] granted(1) op PReserve by (auto simp: disturbs_def)
    then show ?thesis using PReserve granted(2)
      by (auto intro!: held_rows [OF e] simp: acquire_row_def)
  qed
next
  case (PRenew s tk now)
  then show ?thesis using op
    by (auto intro!: held_rows [OF h] simp: renew_limit_def renew_limit_row_def disturbs_def)
next
  case (PSuccess s tk now)
  have a: "held sid tok (t + lease_ttl) (sql_update (success_row c s tk) ls)"
    using op PSuccess by (auto intro!: held_rows [OF h] simp: success_row_def Let_def disturbs_def)
  have b: "held sid tok (t + lease_ttl) (sql_update (reset_streak_row c s) (sql_update (success_row c s tk) ls))"
    by (rule held_rows [OF a]) (auto simp: reset_streak_row_def)
  show ?thesis using a b PSuccess by (simp add: record_outcome_def record_success_def Let_def)
next
  case (PFailure s tk p noise now)
  then show ?thesis using op
    by (auto intro!: held_rows [OF h] simp: record_outcome_def failure_row_def Let_def disturbs_def)
next
  case (PRelease s tk now)
  then show ?thesis using op by (auto intro!: held_rows [OF h] simp: release_row_def disturbs_def)
next
  case (PSweep ss now)
  then show ?thesis using op by (auto intro!: held_rows [OF h] simp: sweep_row_def disturbs_def)
next
  case (PRead s tk now)
  have "held sid tok (t + lease_ttl) (sql_update (renew_read_row s tk now) ls)"
    using op PRead by (auto intro!: held_rows [OF h] simp: renew_read_row_def disturbs_def)
  then show ?thesis using h PRead by (simp add: renew_group_read_lease_def)
qed

lemma held_fold:
  "held sid tok (t + lease_ttl) ls \<Longrightarrow> \<forall>op \<in> set ops. \<not> disturbs sid tok t op
    \<Longrightarrow> held sid tok (t + lease_ttl) (fold (pacing_apply c) ops ls)"
  by (induction ops arbitrary: ls) (simp_all add: held_apply)


text \<open>The earliest time of the next request never moves back.\<close>

definition paced :: "string \<Rightarrow> timestamp \<Rightarrow> rate_limit table \<Rightarrow> bool" where
  "paced sid t ls \<longleftrightarrow> (\<exists>r. limit_row sid ls = Some r \<and> t \<le> rl_next_request_at r)"

lemma paced_rows:
  assumes "paced sid t ls" "\<And>r r'. f r = Some r' \<Longrightarrow> rl_session_id r' = rl_session_id r"
    and "\<And>r r'. f r = Some r' \<Longrightarrow> rl_session_id r = sid \<Longrightarrow> t \<le> rl_next_request_at r \<Longrightarrow> t \<le> rl_next_request_at r'"
  shows "paced sid t (sql_update f ls)"
proof -
  obtain r where r: "limit_row sid ls = Some r" "t \<le> rl_next_request_at r" using assms(1) by (auto simp: paced_def)
  show ?thesis using r assms(3) [OF _ limit_row_session [OF r(1)]]
    by (cases "f r") (auto simp: paced_def limit_row_update [OF assms(2)])
qed

lemma paced_ensure: "paced sid t ls \<Longrightarrow> paced sid t (ensure_limit c sid' now ls)"
  unfolding paced_def using limit_row_ensure by fastforce

lemma paced_ready:
  assumes "paced sid t ls" "ready_and_rate c sid now ls = Some rate"
  shows "t \<le> now"
  using assms by (auto simp: paced_def ready_and_rate_def limit_row_def limit_ready_def split: if_splits)

lemma spacing_nonneg: "1 \<le> rate \<Longrightarrow> 0 \<le> request_spacing rate"
  by (simp add: request_spacing_def pos_imp_zdiv_nonneg_iff)

lemma paced_apply:
  assumes p: "paced sid t ls" and c: "pacing_config c" and ok: "limits_ok c ls"
  shows "paced sid t (pacing_apply c op ls)"
proof (cases op)
  case (PReserve s tk now)
  have e: "paced sid t (ensure_limit c s now ls)" by (rule paced_ensure [OF p])
  show ?thesis
  proof (cases rule: reserve_cases [of c s now ls tk])
    case refused
    then show ?thesis using e PReserve by simp
  next
    case (granted rate)
    have "1 \<le> rate"
      using rate_in_range [OF c limits_ok_ensure [OF c ok] granted(1)] c by (simp add: pacing_config_def)
    then have "t \<le> now + request_spacing rate" if "s = sid"
      using paced_ready [OF e] granted(1) spacing_nonneg [of rate] that by fastforce
    then have "paced sid t (sql_update (acquire_row s tk rate now) (ensure_limit c s now ls))"
      by (intro paced_rows [OF e]) (auto simp: acquire_row_def)
    then show ?thesis using PReserve granted(2) by simp
  qed
next
  case (PRenew s tk now)
  then show ?thesis by (auto intro!: paced_rows [OF p] simp: renew_limit_def renew_limit_row_def)
next
  case (PSuccess s tk now)
  have a: "paced sid t (sql_update (success_row c s tk) ls)"
    by (rule paced_rows [OF p]) (auto simp: success_row_def Let_def)
  have b: "paced sid t (sql_update (reset_streak_row c s) (sql_update (success_row c s tk) ls))"
    by (rule paced_rows [OF a]) (auto simp: reset_streak_row_def)
  show ?thesis using a b PSuccess by (simp add: record_outcome_def record_success_def Let_def)
next
  case (PFailure s tk pol noise now)
  then show ?thesis by (auto intro!: paced_rows [OF p] simp: record_outcome_def failure_row_def Let_def)
next
  case (PRelease s tk now)
  then show ?thesis by (auto intro!: paced_rows [OF p] simp: release_row_def)
next
  case (PSweep ss now)
  then show ?thesis by (auto intro!: paced_rows [OF p] simp: sweep_row_def)
next
  case (PRead s tk now)
  have "paced sid t (sql_update (renew_read_row s tk now) ls)"
    by (rule paced_rows [OF p]) (auto simp: renew_read_row_def)
  then show ?thesis using p PRead by (simp add: renew_group_read_lease_def)
qed

lemma paced_fold:
  "paced sid t ls \<Longrightarrow> pacing_config c \<Longrightarrow> limits_ok c ls \<Longrightarrow> paced sid t (fold (pacing_apply c) ops ls)"
  by (induction ops arbitrary: ls) (simp_all add: paced_apply limits_ok_apply)

section \<open>Properties\<close>

definition spacing_range :: "runtime_config \<Rightarrow> timestamp \<Rightarrow> bool" where
  "spacing_range c t \<longleftrightarrow> request_spacing (cfg_groups_per_minute c) \<le> t
     \<and> t \<le> request_spacing (cfg_min_groups_per_minute c)"

lemma spacing_in_range:
  assumes "pacing_config c" "cfg_min_groups_per_minute c \<le> rate" "rate \<le> cfg_groups_per_minute c"
  shows "spacing_range c (request_spacing rate)"
  using assms by (auto simp: spacing_range_def request_spacing_def pacing_config_def intro!: zdiv_mono2)

lemma reserve_granted:
  assumes "reserve c sid tok now ls = (ls', Some t)"
  obtains rate where "ready_and_rate c sid now (ensure_limit c sid now ls) = Some rate" "t = tok"
    "ls' = sql_update (acquire_row sid tok rate now) (ensure_limit c sid now ls)"
  using assms by (cases rule: reserve_cases [of c sid now ls tok]) auto

lemma acquired:
  assumes "ls' = sql_update (acquire_row sid tok rate now) (ensure_limit c sid now ls)"
  shows "held sid tok (now + lease_ttl) ls'" "paced sid (now + request_spacing rate) ls'"
proof -
  obtain r where r: "limit_row sid (ensure_limit c sid now ls) = Some r" using limit_row_ensured by blast
  have "limit_row sid ls' = Some (case acquire_row sid tok rate now r of None \<Rightarrow> r | Some r' \<Rightarrow> r')"
    by (simp add: assms limit_row_update [OF limit_rows_session(2)] r)
  then have "limit_row sid ls' = Some (r\<lparr>rl_next_request_at := now + request_spacing rate, rl_lease_token := Some tok,
      rl_lease_expires_at := Some (now + lease_ttl)\<rparr>)"
    using limit_row_session [OF r] by (simp add: acquire_row_def sql_where_def)
  then show "held sid tok (now + lease_ttl) ls'" "paced sid (now + request_spacing rate) ls'"
    by (simp_all add: held_def paced_def)
qed

lemma limits_ok_reserve:
  assumes "pacing_config c" "limits_ok c ls" "reserve c sid tok now ls = (ls', res)"
  shows "limits_ok c ls'"
  using limits_ok_apply [OF assms(1,2), of "PReserve sid tok now"] assms(3) by simp

text \<open>C8: Between two reads of groups granted for a session, whatever the workers do meanwhile, at least
  60000 / rate milliseconds pass for the rate of the first grant, which lies in the configured range;
  and the second is granted only after the first lease was returned or its two minutes were over.\<close>

theorem group_reads_paced:
  assumes "pacing_config c" "limits_ok c ls"
    and "reserve c sid tok t ls = (ls1, Some tok)"
    and "ready_and_rate c sid t (ensure_limit c sid t ls) = Some rate"
    and "reserve c sid tok' t' (fold (pacing_apply c) ops ls1) = (ls2, Some tok')"
  shows "t + request_spacing rate \<le> t' \<and> spacing_range c (request_spacing rate)
    \<and> (t' \<le> t + lease_ttl \<longrightarrow> (\<exists>op \<in> set ops. disturbs sid tok t op))"
proof -
  let ?ls = "fold (pacing_apply c) ops ls1"
  have ls1: "ls1 = sql_update (acquire_row sid tok rate t) (ensure_limit c sid t ls)"
    using assms(3,4) by (auto elim: reserve_granted)
  have ok1: "limits_ok c ls1" by (rule limits_ok_reserve [OF assms(1-3)])
  obtain rate' where rate': "ready_and_rate c sid t' (ensure_limit c sid t' ?ls) = Some rate'"
    using assms(5) by (auto elim: reserve_granted)
  have "paced sid (t + request_spacing rate) ?ls" by (rule paced_fold [OF acquired(2) [OF ls1] assms(1) ok1])
  from paced_ready [OF paced_ensure [OF this] rate'] have "t + request_spacing rate \<le> t'" .
  moreover have "spacing_range c (request_spacing rate)"
    using rate_in_range [OF assms(1) limits_ok_ensure [OF assms(1,2)] assms(4)]
    by (intro spacing_in_range [OF assms(1)]) auto
  moreover have "\<exists>op \<in> set ops. disturbs sid tok t op" if "t' \<le> t + lease_ttl"
  proof (rule ccontr)
    assume "\<not> ?thesis"
    then have "held sid tok (t + lease_ttl) ?ls" by (intro held_fold [OF acquired(1) [OF ls1]]) blast
    from held_refuses [OF this that] rate' show False by simp
  qed
  ultimately show ?thesis by blast
qed

definition pacing_sample :: runtime_config where
  "pacing_sample = parsed_config sample_environment"

lemma pacing_sample_ok: "pacing_config pacing_sample" "cfg_groups_per_minute pacing_sample = 40"
  "\<not> cfg_adaptive_pacing pacing_sample"
  by (simp_all add: pacing_config_def pacing_sample_def parsed_config_def number_or_def flag_or_def
      sample_environment_def Let_def)

lemma group_reads_paced_witness:
  "spacing_range pacing_sample (request_spacing 40)
     \<and> (\<exists>op \<in> set [PRelease ''s1'' ''t1'' 900]. disturbs ''s1'' ''t1'' 0 op)"
proof -
  have none: "limits_ok pacing_sample []" by (simp add: limits_ok_def)
  have first: "ready_and_rate pacing_sample ''s1'' 0 (ensure_limit pacing_sample ''s1'' 0 []) = Some 40"
    by (simp add: ready_and_rate_def ensure_limit_def new_limit_def limit_ready_def pacing_sample_ok)
  obtain ls1 where one: "reserve pacing_sample ''s1'' ''t1'' 0 [] = (ls1, Some ''t1'')"
    using first by (simp add: reserve_def Let_def)
  have "ls1 = sql_update (acquire_row ''s1'' ''t1'' 40 0) [new_limit pacing_sample ''s1'' 0]"
    using one first by (simp add: reserve_def Let_def ensure_limit_def)
  then obtain ls2 where two: "reserve pacing_sample ''s1'' ''t2'' 1500
      (fold (pacing_apply pacing_sample) [PRelease ''s1'' ''t1'' 900] ls1) = (ls2, Some ''t2'')"
    by (simp add: reserve_def Let_def ensure_limit_def new_limit_def acquire_row_def release_row_def sql_where_def
        ensure_row_def ready_and_rate_def limit_ready_def request_spacing_def)
  from group_reads_paced [OF pacing_sample_ok(1) none one first two] show ?thesis
    by (simp add: lease_ttl_def minutes_def)
qed

text \<open>With a configuration that parses, the adaptive rate of every session stays between the minimum
  and the configured rate, whatever requests succeed, fail, are released or swept, and the streak of
  successes never reaches the number that raises the rate.\<close>

theorem pacing_rate_bounded:
  assumes "parse_runtime_config is_uuid e = Inr c" "limits_ok c ls" "r \<in> set (fold (pacing_apply c) ops ls)"
  shows "(\<forall>x. rl_effective r = Some x \<longrightarrow> cfg_min_groups_per_minute c \<le> x \<and> x \<le> cfg_groups_per_minute c)
    \<and> 0 \<le> rl_success_streak r \<and> rl_success_streak r < cfg_rate_recovery_successes c"
proof -
  have "pacing_config c" using parsed_refined [OF assms(1)] by (simp add: pacing_config_def)
  from limits_ok_fold [OF this assms(2)] assms(3) have "limit_ok c r" by (simp add: limits_ok_def)
  then show ?thesis by (auto simp: limit_ok_def)
qed

lemma pacing_rate_bounded_witness:
  "rl_success_streak (new_limit pacing_sample ''s1'' 0) < 25"
proof -
  have "limits_ok pacing_sample [new_limit pacing_sample ''s1'' 0]"
    using limits_ok_ensure [OF pacing_sample_ok(1), of "[]" "''s1''" 0] by (simp add: limits_ok_def ensure_limit_def)
  from pacing_rate_bounded [OF sample_environment_parses this [unfolded pacing_sample_def],
      of "new_limit pacing_sample ''s1'' 0" "[]"]
  show ?thesis
    by (simp add: pacing_sample_def parsed_config_def number_or_def sample_environment_def Let_def)
qed

end
