(* ===== verification/Sync_Items.thy ===== *)
theory Sync_Items
  imports Complex_Main Sync_Runs Sync_Pacing Group_Capability
begin

text \<open>
  The reconciliation items of a run, src/src/modules/gateway/gateway-sync-item.repository.ts: the
  discovery publishes the groups of a session and the items to read in one transaction, workers claim
  and settle the items one at a time per session, and every settlement recomputes the run.
\<close>

record gateway_db =
  gw_sync :: sync_db
  gw_sessions :: "gateway_session table"
  gw_groups :: "gateway_group table"

section \<open>Publishing a discovery\<close>

text \<open>
  \<open>digest\<close> stands for the SHA-256 of the JSON text of the five fields, \<open>ids_digest\<close> for that of the
  sorted identifiers.
\<close>

type_synonym summary_fields = "string \<times> string \<times> nat option \<times> bool option \<times> string option"

definition summary_fingerprint :: "(summary_fields \<Rightarrow> string) \<Rightarrow> group_summary \<Rightarrow> string" where
  "summary_fingerprint digest g =
     digest (gsu_id g, gsu_name g, gsu_participants_count g, gsu_is_admin g, gsu_linked_parent g)"

definition snapshot_fingerprint :: "(string list \<Rightarrow> string) \<Rightarrow> group_summary list \<Rightarrow> string" where
  "snapshot_fingerprint ids_digest groups = ids_digest (sort (map gsu_id groups))"

definition snapshot_baseline :: "string \<Rightarrow> gateway_db \<Rightarrow> nat" where
  "snapshot_baseline sid g = coalesce
     (case find_by gs_id sid (gw_sessions g) of None \<Rightarrow> None | Some s \<Rightarrow> gs_snapshot_count s)
     (length (filter (\<lambda>x. gg_session_id x = sid) (gw_groups g)))"

definition suspicious_snapshot :: "runtime_config \<Rightarrow> nat \<Rightarrow> nat \<Rightarrow> bool" where
  "suspicious_snapshot c baseline found \<longleftrightarrow> cfg_snapshot_min_baseline c \<le> int baseline
     \<and> of_nat found < of_nat baseline * cfg_snapshot_drop_ratio c"

definition confirmations ::
  "runtime_config \<Rightarrow> (string list \<Rightarrow> string) \<Rightarrow> string \<Rightarrow> group_summary list \<Rightarrow> gateway_db \<Rightarrow> nat" where
  "confirmations c ids_digest sid groups g = (case find_by gs_id sid (gw_sessions g) of None \<Rightarrow> 1
     | Some s \<Rightarrow> if suspicious_snapshot c (snapshot_baseline sid g) (length groups)
         \<and> gs_suspicious_fingerprint s = Some (snapshot_fingerprint ids_digest groups)
         \<and> gs_suspicious_count s = Some (length groups)
       then gs_suspicious_confirmations s + 1 else 1)"

definition discovery_deferred ::
  "runtime_config \<Rightarrow> (string list \<Rightarrow> string) \<Rightarrow> string \<Rightarrow> group_summary list \<Rightarrow> gateway_db \<Rightarrow> bool" where
  "discovery_deferred c ids_digest sid groups g \<longleftrightarrow>
     suspicious_snapshot c (snapshot_baseline sid g) (length groups)
     \<and> int (confirmations c ids_digest sid groups g) < cfg_snapshot_confirmations c"

definition suspect_session_row ::
  "string \<Rightarrow> string \<Rightarrow> nat \<Rightarrow> nat \<Rightarrow> timestamp \<Rightarrow> gateway_session row_update" where
  "suspect_session_row sid fp found n now = sql_where (\<lambda>s. gs_id s = sid)
     (\<lambda>s. s\<lparr>gs_suspicious_fingerprint := Some fp, gs_suspicious_count := Some found,
        gs_suspicious_confirmations := n, gs_updated_at := now\<rparr>)"

definition accept_session_row :: "string \<Rightarrow> nat \<Rightarrow> timestamp \<Rightarrow> gateway_session row_update" where
  "accept_session_row sid found now = sql_where (\<lambda>s. gs_id s = sid)
     (\<lambda>s. s\<lparr>gs_snapshot_count := Some found, gs_suspicious_fingerprint := None, gs_suspicious_count := None,
        gs_suspicious_confirmations := 0, gs_updated_at := now\<rparr>)"

definition defer_run_row :: "uuid \<Rightarrow> uuid \<Rightarrow> timestamp \<Rightarrow> sync_run row_update" where
  "defer_run_row rid tok now = sql_where (\<lambda>r. sr_id r = rid \<and> sr_lease_token r = Some tok)
     (\<lambda>r. r\<lparr>sr_status := SY_PENDING, sr_epoch := None, sr_attempt_count := sr_attempt_count r - 1,
        sr_next_attempt_at := now + seconds 5, sr_lease_token := None, sr_lease_expires_at := None,
        sr_error := Some ''SUSPICIOUS_GROUP_SNAPSHOT''\<rparr>)"

definition publish_run_row :: "uuid \<Rightarrow> uuid \<Rightarrow> nat \<Rightarrow> nat \<Rightarrow> timestamp \<Rightarrow> sync_run row_update" where
  "publish_run_row rid tok discovered scheduled now =
     sql_where (\<lambda>r. sr_id r = rid \<and> sr_lease_token r = Some tok)
     (\<lambda>r. let completed = (scheduled = 0) in
        r\<lparr>sr_phase := (if completed then PHASE_COMPLETED else RECONCILING), sr_discovered := discovered,
          sr_scheduled := scheduled, sr_status := (if completed then SY_COMPLETED else sr_status r),
          sr_completed_at := (if completed then Some now else None), sr_lease_token := None,
          sr_lease_expires_at := None, sr_error := None\<rparr>)"

text \<open>The branches that choose what to read; \<open>before\<close> is the row of the group before the snapshot.\<close>

definition item_reason ::
  "runtime_config \<Rightarrow> sync_mode \<Rightarrow> timestamp \<Rightarrow> string \<Rightarrow> gateway_group option \<Rightarrow> sync_item_reason option" where
  "item_reason c mode wall fp before =
     (if mode = FULL then Some REASON_FULL
      else case before of None \<Rightarrow> Some MISSING_DETAILS
      | Some g \<Rightarrow> (case gg_details_synced_at g of None \<Rightarrow> Some MISSING_DETAILS
        | Some t \<Rightarrow> if gg_invalidated_at g \<noteq> None then Some CAPABILITY_INVALIDATED
            else if gg_reconciled_fingerprint g \<noteq> Some fp then Some SUMMARY_NOT_RECONCILED
            else if t < wall - cfg_details_stale_hours c * 3600000 then Some DETAILS_STALE
            else None))"

definition new_item ::
  "(string \<Rightarrow> uuid) \<Rightarrow> uuid \<Rightarrow> string \<Rightarrow> timestamp \<Rightarrow> nat \<times> group_summary \<times> sync_item_reason \<times> string \<Rightarrow> sync_item" where
  "new_item ids rid sid now p = (case p of (ordinal, g, reason, fp) \<Rightarrow>
     \<lparr>si_id = ids (gsu_id g), si_run_id = rid, si_session_id = sid, si_group_id = gsu_id g,
      si_ordinal = ordinal, si_reason = reason, si_fingerprint = Some fp, si_status = SI_PENDING,
      si_attempt_count = 0, si_next_attempt_at = now, si_lease_token = None, si_lease_expires_at = None,
      si_members = 0, si_error = None, si_started_at = None, si_completed_at = None\<rparr>)"

definition item_key :: "sync_item \<Rightarrow> uuid \<times> string" where
  "item_key x = (si_run_id x, si_group_id x)"

definition select_items ::
  "runtime_config \<Rightarrow> (summary_fields \<Rightarrow> string) \<Rightarrow> sync_mode \<Rightarrow> timestamp \<Rightarrow> string \<Rightarrow> group_summary list
    \<Rightarrow> gateway_group table \<Rightarrow> (nat \<times> group_summary \<times> sync_item_reason \<times> string) list" where
  "select_items c digest mode wall sid groups before = List.map_filter
     (\<lambda>(ordinal, g). map_option (\<lambda>reason. (ordinal, g, reason, summary_fingerprint digest g))
        (item_reason c mode wall (summary_fingerprint digest g) (find_group sid (gsu_id g) before)))
     (enumerate 0 groups)"

definition fingerprint_row :: "(summary_fields \<Rightarrow> string) \<Rightarrow> string \<Rightarrow> group_summary list \<Rightarrow> gateway_group row_update" where
  "fingerprint_row digest sid groups g = (if gg_session_id g \<noteq> sid then None
     else map_option (\<lambda>s. g\<lparr>gg_summary_fingerprint := Some (summary_fingerprint digest s)\<rparr>)
       (find_by gsu_id (gg_id g) groups))"

record discovery_result =
  dr_discovered :: nat
  dr_scheduled :: nat
  dr_completed :: bool
  dr_deferred :: bool

text \<open>
  An error aborts the transaction: lost ownership, or PostgreSQL's refusal of an upsert that names one
  group twice.
\<close>

definition publish_discovery ::
  "runtime_config \<Rightarrow> (summary_fields \<Rightarrow> string) \<Rightarrow> (string list \<Rightarrow> string) \<Rightarrow> (string \<Rightarrow> uuid) \<Rightarrow> sync_write_fence
    \<Rightarrow> string \<Rightarrow> sync_mode \<Rightarrow> group_summary list \<Rightarrow> timestamp \<Rightarrow> timestamp \<Rightarrow> gateway_db
    \<Rightarrow> gateway_db \<times> (string + discovery_result)" where
  "publish_discovery c digest ids_digest ids w sid mode groups wall now g =
     (let sd = gw_sync g; rid = wf_run_id w; tok = wf_token w in
      case assert_sync_write sid w now sd of
        Inl _ \<Rightarrow> (g, Inl ''Gateway sync discovery lost write ownership'')
      | Inr _ \<Rightarrow>
          if discovery_deferred c ids_digest sid groups g then
            (g\<lparr>gw_sync := sd\<lparr>sync_runs := sql_update (defer_run_row rid tok now) (sync_runs sd)\<rparr>,
               gw_sessions := sql_update (suspect_session_row sid (snapshot_fingerprint ids_digest groups)
                 (length groups) (confirmations c ids_digest sid groups g) now) (gw_sessions g)\<rparr>,
             Inr \<lparr>dr_discovered = length groups, dr_scheduled = 0, dr_completed = False, dr_deferred = True\<rparr>)
          else (case replace_summaries sid groups now (gw_groups g) of
              None \<Rightarrow> (g, Inl ''ON CONFLICT DO UPDATE command cannot affect row a second time'')
            | Some gs \<Rightarrow>
                let selected = select_items c digest mode wall sid groups (gw_groups g) in
                (g\<lparr>gw_sync := sd\<lparr>sync_runs :=
                      sql_update (publish_run_row rid tok (length groups) (length selected) now) (sync_runs sd),
                    sync_items := fold (\<lambda>p. sql_insert_new item_key (new_item ids rid sid now p)) selected
                      (sync_items sd)\<rparr>,
                   gw_groups := sql_update (fingerprint_row digest sid groups) gs,
                   gw_sessions := sql_update (accept_session_row sid (length groups) now) (gw_sessions g)\<rparr>,
                 Inr \<lparr>dr_discovered = length groups, dr_scheduled = length selected,
                   dr_completed = (selected = []), dr_deferred = False\<rparr>)))"

section \<open>Dispatching\<close>

definition item_available :: "rate_limit table \<Rightarrow> sync_item \<Rightarrow> timestamp" where
  "item_available limits x = (case limit_row (si_session_id x) limits of None \<Rightarrow> si_next_attempt_at x
   | Some r \<Rightarrow> Max (set ([si_next_attempt_at x, rl_next_request_at r]
       @ (case rl_cooldown_until r of None \<Rightarrow> [] | Some t \<Rightarrow> [t]))))"

definition item_candidate :: "runtime_config \<Rightarrow> timestamp \<Rightarrow> sync_db \<Rightarrow> sync_item \<Rightarrow> bool" where
  "item_candidate c now sd x \<longleftrightarrow>
     (\<exists>r \<in> set (sync_runs sd). sr_id r = si_run_id x \<and> sr_status r = SY_RUNNING)
     \<and> si_status x \<in> {SI_PENDING, SI_RETRY} \<and> int (si_attempt_count x) < cfg_item_max_attempts c
     \<and> (case limit_row (si_session_id x) (rate_limits sd) of None \<Rightarrow> True
        | Some l \<Rightarrow> rl_lease_token l = None \<or> null_before (rl_lease_expires_at l) now)"

definition item_order :: "sync_db \<Rightarrow> sync_item \<Rightarrow> timestamp \<times> nat" where
  "item_order sd x = (item_available (rate_limits sd) x, si_ordinal x)"

text \<open>row_number() = 1 in its session: the first of the candidates of the session.\<close>

definition first_of_session :: "runtime_config \<Rightarrow> timestamp \<Rightarrow> sync_db \<Rightarrow> sync_item \<Rightarrow> bool" where
  "first_of_session c now sd x \<longleftrightarrow>
     sql_top 1 (item_order sd) (\<lambda>y. item_candidate c now sd y \<and> si_session_id y = si_session_id x)
       (sync_items sd) = [x]"

definition list_dispatchable_items ::
  "runtime_config \<Rightarrow> nat \<Rightarrow> timestamp \<Rightarrow> sync_db \<Rightarrow> (uuid \<times> uuid \<times> string \<times> string \<times> timestamp) list" where
  "list_dispatchable_items c limit now sd =
     map (\<lambda>x. (si_id x, si_run_id x, si_session_id x, si_group_id x, item_available (rate_limits sd) x))
       (sql_top limit (item_order sd) (first_of_session c now sd) (sync_items sd))"

section \<open>Claiming\<close>

definition claim_item_row :: "runtime_config \<Rightarrow> uuid \<Rightarrow> uuid \<Rightarrow> timestamp \<Rightarrow> sync_item row_update" where
  "claim_item_row c xid tok now = sql_where
     (\<lambda>x. si_id x = xid \<and> si_status x \<in> {SI_PENDING, SI_RETRY} \<and> si_next_attempt_at x \<le> now
        \<and> int (si_attempt_count x) < cfg_item_max_attempts c)
     (\<lambda>x. x\<lparr>si_status := SI_RUNNING, si_attempt_count := si_attempt_count x + 1, si_lease_token := Some tok,
        si_lease_expires_at := Some (now + lease_ttl), si_started_at := Some (coalesce (si_started_at x) now),
        si_error := None\<rparr>)"

text \<open>ClaimedGatewaySyncItem; sync_epoch is NULL only for a run that is not RUNNING.\<close>

record claimed_item =
  ic_id :: uuid
  ic_run_id :: uuid
  ic_session_id :: string
  ic_group_id :: string
  ic_epoch :: "nat option"
  ic_token :: uuid
  ic_attempt :: nat
  ic_fingerprint :: "string option"

definition running_run_of :: "sync_db \<Rightarrow> sync_item \<Rightarrow> sync_run option" where
  "running_run_of sd x = (case find_by sr_id (si_run_id x) (sync_runs sd) of None \<Rightarrow> None
     | Some r \<Rightarrow> if sr_status r = SY_RUNNING then Some r else None)"

definition claim_item ::
  "runtime_config \<Rightarrow> uuid \<Rightarrow> uuid \<Rightarrow> timestamp \<Rightarrow> sync_db \<Rightarrow> sync_db \<times> claimed_item option" where
  "claim_item c xid tok now sd = (case find_by si_id xid (sync_items sd) of None \<Rightarrow> (sd, None)
   | Some x \<Rightarrow> (case running_run_of sd x of None \<Rightarrow> (sd, None)
     | Some run \<Rightarrow>
         let sid = si_session_id x; limits = ensure_limit c sid now (rate_limits sd);
             sd' = sd\<lparr>rate_limits := limits\<rparr> in
         (case ready_and_rate c sid now limits of None \<Rightarrow> (sd', None)
          | Some rate \<Rightarrow> (case sql_returning (claim_item_row c xid tok now) (sync_items sd) of
              [] \<Rightarrow> (sd', None)
            | y # _ \<Rightarrow> (sd\<lparr>sync_items := sql_update (claim_item_row c xid tok now) (sync_items sd),
                 rate_limits := sql_update (acquire_row sid tok rate now) limits\<rparr>,
               Some \<lparr>ic_id = xid, ic_run_id = si_run_id x, ic_session_id = sid, ic_group_id = si_group_id x,
                 ic_epoch = sr_epoch run, ic_token = tok, ic_attempt = si_attempt_count y,
                 ic_fingerprint = si_fingerprint x\<rparr>)))))"

definition renew_item_row :: "uuid \<Rightarrow> uuid \<Rightarrow> timestamp \<Rightarrow> sync_item row_update" where
  "renew_item_row xid tok now = sql_where (item_owned xid tok now)
     (\<lambda>x. x\<lparr>si_lease_expires_at := Some (now + lease_ttl)\<rparr>)"

definition renew_item :: "uuid \<Rightarrow> uuid \<Rightarrow> timestamp \<Rightarrow> sync_db \<Rightarrow> sync_db \<times> bool" where
  "renew_item xid tok now sd = (case sql_returning (renew_item_row xid tok now) (sync_items sd) of
     [] \<Rightarrow> (sd, False)
   | x # _ \<Rightarrow> (case renew_limit (si_session_id x) tok now (rate_limits sd) of
       (_, False) \<Rightarrow> (sd, False)
     | (limits, True) \<Rightarrow> (sd\<lparr>sync_items := sql_update (renew_item_row xid tok now) (sync_items sd),
         rate_limits := limits\<rparr>, True)))"

section \<open>Settling\<close>

text \<open>refreshParent: the run from its items.\<close>

definition members_of :: "uuid \<Rightarrow> sync_item table \<Rightarrow> nat" where
  "members_of rid items = sum_list (map si_members (filter (\<lambda>x. si_status x = SI_COMPLETED) (run_items rid items)))"

definition items_open :: "sync_item_status set" where
  "items_open = {SI_PENDING, SI_RUNNING, SI_RETRY}"

definition parent_row :: "uuid \<Rightarrow> sync_item table \<Rightarrow> timestamp \<Rightarrow> sync_run row_update" where
  "parent_row rid items now = sql_where (\<lambda>r. sr_id r = rid)
     (\<lambda>r. let remaining = items_in items_open rid items; failed = items_in {SI_FAILED} rid items in
        r\<lparr>sr_synced := items_in {SI_COMPLETED} rid items, sr_failed := failed,
          sr_skipped := items_in {SI_SKIPPED} rid items, sr_members := members_of rid items,
          sr_phase := (if remaining = 0 then PHASE_COMPLETED else RECONCILING),
          sr_status := (if 0 < remaining then sr_status r else if 0 < failed then SY_FAILED else SY_COMPLETED),
          sr_error := (if remaining = 0 \<and> 0 < failed
            then Some (decimal failed @ '' group reconciliations failed'') else sr_error r),
          sr_completed_at := (if remaining = 0 then Some now else None)\<rparr>)"

definition refresh_parent :: "uuid \<Rightarrow> timestamp \<Rightarrow> sync_db \<Rightarrow> sync_db" where
  "refresh_parent rid now sd =
     sd\<lparr>sync_runs := sql_update (parent_row rid (sync_items sd) now) (sync_runs sd)\<rparr>"

definition complete_item_row :: "uuid \<Rightarrow> uuid \<Rightarrow> nat \<Rightarrow> timestamp \<Rightarrow> sync_item row_update" where
  "complete_item_row xid tok members now = sql_where (item_owned xid tok now)
     (\<lambda>x. x\<lparr>si_status := SI_COMPLETED, si_members := members, si_lease_token := None,
        si_lease_expires_at := None, si_completed_at := Some now\<rparr>)"

definition reconciled_row :: "sync_item \<Rightarrow> timestamp \<Rightarrow> gateway_group row_update" where
  "reconciled_row x now = sql_where (is_group (si_session_id x) (si_group_id x))
     (\<lambda>g. g\<lparr>gg_reconciled_fingerprint := coalesce_opt (si_fingerprint x) (gg_reconciled_fingerprint g),
        gg_updated_at := now\<rparr>)"

definition complete_item ::
  "runtime_config \<Rightarrow> uuid \<Rightarrow> uuid \<Rightarrow> nat \<Rightarrow> timestamp \<Rightarrow> gateway_db \<Rightarrow> gateway_db \<times> bool" where
  "complete_item c xid tok members now g =
     (let sd = gw_sync g; f = complete_item_row xid tok members now in
      case sql_returning f (sync_items sd) of [] \<Rightarrow> (g, False)
      | x # _ \<Rightarrow> (g\<lparr>gw_sync := refresh_parent (si_run_id x) now
            (sd\<lparr>sync_items := sql_update f (sync_items sd),
              rate_limits := record_success c (si_session_id x) tok (rate_limits sd)\<rparr>),
          gw_groups := sql_update (reconciled_row x now) (gw_groups g)\<rparr>, True))"

definition skip_item_row :: "uuid \<Rightarrow> uuid \<Rightarrow> string \<Rightarrow> timestamp \<Rightarrow> sync_item row_update" where
  "skip_item_row xid tok e now = sql_where (item_owned xid tok now)
     (\<lambda>x. x\<lparr>si_status := SI_SKIPPED, si_error := Some e, si_lease_token := None,
        si_lease_expires_at := None, si_completed_at := Some now\<rparr>)"

definition skip_item :: "uuid \<Rightarrow> uuid \<Rightarrow> string \<Rightarrow> timestamp \<Rightarrow> sync_db \<Rightarrow> sync_db \<times> bool" where
  "skip_item xid tok e now sd = (case sql_returning (skip_item_row xid tok e now) (sync_items sd) of
     [] \<Rightarrow> (sd, False)
   | x # _ \<Rightarrow> (refresh_parent (si_run_id x) now
       (sd\<lparr>sync_items := sql_update (skip_item_row xid tok e now) (sync_items sd),
         rate_limits := sql_update (release_row (si_session_id x) tok) (rate_limits sd)\<rparr>), True))"

definition will_retry :: "runtime_config \<Rightarrow> failure_policy \<Rightarrow> sync_item \<Rightarrow> bool" where
  "will_retry c p x \<longleftrightarrow> fp_retryable p \<and> int (si_attempt_count x) < cfg_item_max_attempts c"

definition fail_item_row ::
  "runtime_config \<Rightarrow> uuid \<Rightarrow> uuid \<Rightarrow> string \<Rightarrow> failure_policy \<Rightarrow> int \<Rightarrow> timestamp \<Rightarrow> sync_item row_update" where
  "fail_item_row c xid tok e p noise now = sql_where (item_owned xid tok now)
     (\<lambda>x. let retry = will_retry c p x in
        x\<lparr>si_status := (if retry then SI_RETRY else SI_FAILED), si_error := Some e,
          si_next_attempt_at := (if retry then now + backoff_seconds (si_attempt_count x) * noise
            else si_next_attempt_at x),
          si_lease_token := None, si_lease_expires_at := None,
          si_completed_at := (if retry then None else Some now)\<rparr>)"

datatype item_result = ItemRetry | ItemFailed | ItemLost

definition fail_item ::
  "runtime_config \<Rightarrow> uuid \<Rightarrow> uuid \<Rightarrow> string \<Rightarrow> failure_policy \<Rightarrow> int \<Rightarrow> int \<Rightarrow> timestamp \<Rightarrow> sync_db
    \<Rightarrow> sync_db \<times> item_result" where
  "fail_item c xid tok e p noise noise' now sd =
     (let f = fail_item_row c xid tok e p noise now in
      case sql_returning f (sync_items sd) of [] \<Rightarrow> (sd, ItemLost)
      | x # _ \<Rightarrow> (refresh_parent (si_run_id x) now
            (sd\<lparr>sync_items := sql_update f (sync_items sd),
              rate_limits := sql_update (failure_row c (si_session_id x) tok p noise' now) (rate_limits sd)\<rparr>),
          if si_status x = SI_RETRY then ItemRetry else ItemFailed))"

definition recover_item_row :: "runtime_config \<Rightarrow> timestamp \<Rightarrow> sync_item row_update" where
  "recover_item_row c now = sql_where (\<lambda>x. si_status x = SI_RUNNING \<and> null_before (si_lease_expires_at x) now)
     (\<lambda>x. let exhausted = cfg_item_max_attempts c \<le> int (si_attempt_count x) in
        x\<lparr>si_status := (if exhausted then SI_FAILED else SI_RETRY), si_next_attempt_at := now,
          si_lease_token := None, si_lease_expires_at := None,
          si_error := Some ''Recovered expired group reconciliation lease'',
          si_completed_at := (if exhausted then Some now else None)\<rparr>)"

definition recover_items :: "runtime_config \<Rightarrow> timestamp \<Rightarrow> sync_db \<Rightarrow> sync_db \<times> nat" where
  "recover_items c now sd =
     (let f = recover_item_row c now; rows = sql_returning f (sync_items sd);
          sd1 = sd\<lparr>sync_items := sql_update f (sync_items sd)\<rparr>;
          sd2 = fold (\<lambda>rid. refresh_parent rid now) (remdups (map si_run_id rows)) sd1 in
      (sd2\<lparr>rate_limits := sql_update (sweep_row (\<lambda>_. True) now) (rate_limits sd2)\<rparr>, length rows))"

lemmas item_rows = claim_item_row_def renew_item_row_def complete_item_row_def skip_item_row_def
  fail_item_row_def recover_item_row_def item_owned_def

section \<open>The lease of an item\<close>

definition item_token :: "sync_item \<Rightarrow> uuid option" where
  "item_token x = (if si_status x = SI_RUNNING then si_lease_token x else None)"

datatype item_outcome = ItemDone nat | ItemSkipped string | ItemFailure string failure_policy int

definition settle_item_row ::
  "runtime_config \<Rightarrow> uuid \<Rightarrow> item_outcome \<Rightarrow> uuid \<Rightarrow> timestamp \<Rightarrow> sync_item row_update" where
  "settle_item_row c xid out tok now x = (case out of
     ItemDone members \<Rightarrow> complete_item_row xid tok members now x
   | ItemSkipped e \<Rightarrow> skip_item_row xid tok e now x
   | ItemFailure e p noise \<Rightarrow> fail_item_row c xid tok e p noise now x)"

interpretation item_lease: renewable_row item_token si_lease_expires_at "claim_item_row c xid"
    "settle_item_row c xid" "recover_item_row c" "renew_item_row xid" for c xid
proof unfold_locales
  fix s t now x x'
  assume "settle_item_row c xid s t now x = Some x'"
  then show "item_token x = Some t \<and> null_after (si_lease_expires_at x) now" "item_token x' = None"
    by (auto simp: settle_item_row_def item_token_def item_rows Let_def split: item_outcome.splits)
qed (auto simp: item_token_def item_rows Let_def)

interpretation item_work: bounded_work item_token si_lease_expires_at "claim_item_row c xid"
    "settle_item_row c xid" "recover_item_row c" si_attempt_count "nat (cfg_item_max_attempts c)" for c xid
  by unfold_locales (auto simp: settle_item_row_def item_rows Let_def split: item_outcome.splits)

end
