(* ===== verification/Group_Intents.thy ===== *)
theory Group_Intents
  imports Sync_Pacing Leases
begin

text \<open>
  The event-driven reconciliation of groups, src/src/modules/gateway/gateway-group-intent.repository.ts:
  every group has at most one intent, a webhook that touches the group raises its requested revision,
  and a worker claims the revision it is about to serve, so that an event that arrives while it works
  leads to another round.
\<close>

section \<open>Scheduling\<close>

definition intent_key :: "group_intent \<Rightarrow> string \<times> string" where
  "intent_key i = (in_session_id i, in_group_id i)"

definition new_intent :: "runtime_config \<Rightarrow> string \<Rightarrow> string \<Rightarrow> string \<Rightarrow> timestamp \<Rightarrow> group_intent" where
  "new_intent c sid gid reason now =
     \<lparr>in_session_id = sid, in_group_id = gid, in_requested = 1, in_completed = 0, in_claimed = None,
      in_reasons = [reason], in_status = I_PENDING, in_not_before = now + cfg_event_debounce_ms c,
      in_next_attempt_at = now + cfg_event_debounce_ms c, in_attempt_count = 0, in_coalesced = 0,
      in_lease_token = None, in_lease_expires_at = None, in_error_code = None,
      in_first_requested_at = now, in_last_requested_at = now, in_started_at = None,
      in_completed_at = None\<rparr>"

definition ended :: "group_intent \<Rightarrow> bool" where
  "ended i \<longleftrightarrow> in_status i \<in> {I_COMPLETED, I_FAILED}"

definition schedule_row ::
  "runtime_config \<Rightarrow> string \<Rightarrow> string \<Rightarrow> string \<Rightarrow> timestamp \<Rightarrow> group_intent row_update" where
  "schedule_row c sid gid reason now = sql_where (\<lambda>i. intent_key i = (sid, gid))
     (\<lambda>i. let first = (if ended i then now else in_first_requested_at i);
              due = min (first + cfg_event_max_wait_ms c) (now + cfg_event_debounce_ms c);
              running = (in_status i = I_RUNNING) in
        i\<lparr>in_requested := in_requested i + 1,
          in_reasons := (if ended i then [reason] else sort (remdups (in_reasons i @ [reason]))),
          in_status := (if running then I_RUNNING else I_PENDING),
          in_not_before := due,
          in_next_attempt_at := (if running then in_next_attempt_at i else due),
          in_attempt_count := (if running then in_attempt_count i else 0),
          in_coalesced := (if ended i then 0 else in_coalesced i + 1),
          in_first_requested_at := first, in_last_requested_at := now,
          in_started_at := (if ended i then None else in_started_at i),
          in_completed_at := None, in_error_code := None\<rparr>)"

definition schedule_intent ::
  "runtime_config \<Rightarrow> string \<Rightarrow> string \<Rightarrow> string \<Rightarrow> timestamp \<Rightarrow> group_intent table
    \<Rightarrow> group_intent table \<times> bool \<times> nat" where
  "schedule_intent c sid gid reason now ints =
     (case sql_returning (schedule_row c sid gid reason now) ints of
        [] \<Rightarrow> (ints @ [new_intent c sid gid reason now], True, 0)
      | i # _ \<Rightarrow> (sql_update (schedule_row c sid gid reason now) ints, False, in_coalesced i))"

section \<open>Dispatching\<close>

definition intent_blocked :: "sync_db \<Rightarrow> group_intent \<Rightarrow> bool" where
  "intent_blocked sd i \<longleftrightarrow>
     (\<exists>r \<in> set (sync_runs sd). sr_session_id r = in_session_id i \<and> sr_status r \<in> {SY_PENDING, SY_RUNNING}
        \<and> sr_phase r = DISCOVERING)
     \<or> (\<exists>x \<in> set (sync_items sd). \<exists>r \<in> set (sync_runs sd). sr_id r = si_run_id x \<and> sr_status r = SY_RUNNING
        \<and> si_session_id x = in_session_id i \<and> si_group_id x = in_group_id i
        \<and> si_status x \<in> {SI_PENDING, SI_RUNNING, SI_RETRY})"

definition lease_idle :: "timestamp \<Rightarrow> rate_limit option \<Rightarrow> bool" where
  "lease_idle now l = (case l of None \<Rightarrow> True
     | Some r \<Rightarrow> rl_lease_token r = None \<or> null_before (rl_lease_expires_at r) now)"

text \<open>GREATEST of the columns that are set; '-infinity' drops out.\<close>

definition intent_available :: "timestamp \<Rightarrow> rate_limit table \<Rightarrow> group_intent \<Rightarrow> timestamp" where
  "intent_available now limits i = (case limit_row (in_session_id i) limits of
     None \<Rightarrow> max (in_next_attempt_at i) (in_not_before i)
   | Some r \<Rightarrow> Max (set ([in_next_attempt_at i, in_not_before i, rl_next_request_at r]
       @ (case rl_cooldown_until r of None \<Rightarrow> [] | Some t \<Rightarrow> [t])
       @ (if rl_lease_token r = None then [] else [coalesce (rl_lease_expires_at r) now]))))"

definition intent_dispatchable :: "runtime_config \<Rightarrow> timestamp \<Rightarrow> sync_db \<Rightarrow> group_intent \<Rightarrow> bool" where
  "intent_dispatchable c now sd i \<longleftrightarrow> in_status i \<in> {I_PENDING, I_RETRY}
     \<and> int (in_attempt_count i) < cfg_item_max_attempts c
     \<and> in_session_id i \<in> set (cfg_allowed_sessions c) \<and> \<not> intent_blocked sd i
     \<and> lease_idle now (limit_row (in_session_id i) (rate_limits sd))"

definition list_dispatchable_intents ::
  "runtime_config \<Rightarrow> nat \<Rightarrow> timestamp \<Rightarrow> sync_db \<Rightarrow> (string \<times> string \<times> nat \<times> timestamp) list" where
  "list_dispatchable_intents c limit now sd = (if \<not> cfg_targeted_reconciliation c then []
     else map (\<lambda>i. (in_session_id i, in_group_id i, in_requested i, intent_available now (rate_limits sd) i))
       (sql_top limit (\<lambda>i. (intent_available now (rate_limits sd) i, in_last_requested_at i))
         (intent_dispatchable c now sd) (group_intents sd)))"

section \<open>Claiming and settling\<close>

definition claim_intent_row ::
  "runtime_config \<Rightarrow> string \<Rightarrow> string \<Rightarrow> uuid \<Rightarrow> timestamp \<Rightarrow> group_intent row_update" where
  "claim_intent_row c sid gid tok now = sql_where
     (\<lambda>i. intent_key i = (sid, gid) \<and> in_status i \<in> {I_PENDING, I_RETRY} \<and> in_next_attempt_at i \<le> now
        \<and> in_not_before i \<le> now \<and> int (in_attempt_count i) < cfg_item_max_attempts c)
     (\<lambda>i. i\<lparr>in_status := I_RUNNING, in_claimed := Some (in_requested i),
        in_attempt_count := in_attempt_count i + 1, in_lease_token := Some tok,
        in_lease_expires_at := Some (now + lease_ttl),
        in_started_at := Some (coalesce (in_started_at i) now), in_error_code := None\<rparr>)"

text \<open>ClaimedGatewayGroupIntent: the revision to serve, the attempt, the coalesced events, the first request.\<close>

definition claim_intent ::
  "runtime_config \<Rightarrow> string \<Rightarrow> string \<Rightarrow> uuid \<Rightarrow> timestamp \<Rightarrow> sync_db
    \<Rightarrow> sync_db \<times> (nat \<times> nat \<times> nat \<times> timestamp) option" where
  "claim_intent c sid gid tok now sd =
     (case find_by intent_key (sid, gid) (group_intents sd) of None \<Rightarrow> (sd, None)
      | Some i \<Rightarrow>
          let limits = ensure_limit c sid now (rate_limits sd); sd' = sd\<lparr>rate_limits := limits\<rparr> in
          (case ready_and_rate c sid now limits of None \<Rightarrow> (sd', None)
          | Some rate \<Rightarrow> (case sql_returning (claim_intent_row c sid gid tok now) (group_intents sd) of
              [] \<Rightarrow> (sd', None)
            | j # _ \<Rightarrow> (sd\<lparr>group_intents := sql_update (claim_intent_row c sid gid tok now) (group_intents sd),
                 rate_limits := sql_update (acquire_row sid tok rate now) limits\<rparr>,
               Some (in_requested i, in_attempt_count j, in_coalesced i, in_first_requested_at i)))))"

definition intent_owned :: "string \<Rightarrow> string \<Rightarrow> uuid \<Rightarrow> timestamp \<Rightarrow> group_intent \<Rightarrow> bool" where
  "intent_owned sid gid tok now i \<longleftrightarrow> intent_key i = (sid, gid) \<and> in_status i = I_RUNNING
     \<and> in_lease_token i = Some tok \<and> null_after (in_lease_expires_at i) now"

definition renew_intent_row :: "string \<Rightarrow> string \<Rightarrow> uuid \<Rightarrow> timestamp \<Rightarrow> group_intent row_update" where
  "renew_intent_row sid gid tok now = sql_where (intent_owned sid gid tok now)
     (\<lambda>i. i\<lparr>in_lease_expires_at := Some (now + lease_ttl)\<rparr>)"

text \<open>The thrown LostGatewayGroupIntentLeaseError rolls the transaction back and is answered with false.\<close>

definition renew_intent ::
  "string \<Rightarrow> string \<Rightarrow> uuid \<Rightarrow> timestamp \<Rightarrow> sync_db \<Rightarrow> sync_db \<times> bool" where
  "renew_intent sid gid tok now sd =
     (let (limits, renewed) = renew_limit sid tok now (rate_limits sd) in
      if sql_count (renew_intent_row sid gid tok now) (group_intents sd) = 1 \<and> renewed
      then (sd\<lparr>group_intents := sql_update (renew_intent_row sid gid tok now) (group_intents sd),
          rate_limits := limits\<rparr>, True)
      else (sd, False))"

text \<open>The SET clause that complete and skipMissing share; \<open>e\<close> is the error code they leave.\<close>

definition serve_row ::
  "string \<Rightarrow> string \<Rightarrow> uuid \<Rightarrow> nat \<Rightarrow> string option \<Rightarrow> timestamp \<Rightarrow> group_intent row_update" where
  "serve_row sid gid tok revision e now = sql_where
     (\<lambda>i. intent_owned sid gid tok now i \<and> in_claimed i = Some revision)
     (\<lambda>i. let newer = revision < in_requested i in
        i\<lparr>in_completed := max (in_completed i) revision,
          in_status := (if newer then I_PENDING else I_COMPLETED),
          in_attempt_count := (if newer then 0 else in_attempt_count i),
          in_next_attempt_at := (if newer then max (in_not_before i) now else in_next_attempt_at i),
          in_claimed := None, in_lease_token := None, in_lease_expires_at := None,
          in_completed_at := (if in_requested i = revision then Some now else None),
          in_error_code := e\<rparr>)"

datatype intent_result = IntentCompleted | IntentPending | IntentRetry | IntentFailed | IntentLost

definition result_of :: "intent_status \<Rightarrow> intent_result" where
  "result_of s = (case s of I_COMPLETED \<Rightarrow> IntentCompleted | I_RETRY \<Rightarrow> IntentRetry | I_FAILED \<Rightarrow> IntentFailed
     | _ \<Rightarrow> IntentPending)"

definition complete_intent ::
  "runtime_config \<Rightarrow> string \<Rightarrow> string \<Rightarrow> uuid \<Rightarrow> nat \<Rightarrow> timestamp \<Rightarrow> sync_db \<Rightarrow> sync_db \<times> intent_result" where
  "complete_intent c sid gid tok revision now sd =
     (case sql_returning (serve_row sid gid tok revision None now) (group_intents sd) of
        [] \<Rightarrow> (sd, IntentLost)
      | i # _ \<Rightarrow> (sd\<lparr>group_intents := sql_update (serve_row sid gid tok revision None now) (group_intents sd),
           rate_limits := record_success c sid tok (rate_limits sd)\<rparr>, result_of (in_status i)))"

definition skip_missing ::
  "string \<Rightarrow> string \<Rightarrow> uuid \<Rightarrow> nat \<Rightarrow> timestamp \<Rightarrow> sync_db \<Rightarrow> sync_db \<times> bool" where
  "skip_missing sid gid tok revision now sd =
     (let f = serve_row sid gid tok revision (Some ''GROUP_NOT_FOUND'') now in
      if sql_count f (group_intents sd) \<noteq> 1 then (sd\<lparr>group_intents := sql_update f (group_intents sd)\<rparr>, False)
      else (sd\<lparr>group_intents := sql_update f (group_intents sd),
          rate_limits := sql_update (release_row sid tok) (rate_limits sd)\<rparr>, True))"

definition fail_status :: "runtime_config \<Rightarrow> failure_policy \<Rightarrow> nat \<Rightarrow> group_intent \<Rightarrow> intent_status" where
  "fail_status c p revision i = (if revision < in_requested i then I_PENDING
     else if fp_retryable p \<and> int (in_attempt_count i) < cfg_item_max_attempts c then I_RETRY else I_FAILED)"

text \<open>
  The row is locked between the SELECT that decides and the UPDATE, so both are one row update.
  The delay is the backoff times 0.8 + Math.random() * 0.4, \<open>noise\<close> in thousandths.
\<close>

definition fail_intent_row ::
  "runtime_config \<Rightarrow> string \<Rightarrow> string \<Rightarrow> uuid \<Rightarrow> nat \<Rightarrow> failure_policy \<Rightarrow> int \<Rightarrow> timestamp
    \<Rightarrow> group_intent row_update" where
  "fail_intent_row c sid gid tok revision p noise now = sql_where
     (\<lambda>i. intent_owned sid gid tok now i \<and> in_claimed i = Some revision)
     (\<lambda>i. let s = fail_status c p revision i in
        i\<lparr>in_status := s, in_attempt_count := (if s = I_PENDING then 0 else in_attempt_count i),
          in_next_attempt_at := (if s = I_PENDING then max (in_not_before i) now
            else if s = I_RETRY then now + backoff_seconds (in_attempt_count i) * noise
            else in_next_attempt_at i),
          in_claimed := None, in_lease_token := None, in_lease_expires_at := None,
          in_error_code := Some (fp_code p),
          in_completed_at := (if s = I_FAILED then Some now else None)\<rparr>)"

definition fail_intent ::
  "runtime_config \<Rightarrow> string \<Rightarrow> string \<Rightarrow> uuid \<Rightarrow> nat \<Rightarrow> failure_policy \<Rightarrow> int \<Rightarrow> int \<Rightarrow> timestamp \<Rightarrow> sync_db
    \<Rightarrow> sync_db \<times> intent_result" where
  "fail_intent c sid gid tok revision p noise noise' now sd =
     (case sql_returning (fail_intent_row c sid gid tok revision p noise now) (group_intents sd) of
        [] \<Rightarrow> (sd, IntentLost)
      | i # _ \<Rightarrow> (sd\<lparr>group_intents := sql_update (fail_intent_row c sid gid tok revision p noise now) (group_intents sd),
           rate_limits := sql_update (failure_row c sid tok p noise' now) (rate_limits sd)\<rparr>,
         result_of (in_status i)))"

definition recover_intent_row :: "runtime_config \<Rightarrow> timestamp \<Rightarrow> group_intent row_update" where
  "recover_intent_row c now = sql_where (\<lambda>i. in_status i = I_RUNNING \<and> null_before (in_lease_expires_at i) now)
     (\<lambda>i. let newer = coalesce (in_claimed i) (in_completed i) < in_requested i;
              exhausted = cfg_item_max_attempts c \<le> int (in_attempt_count i) in
        i\<lparr>in_status := (if newer then I_PENDING else if exhausted then I_FAILED else I_RETRY),
          in_attempt_count := (if newer then 0 else in_attempt_count i),
          in_claimed := None, in_lease_token := None, in_lease_expires_at := None,
          in_next_attempt_at := (if newer then max (in_not_before i) now
            else if exhausted then in_next_attempt_at i else now),
          in_error_code := Some ''LEASE_EXPIRED''\<rparr>)"

definition recover_intents :: "runtime_config \<Rightarrow> timestamp \<Rightarrow> sync_db \<Rightarrow> sync_db \<times> nat" where
  "recover_intents c now sd =
     (let rows = sql_returning (recover_intent_row c now) (group_intents sd) in
      (sd\<lparr>group_intents := sql_update (recover_intent_row c now) (group_intents sd),
         rate_limits := sql_update (sweep_row (\<lambda>s. s \<in> in_session_id ` set rows) now) (rate_limits sd)\<rparr>,
       length rows))"

lemmas intent_rows = schedule_row_def claim_intent_row_def renew_intent_row_def serve_row_def
  fail_intent_row_def recover_intent_row_def intent_owned_def


section \<open>The lease of an intent\<close>

datatype intent_outcome = Serve nat "string option" | Give_up nat failure_policy int

definition settle_intent_row ::
  "runtime_config \<Rightarrow> string \<Rightarrow> string \<Rightarrow> intent_outcome \<Rightarrow> uuid \<Rightarrow> timestamp \<Rightarrow> group_intent row_update" where
  "settle_intent_row c sid gid out tok now i = (case out of
     Serve revision e \<Rightarrow> serve_row sid gid tok revision e now i
   | Give_up revision p noise \<Rightarrow> fail_intent_row c sid gid tok revision p noise now i)"

text \<open>The lease columns mean something while the intent is RUNNING.\<close>

definition intent_token :: "group_intent \<Rightarrow> uuid option" where
  "intent_token i = (if in_status i = I_RUNNING then in_lease_token i else None)"

interpretation intent_lease: renewable_row intent_token in_lease_expires_at "claim_intent_row c sid gid"
    "settle_intent_row c sid gid" "recover_intent_row c" "renew_intent_row sid gid" for c sid gid
proof unfold_locales
  fix s t now i i'
  assume "settle_intent_row c sid gid s t now i = Some i'"
  then show "intent_token i = Some t \<and> null_after (in_lease_expires_at i) now" "intent_token i' = None"
    by (auto simp: settle_intent_row_def intent_token_def intent_rows fail_status_def Let_def
        split: intent_outcome.splits)
qed (auto simp: intent_token_def intent_rows Let_def)

section \<open>What an intent remembers\<close>

definition waiting_intent :: "group_intent \<Rightarrow> bool" where
  "waiting_intent i \<longleftrightarrow> in_status i \<in> {I_PENDING, I_RETRY}"

text \<open>
  Nothing that was requested is forgotten (the two CHECK constraints of migration 017 among it), a
  waiting intent can still be claimed, and a stream of events cannot push it back for ever.
\<close>

definition intent_wf :: "runtime_config \<Rightarrow> group_intent \<Rightarrow> bool" where
  "intent_wf c i \<longleftrightarrow> in_completed i \<le> in_requested i
     \<and> (in_claimed i \<noteq> None \<longleftrightarrow> in_status i = I_RUNNING) \<and> (in_lease_token i \<noteq> None \<longleftrightarrow> in_status i = I_RUNNING)
     \<and> (in_lease_expires_at i \<noteq> None \<longleftrightarrow> in_status i = I_RUNNING)
     \<and> (\<forall>k. in_claimed i = Some k \<longrightarrow> k \<le> in_requested i)
     \<and> (in_status i = I_COMPLETED \<longrightarrow> in_completed i = in_requested i)
     \<and> (waiting_intent i \<longrightarrow> int (in_attempt_count i) < cfg_item_max_attempts c)
     \<and> in_not_before i \<le> in_first_requested_at i + cfg_event_max_wait_ms c"

definition intent_config :: "runtime_config \<Rightarrow> bool" where
  "intent_config c \<longleftrightarrow> cfg_event_debounce_ms c \<le> cfg_event_max_wait_ms c \<and> 1 \<le> cfg_item_max_attempts c"

datatype intent_op =
    ISchedule string string string timestamp
  | IClaim string string uuid timestamp
  | IRenew string string uuid timestamp
  | IComplete string string uuid nat timestamp
  | ISkip string string uuid nat timestamp
  | IFail string string uuid nat failure_policy int int timestamp
  | IRecover timestamp

fun intent_row :: "runtime_config \<Rightarrow> intent_op \<Rightarrow> group_intent row_update" where
  "intent_row c (ISchedule sid gid reason now) i = schedule_row c sid gid reason now i"
| "intent_row c (IClaim sid gid tok now) i = claim_intent_row c sid gid tok now i"
| "intent_row c (IRenew sid gid tok now) i = renew_intent_row sid gid tok now i"
| "intent_row c (IComplete sid gid tok revision now) i = serve_row sid gid tok revision None now i"
| "intent_row c (ISkip sid gid tok revision now) i =
     serve_row sid gid tok revision (Some ''GROUP_NOT_FOUND'') now i"
| "intent_row c (IFail sid gid tok revision p noise noise' now) i = fail_intent_row c sid gid tok revision p noise now i"
| "intent_row c (IRecover now) i = recover_intent_row c now i"

lemma new_intent_wf: "intent_config c \<Longrightarrow> intent_wf c (new_intent c sid gid reason now)"
  by (simp add: intent_wf_def new_intent_def intent_config_def waiting_intent_def)

lemma intent_row_wf:
  assumes "intent_row c op i = Some i'" "intent_wf c i" "intent_config c"
  shows "intent_wf c i'"
proof (cases op)
  case (ISchedule sid gid reason now)
  then show ?thesis using assms
    by (auto simp: schedule_row_def intent_wf_def intent_config_def waiting_intent_def ended_def Let_def min_def)
next
  case (IClaim sid gid tok now)
  then show ?thesis using assms by (auto simp: claim_intent_row_def intent_wf_def waiting_intent_def)
next
  case (IRenew sid gid tok now)
  then show ?thesis using assms by (auto simp: renew_intent_row_def intent_owned_def intent_wf_def waiting_intent_def)
next
  case (IComplete sid gid tok revision now)
  then show ?thesis using assms
    by (auto simp: serve_row_def intent_owned_def intent_wf_def intent_config_def waiting_intent_def Let_def)
next
  case (ISkip sid gid tok revision now)
  then show ?thesis using assms
    by (auto simp: serve_row_def intent_owned_def intent_wf_def intent_config_def waiting_intent_def Let_def)
next
  case (IFail sid gid tok revision p noise noise' now)
  then show ?thesis using assms
    by (auto simp: fail_intent_row_def intent_owned_def intent_wf_def intent_config_def waiting_intent_def
        fail_status_def Let_def)
next
  case (IRecover now)
  then show ?thesis using assms
    by (auto simp: recover_intent_row_def intent_wf_def intent_config_def waiting_intent_def Let_def)
qed

section \<open>The specification: a dirty flag\<close>

text \<open>
  A group is clean, waits to be read, is being read (with or without an event since the read began),
  or was given up.
\<close>

datatype group_work = Clean | Waiting | Reading bool | Given_up

fun requested :: "group_work \<Rightarrow> group_work" where
  "requested (Reading _) = Reading True"
| "requested _ = Waiting"

text \<open>What may happen to a group that is being read when its reader succeeds, fails or disappears.\<close>

inductive work_step :: "group_work \<Rightarrow> group_work \<Rightarrow> bool" where
  begin_read: "work_step Waiting (Reading False)"
| read_clean: "work_step (Reading False) Clean"
| read_again: "work_step (Reading True) Waiting"
| read_retry: "work_step (Reading False) Waiting"
| read_given_up: "work_step (Reading False) Given_up"
| still_reading: "work_step (Reading b) (Reading b)"

inductive_simps work_step_simps:
  "work_step Waiting w" "work_step (Reading b) w" "work_step Clean w" "work_step Given_up w"

definition abs_work :: "group_intent \<Rightarrow> group_work" where
  "abs_work i = (case in_status i of I_PENDING \<Rightarrow> Waiting | I_RETRY \<Rightarrow> Waiting
     | I_RUNNING \<Rightarrow> Reading (coalesce (in_claimed i) 0 < in_requested i)
     | I_COMPLETED \<Rightarrow> Clean | I_FAILED \<Rightarrow> Given_up)"

lemma abs_schedule:
  assumes "schedule_row c sid gid reason now i = Some i'" "intent_wf c i"
  shows "abs_work i' = requested (abs_work i)"
proof (cases "in_claimed i")
  case None
  then have "in_status i \<noteq> I_RUNNING" using assms(2) by (simp add: intent_wf_def)
  then show ?thesis using assms(1)
    by (cases "in_status i") (auto simp: schedule_row_def abs_work_def ended_def Let_def)
next
  case (Some k)
  then have "in_status i = I_RUNNING" "k \<le> in_requested i" using assms(2) by (auto simp: intent_wf_def)
  then show ?thesis using assms(1) Some
    by (auto simp: schedule_row_def abs_work_def ended_def Let_def)
qed

lemma owned_claimed:
  assumes "intent_wf c i" "in_status i = I_RUNNING"
  obtains k where "in_claimed i = Some k" "k \<le> in_requested i" "in_completed i \<le> in_requested i"
  using assms by (auto simp: intent_wf_def)

lemma abs_step:
  assumes "intent_row c op i = Some i'" "intent_wf c i" "\<And>sid gid reason now. op \<noteq> ISchedule sid gid reason now"
  shows "work_step (abs_work i) (abs_work i')"
proof (cases op)
  case (ISchedule sid gid reason now)
  then show ?thesis using assms(3) by simp
next
  case (IClaim sid gid tok now)
  then show ?thesis using assms(1)
    by (auto simp: claim_intent_row_def abs_work_def work_step_simps split: intent_status.splits)
next
  case (IRenew sid gid tok now)
  then show ?thesis using assms(1)
    by (auto simp: renew_intent_row_def intent_owned_def abs_work_def work_step_simps)
next
  case (IComplete sid gid tok revision now)
  then show ?thesis using assms(1)
    by (auto simp: serve_row_def intent_owned_def abs_work_def work_step_simps Let_def)
next
  case (ISkip sid gid tok revision now)
  then show ?thesis using assms(1)
    by (auto simp: serve_row_def intent_owned_def abs_work_def work_step_simps Let_def)
next
  case (IFail sid gid tok revision p noise noise' now)
  then show ?thesis using assms(1)
    by (auto simp: fail_intent_row_def intent_owned_def abs_work_def work_step_simps fail_status_def Let_def)
next
  case (IRecover now)
  then have "in_status i = I_RUNNING" using assms(1) by (auto simp: recover_intent_row_def)
  then obtain k where "in_claimed i = Some k" using owned_claimed [OF assms(2)] by blast
  then show ?thesis using assms(1) IRecover
    by (auto simp: recover_intent_row_def abs_work_def work_step_simps Let_def)
qed


section \<open>The operations on the tables\<close>

fun intent_apply :: "runtime_config \<Rightarrow> intent_op \<Rightarrow> sync_db \<Rightarrow> sync_db" where
  "intent_apply c (ISchedule sid gid reason now) sd =
     sd\<lparr>group_intents := fst (schedule_intent c sid gid reason now (group_intents sd))\<rparr>"
| "intent_apply c (IClaim sid gid tok now) sd = fst (claim_intent c sid gid tok now sd)"
| "intent_apply c (IRenew sid gid tok now) sd = fst (renew_intent sid gid tok now sd)"
| "intent_apply c (IComplete sid gid tok revision now) sd = fst (complete_intent c sid gid tok revision now sd)"
| "intent_apply c (ISkip sid gid tok revision now) sd = fst (skip_missing sid gid tok revision now sd)"
| "intent_apply c (IFail sid gid tok revision p noise noise' now) sd =
     fst (fail_intent c sid gid tok revision p noise noise' now sd)"
| "intent_apply c (IRecover now) sd = fst (recover_intents c now sd)"

lemma intent_row_fun:
  "intent_row c (ISchedule sid gid reason now) = schedule_row c sid gid reason now"
  "intent_row c (IClaim sid gid tok now) = claim_intent_row c sid gid tok now"
  "intent_row c (IRenew sid gid tok now) = renew_intent_row sid gid tok now"
  "intent_row c (IComplete sid gid tok revision now) = serve_row sid gid tok revision None now"
  "intent_row c (ISkip sid gid tok revision now) = serve_row sid gid tok revision (Some ''GROUP_NOT_FOUND'') now"
  "intent_row c (IFail sid gid tok revision p noise noise' now) = fail_intent_row c sid gid tok revision p noise now"
  "intent_row c (IRecover now) = recover_intent_row c now"
  by (simp_all add: fun_eq_iff)

lemma intent_row_key: "intent_row c op i = Some i' \<Longrightarrow> intent_key i' = intent_key i"
  by (cases op) (auto simp: intent_rows intent_key_def Let_def)

lemma intent_apply_rows:
  assumes "\<And>sid gid reason now. op \<noteq> ISchedule sid gid reason now"
  shows "group_intents (intent_apply c op sd) = group_intents sd
    \<or> group_intents (intent_apply c op sd) = sql_update (intent_row c op) (group_intents sd)"
  using assms
  by (cases op)
    (auto simp: claim_intent_def renew_intent_def complete_intent_def skip_missing_def fail_intent_def
      recover_intents_def intent_row_fun Let_def split: option.split list.split prod.split)

lemma intent_apply_schedule:
  obtains (inserted) "(sid, gid) \<notin> intent_key ` set (group_intents sd)"
      "group_intents (intent_apply c (ISchedule sid gid reason now) sd)
         = group_intents sd @ [new_intent c sid gid reason now]"
  | (updated) "(sid, gid) \<in> intent_key ` set (group_intents sd)"
      "group_intents (intent_apply c (ISchedule sid gid reason now) sd)
         = sql_update (schedule_row c sid gid reason now) (group_intents sd)"
proof (cases "sql_returning (schedule_row c sid gid reason now) (group_intents sd)")
  case Nil
  then have "(sid, gid) \<notin> intent_key ` set (group_intents sd)"
    by (auto simp: sql_returning_Nil_iff schedule_row_def)
  then show ?thesis using Nil by (intro inserted) (auto simp: schedule_intent_def)
next
  case (Cons i is')
  then have "(sid, gid) \<in> intent_key ` set (group_intents sd)"
    using sql_returning_Nil_iff [of "schedule_row c sid gid reason now" "group_intents sd"]
    by (force simp: schedule_row_def)
  then show ?thesis using Cons by (intro updated) (auto simp: schedule_intent_def)
qed

definition intents_wf :: "runtime_config \<Rightarrow> sync_db \<Rightarrow> bool" where
  "intents_wf c sd \<longleftrightarrow> (\<forall>i \<in> set (group_intents sd). intent_wf c i)"

lemma intents_wf_update:
  assumes "intent_config c" "intents_wf c sd" "group_intents sd' = sql_update (intent_row c op) (group_intents sd)"
  shows "intents_wf c sd'"
  using assms intent_row_wf unfolding intents_wf_def by (auto elim!: sql_update_cases)

lemma intents_wf_apply:
  assumes c: "intent_config c" and ok: "intents_wf c sd"
  shows "intents_wf c (intent_apply c op sd)"
proof (cases "\<exists>sid gid reason now. op = ISchedule sid gid reason now")
  case True
  then obtain sid gid reason now where op: "op = ISchedule sid gid reason now" by blast
  show ?thesis
  proof (cases rule: intent_apply_schedule [of sid gid sd c reason now])
    case inserted
    then show ?thesis using ok new_intent_wf [OF c] op by (auto simp: intents_wf_def)
  next
    case updated
    have "intent_row c op = schedule_row c sid gid reason now" using op by (simp add: intent_row_fun)
    then show ?thesis using intents_wf_update [OF c ok, of _ op] updated(2) op by simp
  qed
next
  case False
  then show ?thesis
    using intent_apply_rows [of op c sd] ok intents_wf_update [OF c ok, of _ op] by (auto simp: intents_wf_def)
qed

lemma intents_wf_fold: "intent_config c \<Longrightarrow> intents_wf c sd \<Longrightarrow> intents_wf c (fold (intent_apply c) ops sd)"
  by (induction ops arbitrary: sd) (simp_all add: intents_wf_apply)

text \<open>What the specification sees: the work of each group.\<close>

definition work_of :: "sync_db \<Rightarrow> string \<times> string \<Rightarrow> group_work" where
  "work_of sd k = (case find_by intent_key k (group_intents sd) of None \<Rightarrow> Clean | Some i \<Rightarrow> abs_work i)"

section \<open>Properties\<close>

text \<open>C7: Every operation on the intents implements the dirty flag of its group: an event makes a clean
  group wait and marks a group that is being read, only a waiting group is begun, a group that was
  marked while it was read waits again, and only a group without a newer event becomes clean or is
  given up; no operation touches another group, except the sweep of the groups whose reader is gone.\<close>

theorem intents_refine_dirty_flag:
  assumes "intents_wf c sd" "sd' = intent_apply c op sd"
  shows "case op of
      ISchedule sid gid reason now \<Rightarrow> work_of sd' = (work_of sd)((sid, gid) := requested (work_of sd (sid, gid)))
    | _ \<Rightarrow> \<forall>k. work_of sd' k = work_of sd k \<or> work_step (work_of sd k) (work_of sd' k)"
proof (cases "\<exists>sid gid reason now. op = ISchedule sid gid reason now")
  case True
  then obtain sid gid reason now where op: "op = ISchedule sid gid reason now" by blast
  show ?thesis
  proof (cases rule: intent_apply_schedule [of sid gid sd c reason now])
    case inserted
    then have "find_by intent_key (sid, gid) (group_intents sd) = None" by (simp add: find_by_None)
    then have "work_of sd' = (work_of sd)((sid, gid) := Waiting)" "work_of sd (sid, gid) = Clean"
      using inserted(2) op assms(2)
      by (auto simp: work_of_def find_by_append fun_eq_iff new_intent_def intent_key_def abs_work_def split: option.split)
    then show ?thesis using op by simp
  next
    case updated
    have find: "find_by intent_key k (group_intents sd') = map_option (\<lambda>i. case schedule_row c sid gid reason now i of
        None \<Rightarrow> i | Some i' \<Rightarrow> i') (find_by intent_key k (group_intents sd))" for k
      using updated(2) assms(2) op intent_row_key [of c op]
      by (simp add: find_by_sql_update [where key = intent_key and f = "schedule_row c sid gid reason now"])
    have "work_of sd' k = ((work_of sd)((sid, gid) := requested (work_of sd (sid, gid)))) k" for k
    proof (cases "find_by intent_key k (group_intents sd)")
      case None
      then have "k \<noteq> (sid, gid)" using updated(1) by (auto simp: find_by_None)
      then show ?thesis using None by (simp add: work_of_def find)
    next
      case (Some i)
      note i = find_by_Some [OF Some]
      have wf: "intent_wf c i" using assms(1) i by (simp add: intents_wf_def)
      show ?thesis
      proof (cases "schedule_row c sid gid reason now i")
        case None
        then have "k \<noteq> (sid, gid)" using i by (auto simp: schedule_row_def)
        then show ?thesis using Some None by (simp add: work_of_def find)
      next
        case (Some i')
        then have "k = (sid, gid)" using i by (auto simp: schedule_row_def)
        then show ?thesis using \<open>find_by intent_key k (group_intents sd) = Some i\<close> abs_schedule [OF Some wf] Some
          by (simp add: work_of_def find)
      qed
    qed
    then show ?thesis using op by (auto simp: fun_eq_iff)
  qed
next
  case False
  have "work_of sd' k = work_of sd k \<or> work_step (work_of sd k) (work_of sd' k)" for k
  proof (cases "group_intents sd' = group_intents sd")
    case True
    then show ?thesis by (simp add: work_of_def)
  next
    case changed: False
    then have upd: "group_intents sd' = sql_update (intent_row c op) (group_intents sd)"
      using intent_apply_rows [of op c sd] False assms(2) by blast
    have find: "find_by intent_key k (group_intents sd') = map_option (\<lambda>i. case intent_row c op i of
        None \<Rightarrow> i | Some i' \<Rightarrow> i') (find_by intent_key k (group_intents sd))"
      unfolding upd by (rule find_by_sql_update) (rule intent_row_key)
    show ?thesis
    proof (cases "find_by intent_key k (group_intents sd)")
      case None
      then show ?thesis by (simp add: work_of_def find)
    next
      case (Some i)
      have wf: "intent_wf c i" using assms(1) find_by_Some [OF Some] by (simp add: intents_wf_def)
      show ?thesis
        using Some abs_step [OF _ wf, of op] False
        by (cases "intent_row c op i") (auto simp: work_of_def find)
    qed
  qed
  then show ?thesis using False by (cases op) auto
qed


definition intent_sample :: sync_db where
  "intent_sample = \<lparr>sync_runs = [], sync_fences = [], sync_items = [],
     group_intents = [new_intent pacing_sample ''s1'' ''g1@g.us'' ''GROUP_UPDATED'' 0], rate_limits = []\<rparr>"

lemma intent_sample_config: "intent_config pacing_sample"
  by (simp add: intent_config_def pacing_sample_def parsed_config_def number_or_def sample_environment_def Let_def)

lemma intent_sample_ok: "intents_wf pacing_sample intent_sample"
  using new_intent_wf [OF intent_sample_config] by (simp add: intents_wf_def intent_sample_def)

lemma intents_refine_dirty_flag_witness:
  "work_of (intent_apply pacing_sample (ISchedule ''s1'' ''g1@g.us'' ''GROUP_UPDATED'' 5) intent_sample)
     (''s1'', ''g1@g.us'') = Waiting"
  using intents_refine_dirty_flag [OF intent_sample_ok refl, of "ISchedule ''s1'' ''g1@g.us'' ''GROUP_UPDATED'' 5"]
  by (simp add: work_of_def intent_sample_def intent_key_def new_intent_def abs_work_def)

section \<open>When a waiting intent is due\<close>

text \<open>The time of an operation and the noise that it adds to a backoff, in thousandths.\<close>

fun intent_time :: "intent_op \<Rightarrow> timestamp" where
  "intent_time (ISchedule sid gid reason now) = now"
| "intent_time (IClaim sid gid tok now) = now"
| "intent_time (IRenew sid gid tok now) = now"
| "intent_time (IComplete sid gid tok revision now) = now"
| "intent_time (ISkip sid gid tok revision now) = now"
| "intent_time (IFail sid gid tok revision p noise noise' now) = now"
| "intent_time (IRecover now) = now"

fun intent_noise :: "intent_op \<Rightarrow> int" where
  "intent_noise (IFail sid gid tok revision p noise noise' now) = noise"
| "intent_noise _ = 1000"

text \<open>The longest wait after an operation: that of a stream of events, or the longest backoff of a failure.\<close>

definition intent_patience :: "runtime_config \<Rightarrow> int" where
  "intent_patience c = max (cfg_event_max_wait_ms c) 360000"

definition intent_due :: "runtime_config \<Rightarrow> timestamp \<Rightarrow> group_intent \<Rightarrow> bool" where
  "intent_due c t i \<longleftrightarrow> in_first_requested_at i \<le> t \<and> in_next_attempt_at i \<le> t + intent_patience c"

lemma backoff_noise: "noise \<le> 1200 \<Longrightarrow> backoff_seconds n * noise \<le> 360000"
proof -
  assume n: "noise \<le> 1200"
  have b: "5 \<le> backoff_seconds n" "backoff_seconds n \<le> 300" using backoff_bounds by auto
  have "backoff_seconds n * noise \<le> backoff_seconds n * 1200" using b n by (intro mult_left_mono) simp_all
  also have "\<dots> \<le> 300 * 1200" using b by (intro mult_right_mono) simp_all
  finally show ?thesis by simp
qed

lemma intent_row_due:
  assumes "intent_row c op i = Some i'" "intent_wf c i" "intent_config c" "intent_due c t i"
    and "intent_time op \<le> t" "intent_noise op \<le> 1200"
  shows "intent_due c t i'"
proof -
  have w: "cfg_event_max_wait_ms c \<le> intent_patience c" "360000 \<le> intent_patience c" by (simp_all add: intent_patience_def)
  have nb: "in_not_before i \<le> t + intent_patience c"
    using assms(2,4) w by (simp add: intent_wf_def intent_due_def)
  show ?thesis
  proof (cases op)
    case (ISchedule sid gid reason now)
    then show ?thesis using assms w by (auto simp: schedule_row_def intent_due_def intent_config_def Let_def min_def)
  next
    case (IClaim sid gid tok now)
    then show ?thesis using assms by (auto simp: claim_intent_row_def intent_due_def)
  next
    case (IRenew sid gid tok now)
    then show ?thesis using assms by (auto simp: renew_intent_row_def intent_due_def)
  next
    case (IComplete sid gid tok revision now)
    then show ?thesis using assms w nb by (auto simp: serve_row_def intent_due_def Let_def)
  next
    case (ISkip sid gid tok revision now)
    then show ?thesis using assms w nb by (auto simp: serve_row_def intent_due_def Let_def)
  next
    case (IFail sid gid tok revision p noise noise' now)
    then have "now \<le> t" "backoff_seconds (in_attempt_count i) * noise \<le> 360000" using assms(5,6) backoff_noise by simp_all
    then show ?thesis using IFail assms(1,4) w nb by (auto simp: fail_intent_row_def intent_due_def Let_def)
  next
    case (IRecover now)
    then show ?thesis using assms w nb by (auto simp: recover_intent_row_def intent_due_def Let_def)
  qed
qed

definition intents_timely :: "runtime_config \<Rightarrow> timestamp \<Rightarrow> sync_db \<Rightarrow> bool" where
  "intents_timely c t sd \<longleftrightarrow> keyed intent_key (group_intents sd)
     \<and> (\<forall>i \<in> set (group_intents sd). intent_wf c i \<and> intent_due c t i)"

lemma intents_timely_update:
  assumes c: "intent_config c" and ok: "intents_timely c t sd" and op: "intent_time op \<le> t" "intent_noise op \<le> 1200"
    and rows: "group_intents sd' = sql_update (intent_row c op) (group_intents sd)"
  shows "intents_timely c t sd'"
proof -
  have "keyed intent_key (group_intents sd')"
    unfolding rows by (subst keyed_sql_update) (use ok in \<open>auto simp: intents_timely_def dest: intent_row_key\<close>)
  moreover have "intent_wf c i \<and> intent_due c t i" if "i \<in> set (group_intents sd')" for i
    using that ok unfolding rows intents_timely_def
    by (elim sql_update_cases) (use intent_row_wf [OF _ _ c] intent_row_due [OF _ _ c _ op] in blast)+
  ultimately show ?thesis unfolding intents_timely_def by blast
qed

lemma intents_timely_apply:
  assumes c: "intent_config c" and ok: "intents_timely c t sd" and op: "intent_time op \<le> t" "intent_noise op \<le> 1200"
  shows "intents_timely c t (intent_apply c op sd)"
proof (cases "\<exists>sid gid reason now. op = ISchedule sid gid reason now")
  case True
  then obtain sid gid reason now where s: "op = ISchedule sid gid reason now" by blast
  show ?thesis
  proof (cases rule: intent_apply_schedule [of sid gid sd c reason now])
    case inserted
    have "intent_due c t (new_intent c sid gid reason now)"
      using c op(1) s by (auto simp: intent_due_def new_intent_def intent_config_def intent_patience_def)
    then show ?thesis using ok new_intent_wf [OF c] inserted s
      by (auto simp: intents_timely_def new_intent_def intent_key_def)
  next
    case updated
    have "intent_row c op = schedule_row c sid gid reason now" using s by (simp add: intent_row_fun)
    then show ?thesis using intents_timely_update [OF c ok op] updated(2) s by simp
  qed
next
  case False
  then consider "group_intents (intent_apply c op sd) = group_intents sd"
    | "group_intents (intent_apply c op sd) = sql_update (intent_row c op) (group_intents sd)"
    using intent_apply_rows [of op c sd] by blast
  then show ?thesis
  proof cases
    case 1
    then show ?thesis using ok by (simp add: intents_timely_def)
  next
    case 2
    then show ?thesis by (rule intents_timely_update [OF c ok op])
  qed
qed

lemma intents_timely_fold:
  "intent_config c \<Longrightarrow> intents_timely c t sd \<Longrightarrow> \<forall>op \<in> set ops. intent_time op \<le> t \<and> intent_noise op \<le> 1200
    \<Longrightarrow> intents_timely c t (fold (intent_apply c) ops sd)"
  by (induction ops arbitrary: sd) (simp_all add: intents_timely_apply)

text \<open>The pacing of a session lets a read through: it has no row yet, or its row is ready.\<close>

definition pacing_ready :: "string \<Rightarrow> timestamp \<Rightarrow> rate_limit table \<Rightarrow> bool" where
  "pacing_ready sid now limits \<longleftrightarrow> (\<forall>r. limit_row sid limits = Some r \<longrightarrow> limit_ready now r)"

lemma pacing_ready_rate: "ready_and_rate c sid now (ensure_limit c sid now limits) \<noteq> None \<longleftrightarrow> pacing_ready sid now limits"
proof (cases "find_by rl_session_id sid limits")
  case None
  then have "sid \<notin> rl_session_id ` set limits" by (auto simp: find_by_None)
  then have "find_by rl_session_id sid (ensure_limit c sid now limits) = Some (new_limit c sid now)"
    using None by (simp add: ensure_limit_def find_by_append new_limit_def)
  then show ?thesis using None
    by (simp add: ready_and_rate_def pacing_ready_def limit_row_def limit_ready_def new_limit_def)
next
  case (Some r)
  then have "sid \<in> rl_session_id ` set limits" using find_by_Some by force
  moreover have "find_by rl_session_id sid (sql_update (ensure_row c sid) limits)
      = map_option (\<lambda>r. case ensure_row c sid r of None \<Rightarrow> r | Some r' \<Rightarrow> r') (find_by rl_session_id sid limits)"
    by (rule find_by_sql_update) (auto simp: ensure_row_def)
  ultimately show ?thesis using Some find_by_Some [OF Some]
    by (auto simp: ensure_limit_def ready_and_rate_def pacing_ready_def limit_row_def limit_ready_def ensure_row_def sql_where_def)
qed

lemma claim_intent_granted:
  assumes "keyed intent_key (group_intents sd)" "i \<in> set (group_intents sd)"
    and "claim_intent_row c (in_session_id i) (in_group_id i) tok now i \<noteq> None"
  shows "snd (claim_intent c (in_session_id i) (in_group_id i) tok now sd) \<noteq> None
    \<longleftrightarrow> pacing_ready (in_session_id i) now (rate_limits sd)"
proof -
  let ?f = "claim_intent_row c (in_session_id i) (in_group_id i) tok now"
  have find: "find_by intent_key (in_session_id i, in_group_id i) (group_intents sd) = Some i"
    using find_by_keyed [OF assms(1,2)] by (simp add: intent_key_def)
  have "sql_returning ?f (group_intents sd) \<noteq> []"
    unfolding sql_returning_Nil_iff using assms(2,3) by (intro notI) (drule bspec, assumption, simp)
  then show ?thesis
    unfolding pacing_ready_rate [of c, symmetric]
    by (auto simp: claim_intent_def find Let_def split: option.split list.split)
qed

text \<open>C33: Starting from an empty table, after any operations up to a time, whose noise on a backoff is at most a fifth: an
  intent that waits or is retried does not get stuck. It holds back for a stream of events no longer than the maximum wait
  past its first request; and once the maximum wait, and the six minutes of the longest backoff, have passed since that
  time, a claim of it is granted exactly when the pacing of its session allows a read. A running one is taken back by the
  first sweep after its lease, to wait again or, with its attempts used up, as failed. A completed intent has served its
  last requested revision.\<close>

theorem intents_never_stuck:
  assumes "parse_runtime_config is_uuid e = Inr c" "group_intents sd = []"
    and ops: "\<forall>op \<in> set ops. intent_time op \<le> t \<and> intent_noise op \<le> 1200"
    and sd': "sd' = fold (intent_apply c) ops sd" and i: "i \<in> set (group_intents sd')"
  shows "(in_status i = I_COMPLETED \<longrightarrow> in_completed i = in_requested i)
    \<and> in_not_before i \<le> in_first_requested_at i + cfg_event_max_wait_ms c
    \<and> (waiting_intent i \<longrightarrow> (\<forall>tok now. t + max (cfg_event_max_wait_ms c) 360000 \<le> now \<longrightarrow>
         (snd (claim_intent c (in_session_id i) (in_group_id i) tok now sd') \<noteq> None
           \<longleftrightarrow> pacing_ready (in_session_id i) now (rate_limits sd'))))
    \<and> (in_status i = I_RUNNING \<longrightarrow> (\<exists>u. in_lease_expires_at i = Some u
         \<and> (\<forall>now > u. \<exists>i'. recover_intent_row c now i = Some i' \<and> in_status i' \<in> {I_PENDING, I_RETRY, I_FAILED})))"
proof -
  have c: "intent_config c" using parsed_refined [OF assms(1)] by (simp add: intent_config_def)
  have "intents_timely c t sd" using assms(2) by (simp add: intents_timely_def keyed_def)
  from intents_timely_fold [OF c this ops] have keyed: "keyed intent_key (group_intents sd')"
    and wf: "intent_wf c i" and due: "intent_due c t i" using i by (auto simp: intents_timely_def sd')
  have "snd (claim_intent c (in_session_id i) (in_group_id i) tok now sd') \<noteq> None
      \<longleftrightarrow> pacing_ready (in_session_id i) now (rate_limits sd')"
    if w: "waiting_intent i" and now: "t + max (cfg_event_max_wait_ms c) 360000 \<le> now" for tok now
  proof (rule claim_intent_granted [OF keyed i])
    have "in_next_attempt_at i \<le> now" "in_not_before i \<le> now"
      using due now wf by (auto simp: intent_due_def intent_patience_def intent_wf_def)
    then show "claim_intent_row c (in_session_id i) (in_group_id i) tok now i \<noteq> None"
      using wf w by (auto simp: claim_intent_row_def intent_wf_def waiting_intent_def intent_key_def sql_where_def)
  qed
  moreover have "\<exists>u. in_lease_expires_at i = Some u
      \<and> (\<forall>now > u. \<exists>i'. recover_intent_row c now i = Some i' \<and> in_status i' \<in> {I_PENDING, I_RETRY, I_FAILED})"
    if "in_status i = I_RUNNING"
    using wf that by (cases "in_lease_expires_at i")
      (auto simp: intent_wf_def recover_intent_row_def sql_where_def Let_def)
  ultimately show ?thesis using wf by (simp add: intent_wf_def)
qed

lemma intents_never_stuck_witness:
  "in_not_before (new_intent pacing_sample ''s1'' ''g1@g.us'' ''GROUP_UPDATED'' 0) \<le> 10000"
proof -
  let ?empty = "intent_sample\<lparr>group_intents := []\<rparr>"
  have "new_intent pacing_sample ''s1'' ''g1@g.us'' ''GROUP_UPDATED'' 0
      \<in> set (group_intents (fold (intent_apply pacing_sample) [ISchedule ''s1'' ''g1@g.us'' ''GROUP_UPDATED'' 0] ?empty))"
    by (simp add: schedule_intent_def)
  from intents_never_stuck [OF sample_environment_parses [folded pacing_sample_def] _ _ refl this, of 0]
  show ?thesis
    by (simp add: pacing_sample_def new_intent_def parsed_config_def number_or_def sample_environment_def Let_def)
qed

end
