(* ===== verification/Sync_Progress.thy ===== *)
theory Sync_Progress
  imports Sync_Items Group_Intents
begin

text \<open>
  The synchronization as a whole: the statements of the runs, items, intents and pacing interleaved in
  any order, the invariant that ties a run to its epoch and to its items, and what it gives.
\<close>

section \<open>Operations\<close>

datatype sync_op =
    SCreate uuid string sync_mode timestamp
  | SRecover timestamp
  | SClaim uuid uuid timestamp
  | SRenew uuid uuid timestamp
  | SComplete uuid uuid nat nat timestamp
  | SFail uuid uuid nat nat string timestamp
  | SPublish "string \<Rightarrow> uuid" sync_write_fence string sync_mode "group_summary list" timestamp timestamp
  | SItemClaim uuid uuid timestamp
  | SItemRenew uuid uuid timestamp
  | SItemComplete uuid uuid nat timestamp
  | SItemSkip uuid uuid string timestamp
  | SItemFail uuid uuid string failure_policy int int timestamp
  | SItemRecover timestamp
  | SIntent intent_op
  | SPacing pacing_op
  | SGateway "gateway_session table" "gateway_group table"

definition on_sync :: "(sync_db \<Rightarrow> sync_db) \<Rightarrow> gateway_db \<Rightarrow> gateway_db" where
  "on_sync f g = g\<lparr>gw_sync := f (gw_sync g)\<rparr>"

definition on_runs :: "(sync_run table \<Rightarrow> sync_run table) \<Rightarrow> gateway_db \<Rightarrow> gateway_db" where
  "on_runs f = on_sync (\<lambda>sd. sd\<lparr>sync_runs := f (sync_runs sd)\<rparr>)"

fun sync_apply ::
  "runtime_config \<Rightarrow> (summary_fields \<Rightarrow> string) \<Rightarrow> (string list \<Rightarrow> string) \<Rightarrow> sync_op \<Rightarrow> gateway_db \<Rightarrow> gateway_db" where
  "sync_apply c dg idg (SCreate rid sid mode now) g = on_runs (\<lambda>rs. fst (create_sync_run rid sid mode now rs)) g"
| "sync_apply c dg idg (SRecover now) g = on_runs (\<lambda>rs. fst (recover_sync_runs now rs)) g"
| "sync_apply c dg idg (SClaim rid tok now) g = on_sync (\<lambda>sd. fst (claim_sync_run rid tok now sd)) g"
| "sync_apply c dg idg (SRenew rid tok now) g = on_runs (\<lambda>rs. fst (renew_sync_lease rid tok now rs)) g"
| "sync_apply c dg idg (SComplete rid tok n m now) g = on_runs (\<lambda>rs. fst (complete_sync rid tok n m now rs)) g"
| "sync_apply c dg idg (SFail rid tok n m e now) g = on_runs (\<lambda>rs. fst (fail_sync_attempt rid tok n m e now rs)) g"
| "sync_apply c dg idg (SPublish ids w sid mode groups wall now) g =
     fst (publish_discovery c dg idg ids w sid mode groups wall now g)"
| "sync_apply c dg idg (SItemClaim xid tok now) g = on_sync (\<lambda>sd. fst (claim_item c xid tok now sd)) g"
| "sync_apply c dg idg (SItemRenew xid tok now) g = on_sync (\<lambda>sd. fst (renew_item xid tok now sd)) g"
| "sync_apply c dg idg (SItemComplete xid tok m now) g = fst (complete_item c xid tok m now g)"
| "sync_apply c dg idg (SItemSkip xid tok e now) g = on_sync (\<lambda>sd. fst (skip_item xid tok e now sd)) g"
| "sync_apply c dg idg (SItemFail xid tok e p noise noise' now) g =
     on_sync (\<lambda>sd. fst (fail_item c xid tok e p noise noise' now sd)) g"
| "sync_apply c dg idg (SItemRecover now) g = on_sync (\<lambda>sd. fst (recover_items c now sd)) g"
| "sync_apply c dg idg (SIntent op) g = on_sync (intent_apply c op) g"
| "sync_apply c dg idg (SPacing op) g = on_sync (\<lambda>sd. sd\<lparr>rate_limits := pacing_apply c op (rate_limits sd)\<rparr>) g"
| "sync_apply c dg idg (SGateway ss gs) g = g\<lparr>gw_sessions := ss, gw_groups := gs\<rparr>"

text \<open>New runs and items get new identifiers.\<close>

fun sync_op_ok :: "sync_op \<Rightarrow> gateway_db \<Rightarrow> bool" where
  "sync_op_ok (SCreate rid sid mode now) g = (rid \<notin> sr_id ` set (sync_runs (gw_sync g))
     \<and> rid \<notin> si_run_id ` set (sync_items (gw_sync g)))"
| "sync_op_ok (SPublish ids w sid mode groups wall now) g =
     (inj_on ids (gsu_id ` set groups) \<and> ids ` gsu_id ` set groups \<inter> si_id ` set (sync_items (gw_sync g)) = {})"
| "sync_op_ok _ g = True"

primrec sync_ops_ok ::
  "runtime_config \<Rightarrow> (summary_fields \<Rightarrow> string) \<Rightarrow> (string list \<Rightarrow> string) \<Rightarrow> sync_op list \<Rightarrow> gateway_db \<Rightarrow> bool" where
  "sync_ops_ok c dg idg [] g = True"
| "sync_ops_ok c dg idg (op # ops) g = (sync_op_ok op g \<and> sync_ops_ok c dg idg ops (sync_apply c dg idg op g))"

section \<open>The invariant\<close>

definition counts_agree :: "sync_item table \<Rightarrow> sync_run \<Rightarrow> bool" where
  "counts_agree items r \<longleftrightarrow> sr_synced r = items_in {SI_COMPLETED} (sr_id r) items
     \<and> sr_failed r = items_in {SI_FAILED} (sr_id r) items \<and> sr_skipped r = items_in {SI_SKIPPED} (sr_id r) items
     \<and> sr_members r = members_of (sr_id r) items"

fun phase_ok :: "sync_phase \<Rightarrow> sync_item table \<Rightarrow> sync_run \<Rightarrow> bool" where
  "phase_ok DISCOVERING items r \<longleftrightarrow> run_items (sr_id r) items = []
     \<and> (sr_status r = SY_RUNNING \<longrightarrow> sr_synced r = 0 \<and> sr_failed r = 0 \<and> sr_skipped r = 0 \<and> sr_members r = 0)"
| "phase_ok RECONCILING items r \<longleftrightarrow> sr_status r = SY_RUNNING \<and> sr_lease_token r = None
     \<and> sr_lease_expires_at r = None \<and> 0 < items_in items_open (sr_id r) items \<and> counts_agree items r"
| "phase_ok PHASE_COMPLETED items r \<longleftrightarrow> items_in items_open (sr_id r) items = 0
     \<and> sr_status r = (if 0 < items_in {SI_FAILED} (sr_id r) items then SY_FAILED else SY_COMPLETED)
     \<and> counts_agree items r"

definition run_ok :: "sync_item table \<Rightarrow> sync_run \<Rightarrow> bool" where
  "run_ok items r \<longleftrightarrow> phase_ok (sr_phase r) items r \<and> sr_attempt_count r \<le> 3
     \<and> (sr_status r = SY_PENDING \<longrightarrow> sr_phase r = DISCOVERING \<and> sr_attempt_count r < 3)"

definition fence_ok :: "sync_run table \<Rightarrow> sync_fence table \<Rightarrow> bool" where
  "fence_ok rs fs \<longleftrightarrow> keyed sr_id rs \<and> keyed sf_session_id fs
     \<and> (\<forall>r \<in> set rs. \<forall>r' \<in> set rs. sync_active r \<and> sync_active r' \<and> sr_session_id r = sr_session_id r' \<longrightarrow> r = r')
     \<and> (\<forall>r \<in> set rs. sr_status r = SY_RUNNING \<longrightarrow>
          (\<exists>e. sr_epoch r = Some e \<and> epoch_current (sr_session_id r) e fs))"

definition items_ok :: "sync_run table \<Rightarrow> sync_item table \<Rightarrow> bool" where
  "items_ok rs items \<longleftrightarrow> keyed si_id items \<and> (\<forall>r \<in> set rs. run_ok items r)
     \<and> (\<forall>x \<in> set items. \<exists>r \<in> set rs. sr_id r = si_run_id x \<and> sr_session_id r = si_session_id x)"

definition sync_ok :: "gateway_db \<Rightarrow> bool" where
  "sync_ok g \<longleftrightarrow> fence_ok (sync_runs (gw_sync g)) (sync_fences (gw_sync g))
     \<and> items_ok (sync_runs (gw_sync g)) (sync_items (gw_sync g))"


section \<open>Runs\<close>

text \<open>Every statement but the claim leaves the RUNNING runs among those that ran, in their epoch.\<close>

definition quiet :: "sync_run row_update \<Rightarrow> bool" where
  "quiet f \<longleftrightarrow> (\<forall>r r'. f r = Some r' \<longrightarrow> sr_id r' = sr_id r \<and> sr_session_id r' = sr_session_id r
     \<and> (sync_active r' \<longrightarrow> sync_active r)
     \<and> (sr_status r' = SY_RUNNING \<longrightarrow> sr_status r = SY_RUNNING \<and> sr_epoch r' = sr_epoch r))"

lemma quiet_after:
  assumes "quiet f"
  shows "sr_id (row_after f r) = sr_id r" "sr_session_id (row_after f r) = sr_session_id r"
    "sync_active (row_after f r) \<Longrightarrow> sync_active r"
    "sr_status (row_after f r) = SY_RUNNING \<Longrightarrow> sr_status r = SY_RUNNING \<and> sr_epoch (row_after f r) = sr_epoch r"
  using assms by (auto simp: quiet_def row_after_def split: option.splits)

lemma quiet_rows:
  "quiet (recover_sync_row now)" "quiet (renew_sync_row rid tok now)"
  "quiet (complete_sync_row rid tok n m now)" "quiet (fail_sync_row rid tok n m e now)"
  "quiet (publish_run_row rid tok n m now)" "quiet (parent_row rid items now)"
  by (auto simp: quiet_def sync_rows sync_active_def publish_run_row_def parent_row_def Let_def split: if_splits)

lemma fence_okD:
  assumes "fence_ok rs fs"
  shows "keyed sr_id rs" "keyed sf_session_id fs"
    and "r \<in> set rs \<Longrightarrow> r' \<in> set rs \<Longrightarrow> sync_active r \<Longrightarrow> sync_active r' \<Longrightarrow> sr_session_id r = sr_session_id r' \<Longrightarrow> r = r'"
    and "r \<in> set rs \<Longrightarrow> sr_status r = SY_RUNNING \<Longrightarrow> \<exists>e. sr_epoch r = Some e \<and> epoch_current (sr_session_id r) e fs"
  using assms unfolding fence_ok_def by blast+

lemma fence_okI:
  assumes "keyed sr_id rs" "keyed sf_session_id fs"
    and "\<And>r r'. r \<in> set rs \<Longrightarrow> r' \<in> set rs \<Longrightarrow> sync_active r \<Longrightarrow> sync_active r' \<Longrightarrow> sr_session_id r = sr_session_id r' \<Longrightarrow> r = r'"
    and "\<And>r. r \<in> set rs \<Longrightarrow> sr_status r = SY_RUNNING \<Longrightarrow> \<exists>e. sr_epoch r = Some e \<and> epoch_current (sr_session_id r) e fs"
  shows "fence_ok rs fs"
  using assms unfolding fence_ok_def by blast

lemma keyed_row_after: "(\<And>r. key (row_after f r) = key r) \<Longrightarrow> keyed key (sql_update f rs) = keyed key rs"
  by (simp add: keyed_def map_after comp_def)

lemma fence_ok_quiet:
  assumes ok: "fence_ok rs fs" and f: "quiet f"
  shows "fence_ok (sql_update f rs) fs"
proof (rule fence_okI)
  note after = quiet_after [OF f]
  show "keyed sr_id (sql_update f rs)" "keyed sf_session_id fs"
    using fence_okD(1,2) [OF ok] after(1) by (simp_all add: keyed_row_after)
  show "r = r'" if "r \<in> set (sql_update f rs)" "r' \<in> set (sql_update f rs)" "sync_active r" "sync_active r'"
    "sr_session_id r = sr_session_id r'" for r r'
  proof -
    obtain x x' where "x \<in> set rs" "r = row_after f x" "x' \<in> set rs" "r' = row_after f x'"
      using \<open>r \<in> _\<close> \<open>r' \<in> _\<close> by (auto simp: set_sql_update_after)
    then show ?thesis using that(3-5) fence_okD(3) [OF ok, of x x'] after(2,3) by simp
  qed
  show "\<exists>e. sr_epoch r = Some e \<and> epoch_current (sr_session_id r) e fs"
    if "r \<in> set (sql_update f rs)" "sr_status r = SY_RUNNING" for r
  proof -
    obtain x where "x \<in> set rs" "r = row_after f x" using \<open>r \<in> _\<close> by (auto simp: set_sql_update_after)
    then show ?thesis using that(2) fence_okD(4) [OF ok, of x] after(2,4) by simp
  qed
qed

text \<open>A deferral returns only the run that has the lease to PENDING.\<close>

lemma fence_ok_defer:
  assumes ok: "fence_ok rs fs" and r: "r \<in> set rs" "sr_id r = rid" "sr_status r = SY_RUNNING"
  shows "fence_ok (sql_update (defer_run_row rid tok now) rs) fs"
proof (rule fence_okI)
  let ?f = "defer_run_row rid tok now"
  have same: "sr_id (row_after ?f x) = sr_id x" "sr_session_id (row_after ?f x) = sr_session_id x"
    "sr_status (row_after ?f x) = SY_RUNNING \<Longrightarrow> row_after ?f x = x" for x
    by (auto simp: row_after_def defer_run_row_def sql_where_def split: if_splits)
  have active: "sync_active x" if "x \<in> set rs" "sync_active (row_after ?f x)" for x
  proof (cases "sr_id x = rid")
    case True
    then have "x = r" using keyed_inj [OF fence_okD(1) [OF ok] that(1) r(1)] r(2) by simp
    then show ?thesis using r(3) by (simp add: sync_active_def)
  next
    case False
    then show ?thesis using that(2) by (simp add: row_after_def defer_run_row_def sql_where_def)
  qed
  show "keyed sr_id (sql_update ?f rs)" "keyed sf_session_id fs"
    using fence_okD(1,2) [OF ok] same by (simp_all add: keyed_row_after)
  show "x = x'" if "x \<in> set (sql_update ?f rs)" "x' \<in> set (sql_update ?f rs)" "sync_active x" "sync_active x'"
    "sr_session_id x = sr_session_id x'" for x x'
  proof -
    obtain y y' where "y \<in> set rs" "x = row_after ?f y" "y' \<in> set rs" "x' = row_after ?f y'"
      using \<open>x \<in> _\<close> \<open>x' \<in> _\<close> by (auto simp: set_sql_update_after)
    then show ?thesis using that(3-5) fence_okD(3) [OF ok, of y y'] active same(2) by simp
  qed
  show "\<exists>e. sr_epoch x = Some e \<and> epoch_current (sr_session_id x) e fs"
    if "x \<in> set (sql_update ?f rs)" "sr_status x = SY_RUNNING" for x
  proof -
    obtain y where "y \<in> set rs" "x = row_after ?f y" using \<open>x \<in> _\<close> by (auto simp: set_sql_update_after)
    moreover from this have "x = y" using that(2) same(3) by simp
    ultimately show ?thesis using that(2) fence_okD(4) [OF ok, of y] by simp
  qed
qed

lemma fence_ok_create:
  assumes ok: "fence_ok rs fs" and "rid \<notin> sr_id ` set rs"
  shows "fence_ok (fst (create_sync_run rid sid mode now rs)) fs"
proof (cases "sql_top 1 sr_requested_at (\<lambda>r. sr_session_id r = sid \<and> sync_active r) rs")
  case Nil
  have free: "\<not> (sr_session_id r = sid \<and> sync_active r)" if "r \<in> set rs" for r
    using sql_top_short_all [of 1 sr_requested_at "\<lambda>r. sr_session_id r = sid \<and> sync_active r" rs] Nil that by auto
  have "fence_ok (rs @ [new_sync_run rid sid mode now]) fs"
  proof (rule fence_okI)
    show "r = r'" if "r \<in> set (rs @ [new_sync_run rid sid mode now])" "r' \<in> set (rs @ [new_sync_run rid sid mode now])"
      "sync_active r" "sync_active r'" "sr_session_id r = sr_session_id r'" for r r'
      using that fence_okD(3) [OF ok, of r r'] free [of r] free [of r'] by (auto simp: new_sync_run_def)
  qed (use fence_okD [OF ok] assms(2) in \<open>auto simp: new_sync_run_def\<close>)
  then show ?thesis using Nil by (simp add: create_sync_run_def)
next
  case (Cons r rest)
  then show ?thesis using ok by (simp add: create_sync_run_def)
qed

lemma epoch_current_of: "keyed sf_session_id fs \<Longrightarrow> epoch_current sid e fs \<Longrightarrow> epoch_of sid fs = e"
  by (auto simp: epoch_current_def epoch_of_def find_by_keyed)

text \<open>The two outcomes of a claim.\<close>

lemma claim_sync_cases:
  obtains (refused) "fst (claim_sync_run rid tok now sd) = sd" "snd (claim_sync_run rid tok now sd) = None"
  | (free) sid where "fst (claim_sync_run rid tok now sd)
        = sd\<lparr>sync_fences := sql_insert_new sf_session_id \<lparr>sf_session_id = sid, sf_epoch = 0\<rparr> (sync_fences sd)\<rparr>"
      "snd (claim_sync_run rid tok now sd) = None"
  | (granted) r0 fs f where "find_by sr_id rid (sync_runs sd) = Some r0"
      "fs = sql_insert_new sf_session_id \<lparr>sf_session_id = sr_session_id r0, sf_epoch = 0\<rparr> (sync_fences sd)"
      "f = claim_sync_row rid (epoch_of (sr_session_id r0) fs + 1) (session_running (sync_runs sd)) tok now"
      "\<exists>r \<in> set (sync_runs sd). f r \<noteq> None"
      "fst (claim_sync_run rid tok now sd) = sd\<lparr>sync_runs := sql_update f (sync_runs sd),
         sync_fences := sql_update (sql_where (\<lambda>x. sf_session_id x = sr_session_id r0)
           (\<lambda>x. x\<lparr>sf_epoch := epoch_of (sr_session_id r0) fs + 1\<rparr>)) fs\<rparr>"
      "\<exists>n. snd (claim_sync_run rid tok now sd) = Some \<lparr>cs_session_id = sr_session_id r0, cs_token = tok,
         cs_attempt = n, cs_epoch = epoch_of (sr_session_id r0) fs + 1\<rparr>"
proof (cases "find_by sr_id rid (sync_runs sd)")
  case None
  then show ?thesis by (intro refused) (simp_all add: claim_sync_run_def)
next
  case (Some r0)
  let ?fs = "sql_insert_new sf_session_id \<lparr>sf_session_id = sr_session_id r0, sf_epoch = 0\<rparr> (sync_fences sd)"
  let ?f = "claim_sync_row rid (epoch_of (sr_session_id r0) ?fs + 1) (session_running (sync_runs sd)) tok now"
  show ?thesis
  proof (cases "sql_returning ?f (sync_runs sd)")
    case Nil
    then show ?thesis using Some by (intro free [of "sr_session_id r0"]) (simp_all add: claim_sync_run_def Let_def)
  next
    case (Cons r rest)
    then have "\<exists>r \<in> set (sync_runs sd). ?f r \<noteq> None"
      using sql_returning_Nil_iff [of ?f "sync_runs sd"] by (metis list.distinct(1))
    then show ?thesis using Some Cons by (intro granted [OF Some refl refl]) (simp_all add: claim_sync_run_def Let_def)
  qed
qed

lemma epoch_of_insert: "epoch_of s (sql_insert_new sf_session_id \<lparr>sf_session_id = sid, sf_epoch = 0\<rparr> fs) = epoch_of s fs"
proof (cases "sid \<in> sf_session_id ` set fs")
  case False
  then have "find_by sf_session_id sid fs = None" by (simp add: find_by_None)
  then show ?thesis using False
    by (auto simp: sql_insert_new_def epoch_of_def find_by_append split: option.split)
qed (simp add: sql_insert_new_def)

lemma epoch_of_raise:
  assumes "sid \<in> sf_session_id ` set fs"
  shows "epoch_of s (sql_update (sql_where (\<lambda>x. sf_session_id x = sid) (\<lambda>x. x\<lparr>sf_epoch := e\<rparr>)) fs)
    = (if s = sid then e else epoch_of s fs)"
proof -
  let ?f = "sql_where (\<lambda>x. sf_session_id x = sid) (\<lambda>x. x\<lparr>sf_epoch := e\<rparr>) :: sync_fence row_update"
  have "find_by sf_session_id s (sql_update ?f fs)
      = map_option (\<lambda>r. case ?f r of None \<Rightarrow> r | Some r' \<Rightarrow> r') (find_by sf_session_id s fs)"
    by (rule find_by_sql_update) auto
  moreover have "(\<lambda>r. case ?f r of None \<Rightarrow> r | Some r' \<Rightarrow> r') = (\<lambda>x. if sf_session_id x = sid then x\<lparr>sf_epoch := e\<rparr> else x)"
    by (simp add: sql_where_def fun_eq_iff)
  ultimately have find: "find_by sf_session_id s (sql_update ?f fs)
      = map_option (\<lambda>x. if sf_session_id x = sid then x\<lparr>sf_epoch := e\<rparr> else x) (find_by sf_session_id s fs)"
    by (simp only:)
  show ?thesis
  proof (cases "find_by sf_session_id s fs")
    case None
    have "s \<noteq> sid" using None assms unfolding find_by_None by blast
    then show ?thesis using None by (simp add: epoch_of_def find)
  next
    case (Some x)
    then show ?thesis using find_by_Some [OF Some] by (auto simp: epoch_of_def find)
  qed
qed

lemma inserted_fence:
  "sid \<in> sf_session_id ` set (sql_insert_new sf_session_id \<lparr>sf_session_id = sid, sf_epoch = 0\<rparr> fs)"
  by (auto simp: sql_insert_new_def)

lemma epoch_current_iff:
  "keyed sf_session_id fs \<Longrightarrow> epoch_current sid e fs \<longleftrightarrow> sid \<in> sf_session_id ` set fs \<and> epoch_of sid fs = e"
  by (auto simp: epoch_current_def epoch_of_def find_by_keyed)


lemma fence_ok_claim:
  assumes ok: "fence_ok (sync_runs sd) (sync_fences sd)"
  shows "fence_ok (sync_runs (fst (claim_sync_run rid tok now sd))) (sync_fences (fst (claim_sync_run rid tok now sd)))"
proof -
  have insert: "fence_ok (sync_runs sd) (sql_insert_new sf_session_id \<lparr>sf_session_id = sid, sf_epoch = 0\<rparr> (sync_fences sd))"
    (is "fence_ok _ ?fs") for sid
  proof (rule fence_okI)
    show "\<exists>e. sr_epoch r = Some e \<and> epoch_current (sr_session_id r) e ?fs"
      if "r \<in> set (sync_runs sd)" "sr_status r = SY_RUNNING" for r
      using fence_okD(4) [OF ok that] by (auto simp: epoch_current_def sql_insert_new_def)
  qed (use fence_okD [OF ok] in auto)
  show ?thesis
  proof (cases rule: claim_sync_cases [of rid tok now sd])
    case refused
    then show ?thesis using ok by simp
  next
    case (free sid)
    then show ?thesis using insert by simp
  next
    case (granted r0 fs f)
    note r0 = find_by_Some [OF granted(1)]
    let ?e = "epoch_of (sr_session_id r0) fs + 1"
    let ?fs = "sql_update (sql_where (\<lambda>x. sf_session_id x = sr_session_id r0) (\<lambda>x. x\<lparr>sf_epoch := ?e\<rparr>)) fs"
    have fs: "fence_ok (sync_runs sd) fs" using insert granted(2) by simp
    obtain r where r: "r \<in> set (sync_runs sd)" "f r \<noteq> None" using granted(4) by blast
    have "sr_id r = rid" using r(2) unfolding granted(3) claim_sync_row_def sql_where_None by blast
    with r0 have "r = r0" using keyed_inj [OF fence_okD(1) [OF ok] r(1)] by metis
    then have idle: "\<not> session_running (sync_runs sd) (sr_session_id r0)" and pend: "sr_status r0 = SY_PENDING"
      using r(2) unfolding granted(3) claim_sync_row_def sql_where_None by blast+
    have keep: "sr_id (row_after f x) = sr_id x" "sr_session_id (row_after f x) = sr_session_id x"
      "sync_active (row_after f x) \<Longrightarrow> sync_active x" "sr_status (row_after f x) = SY_RUNNING \<Longrightarrow>
        sr_status x = SY_RUNNING \<and> row_after f x = x \<or> sr_id x = rid \<and> sr_epoch (row_after f x) = Some ?e" for x
      using granted(3) by (auto simp: row_after_def claim_sync_row_def sync_active_def sql_where_def split: if_splits)
    have keyed_fs: "keyed sf_session_id ?fs" using fence_okD(2) [OF fs] by (subst keyed_sql_update) auto
    have here: "sr_session_id r0 \<in> sf_session_id ` set fs" using granted(2) inserted_fence by simp
    have "map sf_session_id ?fs = map sf_session_id fs" by (rule map_sql_update_key) auto
    then have mem: "x \<in> sf_session_id ` set ?fs \<longleftrightarrow> x \<in> sf_session_id ` set fs" for x
      by (metis list.set_map)
    have cur: "epoch_current s e ?fs \<longleftrightarrow> (if s = sr_session_id r0 then e = ?e else epoch_current s e fs)" for s e
      unfolding epoch_current_iff [OF keyed_fs] epoch_current_iff [OF fence_okD(2) [OF fs]] mem
        epoch_of_raise [OF here]
      using here by (cases "s = sr_session_id r0") auto
    have "fence_ok (sql_update f (sync_runs sd)) ?fs"
    proof (rule fence_okI)
      show "keyed sr_id (sql_update f (sync_runs sd))" using fence_okD(1) [OF ok] keep(1) by (simp add: keyed_row_after)
      show "keyed sf_session_id ?fs" by (rule keyed_fs)
      show "x = x'" if "x \<in> set (sql_update f (sync_runs sd))" "x' \<in> set (sql_update f (sync_runs sd))"
        "sync_active x" "sync_active x'" "sr_session_id x = sr_session_id x'" for x x'
      proof -
        obtain y y' where "y \<in> set (sync_runs sd)" "x = row_after f y" "y' \<in> set (sync_runs sd)" "x' = row_after f y'"
          using \<open>x \<in> _\<close> \<open>x' \<in> _\<close> by (auto simp: set_sql_update_after)
        then show ?thesis using that(3-5) fence_okD(3) [OF ok, of y y'] keep(2,3) by simp
      qed
      show "\<exists>e. sr_epoch x = Some e \<and> epoch_current (sr_session_id x) e ?fs"
        if "x \<in> set (sql_update f (sync_runs sd))" "sr_status x = SY_RUNNING" for x
      proof -
        obtain y where y: "y \<in> set (sync_runs sd)" "x = row_after f y"
          using \<open>x \<in> _\<close> by (auto simp: set_sql_update_after)
        have "sr_status (row_after f y) = SY_RUNNING" using that(2) y(2) by simp
        from keep(4) [OF this] consider (old) "sr_status y = SY_RUNNING" "row_after f y = y"
          | (new) "sr_id y = rid" "sr_epoch (row_after f y) = Some ?e" by blast
        then show ?thesis
        proof cases
          case old
          then have "sr_session_id y \<noteq> sr_session_id r0" using idle y(1) by (auto simp: session_running_def)
          then show ?thesis using fence_okD(4) [OF fs y(1) old(1)] old(2) y(2) cur by simp
        next
          case new
          with r0 have "y = r0" using keyed_inj [OF fence_okD(1) [OF ok] y(1)] by metis
          then show ?thesis using new(2) y(2) cur keep(2) by simp
        qed
      qed
    qed
    then show ?thesis using granted(5) by simp
  qed
qed


section \<open>Runs and their items\<close>

lemma items_okD:
  assumes "items_ok rs items"
  shows "keyed si_id items" "r \<in> set rs \<Longrightarrow> run_ok items r"
    and "x \<in> set items \<Longrightarrow> \<exists>r \<in> set rs. sr_id r = si_run_id x \<and> sr_session_id r = si_session_id x"
  using assms unfolding items_ok_def by blast+

lemma items_ok_runs:
  assumes ok: "items_ok rs items"
    and f: "\<And>r r'. r \<in> set rs \<Longrightarrow> f r = Some r' \<Longrightarrow> run_ok items r' \<and> sr_id r' = sr_id r \<and> sr_session_id r' = sr_session_id r"
  shows "items_ok (sql_update f rs) items"
proof -
  have "run_ok items r" if "r \<in> set (sql_update f rs)" for r
    using that f items_okD(2) [OF ok] by (auto elim!: sql_update_cases)
  moreover have "\<exists>r \<in> set (sql_update f rs). sr_id r = si_run_id x \<and> sr_session_id r = si_session_id x"
    if x: "x \<in> set items" for x
  proof -
    obtain r where r: "r \<in> set rs" "sr_id r = si_run_id x" "sr_session_id r = si_session_id x"
      using items_okD(3) [OF ok x] by blast
    have "row_after f r \<in> set (sql_update f rs)" using r(1) by (simp add: set_sql_update_after)
    moreover have "sr_id (row_after f r) = sr_id r" "sr_session_id (row_after f r) = sr_session_id r"
    proof -
      have "sr_id (row_after f r) = sr_id r \<and> sr_session_id (row_after f r) = sr_session_id r"
      proof (cases "f r")
        case (Some r')
        then show ?thesis using f [OF r(1) Some] by (simp add: row_after_def)
      qed (simp add: row_after_def)
      then show "sr_id (row_after f r) = sr_id r" "sr_session_id (row_after f r) = sr_session_id r" by blast+
    qed
    ultimately show ?thesis using r by metis
  qed
  ultimately show ?thesis using items_okD(1) [OF ok] by (simp add: items_ok_def)
qed

text \<open>A run that holds a lease is discovering.\<close>

lemma leased_discovering:
  assumes "run_ok items r" "sr_status r = SY_RUNNING" "sr_lease_token r \<noteq> None \<or> sr_lease_expires_at r \<noteq> None"
  shows "sr_phase r = DISCOVERING"
  using assms by (cases "sr_phase r") (auto simp: run_ok_def split: if_splits)

lemma null_before_Some: "null_before t now \<Longrightarrow> t \<noteq> None"
  by (cases t) auto

lemma run_ok_rows:
  assumes "run_ok items r"
  shows "recover_sync_row now r = Some r' \<Longrightarrow> run_ok items r'"
    and "claim_sync_row rid e busy tok now r = Some r' \<Longrightarrow> run_ok items r'"
    and "renew_sync_row rid tok now r = Some r' \<Longrightarrow> run_ok items r'"
    and "complete_sync_row rid tok n m now r = Some r' \<Longrightarrow> run_ok items r'"
    and "fail_sync_row rid tok n m msg now r = Some r' \<Longrightarrow> run_ok items r'"
proof -
  have disc: "sr_phase r = DISCOVERING"
    if "sr_status r = SY_RUNNING" "sr_lease_token r \<noteq> None \<or> sr_lease_expires_at r \<noteq> None"
    using leased_discovering [OF assms] that .
  show "recover_sync_row now r = Some r' \<Longrightarrow> run_ok items r'"
    using assms disc null_before_Some by (auto simp: recover_sync_row_def run_ok_def Let_def)
  show "claim_sync_row rid e busy tok now r = Some r' \<Longrightarrow> run_ok items r'"
    using assms by (auto simp: claim_sync_row_def run_ok_def)
  show "renew_sync_row rid tok now r = Some r' \<Longrightarrow> run_ok items r'"
    using assms disc by (auto simp: renew_sync_row_def sync_owned_def run_ok_def)
  show "complete_sync_row rid tok n m now r = Some r' \<Longrightarrow> run_ok items r'"
    using assms disc by (auto simp: complete_sync_row_def sync_owned_def run_ok_def)
  show "fail_sync_row rid tok n m msg now r = Some r' \<Longrightarrow> run_ok items r'"
    using assms disc by (auto simp: fail_sync_row_def sync_owned_def run_ok_def Let_def)
qed

lemma items_ok_create:
  assumes ok: "items_ok rs items" and "rid \<notin> si_run_id ` set items"
  shows "items_ok (fst (create_sync_run rid sid mode now rs)) items"
proof -
  have "run_ok items (new_sync_run rid sid mode now)"
    using assms(2) by (auto simp: run_ok_def new_sync_run_def run_items_def filter_empty_conv)
  then show ?thesis using ok
    by (auto simp: create_sync_run_def items_ok_def split: list.split)
qed

text \<open>The run of an open item waits for its items.\<close>

lemma open_item_run:
  assumes ok: "items_ok rs items" and keyed: "keyed sr_id rs" and x: "x \<in> set items" "si_status x \<in> items_open"
    and r: "r \<in> set rs" "sr_id r = si_run_id x"
  shows "sr_phase r = RECONCILING"
proof -
  have "x \<in> set (run_items (sr_id r) items)" using x r(2) by (simp add: run_items_def)
  then have "0 < items_in items_open (sr_id r) items" "run_items (sr_id r) items \<noteq> []"
    using x(2) by (auto simp: items_in_def filter_empty_conv)
  then show ?thesis using items_okD(2) [OF ok r(1)] by (cases "sr_phase r") (auto simp: run_ok_def)
qed

text \<open>What refreshParent needs of the run it recomputes, and what it leaves.\<close>

definition reconciling :: "sync_run \<Rightarrow> bool" where
  "reconciling r \<longleftrightarrow> sr_phase r = RECONCILING \<and> sr_status r = SY_RUNNING \<and> sr_lease_token r = None
     \<and> sr_lease_expires_at r = None \<and> sr_attempt_count r \<le> 3"

lemma parent_row_ok:
  assumes "reconciling r" "sr_id r = rid"
  shows "run_ok items (row_after (parent_row rid items now) r)"
proof (cases "items_in items_open rid items = 0")
  case True
  then show ?thesis using assms
    by (simp add: reconciling_def row_after_def parent_row_def sql_where_def run_ok_def counts_agree_def Let_def)
next
  case False
  then show ?thesis using assms
    by (simp add: reconciling_def row_after_def parent_row_def sql_where_def run_ok_def counts_agree_def Let_def)
qed

lemma run_ok_reconciling: "run_ok items r \<Longrightarrow> sr_phase r = RECONCILING \<Longrightarrow> reconciling r"
  by (simp add: run_ok_def reconciling_def)

definition half_ok :: "uuid set \<Rightarrow> sync_run table \<Rightarrow> sync_item table \<Rightarrow> bool" where
  "half_ok todo rs items \<longleftrightarrow> (\<forall>r \<in> set rs. if sr_id r \<in> todo then reconciling r else run_ok items r)"

lemma refresh_parents:
  assumes "half_ok (set rids) (sync_runs sd) (sync_items sd)" "distinct rids"
  shows "\<forall>r \<in> set (sync_runs (fold (\<lambda>rid. refresh_parent rid now) rids sd)). run_ok (sync_items sd) r"
  using assms
proof (induction rids arbitrary: sd)
  case Nil
  then show ?case by (simp add: half_ok_def)
next
  case (Cons rid rids)
  let ?sd = "refresh_parent rid now sd"
  have "half_ok (set rids) (sync_runs ?sd) (sync_items ?sd)"
    unfolding half_ok_def
  proof
    fix r
    assume "r \<in> set (sync_runs ?sd)"
    then obtain r0 where r0: "r0 \<in> set (sync_runs sd)" "r = row_after (parent_row rid (sync_items sd) now) r0"
      by (auto simp: refresh_parent_def set_sql_update_after)
    have id: "sr_id r = sr_id r0" using r0(2) quiet_after(1) [OF quiet_rows(6)] by simp
    show "if sr_id r \<in> set rids then reconciling r else run_ok (sync_items ?sd) r"
    proof (cases "sr_id r0 = rid")
      case True
      then have "reconciling r0" using Cons.prems(1) r0(1) by (simp add: half_ok_def)
      then have "run_ok (sync_items sd) r" using parent_row_ok [OF _ True] r0(2) by simp
      then show ?thesis using Cons.prems(2) True id by (simp add: refresh_parent_def)
    next
      case False
      then have "r = r0" using r0(2) by (simp add: row_after_def parent_row_def sql_where_def)
      then show ?thesis using Cons.prems(1) r0(1) False
        by (auto simp: half_ok_def refresh_parent_def split: if_splits)
    qed
  qed
  from Cons.IH [OF this] Cons.prems(2) show ?case by (simp add: refresh_parent_def)
qed


text \<open>A change of items of which every closed one has its run recomputed.\<close>

definition item_update :: "sync_item row_update \<Rightarrow> bool" where
  "item_update f \<longleftrightarrow> (\<forall>x x'. f x = Some x' \<longrightarrow> si_id x' = si_id x \<and> si_run_id x' = si_run_id x
     \<and> si_session_id x' = si_session_id x \<and> si_group_id x' = si_group_id x \<and> si_status x \<in> items_open)"

lemma item_update_after:
  assumes "item_update f"
  shows "si_id (row_after f x) = si_id x" "si_run_id (row_after f x) = si_run_id x"
    "si_session_id (row_after f x) = si_session_id x"
    "row_after f x = x \<or> si_status x \<in> items_open"
  using assms by (auto simp: item_update_def row_after_def split: option.splits)

lemma items_in_filter: "items_in ss rid items = length (filter (\<lambda>x. si_run_id x = rid \<and> si_status x \<in> ss) items)"
  by (simp add: items_in_def run_items_def conj_commute)

lemma items_in_same:
  assumes "item_update f" "\<And>x. x \<in> set items \<Longrightarrow> si_run_id x = rid \<Longrightarrow> row_after f x = x \<or> si_status (row_after f x) \<in> items_open"
    and "items_open \<subseteq> ss \<or> ss \<inter> items_open = {}"
  shows "items_in ss rid (sql_update f items) = items_in ss rid items"
  unfolding items_in_filter
proof (rule filter_rest_same)
  fix x
  assume "x \<in> set items"
  then show "(si_run_id (row_after f x) = rid \<and> si_status (row_after f x) \<in> ss) = (si_run_id x = rid \<and> si_status x \<in> ss)"
    using assms(2) [of x] assms(3) item_update_after(2,4) [OF assms(1), of x] by auto
qed

lemma members_same:
  assumes "item_update f" "\<And>x. x \<in> set items \<Longrightarrow> si_run_id x = rid \<Longrightarrow> row_after f x = x \<or> si_status (row_after f x) \<in> items_open"
  shows "members_of rid (sql_update f items) = members_of rid items"
  using assms(2)
proof (induction items)
  case (Cons x items)
  have "members_of rid (sql_update f items) = members_of rid items" using Cons by simp
  moreover have "si_run_id x = rid \<Longrightarrow> row_after f x \<noteq> x \<Longrightarrow> si_status x \<noteq> SI_COMPLETED \<and> si_status (row_after f x) \<noteq> SI_COMPLETED"
    using Cons.prems [of x] item_update_after(4) [OF assms(1), of x] by (auto simp: items_open_def)
  moreover have "si_run_id (row_after f x) = si_run_id x" using item_update_after(2) [OF assms(1)] .
  ultimately show ?case
    by (cases "row_after f x = x") (auto simp: members_of_def run_items_def row_after_def [symmetric])
qed simp

lemma run_items_empty: "item_update f \<Longrightarrow> run_items rid (sql_update f items) = [] \<longleftrightarrow> run_items rid items = []"
  using item_update_after(2) by (auto simp: run_items_def filter_empty_conv set_sql_update_after)

lemma run_ok_items:
  assumes ok: "run_ok items r" and f: "item_update f"
    and same: "\<And>x. x \<in> set items \<Longrightarrow> si_run_id x = sr_id r \<Longrightarrow> row_after f x = x \<or> si_status (row_after f x) \<in> items_open"
  shows "run_ok (sql_update f items) r"
proof -
  have "items_in ss (sr_id r) (sql_update f items) = items_in ss (sr_id r) items"
    if "ss \<in> {items_open, {SI_COMPLETED}, {SI_FAILED}, {SI_SKIPPED}}" for ss
    by (rule items_in_same [OF f same]) (use that in \<open>auto simp: items_open_def\<close>)
  then show ?thesis
    using ok members_same [OF f same] run_items_empty [OF f]
    by (cases "sr_phase r") (simp_all add: run_ok_def counts_agree_def)
qed

lemma items_ok_items:
  assumes ok: "items_ok rs items" and keyed: "keyed sr_id rs" and f: "item_update f"
    and sd: "sync_runs sd = rs" "sync_items sd = sql_update f items" and rids: "distinct rids"
    and touched: "\<And>rid. rid \<in> set rids \<Longrightarrow> \<exists>x \<in> set items. si_run_id x = rid \<and> si_status x \<in> items_open"
    and closed: "\<And>x. x \<in> set items \<Longrightarrow> row_after f x = x \<or> si_status (row_after f x) \<in> items_open \<or> si_run_id x \<in> set rids"
  shows "items_ok (sync_runs (fold (\<lambda>rid. refresh_parent rid now) rids sd)) (sql_update f items)"
proof -
  let ?rs = "sync_runs (fold (\<lambda>rid. refresh_parent rid now) rids sd)"
  have "half_ok (set rids) rs (sql_update f items)"
    unfolding half_ok_def
  proof
    fix r
    assume r: "r \<in> set rs"
    show "if sr_id r \<in> set rids then reconciling r else run_ok (sql_update f items) r"
    proof (cases "sr_id r \<in> set rids")
      case True
      then obtain x where "x \<in> set items" "si_status x \<in> items_open" "sr_id r = si_run_id x"
        using touched by fastforce
      then show ?thesis
        using True run_ok_reconciling [OF items_okD(2) [OF ok r] open_item_run [OF ok keyed _ _ r]] by simp
    next
      case False
      have "run_ok (sql_update f items) r"
      proof (rule run_ok_items [OF items_okD(2) [OF ok r] f])
        fix x
        assume "x \<in> set items" "si_run_id x = sr_id r"
        then show "row_after f x = x \<or> si_status (row_after f x) \<in> items_open" using closed [of x] False by auto
      qed
      then show ?thesis using False by simp
    qed
  qed
  then have runs: "\<forall>r \<in> set ?rs. run_ok (sql_update f items) r"
    using refresh_parents [of rids sd now] rids sd by simp
  have parts: "map (\<lambda>r. (sr_id r, sr_session_id r)) ?rs = map (\<lambda>r. (sr_id r, sr_session_id r)) rs"
  proof -
    have "map (\<lambda>r. (sr_id r, sr_session_id r)) (sync_runs (fold (\<lambda>rid. refresh_parent rid now) rids sd))
        = map (\<lambda>r. (sr_id r, sr_session_id r)) (sync_runs sd)" for rids sd
    proof (induction rids arbitrary: sd)
      case (Cons rid rids)
      have "sync_runs (refresh_parent rid now sd) = sql_update (parent_row rid (sync_items sd) now) (sync_runs sd)"
        by (simp add: refresh_parent_def)
      moreover have "map (\<lambda>r. (sr_id r, sr_session_id r)) (sql_update (parent_row rid (sync_items sd) now) (sync_runs sd))
          = map (\<lambda>r. (sr_id r, sr_session_id r)) (sync_runs sd)"
        by (rule map_sql_update_key) (auto simp: parent_row_def Let_def)
      ultimately have "map (\<lambda>r. (sr_id r, sr_session_id r)) (sync_runs (refresh_parent rid now sd))
          = map (\<lambda>r. (sr_id r, sr_session_id r)) (sync_runs sd)"
        by simp
      then show ?case using Cons.IH [of "refresh_parent rid now sd"] by simp
    qed simp
    then show ?thesis using sd(1) by simp
  qed
  have "\<exists>r \<in> set ?rs. sr_id r = si_run_id x \<and> sr_session_id r = si_session_id x"
    if x: "x \<in> set (sql_update f items)" for x
  proof -
    obtain x0 where x0: "x0 \<in> set items" "x = row_after f x0" using x by (auto simp: set_sql_update_after)
    obtain r where "r \<in> set rs" "sr_id r = si_run_id x0" "sr_session_id r = si_session_id x0"
      using items_okD(3) [OF ok x0(1)] by blast
    then have "(si_run_id x, si_session_id x) \<in> set (map (\<lambda>r. (sr_id r, sr_session_id r)) ?rs)"
      unfolding parts x0(2) item_update_after(2,3) [OF f] by force
    then show ?thesis by auto
  qed
  moreover have "keyed si_id (sql_update f items)"
    using items_okD(1) [OF ok] item_update_after(1) [OF f] by (simp add: keyed_row_after)
  ultimately show ?thesis using runs by (simp add: items_ok_def)
qed

lemma item_update_rows:
  "item_update (claim_item_row c xid tok now)" "item_update (renew_item_row xid tok now)"
  "item_update (complete_item_row xid tok m now)" "item_update (skip_item_row xid tok e now)"
  "item_update (fail_item_row c xid tok e p noise now)" "item_update (recover_item_row c now)"
  by (auto simp: item_update_def item_rows items_open_def Let_def)

lemma refresh_frame:
  "sync_items (fold (\<lambda>rid. refresh_parent rid now) rids sd) = sync_items sd"
  "sync_fences (fold (\<lambda>rid. refresh_parent rid now) rids sd) = sync_fences sd"
  "group_intents (fold (\<lambda>rid. refresh_parent rid now) rids sd) = group_intents sd"
  "rate_limits (fold (\<lambda>rid. refresh_parent rid now) rids sd) = rate_limits sd"
  by (induction rids arbitrary: sd) (simp_all add: refresh_parent_def)

lemma fence_ok_refresh:
  "fence_ok (sync_runs sd) fs \<Longrightarrow> fence_ok (sync_runs (fold (\<lambda>rid. refresh_parent rid now) rids sd)) fs"
proof (induction rids arbitrary: sd)
  case (Cons rid rids)
  have "fence_ok (sync_runs (refresh_parent rid now sd)) fs"
    using fence_ok_quiet [OF Cons.prems quiet_rows(6)] by (simp add: refresh_parent_def)
  then show ?case using Cons.IH by simp
qed simp


section \<open>Every operation\<close>

lemma sync_okD:
  assumes "sync_ok g"
  shows "fence_ok (sync_runs (gw_sync g)) (sync_fences (gw_sync g))"
    "items_ok (sync_runs (gw_sync g)) (sync_items (gw_sync g))" "keyed sr_id (sync_runs (gw_sync g))"
  using assms by (auto simp: sync_ok_def fence_okD)

lemma sync_ok_rows:
  assumes ok: "sync_ok g" and g': "gw_sync g' = (gw_sync g)\<lparr>sync_runs := sql_update f (sync_runs (gw_sync g))\<rparr>"
    and f: "quiet f" "\<And>r r'. run_ok (sync_items (gw_sync g)) r \<Longrightarrow> f r = Some r' \<Longrightarrow> run_ok (sync_items (gw_sync g)) r'"
  shows "sync_ok g'"
proof -
  have "items_ok (sql_update f (sync_runs (gw_sync g))) (sync_items (gw_sync g))"
  proof (rule items_ok_runs [OF sync_okD(2) [OF ok]])
    fix r r'
    assume "r \<in> set (sync_runs (gw_sync g))" "f r = Some r'"
    then show "run_ok (sync_items (gw_sync g)) r' \<and> sr_id r' = sr_id r \<and> sr_session_id r' = sr_session_id r"
      using f(1) f(2) [OF items_okD(2) [OF sync_okD(2) [OF ok]]] unfolding quiet_def by blast
  qed
  then show ?thesis using fence_ok_quiet [OF sync_okD(1) [OF ok] f(1)] g' by (simp add: sync_ok_def)
qed

lemma sync_ok_same:
  assumes "sync_ok g" "sync_runs (gw_sync g') = sync_runs (gw_sync g)"
    "sync_fences (gw_sync g') = sync_fences (gw_sync g)" "sync_items (gw_sync g') = sync_items (gw_sync g)"
  shows "sync_ok g'"
  using assms by (simp add: sync_ok_def)

lemma sync_ok_items:
  assumes ok: "sync_ok g" and f: "item_update f" and rids: "distinct rids"
    and sd: "sync_runs sd = sync_runs (gw_sync g)" "sync_fences sd = sync_fences (gw_sync g)"
      "sync_items sd = sql_update f (sync_items (gw_sync g))"
    and g': "sync_runs (gw_sync g') = sync_runs (fold (\<lambda>rid. refresh_parent rid now) rids sd)"
      "sync_fences (gw_sync g') = sync_fences sd" "sync_items (gw_sync g') = sync_items sd"
    and touched: "\<And>rid. rid \<in> set rids \<Longrightarrow> \<exists>x \<in> set (sync_items (gw_sync g)). si_run_id x = rid \<and> si_status x \<in> items_open"
    and closed: "\<And>x. x \<in> set (sync_items (gw_sync g)) \<Longrightarrow>
      row_after f x = x \<or> si_status (row_after f x) \<in> items_open \<or> si_run_id x \<in> set rids"
  shows "sync_ok g'"
proof -
  have "fence_ok (sync_runs sd) (sync_fences sd)" using sync_okD(1) [OF ok] sd(1,2) by simp
  then have "fence_ok (sync_runs (gw_sync g')) (sync_fences (gw_sync g'))"
    using fence_ok_refresh g'(1,2) by simp
  moreover have "items_ok (sync_runs (gw_sync g')) (sync_items (gw_sync g'))"
    unfolding g' sd(3)
    by (rule items_ok_items [OF sync_okD(2) [OF ok] sync_okD(3) [OF ok] f sd(1,3) rids touched closed])
  ultimately show ?thesis by (simp add: sync_ok_def)
qed

lemma returned_item:
  assumes "sql_returning f items = x # xs" "item_update f"
  obtains x0 where "x0 \<in> set items" "f x0 = Some x" "si_status x0 \<in> items_open" "si_run_id x = si_run_id x0"
    "si_id x = si_id x0"
proof -
  have "x \<in> set (sql_returning f items)" using assms(1) by simp
  then obtain x0 where "x0 \<in> set items" "f x0 = Some x" by (auto simp: set_sql_returning)
  then show ?thesis using that assms(2) by (auto simp: item_update_def)
qed

text \<open>The three settlements and what they have in common.\<close>

lemma sync_ok_settle:
  assumes ok: "sync_ok g" and f: "item_update f" "\<And>x x'. f x = Some x' \<Longrightarrow> si_id x = xid"
    and ret: "sql_returning f (sync_items (gw_sync g)) = x # xs"
    and sd: "sync_runs sd = sync_runs (gw_sync g)" "sync_fences sd = sync_fences (gw_sync g)"
      "sync_items sd = sql_update f (sync_items (gw_sync g))"
    and g': "gw_sync g' = refresh_parent (si_run_id x) now sd"
  shows "sync_ok g'"
proof (rule sync_ok_items [OF ok f(1) _ sd, where rids = "[si_run_id x]"])
  obtain x0 where x0: "x0 \<in> set (sync_items (gw_sync g))" "f x0 = Some x" "si_status x0 \<in> items_open"
    "si_run_id x = si_run_id x0"
    using returned_item [OF ret f(1)] by metis
  show "\<exists>x \<in> set (sync_items (gw_sync g)). si_run_id x = rid \<and> si_status x \<in> items_open"
    if "rid \<in> set [si_run_id x]" for rid
    using that x0 by auto
  show "row_after f y = y \<or> si_status (row_after f y) \<in> items_open \<or> si_run_id y \<in> set [si_run_id x]"
    if y: "y \<in> set (sync_items (gw_sync g))" for y
  proof (cases "f y")
    case None
    then show ?thesis by (simp add: row_after_def)
  next
    case (Some y')
    have "y = x0"
      using keyed_inj [OF items_okD(1) [OF sync_okD(2) [OF ok]] y x0(1)] f(2) [OF Some] f(2) [OF x0(2)] by simp
    then show ?thesis using x0(4) by simp
  qed
qed (simp_all add: g' refresh_parent_def)

lemma settle_rows_id:
  "complete_item_row xid tok m now x = Some x' \<Longrightarrow> si_id x = xid"
  "skip_item_row xid tok e now x = Some x' \<Longrightarrow> si_id x = xid"
  "fail_item_row c xid tok e p noise now x = Some x' \<Longrightarrow> si_id x = xid"
  by (auto simp: item_rows)

text \<open>Claims and renewals leave an item open.\<close>

lemma sync_ok_open:
  assumes ok: "sync_ok g" and f: "item_update f" "\<And>x x'. f x = Some x' \<Longrightarrow> si_status x' \<in> items_open"
    and g': "sync_runs (gw_sync g') = sync_runs (gw_sync g)" "sync_fences (gw_sync g') = sync_fences (gw_sync g)"
      "sync_items (gw_sync g') = sql_update f (sync_items (gw_sync g))"
  shows "sync_ok g'"
proof (rule sync_ok_items [OF ok f(1), where rids = "[]" and sd = "gw_sync g'"])
  show "row_after f x = x \<or> si_status (row_after f x) \<in> items_open \<or> si_run_id x \<in> set []" for x
    using f(2) by (cases "f x") (auto simp: row_after_def)
qed (simp_all add: g')

lemma sync_ok_recover:
  assumes ok: "sync_ok g"
  shows "sync_ok (on_sync (\<lambda>sd. fst (recover_items c now sd)) g)"
proof -
  let ?items = "sync_items (gw_sync g)" and ?f = "recover_item_row c now"
  show ?thesis
  proof (rule sync_ok_items [OF ok item_update_rows(6), where rids = "remdups (map si_run_id (sql_returning ?f ?items))"
        and sd = "(gw_sync g)\<lparr>sync_items := sql_update ?f ?items\<rparr>" and now = now])
    show "\<exists>x \<in> set ?items. si_run_id x = rid \<and> si_status x \<in> items_open"
      if "rid \<in> set (remdups (map si_run_id (sql_returning ?f ?items)))" for rid
      using that item_update_rows(6) [of c now] by (auto simp: set_sql_returning item_update_def)
    show "row_after ?f x = x \<or> si_status (row_after ?f x) \<in> items_open
        \<or> si_run_id x \<in> set (remdups (map si_run_id (sql_returning ?f ?items)))" if x: "x \<in> set ?items" for x
    proof (cases "?f x")
      case None
      then show ?thesis by (simp add: row_after_def)
    next
      case (Some x')
      then have "x' \<in> set (sql_returning ?f ?items)" "si_run_id x' = si_run_id x"
        using x item_update_rows(6) [of c now] by (auto simp: set_sql_returning item_update_def)
      then have "si_run_id x \<in> si_run_id ` set (sql_returning ?f ?items)" by (metis image_eqI)
      then show ?thesis by simp
    qed
  qed (simp_all add: on_sync_def recover_items_def Let_def refresh_frame)
qed


section \<open>Publication\<close>

lemma new_item_fields [simp]:
  "si_id (new_item ids rid sid now p) = ids (gsu_id (fst (snd p)))"
  "si_run_id (new_item ids rid sid now p) = rid" "si_session_id (new_item ids rid sid now p) = sid"
  "si_group_id (new_item ids rid sid now p) = gsu_id (fst (snd p))"
  "si_status (new_item ids rid sid now p) = SI_PENDING"
  by (cases p; simp add: new_item_def)+

lemma run_items_inserted:
  "rid' \<noteq> rid \<Longrightarrow> run_items rid' (fold (\<lambda>p. sql_insert_new item_key (new_item ids rid sid now p)) ps items)
    = run_items rid' items"
  by (induction ps arbitrary: items) (simp_all add: sql_insert_new_def run_items_def)

lemma selected_groups:
  "p \<in> set (select_items c dg mode wall sid groups before) \<Longrightarrow> fst (snd p) \<in> set groups"
  unfolding select_items_def by (auto simp: map_filter_def in_set_enumerate_eq)

lemma asserted_run:
  assumes "assert_sync_write sid w now sd = Inr u"
  obtains r where "r \<in> set (sync_runs sd)" "sync_owned (wf_run_id w) (wf_token w) now r" "sr_session_id r = sid"
    "sr_epoch r = Some (wf_epoch w)" "epoch_current sid (wf_epoch w) (sync_fences sd)"
  using assms by (auto simp: assert_sync_write_def)

lemma all_pending:
  assumes "\<And>x. x \<in> set (run_items rid items) \<Longrightarrow> si_status x = SI_PENDING"
  shows "items_in {SI_COMPLETED} rid items = 0" "items_in {SI_FAILED} rid items = 0"
    "items_in {SI_SKIPPED} rid items = 0" "members_of rid items = 0"
    "items_in items_open rid items = length (run_items rid items)"
proof -
  show "items_in {SI_COMPLETED} rid items = 0" "items_in {SI_FAILED} rid items = 0"
    "items_in {SI_SKIPPED} rid items = 0"
    using assms by (fastforce simp: items_in_def filter_empty_conv)+
  have "filter (\<lambda>x. si_status x = SI_COMPLETED) (run_items rid items) = []"
    using assms by (fastforce simp: filter_empty_conv)
  then show "members_of rid items = 0" by (simp add: members_of_def)
  have "filter (\<lambda>x. si_status x \<in> items_open) (run_items rid items) = run_items rid items"
    using assms by (intro filter_True) (simp add: items_open_def)
  then show "items_in items_open rid items = length (run_items rid items)" by (simp add: items_in_def)
qed

text \<open>The run that publishes: it was discovering, and its items are the new ones.\<close>

lemma published_run_ok:
  assumes ok: "run_ok items r" and owned: "sync_owned rid tok now r"
  shows "run_ok (fold (\<lambda>p. sql_insert_new item_key (new_item ids rid sid now p)) sel items)
    (row_after (publish_run_row rid tok n (length sel) now) r)" (is "run_ok ?items' ?r'")
proof -
  have r: "sr_id r = rid" "sr_status r = SY_RUNNING" "sr_lease_token r = Some tok" "sr_attempt_count r \<le> 3"
    using owned ok by (auto simp: sync_owned_def run_ok_def)
  then have "sr_phase r = DISCOVERING" using leased_discovering [OF ok] by simp
  then have none: "run_items rid items = []" and zero: "sr_synced r = 0" "sr_failed r = 0" "sr_skipped r = 0" "sr_members r = 0"
    using ok r by (simp_all add: run_ok_def)
  have "si_status x = SI_PENDING" if "x \<in> set (run_items rid ?items')" for x
  proof -
    have "x \<in> set ?items'" "si_run_id x = rid" using that by (simp_all add: run_items_def)
    moreover have "x \<notin> set items" using none \<open>si_run_id x = rid\<close> by (auto simp: run_items_def filter_empty_conv)
    ultimately have "\<exists>p \<in> set sel. x = new_item ids rid sid now p"
      using mem_fold_insert_new [of x item_key "new_item ids rid sid now" sel items] by blast
    then show ?thesis by (metis new_item_fields(5))
  qed
  note pending = all_pending [of rid ?items', OF this]
  have r': "?r' = (let completed = (sel = []) in
        r\<lparr>sr_phase := (if completed then PHASE_COMPLETED else RECONCILING), sr_discovered := n,
          sr_scheduled := length sel, sr_status := (if completed then SY_COMPLETED else SY_RUNNING),
          sr_completed_at := (if completed then Some now else None), sr_lease_token := None,
          sr_lease_expires_at := None, sr_error := None\<rparr>)"
    using r by (simp add: row_after_def publish_run_row_def sql_where_def Let_def)
  show ?thesis
  proof (cases sel)
    case Nil
    then show ?thesis using r zero pending none unfolding r' by (simp add: run_ok_def counts_agree_def)
  next
    case (Cons p ps)
    have "item_key (new_item ids rid sid now p) \<in> item_key ` set ?items'"
      by (rule fold_insert_new_key) (simp add: Cons)
    then have "run_items rid ?items' \<noteq> []" by (auto simp: item_key_def run_items_def filter_empty_conv)
    then show ?thesis using Cons r zero pending unfolding r' by (simp add: run_ok_def counts_agree_def)
  qed
qed

lemma run_ok_other:
  assumes "run_ok items r" "run_items (sr_id r) items' = run_items (sr_id r) items"
  shows "run_ok items' r"
  using assms by (cases "sr_phase r") (simp_all add: run_ok_def counts_agree_def items_in_def members_of_def)


lemma sync_ok_deferred:
  assumes ok: "sync_ok g" and r: "r \<in> set (sync_runs (gw_sync g))" "sync_owned rid tok now0 r"
    and g': "sync_runs (gw_sync g') = sql_update (defer_run_row rid tok now) (sync_runs (gw_sync g))"
      "sync_fences (gw_sync g') = sync_fences (gw_sync g)" "sync_items (gw_sync g') = sync_items (gw_sync g)"
  shows "sync_ok g'"
proof -
  have own: "sr_id r = rid" "sr_status r = SY_RUNNING" using r(2) by (auto simp: sync_owned_def)
  have "items_ok (sql_update (defer_run_row rid tok now) (sync_runs (gw_sync g))) (sync_items (gw_sync g))"
  proof (rule items_ok_runs [OF sync_okD(2) [OF ok]])
    fix x x'
    assume x: "x \<in> set (sync_runs (gw_sync g))" and "defer_run_row rid tok now x = Some x'"
    then have *: "sr_id x = rid" "sr_lease_token x = Some tok"
      "x' = x\<lparr>sr_status := SY_PENDING, sr_epoch := None, sr_attempt_count := sr_attempt_count x - 1,
        sr_next_attempt_at := now + seconds 5, sr_lease_token := None, sr_lease_expires_at := None,
        sr_error := Some ''SUSPICIOUS_GROUP_SNAPSHOT''\<rparr>"
      by (auto simp: defer_run_row_def)
    have "x = r" using keyed_inj [OF sync_okD(3) [OF ok] x r(1)] * own by simp
    note run = items_okD(2) [OF sync_okD(2) [OF ok] x]
    have "sr_phase x = DISCOVERING" using leased_discovering [OF run] \<open>x = r\<close> own * by simp
    then show "run_ok (sync_items (gw_sync g)) x' \<and> sr_id x' = sr_id x \<and> sr_session_id x' = sr_session_id x"
      using run unfolding *(3) by (auto simp: run_ok_def)
  qed
  then show ?thesis using fence_ok_defer [OF sync_okD(1) [OF ok] r(1) own] by (simp add: sync_ok_def g')
qed

lemma sync_ok_published:
  assumes ok: "sync_ok g" and r: "r \<in> set (sync_runs (gw_sync g))" "sync_owned rid tok now r" "sr_session_id r = sid"
    and ids: "inj_on ids (gsu_id ` set groups)" "ids ` gsu_id ` set groups \<inter> si_id ` set (sync_items (gw_sync g)) = {}"
    and sel: "\<And>p. p \<in> set sel \<Longrightarrow> fst (snd p) \<in> set groups"
    and g': "sync_runs (gw_sync g') = sql_update (publish_run_row rid tok n (length sel) now) (sync_runs (gw_sync g))"
      "sync_fences (gw_sync g') = sync_fences (gw_sync g)"
      "sync_items (gw_sync g') = fold (\<lambda>p. sql_insert_new item_key (new_item ids rid sid now p)) sel (sync_items (gw_sync g))"
  shows "sync_ok g'"
proof -
  let ?items' = "fold (\<lambda>p. sql_insert_new item_key (new_item ids rid sid now p)) sel (sync_items (gw_sync g))"
  let ?f = "publish_run_row rid tok n (length sel) now"
  let ?rs' = "sql_update ?f (sync_runs (gw_sync g))"
  note its = sync_okD(2) [OF ok] and key = sync_okD(3) [OF ok]
  note after = quiet_after(1,2) [OF quiet_rows(5)]
  have own: "sr_id r = rid" using r(2) by (simp add: sync_owned_def)
  have "keyed si_id ?items'"
  proof (rule keyed_fold_insert_new [OF items_okD(1) [OF its]])
    show "si_id (new_item ids rid sid now p) \<notin> si_id ` set (sync_items (gw_sync g))" if "p \<in> set sel" for p
      using sel [OF that] ids(2) by auto
    show "item_key (new_item ids rid sid now p) = item_key (new_item ids rid sid now q)"
      if "p \<in> set sel" "q \<in> set sel" "si_id (new_item ids rid sid now p) = si_id (new_item ids rid sid now q)" for p q
      using inj_onD [OF ids(1), of "gsu_id (fst (snd p))" "gsu_id (fst (snd q))"] sel [OF that(1)] sel [OF that(2)] that(3)
      by (simp add: item_key_def)
  qed
  moreover have "run_ok ?items' x'" if x': "x' \<in> set ?rs'" for x'
  proof -
    obtain x where x: "x \<in> set (sync_runs (gw_sync g))" "x' = row_after ?f x" using x' by (auto simp: set_sql_update_after)
    show ?thesis
    proof (cases "sr_id x = rid")
      case True
      then have "x = r" using keyed_inj [OF key x(1) r(1)] own by simp
      then show ?thesis using published_run_ok [OF items_okD(2) [OF its x(1)]] r(2) x(2) by simp
    next
      case False
      then have "x' = x" using x(2) by (simp add: row_after_def publish_run_row_def sql_where_def)
      then show ?thesis using run_ok_other [OF items_okD(2) [OF its x(1)] run_items_inserted [OF False]] by simp
    qed
  qed
  moreover have "\<exists>y \<in> set ?rs'. sr_id y = si_run_id x \<and> sr_session_id y = si_session_id x" if x: "x \<in> set ?items'" for x
  proof -
    have "x \<in> set (sync_items (gw_sync g)) \<or> (\<exists>p \<in> set sel. x = new_item ids rid sid now p)"
      using mem_fold_insert_new x by fast
    then obtain y where "y \<in> set (sync_runs (gw_sync g))" "sr_id y = si_run_id x" "sr_session_id y = si_session_id x"
      using items_okD(3) [OF its] r(1,3) own new_item_fields(2,3) by metis
    then have "row_after ?f y \<in> set ?rs'" "sr_id (row_after ?f y) = si_run_id x"
      "sr_session_id (row_after ?f y) = si_session_id x"
      using after by (simp_all add: set_sql_update_after)
    then show ?thesis by blast
  qed
  ultimately have "items_ok ?rs' ?items'" by (simp add: items_ok_def)
  then show ?thesis using fence_ok_quiet [OF sync_okD(1) [OF ok] quiet_rows(5)] by (simp add: sync_ok_def g')
qed

lemma sync_ok_publish:
  assumes ok: "sync_ok g" and fresh: "sync_op_ok (SPublish ids w sid mode groups wall now) g"
  shows "sync_ok (fst (publish_discovery c dg idg ids w sid mode groups wall now g))"
proof (cases "assert_sync_write sid w now (gw_sync g)")
  case (Inl e)
  then show ?thesis using ok by (simp add: publish_discovery_def)
next
  case (Inr u)
  then obtain r where r: "r \<in> set (sync_runs (gw_sync g))" "sync_owned (wf_run_id w) (wf_token w) now r"
      "sr_session_id r = sid"
    using asserted_run by blast
  show ?thesis
  proof (cases "discovery_deferred c idg sid groups g")
    case True
    then show ?thesis using Inr by (intro sync_ok_deferred [OF ok r(1,2)]) (simp_all add: publish_discovery_def Let_def)
  next
    case False
    show ?thesis
    proof (cases "replace_summaries sid groups now (gw_groups g)")
      case None
      then show ?thesis using Inr False ok by (simp add: publish_discovery_def Let_def)
    next
      case (Some gs)
      then show ?thesis using Inr False fresh selected_groups
        by (intro sync_ok_published [OF ok r, where ids = ids and groups = groups])
          (simp_all add: publish_discovery_def Let_def)
    qed
  qed
qed


section \<open>Every interleaving\<close>

lemma item_open_rows:
  "claim_item_row c xid tok now x = Some x' \<Longrightarrow> si_status x' \<in> items_open"
  "renew_item_row xid tok now x = Some x' \<Longrightarrow> si_status x' \<in> items_open"
  by (auto simp: item_rows items_open_def)

lemma sync_ok_item_claim:
  assumes ok: "sync_ok g"
  shows "sync_ok (on_sync (\<lambda>sd. fst (claim_item c xid tok now sd)) g)"
proof -
  let ?sd = "fst (claim_item c xid tok now (gw_sync g))"
  have items: "sync_items ?sd = sync_items (gw_sync g) \<or> sync_items ?sd = sql_update (claim_item_row c xid tok now) (sync_items (gw_sync g))"
    and frame: "sync_runs ?sd = sync_runs (gw_sync g)" "sync_fences ?sd = sync_fences (gw_sync g)"
    by (auto simp: claim_item_def Let_def split: option.split list.split)
  from items show ?thesis
  proof
    assume "sync_items ?sd = sync_items (gw_sync g)"
    then show ?thesis using frame by (intro sync_ok_same [OF ok]) (simp_all add: on_sync_def)
  next
    assume "sync_items ?sd = sql_update (claim_item_row c xid tok now) (sync_items (gw_sync g))"
    then show ?thesis using frame
      by (intro sync_ok_open [OF ok item_update_rows(1) item_open_rows(1)]) (simp_all add: on_sync_def)
  qed
qed

lemma sync_ok_item_renew:
  assumes ok: "sync_ok g"
  shows "sync_ok (on_sync (\<lambda>sd. fst (renew_item xid tok now sd)) g)"
proof -
  let ?sd = "fst (renew_item xid tok now (gw_sync g))"
  have items: "sync_items ?sd = sync_items (gw_sync g) \<or> sync_items ?sd = sql_update (renew_item_row xid tok now) (sync_items (gw_sync g))"
    and frame: "sync_runs ?sd = sync_runs (gw_sync g)" "sync_fences ?sd = sync_fences (gw_sync g)"
    by (auto simp: renew_item_def split: list.split prod.split bool.split)
  from items show ?thesis
  proof
    assume "sync_items ?sd = sync_items (gw_sync g)"
    then show ?thesis using frame by (intro sync_ok_same [OF ok]) (simp_all add: on_sync_def)
  next
    assume "sync_items ?sd = sql_update (renew_item_row xid tok now) (sync_items (gw_sync g))"
    then show ?thesis using frame
      by (intro sync_ok_open [OF ok item_update_rows(2) item_open_rows(2)]) (simp_all add: on_sync_def)
  qed
qed

lemma sync_ok_item_complete:
  assumes ok: "sync_ok g"
  shows "sync_ok (fst (complete_item c xid tok m now g))"
proof (cases "sql_returning (complete_item_row xid tok m now) (sync_items (gw_sync g))")
  case Nil
  then show ?thesis using ok by (simp add: complete_item_def Let_def)
next
  case (Cons x xs)
  show ?thesis
    by (rule sync_ok_settle [OF ok item_update_rows(3) settle_rows_id(1) Cons, where now = now
          and sd = "(gw_sync g)\<lparr>sync_items := sql_update (complete_item_row xid tok m now) (sync_items (gw_sync g)),
            rate_limits := record_success c (si_session_id x) tok (rate_limits (gw_sync g))\<rparr>"])
      (simp_all add: Cons complete_item_def Let_def)
qed

lemma sync_ok_item_skip:
  assumes ok: "sync_ok g"
  shows "sync_ok (on_sync (\<lambda>sd. fst (skip_item xid tok e now sd)) g)"
proof (cases "sql_returning (skip_item_row xid tok e now) (sync_items (gw_sync g))")
  case Nil
  then show ?thesis using ok by (simp add: skip_item_def on_sync_def)
next
  case (Cons x xs)
  show ?thesis
    by (rule sync_ok_settle [OF ok item_update_rows(4) settle_rows_id(2) Cons, where now = now
          and sd = "(gw_sync g)\<lparr>sync_items := sql_update (skip_item_row xid tok e now) (sync_items (gw_sync g)),
            rate_limits := sql_update (release_row (si_session_id x) tok) (rate_limits (gw_sync g))\<rparr>"])
      (simp_all add: Cons skip_item_def on_sync_def)
qed

lemma sync_ok_item_fail:
  assumes ok: "sync_ok g"
  shows "sync_ok (on_sync (\<lambda>sd. fst (fail_item c xid tok e p noise noise' now sd)) g)"
proof (cases "sql_returning (fail_item_row c xid tok e p noise now) (sync_items (gw_sync g))")
  case Nil
  then show ?thesis using ok by (simp add: fail_item_def on_sync_def Let_def)
next
  case (Cons x xs)
  show ?thesis
    by (rule sync_ok_settle [OF ok item_update_rows(5) settle_rows_id(3) Cons, where now = now
          and sd = "(gw_sync g)\<lparr>sync_items := sql_update (fail_item_row c xid tok e p noise now) (sync_items (gw_sync g)),
            rate_limits := sql_update (failure_row c (si_session_id x) tok p noise' now) (rate_limits (gw_sync g))\<rparr>"])
      (simp_all add: Cons fail_item_def on_sync_def Let_def)
qed


lemma intent_apply_frame:
  "sync_runs (intent_apply c op sd) = sync_runs sd" "sync_items (intent_apply c op sd) = sync_items sd"
  "sync_fences (intent_apply c op sd) = sync_fences sd"
  by (cases op; simp add: claim_intent_def renew_intent_def complete_intent_def skip_missing_def fail_intent_def
      recover_intents_def Let_def split: option.split list.split prod.split bool.split)+

lemma sync_ok_apply:
  assumes ok: "sync_ok g" and fresh: "sync_op_ok op g"
  shows "sync_ok (sync_apply c dg idg op g)"
proof (cases op)
  case (SCreate rid sid mode now)
  then show ?thesis using ok fresh sync_okD [OF ok]
    by (auto simp: on_runs_def on_sync_def sync_ok_def intro: fence_ok_create items_ok_create)
next
  case (SRecover now)
  then show ?thesis
    by (intro sync_ok_rows [OF ok _ quiet_rows(1) run_ok_rows(1)])
      (simp_all add: on_runs_def on_sync_def recover_sync_runs_def)
next
  case (SClaim rid tok now)
  have "sync_ok (on_sync (\<lambda>sd. fst (claim_sync_run rid tok now sd)) g)"
  proof (cases rule: claim_sync_cases [of rid tok now "gw_sync g"])
    case (granted r0 fs f)
    have "items_ok (sql_update f (sync_runs (gw_sync g))) (sync_items (gw_sync g))"
    proof (rule items_ok_runs [OF sync_okD(2) [OF ok]])
      fix r r'
      assume "r \<in> set (sync_runs (gw_sync g))" "f r = Some r'"
      then show "run_ok (sync_items (gw_sync g)) r' \<and> sr_id r' = sr_id r \<and> sr_session_id r' = sr_session_id r"
        using run_ok_rows(2) [OF items_okD(2) [OF sync_okD(2) [OF ok]]] granted(3) by (auto simp: claim_sync_row_def)
    qed
    then show ?thesis
      using fence_ok_claim [OF sync_okD(1) [OF ok], of rid tok now] by (simp add: sync_ok_def on_sync_def granted(5))
  qed (use fence_ok_claim [OF sync_okD(1) [OF ok], of rid tok now] sync_okD(2) [OF ok] in
      \<open>simp_all add: sync_ok_def on_sync_def\<close>)
  then show ?thesis using SClaim by simp
next
  case (SRenew rid tok now)
  then show ?thesis
    by (intro sync_ok_rows [OF ok _ quiet_rows(2) run_ok_rows(3)])
      (simp_all add: on_runs_def on_sync_def renew_sync_lease_def)
next
  case (SComplete rid tok n m now)
  then show ?thesis
    by (intro sync_ok_rows [OF ok _ quiet_rows(3) run_ok_rows(4)])
      (simp_all add: on_runs_def on_sync_def complete_sync_def)
next
  case (SFail rid tok n m e now)
  then show ?thesis
    by (intro sync_ok_rows [OF ok _ quiet_rows(4) run_ok_rows(5)])
      (simp_all add: on_runs_def on_sync_def fail_sync_attempt_def)
next
  case (SPublish ids w sid mode groups wall now)
  then show ?thesis using sync_ok_publish [OF ok] fresh by simp
next
  case (SItemClaim xid tok now)
  then show ?thesis using sync_ok_item_claim [OF ok] by simp
next
  case (SItemRenew xid tok now)
  then show ?thesis using sync_ok_item_renew [OF ok] by simp
next
  case (SItemComplete xid tok m now)
  then show ?thesis using sync_ok_item_complete [OF ok] by simp
next
  case (SItemSkip xid tok e now)
  then show ?thesis using sync_ok_item_skip [OF ok] by simp
next
  case (SItemFail xid tok e p noise noise' now)
  then show ?thesis using sync_ok_item_fail [OF ok] by simp
next
  case (SItemRecover now)
  then show ?thesis using sync_ok_recover [OF ok] by simp
next
  case (SIntent iop)
  then show ?thesis by (intro sync_ok_same [OF ok]) (simp_all add: on_sync_def intent_apply_frame)
next
  case (SPacing pop)
  then show ?thesis by (intro sync_ok_same [OF ok]) (simp_all add: on_sync_def)
next
  case (SGateway ss gs)
  then show ?thesis by (intro sync_ok_same [OF ok]) simp_all
qed

lemma sync_ok_fold: "sync_ok g \<Longrightarrow> sync_ops_ok c dg idg ops g \<Longrightarrow> sync_ok (fold (sync_apply c dg idg) ops g)"
  by (induction ops arbitrary: g) (simp_all add: sync_ok_apply)

lemma sync_ok_start:
  assumes "sync_runs (gw_sync g) = []" "sync_items (gw_sync g) = []" "keyed sf_session_id (sync_fences (gw_sync g))"
  shows "sync_ok g"
  using assms by (simp add: sync_ok_def fence_ok_def items_ok_def)

end
