(* ===== verification/Sessions.thy ===== *)
theory Sessions
  imports Sync_Runs Send_Policy "HOL-Library.Multiset"
begin

text \<open>
  The rows of gateway_sessions: the snapshots of src/src/modules/gateway/gateway.repository.ts and
  session.service.ts and the webhook events of runtime-event.repository.ts observe the same session, and
  each of status and restriction keeps the value that was observed last.
\<close>

section \<open>Snapshots\<close>

text \<open>OpenWASession; the times of the response are read as PostgreSQL reads them.\<close>

record openwa_session =
  os_id :: string
  os_profile :: session_profile
  os_status :: string
  os_engine_loaded :: bool
  os_restriction :: "json option"
  os_updated_at :: timestamp

definition session_insert :: "openwa_session \<Rightarrow> timestamp \<Rightarrow> gateway_session" where
  "session_insert s now = \<lparr>gs_id = os_id s, gs_profile = os_profile s, gs_status = os_status s,
     gs_engine_loaded = os_engine_loaded s, gs_restriction = os_restriction s,
     gs_status_observed_at = os_updated_at s, gs_restriction_observed_at = os_updated_at s,
     gs_gateway_updated_at = os_updated_at s, gs_synced_at = now, gs_updated_at = now,
     gs_snapshot_count = None, gs_suspicious_fingerprint = None, gs_suspicious_count = None,
     gs_suspicious_confirmations = 0\<rparr>"

text \<open>ON CONFLICT DO UPDATE; gateway_created_at is not in its SET list.\<close>

definition session_conflict :: "openwa_session \<Rightarrow> timestamp \<Rightarrow> gateway_session row_update" where
  "session_conflict s now = sql_where (\<lambda>r. gs_id r = os_id s)
     (\<lambda>r. r\<lparr>gs_profile := (os_profile s)\<lparr>sp_created_at := sp_created_at (gs_profile r)\<rparr>,
        gs_status := (if gs_status_observed_at r < os_updated_at s then os_status s else gs_status r),
        gs_engine_loaded := os_engine_loaded s,
        gs_restriction := (if gs_restriction_observed_at r < os_updated_at s then os_restriction s
          else gs_restriction r),
        gs_status_observed_at := max (gs_status_observed_at r) (os_updated_at s),
        gs_restriction_observed_at := max (gs_restriction_observed_at r) (os_updated_at s),
        gs_gateway_updated_at := max (gs_gateway_updated_at r) (os_updated_at s),
        gs_synced_at := now, gs_updated_at := now\<rparr>)"

definition upsert_session :: "openwa_session \<Rightarrow> timestamp \<Rightarrow> gateway_session table \<Rightarrow> gateway_session table" where
  "upsert_session s now rows = (if os_id s \<in> gs_id ` set rows then sql_update (session_conflict s now) rows
     else rows @ [session_insert s now])"

text \<open>With the fence of a synchronization run the upsert is in the transaction that checks it.\<close>

definition upsert_session_fenced ::
  "openwa_session \<Rightarrow> sync_write_fence \<Rightarrow> timestamp \<Rightarrow> sync_db \<Rightarrow> gateway_session table
    \<Rightarrow> string + gateway_session table" where
  "upsert_session_fenced s w now sd rows =
     or_throw (assert_sync_write (os_id s) w now sd) (\<lambda>_. Inr (upsert_session s now rows))"

definition find_session :: "string \<Rightarrow> gateway_session table \<Rightarrow> gateway_session option" where
  "find_session sid rows = find_by gs_id sid rows"

text \<open>ORDER BY name, id, in the order of the character codes.\<close>

definition list_sessions :: "string list \<Rightarrow> gateway_session table \<Rightarrow> gateway_session list" where
  "list_sessions allowed rows =
     sort_key (\<lambda>r. (sp_name (gs_profile r), gs_id r)) (filter (\<lambda>r. gs_id r \<in> set allowed) rows)"

section \<open>The service\<close>

text \<open>SessionService.list: the snapshots of the gateway, which name every session once, are stored side by side.\<close>

definition service_list_sessions ::
  "runtime_config \<Rightarrow> openwa_session list \<Rightarrow> timestamp \<Rightarrow> gateway_session table
    \<Rightarrow> gateway_session table \<times> gateway_session list" where
  "service_list_sessions c upstream now rows =
     (let rows' = fold (\<lambda>s. upsert_session s now) (filter (\<lambda>s. is_allowed c (os_id s)) upstream) rows in
      (rows', list_sessions (cfg_allowed_sessions c) rows'))"

text \<open>SessionService.get; \<open>upstream\<close> is None when the gateway or the upsert fails.\<close>

definition service_get_session ::
  "runtime_config \<Rightarrow> string \<Rightarrow> openwa_session option \<Rightarrow> timestamp \<Rightarrow> gateway_session table
    \<Rightarrow> gateway_session table \<times> (api_error + gateway_session)" where
  "service_get_session c sid upstream now rows =
     (let not_found = Inl (NotFound ''Session not found'') in
      if \<not> is_allowed c sid then (rows, not_found)
      else case upstream of
        Some s \<Rightarrow> (let rows' = upsert_session s now rows in
          (rows', case find_session (os_id s) rows' of None \<Rightarrow> not_found | Some r \<Rightarrow> Inr r))
      | None \<Rightarrow> (rows, case find_session sid rows of None \<Rightarrow> not_found | Some r \<Rightarrow> Inr r))"

section \<open>Webhook events\<close>

definition status_event_row :: "string \<Rightarrow> string \<Rightarrow> timestamp \<Rightarrow> timestamp \<Rightarrow> gateway_session row_update" where
  "status_event_row sid status seen now = sql_where (\<lambda>r. gs_id r = sid \<and> gs_status_observed_at r < seen)
     (\<lambda>r. r\<lparr>gs_status := status, gs_status_observed_at := seen,
        gs_gateway_updated_at := max (gs_gateway_updated_at r) seen, gs_synced_at := now, gs_updated_at := now\<rparr>)"

definition restriction_event_row ::
  "string \<Rightarrow> json option \<Rightarrow> timestamp \<Rightarrow> timestamp \<Rightarrow> gateway_session row_update" where
  "restriction_event_row sid restriction seen now =
     sql_where (\<lambda>r. gs_id r = sid \<and> gs_restriction_observed_at r < seen)
     (\<lambda>r. r\<lparr>gs_restriction := restriction, gs_restriction_observed_at := seen,
        gs_gateway_updated_at := max (gs_gateway_updated_at r) seen, gs_synced_at := now, gs_updated_at := now\<rparr>)"

section \<open>Observations in any order\<close>

datatype observation =
    Snapshot openwa_session timestamp
  | StatusEvent string string timestamp timestamp
  | RestrictionEvent string "json option" timestamp timestamp

fun observe :: "observation \<Rightarrow> gateway_session table \<Rightarrow> gateway_session table" where
  "observe (Snapshot s now) rows = upsert_session s now rows"
| "observe (StatusEvent sid status seen now) rows = sql_update (status_event_row sid status seen now) rows"
| "observe (RestrictionEvent sid r seen now) rows = sql_update (restriction_event_row sid r seen now) rows"

text \<open>
  The specification: a cell is a value with the time of its observation, and a newer observation replaces it.
\<close>

type_synonym 'a cell = "'a \<times> timestamp"

definition newer :: "'a cell \<Rightarrow> 'a cell \<Rightarrow> 'a cell" where
  "newer new old = (if snd old < snd new then new else old)"

fun observed_status :: "string \<Rightarrow> observation \<Rightarrow> string cell option" where
  "observed_status sid (Snapshot s now) = (if os_id s = sid then Some (os_status s, os_updated_at s) else None)"
| "observed_status sid (StatusEvent sid' status seen now) = (if sid' = sid then Some (status, seen) else None)"
| "observed_status sid (RestrictionEvent sid' r seen now) = None"

fun observed_restriction :: "string \<Rightarrow> observation \<Rightarrow> json option cell option" where
  "observed_restriction sid (Snapshot s now) =
     (if os_id s = sid then Some (os_restriction s, os_updated_at s) else None)"
| "observed_restriction sid (StatusEvent sid' status seen now) = None"
| "observed_restriction sid (RestrictionEvent sid' r seen now) = (if sid' = sid then Some (r, seen) else None)"

definition see :: "'a cell option \<Rightarrow> 'a cell \<Rightarrow> 'a cell" where
  "see new old = (case new of None \<Rightarrow> old | Some x \<Rightarrow> newer x old)"

definition status_cell :: "gateway_session \<Rightarrow> string cell" where
  "status_cell r = (gs_status r, gs_status_observed_at r)"

definition restriction_cell :: "gateway_session \<Rightarrow> json option cell" where
  "restriction_cell r = (gs_restriction r, gs_restriction_observed_at r)"

lemma find_observe:
  assumes "find_session sid rows = Some r"
  shows "\<exists>r'. find_session sid (observe ob rows) = Some r'
    \<and> status_cell r' = see (observed_status sid ob) (status_cell r)
    \<and> restriction_cell r' = see (observed_restriction sid ob) (restriction_cell r)"
proof -
  have id: "gs_id r = sid" "r \<in> set rows" using find_by_Some assms unfolding find_session_def by metis+
  have upd: "find_session sid (sql_update f rows) = Some (row_after f r)"
    if "\<And>x x'. f x = Some x' \<Longrightarrow> gs_id x' = gs_id x" for f
    using find_by_sql_update [of f gs_id sid rows, OF that] assms by (simp add: find_session_def row_after_def)
  show ?thesis
  proof (cases ob)
    case (Snapshot s now)
    show ?thesis
    proof (cases "os_id s \<in> gs_id ` set rows")
      case True
      have "find_session sid (observe ob rows) = Some (row_after (session_conflict s now) r)"
        using upd [of "session_conflict s now"] True by (simp add: Snapshot upsert_session_def session_conflict_def)
      then show ?thesis using id(1)
        by (auto simp: Snapshot row_after_def session_conflict_def sql_where_def status_cell_def restriction_cell_def
          see_def newer_def max_def)
    next
      case False
      then have "os_id s \<noteq> sid" using id by auto
      then show ?thesis using False assms
        by (simp add: Snapshot upsert_session_def find_session_def find_by_append see_def)
    qed
  next
    case (StatusEvent sid' status seen now)
    have "find_session sid (observe ob rows) = Some (row_after (status_event_row sid' status seen now) r)"
      using upd [of "status_event_row sid' status seen now"] by (simp add: StatusEvent status_event_row_def)
    then show ?thesis using id(1)
      by (auto simp: StatusEvent row_after_def status_event_row_def sql_where_def status_cell_def restriction_cell_def
        see_def newer_def)
  next
    case (RestrictionEvent sid' v seen now)
    have "find_session sid (observe ob rows) = Some (row_after (restriction_event_row sid' v seen now) r)"
      using upd [of "restriction_event_row sid' v seen now"] by (simp add: RestrictionEvent restriction_event_row_def)
    then show ?thesis using id(1)
      by (auto simp: RestrictionEvent row_after_def restriction_event_row_def sql_where_def status_cell_def
        restriction_cell_def see_def newer_def)
  qed
qed

text \<open>Observations of one cell with different times commute.\<close>

lemma see_commute:
  assumes "\<And>x y. a = Some x \<Longrightarrow> b = Some y \<Longrightarrow> x = y \<or> snd x \<noteq> snd y"
  shows "see a \<circ> see b = see b \<circ> see a"
  using assms by (auto simp: fun_eq_iff see_def newer_def split: option.splits)

lemma find_observe_all:
  assumes "find_session sid rows = Some r"
  shows "\<exists>r'. find_session sid (fold observe obs rows) = Some r'
    \<and> status_cell r' = fold (see \<circ> observed_status sid) obs (status_cell r)
    \<and> restriction_cell r' = fold (see \<circ> observed_restriction sid) obs (restriction_cell r)"
  using assms
proof (induction obs arbitrary: rows r)
  case (Cons ob obs)
  obtain r1 where "find_session sid (observe ob rows) = Some r1"
      "status_cell r1 = see (observed_status sid ob) (status_cell r)"
      "restriction_cell r1 = see (observed_restriction sid ob) (restriction_cell r)"
    using find_observe [OF Cons.prems] by blast
  then show ?case using Cons.IH [of "observe ob rows" r1] by simp
qed simp

definition clear_order :: "(observation \<Rightarrow> 'a cell option) \<Rightarrow> observation list \<Rightarrow> bool" where
  "clear_order cell obs \<longleftrightarrow> distinct (map snd (List.map_filter cell obs))"

lemma clear_order_times:
  assumes "clear_order cell obs" "ob \<in> set obs" "ob' \<in> set obs" "cell ob = Some x" "cell ob' = Some y"
  shows "x = y \<or> snd x \<noteq> snd y"
proof -
  have "x \<in> set (List.map_filter cell obs)" "y \<in> set (List.map_filter cell obs)"
    using assms(2-5) by (force simp: map_filter_def)+
  then show ?thesis using assms(1) unfolding clear_order_def distinct_map by (blast dest: inj_onD)
qed

lemma fold_see_mset:
  assumes "clear_order cell obs" "mset obs = mset obs'"
  shows "fold (see \<circ> cell) obs z = fold (see \<circ> cell) obs' z"
proof -
  have "fold (see \<circ> cell) obs = fold (see \<circ> cell) obs'"
  proof (rule fold_multiset_equiv [OF _ assms(2)])
    show "(see \<circ> cell) x \<circ> (see \<circ> cell) y = (see \<circ> cell) y \<circ> (see \<circ> cell) x" if "x \<in> set obs" "y \<in> set obs" for x y
      using see_commute [of "cell x" "cell y"] clear_order_times [OF assms(1) that] by simp
  qed
  then show ?thesis by simp
qed

text \<open>However the snapshots and webhook events of a known session are ordered, its status and its
  restriction and the times they were observed come out the same, as long as no two observations of one
  of them have the same time; each observation is applied as a cell that a newer one replaces.\<close>

theorem session_observations_commute:
  assumes "find_session sid rows = Some r" "mset obs = mset obs'"
    and "clear_order (observed_status sid) obs" "clear_order (observed_restriction sid) obs"
  shows "\<exists>r1 r2. find_session sid (fold observe obs rows) = Some r1 \<and> find_session sid (fold observe obs' rows) = Some r2
    \<and> gs_status r1 = gs_status r2 \<and> gs_restriction r1 = gs_restriction r2
    \<and> gs_status_observed_at r1 = gs_status_observed_at r2
    \<and> gs_restriction_observed_at r1 = gs_restriction_observed_at r2
    \<and> status_cell r1 = fold (see \<circ> observed_status sid) obs (status_cell r)"
proof -
  obtain r1 where r1: "find_session sid (fold observe obs rows) = Some r1"
      "status_cell r1 = fold (see \<circ> observed_status sid) obs (status_cell r)"
      "restriction_cell r1 = fold (see \<circ> observed_restriction sid) obs (restriction_cell r)"
    using find_observe_all [OF assms(1)] by blast
  obtain r2 where r2: "find_session sid (fold observe obs' rows) = Some r2"
      "status_cell r2 = fold (see \<circ> observed_status sid) obs' (status_cell r)"
      "restriction_cell r2 = fold (see \<circ> observed_restriction sid) obs' (restriction_cell r)"
    using find_observe_all [OF assms(1)] by blast
  have "status_cell r1 = status_cell r2" "restriction_cell r1 = restriction_cell r2"
    using r1(2,3) r2(2,3) fold_see_mset [OF assms(3,2)] fold_see_mset [OF assms(4,2)] by simp_all
  then show ?thesis using r1(1,2) r2(1) by (intro exI [of _ r1] exI [of _ r2]) (simp add: status_cell_def restriction_cell_def)
qed


definition sample_upstream :: "string \<Rightarrow> timestamp \<Rightarrow> openwa_session" where
  "sample_upstream status t = \<lparr>os_id = ''s1'', os_profile = plain_profile, os_status = status,
     os_engine_loaded = True, os_restriction = None, os_updated_at = t\<rparr>"

lemma session_observations_commute_witness:
  "\<exists>r. find_session ''s1'' (fold observe [StatusEvent ''s1'' ''failed'' 9 20, Snapshot (sample_upstream ''ready'' 5) 21]
      (upsert_session (sample_upstream ''created'' 0) 0 [])) = Some r \<and> gs_status r = ''failed''"
proof -
  let ?rows = "upsert_session (sample_upstream ''created'' 0) 0 []"
  let ?obs = "[Snapshot (sample_upstream ''ready'' 5) 21, StatusEvent ''s1'' ''failed'' 9 20]"
  have row: "find_session ''s1'' ?rows = Some (session_insert (sample_upstream ''created'' 0) 0)"
    by (simp add: find_session_def upsert_session_def session_insert_def sample_upstream_def)
  have order: "clear_order (observed_status ''s1'') ?obs" "clear_order (observed_restriction ''s1'') ?obs"
    by (simp_all add: clear_order_def map_filter_simps sample_upstream_def)
  have perm: "mset ?obs = mset (rev ?obs)" by simp
  have cell: "fold (see \<circ> observed_status ''s1'') ?obs (status_cell (session_insert (sample_upstream ''created'' 0) 0))
      = (''failed'', 9)"
    by (simp add: see_def newer_def status_cell_def session_insert_def sample_upstream_def)
  obtain r1 r2 where "find_session ''s1'' (fold observe (rev ?obs) ?rows) = Some r2" "gs_status r1 = gs_status r2"
      "status_cell r1 = (''failed'', 9)"
    using session_observations_commute [OF row perm order] unfolding cell by blast
  then show ?thesis by (intro exI [of _ r2]) (simp add: status_cell_def)
qed

end
