(* ===== verification/Sync_Service.thy ===== *)
theory Sync_Service
  imports Sync_Progress Sessions
begin

text \<open>
  The work of the gateway synchronization queue, src/src/modules/gateway/gateway-sync.service.ts: a full
  synchronization, the reconciliation of one group for an item or for an intent, and the refresh of a send
  capability. Each is the sequence of statements of the method. Before its k-th statement the other workers
  and the heartbeat of the method have changed the database by \<open>others k\<close>, and \<open>clock k\<close> is the time of the
  statement.
\<close>

section \<open>Failed reads\<close>

text \<open>OpenWAResponseValidationError, OpenWAHttpError with its status and retryAfterMs, and any other error.\<close>

datatype read_error = InvalidResponse string | HttpError nat "int option" | OtherError string

fun read_message :: "read_error \<Rightarrow> string" where
  "read_message (InvalidResponse m) = m"
| "read_message (HttpError status retry_after) = ''OpenWA returned HTTP '' @ decimal status"
| "read_message (OtherError m) = m"

definition policy :: "bool \<Rightarrow> bool \<Rightarrow> string \<Rightarrow> failure_policy" where
  "policy retryable pressure code = \<lparr>fp_retryable = retryable, fp_rate_pressure = pressure, fp_reduce_rate = False,
     fp_retry_after_ms = None, fp_code = code\<rparr>"

fun classify_group_read_failure :: "read_error \<Rightarrow> failure_policy" where
  "classify_group_read_failure (InvalidResponse m) = policy False False ''INVALID_RESPONSE''"
| "classify_group_read_failure (HttpError status retry_after) =
     (if status = 429 then (policy True True ''RATE_LIMITED'')\<lparr>fp_reduce_rate := True, fp_retry_after_ms := retry_after\<rparr>
      else if 500 \<le> status then policy True True ''UPSTREAM_SERVER_ERROR''
      else if status = 409 then policy True False ''UPSTREAM_CONFLICT''
      else policy False False (''UPSTREAM_HTTP_'' @ decimal status))"
| "classify_group_read_failure (OtherError m) = policy True True ''UPSTREAM_NETWORK_ERROR''"

fun group_not_found :: "read_error \<Rightarrow> bool" where
  "group_not_found (HttpError status retry_after) = (status = 404)"
| "group_not_found e = False"

definition persistence_policy :: failure_policy where
  "persistence_policy = policy True False ''PERSISTENCE_ERROR''"

section \<open>Requests\<close>

text \<open>request and the 409 it makes of a mode conflict.\<close>

definition request_sync ::
  "runtime_config \<Rightarrow> uuid \<Rightarrow> string \<Rightarrow> sync_mode \<Rightarrow> timestamp \<Rightarrow> gateway_db
    \<Rightarrow> gateway_db \<times> ((api_error + sync_conflict) + uuid)" where
  "request_sync c rid sid mode now g =
     (if \<not> is_allowed c sid then (g, Inl (Inl (Forbidden ''Session is not in OPENWA_ALLOWED_SESSION_IDS'')))
      else case create_sync_run rid sid mode now (sync_runs (gw_sync g)) of
        (rs, Inl conflict) \<Rightarrow> (on_runs (\<lambda>_. rs) g, Inl (Inr conflict))
      | (rs, Inr run) \<Rightarrow> (on_runs (\<lambda>_. rs) g, Inr run))"

section \<open>A full synchronization\<close>

text \<open>
  What a run of perform meets: the times and the other workers, what the heartbeat has set ownershipLost to
  at each check, and the answers of the gateway. gen_random_uuid() names the item of a group by \<open>pf_ids\<close> of the
  items there are.
\<close>

record perform_input =
  pf_token :: uuid
  pf_ids :: "sync_item table \<Rightarrow> string \<Rightarrow> uuid"
  pf_wall :: timestamp
  pf_clock :: "nat \<Rightarrow> timestamp"
  pf_others :: "nat \<Rightarrow> gateway_db \<Rightarrow> gateway_db"
  pf_lost :: "nat \<Rightarrow> bool"
  pf_release :: "string option"
  pf_session :: "string + openwa_session"
  pf_groups :: "string + group_summary list"

definition lost_ownership :: string where
  "lost_ownership = ''Gateway sync attempt lost ownership''"

definition assert_sync_ownership ::
  "uuid \<Rightarrow> uuid \<Rightarrow> bool \<Rightarrow> timestamp \<Rightarrow> gateway_db \<Rightarrow> gateway_db \<times> (string + unit)" where
  "assert_sync_ownership rid tok lost now g =
     (if lost then (g, Inl lost_ownership)
      else case renew_sync_lease rid tok now (sync_runs (gw_sync g)) of
        (rs, renewed) \<Rightarrow> (on_runs (\<lambda>_. rs) g, if renewed then Inr () else Inl lost_ownership))"

datatype perform_result = PerformSkipped | PerformDiscovered nat

text \<open>A statement and what follows it; an error leaves the state for the catch block.\<close>

definition then_do ::
  "gateway_db \<times> (string + 'a) \<Rightarrow> ('a \<Rightarrow> gateway_db \<Rightarrow> gateway_db \<times> (string + 'b)) \<Rightarrow> gateway_db \<times> (string + 'b)" where
  "then_do m f = (case m of (g, Inl e) \<Rightarrow> (g, Inl e) | (g, Inr x) \<Rightarrow> f x g)"

definition store_session ::
  "sync_write_fence \<Rightarrow> openwa_session \<Rightarrow> timestamp \<Rightarrow> gateway_db \<Rightarrow> gateway_db \<times> (string + unit)" where
  "store_session w s now g = (case upsert_session_fenced s w now (gw_sync g) (gw_sessions g) of
     Inl e \<Rightarrow> (g, Inl e) | Inr ss \<Rightarrow> (g\<lparr>gw_sessions := ss\<rparr>, Inr ()))"

definition publish_run ::
  "runtime_config \<Rightarrow> (summary_fields \<Rightarrow> string) \<Rightarrow> (string list \<Rightarrow> string) \<Rightarrow> perform_input \<Rightarrow> sync_write_fence
    \<Rightarrow> string \<Rightarrow> group_summary list \<Rightarrow> gateway_db \<Rightarrow> gateway_db \<times> (string + perform_result)" where
  "publish_run c digest ids_digest i w sid groups g =
     (case find_sync_run (wf_run_id w) (gw_sync g) of
        None \<Rightarrow> (g, Inr PerformSkipped)
      | Some v \<Rightarrow>
          (let g6 = pf_others i 6 g in
           case publish_discovery c digest ids_digest (pf_ids i (sync_items (gw_sync g6))) w sid (sr_mode (sv_run v))
              groups (pf_wall i) (pf_clock i 6) g6 of
             (g', Inl e) \<Rightarrow> (g', Inl e)
           | (g', Inr d) \<Rightarrow> (g', Inr (if dr_deferred d then PerformSkipped else PerformDiscovered (dr_discovered d)))))"

text \<open>The try block from the claim on.\<close>

definition perform_body ::
  "runtime_config \<Rightarrow> (summary_fields \<Rightarrow> string) \<Rightarrow> (string list \<Rightarrow> string) \<Rightarrow> perform_input \<Rightarrow> uuid
    \<Rightarrow> claimed_sync \<Rightarrow> gateway_db \<Rightarrow> gateway_db \<times> (string + perform_result)" where
  "perform_body c digest ids_digest i rid claim g0 =
     (let w = \<lparr>wf_run_id = rid, wf_token = cs_token claim, wf_epoch = cs_epoch claim\<rparr>;
          own = (\<lambda>k g. assert_sync_ownership rid (cs_token claim) (pf_lost i k) (pf_clock i k) (pf_others i k g)) in
      then_do (g0, case pf_release i of None \<Rightarrow> Inr () | Some e \<Rightarrow> Inl e) (\<lambda>_ g.
      then_do (own 1 g) (\<lambda>_ g.
      then_do (g, pf_session i) (\<lambda>s g.
      then_do (store_session w s (pf_clock i 2) (pf_others i 2 g)) (\<lambda>_ g.
      then_do (own 3 g) (\<lambda>_ g.
      then_do (g, pf_groups i) (\<lambda>groups g.
      then_do (own 4 g) (\<lambda>_ g.
        publish_run c digest ids_digest i w (cs_session_id claim) groups (pf_others i 5 g)))))))))"

definition perform ::
  "runtime_config \<Rightarrow> (summary_fields \<Rightarrow> string) \<Rightarrow> (string list \<Rightarrow> string) \<Rightarrow> perform_input \<Rightarrow> uuid
    \<Rightarrow> gateway_db \<Rightarrow> gateway_db \<times> (string + perform_result)" where
  "perform c digest ids_digest i rid g =
     (case claim_sync_run rid (pf_token i) (pf_clock i 0) (gw_sync g) of
        (sd, None) \<Rightarrow> (g\<lparr>gw_sync := sd\<rparr>, Inr PerformSkipped)
      | (sd, Some claim) \<Rightarrow>
          (case perform_body c digest ids_digest i rid claim (g\<lparr>gw_sync := sd\<rparr>) of
             (g', Inr r) \<Rightarrow> (g', Inr r)
           | (g', Inl e) \<Rightarrow> (on_runs (\<lambda>rs. fst (fail_sync_attempt rid (cs_token claim) 0 0 e (pf_clock i 7) rs))
               (pf_others i 7 g'), Inl e)))"

section \<open>Writing the details of a group\<close>

text \<open>
  upsertGroupDetails under the fence of an item: the transaction reads now() once, and renews the leases of
  the item and of the pacing by the clock at its end. group_members and the contacts it seeds are outside.
\<close>

definition touch_item_row :: "uuid \<Rightarrow> uuid \<Rightarrow> timestamp \<Rightarrow> sync_item row_update" where
  "touch_item_row xid tok clock = sql_where
     (\<lambda>x. si_id x = xid \<and> si_status x = SI_RUNNING \<and> si_lease_token x = Some tok)
     (\<lambda>x. x\<lparr>si_lease_expires_at := Some (clock + lease_ttl)\<rparr>)"

definition touch_intent_row :: "intent_write_fence \<Rightarrow> timestamp \<Rightarrow> group_intent row_update" where
  "touch_intent_row w clock = sql_where
     (\<lambda>x. intent_key x = (nf_session_id w, nf_group_id w) \<and> in_status x = I_RUNNING
        \<and> in_lease_token x = Some (nf_token w) \<and> in_claimed x = Some (nf_claimed w))
     (\<lambda>x. x\<lparr>in_lease_expires_at := Some (clock + lease_ttl)\<rparr>)"

definition upsert_details_item ::
  "string \<Rightarrow> group_detail \<Rightarrow> item_write_fence \<Rightarrow> timestamp \<Rightarrow> timestamp \<Rightarrow> gateway_db
    \<Rightarrow> gateway_db \<times> (string + nat)" where
  "upsert_details_item sid d w now clock g =
     (let sd = gw_sync g; touch = touch_item_row (if_item_id w) (if_token w) clock in
      case assert_item_write w now sd of Inl e \<Rightarrow> (g, Inl e)
      | Inr _ \<Rightarrow>
          (case apply_details sid d None None now (gw_groups g) of (gs, members, applied) \<Rightarrow>
             if sql_count touch (sync_items sd) \<noteq> 1 then (g, Inl ''Gateway sync item lost write ownership'')
             else (case renew_group_read_lease sid (if_token w) clock (rate_limits sd) of
                 Inl e \<Rightarrow> (g, Inl e)
               | Inr limits \<Rightarrow> (g\<lparr>gw_sync := sd\<lparr>sync_items := sql_update touch (sync_items sd), rate_limits := limits\<rparr>,
                   gw_groups := gs\<rparr>, Inr members))))"

definition upsert_details_intent ::
  "string \<Rightarrow> group_detail \<Rightarrow> intent_write_fence \<Rightarrow> timestamp \<Rightarrow> timestamp \<Rightarrow> gateway_db
    \<Rightarrow> gateway_db \<times> (string + nat)" where
  "upsert_details_intent sid d w now clock g =
     (let sd = gw_sync g; touch = touch_intent_row w clock in
      case assert_intent_write w now (group_intents sd) of Inl e \<Rightarrow> (g, Inl e)
      | Inr _ \<Rightarrow>
          (case apply_details sid d None None now (gw_groups g) of (gs, members, applied) \<Rightarrow>
             if sql_count touch (group_intents sd) \<noteq> 1 then (g, Inl ''Gateway group intent lost write ownership'')
             else (case renew_group_read_lease sid (nf_token w) clock (rate_limits sd) of
                 Inl e \<Rightarrow> (g, Inl e)
               | Inr limits \<Rightarrow> (g\<lparr>gw_sync := sd\<lparr>group_intents := sql_update touch (group_intents sd),
                   rate_limits := limits\<rparr>, gw_groups := gs\<rparr>, Inr members))))"

section \<open>The reconciliation of a group\<close>

text \<open>The two jitters are 0.8 + Math.random() * 0.4 in thousandths, for the row and for the cooldown.\<close>

record reconcile_input =
  rc_token :: uuid
  rc_clock :: "nat \<Rightarrow> timestamp"
  rc_others :: "nat \<Rightarrow> gateway_db \<Rightarrow> gateway_db"
  rc_lost :: bool
  rc_read :: "read_error + group_detail"
  rc_noise :: int
  rc_cooldown_noise :: int

datatype reconcile_result = ReconcileSkipped | Reconciled nat bool

definition item_failure ::
  "runtime_config \<Rightarrow> reconcile_input \<Rightarrow> uuid \<Rightarrow> failure_policy \<Rightarrow> gateway_db \<Rightarrow> gateway_db" where
  "item_failure c i xid p g = on_sync (\<lambda>sd. fst (fail_item c xid (rc_token i) (fp_code p) p (rc_noise i)
     (rc_cooldown_noise i) (rc_clock i 4) sd)) g"

definition reconcile_group ::
  "runtime_config \<Rightarrow> reconcile_input \<Rightarrow> uuid \<Rightarrow> gateway_db \<Rightarrow> gateway_db \<times> (string + reconcile_result)" where
  "reconcile_group c i xid g0 =
     (case claim_item c xid (rc_token i) (rc_clock i 0) (gw_sync g0) of
        (sd, None) \<Rightarrow> (g0\<lparr>gw_sync := sd\<rparr>, Inr ReconcileSkipped)
      | (sd, Some claim) \<Rightarrow>
          (let tok = rc_token i; g1 = rc_others i 1 (g0\<lparr>gw_sync := sd\<rparr>) in
           case rc_read i of
             Inl e \<Rightarrow>
               (if group_not_found e then
                   (on_sync (\<lambda>sd. fst (skip_item xid tok (read_message e) (rc_clock i 1) sd)) g1, Inr ReconcileSkipped)
                else (item_failure c i xid (classify_group_read_failure e) g1, Inl (read_message e)))
           | Inr d \<Rightarrow>
               if rc_lost i then (g1, Inr ReconcileSkipped)
               else (case renew_item xid tok (rc_clock i 1) (gw_sync g1) of
                   (sd1, False) \<Rightarrow> (g1\<lparr>gw_sync := sd1\<rparr>, Inr ReconcileSkipped)
                 | (sd1, True) \<Rightarrow>
                     (case upsert_details_item (ic_session_id claim) d
                         \<lparr>if_item_id = xid, if_run_id = ic_run_id claim, if_session_id = ic_session_id claim,
                          if_token = tok, if_epoch = coalesce (ic_epoch claim) 0\<rparr>
                         (rc_clock i 2) (rc_clock i 3) (rc_others i 2 (g1\<lparr>gw_sync := sd1\<rparr>)) of
                        (g2, Inl e) \<Rightarrow> (item_failure c i xid persistence_policy (rc_others i 4 g2), Inl e)
                      | (g2, Inr members) \<Rightarrow>
                          (case complete_item c xid tok members (rc_clock i 3) (rc_others i 3 g2) of
                             (g3, False) \<Rightarrow> (g3, Inr ReconcileSkipped)
                           | (g3, True) \<Rightarrow> (g3, Inr (Reconciled members False)))))))"

definition intent_failure ::
  "runtime_config \<Rightarrow> reconcile_input \<Rightarrow> string \<Rightarrow> string \<Rightarrow> nat \<Rightarrow> failure_policy \<Rightarrow> gateway_db \<Rightarrow> gateway_db" where
  "intent_failure c i sid gid revision p g = on_sync (\<lambda>sd. fst (fail_intent c sid gid (rc_token i) revision p
     (rc_noise i) (rc_cooldown_noise i) (rc_clock i 4) sd)) g"

definition reconcile_targeted_group ::
  "runtime_config \<Rightarrow> reconcile_input \<Rightarrow> string \<Rightarrow> string \<Rightarrow> gateway_db \<Rightarrow> gateway_db \<times> (string + reconcile_result)" where
  "reconcile_targeted_group c i sid gid g0 =
     (if \<not> is_allowed c sid then (g0, Inl ''Session is not in OPENWA_ALLOWED_SESSION_IDS'')
      else case claim_intent c sid gid (rc_token i) (rc_clock i 0) (gw_sync g0) of
        (sd, None) \<Rightarrow> (g0\<lparr>gw_sync := sd\<rparr>, Inr ReconcileSkipped)
      | (sd, Some (revision, attempt, coalesced, requested_at)) \<Rightarrow>
          (let tok = rc_token i; g1 = rc_others i 1 (g0\<lparr>gw_sync := sd\<rparr>) in
           case rc_read i of
             Inl e \<Rightarrow>
               (if group_not_found e then
                   (on_sync (\<lambda>sd. fst (skip_missing sid gid tok revision (rc_clock i 1) sd)) g1, Inr ReconcileSkipped)
                else (intent_failure c i sid gid revision (classify_group_read_failure e) g1, Inl (read_message e)))
           | Inr d \<Rightarrow>
               if rc_lost i then (g1, Inr ReconcileSkipped)
               else (case renew_intent sid gid tok (rc_clock i 1) (gw_sync g1) of
                   (sd1, False) \<Rightarrow> (g1\<lparr>gw_sync := sd1\<rparr>, Inr ReconcileSkipped)
                 | (sd1, True) \<Rightarrow>
                     (case upsert_details_intent sid d
                         \<lparr>nf_session_id = sid, nf_group_id = gid, nf_token = tok, nf_claimed = revision\<rparr>
                         (rc_clock i 2) (rc_clock i 3) (rc_others i 2 (g1\<lparr>gw_sync := sd1\<rparr>)) of
                        (g2, Inl e) \<Rightarrow> (intent_failure c i sid gid revision persistence_policy (rc_others i 4 g2), Inl e)
                      | (g2, Inr members) \<Rightarrow>
                          (let g3 = rc_others i 3 g2 in
                           case complete_intent c sid gid tok revision (rc_clock i 3) (gw_sync g3) of
                             (sd3, outcome) \<Rightarrow> (g3\<lparr>gw_sync := sd3\<rparr>,
                               Inr (if outcome = IntentLost then ReconcileSkipped
                                 else Reconciled members (outcome = IntentPending))))))))"

section \<open>The refresh of a capability\<close>

record refresh_input =
  rf_pacing_token :: uuid
  rf_token :: uuid
  rf_clock :: "nat \<Rightarrow> timestamp"
  rf_others :: "nat \<Rightarrow> gateway_db \<Rightarrow> gateway_db"
  rf_read :: "read_error + group_detail"
  rf_store_error :: "string option"
  rf_noise :: int

definition on_limits :: "(rate_limit table \<Rightarrow> rate_limit table) \<Rightarrow> gateway_db \<Rightarrow> gateway_db" where
  "on_limits f = on_sync (\<lambda>sd. sd\<lparr>rate_limits := f (rate_limits sd)\<rparr>)"

definition refresh_failure ::
  "runtime_config \<Rightarrow> refresh_input \<Rightarrow> string \<Rightarrow> string \<Rightarrow> nat \<Rightarrow> failure_policy \<Rightarrow> gateway_db \<Rightarrow> gateway_db" where
  "refresh_failure c i sid gid rv p g =
     (let g1 = rf_others i 4 (on_limits (record_outcome c sid (rf_pacing_token i)
          (request_outcome False (fp_rate_pressure p) (fp_reduce_rate p)) (rf_noise i) (rf_clock i 3)) g) in
      g1\<lparr>gw_groups := fst (fail_refresh sid gid rv (fp_code p) (fp_retryable p) (rf_token i) (rf_clock i 4) (gw_groups g1))\<rparr>)"

definition refresh_group_capability ::
  "runtime_config \<Rightarrow> refresh_input \<Rightarrow> string \<Rightarrow> string \<Rightarrow> nat \<Rightarrow> gateway_db \<Rightarrow> gateway_db \<times> (string + bool)" where
  "refresh_group_capability c i sid gid rv g0 =
     (if \<not> is_allowed c sid then (g0, Inl ''Session is not in OPENWA_ALLOWED_SESSION_IDS'')
      else let ptok = rf_pacing_token i in
        case reserve c sid ptok (rf_clock i 0) (rate_limits (gw_sync g0)) of
          (limits, None) \<Rightarrow> (on_limits (\<lambda>_. limits) g0, Inr False)
        | (limits, Some lease) \<Rightarrow>
            (let g1 = rf_others i 1 (on_limits (\<lambda>_. limits) g0) in
             case claim_refresh sid gid rv (sync_runs (gw_sync g1)) (rf_token i) (rf_clock i 1) (gw_groups g1) of
               (gs, None) \<Rightarrow> (on_limits (sql_update (release_row sid ptok)) (rf_others i 2 (g1\<lparr>gw_groups := gs\<rparr>)), Inr False)
             | (gs, Some claim) \<Rightarrow>
                 (let g2 = rf_others i 2 (g1\<lparr>gw_groups := gs\<rparr>) in
                  case rf_read i of
                    Inl e \<Rightarrow> (refresh_failure c i sid gid rv (classify_group_read_failure e) g2, Inl (read_message e))
                  | Inr d \<Rightarrow> (case rf_store_error i of
                      Some e \<Rightarrow> (refresh_failure c i sid gid rv persistence_policy g2, Inl e)
                    | None \<Rightarrow>
                        (case apply_details sid d (Some rv) (Some (rf_token i)) (rf_clock i 2) (gw_groups g2) of
                           (gs2, members, applied) \<Rightarrow>
                             (on_limits (record_outcome c sid ptok None 0 (rf_clock i 3))
                                (rf_others i 3 (g2\<lparr>gw_groups := gs2\<rparr>)), Inr applied))))))"

section \<open>The queue\<close>

datatype sync_job = RefreshJob string string nat | ReconcileJob uuid | TargetedJob string string | FullJob uuid

text \<open>gateway-sync-processor.service.ts: the name of a job selects the method.\<close>

definition process_sync_job ::
  "runtime_config \<Rightarrow> (summary_fields \<Rightarrow> string) \<Rightarrow> (string list \<Rightarrow> string) \<Rightarrow> perform_input \<Rightarrow> reconcile_input
    \<Rightarrow> refresh_input \<Rightarrow> sync_job \<Rightarrow> gateway_db \<Rightarrow> gateway_db" where
  "process_sync_job c digest ids_digest full item refresh job g = (case job of
     RefreshJob sid gid rv \<Rightarrow> fst (refresh_group_capability c refresh sid gid rv g)
   | ReconcileJob xid \<Rightarrow> fst (reconcile_group c item xid g)
   | TargetedJob sid gid \<Rightarrow> fst (reconcile_targeted_group c item sid gid g)
   | FullJob rid \<Rightarrow> fst (perform c digest ids_digest full rid g))"

text \<open>
  dispatchOnce of gateway-dispatch.tick.ts: four recoveries, then the lists of due work, each job with its
  priority and the time from which it is due. What the queue refuses stays in the database for the next tick.
\<close>

record queued_job =
  qj_job :: sync_job
  qj_priority :: nat
  qj_delay :: int

definition dispatch_recoveries :: "runtime_config \<Rightarrow> (nat \<Rightarrow> timestamp) \<Rightarrow> gateway_db \<Rightarrow> gateway_db" where
  "dispatch_recoveries c clock g =
     (let g1 = on_runs (\<lambda>rs. fst (recover_sync_runs (clock 0) rs)) g;
          g2 = on_sync (\<lambda>sd. fst (recover_items c (clock 1) sd)) g1;
          g3 = g2\<lparr>gw_groups := fst (recover_refreshes (clock 2) (gw_groups g2))\<rparr> in
      on_sync (\<lambda>sd. fst (recover_intents c (clock 3) sd)) g3)"

definition dispatch_jobs :: "runtime_config \<Rightarrow> timestamp \<Rightarrow> timestamp \<Rightarrow> gateway_db \<Rightarrow> queued_job list" where
  "dispatch_jobs c now wall g = (let sd = gw_sync g in
     map (\<lambda>r. \<lparr>qj_job = FullJob (sr_id r), qj_priority = 0, qj_delay = 0\<rparr>) (list_pending_sync 100 now (sync_runs sd))
     @ map (\<lambda>(xid, rid, sid, gid, available). \<lparr>qj_job = ReconcileJob xid, qj_priority = 10,
         qj_delay = max 0 (available - wall)\<rparr>) (list_dispatchable_items c 100 now sd)
     @ map (\<lambda>(sid, gid, rv). \<lparr>qj_job = RefreshJob sid gid rv, qj_priority = 1, qj_delay = 0\<rparr>)
         (list_needing_refresh 100 (sync_runs sd) (group_intents sd) now (gw_groups g))
     @ map (\<lambda>(sid, gid, rv, available). \<lparr>qj_job = TargetedJob sid gid, qj_priority = 5,
         qj_delay = max 0 (available - wall)\<rparr>) (list_dispatchable_intents c 100 now sd))"

definition dispatch_once ::
  "runtime_config \<Rightarrow> (nat \<Rightarrow> timestamp) \<Rightarrow> timestamp \<Rightarrow> (queued_job \<Rightarrow> bool) \<Rightarrow> gateway_db
    \<Rightarrow> gateway_db \<times> queued_job list" where
  "dispatch_once c clock wall takes g = (let g' = dispatch_recoveries c clock g in
     (g', filter takes (dispatch_jobs c (clock 4) wall g')))"

section \<open>The invariant of the synchronization through the service\<close>

definition keeps_sync :: "(gateway_db \<Rightarrow> gateway_db) \<Rightarrow> bool" where
  "keeps_sync f \<longleftrightarrow> (\<forall>g. sync_ok g \<longrightarrow> sync_ok (f g))"

lemma keeps_syncD [dest]: "keeps_sync f \<Longrightarrow> sync_ok g \<Longrightarrow> sync_ok (f g)"
  by (simp add: keeps_sync_def)

lemma keeps_sync_id: "keeps_sync (\<lambda>g. g)"
  by (simp add: keeps_sync_def)

named_theorems sync_kept \<open>steps that keep the invariant of the synchronization\<close>

lemma sync_ok_gateway [sync_kept]:
  assumes "sync_ok g"
  shows "sync_ok (g\<lparr>gw_sessions := ss\<rparr>)" "sync_ok (g\<lparr>gw_groups := gs\<rparr>)" "sync_ok (on_limits f g)"
    "sync_ok (on_sync (\<lambda>sd. sd\<lparr>rate_limits := limits\<rparr>) g)"
  using assms by (auto intro: sync_ok_same simp: on_limits_def on_sync_def)

lemma sync_ok_statements [sync_kept]:
  assumes "sync_ok g"
  shows "sync_ok (on_sync (\<lambda>sd. fst (claim_sync_run rid tok now sd)) g)"
    and "sync_ok (on_runs (\<lambda>rs. fst (renew_sync_lease rid tok now rs)) g)"
    and "sync_ok (on_runs (\<lambda>rs. fst (fail_sync_attempt rid tok n m e now rs)) g)"
    and "sync_ok (on_runs (\<lambda>rs. fst (recover_sync_runs now rs)) g)"
    and "sync_ok (on_sync (\<lambda>sd. fst (claim_item c xid tok now sd)) g)"
    and "sync_ok (on_sync (\<lambda>sd. fst (renew_item xid tok now sd)) g)"
    and "sync_ok (fst (complete_item c xid tok members now g))"
    and "sync_ok (on_sync (\<lambda>sd. fst (skip_item xid tok e now sd)) g)"
    and "sync_ok (on_sync (\<lambda>sd. fst (fail_item c xid tok e p noise noise' now sd)) g)"
    and "sync_ok (on_sync (\<lambda>sd. fst (recover_items c now sd)) g)"
    and "sync_ok (on_sync (intent_apply c op) g)"
  using sync_ok_apply [OF assms, of "SClaim rid tok now"] sync_ok_apply [OF assms, of "SRenew rid tok now"]
    sync_ok_apply [OF assms, of "SFail rid tok n m e now"] sync_ok_apply [OF assms, of "SRecover now"]
    sync_ok_apply [OF assms, of "SItemClaim xid tok now"] sync_ok_apply [OF assms, of "SItemRenew xid tok now"]
    sync_ok_apply [OF assms, of "SItemComplete xid tok members now"] sync_ok_apply [OF assms, of "SItemSkip xid tok e now"]
    sync_ok_apply [OF assms, of "SItemFail xid tok e p noise noise' now"] sync_ok_apply [OF assms, of "SItemRecover now"]
    sync_ok_apply [OF assms, of "SIntent op"]
  by simp_all

lemma sync_ok_on_sync: "sync_ok (on_sync (\<lambda>sd. sd') g) \<longleftrightarrow> sync_ok (g\<lparr>gw_sync := sd'\<rparr>)"
  by (simp add: on_sync_def)

text \<open>The same for a statement whose result the method looks at.\<close>

lemma sync_ok_results:
  assumes "sync_ok g"
  shows "claim_sync_run rid tok now (gw_sync g) = (sd, r) \<Longrightarrow> sync_ok (g\<lparr>gw_sync := sd\<rparr>)"
    and "renew_sync_lease rid tok now (sync_runs (gw_sync g)) = (rs, b) \<Longrightarrow> sync_ok (on_runs (\<lambda>_. rs) g)"
    and "claim_item c xid tok now (gw_sync g) = (sd, x) \<Longrightarrow> sync_ok (g\<lparr>gw_sync := sd\<rparr>)"
    and "renew_item xid tok now (gw_sync g) = (sd, b) \<Longrightarrow> sync_ok (g\<lparr>gw_sync := sd\<rparr>)"
    and "complete_item c xid tok members now g = (g', b) \<Longrightarrow> sync_ok g'"
    and "claim_intent c sid gid tok now (gw_sync g) = (sd, y) \<Longrightarrow> sync_ok (g\<lparr>gw_sync := sd\<rparr>)"
    and "renew_intent sid gid tok now (gw_sync g) = (sd, b) \<Longrightarrow> sync_ok (g\<lparr>gw_sync := sd\<rparr>)"
    and "complete_intent c sid gid tok rv now (gw_sync g) = (sd, o') \<Longrightarrow> sync_ok (g\<lparr>gw_sync := sd\<rparr>)"
  using sync_ok_statements(1) [OF assms, of rid tok now] sync_ok_statements(2) [OF assms, of rid tok now]
    sync_ok_statements(5) [OF assms, of c xid tok now] sync_ok_statements(6) [OF assms, of xid tok now]
    sync_ok_statements(7) [OF assms, of c xid tok members now]
    sync_ok_statements(11) [OF assms, of c "IClaim sid gid tok now"]
    sync_ok_statements(11) [OF assms, of c "IRenew sid gid tok now"]
    sync_ok_statements(11) [OF assms, of c "IComplete sid gid tok rv now"]
  by (auto simp: on_sync_def on_runs_def)

lemma item_update_touch: "item_update (touch_item_row xid tok clock)"
  by (auto simp: item_update_def touch_item_row_def items_open_def)

lemma sync_ok_details_item:
  assumes "sync_ok g" "upsert_details_item sid d w now clock g = (g', r)"
  shows "sync_ok g'"
proof (cases r)
  case (Inl e)
  then show ?thesis using assms by (auto simp: upsert_details_item_def Let_def split: sum.splits prod.splits if_splits)
next
  case (Inr members)
  have "touch_item_row (if_item_id w) (if_token w) clock x = Some x' \<Longrightarrow> si_status x' \<in> items_open" for x x'
    by (auto simp: touch_item_row_def items_open_def)
  then show ?thesis using assms(2) Inr
    by (intro sync_ok_open [OF assms(1) item_update_touch [of "if_item_id w" "if_token w" clock]])
      (auto simp: upsert_details_item_def Let_def split: sum.splits prod.splits if_splits)
qed

lemma sync_ok_details_intent:
  "sync_ok g \<Longrightarrow> upsert_details_intent sid d w now clock g = (g', r) \<Longrightarrow> sync_ok g'"
  by (rule sync_ok_same [of g])
    (auto simp: upsert_details_intent_def Let_def split: sum.splits prod.splits if_splits)

lemma reconcile_keeps_sync:
  assumes ok: "sync_ok g" and others: "\<And>k. keeps_sync (rc_others i k)"
  shows "sync_ok (fst (reconcile_group c i xid g))"
proof -
  obtain sd r where claim: "claim_item c xid (rc_token i) (rc_clock i 0) (gw_sync g) = (sd, r)" by fastforce
  have g0: "sync_ok (g\<lparr>gw_sync := sd\<rparr>)" by (rule sync_ok_results(3) [OF ok claim])
  show ?thesis
  proof (cases r)
    case None
    then show ?thesis using claim g0 by (simp add: reconcile_group_def)
  next
    case (Some cl)
    let ?g1 = "rc_others i 1 (g\<lparr>gw_sync := sd\<rparr>)"
    have g1: "sync_ok ?g1" using others g0 by blast
    show ?thesis
    proof (cases "rc_read i")
      case (Inl e)
      then show ?thesis using claim Some sync_ok_statements(8,9) [OF g1]
        by (simp add: reconcile_group_def item_failure_def Let_def)
    next
      case (Inr d)
      obtain sd1 owned where renew: "renew_item xid (rc_token i) (rc_clock i 1) (gw_sync ?g1) = (sd1, owned)" by fastforce
      have g2: "sync_ok (rc_others i 2 (?g1\<lparr>gw_sync := sd1\<rparr>))" using others sync_ok_results(4) [OF g1 renew] by blast
      let ?w = "\<lparr>if_item_id = xid, if_run_id = ic_run_id cl, if_session_id = ic_session_id cl,
        if_token = rc_token i, if_epoch = coalesce (ic_epoch cl) 0\<rparr>"
      obtain g3 res where upsert: "upsert_details_item (ic_session_id cl) d ?w (rc_clock i 2) (rc_clock i 3)
          (rc_others i 2 (?g1\<lparr>gw_sync := sd1\<rparr>)) = (g3, res)" by fastforce
      have g3: "sync_ok g3" by (rule sync_ok_details_item [OF g2 upsert])
      have settle: "sync_ok (fst (complete_item c xid (rc_token i) m (rc_clock i 3) (rc_others i 3 g3)))"
        "sync_ok (item_failure c i xid p (rc_others i 4 g3))" for m p
        using others g3 sync_ok_statements(7,9) unfolding item_failure_def by blast+
      show ?thesis
      proof (cases "rc_lost i \<or> \<not> owned")
        case True
        then show ?thesis using claim Some Inr renew g1 sync_ok_results(4) [OF g1 renew]
          by (auto simp: reconcile_group_def Let_def)
      next
        case False
        then show ?thesis using claim Some Inr renew upsert settle
          by (auto simp: reconcile_group_def Let_def split: sum.split prod.split bool.split) (metis fst_conv)+
      qed
    qed
  qed
qed

lemma targeted_keeps_sync:
  assumes ok: "sync_ok g" and others: "\<And>k. keeps_sync (rc_others i k)"
  shows "sync_ok (fst (reconcile_targeted_group c i sid gid g))"
proof (cases "is_allowed c sid")
  case allowed: True
  obtain sd r where claim: "claim_intent c sid gid (rc_token i) (rc_clock i 0) (gw_sync g) = (sd, r)" by fastforce
  have g0: "sync_ok (g\<lparr>gw_sync := sd\<rparr>)" by (rule sync_ok_results(6) [OF ok claim])
  show ?thesis
  proof (cases r)
    case None
    then show ?thesis using claim g0 allowed by (simp add: reconcile_targeted_group_def)
  next
    case (Some q)
    obtain rv a co at' where q: "q = (rv, a, co, at')" by (cases q) auto
    let ?g1 = "rc_others i 1 (g\<lparr>gw_sync := sd\<rparr>)"
    have g1: "sync_ok ?g1" using others g0 by blast
    have failing: "sync_ok h \<Longrightarrow> sync_ok (intent_failure c i sid gid rv p h)" for p h
      using sync_ok_statements(11) [of h c "IFail sid gid (rc_token i) rv p (rc_noise i) (rc_cooldown_noise i) (rc_clock i 4)"]
      by (simp add: intent_failure_def on_sync_def)
    have skipping: "sync_ok (on_sync (\<lambda>sd. fst (skip_missing sid gid (rc_token i) rv (rc_clock i 1) sd)) ?g1)"
      using sync_ok_statements(11) [OF g1, of c "ISkip sid gid (rc_token i) rv (rc_clock i 1)"]
      by (simp add: on_sync_def)
    show ?thesis
    proof (cases "rc_read i")
      case (Inl e)
      then show ?thesis using claim Some q allowed skipping failing [OF g1]
        by (simp add: reconcile_targeted_group_def Let_def)
    next
      case (Inr d)
      obtain sd1 owned where renew: "renew_intent sid gid (rc_token i) (rc_clock i 1) (gw_sync ?g1) = (sd1, owned)" by fastforce
      have g2: "sync_ok (rc_others i 2 (?g1\<lparr>gw_sync := sd1\<rparr>))" using others sync_ok_results(7) [OF g1 renew] by blast
      let ?w = "\<lparr>nf_session_id = sid, nf_group_id = gid, nf_token = rc_token i, nf_claimed = rv\<rparr>"
      obtain g3 res where upsert: "upsert_details_intent sid d ?w (rc_clock i 2) (rc_clock i 3)
          (rc_others i 2 (?g1\<lparr>gw_sync := sd1\<rparr>)) = (g3, res)" by fastforce
      have g3: "sync_ok g3" by (rule sync_ok_details_intent [OF g2 upsert])
      obtain sd4 o' where served: "complete_intent c sid gid (rc_token i) rv (rc_clock i 3) (gw_sync (rc_others i 3 g3)) = (sd4, o')"
        by fastforce
      have settle: "sync_ok ((rc_others i 3 g3)\<lparr>gw_sync := sd4\<rparr>)" "sync_ok (intent_failure c i sid gid rv p (rc_others i 4 g3))" for p
        using others g3 sync_ok_results(8) [OF _ served] failing by blast+
      show ?thesis
      proof (cases "rc_lost i \<or> \<not> owned")
        case True
        then show ?thesis using claim Some q Inr renew g1 sync_ok_results(7) [OF g1 renew] allowed
          by (auto simp: reconcile_targeted_group_def Let_def)
      next
        case False
        then show ?thesis using claim Some q Inr renew upsert settle served allowed
          by (cases res) (simp_all add: reconcile_targeted_group_def Let_def)
      qed
    qed
  qed
qed (use ok in \<open>simp add: reconcile_targeted_group_def\<close>)

lemma refresh_keeps_sync:
  assumes ok: "sync_ok g" and others: "\<And>k. keeps_sync (rf_others i k)"
  shows "sync_ok (fst (refresh_group_capability c i sid gid rv g))"
proof -
  have step: "sync_ok h \<Longrightarrow> sync_ok (rf_others i k h)" for h k using others by blast
  have failing: "sync_ok h \<Longrightarrow> sync_ok (refresh_failure c i sid gid rv p h)" for h p
    by (simp add: refresh_failure_def Let_def sync_ok_gateway step)
  show ?thesis using ok
    by (auto simp: refresh_group_capability_def Let_def sync_ok_gateway step failing
      split: prod.split option.split sum.split)
qed

text \<open>The fresh names of items.\<close>

definition fresh_items :: "(sync_item table \<Rightarrow> string \<Rightarrow> uuid) \<Rightarrow> bool" where
  "fresh_items ids \<longleftrightarrow> (\<forall>items. inj (ids items) \<and> range (ids items) \<inter> si_id ` set items = {})"

lemma then_do_keeps_sync:
  assumes "sync_ok (fst m)" "\<And>x. sync_ok (fst m) \<Longrightarrow> snd m = Inr x \<Longrightarrow> sync_ok (fst (f x (fst m)))"
  shows "sync_ok (fst (then_do m f))"
  using assms by (cases m; cases "snd m") (auto simp: then_do_def)

lemma assert_ownership_keeps_sync: "sync_ok g \<Longrightarrow> sync_ok (fst (assert_sync_ownership rid tok lost now g))"
  using sync_ok_results(2) [of g rid tok now] by (auto simp: assert_sync_ownership_def split: prod.split)

lemma store_session_keeps_sync: "sync_ok g \<Longrightarrow> sync_ok (fst (store_session w s now g))"
  by (auto simp: store_session_def sync_ok_gateway split: sum.split)

lemma publish_run_keeps_sync:
  assumes "sync_ok g" "fresh_items (pf_ids i)" "\<And>k. keeps_sync (pf_others i k)"
  shows "sync_ok (fst (publish_run c digest ids_digest i w sid groups g))"
proof -
  let ?g = "pf_others i 6 g"
  have g: "sync_ok ?g" using assms(1,3) by blast
  have fresh: "inj (pf_ids i (sync_items (gw_sync ?g)))"
      "range (pf_ids i (sync_items (gw_sync ?g))) \<inter> si_id ` set (sync_items (gw_sync ?g)) = {}"
    using assms(2) unfolding fresh_items_def by blast+
  have "sync_ok (fst (publish_discovery c digest ids_digest (pf_ids i (sync_items (gw_sync ?g))) w sid mode groups
      (pf_wall i) (pf_clock i 6) ?g))" for mode
  proof -
    have "sync_op_ok (SPublish (pf_ids i (sync_items (gw_sync ?g))) w sid mode groups (pf_wall i) (pf_clock i 6)) ?g"
      using fresh by (auto intro: inj_on_subset)
    from sync_ok_apply [OF g this] show ?thesis by simp
  qed
  then show ?thesis using assms(1)
    by (auto simp: publish_run_def Let_def split: option.split prod.split sum.split) (metis fst_conv)+
qed

lemma perform_keeps_sync:
  assumes ok: "sync_ok g" and fresh: "fresh_items (pf_ids i)" and others: "\<And>k. keeps_sync (pf_others i k)"
  shows "sync_ok (fst (perform c digest ids_digest i rid g))"
proof -
  have step: "sync_ok h \<Longrightarrow> sync_ok (pf_others i k h)" for h k using others by blast
  have body: "sync_ok (fst (perform_body c digest ids_digest i rid claim h))" if "sync_ok h" for claim h
    unfolding perform_body_def Let_def
    by (intro then_do_keeps_sync assert_ownership_keeps_sync store_session_keeps_sync publish_run_keeps_sync
        fresh others step) (simp_all add: that step)
  obtain sd r where claim: "claim_sync_run rid (pf_token i) (pf_clock i 0) (gw_sync g) = (sd, r)" by fastforce
  have g0: "sync_ok (g\<lparr>gw_sync := sd\<rparr>)" by (rule sync_ok_results(1) [OF ok claim])
  show ?thesis
  proof (cases r)
    case None
    then show ?thesis using claim g0 by (simp add: perform_def)
  next
    case (Some cl)
    obtain g' res where b: "perform_body c digest ids_digest i rid cl (g\<lparr>gw_sync := sd\<rparr>) = (g', res)" by fastforce
    then have g': "sync_ok g'" using body [OF g0, of cl] by simp
    show ?thesis
    proof (cases res)
      case (Inl e)
      then show ?thesis using claim Some b sync_ok_statements(3) [OF step [OF g']] by (simp add: perform_def)
    next
      case (Inr x)
      then show ?thesis using claim Some b g' by (simp add: perform_def)
    qed
  qed
qed

end
