(* ===== verification/Sync_Claims.thy ===== *)
theory Sync_Claims
  imports Sync_Progress Group_Lists
begin

text \<open>
  What the synchronization promises over all interleavings of its statements: writes are fenced by the
  epoch of the session, runs agree with their items, work is bounded, and a suspicious drop of groups is
  published only when it has been confirmed.
\<close>

section \<open>Epochs only grow\<close>

lemma fences_rows:
  "sync_fences (fst (claim_item c xid tok now sd)) = sync_fences sd"
  "sync_fences (fst (renew_item xid tok now sd)) = sync_fences sd"
  "sync_fences (fst (skip_item xid tok e now sd)) = sync_fences sd"
  "sync_fences (fst (fail_item c xid tok e p noise noise' now sd)) = sync_fences sd"
  "sync_fences (gw_sync (fst (complete_item c xid tok m now g))) = sync_fences (gw_sync g)"
  "sync_fences (gw_sync (fst (publish_discovery c dg idg ids w sid mode groups wall now g))) = sync_fences (gw_sync g)"
  by (simp_all add: claim_item_def renew_item_def skip_item_def fail_item_def complete_item_def publish_discovery_def
      refresh_parent_def Let_def split: option.split list.split prod.split bool.split sum.split)

lemma fences_recover: "sync_fences (fst (recover_items c now sd)) = sync_fences sd"
  by (simp add: recover_items_def Let_def refresh_frame)

lemma fences_claim:
  obtains (same) "\<And>s. epoch_of s (sync_fences (fst (claim_sync_run rid tok now sd))) = epoch_of s (sync_fences sd)"
      "snd (claim_sync_run rid tok now sd) = None"
  | (raised) cs where "snd (claim_sync_run rid tok now sd) = Some cs" "cs_token cs = tok"
      "cs_epoch cs = epoch_of (cs_session_id cs) (sync_fences sd) + 1"
      "\<And>s. epoch_of s (sync_fences (fst (claim_sync_run rid tok now sd)))
        = (if s = cs_session_id cs then cs_epoch cs else epoch_of s (sync_fences sd))"
proof (cases rule: claim_sync_cases [of rid tok now sd])
  case refused
  then show ?thesis by (intro same) simp_all
next
  case (free sid)
  then show ?thesis by (intro same) (simp_all add: epoch_of_insert)
next
  case (granted r0 fs f)
  have "sr_session_id r0 \<in> sf_session_id ` set fs" using granted(2) inserted_fence by simp
  note raise = epoch_of_raise [OF this]
  obtain n where n: "snd (claim_sync_run rid tok now sd) = Some \<lparr>cs_session_id = sr_session_id r0, cs_token = tok,
      cs_attempt = n, cs_epoch = epoch_of (sr_session_id r0) fs + 1\<rparr>"
    using granted(6) by blast
  show ?thesis
    by (rule raised [OF n]) (simp_all add: granted(5) raise, simp_all add: granted(2) epoch_of_insert)
qed

lemma epoch_step: "epoch_of s (sync_fences (gw_sync g)) \<le> epoch_of s (sync_fences (gw_sync (sync_apply c dg idg op g)))"
proof (cases op)
  case (SClaim rid tok now)
  then show ?thesis
    by (cases rule: fences_claim [of rid tok now "gw_sync g"]) (auto simp: on_sync_def)
qed (simp_all add: on_sync_def on_runs_def fences_rows fences_recover intent_apply_frame)

lemma epoch_fold:
  "epoch_of s (sync_fences (gw_sync g)) \<le> epoch_of s (sync_fences (gw_sync (fold (sync_apply c dg idg) ops g)))"
proof (induction ops arbitrary: g)
  case (Cons op ops)
  then show ?case using epoch_step [of s g c dg idg op] by (simp add: order_trans)
qed simp

lemma asserted_epoch:
  assumes "sync_ok g"
  shows "assert_sync_write sid w t (gw_sync g) = Inr u \<Longrightarrow> epoch_of sid (sync_fences (gw_sync g)) = wf_epoch w"
    "assert_item_write iw t (gw_sync g) = Inr u \<Longrightarrow> epoch_of (if_session_id iw) (sync_fences (gw_sync g)) = if_epoch iw"
  using fence_okD(2) [OF sync_okD(1) [OF assms]]
  by (auto simp: assert_sync_write_def assert_item_write_def epoch_current_of)

text \<open>A granted claim is in the table, and its fence passes.\<close>

lemma claim_grants_fence:
  assumes ok: "sync_ok g" and claim: "claim_sync_run rid tok now (gw_sync g) = (sd, Some cs)"
    and t: "t < now + lease_ttl"
  shows "assert_sync_write (cs_session_id cs) \<lparr>wf_run_id = rid, wf_token = tok, wf_epoch = cs_epoch cs\<rparr> t sd = Inr ()"
proof (cases rule: claim_sync_cases [of rid tok now "gw_sync g"])
  case (granted r0 fs f)
  obtain r where r: "r \<in> set (sync_runs (gw_sync g))" "f r \<noteq> None" using granted(4) by blast
  have "sr_id r = rid" using r(2) unfolding granted(3) claim_sync_row_def sql_where_None by blast
  with find_by_Some [OF granted(1)] have r0: "r = r0" using keyed_inj [OF sync_okD(3) [OF ok] r(1)] by metis
  obtain r' where r': "f r = Some r'" using r(2) by blast
  then have "r' \<in> set (sync_runs sd)" using sql_update_mem_changed [OF r(1)] granted(5) claim by simp
  moreover have "sync_owned rid tok t r'" "sr_session_id r' = cs_session_id cs" "sr_epoch r' = Some (cs_epoch cs)"
    using r' t r0 granted(3,6) claim by (auto simp: claim_sync_row_def sync_owned_def)
  moreover have "epoch_current (cs_session_id cs) (cs_epoch cs) (sync_fences sd)"
  proof -
    obtain x where "x \<in> set fs" "sf_session_id x = sr_session_id r0"
      using inserted_fence [of "sr_session_id r0" "sync_fences (gw_sync g)"] granted(2) by fastforce
    then have "x\<lparr>sf_epoch := cs_epoch cs\<rparr> \<in> set (sync_fences sd)"
      using granted(5,6) claim by (auto intro!: sql_update_mem_changed)
    moreover have "cs_session_id cs = sr_session_id r0" using granted(6) claim by auto
    ultimately show ?thesis unfolding epoch_current_def using \<open>sf_session_id x = _\<close>
      by (intro bexI [of _ "x\<lparr>sf_epoch := cs_epoch cs\<rparr>"]) simp_all
  qed
  ultimately show ?thesis by (auto simp: assert_sync_write_def guard_def)
qed (use claim in simp_all)


section \<open>Fencing\<close>

lemma fenced_after_claim:
  assumes ok: "sync_ok g" and claim: "claim_sync_run rid tok now (gw_sync g) = (sd, Some cs)"
    and old: "wf_epoch w \<le> epoch_of (cs_session_id cs) (sync_fences (gw_sync g))"
    and ops: "sync_ops_ok c dg idg ops (g\<lparr>gw_sync := sd\<rparr>)"
  defines "g' \<equiv> fold (sync_apply c dg idg) ops (g\<lparr>gw_sync := sd\<rparr>)"
  shows "assert_sync_write (cs_session_id cs) w t (gw_sync g') = Inl ''Gateway sync attempt lost write ownership''"
    and "if_session_id iw = cs_session_id cs \<Longrightarrow> if_epoch iw = wf_epoch w \<Longrightarrow>
      assert_item_write iw t (gw_sync g') = Inl ''Gateway sync item lost write ownership''"
proof -
  have g1: "g\<lparr>gw_sync := sd\<rparr> = sync_apply c dg idg (SClaim rid tok now) g"
    using claim by (simp add: on_sync_def)
  have "sync_ok (g\<lparr>gw_sync := sd\<rparr>)" unfolding g1 by (rule sync_ok_apply [OF ok]) simp
  then have ok': "sync_ok g'" unfolding g'_def using sync_ok_fold ops by blast
  have "epoch_of (cs_session_id cs) (sync_fences sd) = epoch_of (cs_session_id cs) (sync_fences (gw_sync g)) + 1"
    by (cases rule: fences_claim [of rid tok now "gw_sync g"]) (use claim in auto)
  moreover have "epoch_of (cs_session_id cs) (sync_fences sd) \<le> epoch_of (cs_session_id cs) (sync_fences (gw_sync g'))"
    using epoch_fold [of _ "g\<lparr>gw_sync := sd\<rparr>" c dg idg ops] unfolding g'_def by simp
  ultimately have less: "wf_epoch w < epoch_of (cs_session_id cs) (sync_fences (gw_sync g'))" using old by simp
  show "assert_sync_write (cs_session_id cs) w t (gw_sync g') = Inl ''Gateway sync attempt lost write ownership''"
    using asserted_epoch(1) [OF ok', of "cs_session_id cs" w t] less
    by (cases "assert_sync_write (cs_session_id cs) w t (gw_sync g')") (auto simp: assert_sync_write_def)
  show "assert_item_write iw t (gw_sync g') = Inl ''Gateway sync item lost write ownership''"
    if "if_session_id iw = cs_session_id cs" "if_epoch iw = wf_epoch w"
    using asserted_epoch(2) [OF ok', of iw t] less that
    by (cases "assert_item_write iw t (gw_sync g')") (auto simp: assert_item_write_def)
qed

text \<open>C6: Once the fence of a run has been accepted for a session, the next granted claim of that session
  locks it out for ever: whatever statements follow, at any time, no discovery write and no item write
  that carries the old epoch is accepted, while the new claim's own fence passes until its lease ends.\<close>

theorem sync_writes_fenced:
  assumes start: "sync_runs (gw_sync g0) = []" "sync_items (gw_sync g0) = []" "sync_fences (gw_sync g0) = []"
    and g1: "g1 = fold (sync_apply c dg idg) ops1 g0" "sync_ops_ok c dg idg ops1 g0"
    and accepted: "assert_sync_write sid w t1 (gw_sync g1) = Inr ()"
    and g2: "g2 = fold (sync_apply c dg idg) ops2 g1" "sync_ops_ok c dg idg ops2 g1"
    and claim: "claim_sync_run rid tok now (gw_sync g2) = (sd, Some cs)" "cs_session_id cs = sid"
    and g3: "g3 = fold (sync_apply c dg idg) ops3 (g2\<lparr>gw_sync := sd\<rparr>)" "sync_ops_ok c dg idg ops3 (g2\<lparr>gw_sync := sd\<rparr>)"
  shows "assert_sync_write sid w t (gw_sync g3) = Inl ''Gateway sync attempt lost write ownership''
    \<and> assert_item_write \<lparr>if_item_id = xid, if_run_id = xrid, if_session_id = sid, if_token = xtok,
        if_epoch = wf_epoch w\<rparr> t (gw_sync g3) = Inl ''Gateway sync item lost write ownership''
    \<and> (t' < now + lease_ttl \<longrightarrow> assert_sync_write sid \<lparr>wf_run_id = rid, wf_token = tok, wf_epoch = cs_epoch cs\<rparr>
        t' sd = Inr ())"
proof -
  have ok1: "sync_ok g1" unfolding g1(1) using start by (intro sync_ok_fold [OF _ g1(2)] sync_ok_start) simp_all
  then have ok2: "sync_ok g2" unfolding g2(1) by (rule sync_ok_fold [OF _ g2(2)])
  have "wf_epoch w \<le> epoch_of (cs_session_id cs) (sync_fences (gw_sync g2))"
    using asserted_epoch(1) [OF ok1 accepted] epoch_fold [of sid g1 c dg idg ops2] g2(1) claim(2) by simp
  from fenced_after_claim [OF ok2 claim(1) this g3(2)] claim_grants_fence [OF ok2 claim(1)] claim(2) g3(1)
  show ?thesis by simp
qed


definition sync_sample :: gateway_db where
  "sync_sample = \<lparr>gw_sync = \<lparr>sync_runs = [], sync_fences = [], sync_items = [], group_intents = [], rate_limits = []\<rparr>,
     gw_sessions = [], gw_groups = []\<rparr>"

definition sample_fence :: sync_write_fence where
  "sample_fence = \<lparr>wf_run_id = ''r1'', wf_token = ''t1'', wf_epoch = 1\<rparr>"

definition claimed_sample :: "sync_op list" where
  "claimed_sample = [SCreate ''r1'' ''s1'' FULL 0, SClaim ''r1'' ''t1'' 0]"

lemmas sample_steps = claimed_sample_def sync_sample_def on_runs_def on_sync_def create_sync_run_def new_sync_run_def sql_top_def
  claim_sync_run_def claim_sync_row_def sql_where_def session_running_def epoch_of_def sql_insert_new_def lease_ttl_def
  minutes_def recover_sync_runs_def recover_sync_row_def find_by_def Let_def

lemma sync_writes_fenced_witness:
  "assert_sync_write ''s1'' sample_fence 5
     (gw_sync (fold (sync_apply pacing_sample (\<lambda>_. []) concat)
       (claimed_sample @ [SRecover 200000, SClaim ''r1'' ''t2'' 200000]) sync_sample))
   = Inl ''Gateway sync attempt lost write ownership''"
proof -
  let ?step = "sync_apply pacing_sample (\<lambda>_. []) concat"
  let ?g1 = "fold ?step claimed_sample sync_sample"
  let ?g2 = "fold ?step [SRecover 200000] ?g1"
  have accepted: "assert_sync_write ''s1'' sample_fence 1 (gw_sync ?g1) = Inr ()"
    by (simp add: sample_steps assert_sync_write_def epoch_current_def sync_owned_def sample_fence_def)
  have ops: "sync_ops_ok pacing_sample (\<lambda>_. []) concat claimed_sample sync_sample"
    by (simp add: sample_steps)
  have "\<exists>sd cs. claim_sync_run ''r1'' ''t2'' 200000 (gw_sync ?g2) = (sd, Some cs) \<and> cs_session_id cs = ''s1''"
    by (simp add: sample_steps)
  then obtain sd cs where claim: "claim_sync_run ''r1'' ''t2'' 200000 (gw_sync ?g2) = (sd, Some cs)"
    "cs_session_id cs = ''s1''" by blast
  have "fold ?step (claimed_sample @ [SRecover 200000, SClaim ''r1'' ''t2'' 200000]) sync_sample = ?g2\<lparr>gw_sync := sd\<rparr>"
    using claim(1) by (simp add: on_sync_def)
  then show ?thesis
    using sync_writes_fenced [OF _ _ _ refl ops accepted refl _ claim refl, where ?ops3.0 = "[]" and t = 5] by (simp add: sync_sample_def)
qed


section \<open>Runs and items\<close>

lemma items_in_open_iff: "0 < items_in items_open rid items \<longleftrightarrow> (\<exists>x \<in> set items. si_run_id x = rid \<and> si_status x \<in> items_open)"
  by (auto simp: items_in_def run_items_def filter_empty_conv)

lemma filter_single:
  "distinct xs \<Longrightarrow> x \<in> set xs \<Longrightarrow> (\<And>y. y \<in> set xs \<Longrightarrow> P y \<longleftrightarrow> y = x) \<Longrightarrow> filter P xs = [x]"
proof (induction xs)
  case (Cons y ys)
  show ?case
  proof (cases "y = x")
    case True
    then have "filter P ys = []" using Cons.prems(1,3) by (auto simp: filter_empty_conv)
    then show ?thesis using True Cons.prems(3) [of y] by simp
  next
    case False
    then show ?thesis using Cons.IH Cons.prems by auto
  qed
qed simp

text \<open>C20: After any statements a session has at most one pending or running run, and a run agrees with its
  items: it waits in RECONCILING exactly while one of them is open, its counters count the completed,
  failed and skipped ones, and when none is left it is FAILED if one failed and COMPLETED otherwise.\<close>

theorem sync_run_agrees_with_items:
  assumes start: "sync_runs (gw_sync g0) = []" "sync_items (gw_sync g0) = []" "sync_fences (gw_sync g0) = []"
    and ops: "sync_ops_ok c dg idg ops g0"
    and r: "r \<in> set (sync_runs (gw_sync (fold (sync_apply c dg idg) ops g0)))"
  defines "rs \<equiv> sync_runs (gw_sync (fold (sync_apply c dg idg) ops g0))"
    and "items \<equiv> sync_items (gw_sync (fold (sync_apply c dg idg) ops g0))"
  shows "(sync_active r \<longrightarrow> filter (\<lambda>x. sr_session_id x = sr_session_id r \<and> sync_active x) rs = [r])
    \<and> (sr_phase r = RECONCILING \<longleftrightarrow> (\<exists>x \<in> set items. si_run_id x = sr_id r \<and> si_status x \<in> items_open))
    \<and> (sr_phase r = RECONCILING \<longrightarrow> sr_status r = SY_RUNNING)
    \<and> (sr_phase r = PHASE_COMPLETED \<longrightarrow> sr_status r =
         (if \<exists>x \<in> set items. si_run_id x = sr_id r \<and> si_status x = SI_FAILED then SY_FAILED else SY_COMPLETED))
    \<and> (sr_phase r \<noteq> DISCOVERING \<longrightarrow> sr_synced r = items_in {SI_COMPLETED} (sr_id r) items
         \<and> sr_failed r = items_in {SI_FAILED} (sr_id r) items \<and> sr_skipped r = items_in {SI_SKIPPED} (sr_id r) items)"
proof -
  have ok: "sync_ok (fold (sync_apply c dg idg) ops g0)"
    using start by (intro sync_ok_fold [OF _ ops] sync_ok_start) simp_all
  have rs: "r \<in> set rs" using r by (simp add: rs_def)
  note fence = sync_okD(1) [OF ok, folded rs_def] and keyed = sync_okD(3) [OF ok, folded rs_def]
  have run: "run_ok items r" using items_okD(2) [OF sync_okD(2) [OF ok] r] by (simp add: items_def)
  have "filter (\<lambda>x. sr_session_id x = sr_session_id r \<and> sync_active x) rs = [r]" if "sync_active r"
  proof -
    have "x = r" if "x \<in> set rs" "sr_session_id x = sr_session_id r \<and> sync_active x" for x
      using fence_okD(3) [OF fence that(1) rs] that(2) \<open>sync_active r\<close> by simp
    then show ?thesis using keyed rs that by (intro filter_single) (auto simp: keyed_def distinct_map)
  qed
  moreover have "0 < items_in {SI_FAILED} (sr_id r) items \<longleftrightarrow> (\<exists>x \<in> set items. si_run_id x = sr_id r \<and> si_status x = SI_FAILED)"
    by (auto simp: items_in_def run_items_def filter_empty_conv)
  moreover have "sr_phase r = DISCOVERING \<Longrightarrow> items_in items_open (sr_id r) items = 0"
    using run by (simp add: run_ok_def items_in_def)
  ultimately show ?thesis
    using run items_in_open_iff [of "sr_id r" items]
    by (cases "sr_phase r") (auto simp: run_ok_def counts_agree_def)
qed


definition sample_summary :: group_summary where
  "sample_summary = \<lparr>gsu_id = ''g1@g.us'', gsu_name = ''Team'', gsu_participants_count = None,
     gsu_is_admin = None, gsu_linked_parent = None\<rparr>"

definition published_sample :: "sync_op list" where
  "published_sample = claimed_sample @ [SPublish id sample_fence ''s1'' FULL [sample_summary] 1 1]"

lemma config_sample_fields:
  "cfg_snapshot_min_baseline pacing_sample = 20" "cfg_snapshot_confirmations pacing_sample = 2"
  "cfg_item_max_attempts pacing_sample = 5" "cfg_snapshot_drop_ratio pacing_sample = 1 / 4"
  by (simp_all add: pacing_sample_def parsed_config_def number_or_def sample_environment_def Let_def)

lemma sync_run_agrees_with_items_witness:
  "sr_phase (hd (sync_runs (gw_sync (fold (sync_apply pacing_sample (\<lambda>_. []) concat) published_sample sync_sample))))
     = RECONCILING"
proof -
  let ?g = "fold (sync_apply pacing_sample (\<lambda>_. []) concat) published_sample sync_sample"
  have final: "\<exists>r. sync_runs (gw_sync ?g) = [r] \<and> (\<exists>x \<in> set (sync_items (gw_sync ?g)). si_run_id x = sr_id r \<and> si_status x \<in> items_open)"
    by (simp add: sample_steps published_sample_def publish_discovery_def sample_fence_def sample_summary_def
       config_sample_fields snapshot_baseline_def suspicious_snapshot_def discovery_deferred_def
       assert_sync_write_def epoch_current_def sync_owned_def replace_summaries_def guard_def select_items_def
       item_reason_def map_filter_simps new_item_def publish_run_row_def items_open_def)
  have ops: "sync_ops_ok pacing_sample (\<lambda>_. []) concat published_sample sync_sample"
    by (simp add: sample_steps published_sample_def)
  from final obtain r where r: "sync_runs (gw_sync ?g) = [r]"
    "\<exists>x \<in> set (sync_items (gw_sync ?g)). si_run_id x = sr_id r \<and> si_status x \<in> items_open" by blast
  then show ?thesis using sync_run_agrees_with_items [OF _ _ _ ops, of r] by (simp add: sync_sample_def)
qed


section \<open>Attempts\<close>

definition item_grants :: "runtime_config \<Rightarrow> item_outcome lease_event list \<Rightarrow> sync_item \<Rightarrow> nat" where
  "item_grants c es x = item_work.grants c (si_id x) es x"

definition item_after :: "runtime_config \<Rightarrow> item_outcome lease_event list \<Rightarrow> sync_item \<Rightarrow> sync_item" where
  "item_after c es x = item_lease.lease_run c (si_id x) es x"

definition item_live :: "runtime_config \<Rightarrow> sync_item \<Rightarrow> bool" where
  "item_live c x \<longleftrightarrow> (si_status x \<in> {SI_PENDING, SI_RETRY} \<longrightarrow> int (si_attempt_count x) < cfg_item_max_attempts c)
     \<and> (si_status x = SI_RUNNING \<longrightarrow> si_lease_expires_at x \<noteq> None)"

lemma item_live_step: "item_live c x \<Longrightarrow> item_live c (item_lease.lease_step c xid e x)"
  by (cases e)
    (auto simp: item_lease.lease_step_def item_lease.lease_effect_def item_live_def settle_item_row_def item_rows
      will_retry_def Let_def sql_where_def split: item_outcome.splits)

lemma item_live_run: "item_live c x \<Longrightarrow> item_live c (item_lease.lease_run c xid es x)"
  unfolding item_lease.lease_run_def by (induction es arbitrary: x) (simp_all add: item_live_step)

text \<open>From a new item on, in any history of claims, settlements and sweeps, at most the configured
  number of claims is granted. When they are used up the item is closed, or its last worker still runs
  and the first sweep past its lease fails it: no group is read for ever.\<close>

theorem item_attempts_end:
  assumes "parse_runtime_config is_uuid e = Inr c" "si_status x = SI_PENDING" "si_attempt_count x = 0"
  shows "int (item_grants c es x) \<le> cfg_item_max_attempts c
    \<and> (int (item_grants c es x) = cfg_item_max_attempts c \<longrightarrow>
         si_status (item_after c es x) \<in> {SI_COMPLETED, SI_FAILED, SI_SKIPPED}
         \<or> (\<exists>t. si_status (item_after c es x) = SI_RUNNING \<and> si_lease_expires_at (item_after c es x) = Some t
            \<and> (\<forall>now > t. \<exists>x'. recover_item_row c now (item_after c es x) = Some x' \<and> si_status x' = SI_FAILED)))"
proof -
  have max: "1 \<le> cfg_item_max_attempts c" using parsed_refined [OF assms(1)] by blast
  have bound: "int (item_grants c es x) \<le> cfg_item_max_attempts c"
    using item_work.grants_bounded [of x c "si_id x" es] assms(3) max by (simp add: item_grants_def)
  have count: "si_attempt_count (item_after c es x) = item_grants c es x"
    using item_work.attempts_run [of c "si_id x" es x] assms(3) by (simp add: item_grants_def item_after_def)
  have "item_live c (item_after c es x)"
    unfolding item_after_def using assms(2,3) max by (intro item_live_run) (simp add: item_live_def)
  then show ?thesis using bound count
    by (cases "si_status (item_after c es x)"; cases "si_lease_expires_at (item_after c es x)")
      (auto simp: item_live_def recover_item_row_def sql_where_def Let_def)
qed

lemma item_attempts_end_witness:
  "item_grants pacing_sample [Claim ''t1'' 0, Sweep 200000]
     (new_item id ''r1'' ''s1'' 0 (0, sample_summary, REASON_FULL, ''f'')) \<le> 5"
  using item_attempts_end [OF sample_environment_parses, folded pacing_sample_def,
      of "new_item id ''r1'' ''s1'' 0 (0, sample_summary, REASON_FULL, ''f'')" "[Claim ''t1'' 0, Sweep 200000]"]
  by (simp add: config_sample_fields new_item_def)

section \<open>A suspicious drop of groups\<close>

lemma publish_accepted_cases:
  assumes "assert_sync_write sid w now (gw_sync g) = Inr ()"
  shows "discovery_deferred c idg sid groups g \<Longrightarrow>
      publish_discovery c dg idg ids w sid mode groups wall now g =
        (g\<lparr>gw_sync := (gw_sync g)\<lparr>sync_runs := sql_update (defer_run_row (wf_run_id w) (wf_token w) now) (sync_runs (gw_sync g))\<rparr>,
           gw_sessions := sql_update (suspect_session_row sid (snapshot_fingerprint idg groups)
             (length groups) (confirmations c idg sid groups g) now) (gw_sessions g)\<rparr>,
         Inr \<lparr>dr_discovered = length groups, dr_scheduled = 0, dr_completed = False, dr_deferred = True\<rparr>)"
  using assms by (simp add: publish_discovery_def Let_def)

lemma confirmations_after_defer:
  assumes row: "find_by gs_id sid (gw_sessions g) = Some s"
    and susp: "suspicious_snapshot c (snapshot_baseline sid g) (length groups)"
    and g': "gw_sessions g' = sql_update (suspect_session_row sid (snapshot_fingerprint idg groups)
        (length groups) n now) (gw_sessions g)" "gw_groups g' = gw_groups g"
  shows "confirmations c idg sid groups' g' =
      (if snapshot_fingerprint idg groups' = snapshot_fingerprint idg groups \<and> length groups' = length groups
       then n + 1 else 1)"
    and "snapshot_baseline sid g' = snapshot_baseline sid g"
proof -
  have id: "gs_id s = sid" using find_by_Some [OF row] by blast
  have "find_by gs_id sid (gw_sessions g') = map_option (row_after (suspect_session_row sid
      (snapshot_fingerprint idg groups) (length groups) n now)) (find_by gs_id sid (gw_sessions g))"
    unfolding g'(1) row_after_def by (rule find_by_sql_update) (auto simp: suspect_session_row_def)
  then have s': "find_by gs_id sid (gw_sessions g') = Some (s\<lparr>gs_suspicious_fingerprint := Some (snapshot_fingerprint idg groups),
      gs_suspicious_count := Some (length groups), gs_suspicious_confirmations := n, gs_updated_at := now\<rparr>)"
    by (simp add: row row_after_def suspect_session_row_def sql_where_def id)
  then show base: "snapshot_baseline sid g' = snapshot_baseline sid g"
    using row g'(2) by (simp add: snapshot_baseline_def)
  show "confirmations c idg sid groups' g' =
      (if snapshot_fingerprint idg groups' = snapshot_fingerprint idg groups \<and> length groups' = length groups
       then n + 1 else 1)"
    using susp base by (auto simp: confirmations_def s')
qed


text \<open>
  The same snapshot discovered again and again; between two discoveries the synchronization tables may
  become anything in which the next write is accepted.
\<close>

type_synonym discovery = "sync_db \<times> sync_write_fence \<times> timestamp \<times> timestamp"

primrec rediscover ::
  "runtime_config \<Rightarrow> (summary_fields \<Rightarrow> string) \<Rightarrow> (string list \<Rightarrow> string) \<Rightarrow> (string \<Rightarrow> uuid)
    \<Rightarrow> string \<Rightarrow> sync_mode \<Rightarrow> group_summary list \<Rightarrow> discovery list \<Rightarrow> gateway_db \<Rightarrow> gateway_db" where
  "rediscover c dg idg ids sid mode groups [] g = g"
| "rediscover c dg idg ids sid mode groups (x # xs) g = (case x of (sd, w, wall, now) \<Rightarrow>
     rediscover c dg idg ids sid mode groups xs
       (fst (publish_discovery c dg idg ids w sid mode groups wall now (g\<lparr>gw_sync := sd\<rparr>))))"

definition accepted_discovery :: "string \<Rightarrow> discovery \<Rightarrow> bool" where
  "accepted_discovery sid x = (case x of (sd, w, wall, now) \<Rightarrow> assert_sync_write sid w now sd = Inr ())"

lemma rediscover_snoc:
  "rediscover c dg idg ids sid mode groups (xs @ [x]) g =
     rediscover c dg idg ids sid mode groups [x] (rediscover c dg idg ids sid mode groups xs g)"
  by (induction xs arbitrary: g) (simp_all split: prod.split)

lemma baseline_reads_gateway [simp]: "snapshot_baseline sid (g\<lparr>gw_sync := sd\<rparr>) = snapshot_baseline sid g"
  by (simp add: snapshot_baseline_def)

lemma confirmations_read_gateway [simp]:
  "confirmations c idg sid groups (g\<lparr>gw_sync := sd\<rparr>) = confirmations c idg sid groups g"
  unfolding confirmations_def baseline_reads_gateway by simp

lemma deferral_reads_gateway [simp]:
  "discovery_deferred c idg sid groups (g\<lparr>gw_sync := sd\<rparr>) = discovery_deferred c idg sid groups g"
  by (simp add: discovery_deferred_def)

lemma rediscover_deferred:
  assumes "find_by gs_id sid (gw_sessions g) \<noteq> None"
    and "suspicious_snapshot c (snapshot_baseline sid g) (length groups)"
    and "list_all (accepted_discovery sid) xs"
    and "int (confirmations c idg sid groups g + length xs) \<le> cfg_snapshot_confirmations c"
  shows "gw_groups (rediscover c dg idg ids sid mode groups xs g) = gw_groups g
    \<and> confirmations c idg sid groups (rediscover c dg idg ids sid mode groups xs g) = confirmations c idg sid groups g + length xs
    \<and> snapshot_baseline sid (rediscover c dg idg ids sid mode groups xs g) = snapshot_baseline sid g"
  using assms
proof (induction xs arbitrary: g)
  case (Cons x xs)
  obtain sd w wall now where x: "x = (sd, w, wall, now)" by (cases x)
  let ?g = "g\<lparr>gw_sync := sd\<rparr>"
  let ?g' = "fst (publish_discovery c dg idg ids w sid mode groups wall now ?g)"
  obtain s where s: "find_by gs_id sid (gw_sessions ?g) = Some s" using Cons.prems(1) by auto
  have deferred: "discovery_deferred c idg sid groups ?g"
    using Cons.prems(2,4) by (simp add: discovery_deferred_def)
  have "assert_sync_write sid w now (gw_sync ?g) = Inr ()"
    using Cons.prems(3) by (simp add: x accepted_discovery_def)
  note publish = publish_accepted_cases [OF this deferred, where dg = dg and ids = ids and mode = mode and wall = wall]
  have g': "gw_sessions ?g' = sql_update (suspect_session_row sid (snapshot_fingerprint idg groups)
      (length groups) (confirmations c idg sid groups ?g) now) (gw_sessions ?g)" "gw_groups ?g' = gw_groups ?g"
    by (simp_all add: publish)
  have "suspicious_snapshot c (snapshot_baseline sid ?g) (length groups)" using Cons.prems(2) by simp
  note next_one = confirmations_after_defer [OF s this g']
  have "map gs_id (gw_sessions ?g') = map gs_id (gw_sessions ?g)"
    unfolding g'(1) by (rule map_sql_update_key) (auto simp: suspect_session_row_def)
  then have "find_by gs_id sid (gw_sessions ?g') \<noteq> None"
    using s unfolding find_by_None by (metis find_by_None list.set_map option.distinct(1))
  from Cons.IH [OF this] next_one(1) [of groups] next_one(2) g'(2) Cons.prems show ?case by (simp add: x)
qed simp

text \<open>A discovery that has lost suspiciously many groups does not touch them until the very same list has
  been discovered the configured number of times in a row, whatever the synchronization does in between;
  the last of these discoveries replaces the groups.\<close>

theorem discovery_drop_confirmed:
  assumes "find_by gs_id sid (gw_sessions g) = Some s" "gs_suspicious_fingerprint s = None"
    and "suspicious_snapshot c (snapshot_baseline sid g) (length groups)"
    and "list_all (accepted_discovery sid) (xs @ [(sd, w, wall, now)])"
    and "int (length xs) + 1 = cfg_snapshot_confirmations c"
    and "replace_summaries sid groups now (gw_groups g) = Some gs"
  shows "gw_groups (rediscover c dg idg ids sid mode groups xs g) = gw_groups g
    \<and> gw_groups (rediscover c dg idg ids sid mode groups (xs @ [(sd, w, wall, now)]) g)
        = sql_update (fingerprint_row dg sid groups) gs"
proof -
  have one: "confirmations c idg sid groups g = 1" using assms(1,2) by (simp add: confirmations_def)
  have "find_by gs_id sid (gw_sessions g) \<noteq> None" "list_all (accepted_discovery sid) xs"
    using assms(1,4) by simp_all
  note before = rediscover_deferred [OF this(1) assms(3) this(2), where idg = idg and dg = dg and ids = ids and mode = mode, unfolded one]
  let ?g = "rediscover c dg idg ids sid mode groups xs g"
  have "\<not> discovery_deferred c idg sid groups ?g" "gw_groups ?g = gw_groups g"
    using before assms(5) by (simp_all add: discovery_deferred_def)
  moreover have "assert_sync_write sid w now sd = Inr ()" using assms(4) by (simp add: accepted_discovery_def)
  ultimately show ?thesis using assms(6) unfolding rediscover_snoc by (simp add: publish_discovery_def Let_def)
qed


definition dropped_sample :: gateway_db where
  "dropped_sample = sync_sample\<lparr>gw_sessions := [sample_session\<lparr>gs_snapshot_count := Some 30\<rparr>]\<rparr>"

lemma discovery_drop_confirmed_witness:
  "gw_groups (rediscover pacing_sample (\<lambda>_. []) concat id ''s1'' FULL [sample_summary]
     [(gw_sync (fold (sync_apply pacing_sample (\<lambda>_. []) concat) claimed_sample sync_sample), sample_fence, 1, 1)]
     dropped_sample) = []"
proof -
  let ?sd = "gw_sync (fold (sync_apply pacing_sample (\<lambda>_. []) concat) claimed_sample sync_sample)"
  have accepted: "assert_sync_write ''s1'' sample_fence 1 ?sd = Inr ()"
    by (simp add: sample_steps assert_sync_write_def epoch_current_def sync_owned_def sample_fence_def)
  have "find_by gs_id ''s1'' (gw_sessions dropped_sample) = Some (sample_session\<lparr>gs_snapshot_count := Some 30\<rparr>)"
    "gw_groups dropped_sample = []"
    by (simp_all add: dropped_sample_def sync_sample_def sample_session_def find_by_def)
  moreover from this have "suspicious_snapshot pacing_sample (snapshot_baseline ''s1'' dropped_sample) (length [sample_summary])"
    by (simp add: snapshot_baseline_def suspicious_snapshot_def config_sample_fields)
  ultimately show ?thesis
    using discovery_drop_confirmed [where g = dropped_sample and sid = "''s1''" and c = pacing_sample
        and groups = "[sample_summary]" and xs = "[(?sd, sample_fence, 1, 1)]" and sd = ?sd and w = sample_fence
        and wall = 1 and now = 1 and idg = concat and dg = "\<lambda>_. []" and ids = id and mode = FULL] accepted
    by (simp add: accepted_discovery_def config_sample_fields replace_summaries_def sample_session_def)
qed

end
