(* ===== verification/Sync_Outcomes.thy ===== *)
theory Sync_Outcomes
  imports Sync_Service Sync_Claims
begin

text \<open>
  What one reconciliation of a group leaves behind (reconcileGroup of gateway-sync.service.ts) when no other
  worker comes between: the item is settled by the answer of the gateway and the pacing lease is returned.
\<close>

section \<open>An item and its pacing lease held by a worker\<close>

definition item_held :: "uuid \<Rightarrow> uuid \<Rightarrow> timestamp \<Rightarrow> sync_db \<Rightarrow> sync_item \<Rightarrow> bool" where
  "item_held xid tok until sd x \<longleftrightarrow> keyed si_id (sync_items sd) \<and> keyed rl_session_id (rate_limits sd)
     \<and> x \<in> set (sync_items sd) \<and> si_id x = xid \<and> si_status x = SI_RUNNING \<and> si_lease_token x = Some tok
     \<and> si_lease_expires_at x = Some until
     \<and> (\<exists>l \<in> set (rate_limits sd). rl_session_id l = si_session_id x \<and> rl_lease_token l = Some tok
          \<and> rl_lease_expires_at l = Some until)"

definition pacing_released :: "string \<Rightarrow> uuid \<Rightarrow> sync_db \<Rightarrow> bool" where
  "pacing_released sid tok sd \<longleftrightarrow> (\<forall>l \<in> set (rate_limits sd). rl_session_id l = sid \<longrightarrow> rl_lease_token l \<noteq> Some tok)"

lemma held_owned: "item_held xid tok until sd x \<Longrightarrow> now < until \<Longrightarrow> item_owned xid tok now x"
  by (simp add: item_held_def item_owned_def)

lemma keyed_where: "(\<And>r. key (f r) = key r) \<Longrightarrow> keyed key (sql_update (sql_where P f) rows) = keyed key rows"
  by (rule keyed_sql_update) simp

lemma ensure_limit_keyed: "keyed rl_session_id limits \<Longrightarrow> keyed rl_session_id (ensure_limit c sid now limits)"
  by (auto simp: ensure_limit_def new_limit_def ensure_row_def keyed_where)

lemma claim_item_held:
  assumes "keyed si_id (sync_items sd)" "keyed rl_session_id (rate_limits sd)"
    and claim: "claim_item c xid tok now sd = (sd', Some cl)"
  shows "\<exists>x run. item_held xid tok (now + lease_ttl) sd' x \<and> sync_runs sd' = sync_runs sd \<and> sync_fences sd' = sync_fences sd
    \<and> ic_run_id cl = si_run_id x \<and> ic_session_id cl = si_session_id x \<and> si_attempt_count x = ic_attempt cl
    \<and> run \<in> set (sync_runs sd) \<and> sr_id run = si_run_id x \<and> sr_status run = SY_RUNNING \<and> ic_epoch cl = sr_epoch run"
proof -
  let ?f = "claim_item_row c xid tok now" and ?limits = "\<lambda>x. ensure_limit c (si_session_id x) now (rate_limits sd)"
  obtain x run rate y ys where x: "find_by si_id xid (sync_items sd) = Some x"
    and run: "running_run_of sd x = Some run"
    and rate: "ready_and_rate c (si_session_id x) now (?limits x) = Some rate"
    and y: "sql_returning ?f (sync_items sd) = y # ys"
    and sd': "sd' = sd\<lparr>sync_items := sql_update ?f (sync_items sd),
      rate_limits := sql_update (acquire_row (si_session_id x) tok rate now) (?limits x)\<rparr>"
    and cl: "cl = \<lparr>ic_id = xid, ic_run_id = si_run_id x, ic_session_id = si_session_id x, ic_group_id = si_group_id x,
      ic_epoch = sr_epoch run, ic_token = tok, ic_attempt = si_attempt_count y, ic_fingerprint = si_fingerprint x\<rparr>"
    using claim by (auto simp: claim_item_def Let_def split: option.splits list.splits)
  have x0: "x \<in> set (sync_items sd)" "si_id x = xid" using find_by_Some [OF x] by auto
  have "y \<in> set (sql_returning ?f (sync_items sd))" using y by simp
  then obtain x1 where "x1 \<in> set (sync_items sd)" "?f x1 = Some y" unfolding set_sql_returning by blast
  moreover from this have "x1 = x" using keyed_inj [OF assms(1) _ x0(1)] x0(2) by (simp add: claim_item_row_def)
  ultimately have fx: "?f x = Some y" by simp
  have y_in: "y \<in> set (sync_items sd')" using sql_update_mem_changed [where f = ?f, OF x0(1) fx] sd' by simp
  have y_row: "si_id y = xid" "si_status y = SI_RUNNING" "si_lease_token y = Some tok" "si_run_id y = si_run_id x"
      "si_lease_expires_at y = Some (now + lease_ttl)" "si_session_id y = si_session_id x"
    using fx by (auto simp: claim_item_row_def)
  let ?sid = "si_session_id x"
  obtain l where l: "l \<in> set (?limits x)" "rl_session_id l = ?sid"
    using rate find_by_Some [of rl_session_id ?sid "?limits x"] by (auto simp: ready_and_rate_def split: option.splits)
  let ?l = "l\<lparr>rl_next_request_at := now + request_spacing rate, rl_lease_token := Some tok,
    rl_lease_expires_at := Some (now + lease_ttl)\<rparr>"
  have "acquire_row ?sid tok rate now l = Some ?l" using l by (simp add: acquire_row_def)
  from sql_update_mem_changed [where f = "acquire_row ?sid tok rate now", OF l(1) this]
  have "?l \<in> set (rate_limits sd')" using sd' by simp
  moreover have "keyed si_id (sync_items sd')" using assms(1) sd'
    by (simp add: keyed_where claim_item_row_def)
  moreover have "keyed rl_session_id (rate_limits sd')" using ensure_limit_keyed [OF assms(2)] sd'
    by (simp add: keyed_where acquire_row_def)
  ultimately have "item_held xid tok (now + lease_ttl) sd' y"
    unfolding item_held_def using y_in y_row l(2) by (auto intro!: bexI [of _ ?l])
  moreover have "run \<in> set (sync_runs sd)" "sr_id run = si_run_id x" "sr_status run = SY_RUNNING"
    using run find_by_Some by (fastforce simp: running_run_of_def split: option.splits if_splits)+
  ultimately show ?thesis using cl sd' y_row by (intro exI [of _ y] exI [of _ run]) simp
qed

text \<open>A renewal of both leases to the same time.\<close>

lemma held_refresh:
  assumes held: "item_held xid tok until sd x"
    and sd': "sd' = sd\<lparr>sync_items := sql_update (sql_where P (\<lambda>x. x\<lparr>si_lease_expires_at := Some u\<rparr>)) (sync_items sd),
      rate_limits := sql_update (sql_where Q (\<lambda>l. l\<lparr>rl_lease_expires_at := Some u\<rparr>)) (rate_limits sd)\<rparr>"
    and P: "P x" "\<And>y. P y \<Longrightarrow> si_id y = xid"
    and Q: "\<And>l. rl_session_id l = si_session_id x \<Longrightarrow> rl_lease_token l = Some tok \<Longrightarrow> rl_lease_expires_at l = Some until \<Longrightarrow> Q l"
      "\<And>l. Q l \<Longrightarrow> rl_session_id l = si_session_id x"
  shows "item_held xid tok u sd' (x\<lparr>si_lease_expires_at := Some u\<rparr>)"
    and "sql_returning (sql_where P (\<lambda>x. x\<lparr>si_lease_expires_at := Some u\<rparr>)) (sync_items sd) = [x\<lparr>si_lease_expires_at := Some u\<rparr>]"
    and "sql_count (sql_where Q (\<lambda>l. l\<lparr>rl_lease_expires_at := Some u\<rparr>)) (rate_limits sd) = 1"
proof -
  let ?f = "sql_where P (\<lambda>x. x\<lparr>si_lease_expires_at := Some u\<rparr>)"
  let ?h = "sql_where Q (\<lambda>l. l\<lparr>rl_lease_expires_at := Some u\<rparr>)"
  let ?x = "x\<lparr>si_lease_expires_at := Some u\<rparr>"
  obtain l where l: "l \<in> set (rate_limits sd)" "rl_session_id l = si_session_id x" "rl_lease_token l = Some tok"
      "rl_lease_expires_at l = Some until"
    and k: "keyed si_id (sync_items sd)" "keyed rl_session_id (rate_limits sd)"
    and x: "x \<in> set (sync_items sd)" "si_id x = xid" "si_status x = SI_RUNNING" "si_lease_token x = Some tok"
    using held by (auto simp: item_held_def)
  let ?l = "l\<lparr>rl_lease_expires_at := Some u\<rparr>"
  have fx: "?f x = Some ?x" "?h l = Some ?l" using P(1) Q(1) [OF l(2-4)] by simp_all
  show "sql_returning ?f (sync_items sd) = [?x]"
    by (rule sql_returning_one [where f = ?f, OF k(1) x(1) fx(1)]) (use P(2) x(2) in auto)
  show "sql_count ?h (rate_limits sd) = 1"
    by (rule sql_count_one [where f = ?h, OF k(2) l(1) fx(2)]) (use Q(2) l(2) in auto)
  have "?x \<in> set (sync_items sd')" "?l \<in> set (rate_limits sd')"
    using sql_update_mem_changed [where f = ?f, OF x(1) fx(1)] sql_update_mem_changed [where f = ?h, OF l(1) fx(2)] sd'
    by simp_all
  moreover have "keyed si_id (sync_items sd')" "keyed rl_session_id (rate_limits sd')"
    using k sd' by (simp_all add: keyed_where)
  ultimately show "item_held xid tok u sd' ?x"
    unfolding item_held_def using x l by (auto intro!: bexI [of _ ?l])
qed

lemma renew_item_held:
  assumes "item_held xid tok until sd x" "now < until"
  shows "\<exists>sd'. renew_item xid tok now sd = (sd', True) \<and> item_held xid tok (now + lease_ttl) sd'
      (x\<lparr>si_lease_expires_at := Some (now + lease_ttl)\<rparr>) \<and> sync_runs sd' = sync_runs sd \<and> sync_fences sd' = sync_fences sd"
proof -
  let ?sd = "sd\<lparr>sync_items := sql_update (renew_item_row xid tok now) (sync_items sd),
    rate_limits := sql_update (renew_limit_row (si_session_id x) tok now) (rate_limits sd)\<rparr>"
  have sd: "?sd = sd\<lparr>sync_items := sql_update (sql_where (item_owned xid tok now) (\<lambda>x. x\<lparr>si_lease_expires_at := Some (now + lease_ttl)\<rparr>)) (sync_items sd),
      rate_limits := sql_update (sql_where (\<lambda>r. rl_session_id r = si_session_id x \<and> rl_lease_token r = Some tok \<and> null_after (rl_lease_expires_at r) now)
        (\<lambda>l. l\<lparr>rl_lease_expires_at := Some (now + lease_ttl)\<rparr>)) (rate_limits sd)\<rparr>"
    by (simp add: renew_item_row_def renew_limit_row_def)
  have own: "item_owned xid tok now x" using held_owned [OF assms] .
  have "item_held xid tok (now + lease_ttl) ?sd (x\<lparr>si_lease_expires_at := Some (now + lease_ttl)\<rparr>)"
    by (rule held_refresh(1) [OF assms(1) sd own]) (use assms(2) in \<open>auto simp: item_owned_def\<close>)
  moreover have "sql_returning (renew_item_row xid tok now) (sync_items sd) = [x\<lparr>si_lease_expires_at := Some (now + lease_ttl)\<rparr>]"
    unfolding renew_item_row_def
    by (rule held_refresh(2) [OF assms(1) sd own]) (use assms(2) in \<open>auto simp: item_owned_def\<close>)
  moreover have "sql_count (renew_limit_row (si_session_id x) tok now) (rate_limits sd) = 1"
    unfolding renew_limit_row_def
    by (rule held_refresh(3) [OF assms(1) sd own]) (use assms(2) in \<open>auto simp: item_owned_def\<close>)
  ultimately show ?thesis by (intro exI [of _ ?sd]) (simp add: renew_item_def renew_limit_def)
qed

lemma upsert_details_held:
  assumes held: "item_held xid tok until (gw_sync g) x" and now: "now < until"
    and run: "run \<in> set (sync_runs (gw_sync g))" "sr_id run = si_run_id x" "sr_status run = SY_RUNNING"
      "sr_epoch run = Some e" "epoch_current (si_session_id x) e (sync_fences (gw_sync g))"
  shows "\<exists>g'. upsert_details_item (si_session_id x) d \<lparr>if_item_id = xid, if_run_id = si_run_id x,
      if_session_id = si_session_id x, if_token = tok, if_epoch = e\<rparr> now clock g = (g', Inr (gd_participants d))
    \<and> item_held xid tok (clock + lease_ttl) (gw_sync g') (x\<lparr>si_lease_expires_at := Some (clock + lease_ttl)\<rparr>)
    \<and> gw_groups g' = fst (apply_details (si_session_id x) d None None now (gw_groups g))"
proof -
  let ?sd = "gw_sync g" and ?sid = "si_session_id x"
  let ?touch = "touch_item_row xid tok clock" and ?renew = "renew_read_row ?sid tok clock"
  let ?sd' = "?sd\<lparr>sync_items := sql_update ?touch (sync_items ?sd), rate_limits := sql_update ?renew (rate_limits ?sd)\<rparr>"
  have sd: "?sd' = ?sd\<lparr>sync_items := sql_update (sql_where (\<lambda>x. si_id x = xid \<and> si_status x = SI_RUNNING \<and> si_lease_token x = Some tok)
        (\<lambda>x. x\<lparr>si_lease_expires_at := Some (clock + lease_ttl)\<rparr>)) (sync_items ?sd),
      rate_limits := sql_update (sql_where (\<lambda>r. rl_session_id r = ?sid \<and> rl_lease_token r = Some tok)
        (\<lambda>l. l\<lparr>rl_lease_expires_at := Some (clock + lease_ttl)\<rparr>)) (rate_limits ?sd)\<rparr>"
    by (simp add: touch_item_row_def renew_read_row_def)
  have own: "si_id x = xid \<and> si_status x = SI_RUNNING \<and> si_lease_token x = Some tok" using held by (simp add: item_held_def)
  have step: "item_held xid tok (clock + lease_ttl) ?sd' (x\<lparr>si_lease_expires_at := Some (clock + lease_ttl)\<rparr>)"
    by (rule held_refresh(1) [OF held sd own]) auto
  have "sql_returning ?touch (sync_items ?sd) = [x\<lparr>si_lease_expires_at := Some (clock + lease_ttl)\<rparr>]"
    unfolding touch_item_row_def by (rule held_refresh(2) [OF held sd own]) auto
  moreover have "sql_count ?renew (rate_limits ?sd) = 1"
    unfolding renew_read_row_def by (rule held_refresh(3) [OF held sd own]) auto
  moreover have "assert_item_write \<lparr>if_item_id = xid, if_run_id = si_run_id x, if_session_id = ?sid, if_token = tok,
      if_epoch = e\<rparr> now ?sd = Inr ()"
    using held_owned [OF held now] held run by (auto simp: assert_item_write_def item_held_def)
  moreover obtain gs m applied where "apply_details ?sid d None None now (gw_groups g) = (gs, m, applied)"
      "m = gd_participants d"
    by (auto simp: apply_details_def detail_guard_def Let_def)
  ultimately show ?thesis using step
    by (intro exI [of _ "g\<lparr>gw_sync := ?sd', gw_groups := gs\<rparr>"])
      (simp add: upsert_details_item_def renew_group_read_lease_def sql_count_def Let_def)
qed

lemma released_update:
  assumes "\<And>l l'. f l = Some l' \<Longrightarrow> rl_session_id l' = rl_session_id l \<and> rl_lease_token l' = None"
    and "\<And>l. rl_session_id l = sid \<Longrightarrow> rl_lease_token l = Some tok \<Longrightarrow> f l \<noteq> None"
  shows "l \<in> set (sql_update f limits) \<Longrightarrow> rl_session_id l = sid \<Longrightarrow> rl_lease_token l \<noteq> Some tok"
  by (erule sql_update_cases) (use assms in fastforce)+

lemma record_success_released:
  "l \<in> set (record_success c sid tok limits) \<Longrightarrow> rl_session_id l = sid \<Longrightarrow> rl_lease_token l \<noteq> Some tok"
proof -
  have first: "l \<in> set (sql_update (success_row c sid tok) limits) \<Longrightarrow> rl_session_id l = sid \<Longrightarrow> rl_lease_token l \<noteq> Some tok" for l
    by (rule released_update [where f = "success_row c sid tok"]) (auto simp: success_row_def Let_def)
  assume l: "l \<in> set (record_success c sid tok limits)" "rl_session_id l = sid"
  show "rl_lease_token l \<noteq> Some tok"
  proof (cases "cfg_adaptive_pacing c")
    case True
    then have "l \<in> set (sql_update (reset_streak_row c sid) (sql_update (success_row c sid tok) limits))"
      using l(1) by (simp add: record_success_def Let_def)
    then show ?thesis
    proof (cases rule: sql_update_cases)
      case kept
      then show ?thesis using first l(2) by blast
    next
      case (changed r)
      then show ?thesis by (auto simp: reset_streak_row_def)
    qed
  next
    case False
    then show ?thesis using first l by (simp add: record_success_def Let_def)
  qed
qed

lemma complete_item_held:
  assumes held: "item_held xid tok until (gw_sync g) x" and now: "now < until"
  shows "\<exists>g' x'. complete_item c xid tok m now g = (g', True) \<and> x' \<in> set (sync_items (gw_sync g')) \<and> si_id x' = xid
    \<and> si_status x' = SI_COMPLETED \<and> si_members x' = m \<and> pacing_released (si_session_id x) tok (gw_sync g')"
proof -
  let ?f = "complete_item_row xid tok m now"
  obtain x' where x': "?f x = Some x'" using held_owned [OF assms] by (simp add: complete_item_row_def)
  have k: "keyed si_id (sync_items (gw_sync g))" "x \<in> set (sync_items (gw_sync g))" "si_id x = xid"
    using held by (auto simp: item_held_def)
  have ret: "sql_returning ?f (sync_items (gw_sync g)) = [x']"
    by (rule sql_returning_one [where f = ?f, OF k(1,2) x']) (use k(3) in \<open>auto simp: complete_item_row_def item_owned_def\<close>)
  have row: "si_id x' = xid" "si_session_id x' = si_session_id x" "si_status x' = SI_COMPLETED" "si_members x' = m"
    using x' k(3) by (auto simp: complete_item_row_def)
  have "x' \<in> set (sql_update ?f (sync_items (gw_sync g)))" by (rule sql_update_mem_changed [where f = ?f, OF k(2) x'])
  moreover obtain g' where g': "complete_item c xid tok m now g = (g', True)"
      "sync_items (gw_sync g') = sql_update ?f (sync_items (gw_sync g))"
      "rate_limits (gw_sync g') = record_success c (si_session_id x) tok (rate_limits (gw_sync g))"
    using ret row(2) by (simp add: complete_item_def Let_def refresh_parent_def)
  moreover have "pacing_released (si_session_id x) tok (gw_sync g')"
    unfolding pacing_released_def g'(3) using record_success_released by metis
  ultimately show ?thesis using row by (intro exI [of _ g'] exI [of _ x']) simp
qed

lemma skip_item_held:
  assumes held: "item_held xid tok until sd x" and now: "now < until"
  shows "\<exists>x'. x' \<in> set (sync_items (fst (skip_item xid tok e now sd))) \<and> si_id x' = xid \<and> si_status x' = SI_SKIPPED
    \<and> pacing_released (si_session_id x) tok (fst (skip_item xid tok e now sd))"
proof -
  let ?f = "skip_item_row xid tok e now"
  obtain x' where x': "?f x = Some x'" using held_owned [OF assms] by (simp add: skip_item_row_def)
  have k: "keyed si_id (sync_items sd)" "x \<in> set (sync_items sd)" "si_id x = xid"
    using held by (auto simp: item_held_def)
  have ret: "sql_returning ?f (sync_items sd) = [x']"
    by (rule sql_returning_one [where f = ?f, OF k(1,2) x']) (use k(3) in \<open>auto simp: skip_item_row_def item_owned_def\<close>)
  have row: "si_id x' = xid" "si_session_id x' = si_session_id x" "si_status x' = SI_SKIPPED"
    using x' k(3) by (auto simp: skip_item_row_def)
  have rel: "l \<in> set (sql_update (release_row (si_session_id x) tok) ls) \<Longrightarrow> rl_session_id l = si_session_id x
      \<Longrightarrow> rl_lease_token l \<noteq> Some tok" for l ls
    by (rule released_update [where f = "release_row (si_session_id x) tok"]) (auto simp: release_row_def)
  have "x' \<in> set (sql_update ?f (sync_items sd))" by (rule sql_update_mem_changed [where f = ?f, OF k(2) x'])
  moreover have "sync_items (fst (skip_item xid tok e now sd)) = sql_update ?f (sync_items sd)"
      "rate_limits (fst (skip_item xid tok e now sd)) = sql_update (release_row (si_session_id x) tok) (rate_limits sd)"
    using ret row(2) by (simp_all add: skip_item_def refresh_parent_def)
  moreover have "pacing_released (si_session_id x) tok (fst (skip_item xid tok e now sd))"
    unfolding pacing_released_def calculation(3) using rel by metis
  ultimately show ?thesis using row by (intro exI [of _ x']) simp
qed

lemma fail_item_held:
  assumes held: "item_held xid tok until sd x" and now: "now < until"
  shows "\<exists>x'. x' \<in> set (sync_items (fst (fail_item c xid tok e p noise noise' now sd))) \<and> si_id x' = xid
    \<and> si_status x' = (if will_retry c p x then SI_RETRY else SI_FAILED)
    \<and> pacing_released (si_session_id x) tok (fst (fail_item c xid tok e p noise noise' now sd))"
proof -
  let ?f = "fail_item_row c xid tok e p noise now"
  obtain x' where x': "?f x = Some x'" using held_owned [OF assms] by (simp add: fail_item_row_def)
  have k: "keyed si_id (sync_items sd)" "x \<in> set (sync_items sd)" "si_id x = xid"
    using held by (auto simp: item_held_def)
  have ret: "sql_returning ?f (sync_items sd) = [x']"
    by (rule sql_returning_one [where f = ?f, OF k(1,2) x']) (use k(3) in \<open>auto simp: fail_item_row_def item_owned_def\<close>)
  have row: "si_id x' = xid" "si_session_id x' = si_session_id x"
      "si_status x' = (if will_retry c p x then SI_RETRY else SI_FAILED)"
    using x' k(3) by (auto simp: fail_item_row_def Let_def)
  have rel: "l \<in> set (sql_update (failure_row c (si_session_id x) tok p noise' now) ls) \<Longrightarrow> rl_session_id l = si_session_id x
      \<Longrightarrow> rl_lease_token l \<noteq> Some tok" for l ls
    by (rule released_update [where f = "failure_row c (si_session_id x) tok p noise' now"]) (auto simp: failure_row_def Let_def)
  have "x' \<in> set (sql_update ?f (sync_items sd))" by (rule sql_update_mem_changed [where f = ?f, OF k(2) x'])
  moreover have "sync_items (fst (fail_item c xid tok e p noise noise' now sd)) = sql_update ?f (sync_items sd)"
      "rate_limits (fst (fail_item c xid tok e p noise noise' now sd)) =
        sql_update (failure_row c (si_session_id x) tok p noise' now) (rate_limits sd)"
    using ret row(2) by (simp_all add: fail_item_def refresh_parent_def Let_def)
  moreover have "pacing_released (si_session_id x) tok (fst (fail_item c xid tok e p noise noise' now sd))"
    unfolding pacing_released_def calculation(3) using rel by metis
  ultimately show ?thesis using row by (intro exI [of _ x']) simp
qed

section \<open>The reconciliation\<close>

text \<open>What is left of the item for an answer of the gateway.\<close>

fun settled_status :: "runtime_config \<Rightarrow> nat \<Rightarrow> read_error + group_detail \<Rightarrow> sync_item_status" where
  "settled_status c attempt (Inr d) = SI_COMPLETED"
| "settled_status c attempt (Inl e) = (if group_not_found e then SI_SKIPPED
     else if fp_retryable (classify_group_read_failure e) \<and> int attempt < cfg_item_max_attempts c then SI_RETRY
     else SI_FAILED)"

text \<open>A worker that gets an item and is not disturbed settles it: with the details of the group the item is
  COMPLETED with the number of members and the group has the details; a missing group makes it SKIPPED; any
  other failure makes it wait for another attempt or, when the failure is final or the attempts are used up,
  FAILED. The pacing lease is returned whatever happens.
\<close>

theorem reconcile_group_settles:
  assumes ok: "sync_ok g" and limits: "keyed rl_session_id (rate_limits (gw_sync g))"
    and claim: "claim_item c xid (rc_token i) (rc_clock i 0) (gw_sync g) = (sd, Some cl)"
    and alone: "rc_others i = (\<lambda>k h. h)" "\<not> rc_lost i"
    and clock: "rc_clock i 1 < rc_clock i 0 + lease_ttl" "rc_clock i 4 < rc_clock i 0 + lease_ttl"
      "rc_clock i 2 < rc_clock i 1 + lease_ttl"
  shows "\<exists>x'. x' \<in> set (sync_items (gw_sync (fst (reconcile_group c i xid g)))) \<and> si_id x' = xid
    \<and> si_status x' = settled_status c (ic_attempt cl) (rc_read i)
    \<and> pacing_released (ic_session_id cl) (rc_token i) (gw_sync (fst (reconcile_group c i xid g)))
    \<and> (case rc_read i of Inl e \<Rightarrow> True
       | Inr d \<Rightarrow> si_members x' = gd_participants d \<and> snd (reconcile_group c i xid g) = Inr (Reconciled (gd_participants d) False))"
proof -
  let ?tok = "rc_token i"
  have items: "keyed si_id (sync_items (gw_sync g))" using items_okD(1) [OF sync_okD(2) [OF ok]] .
  obtain x run where held: "item_held xid ?tok (rc_clock i 0 + lease_ttl) sd x"
    and frame: "sync_runs sd = sync_runs (gw_sync g)" "sync_fences sd = sync_fences (gw_sync g)"
    and cl: "ic_run_id cl = si_run_id x" "ic_session_id cl = si_session_id x" "si_attempt_count x = ic_attempt cl"
    and run: "run \<in> set (sync_runs (gw_sync g))" "sr_id run = si_run_id x" "sr_status run = SY_RUNNING"
      "ic_epoch cl = sr_epoch run"
    using claim_item_held [OF items limits claim] by blast
  show ?thesis
  proof (cases "rc_read i")
    case (Inl e)
    show ?thesis
    proof (cases "group_not_found e")
      case True
      have "fst (reconcile_group c i xid g) = on_sync (\<lambda>sd. fst (skip_item xid ?tok (read_message e) (rc_clock i 1) sd))
          (g\<lparr>gw_sync := sd\<rparr>)"
        using True claim alone Inl by (simp add: reconcile_group_def Let_def)
      moreover obtain x' where "x' \<in> set (sync_items (fst (skip_item xid ?tok (read_message e) (rc_clock i 1) sd)))"
          "si_id x' = xid" "si_status x' = SI_SKIPPED"
          "pacing_released (si_session_id x) ?tok (fst (skip_item xid ?tok (read_message e) (rc_clock i 1) sd))"
        using skip_item_held [OF held clock(1)] by blast
      ultimately show ?thesis using True Inl cl by (intro exI [of _ x']) (simp add: on_sync_def)
    next
      case False
      let ?p = "classify_group_read_failure e"
      let ?sd = "fst (fail_item c xid ?tok (fp_code ?p) ?p (rc_noise i) (rc_cooldown_noise i) (rc_clock i 4) sd)"
      have "gw_sync (fst (reconcile_group c i xid g)) = ?sd"
        using False claim alone Inl by (simp add: reconcile_group_def item_failure_def on_sync_def Let_def)
      moreover obtain x' where "x' \<in> set (sync_items ?sd)" "si_id x' = xid"
          "si_status x' = (if will_retry c ?p x then SI_RETRY else SI_FAILED)" "pacing_released (si_session_id x) ?tok ?sd"
        using fail_item_held [OF held clock(2)] by blast
      ultimately show ?thesis using False Inl cl by (intro exI [of _ x']) (simp add: will_retry_def)
    qed
  next
    case (Inr d)
    let ?g1 = "g\<lparr>gw_sync := sd\<rparr>" and ?x1 = "x\<lparr>si_lease_expires_at := Some (rc_clock i 1 + lease_ttl)\<rparr>"
    obtain sd1 where renew: "renew_item xid ?tok (rc_clock i 1) sd = (sd1, True)"
      and held1: "item_held xid ?tok (rc_clock i 1 + lease_ttl) sd1 ?x1"
      and frame1: "sync_runs sd1 = sync_runs sd" "sync_fences sd1 = sync_fences sd"
      using renew_item_held [OF held clock(1)] by blast
    have "sync_ok ?g1" by (rule sync_ok_results(3) [OF ok claim])
    then have fence: "fence_ok (sync_runs sd) (sync_fences sd)" "items_ok (sync_runs sd) (sync_items sd)"
      using sync_okD by fastforce+
    obtain e where e: "sr_epoch run = Some e" "epoch_current (sr_session_id run) e (sync_fences sd)"
      using fence_okD(4) [OF fence(1)] run frame by fastforce
    have "x \<in> set (sync_items sd)" using held by (simp add: item_held_def)
    then obtain r where "r \<in> set (sync_runs sd)" "sr_id r = si_run_id x" "sr_session_id r = si_session_id x"
      using fence(2) by (auto simp: items_ok_def)
    moreover from this have "r = run"
      using keyed_inj [OF fence_okD(1) [OF fence(1)]] run frame by auto
    ultimately have epoch: "epoch_current (si_session_id ?x1) e (sync_fences (gw_sync (?g1\<lparr>gw_sync := sd1\<rparr>)))"
      using e frame1 by simp
    have held1': "item_held xid ?tok (rc_clock i 1 + lease_ttl) (gw_sync (?g1\<lparr>gw_sync := sd1\<rparr>)) ?x1" using held1 by simp
    obtain g2 where upsert: "upsert_details_item (si_session_id x) d \<lparr>if_item_id = xid, if_run_id = si_run_id x,
          if_session_id = si_session_id x, if_token = ?tok, if_epoch = e\<rparr> (rc_clock i 2) (rc_clock i 3) (?g1\<lparr>gw_sync := sd1\<rparr>)
          = (g2, Inr (gd_participants d))"
      and held2: "item_held xid ?tok (rc_clock i 3 + lease_ttl) (gw_sync g2)
          (?x1\<lparr>si_lease_expires_at := Some (rc_clock i 3 + lease_ttl)\<rparr>)"
      using upsert_details_held [OF held1' clock(3) _ _ run(3) e(1) epoch, of d "rc_clock i 3"] run frame frame1 by auto
    obtain g3 x' where fin: "complete_item c xid ?tok (gd_participants d) (rc_clock i 3) g2 = (g3, True)"
      and x': "x' \<in> set (sync_items (gw_sync g3))" "si_id x' = xid" "si_status x' = SI_COMPLETED"
        "si_members x' = gd_participants d" "pacing_released (si_session_id x) ?tok (gw_sync g3)"
      using complete_item_held [OF held2, of "rc_clock i 3" c "gd_participants d"] by auto
    have "reconcile_group c i xid g = (g3, Inr (Reconciled (gd_participants d) False))"
      using claim alone Inr renew upsert fin cl run(4) e(1) by (simp add: reconcile_group_def Let_def)
    then show ?thesis using Inr x' cl by (intro exI [of _ x']) simp
  qed
qed

definition published_db :: gateway_db where
  "published_db = fold (sync_apply pacing_sample (\<lambda>_. []) concat) published_sample sync_sample"

lemma published_db_ok: "sync_ok published_db"
  unfolding published_db_def
  by (rule sync_ok_fold, rule sync_ok_start) (simp_all add: sync_sample_def sample_steps published_sample_def)

definition reconcile_sample :: "read_error + group_detail \<Rightarrow> reconcile_input" where
  "reconcile_sample answer = \<lparr>rc_token = ''w1'', rc_clock = (\<lambda>k. 100000 + int k), rc_others = (\<lambda>k h. h),
     rc_lost = False, rc_read = answer, rc_noise = 1000, rc_cooldown_noise = 1000\<rparr>"

lemmas published_steps = published_db_def sample_steps published_sample_def publish_discovery_def sample_fence_def
  sample_summary_def config_sample_fields snapshot_baseline_def suspicious_snapshot_def discovery_deferred_def
  assert_sync_write_def epoch_current_def sync_owned_def replace_summaries_def guard_def select_items_def
  item_reason_def map_filter_simps new_item_def publish_run_row_def

lemma published_db_claim:
  "\<exists>sd cl. claim_item pacing_sample ''g1@g.us'' ''w1'' 100000 (gw_sync published_db) = (sd, Some cl) \<and> ic_attempt cl = 1
     \<and> ic_session_id cl = ''s1''"
  by (simp add: published_steps claim_item_def running_run_of_def ensure_limit_def new_limit_def ready_and_rate_def
     limit_ready_def claim_item_row_def)

lemma reconcile_group_settles_witness:
  "\<exists>x' \<in> set (sync_items (gw_sync (fst (reconcile_group pacing_sample (reconcile_sample (Inl (HttpError 503 None)))
      ''g1@g.us'' published_db)))). si_id x' = ''g1@g.us'' \<and> si_status x' = SI_RETRY"
proof -
  let ?i = "reconcile_sample (Inl (HttpError 503 None))"
  obtain sd cl where claim: "claim_item pacing_sample ''g1@g.us'' (rc_token ?i) (rc_clock ?i 0) (gw_sync published_db) = (sd, Some cl)"
    and attempt: "ic_attempt cl = 1"
    using published_db_claim by (auto simp: reconcile_sample_def)
  have limits: "keyed rl_session_id (rate_limits (gw_sync published_db))"
    by (simp add: published_steps)
  have "settled_status pacing_sample (ic_attempt cl) (rc_read ?i) = SI_RETRY"
    by (simp add: reconcile_sample_def attempt policy_def config_sample_fields)
  then show ?thesis
    using reconcile_group_settles [OF published_db_ok limits claim]
    by (auto simp: reconcile_sample_def lease_ttl_def minutes_def)
qed

section \<open>The invariant\<close>

lemma dispatch_keeps_sync:
  assumes "sync_ok g"
  shows "sync_ok (dispatch_recoveries c clock g)"
proof -
  have intents: "(\<lambda>sd. fst (recover_intents c (clock 3) sd)) = intent_apply c (IRecover (clock 3))" by (simp add: fun_eq_iff)
  show ?thesis
    unfolding dispatch_recoveries_def Let_def intents
    by (intro sync_ok_statements(4,10,11) sync_ok_gateway(2) assms)
qed

text \<open>The row that a queued job is for still waits for it.\<close>

fun job_waits :: "runtime_config \<Rightarrow> gateway_db \<Rightarrow> sync_job \<Rightarrow> bool" where
  "job_waits c g (FullJob rid) \<longleftrightarrow> (\<exists>r \<in> set (sync_runs (gw_sync g)). sr_id r = rid \<and> sr_status r = SY_PENDING \<and> sr_attempt_count r < 3)"
| "job_waits c g (ReconcileJob xid) \<longleftrightarrow> (\<exists>x \<in> set (sync_items (gw_sync g)). si_id x = xid \<and> si_status x \<in> {SI_PENDING, SI_RETRY}
     \<and> int (si_attempt_count x) < cfg_item_max_attempts c
     \<and> (\<exists>r \<in> set (sync_runs (gw_sync g)). sr_id r = si_run_id x \<and> sr_status r = SY_RUNNING))"
| "job_waits c g (RefreshJob sid gid rv) \<longleftrightarrow> (\<exists>x \<in> set (gw_groups g). gg_session_id x = sid \<and> gg_id x = gid \<and> gg_revision x = rv
     \<and> gg_is_active x \<and> gg_invalidated_at x \<noteq> None \<and> gg_attempt_count x < 3
     \<and> \<not> sync_discovery_pending (sync_runs (gw_sync g)) sid)"
| "job_waits c g (TargetedJob sid gid) \<longleftrightarrow> cfg_targeted_reconciliation c \<and> sid \<in> set (cfg_allowed_sessions c)
     \<and> (\<exists>i \<in> set (group_intents (gw_sync g)). in_session_id i = sid \<and> in_group_id i = gid \<and> in_status i \<in> {I_PENDING, I_RETRY}
          \<and> int (in_attempt_count i) < cfg_item_max_attempts c)"

lemma sql_topD: "x \<in> set (sql_top n key P rows) \<Longrightarrow> x \<in> set rows \<and> P x"
  using set_sql_top by fast

lemma dispatched_wait:
  assumes "q \<in> set (dispatch_jobs c now wall g)"
  shows "job_waits c g (qj_job q)"
proof -
  let ?sd = "gw_sync g"
  consider (full) r where "r \<in> set (list_pending_sync 100 now (sync_runs ?sd))" "qj_job q = FullJob (sr_id r)"
    | (item) x where "x \<in> set (sql_top 100 (item_order ?sd) (first_of_session c now ?sd) (sync_items ?sd))"
        "qj_job q = ReconcileJob (si_id x)"
    | (refresh) x where "x \<in> set (sql_top 100 (\<lambda>g. (gg_next_attempt_at g, coalesce (gg_invalidated_at g) 0))
          (\<lambda>g. refresh_ready (sync_runs ?sd) now g \<and> \<not> intent_active (group_intents ?sd) g) (gw_groups g))"
        "qj_job q = RefreshJob (gg_session_id x) (gg_id x) (gg_revision x)"
    | (intent) i where "cfg_targeted_reconciliation c"
        "i \<in> set (sql_top 100 (\<lambda>i. (intent_available now (rate_limits ?sd) i, in_last_requested_at i))
          (intent_dispatchable c now ?sd) (group_intents ?sd))"
        "qj_job q = TargetedJob (in_session_id i) (in_group_id i)"
    using assms
    by (auto simp: dispatch_jobs_def Let_def list_dispatchable_items_def list_needing_refresh_def
        list_dispatchable_intents_def split: if_splits)
  then show ?thesis
  proof cases
    case full
    then show ?thesis using sql_topD by (fastforce simp: list_pending_sync_def)
  next
    case item
    have "x \<in> set (sync_items ?sd)" "first_of_session c now ?sd x" using sql_topD [OF item(1)] by blast+
    moreover from this(2) have "item_candidate c now ?sd x"
      unfolding first_of_session_def
      using sql_topD [of x 1 "item_order ?sd" "\<lambda>y. item_candidate c now ?sd y \<and> si_session_id y = si_session_id x" "sync_items ?sd"]
      by simp
    ultimately show ?thesis using item(2) by (auto simp: item_candidate_def)
  next
    case refresh
    from sql_topD [OF refresh(1)] refresh(2) show ?thesis by (auto simp: refresh_ready_def)
  next
    case intent
    from sql_topD [OF intent(2)] intent(1,3) show ?thesis by (auto simp: intent_dispatchable_def)
  qed
qed

text \<open>C16: Every job of the synchronization queue keeps the invariant of the synchronization, whatever the gateway
  answers, whenever the job loses its lease, and whatever other workers that keep the invariant do between
  its statements; every pass of the dispatch keeps it too, and queues only jobs whose row still waits after the
  recoveries of the pass: a pending run with attempts left, an open item of a running run, an invalidated group
  at its revision with no discovery of its session pending, an open intent of an allowed session.
\<close>

theorem sync_jobs_keep_invariant:
  assumes "sync_ok g" "fresh_items (pf_ids full)"
    and "\<And>k. keeps_sync (pf_others full k)" "\<And>k. keeps_sync (rc_others item k)" "\<And>k. keeps_sync (rf_others refresh k)"
    and "dispatch_once c clock wall takes g = (g', queued)"
  shows "sync_ok (process_sync_job c digest ids_digest full item refresh job g)
    \<and> sync_ok g' \<and> (\<forall>q \<in> set queued. job_waits c g' (qj_job q))"
proof -
  have "sync_ok (process_sync_job c digest ids_digest full item refresh job g)"
    using assms(1-5)
    by (cases job) (simp_all add: process_sync_job_def perform_keeps_sync reconcile_keeps_sync targeted_keeps_sync
      refresh_keeps_sync)
  moreover have "g' = dispatch_recoveries c clock g" "queued = filter takes (dispatch_jobs c (clock 4) wall g')"
    using assms(6) by (auto simp: dispatch_once_def Let_def)
  ultimately show ?thesis using dispatch_keeps_sync [OF assms(1)] dispatched_wait by auto
qed

definition fresh_name :: "sync_item table \<Rightarrow> string \<Rightarrow> uuid" where
  "fresh_name items gid = replicate (Suc (sum_list (map (length \<circ> si_id) items))) CHR ''x'' @ gid"

lemma fresh_name_fresh: "fresh_items fresh_name"
  unfolding fresh_items_def
proof (intro allI conjI)
  fix items :: "sync_item table"
  show "inj (fresh_name items)" by (rule injI) (simp add: fresh_name_def)
  have "length (si_id x) < length (fresh_name items gid)" if "x \<in> set items" for x gid
    using member_le_sum_list [of "length (si_id x)" "map (length \<circ> si_id) items"] that by (simp add: fresh_name_def)
  then have "fresh_name items gid \<noteq> si_id x" if "x \<in> set items" for x gid
    using that by (metis less_irrefl)
  then show "range (fresh_name items) \<inter> si_id ` set items = {}" by blast
qed

definition perform_sample :: perform_input where
  "perform_sample = \<lparr>pf_token = ''t1'', pf_ids = fresh_name, pf_wall = 0, pf_clock = int, pf_others = (\<lambda>k h. h),
     pf_lost = (\<lambda>k. False), pf_release = None, pf_session = Inl ''fetch failed'', pf_groups = Inl ''fetch failed''\<rparr>"

definition refresh_sample :: refresh_input where
  "refresh_sample = \<lparr>rf_pacing_token = ''p1'', rf_token = ''t1'', rf_clock = int, rf_others = (\<lambda>k h. h),
     rf_read = Inl (HttpError 429 None), rf_store_error = None, rf_noise = 1000\<rparr>"

lemma sync_jobs_keep_invariant_witness:
  "sync_ok (process_sync_job pacing_sample (\<lambda>_. []) concat perform_sample
     (reconcile_sample (Inl (HttpError 404 None))) refresh_sample (ReconcileJob ''g1@g.us'') published_db)
   \<and> sync_ok (fst (dispatch_once pacing_sample int 5 (\<lambda>q. True) published_db))"
proof -
  obtain g' queued where "dispatch_once pacing_sample int 5 (\<lambda>q. True) published_db = (g', queued)" by fastforce
  from sync_jobs_keep_invariant [OF published_db_ok _ _ _ _ this, of perform_sample "reconcile_sample (Inl (HttpError 404 None))"
      refresh_sample "\<lambda>_. []" concat "ReconcileJob ''g1@g.us''"] this
  show ?thesis
    by (simp add: perform_sample_def reconcile_sample_def refresh_sample_def fresh_name_fresh keeps_sync_id)
qed

end
