(* ===== verification/Runtime_Events.thy ===== *)
theory Runtime_Events
  imports Json Sessions Sync_Items Group_Intents Message_Jobs
begin

text \<open>
  What an OpenWA webhook means: src/src/modules/webhooks/webhook-normalizer.ts turns the envelope into an
  event, and runtime-event.repository.ts stores the event once and applies its effects in one transaction.
\<close>

section \<open>Normalization\<close>

text \<open>OpenWAWebhookEnvelope.\<close>

record envelope =
  en_event :: string
  en_timestamp :: string
  en_session_id :: string
  en_key :: string
  en_delivery_id :: string
  en_data :: json_object

text \<open>RuntimeEvent; occurredAt is None for an Invalid Date.\<close>

record runtime_event =
  re_id :: string
  re_source_type :: string
  re_type :: string
  re_version :: nat
  re_session_id :: string
  re_occurred_at :: "timestamp option"
  re_payload :: json_object

text \<open>
  Number(text) where it is finite, as a rational, and the time that new Date(text) reads from a date; both
  are of the JavaScript engine. new Date(n) drops a fraction of a millisecond and is an Invalid Date beyond
  8.64e15 of them.
\<close>

record js_reader =
  jd_number :: "string \<Rightarrow> rat option"
  jd_date :: "string \<Rightarrow> timestamp option"

definition time_clip :: "rat \<Rightarrow> timestamp option" where
  "time_clip n = (if \<bar>n\<bar> \<le> 8640000000000000 then Some (if n < 0 then \<lceil>n\<rceil> else \<lfloor>n\<rfloor>) else None)"

definition epoch_time :: "rat \<Rightarrow> timestamp option" where
  "epoch_time n = time_clip (if n < 10000000000 then n * 1000 else n)"

definition date_from :: "js_reader \<Rightarrow> json option \<Rightarrow> string \<Rightarrow> timestamp option" where
  "date_from jd v fallback = (case v of
     Some (JNumber n) \<Rightarrow> epoch_time (of_int n)
   | Some (JText s) \<Rightarrow> if js_trim s = [] then jd_date jd fallback
       else (case jd_number jd s of Some n \<Rightarrow> epoch_time n
         | None \<Rightarrow> (case jd_date jd s of Some t \<Rightarrow> Some t | None \<Rightarrow> jd_date jd fallback))
   | _ \<Rightarrow> jd_date jd fallback)"

fun text_of :: "json option \<Rightarrow> string" where
  "text_of (Some (JText s)) = s"
| "text_of _ = []"

text \<open>text(value) || null.\<close>

definition text_or_null :: "json option \<Rightarrow> json" where
  "text_or_null v = (if text_of v = [] then JNull else JText (text_of v))"

definition group_events :: "string list" where
  "group_events = [''group.join'', ''group.leave'', ''group.update'']"

definition message_events :: "string list" where
  "message_events = [''message.ack'', ''message.sent'', ''message.failed'']"

definition received_payload :: "json_object \<Rightarrow> json_object" where
  "received_payload d =
     (let gid = text_of (js_or (json_field ''chatId'' d) (json_field ''from'' d)) in
      [(''messageId'', JText (text_of (json_field ''id'' d))), (''groupId'', JText gid),
       (''senderId'', JText (text_of (js_or (json_field ''author'' d) (json_field ''from'' d)))),
       (''body'', JText (text_of (json_field ''body'' d))),
       (''messageType'', JText (if text_of (json_field ''type'' d) = [] then ''unknown''
          else text_of (json_field ''type'' d))),
       (''fromMe'', JBool (json_field ''fromMe'' d = Some (JBool True))),
       (''isGroup'', JBool (json_field ''isGroup'' d = Some (JBool True) \<or> group_jid gid))])"

definition message_payload :: "json_object \<Rightarrow> json_object" where
  "message_payload d =
     [(''messageId'', JText (text_of (js_or (json_field ''messageId'' d) (json_field ''id'' d)))),
      (''groupId'', text_or_null (json_field ''chatId'' d)),
      (''deliveryStatus'', text_or_null (js_or (json_field ''status'' d) (json_field ''ack'' d)))]"

definition status_payload :: "json_object \<Rightarrow> json_object" where
  "status_payload d = [(''status'', JText (if text_of (json_field ''status'' d) = [] then ''unknown''
     else text_of (json_field ''status'' d)))]"

definition restriction_payload :: "json_object \<Rightarrow> json_object" where
  "restriction_payload d =
     [(''active'', JBool (json_field ''active'' d = Some (JBool True))),
      (''kind'', text_or_null (json_field ''kind'' d)), (''code'', text_or_null (json_field ''code'' d)),
      (''expiresAt'', text_or_null (json_field ''expiresAt'' d))]"

text \<open>An array is an object too.\<close>

definition group_payload :: "json_object \<Rightarrow> json_object" where
  "group_payload d =
     [(''groupId'', JText (text_of (json_field ''groupId'' d))),
      (''participantIds'', case json_field ''participantIds'' d of Some (JArray xs) \<Rightarrow> JArray xs | _ \<Rightarrow> JArray []),
      (''changes'', case json_field ''changes'' d of Some (JObject ps) \<Rightarrow> JObject ps
         | Some (JArray xs) \<Rightarrow> JArray xs | _ \<Rightarrow> JNull)]"

definition normalize_openwa_webhook :: "js_reader \<Rightarrow> envelope \<Rightarrow> runtime_event" where
  "normalize_openwa_webhook jd e =
     (let d = en_data e;
          (typ, payload) =
            (if en_event e = ''message.received'' then (''message.received'', received_payload d)
             else if en_event e \<in> set message_events then (en_event e, message_payload d)
             else if en_event e = ''session.status'' then (''session.status.changed'', status_payload d)
             else if en_event e = ''session.restriction'' then (''session.restriction.changed'', restriction_payload d)
             else if en_event e \<in> set group_events then (en_event e, group_payload d)
             else (''gateway.'' @ en_event e, d)) in
      \<lparr>re_id = en_key e, re_source_type = en_event e, re_type = typ, re_version = 1,
       re_session_id = en_session_id e,
       re_occurred_at = date_from jd (json_field ''timestamp'' d) (en_timestamp e), re_payload = payload\<rparr>)"

section \<open>The ledger\<close>

definition runtime_event_ledger ::
  "bool \<Rightarrow> (string \<Rightarrow> string) \<Rightarrow> runtime_event \<Rightarrow> nat \<times> json_object" where
  "runtime_event_ledger compress sha e =
     (if \<not> compress \<or> re_type e \<noteq> ''message.received'' then (re_version e, re_payload e)
      else let body = text_of (json_field ''body'' (re_payload e)) in
        (2, filter (\<lambda>p. fst p \<noteq> ''body'') (re_payload e)
          @ [(''bodyBytes'', JNumber (int (utf8_length body))), (''bodySha256'', JText (sha body))]))"

record stored_event =
  ev_id :: string
  ev_source_type :: string
  ev_type :: string
  ev_version :: nat
  ev_session_id :: string
  ev_occurred_at :: timestamp
  ev_payload :: json_object
  ev_created_at :: timestamp

record inbound_message =
  im_session_id :: string
  im_message_id :: string
  im_group_id :: string
  im_sender_id :: string
  im_body :: string
  im_type :: string
  im_from_me :: bool
  im_received_at :: timestamp
  im_event_id :: string
  im_created_at :: timestamp

record message_event =
  me_event_id :: string
  me_session_id :: string
  me_message_id :: string
  me_group_id :: "string option"
  me_type :: string
  me_status :: "string option"
  me_occurred_at :: timestamp

record event_db =
  ed_events :: "stored_event table"
  ed_inbound :: "inbound_message table"
  ed_message_events :: "message_event table"
  ed_gateway :: gateway_db

text \<open>Columns of the payload: a JSON null is NULL.\<close>

definition payload_opt :: "string \<Rightarrow> json_object \<Rightarrow> string option" where
  "payload_opt k p = (case json_field k p of Some (JText s) \<Rightarrow> Some s | _ \<Rightarrow> None)"

definition payload_text :: "string \<Rightarrow> json_object \<Rightarrow> string" where
  "payload_text k p = coalesce (payload_opt k p) []"

definition new_stored_event :: "bool \<Rightarrow> (string \<Rightarrow> string) \<Rightarrow> runtime_event \<Rightarrow> timestamp \<Rightarrow> timestamp \<Rightarrow> stored_event" where
  "new_stored_event compress sha e seen now = (case runtime_event_ledger compress sha e of (version, payload) \<Rightarrow>
     \<lparr>ev_id = re_id e, ev_source_type = re_source_type e, ev_type = re_type e, ev_version = version,
      ev_session_id = re_session_id e, ev_occurred_at = seen, ev_payload = payload,
      ev_created_at = now\<rparr>)"

definition new_inbound :: "runtime_event \<Rightarrow> timestamp \<Rightarrow> timestamp \<Rightarrow> inbound_message" where
  "new_inbound e seen now = (let p = re_payload e in
     \<lparr>im_session_id = re_session_id e, im_message_id = payload_text ''messageId'' p,
      im_group_id = payload_text ''groupId'' p, im_sender_id = payload_text ''senderId'' p,
      im_body = payload_text ''body'' p, im_type = payload_text ''messageType'' p,
      im_from_me = (json_field ''fromMe'' p = Some (JBool True)), im_received_at = seen,
      im_event_id = re_id e, im_created_at = now\<rparr>)"

definition inbound_key :: "inbound_message \<Rightarrow> string \<times> string" where
  "inbound_key m = (im_session_id m, im_message_id m)"

definition new_message_event :: "runtime_event \<Rightarrow> timestamp \<Rightarrow> message_event" where
  "new_message_event e seen = (let p = re_payload e in
     \<lparr>me_event_id = re_id e, me_session_id = re_session_id e, me_message_id = payload_text ''messageId'' p,
      me_group_id = payload_opt ''groupId'' p, me_type = re_type e, me_status = payload_opt ''deliveryStatus'' p,
      me_occurred_at = seen\<rparr>)"

section \<open>The effects of an event\<close>

definition store_inbound :: "runtime_event \<Rightarrow> timestamp \<Rightarrow> timestamp \<Rightarrow> inbound_message table \<Rightarrow> inbound_message table" where
  "store_inbound e seen now ms =
     (if re_type e = ''message.received'' \<and> json_field ''isGroup'' (re_payload e) = Some (JBool True)
         \<and> truthy (json_field ''messageId'' (re_payload e))
      then sql_insert_new inbound_key (new_inbound e seen now) ms else ms)"

definition store_message_event :: "runtime_event \<Rightarrow> timestamp \<Rightarrow> message_event table \<Rightarrow> message_event table" where
  "store_message_event e seen ms =
     (if re_type e \<in> set message_events \<and> truthy (json_field ''messageId'' (re_payload e))
      then sql_insert_new me_event_id (new_message_event e seen) ms else ms)"

definition store_status :: "runtime_event \<Rightarrow> timestamp \<Rightarrow> timestamp \<Rightarrow> gateway_session table \<Rightarrow> gateway_session table" where
  "store_status e seen now ss = (if re_type e = ''session.status.changed''
     then sql_update (status_event_row (re_session_id e) (payload_text ''status'' (re_payload e)) seen now) ss else ss)"

definition store_restriction ::
  "runtime_event \<Rightarrow> timestamp \<Rightarrow> timestamp \<Rightarrow> gateway_session table \<Rightarrow> gateway_session table" where
  "store_restriction e seen now ss = (if re_type e = ''session.restriction.changed''
     then sql_update (restriction_event_row (re_session_id e)
       (if json_field ''active'' (re_payload e) = Some (JBool True) then Some (JObject (re_payload e)) else None)
       seen now) ss
     else ss)"

definition store_group :: "runtime_config \<Rightarrow> runtime_event \<Rightarrow> timestamp \<Rightarrow> gateway_db \<Rightarrow> gateway_db" where
  "store_group c e now g =
     (let sid = re_session_id e; gid = payload_text ''groupId'' (re_payload e) in
      if re_type e \<in> set group_events \<and> truthy (json_field ''groupId'' (re_payload e)) \<and> is_allowed c sid
         \<and> find_session sid (gw_sessions g) \<noteq> None
      then g\<lparr>gw_sync := (gw_sync g)\<lparr>group_intents := fst (schedule_intent c sid gid (re_type e) now (group_intents (gw_sync g)))\<rparr>,
             gw_groups := sql_update (group_event_row sid gid now) (gw_groups g)\<rparr>
      else g)"

definition apply_event ::
  "runtime_config \<Rightarrow> (string \<Rightarrow> string) \<Rightarrow> runtime_event \<Rightarrow> timestamp \<Rightarrow> timestamp \<Rightarrow> event_db \<Rightarrow> event_db" where
  "apply_event c sha e seen now d =
     (let g = ed_gateway d;
          g1 = g\<lparr>gw_sessions := store_restriction e seen now (store_status e seen now (gw_sessions g))\<rparr> in
      \<lparr>ed_events = ed_events d @ [new_stored_event (cfg_compact_event_payload c) sha e seen now],
       ed_inbound = store_inbound e seen now (ed_inbound d),
       ed_message_events = store_message_event e seen (ed_message_events d),
       ed_gateway = store_group c e now g1\<rparr>)"

text \<open>
  storeInTransaction; an Inl aborts the transaction. PostgreSQL refuses an Invalid Date, and an event with
  the identifier of another one is a collision.
\<close>

definition same_event :: "runtime_event \<Rightarrow> timestamp \<Rightarrow> stored_event \<Rightarrow> bool" where
  "same_event e seen r \<longleftrightarrow> ev_source_type r = re_source_type e \<and> ev_type r = re_type e
     \<and> ev_session_id r = re_session_id e \<and> ev_occurred_at r = seen"

definition store_event ::
  "runtime_config \<Rightarrow> (string \<Rightarrow> string) \<Rightarrow> runtime_event \<Rightarrow> timestamp \<Rightarrow> event_db \<Rightarrow> string + event_db \<times> bool" where
  "store_event c sha e now d = (case re_occurred_at e of
     None \<Rightarrow> Inl ''invalid input syntax for type timestamp with time zone''
   | Some seen \<Rightarrow> (case find_by ev_id (re_id e) (ed_events d) of
       None \<Rightarrow> Inr (apply_event c sha e seen now d, True)
     | Some r \<Rightarrow> if same_event e seen r then Inr (d, False)
         else Inl (''Runtime event idempotency collision: '' @ re_id e)))"

lemma store_event_cases:
  assumes "store_event c sha e now d = Inr (d', new)"
  obtains (stored) seen where "re_occurred_at e = Some seen" "re_id e \<notin> ev_id ` set (ed_events d)"
      "d' = apply_event c sha e seen now d" "new"
    | (known) "re_id e \<in> ev_id ` set (ed_events d)" "d' = d" "\<not> new"
proof (cases "re_occurred_at e")
  case None
  then show ?thesis using assms by (simp add: store_event_def)
next
  case (Some seen)
  show ?thesis
  proof (cases "find_by ev_id (re_id e) (ed_events d)")
    case None
    then have "re_id e \<notin> ev_id ` set (ed_events d)" by (simp add: find_by_None)
    then show ?thesis using assms Some None by (intro stored [OF Some]) (auto simp: store_event_def)
  next
    case (Some r)
    then have "re_id e \<in> ev_id ` set (ed_events d)" using find_by_None [of ev_id "re_id e" "ed_events d"] by auto
    then show ?thesis using assms \<open>re_occurred_at e = _\<close> Some
      by (intro known) (auto simp: store_event_def split: if_splits)
  qed
qed

text \<open>A compacted event keeps every field but the body.\<close>

lemma ledger_keeps_fields:
  assumes "k \<notin> {''body'', ''bodyBytes'', ''bodySha256''}"
  shows "json_field k (snd (runtime_event_ledger compress sha e)) = json_field k (re_payload e)"
proof -
  have "map_of (filter (\<lambda>p. fst p \<noteq> ''body'') obj) k = map_of obj k" for obj :: json_object
    using assms by (induction obj) auto
  then show ?thesis using assms
    by (auto simp: runtime_event_ledger_def Let_def json_field_def map_add_def split: option.split)
qed

lemma ledger_drops_body:
  "re_type e = ''message.received'' \<Longrightarrow> json_field ''body'' (snd (runtime_event_ledger True sha e)) = None"
proof -
  have "map_of (filter (\<lambda>p. fst p \<noteq> ''body'') obj) ''body'' = None" for obj :: json_object
    by (induction obj) auto
  then show "re_type e = ''message.received'' \<Longrightarrow> ?thesis"
    by (simp add: runtime_event_ledger_def Let_def json_field_def map_add_def)
qed

end
