(* ===== verification/Contact_Intents.thy ===== *)
theory Contact_Intents
  imports Schema
begin

text \<open>
  The intents to observe the sender of a message, src/src/modules/contacts/
  contact-message-observation-intent.repository.ts: the webhook that stores the message enqueues one, and
  the observation tick claims, observes and deletes it, or fails it with a backoff at most ten times.
\<close>

datatype work_state = W_PENDING | W_PROCESSING | W_RETRY | W_PROCESSED | W_DEAD

record sender_observation =
  so_event_id :: string
  so_session_id :: string
  so_sender_id :: string
  so_push_name :: string
  so_observed_at :: timestamp

record observation_intent =
  oi_observation :: sender_observation
  oi_state :: work_state
  oi_attempt_count :: nat
  oi_next_attempt_at :: timestamp
  oi_lease_token :: "uuid option"
  oi_lease_expires_at :: "timestamp option"
  oi_error :: "string option"
  oi_created_at :: timestamp
  oi_updated_at :: timestamp

definition oi_key :: "observation_intent \<Rightarrow> string" where
  "oi_key i = so_event_id (oi_observation i)"

definition new_observation_intent :: "sender_observation \<Rightarrow> timestamp \<Rightarrow> observation_intent" where
  "new_observation_intent ob now = \<lparr>oi_observation = ob, oi_state = W_PENDING, oi_attempt_count = 0,
     oi_next_attempt_at = now, oi_lease_token = None, oi_lease_expires_at = None, oi_error = None,
     oi_created_at = now, oi_updated_at = now\<rparr>"

text \<open>The enqueue of the service and of the repository.\<close>

definition enqueue_observation ::
  "bool \<Rightarrow> sender_observation \<Rightarrow> timestamp \<Rightarrow> observation_intent table \<Rightarrow> observation_intent table" where
  "enqueue_observation enabled ob now rows =
     (if enabled then sql_insert_new oi_key (new_observation_intent ob now) rows else rows)"

definition recover_observation_row :: "timestamp \<Rightarrow> observation_intent row_update" where
  "recover_observation_row now = sql_where (\<lambda>i. oi_state i = W_PROCESSING \<and> null_before (oi_lease_expires_at i) now)
     (\<lambda>i. i\<lparr>oi_state := (if 10 \<le> oi_attempt_count i then W_DEAD else W_RETRY),
        oi_next_attempt_at := (if 10 \<le> oi_attempt_count i then oi_next_attempt_at i else now),
        oi_lease_token := None, oi_lease_expires_at := None,
        oi_error := Some ''Recovered expired processing lease'', oi_updated_at := now\<rparr>)"

definition observation_due :: "timestamp \<Rightarrow> observation_intent \<Rightarrow> bool" where
  "observation_due now i \<longleftrightarrow> oi_state i \<in> {W_PENDING, W_RETRY} \<and> oi_next_attempt_at i \<le> now"

definition observation_candidates :: "nat \<Rightarrow> timestamp \<Rightarrow> observation_intent table \<Rightarrow> observation_intent list" where
  "observation_candidates limit now rows =
     sql_top limit (\<lambda>i. (oi_next_attempt_at i, oi_created_at i)) (observation_due now) rows"

text \<open>gen_random_uuid() of each row is the parameter \<open>tokens\<close>.\<close>

definition claim_observation_row ::
  "(string \<Rightarrow> uuid) \<Rightarrow> string set \<Rightarrow> timestamp \<Rightarrow> observation_intent row_update" where
  "claim_observation_row tokens keys now = sql_where (\<lambda>i. oi_key i \<in> keys)
     (\<lambda>i. i\<lparr>oi_state := W_PROCESSING, oi_attempt_count := oi_attempt_count i + 1,
        oi_lease_token := Some (tokens (oi_key i)), oi_lease_expires_at := Some (now + lease_ttl),
        oi_error := None, oi_updated_at := now\<rparr>)"

definition claim_observations ::
  "(string \<Rightarrow> uuid) \<Rightarrow> nat \<Rightarrow> timestamp \<Rightarrow> observation_intent table
    \<Rightarrow> observation_intent table \<times> observation_intent list" where
  "claim_observations tokens limit now rows =
     (let claim = claim_observation_row tokens (oi_key ` set (observation_candidates limit now rows)) now in
      (sql_update claim rows, sql_returning claim rows))"

definition observation_held :: "string \<Rightarrow> uuid \<Rightarrow> observation_intent \<Rightarrow> bool" where
  "observation_held key t i \<longleftrightarrow> oi_key i = key \<and> oi_state i = W_PROCESSING \<and> oi_lease_token i = Some t"

definition complete_observation ::
  "string \<Rightarrow> uuid \<Rightarrow> observation_intent table \<Rightarrow> observation_intent table \<times> bool" where
  "complete_observation key t rows =
     (sql_delete (observation_held key t) rows, \<exists>i \<in> set rows. observation_held key t i)"

text \<open>LEAST(900, 5 * power(2, attempt_count - 1)) seconds.\<close>

definition observation_backoff :: "nat \<Rightarrow> timestamp" where
  "observation_backoff attempts = seconds (min 900 (5 * 2 ^ (attempts - 1)))"

definition fail_observation_row :: "string \<Rightarrow> uuid \<Rightarrow> string \<Rightarrow> timestamp \<Rightarrow> observation_intent row_update" where
  "fail_observation_row key t err now = sql_where (observation_held key t)
     (\<lambda>i. i\<lparr>oi_state := (if 10 \<le> oi_attempt_count i then W_DEAD else W_RETRY),
        oi_next_attempt_at := (if 10 \<le> oi_attempt_count i then oi_next_attempt_at i
          else now + observation_backoff (oi_attempt_count i)),
        oi_lease_token := None, oi_lease_expires_at := None, oi_error := Some err, oi_updated_at := now\<rparr>)"

datatype attempt_result = WillRetry | IsDead | LostOwnership

definition fail_observation ::
  "string \<Rightarrow> uuid \<Rightarrow> string \<Rightarrow> timestamp \<Rightarrow> observation_intent table
    \<Rightarrow> observation_intent table \<times> attempt_result" where
  "fail_observation key t err now rows = (let upd = fail_observation_row key t err now in
     (sql_update upd rows, case sql_returning upd rows of [] \<Rightarrow> LostOwnership
        | i # _ \<Rightarrow> if oi_state i = W_DEAD then IsDead else WillRetry))"

lemmas observation_rows = recover_observation_row_def claim_observation_row_def fail_observation_row_def

section \<open>Every intent is tried at most ten times\<close>

datatype observation_op =
    OEnqueue bool sender_observation timestamp
  | ORecover timestamp
  | OClaim "string \<Rightarrow> uuid" nat timestamp
  | OComplete string uuid
  | OFail string uuid string timestamp

fun observation_apply :: "observation_op \<Rightarrow> observation_intent table \<Rightarrow> observation_intent table" where
  "observation_apply (OEnqueue enabled ob now) rows = enqueue_observation enabled ob now rows"
| "observation_apply (ORecover now) rows = sql_update (recover_observation_row now) rows"
| "observation_apply (OClaim tokens limit now) rows = fst (claim_observations tokens limit now rows)"
| "observation_apply (OComplete key t) rows = fst (complete_observation key t rows)"
| "observation_apply (OFail key t err now) rows = fst (fail_observation key t err now rows)"

definition observation_wf :: "observation_intent \<Rightarrow> bool" where
  "observation_wf i \<longleftrightarrow> (case oi_state i of
     W_PENDING \<Rightarrow> oi_attempt_count i = 0 \<and> oi_lease_token i = None
   | W_PROCESSING \<Rightarrow> 1 \<le> oi_attempt_count i \<and> oi_attempt_count i \<le> 10 \<and> oi_lease_token i \<noteq> None
       \<and> oi_lease_expires_at i \<noteq> None
   | W_RETRY \<Rightarrow> 1 \<le> oi_attempt_count i \<and> oi_attempt_count i < 10 \<and> oi_lease_token i = None
   | W_PROCESSED \<Rightarrow> False
   | W_DEAD \<Rightarrow> oi_attempt_count i = 10 \<and> oi_lease_token i = None)"

definition observations_wf :: "observation_intent table \<Rightarrow> bool" where
  "observations_wf rows \<longleftrightarrow> keyed oi_key rows \<and> (\<forall>i \<in> set rows. observation_wf i)"

lemma observations_wf_update:
  assumes "observations_wf rows" "\<And>i i'. f i = Some i' \<Longrightarrow> oi_key i' = oi_key i"
    and "\<And>i i'. i \<in> set rows \<Longrightarrow> f i = Some i' \<Longrightarrow> observation_wf i \<Longrightarrow> observation_wf i'"
  shows "observations_wf (sql_update f rows)"
  using assms unfolding observations_wf_def
  by (auto simp: keyed_sql_update [OF assms(2)] elim!: sql_update_cases)

lemma claimed_due:
  assumes "keyed oi_key rows" "i \<in> set rows" "oi_key i \<in> oi_key ` set (observation_candidates limit now rows)"
  shows "observation_due now i"
proof -
  obtain j where "j \<in> set (observation_candidates limit now rows)" "oi_key j = oi_key i" using assms(3) by auto
  then have "j \<in> set rows" "observation_due now j" "oi_key j = oi_key i"
    using set_sql_top unfolding observation_candidates_def by fastforce+
  then show ?thesis using keyed_inj [OF assms(1) _ assms(2)] by auto
qed

lemma observations_wf_apply:
  assumes "observations_wf rows"
  shows "observations_wf (observation_apply op rows)"
proof (cases op)
  case (OEnqueue enabled ob now)
  then show ?thesis using assms
    by (auto simp: enqueue_observation_def sql_insert_new_def observations_wf_def observation_wf_def
        new_observation_intent_def)
next
  case (ORecover now)
  then show ?thesis using assms
    by (auto intro!: observations_wf_update simp: observation_rows observation_wf_def oi_key_def)
next
  case (OClaim tokens limit now)
  then show ?thesis unfolding OClaim observation_apply.simps claim_observations_def Let_def fst_conv
  proof (intro observations_wf_update [OF assms])
    fix i i'
    assume i: "i \<in> set rows" "observation_wf i"
      and c: "claim_observation_row tokens (oi_key ` set (observation_candidates limit now rows)) now i = Some i'"
    then have "observation_due now i"
      using assms claimed_due unfolding observations_wf_def claim_observation_row_def by fastforce
    then show "observation_wf i'" using i(2) c
      by (auto simp: observation_rows observation_due_def observation_wf_def)
  qed (auto simp: observation_rows oi_key_def)
next
  case (OComplete key t)
  then show ?thesis using assms
    by (auto simp: complete_observation_def observations_wf_def)
next
  case (OFail key t err now)
  then show ?thesis using assms
    by (auto intro!: observations_wf_update
        simp: fail_observation_def Let_def observation_rows observation_held_def observation_wf_def oi_key_def)
qed

lemma observations_wf_run: "observations_wf (fold observation_apply ops [])"
proof -
  have "observations_wf rows \<Longrightarrow> observations_wf (fold observation_apply ops rows)" for rows
    by (induction ops arbitrary: rows) (simp_all add: observations_wf_apply)
  from this [of "[]"] show ?thesis by (simp add: observations_wf_def)
qed

end
