(* ===== verification/Webhooks.thy ===== *)
theory Webhooks
  imports Runtime_Events Contact_Intents Leases
begin

text \<open>
  The webhook inbox of src/src/modules/webhooks: the controller that stores a signed envelope, the leased
  rows of webhook.repository.ts and the processor that applies a webhook and settles its row in one
  transaction (webhook-processor.service.ts).
\<close>

section \<open>The inbox\<close>

record webhook_event =
  we_key :: string
  we_delivery_id :: string
  we_event_type :: string
  we_session_id :: string
  we_payload :: envelope
  we_state :: work_state
  we_attempt_count :: nat
  we_next_attempt_at :: timestamp
  we_lease_token :: "uuid option"
  we_lease_expires_at :: "timestamp option"
  we_last_attempt_at :: "timestamp option"
  we_processed_at :: "timestamp option"
  we_dead_at :: "timestamp option"
  we_error :: "string option"
  we_received_at :: timestamp

definition new_webhook :: "envelope \<Rightarrow> timestamp \<Rightarrow> webhook_event" where
  "new_webhook e now = \<lparr>we_key = en_key e, we_delivery_id = en_delivery_id e, we_event_type = en_event e,
     we_session_id = en_session_id e, we_payload = e, we_state = W_PENDING, we_attempt_count = 0,
     we_next_attempt_at = now, we_lease_token = None, we_lease_expires_at = None, we_last_attempt_at = None,
     we_processed_at = None, we_dead_at = None, we_error = None, we_received_at = now\<rparr>"

text \<open>The boolean is whether the row is new.\<close>

definition insert_webhook :: "envelope \<Rightarrow> timestamp \<Rightarrow> webhook_event table \<Rightarrow> webhook_event table \<times> bool" where
  "insert_webhook e now rows = (sql_insert_new we_key (new_webhook e now) rows, en_key e \<notin> we_key ` set rows)"

definition find_webhook :: "string \<Rightarrow> webhook_event table \<Rightarrow> envelope option" where
  "find_webhook key rows = map_option we_payload (find_by we_key key rows)"

definition webhook_due :: "timestamp \<Rightarrow> webhook_event \<Rightarrow> bool" where
  "webhook_due now w \<longleftrightarrow> we_state w \<in> {W_PENDING, W_RETRY} \<and> we_attempt_count w < 5 \<and> we_next_attempt_at w \<le> now"

definition list_dispatchable_webhooks :: "nat \<Rightarrow> timestamp \<Rightarrow> webhook_event table \<Rightarrow> string list" where
  "list_dispatchable_webhooks limit now rows =
     map we_key (sql_top limit (\<lambda>w. (we_next_attempt_at w, we_received_at w)) (webhook_due now) rows)"

definition claim_webhook_row :: "string \<Rightarrow> uuid \<Rightarrow> timestamp \<Rightarrow> webhook_event row_update" where
  "claim_webhook_row key t now = sql_where (\<lambda>w. we_key w = key \<and> webhook_due now w)
     (\<lambda>w. w\<lparr>we_state := W_PROCESSING, we_attempt_count := we_attempt_count w + 1, we_last_attempt_at := Some now,
        we_lease_token := Some t, we_lease_expires_at := Some (now + lease_ttl), we_error := None\<rparr>)"

definition claim_webhook ::
  "string \<Rightarrow> uuid \<Rightarrow> timestamp \<Rightarrow> webhook_event table \<Rightarrow> webhook_event table \<times> envelope option" where
  "claim_webhook key t now rows = (let claim = claim_webhook_row key t now in
     (sql_update claim rows, case sql_returning claim rows of [] \<Rightarrow> None | w # _ \<Rightarrow> Some (we_payload w)))"

definition recover_webhook_row :: "timestamp \<Rightarrow> webhook_event row_update" where
  "recover_webhook_row now = sql_where (\<lambda>w. we_state w = W_PROCESSING \<and> null_before (we_lease_expires_at w) now)
     (\<lambda>w. w\<lparr>we_state := (if 5 \<le> we_attempt_count w then W_DEAD else W_RETRY),
        we_lease_token := None, we_lease_expires_at := None,
        we_next_attempt_at := (if 5 \<le> we_attempt_count w then we_next_attempt_at w else now),
        we_dead_at := (if 5 \<le> we_attempt_count w then Some now else we_dead_at w),
        we_error := Some ''Recovered expired processing lease''\<rparr>)"

definition webhook_owned :: "string \<Rightarrow> uuid \<Rightarrow> timestamp \<Rightarrow> webhook_event \<Rightarrow> bool" where
  "webhook_owned key t now w \<longleftrightarrow> we_key w = key \<and> we_state w = W_PROCESSING \<and> we_lease_token w = Some t
     \<and> null_after (we_lease_expires_at w) now"

definition lock_processing_lease :: "string \<Rightarrow> uuid \<Rightarrow> timestamp \<Rightarrow> webhook_event table \<Rightarrow> bool" where
  "lock_processing_lease key t now rows \<longleftrightarrow> (\<exists>w \<in> set rows. webhook_owned key t now w)"

text \<open>jsonb_build_object of the columns, with empty data.\<close>

definition compacted_payload :: "webhook_event \<Rightarrow> envelope" where
  "compacted_payload w = \<lparr>en_event = we_event_type w, en_timestamp = en_timestamp (we_payload w),
     en_session_id = we_session_id w, en_key = we_key w, en_delivery_id = we_delivery_id w, en_data = []\<rparr>"

definition processed_row ::
  "runtime_config \<Rightarrow> string \<Rightarrow> uuid \<Rightarrow> string option \<Rightarrow> timestamp \<Rightarrow> webhook_event row_update" where
  "processed_row c key t err now = sql_where (webhook_owned key t now)
     (\<lambda>w. w\<lparr>we_state := W_PROCESSED, we_processed_at := Some now, we_error := err,
        we_lease_token := None, we_lease_expires_at := None,
        we_payload := (if cfg_compact_webhook_payload c then compacted_payload w else we_payload w)\<rparr>)"

definition mark_processed ::
  "runtime_config \<Rightarrow> string \<Rightarrow> uuid \<Rightarrow> string option \<Rightarrow> timestamp \<Rightarrow> webhook_event table
    \<Rightarrow> webhook_event table \<times> bool" where
  "mark_processed c key t err now rows =
     (if \<not> lock_processing_lease key t now rows then (rows, False)
      else (sql_update (processed_row c key t err now) rows, sql_count (processed_row c key t err now) rows = 1))"

definition failed_webhook_row :: "string \<Rightarrow> uuid \<Rightarrow> string \<Rightarrow> timestamp \<Rightarrow> webhook_event row_update" where
  "failed_webhook_row key t err now = sql_where (webhook_owned key t now)
     (\<lambda>w. w\<lparr>we_state := (if 5 \<le> we_attempt_count w then W_DEAD else W_RETRY), we_error := Some err,
        we_lease_token := None, we_lease_expires_at := None,
        we_next_attempt_at := (if 5 \<le> we_attempt_count w then we_next_attempt_at w
          else now + seconds (backoff_seconds (we_attempt_count w))),
        we_dead_at := (if 5 \<le> we_attempt_count w then Some now else we_dead_at w)\<rparr>)"

definition mark_failed ::
  "string \<Rightarrow> uuid \<Rightarrow> string \<Rightarrow> timestamp \<Rightarrow> webhook_event table \<Rightarrow> webhook_event table \<times> attempt_result" where
  "mark_failed key t err now rows = (let upd = failed_webhook_row key t err now in
     (sql_update upd rows, case sql_returning upd rows of [] \<Rightarrow> LostOwnership
        | w # _ \<Rightarrow> if we_state w = W_DEAD then IsDead else WillRetry))"

lemmas webhook_rows = claim_webhook_row_def recover_webhook_row_def processed_row_def failed_webhook_row_def

section \<open>The lease of a webhook\<close>

datatype webhook_outcome = Handled "string option" | NotHandled string

fun settle_webhook_row ::
  "runtime_config \<Rightarrow> string \<Rightarrow> webhook_outcome \<Rightarrow> uuid \<Rightarrow> timestamp \<Rightarrow> webhook_event row_update" where
  "settle_webhook_row c key (Handled err) t now = processed_row c key t err now"
| "settle_webhook_row c key (NotHandled err) t now = failed_webhook_row key t err now"

definition webhook_token :: "webhook_event \<Rightarrow> uuid option" where
  "webhook_token w = (if we_state w = W_PROCESSING then we_lease_token w else None)"

interpretation webhook_lease: bounded_work webhook_token we_lease_expires_at "claim_webhook_row key"
    "settle_webhook_row c key" recover_webhook_row we_attempt_count 5 for c key
proof unfold_locales
  fix s t now w w'
  assume "settle_webhook_row c key s t now w = Some w'"
  then show "webhook_token w = Some t \<and> null_after (we_lease_expires_at w) now" "webhook_token w' = None"
      "we_attempt_count w' = we_attempt_count w"
    by (cases s; auto simp: webhook_rows webhook_token_def webhook_owned_def)+
qed (auto simp: webhook_rows webhook_token_def webhook_due_def)

section \<open>The processor\<close>

text \<open>
  A status is looked up in an object literal, whose prototype answers for constructor and __proto__ with a
  value that is no message_job_status.
\<close>

datatype status_lookup = NoStatus | JobStatus message_job_status | Inherited

definition webhook_status :: "string \<Rightarrow> json_object \<Rightarrow> status_lookup" where
  "webhook_status event d =
     (if event = ''message.sent'' then JobStatus J_SENT
      else if event = ''message.failed'' then JobStatus J_FAILED
      else if event \<noteq> ''message.ack'' then NoStatus
      else let s = js_lower (js_text (json_field ''status'' d)) in
        if s = ''sent'' then JobStatus J_SENT else if s = ''delivered'' then JobStatus J_DELIVERED
        else if s = ''read'' then JobStatus J_READ else if s = ''failed'' then JobStatus J_FAILED
        else if s = ''constructor'' \<or> s = ''__proto__'' then Inherited else NoStatus)"

definition webhook_message_id :: "json_object \<Rightarrow> string" where
  "webhook_message_id d = js_text (js_nullish (json_field ''messageId'' d) (json_field ''id'' d))"

definition webhook_push_name :: "json_object \<Rightarrow> string" where
  "webhook_push_name d = (case json_field ''contact'' d of Some (JObject ps) \<Rightarrow> text_of (json_field ''pushName'' ps)
     | _ \<Rightarrow> [])"

record runtime_state =
  rs_events :: event_db
  rs_jobs :: "message_job table"
  rs_observations :: "observation_intent table"

definition observe_sender ::
  "bool \<Rightarrow> envelope \<Rightarrow> timestamp \<Rightarrow> timestamp \<Rightarrow> observation_intent table \<Rightarrow> observation_intent table" where
  "observe_sender enabled e seen now rows =
     (let sender = js_text (js_nullish (json_field ''author'' (en_data e)) (json_field ''from'' (en_data e)));
          push_name = webhook_push_name (en_data e) in
      if en_event e = ''message.received'' \<and> sender \<noteq> [] \<and> push_name \<noteq> [] then
        enqueue_observation enabled \<lparr>so_event_id = en_key e, so_session_id = en_session_id e,
          so_sender_id = sender, so_push_name = push_name, so_observed_at = seen\<rparr> now rows
      else rows)"

definition update_message_status ::
  "envelope \<Rightarrow> timestamp \<Rightarrow> message_job table \<Rightarrow> string + message_job table" where
  "update_message_status e now jobs =
     (let mid = webhook_message_id (en_data e) in
      case webhook_status (en_event e) (en_data e) of
        NoStatus \<Rightarrow> Inr jobs
      | JobStatus st \<Rightarrow> Inr (if mid = [] then jobs else update_status_by_openwa_message_id mid st now jobs)
      | Inherited \<Rightarrow> if mid = [] then Inr jobs else Inl ''invalid input value for enum message_job_status'')"

text \<open>What the transaction of a webhook does to the rest of the database.\<close>

definition webhook_effects ::
  "runtime_config \<Rightarrow> (string \<Rightarrow> string) \<Rightarrow> js_reader \<Rightarrow> bool \<Rightarrow> envelope \<Rightarrow> timestamp \<Rightarrow> runtime_state
    \<Rightarrow> string + runtime_state" where
  "webhook_effects c sha jd enabled e now rs =
     (let event = normalize_openwa_webhook jd e in
      or_throw (store_event c sha event now (rs_events rs)) (\<lambda>(events, _).
      or_throw (update_message_status e now (rs_jobs rs)) (\<lambda>jobs.
        Inr (rs\<lparr>rs_events := events, rs_jobs := jobs,
          rs_observations := (case re_occurred_at event of None \<Rightarrow> rs_observations rs
            | Some seen \<Rightarrow> observe_sender enabled e seen now (rs_observations rs))\<rparr>))))"

record webhook_db =
  wd_webhooks :: "webhook_event table"
  wd_runtime :: runtime_state

text \<open>The processing transaction: an Inl aborts it, False is a lost lease.\<close>

definition process_webhook ::
  "runtime_config \<Rightarrow> (string \<Rightarrow> string) \<Rightarrow> js_reader \<Rightarrow> bool \<Rightarrow> envelope \<Rightarrow> uuid \<Rightarrow> timestamp \<Rightarrow> webhook_db
    \<Rightarrow> string + webhook_db \<times> bool" where
  "process_webhook c sha jd enabled e t now d =
     (if \<not> lock_processing_lease (en_key e) t now (wd_webhooks d) then Inr (d, False)
      else or_throw (webhook_effects c sha jd enabled e now (wd_runtime d)) (\<lambda>rs.
        let upd = processed_row c (en_key e) t None now in
        if sql_count upd (wd_webhooks d) \<noteq> 1
        then Inl (''Webhook processing lease changed while locked: '' @ en_key e)
        else Inr (\<lparr>wd_webhooks = sql_update upd (wd_webhooks d), wd_runtime = rs\<rparr>, True)))"

datatype process_result = Skipped | LostLease | Processed bool

definition status_updated :: "envelope \<Rightarrow> bool" where
  "status_updated e \<longleftrightarrow> webhook_status (en_event e) (en_data e) \<noteq> NoStatus \<and> webhook_message_id (en_data e) \<noteq> []"

text \<open>process: the claim, the transaction and the failure are at the times \<open>t0\<close>, \<open>t1\<close> and \<open>t2\<close>.\<close>

definition process_webhook_job ::
  "runtime_config \<Rightarrow> (string \<Rightarrow> string) \<Rightarrow> js_reader \<Rightarrow> bool \<Rightarrow> string \<Rightarrow> uuid
    \<Rightarrow> timestamp \<times> timestamp \<times> timestamp \<Rightarrow> webhook_db \<Rightarrow> webhook_db \<times> (string + process_result)" where
  "process_webhook_job c sha jd enabled key t at_times d = (case at_times of (t0, t1, t2) \<Rightarrow>
     (case claim_webhook key t t0 (wd_webhooks d) of
        (rows, None) \<Rightarrow> (d\<lparr>wd_webhooks := rows\<rparr>, Inr Skipped)
      | (rows, Some e) \<Rightarrow>
          (let d0 = d\<lparr>wd_webhooks := rows\<rparr> in
           case process_webhook c sha jd enabled e t t1 d0 of
             Inl err \<Rightarrow> (d0\<lparr>wd_webhooks := fst (mark_failed (en_key e) t err t2 rows)\<rparr>, Inl err)
           | Inr (d1, owned) \<Rightarrow> (d1, Inr (if owned then Processed (status_updated e) else LostLease)))))"

section \<open>The controller\<close>

text \<open>The body of the request, as JSON: a missing or empty field is falsy.\<close>

record envelope_body =
  eb_event :: string
  eb_timestamp :: string
  eb_session_id :: string
  eb_key :: string
  eb_delivery_id :: string
  eb_data :: "json_object option"

definition verify_openwa_signature ::
  "(string \<Rightarrow> string \<Rightarrow> string) \<Rightarrow> string \<Rightarrow> string option \<Rightarrow> string \<Rightarrow> bool" where
  "verify_openwa_signature hmac raw supplied secret = (case supplied of None \<Rightarrow> False
     | Some s \<Rightarrow> s \<noteq> [] \<and> s = ''sha256='' @ hmac secret raw)"

definition body_envelope :: "envelope_body \<Rightarrow> envelope option" where
  "body_envelope b = (if eb_event b = [] \<or> eb_timestamp b = [] \<or> eb_session_id b = [] \<or> eb_key b = []
       \<or> eb_delivery_id b = [] then None
     else map_option (\<lambda>obj. \<lparr>en_event = eb_event b, en_timestamp = eb_timestamp b, en_session_id = eb_session_id b,
        en_key = eb_key b, en_delivery_id = eb_delivery_id b, en_data = obj\<rparr>) (eb_data b))"

datatype webhook_rejection = InvalidSignature | InvalidEnvelope | NotAllowed api_error

text \<open>The result of an accepted webhook is its duplicate flag; the job that is queued then carries its key.\<close>

definition receive_webhook ::
  "runtime_config \<Rightarrow> (string \<Rightarrow> string \<Rightarrow> string) \<Rightarrow> string \<Rightarrow> string option \<Rightarrow> string option \<Rightarrow> envelope_body
    \<Rightarrow> timestamp \<Rightarrow> webhook_event table \<Rightarrow> webhook_event table \<times> (webhook_rejection + bool)" where
  "receive_webhook c hmac secret raw signature body now rows =
     (case raw of None \<Rightarrow> (rows, Inl InvalidSignature)
      | Some bytes \<Rightarrow> if \<not> verify_openwa_signature hmac bytes signature secret then (rows, Inl InvalidSignature)
        else case body_envelope body of None \<Rightarrow> (rows, Inl InvalidEnvelope)
        | Some e \<Rightarrow> (case assert_allowed c (en_session_id e) of Inl err \<Rightarrow> (rows, Inl (NotAllowed err))
          | Inr _ \<Rightarrow> (case insert_webhook e now rows of (rows', created) \<Rightarrow> (rows', Inr (\<not> created)))))"


section \<open>The dispatch tick\<close>

text \<open>
  Expired leases are recovered, then each webhook that is due becomes a job of the queue; the first key that
  the queue does not take ends the tick with the error.
\<close>

fun publish_until :: "(string \<Rightarrow> bool) \<Rightarrow> string list \<Rightarrow> string list \<times> bool" where
  "publish_until takes [] = ([], True)"
| "publish_until takes (k # ks) = (if takes k then (case publish_until takes ks of (done, ok) \<Rightarrow> (k # done, ok))
     else ([], False))"

definition webhook_dispatch ::
  "(string \<Rightarrow> bool) \<Rightarrow> timestamp \<Rightarrow> timestamp \<Rightarrow> webhook_event table \<Rightarrow> webhook_event table \<times> string list \<times> bool" where
  "webhook_dispatch takes now0 now1 rows = (let rows' = sql_update (recover_webhook_row now0) rows in
     (rows', publish_until takes (list_dispatchable_webhooks 100 now1 rows')))"

section \<open>Sequences of operations\<close>

text \<open>
  The transaction of a worker is applied to the payload of the row it locks, which is the payload its claim
  returned: only the settlement of the row changes it.
\<close>

datatype webhook_op =
    ReceiveWebhook envelope timestamp
  | ClaimWebhook string uuid timestamp
  | ProcessWebhook string uuid timestamp
  | FailWebhook string uuid string timestamp
  | RecoverWebhooks timestamp

definition locked_webhook :: "string \<Rightarrow> uuid \<Rightarrow> timestamp \<Rightarrow> webhook_db \<Rightarrow> webhook_event option" where
  "locked_webhook key t now d = List.find (webhook_owned key t now) (wd_webhooks d)"

text \<open>The state after the transaction and the envelope it committed.\<close>

definition commit_webhook ::
  "runtime_config \<Rightarrow> (string \<Rightarrow> string) \<Rightarrow> js_reader \<Rightarrow> bool \<Rightarrow> string \<Rightarrow> uuid \<Rightarrow> timestamp \<Rightarrow> webhook_db
    \<Rightarrow> webhook_db \<times> (envelope \<times> timestamp) list" where
  "commit_webhook c sha jd enabled key t now d = (case locked_webhook key t now d of
     None \<Rightarrow> (d, [])
   | Some w \<Rightarrow> (case process_webhook c sha jd enabled (we_payload w) t now d of
       Inl err \<Rightarrow> (d, []) | Inr (d', owned) \<Rightarrow> (d', if owned then [(we_payload w, now)] else [])))"

fun webhook_step ::
  "runtime_config \<Rightarrow> (string \<Rightarrow> string) \<Rightarrow> js_reader \<Rightarrow> bool \<Rightarrow> webhook_op \<Rightarrow> webhook_db
    \<Rightarrow> webhook_db \<times> (envelope \<times> timestamp) list" where
  "webhook_step c sha jd enabled (ReceiveWebhook e now) d =
     (d\<lparr>wd_webhooks := fst (insert_webhook e now (wd_webhooks d))\<rparr>, [])"
| "webhook_step c sha jd enabled (ClaimWebhook key t now) d =
     (d\<lparr>wd_webhooks := fst (claim_webhook key t now (wd_webhooks d))\<rparr>, [])"
| "webhook_step c sha jd enabled (ProcessWebhook key t now) d = commit_webhook c sha jd enabled key t now d"
| "webhook_step c sha jd enabled (FailWebhook key t err now) d =
     (d\<lparr>wd_webhooks := fst (mark_failed key t err now (wd_webhooks d))\<rparr>, [])"
| "webhook_step c sha jd enabled (RecoverWebhooks now) d =
     (d\<lparr>wd_webhooks := sql_update (recover_webhook_row now) (wd_webhooks d)\<rparr>, [])"

fun webhook_run ::
  "runtime_config \<Rightarrow> (string \<Rightarrow> string) \<Rightarrow> js_reader \<Rightarrow> bool \<Rightarrow> webhook_op list \<Rightarrow> webhook_db
    \<Rightarrow> webhook_db \<times> (envelope \<times> timestamp) list" where
  "webhook_run c sha jd enabled [] d = (d, [])"
| "webhook_run c sha jd enabled (op # ops) d = (case webhook_step c sha jd enabled op d of (d1, h1) \<Rightarrow>
     (case webhook_run c sha jd enabled ops d1 of (d2, h2) \<Rightarrow> (d2, h1 @ h2)))"

text \<open>The specification: the effects of envelopes, one after the other, and nothing else.\<close>

fun webhook_replay ::
  "runtime_config \<Rightarrow> (string \<Rightarrow> string) \<Rightarrow> js_reader \<Rightarrow> bool \<Rightarrow> (envelope \<times> timestamp) list \<Rightarrow> runtime_state
    \<Rightarrow> string + runtime_state" where
  "webhook_replay c sha jd enabled [] rs = Inr rs"
| "webhook_replay c sha jd enabled ((e, now) # h) rs =
     or_throw (webhook_effects c sha jd enabled e now rs) (webhook_replay c sha jd enabled h)"

lemma webhook_replay_append:
  "webhook_replay c sha jd enabled (h @ h') rs =
     or_throw (webhook_replay c sha jd enabled h rs) (webhook_replay c sha jd enabled h')"
proof (induction h arbitrary: rs)
  case (Cons p h)
  then show ?case by (cases p; cases "webhook_effects c sha jd enabled (fst p) (snd p) rs") auto
qed simp

definition processed_keys :: "webhook_event table \<Rightarrow> string set" where
  "processed_keys rows = we_key ` {w \<in> set rows. we_state w = W_PROCESSED}"

definition committed_keys :: "(envelope \<times> timestamp) list \<Rightarrow> string list" where
  "committed_keys h = map (en_key \<circ> fst) h"

text \<open>The invariant of the inbox: \<open>h\<close> is what has been committed, \<open>E\<close> is what has been received.\<close>

definition webhook_inv ::
  "runtime_config \<Rightarrow> (string \<Rightarrow> string) \<Rightarrow> js_reader \<Rightarrow> bool \<Rightarrow> runtime_state \<Rightarrow> envelope set
    \<Rightarrow> (envelope \<times> timestamp) list \<Rightarrow> webhook_db \<Rightarrow> bool" where
  "webhook_inv c sha jd enabled rs E h d \<longleftrightarrow> keyed we_key (wd_webhooks d)
     \<and> (\<forall>w \<in> set (wd_webhooks d). we_state w \<noteq> W_PROCESSED \<longrightarrow> en_key (we_payload w) = we_key w \<and> we_payload w \<in> E)
     \<and> fst ` set h \<subseteq> E \<and> distinct (committed_keys h) \<and> set (committed_keys h) = processed_keys (wd_webhooks d)
     \<and> map ev_id (ed_events (rs_events (wd_runtime d))) = committed_keys h
     \<and> webhook_replay c sha jd enabled h rs = Inr (wd_runtime d)"

lemma processed_keys_after:
  assumes "\<And>w. we_key (row_after f w) = we_key w"
  shows "processed_keys (sql_update f rows) = we_key ` {w \<in> set rows. we_state (row_after f w) = W_PROCESSED}"
proof -
  have "{v \<in> row_after f ` set rows. we_state v = W_PROCESSED}
      = row_after f ` {w \<in> set rows. we_state (row_after f w) = W_PROCESSED}" by auto
  then show ?thesis unfolding processed_keys_def set_sql_update_after by (simp add: image_image assms)
qed

lemma processed_keys_update:
  assumes "\<And>w w'. f w = Some w' \<Longrightarrow> we_key w' = we_key w \<and> we_state w \<noteq> W_PROCESSED \<and> we_state w' \<noteq> W_PROCESSED"
  shows "processed_keys (sql_update f rows) = processed_keys rows"
proof -
  have "we_key (row_after f w) = we_key w" "we_state (row_after f w) = W_PROCESSED \<longleftrightarrow> we_state w = W_PROCESSED" for w
    using assms by (auto simp: row_after_def split: option.splits)
  then show ?thesis by (simp add: processed_keys_after) (simp add: processed_keys_def)
qed

text \<open>An update that settles no row as processed and keeps the payloads keeps the invariant.\<close>

lemma webhook_inv_update:
  assumes "webhook_inv c sha jd enabled rs E h d"
    and "\<And>w w'. f w = Some w' \<Longrightarrow> we_key w' = we_key w \<and> we_payload w' = we_payload w
      \<and> we_state w \<noteq> W_PROCESSED \<and> we_state w' \<noteq> W_PROCESSED"
  shows "webhook_inv c sha jd enabled rs E h (d\<lparr>wd_webhooks := sql_update f (wd_webhooks d)\<rparr>)"
proof -
  have "processed_keys (sql_update f (wd_webhooks d)) = processed_keys (wd_webhooks d)"
    using assms(2) by (intro processed_keys_update) blast
  moreover have "keyed we_key (sql_update f (wd_webhooks d)) = keyed we_key (wd_webhooks d)"
    using assms(2) by (intro keyed_sql_update) blast
  moreover have "en_key (we_payload w) = we_key w \<and> we_payload w \<in> E"
    if w: "w \<in> set (sql_update f (wd_webhooks d))" "we_state w \<noteq> W_PROCESSED" for w
    using w(1)
  proof (cases rule: sql_update_cases)
    case kept
    then show ?thesis using assms(1) w(2) by (simp add: webhook_inv_def)
  next
    case (changed w0)
    then show ?thesis using assms(1) assms(2) [OF changed(2)] by (simp add: webhook_inv_def)
  qed
  ultimately show ?thesis using assms(1) by (simp add: webhook_inv_def)
qed

lemma webhook_effects_events:
  assumes "webhook_effects c sha jd enabled e now rs = Inr rs'"
    and "en_key e \<notin> ev_id ` set (ed_events (rs_events rs))"
  shows "map ev_id (ed_events (rs_events rs')) = map ev_id (ed_events (rs_events rs)) @ [en_key e]"
proof -
  let ?event = "normalize_openwa_webhook jd e"
  have id: "re_id ?event = en_key e" by (simp add: normalize_openwa_webhook_def Let_def split: prod.splits)
  obtain events new where s: "store_event c sha ?event now (rs_events rs) = Inr (events, new)"
      and rs': "rs_events rs' = events"
    using assms(1) by (auto simp: webhook_effects_def Let_def split: prod.splits)
  from s show ?thesis
  proof (cases rule: store_event_cases)
    case (stored seen)
    then show ?thesis
      using id rs' by (simp add: apply_event_def Let_def new_stored_event_def split: prod.split)
  next
    case known
    then show ?thesis using id assms(2) by simp
  qed
qed

lemma processed_keys_one:
  assumes "keyed we_key rows" "w \<in> set rows" "webhook_owned key t now w"
  shows "processed_keys (sql_update (processed_row c key t err now) rows) = insert key (processed_keys rows)"
    (is "processed_keys (sql_update ?f rows) = _")
proof -
  have k: "we_key w = key" using assms(3) by (simp add: webhook_owned_def)
  have key: "we_key (row_after ?f v) = we_key v" for v
    by (simp add: row_after_def processed_row_def sql_where_def)
  have st: "we_state (row_after ?f v) = W_PROCESSED \<longleftrightarrow> we_state v = W_PROCESSED \<or> v = w" if "v \<in> set rows" for v
  proof (cases "v = w")
    case False
    then have "we_key v \<noteq> key" using keyed_inj [OF assms(1) that assms(2)] k by auto
    then show ?thesis using False by (simp add: row_after_def processed_row_def sql_where_def webhook_owned_def)
  qed (use assms(3) in \<open>simp add: row_after_def processed_row_def sql_where_def\<close>)
  have "processed_keys (sql_update ?f rows) = we_key ` {v \<in> set rows. we_state (row_after ?f v) = W_PROCESSED}"
    using key by (rule processed_keys_after)
  also have "\<dots> = we_key ` {v \<in> set rows. we_state v = W_PROCESSED \<or> v = w}" using st by auto
  also have "\<dots> = insert key (processed_keys rows)" using assms(2) k by (auto simp: processed_keys_def)
  finally show ?thesis .
qed

lemma webhook_inv_commit:
  assumes inv: "webhook_inv c sha jd enabled rs E h d"
    and commit: "commit_webhook c sha jd enabled key t now d = (d', h')"
  shows "webhook_inv c sha jd enabled rs E (h @ h') d'"
proof (cases "h' = []")
  case True
  then have "d' = d" using commit
    by (auto simp: commit_webhook_def process_webhook_def Let_def split: option.splits sum.splits if_splits)
  then show ?thesis using inv True by simp
next
  case False
  then obtain w where lock: "locked_webhook key t now d = Some w"
      and p: "process_webhook c sha jd enabled (we_payload w) t now d = Inr (d', True)" and h': "h' = [(we_payload w, now)]"
    using commit by (auto simp: commit_webhook_def split: option.splits sum.splits if_splits)
  have w: "w \<in> set (wd_webhooks d)" "webhook_owned key t now w"
    using lock by (auto simp: locked_webhook_def find_Some_iff)
  let ?e = "we_payload w" and ?f = "processed_row c key t None now"
  have st: "we_state w = W_PROCESSING" "we_key w = key" using w(2) by (auto simp: webhook_owned_def)
  have e: "en_key ?e = key" "?e \<in> E" using inv w(1) st by (auto simp: webhook_inv_def)
  have keyed: "keyed we_key (wd_webhooks d)" using inv by (simp add: webhook_inv_def)
  have fresh: "key \<notin> processed_keys (wd_webhooks d)"
    using keyed_inj [OF keyed _ w(1)] st by (fastforce simp: processed_keys_def)
  obtain rs' where eff: "webhook_effects c sha jd enabled ?e now (wd_runtime d) = Inr rs'"
      and d': "d' = \<lparr>wd_webhooks = sql_update ?f (wd_webhooks d), wd_runtime = rs'\<rparr>"
    using p e(1) by (auto simp: process_webhook_def Let_def split: if_splits)
  have "set (map ev_id (ed_events (rs_events (wd_runtime d)))) = processed_keys (wd_webhooks d)"
    using inv by (metis webhook_inv_def)
  then have "map ev_id (ed_events (rs_events rs')) = committed_keys (h @ h')"
    using webhook_effects_events [OF eff] fresh e(1) inv h' by (simp add: webhook_inv_def committed_keys_def)
  moreover have "keyed we_key (sql_update ?f (wd_webhooks d))"
    using keyed by (subst keyed_sql_update) (auto simp: processed_row_def)
  moreover have "en_key (we_payload v) = we_key v \<and> we_payload v \<in> E"
    if v: "v \<in> set (sql_update ?f (wd_webhooks d))" "we_state v \<noteq> W_PROCESSED" for v
    using v(1)
  proof (cases rule: sql_update_cases)
    case kept
    then show ?thesis using inv v(2) by (simp add: webhook_inv_def)
  qed (use v(2) in \<open>simp add: processed_row_def\<close>)
  moreover have "webhook_replay c sha jd enabled (h @ h') rs = Inr rs'"
    using inv eff h' by (simp add: webhook_inv_def webhook_replay_append)
  ultimately show ?thesis
    using inv d' h' e fresh processed_keys_one [OF keyed w] by (simp add: webhook_inv_def committed_keys_def)
qed

definition received_of :: "webhook_op \<Rightarrow> envelope set" where
  "received_of op = (case op of ReceiveWebhook e now \<Rightarrow> {e} | _ \<Rightarrow> {})"

lemma webhook_inv_step:
  assumes inv: "webhook_inv c sha jd enabled rs E h d" and step: "webhook_step c sha jd enabled op d = (d', h')"
  shows "webhook_inv c sha jd enabled rs (E \<union> received_of op) (h @ h') d'"
proof (cases op)
  case (ReceiveWebhook e now)
  let ?rows = "fst (insert_webhook e now (wd_webhooks d))"
  have "processed_keys ?rows = processed_keys (wd_webhooks d)"
    by (auto simp: processed_keys_def insert_webhook_def sql_insert_new_def new_webhook_def)
  moreover have "keyed we_key ?rows" using inv by (auto simp: insert_webhook_def webhook_inv_def)
  moreover have "w \<in> set ?rows \<Longrightarrow> w \<in> set (wd_webhooks d) \<or> w = new_webhook e now" for w
    by (auto simp: insert_webhook_def sql_insert_new_def split: if_splits)
  moreover have "we_payload (new_webhook e now) = e \<and> we_key (new_webhook e now) = en_key e"
    by (simp add: new_webhook_def)
  ultimately show ?thesis using inv step ReceiveWebhook
    by (fastforce simp: webhook_inv_def received_of_def)
next
  case (ClaimWebhook key t now)
  have "webhook_inv c sha jd enabled rs E h
      (d\<lparr>wd_webhooks := sql_update (claim_webhook_row key t now) (wd_webhooks d)\<rparr>)"
    by (rule webhook_inv_update [OF inv]) (auto simp: webhook_rows webhook_due_def)
  then show ?thesis using step ClaimWebhook by (auto simp: claim_webhook_def Let_def received_of_def)
next
  case (ProcessWebhook key t now)
  then show ?thesis using webhook_inv_commit [OF inv] step by (simp add: received_of_def)
next
  case (FailWebhook key t err now)
  have "webhook_inv c sha jd enabled rs E h
      (d\<lparr>wd_webhooks := sql_update (failed_webhook_row key t err now) (wd_webhooks d)\<rparr>)"
    by (rule webhook_inv_update [OF inv]) (auto simp: webhook_rows webhook_owned_def)
  then show ?thesis using step FailWebhook by (auto simp: mark_failed_def Let_def received_of_def)
next
  case (RecoverWebhooks now)
  have "webhook_inv c sha jd enabled rs E h
      (d\<lparr>wd_webhooks := sql_update (recover_webhook_row now) (wd_webhooks d)\<rparr>)"
    by (rule webhook_inv_update [OF inv]) (auto simp: webhook_rows)
  then show ?thesis using step RecoverWebhooks by (auto simp: received_of_def)
qed

lemma webhook_inv_run:
  "webhook_inv c sha jd enabled rs E h d \<Longrightarrow> webhook_run c sha jd enabled ops d = (d', h') \<Longrightarrow>
     webhook_inv c sha jd enabled rs (E \<union> (\<Union>op \<in> set ops. received_of op)) (h @ h') d'"
proof (induction ops arbitrary: E h d h')
  case (Cons op ops)
  obtain d1 h1 where s: "webhook_step c sha jd enabled op d = (d1, h1)" by fastforce
  obtain h2 where r: "webhook_run c sha jd enabled ops d1 = (d', h2)" "h' = h1 @ h2"
    using Cons.prems(2) s by (auto split: prod.splits)
  show ?case using Cons.IH [OF webhook_inv_step [OF Cons.prems(1) s] r(1)] r(2) by (simp add: Un_assoc)
qed simp

definition webhook_start :: "gateway_db \<Rightarrow> message_job table \<Rightarrow> webhook_db" where
  "webhook_start g jobs = \<lparr>wd_webhooks = [], wd_runtime =
     \<lparr>rs_events = \<lparr>ed_events = [], ed_inbound = [], ed_message_events = [], ed_gateway = g\<rparr>, rs_jobs = jobs,
      rs_observations = []\<rparr>\<rparr>"

text \<open>C2: However webhooks are received, claimed, processed, failed and recovered, in any order and with any
  tokens, the database is what the effects of the committed envelopes make of it when they are applied one
  after the other, each exactly once: the committed keys are distinct, they are those of the PROCESSED rows
  and those of the stored events, and every committed envelope is one that was received.
\<close>

theorem webhook_effects_exactly_once:
  "case webhook_run c sha jd enabled ops (webhook_start g jobs) of (d, h) \<Rightarrow>
     webhook_replay c sha jd enabled h (wd_runtime (webhook_start g jobs)) = Inr (wd_runtime d) \<and>
     distinct (committed_keys h) \<and> set (committed_keys h) = processed_keys (wd_webhooks d) \<and>
     map ev_id (ed_events (rs_events (wd_runtime d))) = committed_keys h \<and>
     fst ` set h \<subseteq> (\<Union>op \<in> set ops. received_of op)"
proof -
  obtain d h where r: "webhook_run c sha jd enabled ops (webhook_start g jobs) = (d, h)" by fastforce
  have "webhook_inv c sha jd enabled (wd_runtime (webhook_start g jobs)) {} [] (webhook_start g jobs)"
    by (simp add: webhook_inv_def webhook_start_def processed_keys_def committed_keys_def)
  from webhook_inv_run [OF this r] show ?thesis using r by (simp add: webhook_inv_def)
qed

section \<open>One webhook\<close>

definition claimed_webhook :: "uuid \<Rightarrow> timestamp \<Rightarrow> webhook_event \<Rightarrow> webhook_event" where
  "claimed_webhook t now w = w\<lparr>we_state := W_PROCESSING, we_attempt_count := we_attempt_count w + 1,
     we_last_attempt_at := Some now, we_lease_token := Some t, we_lease_expires_at := Some (now + lease_ttl),
     we_error := None\<rparr>"

lemma claim_webhook_due:
  assumes "keyed we_key rows" "w \<in> set rows" "webhook_due now w"
  obtains rows' where "claim_webhook (we_key w) t now rows = (rows', Some (we_payload w))"
    "keyed we_key rows'" "claimed_webhook t now w \<in> set rows'"
proof
  let ?f = "claim_webhook_row (we_key w) t now"
  have f: "?f w = Some (claimed_webhook t now w)"
    using assms(3) by (simp add: claim_webhook_row_def claimed_webhook_def)
  show "claim_webhook (we_key w) t now rows = (sql_update ?f rows, Some (we_payload w))"
    using sql_returning_one [where f = ?f, OF assms(1,2) f]
    by (simp add: claim_webhook_def Let_def claim_webhook_row_def claimed_webhook_def)
  show "keyed we_key (sql_update ?f rows)"
    using assms(1) by (subst keyed_sql_update) (auto simp: claim_webhook_row_def)
  show "claimed_webhook t now w \<in> set (sql_update ?f rows)"
    using assms(2) f by (rule sql_update_mem_changed [where f = ?f])
qed

lemma claimed_owned:
  "t1 < t0 + lease_ttl \<Longrightarrow> webhook_owned (we_key w) t t1 (claimed_webhook t t0 w)"
  by (simp add: webhook_owned_def claimed_webhook_def)

text \<open>A worker that processes a due webhook within the two minutes of its lease settles it either way. If the
  effects of the envelope can be applied, the database is changed by them alone, the row is PROCESSED and the
  lease is released; if they fail, nothing of them is kept, the error is on the row, and the row waits for
  its backoff or, after the fifth attempt, is DEAD.
\<close>

theorem process_webhook_settles:
  assumes "keyed we_key (wd_webhooks d)" "w \<in> set (wd_webhooks d)" "webhook_due t0 w"
    and "en_key (we_payload w) = we_key w" "t1 < t0 + lease_ttl" "t2 < t0 + lease_ttl"
    and job: "process_webhook_job c sha jd enabled (we_key w) t (t0, t1, t2) d = (d', result)"
  shows "\<exists>w' \<in> set (wd_webhooks d'). we_key w' = we_key w \<and> we_lease_token w' = None
    \<and> we_attempt_count w' = we_attempt_count w + 1
    \<and> (case webhook_effects c sha jd enabled (we_payload w) t1 (wd_runtime d) of
         Inr rs \<Rightarrow> wd_runtime d' = rs \<and> we_state w' = W_PROCESSED
           \<and> result = Inr (Processed (status_updated (we_payload w)))
       | Inl err \<Rightarrow> wd_runtime d' = wd_runtime d \<and> we_error w' = Some err \<and> result = Inl err
           \<and> (if we_attempt_count w < 4 then we_state w' = W_RETRY
                \<and> we_next_attempt_at w' = t2 + seconds (backoff_seconds (we_attempt_count w + 1))
              else we_state w' = W_DEAD \<and> we_dead_at w' = Some t2))"
proof -
  let ?e = "we_payload w" and ?k = "we_key w" and ?w1 = "claimed_webhook t t0 w"
  obtain rows where claim: "claim_webhook ?k t t0 (wd_webhooks d) = (rows, Some ?e)"
    and rows: "keyed we_key rows" "?w1 \<in> set rows"
    using claim_webhook_due [OF assms(1-3)] by blast
  have own: "webhook_owned ?k t t1 ?w1" "webhook_owned ?k t t2 ?w1"
    using assms(5,6) by (simp_all add: claimed_owned)
  then have lock: "lock_processing_lease ?k t t1 rows" using rows(2) by (auto simp: lock_processing_lease_def)
  have k1: "we_key ?w1 = ?k" by (simp add: claimed_webhook_def)
  show ?thesis
  proof (cases "webhook_effects c sha jd enabled ?e t1 (wd_runtime d)")
    case (Inl err)
    let ?f = "failed_webhook_row ?k t err t2"
    obtain w' where w': "?f ?w1 = Some w'" using own(2) by (simp add: failed_webhook_row_def)
    have d': "d' = d\<lparr>wd_webhooks := sql_update ?f rows\<rparr>" "result = Inl err"
      using job claim lock Inl assms(4)
      by (simp_all add: process_webhook_job_def process_webhook_def mark_failed_def Let_def)
    have "w' \<in> set (wd_webhooks d')" using sql_update_mem_changed [where f = ?f, OF rows(2) w'] d' by simp
    then show ?thesis using w' d' Inl
      by (intro bexI [of _ w']) (auto simp: failed_webhook_row_def claimed_webhook_def)
  next
    case (Inr rs)
    let ?f = "processed_row c ?k t None t1"
    obtain w' where w': "?f ?w1 = Some w'" using own(1) by (simp add: processed_row_def)
    have "sql_returning ?f rows = [w']"
      by (rule sql_returning_one [where f = ?f, OF rows w']) (auto simp: processed_row_def webhook_owned_def k1)
    then have d': "d' = \<lparr>wd_webhooks = sql_update ?f rows, wd_runtime = rs\<rparr>"
        "result = Inr (Processed (status_updated ?e))"
      using job claim lock Inr assms(4)
      by (simp_all add: process_webhook_job_def process_webhook_def sql_count_def Let_def)
    have "w' \<in> set (wd_webhooks d')" using sql_update_mem_changed [where f = ?f, OF rows(2) w'] d' by simp
    then show ?thesis using w' d' Inr
      by (intro bexI [of _ w']) (auto simp: processed_row_def claimed_webhook_def)
  qed
qed

definition sample_envelope :: "string \<Rightarrow> envelope" where
  "sample_envelope status = \<lparr>en_event = ''message.ack'', en_timestamp = ''t'', en_session_id = ''s1'', en_key = ''k1'',
     en_delivery_id = ''d1'', en_data = [(''messageId'', JText ''m1''), (''status'', JText status)]\<rparr>"

definition sample_reader :: js_reader where
  "sample_reader = \<lparr>jd_number = (\<lambda>_. None), jd_date = (\<lambda>_. Some 5)\<rparr>"

definition sample_gateway :: gateway_db where
  "sample_gateway = \<lparr>gw_sync = \<lparr>sync_runs = [], sync_fences = [], sync_items = [], group_intents = [],
     rate_limits = []\<rparr>, gw_sessions = [], gw_groups = []\<rparr>"

text \<open>An acknowledgement whose status is the name of an inherited property fails and is retried.\<close>

lemma process_webhook_settles_witness:
  "\<forall>c. \<exists>w' \<in> set (wd_webhooks (fst (process_webhook_job c rev sample_reader True ''k1'' ''t'' (10, 11, 12)
      ((webhook_start sample_gateway [])\<lparr>wd_webhooks := [new_webhook (sample_envelope ''constructor'') 0]\<rparr>)))).
    we_key w' = ''k1'' \<and> we_state w' = W_RETRY \<and> we_next_attempt_at w' = 12 + 5000"
proof
  fix c
  let ?w = "new_webhook (sample_envelope ''constructor'') 0"
  let ?d = "(webhook_start sample_gateway [])\<lparr>wd_webhooks := [?w]\<rparr>"
  obtain d' result where job: "process_webhook_job c rev sample_reader True (we_key ?w) ''t'' (10, 11, 12) ?d = (d', result)"
    by fastforce
  have pre: "keyed we_key (wd_webhooks ?d)" "?w \<in> set (wd_webhooks ?d)" "webhook_due 10 ?w"
      "en_key (we_payload ?w) = we_key ?w" "(11::int) < 10 + lease_ttl" "(12::int) < 10 + lease_ttl"
    by (simp_all add: keyed_def webhook_due_def new_webhook_def lease_ttl_def minutes_def)
  have lower: "js_lower ''constructor'' = ''constructor''" by code_simp
  have eff: "webhook_effects c rev sample_reader True (we_payload ?w) 11 (wd_runtime ?d)
      = Inl ''invalid input value for enum message_job_status''"
    by (simp add: webhook_effects_def store_event_def normalize_openwa_webhook_def sample_envelope_def new_webhook_def
        date_from_def sample_reader_def webhook_start_def update_message_status_def webhook_status_def
        webhook_message_id_def js_text_def lower message_events_def)
  show "\<exists>w' \<in> set (wd_webhooks (fst (process_webhook_job c rev sample_reader True ''k1'' ''t'' (10, 11, 12) ?d))).
      we_key w' = ''k1'' \<and> we_state w' = W_RETRY \<and> we_next_attempt_at w' = 12 + 5000"
    using process_webhook_settles [OF pre job] job unfolding eff
    by (auto simp: new_webhook_def sample_envelope_def seconds_def backoff_seconds_def)
qed

end
