(* ===== verification/Webhook_Requests.thy ===== *)
theory Webhook_Requests
  imports Webhooks
begin

text \<open>
  The webhook inbox as the gateway sees it: sequences of signed requests to the controller, interleaved with the
  workers, the recovery and the retention of the rows. What is stored and what takes effect comes from authentic
  requests, each of them stored once.
\<close>

section \<open>Requests\<close>

record webhook_request =
  wq_raw :: "string option"
  wq_signature :: "string option"
  wq_body :: envelope_body
  wq_at :: timestamp

type_synonym webhook_answer = "webhook_rejection + bool"

text \<open>What was answered, committed and removed so far.\<close>

record inbox_log =
  ib_answers :: "(webhook_request \<times> webhook_answer) list"
  ib_committed :: "envelope list"
  ib_removed :: "string list"

text \<open>Envelopes enter by requests only; a removal is that of the retention, which takes rows that are settled.\<close>

datatype inbox_op = Deliver webhook_request | Work webhook_op | Remove "webhook_event \<Rightarrow> bool"

fun inbox_step ::
  "runtime_config \<Rightarrow> (string \<Rightarrow> string \<Rightarrow> string) \<Rightarrow> string \<Rightarrow> (string \<Rightarrow> string) \<Rightarrow> js_reader \<Rightarrow> bool
    \<Rightarrow> inbox_op \<Rightarrow> webhook_db \<times> inbox_log \<Rightarrow> webhook_db \<times> inbox_log" where
  "inbox_step c hmac secret sha jd enabled (Deliver r) (d, l) =
     (case receive_webhook c hmac secret (wq_raw r) (wq_signature r) (wq_body r) (wq_at r) (wd_webhooks d) of
        (rows, answer) \<Rightarrow> (d\<lparr>wd_webhooks := rows\<rparr>, l\<lparr>ib_answers := ib_answers l @ [(r, answer)]\<rparr>))"
| "inbox_step c hmac secret sha jd enabled (Work (ReceiveWebhook e now)) (d, l) = (d, l)"
| "inbox_step c hmac secret sha jd enabled (Work op) (d, l) = (case webhook_step c sha jd enabled op d of
     (d', h) \<Rightarrow> (d', l\<lparr>ib_committed := ib_committed l @ map fst h\<rparr>))"
| "inbox_step c hmac secret sha jd enabled (Remove P) (d, l) =
     (let gone = (\<lambda>w. we_state w \<in> {W_PROCESSED, W_DEAD} \<and> P w) in
      (d\<lparr>wd_webhooks := sql_delete gone (wd_webhooks d)\<rparr>,
       l\<lparr>ib_removed := ib_removed l @ map we_key (filter gone (wd_webhooks d))\<rparr>))"

definition empty_log :: inbox_log where
  "empty_log = \<lparr>ib_answers = [], ib_committed = [], ib_removed = []\<rparr>"

section \<open>What the answers say\<close>

definition signed :: "(string \<Rightarrow> string \<Rightarrow> string) \<Rightarrow> string \<Rightarrow> webhook_request \<Rightarrow> bool" where
  "signed hmac secret r \<longleftrightarrow> wq_raw r \<noteq> None \<and> wq_signature r = Some (''sha256='' @ hmac secret (the (wq_raw r)))"

definition authentic :: "runtime_config \<Rightarrow> (string \<Rightarrow> string \<Rightarrow> string) \<Rightarrow> string \<Rightarrow> webhook_request \<Rightarrow> bool" where
  "authentic c hmac secret r \<longleftrightarrow> signed hmac secret r
     \<and> (case body_envelope (wq_body r) of None \<Rightarrow> False | Some e \<Rightarrow> is_allowed c (en_session_id e))"

text \<open>The envelopes of the requests that were answered as new.\<close>

definition accepted :: "(webhook_request \<times> webhook_answer) list \<Rightarrow> envelope list" where
  "accepted as = List.map_filter (\<lambda>(r, a). if a = Inr False then body_envelope (wq_body r) else None) as"

lemma accepted_append: "accepted (as @ bs) = accepted as @ accepted bs"
  by (simp add: accepted_def List.map_filter_def)

lemma accepted_one: "accepted [(r, a)] = (if a = Inr False then (case body_envelope (wq_body r) of None \<Rightarrow> [] | Some e \<Rightarrow> [e]) else [])"
  by (simp add: accepted_def List.map_filter_def split: option.split)

definition answer_ok ::
  "runtime_config \<Rightarrow> (string \<Rightarrow> string \<Rightarrow> string) \<Rightarrow> string \<Rightarrow> webhook_request \<times> webhook_answer \<Rightarrow> bool" where
  "answer_ok c hmac secret p = (case p of (r, a) \<Rightarrow>
     (a = Inl InvalidSignature \<longleftrightarrow> \<not> signed hmac secret r) \<and> (\<not> isl a \<longleftrightarrow> authentic c hmac secret r))"

text \<open>The controller either turns the request down, finds its key, or stores its envelope.\<close>

lemma receive_webhook_cases:
  assumes "receive_webhook c hmac secret (wq_raw r) (wq_signature r) (wq_body r) (wq_at r) rows = (rows', a)"
  obtains (rejected) "isl a" "rows' = rows" "answer_ok c hmac secret (r, a)"
    | (duplicate) "a = Inr True" "rows' = rows" "answer_ok c hmac secret (r, a)" "eb_key (wq_body r) \<in> we_key ` set rows"
    | (stored) e where "a = Inr False" "body_envelope (wq_body r) = Some e" "rows' = rows @ [new_webhook e (wq_at r)]"
      "en_key e \<notin> we_key ` set rows" "answer_ok c hmac secret (r, a)"
proof -
  have key: "en_key e = eb_key (wq_body r)" if "body_envelope (wq_body r) = Some e" for e
    using that by (auto simp: body_envelope_def split: if_splits)
  note defs = receive_webhook_def verify_openwa_signature_def assert_allowed_def guard_def insert_webhook_def
    sql_insert_new_def answer_ok_def authentic_def signed_def
  show thesis
    using assms key that
    by (cases "wq_raw r"; cases "wq_signature r"; cases "body_envelope (wq_body r)")
      (auto simp: defs new_webhook_def split: if_splits)
qed

section \<open>The invariant\<close>

definition inbox_inv :: "runtime_config \<Rightarrow> (string \<Rightarrow> string \<Rightarrow> string) \<Rightarrow> string \<Rightarrow> webhook_db \<times> inbox_log \<Rightarrow> bool" where
  "inbox_inv c hmac secret s = (case s of (d, l) \<Rightarrow> keyed we_key (wd_webhooks d)
     \<and> list_all (answer_ok c hmac secret) (ib_answers l)
     \<and> mset (map en_key (accepted (ib_answers l))) = mset (map we_key (wd_webhooks d)) + mset (ib_removed l)
     \<and> (\<forall>w \<in> set (wd_webhooks d). we_state w \<noteq> W_PROCESSED \<longrightarrow> we_payload w \<in> set (accepted (ib_answers l)))
     \<and> set (ib_committed l) \<subseteq> set (accepted (ib_answers l)))"

text \<open>A worker or the recovery changes rows without their keys and payloads, and commits the payload of a row
  that is not settled.\<close>

lemma commit_webhook_cases:
  assumes "commit_webhook c sha jd enabled key t now d = (d', h)"
  obtains (nothing) "d' = d" "h = []"
    | (committed) w where "w \<in> set (wd_webhooks d)" "we_state w = W_PROCESSING" "h = [(we_payload w, now)]"
      "wd_webhooks d' = sql_update (processed_row c (en_key (we_payload w)) t None now) (wd_webhooks d)"
proof (cases "locked_webhook key t now d")
  case None
  show thesis by (rule nothing) (use assms None in \<open>simp_all add: commit_webhook_def\<close>)
next
  case (Some w)
  then have w: "w \<in> set (wd_webhooks d)" "we_state w = W_PROCESSING"
    by (auto simp: locked_webhook_def webhook_owned_def find_Some_iff)
  show thesis
  proof (cases "process_webhook c sha jd enabled (we_payload w) t now d")
    case (Inl err)
    show thesis by (rule nothing) (use assms Some Inl in \<open>simp_all add: commit_webhook_def\<close>)
  next
    case (Inr p)
    then obtain owned where p: "process_webhook c sha jd enabled (we_payload w) t now d = Inr (d', owned)"
      and h: "h = (if owned then [(we_payload w, now)] else [])"
      using assms Some by (cases p) (simp add: commit_webhook_def)
    show thesis
    proof (cases owned)
      case True
      then have "wd_webhooks d' = sql_update (processed_row c (en_key (we_payload w)) t None now) (wd_webhooks d)"
        using p by (auto simp: process_webhook_def Let_def split: if_splits)
      then show thesis using committed w h True by simp
    next
      case False
      then have "d' = d" using p by (auto simp: process_webhook_def Let_def split: if_splits)
      then show thesis by (rule nothing) (simp add: h False)
    qed
  qed
qed

definition settles_row :: "(webhook_event \<Rightarrow> webhook_event option) \<Rightarrow> bool" where
  "settles_row f \<longleftrightarrow> (\<forall>w w'. f w = Some w' \<longrightarrow> we_key w' = we_key w \<and> we_state w \<noteq> W_PROCESSED
     \<and> (we_state w' \<noteq> W_PROCESSED \<longrightarrow> we_payload w' = we_payload w))"

lemma webhook_step_rows:
  assumes "webhook_step c sha jd enabled op d = (d', h)" "\<And>e now. op \<noteq> ReceiveWebhook e now"
  obtains (rows) f where "settles_row f" "wd_webhooks d' = sql_update f (wd_webhooks d)"
      "fst ` set h \<subseteq> we_payload ` {w \<in> set (wd_webhooks d). we_state w \<noteq> W_PROCESSED}"
    | (nothing) "d' = d" "h = []"
proof (cases op)
  case (ClaimWebhook key t now)
  then show thesis using assms(1)
    by (intro rows [of "claim_webhook_row key t now"])
      (auto simp: settles_row_def claim_webhook_def Let_def webhook_rows webhook_due_def)
next
  case (ProcessWebhook key t now)
  then have "commit_webhook c sha jd enabled key t now d = (d', h)" using assms(1) by simp
  then show thesis
  proof (cases rule: commit_webhook_cases)
    case (committed w)
    then show thesis
      by (intro rows [of "processed_row c (en_key (we_payload w)) t None now"])
        (auto simp: settles_row_def processed_row_def webhook_owned_def)
  qed (rule nothing)
next
  case (FailWebhook key t err now)
  then show thesis using assms(1)
    by (intro rows [of "failed_webhook_row key t err now"])
      (auto simp: settles_row_def mark_failed_def Let_def webhook_rows webhook_owned_def)
next
  case (RecoverWebhooks now)
  then show thesis using assms(1)
    by (intro rows [of "recover_webhook_row now"]) (auto simp: settles_row_def webhook_rows)
qed (use assms(2) in blast)

lemma inbox_inv_work:
  assumes inv: "inbox_inv c hmac secret (d, l)" and step: "webhook_step c sha jd enabled op d = (d', h)"
    and op: "\<And>e now. op \<noteq> ReceiveWebhook e now"
  shows "inbox_inv c hmac secret (d', l\<lparr>ib_committed := ib_committed l @ map fst h\<rparr>)"
  using step op
proof (cases rule: webhook_step_rows)
  case (rows f)
  have key: "we_key w' = we_key w" if "f w = Some w'" for w w' using rows(1) that by (simp add: settles_row_def)
  have "keyed we_key (wd_webhooks d')" using inv key unfolding rows(2) by (subst keyed_sql_update) (auto simp: inbox_inv_def)
  moreover have "map we_key (wd_webhooks d') = map we_key (wd_webhooks d)"
    unfolding rows(2) using key by (rule map_sql_update_key)
  moreover have "we_payload w \<in> set (accepted (ib_answers l))"
    if w: "w \<in> set (wd_webhooks d')" "we_state w \<noteq> W_PROCESSED" for w
    using w(1) unfolding rows(2)
  proof (cases rule: sql_update_cases)
    case kept
    then show ?thesis using inv w(2) by (simp add: inbox_inv_def)
  next
    case (changed w0)
    then have "we_payload w = we_payload w0" "we_state w0 \<noteq> W_PROCESSED"
      using rows(1) w(2) unfolding settles_row_def by blast+
    then show ?thesis using inv changed(1) by (simp add: inbox_inv_def)
  qed
  moreover have "fst ` set h \<subseteq> set (accepted (ib_answers l))" using rows(3) inv by (auto simp: inbox_inv_def)
  ultimately show ?thesis using inv by (simp add: inbox_inv_def del: mset_map)
next
  case nothing
  then show ?thesis using inv by (simp add: inbox_inv_def)
qed

lemma inbox_inv_deliver:
  assumes inv: "inbox_inv c hmac secret (d, l)"
    and rec: "receive_webhook c hmac secret (wq_raw r) (wq_signature r) (wq_body r) (wq_at r) (wd_webhooks d) = (rows, a)"
  shows "inbox_inv c hmac secret (d\<lparr>wd_webhooks := rows\<rparr>, l\<lparr>ib_answers := ib_answers l @ [(r, a)]\<rparr>)"
  using rec
proof (cases rule: receive_webhook_cases)
  case rejected
  then have "a \<noteq> Inr False" by auto
  then show ?thesis using inv rejected by (simp add: inbox_inv_def accepted_append accepted_one)
next
  case duplicate
  then show ?thesis using inv by (simp add: inbox_inv_def accepted_append accepted_one)
next
  case (stored e)
  have new: "we_key (new_webhook e (wq_at r)) = en_key e" "we_payload (new_webhook e (wq_at r)) = e"
    by (simp_all add: new_webhook_def)
  show ?thesis using inv stored by (auto simp: inbox_inv_def accepted_append accepted_one new)
qed

lemma inbox_inv_remove:
  assumes "inbox_inv c hmac secret (d, l)"
  shows "inbox_inv c hmac secret (d\<lparr>wd_webhooks := sql_delete P (wd_webhooks d)\<rparr>,
    l\<lparr>ib_removed := ib_removed l @ map we_key (filter P (wd_webhooks d))\<rparr>)"
proof -
  have split: "mset (map we_key rows) = mset (map we_key (sql_delete P rows)) + mset (map we_key (filter P rows))" for rows
    unfolding sql_delete_def by (induction rows) auto
  have "mset (map we_key (wd_webhooks d)) + mset (ib_removed l)
      = mset (map we_key (sql_delete P (wd_webhooks d))) + mset (ib_removed l @ map we_key (filter P (wd_webhooks d)))"
    unfolding split [of "wd_webhooks d"] mset_append by (simp only: ac_simps)
  moreover have "set (sql_delete P rows) \<subseteq> set rows" for rows by (auto simp: sql_delete_def)
  moreover have "keyed we_key (sql_delete P (wd_webhooks d))" using assms by (auto simp: inbox_inv_def)
  ultimately show ?thesis using assms by (simp add: inbox_inv_def subset_iff del: mset_map mset_append)
qed

lemma inbox_inv_step:
  assumes "inbox_inv c hmac secret s"
  shows "inbox_inv c hmac secret (inbox_step c hmac secret sha jd enabled op s)"
proof -
  obtain d l where s: "s = (d, l)" by (cases s)
  show ?thesis
  proof (cases op)
    case (Deliver r)
    then show ?thesis using inbox_inv_deliver assms by (simp add: s split: prod.split)
  next
    case (Work w)
    show ?thesis
    proof (cases "\<exists>e now. w = ReceiveWebhook e now")
      case False
      then have "inbox_step c hmac secret sha jd enabled op s = (case webhook_step c sha jd enabled w d of
          (d', h) \<Rightarrow> (d', l\<lparr>ib_committed := ib_committed l @ map fst h\<rparr>))"
        by (cases w) (simp_all add: Work s)
      then show ?thesis using inbox_inv_work assms False s by (auto split: prod.split)
    qed (use assms Work s in auto)
  next
    case (Remove P)
    then show ?thesis using inbox_inv_remove assms by (simp add: s Let_def)
  qed
qed

lemma inbox_inv_fold: "inbox_inv c hmac secret s \<Longrightarrow> inbox_inv c hmac secret (fold (inbox_step c hmac secret sha jd enabled) ops s)"
  by (induction ops arbitrary: s) (simp_all add: inbox_inv_step)


end
