(* ===== verification/Contact_Resolution.thy ===== *)
theory Contact_Resolution
  imports Schema "HOL-Library.Product_Lexorder"
begin

text \<open>
  The resolution of contacts, src/src/modules/contacts/contact-resolution.repository.ts: the identities of a
  session that the evidence of a published snapshot links form a cluster, an identity whose evidence is
  contradictory is quarantined, and every cluster gets the phone number and the name its members agree on.
\<close>

section \<open>Evidence\<close>

datatype identity_type = LID | PHONE_JID | PHONE | OTHER_JID
datatype evidence_source = PHONE_JID_DERIVATION | OPENWA_CONTACT_PHONE
datatype name_source = OPENWA_CONTACT_NAME | GROUP_PARTICIPANT_NAME | OPENWA_PUSH_NAME
datatype conflict_code = MULTIPLE_PHONE_TARGETS | PHONE_SHARED_BY_MULTIPLE_NON_PHONE_IDENTITIES
datatype generation_state = G_RECEIVING | G_PUBLISHED | G_FAILED
datatype resolution_status = RESOLVED | QUARANTINED
datatype resolution_run_status = RR_PENDING | RR_RUNNING | RR_RETRY | RR_COMPLETED | RR_FAILED

record observed_identity =
  ob_session :: string
  ob_id :: uuid
  ob_type :: identity_type
  ob_value :: string
  ob_first_observed_at :: timestamp
  ob_last_observed_at :: timestamp

record link_evidence =
  le_session :: string
  le_left :: uuid
  le_right :: uuid
  le_source :: evidence_source
  le_generation :: "nat option"
  le_observed_at :: timestamp
  le_key :: string
  le_created_at :: timestamp

record name_observation =
  no_session :: string
  no_id :: uuid
  no_identity_id :: uuid
  no_source :: name_source
  no_membership :: "(string \<times> string) option"
  no_name :: string
  no_generation :: "nat option"
  no_observed_at :: timestamp
  no_key :: string
  no_created_at :: timestamp

record snapshot_generation =
  sn_session :: string
  sn_generation :: nat
  sn_state :: generation_state
  sn_lease_token :: uuid
  sn_upstream_count :: "nat option"
  sn_staged_count :: nat
  sn_published_at :: "timestamp option"
  sn_failed_at :: "timestamp option"
  sn_error :: "string option"
  sn_created_at :: timestamp
  sn_updated_at :: timestamp

record resolution_metrics =
  rm_identities :: nat
  rm_clusters :: nat
  rm_linked :: nat
  rm_conflicts :: nat

record resolution_run =
  rr_session :: string
  rr_id :: uuid
  rr_generation :: nat
  rr_cutoff :: timestamp
  rr_status :: resolution_run_status
  rr_attempt_count :: nat
  rr_next_attempt_at :: timestamp
  rr_lease_token :: "uuid option"
  rr_lease_expires_at :: "timestamp option"
  rr_metrics :: "resolution_metrics option"
  rr_started_at :: "timestamp option"
  rr_completed_at :: "timestamp option"
  rr_failed_at :: "timestamp option"
  rr_error :: "string option"
  rr_created_at :: timestamp
  rr_updated_at :: timestamp

record contact_cluster =
  cl_session :: string
  cl_run :: uuid
  cl_id :: uuid
  cl_phone :: "string option"
  cl_count :: nat
  cl_name :: "(string \<times> uuid) option"

record identity_assignment =
  as_session :: string
  as_run :: uuid
  as_identity :: uuid
  as_cluster :: uuid
  as_status :: resolution_status
  as_phone :: "string option"

record resolution_conflict =
  cf_session :: string
  cf_run :: uuid
  cf_identity :: uuid
  cf_code :: conflict_code

datatype projection_status = P_IDLE | P_PENDING | P_RUNNING | P_RETRY | P_FAILED

record projection_work =
  pw_session :: string
  pw_identity :: uuid
  pw_requested_revision :: nat
  pw_completed_revision :: nat
  pw_requested_cutoff :: timestamp
  pw_status :: projection_status
  pw_active_revision :: "nat option"
  pw_active_cutoff :: "timestamp option"
  pw_active_run :: "uuid option"
  pw_cursor :: "(string \<times> string) option"
  pw_attempt_count :: nat
  pw_next_attempt_at :: timestamp
  pw_lease_token :: "uuid option"
  pw_lease_expires_at :: "timestamp option"
  pw_first_requested_at :: timestamp
  pw_last_requested_at :: timestamp
  pw_completed_at :: "timestamp option"
  pw_failed_at :: "timestamp option"
  pw_error :: "string option"
  pw_updated_at :: timestamp

record contact_db =
  kd_identities :: "observed_identity table"
  kd_links :: "link_evidence table"
  kd_names :: "name_observation table"
  kd_generations :: "snapshot_generation table"
  kd_runs :: "resolution_run table"
  kd_clusters :: "contact_cluster table"
  kd_assignments :: "identity_assignment table"
  kd_conflicts :: "resolution_conflict table"
  kd_work :: "projection_work table"
  kd_revision_seq :: nat

section \<open>Runs\<close>

definition new_resolution_run :: "(string \<Rightarrow> nat \<Rightarrow> uuid) \<Rightarrow> snapshot_generation \<Rightarrow> timestamp \<Rightarrow> resolution_run" where
  "new_resolution_run ids s now = \<lparr>rr_session = sn_session s, rr_id = ids (sn_session s) (sn_generation s),
     rr_generation = sn_generation s, rr_cutoff = coalesce (sn_published_at s) 0, rr_status = RR_PENDING, rr_attempt_count = 0,
     rr_next_attempt_at = now, rr_lease_token = None, rr_lease_expires_at = None, rr_metrics = None,
     rr_started_at = None, rr_completed_at = None, rr_failed_at = None, rr_error = None,
     rr_created_at = now, rr_updated_at = now\<rparr>"

definition run_source :: "resolution_run \<Rightarrow> string \<times> nat" where
  "run_source r = (rr_session r, rr_generation r)"

text \<open>The allowlist is NULL when the repository is built without one. The algorithm version is always 1.\<close>

definition listed :: "string list option \<Rightarrow> string \<Rightarrow> bool" where
  "listed allowed sid \<longleftrightarrow> (case allowed of None \<Rightarrow> True | Some ss \<Rightarrow> sid \<in> set ss)"

definition enqueue_published ::
  "string list option \<Rightarrow> (string \<Rightarrow> nat \<Rightarrow> uuid) \<Rightarrow> nat \<Rightarrow> timestamp \<Rightarrow> contact_db \<Rightarrow> contact_db \<times> nat" where
  "enqueue_published allowed ids limit now d =
     (let new = sql_top limit (\<lambda>s. (coalesce (sn_published_at s) 0, sn_session s))
            (\<lambda>s. sn_state s = G_PUBLISHED \<and> listed allowed (sn_session s)
               \<and> (sn_session s, sn_generation s) \<notin> run_source ` set (kd_runs d)) (kd_generations d);
          runs = fold (\<lambda>s. sql_insert_new run_source (new_resolution_run ids s now)) new (kd_runs d) in
      (d\<lparr>kd_runs := runs\<rparr>, length runs - length (kd_runs d)))"

definition resolution_claimable :: "string list option \<Rightarrow> timestamp \<Rightarrow> resolution_run \<Rightarrow> bool" where
  "resolution_claimable allowed now r \<longleftrightarrow> listed allowed (rr_session r)
     \<and> (rr_status r \<in> {RR_PENDING, RR_RETRY} \<and> rr_next_attempt_at r \<le> now
        \<or> rr_status r = RR_RUNNING \<and> null_before (rr_lease_expires_at r) now)"

definition run_key :: "resolution_run \<Rightarrow> string \<times> uuid" where
  "run_key r = (rr_session r, rr_id r)"

definition claim_resolution_row :: "string \<times> uuid \<Rightarrow> uuid \<Rightarrow> timestamp \<Rightarrow> resolution_run row_update" where
  "claim_resolution_row key t now = sql_where (\<lambda>r. run_key r = key)
     (\<lambda>r. r\<lparr>rr_status := RR_RUNNING, rr_attempt_count := rr_attempt_count r + 1, rr_lease_token := Some t,
        rr_lease_expires_at := Some (now + minutes 5), rr_started_at := Some (coalesce (rr_started_at r) now),
        rr_error := None, rr_updated_at := now\<rparr>)"

record resolution_claim =
  rk_session :: string
  rk_run :: uuid
  rk_token :: uuid

definition claim_resolution ::
  "string list option \<Rightarrow> uuid \<Rightarrow> timestamp \<Rightarrow> contact_db \<Rightarrow> contact_db \<times> resolution_claim option" where
  "claim_resolution allowed t now d =
     (case sql_top 1 (\<lambda>r. (rr_next_attempt_at r, rr_created_at r, rr_session r)) (resolution_claimable allowed now) (kd_runs d) of
        [] \<Rightarrow> (d, None)
      | r # _ \<Rightarrow> (d\<lparr>kd_runs := sql_update (claim_resolution_row (run_key r) t now) (kd_runs d)\<rparr>,
          Some \<lparr>rk_session = rr_session r, rk_run = rr_id r, rk_token = t\<rparr>))"

text \<open>LEAST(3600, 30 * power(2, LEAST(attempt_count, 7))) seconds.\<close>

definition resolution_backoff :: "nat \<Rightarrow> timestamp" where
  "resolution_backoff attempts = seconds (min 3600 (30 * 2 ^ min attempts 7))"

definition fail_resolution_row :: "resolution_claim \<Rightarrow> timestamp \<Rightarrow> resolution_run row_update" where
  "fail_resolution_row k now = sql_where
     (\<lambda>r. run_key r = (rk_session k, rk_run k) \<and> rr_status r = RR_RUNNING \<and> rr_lease_token r = Some (rk_token k))
     (\<lambda>r. r\<lparr>rr_status := (if 5 \<le> rr_attempt_count r then RR_FAILED else RR_RETRY),
        rr_next_attempt_at := now + resolution_backoff (rr_attempt_count r),
        rr_failed_at := (if 5 \<le> rr_attempt_count r then Some now else rr_failed_at r),
        rr_error := Some ''RESOLUTION_ERROR'', rr_lease_token := None, rr_lease_expires_at := None,
        rr_updated_at := now\<rparr>)"

definition fail_resolution :: "resolution_claim \<Rightarrow> timestamp \<Rightarrow> contact_db \<Rightarrow> contact_db" where
  "fail_resolution k now d = d\<lparr>kd_runs := sql_update (fail_resolution_row k now) (kd_runs d)\<rparr>"

section \<open>Links and conflicts\<close>

text \<open>resolution_edge_candidates: what the snapshot says, and what is not of a snapshot and not newer than it.\<close>

definition within_cutoff :: "nat \<Rightarrow> timestamp \<Rightarrow> nat option \<Rightarrow> timestamp \<Rightarrow> bool" where
  "within_cutoff generation cutoff g created \<longleftrightarrow> g = Some generation \<or> (g = None \<and> created \<le> cutoff)"

definition edge_candidates ::
  "string \<Rightarrow> nat \<Rightarrow> timestamp \<Rightarrow> link_evidence table \<Rightarrow> (uuid \<times> uuid \<times> evidence_source) list" where
  "edge_candidates sid generation cutoff links =
     map (\<lambda>e. (le_left e, le_right e, le_source e))
       (filter (\<lambda>e. le_session e = sid \<and> within_cutoff generation cutoff (le_generation e) (le_created_at e)) links)"

definition several :: "'a list \<Rightarrow> bool" where
  "several xs \<longleftrightarrow> 1 < length (remdups xs)"

definition link_targets :: "(uuid \<times> uuid \<times> evidence_source) list \<Rightarrow> uuid \<Rightarrow> uuid list" where
  "link_targets cs l = map (\<lambda>c. fst (snd c)) (filter (\<lambda>c. fst c = l) cs)"

definition multiple_targets :: "(uuid \<times> uuid \<times> evidence_source) list \<Rightarrow> uuid list" where
  "multiple_targets cs = filter (\<lambda>l. several (link_targets cs l)) (remdups (map fst cs))"

definition phone_jids :: "string \<Rightarrow> observed_identity table \<Rightarrow> uuid \<Rightarrow> bool" where
  "phone_jids sid identities l \<longleftrightarrow> (\<exists>i \<in> set identities. ob_session i = sid \<and> ob_id i = l \<and> ob_type i = PHONE_JID)"

definition known_identity :: "string \<Rightarrow> observed_identity table \<Rightarrow> uuid \<Rightarrow> bool" where
  "known_identity sid identities l \<longleftrightarrow> (\<exists>i \<in> set identities. ob_session i = sid \<and> ob_id i = l)"

definition phone_claimants ::
  "string \<Rightarrow> observed_identity table \<Rightarrow> (uuid \<times> uuid \<times> evidence_source) list \<Rightarrow> uuid \<Rightarrow> uuid list" where
  "phone_claimants sid identities cs right = map fst (filter (\<lambda>c. snd c = (right, OPENWA_CONTACT_PHONE)
     \<and> known_identity sid identities (fst c) \<and> \<not> phone_jids sid identities (fst c)) cs)"

definition shared_phone ::
  "string \<Rightarrow> observed_identity table \<Rightarrow> (uuid \<times> uuid \<times> evidence_source) list \<Rightarrow> uuid \<Rightarrow> bool" where
  "shared_phone sid identities cs right \<longleftrightarrow> several (phone_claimants sid identities cs right)"

definition shared_aliases ::
  "string \<Rightarrow> observed_identity table \<Rightarrow> (uuid \<times> uuid \<times> evidence_source) list \<Rightarrow> uuid list" where
  "shared_aliases sid identities cs = remdups (map fst (filter (\<lambda>c. snd (snd c) = OPENWA_CONTACT_PHONE
     \<and> shared_phone sid identities cs (fst (snd c))) cs))"

definition conflicted_identities ::
  "string \<Rightarrow> observed_identity table \<Rightarrow> (uuid \<times> uuid \<times> evidence_source) list \<Rightarrow> (uuid \<times> conflict_code) list" where
  "conflicted_identities sid identities cs = map (\<lambda>l. (l, MULTIPLE_PHONE_TARGETS)) (multiple_targets cs)
     @ map (\<lambda>l. (l, PHONE_SHARED_BY_MULTIPLE_NON_PHONE_IDENTITIES)) (shared_aliases sid identities cs)"

definition eligible_edges ::
  "(uuid \<times> conflict_code) list \<Rightarrow> (uuid \<times> uuid \<times> evidence_source) list \<Rightarrow> (uuid \<times> uuid) list" where
  "eligible_edges conflicts cs = remdups (map (\<lambda>(l, r, s). (l, r))
     (filter (\<lambda>(l, r, s). s = PHONE_JID_DERIVATION \<or> l \<notin> fst ` set conflicts) cs))"

section \<open>Components\<close>

text \<open>
  The recursive query: each step adds the targets of edges from the nodes there are, and it ends when there
  is no new one.
\<close>

definition targets :: "('a \<times> 'a) list \<Rightarrow> 'a list \<Rightarrow> 'a list" where
  "targets es xs = remdups (map snd (filter (\<lambda>e. fst e \<in> set xs \<and> snd e \<notin> set xs) es))"

function reach :: "('a \<times> 'a) list \<Rightarrow> 'a list \<Rightarrow> 'a list" where
  "reach es xs = (if targets es xs = [] then xs else reach es (xs @ targets es xs))"
  by pat_completeness auto
termination
proof (relation "measure (\<lambda>(es, xs). card (snd ` set es - set xs))")
  fix es :: "('a \<times> 'a) list" and xs :: "'a list"
  assume new: "targets es xs \<noteq> []"
  then obtain y where y: "y \<in> set (targets es xs)" by (metis hd_in_set)
  have sub: "set (targets es xs) \<subseteq> snd ` set es" and out: "y \<in> snd ` set es - set xs"
    using y by (auto simp: targets_def)
  have "snd ` set es - set (xs @ targets es xs) \<subset> snd ` set es - set xs" using out y by auto
  then show "((es, xs @ targets es xs), es, xs) \<in> measure (\<lambda>(es, xs). card (snd ` set es - set xs))"
    by (simp add: psubset_card_mono)
qed simp

declare reach.simps [simp del]

definition undirected :: "('a \<times> 'a) list \<Rightarrow> ('a \<times> 'a) list" where
  "undirected es = remdups (es @ map (\<lambda>(l, r). (r, l)) es)"

definition resolution_nodes :: "string \<Rightarrow> timestamp \<Rightarrow> observed_identity table \<Rightarrow> uuid list" where
  "resolution_nodes sid cutoff identities =
     map ob_id (filter (\<lambda>i. ob_session i = sid \<and> ob_first_observed_at i \<le> cutoff) identities)"

text \<open>min(root::text) of the roots that reach a node.\<close>

definition reach_pairs :: "(uuid \<times> uuid) list \<Rightarrow> uuid list \<Rightarrow> (uuid \<times> uuid) list" where
  "reach_pairs es nodes = concat (map (\<lambda>root. map (\<lambda>node. (root, node)) (reach (undirected es) [root])) nodes)"

definition components :: "(uuid \<times> uuid) list \<Rightarrow> uuid list \<Rightarrow> (uuid \<times> uuid) list" where
  "components es nodes =
     (let pairs = reach_pairs es nodes in
      map (\<lambda>node. (node, Min (set (map fst (filter (\<lambda>p. snd p = node) pairs))))) (remdups (map snd pairs)))"

lemma reach_rtrancl: "set (reach es xs) = (set es)\<^sup>* `` set xs"
proof (induction es xs rule: reach.induct)
  case (1 es xs)
  show ?case
  proof (cases "targets es xs = []")
    case True
    then have "set es `` set xs \<subseteq> set xs" by (force simp: targets_def filter_empty_conv)
    then have "(set es)\<^sup>* `` set xs \<subseteq> set xs" using Image_closed_trancl by blast
    then show ?thesis using True by (auto simp: reach.simps [of es xs])
  next
    case False
    have new: "set (targets es xs) \<subseteq> (set es)\<^sup>* `` set xs"
    proof
      fix y
      assume "y \<in> set (targets es xs)"
      then obtain x where "x \<in> set xs" "(x, y) \<in> set es" by (auto simp: targets_def)
      then show "y \<in> (set es)\<^sup>* `` set xs" by blast
    qed
    have "(set es)\<^sup>* `` (set xs \<union> set (targets es xs)) = (set es)\<^sup>* `` set xs"
      using new by (auto intro: rtrancl_trans)
    then show ?thesis using 1 [OF False] False by (simp add: reach.simps [of es xs])
  qed
qed

lemma undirected_sym: "(a, b) \<in> (set (undirected es))\<^sup>* \<Longrightarrow> (b, a) \<in> (set (undirected es))\<^sup>*"
proof -
  have "sym (set (undirected es))" by (auto simp: sym_def undirected_def)
  then show "(a, b) \<in> (set (undirected es))\<^sup>* \<Longrightarrow> (b, a) \<in> (set (undirected es))\<^sup>*"
    by (meson sym_rtrancl symD)
qed

text \<open>Every node that some root reaches has one component, named by the least root that reaches it.\<close>

lemma components_iff:
  "(node, k) \<in> set (components es nodes) \<longleftrightarrow>
     (\<exists>root \<in> set nodes. (root, node) \<in> (set (undirected es))\<^sup>*)
     \<and> k = Min {root \<in> set nodes. (root, node) \<in> (set (undirected es))\<^sup>*}"
proof -
  let ?pairs = "reach_pairs es nodes"
  have pairs: "(root, n) \<in> set ?pairs \<longleftrightarrow> root \<in> set nodes \<and> (root, n) \<in> (set (undirected es))\<^sup>*" for root n
    by (auto simp: reach_pairs_def reach_rtrancl)
  have roots: "set (map fst (filter (\<lambda>p. snd p = node) ?pairs)) = {root \<in> set nodes. (root, node) \<in> (set (undirected es))\<^sup>*}"
    (is "?roots = ?R")
  proof -
    have "root \<in> ?roots \<longleftrightarrow> (root, node) \<in> set ?pairs" for root
      by (simp add: image_iff)
    then show ?thesis unfolding pairs by blast
  qed
  have nodes: "node \<in> set (remdups (map snd ?pairs)) \<longleftrightarrow> (\<exists>root. (root, node) \<in> set ?pairs)"
    unfolding set_remdups set_map by force
  have mem: "(node, k) \<in> set (map (\<lambda>n. (n, f n)) xs) \<longleftrightarrow> node \<in> set xs \<and> k = f node" for f and xs :: "uuid list" by auto
  show ?thesis unfolding components_def Let_def mem nodes roots pairs by blast
qed

section \<open>Clusters and assignments\<close>

definition component_identities ::
  "string \<Rightarrow> observed_identity table \<Rightarrow> (uuid \<times> uuid) list \<Rightarrow> uuid \<Rightarrow> observed_identity list" where
  "component_identities sid identities comps k =
     filter (\<lambda>i. ob_session i = sid \<and> (ob_id i, k) \<in> set comps) identities"

definition agreed_phone :: "observed_identity list \<Rightarrow> string option" where
  "agreed_phone is = (case remdups (map ob_value (filter (\<lambda>i. ob_type i = PHONE) is)) of [p] \<Rightarrow> Some p | _ \<Rightarrow> None)"

definition new_clusters ::
  "string \<Rightarrow> uuid \<Rightarrow> observed_identity table \<Rightarrow> (uuid \<times> uuid) list \<Rightarrow> contact_cluster list" where
  "new_clusters sid rid identities comps = map (\<lambda>k. let is = component_identities sid identities comps k in
      \<lparr>cl_session = sid, cl_run = rid, cl_id = k, cl_phone = agreed_phone is, cl_count = length is, cl_name = None\<rparr>)
     (remdups (map snd (filter (\<lambda>p. known_identity sid identities (fst p)) comps)))"

definition assignment_of :: "string \<Rightarrow> uuid \<Rightarrow> (uuid \<times> conflict_code) list \<Rightarrow> uuid \<Rightarrow> contact_cluster \<Rightarrow> identity_assignment" where
  "assignment_of sid rid conflicts n c = (let quarantined = n \<in> fst ` set conflicts in
     \<lparr>as_session = sid, as_run = rid, as_identity = n, as_cluster = cl_id c,
      as_status = (if quarantined then QUARANTINED else RESOLVED),
      as_phone = (if quarantined then None else cl_phone c)\<rparr>)"

definition new_assignments ::
  "string \<Rightarrow> uuid \<Rightarrow> (uuid \<times> conflict_code) list \<Rightarrow> contact_cluster list \<Rightarrow> (uuid \<times> uuid) list
    \<Rightarrow> identity_assignment list" where
  "new_assignments sid rid conflicts clusters comps = concat (map (\<lambda>(n, k).
      map (assignment_of sid rid conflicts n) (filter (\<lambda>c. cl_id c = k) clusters)) comps)"

definition new_conflicts ::
  "string \<Rightarrow> uuid \<Rightarrow> identity_assignment list \<Rightarrow> (uuid \<times> conflict_code) list \<Rightarrow> resolution_conflict list" where
  "new_conflicts sid rid assignments conflicts =
     map (\<lambda>(n, code). \<lparr>cf_session = sid, cf_run = rid, cf_identity = n, cf_code = code\<rparr>)
       (filter (\<lambda>p. fst p \<in> as_identity ` set assignments) conflicts)"

text \<open>DISTINCT ON (cluster_id) ORDER BY source_observed_at DESC, source_observation_key DESC, id.\<close>

definition preferred_name :: "name_observation \<Rightarrow> name_observation \<Rightarrow> bool" where
  "preferred_name a b \<longleftrightarrow> no_observed_at b < no_observed_at a
     \<or> no_observed_at a = no_observed_at b \<and> (no_key b < no_key a \<or> no_key a = no_key b \<and> no_id a < no_id b)"

fun best_name :: "name_observation list \<Rightarrow> name_observation option" where
  "best_name [] = None"
| "best_name (x # xs) = (case best_name xs of None \<Rightarrow> Some x | Some y \<Rightarrow> Some (if preferred_name y x then y else x))"

definition eligible_names ::
  "string \<Rightarrow> nat \<Rightarrow> timestamp \<Rightarrow> name_observation table \<Rightarrow> name_observation list" where
  "eligible_names sid generation cutoff names =
     filter (\<lambda>x. no_session x = sid \<and> no_source x = OPENWA_CONTACT_NAME
       \<and> within_cutoff generation cutoff (no_generation x) (no_created_at x)) names"

definition name_cluster :: "name_observation list \<Rightarrow> identity_assignment list \<Rightarrow> contact_cluster \<Rightarrow> contact_cluster" where
  "name_cluster names assignments c =
     (case best_name (filter (\<lambda>x. \<exists>a \<in> set assignments. as_cluster a = cl_id c \<and> as_identity a = no_identity_id x) names) of
        None \<Rightarrow> c | Some x \<Rightarrow> c\<lparr>cl_name := Some (no_name x, no_id x)\<rparr>)"

definition resolution_metrics_of :: "(uuid \<times> conflict_code) list \<Rightarrow> (uuid \<times> uuid) list \<Rightarrow> resolution_metrics" where
  "resolution_metrics_of conflicts comps =
     \<lparr>rm_identities = length comps, rm_clusters = length (remdups (map snd comps)),
      rm_linked = length (filter (\<lambda>p. 1 < length (filter (\<lambda>q. snd q = snd p) comps)) comps),
      rm_conflicts = length (filter (\<lambda>n. n \<in> fst ` set comps) (remdups (map fst conflicts)))\<rparr>"

text \<open>The rows that resolve writes for a run.\<close>

record resolution_rows =
  rw_clusters :: "contact_cluster list"
  rw_assignments :: "identity_assignment list"
  rw_conflicts :: "resolution_conflict list"
  rw_metrics :: resolution_metrics

definition resolution_conflicts :: "string \<Rightarrow> nat \<Rightarrow> timestamp \<Rightarrow> contact_db \<Rightarrow> (uuid \<times> conflict_code) list" where
  "resolution_conflicts sid generation cutoff d =
     conflicted_identities sid (kd_identities d) (edge_candidates sid generation cutoff (kd_links d))"

definition resolution_edges :: "string \<Rightarrow> nat \<Rightarrow> timestamp \<Rightarrow> contact_db \<Rightarrow> (uuid \<times> uuid) list" where
  "resolution_edges sid generation cutoff d =
     eligible_edges (resolution_conflicts sid generation cutoff d) (edge_candidates sid generation cutoff (kd_links d))"

definition resolution_rows_of :: "string \<Rightarrow> uuid \<Rightarrow> nat \<Rightarrow> timestamp \<Rightarrow> contact_db \<Rightarrow> resolution_rows" where
  "resolution_rows_of sid rid generation cutoff d =
     (let conflicts = resolution_conflicts sid generation cutoff d;
          comps = components (resolution_edges sid generation cutoff d) (resolution_nodes sid cutoff (kd_identities d));
          clusters = new_clusters sid rid (kd_identities d) comps;
          assignments = new_assignments sid rid conflicts clusters comps in
      \<lparr>rw_clusters = map (name_cluster (eligible_names sid generation cutoff (kd_names d)) assignments) clusters,
       rw_assignments = assignments, rw_conflicts = new_conflicts sid rid assignments conflicts,
       rw_metrics = resolution_metrics_of conflicts comps\<rparr>)"

section \<open>Projection work\<close>

definition run_assignments :: "string \<Rightarrow> uuid \<Rightarrow> contact_db \<Rightarrow> identity_assignment list" where
  "run_assignments sid rid d = filter (\<lambda>a. as_session a = sid \<and> as_run a = rid) (kd_assignments d)"

definition run_clusters :: "string \<Rightarrow> uuid \<Rightarrow> contact_db \<Rightarrow> contact_cluster list" where
  "run_clusters sid rid d = filter (\<lambda>c. cl_session c = sid \<and> cl_run c = rid) (kd_clusters d)"

text \<open>ORDER BY completed_at DESC, id DESC LIMIT 1 of the completed runs of a session.\<close>

definition latest_run :: "string \<Rightarrow> (resolution_run \<Rightarrow> bool) \<Rightarrow> resolution_run table \<Rightarrow> resolution_run option" where
  "latest_run sid P runs = (case rev (sort_key (\<lambda>r. (coalesce (rr_completed_at r) 0, rr_id r))
       (filter (\<lambda>r. rr_session r = sid \<and> rr_status r = RR_COMPLETED \<and> P r) runs)) of [] \<Rightarrow> None | r # _ \<Rightarrow> Some r)"

definition same_assignment :: "identity_assignment \<Rightarrow> identity_assignment \<Rightarrow> bool" where
  "same_assignment a b \<longleftrightarrow> as_identity a = as_identity b \<and> as_cluster a = as_cluster b
     \<and> as_status a = as_status b \<and> as_phone a = as_phone b"

definition same_cluster :: "contact_cluster \<Rightarrow> contact_cluster \<Rightarrow> bool" where
  "same_cluster a b \<longleftrightarrow> cl_id a = cl_id b \<and> cl_phone a = cl_phone b \<and> cl_count a = cl_count b
     \<and> map_option fst (cl_name a) = map_option fst (cl_name b)"

text \<open>The identities whose projection the new run changes, compared with the run completed before it.\<close>

definition affected_identities :: "string \<Rightarrow> uuid \<Rightarrow> contact_db \<Rightarrow> uuid list" where
  "affected_identities sid rid d =
     (let current = run_assignments sid rid d; clusters = run_clusters sid rid d;
          (previous, previous_clusters) = (case latest_run sid (\<lambda>r. rr_id r \<noteq> rid) (kd_runs d) of None \<Rightarrow> ([], [])
            | Some r \<Rightarrow> (run_assignments sid (rr_id r) d, run_clusters sid (rr_id r) d));
          changed = map as_identity (filter (\<lambda>a. \<not> (\<exists>p \<in> set previous. same_assignment p a)) current)
            @ map as_identity (filter (\<lambda>p. as_identity p \<notin> as_identity ` set current) previous);
          canonical = (\<lambda>n. case find_by as_identity n current of None \<Rightarrow> n | Some a \<Rightarrow> as_cluster a) in
      sort (remdups (map canonical changed
        @ map cl_id (filter (\<lambda>c. \<not> (\<exists>p \<in> set previous_clusters. same_cluster p c)) clusters))))"

definition work_key :: "projection_work \<Rightarrow> string \<times> uuid" where
  "work_key w = (pw_session w, pw_identity w)"

definition new_projection_work :: "string \<Rightarrow> uuid \<Rightarrow> nat \<Rightarrow> timestamp \<Rightarrow> projection_work" where
  "new_projection_work sid n revision now = \<lparr>pw_session = sid, pw_identity = n, pw_requested_revision = revision,
     pw_completed_revision = 0, pw_requested_cutoff = now, pw_status = P_PENDING, pw_active_revision = None, pw_active_cutoff = None,
     pw_active_run = None, pw_cursor = None, pw_attempt_count = 0, pw_next_attempt_at = now, pw_lease_token = None,
     pw_lease_expires_at = None, pw_first_requested_at = now, pw_last_requested_at = now, pw_completed_at = None,
     pw_failed_at = None,
     pw_error = None, pw_updated_at = now\<rparr>"

text \<open>Work that has begun keeps the revision it is at; the new request comes after it.\<close>

definition request_work_row :: "string \<Rightarrow> uuid \<Rightarrow> nat \<Rightarrow> timestamp \<Rightarrow> projection_work row_update" where
  "request_work_row sid n revision now = sql_where (\<lambda>w. work_key w = (sid, n))
     (\<lambda>w. let keep = pw_status w \<in> {P_RUNNING, P_RETRY} \<and> pw_active_revision w \<noteq> None in
        w\<lparr>pw_requested_revision := revision, pw_requested_cutoff := now,
          pw_first_requested_at := (if pw_status w \<in> {P_IDLE, P_FAILED} then now else pw_first_requested_at w),
          pw_last_requested_at := now, pw_status := (if keep then pw_status w else P_PENDING),
          pw_active_revision := (if keep then pw_active_revision w else None),
          pw_active_cutoff := (if keep then pw_active_cutoff w else None),
          pw_active_run := (if keep then pw_active_run w else None),
          pw_cursor := (if keep then pw_cursor w else None),
          pw_attempt_count := (if keep then pw_attempt_count w else 0),
          pw_next_attempt_at := now, pw_failed_at := None, pw_error := None, pw_updated_at := now\<rparr>)"

definition retire_alias_row :: "string \<Rightarrow> uuid list \<Rightarrow> timestamp \<Rightarrow> projection_work row_update" where
  "retire_alias_row sid aliases now = sql_where
     (\<lambda>w. pw_session w = sid \<and> pw_identity w \<in> set aliases \<and> pw_status w \<in> {P_PENDING, P_RETRY, P_FAILED})
     (\<lambda>w. w\<lparr>pw_status := P_IDLE, pw_active_revision := None, pw_active_cutoff := None, pw_active_run := None,
        pw_cursor := None, pw_lease_token := None, pw_lease_expires_at := None, pw_failed_at := None,
        pw_error := None, pw_updated_at := now\<rparr>)"

definition request_work :: "string \<Rightarrow> timestamp \<Rightarrow> uuid \<Rightarrow> contact_db \<Rightarrow> contact_db" where
  "request_work sid now n d = (let revision = kd_revision_seq d + 1 in
     d\<lparr>kd_revision_seq := revision,
       kd_work := (if (sid, n) \<in> work_key ` set (kd_work d)
         then sql_update (request_work_row sid n revision now) (kd_work d)
         else kd_work d @ [new_projection_work sid n revision now])\<rparr>)"

text \<open>
  contact-projection.enqueue.ts: an identity that the latest run resolved is projected as its cluster. The
  requests and the retired aliases are of one statement; no row is in both, as the cluster of a cluster is
  itself.
\<close>

definition projected_as :: "string \<Rightarrow> contact_db \<Rightarrow> uuid \<Rightarrow> uuid" where
  "projected_as sid d n = (case latest_run sid (\<lambda>_. True) (kd_runs d) of None \<Rightarrow> n
     | Some r \<Rightarrow> (case find_by as_identity n (run_assignments sid (rr_id r) d) of None \<Rightarrow> n
        | Some a \<Rightarrow> if as_status a = RESOLVED then as_cluster a else n))"

definition enqueue_projection :: "string \<Rightarrow> uuid list \<Rightarrow> timestamp \<Rightarrow> contact_db \<Rightarrow> contact_db" where
  "enqueue_projection sid ns now d =
     (let sources = filter (known_identity sid (kd_identities d)) (remdups ns);
          aliases = filter (\<lambda>n. projected_as sid d n \<noteq> n) sources;
          d1 = d\<lparr>kd_work := sql_update (retire_alias_row sid aliases now) (kd_work d)\<rparr> in
      if ns = [] then d else fold (request_work sid now) (remdups (map (projected_as sid d) sources)) d1)"

section \<open>resolve\<close>

definition resolution_owned :: "resolution_claim \<Rightarrow> timestamp \<Rightarrow> resolution_run \<Rightarrow> bool" where
  "resolution_owned k now r \<longleftrightarrow> run_key r = (rk_session k, rk_run k) \<and> rr_status r = RR_RUNNING
     \<and> rr_lease_token r = Some (rk_token k) \<and> null_after (rr_lease_expires_at r) now"

definition complete_resolution_row :: "resolution_claim \<Rightarrow> resolution_metrics \<Rightarrow> timestamp \<Rightarrow> resolution_run row_update" where
  "complete_resolution_row k m clock = sql_where
     (\<lambda>r. run_key r = (rk_session k, rk_run k) \<and> rr_lease_token r = Some (rk_token k))
     (\<lambda>r. r\<lparr>rr_status := RR_COMPLETED, rr_metrics := Some m, rr_completed_at := Some clock, rr_failed_at := None,
        rr_error := None, rr_lease_token := None, rr_lease_expires_at := None, rr_updated_at := clock\<rparr>)"

text \<open>Deleting a cluster deletes its assignments, and with them their conflicts.\<close>

definition store_resolution :: "string \<Rightarrow> uuid \<Rightarrow> resolution_rows \<Rightarrow> contact_db \<Rightarrow> contact_db" where
  "store_resolution sid rid rows d =
     d\<lparr>kd_clusters := sql_delete (\<lambda>c. cl_session c = sid \<and> cl_run c = rid) (kd_clusters d) @ rw_clusters rows,
       kd_assignments := sql_delete (\<lambda>a. as_session a = sid \<and> as_run a = rid) (kd_assignments d) @ rw_assignments rows,
       kd_conflicts := sql_delete (\<lambda>x. cf_session x = sid \<and> cf_run x = rid) (kd_conflicts d) @ rw_conflicts rows\<rparr>"

definition resolve ::
  "bool \<Rightarrow> resolution_claim \<Rightarrow> timestamp \<Rightarrow> timestamp \<Rightarrow> contact_db \<Rightarrow> string + contact_db \<times> resolution_metrics" where
  "resolve projection k now clock d =
     (case List.find (resolution_owned k now) (kd_runs d) of
        None \<Rightarrow> Inl ''Contact resolution lost ownership''
      | Some r \<Rightarrow>
          (let sid = rk_session k; rid = rk_run k;
               rows = resolution_rows_of sid rid (rr_generation r) (rr_cutoff r) d; m = rw_metrics rows;
               d1 = store_resolution sid rid rows d; complete = complete_resolution_row k m clock;
               d2 = d1\<lparr>kd_runs := sql_update complete (kd_runs d1)\<rparr> in
           if sql_returning complete (kd_runs d1) = [] then Inl ''Contact resolution lost completion ownership''
           else Inr (if projection then enqueue_projection sid (affected_identities sid rid d2) now d2 else d2, m)))"

section \<open>The tick\<close>

text \<open>
  One round of the loop of contact-resolution.tick.ts: a claim, then resolve or, if it throws, fail; the times
  and the token of a round are parameters.
\<close>

datatype resolution_round = NothingToClaim | RunResolved resolution_metrics | RunFailed string

definition resolution_round_step ::
  "bool \<Rightarrow> string list option \<Rightarrow> uuid \<Rightarrow> (nat \<Rightarrow> timestamp) \<Rightarrow> contact_db \<Rightarrow> contact_db \<times> resolution_round" where
  "resolution_round_step projection allowed t clock d =
     (case claim_resolution allowed t (clock 0) d of
        (d1, None) \<Rightarrow> (d1, NothingToClaim)
      | (d1, Some k) \<Rightarrow> (case resolve projection k (clock 1) (clock 2) d1 of
          Inr (d2, m) \<Rightarrow> (d2, RunResolved m)
        | Inl e \<Rightarrow> (fail_resolution k (clock 3) d1, RunFailed e)))"

fun resolution_tick ::
  "bool \<Rightarrow> string list option \<Rightarrow> (uuid \<times> (nat \<Rightarrow> timestamp)) list \<Rightarrow> contact_db \<Rightarrow> contact_db \<times> string option" where
  "resolution_tick projection allowed [] d = (d, None)"
| "resolution_tick projection allowed ((t, clock) # rounds) d =
     (case resolution_round_step projection allowed t clock d of
        (d1, NothingToClaim) \<Rightarrow> (d1, None)
      | (d1, RunResolved m) \<Rightarrow> resolution_tick projection allowed rounds d1
      | (d1, RunFailed e) \<Rightarrow> (d1, Some e))"

section \<open>What a resolution is\<close>

lemma known_identity_iff: "known_identity sid identities n \<longleftrightarrow> n \<in> ob_id ` {i \<in> set identities. ob_session i = sid}"
  by (auto simp: known_identity_def)

lemma nodes_known: "n \<in> set (resolution_nodes sid cutoff identities) \<Longrightarrow> known_identity sid identities n"
  by (auto simp: resolution_nodes_def known_identity_def)

lemma distinct_components: "distinct (map fst (components es nodes))"
  by (simp add: components_def Let_def comp_def)

lemma new_clusters_ids:
  "distinct (map cl_id (new_clusters sid rid identities comps))"
  "cl_id ` set (new_clusters sid rid identities comps) = {k. \<exists>n. (n, k) \<in> set comps \<and> known_identity sid identities n}"
  by (force simp: new_clusters_def comp_def Let_def image_image)+

lemma filter_keyed:
  assumes "distinct (map key rows)" "c \<in> set rows"
  shows "filter (\<lambda>x. key x = key c) rows = [c]"
  using assms by (induction rows) (auto simp: filter_empty_conv image_iff)

lemma filter_key_single:
  assumes "distinct (map key rows)"
  shows "filter (\<lambda>x. key x = k) rows = [] \<or> (\<exists>c \<in> set rows. key c = k \<and> filter (\<lambda>x. key x = k) rows = [c])"
proof (cases "\<exists>c \<in> set rows. key c = k")
  case True
  then obtain c where "c \<in> set rows" "key c = k" by blast
  then show ?thesis using filter_keyed [OF assms] by blast
qed (auto simp: filter_empty_conv)

text \<open>The assignments are the components of the identities, one row each.\<close>

lemma assignment_of_simps [simp]:
  "as_session (assignment_of sid rid conflicts n c) = sid" "as_run (assignment_of sid rid conflicts n c) = rid"
  "as_identity (assignment_of sid rid conflicts n c) = n" "as_cluster (assignment_of sid rid conflicts n c) = cl_id c"
  by (simp_all add: assignment_of_def Let_def)

lemma set_new_assignments:
  "a \<in> set (new_assignments sid rid conflicts clusters comps) \<longleftrightarrow>
     (\<exists>n c. (n, cl_id c) \<in> set comps \<and> c \<in> set clusters \<and> a = assignment_of sid rid conflicts n c)"
  by (auto simp: new_assignments_def)

lemma distinct_new_assignments:
  assumes "distinct (map cl_id clusters)" "distinct (map fst comps)"
  shows "distinct (map as_identity (new_assignments sid rid conflicts clusters comps))"
  using assms(2)
proof (induction comps)
  case (Cons p comps)
  obtain n k where p: "p = (n, k)" by fastforce
  let ?rest = "new_assignments sid rid conflicts clusters comps"
  have rest: "as_identity ` set ?rest \<subseteq> fst ` set comps"
  proof
    fix x
    assume "x \<in> as_identity ` set ?rest"
    then obtain a where "a \<in> set ?rest" "x = as_identity a" by blast
    then show "x \<in> fst ` set comps" unfolding set_new_assignments by force
  qed
  have split: "new_assignments sid rid conflicts clusters (p # comps) =
      map (assignment_of sid rid conflicts n) (filter (\<lambda>c. cl_id c = k) clusters) @ ?rest"
    by (simp add: new_assignments_def p)
  from filter_key_single [OF assms(1), of k] show ?case
    using Cons.IH Cons.prems rest p unfolding split by (auto simp: comp_def)
qed (simp add: new_assignments_def)

lemma enqueue_projection_frame:
  "kd_assignments (enqueue_projection sid ns now d) = kd_assignments d"
  "kd_identities (enqueue_projection sid ns now d) = kd_identities d"
  "kd_clusters (enqueue_projection sid ns now d) = kd_clusters d"
  "kd_runs (enqueue_projection sid ns now d) = kd_runs d"
proof -
  have req: "kd_assignments (fold (request_work sid now) xs e) = kd_assignments e
      \<and> kd_identities (fold (request_work sid now) xs e) = kd_identities e
      \<and> kd_clusters (fold (request_work sid now) xs e) = kd_clusters e
      \<and> kd_runs (fold (request_work sid now) xs e) = kd_runs e" for xs e
    by (induction xs arbitrary: e) (simp_all add: request_work_def Let_def)
  show "kd_assignments (enqueue_projection sid ns now d) = kd_assignments d"
    "kd_identities (enqueue_projection sid ns now d) = kd_identities d"
    "kd_clusters (enqueue_projection sid ns now d) = kd_clusters d"
    "kd_runs (enqueue_projection sid ns now d) = kd_runs d"
    by (simp_all add: enqueue_projection_def Let_def req)
qed

lemma resolve_rows:
  assumes "resolve projection k now clock d = Inr (d', m)"
  obtains r where "r \<in> set (kd_runs d)" "resolution_owned k now r"
    "run_assignments (rk_session k) (rk_run k) d' =
      rw_assignments (resolution_rows_of (rk_session k) (rk_run k) (rr_generation r) (rr_cutoff r) d)"
    "kd_identities d' = kd_identities d"
    "List.find (resolution_owned k now) (kd_runs d) = Some r"
proof -
  obtain r where r: "List.find (resolution_owned k now) (kd_runs d) = Some r"
    using assms by (auto simp: resolve_def split: option.splits)
  then have mem: "r \<in> set (kd_runs d)" "resolution_owned k now r" by (auto simp: find_Some_iff)
  let ?rows = "resolution_rows_of (rk_session k) (rk_run k) (rr_generation r) (rr_cutoff r) d"
  have "kd_assignments d' = sql_delete (\<lambda>a. as_session a = rk_session k \<and> as_run a = rk_run k) (kd_assignments d)
      @ rw_assignments ?rows" "kd_identities d' = kd_identities d"
    using assms r by (auto simp: resolve_def store_resolution_def enqueue_projection_frame Let_def split: if_splits)
  moreover have "a \<in> set (rw_assignments ?rows) \<Longrightarrow> as_session a = rk_session k \<and> as_run a = rk_run k" for a
    by (auto simp: resolution_rows_of_def set_new_assignments Let_def)
  ultimately have "run_assignments (rk_session k) (rk_run k) d' = rw_assignments ?rows"
    by (simp add: run_assignments_def sql_delete_def)
  then show thesis using that mem r \<open>kd_identities d' = _\<close> by blast
qed

text \<open>The connection by eligible evidence.\<close>

definition linked :: "string \<Rightarrow> resolution_run \<Rightarrow> contact_db \<Rightarrow> uuid \<Rightarrow> uuid \<Rightarrow> bool" where
  "linked sid r d a b \<longleftrightarrow> (a, b) \<in> (set (undirected (resolution_edges sid (rr_generation r) (rr_cutoff r) d)))\<^sup>*"

lemma linked_sym: "linked sid r d a b \<Longrightarrow> linked sid r d b a"
  unfolding linked_def by (rule undirected_sym)

lemma linked_trans: "linked sid r d a b \<Longrightarrow> linked sid r d b c \<Longrightarrow> linked sid r d a c"
  unfolding linked_def by (rule rtrancl_trans)

lemma nodes_assigned:
  assumes "resolve projection k now clock d = Inr (d', m)"
    and "List.find (resolution_owned k now) (kd_runs d) = Some r"
    and A: "A = run_assignments (rk_session k) (rk_run k) d'"
    and N: "N = set (resolution_nodes (rk_session k) (rr_cutoff r) (kd_identities d))" and n: "n \<in> N"
  shows "n \<in> as_identity ` set A"
proof -
  let ?sid = "rk_session k" and ?rid = "rk_run k"
  let ?es = "resolution_edges ?sid (rr_generation r) (rr_cutoff r) d"
  let ?nodes = "resolution_nodes ?sid (rr_cutoff r) (kd_identities d)"
  let ?comps = "components ?es ?nodes"
  let ?clusters = "new_clusters ?sid ?rid (kd_identities d) ?comps"
  let ?conflicts = "resolution_conflicts ?sid (rr_generation r) (rr_cutoff r) d"
  have A': "A = new_assignments ?sid ?rid ?conflicts ?clusters ?comps"
    using resolve_rows [OF assms(1)] assms(2) A by (auto simp: resolution_rows_of_def Let_def)
  have comps: "(x, c) \<in> set ?comps \<longleftrightarrow> (\<exists>n \<in> N. linked ?sid r d n x) \<and> c = Min {n \<in> N. linked ?sid r d n x}" for x c
    unfolding components_iff linked_def N ..
  let ?cid = "Min {m \<in> N. linked ?sid r d m n}"
  have "linked ?sid r d n n" by (simp add: linked_def)
  then have k: "(n, ?cid) \<in> set ?comps" unfolding comps using n by blast
  moreover have "known_identity ?sid (kd_identities d) n" using nodes_known n unfolding N by blast
  ultimately have "?cid \<in> cl_id ` set ?clusters" unfolding new_clusters_ids(2) by blast
  then obtain c where c: "?cid = cl_id c" "c \<in> set ?clusters" by (rule imageE)
  have "(n, cl_id c) \<in> set ?comps" using k unfolding c(1) .
  then have "assignment_of ?sid ?rid ?conflicts n c \<in> set A"
    unfolding A' set_new_assignments using c(2) by blast
  then show ?thesis by (rule rev_image_eqI) simp
qed

text \<open>C15: A resolution partitions the identities of its session by the evidence. Every identity that was first
  observed by the cutoff has exactly one assignment; two assigned identities are in the same cluster exactly
  when a chain of eligible links connects them; and the cluster is named by the least of its identities that
  was observed by the cutoff.
\<close>

theorem resolution_partitions:
  assumes "resolve projection k now clock d = Inr (d', m)"
    and "List.find (resolution_owned k now) (kd_runs d) = Some r"
    and A: "A = run_assignments (rk_session k) (rk_run k) d'"
    and N: "N = set (resolution_nodes (rk_session k) (rr_cutoff r) (kd_identities d))"
  shows "distinct (map as_identity A) \<and> N \<subseteq> as_identity ` set A
    \<and> (\<forall>a \<in> set A. as_cluster a = Min {n \<in> N. linked (rk_session k) r d n (as_identity a)})
    \<and> (\<forall>a \<in> set A. \<forall>b \<in> set A. as_cluster a = as_cluster b \<longleftrightarrow> linked (rk_session k) r d (as_identity a) (as_identity b))"
proof -
  let ?sid = "rk_session k" and ?rid = "rk_run k"
  let ?es = "resolution_edges ?sid (rr_generation r) (rr_cutoff r) d"
  let ?nodes = "resolution_nodes ?sid (rr_cutoff r) (kd_identities d)"
  let ?comps = "components ?es ?nodes"
  let ?clusters = "new_clusters ?sid ?rid (kd_identities d) ?comps"
  let ?conflicts = "resolution_conflicts ?sid (rr_generation r) (rr_cutoff r) d"
  have A': "A = new_assignments ?sid ?rid ?conflicts ?clusters ?comps"
    using resolve_rows [OF assms(1)] assms(2) A by (auto simp: resolution_rows_of_def Let_def)
  have fin: "finite {n \<in> N. linked ?sid r d n x}" for x unfolding N by simp
  have comps: "(x, c) \<in> set ?comps \<longleftrightarrow> (\<exists>n \<in> N. linked ?sid r d n x) \<and> c = Min {n \<in> N. linked ?sid r d n x}" for x c
    unfolding components_iff linked_def N ..
  have comp: "(as_identity a, as_cluster a) \<in> set ?comps" if "a \<in> set A" for a
    using that unfolding A' set_new_assignments by auto
  have own: "n \<in> as_identity ` set A" if "n \<in> N" for n by (rule nodes_assigned [OF assms that])
  have cluster: "as_cluster a = Min {n \<in> N. linked ?sid r d n (as_identity a)}" if "a \<in> set A" for a
    using comp [OF that] unfolding comps by blast
  have same: "as_cluster a = as_cluster b \<longleftrightarrow> linked ?sid r d (as_identity a) (as_identity b)"
    if ab: "a \<in> set A" "b \<in> set A" for a b
  proof
    have root: "linked ?sid r d (as_cluster x) (as_identity x)" if x: "x \<in> set A" for x
    proof -
      have "{n \<in> N. linked ?sid r d n (as_identity x)} \<noteq> {}" using comp [OF x] unfolding comps by blast
      then have "as_cluster x \<in> {n \<in> N. linked ?sid r d n (as_identity x)}"
        unfolding cluster [OF x] using Min_in [OF fin] by blast
      then show ?thesis by simp
    qed
    assume "as_cluster a = as_cluster b"
    then have "linked ?sid r d (as_cluster a) (as_identity b)" using root [OF ab(2)] by simp
    then show "linked ?sid r d (as_identity a) (as_identity b)"
      using linked_trans [OF linked_sym [OF root [OF ab(1)]]] by blast
  next
    assume "linked ?sid r d (as_identity a) (as_identity b)"
    then have "{n \<in> N. linked ?sid r d n (as_identity a)} = {n \<in> N. linked ?sid r d n (as_identity b)}"
      using linked_sym linked_trans by blast
    then show "as_cluster a = as_cluster b" using cluster ab by simp
  qed
  show ?thesis
    using distinct_new_assignments [OF new_clusters_ids(1) distinct_components] own cluster same unfolding A' by blast
qed

lemma several_iff: "several xs \<longleftrightarrow> (\<exists>x \<in> set xs. \<exists>y \<in> set xs. x \<noteq> y)"
proof -
  have "several xs \<longleftrightarrow> \<not> card (set xs) \<le> Suc 0" by (auto simp: several_def length_remdups_card_conv)
  also have "\<dots> \<longleftrightarrow> (\<exists>x \<in> set xs. \<exists>y \<in> set xs. x \<noteq> y)" by (auto simp: card_le_Suc0_iff_eq)
  finally show ?thesis .
qed

lemma link_targets_iff: "r \<in> set (link_targets cs l) \<longleftrightarrow> (\<exists>s. (l, r, s) \<in> set cs)"
  by (force simp: link_targets_def)

lemma multiple_targets_iff:
  "l \<in> set (multiple_targets cs) \<longleftrightarrow> (\<exists>r r' s s'. (l, r, s) \<in> set cs \<and> (l, r', s') \<in> set cs \<and> r \<noteq> r')"
proof -
  have "several (link_targets cs l) \<longleftrightarrow> (\<exists>r r' s s'. (l, r, s) \<in> set cs \<and> (l, r', s') \<in> set cs \<and> r \<noteq> r')"
    unfolding several_iff Bex_def link_targets_iff by blast
  moreover have "(l, r, s) \<in> set cs \<Longrightarrow> l \<in> set (map fst cs)" for r s by force
  ultimately show ?thesis unfolding multiple_targets_def by auto
qed

lemma phone_claimants_iff:
  "l \<in> set (phone_claimants sid identities cs r) \<longleftrightarrow> (l, r, OPENWA_CONTACT_PHONE) \<in> set cs
     \<and> known_identity sid identities l \<and> \<not> phone_jids sid identities l"
  by (force simp: phone_claimants_def)

lemma shared_phone_iff:
  "shared_phone sid identities cs r \<longleftrightarrow> (\<exists>l l'. (l, r, OPENWA_CONTACT_PHONE) \<in> set cs \<and> (l', r, OPENWA_CONTACT_PHONE) \<in> set cs
     \<and> known_identity sid identities l \<and> \<not> phone_jids sid identities l
     \<and> known_identity sid identities l' \<and> \<not> phone_jids sid identities l' \<and> l \<noteq> l')"
  unfolding shared_phone_def several_iff Bex_def phone_claimants_iff by blast

lemma shared_aliases_iff:
  "l \<in> set (shared_aliases sid identities cs) \<longleftrightarrow>
     (\<exists>r. (l, r, OPENWA_CONTACT_PHONE) \<in> set cs \<and> shared_phone sid identities cs r)"
  by (force simp: shared_aliases_def)

lemma conflicted_iff:
  "l \<in> fst ` set (conflicted_identities sid identities cs) \<longleftrightarrow>
     l \<in> set (multiple_targets cs) \<or> l \<in> set (shared_aliases sid identities cs)"
  by (simp add: conflicted_identities_def image_Un image_image)

text \<open>Contradictory evidence links nothing. A link that rests on a contact's phone number alone is the only
  target of its identity, and no other identity but phone identities claims the same number.
\<close>

theorem contradictory_evidence_links_nothing:
  assumes edge: "(l, r) \<in> set (resolution_edges sid generation cutoff d)"
    and cs: "cs = edge_candidates sid generation cutoff (kd_links d)"
    and alone: "(l, r, PHONE_JID_DERIVATION) \<notin> set cs"
  shows "(l, r, OPENWA_CONTACT_PHONE) \<in> set cs \<and> (\<forall>r' s. (l, r', s) \<in> set cs \<longrightarrow> r' = r)
    \<and> (\<forall>l'. (l', r, OPENWA_CONTACT_PHONE) \<in> set cs \<and> known_identity sid (kd_identities d) l'
        \<and> \<not> phone_jids sid (kd_identities d) l' \<and> known_identity sid (kd_identities d) l
        \<and> \<not> phone_jids sid (kd_identities d) l \<longrightarrow> l' = l)"
proof -
  obtain s where c: "(l, r, s) \<in> set cs" "s = PHONE_JID_DERIVATION \<or> l \<notin> fst ` set (resolution_conflicts sid generation cutoff d)"
    using edge by (auto simp: resolution_edges_def eligible_edges_def cs)
  then have s: "s = OPENWA_CONTACT_PHONE" and clean: "l \<notin> fst ` set (resolution_conflicts sid generation cutoff d)"
    using alone by (cases s; auto)+
  have one: "r' = r" if "(l, r', s') \<in> set cs" for r' s'
    using clean c(1) that by (auto simp: resolution_conflicts_def conflicted_iff multiple_targets_iff cs [symmetric])
  have "\<not> shared_phone sid (kd_identities d) cs r"
    using clean c(1) s by (auto simp: resolution_conflicts_def conflicted_iff shared_aliases_iff cs [symmetric])
  then show ?thesis using c(1) s one unfolding shared_phone_iff by blast
qed

text \<open>An assignment belongs to the cluster of the component of its identity.\<close>

lemma assigned:
  assumes "resolve projection k now clock d = Inr (d', m)"
    and "List.find (resolution_owned k now) (kd_runs d) = Some r"
    and "A = run_assignments (rk_session k) (rk_run k) d'" and "a \<in> set A"
  obtains comps clusters conflicts c where
    "comps = components (resolution_edges (rk_session k) (rr_generation r) (rr_cutoff r) d)
      (resolution_nodes (rk_session k) (rr_cutoff r) (kd_identities d))"
    "clusters = new_clusters (rk_session k) (rk_run k) (kd_identities d) comps"
    "conflicts = resolution_conflicts (rk_session k) (rr_generation r) (rr_cutoff r) d"
    "A = new_assignments (rk_session k) (rk_run k) conflicts clusters comps"
    "(as_identity a, cl_id c) \<in> set comps" "c \<in> set clusters"
    "a = assignment_of (rk_session k) (rk_run k) conflicts (as_identity a) c"
proof -
  let ?comps = "components (resolution_edges (rk_session k) (rr_generation r) (rr_cutoff r) d)
    (resolution_nodes (rk_session k) (rr_cutoff r) (kd_identities d))"
  let ?clusters = "new_clusters (rk_session k) (rk_run k) (kd_identities d) ?comps"
  let ?conflicts = "resolution_conflicts (rk_session k) (rr_generation r) (rr_cutoff r) d"
  have A: "A = new_assignments (rk_session k) (rk_run k) ?conflicts ?clusters ?comps"
    using resolve_rows [OF assms(1)] assms(2,3) by (auto simp: resolution_rows_of_def Let_def)
  obtain n c where nc: "(n, cl_id c) \<in> set ?comps" "c \<in> set ?clusters"
      "a = assignment_of (rk_session k) (rk_run k) ?conflicts n c"
    using assms(4) unfolding A set_new_assignments by (elim exE conjE) simp
  then have "as_identity a = n" by simp
  then show thesis using that [OF refl refl refl A] nc by simp
qed

lemma cluster_members:
  assumes "A = new_assignments sid rid conflicts clusters comps" "c \<in> set clusters"
  shows "(\<exists>b \<in> set A. as_identity b = n \<and> as_cluster b = cl_id c) \<longleftrightarrow> (n, cl_id c) \<in> set comps"
proof
  assume "\<exists>b \<in> set A. as_identity b = n \<and> as_cluster b = cl_id c"
  then obtain b where b: "b \<in> set A" "as_identity b = n" "as_cluster b = cl_id c" by blast
  from b(1) obtain n' c' where "b = assignment_of sid rid conflicts n' c'" "(n', cl_id c') \<in> set comps"
    unfolding assms(1) set_new_assignments by (elim exE conjE) simp
  with b(2,3) show "(n, cl_id c) \<in> set comps" by simp
next
  assume "(n, cl_id c) \<in> set comps"
  then have "assignment_of sid rid conflicts n c \<in> set A" unfolding assms(1) set_new_assignments using assms(2) by blast
  then show "\<exists>b \<in> set A. as_identity b = n \<and> as_cluster b = cl_id c" by (intro bexI) auto
qed

lemma cluster_phone:
  "c \<in> set (new_clusters sid rid identities comps)
    \<Longrightarrow> cl_phone c = agreed_phone (component_identities sid identities comps (cl_id c))"
  by (auto simp: new_clusters_def Let_def)

lemma agreed_phone_iff:
  "agreed_phone xs = Some p \<longleftrightarrow> ob_value ` {i \<in> set xs. ob_type i = PHONE} = {p}"
proof -
  let ?vs = "map ob_value (filter (\<lambda>i. ob_type i = PHONE) xs)"
  have "agreed_phone xs = Some p \<longleftrightarrow> remdups ?vs = [p]" by (auto simp: agreed_phone_def split: list.splits)
  also have "\<dots> \<longleftrightarrow> set ?vs = {p}"
  proof
    assume "set ?vs = {p}"
    then have "set (remdups ?vs) = {p}" "distinct (remdups ?vs)" by simp_all
    then show "remdups ?vs = [p]"
      by (cases "remdups ?vs") (auto simp: subset_singleton_iff insert_eq_iff dest: arg_cong [of _ _ set])
  qed (metis empty_set list.simps(15) set_remdups)
  finally show ?thesis by simp
qed

text \<open>C28: A phone number is given only where it is beyond doubt: an identity whose evidence is contradictory is
  quarantined and gets none, and the number of any other is the one phone number among the identities of
  its cluster.
\<close>

theorem resolved_phones_unambiguous:
  assumes "resolve projection k now clock d = Inr (d', m)"
    and "List.find (resolution_owned k now) (kd_runs d) = Some r"
    and A: "A = run_assignments (rk_session k) (rk_run k) d'" and a: "a \<in> set A"
  shows "(as_status a = QUARANTINED \<longleftrightarrow>
      as_identity a \<in> fst ` set (resolution_conflicts (rk_session k) (rr_generation r) (rr_cutoff r) d))
    \<and> (as_phone a = Some p \<longrightarrow> as_status a = RESOLVED
        \<and> {ob_value i |i. i \<in> set (kd_identities d) \<and> ob_session i = rk_session k \<and> ob_type i = PHONE
            \<and> (\<exists>b \<in> set A. as_identity b = ob_id i \<and> as_cluster b = as_cluster a)} = {p})"
proof -
  from assigned [OF assms] obtain comps clusters conflicts c where
    clusters: "clusters = new_clusters (rk_session k) (rk_run k) (kd_identities d) comps"
    and conflicts: "conflicts = resolution_conflicts (rk_session k) (rr_generation r) (rr_cutoff r) d"
    and A': "A = new_assignments (rk_session k) (rk_run k) conflicts clusters comps" and c: "c \<in> set clusters"
    and a': "a = assignment_of (rk_session k) (rk_run k) conflicts (as_identity a) c" by metis
  have "{ob_value i |i. i \<in> set (kd_identities d) \<and> ob_session i = rk_session k \<and> ob_type i = PHONE
      \<and> (\<exists>b \<in> set A. as_identity b = ob_id i \<and> as_cluster b = cl_id c)} = {p}" if "cl_phone c = Some p"
    using that unfolding cluster_members [OF A' c] cluster_phone [OF c [unfolded clusters]] agreed_phone_iff
    by (auto simp: component_identities_def)
  moreover have "as_phone a = Some p \<Longrightarrow> cl_phone c = Some p \<and> as_status a = RESOLVED"
      "as_status a = QUARANTINED \<longleftrightarrow> as_identity a \<in> fst ` set conflicts" "as_cluster a = cl_id c"
    by (subst (asm) a', simp add: assignment_of_def Let_def split: if_splits)
      (subst a', simp add: assignment_of_def Let_def split: if_splits)+
  ultimately show ?thesis unfolding conflicts by simp
qed

section \<open>A sample\<close>

text \<open>A LID and a phone number that the snapshot links, and another LID that claims two numbers.\<close>

definition sample_identity :: "uuid \<Rightarrow> identity_type \<Rightarrow> string \<Rightarrow> observed_identity" where
  "sample_identity n typ val = \<lparr>ob_session = ''s1'', ob_id = n, ob_type = typ, ob_value = val, ob_first_observed_at = 1,
     ob_last_observed_at = 1\<rparr>"

definition sample_link :: "uuid \<Rightarrow> uuid \<Rightarrow> link_evidence" where
  "sample_link l r = \<lparr>le_session = ''s1'', le_left = l, le_right = r, le_source = OPENWA_CONTACT_PHONE,
     le_generation = Some 1, le_observed_at = 2, le_key = r, le_created_at = 2\<rparr>"

definition sample_resolution_run :: resolution_run where
  "sample_resolution_run = \<lparr>rr_session = ''s1'', rr_id = ''r1'', rr_generation = 1, rr_cutoff = 5, rr_status = RR_RUNNING,
     rr_attempt_count = 1, rr_next_attempt_at = 5, rr_lease_token = Some ''t1'', rr_lease_expires_at = Some 1000,
     rr_metrics = None, rr_started_at = Some 6, rr_completed_at = None, rr_failed_at = None, rr_error = None,
     rr_created_at = 5, rr_updated_at = 6\<rparr>"

definition contact_sample :: contact_db where
  "contact_sample = \<lparr>kd_identities = [sample_identity ''a'' LID ''1'', sample_identity ''b'' PHONE ''49'',
       sample_identity ''c'' PHONE ''50'', sample_identity ''d'' LID ''2'', sample_identity ''e'' PHONE ''51''],
     kd_links = [sample_link ''a'' ''b'', sample_link ''d'' ''c'', sample_link ''d'' ''e''],
     kd_names = [], kd_generations = [], kd_runs = [sample_resolution_run], kd_clusters = [], kd_assignments = [],
     kd_conflicts = [], kd_work = [], kd_revision_seq = 0\<rparr>"

definition sample_claim :: resolution_claim where
  "sample_claim = \<lparr>rk_session = ''s1'', rk_run = ''r1'', rk_token = ''t1''\<rparr>"

lemma sample_find: "List.find (resolution_owned sample_claim 10) (kd_runs contact_sample) = Some sample_resolution_run"
  by (simp add: contact_sample_def resolution_owned_def run_key_def sample_claim_def sample_resolution_run_def)

lemma sample_resolves: "\<exists>d' m. resolve False sample_claim 10 11 contact_sample = Inr (d', m)"
  unfolding resolve_def sample_find option.case Let_def
  by (simp add: contact_sample_def complete_resolution_row_def store_resolution_def sample_claim_def run_key_def
    sample_resolution_run_def sql_where_def)

lemma sample_candidates: "edge_candidates ''s1'' 1 5 (kd_links contact_sample) =
    [(''a'', ''b'', OPENWA_CONTACT_PHONE), (''d'', ''c'', OPENWA_CONTACT_PHONE), (''d'', ''e'', OPENWA_CONTACT_PHONE)]"
  by (simp add: edge_candidates_def contact_sample_def sample_link_def within_cutoff_def)

lemma sample_conflicts: "resolution_conflicts ''s1'' 1 5 contact_sample = [(''d'', MULTIPLE_PHONE_TARGETS)]"
  unfolding resolution_conflicts_def sample_candidates
  by (simp add: conflicted_identities_def multiple_targets_def link_targets_def shared_aliases_def shared_phone_def
    phone_claimants_def several_def)

lemma sample_edges: "resolution_edges ''s1'' 1 5 contact_sample = [(''a'', ''b'')]"
  unfolding resolution_edges_def sample_candidates sample_conflicts by (simp add: eligible_edges_def)

lemma sample_nodes: "set (resolution_nodes ''s1'' 5 (kd_identities contact_sample)) = {''a'', ''b'', ''c'', ''d'', ''e''}"
  by (simp add: resolution_nodes_def contact_sample_def sample_identity_def)

lemma sample_fields [simp]:
  "rk_session sample_claim = ''s1''" "rk_run sample_claim = ''r1''" "rr_generation sample_resolution_run = 1"
  "rr_cutoff sample_resolution_run = 5"
  by (simp_all add: sample_claim_def sample_resolution_run_def)

lemma contradictory_evidence_links_nothing_witness:
  "(''a'', ''b'', OPENWA_CONTACT_PHONE) \<in> set (edge_candidates ''s1'' 1 5 (kd_links contact_sample))"
proof -
  have "(''a'', ''b'') \<in> set (resolution_edges ''s1'' 1 5 contact_sample)" unfolding sample_edges by simp
  then have "\<exists>src. (''a'', ''b'', src) \<in> set (edge_candidates ''s1'' 1 5 (kd_links contact_sample))"
    using contradictory_evidence_links_nothing [of "''a''" "''b''" "''s1''" 1 5 contact_sample, OF _ refl] by blast
  then show ?thesis unfolding sample_candidates by simp
qed

lemma resolution_partitions_witness:
  "\<exists>d' m. resolve False sample_claim 10 11 contact_sample = Inr (d', m)
     \<and> ''d'' \<in> as_identity ` set (run_assignments ''s1'' ''r1'' d')"
proof -
  obtain d' m where res: "resolve False sample_claim 10 11 contact_sample = Inr (d', m)" using sample_resolves by blast
  have "set (resolution_nodes ''s1'' 5 (kd_identities contact_sample)) \<subseteq> as_identity ` set (run_assignments ''s1'' ''r1'' d')"
    using resolution_partitions [OF res sample_find refl refl] by simp
  then show ?thesis using res unfolding sample_nodes by blast
qed

lemma resolved_phones_unambiguous_witness:
  "\<exists>d' m. resolve False sample_claim 10 11 contact_sample = Inr (d', m)
     \<and> (\<exists>a \<in> set (run_assignments ''s1'' ''r1'' d'). as_identity a = ''d'' \<and> as_status a = QUARANTINED)"
proof -
  obtain d' m where res: "resolve False sample_claim 10 11 contact_sample = Inr (d', m)" using sample_resolves by blast
  have "''d'' \<in> as_identity ` set (run_assignments ''s1'' ''r1'' d')"
    using nodes_assigned [OF res sample_find refl refl] sample_nodes by simp
  then obtain a where a: "a \<in> set (run_assignments ''s1'' ''r1'' d')" "as_identity a = ''d''" by auto
  have "as_status a = QUARANTINED"
    using resolved_phones_unambiguous [OF res sample_find refl, simplified sample_fields, OF a(1)] a(2)
    unfolding sample_conflicts by simp
  then show ?thesis using res a by blast
qed

end
