(* ===== verification/Openwa_Client.thy ===== *)
theory Openwa_Client
  imports Sync_Service Runtime_Events "HOL-Library.Monad_Syntax"
begin

text \<open>
  The client of the OpenWA gateway, src/src/integrations/openwa/openwa.client.ts: the schemas of its answers,
  the request with its retries, and the reads that page. The k-th fetch of a call has the outcome \<open>answer k\<close>.
\<close>

section \<open>Schemas\<close>

text \<open>
  z.string().min(1), z.string() that may be null or absent (both read as null), z.boolean(), and non-negative
  integers that may be absent.
\<close>

definition non_empty :: "json option \<Rightarrow> string option" where
  "non_empty v = (case v of Some (JText s) \<Rightarrow> if s \<noteq> [] then Some s else None | _ \<Rightarrow> None)"

definition nullable_text :: "json option \<Rightarrow> string option option" where
  "nullable_text v = (case v of None \<Rightarrow> Some None | Some JNull \<Rightarrow> Some None | Some (JText s) \<Rightarrow> Some (Some s) | _ \<Rightarrow> None)"

definition required_bool :: "json option \<Rightarrow> bool option" where
  "required_bool v = (case v of Some (JBool b) \<Rightarrow> Some b | _ \<Rightarrow> None)"

definition optional_bool :: "json option \<Rightarrow> bool option option" where
  "optional_bool v = (case v of None \<Rightarrow> Some None | Some (JBool b) \<Rightarrow> Some (Some b) | _ \<Rightarrow> None)"

definition optional_count :: "json option \<Rightarrow> nat option option" where
  "optional_count v = (case v of None \<Rightarrow> Some None
     | Some (JNumber n) \<Rightarrow> if 0 \<le> n then Some (Some (nat n)) else None | _ \<Rightarrow> None)"

definition optional_text :: "json option \<Rightarrow> string option option" where
  "optional_text v = (case v of None \<Rightarrow> Some None | Some (JText s) \<Rightarrow> Some (Some s) | _ \<Rightarrow> None)"

fun all_some :: "'a option list \<Rightarrow> 'a list option" where
  "all_some [] = Some []"
| "all_some (None # xs) = None"
| "all_some (Some x # xs) = map_option ((#) x) (all_some xs)"

text \<open>z.array(schema).max(n)\<close>

definition array_of :: "(json \<Rightarrow> 'a option) \<Rightarrow> nat \<Rightarrow> json \<Rightarrow> 'a list option" where
  "array_of schema n v = (case v of
     JArray xs \<Rightarrow> if length xs \<le> n then all_some (map schema xs) else None
   | _ \<Rightarrow> None)"

text \<open>The transform of a missing or blank subject.\<close>

definition group_name :: "string option \<Rightarrow> string" where
  "group_name name = (case name of None \<Rightarrow> pending_group_name
     | Some s \<Rightarrow> if js_trim s = [] then pending_group_name else s)"

definition group_summary_schema :: "json \<Rightarrow> group_summary option" where
  "group_summary_schema v = (case v of
     JObject obj \<Rightarrow>
       do { gid \<leftarrow> non_empty (json_field ''id'' obj);
            name \<leftarrow> optional_text (json_field ''name'' obj);
            participants \<leftarrow> optional_count (json_field ''participantsCount'' obj);
            admin \<leftarrow> optional_bool (json_field ''isAdmin'' obj);
            parent \<leftarrow> nullable_text (json_field ''linkedParentJID'' obj);
            Some \<lparr>gsu_id = gid, gsu_name = group_name name, gsu_participants_count = participants,
              gsu_is_admin = admin, gsu_linked_parent = parent\<rparr> }
   | _ \<Rightarrow> None)"

record group_participant =
  gp_id :: string
  gp_number :: string
  gp_name :: "string option"
  gp_is_admin :: bool
  gp_is_super_admin :: bool

definition participant_schema :: "json \<Rightarrow> group_participant option" where
  "participant_schema v = (case v of
     JObject obj \<Rightarrow>
       do { pid \<leftarrow> non_empty (json_field ''id'' obj);
            number \<leftarrow> non_empty (json_field ''number'' obj);
            name \<leftarrow> nullable_text (json_field ''name'' obj);
            admin \<leftarrow> required_bool (json_field ''isAdmin'' obj);
            super \<leftarrow> required_bool (json_field ''isSuperAdmin'' obj);
            Some \<lparr>gp_id = pid, gp_number = number, gp_name = name, gp_is_admin = admin, gp_is_super_admin = super\<rparr> }
   | _ \<Rightarrow> None)"

record openwa_contact =
  oc_id :: string
  oc_number :: string
  oc_name :: "string option"
  oc_push_name :: "string option"

definition contact_schema :: "json \<Rightarrow> openwa_contact option" where
  "contact_schema v = (case v of
     JObject obj \<Rightarrow>
       do { cid \<leftarrow> non_empty (json_field ''id'' obj);
            number \<leftarrow> (case json_field ''number'' obj of Some (JText s) \<Rightarrow> Some s | _ \<Rightarrow> None);
            name \<leftarrow> nullable_text (json_field ''name'' obj);
            push \<leftarrow> nullable_text (json_field ''pushName'' obj);
            mine \<leftarrow> required_bool (json_field ''isMyContact'' obj);
            blocked \<leftarrow> required_bool (json_field ''isBlocked'' obj);
            picture \<leftarrow> nullable_text (json_field ''profilePicUrl'' obj);
            Some \<lparr>oc_id = cid, oc_number = number, oc_name = name, oc_push_name = push\<rparr> }
   | _ \<Rightarrow> None)"

definition member_add_mode :: "json option \<Rightarrow> string option option" where
  "member_add_mode v = (case v of None \<Rightarrow> Some None
     | Some (JText s) \<Rightarrow> if s \<in> {''all'', ''admins''} then Some (Some s) else None | _ \<Rightarrow> None)"

definition optional_integer :: "json option \<Rightarrow> int option option" where
  "optional_integer v = (case v of None \<Rightarrow> Some None | Some (JNumber n) \<Rightarrow> Some (Some n) | _ \<Rightarrow> None)"

text \<open>
  The group with its participants, no two of which may share an id. The reported count of participants is passed
  on as it is; what the snapshot of the group stores is the length of the list (\<open>detail_of_group\<close>).
\<close>

record openwa_group = group_summary +
  og_description :: "string option"
  og_owner :: "string option"
  og_created_at :: "int option"
  og_participants :: "group_participant list"
  og_is_read_only :: "bool option"
  og_is_announce :: "bool option"
  og_announce :: "bool option"
  og_locked :: "bool option"
  og_ephemeral_seconds :: "nat option"
  og_member_add_mode :: "string option"

definition group_schema :: "json \<Rightarrow> openwa_group option" where
  "group_schema v = (case v of
     JObject obj \<Rightarrow>
       do { base \<leftarrow> group_summary_schema v;
            description \<leftarrow> nullable_text (json_field ''description'' obj);
            owner \<leftarrow> nullable_text (json_field ''owner'' obj);
            created \<leftarrow> optional_integer (json_field ''createdAt'' obj);
            participants \<leftarrow> Option.bind (json_field ''participants'' obj) (array_of participant_schema 100000);
            read_only \<leftarrow> optional_bool (json_field ''isReadOnly'' obj);
            is_announce \<leftarrow> optional_bool (json_field ''isAnnounce'' obj);
            announce \<leftarrow> optional_bool (json_field ''announce'' obj);
            locked \<leftarrow> optional_bool (json_field ''locked'' obj);
            ephemeral \<leftarrow> optional_count (json_field ''ephemeralSeconds'' obj);
            add_mode \<leftarrow> member_add_mode (json_field ''memberAddMode'' obj);
            (if distinct (map gp_id participants) then Some () else None);
            Some (group_summary.extend base (openwa_group.fields description owner created participants
              read_only is_announce announce locked ephemeral add_mode)) }
   | _ \<Rightarrow> None)"

definition detail_of_group :: "openwa_group \<Rightarrow> group_detail" where
  "detail_of_group g = \<lparr>gd_id = gsu_id g, gd_name = gsu_name g, gd_participants = length (og_participants g),
     gd_is_admin = gsu_is_admin g, gd_is_read_only = og_is_read_only g, gd_announce = og_announce g,
     gd_is_announce = og_is_announce g, gd_linked_parent = gsu_linked_parent g\<rparr>"

definition session_statuses :: "string list" where
  "session_statuses = [''created'', ''initializing'', ''qr_ready'', ''authenticating'', ''ready'', ''disconnected'',
     ''action_required'', ''failed'']"

definition required_date :: "js_reader \<Rightarrow> json option \<Rightarrow> timestamp option" where
  "required_date jd v = (case v of Some (JText s) \<Rightarrow> jd_date jd s | _ \<Rightarrow> None)"

definition nullable_date :: "js_reader \<Rightarrow> json option \<Rightarrow> timestamp option option" where
  "nullable_date jd v = (case v of None \<Rightarrow> Some None | Some JNull \<Rightarrow> Some None
     | Some (JText s) \<Rightarrow> map_option Some (jd_date jd s) | _ \<Rightarrow> None)"

definition nullable_object :: "json option \<Rightarrow> json option option" where
  "nullable_object v = (case v of None \<Rightarrow> Some None | Some JNull \<Rightarrow> Some None
     | Some (JObject obj) \<Rightarrow> Some (Some (JObject obj)) | _ \<Rightarrow> None)"

definition session_schema :: "js_reader \<Rightarrow> json \<Rightarrow> openwa_session option" where
  "session_schema jd v = (case v of
     JObject obj \<Rightarrow>
       do { sid \<leftarrow> non_empty (json_field ''id'' obj);
            name \<leftarrow> non_empty (json_field ''name'' obj);
            status \<leftarrow> non_empty (json_field ''status'' obj);
            (if status \<in> set session_statuses then Some () else None);
            phone \<leftarrow> nullable_text (json_field ''phone'' obj);
            push \<leftarrow> nullable_text (json_field ''pushName'' obj);
            connected \<leftarrow> nullable_date jd (json_field ''connectedAt'' obj);
            active \<leftarrow> nullable_date jd (json_field ''lastActive'' obj);
            created \<leftarrow> required_date jd (json_field ''createdAt'' obj);
            updated \<leftarrow> required_date jd (json_field ''updatedAt'' obj);
            last_error \<leftarrow> nullable_text (json_field ''lastError'' obj);
            restriction \<leftarrow> nullable_object (json_field ''restriction'' obj);
            loaded \<leftarrow> required_bool (json_field ''engineLoaded'' obj);
            Some \<lparr>os_id = sid, os_profile = \<lparr>sp_name = name, sp_phone = phone, sp_push_name = push,
                sp_connected_at = connected, sp_last_active_at = active, sp_last_error = last_error,
                sp_created_at = created\<rparr>,
              os_status = status, os_engine_loaded = loaded, os_restriction = restriction, os_updated_at = updated\<rparr> }
   | _ \<Rightarrow> None)"

text \<open>The version of a health answer, and the message id of an accepted text.\<close>

definition health_schema :: "js_reader \<Rightarrow> json \<Rightarrow> string option" where
  "health_schema jd v = (case v of
     JObject obj \<Rightarrow>
       do { status \<leftarrow> non_empty (json_field ''status'' obj);
            time \<leftarrow> required_date jd (json_field ''timestamp'' obj);
            non_empty (json_field ''version'' obj) }
   | _ \<Rightarrow> None)"

definition send_text_schema :: "json \<Rightarrow> string option" where
  "send_text_schema v = (case v of
     JObject obj \<Rightarrow>
       do { mid \<leftarrow> non_empty (json_field ''messageId'' obj);
            time \<leftarrow> (case json_field ''timestamp'' obj of Some (JNumber n) \<Rightarrow> if 0 \<le> n then Some n else None | _ \<Rightarrow> None);
            Some mid }
   | _ \<Rightarrow> None)"

section \<open>Delays\<close>

record http_response =
  hr_status :: nat
  hr_header :: "string \<Rightarrow> string option"
  hr_text :: "string + string"
  hr_json :: "string + json"

definition clamp_delay :: "int \<Rightarrow> int" where
  "clamp_delay ms = min 60000 (max 250 ms)"

definition parse_retry_after_ms :: "js_reader \<Rightarrow> (string \<Rightarrow> string option) \<Rightarrow> timestamp \<Rightarrow> int option" where
  "parse_retry_after_ms jd header wall = (case header ''retry-after'' of None \<Rightarrow> None
     | Some v \<Rightarrow>
         (case jd_number jd v of
            Some secs \<Rightarrow> if 0 \<le> secs then Some (clamp_delay \<lceil>secs * 1000\<rceil>)
              else map_option (\<lambda>t. clamp_delay (t - wall)) (jd_date jd v)
          | None \<Rightarrow> map_option (\<lambda>t. clamp_delay (t - wall)) (jd_date jd v)))"

text \<open>Math.random() is a noise in [0, 1).\<close>

definition jittered_backoff_ms :: "nat \<Rightarrow> int \<Rightarrow> rat \<Rightarrow> int" where
  "jittered_backoff_ms attempt maximum noise = \<lceil>of_int (min maximum (250 * 2 ^ attempt)) * (3 / 4 + noise * (1 / 2))\<rceil>"

text \<open>A tier without a reset header reads Number(null), which is 0.\<close>

definition exhausted_resets :: "js_reader \<Rightarrow> (string \<Rightarrow> string option) \<Rightarrow> rat list" where
  "exhausted_resets jd header = filter (\<lambda>v. 0 \<le> v) (List.map_filter
     (\<lambda>tier. case header (''x-ratelimit-reset-'' @ tier) of None \<Rightarrow> Some 0 | Some s \<Rightarrow> jd_number jd s)
     (filter (\<lambda>tier. header (''x-ratelimit-remaining-'' @ tier) = Some ''0'') [''short'', ''medium'', ''long'']))"

definition rate_limit_delay_ms :: "js_reader \<Rightarrow> (string \<Rightarrow> string option) \<Rightarrow> timestamp \<Rightarrow> rat \<Rightarrow> nat \<Rightarrow> int" where
  "rate_limit_delay_ms jd header wall noise attempt = (case exhausted_resets jd header of
     r # rs \<Rightarrow> clamp_delay \<lceil>foldl max r rs * 1000\<rceil>
   | [] \<Rightarrow> (case parse_retry_after_ms jd header wall of Some ms \<Rightarrow> ms | None \<Rightarrow> jittered_backoff_ms attempt 60000 noise))"

section \<open>The request\<close>

text \<open>OpenWAHttpError, OpenWAResponseValidationError, and what fetch or the reading of the body throws.\<close>

datatype client_error = StatusError nat string "int option" | SchemaError string nat | FetchError string

fun read_error_of :: "client_error \<Rightarrow> read_error" where
  "read_error_of (StatusError status body retry_after) = HttpError status retry_after"
| "read_error_of (SchemaError operation issues) = InvalidResponse (''OpenWA returned an invalid '' @ operation
     @ '' response ('' @ decimal issues @ '' schema issues)'')"
| "read_error_of (FetchError m) = OtherError m"

record exchange =
  ex_answer :: "nat \<Rightarrow> string + http_response"
  ex_wall :: "nat \<Rightarrow> timestamp"
  ex_noise :: "nat \<Rightarrow> rat"

definition max_rate_limit_retries :: nat where "max_rate_limit_retries = 12"
definition max_transient_read_retries :: nat where "max_transient_read_retries = 4"

definition retried_read :: "string \<Rightarrow> string \<Rightarrow> bool" where
  "retried_read operation verb \<longleftrightarrow> verb = ''GET'' \<and> operation \<noteq> ''get_group''"

text \<open>What the answer that is not retried comes to; the schema counts the issues of what it refuses.\<close>

definition settle_response ::
  "js_reader \<Rightarrow> string \<Rightarrow> (json option \<Rightarrow> nat + 'a) \<Rightarrow> timestamp \<Rightarrow> http_response \<Rightarrow> client_error + 'a" where
  "settle_response jd operation schema wall r =
     (if \<not> (200 \<le> hr_status r \<and> hr_status r < 300) then
        (case hr_text r of Inl m \<Rightarrow> Inl (FetchError m)
         | Inr body \<Rightarrow> Inl (StatusError (hr_status r) body (parse_retry_after_ms jd (hr_header r) wall)))
      else
        (case (if hr_status r = 204 then Inr None else map_sum id Some (hr_json r)) of
           Inl m \<Rightarrow> Inl (FetchError m)
         | Inr v \<Rightarrow> (case schema v of Inl issues \<Rightarrow> Inl (SchemaError operation issues) | Inr x \<Rightarrow> Inr x)))"

text \<open>The loop of request, from the given counts of retries; the result, and the delays before each new fetch.\<close>

function request_loop ::
  "js_reader \<Rightarrow> exchange \<Rightarrow> string \<Rightarrow> string \<Rightarrow> (json option \<Rightarrow> nat + 'a) \<Rightarrow> nat \<Rightarrow> nat
    \<Rightarrow> (client_error + 'a) \<times> int list" where
  "request_loop jd ex operation verb schema limited transient = (let k = limited + transient in
     case ex_answer ex k of Inl m \<Rightarrow> (Inl (FetchError m), [])
     | Inr r \<Rightarrow>
         if hr_status r = 429 \<and> retried_read operation verb \<and> limited < max_rate_limit_retries then
           apsnd ((#) (rate_limit_delay_ms jd (hr_header r) (ex_wall ex k) (ex_noise ex k) limited))
             (request_loop jd ex operation verb schema (Suc limited) transient)
         else if 500 \<le> hr_status r \<and> retried_read operation verb \<and> transient < max_transient_read_retries then
           apsnd ((#) (jittered_backoff_ms transient 5000 (ex_noise ex k)))
             (request_loop jd ex operation verb schema limited (Suc transient))
         else (settle_response jd operation schema (ex_wall ex k) r, []))"
  by pat_completeness auto

termination
  by (relation "measure (\<lambda>(jd, ex, operation, verb, schema, limited, transient).
       (max_rate_limit_retries - limited) + (max_transient_read_retries - transient))") auto

declare request_loop.simps [simp del]

definition request ::
  "js_reader \<Rightarrow> exchange \<Rightarrow> string \<Rightarrow> string \<Rightarrow> (json option \<Rightarrow> nat + 'a) \<Rightarrow> (client_error + 'a) \<times> int list" where
  "request jd ex operation verb schema = request_loop jd ex operation verb schema 0 0"

section \<open>Paths\<close>

text \<open>encodeURIComponent: the UTF-8 bytes of a character in percent notation, except the unreserved ones.\<close>

definition hex_digit :: "nat \<Rightarrow> char" where
  "hex_digit n = char_of (if n < 10 then 48 + n else 55 + n)"

definition percent_byte :: "nat \<Rightarrow> string" where
  "percent_byte n = [CHR ''%'', hex_digit (n div 16), hex_digit (n mod 16)]"

definition unreserved :: "char \<Rightarrow> bool" where
  "unreserved ch \<longleftrightarrow> (let n = of_char ch :: nat in
     48 \<le> n \<and> n \<le> 57 \<or> 65 \<le> n \<and> n \<le> 90 \<or> 97 \<le> n \<and> n \<le> 122) \<or> ch \<in> set ''-_.!~*()'' \<or> ch = CHR 0x27"

definition encode_char :: "char \<Rightarrow> string" where
  "encode_char ch = (let n = of_char ch :: nat in
     if unreserved ch then [ch]
     else if n < 128 then percent_byte n
     else percent_byte (192 + n div 64) @ percent_byte (128 + n mod 64))"

definition encode_uri_component :: "string \<Rightarrow> string" where
  "encode_uri_component s = concat (map encode_char s)"

definition session_path :: "string \<Rightarrow> string" where
  "session_path sid = ''/api/sessions/'' @ encode_uri_component sid"

definition groups_path :: "string \<Rightarrow> nat \<Rightarrow> string" where
  "groups_path sid offset = session_path sid @ ''/groups?limit=1000&offset='' @ decimal offset"

definition group_path :: "string \<Rightarrow> string \<Rightarrow> string" where
  "group_path sid gid = session_path sid @ ''/groups/'' @ encode_uri_component gid"

definition contacts_path :: "string \<Rightarrow> nat \<Rightarrow> string" where
  "contacts_path sid offset = session_path sid @ ''/contacts?limit=1000&offset='' @ decimal offset"

section \<open>The calls\<close>

text \<open>safeParse of a schema of one value; the count of issues of what it refuses is zod's.\<close>

definition parsed :: "(json option \<Rightarrow> nat) \<Rightarrow> (json \<Rightarrow> 'a option) \<Rightarrow> json option \<Rightarrow> nat + 'a" where
  "parsed issues schema v = (case Option.bind v schema of None \<Rightarrow> Inl (issues v) | Some x \<Rightarrow> Inr x)"

text \<open>The exchange of a call depends on its path; the calls of one method are made one after the other.\<close>

type_synonym gateway = "string \<Rightarrow> exchange"

definition client_list_sessions :: "js_reader \<Rightarrow> (json option \<Rightarrow> nat) \<Rightarrow> gateway \<Rightarrow> client_error + openwa_session list" where
  "client_list_sessions jd issues gw = fst (request jd (gw ''/api/sessions?limit=1000'') ''list_sessions'' ''GET''
     (parsed issues (array_of (session_schema jd) 1000)))"

definition client_get_session ::
  "js_reader \<Rightarrow> (json option \<Rightarrow> nat) \<Rightarrow> gateway \<Rightarrow> string \<Rightarrow> client_error + openwa_session" where
  "client_get_session jd issues gw sid = fst (request jd (gw (session_path sid)) ''get_session'' ''GET''
     (parsed issues (session_schema jd)))"

definition assert_compatible_release ::
  "js_reader \<Rightarrow> (json option \<Rightarrow> nat) \<Rightarrow> string \<Rightarrow> gateway \<Rightarrow> client_error + unit" where
  "assert_compatible_release jd issues tag gw =
     (case fst (request jd (gw ''/api/health'') ''health'' ''GET'' (parsed issues (health_schema jd))) of
        Inl e \<Rightarrow> Inl e
      | Inr version \<Rightarrow> if version \<noteq> tag
          then Inl (FetchError (''OpenWA release mismatch: expected '' @ tag @ '', received '' @ version)) else Inr ())"

definition client_get_group ::
  "js_reader \<Rightarrow> (json option \<Rightarrow> nat) \<Rightarrow> gateway \<Rightarrow> string \<Rightarrow> string
    \<Rightarrow> (client_error + openwa_group) \<times> int list" where
  "client_get_group jd issues gw sid gid = request jd (gw (group_path sid gid)) ''get_group'' ''GET''
     (parsed issues group_schema)"

definition client_send_text ::
  "js_reader \<Rightarrow> (json option \<Rightarrow> nat) \<Rightarrow> gateway \<Rightarrow> string \<Rightarrow> (client_error + string) \<times> int list" where
  "client_send_text jd issues gw sid = request jd (gw (session_path sid @ ''/messages/send-text'')) ''send_text'' ''POST''
     (parsed issues send_text_schema)"

subsection \<open>Pages\<close>

text \<open>The set of the ids that were seen, in the order of their arrival; None when one of them comes again.\<close>

fun fresh_ids :: "string list \<Rightarrow> string list \<Rightarrow> string list option" where
  "fresh_ids seen [] = Some seen"
| "fresh_ids seen (x # xs) = (if x \<in> set seen then None else fresh_ids (x # seen) xs)"

definition page_size :: nat where "page_size = 1000"
definition max_pages :: nat where "max_pages = 100"

text \<open>
  The loop of listGroups from a page number on, with the number of pages it may still read.
\<close>

primrec groups_from ::
  "(nat \<Rightarrow> client_error + group_summary list) \<Rightarrow> nat \<Rightarrow> nat \<Rightarrow> string list \<Rightarrow> group_summary list
    \<Rightarrow> client_error + group_summary list" where
  "groups_from page 0 number seen groups = Inl (SchemaError ''list_groups'' 1)"
| "groups_from page (Suc left) number seen groups = (case page (number * page_size) of Inl e \<Rightarrow> Inl e
     | Inr gs \<Rightarrow>
         (case fresh_ids seen (map gsu_id gs) of None \<Rightarrow> Inl (SchemaError ''list_groups'' 1)
          | Some seen' \<Rightarrow> if length gs < page_size then Inr (groups @ gs)
              else groups_from page left (Suc number) seen' (groups @ gs)))"

definition list_groups :: "(nat \<Rightarrow> client_error + group_summary list) \<Rightarrow> client_error + group_summary list" where
  "list_groups page = groups_from page max_pages 0 [] []"

definition groups_page ::
  "js_reader \<Rightarrow> (json option \<Rightarrow> nat) \<Rightarrow> gateway \<Rightarrow> string \<Rightarrow> nat \<Rightarrow> client_error + group_summary list" where
  "groups_page jd issues gw sid offset = fst (request jd (gw (groups_path sid offset)) ''list_groups'' ''GET''
     (parsed issues (array_of group_summary_schema page_size)))"

definition client_list_groups ::
  "js_reader \<Rightarrow> (json option \<Rightarrow> nat) \<Rightarrow> gateway \<Rightarrow> string \<Rightarrow> client_error + group_summary list" where
  "client_list_groups jd issues gw sid = list_groups (groups_page jd issues gw sid)"

text \<open>The generator listContactPages: the pages it yields, and the error it then throws, if any.\<close>

primrec contact_pages_from ::
  "(nat \<Rightarrow> client_error + openwa_contact list) \<Rightarrow> nat \<Rightarrow> nat \<Rightarrow> string list
    \<Rightarrow> openwa_contact list list \<times> client_error option" where
  "contact_pages_from page 0 number seen = ([], Some (SchemaError ''list_contacts'' 1))"
| "contact_pages_from page (Suc left) number seen = (case page (number * page_size) of Inl e \<Rightarrow> ([], Some e)
     | Inr cs \<Rightarrow>
         (case fresh_ids seen (map oc_id cs) of None \<Rightarrow> ([], Some (SchemaError ''list_contacts'' 1))
          | Some seen' \<Rightarrow> apfst (\<lambda>ps. (if cs \<noteq> [] then [cs] else []) @ ps)
              (if length cs < page_size then ([], None) else contact_pages_from page left (Suc number) seen')))"

definition list_contact_pages ::
  "(nat \<Rightarrow> client_error + openwa_contact list) \<Rightarrow> openwa_contact list list \<times> client_error option" where
  "list_contact_pages page = contact_pages_from page max_pages 0 []"

definition contacts_page ::
  "js_reader \<Rightarrow> (json option \<Rightarrow> nat) \<Rightarrow> gateway \<Rightarrow> string \<Rightarrow> nat \<Rightarrow> client_error + openwa_contact list" where
  "contacts_page jd issues gw sid offset = fst (request jd (gw (contacts_path sid offset)) ''list_contacts'' ''GET''
     (parsed issues (array_of contact_schema page_size)))"

section \<open>Retries are bounded and only reads are retried\<close>

text \<open>The answers that a read is repeated after.\<close>

definition transient_answer :: "string + http_response \<Rightarrow> bool" where
  "transient_answer a = (case a of Inl m \<Rightarrow> False | Inr r \<Rightarrow> hr_status r = 429 \<or> 500 \<le> hr_status r)"

definition settle_answer ::
  "js_reader \<Rightarrow> exchange \<Rightarrow> string \<Rightarrow> (json option \<Rightarrow> nat + 'a) \<Rightarrow> nat \<Rightarrow> client_error + 'a" where
  "settle_answer jd ex operation schema k = (case ex_answer ex k of Inl m \<Rightarrow> Inl (FetchError m)
     | Inr r \<Rightarrow> settle_response jd operation schema (ex_wall ex k) r)"

text \<open>One turn of the loop: it ends with the answer, or goes on after a delay with one retry more.\<close>

lemma request_loop_cases:
  obtains (ends) "request_loop jd ex operation verb schema limited transient
      = (settle_answer jd ex operation schema (limited + transient), [])"
  | (limit) r where "ex_answer ex (limited + transient) = Inr r" "hr_status r = 429" "retried_read operation verb"
      "limited < max_rate_limit_retries"
      "request_loop jd ex operation verb schema limited transient =
         apsnd ((#) (rate_limit_delay_ms jd (hr_header r) (ex_wall ex (limited + transient))
           (ex_noise ex (limited + transient)) limited))
         (request_loop jd ex operation verb schema (Suc limited) transient)"
  | (server) r where "ex_answer ex (limited + transient) = Inr r" "500 \<le> hr_status r" "retried_read operation verb"
      "transient < max_transient_read_retries"
      "request_loop jd ex operation verb schema limited transient =
         apsnd ((#) (jittered_backoff_ms transient 5000 (ex_noise ex (limited + transient))))
         (request_loop jd ex operation verb schema limited (Suc transient))"
proof (cases "ex_answer ex (limited + transient)")
  case (Inl m)
  then show ?thesis by (intro ends) (subst request_loop.simps, simp add: settle_answer_def)
next
  case (Inr r)
  note step = request_loop.simps [of jd ex operation verb schema limited transient, unfolded Let_def Inr sum.case]
  show ?thesis
  proof (cases "hr_status r = 429 \<and> retried_read operation verb \<and> limited < max_rate_limit_retries")
    case True
    then show ?thesis using Inr step by (intro limit [of r]) simp_all
  next
    case no_limit: False
    show ?thesis
    proof (cases "500 \<le> hr_status r \<and> retried_read operation verb \<and> transient < max_transient_read_retries")
      case True
      then show ?thesis using Inr step by (intro server [of r]) simp_all
    next
      case False
      show ?thesis
        by (intro ends) (simp only: step if_not_P [OF no_limit] if_not_P [OF False] settle_answer_def Inr sum.case)
    qed
  qed
qed

lemma request_loop_trace:
  "limited \<le> max_rate_limit_retries \<Longrightarrow> transient \<le> max_transient_read_retries \<Longrightarrow>
   request_loop jd ex operation verb schema limited transient = (res, ds) \<Longrightarrow>
   limited + transient + length ds \<le> max_rate_limit_retries + max_transient_read_retries
   \<and> res = settle_answer jd ex operation schema (limited + transient + length ds)
   \<and> (\<forall>i < length ds. transient_answer (ex_answer ex (limited + transient + i)))"
proof (induction ds arbitrary: limited transient)
  case Nil
  then show ?case
    by (cases rule: request_loop_cases [of jd ex operation verb schema limited transient]) (auto simp: apsnd_def map_prod_def split: prod.splits)
next
  case (Cons x ds)
  let ?n = "limited + transient"
  show ?case
  proof (cases rule: request_loop_cases [of jd ex operation verb schema limited transient])
    case ends
    then show ?thesis using Cons.prems by simp
  next
    case (limit r)
    then have "request_loop jd ex operation verb schema (Suc limited) transient = (res, ds)"
      using Cons.prems(3) by (cases "request_loop jd ex operation verb schema (Suc limited) transient") simp
    from Cons.IH [OF _ _ this] limit(1,2,4) Cons.prems(2) show ?thesis
      by (auto simp: transient_answer_def less_Suc_eq_0_disj)
  next
    case (server r)
    then have "request_loop jd ex operation verb schema limited (Suc transient) = (res, ds)"
      using Cons.prems(3) by (cases "request_loop jd ex operation verb schema limited (Suc transient)") simp
    from Cons.IH [OF _ _ this] server(1,2,4) Cons.prems(1) show ?thesis
      by (auto simp: transient_answer_def less_Suc_eq_0_disj)
  qed
qed

lemma request_once: "\<not> retried_read operation verb \<Longrightarrow> snd (request jd ex operation verb schema) = []"
  unfolding request_def by (cases rule: request_loop_cases [of jd ex operation verb schema 0 0]) auto

lemma clamp_delay_range: "250 \<le> clamp_delay ms \<and> clamp_delay ms \<le> 60000"
  by (simp add: clamp_delay_def)

lemma jittered_backoff_range:
  assumes "0 \<le> noise" and "noise < 1" and "250 \<le> maximum"
  shows "0 < jittered_backoff_ms attempt maximum noise \<and> 4 * jittered_backoff_ms attempt maximum noise \<le> 5 * maximum + 3"
proof -
  let ?b = "min maximum (250 * 2 ^ attempt)" and ?f = "3 / 4 + noise * (1 / 2)"
  have b: "(250 :: int) \<le> ?b" "?b \<le> maximum" using assms(3) by (simp_all add: min_le_iff_disj)
  have f: "3 / 4 \<le> ?f" "?f \<le> 5 / 4" using assms by simp_all
  have "of_int ?b * ?f \<le> of_int maximum * (5 / 4)"
    using b f by (intro mult_mono) (simp_all add: of_int_le_iff)
  moreover have "0 < of_int ?b * ?f" using b f by (intro mult_pos_pos) simp_all
  ultimately show ?thesis unfolding jittered_backoff_ms_def
    by (simp add: zero_less_ceiling) linarith
qed

lemma rate_limit_delay_range:
  assumes "0 \<le> noise" and "noise < 1"
  shows "0 < rate_limit_delay_ms jd header wall noise attempt \<and> rate_limit_delay_ms jd header wall noise attempt \<le> 75000"
proof (cases "exhausted_resets jd header")
  case (Cons r rs)
  then show ?thesis using clamp_delay_range [of "\<lceil>foldl max r rs * 1000\<rceil>"] by (simp add: rate_limit_delay_ms_def)
next
  case Nil
  show ?thesis
  proof (cases "parse_retry_after_ms jd header wall")
    case None
    then show ?thesis using Nil jittered_backoff_range [OF assms, of 60000 attempt] by (simp add: rate_limit_delay_ms_def)
  next
    case (Some ms)
    then obtain x where "ms = clamp_delay x" by (auto simp: parse_retry_after_ms_def split: option.splits if_splits)
    then show ?thesis using Nil Some clamp_delay_range [of x] by (simp add: rate_limit_delay_ms_def)
  qed
qed

lemma request_loop_delays:
  assumes noise: "\<And>k. 0 \<le> ex_noise ex k \<and> ex_noise ex k < 1"
  shows "request_loop jd ex operation verb schema limited transient = (res, ds) \<Longrightarrow> d \<in> set ds \<Longrightarrow> 0 < d \<and> d \<le> 75000"
proof (induction ds arbitrary: limited transient)
  case Nil
  then show ?case by simp
next
  case (Cons x ds)
  let ?k = "limited + transient"
  show ?case
  proof (cases rule: request_loop_cases [of jd ex operation verb schema limited transient])
    case ends
    then show ?thesis using Cons.prems by simp
  next
    case (limit r)
    then have "request_loop jd ex operation verb schema (Suc limited) transient = (res, ds)"
      "x = rate_limit_delay_ms jd (hr_header r) (ex_wall ex ?k) (ex_noise ex ?k) limited"
      using Cons.prems(1) by (cases "request_loop jd ex operation verb schema (Suc limited) transient", simp)+
    then show ?thesis using Cons rate_limit_delay_range noise by (metis set_ConsD)
  next
    case (server r)
    then have "request_loop jd ex operation verb schema limited (Suc transient) = (res, ds)"
      "x = jittered_backoff_ms transient 5000 (ex_noise ex ?k)"
      using Cons.prems(1) by (cases "request_loop jd ex operation verb schema limited (Suc transient)", simp)+
    moreover have "0 < jittered_backoff_ms transient 5000 (ex_noise ex ?k) \<and> jittered_backoff_ms transient 5000 (ex_noise ex ?k) \<le> 75000"
      using jittered_backoff_range [of "ex_noise ex ?k" 5000 transient] noise [of ?k] by simp
    ultimately show ?thesis using Cons by (metis set_ConsD)
  qed
qed

text \<open>C21: A request fetches at most seventeen times, waits at most 75 seconds before each repetition, and returns
  what the last answer comes to; only a 429 or a server error is followed by a repetition. Whatever is not a GET,
  the POST of a message above all, and the read of a group, whose pace is kept elsewhere, is fetched once.\<close>

theorem requests_bounded:
  assumes "request jd ex operation verb schema = (res, ds)"
    and "\<And>k. 0 \<le> ex_noise ex k \<and> ex_noise ex k < 1"
  shows "length ds \<le> 16 \<and> (\<forall>d \<in> set ds. 0 < d \<and> d \<le> 75000)
    \<and> res = settle_answer jd ex operation schema (length ds)
    \<and> (\<forall>i < length ds. transient_answer (ex_answer ex i))
    \<and> (verb \<noteq> ''GET'' \<or> operation = ''get_group'' \<longrightarrow> ds = [])"
  using request_loop_trace [of 0 0, OF _ _ assms(1) [unfolded request_def]]
    request_loop_delays [of ex, OF assms(2) assms(1) [unfolded request_def]]
    request_once [of operation verb jd ex schema] assms(1)
  by (auto simp: max_rate_limit_retries_def max_transient_read_retries_def retried_read_def)

section \<open>Pages\<close>

lemma fresh_ids_iff:
  "fresh_ids seen xs = (if distinct xs \<and> set xs \<inter> set seen = {} then Some (rev xs @ seen) else None)"
  by (induction xs arbitrary: seen) auto

text \<open>The slices that a gateway serves.\<close>

definition slices :: "'a list \<Rightarrow> nat \<Rightarrow> client_error + 'a list" where
  "slices upstream offset = Inr (take page_size (drop offset upstream))"

lemma groups_from_slices:
  assumes "seen = rev (map gsu_id (take (number * page_size) upstream))" and "distinct (map gsu_id (take (number * page_size) upstream))"
    and "number * page_size \<le> length upstream"
  shows "groups_from (slices upstream) left number seen (take (number * page_size) upstream) =
    (if distinct (map gsu_id upstream) \<and> length upstream < (number + left) * page_size then Inr upstream
     else Inl (SchemaError ''list_groups'' 1))"
  using assms
proof (induction left arbitrary: number seen)
  case 0
  then show ?case by simp
next
  case (Suc left)
  let ?n = "number * page_size" and ?gs = "take page_size (drop (number * page_size) upstream)"
  have whole: "take ?n upstream @ ?gs = take (Suc number * page_size) upstream"
    by (metis add.commute mult_Suc take_add)
  have ids: "map gsu_id (take ?n upstream) @ map gsu_id ?gs = map gsu_id (take (Suc number * page_size) upstream)"
    using whole by (metis map_append)
  have fresh: "fresh_ids seen (map gsu_id ?gs) =
      (if distinct (map gsu_id (take (Suc number * page_size) upstream))
       then Some (rev (map gsu_id (take (Suc number * page_size) upstream))) else None)"
    unfolding fresh_ids_iff Suc.prems(1) ids [symmetric] using Suc.prems(2) by (auto simp del: map_append)
  have len: "length ?gs < page_size \<longleftrightarrow> length upstream < Suc number * page_size"
    using Suc.prems(3) by (auto simp: min_def)
  let ?next = "take (Suc number * page_size) upstream"
  have step: "groups_from (slices upstream) (Suc left) number seen (take ?n upstream) =
      (if distinct (map gsu_id ?next)
       then if length upstream < Suc number * page_size then Inr ?next
         else groups_from (slices upstream) left (Suc number) (rev (map gsu_id ?next)) ?next
       else Inl (SchemaError ''list_groups'' 1))"
    by (cases "distinct (map gsu_id ?next)")
      (simp_all only: groups_from.simps slices_def sum.case fresh len whole if_True if_False option.case)
  show ?case
  proof (cases "distinct (map gsu_id ?next)")
    case False
    then have "\<not> distinct (map gsu_id upstream)" by (metis distinct_take take_map)
    then show ?thesis unfolding step using False by simp
  next
    case distinct: True
    show ?thesis
    proof (cases "length upstream < Suc number * page_size")
      case True
      then have "?next = upstream" "length upstream < (number + Suc left) * page_size"
        by (simp, rule less_le_trans) simp_all
      then show ?thesis unfolding step using distinct True by simp
    next
      case False
      then show ?thesis unfolding step if_P [OF distinct] if_not_P [OF False]
        using Suc.IH [OF refl distinct] by (simp add: ac_simps)
    qed
  qed
qed

text \<open>When the gateway serves the pages of a list of groups, listGroups returns exactly that list, whatever the
  number of its pages; a list that repeats an id, or has a hundred thousand groups or more, is refused as a whole.\<close>

theorem list_groups_complete:
  "list_groups (slices upstream) = (if distinct (map gsu_id upstream) \<and> length upstream < 100000 then Inr upstream
     else Inl (SchemaError ''list_groups'' 1))"
  using groups_from_slices [of "[]" 0 upstream max_pages] by (simp add: list_groups_def max_pages_def page_size_def)

section \<open>Paths name their group\<close>

text \<open>decodeURIComponent on what encodeURIComponent writes.\<close>

definition hex_value :: "char \<Rightarrow> nat" where
  "hex_value ch = (let n = of_char ch in if n < 58 then n - 48 else n - 55)"

definition byte_of :: "string \<Rightarrow> nat" where
  "byte_of s = 16 * hex_value (s ! 0) + hex_value (s ! 1)"

fun decode_uri :: "string \<Rightarrow> string" where
  "decode_uri [] = []"
| "decode_uri (ch # s) = (if ch \<noteq> CHR ''%'' then ch # decode_uri s
     else if byte_of s < 128 then char_of (byte_of s) # decode_uri (drop 2 s)
     else char_of ((byte_of s - 192) * 64 + (byte_of (drop 3 s) - 128)) # decode_uri (drop 5 s))"

lemma hex_value_digit: "m < 16 \<Longrightarrow> hex_value (hex_digit m) = m"
  by (auto simp: hex_value_def hex_digit_def Let_def)

lemma byte_of_percent: "n < 256 \<Longrightarrow> byte_of (hex_digit (n div 16) # hex_digit (n mod 16) # s) = n"
  using hex_value_digit [of "n div 16"] hex_value_digit [of "n mod 16"] by (simp add: byte_of_def)

lemma unreserved_percent: "\<not> unreserved (CHR ''%'')"
  by code_simp

lemma decode_encode_char: "decode_uri (encode_char ch @ s) = ch # decode_uri s"
proof (cases "unreserved ch")
  case True
  then have "ch \<noteq> CHR ''%''" using unreserved_percent by metis
  then show ?thesis using True by (simp add: encode_char_def Let_def)
next
  case reserved: False
  let ?n = "of_char ch :: nat"
  have n: "?n < 256" by simp
  show ?thesis
  proof (cases "?n < 128")
    case True
    then show ?thesis using reserved by (simp add: encode_char_def Let_def percent_byte_def byte_of_percent)
  next
    case False
    have high: "192 + ?n div 64 < 256" "128 + ?n mod 64 < 256"
      using n less_mult_imp_div_less [of ?n 4 64] by simp_all
    have "decode_uri (encode_char ch @ s)
        = char_of ((192 + ?n div 64 - 192) * 64 + (128 + ?n mod 64 - 128)) # decode_uri s"
      using reserved False
      by (simp add: encode_char_def Let_def percent_byte_def byte_of_percent [OF high(1)] byte_of_percent [OF high(2)]
          del: add_diff_cancel_left')
    also have "(192 + ?n div 64 - 192) * 64 + (128 + ?n mod 64 - 128) = ?n" by simp
    finally show ?thesis by simp
  qed
qed

lemma decode_encode: "decode_uri (encode_uri_component s) = s"
  unfolding encode_uri_component_def by (induction s) (simp_all add: decode_encode_char)

lemma hex_digit_plain: "m < 16 \<Longrightarrow> hex_digit m \<noteq> CHR ''/''"
proof
  assume "m < 16" "hex_digit m = CHR ''/''"
  then have "hex_value (CHR ''/'') = m" using hex_value_digit by metis
  moreover have "hex_value (CHR ''/'') = 0 \<and> hex_digit 0 \<noteq> CHR ''/''" by code_simp
  ultimately show False using \<open>hex_digit m = CHR ''/''\<close> by simp
qed

lemma percent_plain: "n < 256 \<Longrightarrow> CHR ''/'' \<notin> set (percent_byte n)"
  using hex_digit_plain [of "n div 16"] hex_digit_plain [of "n mod 16"] less_mult_imp_div_less [of n 16 16]
  by (auto simp: percent_byte_def)

lemma encode_plain: "CHR ''/'' \<notin> set (encode_uri_component s)"
proof -
  have "CHR ''/'' \<notin> set (encode_char ch)" for ch
  proof (cases "unreserved ch")
    case True
    moreover have "\<not> unreserved (CHR ''/'')" by code_simp
    ultimately have "ch \<noteq> CHR ''/''" by metis
    then show ?thesis using True by (simp add: encode_char_def)
  next
    case False
    have "(of_char ch :: nat) < 256" by simp
    then have "(of_char ch :: nat) < 256" "192 + (of_char ch :: nat) div 64 < 256" "128 + (of_char ch :: nat) mod 64 < 256"
      using less_mult_imp_div_less [of "of_char ch :: nat" 4 64] by simp_all
    from this [THEN percent_plain] show ?thesis using False by (simp add: encode_char_def Let_def)
  qed
  then show ?thesis unfolding encode_uri_component_def by auto
qed

lemma split_at_slash:
  "x @ CHR ''/'' # y = x' @ CHR ''/'' # y' \<Longrightarrow> CHR ''/'' \<notin> set x \<Longrightarrow> CHR ''/'' \<notin> set x' \<Longrightarrow> x = x' \<and> y = y'"
proof (induction x arbitrary: x')
  case Nil
  then show ?case by (cases x') auto
next
  case (Cons ch x)
  then show ?case by (cases x') auto
qed

text \<open>Every group has a path of its own: whatever characters the ids of a session and a group hold, the path of
  the read determines both, and the decoding of a path segment gives the id back.\<close>

theorem group_path_identifies:
  "decode_uri (encode_uri_component gid) = gid
    \<and> (group_path sid gid = group_path sid' gid' \<longleftrightarrow> sid = sid' \<and> gid = gid')"
proof -
  have "sid = sid' \<and> gid = gid'" if eq: "group_path sid gid = group_path sid' gid'"
  proof -
    have "encode_uri_component sid @ CHR ''/'' # ''groups/'' @ encode_uri_component gid
        = encode_uri_component sid' @ CHR ''/'' # ''groups/'' @ encode_uri_component gid'"
      using eq by (simp add: group_path_def session_path_def)
    from split_at_slash [OF this encode_plain encode_plain]
    have "encode_uri_component sid = encode_uri_component sid'" "encode_uri_component gid = encode_uri_component gid'"
      by simp_all
    then show ?thesis by (metis decode_encode)
  qed
  then show ?thesis by (auto simp: decode_encode)
qed

section \<open>What the schemas admit\<close>

lemma all_some_iff: "all_some xs = Some ys \<longleftrightarrow> xs = map Some ys"
  by (induction xs arbitrary: ys rule: all_some.induct) (auto simp: Cons_eq_map_conv)

lemma array_of_Some:
  assumes "array_of schema n v = Some ys"
  shows "length ys \<le> n \<and> (\<forall>y \<in> set ys. \<exists>x. schema x = Some y)"
proof -
  obtain xs where xs: "length xs \<le> n" "map schema xs = map Some ys"
    using assms by (auto simp: array_of_def all_some_iff split: json.splits if_splits)
  have "\<exists>x. schema x = Some y" if "y \<in> set ys" for y
  proof -
    have "Some y \<in> set (map schema xs)" unfolding xs(2) using that by simp
    then show ?thesis by auto
  qed
  moreover have "length ys \<le> n" using xs map_eq_imp_length_eq [of schema xs Some ys] by simp
  ultimately show ?thesis by blast
qed

lemma group_name_visible: "js_trim (group_name name) \<noteq> []"
proof -
  have "js_trim pending_group_name \<noteq> []" by code_simp
  then show ?thesis by (auto simp: group_name_def split: option.splits)
qed

lemma non_empty_Some: "non_empty v = Some s \<Longrightarrow> s \<noteq> []"
  by (auto simp: non_empty_def split: option.splits json.splits if_splits)

lemma summary_schema_Some: "group_summary_schema v = Some g \<Longrightarrow> gsu_id g \<noteq> [] \<and> js_trim (gsu_name g) \<noteq> []"
  by (auto simp: group_summary_schema_def bind_eq_Some_conv group_name_visible dest: non_empty_Some split: json.splits)

lemma participant_schema_Some: "participant_schema v = Some p \<Longrightarrow> gp_id p \<noteq> [] \<and> gp_number p \<noteq> []"
  by (auto simp: participant_schema_def bind_eq_Some_conv dest: non_empty_Some split: json.splits)

lemma settled_answer:
  assumes "settle_answer jd ex operation (parsed issues schema) k = Inr x"
  obtains r v where "ex_answer ex k = Inr r" and "hr_json r = Inr v" and "200 \<le> hr_status r" and "hr_status r < 300"
    and "schema v = Some x"
  using assms that
  by (auto simp: settle_answer_def settle_response_def parsed_def bind_eq_Some_conv map_sum_def
      split: sum.splits if_splits option.splits)

lemma request_schema:
  assumes "request jd ex operation verb (parsed issues schema) = (Inr x, ds)"
  obtains r v where "ex_answer ex (length ds) = Inr r" and "hr_json r = Inr v" and "200 \<le> hr_status r"
    and "hr_status r < 300" and "schema v = Some x"
proof -
  have "Inr x = settle_answer jd ex operation (parsed issues schema) (length ds)"
    using request_loop_trace [of 0 0, OF _ _ assms [unfolded request_def]] by simp
  from settled_answer [OF this [symmetric]] that show ?thesis .
qed

lemma bindD: "Option.bind m f = Some y \<Longrightarrow> \<exists>x. m = Some x \<and> f x = Some y"
  by (simp add: bind_eq_Some_conv)

lemma array_of_elements: "array_of schema n v = Some ys \<Longrightarrow> \<exists>xs. v = JArray xs \<and> map schema xs = map Some ys"
  by (auto simp: array_of_def all_some_iff split: json.splits if_splits)

lemma group_schema_parts:
  assumes "group_schema v = Some g"
  obtains obj base xs where "v = JObject obj" and "group_summary_schema v = Some base"
    and "group_summary.truncate g = base" and "distinct (map gp_id (og_participants g))"
    and "json_field ''participants'' obj = Some xs"
    and "array_of participant_schema 100000 xs = Some (og_participants g)"
proof (cases v)
  case (JObject obj)
  show ?thesis
    using assms unfolding group_schema_def JObject json.case
    apply -
    apply ((drule bindD, elim exE conjE)+)
    apply (rule that [OF JObject])
         apply (unfold JObject, assumption)
        apply (auto simp: group_summary.defs openwa_group.defs bind_eq_Some_conv split: if_splits)
    done
qed (use assms in \<open>simp_all add: group_schema_def\<close>)

lemma summary_schema_count:
  "group_summary_schema (JObject obj) = Some g
    \<Longrightarrow> optional_count (json_field ''participantsCount'' obj) = Some (gsu_participants_count g)"
  by (auto simp: group_summary_schema_def bind_eq_Some_conv)

text \<open>C23: A group that the client returns is what one successful answer of the gateway says, checked: it has an id and a
  visible name; its participants are the answer's, each read as the schema reads it, in their order and none left out,
  at most a hundred thousand, with ids, no two the same, and numbers; and the count it reports is the answer's, which is
  not compared with the list.\<close>

theorem group_reads_well_formed:
  assumes "client_get_group jd issues gw sid gid = (Inr g, ds)"
  shows "gsu_id g \<noteq> [] \<and> js_trim (gsu_name g) \<noteq> [] \<and> length (og_participants g) \<le> 100000
    \<and> distinct (map gp_id (og_participants g)) \<and> (\<forall>p \<in> set (og_participants g). gp_id p \<noteq> [] \<and> gp_number p \<noteq> [])
    \<and> (\<exists>r obj xs. ex_answer (gw (group_path sid gid)) (length ds) = Inr r \<and> 200 \<le> hr_status r \<and> hr_status r < 300
        \<and> hr_json r = Inr (JObject obj) \<and> json_field ''participants'' obj = Some (JArray xs)
        \<and> map participant_schema xs = map Some (og_participants g)
        \<and> optional_count (json_field ''participantsCount'' obj) = Some (gsu_participants_count g))"
proof -
  obtain r v where r: "ex_answer (gw (group_path sid gid)) (length ds) = Inr r" "hr_json r = Inr v" "200 \<le> hr_status r"
    "hr_status r < 300" and parsed: "group_schema v = Some g"
    by (rule request_schema [OF assms [unfolded client_get_group_def]])
  from parsed obtain obj base xs where obj: "v = JObject obj" and base: "group_summary_schema v = Some base"
    and g: "group_summary.truncate g = base" "distinct (map gp_id (og_participants g))"
    and xs: "json_field ''participants'' obj = Some xs" "array_of participant_schema 100000 xs = Some (og_participants g)"
    by (rule group_schema_parts)
  obtain ys where ys: "xs = JArray ys" "map participant_schema ys = map Some (og_participants g)"
    using array_of_elements [OF xs(2)] by blast
  have base': "gsu_id g = gsu_id base" "gsu_name g = gsu_name base" "gsu_participants_count g = gsu_participants_count base"
    using g(1) by (auto simp: group_summary.defs)
  from array_of_Some [OF xs(2)] have len: "length (og_participants g) \<le> 100000"
    and "\<And>p. p \<in> set (og_participants g) \<Longrightarrow> \<exists>x. participant_schema x = Some p" by simp_all
  then have ps: "\<And>p. p \<in> set (og_participants g) \<Longrightarrow> gp_id p \<noteq> [] \<and> gp_number p \<noteq> []" using participant_schema_Some by blast
  show ?thesis
    using r ys g(2) xs(1) len ps summary_schema_Some [OF base] summary_schema_count [OF base [unfolded obj]]
    unfolding obj base' by blast
qed

section \<open>A sample\<close>

definition sample_group_json :: json where
  "sample_group_json = JObject [(''id'', JText ''g1@g.us''), (''name'', JText '' ''), (''participantsCount'', JNumber 7), (''participants'',
     JArray [JObject [(''id'', JText ''1@lid''), (''number'', JText ''1''), (''isAdmin'', JBool True), (''isSuperAdmin'', JBool False)]])]"

definition silent :: "string \<Rightarrow> string option" where
  "silent name = None"

definition plain_reader :: js_reader where
  "plain_reader = \<lparr>jd_number = (\<lambda>s. None), jd_date = (\<lambda>s. None)\<rparr>"

definition answered :: "nat \<Rightarrow> json \<Rightarrow> string + http_response" where
  "answered status v = Inr \<lparr>hr_status = status, hr_header = silent, hr_text = Inr [], hr_json = Inr v\<rparr>"

text \<open>A gateway that is overloaded once.\<close>

definition sample_exchange :: "json \<Rightarrow> exchange" where
  "sample_exchange v = \<lparr>ex_answer = (\<lambda>k. if k = 0 then answered 503 JNull else answered 200 v), ex_wall = (\<lambda>k. 0),
     ex_noise = (\<lambda>k. 0)\<rparr>"

lemma requests_bounded_witness:
  "\<exists>res ds. request plain_reader (sample_exchange sample_group_json) ''health'' ''GET'' (parsed (\<lambda>v. 1) group_schema) = (res, ds)
     \<and> length ds \<le> 16 \<and> res = settle_answer plain_reader (sample_exchange sample_group_json) ''health'' (parsed (\<lambda>v. 1) group_schema) (length ds)"
proof -
  obtain res ds where req: "request plain_reader (sample_exchange sample_group_json) ''health'' ''GET''
      (parsed (\<lambda>v. 1) group_schema) = (res, ds)" by fastforce
  have "\<And>k. 0 \<le> ex_noise (sample_exchange sample_group_json) k \<and> ex_noise (sample_exchange sample_group_json) k < 1"
    by (simp add: sample_exchange_def)
  from requests_bounded [OF req this] req show ?thesis by blast
qed

lemma sample_group_read:
  "\<exists>g. client_get_group plain_reader (\<lambda>v. 1) (\<lambda>path. \<lparr>ex_answer = (\<lambda>k. answered 200 sample_group_json), ex_wall = (\<lambda>k. 0),
     ex_noise = (\<lambda>k. 0)\<rparr>) ''s1'' ''g1@g.us'' = (Inr g, []) \<and> length (og_participants g) = 1 \<and> gsu_participants_count g = Some 7"
  by (simp add: client_get_group_def request_def request_loop.simps answered_def retried_read_def settle_response_def
    parsed_def group_schema_def sample_group_json_def group_summary_schema_def non_empty_def optional_text_def
    optional_count_def optional_bool_def nullable_text_def optional_integer_def array_of_def participant_schema_def
    required_bool_def member_add_mode_def group_summary.defs openwa_group.defs)

lemma group_reads_well_formed_witness:
  "\<exists>g. client_get_group plain_reader (\<lambda>v. 1) (\<lambda>path. \<lparr>ex_answer = (\<lambda>k. answered 200 sample_group_json), ex_wall = (\<lambda>k. 0),
     ex_noise = (\<lambda>k. 0)\<rparr>) ''s1'' ''g1@g.us'' = (Inr g, []) \<and> gsu_participants_count g = Some 7 \<and> js_trim (gsu_name g) \<noteq> []"
  using sample_group_read group_reads_well_formed by metis

end
