(* ===== verification/Data_Retention.thy ===== *)
theory Data_Retention
  imports Contact_Resolution Webhooks
begin

text \<open>
  The retention of src/src/modules/orchestration/data-retention.tick.ts: seven bounded DELETE statements per
  batch, one transaction, repeated until a batch deletes less than it may. Each DELETE takes its oldest
  candidates, and the foreign keys of the migrations delete what belongs to them.
\<close>

section \<open>Deleting the oldest candidates\<close>

text \<open>
  DELETE ... USING (SELECT ... ORDER BY key LIMIT n) by a key column: the rows that are left and the keys of
  the deleted ones.
\<close>

definition delete_top ::
  "nat \<Rightarrow> ('r \<Rightarrow> 'k :: linorder) \<Rightarrow> ('r \<Rightarrow> bool) \<Rightarrow> ('r \<Rightarrow> 'i) \<Rightarrow> 'r table \<Rightarrow> 'r table \<times> 'i list" where
  "delete_top n order P ident rows = (let ids = map ident (sql_top n order P rows) in
     (sql_delete (\<lambda>r. ident r \<in> set ids) rows, ids))"

lemma delete_top_mem:
  "r \<in> set (fst (delete_top n order P ident rows)) \<longleftrightarrow> r \<in> set rows \<and> ident r \<notin> set (snd (delete_top n order P ident rows))"
  by (simp add: delete_top_def)

lemma delete_top_ids:
  "i \<in> set (snd (delete_top n order P ident rows)) \<Longrightarrow> \<exists>r \<in> set rows. ident r = i \<and> P r"
  using set_sql_top [of n order P rows] by (auto simp: delete_top_def)

lemma delete_top_spares:
  assumes "keyed ident rows" and "r \<in> set rows" and "\<not> P r"
  shows "ident r \<notin> set (snd (delete_top n order P ident rows))"
proof
  assume "ident r \<in> set (snd (delete_top n order P ident rows))"
  then obtain r' where "r' \<in> set rows" "ident r' = ident r" "P r'" using delete_top_ids by metis
  with assms show False by (metis keyed_inj)
qed

lemma delete_top_drained:
  assumes "length (snd (delete_top n order P ident rows)) < n" and "r \<in> set (fst (delete_top n order P ident rows))"
  shows "\<not> P r"
proof
  assume P: "P r"
  have r: "r \<in> set rows" "ident r \<notin> set (snd (delete_top n order P ident rows))" using assms(2) delete_top_mem by metis+
  have "length (sql_top n order P rows) < n" using assms(1) by (simp add: delete_top_def)
  then have "set (sql_top n order P rows) = {r \<in> set rows. P r}" by (rule sql_top_short_all)
  then show False using r P by (auto simp: delete_top_def)
qed

lemma delete_top_keyed [intro]: "keyed k rows \<Longrightarrow> keyed k (fst (delete_top n order P ident rows))"
  by (auto simp: delete_top_def)

section \<open>The statements\<close>

record retention_db =
  rd_db :: db
  rd_events :: event_db
  rd_intents :: "observation_intent table"
  rd_webhooks :: "webhook_event table"
  rd_contacts :: contact_db

definition run_expired :: "timestamp \<Rightarrow> campaign_run \<Rightarrow> bool" where
  "run_expired cutoff r \<longleftrightarrow> cr_status r \<in> {R_COMPLETED, R_PARTIAL_FAILED, R_CANCELLED, R_FAILED} \<and> cr_updated_at r < cutoff"

definition delete_campaign_runs :: "timestamp \<Rightarrow> nat \<Rightarrow> db \<Rightarrow> db \<times> nat" where
  "delete_campaign_runs cutoff n d =
     (case delete_top n (\<lambda>r. (cr_updated_at r, cr_id r)) (run_expired cutoff) cr_id (campaign_runs d) of (runs, ids) \<Rightarrow>
        (d\<lparr>campaign_runs := runs, run_targets := sql_delete (\<lambda>t. rt_run_id t \<in> set ids) (run_targets d),
           deliveries := sql_delete (\<lambda>x. cd_run_id x \<in> set ids) (deliveries d)\<rparr>, length ids))"

definition job_expired :: "timestamp \<Rightarrow> message_job \<Rightarrow> bool" where
  "job_expired cutoff j \<longleftrightarrow> mj_status j \<in> {J_ACCEPTED, J_SENT, J_DELIVERED, J_READ, J_FAILED, J_UNKNOWN,
       J_DRY_RUN_COMPLETED, J_CANCELLED}
     \<and> mj_updated_at j < cutoff"

definition delivered :: "delivery table \<Rightarrow> uuid \<Rightarrow> bool" where
  "delivered ds jid \<longleftrightarrow> Some jid \<in> cd_job_id ` set ds"

definition delete_message_jobs :: "timestamp \<Rightarrow> nat \<Rightarrow> db \<Rightarrow> db \<times> nat" where
  "delete_message_jobs cutoff n d =
     (case delete_top n (\<lambda>j. (mj_updated_at j, mj_id j)) (\<lambda>j. job_expired cutoff j \<and> \<not> delivered (deliveries d) (mj_id j))
         mj_id (message_jobs d) of (jobs, ids) \<Rightarrow>
        (d\<lparr>message_jobs := jobs, message_attempts := sql_delete (\<lambda>a. ma_job_id a \<in> set ids) (message_attempts d)\<rparr>,
         length ids))"

definition inbound_expired :: "timestamp \<Rightarrow> inbound_message \<Rightarrow> bool" where
  "inbound_expired cutoff m \<longleftrightarrow> im_created_at m < cutoff"

definition delete_inbound_messages :: "timestamp \<Rightarrow> nat \<Rightarrow> event_db \<Rightarrow> event_db \<times> nat" where
  "delete_inbound_messages cutoff n d =
     (case delete_top n (\<lambda>m. (im_created_at m, im_event_id m)) (inbound_expired cutoff) im_event_id (ed_inbound d) of
        (ms, ids) \<Rightarrow> (d\<lparr>ed_inbound := ms\<rparr>, length ids))"

definition event_expired :: "timestamp \<Rightarrow> stored_event \<Rightarrow> bool" where
  "event_expired cutoff e \<longleftrightarrow> ev_created_at e < cutoff"

definition delete_runtime_events ::
  "timestamp \<Rightarrow> nat \<Rightarrow> event_db \<Rightarrow> observation_intent table \<Rightarrow> event_db \<times> observation_intent table \<times> nat" where
  "delete_runtime_events cutoff n d intents =
     (case delete_top n (\<lambda>e. (ev_created_at e, ev_id e)) (event_expired cutoff) ev_id (ed_events d) of (es, ids) \<Rightarrow>
        (d\<lparr>ed_events := es, ed_message_events := sql_delete (\<lambda>m. me_event_id m \<in> set ids) (ed_message_events d),
           ed_inbound := sql_delete (\<lambda>m. im_event_id m \<in> set ids) (ed_inbound d)\<rparr>,
         sql_delete (\<lambda>i. oi_key i \<in> set ids) intents, length ids))"

text \<open>Rows of the same time are taken in the order of the key; the id of webhook_events is random.\<close>

definition webhook_expired :: "timestamp \<Rightarrow> webhook_event \<Rightarrow> bool" where
  "webhook_expired cutoff w \<longleftrightarrow> we_state w \<in> {W_PROCESSED, W_DEAD} \<and> coalesce (we_processed_at w) (we_received_at w) < cutoff"

definition delete_webhook_events :: "timestamp \<Rightarrow> nat \<Rightarrow> webhook_event table \<Rightarrow> webhook_event table \<times> nat" where
  "delete_webhook_events cutoff n ws =
     (case delete_top n (\<lambda>w. (coalesce (we_processed_at w) (we_received_at w), we_key w)) (webhook_expired cutoff) we_key ws of
        (ws', ids) \<Rightarrow> (ws', length ids))"

definition sync_expired :: "timestamp \<Rightarrow> sync_run \<Rightarrow> bool" where
  "sync_expired cutoff r \<longleftrightarrow> sr_status r \<in> {SY_COMPLETED, SY_FAILED} \<and> null_before (sr_completed_at r) cutoff"

definition delete_sync_runs :: "timestamp \<Rightarrow> nat \<Rightarrow> sync_db \<Rightarrow> sync_db \<times> nat" where
  "delete_sync_runs cutoff n d =
     (case delete_top n (\<lambda>r. (coalesce (sr_completed_at r) 0, sr_id r)) (sync_expired cutoff) sr_id (sync_runs d) of
        (runs, ids) \<Rightarrow> (d\<lparr>sync_runs := runs, sync_items := sql_delete (\<lambda>x. si_run_id x \<in> set ids) (sync_items d)\<rparr>,
          length ids))"

text \<open>A push name that a later one of the same identity supersedes, while nothing reads the session's names.\<close>

definition push_name :: "name_observation \<Rightarrow> bool" where
  "push_name o' \<longleftrightarrow> no_generation o' = None \<and> no_source o' = OPENWA_PUSH_NAME"

definition observation_rank :: "name_observation \<Rightarrow> timestamp \<times> string \<times> uuid" where
  "observation_rank o' = (no_observed_at o', no_key o', no_id o')"

definition observation_idle :: "contact_db \<Rightarrow> name_observation \<Rightarrow> bool" where
  "observation_idle d x \<longleftrightarrow>
     \<not> (\<exists>r \<in> set (kd_runs d). rr_session r = no_session x \<and> rr_status r \<in> {RR_PENDING, RR_RUNNING, RR_RETRY})
     \<and> \<not> (\<exists>w \<in> set (kd_work d). pw_session w = no_session x \<and> pw_status w \<in> {P_PENDING, P_RUNNING, P_RETRY})
     \<and> \<not> (\<exists>c \<in> set (kd_clusters d). cl_session c = no_session x \<and> map_option snd (cl_name c) = Some (no_id x))"

definition superseded :: "contact_db \<Rightarrow> name_observation \<Rightarrow> bool" where
  "superseded d x \<longleftrightarrow> (\<exists>y \<in> set (kd_names d). no_session y = no_session x \<and> no_identity_id y = no_identity_id x
     \<and> no_source y = no_source x \<and> no_generation y = None \<and> observation_rank x < observation_rank y)"

definition redundant_observation :: "timestamp \<Rightarrow> contact_db \<Rightarrow> name_observation \<Rightarrow> bool" where
  "redundant_observation cutoff d x \<longleftrightarrow> push_name x \<and> no_created_at x < cutoff \<and> superseded d x \<and> observation_idle d x"

definition observation_key :: "name_observation \<Rightarrow> string \<times> uuid" where
  "observation_key x = (no_session x, no_id x)"

definition delete_redundant_observations :: "timestamp \<Rightarrow> nat \<Rightarrow> contact_db \<Rightarrow> contact_db \<times> nat" where
  "delete_redundant_observations cutoff n d =
     (case delete_top n (\<lambda>x. (no_created_at x, no_id x)) (redundant_observation cutoff d) observation_key (kd_names d) of
        (xs, ids) \<Rightarrow> (d\<lparr>kd_names := xs\<rparr>, length ids))"

section \<open>Batches\<close>

record cutoffs =
  co_operational :: timestamp
  co_event :: timestamp
  co_inbox :: timestamp
  co_webhook :: timestamp
  co_contact :: timestamp

definition day_ms :: int where "day_ms = 86400000"

text \<open>CONTACT_MESSAGE_OBSERVATION_RETENTION_DAYS is the argument contact_days.\<close>

definition cutoffs_of :: "runtime_config \<Rightarrow> int \<Rightarrow> timestamp \<Rightarrow> cutoffs" where
  "cutoffs_of c contact_days now = \<lparr>co_operational = now - cfg_retention_days c * day_ms,
     co_event = now - cfg_event_retention_days c * day_ms, co_inbox = now - cfg_inbox_retention_days c * day_ms,
     co_webhook = now - cfg_raw_webhook_retention_days c * day_ms, co_contact = now - contact_days * day_ms\<rparr>"

definition retention_batch :: "cutoffs \<Rightarrow> nat \<Rightarrow> retention_db \<Rightarrow> retention_db \<times> nat list" where
  "retention_batch co n d =
     (let (d1, runs) = delete_campaign_runs (co_operational co) n (rd_db d);
          (d2, jobs) = delete_message_jobs (co_operational co) n d1;
          (e1, inbound) = delete_inbound_messages (co_inbox co) n (rd_events d);
          (e2, intents, events) = delete_runtime_events (co_event co) n e1 (rd_intents d);
          (ws, webhooks) = delete_webhook_events (co_webhook co) n (rd_webhooks d);
          g = ed_gateway e2;
          (sd, syncs) = delete_sync_runs (co_operational co) n (gw_sync g);
          (kd, observations) = delete_redundant_observations (co_contact co) n (rd_contacts d) in
      (\<lparr>rd_db = d2, rd_events = e2\<lparr>ed_gateway := g\<lparr>gw_sync := sd\<rparr>\<rparr>, rd_intents = intents, rd_webhooks = ws, rd_contacts = kd\<rparr>,
       [runs, jobs, inbound, events, webhooks, syncs, observations]))"

record retention_total =
  rx_counts :: "nat list"
  rx_batches :: nat
  rx_exhausted :: bool

text \<open>
  The loop over the batches: how many it may still run, how many it ran, and whether the time budget is spent
  before the k-th.
\<close>

primrec retention_loop ::
  "cutoffs \<Rightarrow> nat \<Rightarrow> (nat \<Rightarrow> bool) \<Rightarrow> nat \<Rightarrow> nat \<Rightarrow> nat list \<Rightarrow> retention_db \<Rightarrow> retention_db \<times> retention_total" where
  "retention_loop co n spent 0 k counts d = (d, \<lparr>rx_counts = counts, rx_batches = k, rx_exhausted = True\<rparr>)"
| "retention_loop co n spent (Suc left) k counts d =
     (if spent k then (d, \<lparr>rx_counts = counts, rx_batches = k, rx_exhausted = True\<rparr>)
      else (case retention_batch co n d of (d', current) \<Rightarrow>
        let counts' = map2 (+) counts current in
        if \<forall>x \<in> set current. x < n then (d', \<lparr>rx_counts = counts', rx_batches = Suc k, rx_exhausted = False\<rparr>)
        else retention_loop co n spent left (Suc k) counts' d'))"

definition cleanup :: "runtime_config \<Rightarrow> int \<Rightarrow> timestamp \<Rightarrow> (nat \<Rightarrow> bool) \<Rightarrow> retention_db \<Rightarrow> retention_db \<times> retention_total" where
  "cleanup c contact_days now spent d = retention_loop (cutoffs_of c contact_days now) (nat (cfg_retention_batch_size c)) spent
     (nat (cfg_retention_max_batches c)) 0 (replicate 7 0) d"

section \<open>What a batch leaves\<close>

text \<open>Keys are unique, and what a foreign key names exists.\<close>

definition refers :: "('c \<Rightarrow> 'k) \<Rightarrow> 'c table \<Rightarrow> ('r \<Rightarrow> 'k) \<Rightarrow> 'r table \<Rightarrow> bool" where
  "refers f children key rows \<longleftrightarrow> f ` set children \<subseteq> key ` set rows"

definition run_links :: "db \<Rightarrow> bool" where
  "run_links d \<longleftrightarrow> keyed cr_id (campaign_runs d) \<and> keyed mj_id (message_jobs d)
     \<and> refers cd_run_id (deliveries d) cr_id (campaign_runs d) \<and> refers rt_run_id (run_targets d) cr_id (campaign_runs d)
     \<and> refers ma_job_id (message_attempts d) mj_id (message_jobs d)
     \<and> (\<forall>x \<in> set (deliveries d). \<forall>jid. cd_job_id x = Some jid \<longrightarrow> jid \<in> mj_id ` set (message_jobs d))"

definition event_links :: "event_db \<Rightarrow> observation_intent table \<Rightarrow> bool" where
  "event_links d intents \<longleftrightarrow> keyed ev_id (ed_events d) \<and> keyed im_event_id (ed_inbound d)
     \<and> refers me_event_id (ed_message_events d) ev_id (ed_events d)
     \<and> refers im_event_id (ed_inbound d) ev_id (ed_events d) \<and> refers oi_key intents ev_id (ed_events d)"

definition sync_links :: "sync_db \<Rightarrow> bool" where
  "sync_links d \<longleftrightarrow> keyed sr_id (sync_runs d) \<and> refers si_run_id (sync_items d) sr_id (sync_runs d)"

definition retention_wf :: "retention_db \<Rightarrow> bool" where
  "retention_wf d \<longleftrightarrow> run_links (rd_db d) \<and> event_links (rd_events d) (rd_intents d)
     \<and> keyed we_key (rd_webhooks d) \<and> sync_links (gw_sync (ed_gateway (rd_events d)))
     \<and> keyed observation_key (kd_names (rd_contacts d))"

text \<open>A table after deletions: no new rows, and every row that may not be deleted is still there.\<close>

definition kept_unless :: "('r \<Rightarrow> bool) \<Rightarrow> 'r table \<Rightarrow> 'r table \<Rightarrow> bool" where
  "kept_unless P rows rows' \<longleftrightarrow> set rows' \<subseteq> set rows \<and> (\<forall>r \<in> set rows. \<not> P r \<longrightarrow> r \<in> set rows')"

text \<open>
  What may be deleted, said of the states that are still live: a run that has not ended, a job, webhook or
  synchronization that is waiting or being worked on, and a name that something uses are not disposable.
\<close>

definition run_disposable :: "timestamp \<Rightarrow> campaign_run \<Rightarrow> bool" where
  "run_disposable cutoff r \<longleftrightarrow> cr_updated_at r < cutoff
     \<and> cr_status r \<notin> {R_PREPARING, R_BLOCKED, R_SCHEDULED, R_RUNNING, R_PAUSED}"

definition job_disposable :: "timestamp \<Rightarrow> message_job \<Rightarrow> bool" where
  "job_disposable cutoff j \<longleftrightarrow> mj_updated_at j < cutoff \<and> mj_status j \<notin> {J_SCHEDULED, J_QUEUED, J_PROCESSING}"

definition webhook_disposable :: "timestamp \<Rightarrow> webhook_event \<Rightarrow> bool" where
  "webhook_disposable cutoff w \<longleftrightarrow> we_state w \<notin> {W_PENDING, W_PROCESSING, W_RETRY}
     \<and> (case we_processed_at w of Some t \<Rightarrow> t < cutoff | None \<Rightarrow> we_received_at w < cutoff)"

definition sync_disposable :: "timestamp \<Rightarrow> sync_run \<Rightarrow> bool" where
  "sync_disposable cutoff r \<longleftrightarrow> sr_status r \<notin> {SY_PENDING, SY_RUNNING} \<and> (\<exists>t. sr_completed_at r = Some t \<and> t < cutoff)"

definition name_disposable :: "timestamp \<Rightarrow> contact_db \<Rightarrow> name_observation \<Rightarrow> bool" where
  "name_disposable cutoff d x \<longleftrightarrow> no_source x = OPENWA_PUSH_NAME \<and> no_generation x = None \<and> no_created_at x < cutoff
     \<and> (\<exists>y \<in> set (kd_names d). no_session y = no_session x \<and> no_identity_id y = no_identity_id x
          \<and> no_source y = OPENWA_PUSH_NAME \<and> no_generation y = None \<and> no_observed_at x \<le> no_observed_at y \<and> no_id y \<noteq> no_id x)
     \<and> (\<forall>r \<in> set (kd_runs d). rr_session r = no_session x \<longrightarrow> rr_status r \<in> {RR_COMPLETED, RR_FAILED})
     \<and> (\<forall>w \<in> set (kd_work d). pw_session w = no_session x \<longrightarrow> pw_status w \<in> {P_IDLE, P_FAILED})
     \<and> (\<forall>c \<in> set (kd_clusters d). cl_session c = no_session x \<longrightarrow> map_option snd (cl_name c) \<noteq> Some (no_id x))"

text \<open>A row is deleted with the row it belongs to, and only with it.\<close>

definition orphan :: "('c \<Rightarrow> 'k) \<Rightarrow> ('r \<Rightarrow> 'k) \<Rightarrow> 'r table \<Rightarrow> 'c \<Rightarrow> bool" where
  "orphan f key rows x \<longleftrightarrow> f x \<notin> key ` set rows"

definition runs_spared :: "timestamp \<Rightarrow> db \<Rightarrow> db \<Rightarrow> bool" where
  "runs_spared cutoff d d' \<longleftrightarrow> kept_unless (run_disposable cutoff) (campaign_runs d) (campaign_runs d')
     \<and> kept_unless (orphan rt_run_id cr_id (campaign_runs d')) (run_targets d) (run_targets d')
     \<and> kept_unless (orphan cd_run_id cr_id (campaign_runs d')) (deliveries d) (deliveries d')
     \<and> kept_unless (\<lambda>j. job_disposable cutoff j \<and> \<not> delivered (deliveries d') (mj_id j)) (message_jobs d) (message_jobs d')
     \<and> kept_unless (orphan ma_job_id mj_id (message_jobs d')) (message_attempts d) (message_attempts d')"

definition events_spared ::
  "timestamp \<Rightarrow> timestamp \<Rightarrow> event_db \<times> observation_intent table \<Rightarrow> event_db \<times> observation_intent table \<Rightarrow> bool" where
  "events_spared cutoff inbox s s' \<longleftrightarrow> (case (s, s') of ((d, intents), (d', intents')) \<Rightarrow>
     kept_unless (\<lambda>e. ev_created_at e < cutoff) (ed_events d) (ed_events d')
     \<and> kept_unless (\<lambda>m. im_created_at m < inbox \<or> orphan im_event_id ev_id (ed_events d') m) (ed_inbound d) (ed_inbound d')
     \<and> kept_unless (orphan me_event_id ev_id (ed_events d')) (ed_message_events d) (ed_message_events d')
     \<and> kept_unless (orphan oi_key ev_id (ed_events d')) intents intents')"

definition syncs_spared :: "timestamp \<Rightarrow> sync_db \<Rightarrow> sync_db \<Rightarrow> bool" where
  "syncs_spared cutoff d d' \<longleftrightarrow> kept_unless (sync_disposable cutoff) (sync_runs d) (sync_runs d')
     \<and> kept_unless (orphan si_run_id sr_id (sync_runs d')) (sync_items d) (sync_items d')"

definition names_spared :: "timestamp \<Rightarrow> contact_db \<Rightarrow> contact_db \<Rightarrow> bool" where
  "names_spared cutoff d d' \<longleftrightarrow> d' = d\<lparr>kd_names := kd_names d'\<rparr> \<and> kept_unless (name_disposable cutoff d) (kd_names d) (kd_names d')
     \<and> (\<forall>x \<in> set (kd_names d). (\<forall>y \<in> set (kd_names d). push_name y \<and> no_session y = no_session x
          \<and> no_identity_id y = no_identity_id x \<longrightarrow> \<not> observation_rank x < observation_rank y) \<longrightarrow> x \<in> set (kd_names d'))"

definition spares :: "cutoffs \<Rightarrow> retention_db \<Rightarrow> retention_db \<Rightarrow> bool" where
  "spares co d d' \<longleftrightarrow> runs_spared (co_operational co) (rd_db d) (rd_db d')
     \<and> events_spared (co_event co) (co_inbox co) (rd_events d, rd_intents d) (rd_events d', rd_intents d')
     \<and> kept_unless (webhook_disposable (co_webhook co)) (rd_webhooks d) (rd_webhooks d')
     \<and> syncs_spared (co_operational co) (gw_sync (ed_gateway (rd_events d))) (gw_sync (ed_gateway (rd_events d')))
     \<and> names_spared (co_contact co) (rd_contacts d) (rd_contacts d')"

subsection \<open>The relations are preorders\<close>

lemma kept_refl [simp]: "kept_unless P rows rows"
  by (simp add: kept_unless_def)

lemma kept_trans:
  assumes "kept_unless P a b" and "kept_unless Q b c" and "\<And>r. P r \<Longrightarrow> R r" and "\<And>r. Q r \<Longrightarrow> R r"
  shows "kept_unless R a c"
  using assms unfolding kept_unless_def by blast

lemma kept_mono: "kept_unless P a b \<Longrightarrow> (\<And>r. P r \<Longrightarrow> Q r) \<Longrightarrow> kept_unless Q a b"
  unfolding kept_unless_def by blast

lemma kept_subset: "kept_unless P a b \<Longrightarrow> set b \<subseteq> set a"
  by (simp add: kept_unless_def)

lemma orphan_mono: "set b \<subseteq> set a \<Longrightarrow> orphan f key a x \<Longrightarrow> orphan f key b x"
  by (auto simp: orphan_def)

lemma redundant_antimono:
  assumes "redundant_observation cutoff (d\<lparr>kd_names := xs\<rparr>) x" and "set xs \<subseteq> set (kd_names d)"
  shows "redundant_observation cutoff d x"
  using assms by (auto simp: redundant_observation_def superseded_def observation_idle_def)

lemma delivered_mono: "set b \<subseteq> set a \<Longrightarrow> delivered b jid \<Longrightarrow> delivered a jid"
  by (auto simp: delivered_def)

lemma runs_spared_trans: "runs_spared c d1 d2 \<Longrightarrow> runs_spared c d2 d3 \<Longrightarrow> runs_spared c d1 d3"
proof -
  assume a: "runs_spared c d1 d2" and b: "runs_spared c d2 d3"
  note a' = a [unfolded runs_spared_def] and b' = b [unfolded runs_spared_def]
  have runs: "set (campaign_runs d3) \<subseteq> set (campaign_runs d2)" and jobs: "set (message_jobs d3) \<subseteq> set (message_jobs d2)"
    and dels: "set (deliveries d3) \<subseteq> set (deliveries d2)"
    using b' by (auto dest: kept_subset)
  have "kept_unless (run_disposable c) (campaign_runs d1) (campaign_runs d3)"
    by (rule kept_trans [of "run_disposable c" _ "campaign_runs d2" "run_disposable c"]) (use a' b' in auto)
  moreover have "kept_unless (orphan rt_run_id cr_id (campaign_runs d3)) (run_targets d1) (run_targets d3)"
    by (rule kept_trans [OF a' [THEN conjunct2, THEN conjunct1] b' [THEN conjunct2, THEN conjunct1]])
      (auto elim: orphan_mono [OF runs])
  moreover have "kept_unless (orphan cd_run_id cr_id (campaign_runs d3)) (deliveries d1) (deliveries d3)"
    by (rule kept_trans [OF a' [THEN conjunct2, THEN conjunct2, THEN conjunct1]
          b' [THEN conjunct2, THEN conjunct2, THEN conjunct1]]) (auto elim: orphan_mono [OF runs])
  moreover have "kept_unless (\<lambda>j. job_disposable c j \<and> \<not> delivered (deliveries d3) (mj_id j)) (message_jobs d1) (message_jobs d3)"
    by (rule kept_trans [OF a' [THEN conjunct2, THEN conjunct2, THEN conjunct2, THEN conjunct1]
          b' [THEN conjunct2, THEN conjunct2, THEN conjunct2, THEN conjunct1]]) (use delivered_mono [OF dels] in blast)+
  moreover have "kept_unless (orphan ma_job_id mj_id (message_jobs d3)) (message_attempts d1) (message_attempts d3)"
    by (rule kept_trans [OF a' [THEN conjunct2, THEN conjunct2, THEN conjunct2, THEN conjunct2]
          b' [THEN conjunct2, THEN conjunct2, THEN conjunct2, THEN conjunct2]]) (auto elim: orphan_mono [OF jobs])
  ultimately show ?thesis unfolding runs_spared_def by blast
qed

lemma events_spared_trans:
  assumes "events_spared c i s1 s2" and "events_spared c i s2 s3"
  shows "events_spared c i s1 s3"
proof -
  obtain d1 i1 d2 i2 d3 i3 where s: "s1 = (d1, i1)" "s2 = (d2, i2)" "s3 = (d3, i3)" by (metis surj_pair)
  note a = assms(1) [unfolded s events_spared_def prod.case] and b = assms(2) [unfolded s events_spared_def prod.case]
  have evs: "set (ed_events d3) \<subseteq> set (ed_events d2)" using b by (auto dest: kept_subset)
  have "kept_unless (\<lambda>e. ev_created_at e < c) (ed_events d1) (ed_events d3)"
    by (rule kept_trans [OF a [THEN conjunct1] b [THEN conjunct1]])
  moreover have "kept_unless (\<lambda>m. im_created_at m < i \<or> orphan im_event_id ev_id (ed_events d3) m) (ed_inbound d1) (ed_inbound d3)"
    by (rule kept_trans [OF a [THEN conjunct2, THEN conjunct1] b [THEN conjunct2, THEN conjunct1]])
      (use orphan_mono [OF evs, of im_event_id ev_id] in blast)+
  moreover have "kept_unless (orphan me_event_id ev_id (ed_events d3)) (ed_message_events d1) (ed_message_events d3)"
    by (rule kept_trans [OF a [THEN conjunct2, THEN conjunct2, THEN conjunct1] b [THEN conjunct2, THEN conjunct2, THEN conjunct1]])
      (auto elim: orphan_mono [OF evs])
  moreover have "kept_unless (orphan oi_key ev_id (ed_events d3)) i1 i3"
    by (rule kept_trans [OF a [THEN conjunct2, THEN conjunct2, THEN conjunct2] b [THEN conjunct2, THEN conjunct2, THEN conjunct2]])
      (auto elim: orphan_mono [OF evs])
  ultimately show ?thesis unfolding s events_spared_def prod.case by blast
qed

lemma syncs_spared_trans: "syncs_spared c d1 d2 \<Longrightarrow> syncs_spared c d2 d3 \<Longrightarrow> syncs_spared c d1 d3"
proof -
  assume a: "syncs_spared c d1 d2" and b: "syncs_spared c d2 d3"
  note a' = a [unfolded syncs_spared_def] and b' = b [unfolded syncs_spared_def]
  have runs: "set (sync_runs d3) \<subseteq> set (sync_runs d2)" using b' by (auto dest: kept_subset)
  have "kept_unless (sync_disposable c) (sync_runs d1) (sync_runs d3)"
    by (rule kept_trans [of "sync_disposable c" _ "sync_runs d2" "sync_disposable c"]) (use a' b' in auto)
  moreover have "kept_unless (orphan si_run_id sr_id (sync_runs d3)) (sync_items d1) (sync_items d3)"
    by (rule kept_trans [OF a' [THEN conjunct2] b' [THEN conjunct2]]) (auto elim: orphan_mono [OF runs])
  ultimately show ?thesis unfolding syncs_spared_def by blast
qed

text \<open>What the statement finds redundant is disposable, and no newest name is.\<close>

lemma redundant_disposable:
  assumes "keyed observation_key (kd_names d)" and "x \<in> set (kd_names d)" and "redundant_observation cutoff d x"
  shows "name_disposable cutoff d x"
proof -
  obtain y where y: "y \<in> set (kd_names d)" "no_session y = no_session x" "no_identity_id y = no_identity_id x"
      "no_source y = no_source x" "no_generation y = None" "observation_rank x < observation_rank y"
    using assms(3) unfolding redundant_observation_def superseded_def by blast
  have "no_id y \<noteq> no_id x"
    using keyed_inj [OF assms(1) y(1) assms(2)] y(2,6) by (auto simp: observation_key_def)
  moreover have "no_observed_at x \<le> no_observed_at y" using y(6) by (auto simp: observation_rank_def less_prod_def)
  moreover have "rr_status r \<in> {RR_COMPLETED, RR_FAILED}" if "r \<in> set (kd_runs d)" "rr_session r = no_session x" for r
    using assms(3) that unfolding redundant_observation_def observation_idle_def by (cases "rr_status r") auto
  moreover have "pw_status w \<in> {P_IDLE, P_FAILED}" if "w \<in> set (kd_work d)" "pw_session w = no_session x" for w
    using assms(3) that unfolding redundant_observation_def observation_idle_def by (cases "pw_status w") auto
  moreover have "no_source x = OPENWA_PUSH_NAME" "no_generation x = None" "no_created_at x < cutoff"
      "\<forall>c \<in> set (kd_clusters d). cl_session c = no_session x \<longrightarrow> map_option snd (cl_name c) \<noteq> Some (no_id x)"
    using assms(3) unfolding redundant_observation_def observation_idle_def push_name_def by auto
  ultimately show ?thesis using y(1-5) unfolding name_disposable_def by metis
qed

lemma names_sparedI:
  assumes "d' = d\<lparr>kd_names := xs\<rparr>" and "kept_unless (name_disposable cutoff d) (kd_names d) xs"
    and "\<And>x. x \<in> set (kd_names d) \<Longrightarrow> \<forall>y \<in> set (kd_names d). push_name y \<and> no_session y = no_session x
          \<and> no_identity_id y = no_identity_id x \<longrightarrow> \<not> observation_rank x < observation_rank y \<Longrightarrow> x \<in> set xs"
  shows "names_spared cutoff d d'"
  unfolding names_spared_def using assms by auto

lemma disposable_antimono:
  assumes "name_disposable cutoff (d\<lparr>kd_names := xs\<rparr>) x" and "set xs \<subseteq> set (kd_names d)"
  shows "name_disposable cutoff d x"
  using assms unfolding name_disposable_def by auto

lemma names_spared_trans: "names_spared c d1 d2 \<Longrightarrow> names_spared c d2 d3 \<Longrightarrow> names_spared c d1 d3"
proof -
  assume a: "names_spared c d1 d2" and b: "names_spared c d2 d3"
  then have d: "d2 = d1\<lparr>kd_names := kd_names d2\<rparr>" "d3 = d2\<lparr>kd_names := kd_names d3\<rparr>"
    and k: "kept_unless (name_disposable c d1) (kd_names d1) (kd_names d2)"
      "kept_unless (name_disposable c d2) (kd_names d2) (kd_names d3)"
    unfolding names_spared_def by blast+
  have mono: "name_disposable c d2 x \<Longrightarrow> name_disposable c d1 x" for x
    using disposable_antimono [OF _ kept_subset [OF k(1)]] d(1) by metis
  have d3: "d3 = d1\<lparr>kd_names := kd_names d3\<rparr>" using d by (metis contact_db.update_convs(3) contact_db.surjective contact_db.select_convs(3))
  show ?thesis
  proof (rule names_sparedI [OF d3 kept_trans [OF k]])
    fix x
    assume x: "x \<in> set (kd_names d1)" and top: "\<forall>y \<in> set (kd_names d1). push_name y \<and> no_session y = no_session x
        \<and> no_identity_id y = no_identity_id x \<longrightarrow> \<not> observation_rank x < observation_rank y"
    then have "x \<in> set (kd_names d2)" using a unfolding names_spared_def by blast
    with top show "x \<in> set (kd_names d3)" using b kept_subset [OF k(1)] unfolding names_spared_def by blast
  qed (use mono in blast)+
qed

lemma spares_trans: "spares co d1 d2 \<Longrightarrow> spares co d2 d3 \<Longrightarrow> spares co d1 d3"
  unfolding spares_def
  using runs_spared_trans names_spared_trans events_spared_trans syncs_spared_trans
    kept_trans [of "webhook_disposable (co_webhook co)" "rd_webhooks d1" "rd_webhooks d2" "webhook_disposable (co_webhook co)"
      "rd_webhooks d3" "webhook_disposable (co_webhook co)"] by blast

lemma spares_refl: "spares co d d"
proof -
  have "names_spared (co_contact co) (rd_contacts d) (rd_contacts d)"
    by (rule names_sparedI [where xs = "kd_names (rd_contacts d)"]) simp_all
  then show ?thesis by (simp add: spares_def runs_spared_def events_spared_def syncs_spared_def)
qed

subsection \<open>The statements spare what is not expired\<close>

lemma delete_top_kept: "keyed ident rows \<Longrightarrow> kept_unless P rows (fst (delete_top n order P ident rows))"
  unfolding kept_unless_def using delete_top_mem delete_top_spares by (metis subsetI)

lemma run_expired_disposable: "run_expired cutoff r \<Longrightarrow> run_disposable cutoff r"
  by (auto simp: run_expired_def run_disposable_def)

lemma job_expired_disposable: "job_expired cutoff j \<Longrightarrow> job_disposable cutoff j"
  by (auto simp: job_expired_def job_disposable_def)

lemma webhook_expired_disposable: "webhook_expired cutoff w \<Longrightarrow> webhook_disposable cutoff w"
  by (auto simp: webhook_expired_def webhook_disposable_def split: option.splits)

lemma sync_expired_disposable: "sync_expired cutoff r \<Longrightarrow> sync_disposable cutoff r"
  by (cases "sr_completed_at r") (auto simp: sync_expired_def sync_disposable_def)

lemma cascade:
  fixes n order P key rows
  defines "del \<equiv> delete_top n order P key rows"
  assumes "refers f cs key rows"
  shows "refers f (sql_delete (\<lambda>x. f x \<in> set (snd del)) cs) key (fst del)"
    and "kept_unless (orphan f key (fst del)) cs (sql_delete (\<lambda>x. f x \<in> set (snd del)) cs)"
proof -
  have rest: "key ` set (fst del) = key ` set rows - set (snd del)"
    unfolding del_def by (auto simp: delete_top_def)
  show "refers f (sql_delete (\<lambda>x. f x \<in> set (snd del)) cs) key (fst del)"
    using assms(2) unfolding refers_def rest by auto
  show "kept_unless (orphan f key (fst del)) cs (sql_delete (\<lambda>x. f x \<in> set (snd del)) cs)"
    unfolding kept_unless_def orphan_def rest by auto
qed

lemma refers_subset: "refers f cs key rows \<Longrightarrow> set cs' \<subseteq> set cs \<Longrightarrow> refers f cs' key rows"
  by (auto simp: refers_def)

lemma delete_runs_spares:
  assumes "run_links d" and "delete_campaign_runs cutoff n d = (d', k)"
  shows "run_links d' \<and> runs_spared cutoff d d'"
proof -
  let ?del = "delete_top n (\<lambda>r. (cr_updated_at r, cr_id r)) (run_expired cutoff) cr_id (campaign_runs d)"
  have d': "d' = d\<lparr>campaign_runs := fst ?del, run_targets := sql_delete (\<lambda>t. rt_run_id t \<in> set (snd ?del)) (run_targets d),
      deliveries := sql_delete (\<lambda>x. cd_run_id x \<in> set (snd ?del)) (deliveries d)\<rparr>"
    using assms(2) by (auto simp: delete_campaign_runs_def split: prod.splits)
  note wf = assms(1) [unfolded run_links_def]
  have keyed: "keyed cr_id (campaign_runs d)" using wf by blast
  have job_kept: "kept_unless P (message_jobs d) (message_jobs d)" and attempt_kept: "kept_unless Q (message_attempts d) (message_attempts d)"
    for P Q by simp_all
  note targets = cascade [of rt_run_id "run_targets d" cr_id "campaign_runs d" n "\<lambda>r. (cr_updated_at r, cr_id r)" "run_expired cutoff"]
    and dels = cascade [of cd_run_id "deliveries d" cr_id "campaign_runs d" n "\<lambda>r. (cr_updated_at r, cr_id r)" "run_expired cutoff"]
  have "run_links d'"
    using wf targets(1) dels(1) unfolding run_links_def d' by (simp add: delete_top_keyed [OF keyed]) blast
  moreover have "runs_spared cutoff d d'"
    using wf targets(2) dels(2) job_kept attempt_kept unfolding runs_spared_def d' by (simp add: kept_mono [OF delete_top_kept [OF keyed] run_expired_disposable])
  ultimately show ?thesis by blast
qed

lemma delete_jobs_spares:
  assumes "run_links d" and "delete_message_jobs cutoff n d = (d', k)"
  shows "run_links d' \<and> runs_spared cutoff d d'"
proof -
  let ?P = "\<lambda>j. job_expired cutoff j \<and> \<not> delivered (deliveries d) (mj_id j)"
  let ?del = "delete_top n (\<lambda>j. (mj_updated_at j, mj_id j)) ?P mj_id (message_jobs d)"
  have d': "d' = d\<lparr>message_jobs := fst ?del,
      message_attempts := sql_delete (\<lambda>a. ma_job_id a \<in> set (snd ?del)) (message_attempts d)\<rparr>"
    using assms(2) by (auto simp: delete_message_jobs_def split: prod.splits)
  note wf = assms(1) [unfolded run_links_def]
  have keyed: "keyed mj_id (message_jobs d)" using wf by blast
  have kept_links: "kept_unless (orphan rt_run_id cr_id (campaign_runs d)) (run_targets d) (run_targets d)" by simp
  have jobs_kept: "kept_unless (\<lambda>j. job_disposable cutoff j \<and> \<not> delivered (deliveries d) (mj_id j)) (message_jobs d) (fst ?del)"
    by (rule kept_mono [OF delete_top_kept [OF keyed]]) (use job_expired_disposable in blast)
  note attempts = cascade [of ma_job_id "message_attempts d" mj_id "message_jobs d" n "\<lambda>j. (mj_updated_at j, mj_id j)" ?P]
  have "jid \<in> mj_id ` set (fst ?del)" if "x \<in> set (deliveries d)" "cd_job_id x = Some jid" for x jid
  proof -
    have "jid \<in> mj_id ` set (message_jobs d)" using that wf by blast
    then obtain j where j: "j \<in> set (message_jobs d)" "mj_id j = jid" by auto
    have "delivered (deliveries d) (mj_id j)" using that j(2) by (force simp: delivered_def)
    then have "j \<in> set (fst ?del)" using delete_top_kept [OF keyed, of ?P] j(1) unfolding kept_unless_def by blast
    then show ?thesis using j(2) by blast
  qed
  then have "run_links d'"
    using wf attempts(1) unfolding run_links_def d' by (simp add: delete_top_keyed [OF keyed])
  moreover have "runs_spared cutoff d d'"
    using wf attempts(2) kept_links jobs_kept unfolding runs_spared_def d' by simp
  ultimately show ?thesis by blast
qed

lemma delete_inbound_links:
  assumes "event_links d intents" and "delete_inbound_messages cutoff n d = (d', k)"
  shows "event_links d' intents \<and> events_spared c cutoff (d, intents) (d', intents) \<and> ed_gateway d' = ed_gateway d"
proof -
  let ?del = "delete_top n (\<lambda>m. (im_created_at m, im_event_id m)) (inbound_expired cutoff) im_event_id (ed_inbound d)"
  have d': "d' = d\<lparr>ed_inbound := fst ?del\<rparr>"
    using assms(2) by (auto simp: delete_inbound_messages_def split: prod.splits)
  note wf = assms(1) [unfolded event_links_def]
  have keyed: "keyed im_event_id (ed_inbound d)" using wf by blast
  note kept = delete_top_kept [OF keyed, of "inbound_expired cutoff" n "\<lambda>m. (im_created_at m, im_event_id m)"]
  have "refers im_event_id (fst ?del) ev_id (ed_events d)" using refers_subset [OF _ kept_subset [OF kept]] wf by blast
  then have "event_links d' intents"
    using wf unfolding event_links_def d' by (simp add: delete_top_keyed [OF keyed])
  moreover have "kept_unless (\<lambda>m. im_created_at m < cutoff \<or> Q m) (ed_inbound d) (fst ?del)" for Q
    using kept unfolding kept_unless_def inbound_expired_def by blast
  then have "events_spared c cutoff (d, intents) (d', intents)"
    by (simp add: events_spared_def d')
  ultimately show ?thesis by (simp add: d')
qed

lemma delete_events_spares:
  assumes "event_links d intents" and "delete_runtime_events cutoff n d intents = (d', intents', k)"
  shows "event_links d' intents' \<and> events_spared cutoff i (d, intents) (d', intents') \<and> ed_gateway d' = ed_gateway d"
proof -
  let ?del = "delete_top n (\<lambda>e. (ev_created_at e, ev_id e)) (event_expired cutoff) ev_id (ed_events d)"
  have d': "d' = d\<lparr>ed_events := fst ?del, ed_message_events := sql_delete (\<lambda>m. me_event_id m \<in> set (snd ?del)) (ed_message_events d),
      ed_inbound := sql_delete (\<lambda>m. im_event_id m \<in> set (snd ?del)) (ed_inbound d)\<rparr>"
      "intents' = sql_delete (\<lambda>i. oi_key i \<in> set (snd ?del)) intents"
    using assms(2) by (auto simp: delete_runtime_events_def split: prod.splits)
  note wf = assms(1) [unfolded event_links_def]
  have keyed: "keyed ev_id (ed_events d)" "keyed im_event_id (ed_inbound d)" using wf by blast+
  let ?o = "\<lambda>e. (ev_created_at e, ev_id e)"
  have events_kept: "kept_unless (\<lambda>e. ev_created_at e < cutoff) (ed_events d) (fst ?del)"
    by (rule kept_mono [OF delete_top_kept [OF keyed(1)]]) (simp add: event_expired_def)
  note mes = cascade [of me_event_id "ed_message_events d" ev_id "ed_events d" n ?o "event_expired cutoff"]
    and inb = cascade [of im_event_id "ed_inbound d" ev_id "ed_events d" n ?o "event_expired cutoff"]
    and ints = cascade [of oi_key intents ev_id "ed_events d" n ?o "event_expired cutoff"]
  have "event_links d' intents'"
    using wf mes(1) inb(1) ints(1) keyed_sql_delete [OF keyed(2)]
    unfolding event_links_def d' by (simp add: delete_top_keyed [OF keyed(1)])
  moreover have "kept_unless (\<lambda>m. im_created_at m < i \<or> orphan im_event_id ev_id (fst ?del) m) (ed_inbound d) (ed_inbound d')"
    using inb(2) wf unfolding kept_unless_def d' by simp
  then have "events_spared cutoff i (d, intents) (d', intents')"
    using wf mes(2) ints(2) events_kept unfolding events_spared_def d' by simp
  ultimately show ?thesis by (simp add: d')
qed

lemma delete_webhooks_spares:
  assumes "keyed we_key ws" and "delete_webhook_events cutoff n ws = (ws', k)"
  shows "keyed we_key ws' \<and> kept_unless (webhook_disposable cutoff) ws ws'"
proof -
  have "ws' = fst (delete_top n (\<lambda>w. (coalesce (we_processed_at w) (we_received_at w), we_key w)) (webhook_expired cutoff) we_key ws)"
    using assms(2) by (auto simp: delete_webhook_events_def split: prod.splits)
  then show ?thesis
    by (simp add: delete_top_keyed [OF assms(1)] kept_mono [OF delete_top_kept [OF assms(1)] webhook_expired_disposable])
qed

lemma delete_syncs_spares:
  assumes "sync_links d" and "delete_sync_runs cutoff n d = (d', k)"
  shows "sync_links d' \<and> syncs_spared cutoff d d'"
proof -
  let ?o = "\<lambda>r. (coalesce (sr_completed_at r) 0, sr_id r)"
  let ?del = "delete_top n ?o (sync_expired cutoff) sr_id (sync_runs d)"
  have d': "d' = d\<lparr>sync_runs := fst ?del, sync_items := sql_delete (\<lambda>x. si_run_id x \<in> set (snd ?del)) (sync_items d)\<rparr>"
    using assms(2) by (auto simp: delete_sync_runs_def split: prod.splits)
  note wf = assms(1) [unfolded sync_links_def]
  have keyed: "keyed sr_id (sync_runs d)" using wf by blast
  note items = cascade [of si_run_id "sync_items d" sr_id "sync_runs d" n ?o "sync_expired cutoff"]
  show ?thesis
    using wf items unfolding sync_links_def syncs_spared_def d'
    by (simp add: delete_top_keyed [OF keyed] kept_mono [OF delete_top_kept [OF keyed] sync_expired_disposable])
qed

lemma delete_names_spares:
  assumes "keyed observation_key (kd_names d)" and "delete_redundant_observations cutoff n d = (d', k)"
  shows "keyed observation_key (kd_names d') \<and> names_spared cutoff d d'"
proof -
  let ?del = "delete_top n (\<lambda>x. (no_created_at x, no_id x)) (redundant_observation cutoff d) observation_key (kd_names d)"
  have d': "d' = d\<lparr>kd_names := fst ?del\<rparr>"
    using assms(2) by (auto simp: delete_redundant_observations_def split: prod.splits)
  have kept: "kept_unless (redundant_observation cutoff d) (kd_names d) (fst ?del)" by (rule delete_top_kept [OF assms(1)])
  have "names_spared cutoff d d'"
  proof (rule names_sparedI [OF d'])
    show "kept_unless (name_disposable cutoff d) (kd_names d) (fst ?del)"
      using kept redundant_disposable [OF assms(1)] unfolding kept_unless_def by blast
    fix x
    assume x: "x \<in> set (kd_names d)" and top: "\<forall>y \<in> set (kd_names d). push_name y \<and> no_session y = no_session x
        \<and> no_identity_id y = no_identity_id x \<longrightarrow> \<not> observation_rank x < observation_rank y"
    have "\<not> redundant_observation cutoff d x"
      using top unfolding redundant_observation_def superseded_def push_name_def by metis
    then show "x \<in> set (fst ?del)" using x kept unfolding kept_unless_def by blast
  qed
  then show ?thesis using delete_top_keyed [OF assms(1)] by (simp add: d')
qed

lemma retention_batch_spares:
  assumes wf: "retention_wf d" and batch: "retention_batch co n d = (d', counts)"
  shows "retention_wf d' \<and> spares co d d'"
proof -
  obtain d1 runs where s1: "delete_campaign_runs (co_operational co) n (rd_db d) = (d1, runs)" by fastforce
  obtain d2 jobs where s2: "delete_message_jobs (co_operational co) n d1 = (d2, jobs)" by fastforce
  obtain e1 inbound where s3: "delete_inbound_messages (co_inbox co) n (rd_events d) = (e1, inbound)" by fastforce
  obtain e2 intents events where s4: "delete_runtime_events (co_event co) n e1 (rd_intents d) = (e2, intents, events)"
    by (metis prod_cases3)
  obtain ws webhooks where s5: "delete_webhook_events (co_webhook co) n (rd_webhooks d) = (ws, webhooks)" by fastforce
  obtain sd syncs where s6: "delete_sync_runs (co_operational co) n (gw_sync (ed_gateway e2)) = (sd, syncs)" by fastforce
  obtain kd obs where s7: "delete_redundant_observations (co_contact co) n (rd_contacts d) = (kd, obs)" by fastforce
  have d': "d' = \<lparr>rd_db = d2, rd_events = e2\<lparr>ed_gateway := (ed_gateway e2)\<lparr>gw_sync := sd\<rparr>\<rparr>, rd_intents = intents,
      rd_webhooks = ws, rd_contacts = kd\<rparr>"
    using batch by (simp add: retention_batch_def s1 s2 s3 s4 s5 s6 s7 Let_def)
  note w = wf [unfolded retention_wf_def]
  have r1: "run_links d1" "runs_spared (co_operational co) (rd_db d) d1" using delete_runs_spares [OF _ s1] w by simp_all
  have r2: "run_links d2" "runs_spared (co_operational co) d1 d2" using delete_jobs_spares [OF r1(1) s2] by simp_all
  have r3: "event_links e1 (rd_intents d)" "ed_gateway e1 = ed_gateway (rd_events d)"
      "events_spared (co_event co) (co_inbox co) (rd_events d, rd_intents d) (e1, rd_intents d)"
    using delete_inbound_links [OF _ s3, of "rd_intents d"] w by simp_all
  have r4: "event_links e2 intents" "ed_gateway e2 = ed_gateway (rd_events d)"
      "events_spared (co_event co) (co_inbox co) (e1, rd_intents d) (e2, intents)"
    using delete_events_spares [OF r3(1) s4] r3(2) by simp_all
  have r6: "sync_links sd" "syncs_spared (co_operational co) (gw_sync (ed_gateway (rd_events d))) sd"
    using delete_syncs_spares [OF _ s6] w unfolding r4(2) by blast+
  have "event_links (e2\<lparr>ed_gateway := g\<rparr>) intents" for g using r4(1) by (simp add: event_links_def)
  moreover have "events_spared (co_event co) (co_inbox co) (rd_events d, rd_intents d) (e2\<lparr>ed_gateway := g\<rparr>, intents)" for g
    using events_spared_trans [OF r3(3) r4(3)] by (simp add: events_spared_def)
  ultimately show ?thesis
    using r2 r6 delete_webhooks_spares [OF _ s5] delete_names_spares [OF _ s7] w runs_spared_trans [OF r1(2) r2(2)]
    by (simp add: retention_wf_def spares_def d')
qed

lemma retention_loop_spares:
  "retention_wf d \<Longrightarrow> retention_loop co n spent left k counts d = (d', tot) \<Longrightarrow>
   retention_wf d' \<and> spares co d d' \<and> rx_batches tot \<le> k + left"
proof (induction left arbitrary: k counts d)
  case 0
  then show ?case by (auto simp: spares_refl)
next
  case (Suc left)
  obtain d1 current where batch: "retention_batch co n d = (d1, current)" by fastforce
  note first = retention_batch_spares [OF Suc.prems(1) batch]
  show ?case
  proof (cases "spent k")
    case True
    then show ?thesis using Suc.prems by (auto simp: spares_refl)
  next
    case go: False
    show ?thesis
    proof (cases "\<forall>x \<in> set current. x < n")
      case True
      then show ?thesis using Suc.prems(2) go first by (auto simp: batch Let_def)
    next
      case False
      then have "retention_loop co n spent left (Suc k) (map2 (+) counts current) d1 = (d', tot)"
        using Suc.prems(2) go by (simp add: batch Let_def del: bex_simps ball_simps)
      from Suc.IH [OF conjunct1 [OF first] this] first show ?thesis using spares_trans by auto
    qed
  qed
qed

text \<open>C10: Retention deletes only what has expired. A run that has not ended, a job that waits or is being sent, a webhook
  or a synchronization that waits or runs is never deleted, nor is any of them, or an event, before its limit. A job stays
  while a delivery names it. An inbound message goes only when it is older than its limit or its event goes, and a contact
  name only when it is a push name older than its limit, superseded by one of the same identity that was not observed
  before it, and no resolution or projection of its session is unfinished and no cluster of the session shows it; the
  newest push name of an identity always stays. The targets and deliveries of a run, the attempts of a job, the items of
  a synchronization, and the message events and observation intents of an event go with it and only with it. No table
  gains a row, keys stay unique, and no row is left that refers to a deleted one.\<close>

theorem retention_spares_live_work:
  assumes "retention_wf d" and "cleanup c contact_days now spent d = (d', tot)"
  shows "retention_wf d' \<and> spares (cutoffs_of c contact_days now) d d'"
  using retention_loop_spares [OF assms(1) assms(2) [unfolded cleanup_def]] by blast

text \<open>Nothing that may be deleted is left.\<close>

definition drained :: "cutoffs \<Rightarrow> retention_db \<Rightarrow> bool" where
  "drained co d \<longleftrightarrow> (\<forall>r \<in> set (campaign_runs (rd_db d)). \<not> run_expired (co_operational co) r)
     \<and> (\<forall>j \<in> set (message_jobs (rd_db d)). job_expired (co_operational co) j \<longrightarrow> delivered (deliveries (rd_db d)) (mj_id j))
     \<and> (\<forall>m \<in> set (ed_inbound (rd_events d)). \<not> inbound_expired (co_inbox co) m)
     \<and> (\<forall>e \<in> set (ed_events (rd_events d)). \<not> event_expired (co_event co) e)
     \<and> (\<forall>w \<in> set (rd_webhooks d). \<not> webhook_expired (co_webhook co) w)
     \<and> (\<forall>r \<in> set (sync_runs (gw_sync (ed_gateway (rd_events d)))). \<not> sync_expired (co_operational co) r)
     \<and> (\<forall>x \<in> set (kd_names (rd_contacts d)). \<not> redundant_observation (co_contact co) (rd_contacts d) x)"

lemma retention_batch_drains:
  assumes "retention_batch co n d = (d', counts)" and "\<forall>x \<in> set counts. x < n"
  shows "drained co d'"
proof -
  let ?d1 = "fst (delete_campaign_runs (co_operational co) n (rd_db d))"
  let ?runs = "delete_top n (\<lambda>r. (cr_updated_at r, cr_id r)) (run_expired (co_operational co)) cr_id (campaign_runs (rd_db d))"
  let ?P = "\<lambda>j. job_expired (co_operational co) j \<and> \<not> delivered (deliveries ?d1) (mj_id j)"
  let ?jobs = "delete_top n (\<lambda>j. (mj_updated_at j, mj_id j)) ?P mj_id (message_jobs ?d1)"
  let ?inbound = "delete_top n (\<lambda>m. (im_created_at m, im_event_id m)) (inbound_expired (co_inbox co)) im_event_id
    (ed_inbound (rd_events d))"
  let ?events = "delete_top n (\<lambda>e. (ev_created_at e, ev_id e)) (event_expired (co_event co)) ev_id (ed_events (rd_events d))"
  let ?webhooks = "delete_top n (\<lambda>w. (coalesce (we_processed_at w) (we_received_at w), we_key w))
    (webhook_expired (co_webhook co)) we_key (rd_webhooks d)"
  let ?syncs = "delete_top n (\<lambda>r. (coalesce (sr_completed_at r) 0, sr_id r)) (sync_expired (co_operational co)) sr_id
    (sync_runs (gw_sync (ed_gateway (rd_events d))))"
  let ?names = "delete_top n (\<lambda>x. (no_created_at x, no_id x)) (redundant_observation (co_contact co) (rd_contacts d))
    observation_key (kd_names (rd_contacts d))"
  have counts: "counts = [length (snd ?runs), length (snd ?jobs), length (snd ?inbound), length (snd ?events),
      length (snd ?webhooks), length (snd ?syncs), length (snd ?names)]"
    and rows: "campaign_runs (rd_db d') = fst ?runs" "message_jobs (rd_db d') = fst ?jobs"
      "deliveries (rd_db d') = deliveries ?d1" "set (ed_inbound (rd_events d')) \<subseteq> set (fst ?inbound)"
      "ed_events (rd_events d') = fst ?events" "rd_webhooks d' = fst ?webhooks"
      "sync_runs (gw_sync (ed_gateway (rd_events d'))) = fst ?syncs" "rd_contacts d' = (rd_contacts d)\<lparr>kd_names := fst ?names\<rparr>"
    using assms(1)
    by (auto simp: retention_batch_def delete_campaign_runs_def delete_message_jobs_def delete_inbound_messages_def
      delete_runtime_events_def delete_webhook_events_def delete_sync_runs_def delete_redundant_observations_def Let_def
      split: prod.splits)
  have small: "length (snd ?runs) < n" "length (snd ?jobs) < n" "length (snd ?inbound) < n" "length (snd ?events) < n"
      "length (snd ?webhooks) < n" "length (snd ?syncs) < n" "length (snd ?names) < n"
    using assms(2) unfolding counts by simp_all
  have names: "set (fst ?names) \<subseteq> set (kd_names (rd_contacts d))" by (auto simp: delete_top_mem)
  have "\<not> redundant_observation (co_contact co) (rd_contacts d') x" if "x \<in> set (kd_names (rd_contacts d'))" for x
  proof -
    have "x \<in> set (fst ?names)" using that unfolding rows by simp
    from delete_top_drained [OF small(7) this] show ?thesis
      unfolding rows using redundant_antimono [OF _ names] by blast
  qed
  then show ?thesis
    using delete_top_drained [OF small(1)] delete_top_drained [OF small(2)] delete_top_drained [OF small(3)]
      delete_top_drained [OF small(4)] delete_top_drained [OF small(5)] delete_top_drained [OF small(6)] rows(4)
    unfolding drained_def rows(1-3,5-7) by blast
qed

lemma retention_loop_drains:
  "retention_loop co n spent left k counts d = (d', tot) \<Longrightarrow> \<not> rx_exhausted tot \<Longrightarrow> drained co d'"
proof (induction left arbitrary: k counts d)
  case 0
  then show ?case by auto
next
  case (Suc left)
  obtain d1 current where batch: "retention_batch co n d = (d1, current)" by fastforce
  show ?case
  proof (cases "spent k \<or> (\<forall>x \<in> set current. x < n)")
    case True
    then show ?thesis using Suc.prems retention_batch_drains [OF batch] by (auto simp: batch Let_def split: if_splits)
  next
    case False
    then have "retention_loop co n spent left (Suc k) (map2 (+) counts current) d1 = (d', tot)"
      using Suc.prems(1) by (simp add: batch Let_def del: bex_simps ball_simps)
    from Suc.IH [OF this Suc.prems(2)] show ?thesis .
  qed
qed

text \<open>A retention that does not report its capacity as exhausted has deleted everything that may be deleted, and it
  never runs more batches than it is given.\<close>

theorem retention_drains:
  assumes "retention_wf d" and "cleanup c contact_days now spent d = (d', tot)"
  shows "(\<not> rx_exhausted tot \<longrightarrow> drained (cutoffs_of c contact_days now) d')
    \<and> rx_batches tot \<le> nat (cfg_retention_max_batches c)"
  using retention_loop_drains [OF assms(2) [unfolded cleanup_def]]
    retention_loop_spares [OF assms(1) assms(2) [unfolded cleanup_def]] by simp

section \<open>A sample\<close>

text \<open>A webhook that waits since the beginning of time.\<close>

definition retention_sample :: retention_db where
  "retention_sample = \<lparr>rd_db = empty_db,
     rd_events = \<lparr>ed_events = [], ed_inbound = [], ed_message_events = [], ed_gateway = sample_gateway\<rparr>, rd_intents = [],
     rd_webhooks = [new_webhook (sample_envelope ''delivered'') 0],
     rd_contacts = \<lparr>kd_identities = [], kd_links = [], kd_names = [], kd_generations = [], kd_runs = [], kd_clusters = [],
       kd_assignments = [], kd_conflicts = [], kd_work = [], kd_revision_seq = 0\<rparr>\<rparr>"

lemma retention_sample_wf: "retention_wf retention_sample"
  by (simp add: retention_wf_def retention_sample_def run_links_def event_links_def sync_links_def empty_db_def
    refers_def sample_gateway_def keyed_def)

lemma retention_spares_live_work_witness:
  "\<forall>c. new_webhook (sample_envelope ''delivered'') 0
     \<in> set (rd_webhooks (fst (cleanup c 30 1000000000000 (\<lambda>k. False) retention_sample)))"
proof
  fix c
  let ?w = "new_webhook (sample_envelope ''delivered'') 0"
  obtain d' tot where c: "cleanup c 30 1000000000000 (\<lambda>k. False) retention_sample = (d', tot)" by fastforce
  have "?w \<in> set (rd_webhooks retention_sample)" "\<not> webhook_disposable (co_webhook (cutoffs_of c 30 1000000000000)) ?w"
    by (simp_all add: retention_sample_def webhook_disposable_def new_webhook_def)
  then have "?w \<in> set (rd_webhooks d')"
    using retention_spares_live_work [OF retention_sample_wf c] unfolding spares_def kept_unless_def by blast
  then show "?w \<in> set (rd_webhooks (fst (cleanup c 30 1000000000000 (\<lambda>k. False) retention_sample)))" unfolding c by simp
qed

lemma retention_drains_witness:
  "\<forall>c. rx_batches (snd (cleanup c 30 1000000000000 (\<lambda>k. False) retention_sample)) \<le> nat (cfg_retention_max_batches c)"
proof
  fix c
  obtain d' tot where c: "cleanup c 30 1000000000000 (\<lambda>k. False) retention_sample = (d', tot)" by fastforce
  show "rx_batches (snd (cleanup c 30 1000000000000 (\<lambda>k. False) retention_sample)) \<le> nat (cfg_retention_max_batches c)"
    using retention_drains [OF retention_sample_wf c] unfolding c by simp
qed

end
