(* ===== verification/Scheduler.thy ===== *)
theory Scheduler
  imports Prelude
begin

text \<open>
  The scheduler's ticks, src/src/modules/orchestration/isolated-scheduler-tick.ts, as a step machine: the
  timers it has set, the calls of execute that are under way, and what the callbacks do at which time. The dispatch of
  gateway work (gateway-dispatch.tick.ts) and the wake-ups of gateway-work-listener.service.ts are the
  operation and the second caller of one of them.
\<close>

section \<open>An isolated tick\<close>

record tick_options =
  to_interval :: int
  to_timeout :: int
  to_max_backoff :: int

text \<open>
  A call of execute: it awaits its first report, its operation, or its last report; a call that overlaps
  another returns at once. Only the calls of the timer schedule the next one.
\<close>

datatype run_phase = BeforeOperation | Operating | AfterOperation

record tick_run =
  tr_phase :: run_phase
  tr_by_timer :: bool
  tr_started :: timestamp

text \<open>
  \<open>tk_armed\<close> holds the timers that were set and neither fired nor cleared, each with the time it is due;
  \<open>tk_timer\<close> is the one the field timer refers to. Setting a timer overwrites the field and clears nothing.
\<close>

record tick =
  tk_running :: bool
  tk_stopped :: bool
  tk_timed_out :: bool
  tk_failures :: nat
  tk_last_started :: "timestamp option"
  tk_last_success :: "timestamp option"
  tk_last_failure :: "timestamp option"
  tk_last_duration :: "int option"
  tk_next_run :: "timestamp option"
  tk_timer :: "nat option"
  tk_armed :: "(nat \<times> timestamp) list"
  tk_timers :: nat
  tk_runs :: "tick_run list"

definition new_tick :: tick where
  "new_tick = \<lparr>tk_running = False, tk_stopped = True, tk_timed_out = False, tk_failures = 0, tk_last_started = None,
     tk_last_success = None, tk_last_failure = None, tk_last_duration = None, tk_next_run = None, tk_timer = None,
     tk_armed = [], tk_timers = 0, tk_runs = []\<rparr>"

definition next_delay_ms :: "tick_options \<Rightarrow> nat \<Rightarrow> int" where
  "next_delay_ms c failures = (if failures = 0 then to_interval c
     else min (to_max_backoff c) (to_interval c * 2 ^ min failures 10))"

definition schedule_tick :: "int \<Rightarrow> timestamp \<Rightarrow> tick \<Rightarrow> tick" where
  "schedule_tick delay now t = (if tk_stopped t then t
     else t\<lparr>tk_next_run := Some (now + delay), tk_timer := Some (tk_timers t),
       tk_armed := tk_armed t @ [(tk_timers t, now + delay)], tk_timers := Suc (tk_timers t)\<rparr>)"

definition start_tick :: "timestamp \<Rightarrow> tick \<Rightarrow> tick" where
  "start_tick now t = (if \<not> tk_stopped t then t else schedule_tick 0 now (t\<lparr>tk_stopped := False\<rparr>))"

definition stop_tick :: "tick \<Rightarrow> tick" where
  "stop_tick t = t\<lparr>tk_stopped := True, tk_timer := None, tk_next_run := None,
     tk_armed := (case tk_timer t of None \<Rightarrow> tk_armed t | Some i \<Rightarrow> filter (\<lambda>a. fst a \<noteq> i) (tk_armed t))\<rparr>"

definition begin_run :: "bool \<Rightarrow> timestamp \<Rightarrow> tick \<Rightarrow> tick" where
  "begin_run by_timer now t =
     (if tk_running t
      then t\<lparr>tk_runs := tk_runs t @ [\<lparr>tr_phase = AfterOperation, tr_by_timer = by_timer, tr_started = now\<rparr>]\<rparr>
      else t\<lparr>tk_running := True, tk_timed_out := False, tk_last_started := Some now, tk_next_run := None,
        tk_runs := tk_runs t @ [\<lparr>tr_phase = BeforeOperation, tr_by_timer = by_timer, tr_started = now\<rparr>]\<rparr>)"

text \<open>A timer fires: the callback empties the field, whichever timer it refers to, and calls execute.\<close>

definition fire_timer :: "nat \<Rightarrow> timestamp \<Rightarrow> tick \<Rightarrow> tick" where
  "fire_timer i now t =
     begin_run True now (t\<lparr>tk_timer := None, tk_armed := filter (\<lambda>a. fst a \<noteq> i) (tk_armed t)\<rparr>)"

text \<open>The timeout only marks the run; the operation goes on.\<close>

definition time_out_tick :: "tick \<Rightarrow> tick" where
  "time_out_tick t = t\<lparr>tk_timed_out := True\<rparr>"

definition settle_tick :: "tick_options \<Rightarrow> timestamp \<Rightarrow> timestamp \<Rightarrow> bool \<Rightarrow> tick \<Rightarrow> tick" where
  "settle_tick c started now failed t =
     (let bad = failed \<or> tk_timed_out t; failures = (if bad then Suc (tk_failures t) else 0) in
      t\<lparr>tk_running := False, tk_failures := failures, tk_last_duration := Some (now - started),
        tk_last_failure := (if bad then Some now else tk_last_failure t),
        tk_last_success := (if bad then tk_last_success t else Some now),
        tk_next_run := Some (now + next_delay_ms c failures)\<rparr>)"

definition after_run :: "tick_options \<Rightarrow> bool \<Rightarrow> timestamp \<Rightarrow> tick \<Rightarrow> tick" where
  "after_run c by_timer now t = (if by_timer then
     schedule_tick (max 0 (case tk_next_run t of Some n \<Rightarrow> n - now | None \<Rightarrow> to_interval c)) now t else t)"

text \<open>One step at a time that never goes back; \<open>xs @ r # ys\<close> picks one of the calls under way.\<close>

inductive tick_step :: "tick_options \<Rightarrow> timestamp \<times> tick \<Rightarrow> timestamp \<times> tick \<Rightarrow> bool" for c where
  start: "now \<le> now' \<Longrightarrow> tick_step c (now, t) (now', start_tick now' t)"
| stop: "now \<le> now' \<Longrightarrow> tick_step c (now, t) (now', stop_tick t)"
| fire: "now \<le> now' \<Longrightarrow> (i, due) \<in> set (tk_armed t) \<Longrightarrow> due \<le> now' \<Longrightarrow>
    tick_step c (now, t) (now', fire_timer i now' t)"
| wake: "now \<le> now' \<Longrightarrow> tick_step c (now, t) (now', begin_run False now' t)"
| operate: "now \<le> now' \<Longrightarrow> tk_runs t = xs @ r # ys \<Longrightarrow> tr_phase r = BeforeOperation \<Longrightarrow>
    tick_step c (now, t) (now', t\<lparr>tk_runs := xs @ r\<lparr>tr_phase := Operating\<rparr> # ys\<rparr>)"
| time_out: "now \<le> now' \<Longrightarrow> r \<in> set (tk_runs t) \<Longrightarrow> tr_phase r = Operating \<Longrightarrow> tr_started r + to_timeout c \<le> now' \<Longrightarrow>
    tick_step c (now, t) (now', time_out_tick t)"
| settle: "now \<le> now' \<Longrightarrow> tk_runs t = xs @ r # ys \<Longrightarrow> tr_phase r = Operating \<Longrightarrow>
    tick_step c (now, t) (now', settle_tick c (tr_started r) now' failed
      (t\<lparr>tk_runs := xs @ r\<lparr>tr_phase := AfterOperation\<rparr> # ys\<rparr>))"
| finish: "now \<le> now' \<Longrightarrow> tk_runs t = xs @ r # ys \<Longrightarrow> tr_phase r = AfterOperation \<Longrightarrow>
    tick_step c (now, t) (now', after_run c (tr_by_timer r) now' (t\<lparr>tk_runs := xs @ ys\<rparr>))"

definition active_runs :: "tick \<Rightarrow> tick_run list" where
  "active_runs t = filter (\<lambda>r. tr_phase r \<noteq> AfterOperation) (tk_runs t)"

text \<open>The longest a started tick is away from its next run.\<close>

definition longest_delay :: "tick_options \<Rightarrow> int" where
  "longest_delay c = max (to_interval c) (to_max_backoff c)"

lemma next_delay_range:
  assumes "0 < to_interval c" and "0 < to_max_backoff c"
  shows "0 < next_delay_ms c failures \<and> next_delay_ms c failures \<le> longest_delay c"
  using assms by (simp add: next_delay_ms_def longest_delay_def le_max_iff_disj min.coboundedI1)

definition tick_inv :: "tick_options \<Rightarrow> timestamp \<times> tick \<Rightarrow> bool" where
  "tick_inv c s \<longleftrightarrow> (case s of (now, t) \<Rightarrow>
     length (active_runs t) = (if tk_running t then 1 else 0)
     \<and> (\<not> tk_stopped t \<longrightarrow> tk_armed t \<noteq> [] \<or> (\<exists>r \<in> set (tk_runs t). tr_by_timer r))
     \<and> (\<forall>a \<in> set (tk_armed t). snd a \<le> now + longest_delay c)
     \<and> (\<forall>n. tk_next_run t = Some n \<longrightarrow> n \<le> now + longest_delay c))"

lemma tick_inv_step:
  assumes "0 < to_interval c" and "0 < to_max_backoff c"
  shows "tick_step c s s' \<Longrightarrow> tick_inv c s \<Longrightarrow> tick_inv c s'"
proof (induction rule: tick_step.induct)
  case (start now now' t)
  then show ?case using assms
    by (auto simp: tick_inv_def start_tick_def schedule_tick_def active_runs_def longest_delay_def)
next
  case (stop now now' t)
  then show ?case by (force simp: tick_inv_def stop_tick_def active_runs_def split: option.splits)
next
  case (fire now now' i due t)
  then show ?case by (force simp: tick_inv_def fire_timer_def begin_run_def active_runs_def)
next
  case (wake now now' t)
  then show ?case by (auto simp: tick_inv_def begin_run_def active_runs_def)
next
  case (operate now now' t xs r ys)
  then show ?case by (auto simp: tick_inv_def active_runs_def)
next
  case (time_out now now' r t)
  then show ?case by (auto simp: tick_inv_def active_runs_def time_out_tick_def)
next
  case (settle now now' t xs r ys failed)
  then show ?case
    using next_delay_range [OF assms]
    by (auto simp: tick_inv_def active_runs_def settle_tick_def Let_def split: if_splits)
next
  case (finish now now' t xs r ys)
  then show ?case using assms
    by (auto simp: tick_inv_def active_runs_def after_run_def schedule_tick_def longest_delay_def split: option.splits)
qed

lemma tick_inv_reachable:
  assumes "0 < to_interval c" and "0 < to_max_backoff c" and "rtranclp (tick_step c) (t0, new_tick) s"
  shows "tick_inv c s"
  using assms(3)
proof (induction rule: rtranclp_induct)
  case base
  then show ?case by (simp add: tick_inv_def new_tick_def active_runs_def)
next
  case (step s s')
  then show ?case using tick_inv_step [OF assms(1,2)] by blast
qed

text \<open>C22: Whatever the order in which a tick is started, stopped, fired by its timers, woken by a notification, timed
  out and settled, at most one of its operations is under way, also after a stop and a start during a run have left two
  timers set; and a tick that is started does not fall silent: a call made by a timer has not returned yet, be its
  operation slow or hung, or a timer is set that is due at most the longer of the interval and the backoff limit ahead,
  and none is set that is due later.\<close>

theorem ticks_never_overlap:
  assumes "0 < to_interval c" and "0 < to_max_backoff c"
    and "rtranclp (tick_step c) (t0, new_tick) (now, t)"
  shows "length (active_runs t) \<le> 1
    \<and> (\<not> tk_stopped t \<longrightarrow> (\<exists>r \<in> set (tk_runs t). tr_by_timer r) \<or> tk_armed t \<noteq> [])
    \<and> (\<forall>a \<in> set (tk_armed t). snd a \<le> now + longest_delay c)"
  using tick_inv_reachable [OF assms] by (auto simp: tick_inv_def split: if_splits)

text \<open>
  A tick that was started, has fired, and is stopped and started during the run. The timer of the second start fires
  during the run too, its call is skipped as an overlap and sets a timer, and the end of the run sets another: the
  next stop clears only the latter.
\<close>

definition restarted_tick :: tick where
  "restarted_tick = start_tick 3 (stop_tick (fire_timer 0 1 (start_tick 1 new_tick)))"

definition orphaned_tick :: tick where
  "orphaned_tick =
     (let c = \<lparr>to_interval = 1000, to_timeout = 30000, to_max_backoff = 60000\<rparr>;
          skipped = fire_timer 1 4 restarted_tick;
          t = after_run c True 4 (skipped\<lparr>tk_runs := butlast (tk_runs skipped)\<rparr>)
      in after_run c True 5 (settle_tick c 1 5 False (t\<lparr>tk_runs := []\<rparr>)))"

lemma stop_leaves_orphan_timer:
  "tk_armed orphaned_tick = [(2, 4), (3, 1005)] \<and> tk_armed (stop_tick orphaned_tick) = [(2, 4)]"
  by code_simp

lemma ticks_never_overlap_witness:
  "length (active_runs restarted_tick) \<le> 1"
proof -
  let ?c = "\<lparr>to_interval = 1000, to_timeout = 30000, to_max_backoff = 60000\<rparr>"
  let ?f = "fire_timer 0 1 (start_tick 1 new_tick)"
  have "tick_step ?c (0, new_tick) (1, start_tick 1 new_tick)" by (rule tick_step.start) simp
  moreover have "tick_step ?c (1, start_tick 1 new_tick) (1, ?f)"
    by (rule tick_step.fire [where due = 1]) (simp_all add: start_tick_def schedule_tick_def new_tick_def)
  moreover have "tick_step ?c (1, ?f) (2, stop_tick ?f)" by (rule tick_step.stop) simp
  moreover have "tick_step ?c (2, stop_tick ?f) (3, restarted_tick)"
    unfolding restarted_tick_def by (rule tick_step.start) simp
  ultimately have "rtranclp (tick_step ?c) (0, new_tick) (3, restarted_tick)"
    by (meson converse_rtranclp_into_rtranclp rtranclp.rtrancl_refl)
  from ticks_never_overlap [OF _ _ this] show ?thesis by simp
qed

section \<open>The dispatch of gateway work\<close>

text \<open>GatewayDispatchTick: whether a pass runs, whether another was asked for meanwhile, and the passes begun.\<close>

record dispatch =
  dp_running :: bool
  dp_rerun :: bool
  dp_passes :: nat

definition request_pass :: "dispatch \<Rightarrow> dispatch" where
  "request_pass d = (if dp_running d then d\<lparr>dp_rerun := True\<rparr>
     else d\<lparr>dp_running := True, dp_rerun := False, dp_passes := Suc (dp_passes d)\<rparr>)"

definition end_pass :: "bool \<Rightarrow> dispatch \<Rightarrow> dispatch" where
  "end_pass failed d = (if \<not> failed \<and> dp_rerun d then d\<lparr>dp_rerun := False, dp_passes := Suc (dp_passes d)\<rparr>
     else d\<lparr>dp_running := False\<rparr>)"

lemma request_during_pass:
  "dp_running d \<Longrightarrow> dp_passes (end_pass False (request_pass d)) = Suc (dp_passes d)"
  by (simp add: request_pass_def end_pass_def)

text \<open>GatewayWakeCoordinator: the new state, and whether it calls wake.\<close>

record wake_coordinator =
  wc_in_flight :: bool
  wc_again :: bool

definition request_wake :: "wake_coordinator \<Rightarrow> wake_coordinator \<times> bool" where
  "request_wake w = (if wc_in_flight w then (w\<lparr>wc_again := True\<rparr>, False) else (w\<lparr>wc_in_flight := True\<rparr>, True))"

definition wake_ended :: "wake_coordinator \<Rightarrow> wake_coordinator \<times> bool" where
  "wake_ended w = (let w' = w\<lparr>wc_in_flight := False\<rparr> in
     if wc_again w then request_wake (w'\<lparr>wc_again := False\<rparr>) else (w', False))"

text \<open>
  The scheduler with its gateway tick: notifications wake the tick, not the dispatch, and the dispatch is the
  operation of the tick. A wake that overlaps a run ends at once.
\<close>

record gateway_scheduler =
  gx_tick :: tick
  gx_dispatch :: dispatch
  gx_wakes :: wake_coordinator

definition call_wake :: "timestamp \<Rightarrow> gateway_scheduler \<Rightarrow> gateway_scheduler" where
  "call_wake now s = s\<lparr>gx_tick := begin_run False now (gx_tick s)\<rparr>"

definition notify :: "timestamp \<Rightarrow> gateway_scheduler \<Rightarrow> gateway_scheduler" where
  "notify now s = (case request_wake (gx_wakes s) of (w, wakes) \<Rightarrow>
     (if wakes then call_wake now else id) (s\<lparr>gx_wakes := w\<rparr>))"

text \<open>The end of the last call of execute, made by the coordinator.\<close>

definition end_wake :: "tick_options \<Rightarrow> timestamp \<Rightarrow> gateway_scheduler \<Rightarrow> gateway_scheduler" where
  "end_wake c now s = (case wake_ended (gx_wakes s) of (w, wakes) \<Rightarrow>
     (if wakes then call_wake now else id)
       (s\<lparr>gx_tick := after_run c False now ((gx_tick s)\<lparr>tk_runs := butlast (tk_runs (gx_tick s))\<rparr>), gx_wakes := w\<rparr>))"

text \<open>C40: A notification of new gateway work that arrives while a run of the gateway tick is under way and no wake-up of
  the listener is in flight (a run its timer began) is lost: the wake-up is skipped as an overlap, its end leaves
  everything as it was, and neither the coordinator nor the dispatch remembers to make another pass. One that arrives
  while a wake-up is in flight is remembered, however many follow: the end of that wake-up calls the tick once more.\<close>

theorem wakeup_during_run_lost:
  assumes "\<not> wc_again (gx_wakes s)"
  shows "(tk_running (gx_tick s) \<and> \<not> wc_in_flight (gx_wakes s)
      \<longrightarrow> tr_phase (last (tk_runs (gx_tick (notify now s)))) = AfterOperation \<and> end_wake c now' (notify now s) = s)
    \<and> (wc_in_flight (gx_wakes s)
      \<longrightarrow> gx_tick (notify now s) = gx_tick s \<and> notify now'' (notify now s) = notify now s
        \<and> end_wake c now' (notify now s) = call_wake now' (end_wake c now' s)\<lparr>gx_wakes := gx_wakes s\<rparr>)"
  using assms
  by (simp add: notify_def request_wake_def call_wake_def begin_run_def end_wake_def wake_ended_def Let_def after_run_def)

lemma wakeup_during_run_lost_witness:
  "\<exists>s. tk_running (gx_tick s) \<and> dp_running (gx_dispatch s)
     \<and> end_wake \<lparr>to_interval = 30000, to_timeout = 60000, to_max_backoff = 240000\<rparr> 8 (notify 7 s) = s"
proof -
  let ?s = "\<lparr>gx_tick = new_tick\<lparr>tk_running := True, tk_stopped := False, tk_runs := [\<lparr>tr_phase = Operating, tr_by_timer = True,
      tr_started = 5\<rparr>]\<rparr>, gx_dispatch = \<lparr>dp_running = True, dp_rerun = False, dp_passes = 1\<rparr>,
    gx_wakes = \<lparr>wc_in_flight = False, wc_again = False\<rparr>\<rparr>"
  have "end_wake \<lparr>to_interval = 30000, to_timeout = 60000, to_max_backoff = 240000\<rparr> 8 (notify 7 ?s) = ?s"
    using wakeup_during_run_lost [of ?s] by simp
  then show ?thesis by (intro exI [of _ ?s]) simp
qed

end
