(* ===== verification/Dispatch_Ticks.thy ===== *)
theory Dispatch_Ticks
  imports Campaign_Lifecycle
begin

text \<open>
  The ticks of the scheduler that dispatch messages and campaigns (message-dispatch.tick.ts,
  campaign-dispatch.tick.ts), as the sequence of the repository methods they call. What the queue does not
  take stays in the database. \<open>clock k\<close> is the time of the k-th statement.
\<close>

section \<open>Messages\<close>

text \<open>Each claimed job is published or, with the queue's error, put back.\<close>

definition publish_job :: "(uuid \<Rightarrow> string option) \<Rightarrow> timestamp \<Rightarrow> message_job \<Rightarrow> message_job table \<Rightarrow> message_job table" where
  "publish_job refused now j jobs = (case refused (mj_id j) of None \<Rightarrow> jobs
     | Some e \<Rightarrow> sql_update (reset_queued_row (mj_id j) e now) jobs)"

definition message_dispatch ::
  "(uuid \<Rightarrow> string option) \<Rightarrow> (nat \<Rightarrow> timestamp) \<Rightarrow> db \<Rightarrow> db \<times> uuid list" where
  "message_dispatch refused clock d =
     (let d1 = d\<lparr>message_jobs := fst (recover_stale_queued (clock 0) (message_jobs d))\<rparr>;
          d2 = fst (mark_expired_processing_unknown (clock 1) d1);
          (jobs, claimed) = claim_due 100 (clock 2) (message_jobs d2) in
      (d2\<lparr>message_jobs := fold (publish_job refused (clock 3)) claimed jobs\<rparr>,
       filter (\<lambda>jid. refused jid = None) (map mj_id claimed)))"

section \<open>Campaigns\<close>

text \<open>A materialization that throws leaves the database and the others go on.\<close>

definition materialize_all ::
  "(message_request \<Rightarrow> string) \<Rightarrow> (uuid \<Rightarrow> string \<Rightarrow> uuid) \<Rightarrow> (uuid \<Rightarrow> bool) \<Rightarrow> timestamp \<Rightarrow> timestamp \<Rightarrow> uuid list \<Rightarrow> db \<Rightarrow> db" where
  "materialize_all rq jids throws wall now =
     fold (\<lambda>rid d. if throws rid then d else fst (materialize_pending rq (jids rid) rid 5 wall now d))"

definition campaign_dispatch ::
  "(message_request \<Rightarrow> string) \<Rightarrow> (uuid \<Rightarrow> string \<Rightarrow> uuid) \<Rightarrow> (uuid \<Rightarrow> bool) \<Rightarrow> (uuid \<Rightarrow> bool) \<Rightarrow> timestamp \<Rightarrow> (nat \<Rightarrow> timestamp)
    \<Rightarrow> db \<Rightarrow> db \<times> uuid list" where
  "campaign_dispatch rq jids takes throws wall clock d =
     (let d1 = fst (recover_expired_preparations (clock 0) d);
          published = filter takes (list_preparing 100 (clock 1) d1);
          d2 = fst (activate_due (clock 2) d1);
          d3 = fst (reconcile_deliveries (clock 3) d2);
          d4 = fst (finalize_runs 100 (clock 4) d3) in
      (materialize_all rq jids throws wall (clock 5) (list_running 100 d4) d4, published))"

text \<open>campaign-lifecycle-audit.tick.ts warns when the audit counts any drift.\<close>

definition drift_count :: "lifecycle_drift \<Rightarrow> nat" where
  "drift_count a = ld_draft_with_live a + ld_active_without_live a + ld_paused_without_live a + ld_archived_with_live a
     + ld_multiple_live a"

section \<open>A tick is a sequence of campaign transactions\<close>

definition materialize_ops ::
  "(message_request \<Rightarrow> string) \<Rightarrow> (uuid \<Rightarrow> string \<Rightarrow> uuid) \<Rightarrow> (uuid \<Rightarrow> bool) \<Rightarrow> timestamp \<Rightarrow> timestamp \<Rightarrow> uuid list \<Rightarrow> life_op list" where
  "materialize_ops rq jids throws wall now rids =
     map (\<lambda>rid. OMaterialize rq (jids rid) rid 5 wall now) (filter (\<lambda>rid. \<not> throws rid) rids)"

lemma materialize_all_ops:
  "materialize_all rq jids throws wall now rids d = fold life_apply (materialize_ops rq jids throws wall now rids) d"
  by (induction rids arbitrary: d) (simp_all add: materialize_all_def materialize_ops_def)

lemma campaign_dispatch_ops:
  "\<exists>ops. fst (campaign_dispatch rq jids takes throws wall clock d) = fold life_apply ops d \<and> life_ops_ok ops d"
proof -
  let ?start = "[ORecover (clock 0), OActivate (clock 2), OReconcile (clock 3), OFinalize 100 (clock 4)]"
  let ?rest = "materialize_ops rq jids throws wall (clock 5) (list_running 100 (fold life_apply ?start d))"
  have ok: "life_ops_ok (materialize_ops rq jids throws wall now rids) d'" for now rids d'
    by (induction rids arbitrary: d') (simp_all add: materialize_ops_def)
  have "fst (campaign_dispatch rq jids takes throws wall clock d) = fold life_apply (?start @ ?rest) d"
    by (simp add: campaign_dispatch_def Let_def materialize_all_ops)
  moreover have "life_ops_ok (?start @ ?rest) d" using ok by simp
  ultimately show ?thesis by blast
qed

corollary campaign_dispatch_keeps_lifecycle:
  assumes "life_ok d"
  shows "life_ok (fst (campaign_dispatch rq jids takes throws wall clock d))"
proof -
  obtain ops where "fst (campaign_dispatch rq jids takes throws wall clock d) = fold life_apply ops d" "life_ops_ok ops d"
    using campaign_dispatch_ops by blast
  then show ?thesis using life_ok_fold [OF assms] by simp
qed

section \<open>What a dispatch does to the jobs\<close>

definition reset_ops :: "(uuid \<Rightarrow> string option) \<Rightarrow> timestamp \<Rightarrow> message_job list \<Rightarrow> job_op list" where
  "reset_ops refused now js = List.map_filter (\<lambda>j. map_option (\<lambda>e. JReset (mj_id j) e now) (refused (mj_id j))) js"

lemma publish_jobs_ops:
  "fold (publish_job refused now) js jobs = fold (\<lambda>op. sql_update (job_row op)) (reset_ops refused now js) jobs"
proof (induction js arbitrary: jobs)
  case Nil
  then show ?case by (simp add: reset_ops_def map_filter_simps)
next
  case (Cons j js)
  have "job_row (JReset jid e now) = reset_queued_row jid e now" for jid e by (rule ext) simp
  then show ?case using Cons by (cases "refused (mj_id j)") (simp_all add: reset_ops_def map_filter_simps publish_job_def)
qed

lemma message_dispatch_ops:
  assumes "keyed mj_id (message_jobs d)"
  shows "\<exists>ops. message_jobs (fst (message_dispatch refused clock d))
    = fold (\<lambda>op. sql_update (job_row op)) ops (message_jobs d)"
proof -
  let ?j1 = "sql_update (job_row (JStale (clock 0))) (message_jobs d)"
  let ?j2 = "sql_update (job_row (JExpire (clock 1))) ?j1"
  have rows: "job_row (JStale now) = stale_queued_row now" "job_row (JExpire now) = expire_processing_row now" for now
    by (rule ext, simp)+
  have ids: "mj_id r' = mj_id r" if "job_row (JStale now) r = Some r' \<or> job_row (JExpire now) r = Some r'" for r r' now
    using that by (auto simp: rows stale_queued_row_def expire_processing_row_def sql_where_def split: if_splits)
  have "keyed mj_id ?j1" using keyed_sql_update [of "job_row (JStale (clock 0))" mj_id] ids assms by metis
  then have "keyed mj_id ?j2" using keyed_sql_update [of "job_row (JExpire (clock 1))" mj_id] ids by metis
  from claim_due_row [OF this, of 100 "clock 2"] obtain ids
    where queue: "fst (claim_due 100 (clock 2) ?j2) = sql_update (job_row (JQueue ids (clock 2))) ?j2" by blast
  have "message_jobs (fst (message_dispatch refused clock d))
      = fold (publish_job refused (clock 3)) (snd (claim_due 100 (clock 2) ?j2)) (fst (claim_due 100 (clock 2) ?j2))"
    by (simp add: message_dispatch_def recover_stale_queued_def mark_expired_processing_unknown_def Let_def rows
      split: prod.split)
  also have "\<dots> = fold (\<lambda>op. sql_update (job_row op)) ([JStale (clock 0), JExpire (clock 1), JQueue ids (clock 2)]
      @ reset_ops refused (clock 3) (snd (claim_due 100 (clock 2) ?j2))) (message_jobs d)"
    by (simp only: publish_jobs_ops queue fold_append fold_simps append_Cons append_Nil o_apply id_apply)
  finally show ?thesis by blast
qed

end
