(* ===== verification/Contact_Names.thy ===== *)
theory Contact_Names
  imports Contact_Resolution
begin

text \<open>
  src/src/modules/contacts/contact-normalization.ts and contact-name-resolution.sql.ts: the normal form of
  an identity and of a name that the gateway reports, and which of the names of a contact is shown. Strings
  are lists of characters below 256, on which the normalization NFC does nothing.
\<close>

section \<open>Identities\<close>

text \<open>The type is never PHONE.\<close>

record normalized_identity =
  ni_type :: identity_type
  ni_value :: string
  ni_phone :: "string option"

definition digit :: "char \<Rightarrow> bool" where
  "digit c \<longleftrightarrow> of_char c \<in> {48 .. (57 :: nat)}"

text \<open>\<open>/^\d+$/u\<close>\<close>

definition all_digits :: "string \<Rightarrow> bool" where
  "all_digits s \<longleftrightarrow> s \<noteq> [] \<and> (\<forall>c \<in> set s. digit c)"

text \<open>replace takes the first match of \<open>/:\d+(?=@)/u\<close> away, and only that.\<close>

fun strip_device :: "string \<Rightarrow> string" where
  "strip_device [] = []"
| "strip_device (c # s) = (if c = CHR '':'' \<and> takeWhile digit s \<noteq> [] \<and> take 1 (dropWhile digit s) = ''@''
     then dropWhile digit s else c # strip_device s)"

text \<open>What is before \<open>/@(?:c\.us|s\.whatsapp\.net)$/u\<close>.\<close>

definition phone_part :: "string \<Rightarrow> string option" where
  "phone_part s = (if ends_with ''@c.us'' s then Some (take (length s - 5) s)
     else if ends_with ''@s.whatsapp.net'' s then Some (take (length s - 15) s) else None)"

definition normalize_contact_identity :: "string \<Rightarrow> normalized_identity" where
  "normalize_contact_identity raw =
     (let identity = strip_device (js_trim raw); other = \<lparr>ni_type = OTHER_JID, ni_value = identity, ni_phone = None\<rparr> in
      if ends_with ''@lid'' identity then \<lparr>ni_type = LID, ni_value = identity, ni_phone = None\<rparr>
      else case phone_part identity of None \<Rightarrow> other
        | Some phone \<Rightarrow> if all_digits phone
            then \<lparr>ni_type = PHONE_JID, ni_value = phone @ ''@c.us'', ni_phone = Some phone\<rparr> else other)"

section \<open>Names\<close>

definition control_character :: "char \<Rightarrow> bool" where
  "control_character c \<longleftrightarrow> (let n = (of_char c :: nat) in n < 32 \<or> 127 \<le> n \<and> n < 160)"

definition max_contact_name :: nat where "max_contact_name = 256"

definition normalize_contact_name :: "string option \<Rightarrow> normalized_identity \<Rightarrow> string option" where
  "normalize_contact_name raw i = (case raw of None \<Rightarrow> None
     | Some r \<Rightarrow> let name = js_trim r in
         if name = [] \<or> max_contact_name < length name \<or> list_ex control_character name
           \<or> name = ni_value i \<or> Some name = ni_phone i
           \<or> ni_value (normalize_contact_identity name) = ni_value i
         then None else Some name)"

section \<open>The name that is shown\<close>

text \<open>The two columns of a projection: the name and its source.\<close>

definition contact_projection :: "string option \<Rightarrow> string option \<Rightarrow> string option \<times> name_source option" where
  "contact_projection contact_name push =
     (coalesce_opt contact_name push,
      if contact_name \<noteq> None then Some OPENWA_CONTACT_NAME else if push \<noteq> None then Some OPENWA_PUSH_NAME else None)"

definition member_projection ::
  "string option \<Rightarrow> name_source option \<Rightarrow> string option \<Rightarrow> string option \<times> name_source option" where
  "member_projection contact_name source participant =
     (if source = Some OPENWA_CONTACT_NAME then (contact_name, Some OPENWA_CONTACT_NAME)
      else if participant \<noteq> None then (participant, Some GROUP_PARTICIPANT_NAME)
      else if source = Some OPENWA_PUSH_NAME then (contact_name, Some OPENWA_PUSH_NAME) else (None, None))"

section \<open>Facts on normal forms\<close>

lemma ends_with_take: "ends_with suffix s \<Longrightarrow> take (length s - length suffix) s @ suffix = s"
  by (metis append_take_drop_id ends_with_def)

lemma phone_part_Some:
  assumes "phone_part s = Some p"
  shows "s = p @ ''@c.us'' \<or> s = p @ ''@s.whatsapp.net''"
proof -
  have five: "length ''@c.us'' = 5" and fifteen: "length ''@s.whatsapp.net'' = 15" by simp_all
  show ?thesis
  proof (cases "ends_with ''@c.us'' s")
    case True
    then show ?thesis using ends_with_take [OF True] assms unfolding five phone_part_def by simp
  next
    case False
    then have net: "ends_with ''@s.whatsapp.net'' s" using assms by (auto simp: phone_part_def split: if_splits)
    then show ?thesis using ends_with_take [OF net] assms False unfolding fifteen phone_part_def by simp
  qed
qed

lemma strip_device_digits: "all_digits p \<Longrightarrow> strip_device (p @ ''@c.us'') = p @ ''@c.us''"
proof -
  have "strip_device (p @ ''@c.us'') = p @ ''@c.us''" if "\<forall>c \<in> set p. digit c"
    using that by (induction p) (auto simp: digit_def)
  then show "all_digits p \<Longrightarrow> ?thesis" by (simp add: all_digits_def)
qed

lemma digit_not_space: "digit c \<Longrightarrow> \<not> js_space c"
  by (auto simp: digit_def js_space_def)

lemma trimmed_iff: "js_trim s = s \<longleftrightarrow> s = [] \<or> (\<not> js_space (hd s) \<and> \<not> js_space (last s))"
proof (cases s)
  case (Cons c t)
  show ?thesis
  proof
    assume eq: "js_trim s = s"
    have "length (dropWhile js_space s) = length s"
      using eq by (metis js_trim_def le_antisym length_dropWhile_le length_rev)
    then have first: "\<not> js_space c" using Cons length_dropWhile_le [of js_space t] by (auto split: if_splits)
    then have "dropWhile js_space s = s" using Cons by simp
    then have "dropWhile js_space (rev s) = rev s" using eq unfolding js_trim_def by (metis rev_rev_ident)
    then have "\<not> js_space (last s)" using Cons by (metis dropWhile_eq_self_iff hd_rev list.distinct(1) rev_is_Nil_conv)
    then show "s = [] \<or> (\<not> js_space (hd s) \<and> \<not> js_space (last s))" using first Cons by simp
  next
    assume "s = [] \<or> (\<not> js_space (hd s) \<and> \<not> js_space (last s))"
    then have ends: "\<not> js_space (hd s)" "\<not> js_space (last s)" using Cons by auto
    then have "dropWhile js_space s = s" using Cons by simp
    moreover have "dropWhile js_space (rev s) = rev s"
      using ends(2) Cons by (metis dropWhile_eq_self_iff hd_rev)
    ultimately show "js_trim s = s" by (simp add: js_trim_def)
  qed
qed (simp add: js_trim_def)

lemma letter_not_space: "\<not> js_space CHR ''s''" "\<not> js_space CHR ''t''" "\<not> js_space CHR ''@''"
  by (simp_all add: js_space_def)

lemma trim_digits: "all_digits p \<Longrightarrow> js_trim (p @ ''@c.us'') = p @ ''@c.us''"
  unfolding trimmed_iff by (cases p) (auto simp: all_digits_def digit_not_space letter_not_space)

lemma phone_part_digits: "phone_part (p @ ''@c.us'') = Some p"
  by (simp add: phone_part_def ends_with_def)

lemma phone_not_lid: "\<not> ends_with ''@lid'' (p @ ''@c.us'')"
  by (simp add: ends_with_def)

lemma normalize_phone:
  assumes "all_digits p"
  shows "normalize_contact_identity (p @ ''@c.us'')
    = \<lparr>ni_type = PHONE_JID, ni_value = p @ ''@c.us'', ni_phone = Some p\<rparr>"
  using assms by (simp add: normalize_contact_identity_def strip_device_digits trim_digits phone_part_digits phone_not_lid)

lemma normalized_cases:
  fixes raw :: string
  defines "s \<equiv> strip_device (js_trim raw)"
  obtains (lid) "normalize_contact_identity raw = \<lparr>ni_type = LID, ni_value = s, ni_phone = None\<rparr>" "ends_with ''@lid'' s"
  | (phone) p where "normalize_contact_identity raw = \<lparr>ni_type = PHONE_JID, ni_value = p @ ''@c.us'', ni_phone = Some p\<rparr>"
      "all_digits p" "s \<in> {p @ ''@c.us'', p @ ''@s.whatsapp.net''}"
  | (other) "normalize_contact_identity raw = \<lparr>ni_type = OTHER_JID, ni_value = s, ni_phone = None\<rparr>"
      "\<not> ends_with ''@lid'' s" "\<forall>p. phone_part s = Some p \<longrightarrow> \<not> all_digits p"
proof (cases "ends_with ''@lid'' s")
  case True
  then show thesis using lid by (simp add: normalize_contact_identity_def s_def)
next
  case False
  show thesis
  proof (cases "\<exists>p. phone_part s = Some p \<and> all_digits p")
    case True
    then obtain p where p: "phone_part s = Some p" "all_digits p" by blast
    then have "s \<in> {p @ ''@c.us'', p @ ''@s.whatsapp.net''}"
      using phone_part_Some by blast
    then show thesis using phone [OF _ p(2)] p False by (simp add: normalize_contact_identity_def s_def)
  next
    case False
    then have "normalize_contact_identity raw = \<lparr>ni_type = OTHER_JID, ni_value = s, ni_phone = None\<rparr>"
      using \<open>\<not> ends_with ''@lid'' s\<close>
      by (cases "phone_part s") (auto simp: normalize_contact_identity_def s_def Let_def)
    then show thesis using other False \<open>\<not> ends_with ''@lid'' s\<close> by blast
  qed
qed

text \<open>Taking a device suffix away leaves the string trimmed.\<close>

lemma strip_device_last: "s \<noteq> [] \<Longrightarrow> strip_device s \<noteq> [] \<and> last (strip_device s) = last s"
proof (induction s rule: strip_device.induct)
  case (2 c s)
  have split: "takeWhile digit s @ dropWhile digit s = s" by simp
  show ?case
  proof (cases "c = CHR '':'' \<and> takeWhile digit s \<noteq> [] \<and> take 1 (dropWhile digit s) = ''@''")
    case True
    then have rest: "dropWhile digit s \<noteq> []" by (metis take_Nil list.distinct(1))
    then have "last (dropWhile digit s) = last s" "s \<noteq> []" using split by (metis last_appendR, auto)
    then show ?thesis using True rest unfolding strip_device.simps by (simp only: if_True last_ConsR simp_thms)
  next
    case False
    then show ?thesis using 2 by (cases s) auto
  qed
qed simp

lemma strip_device_hd:
  assumes "s \<noteq> []"
  shows "hd (strip_device s) = hd s \<or> hd (strip_device s) = CHR ''@''"
proof (cases s)
  case (Cons c t)
  show ?thesis
  proof (cases "c = CHR '':'' \<and> takeWhile digit t \<noteq> [] \<and> take 1 (dropWhile digit t) = ''@''")
    case True
    then have "hd (dropWhile digit t) = CHR ''@''" by (cases "dropWhile digit t") auto
    then show ?thesis using True Cons by simp
  next
    case False
    then show ?thesis unfolding Cons strip_device.simps by (simp only: if_False list.sel simp_thms)
  qed
qed (use assms in simp)

lemma strip_device_trimmed: "js_trim s = s \<Longrightarrow> js_trim (strip_device s) = strip_device s"
  using strip_device_last [of s] strip_device_hd [of s] unfolding trimmed_iff
  by (cases "s = []") (auto simp: letter_not_space)

text \<open>A device suffix of digits after a number is taken away, whichever domain follows.\<close>

lemma strip_device_number:
  assumes "all_digits p" and "all_digits dev"
  shows "strip_device (p @ CHR '':'' # dev @ CHR ''@'' # rest) = p @ CHR ''@'' # rest"
proof -
  have dev: "takeWhile digit (dev @ CHR ''@'' # rest) = dev" "dropWhile digit (dev @ CHR ''@'' # rest) = CHR ''@'' # rest"
    using assms(2) by (simp_all add: all_digits_def takeWhile_append2 dropWhile_append2 digit_def)
  have "strip_device (CHR '':'' # dev @ CHR ''@'' # rest) = CHR ''@'' # rest"
    using assms(2) by (simp add: dev all_digits_def)
  then have "strip_device (q @ CHR '':'' # dev @ CHR ''@'' # rest) = q @ CHR ''@'' # rest" if "\<forall>c \<in> set q. digit c" for q
    using that by (induction q) (auto simp: digit_def)
  then show ?thesis using assms(1) by (simp add: all_digits_def)
qed

lemma normalize_net:
  assumes p: "all_digits p"
  shows "normalize_contact_identity (p @ ''@s.whatsapp.net'') = normalize_contact_identity (p @ ''@c.us'')"
proof -
  have "strip_device (p @ ''@s.whatsapp.net'') = p @ ''@s.whatsapp.net''" if "\<forall>c \<in> set p. digit c"
    using that by (induction p) (auto simp: digit_def)
  then have "strip_device (p @ ''@s.whatsapp.net'') = p @ ''@s.whatsapp.net''" using p by (simp add: all_digits_def)
  moreover have "js_trim (p @ ''@s.whatsapp.net'') = p @ ''@s.whatsapp.net''"
    using p unfolding trimmed_iff by (cases p) (auto simp: all_digits_def digit_not_space letter_not_space)
  moreover have "phone_part (p @ ''@s.whatsapp.net'') = Some p" "\<not> ends_with ''@lid'' (p @ ''@s.whatsapp.net'')"
    by (simp_all add: phone_part_def ends_with_def)
  ultimately show ?thesis using p
    by (simp add: normalize_phone normalize_contact_identity_def [of "p @ ''@s.whatsapp.net''"] Let_def)
qed

lemma normalize_device:
  assumes p: "all_digits p" and dev: "all_digits dev" and rest: "rest \<in> {''c.us'', ''s.whatsapp.net''}"
  shows "normalize_contact_identity (p @ CHR '':'' # dev @ CHR ''@'' # rest) = normalize_contact_identity (p @ ''@c.us'')"
proof -
  let ?q = "p @ CHR '':'' # dev @ CHR ''@'' # rest"
  have "js_trim ?q = ?q"
    using p rest unfolding trimmed_iff by (cases p) (auto simp: all_digits_def digit_not_space letter_not_space)
  then have "normalize_contact_identity ?q = normalize_contact_identity (p @ CHR ''@'' # rest)"
  proof -
    have "strip_device (js_trim (p @ CHR ''@'' # rest)) = p @ CHR ''@'' # rest"
    proof -
      have "js_trim (p @ CHR ''@'' # rest) = p @ CHR ''@'' # rest"
        using p rest unfolding trimmed_iff by (cases p) (auto simp: all_digits_def digit_not_space letter_not_space)
      moreover have "strip_device (q @ CHR ''@'' # rest) = q @ CHR ''@'' # rest" if "\<forall>c \<in> set q. digit c" for q
        using that rest by (induction q) (auto simp: digit_def)
      ultimately show ?thesis using p by (simp add: all_digits_def)
    qed
    then show ?thesis
      unfolding normalize_contact_identity_def \<open>js_trim ?q = ?q\<close> strip_device_number [OF p dev] by simp
  qed
  also have "\<dots> = normalize_contact_identity (p @ ''@c.us'')" using rest normalize_net [OF p] by auto
  finally show ?thesis .
qed

text \<open>C35: All forms of a phone number have one normal form: with surrounding white space, with either domain, with or without
  a device. A phone number is taken from an identity exactly when it is a phone id, never from the digits of a LID, and
  then the value and the number determine each other and the normal form of the value is the same again. The normal form of
  any other id is a fixed point exactly when no further device suffix can be taken from it; a second one is left in place.\<close>

theorem contact_identity_normal_form:
  fixes raw :: string
  defines "i \<equiv> normalize_contact_identity raw"
  shows "normalize_contact_identity (js_trim raw) = i
    \<and> (ni_type i = PHONE_JID \<longleftrightarrow> ni_phone i \<noteq> None)
    \<and> (\<forall>p. ni_phone i = Some p \<longrightarrow> all_digits p \<and> ni_value i = p @ ''@c.us'' \<and> normalize_contact_identity (ni_value i) = i
        \<and> normalize_contact_identity (p @ ''@s.whatsapp.net'') = i
        \<and> (\<forall>dev. all_digits dev \<longrightarrow> normalize_contact_identity (p @ '':'' @ dev @ ''@c.us'') = i
             \<and> normalize_contact_identity (p @ '':'' @ dev @ ''@s.whatsapp.net'') = i))
    \<and> (ni_phone i = None \<longrightarrow> (normalize_contact_identity (ni_value i) = i \<longleftrightarrow> strip_device (ni_value i) = ni_value i))"
proof -
  let ?s = "strip_device (js_trim raw)"
  have trimmed: "js_trim ?s = ?s" using strip_device_trimmed js_trim_idem by blast
  have trim: "normalize_contact_identity (js_trim raw) = i" by (simp add: i_def normalize_contact_identity_def js_trim_idem)
  have again: "normalize_contact_identity ?s = i \<longleftrightarrow> strip_device ?s = ?s" if v: "ni_value i = ?s" "ni_phone i = None"
  proof
    assume fixed: "normalize_contact_identity ?s = i"
    have "strip_device (js_trim ?s) = ?s" if "ni_phone (normalize_contact_identity ?s) = None"
      by (cases rule: normalized_cases [of ?s]) (use that fixed v in auto)
    then show "strip_device ?s = ?s" using fixed v(2) trimmed by simp
  next
    assume "strip_device ?s = ?s"
    then show "normalize_contact_identity ?s = i" by (simp add: i_def normalize_contact_identity_def trimmed)
  qed
  show ?thesis
  proof (cases rule: normalized_cases [of raw])
    case lid
    then show ?thesis using trim again by (simp add: i_def)
  next
    case (phone p)
    have "normalize_contact_identity (p @ CHR '':'' # dev @ ''@c.us'') = i
        \<and> normalize_contact_identity (p @ CHR '':'' # dev @ ''@s.whatsapp.net'') = i" if "all_digits dev" for dev
      using normalize_device [OF phone(2) that, of "''c.us''"] normalize_device [OF phone(2) that, of "''s.whatsapp.net''"]
        phone(1) normalize_phone [OF phone(2)] by (simp add: i_def)
    then show ?thesis using trim phone normalize_phone [of p] normalize_net [of p] by (simp add: i_def)
  next
    case other
    then show ?thesis using trim again by (simp add: i_def)
  qed
qed

lemma contact_identity_normal_form_witness:
  "normalize_contact_identity ''4917:22@c.us''
     = \<lparr>ni_type = PHONE_JID, ni_value = ''4917@c.us'', ni_phone = Some ''4917''\<rparr>
   \<and> normalize_contact_identity (ni_value (normalize_contact_identity ''49:1:2@c.us'')) \<noteq> normalize_contact_identity ''49:1:2@c.us''"
proof -
  have n: "normalize_contact_identity '' 4917:3@s.whatsapp.net''
     = \<lparr>ni_type = PHONE_JID, ni_value = ''4917@c.us'', ni_phone = Some ''4917''\<rparr>"
    and m: "normalize_contact_identity ''49:1:2@c.us'' = \<lparr>ni_type = OTHER_JID, ni_value = ''49:1@c.us'', ni_phone = None\<rparr>"
    and d: "all_digits ''22''" "strip_device ''49:1@c.us'' \<noteq> ''49:1@c.us''" by code_simp+
  have "\<forall>dev. all_digits dev \<longrightarrow> normalize_contact_identity (''4917'' @ '':'' @ dev @ ''@c.us'')
      = normalize_contact_identity '' 4917:3@s.whatsapp.net''"
    using contact_identity_normal_form [of "'' 4917:3@s.whatsapp.net''"] by (simp add: n)
  from this [rule_format, OF d(1)] have "normalize_contact_identity ''4917:22@c.us'' = normalize_contact_identity '' 4917:3@s.whatsapp.net''"
    by simp
  moreover have "normalize_contact_identity ''49:1@c.us'' \<noteq> normalize_contact_identity ''49:1:2@c.us''"
    using contact_identity_normal_form [of "''49:1:2@c.us''"] d(2) by (simp add: m)
  ultimately show ?thesis by (simp add: n m)
qed

end
