(* ===== verification/Contact_Evidence.thy ===== *)
theory Contact_Evidence
  imports Contact_Names
begin

text \<open>
  src/src/modules/contacts/contact-evidence.writer.ts: what group members, senders of messages and published
  snapshots say of the identities of a session is kept as identities, names and links between an identity and
  its phone number. The digest md5 is a parameter; so are the identifiers that gen_random_uuid() gives.
\<close>

section \<open>Inputs\<close>

record evidence_input =
  ei_type :: identity_type
  ei_value :: string
  ei_phone :: "string option"
  ei_participant :: string
  ei_name :: "string option"

record staged_observation =
  st_session :: string
  st_generation :: nat
  st_type :: identity_type
  st_value :: string
  st_phone :: "string option"
  st_contact_name :: "string option"
  st_push_name :: "string option"
  st_observed_at :: timestamp
  st_key :: string

record evidence_ids =
  eid_identity :: "identity_type \<Rightarrow> string \<Rightarrow> uuid"
  eid_name :: "name_source \<Rightarrow> string \<Rightarrow> uuid"

definition type_text :: "identity_type \<Rightarrow> string" where
  "type_text t = (case t of LID \<Rightarrow> ''LID'' | PHONE_JID \<Rightarrow> ''PHONE_JID'' | PHONE \<Rightarrow> ''PHONE'' | OTHER_JID \<Rightarrow> ''OTHER_JID'')"

section \<open>Identities\<close>

definition identity_key :: "observed_identity \<Rightarrow> string \<times> identity_type \<times> string" where
  "identity_key i = (ob_session i, ob_type i, ob_value i)"

definition identity_of :: "string \<Rightarrow> identity_type \<Rightarrow> string \<Rightarrow> contact_db \<Rightarrow> observed_identity option" where
  "identity_of sid typ val d = find_by identity_key (sid, typ, val) (kd_identities d)"

definition seen_row :: "string \<times> identity_type \<times> string \<Rightarrow> timestamp \<Rightarrow> timestamp \<Rightarrow> observed_identity row_update" where
  "seen_row k first latest = sql_where (\<lambda>i. identity_key i = k)
     (\<lambda>i. i\<lparr>ob_first_observed_at := min (ob_first_observed_at i) first,
        ob_last_observed_at := max (ob_last_observed_at i) latest\<rparr>)"

definition touched_row :: "string \<times> identity_type \<times> string \<Rightarrow> timestamp \<Rightarrow> observed_identity row_update" where
  "touched_row k now = sql_where (\<lambda>i. identity_key i = k) (\<lambda>i. i\<lparr>ob_last_observed_at := now\<rparr>)"

text \<open>INSERT ... ON CONFLICT (session_id, identity_type, identity_value) DO UPDATE, with either update.\<close>

definition upsert_identity ::
  "observed_identity row_update \<Rightarrow> observed_identity \<Rightarrow> observed_identity table \<Rightarrow> observed_identity table" where
  "upsert_identity f i rows = (if identity_key i \<in> identity_key ` set rows then sql_update f rows else rows @ [i])"

definition new_identity :: "evidence_ids \<Rightarrow> string \<Rightarrow> identity_type \<Rightarrow> string \<Rightarrow> timestamp \<Rightarrow> observed_identity" where
  "new_identity ids sid typ val t = \<lparr>ob_session = sid, ob_id = eid_identity ids typ val, ob_type = typ, ob_value = val,
     ob_first_observed_at = t, ob_last_observed_at = t\<rparr>"

definition touch_identity :: "evidence_ids \<Rightarrow> string \<Rightarrow> timestamp \<Rightarrow> identity_type \<times> string \<Rightarrow> contact_db \<Rightarrow> contact_db" where
  "touch_identity ids sid now p d = d\<lparr>kd_identities :=
     upsert_identity (touched_row (sid, p) now) (new_identity ids sid (fst p) (snd p) now) (kd_identities d)\<rparr>"

definition phones :: "evidence_input list \<Rightarrow> string list" where
  "phones inputs = remdups (List.map_filter ei_phone inputs)"

definition upsert_input_identities ::
  "evidence_ids \<Rightarrow> string \<Rightarrow> evidence_input list \<Rightarrow> timestamp \<Rightarrow> contact_db \<Rightarrow> contact_db" where
  "upsert_input_identities ids sid inputs now d =
     fold (touch_identity ids sid now)
       (remdups (map (\<lambda>i. (ei_type i, ei_value i)) inputs) @ map (Pair PHONE) (phones inputs)) d"

section \<open>Names and links\<close>

definition name_key :: "name_observation \<Rightarrow> string \<times> name_source \<times> string" where
  "name_key x = (no_session x, no_source x, no_key x)"

definition link_key :: "link_evidence \<Rightarrow> string \<times> evidence_source \<times> string" where
  "link_key l = (le_session l, le_source l, le_key l)"

definition insert_name :: "name_observation \<Rightarrow> contact_db \<Rightarrow> contact_db" where
  "insert_name x d = d\<lparr>kd_names := sql_insert_new name_key x (kd_names d)\<rparr>"

definition insert_link :: "link_evidence \<Rightarrow> contact_db \<Rightarrow> contact_db" where
  "insert_link l d = d\<lparr>kd_links := sql_insert_new link_key l (kd_links d)\<rparr>"

text \<open>The join of an input with its identity and that of its phone number; without either there is no link.\<close>

definition link_of ::
  "string \<Rightarrow> identity_type \<Rightarrow> string \<Rightarrow> string \<Rightarrow> evidence_source \<Rightarrow> nat option \<Rightarrow> timestamp \<Rightarrow> string \<Rightarrow> timestamp
    \<Rightarrow> contact_db \<Rightarrow> link_evidence option" where
  "link_of sid typ val phone src generation observed key now d =
     (case (identity_of sid typ val d, identity_of sid PHONE phone d) of
        (Some l, Some r) \<Rightarrow> Some \<lparr>le_session = sid, le_left = ob_id l, le_right = ob_id r, le_source = src,
          le_generation = generation, le_observed_at = observed, le_key = key, le_created_at = now\<rparr>
      | _ \<Rightarrow> None)"

definition input_link :: "(string \<Rightarrow> string) \<Rightarrow> string \<Rightarrow> timestamp \<Rightarrow> contact_db \<Rightarrow> evidence_input \<Rightarrow> link_evidence option" where
  "input_link md5 sid now d i = (case ei_phone i of
     Some phone \<Rightarrow> if ei_type i = PHONE_JID
       then link_of sid PHONE_JID (ei_value i) phone PHONE_JID_DERIVATION None now
         (''derived:'' @ md5 (ei_value i @ '':'' @ phone)) now d
       else None
   | None \<Rightarrow> None)"

definition insert_input_links ::
  "(string \<Rightarrow> string) \<Rightarrow> string \<Rightarrow> evidence_input list \<Rightarrow> timestamp \<Rightarrow> contact_db \<Rightarrow> contact_db" where
  "insert_input_links md5 sid inputs now d = fold insert_link (List.map_filter (input_link md5 sid now d) inputs) d"

definition input_identity_ids :: "string \<Rightarrow> evidence_input list \<Rightarrow> contact_db \<Rightarrow> uuid list" where
  "input_identity_ids sid inputs d =
     remdups (map ob_id (List.map_filter (\<lambda>i. identity_of sid (ei_type i) (ei_value i) d) inputs))"

section \<open>Group members\<close>

definition member_name ::
  "(string \<Rightarrow> string) \<Rightarrow> evidence_ids \<Rightarrow> string \<Rightarrow> string \<Rightarrow> timestamp \<Rightarrow> contact_db \<Rightarrow> evidence_input \<Rightarrow> name_observation option" where
  "member_name md5 ids sid gid now d i =
     (case (identity_of sid (ei_type i) (ei_value i) d, ei_name i) of
        (Some o', Some name) \<Rightarrow> let key = ''group:'' @ md5 (gid @ '':'' @ ei_participant i @ '':'' @ name) in
          Some \<lparr>no_session = sid, no_id = eid_name ids GROUP_PARTICIPANT_NAME key, no_identity_id = ob_id o',
            no_source = GROUP_PARTICIPANT_NAME, no_membership = Some (gid, ei_participant i), no_name = name,
            no_generation = None, no_observed_at = now, no_key = key, no_created_at = now\<rparr>
      | _ \<Rightarrow> None)"

text \<open>The writer's switches: whether it is enabled, and whether the projection is.\<close>

definition observe_group_members ::
  "bool \<Rightarrow> bool \<Rightarrow> (string \<Rightarrow> string) \<Rightarrow> evidence_ids \<Rightarrow> string \<Rightarrow> string \<Rightarrow> evidence_input list \<Rightarrow> timestamp
    \<Rightarrow> contact_db \<Rightarrow> contact_db" where
  "observe_group_members enabled projection md5 ids sid gid inputs now d =
     (if \<not> enabled \<or> inputs = [] then d else
        let d1 = upsert_input_identities ids sid inputs now d;
            d2 = fold insert_name (List.map_filter (member_name md5 ids sid gid now d1) inputs) d1;
            d3 = insert_input_links md5 sid inputs now d2 in
        if projection then enqueue_projection sid (input_identity_ids sid inputs d3) now d3 else d3)"

section \<open>Senders of messages\<close>

definition name_rank :: "name_observation \<Rightarrow> timestamp \<times> string \<times> uuid" where
  "name_rank x = (no_observed_at x, no_key x, no_id x)"

text \<open>ORDER BY source_observed_at DESC, source_observation_key DESC, id DESC LIMIT 1 of the push names.\<close>

fun newest_name :: "name_observation list \<Rightarrow> name_observation option" where
  "newest_name [] = None"
| "newest_name (x # xs) = (case newest_name xs of None \<Rightarrow> Some x
     | Some y \<Rightarrow> Some (if name_rank x < name_rank y then y else x))"

definition push_names :: "string \<Rightarrow> uuid \<Rightarrow> name_observation table \<Rightarrow> name_observation list" where
  "push_names sid n names = filter (\<lambda>x. no_session x = sid \<and> no_identity_id x = n \<and> no_source x = OPENWA_PUSH_NAME) names"

definition push_observation ::
  "evidence_ids \<Rightarrow> string \<Rightarrow> uuid \<Rightarrow> string \<Rightarrow> timestamp \<Rightarrow> string \<Rightarrow> timestamp \<Rightarrow> name_observation" where
  "push_observation ids sid n name observed key now = \<lparr>no_session = sid, no_id = eid_name ids OPENWA_PUSH_NAME key,
     no_identity_id = n, no_source = OPENWA_PUSH_NAME, no_membership = None, no_name = name, no_generation = None,
     no_observed_at = observed, no_key = key, no_created_at = now\<rparr>"

text \<open>The identity is projected again when its newest push name has changed.\<close>

definition name_changes :: "name_observation \<Rightarrow> name_observation option \<Rightarrow> bool" where
  "name_changes x previous = (case previous of None \<Rightarrow> True
     | Some y \<Rightarrow> name_rank y < name_rank x \<and> no_name x \<noteq> no_name y)"

definition observe_push_name ::
  "bool \<Rightarrow> bool \<Rightarrow> (string \<Rightarrow> string) \<Rightarrow> evidence_ids \<Rightarrow> string \<Rightarrow> evidence_input \<Rightarrow> string \<Rightarrow> timestamp \<Rightarrow> string \<Rightarrow> timestamp
    \<Rightarrow> contact_db \<Rightarrow> contact_db" where
  "observe_push_name enabled projection md5 ids sid i name observed key now d =
     (if \<not> enabled then d else
        let d1 = upsert_input_identities ids sid [i] now d in
        case identity_of sid (ei_type i) (ei_value i) d1 of None \<Rightarrow> insert_input_links md5 sid [i] now d1
        | Some o' \<Rightarrow>
            let x = push_observation ids sid (ob_id o') name observed key now;
                inserted = name_key x \<notin> name_key ` set (kd_names d1);
                changes = inserted \<and> name_changes x (newest_name (push_names sid (ob_id o') (kd_names d1)));
                d2 = insert_input_links md5 sid [i] now (insert_name x d1) in
            if projection \<and> changes then enqueue_projection sid [ob_id o'] now d2 else d2)"

section \<open>Snapshots\<close>

definition staged_of :: "string \<Rightarrow> nat \<Rightarrow> staged_observation table \<Rightarrow> staged_observation list" where
  "staged_of sid generation staged = filter (\<lambda>s. st_session s = sid \<and> st_generation s = generation) staged"

definition see_identity :: "evidence_ids \<Rightarrow> string \<Rightarrow> identity_type \<times> string \<times> timestamp \<Rightarrow> contact_db \<Rightarrow> contact_db" where
  "see_identity ids sid p d = (case p of (typ, val, t) \<Rightarrow> d\<lparr>kd_identities :=
     upsert_identity (seen_row (sid, typ, val) t t) (new_identity ids sid typ val t) (kd_identities d)\<rparr>)"

text \<open>DISTINCT ON (phone) with the newest observation first.\<close>

definition staged_phones :: "staged_observation list \<Rightarrow> (identity_type \<times> string \<times> timestamp) list" where
  "staged_phones ss = map (\<lambda>p. (PHONE, p, Max (st_observed_at ` {s \<in> set ss. st_phone s = Some p})))
     (remdups (List.map_filter st_phone ss))"

definition source_text :: "name_source \<Rightarrow> string" where
  "source_text src = (case src of OPENWA_CONTACT_NAME \<Rightarrow> ''OPENWA_CONTACT_NAME''
     | GROUP_PARTICIPANT_NAME \<Rightarrow> ''GROUP_PARTICIPANT_NAME'' | OPENWA_PUSH_NAME \<Rightarrow> ''OPENWA_PUSH_NAME'')"

definition staged_name ::
  "evidence_ids \<Rightarrow> timestamp \<Rightarrow> contact_db \<Rightarrow> staged_observation \<times> name_source \<times> string option \<Rightarrow> name_observation option" where
  "staged_name ids now d p = (case p of (s, src, name) \<Rightarrow>
     (case (identity_of (st_session s) (st_type s) (st_value s) d, name) of
        (Some o', Some v) \<Rightarrow> let key = st_key s @ '':'' @ source_text src in
          Some \<lparr>no_session = st_session s, no_id = eid_name ids src key, no_identity_id = ob_id o', no_source = src,
            no_membership = None, no_name = v, no_generation = Some (st_generation s),
            no_observed_at = st_observed_at s, no_key = key, no_created_at = now\<rparr>
      | _ \<Rightarrow> None))"

definition staged_link :: "timestamp \<Rightarrow> contact_db \<Rightarrow> staged_observation \<Rightarrow> link_evidence option" where
  "staged_link now d s = (case st_phone s of None \<Rightarrow> None
     | Some phone \<Rightarrow> link_of (st_session s) (st_type s) (st_value s) phone
         (if st_type s = PHONE_JID then PHONE_JID_DERIVATION else OPENWA_CONTACT_PHONE)
         (Some (st_generation s)) (st_observed_at s) (st_key s @ '':phone'') now d)"

definition publish_snapshot ::
  "bool \<Rightarrow> evidence_ids \<Rightarrow> string \<Rightarrow> nat \<Rightarrow> staged_observation table \<Rightarrow> timestamp \<Rightarrow> contact_db \<Rightarrow> contact_db" where
  "publish_snapshot enabled ids sid generation staged now d =
     (if \<not> enabled then d else
        let ss = staged_of sid generation staged;
            d1 = fold (see_identity ids sid) (map (\<lambda>s. (st_type s, st_value s, st_observed_at s)) ss) d;
            d2 = fold (see_identity ids sid) (staged_phones ss) d1;
            d3 = fold insert_name (List.map_filter (staged_name ids now d2)
              (concat (map (\<lambda>s. [(s, OPENWA_CONTACT_NAME, st_contact_name s), (s, OPENWA_PUSH_NAME, st_push_name s)]) ss))) d2 in
        fold insert_link (List.map_filter (staged_link now d3) ss) d3)"

section \<open>The evidence stays sound\<close>

text \<open>What the identities of a database are: their session, identifier, type and value.\<close>

type_synonym fact = "string \<times> uuid \<times> identity_type \<times> string"

definition fact_of :: "observed_identity \<Rightarrow> fact" where
  "fact_of i = (ob_session i, ob_id i, ob_type i, ob_value i)"

definition facts :: "contact_db \<Rightarrow> fact set" where
  "facts d = fact_of ` set (kd_identities d)"

definition facts_unique :: "fact set \<Rightarrow> bool" where
  "facts_unique F \<longleftrightarrow> (\<forall>s n t v n' t' v'. (s, n, t, v) \<in> F \<and> (s, n', t', v') \<in> F \<longrightarrow> (n = n' \<longleftrightarrow> (t, v) = (t', v')))"

text \<open>A phone id of a number, perhaps with a device.\<close>

definition number_jid :: "string \<Rightarrow> string \<Rightarrow> bool" where
  "number_jid p v \<longleftrightarrow> all_digits p \<and> (v = p @ ''@c.us'' \<or> (\<exists>dev. v = p @ '':'' @ dev @ ''@c.us''))"

lemma number_jid_unique: "number_jid p v \<Longrightarrow> number_jid p' v \<Longrightarrow> p = p'"
proof -
  have "takeWhile digit v = p" if "number_jid p v" for p
    using that by (auto simp: number_jid_def all_digits_def digit_def takeWhile_append2)
  then show "number_jid p v \<Longrightarrow> number_jid p' v \<Longrightarrow> p = p'" by metis
qed

definition link_sound :: "fact set \<Rightarrow> link_evidence \<Rightarrow> bool" where
  "link_sound F l \<longleftrightarrow> (\<exists>t v p. (le_session l, le_left l, t, v) \<in> F \<and> (le_session l, le_right l, PHONE, p) \<in> F \<and> t \<noteq> PHONE
     \<and> (le_source l = PHONE_JID_DERIVATION \<longleftrightarrow> t = PHONE_JID) \<and> (t = PHONE_JID \<longrightarrow> number_jid p v))"

definition name_sound :: "fact set \<Rightarrow> name_observation \<Rightarrow> bool" where
  "name_sound F x \<longleftrightarrow> (\<exists>t v. (no_session x, no_identity_id x, t, v) \<in> F)"

definition evidence_ok :: "contact_db \<Rightarrow> bool" where
  "evidence_ok d \<longleftrightarrow> facts_unique (facts d) \<and> (\<forall>l \<in> set (kd_links d). link_sound (facts d) l)
     \<and> (\<forall>x \<in> set (kd_names d). name_sound (facts d) x)"

text \<open>The identifiers of a transaction are distinct and new, as those of gen_random_uuid() are.\<close>

definition ids_fresh :: "evidence_ids \<Rightarrow> string \<Rightarrow> fact set \<Rightarrow> bool" where
  "ids_fresh ids sid F \<longleftrightarrow> inj (\<lambda>(t, v). eid_identity ids t v)
     \<and> (\<forall>t v n t' v'. (sid, n, t', v') \<in> F \<longrightarrow> eid_identity ids t v \<noteq> n)"

definition grown :: "evidence_ids \<Rightarrow> string \<Rightarrow> fact set \<Rightarrow> fact set \<Rightarrow> bool" where
  "grown ids sid F0 F \<longleftrightarrow> F0 \<subseteq> F \<and> (\<forall>x \<in> F - F0. \<exists>t v. x = (sid, eid_identity ids t v, t, v)
       \<and> (\<forall>n. (sid, n, t, v) \<notin> F0))"

lemma grown_refl: "grown ids sid F F"
  by (simp add: grown_def)

lemma grown_unique:
  assumes "facts_unique F0" "ids_fresh ids sid F0" "grown ids sid F0 F"
  shows "facts_unique F"
proof -
  have new: "(\<exists>t v. x = (sid, eid_identity ids t v, t, v) \<and> (\<forall>n. (sid, n, t, v) \<notin> F0)) \<or> x \<in> F0" if "x \<in> F" for x
    using that assms(3) by (auto simp: grown_def)
  have "n = n' \<longleftrightarrow> (t, v) = (t', v')" if h: "(s, n, t, v) \<in> F" "(s, n', t', v') \<in> F" for s n t v n' t' v'
    using new [OF h(1)] new [OF h(2)]
  proof (elim disjE exE conjE)
    fix t1 v1 t2 v2
    assume eq: "(s, n, t, v) = (sid, eid_identity ids t1 v1, t1, v1)" "(s, n', t', v') = (sid, eid_identity ids t2 v2, t2, v2)"
    have "eid_identity ids t v = eid_identity ids t' v' \<Longrightarrow> (t, v) = (t', v')"
      using assms(2) unfolding ids_fresh_def by (auto dest: injD [of _ "(t, v)" "(t', v')"])
    then show ?thesis using eq by auto
  next
    assume "(s, n, t, v) \<in> F0" "(s, n', t', v') \<in> F0"
    then show ?thesis using assms(1) unfolding facts_unique_def by blast
  next
    fix t1 v1
    assume "(s, n, t, v) = (sid, eid_identity ids t1 v1, t1, v1)" "\<forall>n. (sid, n, t1, v1) \<notin> F0" "(s, n', t', v') \<in> F0"
    then show ?thesis using assms(2) unfolding ids_fresh_def by (metis prod.inject)
  next
    fix t1 v1
    assume "(s, n, t, v) \<in> F0" "(s, n', t', v') = (sid, eid_identity ids t1 v1, t1, v1)" "\<forall>n. (sid, n, t1, v1) \<notin> F0"
    then show ?thesis using assms(2) unfolding ids_fresh_def by (metis prod.inject)
  qed
  then show ?thesis unfolding facts_unique_def by blast
qed

lemma upsert_facts:
  assumes "\<And>i i'. f i = Some i' \<Longrightarrow> fact_of i' = fact_of i"
  shows "fact_of ` set (upsert_identity f i rows)
    = (if identity_key i \<in> identity_key ` set rows then fact_of ` set rows else insert (fact_of i) (fact_of ` set rows))"
proof -
  have "fact_of ` set (sql_update f rows) = fact_of ` set rows"
    unfolding set_sql_update_after image_image
    by (rule image_cong) (auto simp: row_after_def assms split: option.split)
  then show ?thesis by (simp add: upsert_identity_def)
qed

lemma grown_upsert:
  assumes g: "grown ids sid F0 (facts d)" and f: "\<And>i i'. f i = Some i' \<Longrightarrow> fact_of i' = fact_of i"
    and d': "kd_identities d' = upsert_identity f (new_identity ids sid t v now) (kd_identities d)"
  shows "grown ids sid F0 (facts d') \<and> facts d \<subseteq> facts d' \<and> (\<exists>n. (sid, n, t, v) \<in> facts d')"
proof -
  let ?i = "new_identity ids sid t v now"
  have key: "identity_key ?i = (sid, t, v)" "fact_of ?i = (sid, eid_identity ids t v, t, v)"
    by (simp_all add: new_identity_def identity_key_def fact_of_def)
  have has: "(sid, t, v) \<in> identity_key ` set (kd_identities d) \<longleftrightarrow> (\<exists>n. (sid, n, t, v) \<in> facts d)"
    by (force simp: facts_def fact_of_def identity_key_def)
  have "facts d' = (if \<exists>n. (sid, n, t, v) \<in> facts d then facts d
      else insert (sid, eid_identity ids t v, t, v) (facts d))"
    using upsert_facts [where f = f and i = ?i and rows = "kd_identities d", OF f] unfolding facts_def d' key has [unfolded facts_def]
    by simp
  moreover have "grown ids sid F0 (insert (sid, eid_identity ids t v, t, v) (facts d))" if "\<not> (\<exists>n. (sid, n, t, v) \<in> facts d)"
    using g that unfolding grown_def by blast
  ultimately show ?thesis using g by auto
qed

lemma row_facts: "touched_row k now i = Some i' \<Longrightarrow> fact_of i' = fact_of i"
    "seen_row k a b i = Some i' \<Longrightarrow> fact_of i' = fact_of i"
  by (auto simp: touched_row_def seen_row_def fact_of_def)

lemma grown_touch:
  "grown ids sid F0 (facts d) \<Longrightarrow> grown ids sid F0 (facts (touch_identity ids sid now p d))
     \<and> facts d \<subseteq> facts (touch_identity ids sid now p d)"
  using grown_upsert [where f = "touched_row (sid, p) now" and d = d and d' = "touch_identity ids sid now p d"
      and t = "fst p" and v = "snd p" and now = now, OF _ row_facts(1)]
  by (auto simp: touch_identity_def)

lemma grown_see:
  "grown ids sid F0 (facts d) \<Longrightarrow> grown ids sid F0 (facts (see_identity ids sid p d)) \<and> facts d \<subseteq> facts (see_identity ids sid p d)"
proof -
  obtain t v now where p: "p = (t, v, now)" by (cases p)
  show "grown ids sid F0 (facts d) \<Longrightarrow> ?thesis"
    using grown_upsert [where f = "seen_row (sid, t, v) now now" and d = d and d' = "see_identity ids sid p d"
        and t = t and v = v and now = now, OF _ row_facts(2)]
    by (auto simp: see_identity_def p)
qed

lemma frame_touch: "kd_links (touch_identity ids sid now p d) = kd_links d" "kd_names (touch_identity ids sid now p d) = kd_names d"
    "kd_links (see_identity ids sid q d) = kd_links d" "kd_names (see_identity ids sid q d) = kd_names d"
  by (simp_all add: touch_identity_def see_identity_def split: prod.split)

lemma grown_folds:
  "grown ids sid F0 (facts d) \<Longrightarrow> grown ids sid F0 (facts (fold (touch_identity ids sid now) ps d))
     \<and> facts d \<subseteq> facts (fold (touch_identity ids sid now) ps d)"
  "grown ids sid F0 (facts d) \<Longrightarrow> grown ids sid F0 (facts (fold (see_identity ids sid) qs d))
     \<and> facts d \<subseteq> facts (fold (see_identity ids sid) qs d)"
proof -
  show "grown ids sid F0 (facts d) \<Longrightarrow> grown ids sid F0 (facts (fold (touch_identity ids sid now) ps d))
     \<and> facts d \<subseteq> facts (fold (touch_identity ids sid now) ps d)"
  proof (induction ps arbitrary: d)
    case (Cons p ps)
    then show ?case using grown_touch [OF Cons.prems, of now p] Cons.IH [of "touch_identity ids sid now p d"] by auto
  qed simp
  show "grown ids sid F0 (facts d) \<Longrightarrow> grown ids sid F0 (facts (fold (see_identity ids sid) qs d))
     \<and> facts d \<subseteq> facts (fold (see_identity ids sid) qs d)"
  proof (induction qs arbitrary: d)
    case (Cons q qs)
    then show ?case using grown_see [OF Cons.prems, of q] Cons.IH [of "see_identity ids sid q d"] by auto
  qed simp
qed

lemma frame_folds:
  "kd_links (fold (touch_identity ids sid now) ps d) = kd_links d" "kd_names (fold (touch_identity ids sid now) ps d) = kd_names d"
  "kd_links (fold (see_identity ids sid) qs d) = kd_links d" "kd_names (fold (see_identity ids sid) qs d) = kd_names d"
proof -
  show "kd_links (fold (touch_identity ids sid now) ps d) = kd_links d" "kd_names (fold (touch_identity ids sid now) ps d) = kd_names d"
    by (induction ps arbitrary: d) (simp_all add: frame_touch)
  show "kd_links (fold (see_identity ids sid) qs d) = kd_links d" "kd_names (fold (see_identity ids sid) qs d) = kd_names d"
    by (induction qs arbitrary: d) (simp_all add: frame_touch)
qed

lemma sound_mono: "F \<subseteq> F' \<Longrightarrow> link_sound F l \<Longrightarrow> link_sound F' l" "F \<subseteq> F' \<Longrightarrow> name_sound F x \<Longrightarrow> name_sound F' x"
  unfolding link_sound_def name_sound_def by blast+

lemma evidence_ok_grown:
  assumes "evidence_ok d" "ids_fresh ids sid (facts d)" "grown ids sid (facts d) (facts d')"
    and "kd_links d' = kd_links d" "kd_names d' = kd_names d"
  shows "evidence_ok d'"
  using assms grown_unique [OF _ assms(2,3)] sound_mono [of "facts d" "facts d'"]
  by (simp add: evidence_ok_def grown_def)

lemma evidence_ok_names:
  assumes "evidence_ok d" "\<And>x. x \<in> set xs \<Longrightarrow> name_sound (facts d) x"
  shows "evidence_ok (fold insert_name xs d) \<and> kd_identities (fold insert_name xs d) = kd_identities d"
  using assms
proof (induction xs arbitrary: d)
  case (Cons x xs)
  have "evidence_ok (insert_name x d)" "facts (insert_name x d) = facts d"
    using Cons.prems by (auto simp: evidence_ok_def insert_name_def facts_def sql_insert_new_def)
  then show ?case using Cons.IH [of "insert_name x d"] Cons.prems(2) by (simp add: insert_name_def)
qed simp

lemma evidence_ok_links:
  assumes "evidence_ok d" "\<And>l. l \<in> set ls \<Longrightarrow> link_sound (facts d) l"
  shows "evidence_ok (fold insert_link ls d) \<and> kd_identities (fold insert_link ls d) = kd_identities d"
  using assms
proof (induction ls arbitrary: d)
  case (Cons l ls)
  have "evidence_ok (insert_link l d)" "facts (insert_link l d) = facts d"
    using Cons.prems by (auto simp: evidence_ok_def insert_link_def facts_def sql_insert_new_def)
  then show ?case using Cons.IH [of "insert_link l d"] Cons.prems(2) by (simp add: insert_link_def)
qed simp

lemma set_map_filter: "x \<in> set (List.map_filter f xs) \<longleftrightarrow> (\<exists>y \<in> set xs. f y = Some x)"
  by (force simp: List.map_filter_def)

lemma identity_of_fact: "identity_of sid t v d = Some i \<Longrightarrow> (sid, ob_id i, t, v) \<in> facts d"
  using find_by_Some [of identity_key "(sid, t, v)" "kd_identities d" i]
  by (force simp: identity_of_def identity_key_def facts_def fact_of_def)

lemma link_of_sound:
  assumes "link_of sid t v p src g observed key now d = Some l" "t \<noteq> PHONE"
    and "src = PHONE_JID_DERIVATION \<longleftrightarrow> t = PHONE_JID" "t = PHONE_JID \<longrightarrow> number_jid p v"
  shows "link_sound (facts d) l"
proof -
  obtain a b where "identity_of sid t v d = Some a" "identity_of sid PHONE p d = Some b"
    and l: "le_session l = sid" "le_left l = ob_id a" "le_right l = ob_id b" "le_source l = src"
    using assms(1) by (auto simp: link_of_def split: option.splits)
  then have "(sid, ob_id a, t, v) \<in> facts d" "(sid, ob_id b, PHONE, p) \<in> facts d" by (simp_all add: identity_of_fact)
  then show ?thesis using assms(2-4) unfolding link_sound_def l by blast
qed

lemma enqueue_evidence_frame:
  "kd_identities (enqueue_projection sid ns now d) = kd_identities d"
  "kd_links (enqueue_projection sid ns now d) = kd_links d" "kd_names (enqueue_projection sid ns now d) = kd_names d"
proof -
  have "kd_links (fold (request_work sid now) xs e) = kd_links e \<and> kd_names (fold (request_work sid now) xs e) = kd_names e"
    for xs e
    by (induction xs arbitrary: e) (simp_all add: request_work_def Let_def)
  then show "kd_links (enqueue_projection sid ns now d) = kd_links d" "kd_names (enqueue_projection sid ns now d) = kd_names d"
    by (simp_all add: enqueue_projection_def Let_def)
qed (rule enqueue_projection_frame)

lemma evidence_ok_same:
  "evidence_ok d \<Longrightarrow> kd_identities d' = kd_identities d \<Longrightarrow> set (kd_links d') \<subseteq> set (kd_links d)
    \<Longrightarrow> set (kd_names d') \<subseteq> set (kd_names d) \<Longrightarrow> evidence_ok d'"
  by (auto simp: evidence_ok_def facts_def)

lemma evidence_ok_enqueue: "evidence_ok d \<Longrightarrow> evidence_ok (enqueue_projection sid ns now d)"
  using evidence_ok_same [of d "enqueue_projection sid ns now d"] by (simp add: enqueue_evidence_frame)

text \<open>The inputs are normalized identities; a staged alias may have the number that the gateway gives for it.\<close>

definition input_ok :: "evidence_input \<Rightarrow> bool" where
  "input_ok i \<longleftrightarrow> (\<exists>raw. (ei_type i, ei_value i, ei_phone i)
     = (let n = normalize_contact_identity raw in (ni_type n, ni_value n, ni_phone n)))"

definition staged_ok :: "staged_observation \<Rightarrow> bool" where
  "staged_ok s \<longleftrightarrow> (\<exists>raw. (st_type s, st_value s) = (let n = normalize_contact_identity raw in (ni_type n, ni_value n))
     \<and> (st_type s = PHONE_JID \<longrightarrow> st_phone s = ni_phone (normalize_contact_identity raw)))"

lemma normalized_number:
  "ni_type (normalize_contact_identity raw) \<noteq> PHONE
    \<and> (ni_type (normalize_contact_identity raw) = PHONE_JID \<longrightarrow> (\<exists>p. ni_phone (normalize_contact_identity raw) = Some p
         \<and> number_jid p (ni_value (normalize_contact_identity raw))))"
  by (cases rule: normalized_cases [of raw]) (auto simp: number_jid_def)

lemma input_ok_type: "input_ok i \<Longrightarrow> ei_type i \<noteq> PHONE"
  using not_sym [OF conjunct1 [OF normalized_number]] by (auto simp: input_ok_def Let_def)

lemma input_ok_number:
  assumes "input_ok i" "ei_type i = PHONE_JID" "ei_phone i = Some p"
  shows "number_jid p (ei_value i)"
proof -
  obtain raw where raw: "(ei_type i, ei_value i, ei_phone i)
      = (let n = normalize_contact_identity raw in (ni_type n, ni_value n, ni_phone n))"
    using assms(1) unfolding input_ok_def by blast
  show ?thesis using normalized_number [of raw] raw assms(2,3) by (auto simp: Let_def)
qed

lemma staged_ok_type: "staged_ok s \<Longrightarrow> st_type s \<noteq> PHONE"
  using not_sym [OF conjunct1 [OF normalized_number]] by (auto simp: staged_ok_def Let_def)

lemma staged_ok_number:
  assumes "staged_ok s" "st_type s = PHONE_JID" "st_phone s = Some p"
  shows "number_jid p (st_value s)"
proof -
  obtain raw where raw: "(st_type s, st_value s) = (let n = normalize_contact_identity raw in (ni_type n, ni_value n))"
    "st_phone s = ni_phone (normalize_contact_identity raw)"
    using assms(1,2) unfolding staged_ok_def by blast
  show ?thesis using normalized_number [of raw] raw assms(2,3) by (auto simp: Let_def)
qed

lemma evidence_ok_identities:
  assumes "evidence_ok d" "ids_fresh ids sid (facts d)"
  shows "evidence_ok (upsert_input_identities ids sid inputs now d)"
  unfolding upsert_input_identities_def
  by (rule evidence_ok_grown [OF assms conjunct1 [OF grown_folds(1) [OF grown_refl]]]) (simp_all only: frame_folds)

lemma evidence_ok_input_links:
  assumes "evidence_ok d" "\<And>i. i \<in> set inputs \<Longrightarrow> input_ok i"
  shows "evidence_ok (insert_input_links md5 sid inputs now d)"
    "kd_identities (insert_input_links md5 sid inputs now d) = kd_identities d"
proof -
  have "link_sound (facts d) l" if link: "l \<in> set (List.map_filter (input_link md5 sid now d) inputs)" for l
  proof -
    obtain i where i: "i \<in> set inputs" "input_link md5 sid now d i = Some l" using link unfolding set_map_filter by blast
    then obtain p where p: "ei_phone i = Some p" "ei_type i = PHONE_JID"
      and l: "link_of sid PHONE_JID (ei_value i) p PHONE_JID_DERIVATION None now (''derived:'' @ md5 (ei_value i @ '':'' @ p)) now d = Some l"
      by (auto simp: input_link_def split: option.splits if_splits)
    show ?thesis by (rule link_of_sound [OF l]) (simp_all add: input_ok_number [OF assms(2) [OF i(1)] p(2,1)])
  qed
  from evidence_ok_links [OF assms(1) this] show "evidence_ok (insert_input_links md5 sid inputs now d)"
    "kd_identities (insert_input_links md5 sid inputs now d) = kd_identities d"
    by (simp_all add: insert_input_links_def)
qed

lemma member_name_sound:
  assumes "member_name md5 ids sid gid now d i = Some x"
  shows "name_sound (facts d) x"
proof -
  obtain o' where o': "identity_of sid (ei_type i) (ei_value i) d = Some o'" "no_session x = sid" "no_identity_id x = ob_id o'"
    using assms by (auto simp: member_name_def Let_def split: option.splits)
  show ?thesis using identity_of_fact [OF o'(1)] unfolding name_sound_def o'(2,3) by blast
qed

lemma staged_name_sound:
  assumes "staged_name ids now d (s, src, name) = Some x"
  shows "name_sound (facts d) x"
proof -
  obtain o' where o': "identity_of (st_session s) (st_type s) (st_value s) d = Some o'" "no_session x = st_session s"
      "no_identity_id x = ob_id o'"
    using assms by (auto simp: staged_name_def Let_def split: option.splits)
  show ?thesis using identity_of_fact [OF o'(1)] unfolding name_sound_def o'(2,3) by blast
qed

lemma evidence_ok_members:
  assumes ok: "evidence_ok d" "ids_fresh ids sid (facts d)" and inputs: "\<And>i. i \<in> set inputs \<Longrightarrow> input_ok i"
  shows "evidence_ok (observe_group_members enabled projection md5 ids sid gid inputs now d)"
proof -
  let ?d1 = "upsert_input_identities ids sid inputs now d"
  let ?d2 = "fold insert_name (List.map_filter (member_name md5 ids sid gid now ?d1) inputs) ?d1"
  have "name_sound (facts ?d1) x" if "x \<in> set (List.map_filter (member_name md5 ids sid gid now ?d1) inputs)" for x
    using that member_name_sound unfolding set_map_filter by blast
  then have "evidence_ok ?d2" using evidence_ok_names [OF evidence_ok_identities [OF ok]] by simp
  then have "evidence_ok (insert_input_links md5 sid inputs now ?d2)" using evidence_ok_input_links inputs by blast
  then show ?thesis using ok(1) evidence_ok_enqueue by (simp add: observe_group_members_def Let_def)
qed

lemma evidence_ok_sender:
  assumes ok: "evidence_ok d" "ids_fresh ids sid (facts d)" and i: "input_ok i"
  shows "evidence_ok (observe_push_name enabled projection md5 ids sid i name observed key now d)"
proof -
  let ?d1 = "upsert_input_identities ids sid [i] now d"
  have d1: "evidence_ok ?d1" using evidence_ok_identities [OF ok] .
  have links: "evidence_ok e \<Longrightarrow> evidence_ok (insert_input_links md5 sid [i] now e)" for e
    using evidence_ok_input_links(1) [of e "[i]"] i by simp
  show ?thesis
  proof (cases "identity_of sid (ei_type i) (ei_value i) ?d1")
    case None
    then show ?thesis using ok(1) links [OF d1] by (simp add: observe_push_name_def Let_def)
  next
    case (Some o')
    have "evidence_ok (insert_name (push_observation ids sid (ob_id o') name observed key now) ?d1)"
      using evidence_ok_names [OF d1, of "[push_observation ids sid (ob_id o') name observed key now]"] identity_of_fact [OF Some]
      by (auto simp: name_sound_def push_observation_def)
    then show ?thesis using Some ok(1) links evidence_ok_enqueue by (simp add: observe_push_name_def Let_def)
  qed
qed

lemma evidence_ok_publish:
  assumes ok: "evidence_ok d" "ids_fresh ids sid (facts d)" and staged: "\<And>s. s \<in> set staged \<Longrightarrow> staged_ok s"
  shows "evidence_ok (publish_snapshot enabled ids sid generation staged now d)"
proof -
  let ?ss = "staged_of sid generation staged"
  let ?d1 = "fold (see_identity ids sid) (map (\<lambda>s. (st_type s, st_value s, st_observed_at s)) ?ss) d"
  let ?d2 = "fold (see_identity ids sid) (staged_phones ?ss) ?d1"
  let ?names = "List.map_filter (staged_name ids now ?d2)
    (concat (map (\<lambda>s. [(s, OPENWA_CONTACT_NAME, st_contact_name s), (s, OPENWA_PUSH_NAME, st_push_name s)]) ?ss))"
  let ?d3 = "fold insert_name ?names ?d2"
  have "grown ids sid (facts d) (facts ?d2)"
    using grown_folds(2) [OF conjunct1 [OF grown_folds(2) [OF grown_refl]]] by blast
  then have d2: "evidence_ok ?d2" using evidence_ok_grown [OF ok] by (simp add: frame_folds)
  have "name_sound (facts ?d2) x" if x: "x \<in> set ?names" for x
  proof -
    obtain s src name where "staged_name ids now ?d2 (s, src, name) = Some x" using x unfolding set_map_filter by force
    then show ?thesis by (rule staged_name_sound)
  qed
  then have d3: "evidence_ok ?d3" using evidence_ok_names [OF d2] by blast
  have "link_sound (facts ?d3) l" if l: "l \<in> set (List.map_filter (staged_link now ?d3) ?ss)" for l
  proof -
    obtain s where s: "s \<in> set ?ss" "staged_link now ?d3 s = Some l" using l unfolding set_map_filter by blast
    then have staged: "staged_ok s" using staged by (simp add: staged_of_def)
    obtain p where p: "st_phone s = Some p"
      and l: "link_of (st_session s) (st_type s) (st_value s) p
         (if st_type s = PHONE_JID then PHONE_JID_DERIVATION else OPENWA_CONTACT_PHONE)
         (Some (st_generation s)) (st_observed_at s) (st_key s @ '':phone'') now ?d3 = Some l"
      using s(2) by (auto simp: staged_link_def split: option.splits)
    show ?thesis
      by (rule link_of_sound [OF l]) (use staged_ok_type [OF staged] staged_ok_number [OF staged _ p] in auto)
  qed
  then show ?thesis using ok(1) evidence_ok_links [OF d3] by (simp add: publish_snapshot_def Let_def)
qed

end
