(* ===== verification/Contact_Store.thy ===== *)
theory Contact_Store
  imports Contact_Evidence Openwa_Client
begin

text \<open>
  src/src/modules/contacts/contact.repository.ts and contact-observation.repository.ts: the contacts of a session,
  the identifiers and names that belong to them, and the members of groups that show them. Pages of a snapshot,
  senders of messages and members of groups add to them, and identities that turn out to be one person are merged.
\<close>

section \<open>Rows\<close>

record contact =
  kc_session :: string
  kc_id :: uuid
  kc_name :: "string option"
  kc_source :: "name_source option"
  kc_first_observed_at :: timestamp
  kc_last_observed_at :: timestamp
  kc_created_at :: timestamp
  kc_updated_at :: timestamp

datatype mapping_source = M_GROUP_PARTICIPANT | M_OPENWA_CONTACT | M_OPENWA_CONTACT_PHONE | M_MESSAGE_IDENTITY

record contact_identifier =
  ki_session :: string
  ki_contact :: uuid
  ki_type :: identity_type
  ki_value :: string
  ki_mapping :: mapping_source
  ki_last_observed_at :: timestamp
  ki_updated_at :: timestamp

record contact_name =
  kn_session :: string
  kn_contact :: uuid
  kn_source :: name_source
  kn_value :: string
  kn_first_observed_at :: timestamp
  kn_last_observed_at :: timestamp
  kn_observed_at :: timestamp
  kn_key :: string
  kn_updated_at :: timestamp

record identity_evidence =
  ie_session :: string
  ie_generation :: nat
  ie_type :: identity_type
  ie_value :: string
  ie_phone :: string

record group_member =
  mb_session :: string
  mb_group :: string
  mb_participant :: string
  mb_number :: string
  mb_contact :: "uuid option"
  mb_evidence_identity :: "uuid option"
  mb_identity_type :: "identity_type option"
  mb_phone :: "string option"
  mb_participant_name :: "string option"
  mb_name :: "string option"
  mb_name_source :: "name_source option"
  mb_name_updated_at :: "timestamp option"
  mb_is_admin :: bool
  mb_is_super_admin :: bool
  mb_shadow_phone :: "string option"
  mb_shadow_name :: "string option"
  mb_shadow_source :: "string option"
  mb_shadow_sort :: "string option"
  mb_shadow_revision :: nat
  mb_shadow_run :: "uuid option"
  mb_synced_at :: timestamp
  mb_updated_at :: timestamp

record contact_sync_state =
  ks_session :: string
  ks_generation :: nat
  ks_last_started_at :: "timestamp option"
  ks_last_completed_at :: "timestamp option"
  ks_record_count :: "nat option"
  ks_error :: "string option"
  ks_attempt_count :: nat
  ks_next_attempt_at :: timestamp
  ks_lease_token :: "uuid option"
  ks_lease_expires_at :: "timestamp option"
  ks_updated_at :: timestamp

record contact_store =
  xc_contacts :: "contact table"
  xc_identifiers :: "contact_identifier table"
  xc_names :: "contact_name table"
  xc_members :: "group_member table"
  xc_evidence :: "identity_evidence table"
  xc_states :: "contact_sync_state table"
  xc_staged :: "staged_observation table"
  xc_known :: contact_db

text \<open>The keys of the tables.\<close>

definition contact_key :: "contact \<Rightarrow> string \<times> uuid" where
  "contact_key c = (kc_session c, kc_id c)"

definition ident_key :: "contact_identifier \<Rightarrow> string \<times> identity_type \<times> string" where
  "ident_key i = (ki_session i, ki_type i, ki_value i)"

definition cname_key :: "contact_name \<Rightarrow> string \<times> uuid \<times> name_source" where
  "cname_key n = (kn_session n, kn_contact n, kn_source n)"

definition member_key :: "group_member \<Rightarrow> string \<times> string \<times> string" where
  "member_key m = (mb_session m, mb_group m, mb_participant m)"

definition evidence_key :: "identity_evidence \<Rightarrow> string \<times> nat \<times> identity_type \<times> string" where
  "evidence_key e = (ie_session e, ie_generation e, ie_type e, ie_value e)"

definition staged_key :: "staged_observation \<Rightarrow> string \<times> nat \<times> identity_type \<times> string" where
  "staged_key s = (st_session s, st_generation s, st_type s, st_value s)"

text \<open>
  What repository methods throw: two of the messages of the code, the conflict of a snapshot, and the error
  21000 of PostgreSQL when one INSERT ... ON CONFLICT DO UPDATE would change a row twice.
\<close>

datatype contact_error = LostWriteOwnership | LostPublicationOwnership | SnapshotConflict | RowTwice

section \<open>Contacts, identifiers and names\<close>

text \<open>DISTINCT ON: the first row of each key.\<close>

definition distinct_on :: "('r \<Rightarrow> 'k) \<Rightarrow> 'r list \<Rightarrow> 'r list" where
  "distinct_on key xs = fold (sql_insert_new key) xs []"

definition contact_of :: "string \<Rightarrow> identity_type \<Rightarrow> string \<Rightarrow> contact_identifier table \<Rightarrow> uuid option" where
  "contact_of sid typ val is = map_option ki_contact (find_by ident_key (sid, typ, val) is)"

definition new_contact :: "string \<Rightarrow> uuid \<Rightarrow> timestamp \<Rightarrow> contact" where
  "new_contact sid cid now = \<lparr>kc_session = sid, kc_id = cid, kc_name = None, kc_source = None,
     kc_first_observed_at = now, kc_last_observed_at = now, kc_created_at = now, kc_updated_at = now\<rparr>"

definition create_contact :: "string \<Rightarrow> timestamp \<Rightarrow> uuid \<Rightarrow> contact_store \<Rightarrow> contact_store" where
  "create_contact sid now cid d = d\<lparr>xc_contacts := sql_insert_new contact_key (new_contact sid cid now) (xc_contacts d)\<rparr>"

definition new_identifier ::
  "string \<Rightarrow> uuid \<Rightarrow> identity_type \<Rightarrow> string \<Rightarrow> mapping_source \<Rightarrow> timestamp \<Rightarrow> contact_identifier" where
  "new_identifier sid cid typ val src now = \<lparr>ki_session = sid, ki_contact = cid, ki_type = typ, ki_value = val,
     ki_mapping = src, ki_last_observed_at = now, ki_updated_at = now\<rparr>"

definition touch_identifiers :: "(contact_identifier \<Rightarrow> bool) \<Rightarrow> timestamp \<Rightarrow> contact_identifier row_update" where
  "touch_identifiers P now = sql_where P (\<lambda>i. i\<lparr>ki_last_observed_at := now, ki_updated_at := now\<rparr>)"

text \<open>On a conflict the identifier keeps its contact.\<close>

definition upsert_identifier :: "contact_identifier \<Rightarrow> timestamp \<Rightarrow> contact_store \<Rightarrow> contact_store" where
  "upsert_identifier i now d = d\<lparr>xc_identifiers := (if ident_key i \<in> ident_key ` set (xc_identifiers d)
     then sql_update (touch_identifiers (\<lambda>x. ident_key x = ident_key i) now) (xc_identifiers d)
     else xc_identifiers d @ [i])\<rparr>"

definition cname_rank :: "contact_name \<Rightarrow> timestamp \<times> string" where
  "cname_rank n = (kn_observed_at n, kn_key n)"

definition newer_name_row :: "contact_name \<Rightarrow> timestamp \<Rightarrow> contact_name row_update" where
  "newer_name_row x now = sql_where (\<lambda>n. cname_key n = cname_key x \<and> cname_rank n < cname_rank x)
     (\<lambda>n. n\<lparr>kn_value := kn_value x, kn_observed_at := kn_observed_at x, kn_key := kn_key x,
        kn_last_observed_at := now, kn_updated_at := now\<rparr>)"

definition upsert_name :: "contact_name \<Rightarrow> timestamp \<Rightarrow> contact_name table \<Rightarrow> contact_name table" where
  "upsert_name x now rows = (if cname_key x \<in> cname_key ` set rows then sql_update (newer_name_row x now) rows
     else rows @ [x])"

definition name_accepted :: "contact_name \<Rightarrow> contact_name table \<Rightarrow> bool" where
  "name_accepted x rows \<longleftrightarrow> (\<forall>n \<in> set rows. cname_key n = cname_key x \<longrightarrow> cname_rank n < cname_rank x)"

definition new_name ::
  "string \<Rightarrow> uuid \<Rightarrow> name_source \<Rightarrow> string \<Rightarrow> timestamp \<Rightarrow> string \<Rightarrow> timestamp \<Rightarrow> contact_name" where
  "new_name sid cid src val observed key now = \<lparr>kn_session = sid, kn_contact = cid, kn_source = src, kn_value = val,
     kn_first_observed_at = now, kn_last_observed_at = now, kn_observed_at = observed, kn_key = key, kn_updated_at = now\<rparr>"

section \<open>The names that are shown\<close>

definition name_of :: "string \<Rightarrow> uuid \<Rightarrow> name_source \<Rightarrow> contact_name table \<Rightarrow> string option" where
  "name_of sid cid src names = map_option kn_value (find_by cname_key (sid, cid, src) names)"

definition shown_name :: "contact_name table \<Rightarrow> contact \<Rightarrow> string option \<times> name_source option" where
  "shown_name names c = contact_projection (name_of (kc_session c) (kc_id c) OPENWA_CONTACT_NAME names)
     (name_of (kc_session c) (kc_id c) OPENWA_PUSH_NAME names)"

definition refresh_contact_row ::
  "contact_name table \<Rightarrow> string \<Rightarrow> uuid set \<Rightarrow> timestamp \<Rightarrow> contact row_update" where
  "refresh_contact_row names sid cids now = sql_where
     (\<lambda>c. kc_session c = sid \<and> kc_id c \<in> cids \<and> (kc_name c, kc_source c) \<noteq> shown_name names c)
     (\<lambda>c. c\<lparr>kc_name := fst (shown_name names c), kc_source := snd (shown_name names c), kc_updated_at := now\<rparr>)"

definition refresh_contacts :: "string \<Rightarrow> uuid set \<Rightarrow> timestamp \<Rightarrow> contact_store \<Rightarrow> contact_store" where
  "refresh_contacts sid cids now d =
     d\<lparr>xc_contacts := sql_update (refresh_contact_row (xc_names d) sid cids now) (xc_contacts d)\<rparr>"

text \<open>What a member shows when it belongs to a contact.\<close>

definition member_shows :: "contact \<Rightarrow> group_member \<Rightarrow> string option \<times> name_source option" where
  "member_shows c m = member_projection (kc_name c) (kc_source c) (mb_participant_name m)"

definition show_member :: "string option \<times> name_source option \<Rightarrow> timestamp \<Rightarrow> group_member \<Rightarrow> group_member" where
  "show_member p now m = m\<lparr>mb_name := fst p, mb_name_source := snd p,
     mb_name_updated_at := (if fst p = None then None else Some now), mb_updated_at := now\<rparr>"

definition refresh_member_row :: "contact table \<Rightarrow> string \<Rightarrow> uuid set \<Rightarrow> timestamp \<Rightarrow> group_member row_update" where
  "refresh_member_row cs sid cids now m = (case mb_contact m of None \<Rightarrow> None
     | Some cid \<Rightarrow> if mb_session m = sid \<and> cid \<in> cids then
         (case find_by contact_key (sid, cid) cs of None \<Rightarrow> None
          | Some c \<Rightarrow> if (mb_name m, mb_name_source m) \<noteq> member_shows c m
              then Some (show_member (member_shows c m) now m) else None) else None)"

definition refresh_members :: "bool \<Rightarrow> string \<Rightarrow> uuid set \<Rightarrow> timestamp \<Rightarrow> contact_store \<Rightarrow> contact_store \<times> nat" where
  "refresh_members fanout sid cids now d = (let f = refresh_member_row (xc_contacts d) sid cids now in
     if fanout then (d\<lparr>xc_members := sql_update f (xc_members d)\<rparr>, sql_count f (xc_members d)) else (d, 0))"

section \<open>A page of a snapshot\<close>

record page_row =
  pg_type :: identity_type
  pg_value :: string
  pg_phone :: "string option"
  pg_contact_name :: "string option"
  pg_push_name :: "string option"
  pg_candidate :: uuid

definition lid_part :: "string \<Rightarrow> string" where
  "lid_part s = (if ends_with ''@lid'' s then take (length s - 4) s else s)"

text \<open>The number that the gateway gives for a LID counts unless it is the LID itself.\<close>

definition upstream_phone :: "openwa_contact \<Rightarrow> normalized_identity \<Rightarrow> string option" where
  "upstream_phone c i = (if ni_type i = LID
     then let number = js_trim (oc_number c) in
       if all_digits number \<and> number \<noteq> lid_part (ni_value i) then Some number else None
     else ni_phone i)"

definition page_row_of :: "(nat \<Rightarrow> uuid) \<Rightarrow> nat \<times> openwa_contact \<Rightarrow> page_row" where
  "page_row_of fresh p = (case p of (k, c) \<Rightarrow> let i = normalize_contact_identity (oc_id c) in
     \<lparr>pg_type = ni_type i, pg_value = ni_value i, pg_phone = upstream_phone c i,
      pg_contact_name = normalize_contact_name (oc_name c) i, pg_push_name = normalize_contact_name (oc_push_name c) i,
      pg_candidate = fresh k\<rparr>)"

definition page_rows :: "(nat \<Rightarrow> uuid) \<Rightarrow> openwa_contact list \<Rightarrow> page_row list" where
  "page_rows fresh cs = map (page_row_of fresh) (List.enumerate 0 cs)"

definition row_identity :: "page_row \<Rightarrow> identity_type \<times> string" where
  "row_identity r = (pg_type r, pg_value r)"

definition owned_state :: "string \<Rightarrow> nat \<Rightarrow> uuid \<Rightarrow> timestamp \<Rightarrow> contact_sync_state \<Rightarrow> bool" where
  "owned_state sid generation t now s \<longleftrightarrow> ks_session s = sid \<and> ks_generation s = generation
     \<and> ks_lease_token s = Some t \<and> null_after (ks_lease_expires_at s) now"

definition renew_snapshot_row :: "string \<Rightarrow> nat \<Rightarrow> uuid \<Rightarrow> timestamp \<Rightarrow> contact_sync_state row_update" where
  "renew_snapshot_row sid generation t now = sql_where (owned_state sid generation t now)
     (\<lambda>s. s\<lparr>ks_lease_expires_at := Some (now + minutes 10), ks_updated_at := now\<rparr>)"

definition renew_snapshot :: "string \<Rightarrow> nat \<Rightarrow> uuid \<Rightarrow> timestamp \<Rightarrow> contact_store \<Rightarrow> contact_error + contact_store" where
  "renew_snapshot sid generation t now d = (let f = renew_snapshot_row sid generation t now in
     if sql_count f (xc_states d) \<noteq> 1 then Inl LostWriteOwnership
     else Inr (d\<lparr>xc_states := sql_update f (xc_states d)\<rparr>))"

definition staged_row :: "(string \<Rightarrow> string) \<Rightarrow> string \<Rightarrow> nat \<Rightarrow> timestamp \<Rightarrow> page_row \<Rightarrow> staged_observation" where
  "staged_row md5 sid generation now r = \<lparr>st_session = sid, st_generation = generation, st_type = pg_type r,
     st_value = pg_value r, st_phone = pg_phone r, st_contact_name = pg_contact_name r, st_push_name = pg_push_name r,
     st_observed_at = now,
     st_key = ''snapshot:'' @ decimal generation @ '':'' @ md5 (type_text (pg_type r) @ '':'' @ pg_value r)\<rparr>"

text \<open>A row that says something else of its identity than what was staged before, perhaps by the same page.\<close>

definition staged_conflict :: "string \<Rightarrow> nat \<Rightarrow> staged_observation table \<Rightarrow> page_row \<Rightarrow> bool" where
  "staged_conflict sid generation staged r =
     (case find_by staged_key (sid, generation, row_identity r) staged of None \<Rightarrow> True
      | Some s \<Rightarrow> (st_phone s, st_contact_name s, st_push_name s) \<noteq> (pg_phone r, pg_contact_name r, pg_push_name r))"

definition stage_page ::
  "bool \<Rightarrow> (string \<Rightarrow> string) \<Rightarrow> string \<Rightarrow> nat \<Rightarrow> timestamp \<Rightarrow> page_row list \<Rightarrow> contact_store \<Rightarrow> contact_error + contact_store" where
  "stage_page staging md5 sid generation now rows d = (if \<not> staging then Inr d else
     let staged = fold (sql_insert_new staged_key) (map (staged_row md5 sid generation now) rows) (xc_staged d) in
     if list_ex (staged_conflict sid generation staged) rows then Inl SnapshotConflict
     else Inr (d\<lparr>xc_staged := staged\<rparr>))"

definition missing_rows :: "string \<Rightarrow> page_row list \<Rightarrow> contact_store \<Rightarrow> page_row list" where
  "missing_rows sid rows d = distinct_on row_identity (sort_key pg_candidate
     (filter (\<lambda>r. contact_of sid (pg_type r) (pg_value r) (xc_identifiers d) = None) rows))"

definition create_missing :: "string \<Rightarrow> timestamp \<Rightarrow> page_row list \<Rightarrow> contact_store \<Rightarrow> contact_store" where
  "create_missing sid now missing d =
     fold (\<lambda>r. upsert_identifier (new_identifier sid (pg_candidate r) (pg_type r) (pg_value r) M_OPENWA_CONTACT now) now)
       missing (fold (\<lambda>r. create_contact sid now (pg_candidate r)) missing d)"

definition page_evidence :: "string \<Rightarrow> nat \<Rightarrow> page_row list \<Rightarrow> identity_evidence list" where
  "page_evidence sid generation rows = List.map_filter (\<lambda>r. map_option (\<lambda>p. \<lparr>ie_session = sid,
     ie_generation = generation, ie_type = pg_type r, ie_value = pg_value r, ie_phone = p\<rparr>) (pg_phone r)) rows"

definition upsert_evidence :: "identity_evidence \<Rightarrow> identity_evidence table \<Rightarrow> identity_evidence table" where
  "upsert_evidence e rows = (if evidence_key e \<in> evidence_key ` set rows
     then sql_update (sql_where (\<lambda>x. evidence_key x = evidence_key e) (\<lambda>x. x\<lparr>ie_phone := ie_phone e\<rparr>)) rows
     else rows @ [e])"

text \<open>This statement has no DISTINCT ON.\<close>

definition record_evidence ::
  "string \<Rightarrow> nat \<Rightarrow> page_row list \<Rightarrow> contact_store \<Rightarrow> contact_error + contact_store" where
  "record_evidence sid generation rows d = (let es = page_evidence sid generation rows in
     if \<not> distinct (map evidence_key es) then Inl RowTwice
     else Inr (d\<lparr>xc_evidence := fold upsert_evidence es (xc_evidence d)\<rparr>))"

definition matched_rows :: "string \<Rightarrow> page_row list \<Rightarrow> contact_store \<Rightarrow> (page_row \<times> uuid) list" where
  "matched_rows sid rows d =
     List.map_filter (\<lambda>r. map_option (Pair r) (contact_of sid (pg_type r) (pg_value r) (xc_identifiers d))) rows"

text \<open>The contact a phone number of the page belongs to: its own, or that of the best identity that claims it.\<close>

definition phone_claims :: "(page_row \<times> uuid) list \<Rightarrow> (string \<times> page_row \<times> uuid) list" where
  "phone_claims matched = distinct_on fst
     (sort_key (\<lambda>(p, r, c). (pg_type r \<noteq> PHONE_JID, pg_value r, c))
       (List.map_filter (\<lambda>(r, c). map_option (\<lambda>p. (p, r, c)) (pg_phone r)) matched))"

definition claim_phone :: "string \<Rightarrow> timestamp \<Rightarrow> string \<times> page_row \<times> uuid \<Rightarrow> contact_store \<Rightarrow> contact_store" where
  "claim_phone sid now p d = (case p of (phone, r, c) \<Rightarrow>
     upsert_identifier (new_identifier sid (coalesce (contact_of sid PHONE phone (xc_identifiers d)) c) PHONE phone
       M_OPENWA_CONTACT_PHONE now) now d)"

definition touch_matched :: "string \<Rightarrow> timestamp \<Rightarrow> (page_row \<times> uuid) list \<Rightarrow> contact_store \<Rightarrow> contact_store" where
  "touch_matched sid now matched d =
     d\<lparr>xc_contacts := sql_update (sql_where (\<lambda>c. kc_session c = sid \<and> kc_id c \<in> snd ` set matched)
         (\<lambda>c. c\<lparr>kc_last_observed_at := now, kc_updated_at := now\<rparr>)) (xc_contacts d),
       xc_identifiers := sql_update (touch_identifiers
         (\<lambda>i. ident_key i \<in> (\<lambda>(r, c). (sid, row_identity r)) ` set matched) now) (xc_identifiers d)\<rparr>"

text \<open>DISTINCT ON (contact_id) ORDER BY contact_id, identity_value of the rows with a name.\<close>

definition page_names ::
  "(string \<Rightarrow> string) \<Rightarrow> string \<Rightarrow> nat \<Rightarrow> timestamp \<Rightarrow> name_source \<Rightarrow> string \<Rightarrow> (page_row \<Rightarrow> string option)
    \<Rightarrow> (page_row \<times> uuid) list \<Rightarrow> contact_name list" where
  "page_names md5 sid generation now src tag name matched =
     List.map_filter (\<lambda>(r, c). map_option (\<lambda>v. new_name sid c src v now (''snapshot:'' @ decimal generation @ '':'' @ tag @ '':''
         @ md5 (type_text (pg_type r) @ '':'' @ pg_value r)) now) (name r))
       (distinct_on snd (sort_key (\<lambda>(r, c). pg_value r) (filter (\<lambda>(r, c). name r \<noteq> None) matched)))"

definition ingest_names ::
  "(string \<Rightarrow> string) \<Rightarrow> string \<Rightarrow> nat \<Rightarrow> timestamp \<Rightarrow> (page_row \<times> uuid) list \<Rightarrow> contact_store \<Rightarrow> contact_store" where
  "ingest_names md5 sid generation now matched d = d\<lparr>xc_names :=
     fold (\<lambda>x. upsert_name x now)
       (page_names md5 sid generation now OPENWA_CONTACT_NAME ''contact'' pg_contact_name matched
         @ page_names md5 sid generation now OPENWA_PUSH_NAME ''push'' pg_push_name matched) (xc_names d)\<rparr>"

definition ingest_rows ::
  "bool \<Rightarrow> bool \<Rightarrow> (string \<Rightarrow> string) \<Rightarrow> string \<Rightarrow> nat \<Rightarrow> uuid \<Rightarrow> page_row list \<Rightarrow> timestamp \<Rightarrow> contact_store
    \<Rightarrow> contact_error + contact_store \<times> nat \<times> nat" where
  "ingest_rows staging fanout md5 sid generation t rows now d =
     or_throw (renew_snapshot sid generation t now d) (\<lambda>d1.
     or_throw (stage_page staging md5 sid generation now rows d1) (\<lambda>d2.
     or_throw (record_evidence sid generation rows (create_missing sid now (missing_rows sid rows d2) d2)) (\<lambda>d3.
       let matched = matched_rows sid rows d3; cids = snd ` set matched;
           d4 = fold (claim_phone sid now) (phone_claims matched) (touch_matched sid now matched d3);
           d5 = refresh_contacts sid cids now (ingest_names md5 sid generation now matched d4);
           (d6, enriched) = refresh_members fanout sid cids now d5 in
       Inr (d6, length rows, enriched))))"

definition ingest_observed_page ::
  "bool \<Rightarrow> bool \<Rightarrow> (string \<Rightarrow> string) \<Rightarrow> (nat \<Rightarrow> uuid) \<Rightarrow> string \<Rightarrow> nat \<Rightarrow> uuid \<Rightarrow> openwa_contact list \<Rightarrow> timestamp
    \<Rightarrow> contact_store \<Rightarrow> contact_error + contact_store \<times> nat \<times> nat" where
  "ingest_observed_page staging fanout md5 fresh sid generation t cs now d =
     (if cs = [] then Inr (d, 0, 0) else ingest_rows staging fanout md5 sid generation t (page_rows fresh cs) now d)"

section \<open>Merging identities of one person\<close>

definition evidence_of :: "string \<Rightarrow> nat \<Rightarrow> contact_store \<Rightarrow> identity_evidence list" where
  "evidence_of sid generation d = filter (\<lambda>e. ie_session e = sid \<and> ie_generation e = generation) (xc_evidence d)"

definition claimants :: "identity_evidence list \<Rightarrow> string \<Rightarrow> (identity_type \<times> string) list" where
  "claimants es phone = remdups (map (\<lambda>e. (ie_type e, ie_value e)) (filter (\<lambda>e. ie_phone e = phone) es))"

definition unambiguous :: "identity_evidence list \<Rightarrow> string \<Rightarrow> bool" where
  "unambiguous es phone \<longleftrightarrow> length (claimants es phone) = 1"

definition merge_edge ::
  "string \<Rightarrow> contact_identifier table \<Rightarrow> identity_evidence list \<Rightarrow> identity_evidence \<Rightarrow> (uuid \<times> uuid) option" where
  "merge_edge sid is es e = (if unambiguous es (ie_phone e)
     then (case (contact_of sid (ie_type e) (ie_value e) is, contact_of sid PHONE (ie_phone e) is) of
         (Some a, Some b) \<Rightarrow> if a \<noteq> b then Some (a, b) else None
       | _ \<Rightarrow> None)
     else None)"

definition merge_edges :: "string \<Rightarrow> nat \<Rightarrow> contact_store \<Rightarrow> (uuid \<times> uuid) list" where
  "merge_edges sid generation d = (let es = evidence_of sid generation d in
     remdups (List.map_filter (merge_edge sid (xc_identifiers d) es) es))"

definition merge_components :: "(uuid \<times> uuid) list \<Rightarrow> (uuid \<times> uuid) list" where
  "merge_components edges = components edges (remdups (map fst (undirected edges)))"

text \<open>The contact of a component that was created first.\<close>

definition oldest_contact :: "string \<Rightarrow> contact table \<Rightarrow> (uuid \<times> uuid) list \<Rightarrow> uuid \<Rightarrow> uuid option" where
  "oldest_contact sid cs comps k = (case sort_key (\<lambda>c. (kc_created_at c, kc_id c))
       (filter (\<lambda>c. kc_session c = sid \<and> (kc_id c, k) \<in> set comps) cs) of [] \<Rightarrow> None | c # _ \<Rightarrow> Some (kc_id c))"

text \<open>The pairs of winner and loser.\<close>

definition merge_plan :: "string \<Rightarrow> nat \<Rightarrow> contact_store \<Rightarrow> (uuid \<times> uuid) list" where
  "merge_plan sid generation d = (let comps = merge_components (merge_edges sid generation d) in
     List.map_filter (\<lambda>(node, k). case oldest_contact sid (xc_contacts d) comps k of None \<Rightarrow> None
       | Some w \<Rightarrow> if node \<noteq> w \<and> (sid, node) \<in> contact_key ` set (xc_contacts d) then Some (w, node) else None) comps)"

definition winners :: "(uuid \<times> uuid) list \<Rightarrow> uuid list" where
  "winners plan = remdups (map fst plan)"

definition losers_of :: "(uuid \<times> uuid) list \<Rightarrow> uuid \<Rightarrow> uuid list" where
  "losers_of plan w = map snd (filter (\<lambda>p. fst p = w) plan)"

definition merged_into :: "(uuid \<times> uuid) list \<Rightarrow> uuid \<Rightarrow> uuid" where
  "merged_into plan c = (case find_by snd c plan of None \<Rightarrow> c | Some p \<Rightarrow> fst p)"

text \<open>The first by rank, the newest one first, then by contact and value.\<close>

definition best_of :: "contact_name list \<Rightarrow> contact_name option" where
  "best_of ns = (if ns = [] then None else
     (case sort_key (\<lambda>n. (kn_contact n, kn_value n)) (filter (\<lambda>n. cname_rank n = Max (cname_rank ` set ns)) ns) of
        [] \<Rightarrow> None | n # _ \<Rightarrow> Some n))"

definition group_names ::
  "string \<Rightarrow> (uuid \<times> uuid) list \<Rightarrow> contact_name table \<Rightarrow> uuid \<times> name_source \<Rightarrow> contact_name list" where
  "group_names sid plan names p = (case p of (w, src) \<Rightarrow> filter (\<lambda>n. kn_session n = sid \<and> kn_source n = src
     \<and> (kn_contact n = w \<or> kn_contact n \<in> set (losers_of plan w))) names)"

definition merged_name_row :: "contact_name \<Rightarrow> timestamp \<Rightarrow> contact_name row_update" where
  "merged_name_row x now = sql_where (\<lambda>n. cname_key n = cname_key x \<and> cname_rank n \<le> cname_rank x)
     (\<lambda>n. n\<lparr>kn_value := kn_value x, kn_first_observed_at := min (kn_first_observed_at n) (kn_first_observed_at x),
        kn_last_observed_at := max (kn_last_observed_at n) (kn_last_observed_at x), kn_observed_at := kn_observed_at x,
        kn_key := kn_key x, kn_updated_at := now\<rparr>)"

definition merge_name :: "timestamp \<Rightarrow> contact_name \<Rightarrow> contact_name table \<Rightarrow> contact_name table" where
  "merge_name now x rows = (if cname_key x \<in> cname_key ` set rows then sql_update (merged_name_row x now) rows
     else rows @ [x])"

definition merged_names :: "string \<Rightarrow> (uuid \<times> uuid) list \<Rightarrow> timestamp \<Rightarrow> contact_name table \<Rightarrow> contact_name list" where
  "merged_names sid plan now names = List.map_filter (\<lambda>p. map_option
       (\<lambda>n. n\<lparr>kn_contact := fst p, kn_updated_at := now\<rparr>) (best_of (group_names sid plan names p)))
     (List.product (winners plan) [OPENWA_CONTACT_NAME, GROUP_PARTICIPANT_NAME, OPENWA_PUSH_NAME])"

definition merge_names :: "string \<Rightarrow> (uuid \<times> uuid) list \<Rightarrow> timestamp \<Rightarrow> contact_store \<Rightarrow> contact_store" where
  "merge_names sid plan now d = d\<lparr>xc_names :=
     sql_delete (\<lambda>n. kn_session n = sid \<and> kn_contact n \<in> snd ` set plan)
       (fold (merge_name now) (merged_names sid plan now (xc_names d)) (xc_names d))\<rparr>"

definition move_identifiers :: "string \<Rightarrow> (uuid \<times> uuid) list \<Rightarrow> timestamp \<Rightarrow> contact_store \<Rightarrow> contact_store" where
  "move_identifiers sid plan now d = d\<lparr>xc_identifiers := sql_update
     (sql_where (\<lambda>i. ki_session i = sid \<and> ki_contact i \<in> snd ` set plan)
       (\<lambda>i. i\<lparr>ki_contact := merged_into plan (ki_contact i), ki_updated_at := now\<rparr>)) (xc_identifiers d)\<rparr>"

definition move_members :: "string \<Rightarrow> (uuid \<times> uuid) list \<Rightarrow> timestamp \<Rightarrow> contact_store \<Rightarrow> contact_store" where
  "move_members sid plan now d = d\<lparr>xc_members := sql_update
     (sql_where (\<lambda>m. mb_session m = sid \<and> mb_contact m \<in> Some ` snd ` set plan)
       (\<lambda>m. m\<lparr>mb_contact := map_option (merged_into plan) (mb_contact m), mb_updated_at := now\<rparr>)) (xc_members d)\<rparr>"

text \<open>The winners take over the times of their losers, which are deleted.\<close>

definition group_contacts :: "string \<Rightarrow> (uuid \<times> uuid) list \<Rightarrow> contact table \<Rightarrow> uuid \<Rightarrow> contact list" where
  "group_contacts sid plan cs w =
     filter (\<lambda>c. kc_session c = sid \<and> (kc_id c = w \<or> kc_id c \<in> set (losers_of plan w))) cs"

definition merge_contacts :: "string \<Rightarrow> (uuid \<times> uuid) list \<Rightarrow> timestamp \<Rightarrow> contact_store \<Rightarrow> contact_store" where
  "merge_contacts sid plan now d = d\<lparr>xc_contacts := sql_delete (\<lambda>c. kc_session c = sid \<and> kc_id c \<in> snd ` set plan)
     (sql_update (sql_where (\<lambda>c. kc_session c = sid \<and> kc_id c \<in> set (winners plan))
        (\<lambda>c. let g = group_contacts sid plan (xc_contacts d) (kc_id c) in
           c\<lparr>kc_first_observed_at := Min (kc_first_observed_at ` set g),
             kc_last_observed_at := Max (kc_last_observed_at ` set g), kc_updated_at := now\<rparr>)) (xc_contacts d))\<rparr>"

definition refresh_winners :: "string \<Rightarrow> uuid set \<Rightarrow> timestamp \<Rightarrow> contact_store \<Rightarrow> contact_store" where
  "refresh_winners sid cids now d = d\<lparr>xc_contacts := sql_update (sql_where (\<lambda>c. kc_session c = sid \<and> kc_id c \<in> cids)
     (\<lambda>c. c\<lparr>kc_name := fst (shown_name (xc_names d) c), kc_source := snd (shown_name (xc_names d) c),
        kc_updated_at := now\<rparr>)) (xc_contacts d)\<rparr>"

definition apply_merge :: "bool \<Rightarrow> string \<Rightarrow> (uuid \<times> uuid) list \<Rightarrow> timestamp \<Rightarrow> contact_store \<Rightarrow> contact_store \<times> nat" where
  "apply_merge fanout sid plan now d = (let cids = set (winners plan) in
     refresh_members fanout sid cids now (refresh_winners sid cids now (merge_contacts sid plan now
       (move_members sid plan now (move_identifiers sid plan now (merge_names sid plan now d))))))"

record merge_result =
  mr_merged :: nat
  mr_conflicts :: nat
  mr_enriched :: nat

definition reconcile_identities ::
  "bool \<Rightarrow> string \<Rightarrow> nat \<Rightarrow> uuid \<Rightarrow> timestamp \<Rightarrow> contact_store \<Rightarrow> contact_error + contact_store \<times> merge_result" where
  "reconcile_identities fanout sid generation t now d = or_throw (renew_snapshot sid generation t now d) (\<lambda>d1.
     let plan = merge_plan sid generation d1; es = evidence_of sid generation d1;
         (d2, enriched) = apply_merge fanout sid plan now d1 in
     Inr (d2\<lparr>xc_evidence := sql_delete (\<lambda>e. ie_session e = sid \<and> ie_generation e \<le> generation) (xc_evidence d2)\<rparr>,
       \<lparr>mr_merged = length plan, mr_conflicts = length (filter (\<lambda>e. \<not> unambiguous es (ie_phone e)) es),
        mr_enriched = enriched\<rparr>))"

section \<open>Senders of messages\<close>

record writer_config =
  wr_enabled :: bool
  wr_projection :: bool
  wr_fanout :: bool

definition observe_message_sender ::
  "writer_config \<Rightarrow> (string \<Rightarrow> string) \<Rightarrow> evidence_ids \<Rightarrow> uuid \<Rightarrow> string \<Rightarrow> string \<Rightarrow> string option \<Rightarrow> timestamp \<Rightarrow> string
    \<Rightarrow> timestamp \<Rightarrow> contact_store \<Rightarrow> contact_store \<times> bool" where
  "observe_message_sender w md5 ids candidate sid raw raw_name observed key now d =
     (let i = normalize_contact_identity raw in
      case normalize_contact_name raw_name i of None \<Rightarrow> (d, False)
      | Some name \<Rightarrow> if ni_type i \<notin> {LID, PHONE_JID} then (d, False) else
          let known = contact_of sid (ni_type i) (ni_value i) (xc_identifiers d);
              d1 = upsert_identifier (new_identifier sid (coalesce known candidate) (ni_type i) (ni_value i)
                     M_MESSAGE_IDENTITY now) now (if known = None then create_contact sid now candidate d else d);
              d2 = d1\<lparr>xc_known := observe_push_name (wr_enabled w) (wr_projection w) md5 ids sid
                     \<lparr>ei_type = ni_type i, ei_value = ni_value i, ei_phone = ni_phone i, ei_participant = [], ei_name = None\<rparr>
                     name observed key now (xc_known d1)\<rparr>;
              cid = coalesce known candidate; x = new_name sid cid OPENWA_PUSH_NAME name observed key now in
          if \<not> name_accepted x (xc_names d2) then (d2, False) else
            let d3 = d2\<lparr>xc_names := upsert_name x now (xc_names d2)\<rparr>;
                d4 = d3\<lparr>xc_contacts := sql_update (sql_where (\<lambda>c. contact_key c = (sid, cid))
                  (\<lambda>c. c\<lparr>kc_name := fst (shown_name (xc_names d3) c), kc_source := snd (shown_name (xc_names d3) c),
                     kc_last_observed_at := now, kc_updated_at := now\<rparr>)) (xc_contacts d3)\<rparr> in
            (fst (refresh_members (wr_fanout w) sid {cid} now d4), True))"

section \<open>Members of groups\<close>

definition seed_input :: "group_participant \<Rightarrow> evidence_input" where
  "seed_input p = (let i = normalize_contact_identity (gp_id p) in
     \<lparr>ei_type = ni_type i, ei_value = ni_value i, ei_phone = ni_phone i, ei_participant = gp_id p,
      ei_name = normalize_contact_name (gp_name p) i\<rparr>)"

definition input_identity :: "evidence_input \<Rightarrow> identity_type \<times> string" where
  "input_identity i = (ei_type i, ei_value i)"

definition seed_missing :: "string \<Rightarrow> evidence_input list \<Rightarrow> contact_store \<Rightarrow> evidence_input list" where
  "seed_missing sid inputs d = distinct_on input_identity (sort_key ei_participant
     (filter (\<lambda>i. contact_of sid (ei_type i) (ei_value i) (xc_identifiers d) = None) inputs))"

definition seed_contacts ::
  "(identity_type \<times> string \<Rightarrow> uuid) \<Rightarrow> string \<Rightarrow> evidence_input list \<Rightarrow> timestamp \<Rightarrow> contact_store \<Rightarrow> contact_store" where
  "seed_contacts fresh sid inputs now d = (let missing = seed_missing sid inputs d in
     fold (\<lambda>i. upsert_identifier (new_identifier sid (fresh (input_identity i)) (ei_type i) (ei_value i)
         M_GROUP_PARTICIPANT now) now)
       missing (fold (\<lambda>i. create_contact sid now (fresh (input_identity i))) missing d))"

definition seed_phone :: "string \<Rightarrow> timestamp \<Rightarrow> evidence_input \<Rightarrow> contact_store \<Rightarrow> contact_store" where
  "seed_phone sid now i d = (case (ei_phone i, contact_of sid (ei_type i) (ei_value i) (xc_identifiers d)) of
     (Some phone, Some c) \<Rightarrow> if ei_type i = PHONE_JID
       then upsert_identifier (new_identifier sid c PHONE phone M_GROUP_PARTICIPANT now) now d else d
   | _ \<Rightarrow> d)"

definition seed_identifiers :: "string \<Rightarrow> evidence_input list \<Rightarrow> timestamp \<Rightarrow> contact_store \<Rightarrow> contact_store" where
  "seed_identifiers sid inputs now d = fold (seed_phone sid now) inputs
     (d\<lparr>xc_identifiers := sql_update (touch_identifiers
        (\<lambda>i. ident_key i \<in> Pair sid ` input_identity ` set inputs) now) (xc_identifiers d)\<rparr>)"

text \<open>The columns that seeding a member sets; it is left alone when they are as they were.\<close>

definition seeded :: "bool \<Rightarrow> contact \<Rightarrow> uuid option \<Rightarrow> evidence_input \<Rightarrow> timestamp \<Rightarrow> group_member \<Rightarrow> group_member" where
  "seeded fanout c known i now m =
     (let m1 = m\<lparr>mb_contact := Some (kc_id c), mb_evidence_identity := known, mb_identity_type := Some (ei_type i),
            mb_phone := (if ei_type i = PHONE_JID then ei_phone i else None), mb_participant_name := ei_name i,
            mb_updated_at := now\<rparr> in
      if fanout then show_member (member_shows c m1) now m1 else m1)"

definition seeded_columns :: "group_member \<Rightarrow> uuid option \<times> uuid option \<times> identity_type option \<times> string option
    \<times> string option \<times> string option \<times> name_source option" where
  "seeded_columns m = (mb_contact m, mb_evidence_identity m, mb_identity_type m, mb_phone m, mb_participant_name m,
     mb_name m, mb_name_source m)"

definition seed_member_row ::
  "bool \<Rightarrow> string \<Rightarrow> string \<Rightarrow> evidence_input list \<Rightarrow> timestamp \<Rightarrow> contact_store \<Rightarrow> group_member row_update" where
  "seed_member_row fanout sid gid inputs now d m = (if mb_session m = sid \<and> mb_group m = gid then
     (case find_by ei_participant (mb_participant m) inputs of None \<Rightarrow> None
      | Some i \<Rightarrow> (case Option.bind (contact_of sid (ei_type i) (ei_value i) (xc_identifiers d))
             (\<lambda>cid. find_by contact_key (sid, cid) (xc_contacts d)) of None \<Rightarrow> None
          | Some c \<Rightarrow> let m' = seeded fanout c (map_option ob_id (identity_of sid (ei_type i) (ei_value i) (xc_known d))) i now m in
              if seeded_columns m' = seeded_columns m then None else Some m'))
     else None)"

definition seed_group_members ::
  "writer_config \<Rightarrow> (string \<Rightarrow> string) \<Rightarrow> evidence_ids \<Rightarrow> (identity_type \<times> string \<Rightarrow> uuid) \<Rightarrow> string \<Rightarrow> string
    \<Rightarrow> group_participant list \<Rightarrow> timestamp \<Rightarrow> contact_store \<Rightarrow> contact_store" where
  "seed_group_members w md5 ids fresh sid gid ps now d = (if ps = [] then d else
     let inputs = map seed_input ps;
         d1 = d\<lparr>xc_known := observe_group_members (wr_enabled w) (wr_projection w) md5 ids sid gid inputs now (xc_known d)\<rparr>;
         d2 = seed_identifiers sid inputs now (seed_contacts fresh sid inputs now d1) in
     d2\<lparr>xc_members := sql_update (seed_member_row (wr_fanout w) sid gid inputs now d2) (xc_members d2)\<rparr>)"

text \<open>
  The member rows of GatewayGroupSnapshotRepository.upsertGroupDetails, where the fingerprint of the members has
  changed: the rows of the participants, the seeding of those that are new or changed, and the end of the others.
\<close>

definition new_member :: "string \<Rightarrow> string \<Rightarrow> timestamp \<Rightarrow> group_participant \<Rightarrow> group_member" where
  "new_member sid gid now p = \<lparr>mb_session = sid, mb_group = gid, mb_participant = gp_id p, mb_number = gp_number p,
     mb_contact = None, mb_evidence_identity = None, mb_identity_type = None, mb_phone = None,
     mb_participant_name = gp_name p, mb_name = gp_name p,
     mb_name_source = (if gp_name p = None then None else Some GROUP_PARTICIPANT_NAME),
     mb_name_updated_at = (if gp_name p = None then None else Some now), mb_is_admin = gp_is_admin p,
     mb_is_super_admin = gp_is_super_admin p, mb_shadow_phone = None, mb_shadow_name = None, mb_shadow_source = None,
     mb_shadow_sort = None, mb_shadow_revision = 0, mb_shadow_run = None, mb_synced_at = now, mb_updated_at = now\<rparr>"

definition participant_columns :: "group_member \<Rightarrow> string \<times> string option \<times> bool \<times> bool" where
  "participant_columns m = (mb_number m, mb_participant_name m, mb_is_admin m, mb_is_super_admin m)"

definition participant_row :: "string \<Rightarrow> string \<Rightarrow> timestamp \<Rightarrow> group_participant \<Rightarrow> group_member row_update" where
  "participant_row sid gid now p = sql_where (\<lambda>m. member_key m = (sid, gid, gp_id p)
       \<and> participant_columns m \<noteq> (gp_number p, gp_name p, gp_is_admin p, gp_is_super_admin p))
     (\<lambda>m. m\<lparr>mb_number := gp_number p, mb_participant_name := gp_name p, mb_is_admin := gp_is_admin p,
        mb_is_super_admin := gp_is_super_admin p, mb_synced_at := now, mb_updated_at := now\<rparr>)"

definition upsert_member :: "string \<Rightarrow> string \<Rightarrow> timestamp \<Rightarrow> group_participant \<Rightarrow> group_member table \<Rightarrow> group_member table" where
  "upsert_member sid gid now p rows = (if (sid, gid, gp_id p) \<in> member_key ` set rows
     then sql_update (participant_row sid gid now p) rows else rows @ [new_member sid gid now p])"

definition participant_changed :: "string \<Rightarrow> string \<Rightarrow> group_member table \<Rightarrow> group_participant \<Rightarrow> bool" where
  "participant_changed sid gid rows p = (case find_by member_key (sid, gid, gp_id p) rows of None \<Rightarrow> True
     | Some m \<Rightarrow> participant_columns m \<noteq> (gp_number p, gp_name p, gp_is_admin p, gp_is_super_admin p))"

definition replace_members ::
  "writer_config \<Rightarrow> (string \<Rightarrow> string) \<Rightarrow> evidence_ids \<Rightarrow> (identity_type \<times> string \<Rightarrow> uuid) \<Rightarrow> string \<Rightarrow> string
    \<Rightarrow> group_participant list \<Rightarrow> timestamp \<Rightarrow> contact_store \<Rightarrow> contact_store" where
  "replace_members w md5 ids fresh sid gid ps now d =
     (let changed = filter (participant_changed sid gid (xc_members d)) ps;
          d1 = d\<lparr>xc_members := fold (upsert_member sid gid now) ps (xc_members d)\<rparr>;
          d2 = seed_group_members w md5 ids fresh sid gid changed now d1 in
      d2\<lparr>xc_members := sql_delete (\<lambda>m. mb_session m = sid \<and> mb_group m = gid \<and> mb_participant m \<notin> gp_id ` set ps)
        (xc_members d2)\<rparr>)"

end
