(* ===== verification/Contact_Projection.thy ===== *)
theory Contact_Projection
  imports Contact_Store
begin

text \<open>
  The projection of resolved contacts onto the members of groups: src/src/modules/contacts/
  contact-projection.repository.ts, contact-projection-batch.repository.ts and contact-projection.tick.ts. The
  lower() of the database is a parameter. How many rows a sweep has requested is only logged and left out.
\<close>

section \<open>Work\<close>

record projection_claim =
  qk_session :: string
  qk_identity :: uuid
  qk_token :: uuid

definition projection_claimable :: "string list option \<Rightarrow> timestamp \<Rightarrow> projection_work \<Rightarrow> bool" where
  "projection_claimable allowed now w \<longleftrightarrow> listed allowed (pw_session w)
     \<and> (pw_status w \<in> {P_PENDING, P_RETRY} \<and> pw_next_attempt_at w \<le> now
        \<or> pw_status w = P_RUNNING \<and> null_before (pw_lease_expires_at w) now)"

text \<open>Work that has begun goes on with its revision, its cutoff and its run.\<close>

definition claim_work_row :: "resolution_run table \<Rightarrow> string \<times> uuid \<Rightarrow> uuid \<Rightarrow> timestamp \<Rightarrow> projection_work row_update" where
  "claim_work_row runs key t now = sql_where (\<lambda>w. work_key w = key)
     (\<lambda>w. let cutoff = coalesce (pw_active_cutoff w) (pw_requested_cutoff w) in
        w\<lparr>pw_status := P_RUNNING,
          pw_active_revision := Some (coalesce (pw_active_revision w) (pw_requested_revision w)),
          pw_active_cutoff := Some cutoff,
          pw_active_run := coalesce_opt (pw_active_run w)
            (map_option rr_id (latest_run (pw_session w) (\<lambda>r. coalesce (rr_completed_at r) 0 \<le> cutoff) runs)),
          pw_attempt_count := pw_attempt_count w + 1, pw_lease_token := Some t,
          pw_lease_expires_at := Some (now + minutes 5), pw_error := None, pw_updated_at := now\<rparr>)"

definition claim_projection ::
  "string list option \<Rightarrow> uuid \<Rightarrow> timestamp \<Rightarrow> contact_db \<Rightarrow> contact_db \<times> projection_claim option" where
  "claim_projection allowed t now d =
     (case sql_top 1 (\<lambda>w. (pw_next_attempt_at w, pw_first_requested_at w, pw_session w, pw_identity w))
         (projection_claimable allowed now) (kd_work d) of
        [] \<Rightarrow> (d, None)
      | w # _ \<Rightarrow> (d\<lparr>kd_work := sql_update (claim_work_row (kd_runs d) (work_key w) t now) (kd_work d)\<rparr>,
          Some \<lparr>qk_session = pw_session w, qk_identity = pw_identity w, qk_token = t\<rparr>))"

definition claim_key :: "projection_claim \<Rightarrow> string \<times> uuid" where
  "claim_key k = (qk_session k, qk_identity k)"

definition work_held :: "projection_claim \<Rightarrow> projection_work \<Rightarrow> bool" where
  "work_held k w \<longleftrightarrow> work_key w = claim_key k \<and> pw_status w = P_RUNNING \<and> pw_lease_token w = Some (qk_token k)"

definition release_work_row :: "projection_claim \<Rightarrow> timestamp \<Rightarrow> projection_work row_update" where
  "release_work_row k now = sql_where (work_held k)
     (\<lambda>w. w\<lparr>pw_status := P_PENDING, pw_next_attempt_at := now, pw_lease_token := None, pw_lease_expires_at := None,
        pw_updated_at := now\<rparr>)"

definition release_projection :: "projection_claim \<Rightarrow> timestamp \<Rightarrow> contact_db \<Rightarrow> contact_db" where
  "release_projection k now d = d\<lparr>kd_work := sql_update (release_work_row k now) (kd_work d)\<rparr>"

text \<open>LEAST(3600, 30 * power(2, LEAST(attempt_count, 7))) seconds, as for resolutions.\<close>

definition fail_work_row :: "projection_claim \<Rightarrow> timestamp \<Rightarrow> projection_work row_update" where
  "fail_work_row k now = sql_where (work_held k)
     (\<lambda>w. w\<lparr>pw_status := (if 5 \<le> pw_attempt_count w then P_FAILED else P_RETRY),
        pw_next_attempt_at := now + resolution_backoff (pw_attempt_count w),
        pw_failed_at := (if 5 \<le> pw_attempt_count w then Some now else pw_failed_at w),
        pw_error := Some ''PROJECTION_ERROR'', pw_lease_token := None, pw_lease_expires_at := None,
        pw_updated_at := now\<rparr>)"

definition fail_projection :: "projection_claim \<Rightarrow> timestamp \<Rightarrow> contact_db \<Rightarrow> contact_db" where
  "fail_projection k now d = d\<lparr>kd_work := sql_update (fail_work_row k now) (kd_work d)\<rparr>"

section \<open>What a member shows\<close>

definition identity_row :: "string \<Rightarrow> uuid \<Rightarrow> contact_db \<Rightarrow> observed_identity option" where
  "identity_row sid n d = find_by (\<lambda>i. (ob_session i, ob_id i)) (sid, n) (kd_identities d)"

text \<open>The assignment of an identity by the run, if there is a run.\<close>

definition run_assignment :: "string \<Rightarrow> uuid option \<Rightarrow> uuid \<Rightarrow> contact_db \<Rightarrow> identity_assignment option" where
  "run_assignment sid run n d = (case run of None \<Rightarrow> None
     | Some rid \<Rightarrow> find_by as_identity n (run_assignments sid rid d))"

definition resolved_assignment :: "string \<Rightarrow> uuid option \<Rightarrow> uuid \<Rightarrow> contact_db \<Rightarrow> identity_assignment option" where
  "resolved_assignment sid run n d = (case run_assignment sid run n d of None \<Rightarrow> None
     | Some a \<Rightarrow> if as_status a = RESOLVED then Some a else None)"

definition resolved_aliases :: "string \<Rightarrow> uuid option \<Rightarrow> uuid \<Rightarrow> contact_db \<Rightarrow> uuid list" where
  "resolved_aliases sid run n d = (case (run, resolved_assignment sid run n d) of
     (Some rid, Some own) \<Rightarrow> map as_identity (filter (\<lambda>a. as_cluster a = as_cluster own \<and> as_status a = RESOLVED)
       (run_assignments sid rid d))
   | _ \<Rightarrow> [])"

definition affected_by :: "string \<Rightarrow> uuid option \<Rightarrow> uuid \<Rightarrow> contact_db \<Rightarrow> uuid set" where
  "affected_by sid run n d = insert n (set (resolved_aliases sid run n d))"

text \<open>
  regexp_replace with the pattern \<open>@c.us$\<close>, whose dot matches any character: the backslash before it is dropped
  by the template literal.
\<close>

definition drop_c_us :: "string \<Rightarrow> string" where
  "drop_c_us v = (let n = length v - 5; t = drop n v in
     if 5 \<le> length v \<and> take 2 t = ''@c'' \<and> drop 3 t = ''us'' then take n v else v)"

definition projected_phone :: "string \<Rightarrow> uuid option \<Rightarrow> observed_identity \<Rightarrow> contact_db \<Rightarrow> string option" where
  "projected_phone sid run i d = (case resolved_assignment sid run (ob_id i) d of
     Some a \<Rightarrow> as_phone a
   | None \<Rightarrow> if ob_type i = PHONE_JID
       then Some (drop_c_us (ob_value i))
       else None)"

definition push_name_of :: "string \<Rightarrow> uuid set \<Rightarrow> timestamp \<Rightarrow> contact_db \<Rightarrow> string option" where
  "push_name_of sid ns cutoff d = map_option no_name (newest_name (filter (\<lambda>x. no_session x = sid \<and> no_identity_id x \<in> ns
     \<and> no_source x = OPENWA_PUSH_NAME \<and> no_created_at x \<le> cutoff) (kd_names d)))"

definition cluster_name :: "string \<Rightarrow> uuid option \<Rightarrow> uuid \<Rightarrow> contact_db \<Rightarrow> string option" where
  "cluster_name sid run n d = (case (run, resolved_assignment sid run n d) of
     (Some rid, Some a) \<Rightarrow> Option.bind (find_by cl_id (as_cluster a) (run_clusters sid rid d)) (map_option fst \<circ> cl_name)
   | _ \<Rightarrow> None)"

text \<open>The first name there is of the four, with its source.\<close>

definition alias_source :: string where "alias_source = ''RESOLVED_ALIAS_PUSH_NAME''"

definition projected_name ::
  "string \<Rightarrow> uuid option \<Rightarrow> uuid \<Rightarrow> string option \<Rightarrow> timestamp \<Rightarrow> contact_db \<Rightarrow> (string \<times> string) option" where
  "projected_name sid run n participant cutoff d =
     (case cluster_name sid run n d of Some v \<Rightarrow> Some (v, source_text OPENWA_CONTACT_NAME)
      | None \<Rightarrow> (case participant of Some v \<Rightarrow> Some (v, source_text GROUP_PARTICIPANT_NAME)
      | None \<Rightarrow> (case push_name_of sid {n} cutoff d of Some v \<Rightarrow> Some (v, source_text OPENWA_PUSH_NAME)
      | None \<Rightarrow> map_option (\<lambda>v. (v, alias_source))
          (push_name_of sid (set (resolved_aliases sid run n d) - {n}) cutoff d))))"

record projected_member =
  mp_type :: identity_type
  mp_phone :: "string option"
  mp_name :: "(string \<times> string) option"
  mp_sort :: string

definition project_member ::
  "(string \<Rightarrow> string) \<Rightarrow> uuid option \<Rightarrow> timestamp \<Rightarrow> contact_db \<Rightarrow> group_member \<Rightarrow> projected_member option" where
  "project_member lower run cutoff d m = (case Option.bind (mb_evidence_identity m) (\<lambda>n. identity_row (mb_session m) n d) of
     None \<Rightarrow> None
   | Some i \<Rightarrow> (let phone = projected_phone (mb_session m) run i d;
         name = projected_name (mb_session m) run (ob_id i) (mb_participant_name m) cutoff d in
       Some \<lparr>mp_type = ob_type i, mp_phone = phone, mp_name = name,
         mp_sort = lower (coalesce (map_option fst name) (coalesce phone (mb_number m)))\<rparr>))"

definition shown_source :: "string \<Rightarrow> name_source" where
  "shown_source s = (if s = source_text OPENWA_CONTACT_NAME then OPENWA_CONTACT_NAME
     else if s = source_text GROUP_PARTICIPANT_NAME then GROUP_PARTICIPANT_NAME else OPENWA_PUSH_NAME)"

definition shadow_columns :: "group_member \<Rightarrow> identity_type option \<times> string option \<times> string option \<times> string option
    \<times> string option \<times> nat \<times> uuid option \<times> string option \<times> string option \<times> name_source option" where
  "shadow_columns m = (mb_identity_type m, mb_shadow_phone m, mb_shadow_name m, mb_shadow_source m, mb_shadow_sort m,
     mb_shadow_revision m, mb_shadow_run m, mb_phone m, mb_name m, mb_name_source m)"

text \<open>With the mirror the columns that are shown take the values too.\<close>

definition write_projection ::
  "bool \<Rightarrow> nat \<Rightarrow> uuid option \<Rightarrow> timestamp \<Rightarrow> projected_member \<Rightarrow> group_member \<Rightarrow> group_member" where
  "write_projection mirror revision run now p m =
     (let name = map_option fst (mp_name p);
          m1 = m\<lparr>mb_identity_type := Some (mp_type p), mb_shadow_phone := mp_phone p, mb_shadow_name := name,
            mb_shadow_source := map_option snd (mp_name p), mb_shadow_sort := Some (mp_sort p),
            mb_shadow_revision := revision, mb_shadow_run := run,
            mb_phone := (if mirror then mp_phone p else mb_phone m), mb_name := (if mirror then name else mb_name m),
            mb_name_source := (if mirror then map_option (shown_source \<circ> snd) (mp_name p) else mb_name_source m),
            mb_name_updated_at := (if \<not> mirror then mb_name_updated_at m else if name = None then None else Some now)\<rparr> in
      m1\<lparr>mb_updated_at := (if shadow_columns m1 \<noteq> shadow_columns m then now else mb_updated_at m)\<rparr>)"

section \<open>Batches\<close>

definition after_cursor :: "(string \<times> string) option \<Rightarrow> group_member \<Rightarrow> bool" where
  "after_cursor c m \<longleftrightarrow> (case c of None \<Rightarrow> True | Some p \<Rightarrow> p < (mb_group m, mb_participant m))"

definition member_page :: "nat \<Rightarrow> string \<Rightarrow> uuid set \<Rightarrow> (string \<times> string) option \<Rightarrow> group_member table \<Rightarrow> group_member list" where
  "member_page batch sid ns c rows = sql_top batch (\<lambda>m. (mb_group m, mb_participant m))
     (\<lambda>m. mb_session m = sid \<and> mb_evidence_identity m \<in> Some ` ns \<and> after_cursor c m) rows"

definition project_row ::
  "(string \<Rightarrow> string) \<Rightarrow> bool \<Rightarrow> nat \<Rightarrow> uuid option \<Rightarrow> timestamp \<Rightarrow> contact_db \<Rightarrow> (string \<times> string \<times> string) set
    \<Rightarrow> timestamp \<Rightarrow> group_member row_update" where
  "project_row lower mirror revision run cutoff d page now m =
     (if member_key m \<in> page \<and> mb_shadow_revision m \<le> revision
      then map_option (\<lambda>p. write_projection mirror revision run now p m) (project_member lower run cutoff d m) else None)"

text \<open>The CHECK constraints on the phone numbers and on the identity type of a member.\<close>

definition member_checked :: "group_member \<Rightarrow> bool" where
  "member_checked m \<longleftrightarrow> (\<forall>p \<in> set_option (mb_shadow_phone m) \<union> set_option (mb_phone m). all_digits p)
     \<and> mb_identity_type m \<noteq> Some PHONE"

definition complete_work_row :: "projection_claim \<Rightarrow> timestamp \<Rightarrow> projection_work row_update" where
  "complete_work_row k now = sql_where (\<lambda>w. work_key w = claim_key k \<and> pw_lease_token w = Some (qk_token k))
     (\<lambda>w. let active = coalesce (pw_active_revision w) 0; again = active < pw_requested_revision w in
        w\<lparr>pw_completed_revision := active, pw_status := (if again then P_PENDING else P_IDLE),
          pw_first_requested_at := (if again then pw_last_requested_at w else pw_first_requested_at w),
          pw_active_revision := None, pw_active_cutoff := None, pw_active_run := None, pw_cursor := None,
          pw_attempt_count := 0, pw_next_attempt_at := now, pw_lease_token := None, pw_lease_expires_at := None,
          pw_completed_at := Some now, pw_failed_at := None, pw_error := None, pw_updated_at := now\<rparr>)"

definition advance_work_row :: "projection_claim \<Rightarrow> string \<times> string \<Rightarrow> timestamp \<Rightarrow> projection_work row_update" where
  "advance_work_row k c now = sql_where (\<lambda>w. work_key w = claim_key k \<and> pw_lease_token w = Some (qk_token k))
     (\<lambda>w. w\<lparr>pw_cursor := Some c, pw_lease_expires_at := Some (now + minutes 5), pw_updated_at := now\<rparr>)"

datatype projection_error = LostProjection | MemberCheck

definition projection_owned :: "projection_claim \<Rightarrow> timestamp \<Rightarrow> projection_work \<Rightarrow> bool" where
  "projection_owned k now w \<longleftrightarrow> work_held k w \<and> null_after (pw_lease_expires_at w) now"

definition project_batch ::
  "(string \<Rightarrow> string) \<Rightarrow> bool \<Rightarrow> nat \<Rightarrow> projection_claim \<Rightarrow> timestamp \<Rightarrow> contact_store
    \<Rightarrow> projection_error + contact_store \<times> nat \<times> bool" where
  "project_batch lower mirror batch k now d =
     (let known = xc_known d in case List.find (projection_owned k now) (kd_work known) of
        None \<Rightarrow> Inl LostProjection
      | Some w \<Rightarrow>
          let run = pw_active_run w;
              page = member_page batch (qk_session k) (affected_by (qk_session k) run (qk_identity k) known) (pw_cursor w) (xc_members d);
              f = project_row lower mirror (coalesce (pw_active_revision w) 0) run (coalesce (pw_active_cutoff w) 0) known
                (member_key ` set page) now;
              finished = length page < batch;
              g = (if finished then complete_work_row k now
                else advance_work_row k (mb_group (last page), mb_participant (last page)) now) in
          if \<exists>m \<in> set (sql_returning f (xc_members d)). \<not> member_checked m then Inl MemberCheck
          else Inr (d\<lparr>xc_members := sql_update f (xc_members d), xc_known := known\<lparr>kd_work := sql_update g (kd_work known)\<rparr>\<rparr>,
            length page, finished))"

text \<open>
  The loop over the batches of a claim, from the i-th one on, with the time of each and what others did before it;
  how many members it has gone through, and whether it has finished.
\<close>

primrec run_batches ::
  "(string \<Rightarrow> string) \<Rightarrow> bool \<Rightarrow> nat \<Rightarrow> projection_claim \<Rightarrow> (nat \<Rightarrow> timestamp) \<Rightarrow> (nat \<Rightarrow> contact_store \<Rightarrow> contact_store)
    \<Rightarrow> nat \<Rightarrow> nat \<Rightarrow> contact_store \<Rightarrow> contact_store \<times> (projection_error + nat \<times> bool)" where
  "run_batches lower mirror batch k clock others 0 i d = (d, Inr (0, False))"
| "run_batches lower mirror batch k clock others (Suc n) i d = (let d1 = others i d in
     case project_batch lower mirror batch k (clock i) d1 of
       Inl e \<Rightarrow> (d1, Inl e)
     | Inr (d2, updated, finished) \<Rightarrow> if finished then (d2, Inr (updated, True)) else
         (case run_batches lower mirror batch k clock others n (Suc i) d2 of
            (d3, Inl e) \<Rightarrow> (d3, Inl e)
          | (d3, Inr (later_ones, f)) \<Rightarrow> (d3, Inr (updated + later_ones, f))))"

end
