(* ===== verification/Contact_Sweeps.thy ===== *)
theory Contact_Sweeps
  imports Contact_Projection
begin

text \<open>
  What src/src/modules/contacts/contact-projection.repository.ts looks for before members are projected: members
  whose identity is not recorded yet, identities never projected, work of aliases. And the tick that runs it all,
  contact-projection.tick.ts.
\<close>

section \<open>Sweeps\<close>

text \<open>The row of a job that goes through a table once: whether it is PENDING, and the last key it has seen.\<close>

record 'k sweep_job =
  sj_pending :: bool
  sj_last :: "'k option"
  sj_rows :: nat
  sj_completed_at :: "timestamp option"
  sj_updated_at :: timestamp

definition advance_job :: "nat \<Rightarrow> nat \<Rightarrow> 'k option \<Rightarrow> timestamp \<Rightarrow> 'k sweep_job \<Rightarrow> 'k sweep_job" where
  "advance_job limit found last_key now j = j\<lparr>sj_pending := \<not> found < limit, sj_last := coalesce_opt last_key (sj_last j),
     sj_rows := sj_rows j + found, sj_completed_at := (if found < limit then Some now else None), sj_updated_at := now\<rparr>"

definition beyond :: "('k :: linorder) option \<Rightarrow> 'k \<Rightarrow> bool" where
  "beyond c k \<longleftrightarrow> (case c of None \<Rightarrow> True | Some p \<Rightarrow> p < k)"

definition last_of :: "'a list \<Rightarrow> 'a option" where
  "last_of xs = (if xs = [] then None else Some (last xs))"

text \<open>The loop over bySession: sessions in the order in which the rows name them first.\<close>

definition enqueue_by_session :: "(string \<times> uuid) list \<Rightarrow> timestamp \<Rightarrow> contact_db \<Rightarrow> contact_db" where
  "enqueue_by_session rows now d = fold (\<lambda>sid. enqueue_projection sid (map snd (filter (\<lambda>(s, n). s = sid) rows)) now)
     (distinct_on id (map fst rows)) d"

section \<open>Missing evidence\<close>

record evidence_page_row =
  ep_member :: group_member
  ep_type :: identity_type
  ep_value :: string
  ep_phone :: "string option"

text \<open>The suffix decides; neither a device nor what comes before the suffix is looked at.\<close>

definition sweep_type :: "string \<Rightarrow> identity_type" where
  "sweep_type p = (if ends_with ''@lid'' p then LID
     else if ends_with ''@c.us'' p \<or> ends_with ''@s.whatsapp.net'' p then PHONE_JID else OTHER_JID)"

definition drop_end :: "string \<Rightarrow> string \<Rightarrow> string" where
  "drop_end suffix s = (if ends_with suffix s then take (length s - length suffix) s else s)"

definition drop_jid :: "string \<Rightarrow> string" where
  "drop_jid p = (if ends_with ''@c.us'' p then drop_end ''@c.us'' p else drop_end ''@s.whatsapp.net'' p)"

definition sweep_value :: "string \<Rightarrow> string" where
  "sweep_value p = (if ends_with ''@s.whatsapp.net'' p then drop_end ''@s.whatsapp.net'' p @ ''@c.us'' else p)"

definition sweep_phone :: "group_member \<Rightarrow> string option" where
  "sweep_phone m = (let p = mb_participant m; phone = coalesce (mb_phone m) (drop_jid p) in
     if (ends_with ''@c.us'' p \<or> ends_with ''@s.whatsapp.net'' p) \<and> all_digits phone then Some phone else None)"

definition evidence_row :: "group_member \<Rightarrow> evidence_page_row" where
  "evidence_row m = \<lparr>ep_member = m, ep_type = sweep_type (mb_participant m), ep_value = sweep_value (mb_participant m),
     ep_phone = sweep_phone m\<rparr>"

definition row_session :: "evidence_page_row \<Rightarrow> string" where
  "row_session r = mb_session (ep_member r)"

definition row_observed :: "evidence_page_row \<Rightarrow> contact_db \<Rightarrow> observed_identity option" where
  "row_observed r d = identity_of (row_session r) (ep_type r) (ep_value r) d"

text \<open>The inserts with GROUP BY, min and max give what one upsert for each row gives.\<close>

definition see_rows :: "(string \<Rightarrow> evidence_ids) \<Rightarrow> evidence_page_row list \<Rightarrow> contact_db \<Rightarrow> contact_db" where
  "see_rows ids rows d =
     fold (\<lambda>r. see_identity (ids (row_session r)) (row_session r) (PHONE, the (ep_phone r), mb_synced_at (ep_member r)))
       (filter (\<lambda>r. ep_phone r \<noteq> None) rows)
       (fold (\<lambda>r. see_identity (ids (row_session r)) (row_session r) (ep_type r, ep_value r, mb_synced_at (ep_member r))) rows d)"

definition row_name :: "(string \<Rightarrow> string) \<Rightarrow> (string \<Rightarrow> evidence_ids) \<Rightarrow> timestamp \<Rightarrow> contact_db \<Rightarrow> evidence_page_row
    \<Rightarrow> name_observation option" where
  "row_name md5 ids now d r = (let m = ep_member r in case (row_observed r d, mb_participant_name m) of
     (Some i, Some name) \<Rightarrow> (let key = ''backfill:group:'' @ md5 (mb_group m @ '':'' @ mb_participant m @ '':'' @ name) in
       Some \<lparr>no_session = mb_session m, no_id = eid_name (ids (mb_session m)) GROUP_PARTICIPANT_NAME key, no_identity_id = ob_id i,
         no_source = GROUP_PARTICIPANT_NAME, no_membership = Some (mb_group m, mb_participant m), no_name = name,
         no_generation = None, no_observed_at = mb_synced_at m, no_key = key, no_created_at = now\<rparr>)
   | _ \<Rightarrow> None)"

definition row_link :: "(string \<Rightarrow> string) \<Rightarrow> timestamp \<Rightarrow> contact_db \<Rightarrow> evidence_page_row \<Rightarrow> link_evidence option" where
  "row_link md5 now d r = (case ep_phone r of None \<Rightarrow> None | Some phone \<Rightarrow> if ep_type r \<noteq> PHONE_JID then None else
     link_of (row_session r) PHONE_JID (ep_value r) phone PHONE_JID_DERIVATION None (mb_synced_at (ep_member r))
       (''backfill:derived:'' @ md5 (ep_value r @ '':'' @ phone)) now d)"

text \<open>A member takes the identity of its row, if that changes anything.\<close>

definition attach_row :: "evidence_page_row list \<Rightarrow> timestamp \<Rightarrow> contact_db \<Rightarrow> group_member row_update" where
  "attach_row rows now d m = (case find_by (\<lambda>r. member_key (ep_member r)) (member_key m) rows of None \<Rightarrow> None
     | Some r \<Rightarrow> (case row_observed r d of None \<Rightarrow> None
        | Some i \<Rightarrow> if (mb_evidence_identity m, mb_identity_type m) = (Some (ob_id i), Some (ep_type r)) then None
            else Some (m\<lparr>mb_evidence_identity := Some (ob_id i), mb_identity_type := Some (ep_type r), mb_updated_at := now\<rparr>)))"

definition materialize_evidence_page ::
  "(string \<Rightarrow> string) \<Rightarrow> (string \<Rightarrow> evidence_ids) \<Rightarrow> evidence_page_row list \<Rightarrow> timestamp \<Rightarrow> contact_store \<Rightarrow> contact_store \<times> nat" where
  "materialize_evidence_page md5 ids rows now d =
     (let k1 = see_rows ids rows (xc_known d);
          k2 = fold insert_name (List.map_filter (row_name md5 ids now k1) rows) k1;
          k3 = fold insert_link (List.map_filter (row_link md5 now k2) rows) k2;
          f = attach_row rows now k3; changed = sql_returning f (xc_members d) in
      (d\<lparr>xc_members := sql_update f (xc_members d),
         xc_known := enqueue_by_session (List.map_filter (\<lambda>m. map_option (Pair (mb_session m)) (mb_evidence_identity m)) changed) now k3\<rparr>,
       length changed))"

definition backfill_evidence ::
  "(string \<Rightarrow> string) \<Rightarrow> (string \<Rightarrow> evidence_ids) \<Rightarrow> nat \<Rightarrow> timestamp \<Rightarrow> (string \<times> string \<times> string) sweep_job \<Rightarrow> contact_store
    \<Rightarrow> (string \<times> string \<times> string) sweep_job \<times> contact_store \<times> nat" where
  "backfill_evidence md5 ids limit now j d = (if \<not> sj_pending j then (j, d, 0) else
     let page = sql_top limit member_key (\<lambda>m. beyond (sj_last j) (member_key m)) (xc_members d) in
     (advance_job limit (length page) (map_option member_key (last_of page)) now j,
      if page = [] then d else fst (materialize_evidence_page md5 ids (map evidence_row page) now d), length page))"

text \<open>The first session of the list with a member without evidence; nothing if another process is at it.\<close>

definition catch_up_missing_evidence ::
  "bool \<Rightarrow> string list option \<Rightarrow> (string \<Rightarrow> string) \<Rightarrow> (string \<Rightarrow> evidence_ids) \<Rightarrow> nat \<Rightarrow> timestamp \<Rightarrow> contact_store
    \<Rightarrow> contact_store \<times> nat" where
  "catch_up_missing_evidence acquired allowed md5 ids limit now d = (if \<not> acquired then (d, 0) else
     case sql_top 1 member_key (\<lambda>m. mb_evidence_identity m = None \<and> listed allowed (mb_session m)) (xc_members d) of
       [] \<Rightarrow> (d, 0)
     | c # _ \<Rightarrow> materialize_evidence_page md5 ids (map evidence_row (sql_top limit (\<lambda>m. (mb_group m, mb_participant m))
         (\<lambda>m. mb_session m = mb_session c \<and> mb_evidence_identity m = None) (xc_members d))) now d)"

section \<open>Identities to project\<close>

definition member_identity :: "group_member \<Rightarrow> (string \<times> uuid) option" where
  "member_identity m = map_option (Pair (mb_session m)) (mb_evidence_identity m)"

definition on_work :: "(contact_db \<Rightarrow> contact_db) \<Rightarrow> contact_store \<Rightarrow> contact_store" where
  "on_work f d = d\<lparr>xc_known := f (xc_known d)\<rparr>"

definition enqueue_bootstrap ::
  "nat \<Rightarrow> timestamp \<Rightarrow> (string \<times> uuid) sweep_job \<Rightarrow> contact_store \<Rightarrow> (string \<times> uuid) sweep_job \<times> contact_store" where
  "enqueue_bootstrap limit now j d = (if \<not> sj_pending j then (j, d) else
     let rows = take limit (sort (remdups (filter (beyond (sj_last j)) (List.map_filter member_identity (xc_members d))))) in
     (advance_job limit (length rows) (last_of rows) now j, on_work (enqueue_by_session rows now) d))"

definition alias_waiting :: "string list option \<Rightarrow> contact_db \<Rightarrow> projection_work \<Rightarrow> bool" where
  "alias_waiting allowed d w \<longleftrightarrow> pw_status w \<in> {P_PENDING, P_RETRY, P_FAILED} \<and> listed allowed (pw_session w)
     \<and> projected_as (pw_session w) d (pw_identity w) \<noteq> pw_identity w"

definition coalesce_resolved_aliases :: "string list option \<Rightarrow> nat \<Rightarrow> timestamp \<Rightarrow> contact_store \<Rightarrow> contact_store" where
  "coalesce_resolved_aliases allowed limit now d = on_work (enqueue_by_session (map work_key
     (sql_top limit (\<lambda>w. (pw_first_requested_at w, pw_session w, pw_identity w)) (alias_waiting allowed (xc_known d))
       (kd_work (xc_known d)))) now) d"

text \<open>A member that was never projected, unless work that would do it is waiting or under way.\<close>

definition unprojected :: "string list option \<Rightarrow> contact_db \<Rightarrow> group_member \<Rightarrow> (string \<times> uuid) option" where
  "unprojected allowed d m = (case mb_evidence_identity m of None \<Rightarrow> None
     | Some n \<Rightarrow> (let key = (mb_session m, projected_as (mb_session m) d n) in
         if (mb_shadow_revision m = 0 \<or> mb_identity_type m = None) \<and> listed allowed (mb_session m)
           \<and> (case find_by work_key key (kd_work d) of None \<Rightarrow> True | Some w \<Rightarrow> pw_status w \<in> {P_IDLE, P_FAILED})
         then Some key else None))"

definition catch_up_unprojected :: "bool \<Rightarrow> string list option \<Rightarrow> nat \<Rightarrow> timestamp \<Rightarrow> contact_store \<Rightarrow> contact_store" where
  "catch_up_unprojected acquired allowed limit now d = (if \<not> acquired then d else
     on_work (enqueue_by_session
       (take limit (sort (remdups (List.map_filter (unprojected allowed (xc_known d)) (xc_members d))))) now) d)"

section \<open>The tick\<close>

record projection_options =
  pn_enabled :: bool
  pn_batch :: nat
  pn_max_jobs :: nat
  pn_max_batches :: nat
  pn_bootstrap :: nat
  pn_backfill :: bool
  pn_backfill_batch :: nat

text \<open>The processes' switches, and for each claim its token, the times of its transactions and what others do before them.\<close>

record projection_input =
  pj_mirror :: bool
  pj_allowed :: "string list option"
  pj_lower :: "string \<Rightarrow> string"
  pj_md5 :: "string \<Rightarrow> string"
  pj_ids :: "string \<Rightarrow> evidence_ids"
  pj_free :: bool
  pj_sweep_clock :: "nat \<Rightarrow> timestamp"
  pj_token :: "nat \<Rightarrow> uuid"
  pj_clock :: "nat \<Rightarrow> nat \<Rightarrow> timestamp"
  pj_others :: "nat \<Rightarrow> nat \<Rightarrow> contact_store \<Rightarrow> contact_store"

primrec run_jobs ::
  "projection_options \<Rightarrow> projection_input \<Rightarrow> nat \<Rightarrow> nat \<Rightarrow> contact_store \<Rightarrow> contact_store \<times> (projection_error + nat \<times> nat)" where
  "run_jobs o' s 0 j d = (d, Inr (0, 0))"
| "run_jobs o' s (Suc n) j d = (let d1 = pj_others s j 0 d; after = Suc (pn_max_batches o') in
     case claim_projection (pj_allowed s) (pj_token s j) (pj_clock s j 0) (xc_known d1) of
       (known, None) \<Rightarrow> (d1, Inr (0, 0))
     | (known, Some k) \<Rightarrow>
         (case run_batches (pj_lower s) (pj_mirror s) (pn_batch o') k (\<lambda>i. pj_clock s j (Suc i)) (\<lambda>i. pj_others s j (Suc i))
             (pn_max_batches o') 0 (d1\<lparr>xc_known := known\<rparr>) of
            (d2, Inl e) \<Rightarrow> (on_work (fail_projection k (pj_clock s j after)) (pj_others s j after d2), Inl e)
          | (d2, Inr (updated, finished)) \<Rightarrow>
              let d3 = (if finished then d2 else on_work (release_projection k (pj_clock s j after)) (pj_others s j after d2)) in
              (case run_jobs o' s n (Suc j) d3 of
                 (d4, Inl e) \<Rightarrow> (d4, Inl e)
               | (d4, Inr (later_ones, jobs)) \<Rightarrow> (d4, Inr (updated + later_ones, if finished then jobs + 1 else jobs)))))"

record projection_sweeps =
  ps_evidence :: "(string \<times> string \<times> string) sweep_job"
  ps_bootstrap :: "(string \<times> uuid) sweep_job"

definition projection_tick ::
  "projection_options \<Rightarrow> projection_input \<Rightarrow> projection_sweeps \<Rightarrow> contact_store
    \<Rightarrow> projection_sweeps \<times> contact_store \<times> (projection_error + nat \<times> nat)" where
  "projection_tick o' s js d = (if \<not> pn_enabled o' then (js, d, Inr (0, 0)) else
     let t = pj_sweep_clock s; limit = pn_bootstrap o';
         (j1, d1, n) = (if pn_backfill o' then backfill_evidence (pj_md5 s) (pj_ids s) (pn_backfill_batch o') (t 0) (ps_evidence js) d
           else (ps_evidence js, d, 0));
         (j2, d2) = enqueue_bootstrap limit (t 1) (ps_bootstrap js) d1;
         d3 = coalesce_resolved_aliases (pj_allowed s) limit (t 2) d2;
         d4 = fst (catch_up_missing_evidence (pj_free s) (pj_allowed s) (pj_md5 s) (pj_ids s) limit (t 3) d3);
         d5 = catch_up_unprojected (pj_free s) (pj_allowed s) limit (t 4) d4 in
     (\<lparr>ps_evidence = j1, ps_bootstrap = j2\<rparr>, run_jobs o' s (pn_max_jobs o') 0 d5))"

end
