(* ===== verification/Contact_Numbers.thy ===== *)
theory Contact_Numbers
  imports Contact_Sweeps
begin

text \<open>
  The evidence writer and the resolution together: whatever is observed, in whatever order, a phone id is never
  quarantined and gets its own number.
\<close>

section \<open>Every link leads to the one number of its cluster\<close>

lemma candidate_link:
  assumes "(l, r, s) \<in> set (edge_candidates sid generation cutoff links)"
  obtains e where "e \<in> set links" "le_session e = sid" "le_left e = l" "le_right e = r" "le_source e = s"
  using assms by (auto simp: edge_candidates_def)

text \<open>What a candidate link says under sound evidence.\<close>

lemma candidate_sound:
  assumes ok: "evidence_ok d" and c: "(l, r, s) \<in> set (edge_candidates sid generation cutoff (kd_links d))"
  obtains t v p where "(sid, l, t, v) \<in> facts d" "(sid, r, PHONE, p) \<in> facts d" "t \<noteq> PHONE"
    "s = PHONE_JID_DERIVATION \<longleftrightarrow> t = PHONE_JID" "t = PHONE_JID \<longrightarrow> number_jid p v"
proof -
  obtain e where "e \<in> set (kd_links d)" "le_session e = sid" "le_left e = l" "le_right e = r" "le_source e = s"
    using candidate_link [OF c] .
  moreover have "\<forall>e \<in> set (kd_links d). link_sound (facts d) e" using ok by (simp add: evidence_ok_def)
  ultimately show thesis using that unfolding link_sound_def by blast
qed

lemma fact_unique:
  assumes "evidence_ok d" "(s, n, t, v) \<in> facts d" "(s, n, t', v') \<in> facts d"
  shows "t = t' \<and> v = v'"
  using assms unfolding evidence_ok_def facts_unique_def by blast

lemma fact_key:
  assumes "evidence_ok d" "(s, n, t, v) \<in> facts d" "(s, n', t, v) \<in> facts d"
  shows "n = n'"
  using assms unfolding evidence_ok_def facts_unique_def by blast

text \<open>An identity that is a phone id has one target, and none of its links is contested.\<close>

lemma phone_id_clean:
  assumes ok: "evidence_ok d" and i: "(sid, l, PHONE_JID, v) \<in> facts d"
  shows "l \<notin> fst ` set (resolution_conflicts sid generation cutoff d)"
proof
  let ?cs = "edge_candidates sid generation cutoff (kd_links d)"
  assume "l \<in> fst ` set (resolution_conflicts sid generation cutoff d)"
  then consider "l \<in> set (multiple_targets ?cs)" | "l \<in> set (shared_aliases sid (kd_identities d) ?cs)"
    unfolding resolution_conflicts_def conflicted_iff by blast
  then show False
  proof cases
    case 1
    then obtain r r' s s' where c: "(l, r, s) \<in> set ?cs" "(l, r', s') \<in> set ?cs" "r \<noteq> r'"
      unfolding multiple_targets_iff by blast
    obtain t1 v1 p1 where 1: "(sid, l, t1, v1) \<in> facts d" "(sid, r, PHONE, p1) \<in> facts d" "t1 = PHONE_JID \<longrightarrow> number_jid p1 v1"
      by (rule candidate_sound [OF ok c(1)])
    obtain t2 v2 p2 where 2: "(sid, l, t2, v2) \<in> facts d" "(sid, r', PHONE, p2) \<in> facts d" "t2 = PHONE_JID \<longrightarrow> number_jid p2 v2"
      by (rule candidate_sound [OF ok c(2)])
    have "number_jid p1 v" "number_jid p2 v" using fact_unique [OF ok i 1(1)] fact_unique [OF ok i 2(1)] 1(3) 2(3) by auto
    then have "p1 = p2" by (rule number_jid_unique)
    then show False using fact_key [OF ok 1(2)] 2(2) c(3) by blast
  next
    case 2
    then obtain r where c: "(l, r, OPENWA_CONTACT_PHONE) \<in> set ?cs" unfolding shared_aliases_iff by blast
    obtain t v' where "(sid, l, t, v') \<in> facts d" "t \<noteq> PHONE_JID"
      using candidate_sound [OF ok c, of thesis] by blast
    then show False using fact_unique [OF ok i] by blast
  qed
qed

text \<open>The one target of an eligible link.\<close>

lemma eligible_target:
  assumes ok: "evidence_ok d"
    and e: "(l, r) \<in> set (resolution_edges sid generation cutoff d)" "(l, r') \<in> set (resolution_edges sid generation cutoff d)"
  shows "r = r'"
proof -
  let ?cs = "edge_candidates sid generation cutoff (kd_links d)"
  let ?bad = "fst ` set (resolution_conflicts sid generation cutoff d)"
  obtain s s' where c: "(l, r, s) \<in> set ?cs" "s = PHONE_JID_DERIVATION \<or> l \<notin> ?bad" "(l, r', s') \<in> set ?cs"
    using e by (auto simp: resolution_edges_def eligible_edges_def)
  have "l \<notin> ?bad"
  proof (cases "s = PHONE_JID_DERIVATION")
    case True
    then obtain v where "(sid, l, PHONE_JID, v) \<in> facts d" using candidate_sound [OF ok c(1), of thesis] by blast
    then show ?thesis by (rule phone_id_clean [OF ok])
  qed (use c(2) in blast)
  then have "l \<notin> set (multiple_targets ?cs)" by (auto simp: resolution_conflicts_def conflicted_iff)
  then show ?thesis using c(1,3) unfolding multiple_targets_iff by blast
qed

lemma eligible_ends:
  assumes ok: "evidence_ok d" and e: "(l, r) \<in> set (resolution_edges sid generation cutoff d)"
  obtains t v p where "(sid, l, t, v) \<in> facts d" "t \<noteq> PHONE" "(sid, r, PHONE, p) \<in> facts d"
proof -
  obtain s where "(l, r, s) \<in> set (edge_candidates sid generation cutoff (kd_links d))"
    using e by (auto simp: resolution_edges_def eligible_edges_def)
  then show thesis by (rule candidate_sound [OF ok]) (rule that)
qed

text \<open>
  The number an identity is at: its own if it is a number, else the target of its link, else it is alone. It is
  the same for all identities that are linked.
\<close>

definition hub :: "(uuid \<times> uuid) list \<Rightarrow> uuid \<Rightarrow> uuid" where
  "hub es n = (case map_of es n of None \<Rightarrow> n | Some r \<Rightarrow> r)"

lemma hub_edge:
  assumes ok: "evidence_ok d" and e: "(l, r) \<in> set (resolution_edges sid generation cutoff d)"
  defines "es \<equiv> resolution_edges sid generation cutoff d"
  shows "hub es l = r \<and> hub es r = r"
proof -
  obtain r' where r': "map_of es l = Some r'" using e by (metis es_def map_of_eq_None_iff not_None_eq fst_conv image_eqI)
  then have "r' = r" using map_of_SomeD [OF r'] eligible_target [OF ok e] by (simp add: es_def)
  moreover have "map_of es r = None"
  proof (rule ccontr)
    assume "map_of es r \<noteq> None"
    then obtain q where "(r, q) \<in> set es" using map_of_SomeD by fastforce
    then obtain t v p' where "(sid, r, t, v) \<in> facts d" "t \<noteq> PHONE" "(sid, q, PHONE, p') \<in> facts d"
      unfolding es_def by (rule eligible_ends [OF ok])
    moreover obtain t' v' p where "(sid, l, t', v') \<in> facts d" "t' \<noteq> PHONE" "(sid, r, PHONE, p) \<in> facts d"
      by (rule eligible_ends [OF ok e])
    ultimately show False using fact_unique [OF ok] by blast
  qed
  ultimately show ?thesis using r' by (simp add: hub_def)
qed

lemma hub_linked:
  assumes ok: "evidence_ok d" and "linked sid r d a b"
  defines "es \<equiv> resolution_edges sid (rr_generation r) (rr_cutoff r) d"
  shows "hub es a = hub es b"
  using assms(2) unfolding linked_def es_def [symmetric]
proof (induction rule: rtrancl_induct)
  case (step y z)
  then have "(y, z) \<in> set es \<or> (z, y) \<in> set es" by (auto simp: undirected_def)
  then have "hub es y = hub es z" using hub_edge [OF ok, of y z] hub_edge [OF ok, of z y] unfolding es_def by auto
  then show ?case using step.IH by simp
qed simp

lemma hub_phone:
  assumes ok: "evidence_ok d" and "(sid, n, PHONE, p) \<in> facts d"
  shows "hub (resolution_edges sid generation cutoff d) n = n"
proof (cases "map_of (resolution_edges sid generation cutoff d) n")
  case (Some q)
  then have "(n, q) \<in> set (resolution_edges sid generation cutoff d)" by (rule map_of_SomeD)
  then obtain t v p' where "(sid, n, t, v) \<in> facts d" "t \<noteq> PHONE" "(sid, q, PHONE, p') \<in> facts d"
    by (rule eligible_ends [OF ok])
  then show ?thesis using fact_unique [OF ok assms(2)] by blast
qed (simp add: hub_def)

text \<open>The component of an identity is what is linked with it.\<close>

lemma component_linked:
  assumes comps: "comps = components (resolution_edges sid (rr_generation r) (rr_cutoff r) d) nodes"
    and "(n, k) \<in> set comps"
  shows "(b, k) \<in> set comps \<longleftrightarrow> linked sid r d n b"
proof -
  have iff: "(x, c) \<in> set comps \<longleftrightarrow> (\<exists>root \<in> set nodes. linked sid r d root x) \<and> c = Min {root \<in> set nodes. linked sid r d root x}"
    for x c
    unfolding comps components_iff linked_def ..
  have root: "linked sid r d k x" if "(x, k) \<in> set comps" for x
  proof -
    have "{root \<in> set nodes. linked sid r d root x} \<noteq> {}" using that unfolding iff by blast
    then have "k \<in> {root \<in> set nodes. linked sid r d root x}" using that Min_in [of "{root \<in> set nodes. linked sid r d root x}"] unfolding iff by simp
    then show ?thesis by simp
  qed
  show ?thesis
  proof
    assume "(b, k) \<in> set comps"
    then have "linked sid r d k b" by (rule root)
    with linked_sym [OF root [OF assms(2)]] show "linked sid r d n b" by (rule linked_trans)
  next
    assume l: "linked sid r d n b"
    have roots: "linked sid r d root b = linked sid r d root n" for root
      by (rule iffI) (erule linked_trans, rule linked_sym [OF l], erule linked_trans, rule l)
    show "(b, k) \<in> set comps" using assms(2) unfolding iff roots .
  qed
qed

section \<open>A history of evidence\<close>

text \<open>
  The sweeps over members write the identities of several sessions in one transaction. The number that is stored for
  a member is the one of its id, as the writers of members store it; the id itself may still carry a device.
\<close>

definition member_number_ok :: "group_member \<Rightarrow> bool" where
  "member_number_ok m \<longleftrightarrow> (\<forall>p. mb_phone m = Some p \<longrightarrow> sweep_type (mb_participant m) = PHONE_JID \<longrightarrow> all_digits p
     \<longrightarrow> number_jid p (sweep_value (mb_participant m)))"

definition all_fresh :: "(string \<Rightarrow> evidence_ids) \<Rightarrow> fact set \<Rightarrow> bool" where
  "all_fresh ids F \<longleftrightarrow> (\<forall>sid. ids_fresh (ids sid) sid F)"

text \<open>
  Observations, published snapshots, sweeps and resolutions in any order, and the deletion of names and links that
  retention and the end of a generation bring about.
\<close>

inductive evidence_step :: "bool \<Rightarrow> bool \<Rightarrow> (string \<Rightarrow> string) \<Rightarrow> contact_db \<Rightarrow> contact_db \<Rightarrow> bool" for enabled projection md5 where
  members: "ids_fresh ids sid (facts d) \<Longrightarrow> list_all input_ok inputs \<Longrightarrow>
    evidence_step enabled projection md5 d (observe_group_members enabled projection md5 ids sid gid inputs now d)"
| sender: "ids_fresh ids sid (facts d) \<Longrightarrow> input_ok i \<Longrightarrow>
    evidence_step enabled projection md5 d (observe_push_name enabled projection md5 ids sid i name observed key now d)"
| publish: "ids_fresh ids sid (facts d) \<Longrightarrow> list_all staged_ok staged \<Longrightarrow>
    evidence_step enabled projection md5 d (publish_snapshot enabled ids sid generation staged now d)"
| backfilled: "xc_known s = d \<Longrightarrow> all_fresh ids (facts d) \<Longrightarrow> list_all member_number_ok (xc_members s) \<Longrightarrow>
    evidence_step enabled projection md5 d (xc_known (fst (snd (backfill_evidence md5 ids limit now j s))))"
| caught_up: "xc_known s = d \<Longrightarrow> all_fresh ids (facts d) \<Longrightarrow> list_all member_number_ok (xc_members s) \<Longrightarrow>
    evidence_step enabled projection md5 d (xc_known (fst (catch_up_missing_evidence acquired allowed md5 ids limit now s)))"
| resolved: "resolve projection k now clock d = Inr (d', m) \<Longrightarrow> evidence_step enabled projection md5 d d'"
| enqueued: "evidence_step enabled projection md5 d (fst (enqueue_published allowed rids limit now d))"
| claimed: "evidence_step enabled projection md5 d (fst (claim_resolution allowed t now d))"
| deleted: "evidence_step enabled projection md5 d (d\<lparr>kd_names := sql_delete P (kd_names d), kd_links := sql_delete Q (kd_links d)\<rparr>)"

subsection \<open>The sweeps\<close>

definition grown_all :: "(string \<Rightarrow> evidence_ids) \<Rightarrow> fact set \<Rightarrow> fact set \<Rightarrow> bool" where
  "grown_all ids F0 F \<longleftrightarrow> F0 \<subseteq> F \<and> (\<forall>s. grown (ids s) s {x \<in> F0. fst x = s} {x \<in> F. fst x = s})"

lemma grown_all_refl: "grown_all ids F F"
  by (simp add: grown_all_def grown_refl)

lemma grown_all_unique:
  assumes "facts_unique F0" "all_fresh ids F0" "grown_all ids F0 F"
  shows "facts_unique F"
proof -
  have "facts_unique {x \<in> F. fst x = s}" for s
  proof (rule grown_unique)
    show "facts_unique {x \<in> F0. fst x = s}" using assms(1) unfolding facts_unique_def by blast
    show "ids_fresh (ids s) s {x \<in> F0. fst x = s}" using assms(2) unfolding all_fresh_def ids_fresh_def by blast
    show "grown (ids s) s {x \<in> F0. fst x = s} {x \<in> F. fst x = s}" using assms(3) unfolding grown_all_def by blast
  qed
  then show ?thesis unfolding facts_unique_def by fastforce
qed

lemma see_facts:
  "facts (see_identity ids sid (t, v, now) d)
     = (if \<exists>n. (sid, n, t, v) \<in> facts d then facts d else insert (sid, eid_identity ids t v, t, v) (facts d))"
proof -
  let ?i = "new_identity ids sid t v now"
  have key: "identity_key ?i = (sid, t, v)" "fact_of ?i = (sid, eid_identity ids t v, t, v)"
    by (simp_all add: new_identity_def identity_key_def fact_of_def)
  have has: "(sid, t, v) \<in> identity_key ` set (kd_identities d) \<longleftrightarrow> (\<exists>n. (sid, n, t, v) \<in> facts d)"
    by (force simp: facts_def fact_of_def identity_key_def)
  show ?thesis
    using upsert_facts [where f = "seen_row (sid, t, v) now now" and i = ?i and rows = "kd_identities d", OF row_facts(2)]
    unfolding key has by (simp add: see_identity_def facts_def)
qed

lemma grown_all_see:
  assumes "grown_all ids F0 (facts d)"
  shows "grown_all ids F0 (facts (see_identity (ids sid) sid p d))"
proof -
  obtain t v now where p: "p = (t, v, now)" by (cases p)
  have "grown (ids s) s {x \<in> F0. fst x = s} {x \<in> facts (see_identity (ids sid) sid p d). fst x = s}" for s
  proof (cases "s = sid")
    case True
    have "grown (ids s) s {x \<in> F0. fst x = s} {x \<in> facts d. fst x = s}" using assms unfolding grown_all_def by blast
    moreover have "F0 \<subseteq> facts d" using assms unfolding grown_all_def by blast
    ultimately show ?thesis unfolding p see_facts True unfolding grown_def by (auto; blast)
  next
    case False
    then have "{x \<in> facts (see_identity (ids sid) sid p d). fst x = s} = {x \<in> facts d. fst x = s}"
      unfolding p see_facts by auto
    then show ?thesis using assms unfolding grown_all_def by simp
  qed
  moreover have "F0 \<subseteq> facts (see_identity (ids sid) sid p d)"
    using assms unfolding grown_all_def p see_facts by auto
  ultimately show ?thesis unfolding grown_all_def by blast
qed

lemma see_fold:
  "grown_all ids F0 (facts d) \<Longrightarrow>
     grown_all ids F0 (facts (fold (\<lambda>r. see_identity (ids (g r)) (g r) (f r)) rows d))
     \<and> kd_links (fold (\<lambda>r. see_identity (ids (g r)) (g r) (f r)) rows d) = kd_links d
     \<and> kd_names (fold (\<lambda>r. see_identity (ids (g r)) (g r) (f r)) rows d) = kd_names d"
proof (induction rows arbitrary: d)
  case (Cons r rows)
  from Cons.IH [OF grown_all_see [OF Cons.prems]] show ?case by (simp add: frame_touch)
qed simp

lemma evidence_ok_see_rows:
  assumes "evidence_ok d" "all_fresh ids (facts d)"
  shows "evidence_ok (see_rows ids rows d)"
proof -
  have g: "grown_all ids (facts d) (facts (see_rows ids rows d)) \<and> kd_links (see_rows ids rows d) = kd_links d
      \<and> kd_names (see_rows ids rows d) = kd_names d"
    unfolding see_rows_def using see_fold [OF conjunct1 [OF see_fold [OF grown_all_refl]]] see_fold [OF grown_all_refl] by metis
  then have "facts_unique (facts (see_rows ids rows d))"
    using grown_all_unique assms unfolding evidence_ok_def by blast
  then show ?thesis
    using assms(1) g sound_mono [of "facts d" "facts (see_rows ids rows d)"] by (simp add: evidence_ok_def grown_all_def)
qed

lemma row_name_sound:
  assumes "row_name md5 ids now d r = Some x"
  shows "name_sound (facts d) x"
proof -
  obtain i where i: "row_observed r d = Some i" "no_session x = row_session r" "no_identity_id x = ob_id i"
    using assms by (auto simp: row_name_def row_session_def Let_def split: option.splits)
  show ?thesis using identity_of_fact [OF i(1) [unfolded row_observed_def]] unfolding name_sound_def i(2,3) by blast
qed

text \<open>A swept phone id has the number that the member stores for it, or else consists of its number.\<close>

lemma sweep_number:
  assumes "member_number_ok m" "sweep_phone m = Some p" "sweep_type (mb_participant m) = PHONE_JID"
  shows "number_jid p (sweep_value (mb_participant m))"
proof -
  let ?v = "mb_participant m"
  have p: "p = coalesce (mb_phone m) (drop_jid ?v)" "all_digits p" "ends_with ''@c.us'' ?v \<or> ends_with ''@s.whatsapp.net'' ?v"
    using assms(2) by (auto simp: sweep_phone_def Let_def split: if_splits)
  show ?thesis
  proof (cases "mb_phone m")
    case None
    then have d: "p = drop_jid ?v" using p(1) by simp
    have "sweep_value ?v = p @ ''@c.us''"
      using p(3)
    proof
      assume "ends_with ''@c.us'' ?v"
      then obtain q where "?v = q @ ''@c.us''" using ends_with_take by metis
      then show ?thesis unfolding d by (simp add: drop_jid_def drop_end_def sweep_value_def ends_with_def)
    next
      assume "ends_with ''@s.whatsapp.net'' ?v"
      then obtain q where "?v = q @ ''@s.whatsapp.net''" using ends_with_take by metis
      then show ?thesis unfolding d by (simp add: drop_jid_def drop_end_def sweep_value_def ends_with_def)
    qed
    then show ?thesis using p(2) by (simp add: number_jid_def)
  next
    case (Some q)
    then show ?thesis using assms(1,3) p(1,2) by (simp add: member_number_ok_def)
  qed
qed

lemma sweep_not_phone: "sweep_type p \<noteq> PHONE"
  by (simp add: sweep_type_def)

lemma row_link_sound:
  assumes "row_link md5 now d (evidence_row m) = Some l" "member_number_ok m"
  shows "link_sound (facts d) l"
proof -
  obtain p where p: "sweep_phone m = Some p" "sweep_type (mb_participant m) = PHONE_JID"
    and l: "link_of (mb_session m) PHONE_JID (sweep_value (mb_participant m)) p PHONE_JID_DERIVATION None (mb_synced_at m)
       (''backfill:derived:'' @ md5 (sweep_value (mb_participant m) @ '':'' @ p)) now d = Some l"
    using assms(1) by (auto simp: row_link_def evidence_row_def row_session_def split: option.splits if_splits)
  show ?thesis by (rule link_of_sound [OF l]) (simp_all add: sweep_number [OF assms(2) p])
qed

lemma evidence_ok_page:
  assumes "evidence_ok (xc_known s)" "all_fresh ids (facts (xc_known s))" "\<And>m. m \<in> set page \<Longrightarrow> member_number_ok m"
  shows "evidence_ok (xc_known (fst (materialize_evidence_page md5 ids (map evidence_row page) now s)))"
proof -
  let ?rows = "map evidence_row page"
  let ?k1 = "see_rows ids ?rows (xc_known s)"
  let ?k2 = "fold insert_name (List.map_filter (row_name md5 ids now ?k1) ?rows) ?k1"
  let ?k3 = "fold insert_link (List.map_filter (row_link md5 now ?k2) ?rows) ?k2"
  have k1: "evidence_ok ?k1" by (rule evidence_ok_see_rows [OF assms(1,2)])
  have "name_sound (facts ?k1) x" if "x \<in> set (List.map_filter (row_name md5 ids now ?k1) ?rows)" for x
    using that row_name_sound unfolding set_map_filter by blast
  then have k2: "evidence_ok ?k2" using evidence_ok_names [OF k1] by blast
  have "link_sound (facts ?k2) l" if "l \<in> set (List.map_filter (row_link md5 now ?k2) ?rows)" for l
    using that row_link_sound assms(3) unfolding set_map_filter by auto
  then have k3: "evidence_ok ?k3" using evidence_ok_links [OF k2] by blast
  have fold_ok: "evidence_ok (fold (\<lambda>sid. enqueue_projection sid (f sid) now) ss k)" if "evidence_ok k" for f ss k
    using that by (induction ss arbitrary: k) (simp_all add: evidence_ok_enqueue)
  then show ?thesis using k3 by (simp add: materialize_evidence_page_def enqueue_by_session_def Let_def)
qed

lemma sql_top_members: "m \<in> set (sql_top n key P ms) \<Longrightarrow> m \<in> set ms"
  using set_sql_top [of n key P ms] by blast

lemma evidence_ok_sweeps:
  assumes ok: "evidence_ok (xc_known s)" "all_fresh ids (facts (xc_known s))" and ms: "list_all member_number_ok (xc_members s)"
  shows "evidence_ok (xc_known (fst (snd (backfill_evidence md5 ids limit now j s))))"
    and "evidence_ok (xc_known (fst (catch_up_missing_evidence acquired allowed md5 ids limit now s)))"
proof -
  show "evidence_ok (xc_known (fst (snd (backfill_evidence md5 ids limit now j s))))"
    by (simp add: backfill_evidence_def Let_def ok(1) evidence_ok_page [OF ok] sql_top_members ms [unfolded list_all_iff, THEN bspec])
  show "evidence_ok (xc_known (fst (catch_up_missing_evidence acquired allowed md5 ids limit now s)))"
    by (simp add: catch_up_missing_evidence_def ok(1) evidence_ok_page [OF ok] sql_top_members ms [unfolded list_all_iff, THEN bspec]
        split: list.split)
qed

lemma evidence_ok_step: "evidence_step enabled projection md5 d d' \<Longrightarrow> evidence_ok d \<Longrightarrow> evidence_ok d'"
proof (induction rule: evidence_step.induct)
  case (members ids sid d inputs gid now)
  then show ?case by (auto simp: list_all_iff intro!: evidence_ok_members)
next
  case (sender ids sid d i name observed key now)
  then show ?case by (simp add: evidence_ok_sender)
next
  case (publish ids sid d staged generation now)
  then show ?case by (auto simp: list_all_iff intro!: evidence_ok_publish)
next
  case (backfilled s d ids limit now j)
  then show ?case using evidence_ok_sweeps(1) by blast
next
  case (caught_up s d ids acquired allowed limit now)
  then show ?case using evidence_ok_sweeps(2) by blast
next
  case (resolved k now clock d d' m)
  then show ?case
    by (auto simp: resolve_def store_resolution_def Let_def evidence_ok_def facts_def enqueue_evidence_frame
        split: option.splits if_splits)
next
  case (enqueued d allowed rids limit now)
  then show ?case by (simp add: enqueue_published_def Let_def evidence_ok_def facts_def)
next
  case (claimed d allowed t now)
  then show ?case by (auto simp: claim_resolution_def evidence_ok_def facts_def split: list.split)
next
  case (deleted d P Q)
  then show ?case by (auto intro: evidence_ok_same [of d])
qed

lemma evidence_ok_reachable: "rtranclp (evidence_step enabled projection md5) d d' \<Longrightarrow> evidence_ok d \<Longrightarrow> evidence_ok d'"
  by (induction rule: rtranclp_induct) (auto intro: evidence_ok_step)

section \<open>A phone id gets its number\<close>

text \<open>C27: Whatever was observed, published, swept, resolved and deleted before, in whatever order, as long as the sweeps
  find no phone id with another number stored for its member: a resolution quarantines no phone id, and a phone id with a
  derivation link that is a candidate of the resolution (published, and seen by its cutoff) is given exactly the number
  of its id, the digits before the device or the domain, whatever other identities claim that number too.\<close>

theorem phone_ids_get_their_number:
  assumes "rtranclp (evidence_step enabled projection md5) d0 d" and "kd_identities d0 = []" "kd_links d0 = []" "kd_names d0 = []"
    and "resolve projection k now clock d = Inr (d', m)"
    and "List.find (resolution_owned k now) (kd_runs d) = Some r"
    and "a \<in> set (run_assignments (rk_session k) (rk_run k) d')"
    and "i \<in> set (kd_identities d)" "ob_session i = rk_session k" "ob_id i = as_identity a" "ob_type i = PHONE_JID"
  shows "as_status a = RESOLVED
    \<and> ((\<exists>n. (ob_id i, n, PHONE_JID_DERIVATION) \<in> set (edge_candidates (rk_session k) (rr_generation r) (rr_cutoff r) (kd_links d)))
        \<longrightarrow> (\<exists>p. as_phone a = Some p \<and> all_digits p
              \<and> (ob_value i = p @ ''@c.us'' \<or> (\<exists>dev. ob_value i = p @ '':'' @ dev @ ''@c.us''))))"
proof -
  let ?sid = "rk_session k" and ?es = "resolution_edges (rk_session k) (rr_generation r) (rr_cutoff r) d"
  have ok: "evidence_ok d"
    using evidence_ok_reachable [OF assms(1)] assms(2-4) by (simp add: evidence_ok_def facts_def facts_unique_def)
  obtain comps clusters conflicts c where
    comps: "comps = components ?es (resolution_nodes ?sid (rr_cutoff r) (kd_identities d))"
    and clusters: "clusters = new_clusters ?sid (rk_run k) (kd_identities d) comps"
    and conflicts: "conflicts = resolution_conflicts ?sid (rr_generation r) (rr_cutoff r) d"
    and "run_assignments ?sid (rk_run k) d' = new_assignments ?sid (rk_run k) conflicts clusters comps"
    and mem: "(as_identity a, cl_id c) \<in> set comps" and c: "c \<in> set clusters"
    and a: "a = assignment_of ?sid (rk_run k) conflicts (as_identity a) c"
    by (rule assigned [OF assms(5,6) refl assms(7)])
  have i: "(?sid, ob_id i, PHONE_JID, ob_value i) \<in> facts d"
    using assms(8,9,11) by (force simp: facts_def fact_of_def)
  have clean: "as_identity a \<notin> fst ` set conflicts" using phone_id_clean [OF ok i] unfolding conflicts assms(10) [symmetric] .
  then have status: "as_status a = RESOLVED" "as_phone a = cl_phone c" by (subst a, simp add: assignment_of_def Let_def)+
  moreover have "\<exists>p. cl_phone c = Some p \<and> number_jid p (ob_value i)"
    if link: "(ob_id i, n, PHONE_JID_DERIVATION) \<in> set (edge_candidates ?sid (rr_generation r) (rr_cutoff r) (kd_links d))" for n
  proof -
    obtain t v p where t: "(?sid, ob_id i, t, v) \<in> facts d" "t = PHONE_JID \<longrightarrow> number_jid p v"
      and n: "(?sid, n, PHONE, p) \<in> facts d"
      using candidate_sound [OF ok link, of thesis] by blast
    then have p: "(?sid, n, PHONE, p) \<in> facts d" "number_jid p (ob_value i)" using fact_unique [OF ok i t(1)] by auto
    have edge: "(ob_id i, n) \<in> set ?es" using link by (force simp: resolution_edges_def eligible_edges_def)
    have same: "(b, cl_id c) \<in> set comps \<longleftrightarrow> linked ?sid r d (ob_id i) b" for b
      using component_linked [OF comps mem] unfolding assms(10) .
    have hub: "hub ?es (ob_id i) = n" using hub_edge [OF ok edge] by blast
    have "ob_value j = p" if j: "j \<in> set (kd_identities d)" "ob_session j = ?sid" "ob_type j = PHONE"
      "linked ?sid r d (ob_id i) (ob_id j)" for j
    proof -
      have fact: "(?sid, ob_id j, PHONE, ob_value j) \<in> facts d" using j by (force simp: facts_def fact_of_def)
      have "ob_id j = n" using hub_linked [OF ok j(4)] hub hub_phone [OF ok fact] by simp
      then show ?thesis using fact p(1) fact_unique [OF ok] by blast
    qed
    moreover obtain j where "j \<in> set (kd_identities d)" "ob_session j = ?sid" "ob_type j = PHONE" "ob_id j = n" "ob_value j = p"
      using p(1) by (auto simp: facts_def fact_of_def)
    moreover have "linked ?sid r d (ob_id i) n" using edge by (auto simp: linked_def undirected_def)
    ultimately have "cl_phone c = Some p"
      unfolding cluster_phone [OF c [unfolded clusters]] agreed_phone_iff component_identities_def by (auto simp: same)
    then show ?thesis using p(2) by blast
  qed
  ultimately show ?thesis unfolding number_jid_def by auto
qed

text \<open>A message of a phone id, and the resolution of Contact_Resolution after it.\<close>

definition number_ids :: evidence_ids where
  "number_ids = \<lparr>eid_identity = (\<lambda>t v. type_text t @ '':'' @ v), eid_name = (\<lambda>src key. key)\<rparr>"

definition number_input :: evidence_input where
  "number_input = \<lparr>ei_type = PHONE_JID, ei_value = ''49@c.us'', ei_phone = Some ''49'', ei_participant = [], ei_name = None\<rparr>"

definition number_start :: contact_db where
  "number_start = contact_sample\<lparr>kd_identities := [], kd_links := []\<rparr>"

definition number_sample :: contact_db where
  "number_sample = observe_push_name True False rev number_ids ''s1'' number_input ''Ann'' 2 ''k'' 3 number_start"

lemma number_ids_fresh: "ids_fresh number_ids ''s1'' (facts number_start)"
proof -
  have "type_text t @ '':'' @ v = type_text t' @ '':'' @ v' \<Longrightarrow> t = t' \<and> v = v'" for t t' :: identity_type and v v'
    by (cases t; cases t') (simp_all add: type_text_def)
  then have "inj (\<lambda>(t, v). type_text t @ '':'' @ v)" by (auto simp: inj_def)
  then show ?thesis by (simp add: ids_fresh_def number_ids_def number_start_def facts_def)
qed

lemma number_input_ok: "input_ok number_input"
proof -
  have "normalize_contact_identity ''49@c.us'' = \<lparr>ni_type = PHONE_JID, ni_value = ''49@c.us'', ni_phone = Some ''49''\<rparr>"
    by code_simp
  then show ?thesis unfolding input_ok_def by (intro exI [of _ "''49@c.us''"]) (simp add: number_input_def)
qed

lemma number_sample_fields:
  "map fact_of (kd_identities number_sample)
     = [(''s1'', ''PHONE_JID:49@c.us'', PHONE_JID, ''49@c.us''), (''s1'', ''PHONE:49'', PHONE, ''49'')]"
  "map ob_first_observed_at (kd_identities number_sample) = [3, 3]"
  "edge_candidates ''s1'' 1 5 (kd_links number_sample) = [(''PHONE_JID:49@c.us'', ''PHONE:49'', PHONE_JID_DERIVATION)]"
  "kd_runs number_sample = [sample_resolution_run]"
  by code_simp+

lemma phone_ids_get_their_number_witness:
  "\<exists>d' m. resolve False sample_claim 10 11 number_sample = Inr (d', m)
     \<and> (\<exists>a \<in> set (run_assignments ''s1'' ''r1'' d'). as_identity a = ''PHONE_JID:49@c.us'' \<and> as_phone a = Some ''49'')"
proof -
  have start: "kd_identities number_start = []" "kd_links number_start = []" "kd_names number_start = []"
    by (simp_all add: number_start_def contact_sample_def)
  have step: "rtranclp (evidence_step True False rev) number_start number_sample"
    unfolding number_sample_def
    by (rule r_into_rtranclp, rule evidence_step.sender [OF number_ids_fresh]) (rule number_input_ok)
  have find: "List.find (resolution_owned sample_claim 10) (kd_runs number_sample) = Some sample_resolution_run"
    unfolding number_sample_fields by (simp add: resolution_owned_def run_key_def sample_claim_def sample_resolution_run_def)
  obtain d' m where res: "resolve False sample_claim 10 11 number_sample = Inr (d', m)"
    unfolding resolve_def find option.case Let_def
    by (simp add: number_sample_fields complete_resolution_row_def store_resolution_def sample_claim_def run_key_def
      sample_resolution_run_def sql_where_def)
  obtain i j where ij: "kd_identities number_sample = [i, j]" using number_sample_fields(1) by auto
  then have i: "ob_session i = ''s1''" "ob_id i = ''PHONE_JID:49@c.us''" "ob_type i = PHONE_JID" "ob_value i = ''49@c.us''"
      "ob_first_observed_at i = 3"
    using number_sample_fields(1,2) by (simp_all add: fact_of_def)
  have "''PHONE_JID:49@c.us'' \<in> set (resolution_nodes ''s1'' 5 (kd_identities number_sample))"
    using i by (simp add: ij resolution_nodes_def)
  then have "''PHONE_JID:49@c.us'' \<in> as_identity ` set (run_assignments ''s1'' ''r1'' d')"
    using nodes_assigned [OF res find refl refl] by simp
  then obtain a where a: "a \<in> set (run_assignments ''s1'' ''r1'' d')" "as_identity a = ''PHONE_JID:49@c.us''" by auto
  have "\<exists>p. as_phone a = Some p \<and> (ob_value i = p @ ''@c.us'' \<or> (\<exists>dev. ob_value i = p @ '':'' @ dev @ ''@c.us''))"
    using phone_ids_get_their_number [OF step start res find, unfolded sample_fields number_sample_fields(3), OF a(1), of i] i a(2)
    by (auto simp: ij)
  then have "as_phone a = Some ''49''" by (auto simp: i(4) append_eq_Cons_conv Cons_eq_append_conv)
  then show ?thesis using res a by blast
qed

end
