(* ===== verification/Contact_Snapshots.thy ===== *)
theory Contact_Snapshots
  imports Contact_Store
begin

text \<open>
  The snapshots of the contacts of a session: src/src/modules/contacts/contact-snapshot-lifecycle.repository.ts,
  which begins, publishes and fails them, contact-sync.service.ts, which reads the pages of one, and
  contact-periodic-sync.tick.ts with the list of the sessions that are due.
\<close>

section \<open>Begin\<close>

definition new_sync_state :: "string \<Rightarrow> uuid \<Rightarrow> timestamp \<Rightarrow> contact_sync_state" where
  "new_sync_state sid t now = \<lparr>ks_session = sid, ks_generation = 1, ks_last_started_at = Some now,
     ks_last_completed_at = None, ks_record_count = None, ks_error = None, ks_attempt_count = 0,
     ks_next_attempt_at = now, ks_lease_token = Some t, ks_lease_expires_at = Some (now + minutes 10),
     ks_updated_at = now\<rparr>"

definition snapshot_claimable :: "bool \<Rightarrow> timestamp \<Rightarrow> contact_sync_state \<Rightarrow> bool" where
  "snapshot_claimable force now s \<longleftrightarrow> (ks_lease_token s = None \<or> null_before (ks_lease_expires_at s) now)
     \<and> (force \<or> ks_next_attempt_at s \<le> now)"

definition claim_snapshot_row :: "string \<Rightarrow> bool \<Rightarrow> uuid \<Rightarrow> timestamp \<Rightarrow> contact_sync_state row_update" where
  "claim_snapshot_row sid force t now = sql_where (\<lambda>s. ks_session s = sid \<and> snapshot_claimable force now s)
     (\<lambda>s. s\<lparr>ks_generation := ks_generation s + 1, ks_last_started_at := Some now, ks_error := None,
        ks_attempt_count := ks_attempt_count s + 1, ks_lease_token := Some t,
        ks_lease_expires_at := Some (now + minutes 10), ks_updated_at := now\<rparr>)"

text \<open>The row the statement returns, if it inserts or updates one.\<close>

definition claim_snapshot ::
  "string \<Rightarrow> bool \<Rightarrow> uuid \<Rightarrow> timestamp \<Rightarrow> contact_sync_state table \<Rightarrow> contact_sync_state table \<times> nat option" where
  "claim_snapshot sid force t now rows = (if sid \<in> ks_session ` set rows
     then (sql_update (claim_snapshot_row sid force t now) rows,
       case sql_returning (claim_snapshot_row sid force t now) rows of [] \<Rightarrow> None | s # _ \<Rightarrow> Some (ks_generation s))
     else (rows @ [new_sync_state sid t now], Some 1))"

definition generation_key :: "snapshot_generation \<Rightarrow> string \<times> nat" where
  "generation_key s = (sn_session s, sn_generation s)"

definition expire_generation_row :: "string \<Rightarrow> nat \<Rightarrow> timestamp \<Rightarrow> snapshot_generation row_update" where
  "expire_generation_row sid generation now = sql_where
     (\<lambda>s. sn_session s = sid \<and> sn_state s = G_RECEIVING \<and> sn_generation s < generation)
     (\<lambda>s. s\<lparr>sn_state := G_FAILED, sn_failed_at := Some now, sn_error := Some ''LEASE_EXPIRED'', sn_updated_at := now\<rparr>)"

definition newest_published :: "string \<Rightarrow> snapshot_generation table \<Rightarrow> nat option" where
  "newest_published sid gs = (let ps = map sn_generation (filter (\<lambda>s. sn_session s = sid \<and> sn_state s = G_PUBLISHED) gs) in
     if ps = [] then None else Some (Max (set ps)))"

text \<open>Old generations go, but not the newest published one and not the one that was resolved last.\<close>

definition outdated_generation :: "string \<Rightarrow> int \<Rightarrow> timestamp \<Rightarrow> contact_db \<Rightarrow> snapshot_generation \<Rightarrow> bool" where
  "outdated_generation sid retention now d s \<longleftrightarrow> sn_session s = sid \<and> sn_state s \<in> {G_PUBLISHED, G_FAILED}
     \<and> sn_created_at s < now - days retention
     \<and> newest_published sid (kd_generations d) \<noteq> Some (sn_generation s)
     \<and> map_option rr_generation (latest_run sid (\<lambda>_. True) (kd_runs d)) \<noteq> Some (sn_generation s)"

text \<open>
  The foreign keys: with a generation go its staged observations and its runs, with a run its clusters,
  assignments and conflicts, and a reference to a run becomes NULL.
\<close>

definition refers_to_run :: "(string \<times> uuid) set \<Rightarrow> string \<Rightarrow> uuid option \<Rightarrow> bool" where
  "refers_to_run keys sid r \<longleftrightarrow> (case r of None \<Rightarrow> False | Some rid \<Rightarrow> (sid, rid) \<in> keys)"

definition drop_runs :: "(string \<times> uuid) set \<Rightarrow> contact_db \<Rightarrow> contact_db" where
  "drop_runs keys d = d\<lparr>kd_runs := sql_delete (\<lambda>r. run_key r \<in> keys) (kd_runs d),
     kd_clusters := sql_delete (\<lambda>c. (cl_session c, cl_run c) \<in> keys) (kd_clusters d),
     kd_assignments := sql_delete (\<lambda>a. (as_session a, as_run a) \<in> keys) (kd_assignments d),
     kd_conflicts := sql_delete (\<lambda>x. (cf_session x, cf_run x) \<in> keys) (kd_conflicts d),
     kd_work := sql_update (sql_where (\<lambda>w. refers_to_run keys (pw_session w) (pw_active_run w))
       (\<lambda>w. w\<lparr>pw_active_run := None\<rparr>)) (kd_work d)\<rparr>"

definition drop_generations :: "(snapshot_generation \<Rightarrow> bool) \<Rightarrow> contact_store \<Rightarrow> contact_store" where
  "drop_generations P d = (let known = xc_known d; gone = generation_key ` set (filter P (kd_generations known));
     keys = run_key ` set (filter (\<lambda>r. run_source r \<in> gone) (kd_runs known)) in
     d\<lparr>xc_known := (drop_runs keys known)\<lparr>kd_generations := sql_delete P (kd_generations known)\<rparr>,
       xc_staged := sql_delete (\<lambda>s. (st_session s, st_generation s) \<in> gone) (xc_staged d),
       xc_members := sql_update (sql_where (\<lambda>m. refers_to_run keys (mb_session m) (mb_shadow_run m))
         (\<lambda>m. m\<lparr>mb_shadow_run := None\<rparr>)) (xc_members d)\<rparr>)"

definition new_generation :: "string \<Rightarrow> nat \<Rightarrow> uuid \<Rightarrow> timestamp \<Rightarrow> snapshot_generation" where
  "new_generation sid generation t now = \<lparr>sn_session = sid, sn_generation = generation, sn_state = G_RECEIVING,
     sn_lease_token = t, sn_upstream_count = None, sn_staged_count = 0, sn_published_at = None, sn_failed_at = None,
     sn_error = None, sn_created_at = now, sn_updated_at = now\<rparr>"

definition on_known :: "(contact_db \<Rightarrow> contact_db) \<Rightarrow> contact_store \<Rightarrow> contact_store" where
  "on_known f d = d\<lparr>xc_known := f (xc_known d)\<rparr>"

definition on_generations ::
  "(snapshot_generation table \<Rightarrow> snapshot_generation table) \<Rightarrow> contact_store \<Rightarrow> contact_store" where
  "on_generations f = on_known (\<lambda>k. k\<lparr>kd_generations := f (kd_generations k)\<rparr>)"

definition begin_snapshot ::
  "bool \<Rightarrow> int \<Rightarrow> string \<Rightarrow> bool \<Rightarrow> uuid \<Rightarrow> timestamp \<Rightarrow> contact_store \<Rightarrow> contact_store \<times> nat option" where
  "begin_snapshot staging retention sid force t now d =
     (case claim_snapshot sid force t now (xc_states d) of
        (_, None) \<Rightarrow> (d, None)
      | (states, Some generation) \<Rightarrow>
          let d1 = d\<lparr>xc_states := states\<rparr> in
          if \<not> staging then (d1, Some generation) else
            let d2 = on_generations (sql_update (expire_generation_row sid generation now)) d1;
                d3 = drop_generations (outdated_generation sid retention now (xc_known d2)) d2 in
            (on_generations (\<lambda>gs. gs @ [new_generation sid generation t now]) d3, Some generation))"

section \<open>Complete and fail\<close>

definition complete_state_row ::
  "string \<Rightarrow> nat \<Rightarrow> uuid \<Rightarrow> nat \<Rightarrow> int \<Rightarrow> timestamp \<Rightarrow> contact_sync_state row_update" where
  "complete_state_row sid generation t records interval now = sql_where (owned_state sid generation t now)
     (\<lambda>s. s\<lparr>ks_last_completed_at := Some now, ks_record_count := Some records, ks_error := None, ks_attempt_count := 0,
        ks_next_attempt_at := now + interval, ks_lease_token := None, ks_lease_expires_at := None,
        ks_updated_at := now\<rparr>)"

definition publish_generation_row ::
  "string \<Rightarrow> nat \<Rightarrow> uuid \<Rightarrow> nat \<Rightarrow> nat \<Rightarrow> timestamp \<Rightarrow> snapshot_generation row_update" where
  "publish_generation_row sid generation t records staged now = sql_where
     (\<lambda>s. generation_key s = (sid, generation) \<and> sn_state s = G_RECEIVING \<and> sn_lease_token s = t)
     (\<lambda>s. s\<lparr>sn_state := G_PUBLISHED, sn_upstream_count := Some records, sn_staged_count := staged,
        sn_published_at := Some now, sn_updated_at := now\<rparr>)"

definition complete_state ::
  "string \<Rightarrow> nat \<Rightarrow> uuid \<Rightarrow> nat \<Rightarrow> int \<Rightarrow> timestamp \<Rightarrow> contact_store \<Rightarrow> contact_error + contact_store" where
  "complete_state sid generation t records interval now d =
     (let f = complete_state_row sid generation t records interval now in
      if sql_count f (xc_states d) \<noteq> 1 then Inl LostWriteOwnership
      else Inr (d\<lparr>xc_states := sql_update f (xc_states d)\<rparr>))"

definition complete_snapshot ::
  "bool \<Rightarrow> bool \<Rightarrow> evidence_ids \<Rightarrow> string \<Rightarrow> nat \<Rightarrow> uuid \<Rightarrow> nat \<Rightarrow> int \<Rightarrow> timestamp \<Rightarrow> contact_store
    \<Rightarrow> contact_error + contact_store" where
  "complete_snapshot staging evidence ids sid generation t records interval now d =
     (if \<not> staging then complete_state sid generation t records interval now d else
      if length (filter (owned_state sid generation t now) (xc_states d)) \<noteq> 1 then Inl LostWriteOwnership else
        let d1 = on_known (publish_snapshot evidence ids sid generation (xc_staged d) now) d;
            f = publish_generation_row sid generation t records (length (staged_of sid generation (xc_staged d))) now in
        if sql_count f (kd_generations (xc_known d1)) \<noteq> 1 then Inl LostPublicationOwnership
        else complete_state sid generation t records interval now (on_generations (sql_update f) d1))"

text \<open>LEAST(3600, 60 * power(2, LEAST(attempt_count, 6))) seconds.\<close>

definition snapshot_backoff :: "nat \<Rightarrow> timestamp" where
  "snapshot_backoff attempts = seconds (min 3600 (60 * 2 ^ min attempts 6))"

definition fail_state_row :: "string \<Rightarrow> nat \<Rightarrow> uuid \<Rightarrow> string \<Rightarrow> timestamp \<Rightarrow> contact_sync_state row_update" where
  "fail_state_row sid generation t code now = sql_where
     (\<lambda>s. ks_session s = sid \<and> ks_generation s = generation \<and> ks_lease_token s = Some t)
     (\<lambda>s. s\<lparr>ks_error := Some code, ks_next_attempt_at := now + snapshot_backoff (ks_attempt_count s),
        ks_lease_token := None, ks_lease_expires_at := None, ks_updated_at := now\<rparr>)"

definition fail_generation_row :: "string \<Rightarrow> nat \<Rightarrow> uuid \<Rightarrow> string \<Rightarrow> timestamp \<Rightarrow> snapshot_generation row_update" where
  "fail_generation_row sid generation t code now = sql_where
     (\<lambda>s. generation_key s = (sid, generation) \<and> sn_lease_token s = t \<and> sn_state s = G_RECEIVING)
     (\<lambda>s. s\<lparr>sn_state := G_FAILED, sn_failed_at := Some now, sn_error := Some code, sn_updated_at := now\<rparr>)"

definition fail_snapshot :: "bool \<Rightarrow> string \<Rightarrow> nat \<Rightarrow> uuid \<Rightarrow> string \<Rightarrow> timestamp \<Rightarrow> contact_store \<Rightarrow> contact_store" where
  "fail_snapshot staging sid generation t code now d =
     (let d1 = (if staging then on_generations (sql_update (fail_generation_row sid generation t code now)) d else d) in
      d1\<lparr>xc_evidence := sql_delete (\<lambda>e. ie_session e = sid \<and> ie_generation e = generation) (xc_evidence d1),
         xc_states := sql_update (fail_state_row sid generation t code now) (xc_states d1)\<rparr>)"

section \<open>Reading the pages\<close>

record snapshot_config =
  sc_staging :: bool
  sc_evidence :: bool
  sc_fanout :: bool
  sc_retention :: int
  sc_interval :: int
  sc_md5 :: "string \<Rightarrow> string"

text \<open>
  What a run of reconcileObservedContacts meets: the pages that the gateway yields before the last one or an
  error, the generated identifiers, and, before its k-th transaction, the time and what others did meanwhile.
\<close>

record snapshot_input =
  sx_token :: uuid
  sx_fresh :: "nat \<Rightarrow> nat \<Rightarrow> uuid"
  sx_ids :: evidence_ids
  sx_clock :: "nat \<Rightarrow> timestamp"
  sx_others :: "nat \<Rightarrow> contact_store \<Rightarrow> contact_store"
  sx_pages :: "openwa_contact list list \<times> client_error option"

datatype sync_failure = StoreFailure contact_error | GatewayFailure client_error

fun failure_code :: "sync_failure \<Rightarrow> string" where
  "failure_code (StoreFailure e) = (if e = SnapshotConflict then ''INVALID_RESPONSE'' else ''UPSTREAM_ERROR'')"
| "failure_code (GatewayFailure e) = (case e of SchemaError operation issues \<Rightarrow> ''INVALID_RESPONSE'' | _ \<Rightarrow> ''UPSTREAM_ERROR'')"

text \<open>The pages from the k-th transaction on, with the number of their records.\<close>

primrec ingest_pages ::
  "snapshot_config \<Rightarrow> string \<Rightarrow> nat \<Rightarrow> snapshot_input \<Rightarrow> nat \<Rightarrow> openwa_contact list list \<Rightarrow> contact_store
    \<Rightarrow> contact_store \<times> (contact_error + nat)" where
  "ingest_pages c sid generation s k [] d = (d, Inr 0)"
| "ingest_pages c sid generation s k (p # ps) d = (let d1 = sx_others s k d in
     case ingest_observed_page (sc_staging c) (sc_fanout c) (sc_md5 c) (sx_fresh s k) sid generation (sx_token s) p
         (sx_clock s k) d1 of
       Inl e \<Rightarrow> (d1, Inl e)
     | Inr (d2, observed, enriched) \<Rightarrow> (case ingest_pages c sid generation s (Suc k) ps d2 of
           (d3, Inl e) \<Rightarrow> (d3, Inl e) | (d3, Inr n) \<Rightarrow> (d3, Inr (observed + n))))"

definition finish_snapshot ::
  "snapshot_config \<Rightarrow> string \<Rightarrow> nat \<Rightarrow> snapshot_input \<Rightarrow> nat \<Rightarrow> nat \<Rightarrow> contact_store
    \<Rightarrow> contact_store \<times> (contact_error + unit)" where
  "finish_snapshot c sid generation s k records d = (let d1 = sx_others s k d in
     case reconcile_identities (sc_fanout c) sid generation (sx_token s) (sx_clock s k) d1 of
       Inl e \<Rightarrow> (d1, Inl e)
     | Inr (d2, r) \<Rightarrow> (let d3 = sx_others s (Suc k) d2 in
         case complete_snapshot (sc_staging c) (sc_evidence c) (sx_ids s) sid generation (sx_token s) records
             (sc_interval c) (sx_clock s (Suc k)) d3 of
           Inl e \<Rightarrow> (d3, Inl e) | Inr d4 \<Rightarrow> (d4, Inr ())))"

definition read_snapshot ::
  "snapshot_config \<Rightarrow> string \<Rightarrow> nat \<Rightarrow> snapshot_input \<Rightarrow> contact_store \<Rightarrow> contact_store \<times> (sync_failure + unit)" where
  "read_snapshot c sid generation s d =
     (case ingest_pages c sid generation s 1 (fst (sx_pages s)) d of
        (d1, Inl e) \<Rightarrow> (d1, Inl (StoreFailure e))
      | (d1, Inr records) \<Rightarrow> (case snd (sx_pages s) of Some e \<Rightarrow> (d1, Inl (GatewayFailure e))
          | None \<Rightarrow> (case finish_snapshot c sid generation s (Suc (length (fst (sx_pages s)))) records d1 of
              (d2, Inl e) \<Rightarrow> (d2, Inl (StoreFailure e)) | (d2, Inr u) \<Rightarrow> (d2, Inr u))))"

text \<open>The metrics that are read after a completed snapshot change nothing.\<close>

definition reconcile_observed_contacts ::
  "snapshot_config \<Rightarrow> string \<Rightarrow> bool \<Rightarrow> snapshot_input \<Rightarrow> contact_store \<Rightarrow> contact_store \<times> (sync_failure + bool)" where
  "reconcile_observed_contacts c sid force s d =
     (case begin_snapshot (sc_staging c) (sc_retention c) sid force (sx_token s) (sx_clock s 0) d of
        (d1, None) \<Rightarrow> (d1, Inr False)
      | (d1, Some generation) \<Rightarrow> (case read_snapshot c sid generation s d1 of
            (d2, Inr u) \<Rightarrow> (d2, Inr True)
          | (d2, Inl e) \<Rightarrow> (let k = length (fst (sx_pages s)) + 3 in
              (fail_snapshot (sc_staging c) sid generation (sx_token s) (failure_code e) (sx_clock s k)
                 (sx_others s k d2), Inl e))))"

section \<open>The sessions that are due\<close>

definition state_of :: "contact_sync_state table \<Rightarrow> string \<Rightarrow> contact_sync_state option" where
  "state_of states sid = find_by ks_session sid states"

definition snapshot_due :: "string list \<Rightarrow> timestamp \<Rightarrow> contact_sync_state table \<Rightarrow> gateway_session \<Rightarrow> bool" where
  "snapshot_due allowed now states g \<longleftrightarrow> gs_id g \<in> set allowed \<and> gs_status g = ''ready'' \<and> gs_engine_loaded g
     \<and> (case state_of states (gs_id g) of None \<Rightarrow> True | Some s \<Rightarrow> snapshot_claimable False now s)"

definition periodic_sessions ::
  "string list \<Rightarrow> nat \<Rightarrow> timestamp \<Rightarrow> contact_sync_state table \<Rightarrow> gateway_session table \<Rightarrow> string list" where
  "periodic_sessions allowed limit now states gs = map gs_id (sql_top limit
     (\<lambda>g. (case state_of states (gs_id g) of None \<Rightarrow> (False, 0) | Some s \<Rightarrow> (True, ks_next_attempt_at s), gs_id g))
     (snapshot_due allowed now states) gs)"

text \<open>Each session has an input of its own; what fails does not stop the others.\<close>

primrec sync_sessions ::
  "snapshot_config \<Rightarrow> (string \<Rightarrow> snapshot_input) \<Rightarrow> string list \<Rightarrow> contact_store \<Rightarrow> contact_store \<times> nat \<times> nat" where
  "sync_sessions c inputs [] d = (d, 0, 0)"
| "sync_sessions c inputs (sid # sids) d = (case reconcile_observed_contacts c sid False (inputs sid) d of
     (d1, r) \<Rightarrow> (case sync_sessions c inputs sids d1 of (d2, completed, failed) \<Rightarrow>
       (d2, if r = Inr True then completed + 1 else completed, case r of Inl e \<Rightarrow> failed + 1 | Inr b \<Rightarrow> failed)))"

definition periodic_sync_tick ::
  "bool \<Rightarrow> string list \<Rightarrow> snapshot_config \<Rightarrow> (string \<Rightarrow> snapshot_input) \<Rightarrow> timestamp \<Rightarrow> gateway_session table
    \<Rightarrow> contact_store \<Rightarrow> contact_store \<times> nat \<times> nat" where
  "periodic_sync_tick enabled allowed c inputs now gs d = (if \<not> enabled then (d, 0, 0) else
     sync_sessions c inputs (periodic_sessions allowed 10 now (xc_states d) gs) d)"

section \<open>All transactions on contacts\<close>

text \<open>
  A transaction on the contacts, with the token it presents if it is one of a snapshot: pages, merges, the begin
  and the end of snapshots, senders and members. The switches of the processes are the same, except that of the
  staging.
\<close>

inductive contact_step :: "bool \<Rightarrow> (string \<Rightarrow> string) \<Rightarrow> uuid \<Rightarrow> contact_store \<Rightarrow> contact_store \<Rightarrow> bool"
  for fanout :: bool and md5 :: "string \<Rightarrow> string" where
  began: "begin_snapshot staging retention sid force t now d = (d', r) \<Longrightarrow> contact_step fanout md5 t d d'"
| paged: "ingest_observed_page staging fanout md5 fresh sid generation t cs now d = Inr (d', observed, enriched)
    \<Longrightarrow> contact_step fanout md5 t d d'"
| merged: "reconcile_identities fanout sid generation t now d = Inr (d', m) \<Longrightarrow> contact_step fanout md5 t d d'"
| completed: "complete_snapshot staging evidence ids sid generation t records interval now d = Inr d'
    \<Longrightarrow> contact_step fanout md5 t d d'"
| failed: "d' = fail_snapshot staging sid generation t code now d \<Longrightarrow> contact_step fanout md5 t d d'"
| observed: "wr_fanout w = fanout \<Longrightarrow> observe_message_sender w md5 ids candidate sid raw name at' key now d = (d', b)
    \<Longrightarrow> contact_step fanout md5 t d d'"
| replaced: "wr_fanout w = fanout \<Longrightarrow> distinct (map gp_id ps) \<Longrightarrow> d' = replace_members w md5 ids fresh sid gid ps now d
    \<Longrightarrow> contact_step fanout md5 t d d'"

end
