(* ===== verification/Contact_Invariants.thy ===== *)
theory Contact_Invariants
  imports Contact_Snapshots
begin

text \<open>
  What holds of the contacts of a session after any sequence of pages, merges, messages and group details: keys
  are unique, nothing refers to a contact that is not there, every contact shows the best of its names, and, while
  members are kept in step, every member shows what its contact shows.
\<close>

section \<open>The invariant and its exceptions\<close>

text \<open>
  Within a transaction the names of some contacts, or of the members of some contacts, or of some members, are
  not up to date yet.
\<close>

definition contact_keys :: "contact_store \<Rightarrow> (string \<times> uuid) set" where
  "contact_keys d = contact_key ` set (xc_contacts d)"

definition refers :: "contact_store \<Rightarrow> (string \<times> uuid) set" where
  "refers d = (\<lambda>i. (ki_session i, ki_contact i)) ` set (xc_identifiers d) \<union> (\<lambda>n. (kn_session n, kn_contact n)) ` set (xc_names d)
     \<union> {(mb_session m, c) |m c. m \<in> set (xc_members d) \<and> mb_contact m = Some c}"

definition contact_fresh :: "contact_store \<Rightarrow> contact \<Rightarrow> bool" where
  "contact_fresh d c \<longleftrightarrow> (kc_name c, kc_source c) = shown_name (xc_names d) c"

definition belongs :: "group_member \<Rightarrow> contact \<Rightarrow> bool" where
  "belongs m c \<longleftrightarrow> mb_contact m = Some (kc_id c) \<and> mb_session m = kc_session c"

definition member_fresh :: "contact \<Rightarrow> group_member \<Rightarrow> bool" where
  "member_fresh c m \<longleftrightarrow> (mb_name m, mb_name_source m) = member_shows c m"

definition keys_ok :: "contact_store \<Rightarrow> bool" where
  "keys_ok d \<longleftrightarrow> keyed contact_key (xc_contacts d) \<and> keyed ident_key (xc_identifiers d)
     \<and> keyed cname_key (xc_names d) \<and> keyed member_key (xc_members d)"

definition store_inv ::
  "bool \<Rightarrow> (string \<times> uuid) set \<Rightarrow> (string \<times> uuid) set \<Rightarrow> (string \<times> string \<times> string) set \<Rightarrow> contact_store \<Rightarrow> bool" where
  "store_inv fanout S T M d \<longleftrightarrow> keys_ok d \<and> refers d \<subseteq> contact_keys d
     \<and> (\<forall>c \<in> set (xc_contacts d). contact_key c \<notin> S \<longrightarrow> contact_fresh d c)
     \<and> (fanout \<longrightarrow> (\<forall>m \<in> set (xc_members d). \<forall>c \<in> set (xc_contacts d). belongs m c \<and> contact_key c \<notin> T
         \<and> member_key m \<notin> M \<longrightarrow> member_fresh c m))"

lemma store_inv_mono: "store_inv fanout S T M d \<Longrightarrow> S \<subseteq> S' \<Longrightarrow> T \<subseteq> T' \<Longrightarrow> M \<subseteq> M' \<Longrightarrow> store_inv fanout S' T' M' d"
  unfolding store_inv_def by blast

lemma store_inv_other:
  "store_inv fanout S T M (d\<lparr>xc_evidence := e\<rparr>) = store_inv fanout S T M d"
  "store_inv fanout S T M (d\<lparr>xc_states := s\<rparr>) = store_inv fanout S T M d"
  "store_inv fanout S T M (d\<lparr>xc_staged := g\<rparr>) = store_inv fanout S T M d"
  "store_inv fanout S T M (d\<lparr>xc_known := k\<rparr>) = store_inv fanout S T M d"
  by (simp_all add: store_inv_def keys_ok_def refers_def contact_keys_def contact_fresh_def)

lemma store_invI:
  assumes "keys_ok d" "refers d \<subseteq> contact_keys d"
    and "\<And>c. c \<in> set (xc_contacts d) \<Longrightarrow> contact_key c \<notin> S \<Longrightarrow> contact_fresh d c"
    and "\<And>m c. fanout \<Longrightarrow> m \<in> set (xc_members d) \<Longrightarrow> c \<in> set (xc_contacts d) \<Longrightarrow> belongs m c \<Longrightarrow> contact_key c \<notin> T
      \<Longrightarrow> member_key m \<notin> M \<Longrightarrow> member_fresh c m"
  shows "store_inv fanout S T M d"
  using assms by (simp add: store_inv_def)

lemma refersI:
  "i \<in> set (xc_identifiers d) \<Longrightarrow> (ki_session i, ki_contact i) \<in> refers d"
  "n \<in> set (xc_names d) \<Longrightarrow> (kn_session n, kn_contact n) \<in> refers d"
  "m \<in> set (xc_members d) \<Longrightarrow> mb_contact m = Some cid \<Longrightarrow> (mb_session m, cid) \<in> refers d"
  by (auto simp: refers_def)

section \<open>Contacts\<close>

lemma shown_name_key: "contact_key c = contact_key c' \<Longrightarrow> shown_name names c = shown_name names c'"
  by (simp add: shown_name_def contact_key_def)

lemma name_of_absent: "(sid, cid) \<notin> (\<lambda>n. (kn_session n, kn_contact n)) ` set names \<Longrightarrow> name_of sid cid src names = None"
  by (auto simp: name_of_def find_by_None cname_key_def image_iff)

lemma store_inv_create:
  assumes inv: "store_inv fanout S T M d"
  shows "store_inv fanout S T M (create_contact sid now cid d) \<and> (sid, cid) \<in> contact_keys (create_contact sid now cid d)
    \<and> contact_keys d \<subseteq> contact_keys (create_contact sid now cid d)"
proof (cases "(sid, cid) \<in> contact_keys d")
  case True
  then have "create_contact sid now cid d = d"
    by (auto simp: create_contact_def sql_insert_new_def contact_keys_def new_contact_def contact_key_def)
  then show ?thesis using inv True by simp
next
  case False
  let ?c = "new_contact sid cid now"
  have key: "contact_key ?c = (sid, cid)" by (simp add: new_contact_def contact_key_def)
  have d': "create_contact sid now cid d = d\<lparr>xc_contacts := xc_contacts d @ [?c]\<rparr>"
    using False key by (simp add: create_contact_def sql_insert_new_def contact_keys_def)
  have out: "(sid, cid) \<notin> refers d" using False inv by (auto simp: store_inv_def)
  have "shown_name (xc_names d) ?c = (None, None)"
    using out by (simp add: shown_name_def new_contact_def contact_projection_def refers_def name_of_absent)
  then have "contact_fresh d ?c" by (simp add: contact_fresh_def new_contact_def)
  moreover have "\<not> belongs m ?c" if "m \<in> set (xc_members d)" for m
    using out that by (auto simp: belongs_def refers_def new_contact_def)
  moreover have "keys_ok (d\<lparr>xc_contacts := xc_contacts d @ [?c]\<rparr>)"
    using inv False key by (auto simp: store_inv_def keys_ok_def contact_keys_def)
  moreover have "refers (d\<lparr>xc_contacts := xc_contacts d @ [?c]\<rparr>) = refers d" by (simp add: refers_def)
  moreover have "contact_keys (d\<lparr>xc_contacts := xc_contacts d @ [?c]\<rparr>) = insert (sid, cid) (contact_keys d)"
    using key by (auto simp: contact_keys_def)
  ultimately show ?thesis using inv unfolding d' by (auto simp: store_inv_def contact_fresh_def)
qed

text \<open>An update of contacts that brings those of K up to date and leaves the names of the others.\<close>

lemma store_inv_contacts:
  assumes inv: "store_inv fanout S T M d"
    and key: "\<And>c c'. f c = Some c' \<Longrightarrow> contact_key c' = contact_key c"
    and shown: "\<And>c. c \<in> set (xc_contacts d) \<Longrightarrow> contact_key c \<in> K \<Longrightarrow> contact_fresh d (row_after f c)"
    and kept: "\<And>c. c \<in> set (xc_contacts d) \<Longrightarrow> contact_key c \<notin> K
      \<Longrightarrow> kc_name (row_after f c) = kc_name c \<and> kc_source (row_after f c) = kc_source c"
  shows "store_inv fanout (S - K) (T \<union> K) M (d\<lparr>xc_contacts := sql_update f (xc_contacts d)\<rparr>)"
proof -
  have after: "contact_key (row_after f c) = contact_key c" for c using key by (auto simp: row_after_def split: option.split)
  then have shows_key: "shown_name names (row_after f c) = shown_name names c" for names c by (rule shown_name_key)
  have ids: "kc_id (row_after f c) = kc_id c" "kc_session (row_after f c) = kc_session c" for c
    using after [of c] by (simp_all add: contact_key_def)
  have "contact_keys (d\<lparr>xc_contacts := sql_update f (xc_contacts d)\<rparr>) = contact_keys d"
    by (simp add: contact_keys_def set_sql_update_after image_image after)
  moreover have "keyed contact_key (sql_update f (xc_contacts d)) = keyed contact_key (xc_contacts d)"
    by (rule keyed_sql_update) (rule key)
  moreover have "contact_fresh d (row_after f c)" if "c \<in> set (xc_contacts d)" "contact_key c \<notin> S - K" for c
    using that inv shown [of c] kept [of c] by (cases "contact_key c \<in> K") (auto simp: store_inv_def contact_fresh_def shows_key)
  moreover have "member_fresh (row_after f c) m"
    if "c \<in> set (xc_contacts d)" "contact_key c \<notin> T \<union> K" "m \<in> set (xc_members d)" "belongs m c" "member_key m \<notin> M" fanout for c m
  proof -
    have "member_fresh c m" using inv that by (auto simp: store_inv_def)
    then show ?thesis using kept [of c] that(1,2) by (simp add: member_fresh_def member_shows_def)
  qed
  ultimately show ?thesis using inv
    by (auto simp: store_inv_def keys_ok_def refers_def set_sql_update_after contact_fresh_def after belongs_def ids)
qed

lemma store_inv_refresh_contacts:
  assumes "store_inv fanout S T M d"
  shows "store_inv fanout (S - Pair sid ` cids) (T \<union> Pair sid ` cids) M (refresh_contacts sid cids now d)"
  unfolding refresh_contacts_def
  by (rule store_inv_contacts [OF assms])
    (auto simp: refresh_contact_row_def contact_key_def contact_fresh_def row_after_def sql_where_def shown_name_def
      split: option.split if_splits)

text \<open>Contacts that nothing refers to may go.\<close>

lemma store_inv_delete_contacts:
  assumes "store_inv fanout S T M d" "\<And>c. P c \<Longrightarrow> contact_key c \<notin> refers d"
  shows "store_inv fanout S T M (d\<lparr>xc_contacts := sql_delete P (xc_contacts d)\<rparr>)"
proof -
  let ?d = "d\<lparr>xc_contacts := sql_delete P (xc_contacts d)\<rparr>"
  have refers: "refers ?d = refers d" by (simp add: refers_def)
  have "refers d \<subseteq> contact_keys ?d"
  proof
    fix k assume k: "k \<in> refers d"
    then obtain c where "c \<in> set (xc_contacts d)" "contact_key c = k" using assms(1) by (auto simp: store_inv_def contact_keys_def)
    then show "k \<in> contact_keys ?d" using assms(2) k by (auto simp: contact_keys_def)
  qed
  moreover have "keys_ok ?d" using assms(1) by (auto simp: store_inv_def keys_ok_def)
  ultimately show ?thesis using assms(1) unfolding store_inv_def refers by (auto simp: contact_fresh_def)
qed

section \<open>Identifiers\<close>

lemma store_inv_upsert_identifier:
  assumes inv: "store_inv fanout S T M d" and known: "(ki_session i, ki_contact i) \<in> contact_keys d"
  shows "store_inv fanout S T M (upsert_identifier i now d)" "contact_keys (upsert_identifier i now d) = contact_keys d"
proof -
  have keyed: "keyed ident_key (sql_update (touch_identifiers P now) is) = keyed ident_key is" for P "is"
    by (rule keyed_sql_update) (auto simp: touch_identifiers_def ident_key_def)
  have "(\<lambda>x. (ki_session x, ki_contact x)) ` set (sql_update (touch_identifiers P now) is)
      = (\<lambda>x. (ki_session x, ki_contact x)) ` set is" for P "is"
    unfolding set_sql_update_after image_image
    by (rule image_cong) (auto simp: touch_identifiers_def row_after_def sql_where_def)
  then show "store_inv fanout S T M (upsert_identifier i now d)"
    using inv known keyed by (auto simp: store_inv_def upsert_identifier_def keys_ok_def refers_def contact_keys_def contact_fresh_def)
  show "contact_keys (upsert_identifier i now d) = contact_keys d" by (simp add: contact_keys_def upsert_identifier_def)
qed

text \<open>Identifiers change in their times, or move to another contact that is there.\<close>

lemma store_inv_identifiers:
  assumes inv: "store_inv fanout S T M d" and key: "\<And>i i'. f i = Some i' \<Longrightarrow> ident_key i' = ident_key i"
    and known: "\<And>i i'. i \<in> set (xc_identifiers d) \<Longrightarrow> f i = Some i' \<Longrightarrow> (ki_session i', ki_contact i') \<in> contact_keys d"
  shows "store_inv fanout S T M (d\<lparr>xc_identifiers := sql_update f (xc_identifiers d)\<rparr>)"
proof -
  have "keyed ident_key (sql_update f (xc_identifiers d)) = keyed ident_key (xc_identifiers d)"
    by (rule keyed_sql_update) (rule key)
  then have "keyed ident_key (sql_update f (xc_identifiers d))" using inv by (simp add: store_inv_def keys_ok_def)
  moreover have "(ki_session i, ki_contact i) \<in> contact_keys d" if "i \<in> set (sql_update f (xc_identifiers d))" for i
    using that
  proof (cases rule: sql_update_cases)
    case kept
    then show ?thesis using inv by (auto simp: store_inv_def refers_def)
  qed (use known in blast)
  ultimately show ?thesis using inv by (auto simp: store_inv_def keys_ok_def refers_def contact_keys_def contact_fresh_def)
qed

section \<open>Names\<close>

text \<open>A change of the names of some contacts, which have to be refreshed.\<close>

lemma store_inv_names:
  assumes inv: "store_inv fanout S T M d" and keyed: "keyed cname_key names"
    and known: "\<And>n. n \<in> set names \<Longrightarrow> (kn_session n, kn_contact n) \<in> contact_keys d"
    and kept: "\<And>sid cid src. (sid, cid) \<in> contact_keys d \<Longrightarrow> (sid, cid) \<notin> K \<Longrightarrow> name_of sid cid src names = name_of sid cid src (xc_names d)"
  shows "store_inv fanout (S \<union> K) T M (d\<lparr>xc_names := names\<rparr>)"
proof -
  have "contact_fresh (d\<lparr>xc_names := names\<rparr>) c" if c: "c \<in> set (xc_contacts d)" "contact_key c \<notin> S \<union> K" for c
  proof -
    have "contact_key c \<in> contact_keys d" using c by (simp add: contact_keys_def)
    then have "shown_name names c = shown_name (xc_names d) c"
      using c kept by (simp add: shown_name_def contact_key_def)
    then show ?thesis using inv c by (simp add: store_inv_def contact_fresh_def)
  qed
  then show ?thesis using inv keyed known by (auto simp: store_inv_def keys_ok_def refers_def contact_keys_def)
qed

text \<open>An upsert of a name, whatever it does on a conflict.\<close>

lemma store_inv_put_name:
  assumes inv: "store_inv fanout S T M d" and known: "(kn_session x, kn_contact x) \<in> contact_keys d"
    and f: "\<And>n n'. f n = Some n' \<Longrightarrow> cname_key n' = cname_key n \<and> cname_key n = cname_key x"
    and names: "names = (if cname_key x \<in> cname_key ` set (xc_names d) then sql_update f (xc_names d) else xc_names d @ [x])"
  shows "store_inv fanout (insert (kn_session x, kn_contact x) S) T M (d\<lparr>xc_names := names\<rparr>)"
proof -
  have keyed: "keyed cname_key (sql_update f (xc_names d)) = keyed cname_key (xc_names d)"
    by (rule keyed_sql_update) (use f in blast)
  have "cname_key ` set (sql_update f (xc_names d)) = cname_key ` set (xc_names d)"
    unfolding set_sql_update_after image_image by (rule image_cong) (auto simp: row_after_def f split: option.split)
  then have keys: "cname_key ` set names = insert (cname_key x) (cname_key ` set (xc_names d))"
    by (auto simp: names)
  have "(kn_session n, kn_contact n) \<in> contact_keys d" if "n \<in> set names" for n
  proof -
    have "cname_key n \<in> insert (cname_key x) (cname_key ` set (xc_names d))" using that keys by blast
    then show ?thesis using inv known by (auto simp: store_inv_def refers_def cname_key_def)
  qed
  moreover have "name_of sid cid src names = name_of sid cid src (xc_names d)"
    if other: "(sid, cid) \<noteq> (kn_session x, kn_contact x)" for sid cid src
  proof -
    have "find_by cname_key (sid, cid, src) (sql_update f (xc_names d)) =
        map_option (\<lambda>n. case f n of None \<Rightarrow> n | Some n' \<Rightarrow> n') (find_by cname_key (sid, cid, src) (xc_names d))"
      by (rule find_by_sql_update) (use f in blast)
    moreover have "f n = None" if "find_by cname_key (sid, cid, src) (xc_names d) = Some n" for n
      using find_by_Some [OF that] other f [of n] by (cases "f n") (auto simp: cname_key_def)
    ultimately have "find_by cname_key (sid, cid, src) (sql_update f (xc_names d)) = find_by cname_key (sid, cid, src) (xc_names d)"
      by (cases "find_by cname_key (sid, cid, src) (xc_names d)") simp_all
    then show ?thesis using other by (auto simp: name_of_def names find_by_append cname_key_def split: option.split)
  qed
  ultimately have "store_inv fanout (S \<union> {(kn_session x, kn_contact x)}) T M (d\<lparr>xc_names := names\<rparr>)"
    using inv keyed by (intro store_inv_names) (auto simp: names store_inv_def keys_ok_def)
  then show ?thesis by simp
qed

lemma store_inv_upsert_name:
  assumes "store_inv fanout S T M d" "(kn_session x, kn_contact x) \<in> contact_keys d"
  shows "store_inv fanout (insert (kn_session x, kn_contact x) S) T M (d\<lparr>xc_names := upsert_name x now (xc_names d)\<rparr>)"
  by (rule store_inv_put_name [OF assms, where f = "newer_name_row x now"]) (auto simp: newer_name_row_def cname_key_def upsert_name_def)

lemma store_inv_merge_name:
  assumes "store_inv fanout S T M d" "(kn_session x, kn_contact x) \<in> contact_keys d"
  shows "store_inv fanout (insert (kn_session x, kn_contact x) S) T M (d\<lparr>xc_names := merge_name now x (xc_names d)\<rparr>)"
  by (rule store_inv_put_name [OF assms, where f = "merged_name_row x now"]) (auto simp: merged_name_row_def cname_key_def merge_name_def)

lemma store_inv_fold_names:
  assumes "store_inv fanout S T M d" "\<And>x. x \<in> set xs \<Longrightarrow> (kn_session x, kn_contact x) \<in> K" "K \<subseteq> contact_keys d"
    and "\<And>x e S. store_inv fanout S T M e \<Longrightarrow> (kn_session x, kn_contact x) \<in> contact_keys e
      \<Longrightarrow> store_inv fanout (insert (kn_session x, kn_contact x) S) T M (e\<lparr>xc_names := put x (xc_names e)\<rparr>)"
  shows "store_inv fanout (S \<union> K) T M (d\<lparr>xc_names := fold put xs (xc_names d)\<rparr>)"
  using assms(1-3)
proof (induction xs arbitrary: d S)
  case Nil
  then show ?case by (auto intro: store_inv_mono)
next
  case (Cons x xs)
  let ?d = "d\<lparr>xc_names := put x (xc_names d)\<rparr>"
  have "store_inv fanout (insert (kn_session x, kn_contact x) S) T M ?d"
    by (rule assms(4) [OF Cons.prems(1)]) (use Cons.prems(2,3) in auto)
  then have "store_inv fanout (insert (kn_session x, kn_contact x) S \<union> K) T M (?d\<lparr>xc_names := fold put xs (xc_names ?d)\<rparr>)"
    by (rule Cons.IH) (use Cons.prems in \<open>auto simp: contact_keys_def\<close>)
  moreover have "insert (kn_session x, kn_contact x) S \<union> K = S \<union> K" using Cons.prems(2) by auto
  ultimately show ?case by simp
qed

section \<open>Members\<close>

text \<open>An update of members: what it changes refers to a contact that is there and shows what that contact shows.\<close>

lemma store_inv_members:
  assumes inv: "store_inv fanout S T M d" and key: "\<And>m m'. f m = Some m' \<Longrightarrow> member_key m' = member_key m"
    and known: "\<And>m m' cid. m \<in> set (xc_members d) \<Longrightarrow> f m = Some m' \<Longrightarrow> mb_contact m' = Some cid \<Longrightarrow> (mb_session m', cid) \<in> contact_keys d"
    and fresh: "\<And>m c. fanout \<Longrightarrow> m \<in> set (xc_members d) \<Longrightarrow> c \<in> set (xc_contacts d) \<Longrightarrow> belongs (row_after f m) c
      \<Longrightarrow> contact_key c \<notin> T' \<Longrightarrow> member_key m \<notin> M' \<Longrightarrow> member_fresh c (row_after f m)"
  shows "store_inv fanout S T' M' (d\<lparr>xc_members := sql_update f (xc_members d)\<rparr>)"
proof -
  have after: "member_key (row_after f m) = member_key m" for m using key by (auto simp: row_after_def split: option.split)
  have "keyed member_key (sql_update f (xc_members d)) = keyed member_key (xc_members d)"
    by (rule keyed_sql_update) (rule key)
  then have "keyed member_key (sql_update f (xc_members d))" using inv by (simp add: store_inv_def keys_ok_def)
  moreover have "(mb_session m, cid) \<in> contact_keys d" if h: "m \<in> set (sql_update f (xc_members d))" "mb_contact m = Some cid" for m cid
    using h(1)
  proof (cases rule: sql_update_cases)
    case kept
    then have "(mb_session m, cid) \<in> refers d" using h(2) by (simp add: refersI)
    then show ?thesis using inv by (auto simp: store_inv_def)
  qed (use known h(2) in blast)
  moreover have "member_fresh c m"
    if h: "fanout" "m \<in> set (sql_update f (xc_members d))" "c \<in> set (xc_contacts d)" "belongs m c" "contact_key c \<notin> T'" "member_key m \<notin> M'" for m c
  proof -
    obtain m0 where "m0 \<in> set (xc_members d)" "m = row_after f m0" using h(2) unfolding set_sql_update_after by blast
    then show ?thesis using fresh h after by metis
  qed
  ultimately show ?thesis using inv by (auto simp: store_inv_def keys_ok_def refers_def contact_keys_def contact_fresh_def)
qed

lemma store_inv_refresh_members:
  assumes inv: "store_inv fanout S T M d"
  shows "store_inv fanout S (T - Pair sid ` cids) M (fst (refresh_members fanout sid cids now d))"
proof (cases fanout)
  case False
  then show ?thesis using inv by (simp add: refresh_members_def Let_def store_inv_def)
next
  case True
  let ?f = "refresh_member_row (xc_contacts d) sid cids now"
  have keyed: "keyed contact_key (xc_contacts d)" using inv by (simp add: store_inv_def keys_ok_def)
  have changed: "\<exists>c. mb_session m = sid \<and> mb_contact m = Some (kc_id c) \<and> kc_id c \<in> cids \<and> c \<in> set (xc_contacts d) \<and> kc_session c = sid
      \<and> m' = show_member (member_shows c m) now m" if "?f m = Some m'" for m m'
    using that by (auto simp: refresh_member_row_def contact_key_def split: option.splits if_splits dest!: find_by_Some)
  have "store_inv fanout S (T - Pair sid ` cids) M (d\<lparr>xc_members := sql_update ?f (xc_members d)\<rparr>)"
  proof (rule store_inv_members [OF inv])
    show "member_key m' = member_key m" if "?f m = Some m'" for m m'
      using changed [OF that] by (auto simp: show_member_def member_key_def)
    show "(mb_session m', cid) \<in> contact_keys d" if "?f m = Some m'" "mb_contact m' = Some cid" for m m' cid
      using changed [OF that(1)] that(2) by (force simp: show_member_def contact_keys_def contact_key_def)
    show "member_fresh c (row_after ?f m)"
      if h: "m \<in> set (xc_members d)" "c \<in> set (xc_contacts d)" "belongs (row_after ?f m) c" "contact_key c \<notin> T - Pair sid ` cids"
        "member_key m \<notin> M" for m c
    proof (cases "?f m")
      case (Some m')
      then obtain c' where c': "mb_session m = sid" "mb_contact m = Some (kc_id c')" "c' \<in> set (xc_contacts d)" "kc_session c' = sid"
          "m' = show_member (member_shows c' m) now m"
        using changed by blast
      then have "contact_key c = contact_key c'" using h(3) Some by (simp add: belongs_def row_after_def show_member_def contact_key_def)
      then have "c = c'" using keyed_inj [OF keyed h(2) c'(3)] by blast
      then show ?thesis using Some c' by (simp add: member_fresh_def member_shows_def show_member_def row_after_def)
    next
      case None
      then have b: "belongs m c" using h(3) by (simp add: row_after_def)
      have "member_fresh c m"
      proof (cases "contact_key c \<in> T")
        case True
        then have "kc_session c = sid" "kc_id c \<in> cids" using h(4) by (auto simp: contact_key_def)
        then show ?thesis using None b find_by_keyed [OF keyed h(2)]
          by (simp add: refresh_member_row_def belongs_def contact_key_def member_fresh_def split: if_splits)
      qed (use inv h b \<open>fanout\<close> in \<open>auto simp: store_inv_def\<close>)
      then show ?thesis using None by (simp add: row_after_def)
    qed
  qed
  then show ?thesis using True by (simp add: refresh_members_def Let_def)
qed

end
