(* ===== verification/Contact_Merges.thy ===== *)
theory Contact_Merges
  imports Contact_Invariants
begin

text \<open>
  reconcileObservedIdentities of contact.repository.ts: what a plan of winners and losers is, and that applying
  it keeps the invariant of Contact_Invariants.
\<close>

section \<open>The plan\<close>

lemma component_unique: "(n, k) \<in> set (components es nodes) \<Longrightarrow> (n, k') \<in> set (components es nodes) \<Longrightarrow> k = k'"
  unfolding components_iff by simp

lemma oldest_contact_Some:
  assumes "oldest_contact sid cs comps k = Some w"
  shows "(w, k) \<in> set comps \<and> (sid, w) \<in> contact_key ` set cs"
proof -
  let ?xs = "filter (\<lambda>c. kc_session c = sid \<and> (kc_id c, k) \<in> set comps) cs"
  obtain c ys where sorted: "sort_key (\<lambda>c. (kc_created_at c, kc_id c)) ?xs = c # ys" "w = kc_id c"
    using assms by (auto simp: oldest_contact_def split: list.splits)
  then have "c \<in> set (sort_key (\<lambda>c. (kc_created_at c, kc_id c)) ?xs)" by simp
  then have "c \<in> set cs" "kc_session c = sid" "(kc_id c, k) \<in> set comps" by auto
  then show ?thesis using sorted(2) by (force simp: contact_key_def)
qed

lemma merge_plan_iff:
  "(w, l) \<in> set (merge_plan sid generation d) \<longleftrightarrow> (\<exists>k. (l, k) \<in> set (merge_components (merge_edges sid generation d))
     \<and> oldest_contact sid (xc_contacts d) (merge_components (merge_edges sid generation d)) k = Some w \<and> l \<noteq> w
     \<and> (sid, l) \<in> contact_keys d)"
  by (force simp: merge_plan_def Let_def set_map_filter contact_keys_def split: option.splits if_splits)

text \<open>Winners and losers are there, a loser has one winner, and no winner loses.\<close>

definition plan_ok :: "string \<Rightarrow> (uuid \<times> uuid) list \<Rightarrow> contact_store \<Rightarrow> bool" where
  "plan_ok sid plan d \<longleftrightarrow> (\<forall>w l. (w, l) \<in> set plan \<longrightarrow> (sid, w) \<in> contact_keys d \<and> (sid, l) \<in> contact_keys d
     \<and> l \<notin> fst ` set plan \<and> (\<forall>w'. (w', l) \<in> set plan \<longrightarrow> w' = w))"

lemma merge_plan_ok: "plan_ok sid (merge_plan sid generation d) d"
  unfolding plan_ok_def
proof (intro allI impI)
  fix w l
  let ?comps = "merge_components (merge_edges sid generation d)" and ?plan = "merge_plan sid generation d"
  assume "(w, l) \<in> set ?plan"
  then obtain k where k: "(l, k) \<in> set ?comps" "oldest_contact sid (xc_contacts d) ?comps k = Some w" "l \<noteq> w" "(sid, l) \<in> contact_keys d"
    unfolding merge_plan_iff by blast
  have unique: "(n, a) \<in> set ?comps \<Longrightarrow> (n, b) \<in> set ?comps \<Longrightarrow> a = b" for n a b
    unfolding merge_components_def by (rule component_unique)
  have one: "w' = w" if m: "(w', l) \<in> set ?plan" for w'
  proof -
    obtain k' where "(l, k') \<in> set ?comps" "oldest_contact sid (xc_contacts d) ?comps k' = Some w'"
      using m unfolding merge_plan_iff by blast
    then show ?thesis using unique [OF k(1)] k(2) by auto
  qed
  have "l \<notin> fst ` set ?plan"
  proof
    assume "l \<in> fst ` set ?plan"
    then obtain l' where "(l, l') \<in> set ?plan" by auto
    then obtain k' where k': "oldest_contact sid (xc_contacts d) ?comps k' = Some l" unfolding merge_plan_iff by blast
    then have "k' = k" using oldest_contact_Some [OF k'] unique [OF k(1)] by blast
    then show False using k' k(2,3) by simp
  qed
  then show "(sid, w) \<in> contact_keys d \<and> (sid, l) \<in> contact_keys d \<and> l \<notin> fst ` set ?plan \<and> (\<forall>w'. (w', l) \<in> set ?plan \<longrightarrow> w' = w)"
    using oldest_contact_Some [OF k(2)] k(4) one by (simp add: contact_keys_def)
qed

lemma merged_into_winner:
  assumes "l \<in> snd ` set plan"
  shows "(merged_into plan l, l) \<in> set plan"
proof -
  obtain p where "find_by snd l plan = Some p" using assms find_by_None [of snd l plan] by (cases "find_by snd l plan") auto
  then show ?thesis using find_by_Some [of snd l plan p] by (cases p) (simp add: merged_into_def)
qed

lemma set_winners: "set (winners plan) = fst ` set plan"
  by (simp add: winners_def)

section \<open>Applying a plan\<close>

lemma find_by_delete_other: "(\<And>r. P r \<Longrightarrow> key r \<noteq> k) \<Longrightarrow> find_by key k (sql_delete P rows) = find_by key k rows"
  unfolding sql_delete_def by (induction rows) auto

lemma merged_names_contacts:
  assumes "x \<in> set (merged_names sid plan now names)"
  shows "kn_session x = sid \<and> kn_contact x \<in> fst ` set plan"
proof -
  obtain w src n where x: "w \<in> fst ` set plan" "best_of (group_names sid plan names (w, src)) = Some n"
    "x = n\<lparr>kn_contact := w, kn_updated_at := now\<rparr>"
    using assms by (auto simp: merged_names_def set_map_filter winners_def)
  let ?ns = "filter (\<lambda>n. cname_rank n = Max (cname_rank ` set (group_names sid plan names (w, src)))) (group_names sid plan names (w, src))"
  obtain ys where "sort_key (\<lambda>n. (kn_contact n, kn_value n)) ?ns = n # ys"
    using x(2) by (auto simp: best_of_def split: if_splits list.splits)
  then have "n \<in> set (sort_key (\<lambda>n. (kn_contact n, kn_value n)) ?ns)" by simp
  then have "kn_session n = sid" by (simp add: group_names_def)
  then show ?thesis using x by simp
qed

lemma merge_names_inv:
  assumes inv: "store_inv fanout {} {} {} d" and plan: "plan_ok sid plan d"
  shows "store_inv fanout (Pair sid ` (fst ` set plan \<union> snd ` set plan)) {} {} (merge_names sid plan now d)"
proof -
  let ?K = "Pair sid ` fst ` set plan" and ?L = "Pair sid ` snd ` set plan" and ?xs = "merged_names sid plan now (xc_names d)"
  let ?d = "d\<lparr>xc_names := fold (merge_name now) ?xs (xc_names d)\<rparr>"
  have "store_inv fanout ({} \<union> ?K) {} {} ?d"
    by (rule store_inv_fold_names [OF inv])
      (use plan in \<open>auto dest: merged_names_contacts intro: store_inv_merge_name simp: plan_ok_def\<close>)
  then have d: "store_inv fanout ?K {} {} ?d" by simp
  have "store_inv fanout (?K \<union> ?L) {} {} (?d\<lparr>xc_names := sql_delete (\<lambda>n. kn_session n = sid \<and> kn_contact n \<in> snd ` set plan) (xc_names ?d)\<rparr>)"
  proof (rule store_inv_names [OF d])
    show "keyed cname_key (sql_delete (\<lambda>n. kn_session n = sid \<and> kn_contact n \<in> snd ` set plan) (xc_names ?d))"
      using d by (auto simp: store_inv_def keys_ok_def)
    show "(kn_session n, kn_contact n) \<in> contact_keys ?d"
      if "n \<in> set (sql_delete (\<lambda>n. kn_session n = sid \<and> kn_contact n \<in> snd ` set plan) (xc_names ?d))" for n
    proof -
      have "(kn_session n, kn_contact n) \<in> refers ?d" using that refersI(2) [of n ?d] by simp
      then show ?thesis using d by (auto simp: store_inv_def)
    qed
    show "name_of s c src (sql_delete (\<lambda>n. kn_session n = sid \<and> kn_contact n \<in> snd ` set plan) (xc_names ?d)) = name_of s c src (xc_names ?d)"
      if "(s, c) \<notin> ?L" for s c src
      unfolding name_of_def by (rule arg_cong [OF find_by_delete_other]) (use that in \<open>auto simp: cname_key_def\<close>)
  qed
  then show ?thesis by (simp add: merge_names_def image_Un)
qed

lemma move_identifiers_inv:
  assumes inv: "store_inv fanout S T M d" and plan: "plan_ok sid plan d"
  shows "store_inv fanout S T M (move_identifiers sid plan now d)"
  unfolding move_identifiers_def
proof (rule store_inv_identifiers [OF inv])
  show "(ki_session i', ki_contact i') \<in> contact_keys d"
    if "sql_where (\<lambda>i. ki_session i = sid \<and> ki_contact i \<in> snd ` set plan)
      (\<lambda>i. i\<lparr>ki_contact := merged_into plan (ki_contact i), ki_updated_at := now\<rparr>) i = Some i'" for i i'
  proof -
    have "ki_session i' = sid" "(ki_contact i', ki_contact i) \<in> set plan" using that merged_into_winner by auto
    then show ?thesis using plan by (auto simp: plan_ok_def)
  qed
qed (auto simp: ident_key_def)

lemma move_members_inv:
  assumes inv: "store_inv fanout S {} {} d" and plan: "plan_ok sid plan d"
  shows "store_inv fanout S (Pair sid ` fst ` set plan) {} (move_members sid plan now d)"
  unfolding move_members_def
proof (rule store_inv_members [OF inv])
  let ?f = "sql_where (\<lambda>m. mb_session m = sid \<and> mb_contact m \<in> Some ` snd ` set plan)
      (\<lambda>m. m\<lparr>mb_contact := map_option (merged_into plan) (mb_contact m), mb_updated_at := now\<rparr>)"
  have moved: "mb_session m' = sid \<and> (\<exists>l. mb_contact m' = Some (merged_into plan l) \<and> (merged_into plan l, l) \<in> set plan)"
    if "?f m = Some m'" for m m'
    using that merged_into_winner by auto
  show "member_key m' = member_key m" if "?f m = Some m'" for m m' using that by (auto simp: member_key_def)
  show "(mb_session m', cid) \<in> contact_keys d" if "?f m = Some m'" "mb_contact m' = Some cid" for m m' cid
    using moved [OF that(1)] that(2) plan by (auto simp: plan_ok_def)
  show "member_fresh c (row_after ?f m)"
    if h: "fanout" "m \<in> set (xc_members d)" "c \<in> set (xc_contacts d)" "belongs (row_after ?f m) c" "contact_key c \<notin> Pair sid ` fst ` set plan"
    for m c
  proof (cases "?f m")
    case None
    then have "row_after ?f m = m" by (simp only: row_after_def option.case)
    then show ?thesis using h inv by (simp add: store_inv_def)
  next
    case (Some m')
    then have b: "belongs m' c" using h(4) by (simp only: row_after_def option.case)
    obtain l where l: "mb_contact m' = Some (merged_into plan l)" "(merged_into plan l, l) \<in> set plan" "mb_session m' = sid"
      using moved [OF Some] by blast
    then have "contact_key c = Pair sid (fst (merged_into plan l, l))" using b by (simp add: belongs_def contact_key_def)
    also have "\<dots> \<in> Pair sid ` fst ` set plan" using l(2) by (intro imageI)
    finally show ?thesis using h(5) by blast
  qed
qed

text \<open>After the names, identifiers and members nothing refers to a loser.\<close>

lemma nothing_refers_to_losers:
  assumes plan: "plan_ok sid plan d"
  shows "Pair sid ` snd ` set plan \<inter> refers (move_members sid plan now (move_identifiers sid plan now (merge_names sid plan now d))) = {}"
proof -
  let ?d = "move_members sid plan now (move_identifiers sid plan now (merge_names sid plan now d))"
  have winner: "merged_into plan l \<notin> snd ` set plan" if l: "l \<in> snd ` set plan" for l
  proof
    assume "merged_into plan l \<in> snd ` set plan"
    then obtain w where "(w, merged_into plan l) \<in> set plan" by auto
    then have "merged_into plan l \<notin> fst ` set plan" using plan unfolding plan_ok_def by blast
    then show False using imageI [OF merged_into_winner [OF l], of fst] by simp
  qed
  have "ki_contact i \<notin> snd ` set plan" if i: "i \<in> set (xc_identifiers ?d)" "ki_session i = sid" for i
  proof -
    obtain i0 where "i = row_after (sql_where (\<lambda>i. ki_session i = sid \<and> ki_contact i \<in> snd ` set plan)
        (\<lambda>i. i\<lparr>ki_contact := merged_into plan (ki_contact i), ki_updated_at := now\<rparr>)) i0"
      using i(1) by (auto simp: move_members_def move_identifiers_def set_sql_update_after)
    then show ?thesis using i(2) winner [of "ki_contact i0"]
      by (cases "ki_session i0 = sid \<and> ki_contact i0 \<in> snd ` set plan") (simp_all add: row_after_def sql_where_def)
  qed
  moreover have "kn_contact n \<notin> snd ` set plan" if "n \<in> set (xc_names ?d)" "kn_session n = sid" for n
    using that by (auto simp: move_members_def move_identifiers_def merge_names_def)
  moreover have "c \<notin> snd ` set plan" if m: "m \<in> set (xc_members ?d)" "mb_session m = sid" "mb_contact m = Some c" for m c
  proof -
    obtain m0 where m0: "m = row_after (sql_where (\<lambda>m. mb_session m = sid \<and> mb_contact m \<in> Some ` snd ` set plan)
        (\<lambda>m. m\<lparr>mb_contact := map_option (merged_into plan) (mb_contact m), mb_updated_at := now\<rparr>)) m0"
      using m(1) by (auto simp: move_members_def set_sql_update_after)
    show ?thesis
    proof (cases "mb_session m0 = sid \<and> mb_contact m0 \<in> Some ` snd ` set plan")
      case True
      then obtain l where "mb_contact m0 = Some l" "l \<in> snd ` set plan" by blast
      then show ?thesis using m(3) m0 True winner [of l] by (simp add: row_after_def sql_where_def)
    next
      case False
      then have "m = m0" using m0 by (simp only: row_after_def sql_where_def if_False option.case)
      then show ?thesis using False m(2,3) by (metis imageI)
    qed
  qed
  ultimately show ?thesis unfolding refers_def by blast
qed

lemma merge_contacts_inv:
  assumes inv: "store_inv fanout S T M d" and free: "Pair sid ` snd ` set plan \<inter> refers d = {}"
  shows "store_inv fanout S T M (merge_contacts sid plan now d)
    \<and> contact_keys (merge_contacts sid plan now d) = contact_keys d - Pair sid ` snd ` set plan"
proof -
  let ?f = "sql_where (\<lambda>c :: contact. kc_session c = sid \<and> kc_id c \<in> set (winners plan))
        (\<lambda>c. let g = group_contacts sid plan (xc_contacts d) (kc_id c) in
           c\<lparr>kc_first_observed_at := Min (kc_first_observed_at ` set g),
             kc_last_observed_at := Max (kc_last_observed_at ` set g), kc_updated_at := now\<rparr>)"
  let ?d = "d\<lparr>xc_contacts := sql_update ?f (xc_contacts d)\<rparr>"
  have key: "contact_key (row_after ?f c) = contact_key c" for c :: contact
    by (simp add: row_after_def sql_where_def contact_key_def Let_def)
  have "store_inv fanout (S - {}) (T \<union> {}) M ?d"
    by (rule store_inv_contacts [OF inv])
      (auto simp: row_after_def sql_where_def contact_key_def Let_def split: if_splits)
  then have d: "store_inv fanout S T M ?d" by simp
  have keys: "contact_key ` set (xc_contacts ?d) = contact_keys d"
    by (simp add: contact_keys_def set_sql_update_after image_image key)
  have "store_inv fanout S T M (?d\<lparr>xc_contacts := sql_delete (\<lambda>c. kc_session c = sid \<and> kc_id c \<in> snd ` set plan) (xc_contacts ?d)\<rparr>)"
  proof (rule store_inv_delete_contacts [OF d])
    fix c :: contact assume "kc_session c = sid \<and> kc_id c \<in> snd ` set plan"
    then have "contact_key c \<in> Pair sid ` snd ` set plan" by (simp add: contact_key_def)
    moreover have "refers ?d = refers d" by (simp add: refers_def)
    ultimately show "contact_key c \<notin> refers ?d" using free by blast
  qed
  moreover have "contact_keys (?d\<lparr>xc_contacts := sql_delete (\<lambda>c. kc_session c = sid \<and> kc_id c \<in> snd ` set plan) (xc_contacts ?d)\<rparr>)
      = contact_keys d - Pair sid ` snd ` set plan"
    unfolding keys [symmetric] by (auto simp: contact_keys_def contact_key_def)
  ultimately show ?thesis by (simp add: merge_contacts_def)
qed

lemma refresh_winners_inv:
  assumes inv: "store_inv fanout S T M d"
  shows "store_inv fanout (S - Pair sid ` cids) (T \<union> Pair sid ` cids) M (refresh_winners sid cids now d)
    \<and> contact_keys (refresh_winners sid cids now d) = contact_keys d"
proof -
  let ?f = "sql_where (\<lambda>c :: contact. kc_session c = sid \<and> kc_id c \<in> cids) (\<lambda>c. c\<lparr>kc_name := fst (shown_name (xc_names d) c),
     kc_source := snd (shown_name (xc_names d) c), kc_updated_at := now\<rparr>)"
  have after: "row_after ?f c = (if kc_session c = sid \<and> kc_id c \<in> cids then c\<lparr>kc_name := fst (shown_name (xc_names d) c),
     kc_source := snd (shown_name (xc_names d) c), kc_updated_at := now\<rparr> else c)" for c :: contact
    by (simp add: row_after_def sql_where_def)
  have "store_inv fanout (S - Pair sid ` cids) (T \<union> Pair sid ` cids) M (d\<lparr>xc_contacts := sql_update ?f (xc_contacts d)\<rparr>)"
  proof (rule store_inv_contacts [OF inv])
    show "contact_fresh d (row_after ?f c)" if "contact_key c \<in> Pair sid ` cids" for c
      using that unfolding after by (auto simp: contact_key_def contact_fresh_def shown_name_def)
    show "kc_name (row_after ?f c) = kc_name c \<and> kc_source (row_after ?f c) = kc_source c" if "contact_key c \<notin> Pair sid ` cids" for c
      using that unfolding after by (auto simp: contact_key_def)
  qed (auto simp: contact_key_def)
  moreover have "contact_key ` row_after ?f ` set (xc_contacts d) = contact_key ` set (xc_contacts d)"
    unfolding image_image by (rule image_cong) (simp_all add: after contact_key_def)
  then have "contact_keys (d\<lparr>xc_contacts := sql_update ?f (xc_contacts d)\<rparr>) = contact_keys d"
    by (simp add: contact_keys_def set_sql_update_after)
  ultimately show ?thesis by (simp add: refresh_winners_def)
qed

text \<open>What is excepted but not there does not matter.\<close>

lemma store_inv_gone:
  assumes "store_inv fanout S {} {} d" "S \<inter> contact_keys d = {}"
  shows "store_inv fanout {} {} {} d"
  using assms by (auto simp: store_inv_def contact_keys_def)

lemma apply_merge_inv:
  assumes inv: "store_inv fanout {} {} {} d" and plan: "plan_ok sid plan d"
  shows "store_inv fanout {} {} {} (fst (apply_merge fanout sid plan now d))"
proof -
  let ?W = "Pair sid ` fst ` set plan" and ?L = "Pair sid ` snd ` set plan"
  define d1 where "d1 = merge_names sid plan now d"
  define d2 where "d2 = move_identifiers sid plan now d1"
  define d3 where "d3 = move_members sid plan now d2"
  define d4 where "d4 = merge_contacts sid plan now d3"
  define d5 where "d5 = refresh_winners sid (set (winners plan)) now d4"
  have keys: "contact_keys d3 = contact_keys d" "contact_keys d2 = contact_keys d" "contact_keys d1 = contact_keys d"
    by (simp_all add: contact_keys_def d3_def d2_def d1_def move_members_def move_identifiers_def merge_names_def)
  then have plans: "plan_ok sid plan d1" "plan_ok sid plan d2" using plan by (simp_all add: plan_ok_def)
  have "store_inv fanout (?W \<union> ?L) {} {} d1" using merge_names_inv [OF inv plan] by (simp add: d1_def image_Un)
  then have "store_inv fanout (?W \<union> ?L) {} {} d2" unfolding d2_def by (rule move_identifiers_inv [OF _ plans(1)])
  then have "store_inv fanout (?W \<union> ?L) ?W {} d3" unfolding d3_def by (rule move_members_inv [OF _ plans(2)])
  moreover have "?L \<inter> refers d3 = {}" unfolding d3_def d2_def d1_def by (rule nothing_refers_to_losers [OF plan])
  ultimately have i4: "store_inv fanout (?W \<union> ?L) ?W {} d4" "contact_keys d4 = contact_keys d - ?L"
    using merge_contacts_inv [of fanout "?W \<union> ?L" ?W "{}" d3 sid plan now] keys(1) by (simp_all add: d4_def)
  have "store_inv fanout (?W \<union> ?L - ?W) (?W \<union> ?W) {} d5 \<and> contact_keys d5 = contact_keys d4"
    using refresh_winners_inv [OF i4(1), where sid = sid and cids = "set (winners plan)" and now = now]
    unfolding d5_def set_winners .
  then have i5: "store_inv fanout (?W \<union> ?L - ?W) ?W {} d5" "contact_keys d5 = contact_keys d - ?L" using i4(2) by simp_all
  let ?d = "fst (refresh_members fanout sid (set (winners plan)) now d5)"
  have "store_inv fanout (?W \<union> ?L - ?W) (?W - ?W) {} ?d"
    using store_inv_refresh_members [OF i5(1), where sid = sid and cids = "set (winners plan)" and now = now] unfolding set_winners .
  moreover have "contact_keys ?d = contact_keys d5" by (simp add: refresh_members_def Let_def contact_keys_def)
  ultimately have "store_inv fanout {} {} {} ?d" using i5(2) by (intro store_inv_gone [of fanout "?W \<union> ?L - ?W"]) auto
  then show ?thesis by (simp add: apply_merge_def Let_def d1_def d2_def d3_def d4_def d5_def)
qed

lemma reconcile_inv:
  assumes "store_inv fanout {} {} {} d" "reconcile_identities fanout sid generation t now d = Inr (d', m)"
  shows "store_inv fanout {} {} {} d'"
proof -
  obtain d1 where d1: "renew_snapshot sid generation t now d = Inr d1"
    and d': "d' = (let d2 = fst (apply_merge fanout sid (merge_plan sid generation d1) now d1) in
       d2\<lparr>xc_evidence := sql_delete (\<lambda>e. ie_session e = sid \<and> ie_generation e \<le> generation) (xc_evidence d2)\<rparr>)"
    using assms(2) by (auto simp: reconcile_identities_def Let_def case_prod_unfold)
  have "store_inv fanout {} {} {} d1" using d1 assms(1) by (auto simp: renew_snapshot_def Let_def store_inv_other split: if_splits)
  then show ?thesis using apply_merge_inv merge_plan_ok unfolding d' Let_def store_inv_other by blast
qed

end
