(* ===== verification/Contact_Consistency.thy ===== *)
theory Contact_Consistency
  imports Contact_Merges Contact_Numbers
begin

text \<open>
  The transactions of Contact_Store and Contact_Snapshots keep the invariant of Contact_Invariants: each of
  their statements keeps it up to the exceptions that the statements after it remove.
\<close>

section \<open>Repeated statements\<close>

lemma store_inv_creates:
  assumes "store_inv fanout S T M d"
  shows "store_inv fanout S T M (fold (\<lambda>r. create_contact sid now (f r)) rs d)
    \<and> contact_keys d \<union> (\<lambda>r. (sid, f r)) ` set rs \<subseteq> contact_keys (fold (\<lambda>r. create_contact sid now (f r)) rs d)"
  using assms
proof (induction rs arbitrary: d)
  case (Cons r rs)
  let ?d = "create_contact sid now (f r) d"
  have d: "store_inv fanout S T M ?d" "(sid, f r) \<in> contact_keys ?d" "contact_keys d \<subseteq> contact_keys ?d"
    using store_inv_create [OF Cons.prems] by auto
  show ?case using Cons.IH [OF d(1)] d(2,3) by auto
qed simp

text \<open>Statements that insert or touch identifiers one after the other.\<close>

lemma store_inv_fold_identifiers:
  assumes "store_inv fanout S T M d"
    and "\<And>x e. x \<in> set xs \<Longrightarrow> store_inv fanout S T M e \<Longrightarrow> contact_keys e = contact_keys d
      \<Longrightarrow> f x e = e \<or> (\<exists>i. f x e = upsert_identifier i now e \<and> (ki_session i, ki_contact i) \<in> contact_keys e)"
  shows "store_inv fanout S T M (fold f xs d) \<and> contact_keys (fold f xs d) = contact_keys d"
  using assms
proof (induction xs arbitrary: d)
  case (Cons x xs)
  have step: "store_inv fanout S T M (f x d) \<and> contact_keys (f x d) = contact_keys d"
  proof -
    consider "f x d = d" | i where "f x d = upsert_identifier i now d" "(ki_session i, ki_contact i) \<in> contact_keys d"
      using Cons.prems(2) [of x d] Cons.prems(1) by auto
    then show ?thesis
    proof cases
      case (2 i)
      then show ?thesis using store_inv_upsert_identifier [OF Cons.prems(1) 2(2)] by simp
    qed (use Cons.prems(1) in simp)
  qed
  have "store_inv fanout S T M (fold f xs (f x d)) \<and> contact_keys (fold f xs (f x d)) = contact_keys (f x d)"
    by (rule Cons.IH) (use step Cons.prems(2) in auto)
  then show ?case using step by simp
qed simp

text \<open>The contact of an identifier is there.\<close>

lemma contact_of_known:
  assumes "store_inv fanout S T M d" "contact_of sid typ val (xc_identifiers d) = Some c"
  shows "(sid, c) \<in> contact_keys d"
proof -
  obtain i where "i \<in> set (xc_identifiers d)" "ident_key i = (sid, typ, val)" "ki_contact i = c"
    using assms(2) by (auto simp: contact_of_def dest: find_by_Some)
  then have "(sid, c) \<in> refers d" using refersI(1) by (fastforce simp: ident_key_def)
  then show ?thesis using assms(1) by (auto simp: store_inv_def)
qed

text \<open>What identifiers are there is not lost.\<close>

lemma ident_keys_upsert:
  "ident_key ` set (xc_identifiers (upsert_identifier i now d)) = insert (ident_key i) (ident_key ` set (xc_identifiers d))"
proof -
  have "ident_key ` set (sql_update (touch_identifiers P now) is) = ident_key ` set is" for P "is"
    unfolding set_sql_update_after image_image
    by (rule image_cong) (auto simp: touch_identifiers_def row_after_def sql_where_def ident_key_def)
  then show ?thesis by (auto simp: upsert_identifier_def)
qed

lemma store_inv_touch:
  assumes "store_inv fanout S T M d"
  shows "store_inv fanout S T M (d\<lparr>xc_identifiers := sql_update (touch_identifiers P now) (xc_identifiers d)\<rparr>)"
proof (rule store_inv_identifiers [OF assms])
  show "(ki_session i', ki_contact i') \<in> contact_keys d"
    if "i \<in> set (xc_identifiers d)" "touch_identifiers P now i = Some i'" for i i'
    using that refersI(1) assms by (fastforce simp: touch_identifiers_def store_inv_def)
qed (auto simp: touch_identifiers_def ident_key_def)

text \<open>Members whose contact and names do not change.\<close>

lemma store_inv_member_columns:
  assumes inv: "store_inv fanout S T M d"
    and f: "\<And>m m'. f m = Some m' \<Longrightarrow> member_key m' = member_key m \<and> mb_contact m' = mb_contact m \<and> mb_name m' = mb_name m
      \<and> mb_name_source m' = mb_name_source m \<and> mb_participant_name m' = mb_participant_name m"
  shows "store_inv fanout S T M (d\<lparr>xc_members := sql_update f (xc_members d)\<rparr>)"
proof (rule store_inv_members [OF inv])
  have after: "member_key (row_after f m) = member_key m \<and> mb_contact (row_after f m) = mb_contact m \<and> mb_name (row_after f m) = mb_name m
      \<and> mb_name_source (row_after f m) = mb_name_source m \<and> mb_participant_name (row_after f m) = mb_participant_name m" for m
    using f by (simp add: row_after_def split: option.split)
  show "member_key m' = member_key m" if "f m = Some m'" for m m' using f [OF that] by simp
  show "(mb_session m', cid) \<in> contact_keys d" if "m \<in> set (xc_members d)" "f m = Some m'" "mb_contact m' = Some cid" for m m' cid
    using refersI(3) [OF that(1), of cid] f [OF that(2)] that(3) inv by (auto simp: store_inv_def member_key_def)
  show "member_fresh c (row_after f m)"
    if "fanout" "m \<in> set (xc_members d)" "c \<in> set (xc_contacts d)" "belongs (row_after f m) c" "contact_key c \<notin> T" "member_key m \<notin> M" for m c
  proof -
    have "belongs m c" using that(4) after [of m] by (simp add: belongs_def member_key_def)
    then have "member_fresh c m" using inv that by (simp add: store_inv_def)
    then show ?thesis using after [of m] by (simp add: member_fresh_def member_shows_def)
  qed
qed

section \<open>Snapshots and their pages\<close>

abbreviation consistent :: "bool \<Rightarrow> contact_store \<Rightarrow> bool" where
  "consistent fanout \<equiv> store_inv fanout {} {} {}"

lemma consistent_generations: "store_inv fanout S T M (on_generations f d) = store_inv fanout S T M d"
  by (simp add: on_generations_def on_known_def store_inv_other)

lemma consistent_begin:
  assumes "consistent fanout d" "begin_snapshot staging retention sid force t now d = (d', r)"
  shows "consistent fanout d'"
proof -
  have drop: "consistent fanout (drop_generations P e)" if "consistent fanout e" for P e
  proof -
    let ?f = "\<lambda>keys. sql_where (\<lambda>m. refers_to_run keys (mb_session m) (mb_shadow_run m)) (\<lambda>m. m\<lparr>mb_shadow_run := None\<rparr>)"
    have "consistent fanout (e\<lparr>xc_members := sql_update (?f keys) (xc_members e)\<rparr>)" for keys
      by (rule store_inv_member_columns [OF that]) (auto simp: member_key_def)
    then show ?thesis unfolding drop_generations_def Let_def
      by (simp add: store_inv_def keys_ok_def refers_def contact_keys_def contact_fresh_def)
  qed
  show ?thesis using assms
    by (auto simp: begin_snapshot_def Let_def consistent_generations store_inv_other drop split: prod.splits option.splits if_splits)
qed

lemma consistent_complete:
  assumes "consistent fanout d" "complete_snapshot staging evidence ids sid generation t records interval now d = Inr d'"
  shows "consistent fanout d'"
  using assms by (auto simp: complete_snapshot_def complete_state_def Let_def consistent_generations on_known_def store_inv_other
    split: if_splits)

lemma consistent_fail: "consistent fanout d \<Longrightarrow> consistent fanout (fail_snapshot staging sid generation t code now d)"
proof -
  assume "consistent fanout d"
  then have "consistent fanout (if staging then on_generations g d else d)" for g by (simp add: consistent_generations)
  then show ?thesis unfolding fail_snapshot_def Let_def
    by (simp add: store_inv_def keys_ok_def refers_def contact_keys_def contact_fresh_def)
qed

lemma matched_contacts:
  assumes "consistent fanout d"
  shows "Pair sid ` snd ` set (matched_rows sid rows d) \<subseteq> contact_keys d"
  using contact_of_known [OF assms] by (auto simp: matched_rows_def set_map_filter)

lemma consistent_create_missing:
  assumes inv: "consistent fanout d"
  shows "consistent fanout (create_missing sid now missing d)"
proof -
  let ?d = "fold (\<lambda>r. create_contact sid now (pg_candidate r)) missing d"
  have d: "consistent fanout ?d" "(\<lambda>r. (sid, pg_candidate r)) ` set missing \<subseteq> contact_keys ?d"
    using store_inv_creates [OF inv, where f = pg_candidate and rs = missing and sid = sid and now = now] by auto
  have "consistent fanout (fold (\<lambda>r. upsert_identifier (new_identifier sid (pg_candidate r) (pg_type r) (pg_value r) M_OPENWA_CONTACT now)
      now) missing ?d) \<and> contact_keys (fold (\<lambda>r. upsert_identifier (new_identifier sid (pg_candidate r) (pg_type r) (pg_value r)
      M_OPENWA_CONTACT now) now) missing ?d) = contact_keys ?d"
    by (rule store_inv_fold_identifiers [where now = now, OF d(1)], intro disjI2 exI conjI, rule refl)
      (use d(2) in \<open>auto simp: new_identifier_def\<close>)
  then show ?thesis unfolding create_missing_def by simp
qed

lemma consistent_touch_matched:
  assumes "consistent fanout d"
  shows "consistent fanout (touch_matched sid now matched d)"
proof -
  let ?f = "sql_where (\<lambda>c. kc_session c = sid \<and> kc_id c \<in> snd ` set matched) (\<lambda>c. c\<lparr>kc_last_observed_at := now, kc_updated_at := now\<rparr>)"
  have "store_inv fanout ({} - {}) ({} \<union> {}) {} (d\<lparr>xc_contacts := sql_update ?f (xc_contacts d)\<rparr>)"
    by (rule store_inv_contacts [OF assms]) (auto simp: contact_key_def row_after_def sql_where_def split: if_splits)
  then have "consistent fanout (d\<lparr>xc_contacts := sql_update ?f (xc_contacts d)\<rparr>)" by simp
  from store_inv_touch [OF this] show ?thesis by (simp add: touch_matched_def)
qed

lemma touch_matched_keys: "contact_keys (touch_matched sid now matched d) = contact_keys d"
  unfolding contact_keys_def touch_matched_def by (simp add: set_sql_update_after image_image)
    (rule image_cong, auto simp: row_after_def sql_where_def contact_key_def)

lemma consistent_claims:
  assumes inv: "consistent fanout d" and known: "Pair sid ` snd ` set matched \<subseteq> contact_keys d"
  shows "consistent fanout (fold (claim_phone sid now) (phone_claims matched) d)
    \<and> contact_keys (fold (claim_phone sid now) (phone_claims matched) d) = contact_keys d"
proof (rule store_inv_fold_identifiers [OF inv])
  fix p e
  assume p: "p \<in> set (phone_claims matched)" and e: "consistent fanout e" "contact_keys e = contact_keys d"
  have sub: "set (distinct_on key xs) \<subseteq> set xs" for key :: "'x \<Rightarrow> 'k" and xs
  proof
    fix x assume "x \<in> set (distinct_on key xs)"
    then show "x \<in> set xs"
      using mem_fold_insert_new [where mk = "\<lambda>x. x" and key = key and ps = xs and rows = "[]" and x = x] by (simp add: distinct_on_def)
  qed
  obtain phone r c where r: "p = (phone, r, c)" by (cases p)
  have "p \<in> set (List.map_filter (\<lambda>(r, c). map_option (\<lambda>p. (p, r, c)) (pg_phone r)) matched)"
    using subsetD [OF sub p [unfolded phone_claims_def]] by simp
  then have "(r, c) \<in> set matched" unfolding r set_map_filter by auto
  then have "snd (r, c) \<in> snd ` set matched" by (rule imageI)
  then have "(sid, c) \<in> contact_keys e" using subsetD [OF known imageI [where f = "Pair sid"]] by (simp add: e(2))
  then have "(sid, coalesce (contact_of sid PHONE phone (xc_identifiers e)) c) \<in> contact_keys e"
    using contact_of_known [OF e(1)] by (cases "contact_of sid PHONE phone (xc_identifiers e)") auto
  then show "claim_phone sid now p e = e
      \<or> (\<exists>i. claim_phone sid now p e = upsert_identifier i now e \<and> (ki_session i, ki_contact i) \<in> contact_keys e)"
    by (auto simp: r claim_phone_def new_identifier_def)
qed

lemma page_names_contacts:
  assumes "x \<in> set (page_names md5 sid generation now src tag name matched)"
  shows "(kn_session x, kn_contact x) \<in> Pair sid ` snd ` set matched"
proof -
  have sub: "set (distinct_on key xs) \<subseteq> set xs" for key :: "page_row \<times> uuid \<Rightarrow> uuid" and xs
  proof
    fix y assume "y \<in> set (distinct_on key xs)"
    then show "y \<in> set xs"
      using mem_fold_insert_new [where mk = "\<lambda>x. x" and key = key and ps = xs and rows = "[]" and x = y] by (simp add: distinct_on_def)
  qed
  obtain r c v where rc: "(r, c) \<in> set (distinct_on snd (sort_key (\<lambda>(r, c). pg_value r) (filter (\<lambda>(r, c). name r \<noteq> None) matched)))"
    and x: "kn_session x = sid" "kn_contact x = c"
    using assms by (auto simp: page_names_def set_map_filter new_name_def)
  have "(r, c) \<in> set matched" using subsetD [OF sub rc] by simp
  then have "snd (r, c) \<in> snd ` set matched" by (rule imageI)
  then show ?thesis by (simp add: x)
qed

lemma consistent_ingest_names:
  assumes "consistent fanout d" and known: "Pair sid ` snd ` set matched \<subseteq> contact_keys d"
  shows "store_inv fanout (Pair sid ` snd ` set matched) {} {} (ingest_names md5 sid generation now matched d)"
proof -
  have "store_inv fanout ({} \<union> Pair sid ` snd ` set matched) {} {} (ingest_names md5 sid generation now matched d)"
    unfolding ingest_names_def
    by (rule store_inv_fold_names [OF assms(1) _ known]) (auto dest: page_names_contacts intro: store_inv_upsert_name)
  then show ?thesis by simp
qed

lemma consistent_refresh:
  assumes "store_inv fanout (Pair sid ` cids) {} {} d"
  shows "consistent fanout (fst (refresh_members fanout sid cids now (refresh_contacts sid cids now d)))"
  using store_inv_refresh_members [OF store_inv_refresh_contacts [OF assms, where sid = sid and cids = cids and now = now],
    where sid = sid and cids = cids and now = now] by simp

lemma consistent_page:
  assumes inv: "consistent fanout d"
    and ok: "ingest_observed_page staging fanout md5 fresh sid generation t cs now d = Inr (d', observed, enriched)"
  shows "consistent fanout d'"
proof (cases "cs = []")
  case False
  let ?rows = "page_rows fresh cs"
  obtain d1 d2 d3 where d1: "renew_snapshot sid generation t now d = Inr d1"
    and d2: "stage_page staging md5 sid generation now ?rows d1 = Inr d2"
    and d3: "record_evidence sid generation ?rows (create_missing sid now (missing_rows sid ?rows d2) d2) = Inr d3"
    and d': "d' = (let matched = matched_rows sid ?rows d3; cids = snd ` set matched in
        fst (refresh_members fanout sid cids now (refresh_contacts sid cids now (ingest_names md5 sid generation now matched
          (fold (claim_phone sid now) (phone_claims matched) (touch_matched sid now matched d3))))))"
    using ok False by (auto simp: ingest_observed_page_def ingest_rows_def Let_def case_prod_unfold)
  have "consistent fanout d1" using d1 inv by (auto simp: renew_snapshot_def Let_def store_inv_other split: if_splits)
  then have "consistent fanout d2" using d2 by (auto simp: stage_page_def Let_def store_inv_other split: if_splits)
  then have i3: "consistent fanout d3" using d3 consistent_create_missing
    by (auto simp: record_evidence_def Let_def store_inv_other split: if_splits)
  define matched where "matched = matched_rows sid ?rows d3"
  have known: "Pair sid ` snd ` set matched \<subseteq> contact_keys (touch_matched sid now matched d3)"
    using matched_contacts [OF i3] by (simp add: matched_def touch_matched_keys)
  have claims: "consistent fanout (fold (claim_phone sid now) (phone_claims matched) (touch_matched sid now matched d3))"
    "Pair sid ` snd ` set matched \<subseteq> contact_keys (fold (claim_phone sid now) (phone_claims matched) (touch_matched sid now matched d3))"
    using consistent_claims [OF consistent_touch_matched [OF i3] known, where now = now] known by auto
  show ?thesis unfolding d' Let_def matched_def [symmetric]
    by (rule consistent_refresh) (rule consistent_ingest_names [OF claims])
qed (use ok inv in \<open>simp add: ingest_observed_page_def\<close>)

section \<open>Senders\<close>

lemma consistent_sender:
  assumes inv: "consistent fanout d" and w: "wr_fanout w = fanout"
    and r: "observe_message_sender w md5 ids candidate sid raw raw_name observed key now d = (d', b)"
  shows "consistent fanout d'"
proof -
  define i where "i = normalize_contact_identity raw"
  define known where "known = contact_of sid (ni_type i) (ni_value i) (xc_identifiers d)"
  define cid where "cid = coalesce known candidate"
  define d0 where "d0 = (if known = None then create_contact sid now candidate d else d)"
  define d1 where "d1 = upsert_identifier (new_identifier sid cid (ni_type i) (ni_value i) M_MESSAGE_IDENTITY now) now d0"
  have i0: "consistent fanout d0 \<and> (sid, cid) \<in> contact_keys d0"
  proof (cases known)
    case None
    then show ?thesis using store_inv_create [OF inv] by (simp add: d0_def cid_def)
  next
    case (Some c)
    then show ?thesis using contact_of_known [OF inv] inv by (simp add: d0_def cid_def known_def)
  qed
  have i1: "consistent fanout d1" "(sid, cid) \<in> contact_keys d1"
    using store_inv_upsert_identifier [where i = "new_identifier sid cid (ni_type i) (ni_value i) M_MESSAGE_IDENTITY now" and now = now,
      OF conjunct1 [OF i0]] i0 by (simp_all add: d1_def new_identifier_def)
  show ?thesis
  proof (cases "normalize_contact_name raw_name i = None \<or> ni_type i \<notin> {LID, PHONE_JID}")
    case True
    then show ?thesis using r inv by (auto simp: observe_message_sender_def i_def [symmetric] Let_def split: option.splits)
  next
    case False
    then obtain name where name: "normalize_contact_name raw_name i = Some name" "ni_type i \<in> {LID, PHONE_JID}" by auto
    define d2 where "d2 = d1\<lparr>xc_known := observe_push_name (wr_enabled w) (wr_projection w) md5 ids sid
       \<lparr>ei_type = ni_type i, ei_value = ni_value i, ei_phone = ni_phone i, ei_participant = [], ei_name = None\<rparr>
       name observed key now (xc_known d1)\<rparr>"
    have i2: "consistent fanout d2" "(sid, cid) \<in> contact_keys d2" using i1 by (simp_all add: d2_def store_inv_other contact_keys_def)
    define x where "x = new_name sid cid OPENWA_PUSH_NAME name observed key now"
    define d3 where "d3 = d2\<lparr>xc_names := upsert_name x now (xc_names d2)\<rparr>"
    define f where "f = sql_where (\<lambda>c. contact_key c = (sid, cid)) (\<lambda>c. c\<lparr>kc_name := fst (shown_name (xc_names d3) c),
       kc_source := snd (shown_name (xc_names d3) c), kc_last_observed_at := now, kc_updated_at := now\<rparr>)"
    define d4 where "d4 = d3\<lparr>xc_contacts := sql_update f (xc_contacts d3)\<rparr>"
    have d': "d' = d2 \<or> d' = fst (refresh_members fanout sid {cid} now d4)"
      using r name unfolding observe_message_sender_def i_def [symmetric] Let_def known_def [symmetric] cid_def [symmetric]
        d0_def [symmetric] d1_def [symmetric] name(1) option.case d2_def [symmetric] x_def [symmetric] d3_def [symmetric]
        f_def [symmetric] d4_def [symmetric] w by (auto split: if_splits)
    have "store_inv fanout (insert (kn_session x, kn_contact x) {}) {} {} d3"
      unfolding d3_def by (rule store_inv_upsert_name [OF i2(1)]) (use i2(2) in \<open>simp add: x_def new_name_def\<close>)
    then have "store_inv fanout {(sid, cid)} {} {} d3" by (simp add: x_def new_name_def)
    then have "store_inv fanout ({(sid, cid)} - {(sid, cid)}) ({} \<union> {(sid, cid)}) {} d4"
      unfolding d4_def
    proof (rule store_inv_contacts)
      show "contact_fresh d3 (row_after f c)" if "contact_key c \<in> {(sid, cid)}" for c
      proof -
        have "row_after f c = c\<lparr>kc_name := fst (shown_name (xc_names d3) c), kc_source := snd (shown_name (xc_names d3) c),
            kc_last_observed_at := now, kc_updated_at := now\<rparr>" using that by (simp add: f_def row_after_def sql_where_def)
        then show ?thesis by (simp add: contact_fresh_def shown_name_def)
      qed
    qed (auto simp: f_def row_after_def sql_where_def contact_key_def split: if_splits)
    then have "store_inv fanout {} {(sid, cid)} {} d4" by simp
    from store_inv_refresh_members [OF this, where sid = sid and cids = "{cid}" and now = now] show ?thesis using d' i2(1) by auto
  qed
qed

section \<open>Members of groups\<close>

lemma store_inv_new_member:
  assumes inv: "store_inv fanout S T M d" and "mb_contact m = None" "member_key m \<notin> member_key ` set (xc_members d)"
  shows "store_inv fanout S T M (d\<lparr>xc_members := xc_members d @ [m]\<rparr>)"
proof -
  have "refers (d\<lparr>xc_members := xc_members d @ [m]\<rparr>) = refers d" using assms(2) by (auto simp: refers_def)
  moreover have "contact_keys (d\<lparr>xc_members := xc_members d @ [m]\<rparr>) = contact_keys d" by (simp add: contact_keys_def)
  ultimately show ?thesis using assms by (auto simp: store_inv_def keys_ok_def contact_fresh_def belongs_def)
qed

lemma store_inv_delete_members:
  assumes "store_inv fanout S T M d"
  shows "store_inv fanout S T M (d\<lparr>xc_members := sql_delete P (xc_members d)\<rparr>)"
proof -
  have "refers (d\<lparr>xc_members := sql_delete P (xc_members d)\<rparr>) \<subseteq> refers d" by (auto simp: refers_def)
  moreover have "contact_keys (d\<lparr>xc_members := sql_delete P (xc_members d)\<rparr>) = contact_keys d" by (simp add: contact_keys_def)
  ultimately show ?thesis using assms by (auto simp: store_inv_def keys_ok_def contact_fresh_def)
qed

lemma participant_row_key: "participant_row sid gid now p m = Some m' \<Longrightarrow> member_key m' = member_key m"
  by (auto simp: participant_row_def member_key_def)

lemma store_inv_upsert_member:
  assumes inv: "store_inv fanout S T M d"
    and M: "participant_changed sid gid (xc_members d) p \<Longrightarrow> (sid, gid, gp_id p) \<in> M"
  shows "store_inv fanout S T M (d\<lparr>xc_members := upsert_member sid gid now p (xc_members d)\<rparr>)"
proof (cases "(sid, gid, gp_id p) \<in> member_key ` set (xc_members d)")
  case False
  then show ?thesis using store_inv_new_member [OF inv, of "new_member sid gid now p"]
    by (simp add: upsert_member_def new_member_def member_key_def)
next
  case True
  let ?f = "participant_row sid gid now p"
  have keyed: "keyed member_key (xc_members d)" using inv by (simp add: store_inv_def keys_ok_def)
  have "store_inv fanout S T M (d\<lparr>xc_members := sql_update ?f (xc_members d)\<rparr>)"
  proof (rule store_inv_members [OF inv])
    show "member_key m' = member_key m" if "?f m = Some m'" for m m' using that by (rule participant_row_key)
    show "(mb_session m', cid) \<in> contact_keys d"
      if "m \<in> set (xc_members d)" "?f m = Some m'" "mb_contact m' = Some cid" for m m' cid
      using that refersI(3) [OF that(1), of cid] inv by (auto simp: participant_row_def store_inv_def)
    show "member_fresh c (row_after ?f m)"
      if h: "fanout" "m \<in> set (xc_members d)" "c \<in> set (xc_contacts d)" "belongs (row_after ?f m) c" "contact_key c \<notin> T"
        "member_key m \<notin> M" for m c
    proof (cases "?f m")
      case None
      then show ?thesis using h inv by (simp add: row_after_def store_inv_def)
    next
      case (Some m')
      then have m: "member_key m = (sid, gid, gp_id p)" "participant_columns m \<noteq> (gp_number p, gp_name p, gp_is_admin p, gp_is_super_admin p)"
        by (auto simp: participant_row_def)
      then have "participant_changed sid gid (xc_members d) p"
        using find_by_keyed [OF keyed h(2)] by (simp add: participant_changed_def)
      then show ?thesis using M h(6) m(1) by simp
    qed
  qed
  then show ?thesis using True by (simp add: upsert_member_def)
qed

lemma participant_changed_other:
  assumes "gp_id q \<noteq> gp_id p"
  shows "participant_changed sid gid (upsert_member sid gid now p rows) q = participant_changed sid gid rows q"
proof -
  have "find_by member_key (sid, gid, gp_id q) (sql_update (participant_row sid gid now p) rows) =
      map_option (\<lambda>m. case participant_row sid gid now p m of None \<Rightarrow> m | Some m' \<Rightarrow> m') (find_by member_key (sid, gid, gp_id q) rows)"
    by (rule find_by_sql_update) (rule participant_row_key)
  moreover have "participant_row sid gid now p m = None" if "find_by member_key (sid, gid, gp_id q) rows = Some m" for m
    using find_by_Some [OF that] assms by (auto simp: participant_row_def sql_where_def)
  ultimately have "find_by member_key (sid, gid, gp_id q) (sql_update (participant_row sid gid now p) rows)
      = find_by member_key (sid, gid, gp_id q) rows"
    by (cases "find_by member_key (sid, gid, gp_id q) rows") simp_all
  then have "find_by member_key (sid, gid, gp_id q) (upsert_member sid gid now p rows) = find_by member_key (sid, gid, gp_id q) rows"
    using assms by (auto simp: upsert_member_def find_by_append new_member_def member_key_def split: option.split)
  then show ?thesis by (simp add: participant_changed_def)
qed

lemma store_inv_upsert_members:
  assumes "store_inv fanout S T M d" "distinct (map gp_id ps)"
    and "\<And>p. p \<in> set ps \<Longrightarrow> participant_changed sid gid (xc_members d) p \<Longrightarrow> (sid, gid, gp_id p) \<in> M"
  shows "store_inv fanout S T M (d\<lparr>xc_members := fold (upsert_member sid gid now) ps (xc_members d)\<rparr>)"
  using assms
proof (induction ps arbitrary: d)
  case (Cons p ps)
  let ?d = "d\<lparr>xc_members := upsert_member sid gid now p (xc_members d)\<rparr>"
  have step: "store_inv fanout S T M ?d" by (rule store_inv_upsert_member [OF Cons.prems(1)]) (use Cons.prems(3) in simp)
  have "(sid, gid, gp_id q) \<in> M" if q: "q \<in> set ps" "participant_changed sid gid (xc_members ?d) q" for q
  proof -
    have "gp_id q \<noteq> gp_id p" using Cons.prems(2) q(1) by (auto simp: image_iff)
    then show ?thesis using Cons.prems(3) q by (simp add: participant_changed_other)
  qed
  then show ?case using Cons.IH [OF step] Cons.prems(2) by simp
qed simp

text \<open>Every input of a seeding has an identifier.\<close>

lemma distinct_on_key: "x \<in> set xs \<Longrightarrow> key x \<in> key ` set (distinct_on key xs)"
  using fold_insert_new_key [where mk = "\<lambda>x. x" and key = key and ps = xs and rows = "[]" and p = x] by (simp add: distinct_on_def)

lemma ident_keys_fold:
  assumes "\<And>x e. x \<in> set xs \<Longrightarrow> ident_key ` set (xc_identifiers e) \<subseteq> ident_key ` set (xc_identifiers (f x e))"
  shows "ident_key ` set (xc_identifiers d) \<subseteq> ident_key ` set (xc_identifiers (fold f xs d))"
  using assms
proof (induction xs arbitrary: d)
  case (Cons x xs)
  have "ident_key ` set (xc_identifiers (f x d)) \<subseteq> ident_key ` set (xc_identifiers (fold f xs (f x d)))"
    by (rule Cons.IH) (use Cons.prems in simp)
  then show ?case using Cons.prems [of x d] by simp
qed simp

lemma ident_keys_fold_upsert:
  "ident_key ` set (xc_identifiers (fold (\<lambda>x. upsert_identifier (f x) now) xs d))
     = ident_key ` set (xc_identifiers d) \<union> ident_key ` f ` set xs"
  by (induction xs arbitrary: d) (auto simp: ident_keys_upsert)

lemma create_fold_identifiers: "xc_identifiers (fold (\<lambda>i. create_contact sid now (f i)) xs d) = xc_identifiers d"
  by (induction xs arbitrary: d) (simp_all add: create_contact_def)

lemma seed_contacts_known:
  assumes "i \<in> set inputs"
  shows "(sid, input_identity i) \<in> ident_key ` set (xc_identifiers (seed_contacts fresh sid inputs now d))"
proof (cases "contact_of sid (ei_type i) (ei_value i) (xc_identifiers d)")
  case None
  then have "input_identity i \<in> input_identity ` set (seed_missing sid inputs d)"
    unfolding seed_missing_def by (intro distinct_on_key) (use assms in simp)
  then have "(sid, input_identity i) \<in> ident_key ` (\<lambda>i. new_identifier sid (fresh (input_identity i)) (ei_type i) (ei_value i)
      M_GROUP_PARTICIPANT now) ` set (seed_missing sid inputs d)"
    by (auto simp: image_image ident_key_def new_identifier_def input_identity_def)
  then show ?thesis unfolding seed_contacts_def Let_def ident_keys_fold_upsert by simp
next
  case (Some c)
  then obtain x where "x \<in> set (xc_identifiers d)" "ident_key x = (sid, input_identity i)"
    by (auto simp: contact_of_def input_identity_def dest: find_by_Some)
  then have "(sid, input_identity i) \<in> ident_key ` set (xc_identifiers d)" by force
  then show ?thesis unfolding seed_contacts_def Let_def ident_keys_fold_upsert create_fold_identifiers by simp
qed

text \<open>The identifiers of a seeding, before the member rows.\<close>

lemma store_inv_seed_contacts:
  assumes inv: "store_inv fanout S T M d"
  shows "store_inv fanout S T M (seed_contacts fresh sid inputs now d)"
proof -
  let ?missing = "seed_missing sid inputs d"
  let ?d = "fold (\<lambda>i. create_contact sid now (fresh (input_identity i))) ?missing d"
  let ?f = "\<lambda>i. new_identifier sid (fresh (input_identity i)) (ei_type i) (ei_value i) M_GROUP_PARTICIPANT now"
  have d: "store_inv fanout S T M ?d" "(\<lambda>i. (sid, fresh (input_identity i))) ` set ?missing \<subseteq> contact_keys ?d"
    using store_inv_creates [OF inv, where f = "\<lambda>i. fresh (input_identity i)" and rs = ?missing and sid = sid and now = now] by auto
  have "store_inv fanout S T M (fold (\<lambda>i. upsert_identifier (?f i) now) ?missing ?d)
      \<and> contact_keys (fold (\<lambda>i. upsert_identifier (?f i) now) ?missing ?d) = contact_keys ?d"
    by (rule store_inv_fold_identifiers [where now = now, OF d(1)], intro disjI2 exI conjI, rule refl)
      (use d(2) in \<open>auto simp: new_identifier_def\<close>)
  then show ?thesis by (simp add: seed_contacts_def Let_def)
qed

lemma store_inv_seed_identifiers:
  assumes inv: "store_inv fanout S T M d"
  shows "store_inv fanout S T M (seed_identifiers sid inputs now d)"
proof -
  have "store_inv fanout S T M (fold (seed_phone sid now) inputs e) \<and> contact_keys (fold (seed_phone sid now) inputs e) = contact_keys e"
    if "store_inv fanout S T M e" for e
  proof (rule store_inv_fold_identifiers [where now = now, OF that])
    fix i e'
    assume e': "store_inv fanout S T M e'"
    show "seed_phone sid now i e' = e'
        \<or> (\<exists>x. seed_phone sid now i e' = upsert_identifier x now e' \<and> (ki_session x, ki_contact x) \<in> contact_keys e')"
      using contact_of_known [OF e'] by (auto simp: seed_phone_def new_identifier_def split: option.splits)
  qed
  from this [OF store_inv_touch [OF inv]] show ?thesis unfolding seed_identifiers_def by blast
qed

lemma seed_identifiers_keys: "ident_key ` set (xc_identifiers d) \<subseteq> ident_key ` set (xc_identifiers (seed_identifiers sid inputs now d))"
proof -
  let ?d = "d\<lparr>xc_identifiers := sql_update (touch_identifiers (\<lambda>i. ident_key i \<in> Pair sid ` input_identity ` set inputs) now)
      (xc_identifiers d)\<rparr>"
  have "ident_key ` set (xc_identifiers ?d) = ident_key ` set (xc_identifiers d)"
    unfolding contact_store.select_convs contact_store.update_convs
    by (simp add: set_sql_update_after image_image, rule image_cong)
      (auto simp: touch_identifiers_def row_after_def sql_where_def ident_key_def)
  moreover have "ident_key ` set (xc_identifiers e) \<subseteq> ident_key ` set (xc_identifiers (seed_phone sid now i e))" for i e
    by (auto simp: seed_phone_def ident_keys_upsert split: option.split)
  ultimately show ?thesis using ident_keys_fold [of inputs "seed_phone sid now" ?d] unfolding seed_identifiers_def by auto
qed

lemma seed_member_row_Some:
  assumes "seed_member_row fanout sid gid inputs now d m = Some m'"
  obtains i c known where "mb_session m = sid" "c \<in> set (xc_contacts d)" "kc_session c = sid" "m' = seeded fanout c known i now m"
  using assms by (auto simp: seed_member_row_def Let_def contact_key_def split: if_splits option.splits bind_splits dest!: find_by_Some)

lemma seeded_fields:
  "member_key (seeded fanout c known i now m) = member_key m" "mb_contact (seeded fanout c known i now m) = Some (kc_id c)"
  "fanout \<Longrightarrow> member_fresh c (seeded fanout c known i now m)"
  by (auto simp: seeded_def Let_def show_member_def member_key_def member_fresh_def member_shows_def)

lemma consistent_seed_members:
  assumes inv: "store_inv fanout {} {} M d" and w: "wr_fanout w = fanout"
    and M: "M \<subseteq> (\<lambda>p. (sid, gid, gp_id p)) ` set ps"
  shows "consistent fanout (seed_group_members w md5 ids fresh sid gid ps now d)"
proof (cases "ps = []")
  case True
  then show ?thesis using inv M by (simp add: seed_group_members_def)
next
  case False
  define inputs where "inputs = map seed_input ps"
  define d1 where "d1 = d\<lparr>xc_known := observe_group_members (wr_enabled w) (wr_projection w) md5 ids sid gid inputs now (xc_known d)\<rparr>"
  define d2 where "d2 = seed_identifiers sid inputs now (seed_contacts fresh sid inputs now d1)"
  have "store_inv fanout {} {} M d1" using inv by (simp add: d1_def store_inv_other)
  then have i2: "store_inv fanout {} {} M d2" unfolding d2_def by (intro store_inv_seed_identifiers store_inv_seed_contacts)
  have known: "contact_of sid (ei_type i) (ei_value i) (xc_identifiers d2) \<noteq> None" if "i \<in> set inputs" for i
    using seed_contacts_known [OF that, of sid fresh now d1] seed_identifiers_keys [of "seed_contacts fresh sid inputs now d1" sid inputs now]
    by (auto simp: d2_def contact_of_def input_identity_def find_by_None)
  have keyed: "keyed contact_key (xc_contacts d2)" using i2 by (simp add: store_inv_def keys_ok_def)
  let ?f = "seed_member_row fanout sid gid inputs now d2"
  have "store_inv fanout {} {} {} (d2\<lparr>xc_members := sql_update ?f (xc_members d2)\<rparr>)"
  proof (rule store_inv_members [OF i2])
    show "member_key m' = member_key m" if "?f m = Some m'" for m m'
      using that by (rule seed_member_row_Some) (simp add: seeded_fields)
    show "(mb_session m', cid) \<in> contact_keys d2" if f: "?f m = Some m'" and cid: "mb_contact m' = Some cid" for m m' cid
    proof (rule seed_member_row_Some [OF f])
      fix i c k
      assume "mb_session m = sid" "c \<in> set (xc_contacts d2)" "kc_session c = sid" "m' = seeded fanout c k i now m"
      then show ?thesis using cid seeded_fields(1,2) [of fanout c k i now m]
        by (force simp: contact_keys_def contact_key_def member_key_def)
    qed
    show "member_fresh c (row_after ?f m)"
      if h: "fanout" "m \<in> set (xc_members d2)" "c \<in> set (xc_contacts d2)" "belongs (row_after ?f m) c" for m c
    proof (cases "?f m")
      case (Some m')
      show ?thesis
      proof (rule seed_member_row_Some [OF Some])
        fix i c' k
        assume c': "mb_session m = sid" "c' \<in> set (xc_contacts d2)" "kc_session c' = sid" and m': "m' = seeded fanout c' k i now m"
        have "contact_key c = contact_key c'"
          using h(4) Some c' seeded_fields(1,2) [of fanout c' k i now m]
          by (simp add: m' belongs_def row_after_def contact_key_def member_key_def)
        then have "c = c'" using keyed_inj [OF keyed h(3) c'(2)] by blast
        then show ?thesis using Some seeded_fields(3) [OF h(1)] by (simp add: m' row_after_def)
      qed
    next
      case None
      then have b: "belongs m c" using h(4) by (simp add: row_after_def)
      have "member_fresh c m"
      proof (cases "member_key m \<in> M")
        case True
        then obtain p where p: "p \<in> set ps" "mb_session m = sid" "mb_group m = gid" "mb_participant m = gp_id p"
          using M by (auto simp: member_key_def)
        then have "find_by ei_participant (mb_participant m) inputs \<noteq> None"
          by (auto simp: find_by_None inputs_def seed_input_def Let_def image_image)
        then obtain i where i: "find_by ei_participant (mb_participant m) inputs = Some i" by auto
        then obtain cid where cid: "contact_of sid (ei_type i) (ei_value i) (xc_identifiers d2) = Some cid"
          using known [of i] find_by_Some [OF i] by auto
        then have "(sid, cid) \<in> contact_keys d2" by (rule contact_of_known [OF i2])
        then obtain c' where c': "find_by contact_key (sid, cid) (xc_contacts d2) = Some c'"
          using find_by_None [of contact_key "(sid, cid)" "xc_contacts d2"]
          by (cases "find_by contact_key (sid, cid) (xc_contacts d2)") (auto simp: contact_keys_def)
        define m' where "m' = seeded fanout c' (map_option ob_id (identity_of sid (ei_type i) (ei_value i) (xc_known d2))) i now m"
        have same: "seeded_columns m' = seeded_columns m"
          using None p(2,3) i cid c' by (simp add: seed_member_row_def m'_def Let_def split: if_splits)
        then have "mb_contact m = Some (kc_id c')" using seeded_fields(2) by (simp add: seeded_columns_def m'_def)
        then have "contact_key c = contact_key c'"
          using b find_by_Some [OF c'] p(2) by (simp add: belongs_def contact_key_def)
        then have "c = c'" using keyed_inj [OF keyed h(3)] find_by_Some [OF c'] by blast
        then have "member_fresh c m'" using seeded_fields(3) [OF h(1)] by (simp add: m'_def)
        moreover have "mb_name m' = mb_name m" "mb_name_source m' = mb_name_source m" "mb_participant_name m' = mb_participant_name m"
          using same by (simp_all add: seeded_columns_def)
        ultimately show ?thesis by (simp only: member_fresh_def member_shows_def)
      qed (use i2 h b in \<open>simp add: store_inv_def\<close>)
      then show ?thesis using None by (simp add: row_after_def)
    qed
  qed
  then show ?thesis using False w unfolding seed_group_members_def Let_def inputs_def [symmetric] d1_def [symmetric] d2_def [symmetric]
    by simp
qed

lemma consistent_replace:
  assumes inv: "consistent fanout d" and "wr_fanout w = fanout" "distinct (map gp_id ps)"
  shows "consistent fanout (replace_members w md5 ids fresh sid gid ps now d)"
proof -
  let ?changed = "filter (participant_changed sid gid (xc_members d)) ps" and ?M = "(\<lambda>p. (sid, gid, gp_id p)) `
      set (filter (participant_changed sid gid (xc_members d)) ps)"
  have "store_inv fanout {} {} ?M d" by (rule store_inv_mono [OF inv]) simp_all
  then have "store_inv fanout {} {} ?M (d\<lparr>xc_members := fold (upsert_member sid gid now) ps (xc_members d)\<rparr>)"
    by (rule store_inv_upsert_members) (use assms(3) in auto)
  then have "consistent fanout (seed_group_members w md5 ids fresh sid gid ?changed now
      (d\<lparr>xc_members := fold (upsert_member sid gid now) ps (xc_members d)\<rparr>))"
    by (rule consistent_seed_members) (use assms(2) in simp_all)
  from store_inv_delete_members [OF this] show ?thesis by (simp add: replace_members_def Let_def)
qed

section \<open>Every sequence of transactions\<close>

lemma consistent_step:
  assumes "contact_step fanout md5 t d d'" "consistent fanout d"
  shows "consistent fanout d'"
  using assms
proof cases
  case (merged sid generation now m)
  then show ?thesis using reconcile_inv assms(2) by blast
qed (use assms(2) in \<open>auto intro: consistent_begin consistent_page consistent_complete consistent_fail consistent_sender
    consistent_replace\<close>)

definition contact_steps :: "bool \<Rightarrow> (string \<Rightarrow> string) \<Rightarrow> contact_store \<Rightarrow> contact_store \<Rightarrow> bool" where
  "contact_steps fanout md5 = rtranclp (\<lambda>d d'. \<exists>t. contact_step fanout md5 t d d')"

lemma consistent_steps:
  assumes "contact_steps fanout md5 d d'" "consistent fanout d"
  shows "consistent fanout d'"
  using assms(1) unfolding contact_steps_def
  by (induction rule: rtranclp_induct) (use assms(2) consistent_step in blast)+

lemma consistent_empty:
  "xc_contacts d = [] \<Longrightarrow> xc_identifiers d = [] \<Longrightarrow> xc_names d = [] \<Longrightarrow> xc_members d = [] \<Longrightarrow> consistent fanout d"
  by (simp add: store_inv_def keys_ok_def refers_def)

text \<open>C12: Whatever pages, merges, messages and group details came in whatever order: contacts, identifiers, names and
  members have unique keys, and each identifier, name and member belongs to a contact that is there. Each contact shows
  the name from the address book, else the push name, of the names it has. While members are kept in step, each member
  of a group with a contact shows the name of the address book, else its own name in the group, else the push name.\<close>

theorem contact_store_consistent:
  assumes "contact_steps fanout md5 d0 d"
    and "xc_contacts d0 = []" "xc_identifiers d0 = []" "xc_names d0 = []" "xc_members d0 = []"
  shows "distinct (map contact_key (xc_contacts d)) \<and> distinct (map ident_key (xc_identifiers d))
      \<and> distinct (map cname_key (xc_names d)) \<and> distinct (map member_key (xc_members d))
    \<and> (\<forall>i \<in> set (xc_identifiers d). (ki_session i, ki_contact i) \<in> contact_key ` set (xc_contacts d))
    \<and> (\<forall>n \<in> set (xc_names d). (kn_session n, kn_contact n) \<in> contact_key ` set (xc_contacts d))
    \<and> (\<forall>m \<in> set (xc_members d). \<forall>cid. mb_contact m = Some cid \<longrightarrow> (mb_session m, cid) \<in> contact_key ` set (xc_contacts d))
    \<and> (\<forall>c \<in> set (xc_contacts d). (kc_name c, kc_source c)
        = contact_projection (name_of (kc_session c) (kc_id c) OPENWA_CONTACT_NAME (xc_names d))
            (name_of (kc_session c) (kc_id c) OPENWA_PUSH_NAME (xc_names d)))
    \<and> (fanout \<longrightarrow> (\<forall>m \<in> set (xc_members d). \<forall>c \<in> set (xc_contacts d). mb_contact m = Some (kc_id c) \<and> mb_session m = kc_session c
        \<longrightarrow> (mb_name m, mb_name_source m) = member_projection (kc_name c) (kc_source c) (mb_participant_name m)))"
proof -
  have inv: "consistent fanout d" by (rule consistent_steps [OF assms(1) consistent_empty]) (use assms in simp_all)
  then have refs: "k \<in> contact_key ` set (xc_contacts d)" if "k \<in> refers d" for k
    using that by (auto simp: store_inv_def contact_keys_def)
  show ?thesis
  proof (intro conjI)
    show "fanout \<longrightarrow> (\<forall>m \<in> set (xc_members d). \<forall>c \<in> set (xc_contacts d). mb_contact m = Some (kc_id c) \<and> mb_session m = kc_session c
        \<longrightarrow> (mb_name m, mb_name_source m) = member_projection (kc_name c) (kc_source c) (mb_participant_name m))"
      using inv by (auto simp: store_inv_def belongs_def member_fresh_def member_shows_def)
  qed (use inv refs refersI in \<open>auto simp: store_inv_def keys_ok_def keyed_def contact_fresh_def shown_name_def\<close>)
qed

section \<open>A small history\<close>

text \<open>A member joins a group, then writes a message under another form of its identity.\<close>

definition empty_known :: contact_db where
  "empty_known = \<lparr>kd_identities = [], kd_links = [], kd_names = [], kd_generations = [], kd_runs = [], kd_clusters = [],
     kd_assignments = [], kd_conflicts = [], kd_work = [], kd_revision_seq = 0\<rparr>"

definition empty_store :: contact_store where
  "empty_store = \<lparr>xc_contacts = [], xc_identifiers = [], xc_names = [], xc_members = [], xc_evidence = [], xc_states = [],
     xc_staged = [], xc_known = empty_known\<rparr>"

definition sample_writer :: writer_config where
  "sample_writer = \<lparr>wr_enabled = True, wr_projection = False, wr_fanout = True\<rparr>"

definition sample_participant :: group_participant where
  "sample_participant = \<lparr>gp_id = ''49@c.us'', gp_number = ''49'', gp_name = None, gp_is_admin = False, gp_is_super_admin = False\<rparr>"

definition joined_store :: contact_store where
  "joined_store = replace_members sample_writer rev number_ids (\<lambda>p. ''c1'') ''s1'' ''g1'' [sample_participant] 2 empty_store"

definition greeted_store :: contact_store where
  "greeted_store = fst (observe_message_sender sample_writer rev number_ids ''c2'' ''s1'' ''49:3@s.whatsapp.net'' (Some ''Ann'') 4 ''k'' 5
     joined_store)"

lemma greeted_steps: "contact_steps True rev empty_store greeted_store"
  unfolding contact_steps_def
proof (rule rtranclp.rtrancl_into_rtrancl [OF r_into_rtranclp])
  show "\<exists>t. contact_step True rev t empty_store joined_store"
    by (intro exI contact_step.replaced [OF _ _ joined_store_def]) (simp_all add: sample_writer_def)
  show "\<exists>t. contact_step True rev t joined_store greeted_store"
    by (intro exI contact_step.observed [where w = sample_writer]) (simp add: sample_writer_def, simp add: greeted_store_def prod_eq_iff)
qed

lemma greeted_rows:
  "map (\<lambda>m. (mb_contact m, mb_name m)) (xc_members greeted_store) = [(Some ''c1'', Some ''Ann'')]"
  "map kc_id (xc_contacts greeted_store) = [''c1'']"
  by code_simp+

lemma contact_store_consistent_witness:
  "distinct (map contact_key (xc_contacts greeted_store)) \<and> map kc_id (xc_contacts greeted_store) = [''c1'']
   \<and> map (\<lambda>m. (mb_contact m, mb_name m)) (xc_members greeted_store) = [(Some ''c1'', Some ''Ann'')]"
  using contact_store_consistent [OF greeted_steps] greeted_rows by (simp add: empty_store_def)

end
