(* ===== verification/Contact_Joins.thy ===== *)
theory Contact_Joins
  imports Contact_Consistency
begin

text \<open>
  What a merge of Contact_Merges joins: the contacts that unambiguous evidence connects, and no others.
\<close>

abbreviation node :: "(uuid \<times> uuid) list \<Rightarrow> uuid \<Rightarrow> bool" where
  "node es n \<equiv> \<exists>m. (n, m) \<in> set (undirected es)"

lemma merge_components_iff:
  "(n, k) \<in> set (merge_components es) \<longleftrightarrow> (\<exists>root. node es root \<and> (root, n) \<in> (set (undirected es))\<^sup>*)
     \<and> k = Min {root. node es root \<and> (root, n) \<in> (set (undirected es))\<^sup>*}"
proof -
  have "root \<in> set (remdups (map fst (undirected es))) \<longleftrightarrow> node es root" for root by force
  then show ?thesis unfolding merge_components_def components_iff Bex_def by simp
qed

lemma undirected_converse: "(a, b) \<in> set (undirected es) \<Longrightarrow> (b, a) \<in> set (undirected es)"
  by (auto simp: undirected_def)

lemma merge_components_node:
  assumes "(n, k) \<in> set (merge_components es)"
  shows "node es n"
proof -
  obtain root where root: "node es root" "(root, n) \<in> (set (undirected es))\<^sup>*"
    using assms unfolding merge_components_iff by blast
  from root(2) show ?thesis
  proof (cases rule: rtranclE)
    case base
    then show ?thesis using root(1) by simp
  next
    case (step y)
    show ?thesis by (rule exI) (rule undirected_converse [OF step(2)])
  qed
qed

lemma node_component:
  assumes "node es n"
  shows "\<exists>k. (n, k) \<in> set (merge_components es)"
  using assms unfolding merge_components_iff by blast

lemma same_component:
  assumes "(a, k) \<in> set (merge_components es)"
  shows "(b, k) \<in> set (merge_components es) \<longleftrightarrow> (a, b) \<in> (set (undirected es))\<^sup>*"
proof
  let ?E = "(set (undirected es))\<^sup>*"
  let ?R = "\<lambda>n. {root. node es root \<and> (root, n) \<in> ?E}"
  have iff: "(n, k) \<in> set (merge_components es) \<longleftrightarrow> ?R n \<noteq> {} \<and> k = Min (?R n)" for n
    unfolding merge_components_iff by blast
  have fin: "finite (?R n)" for n
    by (rule finite_subset [of _ "fst ` set (undirected es)"]) force+
  have kn: "(k, n) \<in> ?E" if "(n, k) \<in> set (merge_components es)" for n
  proof -
    have "?R n \<noteq> {}" "k = Min (?R n)" using that unfolding iff by auto
    then have "k \<in> ?R n" using Min_in [OF fin] by simp
    then show ?thesis by simp
  qed
  {
    assume "(b, k) \<in> set (merge_components es)"
    then show "(a, b) \<in> ?E" using kn [OF assms] kn undirected_sym rtrancl_trans by metis
  next
    assume l: "(a, b) \<in> ?E"
    have "(root, a) \<in> ?E \<longleftrightarrow> (root, b) \<in> ?E" for root using l undirected_sym rtrancl_trans by metis
    then show "(b, k) \<in> set (merge_components es)" using assms unfolding iff by simp
  }
qed

text \<open>The contact that a contact becomes is the oldest of its component.\<close>

lemma oldest_is_merged_into:
  assumes k: "(a, k) \<in> set (merge_components (merge_edges sid generation d))" and "(sid, a) \<in> contact_keys d"
  shows "oldest_contact sid (xc_contacts d) (merge_components (merge_edges sid generation d)) k
    = Some (merged_into (merge_plan sid generation d) a)"
proof -
  let ?comps = "merge_components (merge_edges sid generation d)" and ?plan = "merge_plan sid generation d"
  obtain c where c: "c \<in> set (xc_contacts d)" "kc_session c = sid" "kc_id c = a"
    using assms(2) by (auto simp: contact_keys_def contact_key_def)
  then have "c \<in> set (sort_key (\<lambda>c. (kc_created_at c, kc_id c))
      (filter (\<lambda>c. kc_session c = sid \<and> (kc_id c, k) \<in> set ?comps) (xc_contacts d)))" using k by simp
  then obtain w where w: "oldest_contact sid (xc_contacts d) ?comps k = Some w"
    unfolding oldest_contact_def
    by (cases "sort_key (\<lambda>c. (kc_created_at c, kc_id c)) (filter (\<lambda>c. kc_session c = sid \<and> (kc_id c, k) \<in> set ?comps) (xc_contacts d))")
      (simp_all del: set_sort)
  show ?thesis
  proof (cases "a = w")
    case False
    then have "(w, a) \<in> set ?plan" using k w assms(2) unfolding merge_plan_iff by blast
    moreover have "a \<in> snd ` set ?plan" using imageI [OF calculation, of snd] by simp
    then have "(merged_into ?plan a, a) \<in> set ?plan" by (rule merged_into_winner)
    ultimately show ?thesis using merge_plan_ok [of sid generation d] w unfolding plan_ok_def by blast
  next
    case True
    have "a \<notin> snd ` set ?plan"
    proof
      assume "a \<in> snd ` set ?plan"
      then obtain w' k' where w': "(a, k') \<in> set ?comps" "oldest_contact sid (xc_contacts d) ?comps k' = Some w'" "a \<noteq> w'"
        by (auto simp: merge_plan_iff)
      have "k' = k" using component_unique k w'(1) unfolding merge_components_def by blast
      then show False using w' w True by simp
    qed
    then have "find_by snd a ?plan = None" by (simp add: find_by_None)
    then show ?thesis using w True by (simp add: merged_into_def)
  qed
qed

lemma merged_into_iff:
  assumes a: "(sid, a) \<in> contact_keys d" and b: "(sid, b) \<in> contact_keys d"
  shows "merged_into (merge_plan sid generation d) a = merged_into (merge_plan sid generation d) b
    \<longleftrightarrow> (a, b) \<in> (set (undirected (merge_edges sid generation d)))\<^sup>*"
proof -
  let ?es = "merge_edges sid generation d" and ?plan = "merge_plan sid generation d"
  have alone: "merged_into ?plan n = n" if n: "\<not> node ?es n" for n
  proof -
    have "(w, n) \<notin> set ?plan" for w using n merge_components_node unfolding merge_plan_iff by blast
    then have "n \<notin> snd ` set ?plan" by auto
    then have "find_by snd n ?plan = None" by (simp add: find_by_None)
    then show ?thesis by (simp add: merged_into_def)
  qed
  have oldest: "\<exists>k. (n, k) \<in> set (merge_components ?es) \<and> (merged_into ?plan n, k) \<in> set (merge_components ?es)
      \<and> oldest_contact sid (xc_contacts d) (merge_components ?es) k = Some (merged_into ?plan n)"
    if n: "node ?es n" "(sid, n) \<in> contact_keys d" for n
  proof -
    obtain k where k: "(n, k) \<in> set (merge_components ?es)" using node_component [OF n(1)] by blast
    then show ?thesis using oldest_is_merged_into [OF k n(2)] oldest_contact_Some by blast
  qed
  have linked_node: "node ?es n \<longleftrightarrow> node ?es n'" if "(n, n') \<in> (set (undirected ?es))\<^sup>*" "n \<noteq> n'" for n n'
    using that undirected_converse by (metis converse_rtranclE rtranclE)
  consider "node ?es a" "node ?es b" | "node ?es a" "\<not> node ?es b" | "\<not> node ?es a" "node ?es b" | "\<not> node ?es a" "\<not> node ?es b" by blast
  then show ?thesis
  proof cases
    case 1
    obtain k where k: "(a, k) \<in> set (merge_components ?es)" "(merged_into ?plan a, k) \<in> set (merge_components ?es)"
      "oldest_contact sid (xc_contacts d) (merge_components ?es) k = Some (merged_into ?plan a)" using oldest [OF 1(1) a] by blast
    obtain k' where k': "(b, k') \<in> set (merge_components ?es)" "(merged_into ?plan b, k') \<in> set (merge_components ?es)"
      "oldest_contact sid (xc_contacts d) (merge_components ?es) k' = Some (merged_into ?plan b)" using oldest [OF 1(2) b] by blast
    have unique: "(n, x) \<in> set (merge_components ?es) \<Longrightarrow> (n, y) \<in> set (merge_components ?es) \<Longrightarrow> x = y" for n x y
      unfolding merge_components_def by (rule component_unique)
    have "merged_into ?plan a = merged_into ?plan b \<longleftrightarrow> k = k'" using k k' unique by auto
    also have "\<dots> \<longleftrightarrow> (b, k) \<in> set (merge_components ?es)" using k'(1) unique by blast
    finally show ?thesis using same_component [OF k(1)] by simp
  next
    case 2
    then obtain k where "(merged_into ?plan a, k) \<in> set (merge_components ?es)" using oldest [OF 2(1) a] by blast
    then have "node ?es (merged_into ?plan a)" by (rule merge_components_node)
    then show ?thesis using 2 alone linked_node by metis
  next
    case 3
    then obtain k where "(merged_into ?plan b, k) \<in> set (merge_components ?es)" using oldest [OF 3(2) b] by blast
    then have "node ?es (merged_into ?plan b)" by (rule merge_components_node)
    then show ?thesis using 3 alone linked_node by metis
  next
    case 4
    then have "(a, b) \<in> (set (undirected ?es))\<^sup>* \<longleftrightarrow> a = b" by (metis converse_rtranclE rtrancl.rtrancl_refl)
    then show ?thesis using 4 alone by simp
  qed
qed

section \<open>Merging follows the evidence\<close>

lemma merged_identifiers:
  assumes "reconcile_identities fanout sid generation t now d = Inr (d', m)"
  shows "xc_identifiers d' = sql_update (sql_where (\<lambda>i. ki_session i = sid \<and> ki_contact i \<in> snd ` set (merge_plan sid generation d))
      (\<lambda>i. i\<lparr>ki_contact := merged_into (merge_plan sid generation d) (ki_contact i), ki_updated_at := now\<rparr>)) (xc_identifiers d)"
proof -
  obtain d1 where d1: "renew_snapshot sid generation t now d = Inr d1"
    and d': "xc_identifiers d' = xc_identifiers (fst (apply_merge fanout sid (merge_plan sid generation d1) now d1))"
    using assms by (auto simp: reconcile_identities_def Let_def case_prod_unfold)
  obtain ss where ss: "d1 = d\<lparr>xc_states := ss\<rparr>" using d1 by (auto simp: renew_snapshot_def Let_def split: if_splits)
  have plan: "merge_plan sid generation d1 = merge_plan sid generation d"
    by (simp add: ss merge_plan_def merge_edges_def evidence_of_def cong: option.case_cong)
  show ?thesis unfolding d' plan apply_merge_def Let_def
    by (simp add: ss refresh_members_def Let_def refresh_winners_def merge_contacts_def move_members_def move_identifiers_def merge_names_def)
qed

section \<open>A small merge\<close>

text \<open>A snapshot has seen that 9@lid has the number 49; the group has 49 and 9@lid.\<close>

definition told_store :: contact_store where
  "told_store = empty_store\<lparr>xc_states := [new_sync_state ''s1'' ''t1'' 1],
     xc_evidence := [\<lparr>ie_session = ''s1'', ie_generation = 1, ie_type = LID, ie_value = ''9@lid'', ie_phone = ''49''\<rparr>]\<rparr>"

definition paired_store :: contact_store where
  "paired_store = replace_members sample_writer rev number_ids snd ''s1'' ''g1''
     [sample_participant, sample_participant\<lparr>gp_id := ''9@lid'', gp_number := ''9@lid''\<rparr>] 2 told_store"

definition merged_store :: contact_store where
  "merged_store = fst (projr (reconcile_identities True ''s1'' 1 ''t1'' 3 paired_store))"

lemma paired_steps: "contact_steps True rev told_store paired_store"
  unfolding contact_steps_def
proof (rule r_into_rtranclp)
  show "\<exists>t. contact_step True rev t told_store paired_store"
    by (intro exI contact_step.replaced [OF _ _ paired_store_def]) (simp_all add: sample_writer_def sample_participant_def)
qed

lemma paired_merge: "\<exists>m. reconcile_identities True ''s1'' 1 ''t1'' 3 paired_store = Inr (merged_store, m)"
proof -
  have states: "xc_states paired_store = [new_sync_state ''s1'' ''t1'' 1]" by code_simp
  have "\<exists>d1. renew_snapshot ''s1'' 1 ''t1'' 3 paired_store = Inr d1"
    by (simp add: renew_snapshot_def renew_snapshot_row_def states sql_count_def owned_state_def new_sync_state_def
        minutes_def null_after_Some sql_where_def)
  then obtain d' m where "reconcile_identities True ''s1'' 1 ''t1'' 3 paired_store = Inr (d', m)"
    by (auto simp: reconcile_identities_def Let_def case_prod_unfold)
  then show ?thesis by (simp add: merged_store_def)
qed

definition paired_identifier :: "uuid \<Rightarrow> identity_type \<Rightarrow> string \<Rightarrow> contact_identifier" where
  "paired_identifier c typ v = new_identifier ''s1'' c typ v M_GROUP_PARTICIPANT 2"

section \<open>The evidence decides\<close>

text \<open>C13: After any history, a merge loses no identifier, and two identifiers of the session belong to the same contact
  after it exactly when their contacts were connected by evidence before: by the phone numbers of the snapshot that
  exactly one identity claims.\<close>

theorem merge_follows_evidence:
  assumes "contact_steps fanout md5 d0 d" and "xc_contacts d0 = []" "xc_identifiers d0 = []" "xc_names d0 = []" "xc_members d0 = []"
    and "reconcile_identities fanout sid generation t now d = Inr (d', m)"
    and "i \<in> set (xc_identifiers d)" "ki_session i = sid" "j \<in> set (xc_identifiers d)" "ki_session j = sid"
  shows "contact_of sid (ki_type i) (ki_value i) (xc_identifiers d') \<noteq> None
    \<and> (contact_of sid (ki_type i) (ki_value i) (xc_identifiers d') = contact_of sid (ki_type j) (ki_value j) (xc_identifiers d')
      \<longleftrightarrow> (ki_contact i, ki_contact j) \<in> (set (undirected (merge_edges sid generation d)))\<^sup>*)"
proof -
  let ?plan = "merge_plan sid generation d"
  have inv: "store_inv fanout {} {} {} d" by (rule consistent_steps [OF assms(1) consistent_empty]) (use assms(2-5) in simp_all)
  then have keyed: "keyed ident_key (xc_identifiers d)" by (simp add: store_inv_def keys_ok_def)
  have moved: "contact_of sid (ki_type x) (ki_value x) (xc_identifiers d') = Some (merged_into ?plan (ki_contact x))"
    if x: "x \<in> set (xc_identifiers d)" "ki_session x = sid" for x
  proof -
    have found: "find_by ident_key (sid, ki_type x, ki_value x) (xc_identifiers d) = Some x"
      using find_by_keyed [OF keyed x(1)] x(2) by (simp add: ident_key_def)
    have stays: "merged_into ?plan c = c" if c: "c \<notin> snd ` set ?plan" for c
    proof -
      have "find_by snd c ?plan = None" using c by (simp add: find_by_None)
      then show ?thesis by (simp add: merged_into_def)
    qed
    have "find_by ident_key (sid, ki_type x, ki_value x) (xc_identifiers d')
      = map_option (\<lambda>x. case sql_where (\<lambda>i. ki_session i = sid \<and> ki_contact i \<in> snd ` set ?plan)
          (\<lambda>i. i\<lparr>ki_contact := merged_into ?plan (ki_contact i), ki_updated_at := now\<rparr>) x of None \<Rightarrow> x | Some x' \<Rightarrow> x')
          (find_by ident_key (sid, ki_type x, ki_value x) (xc_identifiers d))"
      unfolding merged_identifiers [OF assms(6)] by (rule find_by_sql_update) (auto simp: ident_key_def)
    then show ?thesis using x(2) stays [of "ki_contact x"]
      by (cases "ki_contact x \<in> snd ` set ?plan") (simp_all add: found contact_of_def sql_where_def)
  qed
  have known: "(sid, ki_contact x) \<in> contact_keys d" if "x \<in> set (xc_identifiers d)" "ki_session x = sid" for x
    using refersI(1) [OF that(1)] that(2) inv by (auto simp: store_inv_def)
  show ?thesis using merged_into_iff [OF known [OF assms(7,8)] known [OF assms(9,10)]]
    by (simp add: moved [OF assms(7,8)] moved [OF assms(9,10)])
qed

theorem merge_follows_evidence_witness:
  "contact_of ''s1'' LID ''9@lid'' (xc_identifiers merged_store) = contact_of ''s1'' PHONE ''49'' (xc_identifiers merged_store)
    \<and> contact_of ''s1'' LID ''9@lid'' (xc_identifiers merged_store) \<noteq> None"
proof -
  obtain m where m: "reconcile_identities True ''s1'' 1 ''t1'' 3 paired_store = Inr (merged_store, m)" using paired_merge by blast
  let ?i = "paired_identifier ''9@lid'' LID ''9@lid''" and ?j = "paired_identifier ''49@c.us'' PHONE ''49''"
  have i: "?i \<in> set (xc_identifiers paired_store)" by code_simp
  have j: "?j \<in> set (xc_identifiers paired_store)" by code_simp
  have edge: "(''9@lid'', ''49@c.us'') \<in> set (undirected (merge_edges ''s1'' 1 paired_store))" by code_simp
  have "contact_of ''s1'' (ki_type ?i) (ki_value ?i) (xc_identifiers merged_store) \<noteq> None
    \<and> (contact_of ''s1'' (ki_type ?i) (ki_value ?i) (xc_identifiers merged_store)
        = contact_of ''s1'' (ki_type ?j) (ki_value ?j) (xc_identifiers merged_store)
      \<longleftrightarrow> (ki_contact ?i, ki_contact ?j) \<in> (set (undirected (merge_edges ''s1'' 1 paired_store)))\<^sup>*)"
    by (rule merge_follows_evidence [OF paired_steps _ _ _ _ m i _ j])
      (simp_all add: told_store_def empty_store_def paired_identifier_def new_identifier_def)
  then show ?thesis using r_into_rtrancl [OF edge] by (simp add: paired_identifier_def new_identifier_def del: not_None_eq) metis
qed

end
