(* ===== verification/Contact_Published.thy ===== *)
theory Contact_Published
  imports Contact_Consistency
begin

text \<open>
  A published snapshot is closed: the fence of generation, token and lease that each transaction of a snapshot
  passes keeps every later page, merge and end of another worker away from it.
\<close>

section \<open>Transactions that do not touch snapshots\<close>

definition snapshot_view ::
  "contact_store \<Rightarrow> contact_sync_state table \<times> staged_observation table \<times> snapshot_generation table" where
  "snapshot_view d = (xc_states d, xc_staged d, kd_generations (xc_known d))"

text \<open>A writer of evidence leaves the generations alone.\<close>

lemma fold_generations:
  "(\<And>x e. kd_generations (f x e) = kd_generations e) \<Longrightarrow> kd_generations (fold f xs d) = kd_generations d"
  by (induction xs arbitrary: d) simp_all

lemma writer_generations:
  "kd_generations (upsert_input_identities ids sid inputs now d) = kd_generations d"
  "kd_generations (insert_input_links md5 sid inputs now d) = kd_generations d"
  "kd_generations (enqueue_projection sid ns now d) = kd_generations d"
  unfolding upsert_input_identities_def insert_input_links_def enqueue_projection_def Let_def
  by (auto simp: fold_generations touch_identity_def insert_link_def request_work_def Let_def)

lemma evidence_generations:
  "kd_generations (observe_push_name enabled projection md5 ids sid i name observed key now d) = kd_generations d"
  "kd_generations (observe_group_members enabled projection md5 ids sid gid inputs now d) = kd_generations d"
  "kd_generations (publish_snapshot enabled ids sid generation staged now d) = kd_generations d"
  by (auto simp: observe_push_name_def observe_group_members_def publish_snapshot_def Let_def writer_generations insert_name_def
      insert_link_def see_identity_def fold_generations split: option.split prod.split)

lemma fold_view: "(\<And>x e. snapshot_view (f x e) = snapshot_view e) \<Longrightarrow> snapshot_view (fold f xs d) = snapshot_view d"
  by (induction xs arbitrary: d) simp_all

lemma store_views:
  "snapshot_view (create_contact sid now c d) = snapshot_view d"
  "snapshot_view (upsert_identifier i now d) = snapshot_view d"
  "snapshot_view (fst (refresh_members fanout sid cids now d)) = snapshot_view d"
  "snapshot_view (refresh_contacts sid cids now d) = snapshot_view d"
  "snapshot_view (claim_phone sid now p d) = snapshot_view d"
  "snapshot_view (seed_phone sid now i' d) = snapshot_view d"
  by (simp_all add: snapshot_view_def create_contact_def upsert_identifier_def refresh_members_def refresh_contacts_def Let_def
      claim_phone_def seed_phone_def split: prod.split option.split)

lemma sender_view:
  assumes "observe_message_sender w md5 ids candidate sid raw name observed key now d = (d', b)"
  shows "snapshot_view d' = snapshot_view d"
  using assms unfolding observe_message_sender_def Let_def
  by (auto simp: snapshot_view_def evidence_generations upsert_identifier_def create_contact_def refresh_members_def Let_def
      split: option.splits if_splits)

lemma replace_view: "snapshot_view (replace_members w md5 ids fresh sid gid ps now d) = snapshot_view d"
proof -
  have seed: "snapshot_view (seed_group_members w md5 ids fresh sid gid ps now d) = snapshot_view d" for ps d
  proof -
    have "snapshot_view (seed_contacts fresh sid inputs now d) = snapshot_view d" for inputs d
      unfolding seed_contacts_def Let_def by (simp add: fold_view store_views)
    moreover have "snapshot_view (seed_identifiers sid inputs now d) = snapshot_view d" for inputs d
      unfolding seed_identifiers_def by (simp add: fold_view store_views) (simp add: snapshot_view_def)
    ultimately have "snapshot_view (seed_identifiers sid inputs now (seed_contacts fresh sid inputs now d)) = snapshot_view d" for inputs d
      by simp
    then show ?thesis by (simp add: seed_group_members_def Let_def snapshot_view_def evidence_generations)
  qed
  then show ?thesis by (simp add: replace_members_def Let_def snapshot_view_def)
qed

lemma merge_view:
  assumes "renew_snapshot sid generation t now d = Inr d1"
    and "reconcile_identities fanout sid generation t now d = Inr (d', m)"
  shows "snapshot_view d' = snapshot_view d1"
  using assms(2) unfolding reconcile_identities_def assms(1) or_throw.simps Let_def case_prod_unfold
  by (auto simp: snapshot_view_def apply_merge_def Let_def refresh_members_def refresh_winners_def merge_contacts_def move_members_def
      move_identifiers_def merge_names_def)

lemma page_view:
  assumes "cs \<noteq> []" "ingest_observed_page staging fanout md5 fresh sid generation t cs now d = Inr (d', observed, enriched)"
  obtains d1 d2 where "renew_snapshot sid generation t now d = Inr d1"
    "stage_page staging md5 sid generation now (page_rows fresh cs) d1 = Inr d2" "snapshot_view d' = snapshot_view d2"
proof -
  let ?rows = "page_rows fresh cs"
  obtain d1 d2 d3 where d: "renew_snapshot sid generation t now d = Inr d1" "stage_page staging md5 sid generation now ?rows d1 = Inr d2"
    "record_evidence sid generation ?rows (create_missing sid now (missing_rows sid ?rows d2) d2) = Inr d3"
    and d': "d' = (let matched = matched_rows sid ?rows d3; cids = snd ` set matched in
        fst (refresh_members fanout sid cids now (refresh_contacts sid cids now (ingest_names md5 sid generation now matched
          (fold (claim_phone sid now) (phone_claims matched) (touch_matched sid now matched d3))))))"
    using assms by (auto simp: ingest_observed_page_def ingest_rows_def Let_def case_prod_unfold)
  have "snapshot_view (create_missing sid now missing d2) = snapshot_view d2" for missing
    by (simp add: create_missing_def fold_view store_views)
  then have "snapshot_view d3 = snapshot_view d2"
    using d(3) by (auto simp: record_evidence_def Let_def snapshot_view_def split: if_splits)
  moreover have "snapshot_view (ingest_names md5 sid generation now matched e) = snapshot_view e"
    "snapshot_view (touch_matched sid now matched e) = snapshot_view e" for matched e
    by (simp_all add: ingest_names_def touch_matched_def snapshot_view_def)
  ultimately have "snapshot_view d' = snapshot_view d2" unfolding d' Let_def store_views by (simp add: fold_view store_views)
  with d(1,2) show thesis by (rule that)
qed

section \<open>The invariant of snapshots\<close>

type_synonym snapshots = "contact_sync_state table \<times> staged_observation table \<times> snapshot_generation table"

definition published :: "snapshot_generation table \<Rightarrow> snapshot_generation \<Rightarrow> bool" where
  "published gs g \<longleftrightarrow> g \<in> set gs \<and> sn_state g = G_PUBLISHED"

text \<open>
  No snapshot is newer than the state of its session; one that is published has all its observations, and the
  lease under which it was read is gone.
\<close>

definition snapshots_ok :: "snapshots \<Rightarrow> bool" where
  "snapshots_ok v = (case v of (states, staged, gs) \<Rightarrow>
     keyed ks_session states \<and> keyed generation_key gs \<and> keyed staged_key staged
     \<and> (\<forall>g \<in> set gs. \<exists>s \<in> set states. ks_session s = sn_session g \<and> sn_generation g \<le> ks_generation s)
     \<and> (\<forall>x \<in> set staged. \<exists>s \<in> set states. ks_session s = st_session x \<and> st_generation x \<le> ks_generation s)
     \<and> (\<forall>g s. published gs g \<and> s \<in> set states \<and> ks_session s = sn_session g \<and> ks_generation s = sn_generation g
         \<longrightarrow> ks_lease_token s = None)
     \<and> (\<forall>g. published gs g \<longrightarrow> length (staged_of (sn_session g) (sn_generation g) staged) = sn_staged_count g))"

lemma snapshots_okI:
  assumes "keyed ks_session states" "keyed generation_key gs" "keyed staged_key staged"
    and "\<And>g. g \<in> set gs \<Longrightarrow> \<exists>s \<in> set states. ks_session s = sn_session g \<and> sn_generation g \<le> ks_generation s"
    and "\<And>x. x \<in> set staged \<Longrightarrow> \<exists>s \<in> set states. ks_session s = st_session x \<and> st_generation x \<le> ks_generation s"
    and "\<And>g s. published gs g \<Longrightarrow> s \<in> set states \<Longrightarrow> ks_session s = sn_session g \<Longrightarrow> ks_generation s = sn_generation g
      \<Longrightarrow> ks_lease_token s = None"
    and "\<And>g. published gs g \<Longrightarrow> length (staged_of (sn_session g) (sn_generation g) staged) = sn_staged_count g"
  shows "snapshots_ok (states, staged, gs)"
  using assms unfolding snapshots_ok_def prod.case by blast

lemma snapshots_okD:
  assumes "snapshots_ok (states, staged, gs)"
  shows "keyed ks_session states" "keyed generation_key gs" "keyed staged_key staged"
    and "g \<in> set gs \<Longrightarrow> \<exists>s \<in> set states. ks_session s = sn_session g \<and> sn_generation g \<le> ks_generation s"
    and "x \<in> set staged \<Longrightarrow> \<exists>s \<in> set states. ks_session s = st_session x \<and> st_generation x \<le> ks_generation s"
    and "published gs g \<Longrightarrow> s \<in> set states \<Longrightarrow> ks_session s = sn_session g \<Longrightarrow> ks_generation s = sn_generation g
      \<Longrightarrow> ks_lease_token s = None"
    and "published gs g \<Longrightarrow> length (staged_of (sn_session g) (sn_generation g) staged) = sn_staged_count g"
  using assms unfolding snapshots_ok_def prod.case by blast+

text \<open>What later transactions do: generations grow, a published snapshot stays as it is or goes, and what is gone stays gone.\<close>

definition snapshots_later :: "snapshots \<Rightarrow> snapshots \<Rightarrow> bool" where
  "snapshots_later v v' = (case (v, v') of ((states, staged, gs), (states', staged', gs')) \<Rightarrow>
     (\<forall>s \<in> set states. \<exists>s' \<in> set states'. ks_session s' = ks_session s \<and> ks_generation s \<le> ks_generation s')
     \<and> (\<forall>g. published gs g \<longrightarrow> published gs' g \<and> staged_of (sn_session g) (sn_generation g) staged'
           = staged_of (sn_session g) (sn_generation g) staged \<or> generation_key g \<notin> generation_key ` set gs')
     \<and> (\<forall>s \<in> set states. \<forall>n \<le> ks_generation s. (ks_session s, n) \<notin> generation_key ` set gs
         \<longrightarrow> (ks_session s, n) \<notin> generation_key ` set gs'))"

lemma snapshots_later_refl: "snapshots_later v v"
  by (auto simp: snapshots_later_def split: prod.split)

lemma snapshots_later_trans:
  assumes ok: "snapshots_ok v" and 1: "snapshots_later v v'" and 2: "snapshots_later v' v''"
  shows "snapshots_later v v''"
proof -
  obtain states staged gs states' staged' gs' states'' staged'' gs''
    where v: "v = (states, staged, gs)" "v' = (states', staged', gs')" "v'' = (states'', staged'', gs'')"
    by (cases v; cases v'; cases v'')
  have grow: "\<exists>s' \<in> set states'. ks_session s' = ks_session s \<and> ks_generation s \<le> ks_generation s'" if "s \<in> set states" for s
    using 1 that by (simp add: v snapshots_later_def)
  have gone: "(ks_session s, n) \<notin> generation_key ` set gs''"
    if s: "s \<in> set states" "n \<le> ks_generation s" "(ks_session s, n) \<notin> generation_key ` set gs'" for s n
  proof -
    obtain s' where "s' \<in> set states'" "ks_session s' = ks_session s" "ks_generation s \<le> ks_generation s'" using grow [OF s(1)] by blast
    moreover have "\<forall>s \<in> set states'. \<forall>n \<le> ks_generation s. (ks_session s, n) \<notin> generation_key ` set gs'
        \<longrightarrow> (ks_session s, n) \<notin> generation_key ` set gs''"
      using 2 by (simp add: v snapshots_later_def)
    ultimately show ?thesis using s(2,3) by (metis order_trans)
  qed
  show ?thesis unfolding v snapshots_later_def prod.case
  proof (intro conjI ballI allI impI)
    fix s assume "s \<in> set states"
    then obtain s' where "s' \<in> set states'" "ks_session s' = ks_session s" "ks_generation s \<le> ks_generation s'" using grow by blast
    then show "\<exists>s' \<in> set states''. ks_session s' = ks_session s \<and> ks_generation s \<le> ks_generation s'"
      using 2 by (fastforce simp: v snapshots_later_def)
  next
    fix g assume g: "published gs g"
    show "published gs'' g \<and> staged_of (sn_session g) (sn_generation g) staged''
           = staged_of (sn_session g) (sn_generation g) staged \<or> generation_key g \<notin> generation_key ` set gs''"
    proof (cases "generation_key g \<in> generation_key ` set gs'")
      case True
      then have "published gs' g" "staged_of (sn_session g) (sn_generation g) staged' = staged_of (sn_session g) (sn_generation g) staged"
        using 1 g by (auto simp: v snapshots_later_def)
      then show ?thesis using 2 by (auto simp: v snapshots_later_def)
    next
      case False
      obtain s where "s \<in> set states" "ks_session s = sn_session g" "sn_generation g \<le> ks_generation s"
        using ok g by (auto simp: v snapshots_ok_def published_def)
      then show ?thesis using gone [of s "sn_generation g"] False by (simp add: generation_key_def)
    qed
  next
    fix s n assume s: "s \<in> set states" "n \<le> ks_generation s" "(ks_session s, n) \<notin> generation_key ` set gs"
    then show "(ks_session s, n) \<notin> generation_key ` set gs''"
      using gone [OF s(1,2)] 1 by (auto simp: v snapshots_later_def)
  qed
qed

text \<open>An update of states that gives no token and keeps generations.\<close>

lemma snapshots_states:
  assumes ok: "snapshots_ok (states, staged, gs)"
    and f: "\<And>s s'. f s = Some s' \<Longrightarrow> ks_session s' = ks_session s \<and> ks_generation s' = ks_generation s
      \<and> (ks_lease_token s' = None \<or> ks_lease_token s' = ks_lease_token s)"
  shows "snapshots_ok (sql_update f states, staged, gs) \<and> snapshots_later (states, staged, gs) (sql_update f states, staged, gs)"
proof -
  have after: "ks_session (row_after f s) = ks_session s" "ks_generation (row_after f s) = ks_generation s"
    "ks_lease_token (row_after f s) = None \<or> ks_lease_token (row_after f s) = ks_lease_token s" for s
    using f by (auto simp: row_after_def split: option.split)
  have keyed: "keyed ks_session (sql_update f states) = keyed ks_session states" by (rule keyed_sql_update) (use f in blast)
  have ex: "(\<exists>s \<in> set (sql_update f states). ks_session s = sid \<and> n \<le> ks_generation s)
      \<longleftrightarrow> (\<exists>s \<in> set states. ks_session s = sid \<and> n \<le> ks_generation s)" for sid n
    by (simp add: set_sql_update_after after)
  have token: "ks_lease_token s' = None"
    if s': "published gs g" "s' \<in> set (sql_update f states)" "ks_session s' = sn_session g" "ks_generation s' = sn_generation g" for g s'
  proof -
    obtain s where "s \<in> set states" "s' = row_after f s" using s'(2) unfolding set_sql_update_after by blast
    then show ?thesis using ok s' after [of s] by (auto simp: snapshots_ok_def)
  qed
  have "snapshots_ok (sql_update f states, staged, gs)"
    using ok token unfolding snapshots_ok_def prod.case keyed ex by blast
  moreover have "snapshots_later (states, staged, gs) (sql_update f states, staged, gs)"
    unfolding snapshots_later_def prod.case set_sql_update_after using after by auto
  ultimately show ?thesis ..
qed

text \<open>Observations that the holder of the lease stages.\<close>

lemma staged_of_insert:
  assumes "\<And>x. x \<in> set xs \<Longrightarrow> (st_session x, st_generation x) \<noteq> (sid, n)"
  shows "staged_of sid n (fold (sql_insert_new staged_key) xs staged) = staged_of sid n staged"
  using assms
proof (induction xs arbitrary: staged)
  case (Cons x xs)
  then have "staged_of sid n (sql_insert_new staged_key x staged) = staged_of sid n staged"
    by (auto simp: sql_insert_new_def staged_of_def)
  then show ?case using Cons by simp
qed simp

lemma snapshots_staged:
  assumes ok: "snapshots_ok (states, staged, gs)"
    and s: "s \<in> set states" "ks_session s = sid" "ks_generation s = generation" "ks_lease_token s \<noteq> None"
    and xs: "\<And>x. x \<in> set xs \<Longrightarrow> st_session x = sid \<and> st_generation x = generation"
  shows "snapshots_ok (states, fold (sql_insert_new staged_key) xs staged, gs)
    \<and> snapshots_later (states, staged, gs) (states, fold (sql_insert_new staged_key) xs staged, gs)"
proof -
  let ?staged = "fold (sql_insert_new staged_key) xs staged"
  have open_session: "(sn_session g, sn_generation g) \<noteq> (sid, generation)" if g: "published gs g" for g
  proof
    assume "(sn_session g, sn_generation g) = (sid, generation)"
    then have "ks_lease_token s = None" using ok g s(1-3) unfolding snapshots_ok_def prod.case by (metis prod.inject)
    then show False using s(4) by simp
  qed
  have same: "staged_of (sn_session g) (sn_generation g) ?staged = staged_of (sn_session g) (sn_generation g) staged"
    if "published gs g" for g
    by (rule staged_of_insert) (use xs open_session [OF that] in auto)
  have keyed: "keyed staged_key zs \<Longrightarrow> keyed staged_key (fold (sql_insert_new staged_key) xs zs)" for zs
    by (induction xs arbitrary: zs) auto
  have new: "x \<in> set staged \<or> x \<in> set xs" if "x \<in> set ?staged" for x
    using mem_fold_insert_new [where mk = "\<lambda>x. x" and key = staged_key and ps = xs and rows = staged and x = x] that by simp
  have "\<exists>s \<in> set states. ks_session s = st_session x \<and> st_generation x \<le> ks_generation s" if "x \<in> set ?staged" for x
    using new [OF that] xs s ok by (auto simp: snapshots_ok_def)
  then have "snapshots_ok (states, ?staged, gs)" using ok same keyed unfolding snapshots_ok_def prod.case by (metis (no_types, lifting))
  moreover have "snapshots_later (states, staged, gs) (states, ?staged, gs)" using same by (auto simp: snapshots_later_def)
  ultimately show ?thesis ..
qed

text \<open>Updates of generations that are not published and do not become it.\<close>

lemma snapshots_generations:
  assumes ok: "snapshots_ok (states, staged, gs)"
    and f: "\<And>g g'. f g = Some g' \<Longrightarrow> generation_key g' = generation_key g \<and> sn_state g = G_RECEIVING \<and> sn_state g' = G_FAILED"
  shows "snapshots_ok (states, staged, sql_update f gs) \<and> snapshots_later (states, staged, gs) (states, staged, sql_update f gs)"
proof -
  have after: "generation_key (row_after f g) = generation_key g" for g using f by (simp add: row_after_def split: option.split)
  have keyed: "keyed generation_key (sql_update f gs) = keyed generation_key gs" by (rule keyed_sql_update) (use f in blast)
  have published: "published (sql_update f gs) g \<longleftrightarrow> published gs g" for g
  proof
    assume g: "published (sql_update f gs) g"
    then have "g \<in> set (sql_update f gs)" by (simp add: published_def)
    then show "published gs g"
    proof (cases rule: sql_update_cases)
      case kept
      then show ?thesis using g by (simp add: published_def)
    next
      case (changed g0)
      then show ?thesis using f g by (fastforce simp: published_def)
    qed
  next
    assume g: "published gs g"
    then have "f g = None" using f [of g] by (cases "f g") (auto simp: published_def)
    then show "published (sql_update f gs) g" using g sql_update_mem_kept [of g gs f] by (simp add: published_def)
  qed
  have keys: "generation_key ` set (sql_update f gs) = generation_key ` set gs"
    by (simp add: set_sql_update_after image_image after)
  have ex: "\<exists>s \<in> set states. ks_session s = sn_session g \<and> sn_generation g \<le> ks_generation s" if "g \<in> set (sql_update f gs)" for g
  proof -
    have "generation_key g \<in> generation_key ` set gs" using imageI [OF that, of generation_key] unfolding keys .
    then obtain g0 where "g0 \<in> set gs" "sn_session g0 = sn_session g" "sn_generation g0 = sn_generation g"
      by (auto simp: generation_key_def)
    then show ?thesis using snapshots_okD(4) [OF ok, of g0] by simp
  qed
  have "snapshots_ok (states, staged, sql_update f gs)"
    by (rule snapshots_okI) (use snapshots_okD [OF ok] keyed ex published in blast)+
  moreover have "snapshots_later (states, staged, gs) (states, staged, sql_update f gs)"
    unfolding snapshots_later_def prod.case published keys by blast
  ultimately show ?thesis ..
qed

text \<open>Generations that go, with their staged observations.\<close>

lemma snapshots_dropped:
  assumes ok: "snapshots_ok (states, staged, gs)" and gone: "gone = generation_key ` set (filter P gs)"
  shows "snapshots_ok (states, sql_delete (\<lambda>s. (st_session s, st_generation s) \<in> gone) staged, sql_delete P gs)
    \<and> snapshots_later (states, staged, gs) (states, sql_delete (\<lambda>s. (st_session s, st_generation s) \<in> gone) staged, sql_delete P gs)"
proof -
  let ?staged = "sql_delete (\<lambda>s. (st_session s, st_generation s) \<in> gone) staged"
  let ?gs = "sql_delete P gs"
  note k = snapshots_okD [OF ok]
  have rest: "generation_key g \<notin> gone" if "g \<in> set ?gs" for g
  proof
    assume "generation_key g \<in> gone"
    then obtain g' where "g' \<in> set gs" "P g'" "generation_key g' = generation_key g" by (auto simp: gone)
    then show False using keyed_inj [OF k(2), of g' g] that by simp
  qed
  have same: "staged_of sid n ?staged = staged_of sid n staged" if "(sid, n) \<notin> gone" for sid n
    using that by (auto simp: staged_of_def sql_delete_def intro!: filter_cong)
  have sub: "published ?gs g \<Longrightarrow> published gs g" for g by (simp add: published_def)
  have kept: "staged_of (sn_session g) (sn_generation g) ?staged = staged_of (sn_session g) (sn_generation g) staged"
    if "published ?gs g" for g
    using rest [of g] that by (intro same) (simp add: published_def generation_key_def)
  have stay: "published ?gs g" if h: "published gs g" "generation_key g \<in> generation_key ` set ?gs" for g
  proof -
    obtain g' where "g' \<in> set ?gs" "generation_key g' = generation_key g" using imageE [OF h(2)] by metis
    then have "g' = g" using keyed_inj [OF k(2), of g' g] h(1) by (simp add: published_def)
    then show ?thesis using h(1) \<open>g' \<in> set ?gs\<close> by (simp add: published_def)
  qed
  have "snapshots_ok (states, ?staged, ?gs)"
  proof (rule snapshots_okI)
    show "\<exists>s \<in> set states. ks_session s = sn_session g \<and> sn_generation g \<le> ks_generation s" if "g \<in> set ?gs" for g
      using k(4) that by simp
    show "\<exists>s \<in> set states. ks_session s = st_session x \<and> st_generation x \<le> ks_generation s" if "x \<in> set ?staged" for x
      using k(5) that by simp
    show "ks_lease_token s = None" if "published ?gs g" "s \<in> set states" "ks_session s = sn_session g" "ks_generation s = sn_generation g" for g s
      using k(6) [OF sub] that by blast
    show "length (staged_of (sn_session g) (sn_generation g) ?staged) = sn_staged_count g" if "published ?gs g" for g
      using k(7) [OF sub] kept that by simp
  qed (use k(1-3) in blast)+
  moreover have "snapshots_later (states, staged, gs) (states, ?staged, ?gs)"
    unfolding snapshots_later_def prod.case using stay kept by fastforce
  ultimately show ?thesis ..
qed

text \<open>A new snapshot, whose generation is above all of its session.\<close>

definition claims_generation :: "string \<Rightarrow> nat \<Rightarrow> contact_sync_state table \<Rightarrow> contact_sync_state table \<Rightarrow> bool" where
  "claims_generation sid generation states states' \<longleftrightarrow> keyed ks_session states'
     \<and> (\<forall>s \<in> set states. \<exists>s' \<in> set states'. ks_session s' = ks_session s \<and> ks_generation s \<le> ks_generation s')
     \<and> (\<forall>s' \<in> set states'. ks_session s' = sid \<and> ks_generation s' = generation \<or> s' \<in> set states)
     \<and> (\<exists>s' \<in> set states'. ks_session s' = sid \<and> ks_generation s' = generation)
     \<and> (\<forall>s \<in> set states. ks_session s = sid \<longrightarrow> ks_generation s < generation)"

lemma claim_generation:
  assumes keyed: "keyed ks_session states" and claim: "claim_snapshot sid force t now states = (states', Some generation)"
  shows "claims_generation sid generation states states'"
proof (cases "sid \<in> ks_session ` set states")
  case True
  let ?f = "claim_snapshot_row sid force t now"
  obtain s where r: "s \<in> set (sql_returning ?f states)" "ks_generation s = generation" and states': "states' = sql_update ?f states"
    using claim True by (auto simp: claim_snapshot_def split: list.splits)
  obtain s0 where s0: "s0 \<in> set states" "?f s0 = Some s" using r(1) by (auto simp: set_sql_returning)
  have sid: "ks_session s0 = sid" "ks_generation s = Suc (ks_generation s0)" using s0(2) by (auto simp: claim_snapshot_row_def)
  have own: "x = s0" if "x \<in> set states" "ks_session x = sid" for x
    using keyed_inj [OF keyed that(1) s0(1)] that(2) sid by simp
  have key: "?f x = Some x' \<Longrightarrow> ks_session x' = ks_session x" for x x' by (auto simp: claim_snapshot_row_def)
  have changed: "x = s0 \<and> x' = s" if "x \<in> set states" "?f x = Some x'" for x x'
  proof -
    have "ks_session x = sid" using that(2) by (auto simp: claim_snapshot_row_def)
    then show ?thesis using own [OF that(1)] that(2) s0(2) by simp
  qed
  have mem: "s \<in> set states'" unfolding states' using s0 by (rule sql_update_mem_changed)
  show ?thesis unfolding claims_generation_def
  proof (intro conjI ballI impI)
    show "keyed ks_session states'" unfolding states' using keyed by (simp add: keyed_sql_update [OF key])
  next
    fix x assume x: "x \<in> set states"
    show "\<exists>s' \<in> set states'. ks_session s' = ks_session x \<and> ks_generation x \<le> ks_generation s'"
    proof (cases "?f x")
      case None
      then show ?thesis using sql_update_mem_kept [OF x] by (auto simp: states')
    next
      case (Some x')
      then have "x = s0" "x' = s" using changed [OF x] by blast+
      moreover have "ks_session s = ks_session s0" using key [OF s0(2)] .
      ultimately show ?thesis using mem sid by (intro bexI [of _ s]) simp_all
    qed
  next
    fix s' assume "s' \<in> set states'"
    then have "s' \<in> set (sql_update ?f states)" by (simp add: states')
    then show "ks_session s' = sid \<and> ks_generation s' = generation \<or> s' \<in> set states"
    proof (cases rule: sql_update_cases)
      case (changed x)
      then have "s' = s" using \<open>\<And>x x'. x \<in> set states \<Longrightarrow> ?f x = Some x' \<Longrightarrow> x = s0 \<and> x' = s\<close> by blast
      then show ?thesis using key [OF s0(2)] sid r(2) by simp
    qed simp
  next
    show "\<exists>s' \<in> set states'. ks_session s' = sid \<and> ks_generation s' = generation"
      using mem r(2) key [OF s0(2)] sid by (intro bexI [of _ s]) simp_all
  next
    fix x assume "x \<in> set states" "ks_session x = sid"
    then show "ks_generation x < generation" using own sid r(2) by simp
  qed
next
  case False
  then have "states' = states @ [new_sync_state sid t now]" "generation = 1" using claim by (auto simp: claim_snapshot_def)
  then show ?thesis using keyed False by (auto simp: claims_generation_def new_sync_state_def)
qed

lemma snapshots_claimed:
  assumes ok: "snapshots_ok (states, staged, gs)" and claim: "claims_generation sid generation states states'"
  shows "snapshots_ok (states', staged, gs) \<and> snapshots_later (states, staged, gs) (states', staged, gs)"
    "(sid, generation) \<notin> generation_key ` set gs"
proof -
  note k = snapshots_okD [OF ok]
  have below: "sn_generation g < generation" if "g \<in> set gs" "sn_session g = sid" for g
    using k(4) [OF that(1)] that(2) claim unfolding claims_generation_def by fastforce
  have grow: "\<exists>s' \<in> set states'. ks_session s' = s \<and> n \<le> ks_generation s'"
    if h: "\<exists>x \<in> set states. ks_session x = s \<and> n \<le> ks_generation x" for s n
    proof -
    obtain x where x: "x \<in> set states" "ks_session x = s" "n \<le> ks_generation x" using h by blast
    then obtain s' where "s' \<in> set states'" "ks_session s' = ks_session x" "ks_generation x \<le> ks_generation s'"
      using claim unfolding claims_generation_def by blast
    then show ?thesis using x by (intro bexI [of _ s']) simp_all
  qed
  have "snapshots_ok (states', staged, gs)"
  proof (rule snapshots_okI)
    show "keyed ks_session states'" using claim by (simp add: claims_generation_def)
    fix g s assume g: "published gs g" "s \<in> set states'" "ks_session s = sn_session g" "ks_generation s = sn_generation g"
    have "\<not> (ks_session s = sid \<and> ks_generation s = generation)" using below [of g] g by (auto simp: published_def)
    then have "s \<in> set states" using claim g(2) unfolding claims_generation_def by blast
    then show "ks_lease_token s = None" using k(6) g by blast
  qed (use k grow in blast)+
  moreover have "snapshots_later (states, staged, gs) (states', staged, gs)"
    using claim unfolding snapshots_later_def prod.case claims_generation_def by blast
  ultimately show "snapshots_ok (states', staged, gs) \<and> snapshots_later (states, staged, gs) (states', staged, gs)" ..
  show "(sid, generation) \<notin> generation_key ` set gs" using below by (force simp: generation_key_def)
qed

lemma snapshots_new:
  assumes ok: "snapshots_ok (states, staged, gs)" and later: "snapshots_later v (states, staged, gs)" and v: "snapshots_ok v"
    and g: "generation_key g = (sid, generation)" "sn_state g = G_RECEIVING" "(sid, generation) \<notin> generation_key ` set gs"
    and s: "\<exists>s \<in> set states. ks_session s = sid \<and> ks_generation s = generation"
    and above: "\<forall>s \<in> set (fst v). ks_session s = sid \<longrightarrow> ks_generation s < generation"
  shows "snapshots_ok (states, staged, gs @ [g]) \<and> snapshots_later v (states, staged, gs @ [g])"
proof -
  note k = snapshots_okD [OF ok]
  have same: "published (gs @ [g]) x \<longleftrightarrow> published gs x" for x using g(2) by (auto simp: published_def)
  have new: "sn_session g = sid" "sn_generation g = generation" using g(1) by (simp_all add: generation_key_def)
  have "snapshots_ok (states, staged, gs @ [g])"
    by (rule snapshots_okI) (use k same s new g(1,3) in \<open>auto simp: generation_key_def\<close>)
  moreover obtain states0 staged0 gs0 where v0: "v = (states0, staged0, gs0)" by (cases v)
  have "snapshots_later v (states, staged, gs @ [g])"
    unfolding v0 snapshots_later_def prod.case same
  proof (intro conjI ballI allI impI)
    fix s assume "s \<in> set states0"
    then show "\<exists>s' \<in> set states. ks_session s' = ks_session s \<and> ks_generation s \<le> ks_generation s'"
      using later by (simp add: v0 snapshots_later_def)
  next
    fix x assume x: "published gs0 x"
    then obtain s0 where "s0 \<in> set states0" "ks_session s0 = sn_session x" "sn_generation x \<le> ks_generation s0"
      using snapshots_okD(4) [of states0 staged0 gs0 x] v by (auto simp: v0 published_def)
    then have ne: "generation_key x \<noteq> generation_key g" using above g(1) by (auto simp: v0 generation_key_def)
    then show "published gs x \<and> staged_of (sn_session x) (sn_generation x) staged = staged_of (sn_session x) (sn_generation x) staged0
        \<or> generation_key x \<notin> generation_key ` set (gs @ [g])"
      using later x ne by (simp add: v0 snapshots_later_def)
  next
    fix s n assume "s \<in> set states0" "n \<le> ks_generation s" "(ks_session s, n) \<notin> generation_key ` set gs0"
    then show "(ks_session s, n) \<notin> generation_key ` set (gs @ [g])"
      using later above g(1) by (auto simp: v0 snapshots_later_def)
  qed
  ultimately show ?thesis by blast
qed

section \<open>Each transaction keeps it\<close>

lemma snapshots_begin:
  assumes ok: "snapshots_ok (snapshot_view d)" and d': "begin_snapshot staging retention sid force t now d = (d', r)"
  shows "snapshots_ok (snapshot_view d') \<and> snapshots_later (snapshot_view d) (snapshot_view d')"
proof (cases "claim_snapshot sid force t now (xc_states d)")
  case (Pair states' r0)
  show ?thesis
  proof (cases r0)
    case None
    then show ?thesis using d' ok Pair by (simp add: begin_snapshot_def snapshots_later_refl)
  next
    case (Some generation)
    let ?gs = "kd_generations (xc_known d)" and ?e = "expire_generation_row sid generation now"
    have ok0: "snapshots_ok (xc_states d, xc_staged d, ?gs)" using ok by (simp add: snapshot_view_def)
    note claim = claim_generation [OF snapshots_okD(1) [OF ok0] Pair [unfolded Some]]
    note claimed = snapshots_claimed [OF ok0 claim]
    show ?thesis
    proof (cases staging)
      case False
      then show ?thesis using d' claimed(1) Pair Some by (auto simp: begin_snapshot_def snapshot_view_def)
    next
      case True
      define d1 where "d1 = d\<lparr>xc_states := states'\<rparr>"
      define d2 where "d2 = on_generations (sql_update ?e) d1"
      let ?P = "outdated_generation sid retention now (xc_known d2)"
      let ?gs2 = "sql_update ?e ?gs"
      let ?gone = "generation_key ` set (filter ?P ?gs2)"
      let ?staged = "sql_delete (\<lambda>s. (st_session s, st_generation s) \<in> ?gone) (xc_staged d)"
      have key: "\<And>g g'. ?e g = Some g' \<Longrightarrow> generation_key g' = generation_key g \<and> sn_state g = G_RECEIVING \<and> sn_state g' = G_FAILED"
        by (auto simp: expire_generation_row_def generation_key_def)
      note expired = snapshots_generations [OF conjunct1 [OF claimed(1)], of ?e, OF key]
      note dropped = snapshots_dropped [OF conjunct1 [OF expired] refl, of ?P]
      have later: "snapshots_later (xc_states d, xc_staged d, ?gs) (states', ?staged, sql_delete ?P ?gs2)"
        using snapshots_later_trans [OF ok0 conjunct2 [OF claimed(1)] snapshots_later_trans
          [OF conjunct1 [OF claimed(1)] conjunct2 [OF expired] conjunct2 [OF dropped]]] .
      have after: "generation_key (row_after ?e g) = generation_key g" for g
        using key by (simp add: row_after_def split: option.split)
      have fresh: "(sid, generation) \<notin> generation_key ` set (sql_delete ?P ?gs2)"
      proof
        assume "(sid, generation) \<in> generation_key ` set (sql_delete ?P ?gs2)"
        then have "(sid, generation) \<in> generation_key ` set ?gs2" by auto
        then have "(sid, generation) \<in> generation_key ` set ?gs" by (simp add: set_sql_update_after image_image after)
        then show False using claimed(2) by simp
      qed
      have "snapshots_ok (states', ?staged, sql_delete ?P ?gs2 @ [new_generation sid generation t now])
        \<and> snapshots_later (xc_states d, xc_staged d, ?gs) (states', ?staged, sql_delete ?P ?gs2 @ [new_generation sid generation t now])"
        by (rule snapshots_new [OF conjunct1 [OF dropped] later ok0 _ _ fresh])
          (use claim in \<open>simp_all add: claims_generation_def new_generation_def generation_key_def\<close>)
      moreover have "d' = on_generations (\<lambda>gs. gs @ [new_generation sid generation t now]) (drop_generations ?P d2)"
        using d' Pair Some True by (simp add: begin_snapshot_def Let_def d1_def d2_def)
      then have "snapshot_view d' = (states', ?staged, sql_delete ?P ?gs2 @ [new_generation sid generation t now])"
        by (simp add: snapshot_view_def on_generations_def on_known_def drop_generations_def drop_runs_def Let_def d1_def d2_def)
      ultimately show ?thesis by (simp add: snapshot_view_def)
    qed
  qed
qed

lemma snapshots_renew:
  assumes ok: "snapshots_ok (snapshot_view d)" and d': "renew_snapshot sid generation t now d = Inr d'"
  shows "snapshots_ok (snapshot_view d') \<and> snapshots_later (snapshot_view d) (snapshot_view d')"
    "\<exists>s \<in> set (xc_states d'). ks_session s = sid \<and> ks_generation s = generation \<and> ks_lease_token s \<noteq> None"
    "xc_staged d' = xc_staged d" "kd_generations (xc_known d') = kd_generations (xc_known d)"
proof -
  let ?f = "renew_snapshot_row sid generation t now"
  have count: "sql_count ?f (xc_states d) = 1" and e: "d' = d\<lparr>xc_states := sql_update ?f (xc_states d)\<rparr>"
    using d' by (auto simp: renew_snapshot_def Let_def split: if_splits)
  show "snapshots_ok (snapshot_view d') \<and> snapshots_later (snapshot_view d) (snapshot_view d')"
    using snapshots_states [of "xc_states d" "xc_staged d" "kd_generations (xc_known d)" ?f] ok
    by (auto simp: e snapshot_view_def renew_snapshot_row_def)
  have "sql_count ?f (xc_states d) \<noteq> 0" using count by simp
  then obtain s where s: "s \<in> set (xc_states d)" "owned_state sid generation t now s"
    unfolding sql_count_0_iff by (auto simp: renew_snapshot_row_def)
  then have "s\<lparr>ks_lease_expires_at := Some (now + minutes 10), ks_updated_at := now\<rparr> \<in> set (xc_states d')"
    by (simp add: e) (rule sql_update_mem_changed [of s], simp_all add: renew_snapshot_row_def)
  then show "\<exists>s \<in> set (xc_states d'). ks_session s = sid \<and> ks_generation s = generation \<and> ks_lease_token s \<noteq> None"
    by (rule bexI [rotated]) (use s(2) in \<open>simp add: owned_state_def\<close>)
qed (use d' in \<open>auto simp: renew_snapshot_def Let_def split: if_splits\<close>)

lemma snapshots_page:
  assumes ok: "snapshots_ok (snapshot_view d)"
    and d': "ingest_observed_page staging fanout md5 fresh sid generation t cs now d = Inr (d', observed, enriched)"
  shows "snapshots_ok (snapshot_view d') \<and> snapshots_later (snapshot_view d) (snapshot_view d')"
proof (cases "cs = []")
  case True
  then show ?thesis using d' ok by (simp add: ingest_observed_page_def snapshots_later_refl)
next
  case False
  then obtain d1 d2 where d: "renew_snapshot sid generation t now d = Inr d1"
    "stage_page staging md5 sid generation now (page_rows fresh cs) d1 = Inr d2" "snapshot_view d' = snapshot_view d2"
    using page_view [OF False d'] by blast
  note renewed = snapshots_renew [OF ok d(1)]
  obtain s where s: "s \<in> set (xc_states d1)" "ks_session s = sid" "ks_generation s = generation" "ks_lease_token s \<noteq> None"
    using renewed(2) by blast
  have "snapshots_ok (snapshot_view d2) \<and> snapshots_later (snapshot_view d1) (snapshot_view d2)"
  proof (cases staging)
    case True
    let ?xs = "map (staged_row md5 sid generation now) (page_rows fresh cs)"
    have "d2 = d1\<lparr>xc_staged := fold (sql_insert_new staged_key) ?xs (xc_staged d1)\<rparr>"
      using d(2) True by (auto simp: stage_page_def Let_def split: if_splits)
    then have "snapshot_view d2 = (xc_states d1, fold (sql_insert_new staged_key) ?xs (xc_staged d1), kd_generations (xc_known d1))"
      by (simp add: snapshot_view_def)
    moreover have "snapshots_ok (xc_states d1, xc_staged d1, kd_generations (xc_known d1))"
      using renewed(1) by (simp add: snapshot_view_def)
    then have "snapshots_ok (xc_states d1, fold (sql_insert_new staged_key) ?xs (xc_staged d1), kd_generations (xc_known d1))
      \<and> snapshots_later (xc_states d1, xc_staged d1, kd_generations (xc_known d1))
          (xc_states d1, fold (sql_insert_new staged_key) ?xs (xc_staged d1), kd_generations (xc_known d1))"
      by (rule snapshots_staged [OF _ s]) (auto simp: staged_row_def)
    ultimately show ?thesis by (simp add: snapshot_view_def)
  next
    case False
    then show ?thesis using d(2) renewed(1) by (simp add: stage_page_def snapshots_later_refl)
  qed
  then show ?thesis using snapshots_later_trans [OF ok conjunct2 [OF renewed(1)]] d(3) by metis
qed

text \<open>The end of a snapshot: the state gives its token up, and with the staging the generation is published.\<close>

lemma snapshots_complete_state:
  assumes ok: "snapshots_ok (snapshot_view d)" and d': "complete_state sid generation t records interval now d = Inr d'"
  shows "snapshots_ok (snapshot_view d') \<and> snapshots_later (snapshot_view d) (snapshot_view d')"
    "\<forall>s \<in> set (xc_states d'). ks_session s = sid \<and> ks_generation s = generation \<longrightarrow> ks_lease_token s = None"
    "xc_staged d' = xc_staged d" "kd_generations (xc_known d') = kd_generations (xc_known d)"
proof -
  let ?f = "complete_state_row sid generation t records interval now"
  have count: "sql_count ?f (xc_states d) = 1" and e: "d' = d\<lparr>xc_states := sql_update ?f (xc_states d)\<rparr>"
    using d' by (auto simp: complete_state_def Let_def split: if_splits)
  show "snapshots_ok (snapshot_view d') \<and> snapshots_later (snapshot_view d) (snapshot_view d')"
    using snapshots_states [of "xc_states d" "xc_staged d" "kd_generations (xc_known d)" ?f] ok
    by (auto simp: e snapshot_view_def complete_state_row_def)
  have "sql_count ?f (xc_states d) \<noteq> 0" using count by simp
  then obtain s0 where s0: "s0 \<in> set (xc_states d)" "owned_state sid generation t now s0"
    unfolding sql_count_0_iff by (auto simp: complete_state_row_def)
  have keyed: "keyed ks_session (xc_states d)" using snapshots_okD(1) ok by (fastforce simp: snapshot_view_def)
  show "\<forall>s \<in> set (xc_states d'). ks_session s = sid \<and> ks_generation s = generation \<longrightarrow> ks_lease_token s = None"
  proof (intro ballI impI)
    fix s assume "s \<in> set (xc_states d')" and s: "ks_session s = sid \<and> ks_generation s = generation"
    then have "s \<in> set (sql_update ?f (xc_states d))" by (simp add: e)
    then show "ks_lease_token s = None"
    proof (cases rule: sql_update_cases)
      case kept
      then have "s = s0" using keyed_inj [OF keyed _ s0(1)] s s0(2) by (simp add: owned_state_def)
      then show ?thesis using kept s0(2) by (simp add: complete_state_row_def)
    qed (auto simp: complete_state_row_def)
  qed
qed (use d' in \<open>auto simp: complete_state_def Let_def split: if_splits\<close>)

lemma snapshots_publish:
  fixes t :: uuid and records :: nat and now :: timestamp
  assumes ok: "snapshots_ok (states, staged, gs)"
    and closed: "\<forall>s \<in> set states. ks_session s = sid \<and> ks_generation s = generation \<longrightarrow> ks_lease_token s = None"
  defines "f \<equiv> publish_generation_row sid generation t records (length (staged_of sid generation staged)) now"
  shows "snapshots_ok (states, staged, sql_update f gs) \<and> snapshots_later (states, staged, gs) (states, staged, sql_update f gs)"
proof -
  note k = snapshots_okD [OF ok]
  have f: "f g = Some g' \<Longrightarrow> generation_key g = (sid, generation) \<and> generation_key g' = (sid, generation) \<and> sn_state g = G_RECEIVING
      \<and> sn_staged_count g' = length (staged_of sid generation staged)" for g g'
    by (auto simp: f_def publish_generation_row_def generation_key_def)
  have after: "generation_key (row_after f g) = generation_key g" for g using f [of g] by (cases "f g") (simp_all add: row_after_def)
  have keys: "generation_key ` set (sql_update f gs) = generation_key ` set gs"
    by (simp add: set_sql_update_after image_image after)
  have keyed: "keyed generation_key (sql_update f gs) = keyed generation_key gs" by (rule keyed_sql_update) (use f in force)
  have cases: "published gs g \<or> generation_key g = (sid, generation) \<and> sn_staged_count g = length (staged_of sid generation staged)"
    if "published (sql_update f gs) g" for g
  proof -
    have "g \<in> set (sql_update f gs)" using that by (simp add: published_def)
    then show ?thesis by (cases rule: sql_update_cases) (use that f in \<open>auto simp: published_def\<close>)
  qed
  have stay: "published (sql_update f gs) g" if "published gs g" for g
  proof -
    have "f g = None" using f [of g] that by (cases "f g") (auto simp: published_def)
    then show ?thesis using that sql_update_mem_kept [of g gs f] by (simp add: published_def)
  qed
  have "snapshots_ok (states, staged, sql_update f gs)"
  proof (rule snapshots_okI)
    fix g assume g: "g \<in> set (sql_update f gs)"
    have "generation_key g \<in> generation_key ` set gs" using imageI [OF g, of generation_key] unfolding keys .
    then obtain g0 where "g0 \<in> set gs" "sn_session g0 = sn_session g" "sn_generation g0 = sn_generation g"
      by (auto simp: generation_key_def)
    then show "\<exists>s \<in> set states. ks_session s = sn_session g \<and> sn_generation g \<le> ks_generation s" using k(4) [of g0] by simp
  next
    fix g s assume g: "published (sql_update f gs) g" and s: "s \<in> set states" "ks_session s = sn_session g" "ks_generation s = sn_generation g"
    show "ks_lease_token s = None" using cases [OF g]
    proof
      assume "published gs g"
      then show ?thesis using k(6) s by blast
    next
      assume "generation_key g = (sid, generation) \<and> sn_staged_count g = length (staged_of sid generation staged)"
      then show ?thesis using closed s by (simp add: generation_key_def)
    qed
  next
    fix g assume "published (sql_update f gs) g"
    then show "length (staged_of (sn_session g) (sn_generation g) staged) = sn_staged_count g"
      using cases [of g] k(7) [of g] by (auto simp: generation_key_def)
  qed (use k(1-3,5) keyed in blast)+
  moreover have "snapshots_later (states, staged, gs) (states, staged, sql_update f gs)"
    unfolding snapshots_later_def prod.case keys using stay by blast
  ultimately show ?thesis ..
qed

lemma snapshots_complete:
  assumes ok: "snapshots_ok (snapshot_view d)"
    and d': "complete_snapshot staging evidence ids sid generation t records interval now d = Inr d'"
  shows "snapshots_ok (snapshot_view d') \<and> snapshots_later (snapshot_view d) (snapshot_view d')"
proof (cases staging)
  case False
  then show ?thesis using d' snapshots_complete_state(1) [OF ok] by (simp add: complete_snapshot_def)
next
  case True
  let ?f = "publish_generation_row sid generation t records (length (staged_of sid generation (xc_staged d))) now"
  define d1 where "d1 = on_known (publish_snapshot evidence ids sid generation (xc_staged d) now) d"
  have view: "snapshot_view d1 = snapshot_view d" by (simp add: d1_def on_known_def snapshot_view_def evidence_generations)
  have e: "complete_state sid generation t records interval now (on_generations (sql_update ?f) d1) = Inr d'"
    using d' True by (simp add: complete_snapshot_def Let_def d1_def split: if_splits)
  text \<open>The two updates are of different tables.\<close>
  obtain d2 where d2: "complete_state sid generation t records interval now d1 = Inr d2"
    and view': "snapshot_view d' = (xc_states d2, xc_staged d2, sql_update ?f (kd_generations (xc_known d2)))"
    using e by (auto simp: complete_state_def Let_def on_generations_def on_known_def snapshot_view_def split: if_splits)
  note closed = snapshots_complete_state [OF ok [folded view] d2]
  have "staged_of sid generation (xc_staged d) = staged_of sid generation (xc_staged d2)"
    using closed(3) by (simp add: d1_def on_known_def)
  then have "snapshots_ok (snapshot_view d') \<and> snapshots_later (snapshot_view d2) (snapshot_view d')"
    using snapshots_publish [OF conjunct1 [OF closed(1), unfolded snapshot_view_def] closed(2), where t = t and records = records and now = now]
    unfolding view' by (simp add: snapshot_view_def)
  then show ?thesis using snapshots_later_trans [OF ok] closed(1) view by metis
qed

lemma snapshots_fail:
  assumes ok: "snapshots_ok (snapshot_view d)"
  shows "snapshots_ok (snapshot_view (fail_snapshot staging sid generation t code now d))
    \<and> snapshots_later (snapshot_view d) (snapshot_view (fail_snapshot staging sid generation t code now d))"
proof -
  let ?f = "fail_state_row sid generation t code now" and ?g = "fail_generation_row sid generation t code now"
  have ok0: "snapshots_ok (xc_states d, xc_staged d, kd_generations (xc_known d))" using ok by (simp add: snapshot_view_def)
  have state: "snapshots_ok (states, staged, gs) \<Longrightarrow> snapshots_ok (sql_update ?f states, staged, gs)
      \<and> snapshots_later (states, staged, gs) (sql_update ?f states, staged, gs)" for states staged gs
    by (rule snapshots_states) (auto simp: fail_state_row_def)
  have gen: "snapshots_ok (xc_states d, xc_staged d, sql_update ?g (kd_generations (xc_known d)))
      \<and> snapshots_later (xc_states d, xc_staged d, kd_generations (xc_known d)) (xc_states d, xc_staged d, sql_update ?g (kd_generations (xc_known d)))"
    by (rule snapshots_generations [OF ok0]) (auto simp: fail_generation_row_def generation_key_def)
  show ?thesis
    using state [OF ok0] state [OF conjunct1 [OF gen]] snapshots_later_trans [OF ok0 conjunct2 [OF gen]]
    by (cases staging) (simp_all add: fail_snapshot_def Let_def snapshot_view_def on_generations_def on_known_def)
qed

section \<open>Published snapshots stay\<close>

lemma snapshots_step:
  assumes "contact_step fanout md5 t d d'" "snapshots_ok (snapshot_view d)"
  shows "snapshots_ok (snapshot_view d') \<and> snapshots_later (snapshot_view d) (snapshot_view d')"
  using assms
proof (cases rule: contact_step.cases)
  case (merged sid generation now m)
  obtain d1 where d1: "renew_snapshot sid generation t now d = Inr d1" using merged by (auto simp: reconcile_identities_def)
  then show ?thesis using snapshots_renew(1) [OF assms(2) d1] merge_view [OF d1 merged] by simp
qed (use assms(2) in \<open>auto simp: replace_view sender_view snapshots_later_refl
    snapshots_fail dest: snapshots_begin snapshots_page snapshots_complete\<close>)

lemma snapshots_steps:
  assumes "contact_steps fanout md5 d d'" "snapshots_ok (snapshot_view d)"
  shows "snapshots_ok (snapshot_view d') \<and> snapshots_later (snapshot_view d) (snapshot_view d')"
  using assms(1) unfolding contact_steps_def
proof (induction rule: rtranclp_induct)
  case base
  then show ?case using assms(2) snapshots_later_refl by blast
next
  case (step e e')
  then obtain t where "contact_step fanout md5 t e e'" by blast
  then show ?case using snapshots_step [of fanout md5 t e e'] snapshots_later_trans [OF assms(2)] step.IH by blast
qed

section \<open>A small snapshot\<close>

text \<open>A snapshot of one contact, published, and the begin of the next one.\<close>

definition read_contact :: openwa_contact where
  "read_contact = \<lparr>oc_id = ''49@c.us'', oc_number = ''49'', oc_name = Some ''Ann B.'', oc_push_name = None\<rparr>"

definition read_row :: page_row where
  "read_row = \<lparr>pg_type = PHONE_JID, pg_value = ''49@c.us'', pg_phone = Some ''49'', pg_contact_name = Some ''Ann B.'',
     pg_push_name = None, pg_candidate = ''c1''\<rparr>"

definition opened_store :: contact_store where
  "opened_store = fst (begin_snapshot True 30 ''s1'' True ''t1'' 1 empty_store)"

definition read_store :: contact_store where
  "read_store = fst (projr (ingest_observed_page True True rev (\<lambda>k. ''c1'') ''s1'' 1 ''t1'' [read_contact] 2 opened_store))"

definition closed_store :: contact_store where
  "closed_store = projr (complete_snapshot True False number_ids ''s1'' 1 ''t1'' 1 60 3 read_store)"

definition reopened_store :: contact_store where
  "reopened_store = fst (begin_snapshot True 30 ''s1'' True ''t2'' 4 closed_store)"

lemma opened_view: "snapshot_view opened_store = ([new_sync_state ''s1'' ''t1'' 1], [], [new_generation ''s1'' 1 ''t1'' 1])"
  by code_simp

lemma read_rows: "page_rows (\<lambda>k. ''c1'') [read_contact] = [read_row]"
  by code_simp

lemma read_page:
  obtains n e where "ingest_observed_page True True rev (\<lambda>k. ''c1'') ''s1'' 1 ''t1'' [read_contact] 2 opened_store = Inr (read_store, n, e)"
    "snapshot_view read_store = ([(new_sync_state ''s1'' ''t1'' 1)\<lparr>ks_lease_expires_at := Some 600002, ks_updated_at := 2\<rparr>],
       [staged_row rev ''s1'' 1 2 read_row], [new_generation ''s1'' 1 ''t1'' 1])"
proof -
  have opened: "xc_states opened_store = [new_sync_state ''s1'' ''t1'' 1]" "xc_staged opened_store = []"
    "kd_generations (xc_known opened_store) = [new_generation ''s1'' 1 ''t1'' 1]"
    using opened_view by (simp_all add: snapshot_view_def)
  let ?d1 = "opened_store\<lparr>xc_states := [(new_sync_state ''s1'' ''t1'' 1)\<lparr>ks_lease_expires_at := Some 600002, ks_updated_at := 2\<rparr>]\<rparr>"
  have renew: "renew_snapshot ''s1'' 1 ''t1'' 2 opened_store = Inr ?d1"
    by (simp add: renew_snapshot_def renew_snapshot_row_def opened sql_count_def owned_state_def new_sync_state_def
        minutes_def seconds_def null_after_Some sql_where_def)
  let ?d2 = "?d1\<lparr>xc_staged := [staged_row rev ''s1'' 1 2 read_row]\<rparr>"
  have stage: "stage_page True rev ''s1'' 1 2 [read_row] ?d1 = Inr ?d2"
    by (simp add: stage_page_def opened sql_insert_new_def staged_conflict_def find_by_def staged_row_def staged_key_def read_row_def row_identity_def)
  have "\<exists>d3. record_evidence ''s1'' 1 [read_row] d = Inr d3" for d
    by (simp add: record_evidence_def page_evidence_def read_row_def)
  then obtain d3 where d3: "record_evidence ''s1'' 1 [read_row] (create_missing ''s1'' 2 (missing_rows ''s1'' [read_row] ?d2) ?d2) = Inr d3"
    by blast
  have "\<exists>d n e. ingest_observed_page True True rev (\<lambda>k. ''c1'') ''s1'' 1 ''t1'' [read_contact] 2 opened_store = Inr (d, n, e)"
    by (simp add: ingest_observed_page_def ingest_rows_def read_rows renew stage d3 Let_def case_prod_unfold del: One_nat_def)
  then obtain d n e where d: "ingest_observed_page True True rev (\<lambda>k. ''c1'') ''s1'' 1 ''t1'' [read_contact] 2 opened_store = Inr (d, n, e)"
    by blast
  then have "d = read_store" by (simp add: read_store_def)
  moreover obtain d1 d2 where "renew_snapshot ''s1'' 1 ''t1'' 2 opened_store = Inr d1"
    "stage_page True rev ''s1'' 1 2 (page_rows (\<lambda>k. ''c1'') [read_contact]) d1 = Inr d2" "snapshot_view d = snapshot_view d2"
    using page_view [OF _ d] by blast
  moreover have "snapshot_view ?d2 = ([(new_sync_state ''s1'' ''t1'' 1)\<lparr>ks_lease_expires_at := Some 600002, ks_updated_at := 2\<rparr>],
       [staged_row rev ''s1'' 1 2 read_row], [new_generation ''s1'' 1 ''t1'' 1])"
    by (simp add: snapshot_view_def opened)
  ultimately show thesis using d renew stage by (intro that) (simp_all add: read_rows)
qed

definition closed_generation :: snapshot_generation where
  "closed_generation = (new_generation ''s1'' 1 ''t1'' 1)\<lparr>sn_state := G_PUBLISHED, sn_upstream_count := Some 1,
     sn_staged_count := 1, sn_published_at := Some 3, sn_updated_at := 3\<rparr>"

lemma complete_read:
  "complete_snapshot True False number_ids ''s1'' 1 ''t1'' 1 60 3 read_store = Inr closed_store"
  "kd_generations (xc_known closed_store) = [closed_generation]"
  "xc_staged closed_store = [staged_row rev ''s1'' 1 2 read_row]"
  "xc_states closed_store = [(new_sync_state ''s1'' ''t1'' 1)\<lparr>ks_last_completed_at := Some 3, ks_record_count := Some 1,
     ks_next_attempt_at := 63, ks_lease_token := None, ks_lease_expires_at := None, ks_updated_at := 3\<rparr>]"
proof -
  have view: "snapshot_view read_store = ([(new_sync_state ''s1'' ''t1'' 1)\<lparr>ks_lease_expires_at := Some 600002, ks_updated_at := 2\<rparr>],
       [staged_row rev ''s1'' 1 2 read_row], [new_generation ''s1'' 1 ''t1'' 1])"
    using read_page by blast
  have rows: "xc_states read_store = [(new_sync_state ''s1'' ''t1'' 1)\<lparr>ks_lease_expires_at := Some 600002, ks_updated_at := 2\<rparr>]"
    "xc_staged read_store = [staged_row rev ''s1'' 1 2 read_row]" "kd_generations (xc_known read_store) = [new_generation ''s1'' 1 ''t1'' 1]"
    using view by (simp_all add: snapshot_view_def)
  have "\<exists>d. complete_snapshot True False number_ids ''s1'' 1 ''t1'' 1 60 3 read_store = Inr d
      \<and> kd_generations (xc_known d) = [closed_generation] \<and> xc_staged d = [staged_row rev ''s1'' 1 2 read_row]
      \<and> xc_states d = [(new_sync_state ''s1'' ''t1'' 1)\<lparr>ks_last_completed_at := Some 3, ks_record_count := Some 1,
           ks_next_attempt_at := 63, ks_lease_token := None, ks_lease_expires_at := None, ks_updated_at := 3\<rparr>]"
    by (simp add: complete_snapshot_def complete_state_def complete_state_row_def publish_generation_row_def publish_snapshot_def rows
        sql_count_def owned_state_def new_sync_state_def new_generation_def generation_key_def closed_generation_def
        null_after_Some sql_where_def on_generations_def on_known_def staged_of_def staged_row_def)
  then show "complete_snapshot True False number_ids ''s1'' 1 ''t1'' 1 60 3 read_store = Inr closed_store"
    "kd_generations (xc_known closed_store) = [closed_generation]" "xc_staged closed_store = [staged_row rev ''s1'' 1 2 read_row]"
    "xc_states closed_store = [(new_sync_state ''s1'' ''t1'' 1)\<lparr>ks_last_completed_at := Some 3, ks_record_count := Some 1,
       ks_next_attempt_at := 63, ks_lease_token := None, ks_lease_expires_at := None, ks_updated_at := 3\<rparr>]"
    by (auto simp: closed_store_def)
qed

lemma reopened_keys: "map generation_key (kd_generations (xc_known reopened_store)) = [(''s1'', 1), (''s1'', 2)]"
  by (simp add: reopened_store_def begin_snapshot_def claim_snapshot_def complete_read claim_snapshot_row_def snapshot_claimable_def
      new_sync_state_def closed_generation_def new_generation_def on_generations_def on_known_def expire_generation_row_def
      drop_generations_def drop_runs_def outdated_generation_def days_def seconds_def minutes_def sql_where_def sql_delete_def
      generation_key_def Let_def)

lemma closed_steps: "contact_steps True rev empty_store closed_store" "contact_steps True rev closed_store reopened_store"
proof -
  have began: "\<exists>t. contact_step True rev t d (fst (begin_snapshot True 30 sid True t' now d))" for d sid t' now
    by (intro exI contact_step.began) (rule prod.collapse [symmetric])
  obtain n e where "ingest_observed_page True True rev (\<lambda>k. ''c1'') ''s1'' 1 ''t1'' [read_contact] 2 opened_store = Inr (read_store, n, e)"
    using read_page by blast
  then have paged: "\<exists>t. contact_step True rev t opened_store read_store" by (blast intro: contact_step.paged)
  have completed: "\<exists>t. contact_step True rev t read_store closed_store" using complete_read(1) by (blast intro: contact_step.completed)
  have opened: "\<exists>t. contact_step True rev t empty_store opened_store" unfolding opened_store_def by (rule began)
  show "contact_steps True rev empty_store closed_store"
    unfolding contact_steps_def
    by (rule converse_rtranclp_into_rtranclp [OF _ converse_rtranclp_into_rtranclp [OF _ r_into_rtranclp]])
      (rule opened paged completed)+
  show "contact_steps True rev closed_store reopened_store"
    unfolding contact_steps_def reopened_store_def by (rule r_into_rtranclp) (rule began)
qed

text \<open>C14: A snapshot that is published has as many observations staged as it counted, and from then on, whatever snapshots,
  messages and group details follow, its row and its staged observations stay exactly as they are until it is
  pruned: no transaction of its own or another snapshot can add to it, fail it or publish it again.\<close>

theorem published_snapshot_immutable:
  assumes "contact_steps fanout md5 d0 d" and "xc_states d0 = []" "xc_staged d0 = []" "kd_generations (xc_known d0) = []"
    and "g \<in> set (kd_generations (xc_known d))" "sn_state g = G_PUBLISHED" and "contact_steps fanout md5 d d'"
  shows "length (staged_of (sn_session g) (sn_generation g) (xc_staged d)) = sn_staged_count g
    \<and> (if generation_key g \<in> generation_key ` set (kd_generations (xc_known d'))
       then g \<in> set (kd_generations (xc_known d'))
         \<and> staged_of (sn_session g) (sn_generation g) (xc_staged d') = staged_of (sn_session g) (sn_generation g) (xc_staged d)
       else True)"
proof -
  have "snapshots_ok (snapshot_view d0)"
    using assms(2-4) by (auto simp: snapshot_view_def published_def intro!: snapshots_okI)
  then have ok: "snapshots_ok (snapshot_view d)" using snapshots_steps [OF assms(1)] by blast
  have g: "published (kd_generations (xc_known d)) g" using assms(5,6) by (simp add: published_def)
  have "snapshots_later (snapshot_view d) (snapshot_view d')" using snapshots_steps [OF assms(7) ok] by blast
  then have "published (kd_generations (xc_known d')) g
      \<and> staged_of (sn_session g) (sn_generation g) (xc_staged d') = staged_of (sn_session g) (sn_generation g) (xc_staged d)
    \<or> generation_key g \<notin> generation_key ` set (kd_generations (xc_known d'))"
    using g by (simp add: snapshots_later_def snapshot_view_def)
  then show ?thesis using snapshots_okD(7) [OF ok [unfolded snapshot_view_def] g] by (auto simp: published_def)
qed

theorem published_snapshot_immutable_witness:
  "closed_generation \<in> set (kd_generations (xc_known closed_store)) \<and> length (staged_of ''s1'' 1 (xc_staged closed_store)) = 1
    \<and> closed_generation \<in> set (kd_generations (xc_known reopened_store))
    \<and> staged_of ''s1'' 1 (xc_staged reopened_store) = staged_of ''s1'' 1 (xc_staged closed_store)"
proof -
  have "length (staged_of (sn_session closed_generation) (sn_generation closed_generation) (xc_staged closed_store))
        = sn_staged_count closed_generation
    \<and> (if generation_key closed_generation \<in> generation_key ` set (kd_generations (xc_known reopened_store))
       then closed_generation \<in> set (kd_generations (xc_known reopened_store))
         \<and> staged_of (sn_session closed_generation) (sn_generation closed_generation) (xc_staged reopened_store)
           = staged_of (sn_session closed_generation) (sn_generation closed_generation) (xc_staged closed_store)
       else True)"
    by (rule published_snapshot_immutable [OF closed_steps(1) _ _ _ _ _ closed_steps(2)])
      (simp_all add: empty_store_def empty_known_def complete_read(2) closed_generation_def)
  moreover have "generation_key closed_generation \<in> generation_key ` set (kd_generations (xc_known reopened_store))"
    unfolding set_map [symmetric] reopened_keys by (simp add: closed_generation_def new_generation_def generation_key_def)
  ultimately show ?thesis by (simp add: complete_read(2)) (simp add: closed_generation_def new_generation_def)
qed

end
