(* ===== verification/Contact_Batches.thy ===== *)
theory Contact_Batches
  imports Contact_Projection Contact_Consistency
begin

text \<open>
  What the batches of a projection do together: members are taken in the order of group and participant, each batch
  goes on after the last member of the one before, and with the last batch all affected members have been projected
  once.
\<close>

section \<open>Pages\<close>

definition member_place :: "group_member \<Rightarrow> string \<times> string" where
  "member_place m = (mb_group m, mb_participant m)"

definition to_project :: "string \<Rightarrow> uuid set \<Rightarrow> (string \<times> string) option \<Rightarrow> group_member \<Rightarrow> bool" where
  "to_project sid ns c m \<longleftrightarrow> mb_session m = sid \<and> mb_evidence_identity m \<in> Some ` ns \<and> after_cursor c m"

definition pages_left :: "string \<Rightarrow> uuid set \<Rightarrow> (string \<times> string) option \<Rightarrow> group_member table \<Rightarrow> group_member list" where
  "pages_left sid ns c rows = sort_key member_place (filter (to_project sid ns c) rows)"

lemma member_page_take: "member_page batch sid ns c rows = take batch (pages_left sid ns c rows)"
proof -
  have "(\<lambda>m. (mb_group m, mb_participant m)) = member_place" by (simp add: fun_eq_iff member_place_def)
  moreover have "(\<lambda>m. mb_session m = sid \<and> mb_evidence_identity m \<in> Some ` ns \<and> after_cursor c m) = to_project sid ns c"
    by (simp add: fun_eq_iff to_project_def)
  ultimately show ?thesis by (simp add: member_page_def sql_top_def pages_left_def)
qed

lemma length_pages_left: "length (pages_left sid ns c rows) = length (filter (to_project sid ns c) rows)"
  by (simp add: pages_left_def)

lemma set_pages_left: "set (pages_left sid ns c rows) = {m \<in> set rows. to_project sid ns c m}"
  by (simp add: pages_left_def)

text \<open>Within a session the place of a member is its key.\<close>

lemma pages_left_sorted:
  assumes "keyed member_key rows"
  shows "sorted_wrt (<) (map member_place (pages_left sid ns c rows))"
proof -
  have "inj_on member_place (set (filter (to_project sid ns c) rows))"
    using keyed_inj [OF assms] by (auto simp: inj_on_def to_project_def member_place_def member_key_def)
  moreover have "distinct (filter (to_project sid ns c) rows)" using assms by (simp add: keyed_def distinct_map)
  ultimately have "distinct (map member_place (pages_left sid ns c rows))" by (simp add: pages_left_def distinct_map)
  moreover have "sorted (map member_place (pages_left sid ns c rows))" by (simp add: pages_left_def)
  ultimately show ?thesis by (simp add: strict_sorted_iff)
qed

lemma filter_after_last:
  fixes key :: "'a \<Rightarrow> 'k :: linorder"
  assumes "sorted_wrt (<) (map key xs)" "0 < b" "b \<le> length xs"
  shows "filter (\<lambda>x. key (last (take b xs)) < key x) xs = drop b xs"
proof -
  define l where "l = last (take b xs)"
  have below: "key x < key y" if "x \<in> set (take b xs)" "y \<in> set (drop b xs)" for x y
  proof -
    have "sorted_wrt (<) (map key (take b xs) @ map key (drop b xs))" using assms(1) by (simp flip: map_append)
    then show ?thesis using that by (simp add: sorted_wrt_append)
  qed
  have "take b xs \<noteq> []" using assms(2,3) by auto
  then have l: "l \<in> set (take b xs)" "take b xs = butlast (take b xs) @ [l]"
    unfolding l_def by (auto simp: append_butlast_last_id)
  have "\<not> key l < key x" if "x \<in> set (take b xs)" for x
  proof -
    have "sorted_wrt (<) (map key (butlast (take b xs) @ [l]))" unfolding l(2) [symmetric] take_map [symmetric]
      by (rule sorted_wrt_take [OF assms(1)])
    then have "\<forall>y \<in> set (butlast (take b xs)). key y < key l" by (simp add: sorted_wrt_append)
    moreover have "x \<in> set (butlast (take b xs)) \<or> x = l" using that l(2) by (metis Un_iff empty_iff empty_set insert_iff list.simps(15) set_append)
    ultimately show ?thesis by auto
  qed
  then have "filter (\<lambda>x. key l < key x) (take b xs) = []" by (simp add: filter_empty_conv)
  moreover have "filter (\<lambda>x. key l < key x) (drop b xs) = drop b xs"
    using below [OF l(1)] by (simp add: filter_id_conv)
  ultimately have "filter (\<lambda>x. key l < key x) (take b xs @ drop b xs) = drop b xs" by (simp only: filter_append) simp
  then show ?thesis by (simp add: l_def)
qed

text \<open>The members after the last one of a page are those that were left without the page.\<close>

lemma pages_left_next:
  assumes keyed: "keyed member_key rows" and b: "0 < b" "b \<le> length (pages_left sid ns c rows)"
  defines "m \<equiv> last (member_page b sid ns c rows)"
  shows "pages_left sid ns (Some (mb_group m, mb_participant m)) rows = drop b (pages_left sid ns c rows)"
    "to_project sid ns (Some (mb_group m, mb_participant m)) x \<Longrightarrow> to_project sid ns c x"
proof -
  let ?c' = "Some (mb_group m, mb_participant m)"
  have m: "m = last (take b (pages_left sid ns c rows))" by (simp add: m_def member_page_take)
  have "take b (pages_left sid ns c rows) \<noteq> []" using b by auto
  then have "m \<in> set (pages_left sid ns c rows)" unfolding m by (meson in_set_takeD last_in_set)
  then have "after_cursor c m" by (simp add: set_pages_left to_project_def)
  then have after: "after_cursor c x" if "member_place m < member_place x" for x
    using that by (auto simp: after_cursor_def member_place_def split: option.splits)
  have split: "to_project sid ns ?c' x \<longleftrightarrow> to_project sid ns c x \<and> member_place m < member_place x" for x
    using after by (auto simp: to_project_def after_cursor_def [of ?c'] member_place_def)
  show "to_project sid ns ?c' x \<Longrightarrow> to_project sid ns c x" by (simp add: split)
  have "filter (to_project sid ns ?c') rows = filter (\<lambda>x. member_place m < member_place x) (filter (to_project sid ns c) rows)"
    unfolding filter_filter by (rule filter_cong) (simp_all add: split conj_commute)
  then have "pages_left sid ns ?c' rows = filter (\<lambda>x. member_place m < member_place x) (pages_left sid ns c rows)"
    by (simp add: pages_left_def filter_sort)
  then show "pages_left sid ns ?c' rows = drop b (pages_left sid ns c rows)"
    unfolding m using filter_after_last [OF pages_left_sorted [OF keyed] b] by simp
qed

section \<open>What a batch changes\<close>

text \<open>What counts of a member: its key and the columns of the projection, without the times.\<close>

definition member_shown where
  "member_shown m = (member_key m, shadow_columns m)"

definition project_once ::
  "(string \<Rightarrow> string) \<Rightarrow> bool \<Rightarrow> projection_work \<Rightarrow> contact_db \<Rightarrow> timestamp \<Rightarrow> group_member row_update" where
  "project_once lower mirror w d now m =
     (let run = pw_active_run w; revision = coalesce (pw_active_revision w) 0 in
      if to_project (pw_session w) (affected_by (pw_session w) run (pw_identity w) d) (pw_cursor w) m \<and> mb_shadow_revision m \<le> revision
      then map_option (\<lambda>p. write_projection mirror revision run now p m)
        (project_member lower run (coalesce (pw_active_cutoff w) 0) d m) else None)"

text \<open>The reference: all members that are left at once.\<close>

definition project_members ::
  "(string \<Rightarrow> string) \<Rightarrow> bool \<Rightarrow> projection_work \<Rightarrow> contact_db \<Rightarrow> timestamp \<Rightarrow> group_member table \<Rightarrow> group_member table" where
  "project_members lower mirror w d now = sql_update (project_once lower mirror w d now)"

lemma write_projection_keeps [simp]:
  "mb_session (write_projection mirror revision run now p m) = mb_session m"
  "mb_group (write_projection mirror revision run now p m) = mb_group m"
  "mb_participant (write_projection mirror revision run now p m) = mb_participant m"
  "mb_evidence_identity (write_projection mirror revision run now p m) = mb_evidence_identity m"
  "mb_participant_name (write_projection mirror revision run now p m) = mb_participant_name m"
  "mb_number (write_projection mirror revision run now p m) = mb_number m"
  by (simp_all add: write_projection_def Let_def)

lemma write_projection_time:
  "member_shown (write_projection mirror revision run now p m) = member_shown (write_projection mirror revision run now' p m)"
  by (simp add: write_projection_def Let_def member_shown_def member_key_def shadow_columns_def)

text \<open>Nothing that a projection reads depends on the work.\<close>

lemma project_member_work: "project_member lower run cutoff (d\<lparr>kd_work := ws\<rparr>) m = project_member lower run cutoff d m"
proof -
  have "run_assignments sid rid (d\<lparr>kd_work := ws\<rparr>) = run_assignments sid rid d"
    "run_clusters sid rid (d\<lparr>kd_work := ws\<rparr>) = run_clusters sid rid d" for sid rid
    by (simp_all add: run_assignments_def run_clusters_def)
  then show ?thesis
    by (simp add: project_member_def identity_row_def projected_phone_def projected_name_def cluster_name_def push_name_of_def
        resolved_aliases_def resolved_assignment_def run_assignment_def cong: option.case_cong)
qed

lemma affected_by_work: "affected_by sid run n (d\<lparr>kd_work := ws\<rparr>) = affected_by sid run n d"
  by (simp add: affected_by_def resolved_aliases_def resolved_assignment_def run_assignment_def run_assignments_def
      cong: option.case_cong)

lemma project_once_work: "project_once lower mirror w (d\<lparr>kd_work := ws\<rparr>) now m = project_once lower mirror w d now m"
  by (simp add: project_once_def affected_by_work project_member_work Let_def)

lemma project_once_time:
  "member_shown (row_after (project_once lower mirror w d now) m) = member_shown (row_after (project_once lower mirror w d now') m)"
  by (auto simp: row_after_def project_once_def Let_def split: option.split intro: write_projection_time)

lemma project_row_keeps:
  assumes "project_row lower mirror revision run cutoff d page now m = Some m'"
  shows "member_key m' = member_key m" "to_project sid ns c m' = to_project sid ns c m"
proof -
  obtain p where "m' = write_projection mirror revision run now p m" using assms by (auto simp: project_row_def split: if_splits)
  then show "member_key m' = member_key m" "to_project sid ns c m' = to_project sid ns c m"
    by (simp_all add: member_key_def to_project_def after_cursor_def cong: option.case_cong)
qed

lemma find_only: "x \<in> set xs \<Longrightarrow> P x \<Longrightarrow> (\<And>y. y \<in> set xs \<Longrightarrow> P y \<Longrightarrow> y = x) \<Longrightarrow> List.find P xs = Some x"
proof (induction xs)
  case (Cons y ys)
  show ?case
  proof (cases "P y")
    case True
    then show ?thesis using Cons.prems(3) [of y] by simp
  next
    case False
    then have "x \<in> set ys" using Cons.prems(1,2) by auto
    then have "List.find P ys = Some x" by (rule Cons.IH [OF _ Cons.prems(2)]) (rule Cons.prems(3), simp_all)
    then show ?thesis using False by simp
  qed
qed simp

lemma find_held:
  assumes "keyed work_key ws" "w \<in> set ws" "projection_owned k now w"
  shows "List.find (projection_owned k now) ws = Some w"
proof (rule find_only [where x = w and xs = ws and P = "projection_owned k now", OF assms(2) assms(3)])
  fix y assume y: "y \<in> set ws" "projection_owned k now y"
  then have "work_key y = work_key w" using assms(3) by (simp add: projection_owned_def work_held_def)
  then show "y = w" by (rule keyed_inj [OF assms(1) y(1) assms(2)])
qed

lemma find_heldD:
  assumes "List.find (projection_owned k now) ws = Some w"
  shows "w \<in> set ws" "projection_owned k now w" "pw_session w = qk_session k" "pw_identity w = qk_identity k"
  using assms by (auto simp: find_Some_iff projection_owned_def work_held_def work_key_def claim_key_def)

text \<open>What is left for a claim.\<close>

definition left_for :: "projection_work \<Rightarrow> contact_db \<Rightarrow> group_member table \<Rightarrow> group_member list" where
  "left_for w d = pages_left (pw_session w) (affected_by (pw_session w) (pw_active_run w) (pw_identity w) d) (pw_cursor w)"

definition advanced_work :: "projection_work \<Rightarrow> group_member list \<Rightarrow> timestamp \<Rightarrow> projection_work" where
  "advanced_work w page now = w\<lparr>pw_cursor := Some (mb_group (last page), mb_participant (last page)),
     pw_lease_expires_at := Some (now + minutes 5), pw_updated_at := now\<rparr>"

lemma project_once_iff:
  "m \<in> set rows \<Longrightarrow> project_once lower mirror w d now m = (if m \<in> set (left_for w d rows)
      \<and> mb_shadow_revision m \<le> coalesce (pw_active_revision w) 0
    then map_option (\<lambda>p. write_projection mirror (coalesce (pw_active_revision w) 0) (pw_active_run w) now p m)
      (project_member lower (pw_active_run w) (coalesce (pw_active_cutoff w) 0) d m) else None)"
  by (simp add: project_once_def Let_def left_for_def set_pages_left)

lemma batch_parts:
  assumes "List.find (projection_owned k now) (kd_work (xc_known d)) = Some w"
    and "project_batch lower mirror batch k now d = Inr (d', u, finished)"
  defines "page \<equiv> take batch (left_for w (xc_known d) (xc_members d))"
  shows "xc_members d' = sql_update (project_row lower mirror (coalesce (pw_active_revision w) 0) (pw_active_run w)
        (coalesce (pw_active_cutoff w) 0) (xc_known d) (member_key ` set page) now) (xc_members d)"
    and "finished \<longleftrightarrow> length page < batch" "u = length page"
    and "xc_known d' = (xc_known d)\<lparr>kd_work := sql_update (if finished then complete_work_row k now
        else advance_work_row k (mb_group (last page), mb_participant (last page)) now) (kd_work (xc_known d))\<rparr>"
proof -
  have page: "member_page batch (qk_session k) (affected_by (qk_session k) (pw_active_run w) (qk_identity k) (xc_known d)) (pw_cursor w)
      (xc_members d) = page"
    using find_heldD(3,4) [OF assms(1)] by (simp add: page_def left_for_def member_page_take)
  note parts = assms(2) [unfolded project_batch_def Let_def assms(1) option.case page]
  show "xc_members d' = sql_update (project_row lower mirror (coalesce (pw_active_revision w) 0) (pw_active_run w)
        (coalesce (pw_active_cutoff w) 0) (xc_known d) (member_key ` set page) now) (xc_members d)"
    "finished \<longleftrightarrow> length page < batch" "u = length page"
    "xc_known d' = (xc_known d)\<lparr>kd_work := sql_update (if finished then complete_work_row k now
        else advance_work_row k (mb_group (last page), mb_participant (last page)) now) (kd_work (xc_known d))\<rparr>"
    using parts by (auto split: if_splits)
qed

lemma keyed_after:
  assumes "keyed member_key rows"
  shows "keyed member_key (sql_update (project_row lower mirror revision run cutoff d page now) rows)"
  using keyed_sql_update [of "project_row lower mirror revision run cutoff d page now" member_key rows] project_row_keeps(1) assms
  by blast

text \<open>A batch writes what the reference writes, on its page.\<close>

lemma batch_row:
  fixes d :: contact_db and w :: projection_work and batch :: nat
  assumes keyed: "keyed member_key rows" and m: "m \<in> set rows"
  defines "page \<equiv> take batch (left_for w d rows)"
  shows "project_row lower mirror (coalesce (pw_active_revision w) 0) (pw_active_run w) (coalesce (pw_active_cutoff w) 0) d
      (member_key ` set page) now m = (if m \<in> set page then project_once lower mirror w d now m else None)"
proof -
  have sub: "set page \<subseteq> set (left_for w d rows)" by (simp add: page_def set_take_subset)
  also have "set (left_for w d rows) \<subseteq> set rows" by (auto simp: left_for_def set_pages_left)
  finally have "member_key m \<in> member_key ` set page \<longleftrightarrow> m \<in> set page" using keyed_inj [OF keyed _ m] by auto
  then show ?thesis using sub by (auto simp: project_row_def project_once_iff [OF m])
qed

lemma to_project_after:
  "to_project sid ns c (row_after (project_row lower mirror revision run cutoff d page now) m) = to_project sid ns c m"
  by (auto simp: row_after_def project_row_keeps(2) split: option.split)

lemma batch_last:
  assumes keyed: "keyed member_key (xc_members d)"
    and w: "List.find (projection_owned k now) (kd_work (xc_known d)) = Some w"
    and run: "project_batch lower mirror batch k now d = Inr (d', u, True)"
  shows "u = length (left_for w (xc_known d) (xc_members d))"
    "map member_shown (xc_members d') = map member_shown (project_members lower mirror w (xc_known d) t (xc_members d))"
proof -
  let ?left = "left_for w (xc_known d) (xc_members d)"
  note parts = batch_parts [OF w run]
  have all: "take batch ?left = ?left" using parts(2) by simp
  then show "u = length ?left" using parts(3) by simp
  have "row_after (project_row lower mirror (coalesce (pw_active_revision w) 0) (pw_active_run w) (coalesce (pw_active_cutoff w) 0)
        (xc_known d) (member_key ` set ?left) now) m = row_after (project_once lower mirror w (xc_known d) now) m"
    if m: "m \<in> set (xc_members d)" for m
    using batch_row [OF keyed m, of lower mirror w "xc_known d" batch now] all
    by (auto simp: row_after_def project_once_iff [OF m])
  then show "map member_shown (xc_members d') = map member_shown (project_members lower mirror w (xc_known d) t (xc_members d))"
    unfolding parts(1) all project_members_def map_after map_map
    by (auto intro: project_once_time)
qed

lemma shown_step:
  assumes "row_after f m = row_after (project_once lower mirror w d now) m \<and> row_after g (row_after f m) = row_after f m
    \<or> row_after f m = m \<and> row_after g m = row_after (project_once lower mirror w d t) m"
  shows "member_shown (row_after g (row_after f m)) = member_shown (row_after (project_once lower mirror w d t) m)"
  using assms project_once_time by metis

text \<open>After a batch that is not the last one the reference still gives the same.\<close>

lemma batch_next:
  assumes keyed: "keyed member_key (xc_members d)" "keyed work_key (kd_work (xc_known d))" and b: "0 < batch"
    and w: "List.find (projection_owned k now) (kd_work (xc_known d)) = Some w"
    and run: "project_batch lower mirror batch k now d = Inr (d', u, False)"
    and soon: "now' < now + minutes 5"
  obtains w' where "List.find (projection_owned k now') (kd_work (xc_known d')) = Some w'"
    "keyed member_key (xc_members d')" "keyed work_key (kd_work (xc_known d'))"
    "u = batch" "batch \<le> length (left_for w (xc_known d) (xc_members d))"
    "length (left_for w' (xc_known d') (xc_members d')) = length (left_for w (xc_known d) (xc_members d)) - batch"
    "map member_shown (project_members lower mirror w' (xc_known d') t (xc_members d'))
      = map member_shown (project_members lower mirror w (xc_known d) t (xc_members d))"
proof -
  let ?rows = "xc_members d" and ?known = "xc_known d"
  let ?left = "left_for w ?known ?rows"
  let ?page = "take batch ?left"
  let ?f = "project_row lower mirror (coalesce (pw_active_revision w) 0) (pw_active_run w) (coalesce (pw_active_cutoff w) 0)
    ?known (member_key ` set ?page) now"
  note parts = batch_parts [OF w run]
  note held = find_heldD [OF w]
  have long: "batch \<le> length ?left" using parts(2) by simp
  have u: "u = batch" using parts(2,3) by simp
  define w' where "w' = advanced_work w ?page now"
  have work: "kd_work (xc_known d') = sql_update (advance_work_row k (mb_group (last ?page), mb_participant (last ?page)) now) (kd_work ?known)"
    using parts(4) by simp
  have keyed': "keyed work_key (kd_work (xc_known d'))"
    unfolding work using keyed(2) by (subst keyed_sql_update) (auto simp: advance_work_row_def work_key_def)
  have "w' \<in> set (kd_work (xc_known d'))" unfolding work
    by (rule sql_update_mem_changed [OF held(1)])
      (use held(2) in \<open>simp add: advance_work_row_def w'_def advanced_work_def projection_owned_def work_held_def\<close>)
  moreover have "projection_owned k now' w'"
    using held(2) soon by (simp add: projection_owned_def work_held_def work_key_def w'_def advanced_work_def null_after_Some)
  ultimately have found: "List.find (projection_owned k now') (kd_work (xc_known d')) = Some w'" by (rule find_held [OF keyed'])
  have same: "pw_session w' = pw_session w" "pw_identity w' = pw_identity w" "pw_active_run w' = pw_active_run w"
    "pw_active_revision w' = pw_active_revision w" "pw_active_cutoff w' = pw_active_cutoff w"
    "pw_cursor w' = Some (mb_group (last ?page), mb_participant (last ?page))"
    by (simp_all add: w'_def advanced_work_def)
  let ?A = "affected_by (pw_session w) (pw_active_run w) (pw_identity w) ?known"
  have next_left: "left_for w' ?known ?rows = drop batch ?left" "\<And>x. to_project (pw_session w) ?A (pw_cursor w') x \<Longrightarrow> to_project (pw_session w) ?A (pw_cursor w) x"
    using pages_left_next [OF keyed(1) b, of "pw_session w" ?A "pw_cursor w"] long
    by (simp_all add: left_for_def same member_page_take)
  have aff: "affected_by sid r n (xc_known d') = affected_by sid r n ?known" for sid r n using parts(4) by (simp add: affected_by_work)
  have "length (left_for w' (xc_known d') (xc_members d')) = length (filter (to_project (pw_session w) ?A (pw_cursor w')) (xc_members d'))"
    by (simp add: left_for_def length_pages_left aff same)
  also have "\<dots> = length (filter (to_project (pw_session w) ?A (pw_cursor w')) ?rows)"
    unfolding parts(1) map_after filter_map length_map by (simp add: comp_def to_project_after)
  also have "\<dots> = length (left_for w' ?known ?rows)" by (simp add: left_for_def length_pages_left same)
  finally have len: "length (left_for w' (xc_known d') (xc_members d')) = length ?left - batch" by (simp add: next_left(1))
  have "member_shown (row_after (project_once lower mirror w' (xc_known d') t) (row_after ?f m))
      = member_shown (row_after (project_once lower mirror w ?known t) m)" if m: "m \<in> set ?rows" for m
  proof (rule shown_step)
    have once': "project_once lower mirror w' (xc_known d') t x = project_once lower mirror w' ?known t x" for x
      using parts(4) by (simp add: project_once_work)
    have "distinct ?left" using pages_left_sorted [OF keyed(1)] by (simp add: left_for_def strict_sorted_iff distinct_map)
    then have apart: "set ?page \<inter> set (drop batch ?left) = {}" by (rule set_take_disj_set_drop_if_distinct) simp
    have cut: "m \<in> set ?left \<longleftrightarrow> m \<in> set ?page \<or> m \<in> set (drop batch ?left)" by (metis Un_iff append_take_drop_id set_append)
    show "row_after ?f m = row_after (project_once lower mirror w ?known now) m
        \<and> row_after (project_once lower mirror w' (xc_known d') t) (row_after ?f m) = row_after ?f m
      \<or> row_after ?f m = m \<and> row_after (project_once lower mirror w' (xc_known d') t) m = row_after (project_once lower mirror w ?known t) m"
    proof (cases "m \<in> set ?page")
      case True
      then have "m \<notin> set (left_for w' ?known ?rows)" using apart by (auto simp: next_left(1))
      then have "\<not> to_project (pw_session w) ?A (pw_cursor w') m" using m by (simp add: left_for_def set_pages_left same)
      then have "\<not> to_project (pw_session w) ?A (pw_cursor w') (row_after ?f m)" by (simp add: to_project_after)
      then have "row_after (project_once lower mirror w' (xc_known d') t) (row_after ?f m) = row_after ?f m"
        by (simp add: row_after_def [of "project_once lower mirror w' (xc_known d') t"] once' project_once_def same Let_def aff)
      moreover have "row_after ?f m = row_after (project_once lower mirror w ?known now) m"
        using batch_row [OF keyed(1) m, of lower mirror w ?known batch now] True by (simp add: row_after_def)
      ultimately show ?thesis by blast
    next
      case False
      then have "row_after ?f m = m" using batch_row [OF keyed(1) m, of lower mirror w ?known batch now] by (simp add: row_after_def)
      moreover have "project_once lower mirror w' ?known t m = project_once lower mirror w ?known t m"
        using False cut by (simp add: project_once_iff [OF m] next_left(1) same)
      ultimately show ?thesis by (simp add: row_after_def [of "project_once lower mirror w' (xc_known d') t"] once' row_after_def [of "project_once lower mirror w ?known t"])
    qed
  qed
  then have "map member_shown (project_members lower mirror w' (xc_known d') t (xc_members d'))
      = map member_shown (project_members lower mirror w ?known t ?rows)"
    unfolding parts(1) project_members_def map_after map_map by simp
  moreover have "keyed member_key (xc_members d')" unfolding parts(1) by (rule keyed_after [OF keyed(1)])
  ultimately show thesis using that [OF found] keyed' u long len by blast
qed

section \<open>A small projection\<close>

definition sample_work :: projection_work where
  "sample_work = (new_projection_work ''s1'' ''PHONE_JID:49@c.us'' 1 2)\<lparr>pw_status := P_RUNNING, pw_active_revision := Some 1,
     pw_active_cutoff := Some 2, pw_lease_token := Some ''t'', pw_lease_expires_at := Some 100\<rparr>"

definition claimed_store :: contact_store where
  "claimed_store = joined_store\<lparr>xc_known := (xc_known joined_store)\<lparr>kd_work := [sample_work]\<rparr>\<rparr>"

definition sample_projection :: projection_claim where
  "sample_projection = \<lparr>qk_session = ''s1'', qk_identity = ''PHONE_JID:49@c.us'', qk_token = ''t''\<rparr>"

lemma claimed_facts:
  "keyed member_key (xc_members claimed_store)" "keyed work_key (kd_work (xc_known claimed_store))"
  "List.find (projection_owned sample_projection 0) (kd_work (xc_known claimed_store)) = Some sample_work"
  "length (left_for sample_work (xc_known claimed_store) (xc_members claimed_store)) = 1"
  "map mb_shadow_phone (project_members id True sample_work (xc_known claimed_store) 9 (xc_members claimed_store)) = [Some ''49'']"
  by code_simp+

section \<open>All batches\<close>

text \<open>C26: When nobody interferes and each batch comes within the five minutes of the lease, the loop over the batches of a claim
  ends after one batch more than full pages fit: either a CHECK of the table stops it, or it reports that it has finished
  and the number of members there were, and the members show exactly what projecting all of them at once gives.\<close>

theorem batches_project_members:
  assumes "keyed member_key (xc_members d)" "keyed work_key (kd_work (xc_known d))" "0 < batch"
    and "List.find (projection_owned k (clock i)) (kd_work (xc_known d)) = Some w"
    and "\<And>j. clock (Suc j) < clock j + minutes 5"
    and "length (left_for w (xc_known d) (xc_members d)) div batch < n"
  shows "case run_batches lower mirror batch k clock (\<lambda>j d. d) n i d of
      (d', Inl e) \<Rightarrow> e = MemberCheck
    | (d', Inr (u, finished)) \<Rightarrow> finished \<and> u = length (left_for w (xc_known d) (xc_members d))
        \<and> map member_shown (xc_members d') = map member_shown (project_members lower mirror w (xc_known d) t (xc_members d))"
  using assms
proof (induction n arbitrary: i d w)
  case (Suc n)
  let ?left = "left_for w (xc_known d) (xc_members d)"
  show ?case
  proof (cases "project_batch lower mirror batch k (clock i) d")
    case (Inl e)
    then have "e = MemberCheck" using Suc.prems(4) by (auto simp: project_batch_def Let_def split: if_splits)
    then show ?thesis by (simp add: Inl)
  next
    case (Inr r)
    obtain d1 u finished where r: "r = (d1, u, finished)" by (cases r)
    note run = Inr [unfolded r]
    show ?thesis
    proof (cases finished)
      case True
      then show ?thesis using batch_last(1) [OF Suc.prems(1,4), where lower = lower and mirror = mirror and batch = batch and d' = d1 and u = u]
        batch_last(2) [OF Suc.prems(1,4), where lower = lower and mirror = mirror and batch = batch and d' = d1 and u = u and t = t] run
        by (simp add: run)
    next
      case False
      obtain w' where w': "List.find (projection_owned k (clock (Suc i))) (kd_work (xc_known d1)) = Some w'"
        "keyed member_key (xc_members d1)" "keyed work_key (kd_work (xc_known d1))" "u = batch" "batch \<le> length ?left"
        "length (left_for w' (xc_known d1) (xc_members d1)) = length ?left - batch"
        "map member_shown (project_members lower mirror w' (xc_known d1) t (xc_members d1))
          = map member_shown (project_members lower mirror w (xc_known d) t (xc_members d))"
        by (rule batch_next [OF Suc.prems(1-4), where lower = lower and mirror = mirror and d' = d1 and u = u and now' = "clock (Suc i)" and t = t]) (use run False Suc.prems(5) in simp_all)
      have bound: "(length ?left - batch) div batch < n"
        using Suc.prems(3,6) w'(5) by (simp add: le_div_geq)
      have rest: "case run_batches lower mirror batch k clock (\<lambda>j d. d) n (Suc i) d1 of
          (d', Inl e) \<Rightarrow> e = MemberCheck
        | (d', Inr (u, finished)) \<Rightarrow> finished \<and> u = length ?left - batch
            \<and> map member_shown (xc_members d') = map member_shown (project_members lower mirror w (xc_known d) t (xc_members d))"
        by (rule Suc.IH [OF w'(2,3) Suc.prems(3) w'(1) Suc.prems(5), unfolded w'(6,7), OF bound])
      obtain d2 r2 where next_run: "run_batches lower mirror batch k clock (\<lambda>j d. d) n (Suc i) d1 = (d2, r2)" by fastforce
      show ?thesis
      proof (cases r2)
        case (Inl e)
        then show ?thesis using rest by (simp add: run next_run False)
      next
        case (Inr p)
        obtain v f where "p = (v, f)" by (cases p)
        then show ?thesis using rest w'(4,5) by (simp add: run next_run False Inr)
      qed
    qed
  qed
qed simp

theorem batches_project_members_witness:
  "case run_batches id True 1 sample_projection int (\<lambda>j d. d) 2 0 claimed_store of
      (d', Inl e) \<Rightarrow> e = MemberCheck
    | (d', Inr (u, finished)) \<Rightarrow> finished \<and> u = 1 \<and> map mb_shadow_phone (xc_members d') = [Some ''49'']"
proof -
  let ?once = "project_members id True sample_work (xc_known claimed_store) 9 (xc_members claimed_store)"
  have all: "case run_batches id True 1 sample_projection int (\<lambda>j d. d) 2 0 claimed_store of
      (d', Inl e) \<Rightarrow> e = MemberCheck
    | (d', Inr (u, finished)) \<Rightarrow> finished \<and> u = length (left_for sample_work (xc_known claimed_store) (xc_members claimed_store))
        \<and> map member_shown (xc_members d') = map member_shown ?once"
    by (rule batches_project_members) (simp_all add: claimed_facts minutes_def seconds_def)
  obtain d' r where run: "run_batches id True 1 sample_projection int (\<lambda>j d. d) 2 0 claimed_store = (d', r)" by fastforce
  show ?thesis
  proof (cases r)
    case (Inl e)
    then show ?thesis using all by (simp add: run del: One_nat_def)
  next
    case (Inr p)
    obtain u f where p: "p = (u, f)" by (cases p)
    have "map member_shown (xc_members d') = map member_shown ?once" using all by (simp add: run Inr p del: One_nat_def)
    then have "map (\<lambda>s. fst (snd (snd s))) (map member_shown (xc_members d')) = map (\<lambda>s. fst (snd (snd s))) (map member_shown ?once)"
      by (rule arg_cong)
    then have "map mb_shadow_phone (xc_members d') = map mb_shadow_phone ?once"
      by (simp add: comp_def member_shown_def shadow_columns_def)
    then show ?thesis using all claimed_facts(4,5) by (simp add: run Inr p del: One_nat_def)
  qed
qed

end
