(* ===== verification/Contact_Backfill.thy ===== *)
theory Contact_Backfill
  imports Contact_Sweeps Contact_Batches
begin

text \<open>
  src/src/modules/contacts/contact-member-identity-backfill.repository.ts and its tick, which give the members of old
  groups their type and phone number, and how the sweep for evidence reads the same participants otherwise.
\<close>

section \<open>The job\<close>

datatype backfill_status = BJ_PENDING | BJ_RUNNING | BJ_RETRY | BJ_COMPLETED

record backfill_job =
  bj_status :: backfill_status
  bj_attempts :: nat
  bj_token :: "uuid option"
  bj_expires_at :: "timestamp option"
  bj_next_attempt_at :: timestamp
  bj_last :: "(string \<times> string \<times> string) option"
  bj_rows :: nat
  bj_started_at :: "timestamp option"
  bj_completed_at :: "timestamp option"
  bj_error :: "string option"
  bj_updated_at :: timestamp

definition untyped :: "group_member \<Rightarrow> bool" where
  "untyped m \<longleftrightarrow> mb_identity_type m = None"

text \<open>A job that was done starts again when a member without a type has come.\<close>

definition backfill_due :: "timestamp \<Rightarrow> group_member table \<Rightarrow> backfill_job \<Rightarrow> bool" where
  "backfill_due now ms j \<longleftrightarrow> bj_next_attempt_at j \<le> now
     \<and> (bj_status j \<in> {BJ_PENDING, BJ_RETRY} \<or> bj_status j = BJ_RUNNING \<and> null_before (bj_expires_at j) now
        \<or> bj_status j = BJ_COMPLETED \<and> list_ex untyped ms)"

definition claim_backfill :: "uuid \<Rightarrow> timestamp \<Rightarrow> group_member table \<Rightarrow> backfill_job \<Rightarrow> backfill_job option" where
  "claim_backfill t now ms j = (if \<not> backfill_due now ms j then None else Some (j\<lparr>bj_status := BJ_RUNNING,
     bj_attempts := (if bj_status j \<in> {BJ_RETRY, BJ_RUNNING} then bj_attempts j + 1 else bj_attempts j),
     bj_token := Some t, bj_expires_at := Some (now + minutes 2),
     bj_started_at := Some (coalesce (bj_started_at j) now), bj_completed_at := None, bj_error := None,
     bj_updated_at := now\<rparr>))"

definition backfill_held :: "uuid \<Rightarrow> backfill_job \<Rightarrow> bool" where
  "backfill_held t j \<longleftrightarrow> bj_status j = BJ_RUNNING \<and> bj_token j = Some t"

section \<open>Batches\<close>

definition backfill_type :: "string \<Rightarrow> identity_type" where
  "backfill_type p = sweep_type (strip_device p)"

definition backfill_phone :: "string \<Rightarrow> string option" where
  "backfill_phone p = (let phone = drop_jid (strip_device p) in
     if backfill_type p = PHONE_JID \<and> all_digits phone then Some phone else None)"

definition backfill_row :: "(string \<times> string \<times> string) set \<Rightarrow> timestamp \<Rightarrow> group_member row_update" where
  "backfill_row page now = sql_where (\<lambda>m. member_key m \<in> page \<and> untyped m)
     (\<lambda>m. m\<lparr>mb_identity_type := Some (backfill_type (mb_participant m)), mb_phone := backfill_phone (mb_participant m),
        mb_updated_at := now\<rparr>)"

text \<open>
  How many members the batch typed, and whether none is left; None when the lease is not held. The row of the job is
  locked, so it is still held when the batch ends.
\<close>

definition process_backfill ::
  "nat \<Rightarrow> uuid \<Rightarrow> timestamp \<Rightarrow> backfill_job \<times> group_member table \<Rightarrow> (backfill_job \<times> group_member table) \<times> (nat \<times> bool) option" where
  "process_backfill batch t now s = (case s of (j, ms) \<Rightarrow>
     if \<not> (backfill_held t j \<and> null_after (bj_expires_at j) now) then (s, None) else
     let page = sql_top batch member_key untyped ms; f = backfill_row (member_key ` set page) now; ms' = sql_update f ms;
         updated = sql_count f ms; finished = \<not> list_ex untyped ms' in
     ((j\<lparr>bj_status := (if finished then BJ_COMPLETED else BJ_RUNNING), bj_rows := bj_rows j + updated,
        bj_last := coalesce_opt (map_option member_key (last_of page)) (bj_last j),
        bj_attempts := (if finished then 0 else bj_attempts j), bj_completed_at := (if finished then Some now else None),
        bj_token := (if finished then None else bj_token j),
        bj_expires_at := (if finished then None else Some (now + minutes 2)), bj_updated_at := now\<rparr>, ms'),
      Some (updated, finished)))"

definition release_backfill :: "uuid \<Rightarrow> timestamp \<Rightarrow> backfill_job \<Rightarrow> backfill_job" where
  "release_backfill t now j = (if backfill_held t j \<and> null_after (bj_expires_at j) now
     then j\<lparr>bj_status := BJ_PENDING, bj_next_attempt_at := now, bj_token := None, bj_expires_at := None, bj_updated_at := now\<rparr>
     else j)"

text \<open>LEAST(300, 5 * power(2, LEAST(attempt_count, 6))) seconds.\<close>

definition backfill_backoff :: "nat \<Rightarrow> timestamp" where
  "backfill_backoff attempts = seconds (min 300 (5 * 2 ^ min attempts 6))"

definition fail_backfill :: "uuid \<Rightarrow> string \<Rightarrow> timestamp \<Rightarrow> backfill_job \<Rightarrow> backfill_job" where
  "fail_backfill t code now j = (if backfill_held t j
     then j\<lparr>bj_status := BJ_RETRY, bj_next_attempt_at := now + backfill_backoff (bj_attempts j), bj_token := None,
        bj_expires_at := None, bj_error := Some code, bj_updated_at := now\<rparr>
     else j)"

text \<open>The loop of the tick from its i-th batch on; whether the job is to be released after it.\<close>

primrec run_backfill ::
  "nat \<Rightarrow> uuid \<Rightarrow> (nat \<Rightarrow> timestamp) \<Rightarrow> (nat \<Rightarrow> backfill_job \<times> group_member table \<Rightarrow> backfill_job \<times> group_member table)
    \<Rightarrow> nat \<Rightarrow> nat \<Rightarrow> backfill_job \<times> group_member table \<Rightarrow> (backfill_job \<times> group_member table) \<times> bool" where
  "run_backfill batch t clock others 0 i s = (s, True)"
| "run_backfill batch t clock others (Suc n) i s = (case process_backfill batch t (clock i) (others i s) of
     (s', None) \<Rightarrow> (s', False)
   | (s', Some (updated, finished)) \<Rightarrow> if finished then (s', False) else run_backfill batch t clock others n (Suc i) s')"

definition backfill_tick ::
  "bool \<Rightarrow> nat \<Rightarrow> nat \<Rightarrow> uuid \<Rightarrow> (nat \<Rightarrow> timestamp) \<Rightarrow> (nat \<Rightarrow> backfill_job \<times> group_member table \<Rightarrow> backfill_job \<times> group_member table)
    \<Rightarrow> backfill_job \<times> group_member table \<Rightarrow> backfill_job \<times> group_member table" where
  "backfill_tick enabled batch max_batches t clock others s = (if \<not> enabled then s else
     case claim_backfill t (clock 0) (snd s) (fst s) of None \<Rightarrow> s
     | Some j \<Rightarrow> (case run_backfill batch t clock others max_batches 1 (j, snd s) of
         (s', unfinished) \<Rightarrow> if unfinished
           then apfst (release_backfill t (clock (max_batches + 1))) (others (max_batches + 1) s') else s'))"

section \<open>Three readings of a participant\<close>

lemma drop_jid_phone: "ends_with ''@c.us'' s \<or> ends_with ''@s.whatsapp.net'' s \<Longrightarrow> phone_part s = Some (drop_jid s)"
  by (auto simp: phone_part_def drop_jid_def drop_end_def eval_nat_numeral)

lemma phone_part_iff: "phone_part s = None \<longleftrightarrow> \<not> (ends_with ''@c.us'' s \<or> ends_with ''@s.whatsapp.net'' s)"
  by (simp add: phone_part_def)

lemma phone_part_ends: "phone_part s = Some x \<Longrightarrow> ends_with ''@c.us'' s \<or> ends_with ''@s.whatsapp.net'' s"
  by (auto simp: phone_part_def split: if_splits)

text \<open>C36: The backfill in SQL reads a participant whose id has no white space around it (SQL does not trim) as
  normalizeContactIdentity does: the same phone number always, and the same type except for a phone address whose number is not made of digits, which SQL calls PHONE_JID and TypeScript
  OTHER_JID.\<close>

theorem backfill_reads_as_normalized:
  assumes "js_trim p = p"
  shows "backfill_phone p = ni_phone (normalize_contact_identity p)
    \<and> (backfill_type p = ni_type (normalize_contact_identity p) \<longleftrightarrow> backfill_type p \<noteq> PHONE_JID \<or> backfill_phone p \<noteq> None)"
  by (auto dest: phone_part_ends
      simp: backfill_phone_def backfill_type_def sweep_type_def normalize_contact_identity_def assms Let_def
      phone_part_iff drop_jid_phone split: option.split)

theorem backfill_reads_as_normalized_witness:
  "backfill_phone ''49:3@c.us'' = Some ''49'' \<and> backfill_type ''49:3@c.us'' = PHONE_JID
    \<and> backfill_type ''x@c.us'' \<noteq> ni_type (normalize_contact_identity ''x@c.us'')"
proof -
  have trim: "js_trim ''49:3@c.us'' = ''49:3@c.us''" "js_trim ''x@c.us'' = ''x@c.us''" by code_simp+
  have "ni_phone (normalize_contact_identity ''49:3@c.us'') = Some ''49''" "backfill_phone ''x@c.us'' = None"
    "backfill_type ''49:3@c.us'' = PHONE_JID" "backfill_type ''x@c.us'' = PHONE_JID" by code_simp+
  then show ?thesis
    using backfill_reads_as_normalized [OF trim(1)] backfill_reads_as_normalized [OF trim(2)]
    by simp
qed

text \<open>A member of before the evidence, whom the sweep finds; then the claim of its work.\<close>

definition device_member :: group_member where
  "device_member = \<lparr>mb_session = ''s1'', mb_group = ''g1'', mb_participant = ''49:3@c.us'', mb_number = ''49'',
     mb_contact = None, mb_evidence_identity = None, mb_identity_type = None, mb_phone = None, mb_participant_name = None,
     mb_name = None, mb_name_source = None, mb_name_updated_at = None, mb_is_admin = False, mb_is_super_admin = False,
     mb_shadow_phone = None, mb_shadow_name = None, mb_shadow_source = None, mb_shadow_sort = None, mb_shadow_revision = 0,
     mb_shadow_run = None, mb_synced_at = 1, mb_updated_at = 1\<rparr>"

definition swept_store :: contact_store where
  "swept_store = fst (catch_up_missing_evidence True None rev (\<lambda>s. number_ids) 10 2 (empty_store\<lparr>xc_members := [device_member]\<rparr>))"

definition device_store :: contact_store where
  "device_store = on_work (\<lambda>k. fst (claim_projection None ''t'' 3 k)) swept_store"

definition device_claim :: projection_claim where
  "device_claim = \<lparr>qk_session = ''s1'', qk_identity = ''PHONE_JID:49:3@c.us'', qk_token = ''t''\<rparr>"

definition device_work :: projection_work where
  "device_work = (new_projection_work ''s1'' ''PHONE_JID:49:3@c.us'' 1 2)\<lparr>pw_status := P_RUNNING, pw_active_revision := Some 1,
     pw_active_cutoff := Some 2, pw_attempt_count := 1, pw_lease_token := Some ''t'', pw_lease_expires_at := Some 300003,
     pw_updated_at := 3\<rparr>"

definition swept_member :: group_member where
  "swept_member = device_member\<lparr>mb_evidence_identity := Some ''PHONE_JID:49:3@c.us'', mb_identity_type := Some PHONE_JID,
     mb_updated_at := 2\<rparr>"

lemma device_facts:
  "List.find (projection_owned device_claim 4) (kd_work (xc_known device_store)) = Some device_work"
  "take 10 (left_for device_work (xc_known device_store) (xc_members device_store)) = [swept_member]"
  "Option.bind (mb_evidence_identity swept_member) (\<lambda>n. identity_row (mb_session swept_member) n (xc_known device_store))
    = Some (new_identity number_ids ''s1'' PHONE_JID ''49:3@c.us'' 1)"
  "resolved_assignment ''s1'' None ''PHONE_JID:49:3@c.us'' (xc_known device_store) = None"
  "\<not> all_digits (drop_c_us ''49:3@c.us'')"
  by code_simp+

text \<open>C37: A member whose identity is a phone address that is not made of digits, as the sweep for missing evidence records it
  for a participant with a device, is not projected as long as no resolution of the active run resolves that identity: a
  batch with such a member in its page, whose projection is not newer than the active revision, violates the CHECK on
  phone numbers, and the whole page rolls back.\<close>

theorem unparsed_phone_blocks_projection:
  assumes "List.find (projection_owned k now) (kd_work (xc_known d)) = Some w"
    and "m \<in> set (take batch (left_for w (xc_known d) (xc_members d)))"
    and "mb_shadow_revision m \<le> coalesce (pw_active_revision w) 0"
    and "Option.bind (mb_evidence_identity m) (\<lambda>n. identity_row (mb_session m) n (xc_known d)) = Some i"
    and "ob_type i = PHONE_JID" "\<not> all_digits (drop_c_us (ob_value i))"
    and "resolved_assignment (mb_session m) (pw_active_run w) (ob_id i) (xc_known d) = None"
  shows "project_batch lower mirror batch k now d = Inl MemberCheck"
proof -
  let ?page = "member_page batch (qk_session k) (affected_by (qk_session k) (pw_active_run w) (qk_identity k) (xc_known d)) (pw_cursor w)
      (xc_members d)"
  let ?f = "project_row lower mirror (coalesce (pw_active_revision w) 0) (pw_active_run w) (coalesce (pw_active_cutoff w) 0)
    (xc_known d) (member_key ` set ?page) now"
  have page: "?page = take batch (left_for w (xc_known d) (xc_members d))"
    using find_heldD(3,4) [OF assms(1)] by (simp add: left_for_def member_page_take)
  obtain p where p: "project_member lower (pw_active_run w) (coalesce (pw_active_cutoff w) 0) (xc_known d) m = Some p"
    "mp_phone p = Some (drop_c_us (ob_value i))"
    using assms(4,5,7) by (simp add: project_member_def projected_phone_def Let_def)
  let ?m = "write_projection mirror (coalesce (pw_active_revision w) 0) (pw_active_run w) now p m"
  have "?f m = Some ?m" using assms(2,3) p(1) by (simp add: project_row_def page)
  moreover have "m \<in> set (xc_members d)"
    using set_take_subset [of batch] assms(2) by (fastforce simp: left_for_def set_pages_left)
  ultimately have "?m \<in> set (sql_returning ?f (xc_members d))" by (auto simp: set_sql_returning)
  moreover have "\<not> member_checked ?m" using p(2) assms(6) by (simp add: member_checked_def write_projection_def Let_def)
  ultimately show ?thesis using assms(1) by (auto simp: project_batch_def Let_def)
qed

theorem unparsed_phone_blocks_projection_witness:
  "project_batch id True 10 device_claim 4 device_store = Inl MemberCheck"
proof -
  have "swept_member \<in> set (take 10 (left_for device_work (xc_known device_store) (xc_members device_store)))"
    by (simp add: device_facts(2))
  then show ?thesis
    by (rule unparsed_phone_blocks_projection [OF device_facts(1) _ _ device_facts(3)])
      (simp_all add: device_facts(4,5) swept_member_def device_member_def device_work_def new_projection_work_def new_identity_def
        number_ids_def type_text_def)
qed

end
