(* ===== verification/Contact_Observer.thy ===== *)
theory Contact_Observer
  imports Contact_Intents Contact_Sweeps
begin

text \<open>
  The senders of messages that wait to be observed, src/src/modules/contacts/contact-message-observation.tick.ts with
  contact-message-observer.service.ts, and what the contacts report of themselves: the queue of the projection and the
  coverage of the members of a session.
\<close>

section \<open>The tick of the observations\<close>

record observer_input =
  bs_enabled :: bool
  bs_limit :: nat
  bs_observing :: bool
  bs_writer :: writer_config
  bs_md5 :: "string \<Rightarrow> string"
  bs_ids :: evidence_ids
  bs_tokens :: "string \<Rightarrow> uuid"
  bs_candidate :: "nat \<Rightarrow> uuid"
  bs_clock :: "nat \<Rightarrow> timestamp"
  bs_error :: "nat \<Rightarrow> string option"

text \<open>The service observes only where it is enabled.\<close>

definition observe_claimed :: "observer_input \<Rightarrow> nat \<Rightarrow> observation_intent \<Rightarrow> contact_store \<Rightarrow> contact_store \<times> bool" where
  "observe_claimed s k i d = (let ob = oi_observation i in if \<not> bs_observing s then (d, False) else
     observe_message_sender (bs_writer s) (bs_md5 s) (bs_ids s) (bs_candidate s k) (so_session_id ob) (so_sender_id ob)
       (Some (so_push_name ob)) (so_observed_at ob) (so_event_id ob) (bs_clock s k) d)"

record observer_counts =
  bc_completed :: nat
  bc_retried :: nat
  bc_dead :: nat
  bc_lost :: nat

text \<open>The k-th claim; an error of the database rolls its observation back.\<close>

primrec observe_claims ::
  "observer_input \<Rightarrow> nat \<Rightarrow> observation_intent list \<Rightarrow> observation_intent table \<times> contact_store
    \<Rightarrow> (observation_intent table \<times> contact_store) \<times> observer_counts" where
  "observe_claims s k [] p = (p, \<lparr>bc_completed = 0, bc_retried = 0, bc_dead = 0, bc_lost = 0\<rparr>)"
| "observe_claims s k (i # claims) p = (case p of (rows, d) \<Rightarrow>
     let key = oi_key i; t = coalesce (oi_lease_token i) [] in
     (case bs_error s k of
        None \<Rightarrow> (let d1 = fst (observe_claimed s k i d); (rows1, held) = complete_observation key t rows;
            (p', c) = observe_claims s (Suc k) claims (rows1, d1) in
          (p', if held then c\<lparr>bc_completed := bc_completed c + 1\<rparr> else c\<lparr>bc_lost := bc_lost c + 1\<rparr>))
      | Some err \<Rightarrow> (let (rows1, r) = fail_observation key t err (bs_clock s k) rows;
            (p', c) = observe_claims s (Suc k) claims (rows1, d) in
          (p', case r of WillRetry \<Rightarrow> c\<lparr>bc_retried := bc_retried c + 1\<rparr> | IsDead \<Rightarrow> c\<lparr>bc_dead := bc_dead c + 1\<rparr>
             | LostOwnership \<Rightarrow> c\<lparr>bc_lost := bc_lost c + 1\<rparr>))))"

definition observation_tick ::
  "observer_input \<Rightarrow> observation_intent table \<times> contact_store \<Rightarrow> (observation_intent table \<times> contact_store) \<times> observer_counts" where
  "observation_tick s p = (if \<not> bs_enabled s then (p, \<lparr>bc_completed = 0, bc_retried = 0, bc_dead = 0, bc_lost = 0\<rparr>) else
     let rows = sql_update (recover_observation_row (bs_clock s 0)) (fst p);
         (rows1, claims) = claim_observations (bs_tokens s) (bs_limit s) (bs_clock s 0) rows in
     observe_claims s 1 claims (rows1, snd p))"

section \<open>Metrics\<close>

record projection_metrics =
  qm_pending :: int
  qm_inactive :: nat
  qm_failed :: nat
  qm_lag :: timestamp

definition projection_queue :: "string list option \<Rightarrow> timestamp \<Rightarrow> projection_work table \<Rightarrow> projection_metrics" where
  "projection_queue allowed now ws =
     (let waiting = filter (\<lambda>w. pw_status w \<in> {P_PENDING, P_RUNNING, P_RETRY}) ws;
          inactive = filter (\<lambda>w. \<not> listed allowed (pw_session w)) waiting;
          lags = map (\<lambda>w. now - pw_first_requested_at w) (filter (\<lambda>w. listed allowed (pw_session w)) waiting) in
      \<lparr>qm_pending = int (length waiting) - int (length inactive), qm_inactive = length inactive,
       qm_failed = length (filter (\<lambda>w. pw_status w = P_FAILED \<and> listed allowed (pw_session w)) ws),
       qm_lag = (if lags = [] then 0 else Max (set lags))\<rparr>)"

text \<open>The identifier of a member's contact that is its participant, if there is one.\<close>

definition own_identifier :: "contact_store \<Rightarrow> group_member \<Rightarrow> contact_identifier option" where
  "own_identifier d m = List.find (\<lambda>i. ki_session i = mb_session m \<and> Some (ki_contact i) = mb_contact m
     \<and> ki_type i = sweep_type (mb_participant m) \<and> ki_value i = sweep_value (mb_participant m)) (xc_identifiers d)"

record coverage_metrics =
  cm_members :: nat
  cm_linked :: nat
  cm_named :: nat
  cm_lid :: nat
  cm_named_lid :: nat
  cm_phone_jid :: nat
  cm_named_phone_jid :: nat
  cm_contact_name :: nat
  cm_participant_name :: nat
  cm_push_name :: nat
  cm_projected :: nat
  cm_shadow_named :: nat
  cm_shadow_phone :: nat
  cm_shadow_alias :: nat

definition coverage_of :: "string \<Rightarrow> contact_store \<Rightarrow> coverage_metrics" where
  "coverage_of sid d = (let ms = filter (\<lambda>m. mb_session m = sid) (xc_members d); count = (\<lambda>P. length (filter P ms));
       typed = (\<lambda>t m. map_option ki_type (own_identifier d m) = Some t); named = (\<lambda>m. mb_name m \<noteq> None) in
     \<lparr>cm_members = length ms, cm_linked = count (\<lambda>m. mb_contact m \<noteq> None), cm_named = count named,
      cm_lid = count (typed LID), cm_named_lid = count (\<lambda>m. typed LID m \<and> named m),
      cm_phone_jid = count (typed PHONE_JID), cm_named_phone_jid = count (\<lambda>m. typed PHONE_JID m \<and> named m),
      cm_contact_name = count (\<lambda>m. mb_name_source m = Some OPENWA_CONTACT_NAME),
      cm_participant_name = count (\<lambda>m. mb_name_source m = Some GROUP_PARTICIPANT_NAME),
      cm_push_name = count (\<lambda>m. mb_name_source m = Some OPENWA_PUSH_NAME),
      cm_projected = count (\<lambda>m. 0 < mb_shadow_revision m), cm_shadow_named = count (\<lambda>m. mb_shadow_name m \<noteq> None),
      cm_shadow_phone = count (\<lambda>m. mb_shadow_phone m \<noteq> None),
      cm_shadow_alias = count (\<lambda>m. mb_shadow_source m = Some alias_source)\<rparr>)"

end
