(* ===== verification/Spec2Isabelle.thy ===== *)
theory Spec2Isabelle
  imports Message_Worker Send_Policy Preflight Config Campaign_Sends Sync_Outcomes Webhook_Requests Contact_Resolution
    Openwa_Client Data_Retention Scheduler Dispatch_Ticks Contact_Numbers Contact_Store Contact_Joins Contact_Published Contact_Backfill Contact_Observer
begin

text \<open>
  Verification development of the WhatsApp Runtime, the TypeScript service under src/src that sends
  single messages and campaigns to WhatsApp groups through the OpenWA gateway, and keeps a read model of
  the gateway's sessions and groups.

  The program. Several API, worker and scheduler processes share one PostgreSQL database and talk only
  through it. Each repository class owns a few tables and every method is one transaction, mostly one
  UPDATE whose WHERE clause is the guard; services check, call one or two repository methods and map the
  result; scheduler ticks find due work, and workers claim it under a lease with a token and an expiry.
  What makes the system correct is therefore in the row updates: which guard admits which change, and
  what survives any interleaving of them.

  The model. A table is a list of rows (Prelude), a row a record with the columns the code reads, an
  UPDATE a partial function on rows (sql_update, sql_returning, sql_count for the rows, RETURNING and
  rowCount), INSERT ... ON CONFLICT an insertion that looks for the key. A method is a function from the
  database to the database and its result, named after the method; a service method that reads and
  writes in two transactions is split or takes the two states. Errors are sums or result datatypes. now()
  is the argument now, new Date() the argument wall, generated identifiers and tokens are arguments,
  random() is a noise argument and hashes are parameters. Concurrency is the interleaving of whole
  transactions, which row locks and guards of the code reduce it to; the message worker, whose steps are
  separate transactions with a POST between them, is a step machine with a program counter.

  Theories and the code they model:
    Prelude         SQL statements over lists, NULL comparisons, backoff, strings
    Leases          the contract of claim, settle, renew, sweep; interpreted by every leased row
    Schema          rows of the message, group, campaign and list tables; the whole database
    Gateway_Schema  rows of the synchronization tables
    Config          core/config/runtime-config.ts
    Idempotency     the lookup by scope and key that three create methods share
    Message_Jobs    modules/messages/message-job.repository.ts, message-idempotency.ts
    Send_Policy     message-send-policy.service.ts, message-job.service.ts and the gateway reads
    Session_Lease   outbound-session-lease.repository.ts
    Message_Worker  message-job-processor.service.ts, outbound-session-lease.service.ts
    Group_Capability  group-capability.ts, gateway-capability.repository.ts and the snapshot writers
    Group_Lists     modules/group-lists
    Preflight       campaign-preflight.ts, campaign-preflight.service.ts
    Campaigns       campaign.repository.ts, campaign.service.ts
    Campaign_Runs   campaign-run.repository.ts, its lifecycle, persistence, delivery repository, service
    Campaign_Lifecycle, Campaign_History, Campaign_Deliveries, Campaign_Sends
                    all campaign transactions in any order: what they keep and what they promise
    Sync_Runs, Sync_Items, Group_Intents, Sync_Pacing
                    the gateway synchronization repositories and their write fences
    Sync_Progress, Sync_Claims
                    all statements of the synchronization in any order
    Sessions        gateway.repository.ts (session rows), session.service.ts
    Sync_Service    gateway-sync.service.ts, its processor and gateway-dispatch.tick.ts
    Sync_Outcomes   what the jobs of the synchronization leave behind
    Json            the JSON values of webhook bodies, and String, truthiness and ?? on them
    Runtime_Events  webhook-normalizer.ts, runtime-event.repository.ts
    Webhooks        webhook.repository.ts, webhook-processor.service.ts, webhook.controller.ts,
                    webhook-signature.ts, webhook-dispatch.tick.ts
    Webhook_Requests
                    requests to the controller in any order, with the workers and the retention in between
  The contacts, modules/contacts:
    Contact_Names   contact-normalization.ts, contact-name-resolution.sql.ts
    Contact_Intents contact-message-observation-intent.repository.ts
    Contact_Resolution
                    contact-resolution.repository.ts, contact-projection.enqueue.ts and the tick
    Contact_Evidence, Contact_Numbers
                    contact-evidence.writer.ts, and what a resolution makes of its evidence
    Contact_Store   contact.repository.ts, contact-observation.repository.ts and the members of
                    gateway-group-snapshot.repository.ts
    Contact_Snapshots
                    contact-snapshot-lifecycle.repository.ts, contact-sync.service.ts, the periodic sync
    Contact_Invariants, Contact_Merges, Contact_Consistency, Contact_Joins, Contact_Published
                    all transactions on contacts in any order: what they keep, merges, published snapshots
    Contact_Projection, Contact_Batches
                    contact-projection-batch.repository.ts and the claims of contact-projection.repository.ts
    Contact_Sweeps  the sweeps of contact-projection.repository.ts, contact-projection.tick.ts
    Contact_Backfill
                    contact-member-identity-backfill.repository.ts and its tick
    Contact_Observer
                    contact-message-observation.tick.ts and the metrics
    Openwa_Client   integrations/openwa/openwa.client.ts: schemas, retries, paging
    Data_Retention  modules/orchestration/data-retention.tick.ts
    Scheduler       isolated-scheduler-tick.ts and the wake-ups of gateway-work-listener.service.ts
    Dispatch_Ticks  message-dispatch.tick.ts, campaign-dispatch.tick.ts and the lifecycle audit

  What the lemmas show. For each component: one preservation lemma per operation, an invariant over any
  sequence of operations by induction, and on top of them the properties. Sending: a job is posted at
  most once, what the outcome becomes, a session has one sender at a time. Capability: columns stay
  consistent and a revision pins whether a group is ALLOWED, which is what a campaign run relies on when
  it compares revisions before each send. Lists and campaigns: optimistic revisions, idempotency keys,
  snapshots that never change, no drift between the status of a campaign and of its live run.
  Deliveries: each group of a run is queued once, within the buffer, only while the approved capability
  holds, and progress is made. Synchronization: writes are fenced by epochs, runs agree with their items,
  event intents implement a dirty flag and lose no event, reads of a session are paced, attempts end; the
  services keep that invariant through every job, with arbitrary changes of other workers between their
  transactions, and settle an item by the outcome of its read. Webhooks: deliveries, leases, crashes and
  retries refine one atomic run over the committed webhooks, each once, and
  only what came in an authentic request is stored or takes effect; observations of a session commute.
  Contacts: through every history keys are unique, references lead somewhere and the names shown are those
  known (Contact_Invariants has one lemma for each kind of change, Contact_Consistency one for each transaction);
  a merge joins exactly what unambiguous evidence connects; a published snapshot never changes; a resolution assigns
  each identity to the least identity of its connected component, links nothing on contradictory evidence and gives
  a phone number only where it is unambiguous; the batches of a projection end and do what one pass over
  all members would; the readings of a participant in SQL and in TypeScript are compared. Client: requests are
  repeated a bounded number of times and only when that is harmless, lists come back whole or not at all, what
  is returned fits its schema. Retention deletes only settled rows, and leaves no dangling reference. Scheduler:
  runs of a tick never overlap and a started tick never falls silent; a wake-up during a run of the
  timer is lost, one during a run of a wake-up is made up for; stopping and starting during a run leaves a second timer.

  Bounds. Two attempt limits are in the code, three for capability refreshes, preparations and runs, the
  configured one for items and intents; the leases of Leases.bounded_work give the bound on granted
  claims, those of Leases.refunding_work (preparations, which get the attempt of a stale result back) the bound on claims
  net of refunds. No definition needs fuel: the loops of the code run over lists of rows and are folds, or have the
  bound of their own that a tick is configured with (run_batches, run_jobs, run_backfill).

  Not modelled. SQL plans, isolation levels and constraints as such (a violated constraint is an error
  branch only where the code handles it or a property is about it: RowTwice, MemberCheck); logging, notification channels (pg_notify only wakes a worker
  early) and metrics; controllers, DTO classes and exception filters; pagination and text search.
  Text is a list of characters below 256, so the code's lengths are those of such strings.

  Plan. What is left are the paged queries of the read model and the start-up of the processes.
\<close>

end
